(* ===== verification/Iotc_Prelude.thy ===== *)
theory Iotc_Prelude
  imports Main "HOL-Library.Word"
begin

text \<open>
  Shared vocabulary of the development: the fixed-width integers of C that the
  library computes with, written as conversions on \<^typ>\<open>int\<close> and \<^typ>\<open>nat\<close>
  (so that arithmetic lemmas apply), the list lemmas that several components
  share, and the collections of simplification rules their proofs use.
\<close>

named_theorems cint \<open>definitions of the C integer conversions\<close>
named_theorems mem_simps \<open>how the allocator's operations change its state\<close>

section \<open>C integers\<close>

text \<open>
  Pointers are natural numbers and \<open>NULL\<close> is 0. \<open>size_t\<close> is 64 bits wide,
  \<open>uint32_t\<close> and \<open>uint16_t\<close> 32 and 16; \<open>int8_t\<close> is the signed byte that
  \<^verbatim>\<open>iotc_vector_index_type_t\<close> is defined as.
\<close>

type_synonym ptr = nat

abbreviation (input) NULL :: ptr where
  "NULL \<equiv> 0"

definition to_int8 :: "int \<Rightarrow> int" where
  [cint]: "to_int8 x = (x + 128) mod 256 - 128"

definition to_size :: "int \<Rightarrow> nat" where
  [cint]: "to_size x = nat (x mod 2 ^ 64)"

definition to_u32 :: "nat \<Rightarrow> nat" where
  [cint]: "to_u32 n = n mod 2 ^ 32"

definition to_u16 :: "nat \<Rightarrow> nat" where
  [cint]: "to_u16 n = n mod 2 ^ 16"

definition to_u8 :: "nat \<Rightarrow> nat" where
  [cint]: "to_u8 n = n mod 2 ^ 8"

definition to_int32 :: "int \<Rightarrow> int" where
  [cint]: "to_int32 x = (x + 2 ^ 31) mod 2 ^ 32 - 2 ^ 31"

definition to_int64 :: "int \<Rightarrow> int" where
  [cint]: "to_int64 x = (x + 2 ^ 63) mod 2 ^ 64 - 2 ^ 63"

lemma to_int8_id [simp]: "- 128 \<le> x \<Longrightarrow> x < 128 \<Longrightarrow> to_int8 x = x"
  by (simp add: cint)

lemma to_int8_range: "- 128 \<le> to_int8 x \<and> to_int8 x < 128"
proof -
  have "0 \<le> (x + 128) mod 256" and "(x + 128) mod 256 < 256"
    by (rule pos_mod_sign, simp, rule pos_mod_bound, simp)
  then show ?thesis by (simp add: cint)
qed

lemma to_int32_id [simp]: "- (2 ^ 31) \<le> x \<Longrightarrow> x < 2 ^ 31 \<Longrightarrow> to_int32 x = x"
  by (simp add: cint)

lemma to_int64_id [simp]: "- (2 ^ 63) \<le> x \<Longrightarrow> x < 2 ^ 63 \<Longrightarrow> to_int64 x = x"
  by (simp add: cint)

lemma to_size_id [simp]: "0 \<le> x \<Longrightarrow> x < 2 ^ 64 \<Longrightarrow> to_size x = nat x"
  by (simp add: cint)

lemma to_u32_id [simp]: "n < 2 ^ 32 \<Longrightarrow> to_u32 n = n"
  by (simp add: cint)

lemma to_u16_id [simp]: "n < 2 ^ 16 \<Longrightarrow> to_u16 n = n"
  by (simp add: cint)

lemma to_u8_id [simp]: "n < 2 ^ 8 \<Longrightarrow> to_u8 n = n"
  by (simp add: cint)

lemma to_u32_less: "to_u32 n < 2 ^ 32"
  by (simp add: cint)

lemma to_u16_less: "to_u16 n < 2 ^ 16"
  by (simp add: cint)

section \<open>Lists\<close>

text \<open>The swap of two cells of an array.\<close>

definition list_swap :: "'a list \<Rightarrow> nat \<Rightarrow> nat \<Rightarrow> 'a list" where
  "list_swap xs i j = xs[i := xs ! j, j := xs ! i]"

lemma length_list_swap [simp]: "length (list_swap xs i j) = length xs"
  by (simp add: list_swap_def)

lemma set_list_swap [simp]:
  "i < length xs \<Longrightarrow> j < length xs \<Longrightarrow> set (list_swap xs i j) = set xs"
  by (simp add: list_swap_def)

lemma distinct_list_swap [simp]:
  "i < length xs \<Longrightarrow> j < length xs \<Longrightarrow> distinct (list_swap xs i j) = distinct xs"
  by (simp add: list_swap_def)

lemma nth_list_swap:
  "i < length xs \<Longrightarrow> j < length xs \<Longrightarrow> k < length xs \<Longrightarrow>
   list_swap xs i j ! k = (if k = j then xs ! i else if k = i then xs ! j else xs ! k)"
  by (simp add: list_swap_def nth_list_update)

lemma list_swap_append_Cons:
  "list_swap (us @ a # b # vs) (length us) (Suc (length us)) = us @ b # a # vs"
  by (simp add: list_swap_def nth_append list_update_append)

lemma list_swap_append_Cons_rev:
  "list_swap (us @ a # b # vs) (Suc (length us)) (length us) = us @ b # a # vs"
  by (simp add: list_swap_def nth_append list_update_append)

lemma take_list_update_beyond: "n \<le> i \<Longrightarrow> take n (xs[i := x]) = take n xs"
  by simp

lemma take_Suc_list_update:
  "n < length xs \<Longrightarrow> take (Suc n) (xs[n := x]) = take n xs @ [x]"
  by (simp add: take_Suc_conv_app_nth)

lemma sorted_wrt_butlast: "sorted_wrt P xs \<Longrightarrow> sorted_wrt P (butlast xs)"
  by (metis append_butlast_last_id butlast.simps(1) sorted_wrt_append)

end
