(* ===== verification/Iotc_Error.thy ===== *)
theory Iotc_Error
  imports Iotc_Prelude
begin

text \<open>
  The state codes of \<^verbatim>\<open>include/iotc_error.h\<close>: the enumeration
  \<^verbatim>\<open>iotc_state_t\<close> with the numeric codes C gives its members (they matter,
  because some functions return the negated code), the order the codes induce,
  and the class of fatal states of the event dispatcher.
\<close>

datatype (plugins only:) iotc_state =
  IOTC_STATE_OK
  | IOTC_STATE_TIMEOUT
  | IOTC_STATE_WANT_READ
  | IOTC_STATE_WANT_WRITE
  | IOTC_STATE_WRITTEN
  | IOTC_STATE_FAILED_WRITING
  | IOTC_BACKOFF_TERMINAL
  | IOTC_OUT_OF_MEMORY
  | IOTC_SOCKET_INITIALIZATION_ERROR
  | IOTC_SOCKET_GETHOSTBYNAME_ERROR
  | IOTC_SOCKET_GETSOCKOPT_ERROR
  | IOTC_SOCKET_ERROR
  | IOTC_SOCKET_CONNECTION_ERROR
  | IOTC_SOCKET_SHUTDOWN_ERROR
  | IOTC_SOCKET_WRITE_ERROR
  | IOTC_SOCKET_READ_ERROR
  | IOTC_SOCKET_NO_ACTIVE_CONNECTION_ERROR
  | IOTC_CONNECTION_RESET_BY_PEER_ERROR
  | IOTC_FD_HANDLER_NOT_FOUND
  | IOTC_TLS_INITALIZATION_ERROR
  | IOTC_TLS_FAILED_LOADING_CERTIFICATE
  | IOTC_TLS_CONNECT_ERROR
  | IOTC_TLS_WRITE_ERROR
  | IOTC_TLS_READ_ERROR
  | IOTC_MQTT_SERIALIZER_ERROR
  | IOTC_MQTT_PARSER_ERROR
  | IOTC_MQTT_UNKNOWN_MESSAGE_ID
  | IOTC_MQTT_LOGIC_UNKNOWN_TASK_ID
  | IOTC_MQTT_LOGIC_WRONG_SCENARIO_TYPE
  | IOTC_MQTT_LOGIC_WRONG_MESSAGE_RECEIVED
  | IOTC_MQTT_UNACCEPTABLE_PROTOCOL_VERSION
  | IOTC_MQTT_IDENTIFIER_REJECTED
  | IOTC_MQTT_SERVER_UNAVAILIBLE
  | IOTC_MQTT_BAD_USERNAME_OR_PASSWORD
  | IOTC_MQTT_NOT_AUTHORIZED
  | IOTC_MQTT_CONNECT_UNKNOWN_RETURN_CODE
  | IOTC_MQTT_MESSAGE_CLASS_UNKNOWN_ERROR
  | IOTC_MQTT_PAYLOAD_SIZE_TOO_LARGE
  | IOTC_MQTT_SUBSCRIPTION_FAILED
  | IOTC_MQTT_SUBSCRIPTION_SUCCESSFULL
  | IOTC_INTERNAL_ERROR
  | IOTC_NOT_INITIALIZED
  | IOTC_FAILED_INITIALIZATION
  | IOTC_ALREADY_INITIALIZED
  | IOTC_INVALID_PARAMETER
  | IOTC_UNSET_HANDLER_ERROR
  | IOTC_NOT_IMPLEMENTED
  | IOTC_ELEMENT_NOT_FOUND
  | IOTC_SERIALIZATION_ERROR
  | IOTC_TRUNCATION_WARNING
  | IOTC_BUFFER_OVERFLOW
  | IOTC_THREAD_ERROR
  | IOTC_NULL_CONTEXT
  | IOTC_NULL_WILL_TOPIC
  | IOTC_NULL_WILL_MESSAGE
  | IOTC_NO_MORE_RESOURCE_AVAILABLE
  | IOTC_FS_RESOURCE_NOT_AVAILABLE
  | IOTC_FS_ERROR
  | IOTC_NOT_SUPPORTED
  | IOTC_EVENT_PROCESS_STOPPED
  | IOTC_STATE_RESEND
  | IOTC_NULL_HOST
  | IOTC_TLS_FAILED_CERT_ERROR
  | IOTC_FS_OPEN_ERROR
  | IOTC_FS_OPEN_READ_ONLY
  | IOTC_FS_READ_ERROR
  | IOTC_FS_WRITE_ERROR
  | IOTC_FS_CLOSE_ERROR
  | IOTC_FS_REMOVE_ERROR
  | IOTC_NULL_PROJECT_ID_ERROR
  | IOTC_ALG_NOT_SUPPORTED_ERROR
  | IOTC_JWT_FORMATTION_ERROR
  | IOTC_JWT_PROJECTID_TOO_LONG_ERROR
  | IOTC_NULL_DEVICE_PATH_ERROR
  | IOTC_BUFFER_TOO_SMALL_ERROR
  | IOTC_NULL_KEY_DATA_ERROR
  | IOTC_NULL_CLIENT_ID_ERROR

primrec state_code :: "iotc_state \<Rightarrow> int" where
  "state_code IOTC_STATE_OK = 0"
| "state_code IOTC_STATE_TIMEOUT = 1"
| "state_code IOTC_STATE_WANT_READ = 2"
| "state_code IOTC_STATE_WANT_WRITE = 3"
| "state_code IOTC_STATE_WRITTEN = 4"
| "state_code IOTC_STATE_FAILED_WRITING = 5"
| "state_code IOTC_BACKOFF_TERMINAL = 6"
| "state_code IOTC_OUT_OF_MEMORY = 7"
| "state_code IOTC_SOCKET_INITIALIZATION_ERROR = 8"
| "state_code IOTC_SOCKET_GETHOSTBYNAME_ERROR = 9"
| "state_code IOTC_SOCKET_GETSOCKOPT_ERROR = 10"
| "state_code IOTC_SOCKET_ERROR = 11"
| "state_code IOTC_SOCKET_CONNECTION_ERROR = 12"
| "state_code IOTC_SOCKET_SHUTDOWN_ERROR = 13"
| "state_code IOTC_SOCKET_WRITE_ERROR = 14"
| "state_code IOTC_SOCKET_READ_ERROR = 15"
| "state_code IOTC_SOCKET_NO_ACTIVE_CONNECTION_ERROR = 16"
| "state_code IOTC_CONNECTION_RESET_BY_PEER_ERROR = 17"
| "state_code IOTC_FD_HANDLER_NOT_FOUND = 18"
| "state_code IOTC_TLS_INITALIZATION_ERROR = 19"
| "state_code IOTC_TLS_FAILED_LOADING_CERTIFICATE = 20"
| "state_code IOTC_TLS_CONNECT_ERROR = 21"
| "state_code IOTC_TLS_WRITE_ERROR = 22"
| "state_code IOTC_TLS_READ_ERROR = 23"
| "state_code IOTC_MQTT_SERIALIZER_ERROR = 24"
| "state_code IOTC_MQTT_PARSER_ERROR = 25"
| "state_code IOTC_MQTT_UNKNOWN_MESSAGE_ID = 26"
| "state_code IOTC_MQTT_LOGIC_UNKNOWN_TASK_ID = 27"
| "state_code IOTC_MQTT_LOGIC_WRONG_SCENARIO_TYPE = 28"
| "state_code IOTC_MQTT_LOGIC_WRONG_MESSAGE_RECEIVED = 29"
| "state_code IOTC_MQTT_UNACCEPTABLE_PROTOCOL_VERSION = 30"
| "state_code IOTC_MQTT_IDENTIFIER_REJECTED = 31"
| "state_code IOTC_MQTT_SERVER_UNAVAILIBLE = 32"
| "state_code IOTC_MQTT_BAD_USERNAME_OR_PASSWORD = 33"
| "state_code IOTC_MQTT_NOT_AUTHORIZED = 34"
| "state_code IOTC_MQTT_CONNECT_UNKNOWN_RETURN_CODE = 35"
| "state_code IOTC_MQTT_MESSAGE_CLASS_UNKNOWN_ERROR = 36"
| "state_code IOTC_MQTT_PAYLOAD_SIZE_TOO_LARGE = 37"
| "state_code IOTC_MQTT_SUBSCRIPTION_FAILED = 38"
| "state_code IOTC_MQTT_SUBSCRIPTION_SUCCESSFULL = 39"
| "state_code IOTC_INTERNAL_ERROR = 40"
| "state_code IOTC_NOT_INITIALIZED = 41"
| "state_code IOTC_FAILED_INITIALIZATION = 42"
| "state_code IOTC_ALREADY_INITIALIZED = 43"
| "state_code IOTC_INVALID_PARAMETER = 44"
| "state_code IOTC_UNSET_HANDLER_ERROR = 45"
| "state_code IOTC_NOT_IMPLEMENTED = 46"
| "state_code IOTC_ELEMENT_NOT_FOUND = 47"
| "state_code IOTC_SERIALIZATION_ERROR = 48"
| "state_code IOTC_TRUNCATION_WARNING = 49"
| "state_code IOTC_BUFFER_OVERFLOW = 50"
| "state_code IOTC_THREAD_ERROR = 51"
| "state_code IOTC_NULL_CONTEXT = 52"
| "state_code IOTC_NULL_WILL_TOPIC = 53"
| "state_code IOTC_NULL_WILL_MESSAGE = 54"
| "state_code IOTC_NO_MORE_RESOURCE_AVAILABLE = 55"
| "state_code IOTC_FS_RESOURCE_NOT_AVAILABLE = 56"
| "state_code IOTC_FS_ERROR = 57"
| "state_code IOTC_NOT_SUPPORTED = 58"
| "state_code IOTC_EVENT_PROCESS_STOPPED = 59"
| "state_code IOTC_STATE_RESEND = 60"
| "state_code IOTC_NULL_HOST = 61"
| "state_code IOTC_TLS_FAILED_CERT_ERROR = 62"
| "state_code IOTC_FS_OPEN_ERROR = 63"
| "state_code IOTC_FS_OPEN_READ_ONLY = 64"
| "state_code IOTC_FS_READ_ERROR = 65"
| "state_code IOTC_FS_WRITE_ERROR = 66"
| "state_code IOTC_FS_CLOSE_ERROR = 67"
| "state_code IOTC_FS_REMOVE_ERROR = 68"
| "state_code IOTC_NULL_PROJECT_ID_ERROR = 69"
| "state_code IOTC_ALG_NOT_SUPPORTED_ERROR = 70"
| "state_code IOTC_JWT_FORMATTION_ERROR = 71"
| "state_code IOTC_JWT_PROJECTID_TOO_LONG_ERROR = 72"
| "state_code IOTC_NULL_DEVICE_PATH_ERROR = 73"
| "state_code IOTC_BUFFER_TOO_SMALL_ERROR = 74"
| "state_code IOTC_NULL_KEY_DATA_ERROR = 75"
| "state_code IOTC_NULL_CLIENT_ID_ERROR = 76"

text \<open>The enumeration in its order, to decode a number.\<close>

definition iotc_states :: "iotc_state list" where
  "iotc_states = [
    IOTC_STATE_OK, IOTC_STATE_TIMEOUT, IOTC_STATE_WANT_READ, IOTC_STATE_WANT_WRITE,
    IOTC_STATE_WRITTEN, IOTC_STATE_FAILED_WRITING, IOTC_BACKOFF_TERMINAL,
    IOTC_OUT_OF_MEMORY, IOTC_SOCKET_INITIALIZATION_ERROR,
    IOTC_SOCKET_GETHOSTBYNAME_ERROR, IOTC_SOCKET_GETSOCKOPT_ERROR, IOTC_SOCKET_ERROR,
    IOTC_SOCKET_CONNECTION_ERROR, IOTC_SOCKET_SHUTDOWN_ERROR, IOTC_SOCKET_WRITE_ERROR,
    IOTC_SOCKET_READ_ERROR, IOTC_SOCKET_NO_ACTIVE_CONNECTION_ERROR,
    IOTC_CONNECTION_RESET_BY_PEER_ERROR, IOTC_FD_HANDLER_NOT_FOUND,
    IOTC_TLS_INITALIZATION_ERROR, IOTC_TLS_FAILED_LOADING_CERTIFICATE,
    IOTC_TLS_CONNECT_ERROR, IOTC_TLS_WRITE_ERROR, IOTC_TLS_READ_ERROR,
    IOTC_MQTT_SERIALIZER_ERROR, IOTC_MQTT_PARSER_ERROR, IOTC_MQTT_UNKNOWN_MESSAGE_ID,
    IOTC_MQTT_LOGIC_UNKNOWN_TASK_ID, IOTC_MQTT_LOGIC_WRONG_SCENARIO_TYPE,
    IOTC_MQTT_LOGIC_WRONG_MESSAGE_RECEIVED, IOTC_MQTT_UNACCEPTABLE_PROTOCOL_VERSION,
    IOTC_MQTT_IDENTIFIER_REJECTED, IOTC_MQTT_SERVER_UNAVAILIBLE,
    IOTC_MQTT_BAD_USERNAME_OR_PASSWORD, IOTC_MQTT_NOT_AUTHORIZED,
    IOTC_MQTT_CONNECT_UNKNOWN_RETURN_CODE, IOTC_MQTT_MESSAGE_CLASS_UNKNOWN_ERROR,
    IOTC_MQTT_PAYLOAD_SIZE_TOO_LARGE, IOTC_MQTT_SUBSCRIPTION_FAILED,
    IOTC_MQTT_SUBSCRIPTION_SUCCESSFULL, IOTC_INTERNAL_ERROR, IOTC_NOT_INITIALIZED,
    IOTC_FAILED_INITIALIZATION, IOTC_ALREADY_INITIALIZED, IOTC_INVALID_PARAMETER,
    IOTC_UNSET_HANDLER_ERROR, IOTC_NOT_IMPLEMENTED, IOTC_ELEMENT_NOT_FOUND,
    IOTC_SERIALIZATION_ERROR, IOTC_TRUNCATION_WARNING, IOTC_BUFFER_OVERFLOW,
    IOTC_THREAD_ERROR, IOTC_NULL_CONTEXT, IOTC_NULL_WILL_TOPIC, IOTC_NULL_WILL_MESSAGE,
    IOTC_NO_MORE_RESOURCE_AVAILABLE, IOTC_FS_RESOURCE_NOT_AVAILABLE, IOTC_FS_ERROR,
    IOTC_NOT_SUPPORTED, IOTC_EVENT_PROCESS_STOPPED, IOTC_STATE_RESEND, IOTC_NULL_HOST,
    IOTC_TLS_FAILED_CERT_ERROR, IOTC_FS_OPEN_ERROR, IOTC_FS_OPEN_READ_ONLY,
    IOTC_FS_READ_ERROR, IOTC_FS_WRITE_ERROR, IOTC_FS_CLOSE_ERROR, IOTC_FS_REMOVE_ERROR,
    IOTC_NULL_PROJECT_ID_ERROR, IOTC_ALG_NOT_SUPPORTED_ERROR, IOTC_JWT_FORMATTION_ERROR,
    IOTC_JWT_PROJECTID_TOO_LONG_ERROR, IOTC_NULL_DEVICE_PATH_ERROR,
    IOTC_BUFFER_TOO_SMALL_ERROR, IOTC_NULL_KEY_DATA_ERROR, IOTC_NULL_CLIENT_ID_ERROR]"

definition IOTC_ERROR_COUNT :: nat where
  "IOTC_ERROR_COUNT = 77"

lemma state_code_nth: "iotc_states ! nat (state_code s) = s"
  by (cases s) (simp_all add: iotc_states_def)

lemma state_code_inj [simp]: "state_code s = state_code t \<longleftrightarrow> s = t"
  by (metis state_code_nth)

lemma state_code_range: "0 \<le> state_code s \<and> state_code s < int IOTC_ERROR_COUNT"
  by (cases s) (simp_all add: IOTC_ERROR_COUNT_def)

instantiation iotc_state :: equal
begin

definition equal_iotc_state :: "iotc_state \<Rightarrow> iotc_state \<Rightarrow> bool" where
  "equal_iotc_state s t \<longleftrightarrow> state_code s = state_code t"

instance
  by standard (simp add: equal_iotc_state_def)

end

instantiation iotc_state :: linorder
begin

definition less_eq_iotc_state :: "iotc_state \<Rightarrow> iotc_state \<Rightarrow> bool" where
  "less_eq_iotc_state s t \<longleftrightarrow> state_code s \<le> state_code t"

definition less_iotc_state :: "iotc_state \<Rightarrow> iotc_state \<Rightarrow> bool" where
  "less_iotc_state s t \<longleftrightarrow> state_code s < state_code t"

instance
  by standard (auto simp: less_eq_iotc_state_def less_iotc_state_def)

end

text \<open>
  The text of a state, \<^verbatim>\<open>src/libiotc/iotc_error.c\<close>, when the table of texts is compiled in. The argument is any
  number; it is cut to 16 bits.
\<close>

definition iotc_error_string :: "string list" where
  "iotc_error_string =
    [''IOTC_STATE_OK'', ''IOTC_STATE_TIMEOUT'', ''IOTC_STATE_WANT_READ'', ''IOTC_STATE_WANT_WRITE'',
     ''IOTC_STATE_WRITTEN'', ''IOTC_STATE_FAILED_WRITING'', ''IOTC_BACKOFF_TERMINAL'', ''IOTC_OUT_OF_MEMORY'',
     ''IOTC_SOCKET_INITIALIZATION_ERROR'', ''IOTC_SOCKET_GETHOSTBYNAME_ERROR'', ''IOTC_SOCKET_GETSOCKOPT_ERROR'',
     ''IOTC_SOCKET_ERROR'', ''IOTC_SOCKET_CONNECTION_ERROR'', ''IOTC_SOCKET_SHUTDOWN_ERROR'',
     ''IOTC_SOCKET_WRITE_ERROR'', ''IOTC_SOCKET_READ_ERROR'', ''IOTC_SOCKET_NO_ACTIVE_CONNECTION_ERROR'',
     ''IOTC_CONNECTION_RESET_BY_PEER_ERROR'', ''IOTC_FD_HANDLER_NOT_FOUND'', ''IOTC_TLS_INITALIZATION_ERROR'',
     ''IOTC_TLS_FAILED_LOADING_CERTIFICATE'', ''IOTC_TLS_CONNECT_ERROR'', ''IOTC_TLS_WRITE_ERROR'',
     ''IOTC_TLS_READ_ERROR'', ''IOTC_MQTT_SERIALIZER_ERROR'', ''IOTC_MQTT_PARSER_ERROR'',
     ''IOTC_MQTT_UNKNOWN_MESSAGE_ID'', ''IOTC_MQTT_LOGIC_UNKNOWN_TASK_ID'', ''IOTC_MQTT_LOGIC_WRONG_SCENARIO_TYPE'',
     ''IOTC_MQTT_LOGIC_WRONG_MESSAGE_RECEIVED'', ''IOTC_MQTT_UNACCEPTABLE_PROTOCOL_VERSION'',
     ''IOTC_MQTT_IDENTIFIER_REJECTED'', ''IOTC_MQTT_SERVER_UNAVAILIBLE'', ''IOTC_MQTT_BAD_USERNAME_OR_PASSWORD'',
     ''IOTC_MQTT_NOT_AUTHORIZED'', ''IOTC_MQTT_CONNECT_UNKNOWN_RETURN_CODE'',
     ''IOTC_MQTT_MESSAGE_CLASS_UNKNOWN_ERROR'', ''IOTC_MQTT_PAYLOAD_SIZE_TOO_LARGE'', ''IOTC_MQTT_SUBSCRIBE_FAILED'',
     ''IOTC_MQTT_SUBSCRIBE_SUCCESSFULL'', ''IOTC_INTERNAL_ERROR'', ''IOTC_NOT_INITIALIZED'',
     ''IOTC_FAILED_INITIALIZATION'', ''IOTC_ALREADY_INITIALIZED'', ''IOTC_INVALID_PARAMETER'',
     ''IOTC_UNSET_HANDLER_ERROR'', ''IOTC_NOT_IMPLEMENTED'', ''IOTC_ELEMENT_NOT_FOUND'', ''IOTC_SERIALIZATION_ERROR'',
     ''IOTC_TRUNCATION_WARNING'', ''IOTC_BUFFER_OVERFLOW'', ''IOTC_THREAD_ERROR'',
     ''The passed or default context is NULL'', ''The last will topic cannot be NULL'',
     ''The last will message cannot be NULL'', ''IOTC_NO_MORE_RESOURCE_AVAILABLE'',
     ''IOTC_FS_RESOURCE_NOT_AVAILABLE'', ''IOTC_FS_ERROR'', ''IOTC_NOT_SUPPORTED'', ''IOTC_EVENT_PROCESS_STOPPED'',
     ''IOTC_STATE_RESEND'', ''IOTC_NULL_HOST'', ''IOTC_TLS_FAILED_CERT_ERROR'', ''IOTC_FS_OPEN_ERROR'',
     ''IOTC_FS_OPEN_READ_ONLY'', ''IOTC_FS_READ_ERROR'', ''IOTC_FS_WRITE_ERROR'', ''IOTC_FS_CLOSE_ERROR'',
     ''IOTC_FS_REMOVE_ERROR'', ''IOTC_NULL_PROJECT_ID_ERROR'', ''IOTC_ALG_NOT_SUPPORTED_ERROR'',
     ''IOTC_JWT_FORMATTION_ERROR'', ''IOTC_JWT_PROJECTID_TOO_LONG_ERROR'', ''IOTC_NULL_DEVICE_PATH_ERROR'',
     ''IOTC_BUFFER_TOO_SMALL_ERROR'', ''IOTC_NULL_KEY_DATA_ERROR'', ''IOTC_NULL_CLIENT_ID_ERROR'',
     ''IOTC_ERROR_UNDEFINED'']"

text \<open>The strings are left out when \<^verbatim>\<open>IOTC_OPT_NO_ERROR_STRINGS\<close> is defined, as \<^verbatim>\<open>iotc_error.h\<close> does for every build.\<close>

definition iotc_get_state_string :: "bool \<Rightarrow> int \<Rightarrow> string" where
  "iotc_get_state_string no_error_strings e =
     (if no_error_strings then []
      else
        (let short = signed_take_bit 15 e
         in if short < state_code IOTC_STATE_OK then iotc_error_string ! IOTC_ERROR_COUNT
            else iotc_error_string ! nat (min short (int IOTC_ERROR_COUNT))))"

lemma state_string_state: "iotc_get_state_string False (state_code s) = iotc_error_string ! nat (state_code s)"
proof -
  have "0 \<le> state_code s" "state_code s < 77" using state_code_range [of s] by (simp_all add: IOTC_ERROR_COUNT_def)
  moreover from this have "signed_take_bit 15 (state_code s) = state_code s" by (intro signed_take_bit_int_eq_self) simp_all
  ultimately show ?thesis by (simp add: iotc_get_state_string_def Let_def IOTC_ERROR_COUNT_def state_code_def)
qed

lemma state_string_no_state: "77 \<le> e \<Longrightarrow> e < 32768 \<Longrightarrow> iotc_get_state_string False e = ''IOTC_ERROR_UNDEFINED''"
proof -
  assume "77 \<le> e" "e < 32768"
  then have "signed_take_bit 15 e = e" by (intro signed_take_bit_int_eq_self) simp_all
  with \<open>77 \<le> e\<close> show ?thesis
    by (simp add: iotc_get_state_string_def Let_def IOTC_ERROR_COUNT_def state_code_def iotc_error_string_def)
qed

end
