(* ===== verification/Iotc_Mem.thy ===== *)
theory Iotc_Mem
  imports Iotc_Error
begin

text \<open>
  Dynamic memory: the platform allocator of
  \<^verbatim>\<open>src/bsp/platform/posix/iotc_bsp_mem_posix.c\<close> (the C library's
  \<open>malloc\<close>, \<open>realloc\<close> and \<open>free\<close>) and the layer
  \<^verbatim>\<open>src/libiotc/memory/iotc_allocator.c\<close> above it.

  The state of the C heap is the map of the live blocks to their sizes, the next
  address to hand out, the number of requests so far, an oracle that says which
  request the platform grants, and a flag that a pointer that was not live was
  freed or resized (undefined behaviour in C). The contents of a block belong to
  the component that owns it and are kept in the component's own record.
\<close>

section \<open>The platform allocator\<close>

record mem =
  m_next :: nat
  m_live :: "ptr \<rightharpoonup> nat"
  m_seq :: nat
  m_ok :: "nat \<Rightarrow> nat \<Rightarrow> bool"
  m_bad :: bool

definition iotc_bsp_mem_alloc :: "nat \<Rightarrow> mem \<Rightarrow> ptr \<times> mem" where
  "iotc_bsp_mem_alloc n m =
     (if m_ok m (m_seq m) n
      then (m_next m, m\<lparr>m_next := Suc (m_next m), m_live := (m_live m)(m_next m \<mapsto> n),
                        m_seq := Suc (m_seq m)\<rparr>)
      else (NULL, m\<lparr>m_seq := Suc (m_seq m)\<rparr>))"

definition iotc_bsp_mem_free :: "ptr \<Rightarrow> mem \<Rightarrow> mem" where
  "iotc_bsp_mem_free p m =
     (if p = NULL then m
      else if m_live m p = None then m\<lparr>m_bad := True\<rparr>
      else m\<lparr>m_live := (m_live m)(p := None)\<rparr>)"

text \<open>A granted \<open>realloc\<close> returns a new block and releases the old one; a
  refused one returns \<open>NULL\<close> and keeps it.\<close>

definition iotc_bsp_mem_realloc :: "ptr \<Rightarrow> nat \<Rightarrow> mem \<Rightarrow> ptr \<times> mem" where
  "iotc_bsp_mem_realloc p n m =
     (case iotc_bsp_mem_alloc n m of
        (q, m') \<Rightarrow> if q = NULL then (NULL, m') else (q, iotc_bsp_mem_free p m'))"

section \<open>The library's allocator\<close>

definition SIZE_MAX :: nat where
  "SIZE_MAX = 2 ^ 64 - 1"

definition iotc_alloc :: "nat \<Rightarrow> mem \<Rightarrow> ptr \<times> mem" where
  "iotc_alloc byte_count m = iotc_bsp_mem_alloc byte_count m"

definition iotc_calloc :: "nat \<Rightarrow> nat \<Rightarrow> mem \<Rightarrow> ptr \<times> mem" where
  "iotc_calloc num byte_count m =
     (let size_to_allocate = to_size (int num * int byte_count)
      in if size_to_allocate = 0 \<or> num > SIZE_MAX div byte_count then (NULL, m)
         else iotc_bsp_mem_alloc size_to_allocate m)"

definition iotc_realloc :: "ptr \<Rightarrow> nat \<Rightarrow> mem \<Rightarrow> ptr \<times> mem" where
  "iotc_realloc p byte_count m = iotc_bsp_mem_realloc p byte_count m"

definition iotc_free :: "ptr \<Rightarrow> mem \<Rightarrow> mem" where
  "iotc_free p m = iotc_bsp_mem_free p m"

text \<open>\<^verbatim>\<open>IOTC_SAFE_FREE\<close> of \<^verbatim>\<open>iotc_macros.h\<close>: free a pointer that is
  not \<open>NULL\<close>; the variable becomes \<open>NULL\<close> (at the call site).\<close>

definition IOTC_SAFE_FREE :: "ptr \<Rightarrow> mem \<Rightarrow> mem" where
  "IOTC_SAFE_FREE a m = (if a \<noteq> NULL then iotc_free a m else m)"

section \<open>Well-formed heaps\<close>

definition wf_mem :: "mem \<Rightarrow> bool" where
  "wf_mem m \<longleftrightarrow> 0 < m_next m \<and> m_live m NULL = None \<and> (\<forall>p\<ge>m_next m. m_live m p = None)"

definition empty_mem :: "(nat \<Rightarrow> nat \<Rightarrow> bool) \<Rightarrow> mem" where
  "empty_mem ok = \<lparr>m_next = 1, m_live = Map.empty, m_seq = 0, m_ok = ok, m_bad = False\<rparr>"

lemma wf_empty_mem [simp]: "wf_mem (empty_mem ok)"
  by (simp add: wf_mem_def empty_mem_def)

lemma wf_mem_live_null [simp]: "wf_mem m \<Longrightarrow> m_live m NULL = None"
  by (simp add: wf_mem_def)

lemma wf_mem_live_pos: "wf_mem m \<Longrightarrow> m_live m p = Some n \<Longrightarrow> 0 < p"
  by (cases p) (auto simp: wf_mem_def)

text \<open>The two outcomes of a request.\<close>

lemma alloc_cases:
  assumes "iotc_alloc n m = (p, m')" and "wf_mem m"
  obtains (fail) "p = NULL" "m' = m\<lparr>m_seq := Suc (m_seq m)\<rparr>" "\<not> m_ok m (m_seq m) n"
  | (ok) "p \<noteq> NULL" "m_live m p = None" "p = m_next m" "m_ok m (m_seq m) n"
      "m' = m\<lparr>m_next := Suc (m_next m), m_live := (m_live m)(p \<mapsto> n), m_seq := Suc (m_seq m)\<rparr>"
  using assms
  by (auto simp: iotc_alloc_def iotc_bsp_mem_alloc_def wf_mem_def split: if_splits)

lemma alloc_wf: "wf_mem m \<Longrightarrow> iotc_alloc n m = (p, m') \<Longrightarrow> wf_mem m'"
  by (auto simp: iotc_alloc_def iotc_bsp_mem_alloc_def wf_mem_def split: if_splits)

lemma alloc_bad [mem_simps]: "iotc_alloc n m = (p, m') \<Longrightarrow> m_bad m' = m_bad m"
  by (auto simp: iotc_alloc_def iotc_bsp_mem_alloc_def split: if_splits)

lemma alloc_ok_oracle [mem_simps]: "iotc_alloc n m = (p, m') \<Longrightarrow> m_ok m' = m_ok m"
  by (auto simp: iotc_alloc_def iotc_bsp_mem_alloc_def split: if_splits)

lemma alloc_granted:
  "wf_mem m \<Longrightarrow> m_ok m (m_seq m) n \<Longrightarrow> iotc_alloc n m = (p, m') \<Longrightarrow> p \<noteq> NULL"
  by (auto simp: iotc_alloc_def iotc_bsp_mem_alloc_def wf_mem_def)

lemma alloc_null_live [mem_simps]:
  "wf_mem m \<Longrightarrow> iotc_alloc n m = (NULL, m') \<Longrightarrow> m_live m' = m_live m"
  by (erule alloc_cases) auto

lemma alloc_live [mem_simps]:
  "wf_mem m \<Longrightarrow> iotc_alloc n m = (p, m') \<Longrightarrow> p \<noteq> NULL \<Longrightarrow> m_live m' = (m_live m)(p \<mapsto> n)"
  by (erule alloc_cases) auto

lemma alloc_fresh:
  "wf_mem m \<Longrightarrow> iotc_alloc n m = (p, m') \<Longrightarrow> m_live m p = None"
  by (erule alloc_cases) auto

lemma free_wf [simp]: "wf_mem m \<Longrightarrow> wf_mem (iotc_free p m)"
  by (auto simp: iotc_free_def iotc_bsp_mem_free_def wf_mem_def)

lemma free_live [mem_simps]:
  "wf_mem m \<Longrightarrow> m_live (iotc_free p m) = (m_live m)(p := None)"
  by (auto simp: iotc_free_def iotc_bsp_mem_free_def wf_mem_def fun_eq_iff)

lemma free_bad [mem_simps]:
  "m_bad (iotc_free p m) \<longleftrightarrow> m_bad m \<or> (p \<noteq> NULL \<and> m_live m p = None)"
  by (auto simp: iotc_free_def iotc_bsp_mem_free_def)

lemma free_ok_oracle [simp]: "m_ok (iotc_free p m) = m_ok m"
  by (simp add: iotc_free_def iotc_bsp_mem_free_def)

lemma safe_free_wf [simp]: "wf_mem m \<Longrightarrow> wf_mem (IOTC_SAFE_FREE p m)"
  by (simp add: IOTC_SAFE_FREE_def)

lemma safe_free_live [mem_simps]:
  "wf_mem m \<Longrightarrow> m_live (IOTC_SAFE_FREE p m) = (m_live m)(p := None)"
  by (auto simp: IOTC_SAFE_FREE_def free_live fun_eq_iff)

lemma safe_free_bad [mem_simps]:
  "m_bad (IOTC_SAFE_FREE p m) \<longleftrightarrow> m_bad m \<or> (p \<noteq> NULL \<and> m_live m p = None)"
  by (auto simp: IOTC_SAFE_FREE_def free_bad)

lemma safe_free_ok_oracle [simp]: "m_ok (IOTC_SAFE_FREE p m) = m_ok m"
  by (simp add: IOTC_SAFE_FREE_def)

lemma safe_free_null [simp]: "IOTC_SAFE_FREE NULL m = m"
  by (simp add: IOTC_SAFE_FREE_def)

section \<open>The contract of an allocator\<close>

text \<open>
  What the library's clients rely on when they call \<^verbatim>\<open>iotc_alloc\<close> and
  \<^verbatim>\<open>iotc_free\<close>, whichever allocator the build binds these names to: the platform
  allocator above or the memory limiter. \<open>req n\<close> says that a request of \<open>n\<close> bytes is
  within the allocator's address arithmetic.
\<close>

locale allocator =
  fixes al :: "nat \<Rightarrow> 'm \<Rightarrow> ptr \<times> 'm"
    and fr :: "ptr \<Rightarrow> 'm \<Rightarrow> 'm"
    and live :: "'m \<Rightarrow> ptr \<rightharpoonup> nat"
    and ok :: "'m \<Rightarrow> bool"
    and req :: "nat \<Rightarrow> bool"
  assumes al_null: "ok m \<Longrightarrow> req n \<Longrightarrow> al n m = (NULL, m') \<Longrightarrow> live m' = live m"
    and al_some: "ok m \<Longrightarrow> req n \<Longrightarrow> al n m = (p, m') \<Longrightarrow> p \<noteq> NULL \<Longrightarrow>
      live m p = None \<and> live m' = (live m)(p \<mapsto> n)"
    and al_ok: "ok m \<Longrightarrow> req n \<Longrightarrow> al n m = (p, m') \<Longrightarrow> ok m'"
    and fr_live: "ok m \<Longrightarrow> live m p \<noteq> None \<Longrightarrow> live (fr p m) = (live m)(p := None)"
    and fr_ok: "ok m \<Longrightarrow> live m p \<noteq> None \<Longrightarrow> ok (fr p m)"
    and live_null: "ok m \<Longrightarrow> live m NULL = None"
begin

lemma al_fr_live:
  assumes "ok m" and "req n" and "al n m = (p, m')" and "p \<noteq> NULL"
  shows "live (fr p m') = live m" and "ok (fr p m')"
proof -
  from assms have l: "live m p = None" "live m' = (live m)(p \<mapsto> n)" and o: "ok m'"
    by (auto dest: al_some al_ok)
  from l o show "live (fr p m') = live m" and "ok (fr p m')"
    by (auto simp: fr_live fr_ok fun_eq_iff)
qed

lemma al_keeps:
  assumes "ok m" and "req n" and "al n m = (p, m')" and "live m q = Some k"
  shows "live m' q = Some k"
  using assms al_null [of m n m'] al_some [of m n p m'] by (cases "p = NULL") auto

end

interpretation platform: allocator iotc_alloc iotc_free m_live wf_mem "\<lambda>n. True"
  by unfold_locales
    (auto simp: mem_simps dest: alloc_wf alloc_fresh elim: alloc_cases)

section \<open>Properties\<close>

lemma calloc_product_fits:
  assumes "0 < b" and "\<not> n > SIZE_MAX div b"
  shows "n * b \<le> SIZE_MAX"
proof -
  from assms(2) have "n * b \<le> SIZE_MAX div b * b" by simp
  also have "\<dots> \<le> SIZE_MAX" by simp
  finally show ?thesis .
qed

text \<open>
  The overflow check of \<^verbatim>\<open>__iotc_calloc\<close> is exact: whenever it returns a
  block, the block has the full \<open>num * byte_count\<close> bytes, whatever the arguments
  (each at most \<open>SIZE_MAX\<close>); a product that does not fit \<open>size_t\<close> is refused with
  \<open>NULL\<close> and leaves the heap as it was.
\<close>

theorem calloc_no_overflow:
  assumes "wf_mem m" and "num \<le> SIZE_MAX" and "byte_count \<le> SIZE_MAX"
  shows "(case iotc_calloc num byte_count m of (p, m') \<Rightarrow>
      (p \<noteq> NULL \<longrightarrow> num * byte_count \<le> SIZE_MAX
         \<and> m_live m' = (m_live m)(p \<mapsto> num * byte_count) \<and> m_live m p = None)
      \<and> (SIZE_MAX < num * byte_count \<longrightarrow> p = NULL \<and> m' = m))"
proof (cases "to_size (int num * int byte_count) = 0 \<or> num > SIZE_MAX div byte_count")
  case True
  then show ?thesis by (auto simp: iotc_calloc_def)
next
  case False
  then have b: "0 < byte_count" by (cases byte_count) (auto simp: cint)
  with False have fits: "num * byte_count \<le> SIZE_MAX"
    by (auto intro: calloc_product_fits)
  then have "int num * int byte_count < 2 ^ 64"
    by (simp add: SIZE_MAX_def flip: of_nat_mult)
  then have "to_size (int num * int byte_count) = num * byte_count"
    by (simp add: nat_mult_distrib)
  with False fits assms(1) show ?thesis
    by (auto simp: iotc_calloc_def iotc_bsp_mem_alloc_def wf_mem_def Let_def split: if_splits)
qed

theorem calloc_no_overflow_witness:
  "(case iotc_calloc (2 ^ 33) (2 ^ 32) (empty_mem (\<lambda>i n. True)) of (p, m') \<Rightarrow>
      (p \<noteq> NULL \<longrightarrow> 2 ^ 33 * 2 ^ 32 \<le> SIZE_MAX
         \<and> m_live m' = (m_live (empty_mem (\<lambda>i n. True)))(p \<mapsto> 2 ^ 33 * 2 ^ 32)
         \<and> m_live (empty_mem (\<lambda>i n. True)) p = None)
      \<and> (SIZE_MAX < 2 ^ 33 * 2 ^ 32 \<longrightarrow> p = NULL \<and> m' = empty_mem (\<lambda>i n. True)))"
  by (rule calloc_no_overflow) (simp_all add: SIZE_MAX_def)

end
