(* ===== verification/Iotc_Vector.thy ===== *)
theory Iotc_Vector
  imports Iotc_Mem "HOL-Library.Multiset"
begin

text \<open>
  The growing array of \<^verbatim>\<open>src/libiotc/datastructures/iotc_vector.c\<close>. A vector is its
  own block, the block of its cells with their contents, the number of elements, the
  capacity (both \<^verbatim>\<open>int8_t\<close>) and the ownership of the cells. A cell is the union
  \<^verbatim>\<open>iotc_vector_selector_u\<close>, eight bytes, here their value as a natural number
  (a pointer, or a \<^verbatim>\<open>uint32_t\<close> in the low half). Comparison, predicate and visitor
  callbacks are arguments; the assertions of the source are the callers' obligations
  and appear as hypotheses of the lemmas.
\<close>

datatype memory_type =
    IOTC_MEMORY_TYPE_UNKNOWN
  | IOTC_MEMORY_TYPE_MANAGED
  | IOTC_MEMORY_TYPE_UNMANAGED

record vec =
  v_self :: ptr
  v_array :: ptr
  v_elems :: "nat list"
  v_elem_no :: int
  v_capacity :: int
  v_memory_type :: memory_type

definition IOTC_VECTOR_DEFAULT_CAPACITY :: int where
  "IOTC_VECTOR_DEFAULT_CAPACITY = 2"

definition sizeof_vector :: nat where
  "sizeof_vector = 16"

definition sizeof_elem :: int where
  "sizeof_elem = 8"

section \<open>Operations\<close>

text \<open>The size of the request is computed in \<^verbatim>\<open>size_t\<close>: the conversion of a negative
  \<^verbatim>\<open>int8_t\<close> gives a huge number. The new cells are zeroed, then \<open>elem_no\<close> of them
  are copied.\<close>

definition iotc_vector_realloc :: "vec \<Rightarrow> int \<Rightarrow> mem \<Rightarrow> bool \<times> vec \<times> mem" where
  "iotc_vector_realloc v new_size m =
     (if v_memory_type v \<noteq> IOTC_MEMORY_TYPE_MANAGED then (False, v, m)
      else
        (let elems_size = to_size (new_size * sizeof_elem)
         in case iotc_alloc elems_size m of (new_array, m1) \<Rightarrow>
           if new_array = NULL then (False, v, m1)
           else
             (let cells = elems_size div nat sizeof_elem;
                  keep = (if v_elem_no v > 0 then take (nat (v_elem_no v)) (v_elems v) else []);
                  m2 = IOTC_SAFE_FREE (v_array v) m1
              in (True, v\<lparr>v_array := new_array,
                          v_elems := keep @ replicate (cells - length keep) 0,
                          v_capacity := new_size\<rparr>, m2))))"

definition iotc_vector_create :: "mem \<Rightarrow> vec option \<times> mem" where
  "iotc_vector_create m =
     (case iotc_alloc sizeof_vector m of (ret, m1) \<Rightarrow>
        if ret = NULL then (None, m1)
        else
          (let v = \<lparr>v_self = ret, v_array = NULL, v_elems = [], v_elem_no = 0, v_capacity = 0,
                    v_memory_type = IOTC_MEMORY_TYPE_MANAGED\<rparr>
           in case iotc_vector_realloc v IOTC_VECTOR_DEFAULT_CAPACITY m1 of
                (True, v', m2) \<Rightarrow> (Some v', m2)
              | (False, v', m2) \<Rightarrow>
                  (None, IOTC_SAFE_FREE ret (IOTC_SAFE_FREE (v_array v') m2))))"

definition iotc_vector_create_from ::
    "ptr \<Rightarrow> nat list \<Rightarrow> nat \<Rightarrow> memory_type \<Rightarrow> mem \<Rightarrow> vec option \<times> mem" where
  "iotc_vector_create_from array contents len memory_type m =
     (case iotc_alloc sizeof_vector m of (ret, m1) \<Rightarrow>
        if ret = NULL then (None, m1)
        else (Some \<lparr>v_self = ret, v_array = array, v_elems = contents,
                    v_elem_no = to_int8 (int len), v_capacity = to_int8 (int len),
                    v_memory_type = memory_type\<rparr>, m1))"

definition iotc_vector_reserve :: "vec \<Rightarrow> int \<Rightarrow> mem \<Rightarrow> bool \<times> vec \<times> mem" where
  "iotc_vector_reserve v n m =
     (if n = v_capacity v then (True, v, m)
      else
        (let v1 = (if v_elem_no v > n then v\<lparr>v_elem_no := n\<rparr> else v)
         in case iotc_vector_realloc v1 n m of (result, v2, m2) \<Rightarrow>
              if \<not> result then (False, v2, m2) else (True, v2, m2)))"

definition iotc_vector_destroy :: "vec \<Rightarrow> mem \<Rightarrow> mem" where
  "iotc_vector_destroy v m =
     (let m1 = (if v_memory_type v = IOTC_MEMORY_TYPE_MANAGED then IOTC_SAFE_FREE (v_array v) m
                else m)
      in IOTC_SAFE_FREE (v_self v) m1)"

text \<open>The result is the index of the new cell, \<open>None\<close> for a null pointer.\<close>

definition iotc_vector_push :: "vec \<Rightarrow> nat \<Rightarrow> mem \<Rightarrow> nat option \<times> vec \<times> mem" where
  "iotc_vector_push v val m =
     (case (if v_elem_no v + 1 > v_capacity v
            then iotc_vector_realloc v (to_int8 (v_capacity v * 2)) m else (True, v, m)) of
        (False, v1, m1) \<Rightarrow> (None, v1, m1)
      | (True, v1, m1) \<Rightarrow>
          (let v2 = v1\<lparr>v_elems := (v_elems v1)[nat (v_elem_no v1) := val],
                       v_elem_no := to_int8 (v_elem_no v1 + 1)\<rparr>
           in (Some (nat (v_elem_no v2 - 1)), v2, m1)))"

definition iotc_vector_swap_elems :: "vec \<Rightarrow> int \<Rightarrow> int \<Rightarrow> vec" where
  "iotc_vector_swap_elems v i0 i1 =
     v\<lparr>v_elems := list_swap (v_elems v) (nat i0) (nat i1)\<rparr>"

definition iotc_vector_del :: "vec \<Rightarrow> int \<Rightarrow> vec" where
  "iotc_vector_del v index =
     (if v_elem_no v > 0 \<and> index < v_elem_no v then
        (let v1 = (if index \<noteq> v_elem_no v - 1
                   then iotc_vector_swap_elems v index (v_elem_no v - 1) else v);
             v2 = v1\<lparr>v_elem_no := v_elem_no v1 - 1\<rparr>
         in v2\<lparr>v_elems := (v_elems v2)[nat (v_elem_no v2) := 0]\<rparr>)
      else v)"

text \<open>\<open>fun_cmp\<close> is true where the C comparison returns 0. The loop index is recursed on.\<close>

function vector_find_loop :: "vec \<Rightarrow> (nat \<Rightarrow> bool) \<Rightarrow> int \<Rightarrow> int" where
  "vector_find_loop v eq i =
     (if i < v_elem_no v then
        (if eq (v_elems v ! nat i) then i else vector_find_loop v eq (i + 1))
      else - 1)"
  by pat_completeness auto
termination
  by (relation "measure (\<lambda>(v, eq, i). nat (v_elem_no v - i))") auto

definition iotc_vector_find :: "vec \<Rightarrow> nat \<Rightarrow> (nat \<Rightarrow> nat \<Rightarrow> bool) \<Rightarrow> int" where
  "iotc_vector_find v val fun_cmp = vector_find_loop v (\<lambda>e. fun_cmp e val) 0"

function vector_for_each_loop ::
    "(nat \<Rightarrow> 's \<Rightarrow> nat \<times> 's) \<Rightarrow> vec \<Rightarrow> int \<Rightarrow> 's \<Rightarrow> vec \<times> 's" where
  "vector_for_each_loop fun_for v i s =
     (if i < v_elem_no v then
        (case fun_for (v_elems v ! nat i) s of (e, s') \<Rightarrow>
           vector_for_each_loop fun_for (v\<lparr>v_elems := (v_elems v)[nat i := e]\<rparr>) (i + 1) s')
      else (v, s))"
  by pat_completeness auto
termination
  by (relation "measure (\<lambda>(f, v, i, s). nat (v_elem_no v - i))") auto

definition iotc_vector_for_each ::
    "vec \<Rightarrow> (nat \<Rightarrow> 's \<Rightarrow> nat \<times> 's) \<Rightarrow> 's \<Rightarrow> int \<Rightarrow> vec \<times> 's" where
  "iotc_vector_for_each v fun_for arg offset = vector_for_each_loop fun_for v offset arg"

definition iotc_vector_get :: "vec \<Rightarrow> int \<Rightarrow> nat" where
  "iotc_vector_get v index =
     (if v_elem_no v \<le> index \<or> index < 0 then NULL else v_elems v ! nat index)"

function vector_remove_if_loop :: "(nat \<Rightarrow> bool) \<Rightarrow> vec \<Rightarrow> int \<Rightarrow> vec" where
  "vector_remove_if_loop pred v i =
     (if i \<ge> 0 then
        vector_remove_if_loop pred
          (if pred (v_elems v ! nat i) then iotc_vector_del v i else v) (i - 1)
      else v)"
  by pat_completeness auto
termination
  by (relation "measure (\<lambda>(p, v, i). nat (i + 1))") auto

definition iotc_vector_remove_if :: "vec \<Rightarrow> (nat \<Rightarrow> bool) \<Rightarrow> vec" where
  "iotc_vector_remove_if v fun_pred = vector_remove_if_loop fun_pred v (v_elem_no v - 1)"

declare vector_find_loop.simps [simp del] vector_for_each_loop.simps [simp del]
  vector_remove_if_loop.simps [simp del]

section \<open>Invariant and abstraction\<close>

definition vec_inv :: "vec \<Rightarrow> bool" where
  "vec_inv v \<longleftrightarrow> 0 < v_capacity v \<and> 0 \<le> v_elem_no v \<and> v_elem_no v \<le> v_capacity v \<and> v_capacity v < 128
     \<and> length (v_elems v) = nat (v_capacity v)"

text \<open>A managed vector owns two live blocks.\<close>

definition vec_owned :: "vec \<Rightarrow> mem \<Rightarrow> bool" where
  "vec_owned v m \<longleftrightarrow> v_memory_type v = IOTC_MEMORY_TYPE_MANAGED
     \<and> m_live m (v_self v) = Some sizeof_vector
     \<and> m_live m (v_array v) = Some (nat (v_capacity v * sizeof_elem)) \<and> v_self v \<noteq> v_array v"

definition vec_list :: "vec \<Rightarrow> nat list" where
  "vec_list v = take (nat (v_elem_no v)) (v_elems v)"

lemma vec_list_length [simp]: "vec_inv v \<Longrightarrow> length (vec_list v) = nat (v_elem_no v)"
  by (auto simp: vec_list_def vec_inv_def min_def)

lemma vec_list_nth:
  "vec_inv v \<Longrightarrow> 0 \<le> i \<Longrightarrow> i < v_elem_no v \<Longrightarrow> v_elems v ! nat i = vec_list v ! nat i"
  by (simp add: vec_list_def vec_inv_def)

lemma vec_realloc_ok:
  assumes "vec_inv v" and "v_elem_no v \<le> n" and "0 < n" and "n < 128"
    and "iotc_vector_realloc v n m = (True, v', m')"
  shows "vec_inv v'" and "vec_list v' = vec_list v" and "v_capacity v' = n"
    and "v_elem_no v' = v_elem_no v" and "v_self v' = v_self v"
    and "v_memory_type v' = IOTC_MEMORY_TYPE_MANAGED"
proof -
  have sz: "to_size (n * sizeof_elem) div nat sizeof_elem = nat n"
    using assms(3,4) by (simp add: sizeof_elem_def nat_mult_distrib)
  have "length (v_elems v) = nat (v_capacity v)" "v_elem_no v \<le> v_capacity v" "0 \<le> v_elem_no v"
    using assms(1) by (simp_all add: vec_inv_def)
  with assms(2-5) sz show "vec_inv v'" and "vec_list v' = vec_list v" and "v_capacity v' = n"
    and "v_elem_no v' = v_elem_no v" and "v_self v' = v_self v"
    and "v_memory_type v' = IOTC_MEMORY_TYPE_MANAGED"
    by (auto simp: iotc_vector_realloc_def vec_inv_def vec_list_def Let_def min_def
        split: if_splits prod.splits)
qed

lemma vec_realloc_fail:
  "iotc_vector_realloc v n m = (False, v', m') \<Longrightarrow> v' = v"
  by (auto simp: iotc_vector_realloc_def Let_def split: if_splits prod.splits)

lemma vec_realloc_fail_mem:
  "wf_mem m \<Longrightarrow> iotc_vector_realloc v n m = (False, v', m') \<Longrightarrow>
   m_live m' = m_live m \<and> m_bad m' = m_bad m \<and> wf_mem m'"
  by (auto simp: iotc_vector_realloc_def Let_def mem_simps dest: alloc_wf
      split: if_splits prod.splits)

lemma vec_realloc_ok_mem:
  assumes "wf_mem m" and "iotc_vector_realloc v n m = (True, v', m')"
  shows "wf_mem m'" and "v_array v' \<noteq> NULL" and "m_live m (v_array v') = None"
    and "m_live m' = (m_live m)(v_array v' \<mapsto> to_size (n * sizeof_elem), v_array v := None)"
    and "m_bad m' \<longleftrightarrow> m_bad m \<or> (v_array v \<noteq> NULL \<and> m_live m (v_array v) = None \<and> v_array v \<noteq> v_array v')"
proof -
  let ?n = "to_size (n * sizeof_elem)"
  obtain a m1 where al: "iotc_alloc ?n m = (a, m1)" by fastforce
  with assms(2) have a: "a \<noteq> NULL" and v': "v_array v' = a" and m': "m' = IOTC_SAFE_FREE (v_array v) m1"
    by (auto simp: iotc_vector_realloc_def Let_def split: if_splits)
  from al assms(1) have w: "wf_mem m1" and f: "m_live m a = None" by (auto dest: alloc_wf alloc_fresh)
  from alloc_live [OF assms(1) al a] alloc_bad [OF al] w
  show "wf_mem m'" and "v_array v' \<noteq> NULL" and "m_live m (v_array v') = None"
    and "m_live m' = (m_live m)(v_array v' \<mapsto> ?n, v_array v := None)"
    and "m_bad m' \<longleftrightarrow> m_bad m \<or> (v_array v \<noteq> NULL \<and> m_live m (v_array v) = None \<and> v_array v \<noteq> v_array v')"
    using f a by (auto simp: m' v' mem_simps)
qed

lemma vec_create_inv:
  assumes "iotc_vector_create m = (Some v, m')"
  shows "vec_inv v" and "vec_list v = []"
  using assms
  by (auto simp: iotc_vector_create_def iotc_vector_realloc_def vec_inv_def vec_list_def
      IOTC_VECTOR_DEFAULT_CAPACITY_def sizeof_elem_def Let_def split: if_splits prod.splits bool.splits)

lemma vec_swap_inv:
  assumes "vec_inv v" and "0 \<le> i" and "i < v_elem_no v" and "0 \<le> j" and "j < v_elem_no v"
  shows "vec_inv (iotc_vector_swap_elems v i j)"
    and "vec_list (iotc_vector_swap_elems v i j) = list_swap (vec_list v) (nat i) (nat j)"
  using assms
  by (auto simp: iotc_vector_swap_elems_def vec_inv_def vec_list_def list_swap_def take_update_swap)

section \<open>Growing\<close>

text \<open>\<open>malloc\<close> never returns an object larger than \<^verbatim>\<open>PTRDIFF_MAX\<close> bytes.\<close>

definition malloc_bounded :: "mem \<Rightarrow> bool" where
  "malloc_bounded m \<longleftrightarrow> (\<forall>i n. 2 ^ 63 \<le> n \<longrightarrow> \<not> m_ok m i n)"

lemma alloc_huge:
  "wf_mem m \<Longrightarrow> malloc_bounded m \<Longrightarrow> 2 ^ 63 \<le> n \<Longrightarrow> iotc_alloc n m = (p, m') \<Longrightarrow> p = NULL"
  by (erule alloc_cases) (auto simp: malloc_bounded_def)

text \<open>Doubling a capacity of 64 or more overflows \<^verbatim>\<open>int8_t\<close> to a negative number,
  whose size in bytes is beyond what any \<open>malloc\<close> grants.\<close>

lemma doubling_overflows:
  assumes "64 \<le> c" and "c < 128"
  shows "to_int8 (c * 2) = c * 2 - 256" and "2 ^ 63 \<le> to_size (to_int8 (c * 2) * sizeof_elem)"
proof -
  have "(c * 2 + 128) mod 256 = (c * 2 + 128 - 256) mod 256" by (rule minus_mod_self2 [symmetric])
  also have "\<dots> = c * 2 - 128" using assms by (simp add: mod_pos_pos_trivial)
  finally have "(c * 2 + 128) mod 256 = c * 2 - 128" .
  then show e: "to_int8 (c * 2) = c * 2 - 256" by (simp add: to_int8_def)
  have "((c * 2 - 256) * 8) mod 2 ^ 64 = ((c * 2 - 256) * 8 + 2 ^ 64) mod 2 ^ 64"
    by (rule mod_add_self2 [symmetric])
  also have "\<dots> = (c * 2 - 256) * 8 + 2 ^ 64" using assms by (intro mod_pos_pos_trivial) auto
  finally have "((c * 2 - 256) * 8) mod 2 ^ 64 = (c * 2 - 256) * 8 + 2 ^ 64" .
  with assms show "2 ^ 63 \<le> to_size (to_int8 (c * 2) * sizeof_elem)"
    by (simp add: e to_size_def sizeof_elem_def)
qed

lemma vec_realloc_huge:
  assumes "wf_mem m" "malloc_bounded m" "2 ^ 63 \<le> to_size (n * sizeof_elem)"
  shows "\<exists>m'. iotc_vector_realloc v n m = (False, v, m') \<and> m_live m' = m_live m \<and> m_bad m' = m_bad m"
proof -
  obtain a m1 where al: "iotc_alloc (to_size (n * sizeof_elem)) m = (a, m1)" by fastforce
  with assms have "a = NULL" by (auto dest: alloc_huge)
  with al assms(1) show ?thesis
    by (auto simp: iotc_vector_realloc_def Let_def mem_simps)
qed

lemma vec_push_room:
  assumes "vec_inv v" and "v_elem_no v < v_capacity v"
  shows "\<exists>v'. iotc_vector_push v x m = (Some (length (vec_list v)), v', m) \<and> vec_inv v'
    \<and> vec_list v' = vec_list v @ [x] \<and> v_capacity v' = v_capacity v
    \<and> v_self v' = v_self v \<and> v_array v' = v_array v \<and> v_memory_type v' = v_memory_type v
    \<and> v_elem_no v' = v_elem_no v + 1"
proof -
  have e: "0 \<le> v_elem_no v" "v_elem_no v + 1 < 128" "nat (v_elem_no v) < length (v_elems v)"
    using assms by (auto simp: vec_inv_def)
  then have "nat (v_elem_no v + 1) = Suc (nat (v_elem_no v))" by simp
  with e assms show ?thesis
    by (auto simp: iotc_vector_push_def vec_inv_def vec_list_def take_Suc_list_update Let_def)
qed

lemma vec_push_grow:
  assumes v: "vec_inv v" and full: "v_elem_no v = v_capacity v" and wf: "wf_mem m" "malloc_bounded m"
    and push: "iotc_vector_push v x m = (Some i, v', m')"
  shows "v_capacity v < 64" and "vec_inv v'" and "vec_list v' = vec_list v @ [x]"
    and "v_capacity v' = 2 * v_capacity v" and "v_elem_no v' = v_elem_no v + 1"
    and "i = length (vec_list v)" and "v_self v' = v_self v"
    and "v_memory_type v' = IOTC_MEMORY_TYPE_MANAGED"
    and "\<exists>v1. iotc_vector_realloc v (2 * v_capacity v) m = (True, v1, m') \<and> v_array v' = v_array v1"
proof -
  have c: "0 < v_capacity v" "v_capacity v < 128" using v by (auto simp: vec_inv_def)
  obtain v1 m1 where r: "iotc_vector_realloc v (to_int8 (v_capacity v * 2)) m = (True, v1, m1)"
    using push full by (auto simp: iotc_vector_push_def split: prod.splits bool.splits)
  show c64: "v_capacity v < 64"
  proof (rule ccontr)
    assume "\<not> v_capacity v < 64"
    with c r wf show False
      using vec_realloc_huge [OF wf doubling_overflows(2), of "v_capacity v" v] by auto
  qed
  with c have t: "to_int8 (v_capacity v * 2) = 2 * v_capacity v" by simp
  have v1: "vec_inv v1" "vec_list v1 = vec_list v" "v_capacity v1 = 2 * v_capacity v"
    "v_elem_no v1 = v_elem_no v" "v_self v1 = v_self v"
    "v_memory_type v1 = IOTC_MEMORY_TYPE_MANAGED"
    using vec_realloc_ok [OF v _ _ _ r [unfolded t]] full c64 c by auto
  have "iotc_vector_push v x m = iotc_vector_push v1 x m1"
    using r full v1 c by (simp add: iotc_vector_push_def)
  with vec_push_room [OF v1(1), of x m1] v1 c full push
  have "m1 = m'" and *: "vec_inv v'" "vec_list v' = vec_list v @ [x]" "v_capacity v' = 2 * v_capacity v"
    "v_elem_no v' = v_elem_no v + 1" "i = length (vec_list v)" "v_self v' = v_self v"
    "v_memory_type v' = IOTC_MEMORY_TYPE_MANAGED" "v_array v' = v_array v1"
    by auto
  from * show "vec_inv v'" "vec_list v' = vec_list v @ [x]" "v_capacity v' = 2 * v_capacity v"
    "v_elem_no v' = v_elem_no v + 1" "i = length (vec_list v)" "v_self v' = v_self v"
    "v_memory_type v' = IOTC_MEMORY_TYPE_MANAGED" by simp_all
  from r t * \<open>m1 = m'\<close>
  show "\<exists>v1. iotc_vector_realloc v (2 * v_capacity v) m = (True, v1, m') \<and> v_array v' = v_array v1"
    by auto
qed

lemma vec_push_fail:
  assumes "vec_inv v" and "wf_mem m" and "iotc_vector_push v x m = (None, v', m')"
  shows "v' = v" and "m_live m' = m_live m" and "m_bad m' = m_bad m" and "wf_mem m'"
    and "v_elem_no v = v_capacity v"
proof -
  have r: "iotc_vector_realloc v (to_int8 (v_capacity v * 2)) m = (False, v', m')"
    and "v_elem_no v + 1 > v_capacity v"
    using assms(3) by (auto simp: iotc_vector_push_def Let_def split: prod.splits bool.splits if_splits)
  with assms(1) show "v_elem_no v = v_capacity v" by (simp add: vec_inv_def)
  from r show "v' = v" by (rule vec_realloc_fail)
  from vec_realloc_fail_mem [OF assms(2) r]
  show "m_live m' = m_live m" and "m_bad m' = m_bad m" and "wf_mem m'" by auto
qed

section \<open>Searching\<close>

lemma find_loop_spec:
  assumes "vec_inv v" and "0 \<le> i"
  shows "vector_find_loop v eq i =
    (let hits = filter (\<lambda>k. eq (vec_list v ! k)) [nat i..<length (vec_list v)]
     in if hits = [] then - 1 else int (hd hits))"
  using assms
proof (induction v eq i rule: vector_find_loop.induct)
  case (1 v eq i)
  show ?case
  proof (cases "i < v_elem_no v")
    case True
    with "1.prems" have "[nat i..<length (vec_list v)] = nat i # [nat (i + 1)..<length (vec_list v)]"
      by (simp add: upt_conv_Cons Suc_nat_eq_nat_zadd1 add.commute)
    with True 1 show ?thesis
      by (subst vector_find_loop.simps) (auto simp: Let_def vec_list_nth)
  next
    case False
    with "1.prems" show ?thesis by (subst vector_find_loop.simps) (simp add: Let_def)
  qed
qed

lemma vec_find_spec:
  assumes "vec_inv v"
  shows "iotc_vector_find v x cmp =
    (case find (\<lambda>k. cmp (vec_list v ! k) x) [0..<length (vec_list v)] of
       None \<Rightarrow> - 1 | Some k \<Rightarrow> int k)"
proof -
  have "find P ks = (if filter P ks = [] then None else Some (hd (filter P ks)))" for P and ks :: "nat list"
    by (induction ks) auto
  with assms show ?thesis by (simp add: iotc_vector_find_def find_loop_spec Let_def)
qed

lemma find_Some_first:
  "find P [0..<n] = Some k \<longleftrightarrow> k < n \<and> P k \<and> (\<forall>j<k. \<not> P j)"
  by (auto simp: find_Some_iff2 find_Some_iff)

lemma vec_find_nonneg:
  assumes "vec_inv v" and "iotc_vector_find v x cmp = k" and "0 \<le> k"
  shows "nat k < length (vec_list v)" and "cmp (vec_list v ! nat k) x"
    and "\<forall>j<nat k. \<not> cmp (vec_list v ! j) x"
  using assms by (auto simp: vec_find_spec find_Some_first split: option.splits)

lemma vec_find_neg:
  assumes "vec_inv v"
  shows "iotc_vector_find v x cmp < 0 \<longleftrightarrow> (\<forall>e\<in>set (vec_list v). \<not> cmp e x)"
  using assms by (auto simp: vec_find_spec find_None_iff in_set_conv_nth split: option.splits)
    (auto simp: find_Some_first)

section \<open>Removing\<close>

text \<open>The element's place is taken by the last one; the cell that falls free is cleared.\<close>

definition drop_index :: "'a list \<Rightarrow> nat \<Rightarrow> 'a list" where
  "drop_index xs i = (if i = length xs - 1 then butlast xs else butlast (xs[i := last xs]))"

lemma vec_del_spec:
  assumes "vec_inv v" and "0 \<le> i" and "i < v_elem_no v"
  shows "vec_inv (iotc_vector_del v i)"
    and "vec_list (iotc_vector_del v i) = drop_index (vec_list v) (nat i)"
    and "v_elem_no (iotc_vector_del v i) = v_elem_no v - 1"
proof -
  let ?n = "nat (v_elem_no v)"
  have n: "0 < ?n" "?n \<le> length (v_elems v)" "nat (v_elem_no v - 1) = ?n - 1" "nat i < ?n"
    using assms by (auto simp: vec_inv_def)
  then show "v_elem_no (iotc_vector_del v i) = v_elem_no v - 1"
    using assms by (simp add: iotc_vector_del_def iotc_vector_swap_elems_def Let_def)
  show "vec_inv (iotc_vector_del v i)"
    using assms by (auto simp: iotc_vector_del_def iotc_vector_swap_elems_def vec_inv_def Let_def)
  have last: "last (vec_list v) = v_elems v ! (?n - 1)"
    using n by (subst last_conv_nth) (auto simp: vec_list_def min_def)
  have len: "length (vec_list v) = ?n" using assms(1) by simp
  have nno: "nat (v_elem_no (iotc_vector_del v i)) = ?n - 1"
    using \<open>v_elem_no (iotc_vector_del v i) = v_elem_no v - 1\<close> n(3) by simp
  show "vec_list (iotc_vector_del v i) = drop_index (vec_list v) (nat i)"
  proof (cases "nat i = ?n - 1")
    case True
    then have "i = v_elem_no v - 1" using assms n by linarith
    then have "v_elems (iotc_vector_del v i) = (v_elems v)[?n - 1 := 0]"
      using assms(2,3) n(3) by (simp add: iotc_vector_del_def Let_def)
    with True len nno n show ?thesis
      by (simp only: vec_list_def drop_index_def) (simp add: butlast_take)
  next
    case False
    then have i: "nat i < ?n - 1" and ne: "i \<noteq> v_elem_no v - 1" using n assms by linarith+
    then have "v_elems (iotc_vector_del v i) = (list_swap (v_elems v) (nat i) (?n - 1))[?n - 1 := 0]"
      using assms(2,3) n(3) by (simp add: iotc_vector_del_def iotc_vector_swap_elems_def Let_def)
    then have "vec_list (iotc_vector_del v i) =
        (take (?n - 1) (v_elems v))[nat i := v_elems v ! (?n - 1)]"
      using i by (simp only: vec_list_def nno) (simp add: list_swap_def take_update_swap list_update_beyond)
    moreover have "butlast ((vec_list v)[nat i := last (vec_list v)]) =
        (butlast (vec_list v))[nat i := last (vec_list v)]"
      using i len by (simp add: butlast_list_update)
    moreover have "butlast (vec_list v) = take (?n - 1) (v_elems v)"
      using n by (simp add: vec_list_def butlast_take)
    ultimately show ?thesis
      using False len last by (simp add: drop_index_def)
  qed
qed

lemma mset_drop_index:
  assumes "i < length xs"
  shows "mset (drop_index xs i) = mset xs - {#xs ! i#}"
proof (cases "i = length xs - 1")
  case True
  with assms have "xs = butlast xs @ [xs ! i]"
    by (metis append_butlast_last_id last_conv_nth list.size(3) not_less_zero)
  then have "mset xs = mset (butlast xs) + {#xs ! i#}"
    by (metis mset.simps(1) mset.simps(2) mset_append)
  with True show ?thesis by (simp add: drop_index_def)
next
  case False
  let ?ys = "xs[i := last xs]"
  have "xs \<noteq> []" using assms by auto
  then have ne: "?ys \<noteq> []" "last ?ys = last xs" using False assms
    by (auto simp: last_list_update)
  then have "mset ?ys = mset (butlast ?ys) + {#last xs#}"
    by (metis append_butlast_last_id mset.simps(1) mset.simps(2) mset_append)
  moreover have "mset ?ys = mset xs - {#xs ! i#} + {#last xs#}"
    using assms by (simp add: mset_update)
  ultimately show ?thesis using False by (simp add: drop_index_def)
qed

lemma drop_index_take:
  assumes "i < length xs" and "k \<le> i"
  shows "take k (drop_index xs i) = take k xs"
  using assms by (auto simp: drop_index_def take_butlast)

lemma mset_drop_drop_index:
  assumes "i < length xs"
  shows "mset (drop i (drop_index xs i)) = mset (drop (Suc i) xs)"
proof -
  have "mset (take i xs) + mset (drop i (drop_index xs i)) = mset (drop_index xs i)"
    using assms drop_index_take [of i xs i] by (metis append_take_drop_id mset_append order_refl)
  also have "\<dots> = mset (take i xs @ xs ! i # drop (Suc i) xs) - {#xs ! i#}"
    using assms by (simp only: mset_drop_index id_take_nth_drop [symmetric])
  finally show ?thesis by simp
qed

lemma remove_if_loop_spec:
  assumes "vec_inv v" and "i < v_elem_no v" and "- 1 \<le> i"
  shows "vec_inv (vector_remove_if_loop p v i) \<and>
    mset (vec_list (vector_remove_if_loop p v i)) =
      filter_mset (\<lambda>x. \<not> p x) (mset (take (nat (i + 1)) (vec_list v)))
      + mset (drop (nat (i + 1)) (vec_list v))"
  using assms
proof (induction p v i rule: vector_remove_if_loop.induct)
  case (1 p v i)
  show ?case
  proof (cases "i \<ge> 0")
    case True
    let ?xs = "vec_list v"
    let ?v = "if p (v_elems v ! nat i) then iotc_vector_del v i else v"
    have l: "nat i < length ?xs" and s: "nat (i + 1) = Suc (nat i)" using True "1.prems" by auto
    have e: "v_elems v ! nat i = ?xs ! nat i" using True "1.prems" by (intro vec_list_nth) auto
    have v: "vec_inv ?v" "i - 1 < v_elem_no ?v" "take (nat i) (vec_list ?v) = take (nat i) ?xs"
      "mset (drop (nat i) (vec_list ?v)) =
        (if p (?xs ! nat i) then {#} else {#?xs ! nat i#}) + mset (drop (nat (i + 1)) ?xs)"
      using True "1.prems" l s e vec_del_spec [of v i]
      by (auto simp: drop_index_take mset_drop_drop_index Cons_nth_drop_Suc [symmetric])
    have "vector_remove_if_loop p v i = vector_remove_if_loop p ?v (i - 1)"
      using True by (subst vector_remove_if_loop.simps) simp
    moreover have "take (nat (i + 1)) ?xs = take (nat i) ?xs @ [?xs ! nat i]"
      using l s by (simp add: take_Suc_conv_app_nth)
    ultimately show ?thesis
      using "1.IH" [OF True v(1,2)] True v(3,4) by simp
  next
    case False
    with "1.prems" have "i = - 1" by simp
    with "1.prems" show ?thesis by (subst (1 2) vector_remove_if_loop.simps) simp
  qed
qed

lemma remove_if_spec:
  assumes "vec_inv v"
  shows "vec_inv (iotc_vector_remove_if v p)"
    and "mset (vec_list (iotc_vector_remove_if v p)) = filter_mset (\<lambda>x. \<not> p x) (mset (vec_list v))"
proof -
  have e: "v_elem_no v - 1 < v_elem_no v" "- 1 \<le> v_elem_no v - 1" using assms by (auto simp: vec_inv_def)
  have "nat (v_elem_no v - 1 + 1) = length (vec_list v)" using assms by simp
  with remove_if_loop_spec [OF assms e, of p] show "vec_inv (iotc_vector_remove_if v p)"
    and "mset (vec_list (iotc_vector_remove_if v p)) = filter_mset (\<lambda>x. \<not> p x) (mset (vec_list v))"
    by (simp_all add: iotc_vector_remove_if_def)
qed

section \<open>Histories of pushes\<close>

primrec vec_pushes :: "vec \<Rightarrow> nat list \<Rightarrow> mem \<Rightarrow> vec \<times> mem" where
  "vec_pushes v [] m = (v, m)"
| "vec_pushes v (x # xs) m = (case iotc_vector_push v x m of (_, v', m') \<Rightarrow> vec_pushes v' xs m')"

text \<open>
  What every push keeps of a vector that started as \<^verbatim>\<open>iotc_vector_create\<close> made it,
  where \<open>base\<close> is the map of the blocks that were live before: the vector owns exactly
  its two blocks on top of \<open>base\<close>.
\<close>

definition owns_over :: "(ptr \<rightharpoonup> nat) \<Rightarrow> vec \<Rightarrow> mem \<Rightarrow> bool" where
  "owns_over base v m \<longleftrightarrow>
     m_live m = base(v_self v \<mapsto> sizeof_vector, v_array v \<mapsto> nat (v_capacity v * sizeof_elem))
     \<and> base (v_self v) = None \<and> base (v_array v) = None \<and> v_self v \<noteq> v_array v
     \<and> v_self v \<noteq> NULL \<and> v_array v \<noteq> NULL \<and> v_memory_type v = IOTC_MEMORY_TYPE_MANAGED"

definition grown :: "(ptr \<rightharpoonup> nat) \<Rightarrow> vec \<Rightarrow> mem \<Rightarrow> bool" where
  "grown base v m \<longleftrightarrow> vec_inv v \<and> v_capacity v \<in> {2, 4, 8, 16, 32, 64} \<and> wf_mem m
     \<and> malloc_bounded m \<and> \<not> m_bad m \<and> owns_over base v m"

lemma vec_realloc_ok_oracle:
  "iotc_vector_realloc v n m = (b, v', m') \<Longrightarrow> m_ok m' = m_ok m"
  using alloc_ok_oracle
  by (auto simp: iotc_vector_realloc_def Let_def split: prod.splits if_splits)

lemma vec_create_grown:
  assumes "wf_mem m" "malloc_bounded m" "\<not> m_bad m" "iotc_vector_create m = (Some v, m')"
  shows "grown (m_live m) v m'" and "vec_list v = []"
proof -
  obtain p m1 where al: "iotc_alloc sizeof_vector m = (p, m1)" by fastforce
  with assms(4) have p: "p \<noteq> NULL" by (auto simp: iotc_vector_create_def split: if_splits)
  note a = alloc_wf [OF assms(1) al] alloc_live [OF assms(1) al p] alloc_bad [OF al]
    alloc_fresh [OF assms(1) al] alloc_ok_oracle [OF al]
  let ?v0 = "\<lparr>v_self = p, v_array = NULL, v_elems = [], v_elem_no = 0, v_capacity = 0,
      v_memory_type = IOTC_MEMORY_TYPE_MANAGED\<rparr>"
  from assms(4) al p have r: "iotc_vector_realloc ?v0 2 m1 = (True, v, m')"
    by (auto simp: iotc_vector_create_def IOTC_VECTOR_DEFAULT_CAPACITY_def
        split: prod.splits bool.splits)
  note rm = vec_realloc_ok_mem [OF a(1) r] and ok = vec_realloc_ok_oracle [OF r]
  have v: "v_self v = p" "v_capacity v = 2" "v_memory_type v = IOTC_MEMORY_TYPE_MANAGED"
    using r by (auto simp: iotc_vector_realloc_def Let_def split: prod.splits if_splits)
  have sz: "to_size (2 * sizeof_elem) = nat (2 * sizeof_elem)" by (simp add: sizeof_elem_def)
  have np: "v_array v \<noteq> p" "m_live m (v_array v) = None" using rm(3) a(2) by (auto split: if_splits)
  show "vec_list v = []" using vec_create_inv [OF assms(4)] by simp
  have "m_live m' = (m_live m)(v_self v \<mapsto> sizeof_vector, v_array v \<mapsto> nat (2 * sizeof_elem))"
    using rm(2,4) a(2) p wf_mem_live_null [OF assms(1)] by (auto simp: v sz fun_eq_iff)
  then show "grown (m_live m) v m'"
    using vec_create_inv(1) [OF assms(4)] rm(1,2,5) v np assms(2,3) ok a p
    by (auto simp: grown_def owns_over_def malloc_bounded_def)
qed

lemma vec_push_grown_all:
  assumes g: "grown base v m" and push: "iotc_vector_push v x m = (r, v', m')"
  shows "grown base v' m' \<and> (r = None \<longrightarrow> v' = v \<and> v_elem_no v = v_capacity v)
    \<and> (r \<noteq> None \<longrightarrow> vec_list v' = vec_list v @ [x] \<and> r = Some (length (vec_list v)))"
proof -
  from g have inv: "vec_inv v" and wf: "wf_mem m" "malloc_bounded m"
    and c: "v_capacity v \<in> {2, 4, 8, 16, 32, 64}" and nb: "\<not> m_bad m" and o: "owns_over base v m"
    by (auto simp: grown_def)
  consider (fail) "r = None" | (room) "v_elem_no v < v_capacity v"
    | (grow) i where "v_elem_no v = v_capacity v" "r = Some i"
    using inv unfolding vec_inv_def by (metis linorder_not_le option.exhaust order_antisym_conv)
  then show ?thesis
  proof cases
    case fail
    note f = vec_push_fail [OF inv wf(1) push [unfolded fail]]
    have "m_ok m' = m_ok m"
      using push fail vec_realloc_ok_oracle
      by (auto simp: iotc_vector_push_def Let_def split: prod.splits bool.splits if_splits)
    with f g fail show ?thesis
      by (auto simp: grown_def owns_over_def malloc_bounded_def)
  next
    case room
    from vec_push_room [OF inv room, of x m] push g show ?thesis
      by (auto simp: grown_def owns_over_def)
  next
    case grow
    note p = vec_push_grow [OF inv grow(1) wf push [unfolded grow(2)]]
    from p(9) obtain v1 where r1: "iotc_vector_realloc v (2 * v_capacity v) m = (True, v1, m')"
      and a: "v_array v' = v_array v1" by blast
    note rm = vec_realloc_ok_mem [OF wf(1) r1] and ok = vec_realloc_ok_oracle [OF r1]
    have sz: "to_size (2 * v_capacity v * sizeof_elem) = nat (2 * v_capacity v * sizeof_elem)"
      using c by (auto simp: sizeof_elem_def)
    have fr: "v_array v1 \<noteq> v_self v" "v_array v1 \<noteq> v_array v" "base (v_array v1) = None"
      using rm(3) o by (auto simp: owns_over_def split: if_splits)
    have "m_live m' = base(v_self v \<mapsto> sizeof_vector, v_array v1 \<mapsto> nat (2 * v_capacity v * sizeof_elem))"
      using rm(4) o fr sz by (auto simp: owns_over_def fun_eq_iff)
    then have "owns_over base v' m'"
      using p a o fr rm(2) by (simp add: owns_over_def)
    moreover have "\<not> m_bad m'" using rm(5) nb o by (auto simp: owns_over_def)
    moreover have "v_capacity v' \<in> {2, 4, 8, 16, 32, 64}" using p(1,4) c by auto
    ultimately have "grown base v' m'"
      using p rm(1) ok wf(2) by (auto simp: grown_def malloc_bounded_def)
    with p grow show ?thesis by auto
  qed
qed

lemma vec_push_grown:
  assumes "grown base v m" and "iotc_vector_push v x m = (r, v', m')"
  shows "grown base v' m'"
    and "r = None \<Longrightarrow> v' = v" and "r \<noteq> None \<Longrightarrow> vec_list v' = vec_list v @ [x]"
    and "r \<noteq> None \<Longrightarrow> r = Some (length (vec_list v))"
    and "r = None \<Longrightarrow> v_elem_no v = v_capacity v"
  using vec_push_grown_all [OF assms] by blast+

lemma vec_push_granted:
  assumes g: "grown base v m" and ok: "\<forall>i n. n < 2 ^ 63 \<longrightarrow> m_ok m i n" and room: "v_elem_no v < 64"
    and push: "iotc_vector_push v x m = (r, v', m')"
  shows "r \<noteq> None"
proof
  assume r: "r = None"
  with vec_push_grown(5) [OF g push] have full: "v_elem_no v = v_capacity v" by simp
  from g have wf: "wf_mem m" and c: "v_capacity v \<in> {2, 4, 8, 16, 32, 64}" and o: "owns_over base v m"
    by (auto simp: grown_def)
  from c full room have c': "v_capacity v \<in> {2, 4, 8, 16, 32}" by auto
  let ?n = "to_size (to_int8 (v_capacity v * 2) * sizeof_elem)"
  have "?n < 2 ^ 63" using c' by (auto simp: sizeof_elem_def)
  with ok obtain p m1 where al: "iotc_alloc ?n m = (p, m1)" "p \<noteq> NULL"
    using alloc_granted [OF wf] by (metis prod.exhaust)
  with push r full o show False
    by (auto simp: iotc_vector_push_def iotc_vector_realloc_def owns_over_def Let_def)
qed

lemma vec_pushes_grown:
  "grown base v m \<Longrightarrow> vec_pushes v xs m = (v', m') \<Longrightarrow> grown base v' m'"
proof (induction xs arbitrary: v m)
  case (Cons x xs)
  then show ?case by (auto split: prod.splits dest: vec_push_grown(1))
qed simp

lemma vec_pushes_list:
  assumes "grown base v m" and "\<forall>i n. n < 2 ^ 63 \<longrightarrow> m_ok m i n" and "vec_pushes v xs m = (v', m')"
  shows "vec_list v' = take 64 (vec_list v @ xs)"
  using assms
proof (induction xs arbitrary: v m)
  case Nil
  then have "length (vec_list v) \<le> 64" by (auto simp: grown_def vec_inv_def)
  with Nil show ?case by simp
next
  case (Cons x xs)
  obtain r v1 m1 where push: "iotc_vector_push v x m = (r, v1, m1)" by (metis prod_cases3)
  note g = vec_push_grown [OF Cons.prems(1) push]
  have ok: "m_ok m1 = m_ok m"
    using push vec_realloc_ok_oracle
    by (auto simp: iotc_vector_push_def Let_def split: prod.splits bool.splits if_splits)
  have l: "length (vec_list v) = nat (v_elem_no v)" "length (vec_list v) \<le> 64" "0 \<le> v_elem_no v"
    using Cons.prems(1) by (auto simp: grown_def vec_inv_def)
  have IH: "vec_list v' = take 64 (vec_list v1 @ xs)"
    using Cons.IH [OF g(1)] Cons.prems push ok by simp
  show ?case
  proof (cases "v_elem_no v < 64")
    case True
    with vec_push_granted [OF Cons.prems(1,2) _ push] g(3) IH show ?thesis by simp
  next
    case False
    with l have 64: "length (vec_list v) = 64" by simp
    have "vec_list v1 = vec_list v \<or> vec_list v1 = vec_list v @ [x]" using g by auto
    with IH 64 show ?thesis by auto
  qed
qed

lemma vec_destroy_grown:
  assumes "grown base v m"
  shows "m_live (iotc_vector_destroy v m) = base" and "\<not> m_bad (iotc_vector_destroy v m)"
    and "wf_mem (iotc_vector_destroy v m)"
  using assms
  by (auto simp: iotc_vector_destroy_def grown_def owns_over_def mem_simps Let_def fun_eq_iff)

text \<open>A vector on an otherwise empty heap whose \<open>malloc\<close> grants what fits.\<close>

lemma fresh_vec:
  obtains v m where "grown Map.empty v m" and "vec_list v = []" and "m_ok m = (\<lambda>i n. n < 2 ^ 63)"
    and "iotc_vector_create (empty_mem (\<lambda>i n. n < 2 ^ 63)) = (Some v, m)"
proof -
  let ?m0 = "empty_mem (\<lambda>i n. n < 2 ^ 63)"
  have mb: "malloc_bounded ?m0" and nb: "\<not> m_bad ?m0" and lv: "m_live ?m0 = Map.empty"
    by (simp_all add: malloc_bounded_def empty_mem_def)
  obtain v m where c: "iotc_vector_create ?m0 = (Some v, m)" and ok: "m_ok m = (\<lambda>i n. n < 2 ^ 63)"
    by (simp add: iotc_vector_create_def iotc_vector_realloc_def iotc_alloc_def iotc_bsp_mem_alloc_def
        empty_mem_def sizeof_vector_def sizeof_elem_def IOTC_VECTOR_DEFAULT_CAPACITY_def Let_def)
  from vec_create_grown [OF wf_empty_mem mb nb c] have "grown Map.empty v m" "vec_list v = []"
    by (simp_all only: lv)
  with c ok that show ?thesis by blast
qed

section \<open>Properties\<close>

text \<open>
  The vector grows by doubling up to 64 elements and no further, because the
  capacity is an \<^verbatim>\<open>int8_t\<close>: with a \<open>malloc\<close> that grants every request below
  \<^verbatim>\<open>PTRDIFF_MAX\<close> and none above, a vector that \<^verbatim>\<open>iotc_vector_create\<close>
  returned and into which the values \<open>xs\<close> were pushed holds exactly the first 64 of them,
  in order; every later push is refused.
\<close>

theorem vector_holds_first_64:
  assumes "wf_mem m" and "\<not> m_bad m" and "\<forall>i n. m_ok m i n \<longleftrightarrow> n < 2 ^ 63"
    and "iotc_vector_create m = (Some v, m1)" and "vec_pushes v xs m1 = (v', m2)"
  shows "vec_list v' = take 64 xs"
proof -
  have b: "malloc_bounded m" using assms(3) by (simp add: malloc_bounded_def)
  note g = vec_create_grown [OF assms(1) b assms(2,4)]
  have "m_ok m1 = m_ok m"
    using assms(4) alloc_ok_oracle vec_realloc_ok_oracle
    by (auto simp: iotc_vector_create_def Let_def split: prod.splits bool.splits if_splits)
  with assms(3) have "\<forall>i n. n < 2 ^ 63 \<longrightarrow> m_ok m1 i n" by simp
  from vec_pushes_list [OF g(1) this assms(5)] g(2) show ?thesis by simp
qed

theorem vector_holds_first_64_witness:
  "\<exists>v v' m1 m2. iotc_vector_create (empty_mem (\<lambda>i n. n < 2 ^ 63)) = (Some v, m1)
     \<and> vec_pushes v [1..<101] m1 = (v', m2) \<and> vec_list v' = take 64 [1..<101]"
proof -
  let ?m = "empty_mem (\<lambda>i n. n < 2 ^ 63)"
  obtain v m1 where c: "iotc_vector_create ?m = (Some v, m1)"
    by (simp add: iotc_vector_create_def iotc_vector_realloc_def iotc_alloc_def
        iotc_bsp_mem_alloc_def empty_mem_def sizeof_vector_def sizeof_elem_def
        IOTC_VECTOR_DEFAULT_CAPACITY_def)
  obtain v' m2 where p: "vec_pushes v [1..<101] m1 = (v', m2)" by fastforce
  have "vec_list v' = take 64 [1..<101]"
    by (rule vector_holds_first_64 [OF _ _ _ c p]) (simp_all add: empty_mem_def wf_mem_def)
  with c p show ?thesis by blast
qed

text \<open>
  A vector does not leak and is not freed twice: from its creation, through any
  pushes (granted or refused by \<open>malloc\<close>), to \<^verbatim>\<open>iotc_vector_destroy\<close>, the blocks
  that are live at the end are exactly those that were live before, and no pointer that
  was not live was freed; a failed \<^verbatim>\<open>iotc_vector_create\<close> leaves nothing behind.
\<close>

theorem vector_no_leak:
  assumes "wf_mem m" and "malloc_bounded m" and "\<not> m_bad m"
    and "iotc_vector_create m = (ov, m1)"
  shows "(ov = None \<longrightarrow> m_live m1 = m_live m \<and> \<not> m_bad m1)
    \<and> (\<forall>v xs v' m2. ov = Some v \<longrightarrow> vec_pushes v xs m1 = (v', m2) \<longrightarrow>
        m_live (iotc_vector_destroy v' m2) = m_live m \<and> \<not> m_bad (iotc_vector_destroy v' m2))"
proof (intro conjI impI allI)
  assume n: "ov = None"
  obtain p ma where al: "iotc_alloc sizeof_vector m = (p, ma)" by fastforce
  have "m_live m1 = m_live m \<and> \<not> m_bad m1"
  proof (cases "p = NULL")
    case True
    with assms al n show ?thesis by (auto simp: iotc_vector_create_def mem_simps)
  next
    case False
    let ?v0 = "\<lparr>v_self = p, v_array = NULL, v_elems = [], v_elem_no = 0, v_capacity = 0,
      v_memory_type = IOTC_MEMORY_TYPE_MANAGED\<rparr>"
    from False assms al n obtain mb where r: "iotc_vector_realloc ?v0 2 ma = (False, ?v0, mb)"
      and m1: "m1 = IOTC_SAFE_FREE p mb"
      using vec_realloc_fail
      by (fastforce simp: iotc_vector_create_def IOTC_VECTOR_DEFAULT_CAPACITY_def Let_def
          split: prod.splits bool.splits)
    note f = vec_realloc_fail_mem [OF alloc_wf [OF assms(1) al] r]
    from f m1 alloc_live [OF assms(1) al False] alloc_bad [OF al] alloc_fresh [OF assms(1) al] assms(3)
    show ?thesis by (auto simp: mem_simps fun_eq_iff)
  qed
  then show "m_live m1 = m_live m" "\<not> m_bad m1" by auto
next
  fix v xs v' m2
  assume "ov = Some v" and p: "vec_pushes v xs m1 = (v', m2)"
  with vec_create_grown(1) [OF assms(1-3)] assms(4) have "grown (m_live m) v m1" by simp
  from vec_pushes_grown [OF this p]
  show "m_live (iotc_vector_destroy v' m2) = m_live m" "\<not> m_bad (iotc_vector_destroy v' m2)"
    by (rule vec_destroy_grown)+
qed

theorem vector_no_leak_witness:
  "\<exists>ov m1. iotc_vector_create (empty_mem (\<lambda>i n. n < 2 ^ 63)) = (ov, m1)
    \<and> ((ov = None \<longrightarrow> m_live m1 = Map.empty \<and> \<not> m_bad m1)
    \<and> (\<forall>v xs v' m2. ov = Some v \<longrightarrow> vec_pushes v xs m1 = (v', m2) \<longrightarrow>
        m_live (iotc_vector_destroy v' m2) = Map.empty \<and> \<not> m_bad (iotc_vector_destroy v' m2)))"
proof -
  let ?m = "empty_mem (\<lambda>i n. n < 2 ^ 63)"
  have h: "wf_mem ?m" "malloc_bounded ?m" "\<not> m_bad ?m" "m_live ?m = Map.empty"
    by (simp_all add: malloc_bounded_def empty_mem_def wf_mem_def)
  obtain ov m1 where c: "iotc_vector_create ?m = (ov, m1)" by fastforce
  from vector_no_leak [OF h(1-3) c] c show ?thesis unfolding h(4) by blast
qed

text \<open>
  \<^verbatim>\<open>iotc_vector_remove_if\<close>, which deletes by swapping with the last element while
  it walks from the end, removes exactly the elements that satisfy the predicate, each
  as often as it occurs, and keeps every other one.
\<close>

theorem vector_remove_if_correct:
  assumes "vec_inv v"
  shows "vec_inv (iotc_vector_remove_if v p)
    \<and> mset (vec_list (iotc_vector_remove_if v p)) = filter_mset (\<lambda>x. \<not> p x) (mset (vec_list v))"
  using remove_if_spec [OF assms] by simp

theorem vector_remove_if_correct_witness:
  "let v = \<lparr>v_self = 1, v_array = 2, v_elems = [4, 7, 6, 9], v_elem_no = 3, v_capacity = 4,
            v_memory_type = IOTC_MEMORY_TYPE_MANAGED\<rparr>
   in vec_inv (iotc_vector_remove_if v even)
    \<and> mset (vec_list (iotc_vector_remove_if v even)) = filter_mset (\<lambda>x. \<not> even x) (mset (vec_list v))"
  unfolding Let_def by (rule vector_remove_if_correct) (simp add: vec_inv_def)

end
