(* ===== verification/Iotc_Handle.thy ===== *)
theory Iotc_Handle
  imports Iotc_Vector
begin

text \<open>
  Handles for objects, \<^verbatim>\<open>src/libiotc/iotc_handle.c\<close>: an object is known to the user
  by its position in a vector of pointers, and a released position (a \<open>NULL\<close> cell) is
  taken again by the next registration. Handles are 32 bit integers, but the index of
  a vector is an \<^verbatim>\<open>int8_t\<close>, so \<^verbatim>\<open>iotc_object_for_handle\<close> looks at the
  low eight bits of a handle only.
\<close>

definition IOTC_INVALID_CONTEXT_HANDLE :: int where
  "IOTC_INVALID_CONTEXT_HANDLE = - 1"

definition iotc_compare_context_pointers :: "nat \<Rightarrow> nat \<Rightarrow> bool" where
  "iotc_compare_context_pointers e0 e1 = (e0 = e1)"

definition iotc_object_for_handle :: "vec \<Rightarrow> int \<Rightarrow> ptr" where
  "iotc_object_for_handle v handle = iotc_vector_get v (to_int8 handle)"

definition iotc_find_handle_for_object :: "vec \<Rightarrow> ptr \<Rightarrow> iotc_state \<times> int" where
  "iotc_find_handle_for_object v object =
     (let handler_index = iotc_vector_find v object iotc_compare_context_pointers
      in if handler_index < 0 then (IOTC_ELEMENT_NOT_FOUND, IOTC_INVALID_CONTEXT_HANDLE)
         else (IOTC_STATE_OK, handler_index))"

definition iotc_delete_handle_for_object :: "vec \<Rightarrow> ptr \<Rightarrow> iotc_state \<times> vec" where
  "iotc_delete_handle_for_object v object =
     (let handler_index = iotc_vector_find v object iotc_compare_context_pointers
      in if handler_index < 0 then (IOTC_ELEMENT_NOT_FOUND, v)
         else (IOTC_STATE_OK, v\<lparr>v_elems := (v_elems v)[nat handler_index := NULL]\<rparr>))"

text \<open>The result of the push is not looked at.\<close>

definition iotc_register_handle_for_object ::
    "vec \<Rightarrow> int \<Rightarrow> ptr \<Rightarrow> mem \<Rightarrow> iotc_state \<times> vec \<times> mem" where
  "iotc_register_handle_for_object v max_object_cnt object m =
     (let handler_index = iotc_vector_find v NULL iotc_compare_context_pointers
      in if handler_index < 0 then
           (if v_elem_no v \<ge> max_object_cnt then (IOTC_NO_MORE_RESOURCE_AVAILABLE, v, m)
            else (case iotc_vector_push v object m of (_, v', m') \<Rightarrow> (IOTC_STATE_OK, v', m')))
         else (IOTC_STATE_OK, v\<lparr>v_elems := (v_elems v)[nat handler_index := object]\<rparr>, m))"

section \<open>The cells as a function of the handle\<close>

lemma object_for_handle_nth:
  assumes "vec_inv v" and "0 \<le> h" and "h < 128"
  shows "iotc_object_for_handle v h =
    (if nat h < length (vec_list v) then vec_list v ! nat h else NULL)"
  using assms by (auto simp: iotc_object_for_handle_def iotc_vector_get_def vec_list_nth vec_inv_def)

lemma find_handle_ok:
  assumes "vec_inv v" and "iotc_find_handle_for_object v p = (IOTC_STATE_OK, h)"
  shows "0 \<le> h" and "h < 128" and "nat h < length (vec_list v)" and "vec_list v ! nat h = p"
    and "\<forall>j<nat h. vec_list v ! j \<noteq> p"
    and "iotc_vector_find v p iotc_compare_context_pointers = h"
proof -
  from assms(2) show h: "0 \<le> h" and f: "iotc_vector_find v p iotc_compare_context_pointers = h"
    by (auto simp: iotc_find_handle_for_object_def Let_def split: if_splits)
  from vec_find_nonneg [OF assms(1) f h]
  show "nat h < length (vec_list v)" and "vec_list v ! nat h = p" and "\<forall>j<nat h. vec_list v ! j \<noteq> p"
    by (auto simp: iotc_compare_context_pointers_def)
  with assms(1) h show "h < 128" by (auto simp: vec_inv_def vec_list_def)
qed

lemma find_handle_fail:
  assumes "vec_inv v" and "iotc_find_handle_for_object v p = (st, h)"
  shows "st \<noteq> IOTC_STATE_OK \<longleftrightarrow> p \<notin> set (vec_list v)"
    and "st \<noteq> IOTC_STATE_OK \<Longrightarrow> st = IOTC_ELEMENT_NOT_FOUND \<and> h = - 1"
  using assms vec_find_neg [OF assms(1), of p iotc_compare_context_pointers]
  by (auto simp: iotc_find_handle_for_object_def iotc_compare_context_pointers_def
      IOTC_INVALID_CONTEXT_HANDLE_def Let_def split: if_splits)

lemma vec_set_cell:
  assumes "vec_inv v" and "i < length (vec_list v)"
  shows "vec_inv (v\<lparr>v_elems := (v_elems v)[i := x]\<rparr>)"
    and "vec_list (v\<lparr>v_elems := (v_elems v)[i := x]\<rparr>) = (vec_list v)[i := x]"
  using assms by (auto simp: vec_inv_def vec_list_def take_update_swap)

text \<open>Where the object is first found, from the contents alone.\<close>

lemma find_handle_first:
  assumes "vec_inv v" and "k < length (vec_list v)" and "vec_list v ! k = p"
    and "\<forall>j<k. vec_list v ! j \<noteq> p"
  shows "iotc_find_handle_for_object v p = (IOTC_STATE_OK, int k)"
proof -
  obtain st h where f: "iotc_find_handle_for_object v p = (st, h)" by fastforce
  from assms(2,3) find_handle_fail(1) [OF assms(1) f] have st: "st = IOTC_STATE_OK" by auto
  note ok = find_handle_ok [OF assms(1) f [unfolded st]]
  from ok(4,5) assms(3,4) have "nat h = k" using linorder_neqE_nat by blast
  with ok(1) f st show ?thesis by auto
qed

section \<open>The interface of a table of handles\<close>

text \<open>What the users of handles rely on; 128 bounds the handles that exist.\<close>

locale handle_table =
  fixes ok :: "'t \<Rightarrow> bool"
    and obj :: "'t \<Rightarrow> int \<Rightarrow> ptr"
    and fnd :: "'t \<Rightarrow> ptr \<Rightarrow> iotc_state \<times> int"
    and del :: "'t \<Rightarrow> ptr \<Rightarrow> iotc_state \<times> 't"
  assumes fnd_ok: "ok t \<Longrightarrow> fnd t p = (IOTC_STATE_OK, h) \<Longrightarrow> 0 \<le> h \<and> h < 128 \<and> obj t h = p"
    and fnd_complete: "ok t \<Longrightarrow> p \<noteq> NULL \<Longrightarrow> 0 \<le> h \<Longrightarrow> h < 128 \<Longrightarrow> obj t h = p \<Longrightarrow>
      \<exists>k. fnd t p = (IOTC_STATE_OK, k)"
    and del_ok: "ok t \<Longrightarrow> fnd t p = (IOTC_STATE_OK, h) \<Longrightarrow>
      \<exists>t'. del t p = (IOTC_STATE_OK, t') \<and> ok t' \<and> obj t' h = NULL
        \<and> (\<forall>k. 0 \<le> k \<longrightarrow> k < 128 \<longrightarrow> k \<noteq> h \<longrightarrow> obj t' k = obj t k)"
    and del_fail: "ok t \<Longrightarrow> fnd t p = (st, h) \<Longrightarrow> st \<noteq> IOTC_STATE_OK \<Longrightarrow> del t p = (st, t)"
begin

lemma other_handle_survives:
  assumes "ok t" and "del t p = (st, t')" and "q \<noteq> p" and "0 \<le> k" and "k < 128" and "obj t k = q"
  shows "obj t' k = q"
proof -
  obtain st0 h where f: "fnd t p = (st0, h)" by fastforce
  show ?thesis
  proof (cases "st0 = IOTC_STATE_OK")
    case True
    with f have f: "fnd t p = (IOTC_STATE_OK, h)" by simp
    from fnd_ok [OF assms(1) f] assms(3,6) have "k \<noteq> h" by auto
    with del_ok [OF assms(1) f] assms show ?thesis by auto
  next
    case False
    with del_fail [OF assms(1) f] assms show ?thesis by simp
  qed
qed

lemma deleted_not_found:
  assumes "ok t" and "p \<noteq> NULL" and "del t p = (st, t')"
    and once: "\<And>h k. 0 \<le> h \<Longrightarrow> h < 128 \<Longrightarrow> obj t h = p \<Longrightarrow> 0 \<le> k \<Longrightarrow> k < 128 \<Longrightarrow> obj t k = p \<Longrightarrow> h = k"
  shows "fst (fnd t' p) \<noteq> IOTC_STATE_OK"
proof -
  obtain st0 h where f: "fnd t p = (st0, h)" by fastforce
  show ?thesis
  proof (cases "st0 = IOTC_STATE_OK")
    case True
    with f have f: "fnd t p = (IOTC_STATE_OK, h)" by simp
    from del_ok [OF assms(1) f] assms(3) have d: "ok t'" "obj t' h = NULL"
      "\<forall>k. 0 \<le> k \<longrightarrow> k < 128 \<longrightarrow> k \<noteq> h \<longrightarrow> obj t' k = obj t k" by auto
    show ?thesis
    proof
      assume "fst (fnd t' p) = IOTC_STATE_OK"
      then obtain k where "fnd t' p = (IOTC_STATE_OK, k)" by (cases "fnd t' p") auto
      from fnd_ok [OF d(1) this] have k: "0 \<le> k" "k < 128" "obj t' k = p" by auto
      with d(2,3) assms(2) have "k \<noteq> h" "obj t k = p" by auto
      with once [of h k] fnd_ok [OF assms(1) f] k show False by auto
    qed
  next
    case False
    with del_fail [OF assms(1) f] assms(3) f show ?thesis by simp
  qed
qed

end

lemma find_handle_complete:
  "vec_inv v \<Longrightarrow> p \<in> set (vec_list v) \<Longrightarrow> \<exists>k. iotc_find_handle_for_object v p = (IOTC_STATE_OK, k)"
  using find_handle_fail(1) [of v p] by (cases "iotc_find_handle_for_object v p") auto

lemma delete_handle_ok:
  assumes "vec_inv v" and "iotc_find_handle_for_object v p = (IOTC_STATE_OK, h)"
  shows "iotc_delete_handle_for_object v p =
      (IOTC_STATE_OK, v\<lparr>v_elems := (v_elems v)[nat h := NULL]\<rparr>)"
    and "vec_inv (v\<lparr>v_elems := (v_elems v)[nat h := NULL]\<rparr>)"
    and "vec_list (v\<lparr>v_elems := (v_elems v)[nat h := NULL]\<rparr>) = (vec_list v)[nat h := NULL]"
  using find_handle_ok [OF assms] vec_set_cell [OF assms(1), of "nat h" NULL]
  by (simp_all add: iotc_delete_handle_for_object_def)

lemma delete_handle_fail:
  "iotc_find_handle_for_object v p = (st, h) \<Longrightarrow> st \<noteq> IOTC_STATE_OK \<Longrightarrow>
   iotc_delete_handle_for_object v p = (st, v)"
  by (auto simp: iotc_find_handle_for_object_def iotc_delete_handle_for_object_def Let_def
      split: if_splits)

interpretation handles: handle_table vec_inv iotc_object_for_handle iotc_find_handle_for_object
  iotc_delete_handle_for_object
proof (unfold_locales, goal_cases)
  case (1 t p h)
  from find_handle_ok [OF this] 1 show ?case by (simp add: object_for_handle_nth)
next
  case (2 t p h)
  then have "p \<in> set (vec_list t)" by (auto simp: object_for_handle_nth split: if_splits)
  with 2 show ?case by (simp add: find_handle_complete)
next
  case (3 t p h)
  from find_handle_ok [OF this] delete_handle_ok [OF this] 3 show ?case
    by (auto simp: object_for_handle_nth nth_list_update)
next
  case (4 t p st h)
  then show ?case by (simp add: delete_handle_fail)
qed

lemma count_list_le_1:
  assumes "count_list xs x \<le> 1" and "i < length xs" "j < length xs" "xs ! i = x" "xs ! j = x"
  shows "i = j"
proof -
  have "count_list xs x = card {i. i < length xs \<and> x = xs ! i}"
    by (simp add: count_list_eq_length_filter length_filter_conv_card)
  with assms(1) have "card {i. i < length xs \<and> x = xs ! i} \<le> Suc 0" by simp
  then have "\<forall>a\<in>{i. i < length xs \<and> x = xs ! i}. \<forall>b\<in>{i. i < length xs \<and> x = xs ! i}. a = b"
    by (subst (asm) card_le_Suc0_iff_eq) simp_all
  with assms(2-5) show ?thesis by auto
qed

section \<open>Properties\<close>

lemma register_handle_cases:
  assumes g: "grown base v m" and ok: "\<forall>i n. n < 2 ^ 63 \<longrightarrow> m_ok m i n" and mx: "mx \<le> 64"
    and r: "iotc_register_handle_for_object v mx p m = (st, v', m')"
  shows "grown base v' m'
    \<and> (st = IOTC_STATE_OK \<longleftrightarrow> NULL \<in> set (vec_list v) \<or> v_elem_no v < mx)
    \<and> (NULL \<in> set (vec_list v) \<longrightarrow>
        (\<exists>k<length (vec_list v). vec_list v ! k = NULL \<and> vec_list v' = (vec_list v)[k := p]))
    \<and> (NULL \<notin> set (vec_list v) \<and> v_elem_no v < mx \<longrightarrow> vec_list v' = vec_list v @ [p])"
proof -
  from g have inv: "vec_inv v" by (simp add: grown_def)
  let ?h = "iotc_vector_find v NULL iotc_compare_context_pointers"
  from vec_find_neg [OF inv, of NULL iotc_compare_context_pointers]
  have neg: "?h < 0 \<longleftrightarrow> NULL \<notin> set (vec_list v)" by (auto simp: iotc_compare_context_pointers_def)
  show ?thesis
  proof (cases "NULL \<in> set (vec_list v)")
    case True
    with neg have h: "0 \<le> ?h" by simp
    from vec_find_nonneg [OF inv refl h] have k: "nat ?h < length (vec_list v)" "vec_list v ! nat ?h = NULL"
      by (auto simp: iotc_compare_context_pointers_def)
    from r h have v': "v' = v\<lparr>v_elems := (v_elems v)[nat ?h := p]\<rparr>" "st = IOTC_STATE_OK" "m' = m"
      by (auto simp: iotc_register_handle_for_object_def Let_def)
    have "grown base v' m'"
      using vec_set_cell(1) [OF inv k(1), of p] g v' by (simp add: grown_def owns_over_def)
    moreover have "vec_list v' = (vec_list v)[nat ?h := p]"
      using vec_set_cell(2) [OF inv k(1), of p] v' by simp
    ultimately show ?thesis using True k v'(2) by blast
  next
    case False
    with neg have h: "?h < 0" by simp
    show ?thesis
    proof (cases "v_elem_no v < mx")
      case True
      obtain i v1 m1 where push: "iotc_vector_push v p m = (i, v1, m1)" by (metis prod_cases3)
      with r h True have e: "v' = v1" "m' = m1" "st = IOTC_STATE_OK"
        by (auto simp: iotc_register_handle_for_object_def Let_def)
      from vec_push_granted [OF g ok _ push] True mx have "i \<noteq> None" by simp
      with vec_push_grown [OF g push] e True False show ?thesis by simp
    next
      case False
      with r h g neg show ?thesis by (auto simp: iotc_register_handle_for_object_def Let_def)
    qed
  qed
qed

text \<open>
  Registering an object in a table whose vector grew from \<^verbatim>\<open>iotc_vector_create\<close>,
  with a limit of at most 64 and a \<open>malloc\<close> that grants requests of reasonable size:
  it succeeds exactly when a cell is free or the limit is not reached; then the object
  is found under a handle that leads back to it, and every other registered object keeps
  the handle it had. Otherwise the table is as before.
\<close>

theorem register_handle_correct:
  assumes "grown base v m" and "\<forall>i n. n < 2 ^ 63 \<longrightarrow> m_ok m i n" and "mx \<le> 64"
    and "p \<noteq> NULL" and "p \<notin> set (vec_list v)"
    and "iotc_register_handle_for_object v mx p m = (st, v', m')"
  shows "(st = IOTC_STATE_OK \<longleftrightarrow> NULL \<in> set (vec_list v) \<or> v_elem_no v < mx)
    \<and> (st \<noteq> IOTC_STATE_OK \<longrightarrow> st = IOTC_NO_MORE_RESOURCE_AVAILABLE \<and> v' = v \<and> m' = m)
    \<and> (st = IOTC_STATE_OK \<longrightarrow>
        (\<exists>h. iotc_find_handle_for_object v' p = (IOTC_STATE_OK, h) \<and> iotc_object_for_handle v' h = p)
        \<and> (\<forall>q\<in>set (vec_list v). q \<noteq> NULL \<longrightarrow>
             iotc_find_handle_for_object v' q = iotc_find_handle_for_object v q))"
proof -
  note rc = register_handle_cases [OF assms(1-3,6)]
  then have inv': "vec_inv v'" by (simp add: grown_def)
  from assms(1) have inv: "vec_inv v" by (simp add: grown_def)
  have fails: "st \<noteq> IOTC_STATE_OK \<longrightarrow> st = IOTC_NO_MORE_RESOURCE_AVAILABLE \<and> v' = v \<and> m' = m"
    using assms(6) by (auto simp: iotc_register_handle_for_object_def Let_def
        split: if_splits prod.splits)
  have "(\<exists>h. iotc_find_handle_for_object v' p = (IOTC_STATE_OK, h) \<and> iotc_object_for_handle v' h = p)
        \<and> (\<forall>q\<in>set (vec_list v). q \<noteq> NULL \<longrightarrow>
             iotc_find_handle_for_object v' q = iotc_find_handle_for_object v q)"
    if st: "st = IOTC_STATE_OK"
  proof -
    from rc st obtain k where k: "k \<le> length (vec_list v)" "k < length (vec_list v')" "vec_list v' ! k = p"
      and others: "\<forall>j<length (vec_list v). j \<noteq> k \<longrightarrow> vec_list v' ! j = vec_list v ! j"
      and free: "k < length (vec_list v) \<longrightarrow> vec_list v ! k = NULL"
      and len: "length (vec_list v) \<le> length (vec_list v')"
    proof (cases "NULL \<in> set (vec_list v)")
      case True
      with rc that show ?thesis by (metis length_list_update less_imp_le_nat nth_list_update_eq
            nth_list_update_neq order_refl)
    next
      case False
      with rc st have "vec_list v' = vec_list v @ [p]" by blast
      then show ?thesis by (intro that [of "length (vec_list v)"]) (auto simp: nth_append)
    qed
    from k inv' have "p \<in> set (vec_list v')" by (auto simp: in_set_conv_nth)
    from find_handle_complete [OF inv' this] obtain h
      where h: "iotc_find_handle_for_object v' p = (IOTC_STATE_OK, h)" by blast
    with handles.fnd_ok [OF inv' h]
    have "\<exists>h. iotc_find_handle_for_object v' p = (IOTC_STATE_OK, h) \<and> iotc_object_for_handle v' h = p"
      by auto
    moreover have "iotc_find_handle_for_object v' q = iotc_find_handle_for_object v q"
      if q: "q \<in> set (vec_list v)" "q \<noteq> NULL" for q
    proof -
      from find_handle_complete [OF inv q(1)] obtain l
        where l: "iotc_find_handle_for_object v q = (IOTC_STATE_OK, l)" by blast
      note f = find_handle_ok [OF inv l]
      have lk: "nat l \<noteq> k" using f free q(2) k(1) by auto
      have "iotc_find_handle_for_object v' q = (IOTC_STATE_OK, int (nat l))"
      proof (rule find_handle_first [OF inv'])
        show "nat l < length (vec_list v')" using f(3) len by simp
        show "vec_list v' ! nat l = q" using others f(3,4) lk by simp
        show "\<forall>j<nat l. vec_list v' ! j \<noteq> q"
          using others f(3,5) k(3) q(1) assms(5) by (metis order_less_trans)
      qed
      with l f(1) show ?thesis by simp
    qed
    ultimately show ?thesis by blast
  qed
  with rc fails show ?thesis by blast
qed

theorem register_handle_correct_witness:
  "\<exists>v m v' m'. grown Map.empty v m \<and> vec_list v = []
    \<and> iotc_register_handle_for_object v 64 100 m = (IOTC_STATE_OK, v', m')
    \<and> (\<exists>h. iotc_find_handle_for_object v' 100 = (IOTC_STATE_OK, h)
         \<and> iotc_object_for_handle v' h = 100)"
proof -
  obtain v m where g1: "grown Map.empty v m" "vec_list v = []" and ok: "m_ok m = (\<lambda>i n. n < 2 ^ 63)"
    by (rule fresh_vec)
  then have "v_elem_no v \<le> 0" by (metis grown_def length_0_conv nat_0_iff vec_list_length)
  obtain st v' m' where r: "iotc_register_handle_for_object v 64 100 m = (st, v', m')"
    by (metis prod_cases3)
  from register_handle_correct [OF g1(1) _ _ _ _ r] ok g1(2) \<open>v_elem_no v \<le> 0\<close>
  have "st = IOTC_STATE_OK" and "\<exists>h. iotc_find_handle_for_object v' 100 = (IOTC_STATE_OK, h)
      \<and> iotc_object_for_handle v' h = 100" by auto
  with r g1 show ?thesis by blast
qed

text \<open>
  Deleting the handle of an object frees its cell and no other: the handles of all
  the other objects lead where they led before, and an object that was registered once
  is no longer found.
\<close>

theorem delete_handle_correct:
  assumes "vec_inv v" and "p \<noteq> NULL" and "count_list (vec_list v) p \<le> 1"
    and "iotc_delete_handle_for_object v p = (st, v')"
  shows "(st = IOTC_STATE_OK \<longleftrightarrow> p \<in> set (vec_list v))
    \<and> fst (iotc_find_handle_for_object v' p) = IOTC_ELEMENT_NOT_FOUND
    \<and> (\<forall>k. 0 \<le> k \<and> k < 128 \<and> iotc_object_for_handle v k \<noteq> p \<longrightarrow>
          iotc_object_for_handle v' k = iotc_object_for_handle v k)"
proof -
  have once: "h = k" if "0 \<le> h" "h < 128" "iotc_object_for_handle v h = p"
    "0 \<le> k" "k < 128" "iotc_object_for_handle v k = p" for h k
  proof -
    from that assms(1,2) have "nat h < length (vec_list v)" "nat k < length (vec_list v)"
      "vec_list v ! nat h = p" "vec_list v ! nat k = p"
      by (auto simp: object_for_handle_nth split: if_splits)
    with count_list_le_1 [OF assms(3)] have "nat h = nat k" by blast
    with that show ?thesis by simp
  qed
  obtain st0 h where f: "iotc_find_handle_for_object v p = (st0, h)" by fastforce
  have "vec_inv v' \<and> st = st0"
  proof (cases "st0 = IOTC_STATE_OK")
    case True
    with delete_handle_ok [OF assms(1), of p h] f assms(4) show ?thesis by simp
  next
    case False
    with delete_handle_fail [OF f] assms(1,4) show ?thesis by simp
  qed
  then have "vec_inv v'" and st: "st = st0" by auto
  obtain st1 h1 where f1: "iotc_find_handle_for_object v' p = (st1, h1)" by fastforce
  have "fst (iotc_find_handle_for_object v' p) \<noteq> IOTC_STATE_OK"
    by (rule handles.deleted_not_found [OF assms(1,2,4)]) (rule once)
  with f1 have "st1 \<noteq> IOTC_STATE_OK" by simp
  with find_handle_fail(2) [OF \<open>vec_inv v'\<close> f1] f1
  have "fst (iotc_find_handle_for_object v' p) = IOTC_ELEMENT_NOT_FOUND" by simp
  moreover have "iotc_object_for_handle v' k = iotc_object_for_handle v k"
    if "0 \<le> k" "k < 128" "iotc_object_for_handle v k \<noteq> p" for k
    using handles.other_handle_survives [OF assms(1,4) that(3,1,2) refl] .
  ultimately show ?thesis using st find_handle_fail(1) [OF assms(1) f] by blast
qed

theorem delete_handle_correct_witness:
  "fst (iotc_find_handle_for_object (snd (iotc_delete_handle_for_object
      \<lparr>v_self = 1, v_array = 2, v_elems = [100, 0, 200, 0], v_elem_no = 3, v_capacity = 4,
       v_memory_type = IOTC_MEMORY_TYPE_MANAGED\<rparr> 100)) 100) = IOTC_ELEMENT_NOT_FOUND"
proof -
  let ?v = "\<lparr>v_self = 1, v_array = 2, v_elems = [100, 0, 200, 0], v_elem_no = 3, v_capacity = 4,
       v_memory_type = IOTC_MEMORY_TYPE_MANAGED\<rparr>"
  obtain st v' where d: "iotc_delete_handle_for_object ?v 100 = (st, v')" by fastforce
  have i: "vec_inv ?v" by (simp add: vec_inv_def)
  have c: "count_list (vec_list ?v) 100 \<le> 1" by (simp add: vec_list_def numeral_3_eq_3)
  have z: "(100::nat) \<noteq> NULL" by simp
  from delete_handle_correct [OF i z c d, THEN conjunct2, THEN conjunct1] show ?thesis
    by (simp only: d snd_conv)
qed

end
