(* ===== verification/Iotc_List.thy ===== *)
theory Iotc_List
  imports Iotc_Prelude
begin

text \<open>
  The intrusive singly linked lists of \<^verbatim>\<open>src/libiotc/datastructures/iotc_list.h\<close>.
  The macros work on any struct with a \<open>__next\<close> field; the model keeps that field
  of every node in a store \<open>nx\<close> from node addresses to node addresses (\<open>NULL\<close>
  ends a list) and a list variable is the address of its first node. A while loop over
  the nodes need not end on a cyclic store, so it is a partial function; the lemmas
  show that it ends on every well-formed list and which list it leaves.
\<close>

type_synonym next_store = "ptr \<Rightarrow> ptr"

section \<open>The macros\<close>

partial_function (option) list_end_loop :: "next_store \<Rightarrow> ptr \<Rightarrow> ptr \<Rightarrow> (ptr \<times> ptr) option" where
  "list_end_loop nx prev cur =
     (if cur \<noteq> NULL then list_end_loop nx cur (nx cur) else Some (prev, cur))"

definition IOTC_LIST_PUSH_BACK :: "next_store \<Rightarrow> ptr \<Rightarrow> ptr \<Rightarrow> (next_store \<times> ptr) option" where
  "IOTC_LIST_PUSH_BACK nx list elem =
     (case list_end_loop nx list list of
        None \<Rightarrow> None
      | Some (prev, cur) \<Rightarrow>
          if prev = cur then Some (nx, elem) else Some (nx(prev := elem), list))"

definition IOTC_LIST_PUSH_FRONT :: "next_store \<Rightarrow> ptr \<Rightarrow> ptr \<Rightarrow> next_store \<times> ptr" where
  "IOTC_LIST_PUSH_FRONT nx list elem =
     (if list \<noteq> NULL then (nx(elem := list), elem) else (nx, elem))"

partial_function (option) IOTC_LIST_FIND ::
    "next_store \<Rightarrow> (ptr \<Rightarrow> bool) \<Rightarrow> ptr \<Rightarrow> ptr option" where
  "IOTC_LIST_FIND nx cnd out =
     (if out \<noteq> NULL \<and> \<not> cnd out then IOTC_LIST_FIND nx cnd (nx out) else Some out)"

partial_function (option) list_drop_loop ::
    "next_store \<Rightarrow> ptr \<Rightarrow> ptr \<Rightarrow> ptr \<Rightarrow> (ptr \<times> ptr) option" where
  "list_drop_loop nx elem prev cur =
     (if cur \<noteq> NULL \<and> cur \<noteq> elem then list_drop_loop nx elem cur (nx cur)
      else Some (prev, cur))"

definition IOTC_LIST_DROP :: "next_store \<Rightarrow> ptr \<Rightarrow> ptr \<Rightarrow> (next_store \<times> ptr) option" where
  "IOTC_LIST_DROP nx list elem =
     (case list_drop_loop nx elem list list of
        None \<Rightarrow> None
      | Some (prev, cur) \<Rightarrow>
          if cur = elem then
            (if prev = cur then Some (nx(elem := NULL), nx cur)
             else (let nx' = nx(prev := nx cur) in Some (nx'(elem := NULL), list)))
          else Some (nx, list))"

text \<open>\<^verbatim>\<open>IOTC_LIST_POP\<close> reads \<open>out->__next\<close> without a null check: on the empty list
  the model returns \<open>None\<close>.\<close>

definition IOTC_LIST_POP :: "next_store \<Rightarrow> ptr \<Rightarrow> (next_store \<times> ptr \<times> ptr) option" where
  "IOTC_LIST_POP nx list =
     (let out = list
      in if out = NULL then None
         else if nx out = NULL then Some (nx, NULL, out)
         else Some (nx(out := NULL), nx out, out))"

definition IOTC_LIST_EMPTY :: "ptr \<Rightarrow> bool" where
  "IOTC_LIST_EMPTY list \<longleftrightarrow> list = NULL"

text \<open>The function called on each node gets the store and may change it: the successor
  is read before the call.\<close>

partial_function (option) IOTC_LIST_FOREACH ::
    "(ptr \<Rightarrow> 's \<Rightarrow> 's) \<Rightarrow> ('s \<Rightarrow> next_store) \<Rightarrow> ptr \<Rightarrow> 's \<Rightarrow> 's option" where
  "IOTC_LIST_FOREACH f nxt cur s =
     (if cur \<noteq> NULL then (let tmp = nxt s cur in IOTC_LIST_FOREACH f nxt tmp (f cur s))
      else Some s)"

partial_function (option) IOTC_LIST_NTH ::
    "next_store \<Rightarrow> nat \<Rightarrow> ptr \<Rightarrow> nat \<Rightarrow> ptr \<Rightarrow> ptr option" where
  "IOTC_LIST_NTH nx n cur i out =
     (if cur \<noteq> NULL then
        (if i = n then Some cur else IOTC_LIST_NTH nx n (nx cur) (Suc i) out)
      else Some out)"

partial_function (option) IOTC_LIST_FOREACH_WITH_ARG ::
    "(ptr \<Rightarrow> 'a \<Rightarrow> 's \<Rightarrow> 's) \<Rightarrow> ('s \<Rightarrow> next_store) \<Rightarrow> ptr \<Rightarrow> 'a \<Rightarrow> 's \<Rightarrow> 's option" where
  "IOTC_LIST_FOREACH_WITH_ARG f nxt cur arg s =
     (if cur \<noteq> NULL then (let tmp = nxt s cur in IOTC_LIST_FOREACH_WITH_ARG f nxt tmp arg (f cur arg s))
      else Some s)"

text \<open>When no node satisfies the predicate, \<open>out\<close> keeps its value.\<close>

partial_function (option) IOTC_LIST_FIND_I ::
    "next_store \<Rightarrow> (ptr \<Rightarrow> nat \<Rightarrow> bool) \<Rightarrow> ptr \<Rightarrow> nat \<Rightarrow> ptr \<Rightarrow> ptr option" where
  "IOTC_LIST_FIND_I nx pred cur i out =
     (if cur \<noteq> NULL then
        (if pred cur i then Some cur else IOTC_LIST_FIND_I nx pred (nx cur) (Suc i) out)
      else Some out)"

partial_function (option) list_split_loop ::
    "(ptr \<Rightarrow> nat \<Rightarrow> bool) \<Rightarrow> next_store \<Rightarrow> ptr \<Rightarrow> ptr \<Rightarrow> ptr \<Rightarrow> ptr \<Rightarrow> ptr \<Rightarrow> nat \<Rightarrow>
     (next_store \<times> ptr \<times> ptr) option" where
  "list_split_loop pred nx list out cur out_cur prev i =
     (if cur \<noteq> NULL then
        (if pred cur i then
           (let nx1 = (if prev \<noteq> NULL then nx(prev := nx cur) else nx);
                list' = (if prev \<noteq> NULL then list else nx1 cur);
                nx2 = (if out_cur \<noteq> NULL then nx1(out_cur := cur) else nx1);
                out' = (if out_cur \<noteq> NULL then out else cur);
                tmp = cur;
                cur' = nx2 cur;
                nx3 = nx2(tmp := NULL)
            in list_split_loop pred nx3 list' out' cur' tmp prev (Suc i))
         else list_split_loop pred nx list out (nx cur) out_cur cur (Suc i))
      else Some (nx, list, out))"

definition IOTC_LIST_SPLIT_I ::
    "(ptr \<Rightarrow> nat \<Rightarrow> bool) \<Rightarrow> next_store \<Rightarrow> ptr \<Rightarrow> ptr \<Rightarrow> (next_store \<times> ptr \<times> ptr) option" where
  "IOTC_LIST_SPLIT_I pred nx list out = list_split_loop pred nx list out list out NULL 0"

section \<open>Well-formed lists\<close>

text \<open>\<open>chain nx p xs e\<close>: the nodes from \<open>p\<close> up to, not including, \<open>e\<close> are \<open>xs\<close>.\<close>

fun segment :: "next_store \<Rightarrow> ptr \<Rightarrow> ptr list \<Rightarrow> ptr \<Rightarrow> bool" where
  "segment nx p [] e \<longleftrightarrow> p = e"
| "segment nx p (x # xs) e \<longleftrightarrow> p = x \<and> x \<noteq> NULL \<and> segment nx (nx x) xs e"

definition chain :: "next_store \<Rightarrow> ptr \<Rightarrow> ptr list \<Rightarrow> bool" where
  "chain nx p xs \<longleftrightarrow> segment nx p xs NULL"

lemma segment_append [simp]:
  "segment nx p (xs @ ys) e \<longleftrightarrow> (\<exists>q. segment nx p xs q \<and> segment nx q ys e)"
  by (induction xs arbitrary: p) auto

lemma chain_Nil [simp]: "chain nx p [] \<longleftrightarrow> p = NULL"
  by (simp add: chain_def)

lemma chain_Cons [simp]: "chain nx p (x # xs) \<longleftrightarrow> p = x \<and> x \<noteq> NULL \<and> chain nx (nx x) xs"
  by (simp add: chain_def)

lemma chain_append: "chain nx p (xs @ ys) \<longleftrightarrow> (\<exists>q. segment nx p xs q \<and> chain nx q ys)"
  by (simp add: chain_def)

lemma segment_upd_other [simp]: "y \<notin> set xs \<Longrightarrow> segment (nx(y := z)) p xs e = segment nx p xs e"
  by (induction xs arbitrary: p) auto

lemma chain_upd_other [simp]: "y \<notin> set xs \<Longrightarrow> chain (nx(y := z)) p xs = chain nx p xs"
  by (simp add: chain_def)

lemma chain_unique: "chain nx p xs \<Longrightarrow> chain nx p ys \<Longrightarrow> xs = ys"
proof (induction xs arbitrary: p ys)
  case (Cons x xs)
  then show ?case by (cases ys) auto
qed (metis chain_Cons chain_Nil neq_Nil_conv)

lemma chain_NULL [simp]: "chain nx NULL xs \<longleftrightarrow> xs = []"
  by (cases xs) auto

lemma chain_distinct: "chain nx p xs \<Longrightarrow> distinct xs"
proof (induction xs arbitrary: p)
  case (Cons x xs)
  have "x \<notin> set xs"
  proof
    assume "x \<in> set xs"
    then obtain us vs where "xs = us @ x # vs" by (meson split_list)
    with Cons.prems have "chain nx x (x # us @ x # vs)" "chain nx x (x # vs)"
      by (auto simp: chain_append)
    then have "x # us @ x # vs = x # vs" by (rule chain_unique)
    then show False by simp
  qed
  with Cons show ?case by auto
qed simp

lemma chain_not_NULL: "chain nx p xs \<Longrightarrow> NULL \<notin> set xs"
  by (induction xs arbitrary: p) auto

section \<open>The loops end on well-formed lists\<close>

lemma list_end_loop_chain:
  "chain nx cur xs \<Longrightarrow>
   list_end_loop nx prev cur = Some (if xs = [] then prev else last xs, NULL)"
proof (induction xs arbitrary: prev cur)
  case Nil
  then show ?case by (simp add: list_end_loop.simps)
next
  case (Cons x xs)
  then show ?case by (subst list_end_loop.simps) simp
qed

lemma find_chain:
  "chain nx p xs \<Longrightarrow> IOTC_LIST_FIND nx cnd p = Some (case find cnd xs of None \<Rightarrow> NULL | Some q \<Rightarrow> q)"
proof (induction xs arbitrary: p)
  case Nil
  then show ?case by (simp add: IOTC_LIST_FIND.simps)
next
  case (Cons x xs)
  then show ?case by (subst IOTC_LIST_FIND.simps) auto
qed

lemma drop_loop_chain:
  "chain nx cur (us @ e # vs) \<Longrightarrow> e \<notin> set us \<Longrightarrow>
   list_drop_loop nx e prev cur = Some (if us = [] then prev else last us, e)"
proof (induction us arbitrary: prev cur)
  case Nil
  then show ?case by (subst list_drop_loop.simps) simp
next
  case (Cons u us)
  then show ?case by (subst list_drop_loop.simps) auto
qed

lemma drop_loop_absent:
  "chain nx cur xs \<Longrightarrow> e \<notin> set xs \<Longrightarrow>
   list_drop_loop nx e prev cur = Some (if xs = [] then prev else last xs, NULL)"
proof (induction xs arbitrary: prev cur)
  case Nil
  then show ?case by (subst list_drop_loop.simps) simp
next
  case (Cons x xs)
  then show ?case by (subst list_drop_loop.simps) auto
qed

lemma foreach_chain:
  assumes "\<And>x s. nxt (f x s) = nxt s"
  shows "chain (nxt s) p xs \<Longrightarrow> IOTC_LIST_FOREACH f nxt p s = Some (fold f xs s)"
proof (induction xs arbitrary: p s)
  case Nil
  then show ?case by (subst IOTC_LIST_FOREACH.simps) simp
next
  case (Cons x xs)
  then show ?case by (subst IOTC_LIST_FOREACH.simps) (simp add: Let_def assms)
qed

lemma foreach_arg_chain:
  assumes "\<And>q s. q \<noteq> NULL \<Longrightarrow> nxt (f q arg s) = nxt s"
  shows "chain (nxt s) p xs \<Longrightarrow> IOTC_LIST_FOREACH_WITH_ARG f nxt p arg s = Some (fold (\<lambda>q. f q arg) xs s)"
proof (induction xs arbitrary: p s)
  case Nil
  then show ?case by (subst IOTC_LIST_FOREACH_WITH_ARG.simps) simp
next
  case (Cons x xs)
  then show ?case by (subst IOTC_LIST_FOREACH_WITH_ARG.simps) (simp add: Let_def assms)
qed

lemma find_i_chain:
  "chain nx p xs \<Longrightarrow> IOTC_LIST_FIND_I nx pred p i out
     = Some (case find (\<lambda>(q, k). pred q k) (zip xs [i..<i + length xs]) of None \<Rightarrow> out | Some qk \<Rightarrow> fst qk)"
proof (induction xs arbitrary: p i)
  case Nil
  then show ?case by (simp add: IOTC_LIST_FIND_I.simps)
next
  case (Cons x xs)
  have "[i..<i + length (x # xs)] = i # [Suc i..<Suc i + length xs]" by (subst upt_conv_Cons) (simp_all del: upt_Suc)
  with Cons show ?case by (subst IOTC_LIST_FIND_I.simps) (auto simp del: upt_Suc)
qed

lemma nth_chain:
  "chain nx p xs \<Longrightarrow> i \<le> n \<Longrightarrow>
   IOTC_LIST_NTH nx n p i out = Some (if n - i < length xs then xs ! (n - i) else out)"
proof (induction xs arbitrary: p i)
  case Nil
  then show ?case by (subst IOTC_LIST_NTH.simps) simp
next
  case (Cons x xs)
  show ?case
  proof (cases "i = n")
    case True
    with Cons.prems show ?thesis by (subst IOTC_LIST_NTH.simps) simp
  next
    case False
    with Cons.prems have "n - i = Suc (n - Suc i)" by simp
    with False Cons show ?thesis by (subst IOTC_LIST_NTH.simps) simp
  qed
qed

section \<open>What the macros do to a list\<close>

lemma segment_relink:
  assumes "segment nx p ks e" and "ks \<noteq> []" and "distinct ks"
  shows "segment (nx(last ks := q)) p ks q"
proof -
  from assms(2) obtain us l where ks: "ks = us @ [l]" by (meson rev_exhaust)
  with assms show ?thesis by auto
qed

lemma push_back_chain:
  assumes "chain nx p xs" and "e \<notin> set xs" and "e \<noteq> NULL" and "nx e = NULL"
  obtains nx' p' where "IOTC_LIST_PUSH_BACK nx p e = Some (nx', p')" "chain nx' p' (xs @ [e])"
proof (cases "xs = []")
  case True
  with assms show thesis
    by (intro that [of nx e]) (simp_all add: IOTC_LIST_PUSH_BACK_def list_end_loop.simps)
next
  case False
  let ?nx = "nx(last xs := e)"
  have l: "last xs \<noteq> NULL" using False assms(1) chain_not_NULL last_in_set by metis
  have "IOTC_LIST_PUSH_BACK nx p e = Some (?nx, p)"
    using False l assms(1) by (simp add: IOTC_LIST_PUSH_BACK_def list_end_loop_chain)
  moreover have "segment ?nx p xs e"
    using assms(1) False chain_distinct by (intro segment_relink) (auto simp: chain_def)
  then have "chain ?nx p (xs @ [e])"
    using assms False last_in_set [OF False] by (auto simp: chain_append)
  ultimately show thesis by (rule that)
qed

lemma drop_chain:
  assumes "chain nx p (us @ e # vs)"
  obtains nx' p' where "IOTC_LIST_DROP nx p e = Some (nx', p')" "chain nx' p' (us @ vs)"
    "nx' e = NULL"
proof -
  have d: "distinct (us @ e # vs)" and n: "NULL \<notin> set (us @ e # vs)"
    using assms by (rule chain_distinct, rule chain_not_NULL)
  have loop: "list_drop_loop nx e p p = Some (if us = [] then p else last us, e)"
    using assms d by (intro drop_loop_chain) auto
  show thesis
  proof (cases "us = []")
    case True
    with assms d loop show thesis
      by (intro that [of "nx(e := NULL)" "nx e"]) (auto simp: IOTC_LIST_DROP_def)
  next
    case False
    let ?nx = "(nx(last us := nx e))(e := NULL)"
    from d have "set us \<inter> set (e # vs) = {}" by auto
    with last_in_set [OF False] have le: "last us \<noteq> e" "last us \<notin> set vs" "e \<notin> set us"
      by (metis disjoint_iff list.set_intros)+
    with False loop have "IOTC_LIST_DROP nx p e = Some (?nx, p)"
      by (simp add: IOTC_LIST_DROP_def Let_def)
    moreover obtain q where q: "segment nx p us q" "chain nx q (e # vs)"
      using assms by (auto simp: chain_append)
    then have "segment (nx(last us := nx e)) p us (nx e)"
      using False d by (intro segment_relink) auto
    then have "chain ?nx p (us @ vs)"
      using q(2) le d by (auto simp: chain_append)
    ultimately show thesis by (rule that) simp
  qed
qed

lemma pop_chain:
  assumes "chain nx p (x # xs)"
  obtains nx' p' where "IOTC_LIST_POP nx p = Some (nx', p', x)" "chain nx' p' xs" "nx' x = NULL"
proof (cases "nx x = NULL")
  case True
  with assms show thesis
    by (intro that [of nx "NULL"]) (auto simp: IOTC_LIST_POP_def)
next
  case False
  have "x \<notin> set xs" using chain_distinct [OF assms] by simp
  with False assms show thesis
    by (intro that [of "nx(x := NULL)" "nx x"]) (auto simp: IOTC_LIST_POP_def)
qed

text \<open>The elements a split takes out and leaves, with the index counted from \<open>i\<close>.\<close>

primrec split_taken :: "(ptr \<Rightarrow> nat \<Rightarrow> bool) \<Rightarrow> nat \<Rightarrow> ptr list \<Rightarrow> ptr list" where
  "split_taken pred i [] = []"
| "split_taken pred i (x # xs) =
     (if pred x i then x # split_taken pred (Suc i) xs else split_taken pred (Suc i) xs)"

primrec split_left :: "(ptr \<Rightarrow> nat \<Rightarrow> bool) \<Rightarrow> nat \<Rightarrow> ptr list \<Rightarrow> ptr list" where
  "split_left pred i [] = []"
| "split_left pred i (x # xs) =
     (if pred x i then split_left pred (Suc i) xs else x # split_left pred (Suc i) xs)"

lemma split_no_index:
  "split_taken (\<lambda>x i. P x) i xs = filter P xs" "split_left (\<lambda>x i. P x) i xs = filter (\<lambda>x. \<not> P x) xs"
  by (induction xs arbitrary: i) auto

definition last_or_NULL :: "ptr list \<Rightarrow> ptr" where
  "last_or_NULL xs = (if xs = [] then NULL else last xs)"

text \<open>The loop's invariant: \<open>ks\<close> the nodes kept so far, \<open>os\<close> those taken out.\<close>

definition split_inv ::
    "next_store \<Rightarrow> ptr \<Rightarrow> ptr \<Rightarrow> ptr \<Rightarrow> ptr \<Rightarrow> ptr \<Rightarrow> ptr list \<Rightarrow> ptr list \<Rightarrow> ptr list \<Rightarrow> bool" where
  "split_inv nx list out cur out_cur prev ks os xs \<longleftrightarrow>
     segment nx list ks cur \<and> prev = last_or_NULL ks \<and> chain nx cur xs \<and>
     chain nx out os \<and> out_cur = last_or_NULL os \<and> distinct (ks @ os @ xs) \<and> NULL \<notin> set ks"

lemma split_inv_keep:
  assumes "split_inv nx list out cur out_cur prev ks os (x # xs)"
  shows "split_inv nx list out (nx cur) out_cur cur (ks @ [x]) os xs"
  using assms by (auto simp: split_inv_def last_or_NULL_def)

lemma split_inv_take:
  assumes inv: "split_inv nx list out cur out_cur prev ks os (x # xs)"
    and nx1: "nx1 = (if prev \<noteq> NULL then nx(prev := nx cur) else nx)"
    and l': "list' = (if prev \<noteq> NULL then list else nx1 cur)"
    and nx2: "nx2 = (if out_cur \<noteq> NULL then nx1(out_cur := cur) else nx1)"
    and o': "out' = (if out_cur \<noteq> NULL then out else cur)"
  shows "split_inv (nx2(cur := NULL)) list' out' (nx2 cur) cur prev ks (os @ [x]) xs"
proof -
  let ?nx = "nx2(cur := NULL)"
  from inv have x: "cur = x" "x \<noteq> NULL" "chain nx (nx x) xs" and d: "distinct (ks @ os @ x # xs)"
    and p: "prev = last_or_NULL ks" and oc: "out_cur = last_or_NULL os"
    and n: "NULL \<notin> set ks" "NULL \<notin> set os"
    using chain_not_NULL by (auto simp: split_inv_def)
  have p0: "prev \<noteq> NULL \<longleftrightarrow> ks \<noteq> []" and pk: "ks \<noteq> [] \<Longrightarrow> prev \<in> set ks"
    using n(1) p by (metis last_in_set last_or_NULL_def)+
  have o0: "out_cur \<noteq> NULL \<longleftrightarrow> os \<noteq> []" and ok: "os \<noteq> [] \<Longrightarrow> out_cur \<in> set os"
    using n(2) oc by (metis last_in_set last_or_NULL_def)+
  have oj: "os \<noteq> [] \<Longrightarrow> out_cur \<notin> set ks \<and> out_cur \<notin> set xs \<and> out_cur \<noteq> x"
    using d ok by auto
  have pj: "ks \<noteq> [] \<Longrightarrow> prev \<notin> set os \<and> prev \<notin> set xs \<and> prev \<noteq> x"
    using d pk by auto
  have nc: "nx2 cur = nx x" "nx1 cur = nx x"
    using x d p0 pk o0 ok by (auto simp: nx1 nx2)
  have "segment nx1 list' ks (nx x)"
  proof (cases "ks = []")
    case False
    have "segment nx list ks cur" using inv unfolding split_inv_def by blast
    then have "segment (nx(last ks := nx x)) list ks (nx x)"
      using False d by (intro segment_relink) auto
    with False p0 p x show ?thesis by (simp add: nx1 l' last_or_NULL_def)
  qed (use p0 nc in \<open>simp add: l'\<close>)
  then have s: "segment ?nx list' ks (nx x)"
    using d x o0 oj by (auto simp: nx2)
  have c: "chain ?nx (nx x) xs"
    using x d o0 oj p0 pj by (auto simp: nx2 nx1)
  have "chain ?nx out' (os @ [x])"
  proof (cases "os = []")
    case True
    with o0 x show ?thesis by (simp add: o')
  next
    case False
    have "segment nx out os NULL" using inv unfolding split_inv_def chain_def by blast
    then have "segment nx1 out os NULL" using d p0 pj by (auto simp: nx1)
    then have "segment nx2 out os x"
      using False d segment_relink [of nx1 out os NULL x] o0 oc x
      by (auto simp: nx2 last_or_NULL_def)
    then show ?thesis using False d x o0 by (auto simp: chain_append o')
  qed
  with s c show ?thesis
    using d p n nc x by (auto simp: split_inv_def last_or_NULL_def)
qed

lemma split_loop_chain:
  assumes "split_inv nx list out cur out_cur prev ks os xs"
  shows "\<exists>nx' list' out'. list_split_loop pred nx list out cur out_cur prev i = Some (nx', list', out')
    \<and> chain nx' list' (ks @ split_left pred i xs) \<and> chain nx' out' (os @ split_taken pred i xs)"
  using assms
proof (induction xs arbitrary: nx list out cur out_cur prev ks os i)
  case Nil
  then show ?case
    by (subst list_split_loop.simps) (auto simp: split_inv_def chain_def)
next
  case (Cons x xs)
  then have x: "cur = x" "x \<noteq> NULL" by (auto simp: split_inv_def)
  show ?case
  proof (cases "pred x i")
    case True
    define nx1 where "nx1 = (if prev \<noteq> NULL then nx(prev := nx cur) else nx)"
    define l' where "l' = (if prev \<noteq> NULL then list else nx1 cur)"
    define nx2 where "nx2 = (if out_cur \<noteq> NULL then nx1(out_cur := cur) else nx1)"
    define o' where "o' = (if out_cur \<noteq> NULL then out else cur)"
    have "list_split_loop pred nx list out cur out_cur prev i =
        list_split_loop pred (nx2(cur := NULL)) l' o' (nx2 cur) cur prev (Suc i)"
      using True x
      by (subst list_split_loop.simps) (simp only: nx1_def l'_def nx2_def o'_def Let_def if_True simp_thms)
    moreover note Cons.IH [OF split_inv_take [OF Cons.prems nx1_def l'_def nx2_def o'_def], of "Suc i"]
    ultimately show ?thesis using True x by (simp add: fun_upd_def)
  next
    case False
    note Cons.IH [OF split_inv_keep [OF Cons.prems], of "Suc i"]
    with False x show ?thesis
      by (subst list_split_loop.simps) simp
  qed
qed

section \<open>The queue the dispatcher uses\<close>

text \<open>
  The event dispatcher's call queue and the task queues of the MQTT logic use a list as
  a queue: they append with \<^verbatim>\<open>IOTC_LIST_PUSH_BACK\<close> and take the head with
  \<^verbatim>\<open>IOTC_LIST_POP\<close>. The interface: \<open>rep q xs\<close> says that the queue \<open>q\<close> holds the
  nodes \<open>xs\<close>; \<open>free_node q e\<close> that \<open>e\<close> is a node that can be appended.
\<close>

locale fifo =
  fixes push :: "'q \<Rightarrow> 'e \<Rightarrow> 'q option"
    and pop :: "'q \<Rightarrow> ('q \<times> 'e) option"
    and is_empty :: "'q \<Rightarrow> bool"
    and rep :: "'q \<Rightarrow> 'e list \<Rightarrow> bool"
    and free_node :: "'q \<Rightarrow> 'e \<Rightarrow> bool"
  assumes push_rep: "rep q xs \<Longrightarrow> e \<notin> set xs \<Longrightarrow> free_node q e \<Longrightarrow>
      \<exists>q'. push q e = Some q' \<and> rep q' (xs @ [e])"
    and push_free: "rep q xs \<Longrightarrow> push q e = Some q' \<Longrightarrow> free_node q d \<Longrightarrow> d \<noteq> e \<Longrightarrow>
      d \<notin> set xs \<Longrightarrow> free_node q' d"
    and pop_rep: "rep q (x # xs) \<Longrightarrow> \<exists>q'. pop q = Some (q', x) \<and> rep q' xs"
    and empty_rep: "rep q xs \<Longrightarrow> is_empty q \<longleftrightarrow> xs = []"
begin

primrec push_all :: "'q \<Rightarrow> 'e list \<Rightarrow> 'q option" where
  "push_all q [] = Some q"
| "push_all q (e # es) = (case push q e of None \<Rightarrow> None | Some q' \<Rightarrow> push_all q' es)"

fun drain :: "nat \<Rightarrow> 'q \<Rightarrow> ('e list) option" where
  "drain 0 q = (if is_empty q then Some [] else None)"
| "drain (Suc n) q = (if is_empty q then Some []
     else (case pop q of None \<Rightarrow> None | Some (q', x) \<Rightarrow> map_option (Cons x) (drain n q')))"

lemma push_all_rep:
  "rep q xs \<Longrightarrow> distinct (xs @ es) \<Longrightarrow> \<forall>e\<in>set es. free_node q e \<Longrightarrow>
   \<exists>q'. push_all q es = Some q' \<and> rep q' (xs @ es)"
proof (induction es arbitrary: q xs)
  case (Cons e es)
  then obtain q1 where q1: "push q e = Some q1" "rep q1 (xs @ [e])"
    using push_rep [of q xs e] by auto
  have "\<forall>d\<in>set es. free_node q1 d"
    using Cons.prems push_free [OF Cons.prems(1) q1(1)] by auto
  with Cons.IH [OF q1(2)] Cons.prems(2) q1(1) show ?case by auto
qed simp

lemma drain_rep: "rep q xs \<Longrightarrow> length xs \<le> n \<Longrightarrow> drain n q = Some xs"
proof (induction xs arbitrary: q n)
  case Nil
  then show ?case by (cases n) (simp_all add: empty_rep)
next
  case (Cons x xs)
  then obtain k where n: "n = Suc k" by (cases n) auto
  from Cons.prems obtain q' where "pop q = Some (q', x)" "rep q' xs"
    using pop_rep by blast
  with Cons n show ?case by (simp add: empty_rep [OF Cons.prems(1)])
qed

text \<open>First in, first out.\<close>

lemma fifo_order:
  assumes "rep q []" and "distinct es" and "\<forall>e\<in>set es. free_node q e"
  shows "\<exists>q'. push_all q es = Some q' \<and> drain (length es) q' = Some es"
  using push_all_rep [OF assms(1), of es] assms(2,3) drain_rep by fastforce

end

definition list_push :: "next_store \<times> ptr \<Rightarrow> ptr \<Rightarrow> (next_store \<times> ptr) option" where
  "list_push q e = (case q of (nx, p) \<Rightarrow> IOTC_LIST_PUSH_BACK nx p e)"

definition list_pop :: "next_store \<times> ptr \<Rightarrow> ((next_store \<times> ptr) \<times> ptr) option" where
  "list_pop q = (case q of (nx, p) \<Rightarrow>
     (case IOTC_LIST_POP nx p of None \<Rightarrow> None | Some (nx', p', x) \<Rightarrow> Some ((nx', p'), x)))"

definition list_push_all :: "next_store \<times> ptr \<Rightarrow> ptr list \<Rightarrow> (next_store \<times> ptr) option" where
  "list_push_all = fifo.push_all list_push"

definition list_drain :: "nat \<Rightarrow> next_store \<times> ptr \<Rightarrow> ptr list option" where
  "list_drain = fifo.drain list_pop (\<lambda>q. IOTC_LIST_EMPTY (snd q))"

lemma push_back_store:
  assumes "IOTC_LIST_PUSH_BACK nx p e = Some (nx', p')" and "chain nx p xs"
  shows "nx' = nx \<or> (xs \<noteq> [] \<and> nx' = nx(last xs := e))"
  using assms by (auto simp: IOTC_LIST_PUSH_BACK_def list_end_loop_chain split: if_splits)

interpretation list_fifo: fifo list_push list_pop "\<lambda>q. IOTC_LIST_EMPTY (snd q)"
    "\<lambda>q xs. chain (fst q) (snd q) xs" "\<lambda>q e. e \<noteq> NULL \<and> fst q e = NULL"
proof (unfold_locales, goal_cases)
  case (1 q xs e)
  then show ?case
    by (cases q) (auto simp: list_push_def elim: push_back_chain)
next
  case (2 q xs e q' d)
  then have "xs \<noteq> [] \<longrightarrow> d \<noteq> last xs" by (metis last_in_set)
  moreover have "fst q' = fst q \<or> (xs \<noteq> [] \<and> fst q' = (fst q)(last xs := e))"
    using 2 push_back_store by (cases q; cases q') (auto simp: list_push_def)
  ultimately show ?case using 2 by auto
next
  case (3 q x xs)
  then obtain nx' p' where "IOTC_LIST_POP (fst q) (snd q) = Some (nx', p', x)" "chain nx' p' xs"
    by (rule pop_chain)
  then show ?case by (cases q) (auto simp: list_pop_def)
next
  case (4 q xs)
  then show ?case
    by (cases xs) (auto simp: IOTC_LIST_EMPTY_def)
qed

section \<open>Properties\<close>

text \<open>
  C40. The call queue is first in, first out: appending any distinct fresh nodes to an
  empty list with \<^verbatim>\<open>IOTC_LIST_PUSH_BACK\<close> always terminates, and popping until
  the list is empty returns exactly these nodes in the order they were appended.
\<close>

theorem call_queue_fifo:
  assumes "chain nx p []" and "distinct es" and "\<forall>e\<in>set es. e \<noteq> NULL \<and> nx e = NULL"
  shows "\<exists>q'. list_push_all (nx, p) es = Some q' \<and> list_drain (length es) q' = Some es"
  unfolding list_push_all_def list_drain_def
  using assms by (intro list_fifo.fifo_order) auto

theorem call_queue_fifo_witness:
  "\<exists>q'. list_push_all (\<lambda>_. NULL, NULL) [5, 3, 9] = Some q'
     \<and> list_drain (length [5 :: ptr, 3, 9]) q' = Some [5, 3, 9]"
  by (rule call_queue_fifo) simp_all

text \<open>
  \<^verbatim>\<open>IOTC_LIST_DROP\<close> takes exactly one node out of a well-formed list, keeps the
  order of the others and clears the node's own link; a node that is not in the list
  leaves the store and the list unchanged.
\<close>

theorem list_drop_correct:
  assumes "chain nx p xs" and "e \<noteq> NULL"
  shows "\<exists>nx' p'. IOTC_LIST_DROP nx p e = Some (nx', p')
    \<and> chain nx' p' (remove1 e xs)
    \<and> (if e \<in> set xs then nx' e = NULL else nx' = nx \<and> p' = p)"
proof (cases "e \<in> set xs")
  case True
  then obtain us vs where xs: "xs = us @ e # vs" by (meson split_list)
  with assms(1) have "distinct (us @ e # vs)" using chain_distinct by blast
  with xs have "remove1 e xs = us @ vs" by (simp add: remove1_append)
  with True xs assms(1) show ?thesis by (auto elim: drop_chain)
next
  case False
  with assms show ?thesis
    by (simp add: IOTC_LIST_DROP_def drop_loop_absent remove1_idem)
qed

theorem list_drop_correct_witness:
  "\<exists>nx' p'. IOTC_LIST_DROP ((\<lambda>_. NULL)(1 := 2, 2 := 3)) 1 2 = Some (nx', p')
    \<and> chain nx' p' (remove1 2 [1, 2, 3])
    \<and> (if 2 \<in> set [1 :: ptr, 2, 3] then nx' 2 = NULL
       else nx' = (\<lambda>_. NULL)(1 := 2, 2 := 3) \<and> p' = (1 :: ptr))"
  by (rule list_drop_correct) simp_all

text \<open>
  \<^verbatim>\<open>IOTC_LIST_SPLIT_I\<close> ends on every well-formed list and partitions it: the
  source list keeps the nodes the predicate rejects, the output list gets the nodes it
  accepts, both in their original order, and no node is lost or shared.
\<close>

theorem list_split_partitions:
  assumes "chain nx p xs"
  shows "\<exists>nx' p' out. IOTC_LIST_SPLIT_I (\<lambda>x i. P x) nx p NULL = Some (nx', p', out)
    \<and> chain nx' p' (filter (\<lambda>x. \<not> P x) xs) \<and> chain nx' out (filter P xs)"
proof -
  have "split_inv nx p NULL p NULL NULL [] [] xs"
    using assms chain_distinct by (auto simp: split_inv_def last_or_NULL_def)
  from split_loop_chain [OF this, of "\<lambda>x i. P x" 0] show ?thesis
    by (simp add: IOTC_LIST_SPLIT_I_def split_no_index)
qed

theorem list_split_partitions_witness:
  "\<exists>nx' p' out. IOTC_LIST_SPLIT_I (\<lambda>x i. even x) ((\<lambda>_. NULL)(1 := 2, 2 := 3)) 1 NULL
      = Some (nx', p', out)
    \<and> chain nx' p' (filter (\<lambda>x. \<not> even x) [1, 2, 3]) \<and> chain nx' out (filter even [1, 2, 3])"
  by (rule list_split_partitions) simp

end
