(* ===== verification/Iotc_Time_Event.thy ===== *)
theory Iotc_Time_Event
  imports Iotc_Vector
begin

text \<open>
  The queue of delayed events, \<^verbatim>\<open>src/libiotc/event_dispatcher/iotc_time_event.c\<close>:
  a vector of pointers to time events that is kept sorted by the time of execution. Every
  event knows its position in the vector, and the caller's handle of an event points at
  that position field, so that the event can be restarted or cancelled without a search.

  Events and handles are cells of a store: \<open>te_at\<close> gives the contents of an event,
  \<open>te_hnd\<close> what a handle's \<^verbatim>\<open>ptr_to_position\<close> points into: the event whose
  position it is, or \<open>NULL\<close>. The contents \<open>'e\<close> of the event handle that is to be run
  are of no concern here.
\<close>

record 'e time_event =
  te_event_handle :: 'e
  te_time_of_execution :: int
  te_position :: int
  te_time_event_handle :: ptr

record 'e te_store =
  te_at :: "ptr \<Rightarrow> 'e time_event"
  te_hnd :: "ptr \<Rightarrow> ptr"

definition IOTC_TIME_EVENT_POSITION_INVALID :: int where
  "IOTC_TIME_EVENT_POSITION_INVALID = - 1"

abbreviation te_time :: "'e te_store \<Rightarrow> ptr \<Rightarrow> int" where
  "te_time s p \<equiv> te_time_of_execution (te_at s p)"

definition te_set_position :: "ptr \<Rightarrow> int \<Rightarrow> 'e te_store \<Rightarrow> 'e te_store" where
  "te_set_position p i s = s\<lparr>te_at := (te_at s)(p := (te_at s p)\<lparr>te_position := i\<rparr>)\<rparr>"

section \<open>Operations\<close>

definition iotc_swap_time_events ::
    "vec \<Rightarrow> 'e te_store \<Rightarrow> int \<Rightarrow> int \<Rightarrow> vec \<times> 'e te_store" where
  "iotc_swap_time_events v s lhs_index rhs_index =
     (let lhs_time_event = v_elems v ! nat lhs_index;
          rhs_time_event = v_elems v ! nat rhs_index;
          v1 = iotc_vector_swap_elems v lhs_index rhs_index
      in (v1, te_set_position rhs_time_event lhs_index
                (te_set_position lhs_time_event rhs_index s)))"

lemma swap_elem_no [simp]: "v_elem_no (iotc_vector_swap_elems v i j) = v_elem_no v"
  by (simp add: iotc_vector_swap_elems_def)

lemma swap_time_events_elem_no [simp]:
  "v_elem_no (fst (iotc_swap_time_events v s i j)) = v_elem_no v"
  by (simp add: iotc_swap_time_events_def Let_def)

text \<open>The assertions at the head of the bubbling are kept as the guard under which the loop
  is entered; \<open>elem_to_bubble\<close> is the index of the cell it points at.\<close>

definition bubble_assert :: "vec \<Rightarrow> int \<Rightarrow> int \<Rightarrow> bool" where
  "bubble_assert v index dir \<longleftrightarrow>
     v_elem_no v > 0 \<and> index \<ge> 0 \<and> index < v_elem_no v \<and> (dir = - 1 \<or> dir = 1)"

function bubble_core_loop ::
    "vec \<Rightarrow> 'e te_store \<Rightarrow> int \<Rightarrow> int \<Rightarrow> vec \<times> 'e te_store \<times> int" where
  "bubble_core_loop v s elem_to_bubble dir =
     (if bubble_assert v elem_to_bubble dir
         \<and> (if dir < 0 then elem_to_bubble \<noteq> 0 else elem_to_bubble \<noteq> max (v_elem_no v - 1) 0) then
        (let time_event_to_cmp = v_elems v ! nat (elem_to_bubble + dir);
             time_event_to_bubble = v_elems v ! nat elem_to_bubble
         in if (if dir < 0 then te_time s time_event_to_bubble < te_time s time_event_to_cmp
                else te_time s time_event_to_bubble > te_time s time_event_to_cmp)
            then
              (let vs = iotc_swap_time_events v s (te_position (te_at s time_event_to_cmp))
                          (te_position (te_at s time_event_to_bubble))
               in bubble_core_loop (fst vs) (snd vs) (elem_to_bubble + dir) dir)
            else (v, s, elem_to_bubble))
      else (v, s, elem_to_bubble))"
  by pat_completeness auto
termination
  by (relation "measure (\<lambda>(v, s, i, dir). nat (if dir < 0 then i else v_elem_no v - i))")
    (auto simp: bubble_assert_def)

declare bubble_core_loop.simps [simp del]

definition iotc_time_event_bubble_core ::
    "vec \<Rightarrow> 'e te_store \<Rightarrow> int \<Rightarrow> int \<Rightarrow> int \<times> vec \<times> 'e te_store" where
  "iotc_time_event_bubble_core v s index dir =
     (case bubble_core_loop v s index dir of (v', s', elem_to_bubble) \<Rightarrow>
        (te_position (te_at s' (v_elems v' ! nat elem_to_bubble)), v', s'))"

definition iotc_time_event_bubble_and_sort_down ::
    "vec \<Rightarrow> 'e te_store \<Rightarrow> int \<Rightarrow> int \<times> vec \<times> 'e te_store" where
  "iotc_time_event_bubble_and_sort_down v s index = iotc_time_event_bubble_core v s index (- 1)"

definition iotc_time_event_bubble_and_sort_up ::
    "vec \<Rightarrow> 'e te_store \<Rightarrow> int \<Rightarrow> int \<times> vec \<times> 'e te_store" where
  "iotc_time_event_bubble_and_sort_up v s index = iotc_time_event_bubble_core v s index 1"

function move_to_the_end_loop :: "vec \<Rightarrow> 'e te_store \<Rightarrow> int \<Rightarrow> int \<Rightarrow> int \<Rightarrow> vec \<times> 'e te_store" where
  "move_to_the_end_loop v s index elem_to_swap_with_index last_elem_index =
     (if index < last_elem_index then
        (let vs = iotc_swap_time_events v s index elem_to_swap_with_index
         in move_to_the_end_loop (fst vs) (snd vs) (index + 1) (elem_to_swap_with_index + 1)
              last_elem_index)
      else (v, s))"
  by pat_completeness auto
termination
  by (relation "measure (\<lambda>(v, s, i, j, k). nat (k - i))") auto

declare move_to_the_end_loop.simps [simp del]

definition iotc_time_event_move_to_the_end ::
    "vec \<Rightarrow> 'e te_store \<Rightarrow> int \<Rightarrow> vec \<times> 'e te_store" where
  "iotc_time_event_move_to_the_end v s index =
     (let last_elem_index = v_elem_no v - 1; elem_to_swap_with_index = index + 1
      in move_to_the_end_loop v s index elem_to_swap_with_index last_elem_index)"

text \<open>The index of the new cell, \<open>None\<close> for a null pointer.\<close>

definition iotc_insert_time_event ::
    "vec \<Rightarrow> 'e te_store \<Rightarrow> ptr \<Rightarrow> mem \<Rightarrow> int option \<times> vec \<times> 'e te_store \<times> mem" where
  "iotc_insert_time_event v s time_event m =
     (case iotc_vector_push v time_event m of
        (None, v1, m1) \<Rightarrow> (None, v1, s, m1)
      | (Some inserted_element, v1, m1) \<Rightarrow>
          (let s1 = te_set_position time_event (v_elem_no v1 - 1) s
           in case iotc_time_event_bubble_and_sort_down v1 s1 (v_elem_no v1 - 1) of
                (index, v2, s2) \<Rightarrow> (Some index, v2, s2, m1)))"

definition iotc_time_event_dispose_time_event :: "ptr \<Rightarrow> 'e te_store \<Rightarrow> 'e te_store" where
  "iotc_time_event_dispose_time_event time_event s =
     (let h = te_time_event_handle (te_at s time_event)
      in if h \<noteq> NULL then s\<lparr>te_hnd := (te_hnd s)(h := NULL)\<rparr> else s)"

definition iotc_time_event_destructor ::
    "nat \<Rightarrow> 'e te_store \<times> mem \<Rightarrow> nat \<times> 'e te_store \<times> mem" where
  "iotc_time_event_destructor selector sm =
     (case sm of (s, m) \<Rightarrow>
        (let time_event = selector;
             s1 = te_set_position time_event IOTC_TIME_EVENT_POSITION_INVALID s
         in (selector, s1, IOTC_SAFE_FREE time_event m)))"

text \<open>A null \<open>ret_time_event_handle\<close> is the handle 0.\<close>

definition iotc_time_event_add ::
    "vec \<Rightarrow> 'e te_store \<Rightarrow> ptr \<Rightarrow> ptr \<Rightarrow> mem \<Rightarrow> iotc_state \<times> vec \<times> 'e te_store \<times> mem" where
  "iotc_time_event_add v s time_event ret_time_event_handle m =
     (case iotc_insert_time_event v s time_event m of
        (None, v1, s1, m1) \<Rightarrow> (IOTC_OUT_OF_MEMORY, v1, s1, m1)
      | (Some elem, v1, s1, m1) \<Rightarrow>
          (let added_time_event = v_elems v1 ! nat elem;
               s2 = (if ret_time_event_handle \<noteq> NULL
                     then s1\<lparr>te_hnd := (te_hnd s1)(ret_time_event_handle := added_time_event),
                             te_at := (te_at s1)(added_time_event := (te_at s1 added_time_event)
                                        \<lparr>te_time_event_handle := ret_time_event_handle\<rparr>)\<rparr>
                     else s1)
           in (IOTC_STATE_OK, v1, s2, m1)))"

definition iotc_time_event_get_top :: "vec \<Rightarrow> 'e te_store \<Rightarrow> ptr \<times> vec \<times> 'e te_store" where
  "iotc_time_event_get_top v s =
     (if v_elem_no v = 0 then (NULL, v, s)
      else
        (let top_one = v_elems v ! 0;
             (v1, s1) = (if v_elem_no v > 1
                         then (case iotc_time_event_move_to_the_end v s 0 of
                                 (v', s') \<Rightarrow> (iotc_vector_del v' (v_elem_no v' - 1), s'))
                         else (iotc_vector_del v (v_elem_no v - 1), s));
             s2 = iotc_time_event_dispose_time_event top_one s1
         in (top_one, v1, s2)))"

definition iotc_time_event_peek_top :: "vec \<Rightarrow> ptr" where
  "iotc_time_event_peek_top v = (if v_elem_no v = 0 then NULL else v_elems v ! 0)"

definition iotc_time_event_restart ::
    "vec \<Rightarrow> 'e te_store \<Rightarrow> ptr \<Rightarrow> int \<Rightarrow> iotc_state \<times> vec \<times> 'e te_store" where
  "iotc_time_event_restart v s time_event_handle new_time =
     (let index = te_position (te_at s (te_hnd s time_event_handle))
      in if index \<ge> v_elem_no v \<or> index < 0 then (IOTC_ELEMENT_NOT_FOUND, v, s)
         else
           (let time_event = v_elems v ! nat index;
                old_time = te_time s time_event;
                s1 = s\<lparr>te_at := (te_at s)(time_event :=
                         (te_at s time_event)\<lparr>te_time_of_execution := new_time\<rparr>)\<rparr>
            in case (if new_time < old_time
                     then iotc_time_event_bubble_and_sort_down v s1 index
                     else iotc_time_event_bubble_and_sort_up v s1 index) of
                 (_, v2, s2) \<Rightarrow> (IOTC_STATE_OK, v2, s2)))"

definition iotc_time_event_cancel ::
    "vec \<Rightarrow> 'e te_store \<Rightarrow> ptr \<Rightarrow> iotc_state \<times> ptr option \<times> vec \<times> 'e te_store" where
  "iotc_time_event_cancel v s time_event_handle =
     (let index = te_position (te_at s (te_hnd s time_event_handle))
      in if index \<ge> v_elem_no v \<or> index < 0 then (IOTC_ELEMENT_NOT_FOUND, None, v, s)
         else
           (let (v1, s1) = (if index < v_elem_no v - 1 then iotc_time_event_move_to_the_end v s index
                            else (v, s));
                cancelled_time_event = v_elems v1 ! nat (v_elem_no v1 - 1);
                v2 = iotc_vector_del v1 (v_elem_no v1 - 1);
                s2 = iotc_time_event_dispose_time_event cancelled_time_event s1
            in (IOTC_STATE_OK, Some cancelled_time_event, v2, s2)))"

definition iotc_time_event_destroy :: "vec \<Rightarrow> 'e te_store \<Rightarrow> mem \<Rightarrow> vec \<times> 'e te_store \<times> mem" where
  "iotc_time_event_destroy v s m = iotc_vector_for_each v iotc_time_event_destructor (s, m) 0"


section \<open>Positions are kept\<close>

definition pos_ok :: "vec \<Rightarrow> 'e te_store \<Rightarrow> bool" where
  "pos_ok v s \<longleftrightarrow> vec_inv v \<and> distinct (vec_list v)
     \<and> (\<forall>i<length (vec_list v). te_position (te_at s (vec_list v ! i)) = int i)"

text \<open>Stores that differ in positions only, and vectors that differ in their cells only.\<close>

definition same_keys :: "'e te_store \<Rightarrow> 'e te_store \<Rightarrow> bool" where
  "same_keys s s' \<longleftrightarrow> te_hnd s' = te_hnd s
     \<and> (\<forall>p. te_time s' p = te_time s p \<and> te_time_event_handle (te_at s' p) = te_time_event_handle (te_at s p)
          \<and> te_event_handle (te_at s' p) = te_event_handle (te_at s p))"

definition same_block :: "vec \<Rightarrow> vec \<Rightarrow> bool" where
  "same_block v v' \<longleftrightarrow> v\<lparr>v_elems := []\<rparr> = v'\<lparr>v_elems := []\<rparr>"

lemma same_keys_refl [simp]: "same_keys s s"
  by (simp add: same_keys_def)

lemma same_keys_trans: "same_keys s s1 \<Longrightarrow> same_keys s1 s2 \<Longrightarrow> same_keys s s2"
  by (simp add: same_keys_def)

lemma same_keys_set_position [simp]: "same_keys s (te_set_position p i s)"
  by (simp add: same_keys_def te_set_position_def)

lemma same_block_refl [simp]: "same_block v v"
  by (simp add: same_block_def)

lemma same_block_trans: "same_block v v1 \<Longrightarrow> same_block v1 v2 \<Longrightarrow> same_block v v2"
  by (simp add: same_block_def)

lemma same_block_elem_no: "same_block v v' \<Longrightarrow> v_elem_no v' = v_elem_no v"
  by (cases v; cases v') (simp add: same_block_def)

lemma grown_same_block:
  assumes "grown base v m" and "same_block v v'" and "vec_inv v'"
  shows "grown base v' m"
  using assms by (cases v; cases v') (simp add: grown_def owns_over_def same_block_def)

lemma swap_time_events_all:
  assumes ok: "pos_ok v s" and i: "i < length (vec_list v)" and j: "j < length (vec_list v)" and ne: "i \<noteq> j"
    and r: "iotc_swap_time_events v s (int i) (int j) = (v', s')"
  shows "pos_ok v' s' \<and> same_keys s s' \<and> same_block v v' \<and> vec_list v' = list_swap (vec_list v) i j"
proof -
  from ok have inv: "vec_inv v" and d: "distinct (vec_list v)" by (auto simp: pos_ok_def)
  have b: "int i < v_elem_no v" "int j < v_elem_no v" using i j inv by auto
  have e: "v_elems v ! i = vec_list v ! i" "v_elems v ! j = vec_list v ! j"
    using vec_list_nth [OF inv, of "int i"] vec_list_nth [OF inv, of "int j"] b by simp_all
  from r have v': "v' = iotc_vector_swap_elems v (int i) (int j)"
    and s': "s' = te_set_position (vec_list v ! j) (int i) (te_set_position (vec_list v ! i) (int j) s)"
    by (auto simp: iotc_swap_time_events_def Let_def e)
  note sw = vec_swap_inv [OF inv, of "int i" "int j"]
  have l: "vec_list v' = list_swap (vec_list v) i j" and inv': "vec_inv v'"
    using sw b by (auto simp: v')
  have "te_position (te_at s' (vec_list v' ! k)) = int k" if k: "k < length (vec_list v')" for k
  proof -
    from k l have k': "k < length (vec_list v)" by simp
    have neq: "vec_list v ! i \<noteq> vec_list v ! j" using d i j ne by (simp add: nth_eq_iff_index_eq)
    have pk: "te_position (te_at s (vec_list v ! k)) = int k" using ok k' by (simp add: pos_ok_def)
    have "vec_list v ! k \<noteq> vec_list v ! i" if "k \<noteq> i" using d i k' that by (simp add: nth_eq_iff_index_eq)
    moreover have "vec_list v ! k \<noteq> vec_list v ! j" if "k \<noteq> j" using d j k' that by (simp add: nth_eq_iff_index_eq)
    ultimately show ?thesis
      using neq pk by (simp add: l nth_list_swap i j k' s' te_set_position_def)
  qed
  moreover have "same_keys s s'" unfolding s' by (meson same_keys_set_position same_keys_trans)
  moreover have "same_block v v'" by (simp add: v' same_block_def iotc_vector_swap_elems_def)
  moreover have "distinct (vec_list v')" using d i j l by simp
  ultimately show ?thesis using inv' l by (simp add: pos_ok_def)
qed

lemma pos_ok_position:
  "pos_ok v s \<Longrightarrow> vec_list v = us @ p # vs \<Longrightarrow> te_position (te_at s p) = int (length us)"
  unfolding pos_ok_def by (metis length_append length_Cons add_Suc_right less_add_Suc1 nth_append_length)

lemma vec_list_cell:
  assumes "vec_inv v" and "vec_list v = us @ p # vs"
  shows "v_elems v ! length us = p" and "v_elem_no v = int (length us) + 1 + int (length vs)"
proof -
  have "length (vec_list v) = nat (v_elem_no v)" and n: "0 \<le> v_elem_no v"
    using assms(1) by (simp_all add: vec_inv_def)
  with assms(2) show e: "v_elem_no v = int (length us) + 1 + int (length vs)" by simp
  have "v_elems v ! length us = vec_list v ! length us"
    using vec_list_nth [OF assms(1), of "int (length us)"] e by simp
  with assms(2) show "v_elems v ! length us = p" by simp
qed

section \<open>The loops on lists\<close>

text \<open>One step of a bubbling, in either direction: the guard and what the swap does.\<close>

lemma bubble_down_step:
  assumes ok: "pos_ok v s" and l: "vec_list v = us @ q # p # vs"
  shows "\<exists>v' s'. pos_ok v' s' \<and> same_keys s s' \<and> same_block v v' \<and> vec_list v' = us @ p # q # vs
    \<and> bubble_core_loop v s (int (Suc (length us))) (- 1) =
       (if te_time s p < te_time s q then bubble_core_loop v' s' (int (length us)) (- 1)
        else (v, s, int (Suc (length us))))"
proof -
  obtain v' s' where sw: "iotc_swap_time_events v s (int (length us)) (int (Suc (length us))) = (v', s')"
    by fastforce
  have inv: "vec_inv v" using ok by (simp add: pos_ok_def)
  from l have l2: "vec_list v = (us @ [q]) @ p # vs" by simp
  note c1 = vec_list_cell [OF inv l] and c2 = vec_list_cell [OF inv l2]
  note p1 = pos_ok_position [OF ok l] and p2 = pos_ok_position [OF ok l2]
  have "pos_ok v' s' \<and> same_keys s s' \<and> same_block v v' \<and> vec_list v' = us @ p # q # vs"
    using swap_time_events_all [OF ok _ _ _ sw] l by (simp add: list_swap_append_Cons)
  moreover have "bubble_core_loop v s (int (Suc (length us))) (- 1) =
       (if te_time s p < te_time s q then bubble_core_loop v' s' (int (length us)) (- 1)
        else (v, s, int (Suc (length us))))"
    by (subst bubble_core_loop.simps) (use c1 c2 p1 p2 sw in \<open>simp add: bubble_assert_def Let_def nat_add_distrib\<close>)
  ultimately show ?thesis by blast
qed

lemma bubble_up_step:
  assumes ok: "pos_ok v s" and l: "vec_list v = us @ p # q # vs"
  shows "\<exists>v' s'. pos_ok v' s' \<and> same_keys s s' \<and> same_block v v' \<and> vec_list v' = us @ q # p # vs
    \<and> bubble_core_loop v s (int (length us)) 1 =
       (if te_time s q < te_time s p then bubble_core_loop v' s' (int (Suc (length us))) 1
        else (v, s, int (length us)))"
proof -
  obtain v' s' where sw: "iotc_swap_time_events v s (int (Suc (length us))) (int (length us)) = (v', s')"
    by fastforce
  have inv: "vec_inv v" using ok by (simp add: pos_ok_def)
  from l have l2: "vec_list v = (us @ [p]) @ q # vs" by simp
  note c1 = vec_list_cell [OF inv l] and c2 = vec_list_cell [OF inv l2]
  note p1 = pos_ok_position [OF ok l] and p2 = pos_ok_position [OF ok l2]
  have "pos_ok v' s' \<and> same_keys s s' \<and> same_block v v' \<and> vec_list v' = us @ q # p # vs"
    using swap_time_events_all [OF ok _ _ _ sw] l by (simp add: list_swap_append_Cons_rev)
  moreover have "bubble_core_loop v s (int (length us)) 1 =
       (if te_time s q < te_time s p then bubble_core_loop v' s' (int (Suc (length us))) 1
        else (v, s, int (length us)))"
    by (subst bubble_core_loop.simps)
      (use c1 c2 p1 p2 sw in \<open>simp add: bubble_assert_def Let_def nat_add_distrib add.commute\<close>)
  ultimately show ?thesis by blast
qed

text \<open>What bubbling down does to the queue: the event goes behind the last event that is
  not later.\<close>

lemma while_snoc:
  "\<not> P q \<Longrightarrow> takeWhile P (us @ [q]) = takeWhile P us \<and> dropWhile P (us @ [q]) = dropWhile P us @ [q]"
  by (induction us) auto

lemma bubble_down_spec:
  assumes "pos_ok v s" and "vec_list v = us @ p # vs" and "sorted (map (te_time s) us)"
  shows "\<exists>v' s'. let us1 = takeWhile (\<lambda>q. te_time s q \<le> te_time s p) us;
                     us2 = dropWhile (\<lambda>q. te_time s q \<le> te_time s p) us
     in bubble_core_loop v s (int (length us)) (- 1) = (v', s', int (length us1))
      \<and> pos_ok v' s' \<and> same_keys s s' \<and> same_block v v' \<and> vec_list v' = us1 @ p # us2 @ vs"
  using assms
proof (induction us arbitrary: v s vs rule: rev_induct)
  case Nil
  then show ?case
    by (intro exI [of _ v] exI [of _ s], subst bubble_core_loop.simps) simp
next
  case (snoc q us)
  from snoc.prems(2) have l: "vec_list v = us @ q # p # vs" by simp
  from bubble_down_step [OF snoc.prems(1) l] obtain v1 s1 where ok1: "pos_ok v1 s1" and k1: "same_keys s s1"
    and b1: "same_block v v1" and l1: "vec_list v1 = us @ p # q # vs"
    and step: "bubble_core_loop v s (int (Suc (length us))) (- 1) =
       (if te_time s p < te_time s q then bubble_core_loop v1 s1 (int (length us)) (- 1)
        else (v, s, int (Suc (length us))))" by blast
  show ?case
  proof (cases "te_time s p < te_time s q")
    case True
    from k1 have t: "te_time s1 x = te_time s x" for x by (simp add: same_keys_def)
    from snoc.prems(3) have "sorted (map (te_time s1) us)" by (simp add: t sorted_append)
    from snoc.IH [OF ok1 l1 this] step True while_snoc [of "\<lambda>q. te_time s q \<le> te_time s p" q us]
    show ?thesis
      unfolding t by (auto simp: Let_def intro: same_keys_trans [OF k1] same_block_trans [OF b1])
  next
    case False
    with snoc.prems(3) have "\<forall>x\<in>set us. te_time s x \<le> te_time s p" by (auto simp: sorted_append)
    with step False snoc.prems(1) l show ?thesis
      by (intro exI [of _ v] exI [of _ s]) (simp add: Let_def takeWhile_append dropWhile_append)
  qed
qed

lemma bubble_up_spec:
  assumes "pos_ok v s" and "vec_list v = us @ p # vs"
  shows "\<exists>v' s'. let vs1 = takeWhile (\<lambda>q. te_time s q < te_time s p) vs;
                     vs2 = dropWhile (\<lambda>q. te_time s q < te_time s p) vs
     in bubble_core_loop v s (int (length us)) 1 = (v', s', int (length us + length vs1))
      \<and> pos_ok v' s' \<and> same_keys s s' \<and> same_block v v' \<and> vec_list v' = us @ vs1 @ p # vs2"
  using assms
proof (induction vs arbitrary: v s us)
  case Nil
  then have "v_elem_no v = int (length us) + 1" using vec_list_cell(2) by (force simp: pos_ok_def)
  with Nil show ?case
    by (intro exI [of _ v] exI [of _ s], subst bubble_core_loop.simps) simp
next
  case (Cons q vs)
  from bubble_up_step [OF Cons.prems(1,2)] obtain v1 s1 where ok1: "pos_ok v1 s1" and k1: "same_keys s s1"
    and b1: "same_block v v1" and l1: "vec_list v1 = us @ q # p # vs"
    and step: "bubble_core_loop v s (int (length us)) 1 =
       (if te_time s q < te_time s p then bubble_core_loop v1 s1 (int (Suc (length us))) 1
        else (v, s, int (length us)))" by blast
  show ?case
  proof (cases "te_time s q < te_time s p")
    case True
    from k1 have t: "te_time s1 x = te_time s x" for x by (simp add: same_keys_def)
    from l1 have "vec_list v1 = (us @ [q]) @ p # vs" by simp
    from Cons.IH [OF ok1 this] step True k1 b1 show ?thesis
      unfolding t by (auto simp: Let_def intro: same_keys_trans [OF k1] same_block_trans [OF b1])
  next
    case False
    with step Cons.prems show ?thesis
      by (intro exI [of _ v] exI [of _ s]) simp
  qed
qed

lemma move_to_the_end_spec:
  assumes "pos_ok v s" and "vec_list v = us @ p # vs"
  shows "\<exists>v' s'. move_to_the_end_loop v s (int (length us)) (int (length us) + 1)
        (int (length us) + int (length vs)) = (v', s')
      \<and> pos_ok v' s' \<and> same_keys s s' \<and> same_block v v' \<and> vec_list v' = us @ vs @ [p]"
  using assms
proof (induction vs arbitrary: v s us)
  case Nil
  then show ?case by (intro exI [of _ v] exI [of _ s], subst move_to_the_end_loop.simps) simp
next
  case (Cons q vs)
  obtain v1 s1 where sw: "iotc_swap_time_events v s (int (length us)) (int (Suc (length us))) = (v1, s1)"
    by fastforce
  have sp: "pos_ok v1 s1 \<and> same_keys s s1 \<and> same_block v v1 \<and> vec_list v1 = us @ q # p # vs"
    using swap_time_events_all [OF Cons.prems(1) _ _ _ sw] Cons.prems(2)
    by (simp add: list_swap_append_Cons)
  then have "vec_list v1 = (us @ [q]) @ p # vs" by simp
  with Cons.IH [of v1 s1 "us @ [q]"] sp obtain v2 s2 where
    "move_to_the_end_loop v1 s1 (int (length us) + 1) (int (length us) + 2)
        (int (length us) + int (length vs) + 1) = (v2, s2)
      \<and> pos_ok v2 s2 \<and> same_keys s1 s2 \<and> same_block v1 v2 \<and> vec_list v2 = us @ q # vs @ [p]"
    by (auto simp: algebra_simps)
  with sw sp show ?case
    by (intro exI [of _ v2] exI [of _ s2], subst move_to_the_end_loop.simps)
      (auto simp: algebra_simps intro: same_keys_trans same_block_trans)
qed

section \<open>The invariant of the queue\<close>

definition te_inv :: "vec \<Rightarrow> 'e te_store \<Rightarrow> bool" where
  "te_inv v s \<longleftrightarrow> pos_ok v s \<and> NULL \<notin> set (vec_list v) \<and> sorted (map (te_time s) (vec_list v))
     \<and> (\<forall>p\<in>set (vec_list v). te_time_event_handle (te_at s p) \<noteq> NULL \<longrightarrow>
          te_hnd s (te_time_event_handle (te_at s p)) = p)"

text \<open>Where an event goes in a queue, as a function on lists.\<close>

definition queue_insert :: "('a \<Rightarrow> int) \<Rightarrow> 'a \<Rightarrow> 'a list \<Rightarrow> 'a list" where
  "queue_insert t p qs = takeWhile (\<lambda>q. t q \<le> t p) qs @ p # dropWhile (\<lambda>q. t q \<le> t p) qs"

lemma set_queue_insert [simp]: "set (queue_insert t p qs) = insert p (set qs)"
proof -
  have "set (takeWhile P qs) \<union> set (dropWhile P qs) = set qs" for P
    by (metis set_append takeWhile_dropWhile_id)
  then show ?thesis by (auto simp: queue_insert_def)
qed

lemma dropWhile_sorted_gt:
  "sorted (map t qs) \<Longrightarrow> x \<in> set (dropWhile (\<lambda>q. t q \<le> (a::int)) qs) \<Longrightarrow> a < t x"
proof (induction qs)
  case (Cons q qs)
  then show ?case by (cases "t q \<le> a") (auto intro: less_le_trans)
qed simp

lemma dropWhile_sorted_ge:
  "sorted (map t qs) \<Longrightarrow> x \<in> set (dropWhile (\<lambda>q. t q < (a::int)) qs) \<Longrightarrow> a \<le> t x"
proof (induction qs)
  case (Cons q qs)
  then show ?case by (cases "t q < a") auto
qed simp

lemma sorted_queue_insert:
  assumes "sorted (map t qs)"
  shows "sorted (map t (queue_insert t p qs))"
proof -
  define us vs where uv: "us = takeWhile (\<lambda>q. t q \<le> t p) qs" "vs = dropWhile (\<lambda>q. t q \<le> t p) qs"
  then have "qs = us @ vs" by simp
  with assms have s: "sorted (map t (us @ vs))" by simp
  have u: "\<forall>x\<in>set us. t x \<le> t p" by (auto simp: uv dest: set_takeWhileD)
  have v: "\<forall>x\<in>set vs. t p < t x" using dropWhile_sorted_gt [OF assms] by (auto simp: uv)
  have "queue_insert t p qs = us @ p # vs" by (simp add: queue_insert_def uv)
  with s u v show ?thesis by (auto simp: sorted_append less_imp_le)
qed

lemma distinct_queue_insert:
  assumes "distinct qs" and "p \<notin> set qs"
  shows "distinct (queue_insert t p qs)"
proof -
  have "distinct (takeWhile (\<lambda>q. t q \<le> t p) qs @ dropWhile (\<lambda>q. t q \<le> t p) qs)"
    using assms(1) by simp
  with assms(2) show ?thesis
    unfolding queue_insert_def distinct_append
    by (auto dest: set_takeWhileD set_dropWhileD)
qed

text \<open>Taking an event out: to the end, then off the end.\<close>

lemma vec_del_last:
  assumes "vec_inv v" and "vec_list v = us @ [p]"
  shows "vec_inv (iotc_vector_del v (v_elem_no v - 1))"
    and "vec_list (iotc_vector_del v (v_elem_no v - 1)) = us"
    and "v_elems v ! nat (v_elem_no v - 1) = p"
proof -
  from vec_list_cell [OF assms(1), of us p "[]"] assms(2)
  have e: "v_elem_no v = int (length us) + 1" and c: "v_elems v ! length us = p" by auto
  then show "v_elems v ! nat (v_elem_no v - 1) = p" by simp
  from vec_del_spec [OF assms(1), of "v_elem_no v - 1"] e assms(2)
  show "vec_inv (iotc_vector_del v (v_elem_no v - 1))"
    and "vec_list (iotc_vector_del v (v_elem_no v - 1)) = us"
    by (simp_all add: drop_index_def)
qed

lemma vec_del_same_cells:
  "\<exists>es n. iotc_vector_del v i = v\<lparr>v_elems := es, v_elem_no := n\<rparr>"
  unfolding iotc_vector_del_def iotc_vector_swap_elems_def Let_def
  by (cases v) auto

lemma move_and_del:
  assumes ok: "pos_ok v s" and l: "vec_list v = us @ p # vs"
  shows "\<exists>v1 s1. iotc_time_event_move_to_the_end v s (int (length us)) = (v1, s1)
    \<and> v_elems v1 ! nat (v_elem_no v1 - 1) = p \<and> same_keys s s1 \<and> same_block v v1
    \<and> v_elem_no v1 = v_elem_no v
    \<and> pos_ok (iotc_vector_del v1 (v_elem_no v1 - 1)) s1
    \<and> vec_list (iotc_vector_del v1 (v_elem_no v1 - 1)) = us @ vs"
proof -
  have inv: "vec_inv v" using ok by (simp add: pos_ok_def)
  from vec_list_cell(2) [OF inv l] have e: "v_elem_no v = int (length us) + 1 + int (length vs)" .
  from move_to_the_end_spec [OF ok l] obtain v1 s1 where
    mv: "move_to_the_end_loop v s (int (length us)) (int (length us) + 1)
        (int (length us) + int (length vs)) = (v1, s1)"
    and ok1: "pos_ok v1 s1" and k: "same_keys s s1" and b: "same_block v v1"
    and l1: "vec_list v1 = (us @ vs) @ [p]" by auto
  from ok1 have inv1: "vec_inv v1" by (simp add: pos_ok_def)
  note d = vec_del_last [OF inv1 l1]
  have "pos_ok (iotc_vector_del v1 (v_elem_no v1 - 1)) s1"
    using ok1 d(1,2) l1 unfolding pos_ok_def
    by (metis distinct_append length_append_singleton less_SucI nth_append)
  with mv e k b d same_block_elem_no [OF b] show ?thesis
    by (intro exI [of _ v1] exI [of _ s1])
      (simp add: iotc_time_event_move_to_the_end_def Let_def)
qed

lemma move_at_last:
  assumes "index \<ge> v_elem_no v - 1"
  shows "iotc_time_event_move_to_the_end v s index = (v, s)"
  using assms by (simp add: iotc_time_event_move_to_the_end_def move_to_the_end_loop.simps)

lemma dispose_all:
  "te_time (iotc_time_event_dispose_time_event p s) q = te_time s q
   \<and> te_at (iotc_time_event_dispose_time_event p s) = te_at s
   \<and> te_hnd (iotc_time_event_dispose_time_event p s) =
      (let h = te_time_event_handle (te_at s p) in if h = NULL then te_hnd s else (te_hnd s)(h := NULL))"
  by (simp add: iotc_time_event_dispose_time_event_def Let_def)

text \<open>The invariant after an event left the queue and its handle was cleared.\<close>

lemma te_inv_removed:
  assumes i: "te_inv v s" and l: "vec_list v = us @ p # vs" and k: "same_keys s s1"
    and ok: "pos_ok v2 s1" and l2: "vec_list v2 = us @ vs"
  shows "te_inv v2 (iotc_time_event_dispose_time_event p s1)"
proof -
  let ?s = "iotc_time_event_dispose_time_event p s1"
  from i have d: "distinct (us @ p # vs)" and n: "NULL \<notin> set (us @ p # vs)"
    and srt: "sorted (map (te_time s) (us @ p # vs))"
    and h: "\<forall>q\<in>set (us @ p # vs). te_time_event_handle (te_at s q) \<noteq> NULL \<longrightarrow>
          te_hnd s (te_time_event_handle (te_at s q)) = q"
    by (simp_all add: te_inv_def pos_ok_def l)
  have at: "te_at ?s = te_at s1" using dispose_all by blast
  have t: "te_time s1 q = te_time s q" and hh: "te_time_event_handle (te_at s1 q) = te_time_event_handle (te_at s q)"
    and hn: "te_hnd s1 = te_hnd s" for q using k by (simp_all add: same_keys_def)
  have "pos_ok v2 ?s" using ok by (simp add: pos_ok_def at)
  moreover have "sorted (map (te_time ?s) (vec_list v2))"
    using srt by (simp add: at t l2 sorted_append)
  moreover have "\<forall>q\<in>set (vec_list v2). te_time_event_handle (te_at ?s q) \<noteq> NULL \<longrightarrow>
          te_hnd ?s (te_time_event_handle (te_at ?s q)) = q"
  proof (intro ballI impI)
    fix q assume q: "q \<in> set (vec_list v2)" and nz: "te_time_event_handle (te_at ?s q) \<noteq> NULL"
    with l2 d have "q \<noteq> p" "q \<in> set (us @ p # vs)" by auto
    with h nz have e: "te_hnd s (te_time_event_handle (te_at s q)) = q" by (simp add: at hh)
    have "te_time_event_handle (te_at s q) \<noteq> te_time_event_handle (te_at s p)"
      if "te_time_event_handle (te_at s p) \<noteq> NULL"
      using e h that \<open>q \<noteq> p\<close> by auto
    with e show "te_hnd ?s (te_time_event_handle (te_at ?s q)) = q"
      using dispose_all [of p s1] by (auto simp: at hh hn Let_def)
  qed
  ultimately show ?thesis using n l2 by (simp add: te_inv_def)
qed

section \<open>The operations on the queue\<close>

lemma bubble_down_result:
  assumes ok: "pos_ok v s" and l: "vec_list v = us @ p # vs" and srt: "sorted (map (te_time s) us)"
  shows "\<exists>v' s'. iotc_time_event_bubble_and_sort_down v s (int (length us)) =
      (int (length (takeWhile (\<lambda>q. te_time s q \<le> te_time s p) us)), v', s')
    \<and> pos_ok v' s' \<and> same_keys s s' \<and> same_block v v' \<and> vec_list v' = queue_insert (te_time s) p us @ vs
    \<and> v_elems v' ! length (takeWhile (\<lambda>q. te_time s q \<le> te_time s p) us) = p"
proof -
  define us1 us2 where u: "us1 = takeWhile (\<lambda>q. te_time s q \<le> te_time s p) us"
    "us2 = dropWhile (\<lambda>q. te_time s q \<le> te_time s p) us"
  from bubble_down_spec [OF ok l srt] obtain v' s' where
    lp: "bubble_core_loop v s (int (length us)) (- 1) = (v', s', int (length us1))"
    and r: "pos_ok v' s'" "same_keys s s'" "same_block v v'" and l': "vec_list v' = us1 @ p # us2 @ vs"
    unfolding Let_def u by blast
  from r(1) have inv: "vec_inv v'" by (simp add: pos_ok_def)
  have c: "v_elems v' ! length us1 = p" by (rule vec_list_cell(1) [OF inv l'])
  have "te_position (te_at s' p) = int (length us1)" by (rule pos_ok_position [OF r(1) l'])
  with lp c have "iotc_time_event_bubble_and_sort_down v s (int (length us)) = (int (length us1), v', s')"
    by (simp add: iotc_time_event_bubble_and_sort_down_def iotc_time_event_bubble_core_def)
  with r l' c show ?thesis by (simp add: queue_insert_def u)
qed

lemma bubble_up_result:
  assumes ok: "pos_ok v s" and l: "vec_list v = us @ p # vs"
  shows "\<exists>i v' s'. iotc_time_event_bubble_and_sort_up v s (int (length us)) = (i, v', s')
    \<and> pos_ok v' s' \<and> same_keys s s' \<and> same_block v v'
    \<and> vec_list v' = us @ takeWhile (\<lambda>q. te_time s q < te_time s p) vs @ p #
         dropWhile (\<lambda>q. te_time s q < te_time s p) vs"
  using bubble_up_spec [OF ok l]
  by (auto simp: iotc_time_event_bubble_and_sort_up_def iotc_time_event_bubble_core_def Let_def)

lemma te_add_pushed:
  assumes push: "iotc_vector_push v p m = (Some k, v1, m1)" and inv1: "vec_inv v1" and l1: "vec_list v1 = vec_list v @ [p]"
    and i: "te_inv v s" and p: "p \<noteq> NULL" "p \<notin> set (vec_list v)"
    and ph: "te_time_event_handle (te_at s p) = NULL" and h: "h \<noteq> NULL \<longrightarrow> te_hnd s h = NULL"
    and r: "iotc_time_event_add v s p h m = (st, v', s', m')"
  shows "st = IOTC_STATE_OK \<and> m' = m1 \<and> same_block v1 v' \<and> te_inv v' s' \<and> (\<forall>q. te_time s' q = te_time s q
         \<and> te_event_handle (te_at s' q) = te_event_handle (te_at s q)
         \<and> (q \<noteq> p \<or> h = NULL \<longrightarrow> te_time_event_handle (te_at s' q) = te_time_event_handle (te_at s q)))
    \<and> vec_list v' = queue_insert (te_time s) p (vec_list v)
    \<and> te_hnd s' = (if h = NULL then te_hnd s else (te_hnd s)(h := p))"
proof -
  let ?ps = "vec_list v" and ?s1 = "te_set_position p (v_elem_no v1 - 1) s"
  from vec_list_cell(2) [OF inv1, of ?ps p "[]"] l1 have e: "v_elem_no v1 - 1 = int (length ?ps)" by simp
  from i p(2) have d: "distinct (?ps @ [p])"
    and pos: "\<forall>j<length ?ps. te_position (te_at s (?ps ! j)) = int j"
    and srt: "sorted (map (te_time s) ?ps)" by (auto simp: te_inv_def pos_ok_def)
  have ok1: "pos_ok v1 ?s1"
    unfolding pos_ok_def l1 using inv1 d pos p(2)
    by (auto simp: te_set_position_def e nth_append less_Suc_eq)
  have t1: "te_time ?s1 q = te_time s q" for q by (simp add: te_set_position_def)
  define n where "n = length (takeWhile (\<lambda>q. te_time s q \<le> te_time s p) ?ps)"
  from bubble_down_result [OF ok1 l1, unfolded t1, OF srt] obtain v2 s2 where
    b: "iotc_time_event_bubble_and_sort_down v1 ?s1 (int (length ?ps)) = (int n, v2, s2)"
    and ok2: "pos_ok v2 s2" and k2: "same_keys ?s1 s2" and bl: "same_block v1 v2"
    and l2: "vec_list v2 = queue_insert (te_time s) p ?ps" and c: "v_elems v2 ! n = p"
    unfolding n_def by auto
  from k2 have t2: "te_time s2 q = te_time s q" and hn2: "te_hnd s2 = te_hnd s"
    and th2: "te_time_event_handle (te_at s2 q) = te_time_event_handle (te_at s q)"
    and eh2: "te_event_handle (te_at s2 q) = te_event_handle (te_at s q)" for q
    by (auto simp: same_keys_def te_set_position_def)
  from r push b c e have st: "st = IOTC_STATE_OK" "v' = v2" "m' = m1"
    and s': "s' = (if h \<noteq> NULL then s2\<lparr>te_hnd := (te_hnd s2)(h := p),
        te_at := (te_at s2)(p := (te_at s2 p)\<lparr>te_time_event_handle := h\<rparr>)\<rparr> else s2)"
    by (auto simp: iotc_time_event_add_def iotc_insert_time_event_def Let_def)
  have t': "te_time s' q = te_time s q" for q by (simp add: s' t2)
  have ok': "pos_ok v2 s'" using ok2 by (auto simp: pos_ok_def s')
  have "te_hnd s' (te_time_event_handle (te_at s' q)) = q"
    if q: "q \<in> set (vec_list v2)" and nz: "te_time_event_handle (te_at s' q) \<noteq> NULL" for q
  proof (cases "q = p")
    case True
    with nz show ?thesis by (auto simp: s' th2 ph split: if_splits)
  next
    case False
    with q have "q \<in> set ?ps" by (simp add: l2)
    moreover from False nz have "te_time_event_handle (te_at s q) \<noteq> NULL" by (auto simp: s' th2 split: if_splits)
    ultimately have "te_hnd s (te_time_event_handle (te_at s q)) = q" "q \<noteq> NULL"
      using i unfolding te_inv_def by metis+
    with h False show ?thesis by (auto simp: s' th2 hn2)
  qed
  moreover have "sorted (map (te_time s') (vec_list v2))"
    using sorted_queue_insert [OF srt] by (simp add: t' l2)
  moreover have "NULL \<notin> set (vec_list v2)" using i p(1) by (auto simp: te_inv_def l2)
  ultimately have "te_inv v2 s'" using ok' by (simp add: te_inv_def)
  moreover have "te_event_handle (te_at s' q) = te_event_handle (te_at s q)
      \<and> (q \<noteq> p \<or> h = NULL \<longrightarrow> te_time_event_handle (te_at s' q) = te_time_event_handle (te_at s q))" for q
    by (simp add: s' eh2 th2)
  ultimately show ?thesis using st bl t' l2 hn2 by (simp add: s')
qed

lemma te_add_all:
  assumes g: "grown base v m" and i: "te_inv v s" and p: "p \<noteq> NULL" "p \<notin> set (vec_list v)"
    and ph: "te_time_event_handle (te_at s p) = NULL" and h: "h \<noteq> NULL \<longrightarrow> te_hnd s h = NULL"
    and r: "iotc_time_event_add v s p h m = (st, v', s', m')"
  shows "grown base v' m' \<and> te_inv v' s' \<and> (\<forall>q. te_time s' q = te_time s q
         \<and> te_event_handle (te_at s' q) = te_event_handle (te_at s q)
         \<and> (q \<noteq> p \<or> h = NULL \<longrightarrow> te_time_event_handle (te_at s' q) = te_time_event_handle (te_at s q)))
    \<and> (st = IOTC_STATE_OK \<longrightarrow> vec_list v' = queue_insert (te_time s) p (vec_list v)
         \<and> te_hnd s' = (if h = NULL then te_hnd s else (te_hnd s)(h := p)))
    \<and> (st \<noteq> IOTC_STATE_OK \<longrightarrow> st = IOTC_OUT_OF_MEMORY \<and> v' = v \<and> s' = s)"
proof -
  obtain x v1 m1 where push: "iotc_vector_push v p m = (x, v1, m1)" by (metis prod_cases3)
  note pg = vec_push_grown [OF g push]
  show ?thesis
  proof (cases x)
    case None
    with push r pg(1,2) i show ?thesis
      by (auto simp: iotc_time_event_add_def iotc_insert_time_event_def)
  next
    case (Some k)
    from Some pg(1,3) have l1: "vec_list v1 = vec_list v @ [p]" and inv1: "vec_inv v1" by (simp_all add: grown_def)
    note a = te_add_pushed [OF push [unfolded Some] inv1 l1 i p ph h r]
    then have "pos_ok v' s'" by (simp add: te_inv_def)
    then have "vec_inv v'" by (simp add: pos_ok_def)
    with a grown_same_block [OF pg(1), of v'] show ?thesis by simp
  qed
qed

lemma te_get_top_all:
  assumes i: "te_inv v s" and l: "vec_list v = p # ps"
  shows "\<exists>v' s'. iotc_time_event_get_top v s = (p, v', s') \<and> te_inv v' s' \<and> vec_list v' = ps
    \<and> (\<forall>q. te_time s' q = te_time s q \<and> te_event_handle (te_at s' q) = te_event_handle (te_at s q))
    \<and> te_hnd s' = (if te_time_event_handle (te_at s p) = NULL then te_hnd s
                    else (te_hnd s)(te_time_event_handle (te_at s p) := NULL))"
proof -
  from i have ok: "pos_ok v s" and inv: "vec_inv v" by (auto simp: te_inv_def pos_ok_def)
  from l have l0: "vec_list v = [] @ p # ps" by simp
  note c = vec_list_cell [OF inv l0]
  from move_and_del [OF ok l0] obtain v1 s1 where
    mv: "iotc_time_event_move_to_the_end v s 0 = (v1, s1)"
    and r: "same_keys s s1" "v_elem_no v1 = v_elem_no v"
    and ok2: "pos_ok (iotc_vector_del v1 (v_elem_no v1 - 1)) s1"
    and l2: "vec_list (iotc_vector_del v1 (v_elem_no v1 - 1)) = [] @ ps" by auto
  have "(if v_elem_no v > 1 then (case iotc_time_event_move_to_the_end v s 0 of
            (v', s') \<Rightarrow> (iotc_vector_del v' (v_elem_no v' - 1), s'))
         else (iotc_vector_del v (v_elem_no v - 1), s)) = (iotc_vector_del v1 (v_elem_no v1 - 1), s1)"
    using mv move_at_last [of v 0 s] by auto
  with c have "iotc_time_event_get_top v s =
      (p, iotc_vector_del v1 (v_elem_no v1 - 1), iotc_time_event_dispose_time_event p s1)"
    by (simp add: iotc_time_event_get_top_def Let_def)
  with te_inv_removed [OF i l0 r(1) ok2 l2] l2 dispose_all [of p s1] r(1) show ?thesis
    by (auto simp: same_keys_def Let_def)
qed

lemma te_cancel_all:
  assumes i: "te_inv v s" and l: "vec_list v = us @ p # vs" and h: "te_hnd s h = p"
  shows "\<exists>v' s'. iotc_time_event_cancel v s h = (IOTC_STATE_OK, Some p, v', s') \<and> te_inv v' s'
    \<and> vec_list v' = us @ vs
    \<and> (\<forall>q. te_time s' q = te_time s q \<and> te_event_handle (te_at s' q) = te_event_handle (te_at s q))
    \<and> te_hnd s' = (if te_time_event_handle (te_at s p) = NULL then te_hnd s
                    else (te_hnd s)(te_time_event_handle (te_at s p) := NULL))"
proof -
  from i have ok: "pos_ok v s" and inv: "vec_inv v" by (auto simp: te_inv_def pos_ok_def)
  note c = vec_list_cell [OF inv l]
  have pos: "te_position (te_at s p) = int (length us)" by (rule pos_ok_position [OF ok l])
  from move_and_del [OF ok l] obtain v1 s1 where
    mv: "iotc_time_event_move_to_the_end v s (int (length us)) = (v1, s1)"
    and pc: "v_elems v1 ! nat (v_elem_no v1 - 1) = p"
    and r: "same_keys s s1" "v_elem_no v1 = v_elem_no v"
    and ok2: "pos_ok (iotc_vector_del v1 (v_elem_no v1 - 1)) s1"
    and l2: "vec_list (iotc_vector_del v1 (v_elem_no v1 - 1)) = us @ vs" by auto
  have "(if int (length us) < v_elem_no v - 1 then iotc_time_event_move_to_the_end v s (int (length us))
         else (v, s)) = (v1, s1)"
    using mv move_at_last [of v "int (length us)" s] by auto
  with c pos h pc have "iotc_time_event_cancel v s h = (IOTC_STATE_OK, Some p,
      iotc_vector_del v1 (v_elem_no v1 - 1), iotc_time_event_dispose_time_event p s1)"
    by (simp add: iotc_time_event_cancel_def Let_def)
  with te_inv_removed [OF i l r(1) ok2 l2] l2 dispose_all [of p s1] r(1) show ?thesis
    by (auto simp: same_keys_def Let_def)
qed

lemma te_restart_all:
  assumes i: "te_inv v s" and l: "vec_list v = us @ p # vs" and h: "te_hnd s h = p"
    and r: "iotc_time_event_restart v s h t = (st, v', s')"
  shows "st = IOTC_STATE_OK \<and> te_inv v' s' \<and> te_hnd s' = te_hnd s
    \<and> (\<forall>q. te_time_event_handle (te_at s' q) = te_time_event_handle (te_at s q))
    \<and> (\<forall>q. te_time s' q = (if q = p then t else te_time s q))
    \<and> vec_list v' = (if t < te_time s p then queue_insert ((te_time s)(p := t)) p us @ vs
         else us @ takeWhile (\<lambda>q. te_time s q < t) vs @ p # dropWhile (\<lambda>q. te_time s q < t) vs)"
proof -
  from i have ok: "pos_ok v s" and inv: "vec_inv v" and d: "distinct (us @ p # vs)"
    and srt: "sorted (map (te_time s) (us @ p # vs))" and n: "NULL \<notin> set (us @ p # vs)"
    by (auto simp: te_inv_def pos_ok_def l)
  note c = vec_list_cell [OF inv l]
  have pos: "te_position (te_at s p) = int (length us)" by (rule pos_ok_position [OF ok l])
  let ?s1 = "s\<lparr>te_at := (te_at s)(p := (te_at s p)\<lparr>te_time_of_execution := t\<rparr>)\<rparr>"
  have ok1: "pos_ok v ?s1" using ok by (auto simp: pos_ok_def)
  have t1: "te_time ?s1 q = ((te_time s)(p := t)) q" for q by simp
  have tus: "map (te_time ?s1) us = map (te_time s) us" and tvs: "map (te_time ?s1) vs = map (te_time s) vs"
    using d by auto
  obtain x where rs: "(if t < te_time s p then iotc_time_event_bubble_and_sort_down v ?s1 (int (length us))
      else iotc_time_event_bubble_and_sort_up v ?s1 (int (length us))) = (x, v', s')" and st: "st = IOTC_STATE_OK"
    using r h pos c by (auto simp: iotc_time_event_restart_def Let_def split: prod.splits)
  have res: "pos_ok v' s' \<and> same_keys ?s1 s'
    \<and> vec_list v' = (if t < te_time s p then queue_insert ((te_time s)(p := t)) p us @ vs
         else us @ takeWhile (\<lambda>q. te_time s q < t) vs @ p # dropWhile (\<lambda>q. te_time s q < t) vs)"
  proof (cases "t < te_time s p")
    case True
    have "sorted (map (te_time ?s1) us)" using srt by (simp only: tus) (simp add: sorted_append)
    from bubble_down_result [OF ok1 l this, unfolded t1] rs True
    show ?thesis by (auto simp: fun_upd_def)
  next
    case False
    have w: "takeWhile (\<lambda>q. te_time ?s1 q < te_time ?s1 p) vs = takeWhile (\<lambda>q. te_time s q < t) vs"
      "dropWhile (\<lambda>q. te_time ?s1 q < te_time ?s1 p) vs = dropWhile (\<lambda>q. te_time s q < t) vs"
      using d by (auto intro!: takeWhile_cong dropWhile_cong)
    from bubble_up_result [OF ok1 l, unfolded w] rs False show ?thesis by auto
  qed
  then have ok': "pos_ok v' s'" and k: "same_keys ?s1 s'" by auto
  have t': "te_time s' q = (if q = p then t else te_time s q)" for q using k by (simp add: same_keys_def)
  have th: "te_time_event_handle (te_at s' q) = te_time_event_handle (te_at s q)" for q
    using k by (simp add: same_keys_def)
  have hn: "te_hnd s' = te_hnd s" using k by (simp add: same_keys_def)
  have pu: "p \<notin> set us" "p \<notin> set vs" using d by auto
  have "sorted (map (te_time s') (vec_list v')) \<and> set (vec_list v') = set (us @ p # vs)"
  proof (cases "t < te_time s p")
    case True
    let ?t = "(te_time s)(p := t)"
    have e: "te_time s' = ?t" by (auto simp: t')
    have l': "vec_list v' = queue_insert ?t p us @ vs" using res True by simp
    have mU: "map ?t us = map (te_time s) us" and mV: "map ?t vs = map (te_time s) vs" using pu by auto
    have "sorted (map ?t us)" unfolding mU using srt by (simp add: sorted_append)
    moreover have "sorted (map ?t vs)" unfolding mV using srt by (simp add: sorted_append)
    moreover have "\<forall>x\<in>set us. \<forall>y\<in>set vs. te_time s x \<le> te_time s y" "\<forall>y\<in>set vs. te_time s p \<le> te_time s y"
      using srt by (auto simp: sorted_append)
    ultimately show ?thesis
      using pu True unfolding e l' map_append sorted_append by (auto simp: sorted_queue_insert)
  next
    case False
    let ?A = "takeWhile (\<lambda>q. te_time s q < t) vs" and ?B = "dropWhile (\<lambda>q. te_time s q < t) vs"
    have l': "vec_list v' = us @ ?A @ p # ?B" using res False by simp
    have vs: "vs = ?A @ ?B" by simp
    have sA: "set ?A \<subseteq> set vs" and sB: "set ?B \<subseteq> set vs" by (auto dest: set_takeWhileD set_dropWhileD)
    have mA: "map (te_time s') ?A = map (te_time s) ?A" and mB: "map (te_time s') ?B = map (te_time s) ?B"
      and mU: "map (te_time s') us = map (te_time s) us" using pu sA sB by (auto simp: t')
    have sv: "sorted (map (te_time s) vs)" and uv: "\<forall>x\<in>set us. \<forall>y\<in>set vs. te_time s x \<le> te_time s y"
      and up: "\<forall>x\<in>set us. te_time s x \<le> te_time s p" and su: "sorted (map (te_time s) us)"
      using srt by (auto simp: sorted_append)
    have "sorted (map (te_time s) (?A @ ?B))" using sv by simp
    then have sAB: "sorted (map (te_time s) ?A)" "sorted (map (te_time s) ?B)"
      "\<forall>x\<in>set ?A. \<forall>y\<in>set ?B. te_time s x \<le> te_time s y"
      unfolding map_append sorted_append by auto
    have At: "\<forall>x\<in>set ?A. te_time s x \<le> t" by (auto dest: set_takeWhileD)
    have Bt: "\<forall>x\<in>set ?B. t \<le> te_time s x"
      using dropWhile_sorted_ge [OF sv] by blast
    have "sorted (map (te_time s') (us @ ?A @ p # ?B))"
      unfolding map_append list.map mA mB mU sorted_append
      using su sAB At Bt uv up sA sB False pu by (auto simp: t' sorted_append)
    moreover have "set (us @ ?A @ p # ?B) = set (us @ p # vs)" using vs by (metis set_append list.simps(15) Un_insert_right)
    ultimately show ?thesis by (simp only: l')
  qed
  then have s': "sorted (map (te_time s') (vec_list v'))" and set': "set (vec_list v') = set (us @ p # vs)" by auto
  have "\<forall>q\<in>set (vec_list v'). te_time_event_handle (te_at s' q) \<noteq> NULL \<longrightarrow>
      te_hnd s' (te_time_event_handle (te_at s' q)) = q"
    using i [unfolded te_inv_def l] unfolding set' th hn by blast
  with s' n ok' have "te_inv v' s'" unfolding te_inv_def set' by blast
  with st res t' hn th show ?thesis by blast
qed

section \<open>The contract of a timer queue\<close>

text \<open>
  What the event dispatcher relies on: \<open>evs\<close> is the queue as a list of times and events,
  which \<open>peek\<close> and \<open>pop\<close> read from the front.
\<close>

locale timer_queue =
  fixes ok :: "'s \<Rightarrow> bool"
    and evs :: "'s \<Rightarrow> (int \<times> ptr) list"
    and pop :: "'s \<Rightarrow> ptr \<times> 's"
    and peek :: "'s \<Rightarrow> ptr"
  assumes evs_sorted: "ok s \<Longrightarrow> sorted (map fst (evs s))"
    and evs_not_null: "ok s \<Longrightarrow> (t, p) \<in> set (evs s) \<Longrightarrow> p \<noteq> NULL"
    and peek_first: "ok s \<Longrightarrow> peek s = (case evs s of [] \<Rightarrow> NULL | (t, p) # es \<Rightarrow> p)"
    and pop_first: "ok s \<Longrightarrow> evs s = (t, p) # es \<Longrightarrow> \<exists>s'. pop s = (p, s') \<and> ok s' \<and> evs s' = es"
    and pop_empty: "ok s \<Longrightarrow> evs s = [] \<Longrightarrow> pop s = (NULL, s)"
begin

lemma peek_null_iff: "ok s \<Longrightarrow> peek s = NULL \<longleftrightarrow> evs s = []"
  using evs_not_null peek_first by (cases "evs s") fastforce+

lemma pop_is_min:
  assumes "ok s" and "pop s = (p, s')" and "p \<noteq> NULL"
  shows "\<exists>t. evs s = (t, p) # evs s' \<and> ok s' \<and> (\<forall>(t', q)\<in>set (evs s'). t \<le> t')"
proof (cases "evs s")
  case Nil
  with assms pop_empty show ?thesis by auto
next
  case (Cons e es)
  obtain t q where e: "e = (t, q)" by fastforce
  with Cons pop_first [OF assms(1)] assms(2) have "evs s = (t, p) # evs s'" "ok s'" by auto
  with evs_sorted [OF assms(1)] show ?thesis by auto
qed

end

text \<open>The events taken off one after the other.\<close>

fun pop_n :: "('s \<Rightarrow> ptr \<times> 's) \<Rightarrow> nat \<Rightarrow> 's \<Rightarrow> ptr list \<times> 's" where
  "pop_n pop 0 s = ([], s)"
| "pop_n pop (Suc n) s = (case pop s of (p, s1) \<Rightarrow> case pop_n pop n s1 of (ps, s2) \<Rightarrow> (p # ps, s2))"

context timer_queue
begin

lemma pop_n_takes:
  "ok s \<Longrightarrow> n \<le> length (evs s) \<Longrightarrow>
   \<exists>s'. pop_n pop n s = (map snd (take n (evs s)), s') \<and> ok s' \<and> evs s' = drop n (evs s)"
proof (induction n arbitrary: s)
  case (Suc n)
  then obtain t p es where e: "evs s = (t, p) # es" by (cases "evs s") auto
  from pop_first [OF Suc.prems(1) e] obtain s1 where p: "pop s = (p, s1)" "ok s1" "evs s1 = es" by blast
  from Suc.IH [OF p(2)] Suc.prems(2) e p show ?case by auto
qed simp

end

definition te_events :: "vec \<times> 'e te_store \<Rightarrow> (int \<times> ptr) list" where
  "te_events vs = (case vs of (v, s) \<Rightarrow> map (\<lambda>p. (te_time s p, p)) (vec_list v))"

definition te_ok :: "vec \<times> 'e te_store \<Rightarrow> bool" where
  "te_ok vs = (case vs of (v, s) \<Rightarrow> te_inv v s)"

definition te_pop :: "vec \<times> 'e te_store \<Rightarrow> ptr \<times> vec \<times> 'e te_store" where
  "te_pop vs = (case vs of (v, s) \<Rightarrow> iotc_time_event_get_top v s)"

definition te_peek :: "vec \<times> 'e te_store \<Rightarrow> ptr" where
  "te_peek vs = (case vs of (v, s) \<Rightarrow> iotc_time_event_peek_top v)"

lemma vec_list_empty_iff:
  assumes "vec_inv v"
  shows "vec_list v = [] \<longleftrightarrow> v_elem_no v = 0"
proof -
  have "length (vec_list v) = nat (v_elem_no v)" by (rule vec_list_length [OF assms])
  moreover have "0 \<le> v_elem_no v" using assms by (simp add: vec_inv_def)
  ultimately show ?thesis by (metis length_0_conv nat_0_iff order_antisym_conv order_refl)
qed

lemma peek_top_hd:
  assumes "vec_inv v"
  shows "iotc_time_event_peek_top v = (case vec_list v of [] \<Rightarrow> NULL | p # ps \<Rightarrow> p)"
proof (cases "vec_list v")
  case Nil
  with vec_list_empty_iff [OF assms] show ?thesis by (simp add: iotc_time_event_peek_top_def)
next
  case (Cons p ps)
  then have "vec_list v = [] @ p # ps" by simp
  from vec_list_cell [OF assms this] Cons show ?thesis by (simp add: iotc_time_event_peek_top_def)
qed

interpretation timers: timer_queue te_ok te_events te_pop te_peek
proof (unfold_locales, goal_cases)
  case (1 s)
  then show ?case by (auto simp: te_ok_def te_events_def te_inv_def comp_def split: prod.splits)
next
  case (2 s t p)
  then have "p \<in> set (vec_list (fst s))" "NULL \<notin> set (vec_list (fst s))"
    by (auto simp: te_ok_def te_events_def te_inv_def split: prod.splits)
  then show ?case by metis
next
  case (3 s)
  obtain v x where s: "s = (v, x)" by fastforce
  with 3 have "vec_inv v" by (simp add: te_ok_def te_inv_def pos_ok_def)
  from peek_top_hd [OF this] s show ?case by (simp add: te_peek_def te_events_def split: list.splits)
next
  case (4 s t p es)
  obtain v x where s: "s = (v, x)" by fastforce
  with 4 obtain ps where i: "te_inv v x" and l: "vec_list v = p # ps"
    and es: "es = map (\<lambda>p. (te_time x p, p)) ps"
    by (auto simp: te_ok_def te_events_def)
  from te_get_top_all [OF i l] s es show ?case
    by (auto simp: te_pop_def te_ok_def te_events_def)
next
  case (5 s)
  obtain v x where s: "s = (v, x)" by fastforce
  with 5 have "vec_inv v" "vec_list v = []" by (simp_all add: te_ok_def te_events_def te_inv_def pos_ok_def)
  with vec_list_empty_iff s show ?case by (auto simp: te_pop_def iotc_time_event_get_top_def)
qed

section \<open>Properties\<close>

lemma filter_queue_insert:
  assumes "sorted (map t qs)"
  shows "filter (\<lambda>q. t q = k) (queue_insert t p qs) = filter (\<lambda>q. t q = k) (qs @ [p])"
proof -
  define us vs where uv: "us = takeWhile (\<lambda>q. t q \<le> t p) qs" "vs = dropWhile (\<lambda>q. t q \<le> t p) qs"
  then have "qs = us @ vs" by simp
  moreover have "\<forall>x\<in>set vs. t p < t x" using dropWhile_sorted_gt [OF assms] by (auto simp: uv)
  then have "t p = k \<Longrightarrow> filter (\<lambda>q. t q = k) vs = []" by (auto simp: filter_empty_conv)
  moreover have "queue_insert t p qs = us @ p # vs" by (simp add: queue_insert_def uv)
  ultimately show ?thesis by auto
qed

lemma mset_queue_insert: "mset (queue_insert t p qs) = add_mset p (mset qs)"
proof -
  have "mset (takeWhile P qs) + mset (dropWhile P qs) = mset qs" for P
    by (metis mset_append takeWhile_dropWhile_id)
  then show ?thesis by (simp add: queue_insert_def)
qed

lemma fold_queue_insert:
  "sorted (map t (fold (queue_insert t) ps []))
   \<and> mset (fold (queue_insert t) ps []) = mset ps
   \<and> (\<forall>k. filter (\<lambda>q. t q = k) (fold (queue_insert t) ps []) = filter (\<lambda>q. t q = k) ps)"
proof (induction ps rule: rev_induct)
  case (snoc p ps)
  then show ?case
    by (simp add: sorted_queue_insert mset_queue_insert filter_queue_insert)
qed simp

lemma queue_insert_is_stable_sort: "fold (queue_insert t) ps [] = sort_key t ps"
proof (rule properties_for_sort_key [symmetric])
  fix k
  have "(\<lambda>x. t k = t x) = (\<lambda>q. t q = t k)" by auto
  then show "filter (\<lambda>x. t k = t x) (fold (queue_insert t) ps []) = filter (\<lambda>x. t k = t x) ps"
    using fold_queue_insert [of t ps] by simp
qed (use fold_queue_insert [of t ps] in auto)

lemma vec_push_ok_oracle:
  "iotc_vector_push v x m = (r, v', m') \<Longrightarrow> m_ok m' = m_ok m"
  using vec_realloc_ok_oracle
  by (auto simp: iotc_vector_push_def Let_def split: prod.splits bool.splits if_splits)

lemma te_add_granted:
  assumes "grown base v m" and "\<forall>i n. n < 2 ^ 63 \<longrightarrow> m_ok m i n" and "v_elem_no v < 64"
    and "iotc_time_event_add v s p h m = (st, v', s', m')"
  shows "st = IOTC_STATE_OK \<and> m_ok m' = m_ok m"
proof -
  obtain x v1 m1 where push: "iotc_vector_push v p m = (x, v1, m1)" by (metis prod_cases3)
  from vec_push_granted [OF assms(1-3) push] obtain k where "x = Some k" by auto
  moreover have "m_ok m1 = m_ok m" by (rule vec_push_ok_oracle [OF push])
  ultimately show ?thesis using assms(4) push
    by (auto simp: iotc_time_event_add_def iotc_insert_time_event_def Let_def split: prod.splits)
qed

text \<open>Events without a handle, added one after the other.\<close>

fun te_adds :: "vec \<Rightarrow> 'e te_store \<Rightarrow> ptr list \<Rightarrow> mem \<Rightarrow> bool \<times> vec \<times> 'e te_store \<times> mem" where
  "te_adds v s [] m = (True, v, s, m)"
| "te_adds v s (p # ps) m =
     (case iotc_time_event_add v s p NULL m of (st, v1, s1, m1) \<Rightarrow>
        if st = IOTC_STATE_OK then te_adds v1 s1 ps m1 else (False, v1, s1, m1))"

lemma length_queue_insert [simp]: "length (queue_insert t p qs) = Suc (length qs)"
  using mset_queue_insert [of t p qs] by (metis size_add_mset size_mset)

lemma te_adds_all:
  assumes "grown base v m" and "\<forall>i n. n < 2 ^ 63 \<longrightarrow> m_ok m i n"
    and "te_inv v s" and "distinct ps" and "set ps \<inter> set (vec_list v) = {}"
    and "length (vec_list v) + length ps \<le> 64"
    and "\<forall>p\<in>set ps. p \<noteq> NULL \<and> te_time_event_handle (te_at s p) = NULL"
  shows "\<exists>v' s' m'. te_adds v s ps m = (True, v', s', m') \<and> te_inv v' s' \<and> (\<forall>q. te_time s' q = te_time s q)
    \<and> vec_list v' = fold (queue_insert (te_time s)) ps (vec_list v)"
  using assms
proof (induction ps arbitrary: v s m)
  case (Cons p ps)
  obtain st v1 s1 m1 where a: "iotc_time_event_add v s p NULL m = (st, v1, s1, m1)" by (metis prod_cases4)
  have "length (vec_list v) = nat (v_elem_no v)"
    using Cons.prems(1) by (simp add: grown_def)
  with Cons.prems(6) have "v_elem_no v < 64" by simp
  from te_add_granted [OF Cons.prems(1,2) this a] have st: "st = IOTC_STATE_OK" and ok: "m_ok m1 = m_ok m"
    by auto
  from te_add_all [OF Cons.prems(1,3) _ _ _ _ a] Cons.prems(5,7) st
  have x: "grown base v1 m1" "te_inv v1 s1" "\<forall>q. te_time s1 q = te_time s q"
    "vec_list v1 = queue_insert (te_time s) p (vec_list v)"
    "\<forall>q. te_time_event_handle (te_at s1 q) = te_time_event_handle (te_at s q)" by auto
  have t: "te_time s1 = te_time s" using x(3) by auto
  have i: "set ps \<inter> set (vec_list v1) = {}" using Cons.prems(4,5) x(4) by auto
  have l: "length (vec_list v1) + length ps \<le> 64" using Cons.prems(6) x(4) by simp
  have h: "\<forall>p\<in>set ps. p \<noteq> NULL \<and> te_time_event_handle (te_at s1 p) = NULL"
    using Cons.prems(7) x(5) by simp
  from Cons.IH [OF x(1) _ x(2) _ i l h] Cons.prems(2,4) ok x(3,4) t a st show ?case by simp
qed simp

text \<open>
  C29. The queue of delayed events is a stable sort: up to 64 events added to an empty queue in the
  order \<open>ps\<close>, with a \<open>malloc\<close> that grants requests of reasonable size, are all
  accepted and come out of \<^verbatim>\<open>iotc_time_event_get_top\<close> sorted by their time of
  execution, those with equal times in the order in which they were added; the queue is then empty.
\<close>

theorem time_events_stable_order:
  assumes "grown base v m" and "\<forall>i n. n < 2 ^ 63 \<longrightarrow> m_ok m i n" and "te_inv v s"
    and "vec_list v = []" and "distinct ps" and "length ps \<le> 64"
    and "\<forall>p\<in>set ps. p \<noteq> NULL \<and> te_time_event_handle (te_at s p) = NULL"
  shows "\<exists>v' s' m' v'' s''. te_adds v s ps m = (True, v', s', m')
    \<and> pop_n te_pop (length ps) (v', s') = (sort_key (te_time s) ps, v'', s'')
    \<and> te_inv v'' s'' \<and> vec_list v'' = []"
proof -
  from te_adds_all [OF assms(1,2,3,5) _ _ assms(7)] assms(4,6) obtain v' s' m' where
    a: "te_adds v s ps m = (True, v', s', m')" and i: "te_inv v' s'"
    and t: "\<forall>q. te_time s' q = te_time s q" and l: "vec_list v' = sort_key (te_time s) ps"
    by (auto simp: queue_insert_is_stable_sort)
  have "te_ok (v', s')" "length (te_events (v', s')) = length ps" using i l by (simp_all add: te_ok_def te_events_def)
  with timers.pop_n_takes [of "(v', s')" "length ps"] obtain y where
    "pop_n te_pop (length ps) (v', s') = (map snd (take (length ps) (te_events (v', s'))), y)"
    "te_ok y" "te_events y = []" by auto
  with a l show ?thesis by (cases y) (auto simp: te_ok_def te_events_def comp_def)
qed

definition example_store :: "unit te_store" where
  "example_store = \<lparr>te_at = (\<lambda>p. \<lparr>te_event_handle = (), te_time_of_execution = int p mod 3,
      te_position = - 1, te_time_event_handle = NULL\<rparr>), te_hnd = (\<lambda>h. NULL)\<rparr>"

theorem time_events_stable_order_witness:
  "\<exists>v m v' s' m' v'' s''. grown Map.empty v m \<and> vec_list v = []
    \<and> te_adds v example_store [5, 4, 8, 7, 3] m = (True, v', s', m')
    \<and> pop_n te_pop 5 (v', s') = ([3, 4, 7, 5, 8], v'', s'')"
proof -
  obtain v m where g: "grown Map.empty v m" "vec_list v = []" and ok: "m_ok m = (\<lambda>i n. n < 2 ^ 63)"
    by (rule fresh_vec)
  have i: "te_inv v example_store" using g by (simp add: te_inv_def pos_ok_def grown_def)
  have h: "\<forall>p\<in>set [5, 4, 8, 7, 3]. p \<noteq> NULL \<and> te_time_event_handle (te_at example_store p) = NULL"
    by (simp add: example_store_def)
  have srt: "sort_key (te_time example_store) [5, 4, 8, 7, 3] = [3, 4, 7, 5, 8]"
    by (simp add: example_store_def)
  have ok': "\<forall>i n. n < 2 ^ 63 \<longrightarrow> m_ok m i n" by (simp add: ok)
  have d: "distinct [5, 4, 8, 7, 3 :: nat]" and n: "length [5, 4, 8, 7, 3 :: nat] \<le> 64"
    and n5: "length [5, 4, 8, 7, 3 :: nat] = 5" by simp_all
  from time_events_stable_order [OF g(1) ok' i g(2) d n h, unfolded srt n5] g show ?thesis by blast
qed

text \<open>
  Cancelling through a handle takes exactly the event out of the queue that the handle was
  given for, wherever reorderings have moved it; the order of all the others and their handles
  stay, the invariant of the queue is kept, and the handle is cleared.
\<close>

theorem time_event_cancel_exact:
  assumes "te_inv v s" and "p \<in> set (vec_list v)" and "te_hnd s h = p" and "te_time_event_handle (te_at s p) = h"
    and "h \<noteq> NULL"
  shows "\<exists>v' s'. iotc_time_event_cancel v s h = (IOTC_STATE_OK, Some p, v', s')
    \<and> te_inv v' s' \<and> vec_list v' = remove1 p (vec_list v) \<and> te_hnd s' = (te_hnd s)(h := NULL)"
proof -
  obtain us vs where l: "vec_list v = us @ p # vs" using assms(2) by (meson split_list)
  with assms(1) have "p \<notin> set us" by (auto simp: te_inv_def pos_ok_def)
  then have "remove1 p (vec_list v) = us @ vs" by (simp add: l remove1_append)
  with te_cancel_all [OF assms(1) l assms(3)] assms(4,5) show ?thesis by auto
qed

text \<open>
  Restarting an event through its handle re-keys that event only: the queue holds the same
  events, sorted by the times with the one changed, and every handle still leads to its event.
\<close>

theorem time_event_restart_correct:
  assumes "te_inv v s" and "p \<in> set (vec_list v)" and "te_hnd s h = p"
    and "iotc_time_event_restart v s h t = (st, v', s')"
  shows "st = IOTC_STATE_OK \<and> te_inv v' s' \<and> mset (vec_list v') = mset (vec_list v)
    \<and> (\<forall>q. te_time s' q = (if q = p then t else te_time s q)) \<and> te_hnd s' = te_hnd s"
proof -
  obtain us vs where l: "vec_list v = us @ p # vs" using assms(2) by (meson split_list)
  note r = te_restart_all [OF assms(1) l assms(3,4)]
  have "mset (takeWhile P vs) + mset (dropWhile P vs) = mset vs" for P
    by (metis mset_append takeWhile_dropWhile_id)
  then have "mset (vec_list v') = mset (vec_list v)"
    using r l by (cases "t < te_time s p") (simp_all add: mset_queue_insert)
  with r show ?thesis by blast
qed

text \<open>Two events with handles, the later one added first.\<close>

definition two_events :: "vec \<times> unit te_store" where
  "two_events =
     (\<lparr>v_self = 1, v_array = 2, v_elems = [11, 10], v_elem_no = 2, v_capacity = 2,
       v_memory_type = IOTC_MEMORY_TYPE_MANAGED\<rparr>,
      \<lparr>te_at = (\<lambda>p. \<lparr>te_event_handle = (), te_time_of_execution = (if p = 10 then 9 else 4),
           te_position = (if p = 10 then 1 else 0), te_time_event_handle = p + 10\<rparr>),
       te_hnd = (\<lambda>h. h - 10)\<rparr>)"

lemma two_events_inv: "te_inv (fst two_events) (snd two_events)"
  by (simp add: te_inv_def pos_ok_def two_events_def vec_inv_def vec_list_def less_Suc_eq numeral_2_eq_2)

theorem time_event_cancel_exact_witness:
  "\<exists>v' s'. iotc_time_event_cancel (fst two_events) (snd two_events) 21 = (IOTC_STATE_OK, Some 11, v', s')
    \<and> te_inv v' s' \<and> vec_list v' = [10]"
proof -
  have m: "11 \<in> set (vec_list (fst two_events))" and h: "te_hnd (snd two_events) 21 = 11"
    and th: "te_time_event_handle (te_at (snd two_events) 11) = 21"
    and r: "remove1 11 (vec_list (fst two_events)) = [10]"
    by (simp_all add: two_events_def vec_list_def numeral_2_eq_2)
  from time_event_cancel_exact [OF two_events_inv m h th] r show ?thesis by auto
qed

theorem time_event_restart_correct_witness:
  "\<exists>v' s'. iotc_time_event_restart (fst two_events) (snd two_events) 20 2 = (IOTC_STATE_OK, v', s')
    \<and> te_inv v' s' \<and> te_time s' 10 = 2"
proof -
  have m: "10 \<in> set (vec_list (fst two_events))" and h: "te_hnd (snd two_events) 20 = 10"
    by (simp_all add: two_events_def vec_list_def numeral_2_eq_2)
  obtain st v' s' where r: "iotc_time_event_restart (fst two_events) (snd two_events) 20 2 = (st, v', s')"
    by (metis prod_cases3)
  from time_event_restart_correct [OF two_events_inv m h r] r show ?thesis by auto
qed

end
