(* ===== verification/Iotc_Event_Handle.thy ===== *)
theory Iotc_Event_Handle
  imports Iotc_Mem
begin

text \<open>
  Event handles, \<^verbatim>\<open>src/libiotc/event_dispatcher/iotc_event_handle.c\<close>: a function pointer with
  up to six arguments, the number of which is the type of the handle. The structures of the
  union all begin with the function pointer and continue with the arguments, so the union is a
  function and the list of the arguments that were stored; a structure with \<open>k\<close> arguments reads
  the first \<open>k\<close> of them.
\<close>

datatype event_handle_argc =
    IOTC_EVENT_HANDLE_UNSET
  | IOTC_EVENT_HANDLE_ARGC0
  | IOTC_EVENT_HANDLE_ARGC1
  | IOTC_EVENT_HANDLE_ARGC2
  | IOTC_EVENT_HANDLE_ARGC3
  | IOTC_EVENT_HANDLE_ARGC4
  | IOTC_EVENT_HANDLE_ARGC5
  | IOTC_EVENT_HANDLE_ARGC6

record event_handle =
  handle_type :: event_handle_argc
  h_fn :: ptr
  h_args :: "nat list"
  target_tid :: nat

definition sizeof_event_handle :: nat where
  "sizeof_event_handle = 72"

definition IOTC_THREADID_MAINTHREAD :: nat where
  "IOTC_THREADID_MAINTHREAD = 251"

definition iotc_make_empty_handle_impl :: "nat \<Rightarrow> event_handle" where
  "iotc_make_empty_handle_impl tid =
     \<lparr>handle_type = IOTC_EVENT_HANDLE_UNSET, h_fn = NULL, h_args = [], target_tid = tid\<rparr>"

definition iotc_make_handle_argc0 :: "nat \<Rightarrow> ptr \<Rightarrow> event_handle" where
  "iotc_make_handle_argc0 tid fn_ptr =
     \<lparr>handle_type = IOTC_EVENT_HANDLE_ARGC0, h_fn = fn_ptr, h_args = [], target_tid = tid\<rparr>"

definition iotc_make_handle_argc1 :: "nat \<Rightarrow> ptr \<Rightarrow> nat \<Rightarrow> event_handle" where
  "iotc_make_handle_argc1 tid fn_ptr a1 =
     \<lparr>handle_type = IOTC_EVENT_HANDLE_ARGC1, h_fn = fn_ptr, h_args = [a1], target_tid = tid\<rparr>"

definition iotc_make_handle_argc2 :: "nat \<Rightarrow> ptr \<Rightarrow> nat \<Rightarrow> nat \<Rightarrow> event_handle" where
  "iotc_make_handle_argc2 tid fn_ptr a1 a2 =
     \<lparr>handle_type = IOTC_EVENT_HANDLE_ARGC2, h_fn = fn_ptr, h_args = [a1, a2], target_tid = tid\<rparr>"

definition iotc_make_handle_argc3 :: "nat \<Rightarrow> ptr \<Rightarrow> nat \<Rightarrow> nat \<Rightarrow> nat \<Rightarrow> event_handle" where
  "iotc_make_handle_argc3 tid fn_ptr a1 a2 a3 =
     \<lparr>handle_type = IOTC_EVENT_HANDLE_ARGC3, h_fn = fn_ptr, h_args = [a1, a2, a3], target_tid = tid\<rparr>"

definition iotc_make_handle_argc4 :: "nat \<Rightarrow> ptr \<Rightarrow> nat \<Rightarrow> nat \<Rightarrow> nat \<Rightarrow> nat \<Rightarrow> event_handle" where
  "iotc_make_handle_argc4 tid fn_ptr a1 a2 a3 a4 =
     \<lparr>handle_type = IOTC_EVENT_HANDLE_ARGC4, h_fn = fn_ptr, h_args = [a1, a2, a3, a4],
      target_tid = tid\<rparr>"

definition iotc_make_handle_argc5 ::
    "nat \<Rightarrow> ptr \<Rightarrow> nat \<Rightarrow> nat \<Rightarrow> nat \<Rightarrow> nat \<Rightarrow> nat \<Rightarrow> event_handle" where
  "iotc_make_handle_argc5 tid fn_ptr a1 a2 a3 a4 a5 =
     \<lparr>handle_type = IOTC_EVENT_HANDLE_ARGC5, h_fn = fn_ptr, h_args = [a1, a2, a3, a4, a5],
      target_tid = tid\<rparr>"

definition iotc_make_handle_argc6 ::
    "nat \<Rightarrow> ptr \<Rightarrow> nat \<Rightarrow> nat \<Rightarrow> nat \<Rightarrow> nat \<Rightarrow> nat \<Rightarrow> nat \<Rightarrow> event_handle" where
  "iotc_make_handle_argc6 tid fn_ptr a1 a2 a3 a4 a5 a6 =
     \<lparr>handle_type = IOTC_EVENT_HANDLE_ARGC6, h_fn = fn_ptr, h_args = [a1, a2, a3, a4, a5, a6],
      target_tid = tid\<rparr>"

text \<open>\<open>pointer\<close> is the variable the result goes to, \<open>None\<close> a null address of it; the block's
  contents are the second component.\<close>

definition iotc_pointerize_handle ::
    "event_handle \<Rightarrow> ptr option \<Rightarrow> mem \<Rightarrow> iotc_state \<times> (ptr \<times> event_handle) option \<times> mem" where
  "iotc_pointerize_handle handle pointer m =
     (case pointer of
        None \<Rightarrow> (IOTC_INVALID_PARAMETER, None, m)
      | Some p \<Rightarrow>
          if p \<noteq> NULL then (IOTC_INVALID_PARAMETER, None, m)
          else
            (case iotc_alloc sizeof_event_handle m of (q, m1) \<Rightarrow>
               if q = NULL then (IOTC_OUT_OF_MEMORY, None, m1)
               else (IOTC_STATE_OK, Some (q, handle), m1)))"

definition iotc_dispose_handle :: "event_handle \<Rightarrow> event_handle" where
  "iotc_dispose_handle handle =
     (let zeroed = \<lparr>handle_type = IOTC_EVENT_HANDLE_UNSET, h_fn = NULL, h_args = [], target_tid = 0\<rparr>
      in zeroed\<lparr>handle_type := IOTC_EVENT_HANDLE_UNSET\<rparr>)"

definition iotc_handle_disposed :: "event_handle \<Rightarrow> bool" where
  "iotc_handle_disposed handle \<longleftrightarrow> handle_type handle = IOTC_EVENT_HANDLE_UNSET"

text \<open>\<^verbatim>\<open>iotc_evtd_execute_handle\<close> of the dispatcher: \<open>call\<close> is what the function behind a
  pointer does to the state \<open>'s\<close> when called with a list of arguments.\<close>

definition iotc_evtd_execute_handle ::
    "(ptr \<Rightarrow> nat list \<Rightarrow> 's \<Rightarrow> iotc_state \<times> 's) \<Rightarrow> event_handle \<Rightarrow> 's \<Rightarrow> iotc_state \<times> 's" where
  "iotc_evtd_execute_handle call handle s =
     (case handle_type handle of
        IOTC_EVENT_HANDLE_ARGC0 \<Rightarrow> call (h_fn handle) (take 0 (h_args handle)) s
      | IOTC_EVENT_HANDLE_ARGC1 \<Rightarrow> call (h_fn handle) (take 1 (h_args handle)) s
      | IOTC_EVENT_HANDLE_ARGC2 \<Rightarrow> call (h_fn handle) (take 2 (h_args handle)) s
      | IOTC_EVENT_HANDLE_ARGC3 \<Rightarrow> call (h_fn handle) (take 3 (h_args handle)) s
      | IOTC_EVENT_HANDLE_ARGC4 \<Rightarrow> call (h_fn handle) (take 4 (h_args handle)) s
      | IOTC_EVENT_HANDLE_ARGC5 \<Rightarrow> call (h_fn handle) (take 5 (h_args handle)) s
      | IOTC_EVENT_HANDLE_ARGC6 \<Rightarrow> call (h_fn handle) (take 6 (h_args handle)) s
      | IOTC_EVENT_HANDLE_UNSET \<Rightarrow> (IOTC_UNSET_HANDLER_ERROR, s))"

text \<open>The number of arguments a handle passes on.\<close>

primrec argc_count :: "event_handle_argc \<Rightarrow> nat" where
  "argc_count IOTC_EVENT_HANDLE_UNSET = 0"
| "argc_count IOTC_EVENT_HANDLE_ARGC0 = 0"
| "argc_count IOTC_EVENT_HANDLE_ARGC1 = 1"
| "argc_count IOTC_EVENT_HANDLE_ARGC2 = 2"
| "argc_count IOTC_EVENT_HANDLE_ARGC3 = 3"
| "argc_count IOTC_EVENT_HANDLE_ARGC4 = 4"
| "argc_count IOTC_EVENT_HANDLE_ARGC5 = 5"
| "argc_count IOTC_EVENT_HANDLE_ARGC6 = 6"

lemma execute_handle_call:
  "iotc_evtd_execute_handle call h s =
    (if iotc_handle_disposed h then (IOTC_UNSET_HANDLER_ERROR, s)
     else call (h_fn h) (take (argc_count (handle_type h)) (h_args h)) s)"
  by (simp add: iotc_evtd_execute_handle_def iotc_handle_disposed_def split: event_handle_argc.split)

lemma dispose_disposed [simp]: "iotc_handle_disposed (iotc_dispose_handle h)"
  by (simp add: iotc_handle_disposed_def iotc_dispose_handle_def)

text \<open>
  Executing a handle that one of the constructors made calls its function once with exactly
  the arguments that were stored, whatever their number, and passes its result and its effect
  on; an empty or a disposed handle calls nothing and reports
  \<^verbatim>\<open>IOTC_UNSET_HANDLER_ERROR\<close>.
\<close>

theorem execute_handle_passes_arguments:
  "iotc_evtd_execute_handle call (iotc_make_handle_argc0 t f) s = call f [] s
   \<and> iotc_evtd_execute_handle call (iotc_make_handle_argc1 t f a1) s = call f [a1] s
   \<and> iotc_evtd_execute_handle call (iotc_make_handle_argc2 t f a1 a2) s = call f [a1, a2] s
   \<and> iotc_evtd_execute_handle call (iotc_make_handle_argc3 t f a1 a2 a3) s = call f [a1, a2, a3] s
   \<and> iotc_evtd_execute_handle call (iotc_make_handle_argc4 t f a1 a2 a3 a4) s =
       call f [a1, a2, a3, a4] s
   \<and> iotc_evtd_execute_handle call (iotc_make_handle_argc5 t f a1 a2 a3 a4 a5) s =
       call f [a1, a2, a3, a4, a5] s
   \<and> iotc_evtd_execute_handle call (iotc_make_handle_argc6 t f a1 a2 a3 a4 a5 a6) s =
       call f [a1, a2, a3, a4, a5, a6] s
   \<and> iotc_evtd_execute_handle call (iotc_make_empty_handle_impl t) s = (IOTC_UNSET_HANDLER_ERROR, s)
   \<and> iotc_evtd_execute_handle call (iotc_dispose_handle h) s = (IOTC_UNSET_HANDLER_ERROR, s)"
  by (simp add: iotc_evtd_execute_handle_def iotc_make_handle_argc0_def iotc_make_handle_argc1_def
      iotc_make_handle_argc2_def iotc_make_handle_argc3_def iotc_make_handle_argc4_def
      iotc_make_handle_argc5_def iotc_make_handle_argc6_def iotc_make_empty_handle_impl_def
      iotc_dispose_handle_def)

end
