(* ===== verification/Iotc_Dispatcher.thy ===== *)
theory Iotc_Dispatcher
  imports Iotc_List Iotc_Time_Event Iotc_Event_Handle
begin

text \<open>
  The event dispatcher, \<^verbatim>\<open>src/libiotc/event_dispatcher/iotc_event_dispatcher.c\<close>: a queue of
  calls to make, a queue of delayed calls, and two tables of file descriptors with the handle to run when
  an event comes in. All of it is guarded by a critical section, which is the spin lock of
  \<^verbatim>\<open>platform/posix/iotc_thread/iotc_posix_critical_section.c\<close>.

  The state is the dispatcher's instance together with the stores its pointers lead into and
  the heap; the record is extensible, and the extension is the state of the rest of the program. A handler
  works on all of it: \<open>call f args s\<close> is what the function \<open>f\<close> does. A function whose loop need
  not end returns an option.
\<close>

datatype evtd_fd_type = IOTC_EVTD_FD_TYPE_SOCKET | IOTC_EVTD_FD_TYPE_FILE

text \<open>The events are the bits of a set.\<close>

definition IOTC_EVTD_NO_EVENT :: nat where "IOTC_EVTD_NO_EVENT = 2 ^ 0"
definition IOTC_EVENT_WANT_READ :: nat where "IOTC_EVENT_WANT_READ = 2 ^ 1"
definition IOTC_EVENT_WANT_WRITE :: nat where "IOTC_EVENT_WANT_WRITE = 2 ^ 2"
definition IOTC_EVENT_ERROR :: nat where "IOTC_EVENT_ERROR = 2 ^ 3"
definition IOTC_EVENT_WANT_CONNECT :: nat where "IOTC_EVENT_WANT_CONNECT = 2 ^ 4"

record fd_tuple =
  t_fd :: int
  t_handle :: event_handle
  t_read_handle :: event_handle
  t_event_type :: nat
  t_fd_type :: evtd_fd_type

record evtd =
  ev_self :: ptr
  ev_current_step :: int
  ev_timers :: vec
  ev_te :: "event_handle te_store"
  ev_call_queue :: ptr
  ev_next :: next_store
  ev_queued :: "ptr \<Rightarrow> event_handle"
  ev_cs :: ptr
  ev_cs_state :: bool
  ev_spins :: bool
  ev_sockets :: vec
  ev_files :: vec
  ev_fd :: "ptr \<Rightarrow> fd_tuple"
  ev_on_empty :: event_handle
  ev_stop :: bool
  ev_mem :: mem

type_synonym 'z caller = "ptr \<Rightarrow> nat list \<Rightarrow> 'z evtd_scheme \<Rightarrow> iotc_state \<times> 'z evtd_scheme"

definition sizeof_fd_tuple :: nat where "sizeof_fd_tuple = 160"
definition sizeof_time_event :: nat where "sizeof_time_event = 96"
definition sizeof_event_handle_queue :: nat where "sizeof_event_handle_queue = 80"
definition sizeof_evtd_instance :: nat where "sizeof_evtd_instance = 128"
definition sizeof_critical_section :: nat where "sizeof_critical_section = 4"

section \<open>The critical section\<close>

text \<open>A compare-and-swap loop on a state that no other thread changes never ends; the flag
  \<open>ev_spins\<close> records that.\<close>

definition iotc_lock_critical_section :: "'z evtd_scheme \<Rightarrow> 'z evtd_scheme" where
  "iotc_lock_critical_section s =
     (if ev_cs_state s then s\<lparr>ev_spins := True\<rparr> else s\<lparr>ev_cs_state := True\<rparr>)"

definition iotc_unlock_critical_section :: "'z evtd_scheme \<Rightarrow> 'z evtd_scheme" where
  "iotc_unlock_critical_section s =
     (if ev_cs_state s then s\<lparr>ev_cs_state := False\<rparr> else s\<lparr>ev_spins := True\<rparr>)"

section \<open>File descriptors\<close>

text \<open>The container argument of the C functions is one of the two vectors of the instance.\<close>

datatype fd_container = handles_and_socket_fd | handles_and_file_fd

primrec get_container :: "fd_container \<Rightarrow> 'z evtd_scheme \<Rightarrow> vec" where
  "get_container handles_and_socket_fd s = ev_sockets s"
| "get_container handles_and_file_fd s = ev_files s"

primrec set_container :: "fd_container \<Rightarrow> vec \<Rightarrow> 'z evtd_scheme \<Rightarrow> 'z evtd_scheme" where
  "set_container handles_and_socket_fd v s = s\<lparr>ev_sockets := v\<rparr>"
| "set_container handles_and_file_fd v s = s\<lparr>ev_files := v\<rparr>"

text \<open>\<^verbatim>\<open>iotc_evtd_cmp_fd\<close> compares the descriptor of the tuple that a cell points to.\<close>

definition iotc_evtd_find_fd :: "fd_container \<Rightarrow> int \<Rightarrow> 'z evtd_scheme \<Rightarrow> int" where
  "iotc_evtd_find_fd container fd s =
     iotc_vector_find (get_container container s) 0 (\<lambda>e0 value. t_fd (ev_fd s e0) = fd)"

definition iotc_evtd_register_fd ::
    "fd_container \<Rightarrow> nat \<Rightarrow> evtd_fd_type \<Rightarrow> int \<Rightarrow> event_handle \<Rightarrow> event_handle \<Rightarrow> 'z evtd_scheme \<Rightarrow>
     int \<times> 'z evtd_scheme" where
  "iotc_evtd_register_fd container event_type fd_type fd read_handle current_handle s =
     (let s1 = iotc_lock_critical_section s
      in case iotc_alloc sizeof_fd_tuple (ev_mem s1) of (tuple, m1) \<Rightarrow>
        if tuple = NULL
        then (0, iotc_unlock_critical_section (s1\<lparr>ev_mem := IOTC_SAFE_FREE tuple m1\<rparr>))
        else
          (let s2 = s1\<lparr>ev_mem := m1, ev_fd := (ev_fd s1)(tuple :=
                 \<lparr>t_fd = fd, t_handle = current_handle, t_read_handle = read_handle,
                  t_event_type = event_type, t_fd_type = fd_type\<rparr>)\<rparr>
           in case iotc_vector_push (get_container container s2) tuple (ev_mem s2) of
                (None, v, m2) \<Rightarrow>
                  (0, iotc_unlock_critical_section
                        ((set_container container v s2)\<lparr>ev_mem := IOTC_SAFE_FREE tuple m2\<rparr>))
              | (Some e, v, m2) \<Rightarrow>
                  (1, iotc_unlock_critical_section ((set_container container v s2)\<lparr>ev_mem := m2\<rparr>))))"

definition iotc_evtd_register_file_fd ::
    "nat \<Rightarrow> int \<Rightarrow> event_handle \<Rightarrow> 'z evtd_scheme \<Rightarrow> int \<times> 'z evtd_scheme" where
  "iotc_evtd_register_file_fd event_type fd handle s =
     iotc_evtd_register_fd handles_and_file_fd event_type IOTC_EVTD_FD_TYPE_FILE fd handle handle s"

definition iotc_evtd_register_socket_fd ::
    "int \<Rightarrow> event_handle \<Rightarrow> 'z evtd_scheme \<Rightarrow> int \<times> 'z evtd_scheme" where
  "iotc_evtd_register_socket_fd fd read_handle s =
     iotc_evtd_register_fd handles_and_socket_fd IOTC_EVENT_WANT_READ IOTC_EVTD_FD_TYPE_SOCKET fd
       read_handle read_handle s"

text \<open>The cell is cleared by \<^verbatim>\<open>IOTC_SAFE_FREE\<close> before the element is deleted.\<close>

definition iotc_evtd_unregister_fd ::
    "fd_container \<Rightarrow> int \<Rightarrow> 'z evtd_scheme \<Rightarrow> int \<times> 'z evtd_scheme" where
  "iotc_evtd_unregister_fd container fd s =
     (let s1 = iotc_lock_critical_section s;
          id = iotc_evtd_find_fd container fd s1;
          v = get_container container s1
      in if id \<noteq> - 1 then
           (let m1 = IOTC_SAFE_FREE (v_elems v ! nat id) (ev_mem s1);
                v1 = v\<lparr>v_elems := (v_elems v)[nat id := NULL]\<rparr>;
                s2 = (set_container container (iotc_vector_del v1 id) s1)\<lparr>ev_mem := m1\<rparr>
            in (1, iotc_unlock_critical_section s2))
         else (- 1, iotc_unlock_critical_section s1))"

definition iotc_evtd_unregister_file_fd :: "int \<Rightarrow> 'z evtd_scheme \<Rightarrow> int \<times> 'z evtd_scheme" where
  "iotc_evtd_unregister_file_fd fd s = iotc_evtd_unregister_fd handles_and_file_fd fd s"

definition iotc_evtd_unregister_socket_fd :: "int \<Rightarrow> 'z evtd_scheme \<Rightarrow> int \<times> 'z evtd_scheme" where
  "iotc_evtd_unregister_socket_fd fd s = iotc_evtd_unregister_fd handles_and_socket_fd fd s"

definition iotc_evtd_continue_when_evt_on_socket ::
    "nat \<Rightarrow> event_handle \<Rightarrow> int \<Rightarrow> 'z evtd_scheme \<Rightarrow> int \<times> 'z evtd_scheme" where
  "iotc_evtd_continue_when_evt_on_socket event_type handle fd s =
     (let s1 = iotc_lock_critical_section s;
          id = iotc_evtd_find_fd handles_and_socket_fd fd s1
      in if id \<noteq> - 1 then
           (let tuple = v_elems (ev_sockets s1) ! nat id;
                s2 = s1\<lparr>ev_fd := (ev_fd s1)(tuple :=
                       (ev_fd s1 tuple)\<lparr>t_event_type := event_type, t_handle := handle\<rparr>)\<rparr>
            in (1, iotc_unlock_critical_section s2))
         else (- 1, iotc_unlock_critical_section s1))"

definition iotc_evtd_continue_when_empty :: "event_handle \<Rightarrow> 'z evtd_scheme \<Rightarrow> 'z evtd_scheme" where
  "iotc_evtd_continue_when_empty handle s = s\<lparr>ev_on_empty := handle\<rparr>"

section \<open>Calls\<close>

definition iotc_evtd_execute :: "event_handle \<Rightarrow> 'z evtd_scheme \<Rightarrow> (ptr \<times> 'z evtd_scheme) option" where
  "iotc_evtd_execute handle s =
     (case iotc_alloc sizeof_event_handle_queue (ev_mem s) of (queue_elem, m1) \<Rightarrow>
        if queue_elem = NULL then Some (NULL, s\<lparr>ev_mem := m1\<rparr>)
        else
          (let s1 = s\<lparr>ev_mem := m1, ev_queued := (ev_queued s)(queue_elem := handle),
                      ev_next := (ev_next s)(queue_elem := NULL)\<rparr>;
               s2 = iotc_lock_critical_section s1
           in case IOTC_LIST_PUSH_BACK (ev_next s2) (ev_call_queue s2) queue_elem of
                None \<Rightarrow> None
              | Some (nx, q) \<Rightarrow>
                  Some (queue_elem,
                        iotc_unlock_critical_section (s2\<lparr>ev_next := nx, ev_call_queue := q\<rparr>))))"

text \<open>What the allocation of a time event leaves in it: zeros, then the two fields that are set.\<close>

definition new_time_event :: "event_handle \<Rightarrow> int \<Rightarrow> event_handle time_event" where
  "new_time_event handle t =
     \<lparr>te_event_handle = handle, te_time_of_execution = t, te_position = 0,
      te_time_event_handle = NULL\<rparr>"

definition iotc_evtd_execute_in ::
    "event_handle \<Rightarrow> int \<Rightarrow> ptr \<Rightarrow> 'z evtd_scheme \<Rightarrow> iotc_state \<times> 'z evtd_scheme" where
  "iotc_evtd_execute_in handle time_diff ret_time_event_handle s =
     (case iotc_alloc sizeof_time_event (ev_mem s) of (time_event, m1) \<Rightarrow>
        if time_event = NULL then (IOTC_OUT_OF_MEMORY, s\<lparr>ev_mem := m1\<rparr>)
        else
          (let s1 = s\<lparr>ev_mem := m1, ev_te := (ev_te s)\<lparr>te_at := (te_at (ev_te s))(time_event :=
                 new_time_event handle (to_int64 (ev_current_step s + time_diff)))\<rparr>\<rparr>;
               s2 = iotc_lock_critical_section s1
           in case iotc_time_event_add (ev_timers s2) (ev_te s2) time_event ret_time_event_handle
                     (ev_mem s2) of
                (ret_state, v, te, m2) \<Rightarrow>
                  (ret_state,
                   iotc_unlock_critical_section (s2\<lparr>ev_timers := v, ev_te := te, ev_mem := m2\<rparr>))))"

definition iotc_evtd_cancel :: "ptr \<Rightarrow> 'z evtd_scheme \<Rightarrow> iotc_state \<times> 'z evtd_scheme" where
  "iotc_evtd_cancel time_event_handle s =
     (let s1 = iotc_lock_critical_section s
      in case iotc_time_event_cancel (ev_timers s1) (ev_te s1) time_event_handle of
           (ret_state, time_event, v, te) \<Rightarrow>
             (let s2 = iotc_unlock_critical_section (s1\<lparr>ev_timers := v, ev_te := te\<rparr>);
                  p = (case time_event of None \<Rightarrow> NULL | Some p \<Rightarrow> p)
              in (ret_state, s2\<lparr>ev_mem := IOTC_SAFE_FREE p (ev_mem s2)\<rparr>)))"

definition iotc_evtd_restart :: "ptr \<Rightarrow> int \<Rightarrow> 'z evtd_scheme \<Rightarrow> iotc_state \<times> 'z evtd_scheme" where
  "iotc_evtd_restart time_event_handle new_time s =
     (let s1 = iotc_lock_critical_section s
      in case iotc_time_event_restart (ev_timers s1) (ev_te s1) time_event_handle
                (to_int64 (ev_current_step s1 + new_time)) of
           (ret_state, v, te) \<Rightarrow>
             (ret_state, iotc_unlock_critical_section (s1\<lparr>ev_timers := v, ev_te := te\<rparr>)))"


section \<open>Creation and destruction\<close>

text \<open>The zeroed instance.\<close>

definition zeroed_handle :: event_handle where
  "zeroed_handle = \<lparr>handle_type = IOTC_EVENT_HANDLE_UNSET, h_fn = NULL, h_args = [], target_tid = 0\<rparr>"

text \<open>
  The result is the instance, or \<open>NULL\<close>; the caller's stores \<open>te\<close>, \<open>nx\<close>, \<open>queued\<close>,
  \<open>fds\<close> and the rest of the program \<open>z\<close> become part of the state. On the error path only the
  instance's own block is freed.
\<close>

definition iotc_evtd_create_instance ::
    "event_handle te_store \<Rightarrow> next_store \<Rightarrow> (ptr \<Rightarrow> event_handle) \<Rightarrow> (ptr \<Rightarrow> fd_tuple) \<Rightarrow> 'z \<Rightarrow> mem \<Rightarrow>
     'z evtd_scheme option \<times> mem" where
  "iotc_evtd_create_instance te nx queued fds z m =
     (case iotc_alloc sizeof_evtd_instance m of (p, m1) \<Rightarrow>
        if p = NULL then (None, m1)
        else (case iotc_vector_create m1 of
          (None, m2) \<Rightarrow> (None, IOTC_SAFE_FREE p m2)
        | (Some timers, m2) \<Rightarrow> (case iotc_vector_create m2 of
          (None, m3) \<Rightarrow> (None, IOTC_SAFE_FREE p m3)
        | (Some sockets, m3) \<Rightarrow> (case iotc_vector_create m3 of
          (None, m4) \<Rightarrow> (None, IOTC_SAFE_FREE p m4)
        | (Some files, m4) \<Rightarrow> (case iotc_alloc sizeof_critical_section m4 of (cs, m5) \<Rightarrow>
            if cs = NULL then (None, IOTC_SAFE_FREE p m5)
            else (Some (evtd.extend
                   \<lparr>ev_self = p, ev_current_step = 0, ev_timers = timers, ev_te = te,
                    ev_call_queue = NULL, ev_next = nx, ev_queued = queued, ev_cs = cs,
                    ev_cs_state = False, ev_spins = False, ev_sockets = sockets, ev_files = files,
                    ev_fd = fds, ev_on_empty = zeroed_handle, ev_stop = False, ev_mem = m5\<rparr> z),
                  m5))))))"

definition iotc_evtd_destroy_instance :: "'z evtd_scheme option \<Rightarrow> 'z evtd_scheme option" where
  "iotc_evtd_destroy_instance instance =
     (case instance of None \<Rightarrow> None
      | Some s \<Rightarrow>
          (let s1 = iotc_lock_critical_section s;
               m1 = iotc_vector_destroy (ev_files s1) (ev_mem s1);
               m2 = iotc_vector_destroy (ev_sockets s1) m1
           in case iotc_time_event_destroy (ev_timers s1) (ev_te s1) m2 of (v, te, m3) \<Rightarrow>
             (let m4 = iotc_vector_destroy v m3;
                  m5 = IOTC_SAFE_FREE (ev_self s1) m4;
                  s2 = iotc_unlock_critical_section (s1\<lparr>ev_timers := v, ev_te := te, ev_mem := m5\<rparr>)
              in Some (s2\<lparr>ev_mem := IOTC_SAFE_FREE (ev_cs s2) (ev_mem s2)\<rparr>))))"

section \<open>Running\<close>

definition iotc_state_is_fatal :: "iotc_state \<Rightarrow> bool" where
  "iotc_state_is_fatal e =
     (case e of
        IOTC_OUT_OF_MEMORY \<Rightarrow> True
      | IOTC_INTERNAL_ERROR \<Rightarrow> True
      | IOTC_MQTT_UNKNOWN_MESSAGE_ID \<Rightarrow> True
      | _ \<Rightarrow> False)"

definition iotc_evtd_stop :: "'z evtd_scheme \<Rightarrow> 'z evtd_scheme" where
  "iotc_evtd_stop s = s\<lparr>ev_stop := True\<rparr>"

definition iotc_evtd_single_step ::
    "'z caller \<Rightarrow> int \<Rightarrow> 'z evtd_scheme \<Rightarrow> (bool \<times> 'z evtd_scheme) option" where
  "iotc_evtd_single_step call new_step s =
     (let s1 = iotc_lock_critical_section (s\<lparr>ev_current_step := new_step\<rparr>)
      in case (if \<not> IOTC_LIST_EMPTY (ev_call_queue s1) then
                 (case IOTC_LIST_POP (ev_next s1) (ev_call_queue s1) of
                    None \<Rightarrow> None
                  | Some (nx, q, out) \<Rightarrow> Some (out, s1\<lparr>ev_next := nx, ev_call_queue := q\<rparr>))
               else Some (NULL, s1)) of
           None \<Rightarrow> None
         | Some (queue_elem, s2) \<Rightarrow>
             (let s3 = iotc_unlock_critical_section s2
              in if queue_elem = NULL then Some (False, s3)
                 else
                   (case iotc_evtd_execute_handle call (ev_queued s3 queue_elem) s3 of
                      (result, s4) \<Rightarrow>
                        Some (True, s4\<lparr>ev_mem := IOTC_SAFE_FREE queue_elem (ev_mem s4)\<rparr>))))"

text \<open>The loop over the delayed events that are due, entered and left with the lock held.\<close>

partial_function (option) evtd_timers_loop ::
    "'z caller \<Rightarrow> 'z evtd_scheme \<Rightarrow> 'z evtd_scheme option" where
  "evtd_timers_loop call s =
     (if v_elem_no (ev_timers s) \<noteq> 0 then
        (let tmp = iotc_time_event_peek_top (ev_timers s)
         in if te_time (ev_te s) tmp \<le> ev_current_step s then
              (let r = iotc_time_event_get_top (ev_timers s) (ev_te s);
                   tmp = fst r;
                   s1 = iotc_unlock_critical_section (s\<lparr>ev_timers := fst (snd r), ev_te := snd (snd r)\<rparr>);
                   handle = te_event_handle (te_at (ev_te s1) tmp);
                   rs = iotc_evtd_execute_handle call handle s1;
                   s2 = snd rs;
                   s3 = s2\<lparr>ev_mem := IOTC_SAFE_FREE tmp (ev_mem s2)\<rparr>;
                   s4 = (if iotc_state_is_fatal (fst rs) then iotc_evtd_stop s3 else s3)
               in evtd_timers_loop call (iotc_lock_critical_section s4))
            else Some s)
      else Some s)"

partial_function (option) evtd_queue_loop ::
    "'z caller \<Rightarrow> int \<Rightarrow> 'z evtd_scheme \<Rightarrow> 'z evtd_scheme option" where
  "evtd_queue_loop call new_step s =
     (case iotc_evtd_single_step call new_step s of
        None \<Rightarrow> None
      | Some r \<Rightarrow> if fst r then evtd_queue_loop call new_step (snd r) else Some (snd r))"

definition evtd_run_on_empty :: "'z caller \<Rightarrow> 'z evtd_scheme \<Rightarrow> 'z evtd_scheme" where
  "evtd_run_on_empty call s =
     (let s1 = iotc_lock_critical_section s;
          s2 = (if v_elem_no (ev_timers s1) = 0
                   \<and> handle_type (ev_on_empty s1) \<noteq> IOTC_EVENT_HANDLE_UNSET then
                  (let s3 = iotc_unlock_critical_section s1;
                       s4 = snd (iotc_evtd_execute_handle call (ev_on_empty s3) s3);
                       s5 = iotc_lock_critical_section s4
                   in s5\<lparr>ev_on_empty := iotc_dispose_handle (ev_on_empty s5)\<rparr>)
                else s1)
      in iotc_unlock_critical_section s2)"

definition iotc_evtd_step :: "'z caller \<Rightarrow> int \<Rightarrow> 'z evtd_scheme \<Rightarrow> 'z evtd_scheme option" where
  "iotc_evtd_step call new_step s =
     (case evtd_timers_loop call (iotc_lock_critical_section (s\<lparr>ev_current_step := new_step\<rparr>)) of
        None \<Rightarrow> None
      | Some s1 \<Rightarrow>
          (case evtd_queue_loop call new_step (iotc_unlock_critical_section s1) of
             None \<Rightarrow> None
           | Some s2 \<Rightarrow> Some (evtd_run_on_empty call s2)))"

definition iotc_evtd_dispatcher_continue :: "'z evtd_scheme option \<Rightarrow> bool" where
  "iotc_evtd_dispatcher_continue instance =
     (case instance of None \<Rightarrow> False | Some s \<Rightarrow> \<not> ev_stop s)"

fun all_continue_loop :: "'z evtd_scheme option list \<Rightarrow> bool \<Rightarrow> bool" where
  "all_continue_loop [] all_continue = all_continue"
| "all_continue_loop (d # ds) all_continue =
     (if all_continue then all_continue_loop ds (iotc_evtd_dispatcher_continue d) else all_continue)"

definition iotc_evtd_all_continue :: "'z evtd_scheme option list \<Rightarrow> bool" where
  "iotc_evtd_all_continue event_dispatchers = all_continue_loop event_dispatchers True"

definition iotc_evtd_update_event_on_fd ::
    "'z caller \<Rightarrow> fd_container \<Rightarrow> int \<Rightarrow> 'z evtd_scheme \<Rightarrow> iotc_state \<times> 'z evtd_scheme" where
  "iotc_evtd_update_event_on_fd call container fd s =
     (let s1 = iotc_lock_critical_section s;
          id = iotc_evtd_find_fd container fd s1
      in if id \<noteq> - 1 then
           (let tuple = v_elems (get_container container s1) ! nat id;
                to_exec = t_handle (ev_fd s1 tuple);
                s2 = (if t_fd_type (ev_fd s1 tuple) = IOTC_EVTD_FD_TYPE_SOCKET
                      then s1\<lparr>ev_fd := (ev_fd s1)(tuple := (ev_fd s1 tuple)
                             \<lparr>t_event_type := IOTC_EVENT_WANT_READ,
                              t_handle := t_read_handle (ev_fd s1 tuple)\<rparr>)\<rparr>
                      else s1);
                s3 = iotc_unlock_critical_section s2;
                s4 = snd (iotc_evtd_execute_handle call to_exec s3);
                s5 = iotc_lock_critical_section s4
            in (IOTC_STATE_OK, iotc_unlock_critical_section s5))
         else (IOTC_FD_HANDLER_NOT_FOUND, iotc_unlock_critical_section (iotc_evtd_stop s1)))"

definition iotc_evtd_update_event_on_socket ::
    "'z caller \<Rightarrow> int \<Rightarrow> 'z evtd_scheme \<Rightarrow> iotc_state \<times> 'z evtd_scheme" where
  "iotc_evtd_update_event_on_socket call fd s =
     iotc_evtd_update_event_on_fd call handles_and_socket_fd fd s"

definition iotc_evtd_update_event_on_file ::
    "'z caller \<Rightarrow> int \<Rightarrow> 'z evtd_scheme \<Rightarrow> iotc_state \<times> 'z evtd_scheme" where
  "iotc_evtd_update_event_on_file call fd s =
     iotc_evtd_update_event_on_fd call handles_and_file_fd fd s"

text \<open>The bound of this loop is read again in every round, after handlers have run.\<close>

partial_function (option) update_file_fd_loop ::
    "'z caller \<Rightarrow> int \<Rightarrow> bool \<Rightarrow> 'z evtd_scheme \<Rightarrow> (bool \<times> 'z evtd_scheme) option" where
  "update_file_fd_loop call i was_there_an_event s =
     (if i < v_elem_no (ev_files s) then
        (let tuple = ev_fd s (v_elems (ev_files s) ! nat i)
         in if 0 < and (t_event_type tuple) IOTC_EVENT_WANT_READ
               \<or> 0 < and (t_event_type tuple) IOTC_EVENT_WANT_WRITE
               \<or> 0 < and (t_event_type tuple) IOTC_EVENT_ERROR
            then update_file_fd_loop call (i + 1) True
                   (snd (iotc_evtd_update_event_on_file call (t_fd tuple) s))
            else update_file_fd_loop call (i + 1) was_there_an_event s)
      else Some (was_there_an_event, s))"

definition iotc_evtd_update_file_fd_events ::
    "'z caller \<Rightarrow> 'z evtd_scheme \<Rightarrow> (bool \<times> 'z evtd_scheme) option" where
  "iotc_evtd_update_file_fd_events call s = update_file_fd_loop call 0 False s"

definition iotc_evtd_get_time_of_earliest_event ::
    "'z evtd_scheme \<Rightarrow> iotc_state \<times> int option \<times> 'z evtd_scheme" where
  "iotc_evtd_get_time_of_earliest_event s =
     (let s1 = iotc_lock_critical_section s
      in if v_elem_no (ev_timers s1) \<noteq> 0 then
           (IOTC_STATE_OK, Some (te_time (ev_te s1) (iotc_time_event_peek_top (ev_timers s1))),
            iotc_unlock_critical_section s1)
         else (IOTC_ELEMENT_NOT_FOUND, None, iotc_unlock_critical_section s1))"


section \<open>Handlers that leave the dispatcher alone\<close>

text \<open>
  A handler that only works on the rest of the program: its result is \<open>res\<close>, its effect \<open>upd\<close>.
\<close>

definition passive_call ::
    "'z caller \<Rightarrow> (ptr \<Rightarrow> nat list \<Rightarrow> iotc_state) \<Rightarrow> (ptr \<Rightarrow> nat list \<Rightarrow> 'z \<Rightarrow> 'z) \<Rightarrow> bool" where
  "passive_call call res upd \<longleftrightarrow> (\<forall>f a s. call f a s = (res f a, evtd.more_update (upd f a) s))"

definition handle_effect :: "(ptr \<Rightarrow> nat list \<Rightarrow> 'z \<Rightarrow> 'z) \<Rightarrow> event_handle \<Rightarrow> 'z \<Rightarrow> 'z" where
  "handle_effect upd h z =
     (if iotc_handle_disposed h then z else upd (h_fn h) (take (argc_count (handle_type h)) (h_args h)) z)"

definition handle_result :: "(ptr \<Rightarrow> nat list \<Rightarrow> iotc_state) \<Rightarrow> event_handle \<Rightarrow> iotc_state" where
  "handle_result res h =
     (if iotc_handle_disposed h then IOTC_UNSET_HANDLER_ERROR
      else res (h_fn h) (take (argc_count (handle_type h)) (h_args h)))"

lemma execute_passive:
  "passive_call call res upd \<Longrightarrow>
   iotc_evtd_execute_handle call h s = (handle_result res h, evtd.more_update (handle_effect upd h) s)"
  by (simp add: execute_handle_call passive_call_def handle_effect_def handle_result_def)

text \<open>What the loop over the delayed events does not touch.\<close>

definition timers_frame :: "'z evtd_scheme \<Rightarrow> 'z evtd_scheme \<Rightarrow> bool" where
  "timers_frame s s' \<longleftrightarrow> ev_call_queue s' = ev_call_queue s \<and> ev_next s' = ev_next s
     \<and> ev_queued s' = ev_queued s \<and> ev_cs_state s' = ev_cs_state s \<and> ev_spins s' = ev_spins s
     \<and> ev_sockets s' = ev_sockets s \<and> ev_files s' = ev_files s \<and> ev_fd s' = ev_fd s
     \<and> ev_on_empty s' = ev_on_empty s \<and> ev_current_step s' = ev_current_step s
     \<and> ev_self s' = ev_self s \<and> ev_cs s' = ev_cs s"

definition freed :: "ptr set \<Rightarrow> mem \<Rightarrow> mem \<Rightarrow> bool" where
  "freed ps m m' \<longleftrightarrow> wf_mem m' \<and> m_bad m' = m_bad m
     \<and> m_live m' = (\<lambda>q. if q \<in> ps then None else m_live m q)"

lemma freed_step:
  assumes "wf_mem m" and "m_live m p \<noteq> None" and "freed ps (IOTC_SAFE_FREE p m) m'" 
  shows "freed (insert p ps) m m'"
  using assms wf_mem_live_pos [OF assms(1)]
  by (auto simp: freed_def mem_simps fun_eq_iff)

lemma freed_refl: "wf_mem m \<Longrightarrow> freed {} m m"
  by (simp add: freed_def)

lemma timers_loop_passive:
  assumes c: "passive_call call res upd" and i: "te_inv (ev_timers s) (ev_te s)"
    and l: "vec_list (ev_timers s) = ps" and lock: "ev_cs_state s" and w: "wf_mem (ev_mem s)"
    and live: "\<forall>p\<in>set ps. m_live (ev_mem s) p \<noteq> None"
  shows "\<exists>s'. let due = takeWhile (\<lambda>p. te_time (ev_te s) p \<le> ev_current_step s) ps
    in evtd_timers_loop call s = Some s' \<and> timers_frame s s' \<and> te_inv (ev_timers s') (ev_te s')
      \<and> vec_list (ev_timers s') = dropWhile (\<lambda>p. te_time (ev_te s) p \<le> ev_current_step s) ps
      \<and> freed (set due) (ev_mem s) (ev_mem s')
      \<and> evtd.more s' = fold (\<lambda>p. handle_effect upd (te_event_handle (te_at (ev_te s) p))) due (evtd.more s)
      \<and> ev_stop s' = (ev_stop s \<or> (\<exists>p\<in>set due. iotc_state_is_fatal
            (handle_result res (te_event_handle (te_at (ev_te s) p)))))"
  using i l lock w live
proof (induction ps arbitrary: s)
  case Nil
  then have "vec_inv (ev_timers s)" by (simp add: te_inv_def pos_ok_def)
  from vec_list_empty_iff [OF this] Nil show ?case
    by (intro exI [of _ s]) (simp add: evtd_timers_loop.simps timers_frame_def freed_refl)
next
  case (Cons p ps)
  from Cons.prems(1) have inv: "vec_inv (ev_timers s)" by (simp add: te_inv_def pos_ok_def)
  have ne: "v_elem_no (ev_timers s) \<noteq> 0" using vec_list_empty_iff [OF inv] Cons.prems(2) by simp
  have pk: "iotc_time_event_peek_top (ev_timers s) = p" using peek_top_hd [OF inv] Cons.prems(2) by simp
  show ?case
  proof (cases "te_time (ev_te s) p \<le> ev_current_step s")
    case False
    with ne pk Cons.prems show ?thesis
      by (intro exI [of _ s]) (simp add: evtd_timers_loop.simps timers_frame_def freed_refl)
  next
    case True
    from te_get_top_all [OF Cons.prems(1,2)] obtain v te where
      g: "iotc_time_event_get_top (ev_timers s) (ev_te s) = (p, v, te)"
      and i1: "te_inv v te" and l1: "vec_list v = ps"
      and t: "\<And>q. te_time te q = te_time (ev_te s) q"
      and eh: "\<And>q. te_event_handle (te_at te q) = te_event_handle (te_at (ev_te s) q)" by blast
    let ?h = "te_event_handle (te_at (ev_te s) p)"
    let ?s1 = "evtd.more_update (handle_effect upd ?h)
      (s\<lparr>ev_timers := v, ev_te := te, ev_mem := IOTC_SAFE_FREE p (ev_mem s),
         ev_stop := ev_stop s \<or> iotc_state_is_fatal (handle_result res ?h)\<rparr>)"
    have step: "evtd_timers_loop call s = evtd_timers_loop call ?s1"
      using ne pk True g Cons.prems(3)
      by (subst evtd_timers_loop.simps)
        (cases s, simp add: Let_def eh execute_passive [OF c] iotc_unlock_critical_section_def
          iotc_lock_critical_section_def iotc_evtd_stop_def split: if_splits)
    have p: "m_live (ev_mem s) p \<noteq> None" "p \<notin> set ps"
      using Cons.prems by (auto simp: te_inv_def pos_ok_def)
    have live1: "\<forall>q\<in>set ps. m_live (ev_mem ?s1) q \<noteq> None"
      using Cons.prems(4,5) p(2) by (auto simp: mem_simps)
    from Cons.IH [of ?s1] i1 l1 Cons.prems(3,4) live1
    obtain s' where "evtd_timers_loop call ?s1 = Some s'" "timers_frame ?s1 s'"
      "te_inv (ev_timers s') (ev_te s')"
      "vec_list (ev_timers s') = dropWhile (\<lambda>p. te_time (ev_te s) p \<le> ev_current_step s) ps"
      "freed (set (takeWhile (\<lambda>p. te_time (ev_te s) p \<le> ev_current_step s) ps))
        (IOTC_SAFE_FREE p (ev_mem s)) (ev_mem s')"
      "evtd.more s' = fold (\<lambda>p. handle_effect upd (te_event_handle (te_at (ev_te s) p)))
        (takeWhile (\<lambda>p. te_time (ev_te s) p \<le> ev_current_step s) ps) (handle_effect upd ?h (evtd.more s))"
      "ev_stop s' = (ev_stop s \<or> iotc_state_is_fatal (handle_result res ?h)
        \<or> (\<exists>p\<in>set (takeWhile (\<lambda>p. te_time (ev_te s) p \<le> ev_current_step s) ps). iotc_state_is_fatal
            (handle_result res (te_event_handle (te_at (ev_te s) p)))))"
      by (auto simp: t eh Let_def)
    with step True freed_step [OF Cons.prems(4) p(1)] show ?thesis
      by (intro exI [of _ s']) (auto simp: timers_frame_def Let_def)
  qed
qed


definition queue_frame :: "'z evtd_scheme \<Rightarrow> 'z evtd_scheme \<Rightarrow> bool" where
  "queue_frame s s' \<longleftrightarrow> ev_timers s' = ev_timers s \<and> ev_te s' = ev_te s
     \<and> ev_cs_state s' = ev_cs_state s \<and> ev_spins s' = ev_spins s
     \<and> ev_sockets s' = ev_sockets s \<and> ev_files s' = ev_files s \<and> ev_fd s' = ev_fd s
     \<and> ev_on_empty s' = ev_on_empty s \<and> ev_stop s' = ev_stop s
     \<and> ev_self s' = ev_self s \<and> ev_cs s' = ev_cs s"

lemma queue_loop_passive:
  assumes c: "passive_call call res upd" and q: "chain (ev_next s) (ev_call_queue s) qs"
    and lock: "\<not> ev_cs_state s" and w: "wf_mem (ev_mem s)"
    and live: "\<forall>p\<in>set qs. m_live (ev_mem s) p \<noteq> None"
  shows "\<exists>s'. evtd_queue_loop call now s = Some s' \<and> queue_frame s s' \<and> ev_call_queue s' = NULL
      \<and> ev_current_step s' = now \<and> freed (set qs) (ev_mem s) (ev_mem s')
      \<and> evtd.more s' = fold (\<lambda>p. handle_effect upd (ev_queued s p)) qs (evtd.more s)"
  using q lock w live
proof (induction qs arbitrary: s)
  case Nil
  then show ?case
    by (subst evtd_queue_loop.simps, cases s)
      (simp add: iotc_evtd_single_step_def Let_def IOTC_LIST_EMPTY_def iotc_lock_critical_section_def
        iotc_unlock_critical_section_def queue_frame_def freed_refl)
next
  case (Cons p ps)
  then obtain nx' q' where pop: "IOTC_LIST_POP (ev_next s) (ev_call_queue s) = Some (nx', q', p)"
    and ch: "chain nx' q' ps" by (metis pop_chain)
  from Cons.prems(1) have ne: "ev_call_queue s = p" "p \<noteq> NULL" and d: "p \<notin> set ps"
    using chain_distinct [OF Cons.prems(1)] by auto
  let ?s1 = "evtd.more_update (handle_effect upd (ev_queued s p))
    (s\<lparr>ev_current_step := now, ev_next := nx', ev_call_queue := q', ev_mem := IOTC_SAFE_FREE p (ev_mem s)\<rparr>)"
  have step: "iotc_evtd_single_step call now s = Some (True, ?s1)"
    using ne pop Cons.prems(2)
    by (cases s) (simp add: iotc_evtd_single_step_def Let_def IOTC_LIST_EMPTY_def
        iotc_lock_critical_section_def iotc_unlock_critical_section_def execute_passive [OF c])
  have p: "m_live (ev_mem s) p \<noteq> None" using Cons.prems(4) by simp
  have live1: "\<forall>q\<in>set ps. m_live (ev_mem ?s1) q \<noteq> None"
    using Cons.prems(3,4) d by (auto simp: mem_simps)
  from Cons.IH [of ?s1] ch Cons.prems(2,3) live1 obtain s' where
    "evtd_queue_loop call now ?s1 = Some s'" "queue_frame ?s1 s'" "ev_call_queue s' = NULL"
    "ev_current_step s' = now" "freed (set ps) (IOTC_SAFE_FREE p (ev_mem s)) (ev_mem s')"
    "evtd.more s' = fold (\<lambda>p. handle_effect upd (ev_queued s p)) ps
      (handle_effect upd (ev_queued s p) (evtd.more s))" by auto
  with step freed_step [OF Cons.prems(3) p] show ?case
    by (intro exI [of _ s'], subst evtd_queue_loop.simps) (simp add: queue_frame_def)
qed

lemma run_on_empty_passive:
  assumes "passive_call call res upd" and "\<not> ev_cs_state s" and "vec_inv (ev_timers s)"
  shows "evtd_run_on_empty call s =
    (if vec_list (ev_timers s) = [] \<and> \<not> iotc_handle_disposed (ev_on_empty s)
     then evtd.more_update (handle_effect upd (ev_on_empty s))
            (s\<lparr>ev_on_empty := iotc_dispose_handle (ev_on_empty s)\<rparr>)
     else s)"
  using assms(2) vec_list_empty_iff [OF assms(3)]
  by (cases s) (simp add: evtd_run_on_empty_def Let_def execute_passive [OF assms(1)]
      iotc_lock_critical_section_def iotc_unlock_critical_section_def iotc_handle_disposed_def)

section \<open>Properties\<close>

text \<open>A dispatcher at rest: the queues are well-formed, their nodes are blocks of the heap, the
  lock is free.\<close>

definition evtd_inv :: "ptr list \<Rightarrow> 'z evtd_scheme \<Rightarrow> bool" where
  "evtd_inv qs s \<longleftrightarrow> te_inv (ev_timers s) (ev_te s) \<and> chain (ev_next s) (ev_call_queue s) qs
     \<and> set qs \<inter> set (vec_list (ev_timers s)) = {} \<and> wf_mem (ev_mem s) \<and> \<not> m_bad (ev_mem s)
     \<and> (\<forall>p\<in>set qs \<union> set (vec_list (ev_timers s)). m_live (ev_mem s) p \<noteq> None)
     \<and> \<not> ev_cs_state s \<and> \<not> ev_spins s"

text \<open>
  C22. A step of the dispatcher with handlers that do not reschedule anything always ends. It runs
  the delayed events that are due, in the order of their times, then the queued calls in the order
  in which they were queued, then the handler for the empty queue if no delayed event is left and
  one is set, each exactly once; the events that are not due stay as they are, the blocks of what
  was run are released and no others, and the lock is free again.
\<close>

theorem evtd_step_runs_due:
  assumes "passive_call call res upd" and "evtd_inv qs s"
  shows "\<exists>s'. let ps = vec_list (ev_timers s);
      due = takeWhile (\<lambda>p. te_time (ev_te s) p \<le> now) ps;
      rest = dropWhile (\<lambda>p. te_time (ev_te s) p \<le> now) ps;
      hs = map (\<lambda>p. te_event_handle (te_at (ev_te s) p)) due @ map (ev_queued s) qs
             @ (if rest = [] then [ev_on_empty s] else [])
    in iotc_evtd_step call now s = Some s' \<and> evtd_inv [] s'
      \<and> vec_list (ev_timers s') = rest \<and> ev_call_queue s' = NULL
      \<and> evtd.more s' = fold (handle_effect upd) hs (evtd.more s)
      \<and> m_live (ev_mem s') = (\<lambda>p. if p \<in> set due \<union> set qs then None else m_live (ev_mem s) p)
      \<and> (rest = [] \<longrightarrow> iotc_handle_disposed (ev_on_empty s'))"
proof -
  let ?P = "\<lambda>p. te_time (ev_te s) p \<le> now" and ?ps = "vec_list (ev_timers s)"
  from assms(2) have i: "te_inv (ev_timers s) (ev_te s)" and ch: "chain (ev_next s) (ev_call_queue s) qs"
    and dj: "set qs \<inter> set ?ps = {}" and w: "wf_mem (ev_mem s)" and nb: "\<not> m_bad (ev_mem s)"
    and live: "\<forall>p\<in>set qs \<union> set ?ps. m_live (ev_mem s) p \<noteq> None"
    and lock: "\<not> ev_cs_state s" "\<not> ev_spins s" by (auto simp: evtd_inv_def)
  let ?s0 = "s\<lparr>ev_current_step := now, ev_cs_state := True\<rparr>"
  have s0: "iotc_lock_critical_section (s\<lparr>ev_current_step := now\<rparr>) = ?s0"
    using lock by (simp add: iotc_lock_critical_section_def)
  from timers_loop_passive [OF assms(1), of ?s0 ?ps] i w live obtain s1 where
    t: "evtd_timers_loop call ?s0 = Some s1" "timers_frame ?s0 s1" "te_inv (ev_timers s1) (ev_te s1)"
      "vec_list (ev_timers s1) = dropWhile ?P ?ps" "freed (set (takeWhile ?P ?ps)) (ev_mem s) (ev_mem s1)"
      "evtd.more s1 = fold (\<lambda>p. handle_effect upd (te_event_handle (te_at (ev_te s) p)))
        (takeWhile ?P ?ps) (evtd.more s)"
    by (auto simp: Let_def)
  let ?s1 = "iotc_unlock_critical_section s1"
  have s1: "?s1 = s1\<lparr>ev_cs_state := False\<rparr>"
    using t(2) by (simp add: iotc_unlock_critical_section_def timers_frame_def)
  have ch1: "chain (ev_next ?s1) (ev_call_queue ?s1) qs" using t(2) ch by (simp add: s1 timers_frame_def)
  have sub: "set (takeWhile ?P ?ps) \<subseteq> set ?ps" by (auto dest: set_takeWhileD)
  have live1: "\<forall>p\<in>set qs. m_live (ev_mem ?s1) p \<noteq> None"
    using t(5) live dj sub by (auto simp: s1 freed_def)
  have w1: "wf_mem (ev_mem ?s1)" and l1: "\<not> ev_cs_state ?s1" using t(5) by (simp_all add: s1 freed_def)
  from queue_loop_passive [OF assms(1) ch1 l1 w1 live1, of now] obtain s2 where
    q: "evtd_queue_loop call now ?s1 = Some s2" "queue_frame ?s1 s2" "ev_call_queue s2 = NULL"
      "freed (set qs) (ev_mem ?s1) (ev_mem s2)"
      "evtd.more s2 = fold (\<lambda>p. handle_effect upd (ev_queued ?s1 p)) qs (evtd.more ?s1)" by blast
  have tq: "ev_timers s2 = ev_timers s1" "ev_te s2 = ev_te s1" "\<not> ev_cs_state s2" "\<not> ev_spins s2"
    "ev_on_empty s2 = ev_on_empty s" "ev_queued ?s1 = ev_queued s"
    using q(2) t(2) lock by (auto simp: queue_frame_def timers_frame_def s1)
  have inv2: "vec_inv (ev_timers s2)" using t(3) tq(1) by (simp add: te_inv_def pos_ok_def)
  define s3 where "s3 = evtd_run_on_empty call s2"
  note r = run_on_empty_passive [OF assms(1) tq(3) inv2]
  have step: "iotc_evtd_step call now s = Some s3"
    using s0 t(1) q(1) by (simp add: iotc_evtd_step_def s3_def)
  have f3: "ev_timers s3 = ev_timers s1" "ev_te s3 = ev_te s1" "ev_call_queue s3 = NULL"
    "\<not> ev_cs_state s3" "\<not> ev_spins s3" "ev_mem s3 = ev_mem s2"
    unfolding s3_def r by (cases s2; use tq q(3) in simp)+
  have m2: "m_live (ev_mem s2) = (\<lambda>p. if p \<in> set (takeWhile ?P ?ps) \<union> set qs then None else m_live (ev_mem s) p)"
    using t(5) q(4) by (auto simp: freed_def s1)
  have sub': "set (dropWhile ?P ?ps) \<subseteq> set ?ps" by (auto dest: set_dropWhileD)
  have "distinct ?ps" using i by (simp add: te_inv_def pos_ok_def)
  then have "distinct (takeWhile ?P ?ps @ dropWhile ?P ?ps)" by simp
  then have dd: "set (takeWhile ?P ?ps) \<inter> set (dropWhile ?P ?ps) = {}" unfolding distinct_append by blast
  have inv3: "evtd_inv [] s3"
    using f3 t(3,4) q(4) t(5) nb m2 live dj sub' dd by (auto simp: evtd_inv_def freed_def s1)
  have m3: "evtd.more s3 = fold (handle_effect upd)
      (map (\<lambda>p. te_event_handle (te_at (ev_te s) p)) (takeWhile ?P ?ps) @ map (ev_queued s) qs
        @ (if dropWhile ?P ?ps = [] then [ev_on_empty s] else [])) (evtd.more s)"
    unfolding s3_def r using t(4,6) q(5) tq
    by (cases s2) (auto simp: fold_map comp_def s1 handle_effect_def)
  have e3: "dropWhile ?P ?ps = [] \<longrightarrow> iotc_handle_disposed (ev_on_empty s3)"
    unfolding s3_def r using t(4) tq by (cases s2) auto
  show ?thesis
    unfolding Let_def using step inv3 f3 t(4) m3 m2 e3 by (intro exI [of _ s3]) simp
qed

definition log_call :: "nat list caller" where
  "log_call f a s = (IOTC_STATE_OK, evtd.more_update (\<lambda>z. z @ [f]) s)"

definition example_evtd :: "nat list evtd_scheme" where
  "example_evtd =
     \<lparr>ev_self = 1, ev_current_step = 0,
      ev_timers = \<lparr>v_self = 2, v_array = 3, v_elems = [11, 10], v_elem_no = 2, v_capacity = 2,
        v_memory_type = IOTC_MEMORY_TYPE_MANAGED\<rparr>,
      ev_te = \<lparr>te_at = (\<lambda>p. \<lparr>te_event_handle = iotc_make_handle_argc0 0 p,
          te_time_of_execution = (if p = 10 then 9 else 4),
          te_position = (if p = 10 then 1 else 0), te_time_event_handle = NULL\<rparr>), te_hnd = (\<lambda>h. NULL)\<rparr>,
      ev_call_queue = 12, ev_next = (\<lambda>p. if p = 12 then 13 else NULL),
      ev_queued = (\<lambda>p. iotc_make_handle_argc0 0 p), ev_cs = 20, ev_cs_state = False, ev_spins = False,
      ev_sockets = \<lparr>v_self = 4, v_array = 5, v_elems = [30, 0], v_elem_no = 1, v_capacity = 2,
        v_memory_type = IOTC_MEMORY_TYPE_MANAGED\<rparr>,
      ev_files = \<lparr>v_self = 6, v_array = 7, v_elems = [0, 0], v_elem_no = 0, v_capacity = 2,
        v_memory_type = IOTC_MEMORY_TYPE_MANAGED\<rparr>,
      ev_fd = (\<lambda>p. \<lparr>t_fd = 5, t_handle = iotc_make_handle_argc0 0 50,
        t_read_handle = iotc_make_handle_argc0 0 50, t_event_type = IOTC_EVENT_WANT_READ,
        t_fd_type = IOTC_EVTD_FD_TYPE_SOCKET\<rparr>),
      ev_on_empty = zeroed_handle, ev_stop = False,
      ev_mem = \<lparr>m_next = 31, m_live = (\<lambda>p. if 0 < p \<and> p < 31 then Some 8 else None), m_seq = 0,
        m_ok = (\<lambda>i n. n < 2 ^ 63), m_bad = False\<rparr>,
      \<dots> = []\<rparr>"

lemma log_call_passive: "passive_call log_call (\<lambda>f a. IOTC_STATE_OK) (\<lambda>f a z. z @ [f])"
  by (simp add: passive_call_def log_call_def)

lemma example_evtd_inv: "evtd_inv [12, 13] example_evtd"
  by (simp add: evtd_inv_def example_evtd_def te_inv_def pos_ok_def vec_inv_def vec_list_def wf_mem_def
      less_Suc_eq numeral_2_eq_2 del: One_nat_def)

theorem evtd_step_runs_due_witness:
  "\<exists>s'. iotc_evtd_step log_call 5 example_evtd = Some s' \<and> evtd.more s' = [11, 12, 13]
    \<and> vec_list (ev_timers s') = [10]"
proof -
  have l: "vec_list (ev_timers example_evtd) = [11, 10]"
    by (simp add: example_evtd_def vec_list_def numeral_2_eq_2)
  have "te_time (ev_te example_evtd) 11 = 4" "te_time (ev_te example_evtd) 10 = 9"
    "evtd.more example_evtd = []" "ev_queued example_evtd = (\<lambda>p. iotc_make_handle_argc0 0 p)"
    "te_event_handle (te_at (ev_te example_evtd) 11) = iotc_make_handle_argc0 0 11"
    by (simp_all add: example_evtd_def)
  with evtd_step_runs_due [OF log_call_passive example_evtd_inv, of 5] l show ?thesis
    by (auto simp: handle_effect_def iotc_make_handle_argc0_def iotc_handle_disposed_def)
qed

section \<open>The lock\<close>

definition lock_free :: "'z evtd_scheme \<Rightarrow> bool" where
  "lock_free s \<longleftrightarrow> \<not> ev_cs_state s \<and> \<not> ev_spins s"

definition lock_held :: "'z evtd_scheme \<Rightarrow> bool" where
  "lock_held s \<longleftrightarrow> ev_cs_state s \<and> \<not> ev_spins s"

lemma lock_simps [simp]:
  "lock_free s \<Longrightarrow> lock_held (iotc_lock_critical_section s)"
  "lock_held s \<Longrightarrow> lock_free (iotc_unlock_critical_section s)"
  by (simp_all add: lock_free_def lock_held_def iotc_lock_critical_section_def
      iotc_unlock_critical_section_def)

lemma lock_upd [simp]:
  "lock_held (s\<lparr>ev_mem := m\<rparr>) = lock_held s" "lock_free (s\<lparr>ev_mem := m\<rparr>) = lock_free s"
  "lock_held (s\<lparr>ev_timers := v\<rparr>) = lock_held s" "lock_free (s\<lparr>ev_timers := v\<rparr>) = lock_free s"
  "lock_held (s\<lparr>ev_te := t\<rparr>) = lock_held s" "lock_free (s\<lparr>ev_te := t\<rparr>) = lock_free s"
  "lock_held (s\<lparr>ev_fd := f\<rparr>) = lock_held s" "lock_free (s\<lparr>ev_fd := f\<rparr>) = lock_free s"
  "lock_held (s\<lparr>ev_next := n\<rparr>) = lock_held s" "lock_free (s\<lparr>ev_next := n\<rparr>) = lock_free s"
  "lock_held (s\<lparr>ev_queued := q\<rparr>) = lock_held s" "lock_free (s\<lparr>ev_queued := q\<rparr>) = lock_free s"
  "lock_held (s\<lparr>ev_call_queue := q'\<rparr>) = lock_held s" "lock_free (s\<lparr>ev_call_queue := q'\<rparr>) = lock_free s"
  "lock_held (s\<lparr>ev_on_empty := h\<rparr>) = lock_held s" "lock_free (s\<lparr>ev_on_empty := h\<rparr>) = lock_free s"
  "lock_held (s\<lparr>ev_stop := b\<rparr>) = lock_held s" "lock_free (s\<lparr>ev_stop := b\<rparr>) = lock_free s"
  "lock_held (s\<lparr>ev_current_step := x\<rparr>) = lock_held s" "lock_free (s\<lparr>ev_current_step := x\<rparr>) = lock_free s"
  "lock_held (set_container c v s) = lock_held s" "lock_free (set_container c v s) = lock_free s"
  by (simp_all add: lock_held_def lock_free_def) (cases c; simp)+

definition keeps_lock :: "'z caller \<Rightarrow> bool" where
  "keeps_lock call \<longleftrightarrow> (\<forall>f a s. lock_free s \<longrightarrow> lock_free (snd (call f a s)))"

lemma execute_keeps_lock:
  "keeps_lock call \<Longrightarrow> lock_free s \<Longrightarrow> lock_free (snd (iotc_evtd_execute_handle call h s))"
  by (simp add: execute_handle_call keeps_lock_def)

lemma execute_keeps_lock':
  "iotc_evtd_execute_handle call h s = (r, s') \<Longrightarrow> keeps_lock call \<Longrightarrow> lock_free s \<Longrightarrow> lock_free s'"
  by (metis execute_keeps_lock snd_conv)

lemma timers_loop_lock:
  assumes "keeps_lock call" and "lock_held s" and "evtd_timers_loop call s = Some s'"
  shows "lock_held s'"
proof -
  have "keeps_lock call \<longrightarrow> lock_held s \<longrightarrow> lock_held s'"
    by (rule evtd_timers_loop.raw_induct [where P = "\<lambda>call s s'. keeps_lock call \<longrightarrow> lock_held s \<longrightarrow> lock_held s'",
          OF _ assms(3)])
      (auto simp: Let_def iotc_evtd_stop_def execute_keeps_lock split: if_splits)
  with assms(1,2) show ?thesis by blast
qed

lemma single_step_lock:
  assumes "keeps_lock call" and "lock_free s" and "iotc_evtd_single_step call now s = Some (b, s')"
  shows "lock_free s'"
  using assms(2,3)
  by (auto simp: iotc_evtd_single_step_def Let_def split: if_splits option.splits prod.splits
      elim!: execute_keeps_lock' [OF _ assms(1)])

lemma queue_loop_lock:
  assumes "keeps_lock call" and "lock_free s" and "evtd_queue_loop call now s = Some s'"
  shows "lock_free s'"
proof -
  have "keeps_lock call \<longrightarrow> lock_free s \<longrightarrow> lock_free s'"
    by (rule evtd_queue_loop.raw_induct [where P = "\<lambda>call now s s'. keeps_lock call \<longrightarrow> lock_free s \<longrightarrow> lock_free s'",
          OF _ assms(3)])
      (auto split: option.splits if_splits, metis single_step_lock, metis single_step_lock)
  with assms(1,2) show ?thesis by blast
qed

lemma run_on_empty_lock:
  "keeps_lock call \<Longrightarrow> lock_free s \<Longrightarrow> lock_free (evtd_run_on_empty call s)"
  by (simp add: evtd_run_on_empty_def Let_def execute_keeps_lock)

text \<open>
  C32. The lock of the dispatcher is never taken twice and never left taken: every operation that
  is entered with the lock free returns with it free, on every path, the error paths included, as long
  as the handlers do; and the handlers are called with the lock free, so that they may use the
  dispatcher themselves.
\<close>

theorem evtd_lock_discipline:
  assumes "keeps_lock call" and "lock_free s"
  shows "lock_free (snd (iotc_evtd_register_fd c ev ty fd h1 h2 s))
    \<and> lock_free (snd (iotc_evtd_unregister_fd c fd s))
    \<and> lock_free (snd (iotc_evtd_continue_when_evt_on_socket ev h1 fd s))
    \<and> (\<forall>p s'. iotc_evtd_execute h1 s = Some (p, s') \<longrightarrow> lock_free s')
    \<and> lock_free (snd (iotc_evtd_execute_in h1 t hdl s))
    \<and> lock_free (snd (iotc_evtd_cancel hdl s))
    \<and> lock_free (snd (iotc_evtd_restart hdl t s))
    \<and> lock_free (snd (iotc_evtd_update_event_on_fd call c fd s))
    \<and> (\<forall>s'. iotc_evtd_step call t s = Some s' \<longrightarrow> lock_free s')
    \<and> lock_free (snd (snd (iotc_evtd_get_time_of_earliest_event s)))"
proof (intro conjI allI impI)
  show "lock_free (snd (iotc_evtd_register_fd c ev ty fd h1 h2 s))"
    using assms(2) by (auto simp: iotc_evtd_register_fd_def Let_def split: prod.splits option.splits)
  show "lock_free (snd (iotc_evtd_unregister_fd c fd s))"
    using assms(2) by (auto simp: iotc_evtd_unregister_fd_def Let_def)
  show "lock_free (snd (iotc_evtd_continue_when_evt_on_socket ev h1 fd s))"
    using assms(2) by (auto simp: iotc_evtd_continue_when_evt_on_socket_def Let_def)
  show "lock_free s'" if "iotc_evtd_execute h1 s = Some (p, s')" for p s'
    using assms(2) that
    by (auto simp: iotc_evtd_execute_def Let_def split: prod.splits option.splits if_splits)
  show "lock_free (snd (iotc_evtd_execute_in h1 t hdl s))"
    using assms(2) by (auto simp: iotc_evtd_execute_in_def Let_def split: prod.splits)
  show "lock_free (snd (iotc_evtd_cancel hdl s))"
    using assms(2) by (auto simp: iotc_evtd_cancel_def Let_def split: prod.splits)
  show "lock_free (snd (iotc_evtd_restart hdl t s))"
    using assms(2) by (auto simp: iotc_evtd_restart_def Let_def split: prod.splits)
  show "lock_free (snd (iotc_evtd_update_event_on_fd call c fd s))"
    using assms by (auto simp: iotc_evtd_update_event_on_fd_def iotc_evtd_stop_def Let_def
        execute_keeps_lock)
  show "lock_free s'" if "iotc_evtd_step call t s = Some s'" for s'
  proof -
    let ?s0 = "iotc_lock_critical_section (s\<lparr>ev_current_step := t\<rparr>)"
    from that obtain s1 s2 where a: "evtd_timers_loop call ?s0 = Some s1"
      and b: "evtd_queue_loop call t (iotc_unlock_critical_section s1) = Some s2"
      and c: "s' = evtd_run_on_empty call s2"
      by (auto simp: iotc_evtd_step_def split: option.splits)
    have "lock_held s1" by (rule timers_loop_lock [OF assms(1) _ a]) (use assms(2) in simp)
    then have "lock_free s2" using queue_loop_lock [OF assms(1) _ b] by simp
    with assms(1) c show ?thesis by (simp add: run_on_empty_lock)
  qed
  show "lock_free (snd (snd (iotc_evtd_get_time_of_earliest_event s)))"
    using assms(2) by (auto simp: iotc_evtd_get_time_of_earliest_event_def Let_def)
qed

theorem evtd_lock_discipline_witness:
  "lock_free (snd (iotc_evtd_update_event_on_fd log_call handles_and_socket_fd 5 example_evtd))"
proof -
  have k: "keeps_lock log_call" by (simp add: keeps_lock_def log_call_def lock_free_def)
  have l: "lock_free example_evtd" by (simp add: lock_free_def example_evtd_def)
  from evtd_lock_discipline [OF k l] show ?thesis by blast
qed

section \<open>File descriptors\<close>

text \<open>The tuple of a descriptor.\<close>

definition fd_lookup :: "fd_container \<Rightarrow> int \<Rightarrow> 'z evtd_scheme \<Rightarrow> ptr option" where
  "fd_lookup c fd s = find (\<lambda>p. t_fd (ev_fd s p) = fd) (vec_list (get_container c s))"

lemma find_nth:
  "find P xs = (case find (\<lambda>k. P (xs ! k)) [0..<length xs] of None \<Rightarrow> None | Some k \<Rightarrow> Some (xs ! k))"
proof (cases "find (\<lambda>k. P (xs ! k)) [0..<length xs]")
  case None
  then have "find P xs = None" by (auto simp: find_None_iff in_set_conv_nth)
  with None show ?thesis by simp
next
  case (Some k)
  then have "find P xs = Some (xs ! k)" by (auto simp: find_Some_first find_Some_iff)
  with Some show ?thesis by simp
qed

lemma find_fd_spec:
  assumes "vec_inv (get_container c s)"
  shows "iotc_evtd_find_fd c fd s = - 1 \<longleftrightarrow> fd_lookup c fd s = None"
    and "fd_lookup c fd s = Some p \<Longrightarrow>
      v_elems (get_container c s) ! nat (iotc_evtd_find_fd c fd s) = p"
proof -
  let ?v = "get_container c s"
  note f = vec_find_spec [OF assms, of 0 "\<lambda>e0 value. t_fd (ev_fd s e0) = fd"]
  show "iotc_evtd_find_fd c fd s = - 1 \<longleftrightarrow> fd_lookup c fd s = None"
    by (auto simp: iotc_evtd_find_fd_def f fd_lookup_def find_nth [of _ "vec_list ?v"] split: option.splits)
  assume l: "fd_lookup c fd s = Some p"
  then obtain k where k: "find (\<lambda>k. t_fd (ev_fd s (vec_list ?v ! k)) = fd) [0..<length (vec_list ?v)] = Some k"
    and p: "p = vec_list ?v ! k"
    by (auto simp: fd_lookup_def find_nth [of _ "vec_list ?v"] split: option.splits)
  then have "k < length (vec_list ?v)" by (simp add: find_Some_first)
  with vec_list_nth [OF assms, of "int k"] assms k p
  show "v_elems ?v ! nat (iotc_evtd_find_fd c fd s) = p"
    by (simp add: iotc_evtd_find_fd_def f)
qed

text \<open>An event on a descriptor, with a handler that leaves the dispatcher alone.\<close>

lemma update_event_passive:
  assumes "passive_call call res upd" and "lock_free s" and "vec_inv (get_container c s)"
    and "fd_lookup c fd s = Some p"
  shows "iotc_evtd_update_event_on_fd call c fd s =
    (IOTC_STATE_OK, evtd.more_update (handle_effect upd (t_handle (ev_fd s p)))
      (if t_fd_type (ev_fd s p) = IOTC_EVTD_FD_TYPE_SOCKET
       then s\<lparr>ev_fd := (ev_fd s)(p := (ev_fd s p)\<lparr>t_event_type := IOTC_EVENT_WANT_READ,
                  t_handle := t_read_handle (ev_fd s p)\<rparr>)\<rparr>
       else s))"
proof -
  let ?s1 = "iotc_lock_critical_section s"
  have g: "get_container c ?s1 = get_container c s" "ev_fd ?s1 = ev_fd s"
    using assms(2) by (cases c; simp add: iotc_lock_critical_section_def lock_free_def)+
  then have l: "fd_lookup c fd ?s1 = Some p" using assms(4) by (simp add: fd_lookup_def)
  have v: "vec_inv (get_container c ?s1)" using assms(3) g by simp
  note f = find_fd_spec [OF v, of fd] and cell = find_fd_spec(2) [OF v l]
  from f(1) l have "iotc_evtd_find_fd c fd ?s1 \<noteq> - 1" by simp
  with cell assms(2) show ?thesis
    by (cases s) (simp add: iotc_evtd_update_event_on_fd_def Let_def g execute_passive [OF assms(1)]
        lock_free_def iotc_lock_critical_section_def iotc_unlock_critical_section_def)
qed

text \<open>
  A continuation that was set for a socket with
  \<^verbatim>\<open>iotc_evtd_continue_when_evt_on_socket\<close> is used once: the next event on the socket runs it,
  and the one after that runs the handle the socket was registered with again, for reading.
\<close>

theorem socket_continuation_one_shot:
  assumes "passive_call call res upd" and "lock_free s" and "vec_inv (ev_sockets s)"
    and "fd_lookup handles_and_socket_fd fd s = Some p"
    and "t_fd_type (ev_fd s p) = IOTC_EVTD_FD_TYPE_SOCKET"
    and "iotc_evtd_continue_when_evt_on_socket ev h fd s = (r, s1)"
    and "iotc_evtd_update_event_on_socket call fd s1 = (r1, s2)"
    and "iotc_evtd_update_event_on_socket call fd s2 = (r2, s3)"
  shows "r = 1 \<and> r1 = IOTC_STATE_OK \<and> r2 = IOTC_STATE_OK
    \<and> t_event_type (ev_fd s1 p) = ev \<and> t_event_type (ev_fd s2 p) = IOTC_EVENT_WANT_READ
    \<and> evtd.more s2 = handle_effect upd h (evtd.more s)
    \<and> evtd.more s3 = handle_effect upd (t_read_handle (ev_fd s p)) (evtd.more s2)"
proof -
  let ?c = handles_and_socket_fd
  have v: "vec_inv (get_container ?c (iotc_lock_critical_section s))"
    using assms(2,3) by (simp add: iotc_lock_critical_section_def lock_free_def)
  have l: "fd_lookup ?c fd (iotc_lock_critical_section s) = Some p"
    using assms(2,4) by (simp add: fd_lookup_def iotc_lock_critical_section_def lock_free_def)
  from find_fd_spec(1) [OF v, of fd] find_fd_spec(2) [OF v l] l assms(2,6)
  have r: "r = 1" and s1: "s1 = s\<lparr>ev_fd := (ev_fd s)(p := (ev_fd s p)\<lparr>t_event_type := ev, t_handle := h\<rparr>)\<rparr>"
    by (cases s; auto simp: iotc_evtd_continue_when_evt_on_socket_def Let_def lock_free_def
        iotc_lock_critical_section_def iotc_unlock_critical_section_def)+
  have fd: "(\<lambda>q. t_fd (ev_fd s1 q) = fd) = (\<lambda>q. t_fd (ev_fd s q) = fd)" by (auto simp: s1)
  have l1: "fd_lookup ?c fd s1 = Some p" using assms(4) by (simp only: fd_lookup_def fd) (simp add: s1)
  have v1: "vec_inv (get_container ?c s1)" and f1: "lock_free s1" using assms(2,3) by (simp_all add: s1)
  from update_event_passive [OF assms(1) f1 v1 l1] assms(5,7)
  have s2: "r1 = IOTC_STATE_OK" "s2 = evtd.more_update (handle_effect upd h)
      (s\<lparr>ev_fd := (ev_fd s)(p := (ev_fd s p)\<lparr>t_event_type := IOTC_EVENT_WANT_READ,
         t_handle := t_read_handle (ev_fd s p)\<rparr>)\<rparr>)"
    by (auto simp: iotc_evtd_update_event_on_socket_def s1)
  have fd2: "(\<lambda>q. t_fd (ev_fd s2 q) = fd) = (\<lambda>q. t_fd (ev_fd s q) = fd)" by (auto simp: s2)
  have l2: "fd_lookup ?c fd s2 = Some p" using assms(4) by (simp only: fd_lookup_def fd2) (simp add: s2)
  have v2: "vec_inv (get_container ?c s2)" and f2: "lock_free s2"
    using assms(2,3) by (simp_all add: s2 lock_free_def)
  from update_event_passive [OF assms(1) f2 v2 l2] assms(5,8)
  have "r2 = IOTC_STATE_OK" "evtd.more s3 = handle_effect upd (t_read_handle (ev_fd s p)) (evtd.more s2)"
    by (auto simp: iotc_evtd_update_event_on_socket_def s2)
  with r s2 show ?thesis by (simp add: s1)
qed

theorem socket_continuation_one_shot_witness:
  "\<exists>s1 s2 s3. iotc_evtd_continue_when_evt_on_socket IOTC_EVENT_WANT_WRITE (iotc_make_handle_argc0 0 77) 5
      example_evtd = (1, s1)
    \<and> iotc_evtd_update_event_on_socket log_call 5 s1 = (IOTC_STATE_OK, s2)
    \<and> iotc_evtd_update_event_on_socket log_call 5 s2 = (IOTC_STATE_OK, s3)
    \<and> evtd.more s3 = [77, 50]"
proof -
  let ?h = "iotc_make_handle_argc0 0 77"
  obtain r s1 where c: "iotc_evtd_continue_when_evt_on_socket IOTC_EVENT_WANT_WRITE ?h 5 example_evtd = (r, s1)"
    by fastforce
  obtain r1 s2 where u1: "iotc_evtd_update_event_on_socket log_call 5 s1 = (r1, s2)" by fastforce
  obtain r2 s3 where u2: "iotc_evtd_update_event_on_socket log_call 5 s2 = (r2, s3)" by fastforce
  have l: "lock_free example_evtd" "vec_inv (ev_sockets example_evtd)"
    "fd_lookup handles_and_socket_fd 5 example_evtd = Some 30"
    "t_fd_type (ev_fd example_evtd 30) = IOTC_EVTD_FD_TYPE_SOCKET"
    by (simp_all add: lock_free_def example_evtd_def vec_inv_def fd_lookup_def vec_list_def)
  have rh: "t_read_handle (ev_fd example_evtd 30) = iotc_make_handle_argc0 0 50" "evtd.more example_evtd = []"
    by (simp_all add: example_evtd_def)
  from socket_continuation_one_shot [OF log_call_passive l c u1 u2] c u1 u2 rh show ?thesis
    by (auto simp: handle_effect_def iotc_make_handle_argc0_def iotc_handle_disposed_def)
qed

section \<open>Blocks of the dispatcher\<close>

lemma vec_pushes_ok_oracle: "vec_pushes v xs m = (v', m') \<Longrightarrow> m_ok m' = m_ok m"
proof (induction xs arbitrary: v m)
  case (Cons x xs)
  then show ?case by (auto split: prod.splits dest: vec_push_ok_oracle)
qed simp

lemma find_append:
  "find P (xs @ ys) = (case find P xs of None \<Rightarrow> find P ys | Some x \<Rightarrow> Some x)"
  by (induction xs) auto

text \<open>A vector keeps what it owns while the rest of the heap changes around it.\<close>

lemma grown_alloc:
  assumes "grown base v m" and "iotc_alloc n m = (p, m')" and "p \<noteq> NULL"
  shows "grown (base(p \<mapsto> n)) v m'" and "base p = None" and "p \<noteq> v_self v" and "p \<noteq> v_array v"
proof -
  from assms(1) have w: "wf_mem m" and o: "owns_over base v m" by (auto simp: grown_def)
  have l: "m_live m' = (m_live m)(p \<mapsto> n)" by (rule alloc_live [OF w assms(2,3)])
  have f: "m_live m p = None" by (rule alloc_fresh [OF w assms(2)])
  with o show n: "base p = None" and s: "p \<noteq> v_self v" and a: "p \<noteq> v_array v"
    by (auto simp: owns_over_def split: if_splits)
  have "owns_over (base(p \<mapsto> n)) v m'"
    using o l s a by (auto simp: owns_over_def fun_eq_iff)
  then show "grown (base(p \<mapsto> n)) v m'"
    using assms(1) alloc_wf [OF w assms(2)] alloc_bad [OF assms(2)] alloc_ok_oracle [OF assms(2)]
    by (simp add: grown_def malloc_bounded_def)
qed

lemma grown_free:
  assumes "grown base v m" and "base p \<noteq> None"
  shows "grown (base(p := None)) v (IOTC_SAFE_FREE p m)" and "p \<noteq> v_self v" and "p \<noteq> v_array v"
proof -
  from assms(1) have w: "wf_mem m" and o: "owns_over base v m" by (auto simp: grown_def)
  from o assms(2) show s: "p \<noteq> v_self v" and a: "p \<noteq> v_array v" by (auto simp: owns_over_def)
  have l: "m_live m p \<noteq> None" using o assms(2) s a by (auto simp: owns_over_def)
  have "owns_over (base(p := None)) v (IOTC_SAFE_FREE p m)"
    using o s a w by (auto simp: owns_over_def mem_simps fun_eq_iff)
  then show "grown (base(p := None)) v (IOTC_SAFE_FREE p m)"
    using assms(1) l w by (simp add: grown_def malloc_bounded_def mem_simps)
qed

lemma grown_cells:
  assumes "grown base v m" and "vec_inv v'" and "\<exists>es n. v' = v\<lparr>v_elems := es, v_elem_no := n\<rparr>"
  shows "grown base v' m"
  using assms by (auto simp: grown_def owns_over_def)

lemma register_fd_spec:
  assumes g: "grown base (get_container c s) (ev_mem s)" and lk: "lock_free s"
    and r: "iotc_evtd_register_fd c ev ty fd rh ch s = (r, s')"
  shows "lock_free s' \<and> (r = 0 \<longrightarrow> grown base (get_container c s') (ev_mem s') \<and> get_container c s' = get_container c s)
    \<and> (r \<noteq> 0 \<longrightarrow> r = 1 \<and> (\<exists>p. base p = None \<and> p \<noteq> NULL \<and> grown (base(p \<mapsto> sizeof_fd_tuple)) (get_container c s') (ev_mem s')
         \<and> vec_list (get_container c s') = vec_list (get_container c s) @ [p]
         \<and> ev_fd s' = (ev_fd s)(p := \<lparr>t_fd = fd, t_handle = ch, t_read_handle = rh,
                  t_event_type = ev, t_fd_type = ty\<rparr>)))"
proof -
  let ?v = "get_container c s"
  obtain p m1 where al: "iotc_alloc sizeof_fd_tuple (ev_mem s) = (p, m1)" by fastforce
  have lm: "ev_mem (iotc_lock_critical_section s) = ev_mem s" by (simp add: iotc_lock_critical_section_def)
  have lf: "lock_free s'"
    using r lk by (auto simp: iotc_evtd_register_fd_def Let_def split: prod.splits option.splits if_splits)
  show ?thesis
  proof (cases "p = NULL")
    case True
    from g have w: "wf_mem (ev_mem s)" by (simp add: grown_def)
    have "get_container c s' = ?v" "ev_mem s' = m1" "r = 0"
      using r al True lk by (cases c; simp add: iotc_evtd_register_fd_def Let_def lm lock_free_def
        iotc_lock_critical_section_def iotc_unlock_critical_section_def; force)+
    moreover have "m_live m1 = m_live (ev_mem s)" using alloc_null_live [OF w] al True by simp
    ultimately show ?thesis
      using g alloc_wf [OF w al] alloc_bad [OF al] alloc_ok_oracle [OF al] lf
      by (simp add: grown_def owns_over_def malloc_bounded_def)
  next
    case False
    note ga = grown_alloc [OF g al False]
    obtain x v m2 where push: "iotc_vector_push ?v p m1 = (x, v, m2)" by (metis prod_cases3)
    note pg = vec_push_grown [OF ga(1) push]
    show ?thesis
    proof (cases x)
      case None
      have "get_container c s' = v" "ev_mem s' = IOTC_SAFE_FREE p m2" "r = 0"
        using r al False push None lk by (cases c; simp add: iotc_evtd_register_fd_def Let_def lm lock_free_def
          iotc_lock_critical_section_def iotc_unlock_critical_section_def; force)+
      moreover have "(base(p \<mapsto> sizeof_fd_tuple))(p := None) = base" using ga(2) by auto
      ultimately show ?thesis
        using grown_free(1) [OF pg(1), of p] pg(2) None lf by simp
    next
      case (Some k)
      have "get_container c s' = v" "ev_mem s' = m2" "r = 1"
        "ev_fd s' = (ev_fd s)(p := \<lparr>t_fd = fd, t_handle = ch, t_read_handle = rh,
                  t_event_type = ev, t_fd_type = ty\<rparr>)"
        using r al False push Some lk by (cases c; simp add: iotc_evtd_register_fd_def Let_def lm lock_free_def
          iotc_lock_critical_section_def iotc_unlock_critical_section_def; force)+
      with pg(1,3) Some ga(2) False lf show ?thesis by auto
    qed
  qed
qed

lemma container_simps [simp]:
  "get_container c (set_container c v s) = v" "ev_mem (set_container c v s) = ev_mem s"
  "ev_fd (set_container c v s) = ev_fd s"
  "get_container c (s\<lparr>ev_mem := m\<rparr>) = get_container c s"
  "get_container c (iotc_unlock_critical_section s) = get_container c s"
  "ev_mem (iotc_unlock_critical_section s) = ev_mem s"
  "ev_fd (iotc_unlock_critical_section s) = ev_fd s"
  "get_container c (iotc_lock_critical_section s) = get_container c s"
  "ev_mem (iotc_lock_critical_section s) = ev_mem s"
  "ev_fd (iotc_lock_critical_section s) = ev_fd s"
  by (cases c; simp add: iotc_lock_critical_section_def iotc_unlock_critical_section_def)+

lemma unregister_fd_spec:
  assumes g: "grown base (get_container c s) (ev_mem s)" and lk: "lock_free s"
    and l: "fd_lookup c fd s = Some p" and b: "base p \<noteq> None" and d: "distinct (vec_list (get_container c s))"
    and r: "iotc_evtd_unregister_fd c fd s = (r, s')"
  shows "r = 1 \<and> lock_free s' \<and> grown (base(p := None)) (get_container c s') (ev_mem s')
    \<and> mset (vec_list (get_container c s')) = mset (vec_list (get_container c s)) - {#p#}
    \<and> ev_fd s' = ev_fd s"
proof -
  let ?v = "get_container c s" and ?s1 = "iotc_lock_critical_section s"
  have g1: "get_container c ?s1 = ?v" "ev_fd ?s1 = ev_fd s" "ev_mem ?s1 = ev_mem s"
    by simp_all
  have inv: "vec_inv ?v" using g by (simp add: grown_def)
  have l1: "fd_lookup c fd ?s1 = Some p" using l by (simp add: fd_lookup_def g1)
  have inv1: "vec_inv (get_container c ?s1)" using inv g1 by simp
  define id where "id = iotc_evtd_find_fd c fd ?s1"
  have ne: "id \<noteq> - 1" and cell: "v_elems ?v ! nat id = p"
    using find_fd_spec [OF inv1, of fd] l1 g1 by (auto simp: id_def)
  have rng: "0 \<le> id" "id < v_elem_no ?v"
  proof -
    note f = vec_find_spec [OF inv, of 0 "\<lambda>e0 value. t_fd (ev_fd s e0) = fd"]
    have idf: "id = iotc_vector_find ?v 0 (\<lambda>e0 value. t_fd (ev_fd s e0) = fd)"
      by (simp add: id_def iotc_evtd_find_fd_def g1)
    with f ne show "0 \<le> id" by (auto split: option.splits)
    with vec_find_nonneg(1) [OF inv idf [symmetric]] inv show "id < v_elem_no ?v" by simp
  qed
  let ?v1 = "?v\<lparr>v_elems := (v_elems ?v)[nat id := NULL]\<rparr>"
  have n: "nat id < length (vec_list ?v)" using rng inv by simp
  have v1: "vec_inv ?v1" "vec_list ?v1 = (vec_list ?v)[nat id := NULL]" "v_elem_no ?v1 = v_elem_no ?v"
    using inv n by (auto simp: vec_inv_def vec_list_def take_update_swap)
  from vec_del_spec [OF v1(1), of id] rng v1 have d1: "vec_inv (iotc_vector_del ?v1 id)"
    "vec_list (iotc_vector_del ?v1 id) = drop_index ((vec_list ?v)[nat id := NULL]) (nat id)" by simp_all
  have p: "vec_list ?v ! nat id = p" using cell vec_list_nth [OF inv rng] by simp
  have ms: "mset (vec_list (iotc_vector_del ?v1 id)) = mset (vec_list ?v) - {#p#}"
    unfolding d1(2) using mset_drop_index [of "nat id" "(vec_list ?v)[nat id := NULL]"] n
    by (simp add: mset_update p [symmetric] del: vec_list_length)
  have "get_container c s' = iotc_vector_del ?v1 id" "ev_mem s' = IOTC_SAFE_FREE p (ev_mem s)"
    "r = 1" "ev_fd s' = ev_fd s"
    using r ne by (auto simp: iotc_evtd_unregister_fd_def Let_def cell simp flip: id_def)
  moreover have "grown (base(p := None)) (iotc_vector_del ?v1 id) (IOTC_SAFE_FREE p (ev_mem s))"
    by (rule grown_cells [OF grown_free(1) [OF g b] d1(1)])
      (use vec_del_same_cells [of ?v1 id] in auto)
  moreover have "lock_free s'"
    using r lk by (auto simp: iotc_evtd_unregister_fd_def Let_def split: if_splits)
  ultimately show ?thesis using ms by simp
qed

text \<open>
  Registering a descriptor that is not in the table either refuses and leaves the table and
  the heap as they were, or makes the descriptor's tuple found with the handles and the events that were
  given; unregistering it afterwards gives its block back, leaves the other tuples and restores the
  heap exactly.
\<close>

theorem register_unregister_fd:
  assumes "grown base (get_container c s) (ev_mem s)" and "lock_free s"
    and "distinct (vec_list (get_container c s))" and "set (vec_list (get_container c s)) \<subseteq> dom base"
    and "fd_lookup c fd s = None" and "iotc_evtd_register_fd c ev ty fd rh ch s = (r, s1)"
    and "iotc_evtd_unregister_fd c fd s1 = (r2, s2)"
  shows "(r = 0 \<longrightarrow> get_container c s1 = get_container c s \<and> m_live (ev_mem s1) = m_live (ev_mem s))
    \<and> (r \<noteq> 0 \<longrightarrow> r = 1
        \<and> (\<exists>p. fd_lookup c fd s1 = Some p \<and> ev_fd s1 p = \<lparr>t_fd = fd, t_handle = ch, t_read_handle = rh,
                  t_event_type = ev, t_fd_type = ty\<rparr>)
        \<and> r2 = 1 \<and> mset (vec_list (get_container c s2)) = mset (vec_list (get_container c s))
        \<and> grown base (get_container c s2) (ev_mem s2))"
proof -
  note rg = register_fd_spec [OF assms(1,2,6)]
  have "m_live (ev_mem s1) = m_live (ev_mem s)" if "r = 0"
    using rg that assms(1) by (auto simp: grown_def owns_over_def)
  moreover have "r = 1
        \<and> (\<exists>p. fd_lookup c fd s1 = Some p \<and> ev_fd s1 p = \<lparr>t_fd = fd, t_handle = ch, t_read_handle = rh,
                  t_event_type = ev, t_fd_type = ty\<rparr>)
        \<and> r2 = 1 \<and> mset (vec_list (get_container c s2)) = mset (vec_list (get_container c s))
        \<and> grown base (get_container c s2) (ev_mem s2)" if "r \<noteq> 0"
  proof -
    from rg that obtain p where p: "base p = None" "p \<noteq> NULL"
      "grown (base(p \<mapsto> sizeof_fd_tuple)) (get_container c s1) (ev_mem s1)"
      "vec_list (get_container c s1) = vec_list (get_container c s) @ [p]"
      "ev_fd s1 = (ev_fd s)(p := \<lparr>t_fd = fd, t_handle = ch, t_read_handle = rh,
                  t_event_type = ev, t_fd_type = ty\<rparr>)" and r1: "r = 1" and lk: "lock_free s1" by blast
    have pn: "p \<notin> set (vec_list (get_container c s))" using p(1) assms(4) by auto
    have "\<forall>q\<in>set (vec_list (get_container c s)). t_fd (ev_fd s q) \<noteq> fd"
      using assms(5) by (simp add: fd_lookup_def find_None_iff)
    then have "find (\<lambda>q. t_fd (ev_fd s1 q) = fd) (vec_list (get_container c s)) = None"
      using pn by (auto simp: find_None_iff p(5))
    then have l: "fd_lookup c fd s1 = Some p"
      by (simp add: fd_lookup_def p(4) find_append) (simp add: p(5))
    have d: "distinct (vec_list (get_container c s1))" using assms(3) pn p(4) by simp
    from unregister_fd_spec [OF p(3) lk l _ d assms(7)] p(1,4)
    have u: "r2 = 1" "mset (vec_list (get_container c s2)) = mset (vec_list (get_container c s))"
      "grown ((base(p \<mapsto> sizeof_fd_tuple))(p := None)) (get_container c s2) (ev_mem s2)" by auto
    moreover have "(base(p \<mapsto> sizeof_fd_tuple))(p := None) = base" using p(1) by auto
    ultimately show ?thesis using r1 l p(5) by simp
  qed
  ultimately show ?thesis using rg by blast
qed

theorem register_unregister_fd_witness:
  "\<exists>s :: nat list evtd_scheme. \<exists>r s1 r2 s2. iotc_evtd_register_socket_fd 5 zeroed_handle s = (r, s1)
    \<and> iotc_evtd_unregister_socket_fd 5 s1 = (r2, s2) \<and> r = 1 \<and> r2 = 1
    \<and> grown Map.empty (ev_sockets s2) (ev_mem s2)"
proof -
  let ?c = handles_and_socket_fd
  obtain v m where g: "grown Map.empty v m" and l: "vec_list v = []" and ok: "m_ok m = (\<lambda>i n. n < 2 ^ 63)"
    by (rule fresh_vec)
  let ?s = "example_evtd\<lparr>ev_sockets := v, ev_mem := m\<rparr>"
  obtain r s1 where r: "iotc_evtd_register_fd ?c IOTC_EVENT_WANT_READ IOTC_EVTD_FD_TYPE_SOCKET 5 zeroed_handle
      zeroed_handle ?s = (r, s1)" by fastforce
  obtain r2 s2 where r2: "iotc_evtd_unregister_fd ?c 5 s1 = (r2, s2)" by fastforce
  have gs: "grown Map.empty (get_container ?c ?s) (ev_mem ?s)" and lk: "lock_free ?s"
    and d: "distinct (vec_list (get_container ?c ?s))" and sub: "set (vec_list (get_container ?c ?s)) \<subseteq> dom Map.empty"
    and n: "fd_lookup ?c 5 ?s = None"
    using g l by (simp_all add: lock_free_def example_evtd_def fd_lookup_def)
  have "r \<noteq> 0"
  proof -
    obtain p m1 where al: "iotc_alloc sizeof_fd_tuple m = (p, m1)" by fastforce
    have w: "wf_mem m" using g by (simp add: grown_def)
    have p: "p \<noteq> NULL" using alloc_granted [OF w _ al] ok by (simp add: sizeof_fd_tuple_def)
    obtain x v1 m2 where push: "iotc_vector_push v p m1 = (x, v1, m2)" by (metis prod_cases3)
    have "v_elem_no v = 0" using vec_list_empty_iff g l by (simp add: grown_def)
    with vec_push_granted [OF grown_alloc(1) [OF g al p] _ _ push] ok alloc_ok_oracle [OF al]
    have "x \<noteq> None" by simp
    with r al p push show ?thesis
      by (auto simp: iotc_evtd_register_fd_def Let_def iotc_lock_critical_section_def example_evtd_def)
  qed
  with register_unregister_fd [OF gs lk d sub n r r2] r r2 show ?thesis
    by (intro exI [of _ ?s] exI [of _ r] exI [of _ s1] exI [of _ r2] exI [of _ s2])
      (simp add: iotc_evtd_register_socket_fd_def iotc_evtd_unregister_socket_fd_def)
qed

lemma te_inv_new:
  assumes "te_inv v te" and "p \<notin> set (vec_list v)"
  shows "te_inv v (te\<lparr>te_at := (te_at te)(p := e)\<rparr>)"
proof -
  let ?te = "te\<lparr>te_at := (te_at te)(p := e)\<rparr>"
  have eq: "te_at ?te q = te_at te q" if "q \<in> set (vec_list v)" for q using that assms(2) by auto
  then have "map (te_time ?te) (vec_list v) = map (te_time te) (vec_list v)" by simp
  then have "sorted (map (te_time ?te) (vec_list v))" using assms(1) by (simp only: te_inv_def)
  moreover have "pos_ok v ?te" using assms(1) eq by (simp add: te_inv_def pos_ok_def)
  ultimately show ?thesis using assms eq by (auto simp: te_inv_def)
qed

text \<open>A delayed call that the queue has room for.\<close>

lemma execute_in_adds:
  assumes g: "grown base (ev_timers s) (ev_mem s)" and i: "te_inv (ev_timers s) (ev_te s)"
    and ok: "\<forall>i n. n < 2 ^ 63 \<longrightarrow> m_ok (ev_mem s) i n" and room: "v_elem_no (ev_timers s) < 64"
    and sub: "set (vec_list (ev_timers s)) \<subseteq> dom base" and h: "h \<noteq> NULL" "te_hnd (ev_te s) h = NULL"
    and r: "iotc_evtd_execute_in hdl t h s = (st, s')"
  shows "st = IOTC_STATE_OK \<and> (\<exists>p. p \<notin> set (vec_list (ev_timers s)) \<and> p \<noteq> NULL \<and> te_hnd (ev_te s') = (te_hnd (ev_te s))(h := p)
    \<and> set (vec_list (ev_timers s')) = insert p (set (vec_list (ev_timers s)))
    \<and> te_time (ev_te s') p = to_int64 (ev_current_step s + t)
    \<and> te_event_handle (te_at (ev_te s') p) = hdl)
    \<and> te_inv (ev_timers s') (ev_te s')"
proof -
  obtain p m1 where al: "iotc_alloc sizeof_time_event (ev_mem s) = (p, m1)" by fastforce
  have w: "wf_mem (ev_mem s)" using g by (simp add: grown_def)
  have p: "p \<noteq> NULL" using alloc_granted [OF w _ al] ok by (simp add: sizeof_time_event_def)
  note ga = grown_alloc [OF g al p]
  have pn: "p \<notin> set (vec_list (ev_timers s))" using ga(2) sub by auto
  let ?e = "new_time_event hdl (to_int64 (ev_current_step s + t))"
  let ?te = "(ev_te s)\<lparr>te_at := (te_at (ev_te s))(p := ?e)\<rparr>"
  have i1: "te_inv (ev_timers s) ?te" by (rule te_inv_new [OF i pn])
  obtain st' v te m2 where a: "iotc_time_event_add (ev_timers s) ?te p h m1 = (st', v, te, m2)"
    by (metis prod_cases4)
  have ok1: "\<forall>i n. n < 2 ^ 63 \<longrightarrow> m_ok m1 i n" using ok alloc_ok_oracle [OF al] by simp
  from te_add_granted [OF ga(1) ok1 room a] have st: "st' = IOTC_STATE_OK" by simp
  from r al p a have "st = st'" "ev_timers s' = v" "ev_te s' = te"
    by (auto simp: iotc_evtd_execute_in_def Let_def iotc_lock_critical_section_def
        iotc_unlock_critical_section_def split: if_splits)
  with te_add_all [OF ga(1) i1 p pn _ _ a] st h p pn show ?thesis
    by (auto simp: new_time_event_def)
qed

lemma execute_in_full_leaks:
  assumes "grown base (ev_timers s) (ev_mem s)" and "v_elem_no (ev_timers s) = 64"
    and "m_ok (ev_mem s) (m_seq (ev_mem s)) sizeof_time_event"
    and "iotc_evtd_execute_in h t hdl s = (r, s')"
  shows "r = IOTC_OUT_OF_MEMORY \<and> ev_timers s' = ev_timers s
    \<and> (\<exists>p. m_live (ev_mem s) p = None \<and> m_live (ev_mem s') = (m_live (ev_mem s))(p \<mapsto> sizeof_time_event))
    \<and> wf_mem (ev_mem s')"
proof -
  obtain p m1 where al: "iotc_alloc sizeof_time_event (ev_mem s) = (p, m1)" by fastforce
  from assms(1) have w: "wf_mem (ev_mem s)" and inv: "vec_inv (ev_timers s)"
    and c: "v_capacity (ev_timers s) \<in> {2, 4, 8, 16, 32, 64}" by (auto simp: grown_def)
  have p: "p \<noteq> NULL" by (rule alloc_granted [OF w assms(3) al])
  obtain x v m2 where push: "iotc_vector_push (ev_timers s) p m1 = (x, v, m2)" by (metis prod_cases3)
  note g1 = grown_alloc(1) [OF assms(1) al p]
  then have w1: "wf_mem m1" "malloc_bounded m1" by (auto simp: grown_def)
  have full: "v_elem_no (ev_timers s) = v_capacity (ev_timers s)"
    using inv c assms(2) by (auto simp: vec_inv_def)
  have "x = None"
  proof (rule ccontr)
    assume "x \<noteq> None"
    then obtain k where "x = Some k" by auto
    with vec_push_grow(1) [OF inv full w1] push full assms(2) show False by auto
  qed
  with vec_push_fail [OF inv w1(1), of p v m2] push have "v = ev_timers s" "m_live m2 = m_live m1" "wf_mem m2" by auto
  with al p push \<open>x = None\<close> assms(4) alloc_live [OF w al p] alloc_fresh [OF w al] show ?thesis
    by (auto simp: iotc_evtd_execute_in_def Let_def iotc_lock_critical_section_def
        iotc_unlock_critical_section_def iotc_time_event_add_def iotc_insert_time_event_def split: if_splits)
qed

text \<open>
  A delayed call that is asked for when the queue of delayed events is full (64 events) is
  refused with \<^verbatim>\<open>IOTC_OUT_OF_MEMORY\<close>, but the block of its time event is not released: it stays
  live and nothing refers to it.
\<close>

theorem execute_in_full_queue_leaks:
  assumes "grown base (ev_timers s) (ev_mem s)" and "v_elem_no (ev_timers s) = 64"
    and "m_ok (ev_mem s) (m_seq (ev_mem s)) sizeof_time_event"
    and "iotc_evtd_execute_in h t hdl s = (r, s')"
  shows "r = IOTC_OUT_OF_MEMORY \<and> ev_timers s' = ev_timers s
    \<and> (\<exists>p. m_live (ev_mem s) p = None \<and> m_live (ev_mem s') = (m_live (ev_mem s))(p \<mapsto> sizeof_time_event))"
  using execute_in_full_leaks [OF assms] by blast

theorem execute_in_full_queue_leaks_witness:
  "\<exists>s :: nat list evtd_scheme. \<exists>s'. iotc_evtd_execute_in zeroed_handle 3 0 s = (IOTC_OUT_OF_MEMORY, s')
     \<and> (\<exists>p. m_live (ev_mem s) p = None \<and> m_live (ev_mem s') = (m_live (ev_mem s))(p \<mapsto> sizeof_time_event))"
proof -
  obtain v m where g: "grown Map.empty v m" and l: "vec_list v = []" and ok: "m_ok m = (\<lambda>i n. n < 2 ^ 63)"
    by (rule fresh_vec)
  obtain v' m' where ps: "vec_pushes v (replicate 64 1) m = (v', m')" by fastforce
  have ok': "\<forall>i n. n < 2 ^ 63 \<longrightarrow> m_ok m i n" by (simp add: ok)
  from vec_pushes_list [OF g ok' ps] l have l': "length (vec_list v') = 64" by simp
  have g': "grown Map.empty v' m'" by (rule vec_pushes_grown [OF g ps])
  have okm: "m_ok m' = m_ok m" by (rule vec_pushes_ok_oracle [OF ps])
  let ?s = "example_evtd\<lparr>ev_timers := v', ev_mem := m'\<rparr>"
  obtain r s' where r: "iotc_evtd_execute_in zeroed_handle 3 0 ?s = (r, s')" by fastforce
  have gs: "grown Map.empty (ev_timers ?s) (ev_mem ?s)" using g' by simp
  have n: "v_elem_no (ev_timers ?s) = 64" using g' l' by (simp add: grown_def vec_inv_def)
  have m: "m_ok (ev_mem ?s) (m_seq (ev_mem ?s)) sizeof_time_event" by (simp add: okm ok sizeof_time_event_def)
  from execute_in_full_queue_leaks [OF gs n m r] r show ?thesis by blast
qed
end
