(* ===== verification/Iotc_Timed_Task.thy ===== *)
theory Iotc_Timed_Task
  imports Iotc_Handle Iotc_Dispatcher
begin

text \<open>
  Timed tasks of the user, \<^verbatim>\<open>src/libiotc/iotc_timed_task.c\<close>: a container with its own critical
  section and a table of handles, over the delayed events of the dispatcher. The state extends that of
  the dispatcher by the container and the contents of the tasks. A task's
  \<^verbatim>\<open>delayed_event\<close> is a field of its block, so its address is known by the block's.
\<close>

datatype timed_task_state = IOTC_TTS_SCHEDULED | IOTC_TTS_RUNNING | IOTC_TTS_DELETABLE

record timed_task =
  tk_callback :: ptr
  tk_context_handle :: int
  tk_data :: ptr
  tk_seconds_repeat :: int
  tk_state :: timed_task_state

record tasks = evtd +
  tt_self :: ptr
  tt_vec :: vec
  tt_cs :: ptr
  tt_cs_state :: bool
  tt_spins :: bool
  tt_at :: "ptr \<Rightarrow> timed_task"

definition IOTC_MAX_TIMED_EVENT :: int where
  "IOTC_MAX_TIMED_EVENT = 64"

definition sizeof_timed_task :: nat where "sizeof_timed_task = 56"
definition sizeof_task_container :: nat where "sizeof_task_container = 16"

definition tt_lock :: "'z tasks_scheme \<Rightarrow> 'z tasks_scheme" where
  "tt_lock s = (if tt_cs_state s then s\<lparr>tt_spins := True\<rparr> else s\<lparr>tt_cs_state := True\<rparr>)"

definition tt_unlock :: "'z tasks_scheme \<Rightarrow> 'z tasks_scheme" where
  "tt_unlock s = (if tt_cs_state s then s\<lparr>tt_cs_state := False\<rparr> else s\<lparr>tt_spins := True\<rparr>)"

text \<open>The result is the container's block, its vector (which is not checked) and its critical section.\<close>

definition iotc_make_timed_task_container :: "mem \<Rightarrow> (ptr \<times> vec option \<times> ptr) option \<times> mem" where
  "iotc_make_timed_task_container m =
     (case iotc_alloc sizeof_task_container m of (container, m1) \<Rightarrow>
        if container = NULL then (None, IOTC_SAFE_FREE container m1)
        else
          (case iotc_vector_create m1 of (v, m2) \<Rightarrow>
           case iotc_alloc sizeof_critical_section m2 of (cs, m3) \<Rightarrow>
             if cs = NULL then (None, IOTC_SAFE_FREE container m3)
             else (Some (container, v, cs), m3)))"

definition iotc_destroy_timed_task_container :: "'z tasks_scheme \<Rightarrow> 'z tasks_scheme" where
  "iotc_destroy_timed_task_container s =
     (let m1 = iotc_vector_destroy (tt_vec s) (ev_mem s);
          m2 = IOTC_SAFE_FREE (tt_cs s) m1
      in s\<lparr>ev_mem := IOTC_SAFE_FREE (tt_self s) m2\<rparr>)"

text \<open>The error path frees the task; it does not release the critical section.\<close>

definition iotc_add_timed_task ::
    "ptr \<Rightarrow> int \<Rightarrow> ptr \<Rightarrow> int \<Rightarrow> bool \<Rightarrow> ptr \<Rightarrow> 'z tasks_scheme \<Rightarrow> int \<times> 'z tasks_scheme" where
  "iotc_add_timed_task wrapper context_handle callback seconds_from_now repeats_forever data s =
     (case iotc_alloc sizeof_timed_task (ev_mem s) of (task, m1) \<Rightarrow>
        if task = NULL then (- (state_code IOTC_OUT_OF_MEMORY), s\<lparr>ev_mem := m1\<rparr>)
        else
          (let s1 = s\<lparr>ev_mem := m1,
                      ev_te := (ev_te s)\<lparr>te_hnd := (te_hnd (ev_te s))(task := NULL)\<rparr>,
                      tt_at := (tt_at s)(task :=
                        \<lparr>tk_callback = callback, tk_context_handle = context_handle, tk_data = data,
                         tk_seconds_repeat = (if repeats_forever then seconds_from_now else 0),
                         tk_state = IOTC_TTS_SCHEDULED\<rparr>)\<rparr>;
               s2 = tt_lock s1
           in case iotc_register_handle_for_object (tt_vec s2) IOTC_MAX_TIMED_EVENT task (ev_mem s2) of
                (state, v, m2) \<Rightarrow>
                  (let s3 = s2\<lparr>tt_vec := v, ev_mem := m2\<rparr>
                   in if state \<noteq> IOTC_STATE_OK
                      then (- (state_code state), s3\<lparr>ev_mem := IOTC_SAFE_FREE task (ev_mem s3)\<rparr>)
                      else
                        (case iotc_find_handle_for_object (tt_vec s3) task of (state, task_handle) \<Rightarrow>
                           if state \<noteq> IOTC_STATE_OK
                           then (- (state_code state), s3\<lparr>ev_mem := IOTC_SAFE_FREE task (ev_mem s3)\<rparr>)
                           else
                             (let s4 = tt_unlock s3
                              in case iotc_evtd_execute_in
                                       (iotc_make_handle_argc2 IOTC_THREADID_MAINTHREAD wrapper task (tt_self s4))
                                       seconds_from_now task s4 of
                                   (state, s5) \<Rightarrow>
                                     if state \<noteq> IOTC_STATE_OK
                                     then (- (state_code state),
                                           s5\<lparr>ev_mem := IOTC_SAFE_FREE task (ev_mem s5)\<rparr>)
                                     else (task_handle, s5))))))"

definition iotc_remove_timed_task :: "int \<Rightarrow> 'z tasks_scheme \<Rightarrow> 'z tasks_scheme" where
  "iotc_remove_timed_task timed_task_handle s =
     (let s1 = tt_lock s;
          task = iotc_object_for_handle (tt_vec s1) timed_task_handle;
          s2 = (if task \<noteq> NULL then
                  (if tk_state (tt_at s1 task) = IOTC_TTS_SCHEDULED then
                     (let s3 = snd (iotc_evtd_cancel task s1);
                          s4 = s3\<lparr>tt_vec := snd (iotc_delete_handle_for_object (tt_vec s3) task)\<rparr>
                      in s4\<lparr>ev_mem := IOTC_SAFE_FREE task (ev_mem s4)\<rparr>)
                   else if tk_state (tt_at s1 task) = IOTC_TTS_RUNNING
                   then s1\<lparr>tt_at := (tt_at s1)(task := (tt_at s1 task)\<lparr>tk_state := IOTC_TTS_DELETABLE\<rparr>)\<rparr>
                   else s1)
                else s1)
      in tt_unlock s2)"

text \<open>\<open>user f c h d\<close> is what the user's callback \<open>f\<close> does, called with the context, the handle and the
  data.\<close>

definition iotc_timed_task_callback_wrapper ::
    "(ptr \<Rightarrow> int \<Rightarrow> int \<Rightarrow> ptr \<Rightarrow> 'z tasks_scheme \<Rightarrow> 'z tasks_scheme) \<Rightarrow> ptr \<Rightarrow> ptr \<Rightarrow>
     'z tasks_scheme \<Rightarrow> iotc_state \<times> 'z tasks_scheme" where
  "iotc_timed_task_callback_wrapper user wrapper task s =
     (let s1 = tt_lock s
      in case iotc_find_handle_for_object (tt_vec s1) task of (state, task_handle) \<Rightarrow>
           (let s2 = (if state = IOTC_STATE_OK
                      then s1\<lparr>tt_at := (tt_at s1)(task := (tt_at s1 task)\<lparr>tk_state := IOTC_TTS_RUNNING\<rparr>)\<rparr>
                      else s1);
                s3 = tt_unlock s2
            in if state = IOTC_STATE_OK then
                 (let t = tt_at s3 task;
                      s4 = user (tk_callback t) (tk_context_handle t) task_handle (tk_data t) s3;
                      s5 = tt_lock s4
                  in if tk_seconds_repeat (tt_at s5 task) = 0 \<or> tk_state (tt_at s5 task) = IOTC_TTS_DELETABLE
                     then
                       (let s6 = s5\<lparr>tt_vec := snd (iotc_delete_handle_for_object (tt_vec s5) task)\<rparr>
                        in (state, tt_unlock (s6\<lparr>ev_mem := IOTC_SAFE_FREE task (ev_mem s6)\<rparr>)))
                     else
                       (case iotc_evtd_execute_in (iotc_make_handle_argc2 IOTC_THREADID_MAINTHREAD wrapper task (tt_self s5))
                               (tk_seconds_repeat (tt_at s5 task)) task s5 of
                          (state, s6) \<Rightarrow>
                            (state, tt_unlock (s6\<lparr>tt_at := (tt_at s6)(task :=
                               (tt_at s6 task)\<lparr>tk_state := IOTC_TTS_SCHEDULED\<rparr>)\<rparr>))))
               else (state, s3)))"

section \<open>Properties\<close>

definition tt_free :: "'z tasks_scheme \<Rightarrow> bool" where
  "tt_free s \<longleftrightarrow> \<not> tt_cs_state s \<and> \<not> tt_spins s"

text \<open>
  The error path of \<^verbatim>\<open>iotc_add_timed_task\<close> leaves the critical section locked: when the table is
  full, with 64 tasks and no free slot, adding a task is refused and the task is freed, but the next
  call that takes the lock spins forever.
\<close>

theorem add_to_full_table_keeps_lock:
  assumes "vec_inv (tt_vec s)" and "v_elem_no (tt_vec s) = 64" and "NULL \<notin> set (vec_list (tt_vec s))"
    and "wf_mem (ev_mem s)" and "m_ok (ev_mem s) (m_seq (ev_mem s)) sizeof_timed_task" and "tt_free s"
    and "iotc_add_timed_task wrapper ctx cb secs rep data s = (r, s')"
  shows "r = - (state_code IOTC_NO_MORE_RESOURCE_AVAILABLE) \<and> m_live (ev_mem s') = m_live (ev_mem s)
    \<and> tt_vec s' = tt_vec s \<and> tt_cs_state s'
    \<and> (\<forall>h. tt_spins (iotc_remove_timed_task h s'))"
proof -
  obtain p m1 where al: "iotc_alloc sizeof_timed_task (ev_mem s) = (p, m1)" by fastforce
  have p: "p \<noteq> NULL" by (rule alloc_granted [OF assms(4,5) al])
  have f: "iotc_vector_find (tt_vec s) NULL iotc_compare_context_pointers < 0"
    using vec_find_neg [OF assms(1), of NULL iotc_compare_context_pointers] assms(3)
    by (auto simp: iotc_compare_context_pointers_def)
  have r: "iotc_register_handle_for_object (tt_vec s) 64 p m = (IOTC_NO_MORE_RESOURCE_AVAILABLE, tt_vec s, m)" for m
    using f assms(2) by (simp add: iotc_register_handle_for_object_def)
  from assms(6,7) al p r have res: "r = - (state_code IOTC_NO_MORE_RESOURCE_AVAILABLE)"
    and s': "ev_mem s' = IOTC_SAFE_FREE p m1" "tt_vec s' = tt_vec s" "tt_cs_state s'" "\<not> tt_spins s'"
    by (auto simp: iotc_add_timed_task_def Let_def tt_lock_def tt_free_def IOTC_MAX_TIMED_EVENT_def)
  have "m_live (ev_mem s') = m_live (ev_mem s)"
    using alloc_live [OF assms(4) al p] alloc_fresh [OF assms(4) al] alloc_wf [OF assms(4) al]
    by (auto simp: s' mem_simps fun_eq_iff)
  moreover have "tt_spins (iotc_remove_timed_task h s')" for h
    using s'(3) by (auto simp: iotc_remove_timed_task_def Let_def tt_lock_def tt_unlock_def
        iotc_evtd_cancel_def iotc_lock_critical_section_def iotc_unlock_critical_section_def split: prod.splits)
  ultimately show ?thesis using res s' by blast
qed


lemma register_in_free_slot:
  assumes "vec_inv v" and "NULL \<in> set (vec_list v)"
    and "iotc_register_handle_for_object v mx p m = (st, v', m')"
  shows "st = IOTC_STATE_OK \<and> m' = m \<and> vec_inv v' \<and> p \<in> set (vec_list v')"
proof -
  let ?h = "iotc_vector_find v NULL iotc_compare_context_pointers"
  have h: "0 \<le> ?h" using vec_find_neg [OF assms(1), of NULL iotc_compare_context_pointers] assms(2)
    by (force simp: iotc_compare_context_pointers_def not_less [symmetric])
  from vec_find_nonneg(1) [OF assms(1) refl h] have n: "nat ?h < length (vec_list v)" .
  from assms(3) h have "st = IOTC_STATE_OK" "m' = m" "v' = v\<lparr>v_elems := (v_elems v)[nat ?h := p]\<rparr>"
    by (auto simp: iotc_register_handle_for_object_def Let_def)
  with vec_set_cell [OF assms(1) n, of p] n show ?thesis
    by (simp add: set_update_memI del: vec_list_length)
qed

text \<open>
  When the delayed call of a new task cannot be queued, the task is freed and an error is returned,
  but its address stays in the table of handles: the table then leads to a block that is no longer live.
\<close>

theorem failed_schedule_leaves_dangling_handle:
  assumes "vec_inv (tt_vec s)" and "NULL \<in> set (vec_list (tt_vec s))"
    and "grown base (ev_timers s) (ev_mem s)" and "v_elem_no (ev_timers s) = 64"
    and "\<forall>i n. n < 2 ^ 63 \<longrightarrow> m_ok (ev_mem s) i n"
    and "iotc_add_timed_task wrapper ctx cb secs rep data s = (r, s')"
  shows "r = - (state_code IOTC_OUT_OF_MEMORY)
    \<and> (\<exists>p h. p \<noteq> NULL \<and> iotc_find_handle_for_object (tt_vec s') p = (IOTC_STATE_OK, h)
         \<and> m_live (ev_mem s') p = None)"
proof -
  obtain p m1 where al: "iotc_alloc sizeof_timed_task (ev_mem s) = (p, m1)" by fastforce
  have w: "wf_mem (ev_mem s)" using assms(3) by (simp add: grown_def)
  have p: "p \<noteq> NULL" using alloc_granted [OF w _ al] assms(5) by (simp add: sizeof_timed_task_def)
  note ga = grown_alloc [OF assms(3) al p]
  let ?t = "\<lparr>tk_callback = cb, tk_context_handle = ctx, tk_data = data,
     tk_seconds_repeat = (if rep then secs else 0), tk_state = IOTC_TTS_SCHEDULED\<rparr>"
  define s2 where "s2 = tt_lock (s\<lparr>ev_mem := m1, ev_te := (ev_te s)\<lparr>te_hnd := (te_hnd (ev_te s))(p := NULL)\<rparr>,
     tt_at := (tt_at s)(p := ?t)\<rparr>)"
  have s2: "tt_vec s2 = tt_vec s" "ev_mem s2 = m1" "ev_timers s2 = ev_timers s"
    by (simp_all add: s2_def tt_lock_def)
  obtain st v m2 where rg: "iotc_register_handle_for_object (tt_vec s2) IOTC_MAX_TIMED_EVENT p (ev_mem s2) = (st, v, m2)"
    by (metis prod_cases3)
  from register_in_free_slot [OF assms(1,2) rg [unfolded s2]]
  have st: "st = IOTC_STATE_OK" and m2: "m2 = m1" and iv: "vec_inv v" and pv: "p \<in> set (vec_list v)" by auto
  from find_handle_complete [OF iv pv] obtain h where fh: "iotc_find_handle_for_object v p = (IOTC_STATE_OK, h)"
    by blast
  define s4 where "s4 = tt_unlock (s2\<lparr>tt_vec := v, ev_mem := m2\<rparr>)"
  have s4: "tt_vec s4 = v" "ev_mem s4 = m1" "ev_timers s4 = ev_timers s"
    by (simp_all add: s4_def tt_unlock_def s2 m2)
  obtain st5 s5 where ex: "iotc_evtd_execute_in (iotc_make_handle_argc2 IOTC_THREADID_MAINTHREAD wrapper p (tt_self s4))
      secs p s4 = (st5, s5)" by fastforce
  have g4: "grown (base(p \<mapsto> sizeof_timed_task)) (ev_timers s4) (ev_mem s4)" using ga(1) by (simp add: s4)
  have f4: "v_elem_no (ev_timers s4) = 64" using assms(4) by (simp add: s4)
  have o4: "m_ok (ev_mem s4) (m_seq (ev_mem s4)) sizeof_time_event"
    using assms(5) alloc_ok_oracle [OF al] by (simp add: s4 sizeof_time_event_def)
  from execute_in_full_leaks [OF g4 f4 o4 ex] have st5: "st5 = IOTC_OUT_OF_MEMORY" and w5: "wf_mem (ev_mem s5)" by auto
  have v5: "tt_vec s5 = v"
    using ex by (auto simp: iotc_evtd_execute_in_def Let_def iotc_lock_critical_section_def
        iotc_unlock_critical_section_def s4(1) split: prod.splits if_splits)
  from assms(6) have "(r, s') = (- (state_code IOTC_OUT_OF_MEMORY), s5\<lparr>ev_mem := IOTC_SAFE_FREE p (ev_mem s5)\<rparr>)"
    unfolding iotc_add_timed_task_def al using p rg st fh ex st5
    by (simp add: Let_def flip: s2_def s4_def)
  with v5 w5 fh p show ?thesis by (auto simp: mem_simps)
qed

text \<open>A user callback that only works on the rest of the program.\<close>

definition passive_user ::
    "(ptr \<Rightarrow> int \<Rightarrow> int \<Rightarrow> ptr \<Rightarrow> 'z tasks_scheme \<Rightarrow> 'z tasks_scheme) \<Rightarrow>
     (ptr \<Rightarrow> int \<Rightarrow> int \<Rightarrow> ptr \<Rightarrow> 'z \<Rightarrow> 'z) \<Rightarrow> bool" where
  "passive_user user g \<longleftrightarrow> (\<forall>f c h d s. user f c h d s = tasks.more_update (g f c h d) s)"

text \<open>
  When the event of a one-shot task fires, the callback of the task is called once, with the task's
  context, its handle and its data; then its slot in the table is free, its block released, no other slot or
  block touched, and the critical section free.
\<close>

theorem one_shot_task_runs_once:
  assumes "passive_user user g" and "tt_free s" and "vec_inv (tt_vec s)"
    and "iotc_find_handle_for_object (tt_vec s) task = (IOTC_STATE_OK, h)"
    and "tk_seconds_repeat (tt_at s task) = 0" and "wf_mem (ev_mem s)" and "m_live (ev_mem s) task \<noteq> None"
    and "iotc_timed_task_callback_wrapper user wrapper task s = (st, s')"
  shows "st = IOTC_STATE_OK \<and> tt_free s'
    \<and> tasks.more s' = g (tk_callback (tt_at s task)) (tk_context_handle (tt_at s task)) h
        (tk_data (tt_at s task)) (tasks.more s)
    \<and> vec_list (tt_vec s') = (vec_list (tt_vec s))[nat h := NULL]
    \<and> m_live (ev_mem s') = (m_live (ev_mem s))(task := None) \<and> m_bad (ev_mem s') = m_bad (ev_mem s)
    \<and> ev_timers s' = ev_timers s"
proof -
  note d = delete_handle_ok [OF assms(3,4)]
  let ?t = "tt_at s task"
  define s5 where "s5 = (tasks.more_update (g (tk_callback ?t) (tk_context_handle ?t) h (tk_data ?t)) s)
      \<lparr>tt_at := (tt_at s)(task := ?t\<lparr>tk_state := IOTC_TTS_RUNNING\<rparr>), tt_cs_state := True\<rparr>"
  have v5: "tt_vec s5 = tt_vec s" "ev_mem s5 = ev_mem s" by (simp_all add: s5_def)
  have e: "s' = tt_unlock (s5\<lparr>tt_vec := (tt_vec s)\<lparr>v_elems := (v_elems (tt_vec s))[nat h := NULL]\<rparr>,
      ev_mem := IOTC_SAFE_FREE task (ev_mem s)\<rparr>)" and st: "st = IOTC_STATE_OK"
    using assms(1,2,4,5,8) d(1) v5
    by (cases s; simp add: iotc_timed_task_callback_wrapper_def Let_def passive_user_def tt_lock_def
        tt_unlock_def tt_free_def s5_def)+
  have "task \<noteq> NULL" using wf_mem_live_pos assms(6,7) by blast
  with st d(3) assms(2,6,7) show ?thesis
    by (auto simp: e tt_lock_def tt_unlock_def tt_free_def mem_simps s5_def)
qed

text \<open>
  When the event of a repeating task fires, the callback of the task is called once and the task is put into the
  queue of delayed events again, for one period after the current step and with the handle that runs
  the wrapper with this task; it keeps its handle in the table and is scheduled again.
\<close>

theorem repeating_task_reschedules:
  assumes "passive_user user g" and "tt_free s" and "vec_inv (tt_vec s)"
    and "iotc_find_handle_for_object (tt_vec s) task = (IOTC_STATE_OK, h)"
    and "tk_seconds_repeat (tt_at s task) \<noteq> 0" and "tk_state (tt_at s task) \<noteq> IOTC_TTS_DELETABLE"
    and "grown base (ev_timers s) (ev_mem s)" and "te_inv (ev_timers s) (ev_te s)"
    and "\<forall>i n. n < 2 ^ 63 \<longrightarrow> m_ok (ev_mem s) i n" and "v_elem_no (ev_timers s) < 64"
    and "set (vec_list (ev_timers s)) \<subseteq> dom base" and "task \<noteq> NULL" and "te_hnd (ev_te s) task = NULL"
    and "iotc_timed_task_callback_wrapper user wrapper task s = (st, s')"
  shows "st = IOTC_STATE_OK \<and> tt_free s'
    \<and> tasks.more s' = g (tk_callback (tt_at s task)) (tk_context_handle (tt_at s task)) h
        (tk_data (tt_at s task)) (tasks.more s)
    \<and> tt_vec s' = tt_vec s \<and> tk_state (tt_at s' task) = IOTC_TTS_SCHEDULED
    \<and> (\<exists>p. p \<in> set (vec_list (ev_timers s')) \<and> te_hnd (ev_te s') task = p
         \<and> te_time (ev_te s') p = to_int64 (ev_current_step s + tk_seconds_repeat (tt_at s task))
         \<and> te_event_handle (te_at (ev_te s') p) =
             iotc_make_handle_argc2 IOTC_THREADID_MAINTHREAD wrapper task (tt_self s))
    \<and> te_inv (ev_timers s') (ev_te s')"
proof -
  let ?t = "tt_at s task" and ?hdl = "iotc_make_handle_argc2 IOTC_THREADID_MAINTHREAD wrapper task (tt_self s)"
  define s5 where "s5 = (tasks.more_update (g (tk_callback ?t) (tk_context_handle ?t) h (tk_data ?t)) s)
      \<lparr>tt_at := (tt_at s)(task := ?t\<lparr>tk_state := IOTC_TTS_RUNNING\<rparr>), tt_cs_state := True\<rparr>"
  obtain st6 s6 where ex: "iotc_evtd_execute_in ?hdl (tk_seconds_repeat ?t) task s5 = (st6, s6)" by fastforce
  have f5: "ev_timers s5 = ev_timers s" "ev_te s5 = ev_te s" "ev_mem s5 = ev_mem s"
    "ev_current_step s5 = ev_current_step s" "tt_vec s5 = tt_vec s"
    by (simp_all add: s5_def)
  from execute_in_adds [of base s5, unfolded f5, OF assms(7-13) ex] obtain p where st6: "st6 = IOTC_STATE_OK"
    and p: "te_hnd (ev_te s6) = (te_hnd (ev_te s))(task := p)" "p \<in> set (vec_list (ev_timers s6))"
      "te_time (ev_te s6) p = to_int64 (ev_current_step s + tk_seconds_repeat ?t)"
      "te_event_handle (te_at (ev_te s6) p) = ?hdl" and inv: "te_inv (ev_timers s6) (ev_te s6)" by blast
  have f6: "tt_vec s6 = tt_vec s5 \<and> tt_cs_state s6 \<and> tt_spins s6 = tt_spins s5 \<and> tt_at s6 = tt_at s5
      \<and> tasks.more s6 = tasks.more s5"
    using ex by (auto simp: iotc_evtd_execute_in_def Let_def iotc_lock_critical_section_def s5_def
        iotc_unlock_critical_section_def split: prod.splits if_splits)
  have e: "s' = tt_unlock (s6\<lparr>tt_at := (tt_at s6)(task := (tt_at s6 task)\<lparr>tk_state := IOTC_TTS_SCHEDULED\<rparr>)\<rparr>)"
    and st: "st = IOTC_STATE_OK"
    using assms(1,2,4,5,6,14) ex st6
    by (cases s; simp add: iotc_timed_task_callback_wrapper_def Let_def passive_user_def tt_lock_def
        tt_unlock_def tt_free_def s5_def)+
  have "tt_free s'" "tt_vec s' = tt_vec s" "tk_state (tt_at s' task) = IOTC_TTS_SCHEDULED"
    "tasks.more s' = g (tk_callback ?t) (tk_context_handle ?t) h (tk_data ?t) (tasks.more s)"
    "ev_timers s' = ev_timers s6" "ev_te s' = ev_te s6"
    using f6 assms(2) by (simp_all add: e tt_unlock_def tt_free_def f5 s5_def)
  with st p inv show ?thesis by simp
qed

text \<open>
  Removing a scheduled task cancels its delayed event and no other, frees its slot and gives back
  exactly the blocks of the task and of its event; both critical sections are free afterwards.
\<close>

theorem remove_scheduled_task:
  assumes "tt_free s" and "lock_free s" and "vec_inv (tt_vec s)"
    and "iotc_find_handle_for_object (tt_vec s) task = (IOTC_STATE_OK, h)" and "task \<noteq> NULL"
    and "tk_state (tt_at s task) = IOTC_TTS_SCHEDULED"
    and "te_inv (ev_timers s) (ev_te s)" and "e \<in> set (vec_list (ev_timers s))"
    and "te_hnd (ev_te s) task = e" and "te_time_event_handle (te_at (ev_te s) e) = task"
    and "wf_mem (ev_mem s)" and "m_live (ev_mem s) task \<noteq> None" and "m_live (ev_mem s) e \<noteq> None" and "e \<noteq> task"
  shows "let s' = iotc_remove_timed_task h s
    in tt_free s' \<and> lock_free s' \<and> vec_list (ev_timers s') = remove1 e (vec_list (ev_timers s))
      \<and> te_inv (ev_timers s') (ev_te s') \<and> te_hnd (ev_te s') task = NULL
      \<and> vec_list (tt_vec s') = (vec_list (tt_vec s))[nat h := NULL]
      \<and> m_live (ev_mem s') = (m_live (ev_mem s))(e := None, task := None)
      \<and> m_bad (ev_mem s') = m_bad (ev_mem s)"
proof -
  note d = delete_handle_ok [OF assms(3,4)]
  from handles.fnd_ok [OF assms(3,4)] have o: "iotc_object_for_handle (tt_vec s) h = task" by simp
  obtain us vs where l: "vec_list (ev_timers s) = us @ e # vs" using assms(8) by (meson split_list)
  with assms(7) have eu: "e \<notin> set us" by (auto simp: te_inv_def pos_ok_def)
  from te_cancel_all [OF assms(7) l assms(9)] assms(5,10) obtain v te where
    c: "iotc_time_event_cancel (ev_timers s) (ev_te s) task = (IOTC_STATE_OK, Some e, v, te)"
    and i: "te_inv v te" "vec_list v = us @ vs" "te_hnd te = (te_hnd (ev_te s))(task := NULL)" by auto
  have e: "iotc_remove_timed_task h s = s\<lparr>ev_timers := v, ev_te := te,
      tt_vec := (tt_vec s)\<lparr>v_elems := (v_elems (tt_vec s))[nat h := NULL]\<rparr>,
      ev_mem := IOTC_SAFE_FREE task (IOTC_SAFE_FREE e (ev_mem s))\<rparr>"
    using assms(1,2,5,6) o c d(1)
    by (cases s; simp add: iotc_remove_timed_task_def Let_def tt_lock_def tt_unlock_def tt_free_def
        iotc_evtd_cancel_def iotc_lock_critical_section_def iotc_unlock_critical_section_def lock_free_def)
  have "vec_list v = remove1 e (vec_list (ev_timers s))" using i(2) l eu by (simp add: remove1_append)
  with i d(3) assms(1,2,11-14) show ?thesis
    by (auto simp: e Let_def tt_free_def lock_free_def mem_simps)
qed

section \<open>Examples\<close>

text \<open>A container with tables and a queue of its own on a heap whose first 31 addresses are taken.\<close>

definition example_tasks :: "vec \<Rightarrow> vec \<Rightarrow> event_handle te_store \<Rightarrow> mem \<Rightarrow> int list tasks_scheme" where
  "example_tasks timers tab te m =
     \<lparr>ev_self = 1, ev_current_step = 0, ev_timers = timers, ev_te = te,
      ev_call_queue = 0, ev_next = (\<lambda>p. NULL), ev_queued = (\<lambda>p. zeroed_handle), ev_cs = 20,
      ev_cs_state = False, ev_spins = False, ev_sockets = timers, ev_files = timers,
      ev_fd = (\<lambda>p. \<lparr>t_fd = 5, t_handle = zeroed_handle,
        t_read_handle = zeroed_handle, t_event_type = IOTC_EVENT_WANT_READ,
        t_fd_type = IOTC_EVTD_FD_TYPE_SOCKET\<rparr>),
      ev_on_empty = zeroed_handle, ev_stop = False, ev_mem = m,
      tt_self = 21, tt_vec = tab, tt_cs = 22, tt_cs_state = False, tt_spins = False,
      tt_at = (\<lambda>p. \<lparr>tk_callback = 60, tk_context_handle = 1, tk_data = 70,
        tk_seconds_repeat = (if p = 12 then 5 else 0), tk_state = IOTC_TTS_SCHEDULED\<rparr>),
      \<dots> = []\<rparr>"

definition table_of :: "nat list \<Rightarrow> vec" where
  "table_of xs = \<lparr>v_self = 6, v_array = 7, v_elems = xs, v_elem_no = int (length xs),
     v_capacity = int (length xs), v_memory_type = IOTC_MEMORY_TYPE_MANAGED\<rparr>"

lemma table_of_inv: "xs \<noteq> [] \<Longrightarrow> length xs < 128 \<Longrightarrow> vec_inv (table_of xs)"
  by (simp add: table_of_def vec_inv_def)

lemma table_of_list [simp]: "vec_list (table_of xs) = xs"
  by (simp add: table_of_def vec_list_def)

definition te_of :: "ptr \<Rightarrow> event_handle te_store" where
  "te_of h = \<lparr>te_at = (\<lambda>p. \<lparr>te_event_handle = zeroed_handle, te_time_of_execution = 4,
      te_position = 0, te_time_event_handle = h\<rparr>), te_hnd = (\<lambda>p. if p = 12 then 13 else NULL)\<rparr>"

definition heap_31 :: mem where
  "heap_31 = \<lparr>m_next = 31, m_live = (\<lambda>p. if 0 < p \<and> p < 31 then Some 8 else None), m_seq = 0,
     m_ok = (\<lambda>i n. n < 2 ^ 63), m_bad = False\<rparr>"

lemma heap_31_wf: "wf_mem heap_31"
  by (simp add: heap_31_def wf_mem_def)

theorem add_to_full_table_keeps_lock_witness:
  "\<exists>s'. iotc_add_timed_task 90 1 60 5 True 70 (example_tasks (table_of [13]) (table_of (replicate 64 11)) (te_of 0) heap_31)
      = (- (state_code IOTC_NO_MORE_RESOURCE_AVAILABLE), s') \<and> tt_spins (iotc_remove_timed_task 0 s')"
proof -
  let ?s = "example_tasks (table_of [13]) (table_of (replicate 64 11)) (te_of 0) heap_31"
  obtain r s' where a: "iotc_add_timed_task 90 1 60 5 True 70 ?s = (r, s')" by fastforce
  have v: "tt_vec ?s = table_of (replicate 64 11)" "ev_mem ?s = heap_31" by (simp_all add: example_tasks_def)
  have h: "vec_inv (tt_vec ?s)" "v_elem_no (tt_vec ?s) = 64" "NULL \<notin> set (vec_list (tt_vec ?s))"
    unfolding v using table_of_inv [of "replicate 64 11"]
    by (simp, simp add: table_of_def, simp only: table_of_list set_replicate_conv_if, simp)
  have k: "wf_mem (ev_mem ?s)" "m_ok (ev_mem ?s) (m_seq (ev_mem ?s)) sizeof_timed_task" "tt_free ?s"
    unfolding v using heap_31_wf by (simp_all add: heap_31_def sizeof_timed_task_def tt_free_def example_tasks_def)
  from add_to_full_table_keeps_lock [OF h k a] a show ?thesis by blast
qed

theorem failed_schedule_leaves_dangling_handle_witness:
  "\<exists>v m s'. iotc_add_timed_task 90 1 60 5 False 70 (example_tasks v (table_of [0, 11]) (te_of 0) m)
      = (- (state_code IOTC_OUT_OF_MEMORY), s')
    \<and> (\<exists>p h. p \<noteq> NULL \<and> iotc_find_handle_for_object (tt_vec s') p = (IOTC_STATE_OK, h)
         \<and> m_live (ev_mem s') p = None)"
proof -
  obtain v m where g: "grown Map.empty v m" and l: "vec_list v = []" and ok: "m_ok m = (\<lambda>i n. n < 2 ^ 63)"
    by (rule fresh_vec)
  obtain v' m' where ps: "vec_pushes v (replicate 64 1) m = (v', m')" by fastforce
  have ok': "\<forall>i n. n < 2 ^ 63 \<longrightarrow> m_ok m i n" by (simp add: ok)
  from vec_pushes_list [OF g ok' ps] l have l': "length (vec_list v') = 64" by simp
  have g': "grown Map.empty v' m'" by (rule vec_pushes_grown [OF g ps])
  let ?s = "example_tasks v' (table_of [0, 11]) (te_of 0) m'"
  obtain r s' where a: "iotc_add_timed_task 90 1 60 5 False 70 ?s = (r, s')" by fastforce
  have f: "tt_vec ?s = table_of [0, 11]" "ev_mem ?s = m'" "ev_timers ?s = v'" by (simp_all add: example_tasks_def)
  have h: "vec_inv (tt_vec ?s)" "NULL \<in> set (vec_list (tt_vec ?s))"
    unfolding f using table_of_inv [of "[0, 11]"] by simp_all
  have q: "grown Map.empty (ev_timers ?s) (ev_mem ?s)" "v_elem_no (ev_timers ?s) = 64"
    "\<forall>i n. n < 2 ^ 63 \<longrightarrow> m_ok (ev_mem ?s) i n"
    unfolding f using g' l' vec_pushes_ok_oracle [OF ps] ok by (simp_all add: grown_def vec_inv_def)
  from failed_schedule_leaves_dangling_handle [OF h q a] a show ?thesis by blast
qed

theorem one_shot_task_runs_once_witness:
  "\<exists>s'. iotc_timed_task_callback_wrapper (\<lambda>f c h d. tasks.more_update (\<lambda>z. z @ [h])) 90 11
      (example_tasks (table_of [13]) (table_of [0, 11]) (te_of 0) heap_31) = (IOTC_STATE_OK, s')
    \<and> tasks.more s' = [1]"
proof -
  let ?user = "\<lambda>f c h d. tasks.more_update (\<lambda>z. z @ [h])"
  let ?s = "example_tasks (table_of [13]) (table_of [0, 11]) (te_of 0) heap_31"
  obtain st s' where w: "iotc_timed_task_callback_wrapper ?user 90 11 ?s = (st, s')" by fastforce
  have p: "passive_user ?user (\<lambda>f c h d z. z @ [h])" by (simp add: passive_user_def)
  have v: "tt_vec ?s = table_of [0, 11]" "ev_mem ?s = heap_31" by (simp_all add: example_tasks_def)
  have i: "vec_inv (tt_vec ?s)" unfolding v by (rule table_of_inv) simp_all
  have f: "iotc_find_handle_for_object (tt_vec ?s) 11 = (IOTC_STATE_OK, int 1)"
    by (rule find_handle_first [OF i]) (simp_all add: v)
  have h: "tt_free ?s" "tk_seconds_repeat (tt_at ?s 11) = 0" "wf_mem (ev_mem ?s)" "m_live (ev_mem ?s) 11 \<noteq> None"
    using heap_31_wf by (simp_all add: tt_free_def example_tasks_def heap_31_def)
  from one_shot_task_runs_once [OF p h(1) i f h(2-4) w] w show ?thesis by (simp add: example_tasks_def)
qed

theorem remove_scheduled_task_witness:
  "vec_list (ev_timers (iotc_remove_timed_task 1
      (example_tasks (table_of [13]) (table_of [0, 12]) (te_of 12) heap_31))) = []"
proof -
  let ?s = "example_tasks (table_of [13]) (table_of [0, 12]) (te_of 12) heap_31"
  have v: "tt_vec ?s = table_of [0, 12]" "ev_mem ?s = heap_31" "ev_timers ?s = table_of [13]"
    "ev_te ?s = te_of 12" by (simp_all add: example_tasks_def)
  have i: "vec_inv (tt_vec ?s)" unfolding v by (rule table_of_inv) simp_all
  have f: "iotc_find_handle_for_object (tt_vec ?s) 12 = (IOTC_STATE_OK, int 1)"
    by (rule find_handle_first [OF i]) (simp_all add: v)
  have te: "te_inv (ev_timers ?s) (ev_te ?s)"
    unfolding v te_inv_def pos_ok_def using table_of_inv [of "[13]"] by (simp add: te_of_def)
  have h: "tt_free ?s" "lock_free ?s" "tk_state (tt_at ?s 12) = IOTC_TTS_SCHEDULED"
    by (simp_all add: tt_free_def lock_free_def example_tasks_def)
  have e: "13 \<in> set (vec_list (ev_timers ?s))" "te_hnd (ev_te ?s) 12 = 13"
    "te_time_event_handle (te_at (ev_te ?s) 13) = 12" "wf_mem (ev_mem ?s)"
    "m_live (ev_mem ?s) 12 \<noteq> None" "m_live (ev_mem ?s) 13 \<noteq> None"
    unfolding v using heap_31_wf by (simp_all add: te_of_def heap_31_def)
  from remove_scheduled_task [OF h(1,2) i f _ h(3) te e] show ?thesis by (simp add: Let_def v)
qed

theorem repeating_task_reschedules_witness:
  "\<exists>v m s'. iotc_timed_task_callback_wrapper (\<lambda>f c h d. tasks.more_update (\<lambda>z. z @ [h])) 90 12
      ((example_tasks v (table_of [0, 12]) (te_of 0) m)\<lparr>ev_te := (te_of 0)\<lparr>te_hnd := (\<lambda>h. NULL)\<rparr>\<rparr>) = (IOTC_STATE_OK, s')
    \<and> tasks.more s' = [1] \<and> (\<exists>p\<in>set (vec_list (ev_timers s')). te_time (ev_te s') p = 5)"
proof -
  obtain v m where g: "grown Map.empty v m" and l: "vec_list v = []" and ok: "m_ok m = (\<lambda>i n. n < 2 ^ 63)"
    by (rule fresh_vec)
  let ?user = "\<lambda>f c h d. tasks.more_update (\<lambda>z. z @ [h])"
  let ?s = "(example_tasks v (table_of [0, 12]) (te_of 0) m)\<lparr>ev_te := (te_of 0)\<lparr>te_hnd := (\<lambda>h. NULL)\<rparr>\<rparr>"
  obtain st s' where w: "iotc_timed_task_callback_wrapper ?user 90 12 ?s = (st, s')" by fastforce
  have p: "passive_user ?user (\<lambda>f c h d z. z @ [h])" by (simp add: passive_user_def)
  have vv: "tt_vec ?s = table_of [0, 12]" "ev_mem ?s = m" "ev_timers ?s = v"
    "ev_te ?s = (te_of 0)\<lparr>te_hnd := (\<lambda>h. NULL)\<rparr>" "ev_current_step ?s = 0"
    "tk_seconds_repeat (tt_at ?s 12) = 5" "tasks.more ?s = []" by (simp_all add: example_tasks_def)
  have i: "vec_inv (tt_vec ?s)" unfolding vv by (rule table_of_inv) simp_all
  have f: "iotc_find_handle_for_object (tt_vec ?s) 12 = (IOTC_STATE_OK, int 1)"
    by (rule find_handle_first [OF i]) (simp_all add: vv)
  have n: "v_elem_no v = 0" using vec_list_empty_iff g l by (simp add: grown_def)
  have h: "tt_free ?s" "tk_seconds_repeat (tt_at ?s 12) \<noteq> 0" "tk_state (tt_at ?s 12) \<noteq> IOTC_TTS_DELETABLE"
    by (simp_all add: tt_free_def example_tasks_def)
  have q: "grown Map.empty (ev_timers ?s) (ev_mem ?s)" "te_inv (ev_timers ?s) (ev_te ?s)"
    "\<forall>i n. n < 2 ^ 63 \<longrightarrow> m_ok (ev_mem ?s) i n" "v_elem_no (ev_timers ?s) < 64"
    "set (vec_list (ev_timers ?s)) \<subseteq> dom Map.empty" "te_hnd (ev_te ?s) 12 = NULL"
    unfolding vv using g l ok n by (simp_all add: te_inv_def pos_ok_def grown_def)
  have "(12::nat) \<noteq> NULL" by simp
  from repeating_task_reschedules [OF p h(1) i f h(2,3) q(1-5) this q(6) w] w vv(5-7) show ?thesis by auto
qed

end
