(* ===== verification/Iotc_Layer.thy ===== *)
theory Iotc_Layer
  imports Iotc_Dispatcher
begin

text \<open>
  The chain of protocol layers, \<^verbatim>\<open>src/libiotc/iotc_layer_api.c\<close>, and the timeouts of their input and
  output, \<^verbatim>\<open>src/libiotc/iotc_io_timeouts.c\<close>. A layer calls a function of a neighbour by putting it
  into the dispatcher's queue of calls; this step also updates the layer's own state. The
  connectivity structure that the C functions pass around is a field of the layer's block, so it is known by
  the address of the layer, which is also its \<^verbatim>\<open>self\<close>.

  The state extends that of the dispatcher by the layers and by the vector of timeouts of the context.
\<close>

datatype layer_state =
    IOTC_LAYER_STATE_NONE
  | IOTC_LAYER_STATE_CONNECTING
  | IOTC_LAYER_STATE_CONNECTED
  | IOTC_LAYER_STATE_CLOSING
  | IOTC_LAYER_STATE_CLOSED

record layer_interface =
  lf_push :: ptr
  lf_pull :: ptr
  lf_close :: ptr
  lf_close_externally :: ptr
  lf_init :: ptr
  lf_connect :: ptr
  lf_post_connect :: ptr

record layer =
  ly_funcs :: layer_interface
  ly_next :: ptr
  ly_prev :: ptr
  ly_type_id :: nat
  ly_user_data :: ptr
  ly_state :: layer_state

record layered = evtd +
  ly_at :: "ptr \<Rightarrow> layer"
  ctx_io_timeouts :: vec

text \<open>How a state is passed through the arguments of a handle.\<close>

definition state_arg :: "iotc_state \<Rightarrow> nat" where
  "state_arg st = nat (state_code st)"

definition arg_state :: "nat \<Rightarrow> iotc_state" where
  "arg_state n = iotc_states ! n"

lemma arg_state_arg [simp]: "arg_state (state_arg st) = st"
  by (simp add: arg_state_def state_arg_def state_code_nth)

section \<open>Queueing a call\<close>

text \<open>Without the thread module a call is queued by \<^verbatim>\<open>iotc_evtd_execute\<close>. When the loop in it
  does not end, because the queue is not a list, the flag for this is set.\<close>

definition iotc_evttd_execute :: "event_handle \<Rightarrow> 'z evtd_scheme \<Rightarrow> ptr \<times> 'z evtd_scheme" where
  "iotc_evttd_execute handle s =
     (case iotc_evtd_execute handle s of
        None \<Rightarrow> (NULL, s\<lparr>ev_spins := True\<rparr>)
      | Some (e, s1) \<Rightarrow> (e, s1))"

section \<open>Layers\<close>

definition IOTC_THIS_LAYER_NOT_OPERATIONAL :: "ptr \<Rightarrow> 'z layered_scheme \<Rightarrow> bool" where
  "IOTC_THIS_LAYER_NOT_OPERATIONAL context s \<longleftrightarrow>
     ly_state (ly_at s context) = IOTC_LAYER_STATE_CLOSING
     \<or> ly_state (ly_at s context) = IOTC_LAYER_STATE_CLOSED"

definition IOTC_LAYERS_CONNECT :: "ptr \<Rightarrow> ptr \<Rightarrow> 'z layered_scheme \<Rightarrow> 'z layered_scheme" where
  "IOTC_LAYERS_CONNECT lp ln s =
     (let s1 = s\<lparr>ly_at := (ly_at s)(ln := (ly_at s ln)\<lparr>ly_prev := lp\<rparr>)\<rparr>
      in s1\<lparr>ly_at := (ly_at s1)(lp := (ly_at s1 lp)\<lparr>ly_next := ln\<rparr>)\<rparr>)"

definition IOTC_LAYERS_DISCONNECT :: "ptr \<Rightarrow> ptr \<Rightarrow> 'z layered_scheme \<Rightarrow> 'z layered_scheme" where
  "IOTC_LAYERS_DISCONNECT lp ln s =
     (let s1 = s\<lparr>ly_at := (ly_at s)(ln := (ly_at s ln)\<lparr>ly_prev := NULL\<rparr>)\<rparr>
      in s1\<lparr>ly_at := (ly_at s1)(lp := (ly_at s1 lp)\<lparr>ly_next := NULL\<rparr>)\<rparr>)"

definition get_next_layer_state ::
    "ptr \<Rightarrow> ptr \<Rightarrow> ptr \<Rightarrow> iotc_state \<Rightarrow> 'z layered_scheme \<Rightarrow> layer_state" where
  "get_next_layer_state func from_context context state s =
     (let fs = ly_funcs (ly_at s context); from_state = ly_state (ly_at s from_context)
      in if func = lf_close fs then
           (if from_state = IOTC_LAYER_STATE_CONNECTED then IOTC_LAYER_STATE_CLOSING else from_state)
         else if func = lf_close_externally fs then IOTC_LAYER_STATE_CLOSED
         else if func = lf_connect fs then
           (if state = IOTC_STATE_OK then IOTC_LAYER_STATE_CONNECTED else IOTC_LAYER_STATE_CLOSED)
         else if func = lf_init fs then IOTC_LAYER_STATE_CONNECTING
         else if func = lf_pull fs then from_state
         else if func = lf_push fs then from_state
         else if func = lf_post_connect fs then from_state
         else IOTC_LAYER_STATE_NONE)"

definition iotc_layer_continue_with_impl ::
    "ptr \<Rightarrow> ptr \<Rightarrow> ptr \<Rightarrow> ptr \<Rightarrow> iotc_state \<Rightarrow> 'z layered_scheme \<Rightarrow> iotc_state \<times> 'z layered_scheme" where
  "iotc_layer_continue_with_impl func from_context context data state s =
     (if func \<noteq> NULL then
        (case iotc_evttd_execute (iotc_make_handle_argc3 IOTC_THREADID_MAINTHREAD func context data
                (state_arg state)) s of
           (e_ptr, s1) \<Rightarrow>
             if e_ptr = NULL then (IOTC_OUT_OF_MEMORY, s1)
             else
               (let next_state = get_next_layer_state func from_context context state s1
                in (IOTC_STATE_OK, s1\<lparr>ly_at := (ly_at s1)(from_context :=
                      (ly_at s1 from_context)\<lparr>ly_state := next_state\<rparr>)\<rparr>)))
      else (IOTC_STATE_OK, s))"

datatype layer_dir = This | Next | Prev

primrec layer_in_dir :: "layer_dir \<Rightarrow> ptr \<Rightarrow> 'z layered_scheme \<Rightarrow> ptr" where
  "layer_in_dir This context s = context"
| "layer_in_dir Next context s = ly_next (ly_at s context)"
| "layer_in_dir Prev context s = ly_prev (ly_at s context)"

definition IOTC_LAYER_CONTINUE_WITH ::
    "layer_dir \<Rightarrow> (layer_interface \<Rightarrow> ptr) \<Rightarrow> ptr \<Rightarrow> ptr \<Rightarrow> iotc_state \<Rightarrow> 'z layered_scheme \<Rightarrow>
     iotc_state \<times> 'z layered_scheme" where
  "IOTC_LAYER_CONTINUE_WITH dir target context data state s =
     (let l = layer_in_dir dir context s
      in iotc_layer_continue_with_impl (if l = NULL then NULL else target (ly_funcs (ly_at s l)))
           context (if l = NULL then NULL else l) data state s)"

text \<open>The macros \<^verbatim>\<open>IOTC_PROCESS_..._ON_..._LAYER\<close>.\<close>

abbreviation (input) "IOTC_PROCESS_PUSH_ON_PREV_LAYER \<equiv> IOTC_LAYER_CONTINUE_WITH Prev lf_push"
abbreviation (input) "IOTC_PROCESS_PUSH_ON_NEXT_LAYER \<equiv> IOTC_LAYER_CONTINUE_WITH Next lf_push"
abbreviation (input) "IOTC_PROCESS_PULL_ON_NEXT_LAYER \<equiv> IOTC_LAYER_CONTINUE_WITH Next lf_pull"
abbreviation (input) "IOTC_PROCESS_CLOSE_ON_THIS_LAYER \<equiv> IOTC_LAYER_CONTINUE_WITH This lf_close"
abbreviation (input) "IOTC_PROCESS_CLOSE_ON_PREV_LAYER \<equiv> IOTC_LAYER_CONTINUE_WITH Prev lf_close"
abbreviation (input) "IOTC_PROCESS_CLOSE_EXTERNALLY_ON_THIS_LAYER \<equiv>
  IOTC_LAYER_CONTINUE_WITH This lf_close_externally"
abbreviation (input) "IOTC_PROCESS_CLOSE_EXTERNALLY_ON_NEXT_LAYER \<equiv>
  IOTC_LAYER_CONTINUE_WITH Next lf_close_externally"
abbreviation (input) "IOTC_PROCESS_INIT_ON_PREV_LAYER \<equiv> IOTC_LAYER_CONTINUE_WITH Prev lf_init"
abbreviation (input) "IOTC_PROCESS_CONNECT_ON_THIS_LAYER \<equiv> IOTC_LAYER_CONTINUE_WITH This lf_connect"
abbreviation (input) "IOTC_PROCESS_CONNECT_ON_NEXT_LAYER \<equiv> IOTC_LAYER_CONTINUE_WITH Next lf_connect"
abbreviation (input) "IOTC_PROCESS_POST_CONNECT_ON_PREV_LAYER \<equiv>
  IOTC_LAYER_CONTINUE_WITH Prev lf_post_connect"

definition iotc_layer_default_post_connect ::
    "ptr \<Rightarrow> ptr \<Rightarrow> iotc_state \<Rightarrow> 'z layered_scheme \<Rightarrow> iotc_state \<times> 'z layered_scheme" where
  "iotc_layer_default_post_connect context data in_out_state s =
     (let layer_data = ly_user_data (ly_at s context)
      in if layer_data = NULL then (in_out_state, s)
         else (in_out_state,
               snd (IOTC_PROCESS_POST_CONNECT_ON_PREV_LAYER context data in_out_state s)))"

section \<open>Timeouts\<close>

definition iotc_io_timeouts_create ::
    "event_handle \<Rightarrow> int \<Rightarrow> ptr \<Rightarrow> 'z layered_scheme \<Rightarrow> iotc_state \<times> 'z layered_scheme" where
  "iotc_io_timeouts_create handle time_diff ret_time_event_handle s =
     (case iotc_evtd_execute_in handle time_diff ret_time_event_handle s of
        (ret_state, s1) \<Rightarrow>
          if ret_state \<noteq> IOTC_STATE_OK then (ret_state, s1)
          else
            (case iotc_vector_push (ctx_io_timeouts s1) ret_time_event_handle (ev_mem s1) of
               (elem, v, m) \<Rightarrow>
                 (let s2 = s1\<lparr>ctx_io_timeouts := v, ev_mem := m\<rparr>
                  in if elem = None then (IOTC_OUT_OF_MEMORY, s2) else (ret_state, s2))))"

definition iotc_io_timeouts_compare_pointers :: "ptr \<Rightarrow> ptr \<Rightarrow> bool" where
  "iotc_io_timeouts_compare_pointers e0 e1 = (if e0 = e1 then True else False)"

definition iotc_io_timeouts_remove :: "ptr \<Rightarrow> 'z layered_scheme \<Rightarrow> 'z layered_scheme" where
  "iotc_io_timeouts_remove time_event_handle s =
     (let event_index = iotc_vector_find (ctx_io_timeouts s) time_event_handle
                          iotc_io_timeouts_compare_pointers
      in if event_index > - 1
         then s\<lparr>ctx_io_timeouts := iotc_vector_del (ctx_io_timeouts s) event_index\<rparr>
         else s)"

definition iotc_io_timeouts_cancel :: "ptr \<Rightarrow> 'z layered_scheme \<Rightarrow> 'z layered_scheme" where
  "iotc_io_timeouts_cancel time_event_handle s =
     (let s1 = iotc_io_timeouts_remove time_event_handle s
      in snd (iotc_evtd_cancel time_event_handle s1))"

text \<open>The index stays below the number of elements, which is an \<^verbatim>\<open>int8_t\<close>, so that its
  increment does not wrap.\<close>

function io_timeouts_restart_loop :: "int \<Rightarrow> int \<Rightarrow> 'z layered_scheme \<Rightarrow> 'z layered_scheme" where
  "io_timeouts_restart_loop index new_time s =
     (if index < v_elem_no (ctx_io_timeouts s) then
        (let time_event_handle = v_elems (ctx_io_timeouts s) ! nat index;
             s1 = snd (iotc_evtd_restart time_event_handle new_time s)
         in io_timeouts_restart_loop (index + 1) new_time s1)
      else s)"
  by pat_completeness auto

lemma restart_timeouts [simp]: "ctx_io_timeouts (snd (iotc_evtd_restart h t s)) = ctx_io_timeouts s"
  by (simp add: iotc_evtd_restart_def Let_def iotc_lock_critical_section_def
      iotc_unlock_critical_section_def split: prod.splits)

termination io_timeouts_restart_loop
  by (relation "measure (\<lambda>(i, t, s). nat (v_elem_no (ctx_io_timeouts s) - i))") auto

definition iotc_io_timeouts_restart :: "int \<Rightarrow> 'z layered_scheme \<Rightarrow> 'z layered_scheme" where
  "iotc_io_timeouts_restart new_time s = io_timeouts_restart_loop 0 new_time s"

section \<open>The queue of calls\<close>

text \<open>\<open>qs\<close> are the nodes of the queue of calls; the lock of the dispatcher is free.\<close>

definition queue_ok :: "ptr list \<Rightarrow> 'z evtd_scheme \<Rightarrow> bool" where
  "queue_ok qs s \<longleftrightarrow> chain (ev_next s) (ev_call_queue s) qs \<and> wf_mem (ev_mem s)
     \<and> (\<forall>q\<in>set qs. m_live (ev_mem s) q \<noteq> None) \<and> lock_free s"

definition pending_calls :: "'z evtd_scheme \<Rightarrow> event_handle list \<Rightarrow> bool" where
  "pending_calls s hs \<longleftrightarrow> (\<exists>qs. queue_ok qs s \<and> map (ev_queued s) qs = hs)"

definition all_granted :: "mem \<Rightarrow> bool" where
  "all_granted m \<longleftrightarrow> (\<forall>i n. n < 2 ^ 63 \<longrightarrow> m_ok m i n)"

definition mem_granted :: "'z evtd_scheme \<Rightarrow> bool" where
  "mem_granted s \<longleftrightarrow> all_granted (ev_mem s)"

lemma all_granted_alloc:
  "all_granted m \<Longrightarrow> iotc_alloc n m = (p, m') \<Longrightarrow> all_granted m'"
  by (simp add: all_granted_def alloc_ok_oracle)

lemma all_granted_free [simp]: "all_granted (IOTC_SAFE_FREE p m) = all_granted m"
  by (simp add: all_granted_def)

lemma alloc_all_granted:
  assumes "all_granted m" and "wf_mem m" and "n < 2 ^ 63"
  shows "iotc_alloc n m = (m_next m, m\<lparr>m_next := Suc (m_next m), m_live := (m_live m)(m_next m \<mapsto> n),
    m_seq := Suc (m_seq m)\<rparr>)"
  using assms by (simp add: all_granted_def iotc_alloc_def iotc_bsp_mem_alloc_def)

lemma evttd_execute_refused:
  assumes "\<not> m_ok (ev_mem s) (m_seq (ev_mem s)) sizeof_event_handle_queue"
  shows "iotc_evttd_execute h s = (NULL, s\<lparr>ev_mem := (ev_mem s)\<lparr>m_seq := Suc (m_seq (ev_mem s))\<rparr>\<rparr>)"
  using assms by (simp add: iotc_evttd_execute_def iotc_evtd_execute_def iotc_alloc_def iotc_bsp_mem_alloc_def)

lemma evttd_execute_posts:
  assumes q: "queue_ok qs s" and ok: "m_ok (ev_mem s) (m_seq (ev_mem s)) sizeof_event_handle_queue"
  obtains e m nx hd' where "iotc_evttd_execute h s =
      (e, s\<lparr>ev_mem := m, ev_queued := (ev_queued s)(e := h), ev_next := nx, ev_call_queue := hd'\<rparr>)"
    and "e \<noteq> NULL" and "e \<notin> set qs" and "chain nx hd' (qs @ [e])"
    and "iotc_alloc sizeof_event_handle_queue (ev_mem s) = (e, m)"
proof -
  obtain e m where al: "iotc_alloc sizeof_event_handle_queue (ev_mem s) = (e, m)" by fastforce
  from q have w: "wf_mem (ev_mem s)" and c: "chain (ev_next s) (ev_call_queue s) qs"
    and live: "\<forall>q\<in>set qs. m_live (ev_mem s) q \<noteq> None" and lk: "\<not> ev_cs_state s" "\<not> ev_spins s"
    by (auto simp: queue_ok_def lock_free_def)
  have e: "e \<noteq> NULL" by (rule alloc_granted [OF w ok al])
  have eq: "e \<notin> set qs" using alloc_fresh [OF w al] live by auto
  have c1: "chain ((ev_next s)(e := NULL)) (ev_call_queue s) qs" using c eq by simp
  obtain nx hd' where p: "IOTC_LIST_PUSH_BACK ((ev_next s)(e := NULL)) (ev_call_queue s) e = Some (nx, hd')"
    and ch: "chain nx hd' (qs @ [e])"
    by (rule push_back_chain [OF c1 eq e]) auto
  have "iotc_evttd_execute h s =
      (e, s\<lparr>ev_mem := m, ev_queued := (ev_queued s)(e := h), ev_next := nx, ev_call_queue := hd'\<rparr>)"
    using al e p lk
    by (cases s) (simp add: iotc_evttd_execute_def iotc_evtd_execute_def iotc_lock_critical_section_def
        iotc_unlock_critical_section_def Let_def)
  then show thesis by (rule that [OF _ e eq ch al])
qed

lemma posted_queue_ok:
  assumes "queue_ok qs s" and "e \<noteq> NULL" and "e \<notin> set qs" and "chain nx hd' (qs @ [e])"
    and "iotc_alloc sizeof_event_handle_queue (ev_mem s) = (e, m)"
  shows "queue_ok (qs @ [e])
    (s\<lparr>ev_mem := m, ev_queued := (ev_queued s)(e := h), ev_next := nx, ev_call_queue := hd'\<rparr>)"
  using assms alloc_wf [OF _ assms(5)] alloc_live [OF _ assms(5,2)]
  by (auto simp: queue_ok_def)

text \<open>
  What the clients of the queue rely on: a call that is posted while memory is granted is pending
  after those that were, and a refused one changes nothing.
\<close>

locale call_poster =
  fixes post :: "'h \<Rightarrow> 's \<Rightarrow> ptr \<times> 's"
    and pend :: "'s \<Rightarrow> 'h list \<Rightarrow> bool"
    and room :: "'s \<Rightarrow> bool"
  assumes post_room: "pend s hs \<Longrightarrow> room s \<Longrightarrow> post h s = (e, s') \<Longrightarrow> e \<noteq> NULL \<and> pend s' (hs @ [h]) \<and> room s'"
    and post_null: "pend s hs \<Longrightarrow> post h s = (NULL, s') \<Longrightarrow> pend s' hs"
begin

lemma post_all:
  "pend s hs \<Longrightarrow> room s \<Longrightarrow> pend (fold (\<lambda>h s. snd (post h s)) gs s) (hs @ gs)"
proof (induction gs arbitrary: s hs)
  case (Cons g gs)
  obtain e s' where p: "post g s = (e, s')" by fastforce
  from post_room [OF Cons.prems p] Cons.IH [of s' "hs @ [g]"] p show ?case by simp
qed simp

lemma post_either:
  assumes "pend s hs" and "room s \<or> e = NULL" and "post h s = (e, s')"
  shows "pend s' (if e = NULL then hs else hs @ [h])"
  using assms post_room [of s hs h e s'] post_null [of s hs h s'] by auto

end

lemma pending_calls_null:
  assumes "pending_calls s hs" and "iotc_evttd_execute h s = (NULL, s')"
  shows "pending_calls s' hs"
proof -
  from assms(1) obtain qs where q: "queue_ok qs s" and m: "map (ev_queued s) qs = hs"
    by (auto simp: pending_calls_def)
  show ?thesis
  proof (cases "m_ok (ev_mem s) (m_seq (ev_mem s)) sizeof_event_handle_queue")
    case True
    from evttd_execute_posts [OF q True, of h] assms(2) show ?thesis by auto
  next
    case False
    with evttd_execute_refused [OF False, of h] assms(2) q m show ?thesis
      by (auto simp: pending_calls_def queue_ok_def wf_mem_def)
  qed
qed

interpretation calls: call_poster iotc_evttd_execute pending_calls mem_granted
proof
  fix s :: "'z evtd_scheme" and hs h e s'
  assume p: "pending_calls s hs" and r: "mem_granted s" and x: "iotc_evttd_execute h s = (e, s')"
  from p obtain qs where q: "queue_ok qs s" and m: "map (ev_queued s) qs = hs" by (auto simp: pending_calls_def)
  have ok: "m_ok (ev_mem s) (m_seq (ev_mem s)) sizeof_event_handle_queue"
    using r by (simp add: mem_granted_def all_granted_def sizeof_event_handle_queue_def)
  obtain e1 m1 nx hd' where y: "iotc_evttd_execute h s =
      (e1, s\<lparr>ev_mem := m1, ev_queued := (ev_queued s)(e1 := h), ev_next := nx, ev_call_queue := hd'\<rparr>)"
    and f: "e1 \<noteq> NULL" "e1 \<notin> set qs" "chain nx hd' (qs @ [e1])"
      "iotc_alloc sizeof_event_handle_queue (ev_mem s) = (e1, m1)"
    by (rule evttd_execute_posts [OF q ok])
  note posted_queue_ok [OF q f]
  moreover have "map ((ev_queued s)(e1 := h)) (qs @ [e1]) = hs @ [h]" using m f(2) by auto
  ultimately have "pending_calls s' (hs @ [h])" using x y
    by (auto simp: pending_calls_def intro!: exI [of _ "qs @ [e1]"])
  moreover have "mem_granted s'" using x y r all_granted_alloc [OF _ f(4)] by (auto simp: mem_granted_def)
  ultimately show "e \<noteq> NULL \<and> pending_calls s' (hs @ [h]) \<and> mem_granted s'" using x y f(1) by simp
qed (rule pending_calls_null)

section \<open>Properties\<close>

text \<open>The functions of a layer, and what calling one of them on a neighbour makes of the state of the
  calling layer.\<close>

datatype layer_fn = F_push | F_pull | F_close | F_close_externally | F_init | F_connect | F_post_connect

primrec layer_target :: "layer_fn \<Rightarrow> layer_interface \<Rightarrow> ptr" where
  "layer_target F_push = lf_push"
| "layer_target F_pull = lf_pull"
| "layer_target F_close = lf_close"
| "layer_target F_close_externally = lf_close_externally"
| "layer_target F_init = lf_init"
| "layer_target F_connect = lf_connect"
| "layer_target F_post_connect = lf_post_connect"

fun layer_step :: "layer_fn \<Rightarrow> iotc_state \<Rightarrow> layer_state \<Rightarrow> layer_state" where
  "layer_step F_close st x = (if x = IOTC_LAYER_STATE_CONNECTED then IOTC_LAYER_STATE_CLOSING else x)"
| "layer_step F_close_externally st x = IOTC_LAYER_STATE_CLOSED"
| "layer_step F_connect st x = (if st = IOTC_STATE_OK then IOTC_LAYER_STATE_CONNECTED else IOTC_LAYER_STATE_CLOSED)"
| "layer_step F_init st x = IOTC_LAYER_STATE_CONNECTING"
| "layer_step _ st x = x"

definition interface_ok :: "layer_interface \<Rightarrow> bool" where
  "interface_ok fs \<longleftrightarrow> distinct [lf_push fs, lf_pull fs, lf_close fs, lf_close_externally fs, lf_init fs,
     lf_connect fs, lf_post_connect fs, NULL]"

definition neighbour_ok :: "ptr \<Rightarrow> 'z layered_scheme \<Rightarrow> layer_dir \<Rightarrow> bool" where
  "neighbour_ok context s dir \<longleftrightarrow> layer_in_dir dir context s \<noteq> NULL
     \<and> interface_ok (ly_funcs (ly_at s (layer_in_dir dir context s)))"

type_synonym layer_call = "layer_dir \<times> layer_fn \<times> ptr \<times> iotc_state"

fun layer_calls :: "ptr \<Rightarrow> layer_call list \<Rightarrow> 'z layered_scheme \<Rightarrow> 'z layered_scheme" where
  "layer_calls context [] s = s"
| "layer_calls context ((dir, f, data, st) # cs) s =
     layer_calls context cs (snd (IOTC_LAYER_CONTINUE_WITH dir (layer_target f) context data st s))"

definition call_handle :: "ptr \<Rightarrow> 'z layered_scheme \<Rightarrow> layer_call \<Rightarrow> event_handle" where
  "call_handle context s c =
     (case c of (dir, f, data, st) \<Rightarrow>
        iotc_make_handle_argc3 IOTC_THREADID_MAINTHREAD
          (layer_target f (ly_funcs (ly_at s (layer_in_dir dir context s))))
          (layer_in_dir dir context s) data (state_arg st))"

lemma next_state_step:
  "interface_ok (ly_funcs (ly_at s l)) \<Longrightarrow>
   get_next_layer_state (layer_target f (ly_funcs (ly_at s l))) context l st s
     = layer_step f st (ly_state (ly_at s context))"
  by (cases f) (auto simp: get_next_layer_state_def Let_def interface_ok_def)

lemma evttd_execute_layers:
  "ly_at (snd (iotc_evttd_execute h s)) = ly_at s"
  by (simp add: iotc_evttd_execute_def iotc_evtd_execute_def Let_def iotc_lock_critical_section_def
      iotc_unlock_critical_section_def split: prod.splits option.splits)

lemma layer_continue_spec:
  assumes "pending_calls s hs" and "mem_granted s" and "neighbour_ok context s dir"
    and "IOTC_LAYER_CONTINUE_WITH dir (layer_target f) context data st s = (r, s')"
  shows "r = IOTC_STATE_OK \<and> pending_calls s' (hs @ [call_handle context s (dir, f, data, st)])
    \<and> mem_granted s' \<and> ly_at s' = (ly_at s)(context :=
        (ly_at s context)\<lparr>ly_state := layer_step f st (ly_state (ly_at s context))\<rparr>)"
proof -
  let ?l = "layer_in_dir dir context s" and ?h = "call_handle context s (dir, f, data, st)"
  have l: "?l \<noteq> NULL" and i: "interface_ok (ly_funcs (ly_at s ?l))" using assms(3) by (auto simp: neighbour_ok_def)
  have t: "layer_target f (ly_funcs (ly_at s ?l)) \<noteq> NULL" using i by (cases f) (auto simp: interface_ok_def)
  obtain e s1 where p: "iotc_evttd_execute ?h s = (e, s1)" by fastforce
  from calls.post_room [OF assms(1,2) p] have e: "e \<noteq> NULL" "pending_calls s1 (hs @ [?h])" "mem_granted s1" by auto
  have la: "ly_at s1 = ly_at s" using evttd_execute_layers [of ?h s] p by simp
  have n: "get_next_layer_state (layer_target f (ly_funcs (ly_at s ?l))) context ?l st s1 =
      layer_step f st (ly_state (ly_at s context))"
    using next_state_step [of s1 ?l f "context" st] i by (simp add: la)
  from assms(4) l t p e(1) have "r = IOTC_STATE_OK" and s': "s' = s1\<lparr>ly_at := (ly_at s)(context :=
      (ly_at s context)\<lparr>ly_state := layer_step f st (ly_state (ly_at s context))\<rparr>)\<rparr>"
    by (auto simp: IOTC_LAYER_CONTINUE_WITH_def iotc_layer_continue_with_impl_def Let_def call_handle_def n la)
  moreover have "pending_calls s' (hs @ [?h])" "mem_granted s'"
    using e(2,3) by (auto simp: s' pending_calls_def queue_ok_def lock_free_def mem_granted_def)
  ultimately show ?thesis by simp
qed

lemma upd_neighbour [simp]:
  assumes "ly_at s' = (ly_at s)(context := (ly_at s context)\<lparr>ly_state := x\<rparr>)"
  shows "neighbour_ok context s' dir = neighbour_ok context s dir"
    and "call_handle context s' c = call_handle context s c"
proof -
  have d: "layer_in_dir dir context s' = layer_in_dir dir context s" for dir by (cases dir) (simp_all add: assms)
  have f: "ly_funcs (ly_at s' l) = ly_funcs (ly_at s l)" for l by (simp add: assms)
  show "neighbour_ok context s' dir = neighbour_ok context s dir" by (simp add: neighbour_ok_def d f)
  show "call_handle context s' c = call_handle context s c" by (simp add: call_handle_def d f split: prod.splits)
qed

text \<open>
  C30. However a layer calls its neighbours, and in whatever order, the calls come to stand in the
  dispatcher's queue in that order, behind those that were there, each with the neighbour, the data and the
  state as its arguments; and the state of the layer is that of an automaton which connects, closes and
  reopens with these calls and is not changed by pushing and pulling.
\<close>

theorem layer_calls_refine_automaton:
  assumes "pending_calls s hs" and "mem_granted s" and "\<forall>c\<in>set cs. neighbour_ok context s (fst c)"
  shows "let s' = layer_calls context cs s
    in pending_calls s' (hs @ map (call_handle context s) cs)
      \<and> ly_state (ly_at s' context)
          = fold (\<lambda>(dir, f, data, st). layer_step f st) cs (ly_state (ly_at s context))"
  using assms
proof (induction cs arbitrary: s hs)
  case (Cons c cs)
  obtain dir f data st where c: "c = (dir, f, data, st)" by (metis prod_cases4)
  obtain r s1 where k: "IOTC_LAYER_CONTINUE_WITH dir (layer_target f) context data st s = (r, s1)" by fastforce
  from Cons.prems(3) have n: "neighbour_ok context s dir" by (simp add: c)
  note h = layer_continue_spec [OF Cons.prems(1,2) n k]
  then have la: "ly_at s1 = (ly_at s)(context := (ly_at s context)\<lparr>ly_state :=
      layer_step f st (ly_state (ly_at s context))\<rparr>)" by simp
  have "\<forall>c\<in>set cs. neighbour_ok context s1 (fst c)" using Cons.prems(3) upd_neighbour(1) [OF la] by simp
  with Cons.IH [of s1 "hs @ [call_handle context s c]"] h show ?case
    by (simp add: c k Let_def upd_neighbour(2) [OF la] la)
qed (simp add: Let_def)

text \<open>Three layers, at 41, 42 and 43, on an empty queue.\<close>

definition example_layers :: "ptr \<Rightarrow> layer" where
  "example_layers p = \<lparr>ly_funcs = \<lparr>lf_push = 10 * p, lf_pull = 10 * p + 1, lf_close = 10 * p + 2,
       lf_close_externally = 10 * p + 3, lf_init = 10 * p + 4, lf_connect = 10 * p + 5,
       lf_post_connect = 10 * p + 6\<rparr>,
     ly_next = (if p = 43 then NULL else p + 1), ly_prev = (if p = 41 then NULL else p - 1),
     ly_type_id = p, ly_user_data = 30, ly_state = IOTC_LAYER_STATE_CONNECTED\<rparr>"

definition example_layered :: "mem \<Rightarrow> vec \<Rightarrow> vec \<Rightarrow> layered" where
  "example_layered m timers tos =
     \<lparr>ev_self = 1, ev_current_step = 0, ev_timers = timers, ev_te = \<lparr>te_at = (\<lambda>p. new_time_event zeroed_handle 0), te_hnd = (\<lambda>h. NULL)\<rparr>,
      ev_call_queue = NULL, ev_next = (\<lambda>p. NULL), ev_queued = (\<lambda>p. zeroed_handle), ev_cs = 20,
      ev_cs_state = False, ev_spins = False, ev_sockets = timers, ev_files = timers,
      ev_fd = (\<lambda>p. \<lparr>t_fd = 5, t_handle = zeroed_handle,
        t_read_handle = zeroed_handle, t_event_type = IOTC_EVENT_WANT_READ,
        t_fd_type = IOTC_EVTD_FD_TYPE_SOCKET\<rparr>),
      ev_on_empty = zeroed_handle, ev_stop = False, ev_mem = m,
      ly_at = example_layers, ctx_io_timeouts = tos\<rparr>"

definition small_vec :: vec where
  "small_vec = \<lparr>v_self = 6, v_array = 7, v_elems = [0, 0], v_elem_no = 0, v_capacity = 2,
     v_memory_type = IOTC_MEMORY_TYPE_MANAGED\<rparr>"

theorem layer_calls_refine_automaton_witness:
  "let s = example_layered (empty_mem (\<lambda>i n. True)) small_vec small_vec;
       cs = [(Prev, F_push, 5, IOTC_STATE_OK), (This, F_close, 0, IOTC_STATE_OK),
             (Next, F_connect, 0, IOTC_STATE_TIMEOUT)];
       s' = layer_calls 42 cs s
   in pending_calls s' [iotc_make_handle_argc3 251 410 41 5 0, iotc_make_handle_argc3 251 422 42 0 0,
        iotc_make_handle_argc3 251 435 43 0 (state_arg IOTC_STATE_TIMEOUT)]
      \<and> ly_state (ly_at s' 42) = IOTC_LAYER_STATE_CLOSED"
proof -
  let ?s = "example_layered (empty_mem (\<lambda>i n. True)) small_vec small_vec"
  let ?cs = "[(Prev, F_push, 5, IOTC_STATE_OK), (This, F_close, 0, IOTC_STATE_OK),
             (Next, F_connect, 0, IOTC_STATE_TIMEOUT)]"
  have p: "pending_calls ?s []"
    by (auto simp: pending_calls_def queue_ok_def example_layered_def lock_free_def)
  have m: "mem_granted ?s" by (simp add: mem_granted_def all_granted_def example_layered_def empty_mem_def)
  have n: "\<forall>c\<in>set ?cs. neighbour_ok 42 ?s (fst c)"
    by (simp add: neighbour_ok_def example_layered_def example_layers_def interface_ok_def)
  from layer_calls_refine_automaton [OF p m n] show ?thesis
    by (simp add: Let_def call_handle_def example_layered_def example_layers_def IOTC_THREADID_MAINTHREAD_def
        state_arg_def)
qed

lemma execute_in_frame:
  assumes "iotc_evtd_execute_in h t p s = (r, s')"
  shows "ctx_io_timeouts s' = ctx_io_timeouts s" and "ly_at s' = ly_at s"
    and "lock_free s \<Longrightarrow> lock_free s'" and "ev_current_step s' = ev_current_step s"
  using assms by (auto simp: iotc_evtd_execute_in_def Let_def iotc_lock_critical_section_def
      iotc_unlock_critical_section_def lock_free_def split: prod.splits if_splits)

lemma execute_in_owner:
  assumes "h \<noteq> NULL" and "iotc_evtd_execute_in hdl t h s = (IOTC_STATE_OK, s')"
  shows "te_time_event_handle (te_at (ev_te s') (te_hnd (ev_te s') h)) = h"
  using assms by (auto simp: iotc_evtd_execute_in_def iotc_time_event_add_def Let_def iotc_lock_critical_section_def
      iotc_unlock_critical_section_def split: prod.splits if_splits option.splits)

lemma vec_list_remove:
  assumes "vec_inv v" and "vec_list v = us @ [h]"
  shows "vec_list (iotc_vector_del v (int (length us))) = us"
  using vec_del_spec [OF assms(1), of "int (length us)"] assms vec_list_length [OF assms(1)]
  by (auto simp: drop_index_def)

text \<open>
  A timeout that is created is registered in the vector of the context and queued; cancelling it takes it out
  of both, and leaves the other registered timeouts and the other delayed events as they were before.
\<close>

theorem io_timeout_create_cancel:
  assumes "grown base (ev_timers s) (ev_mem s)" and "te_inv (ev_timers s) (ev_te s)"
    and "all_granted (ev_mem s)" and "v_elem_no (ev_timers s) < 64"
    and "set (vec_list (ev_timers s)) \<subseteq> dom base" and "h \<noteq> NULL" and "te_hnd (ev_te s) h = NULL"
    and "vec_inv (ctx_io_timeouts s)" and "v_elem_no (ctx_io_timeouts s) < v_capacity (ctx_io_timeouts s)"
    and "h \<notin> set (vec_list (ctx_io_timeouts s))" and "lock_free s"
    and "iotc_io_timeouts_create hdl t h s = (st, s1)"
  shows "let s2 = iotc_io_timeouts_cancel h s1
    in st = IOTC_STATE_OK \<and> vec_list (ctx_io_timeouts s1) = vec_list (ctx_io_timeouts s) @ [h]
      \<and> te_hnd (ev_te s1) h \<in> set (vec_list (ev_timers s1)) - set (vec_list (ev_timers s))
      \<and> vec_list (ctx_io_timeouts s2) = vec_list (ctx_io_timeouts s)
      \<and> set (vec_list (ev_timers s2)) = set (vec_list (ev_timers s))
      \<and> te_inv (ev_timers s2) (ev_te s2) \<and> te_hnd (ev_te s2) h = NULL \<and> lock_free s2"
proof -
  obtain r0 s0 where e: "iotc_evtd_execute_in hdl t h s = (r0, s0)" by fastforce
  have ok: "\<forall>i n. n < 2 ^ 63 \<longrightarrow> m_ok (ev_mem s) i n" using assms(3) by (simp add: all_granted_def)
  from execute_in_adds [OF assms(1,2) ok assms(4-7) e] obtain p where r0: "r0 = IOTC_STATE_OK"
    and p: "p \<notin> set (vec_list (ev_timers s))" "p \<noteq> NULL" "te_hnd (ev_te s0) = (te_hnd (ev_te s))(h := p)"
      "set (vec_list (ev_timers s0)) = insert p (set (vec_list (ev_timers s)))"
    and i0: "te_inv (ev_timers s0) (ev_te s0)" by blast
  have f0: "ctx_io_timeouts s0 = ctx_io_timeouts s" "lock_free s0"
    using execute_in_frame(1,3) [OF e] assms(11) by auto
  from vec_push_room [OF assms(8,9), of h "ev_mem s0"] obtain v where
    v: "iotc_vector_push (ctx_io_timeouts s) h (ev_mem s0) = (Some (length (vec_list (ctx_io_timeouts s))), v, ev_mem s0)"
      "vec_inv v" "vec_list v = vec_list (ctx_io_timeouts s) @ [h]" by auto
  have s1: "st = IOTC_STATE_OK" "s1 = s0\<lparr>ctx_io_timeouts := v, ev_mem := ev_mem s0\<rparr>"
    using assms(12) e r0 v(1) f0(1) by (auto simp: iotc_io_timeouts_create_def)
  let ?n = "int (length (vec_list (ctx_io_timeouts s)))"
  have fnd: "iotc_vector_find v h iotc_io_timeouts_compare_pointers = ?n"
  proof -
    let ?k = "iotc_vector_find v h iotc_io_timeouts_compare_pointers"
    have nn: "0 \<le> ?k" using vec_find_neg [OF v(2), of h iotc_io_timeouts_compare_pointers] v(3)
      by (auto simp: iotc_io_timeouts_compare_pointers_def simp flip: not_less)
    from vec_find_nonneg(1,2) [OF v(2) refl nn] have "nat ?k < Suc (length (vec_list (ctx_io_timeouts s)))"
      and "(vec_list (ctx_io_timeouts s) @ [h]) ! nat ?k = h"
      by (auto simp: v(3) iotc_io_timeouts_compare_pointers_def split: if_splits)
    then have "nat ?k = length (vec_list (ctx_io_timeouts s))"
      using assms(10) nth_mem by (fastforce simp: nth_append less_Suc_eq split: if_splits)
    with nn show ?thesis by linarith
  qed
  let ?w = "iotc_vector_del v ?n"
  have w: "vec_list ?w = vec_list (ctx_io_timeouts s)" by (rule vec_list_remove [OF v(2,3)])
  have rm: "iotc_io_timeouts_remove h s1 = s1\<lparr>ctx_io_timeouts := ?w\<rparr>"
    using fnd by (simp add: iotc_io_timeouts_remove_def s1 Let_def)
  obtain us vs where l: "vec_list (ev_timers s0) = us @ p # vs" using p(4) by (metis insertI1 split_list)
  have hp: "te_hnd (ev_te s0) h = p" using p(3) by simp
  have own: "te_time_event_handle (te_at (ev_te s0) p) = h"
    using execute_in_owner [OF assms(6) e [unfolded r0]] hp by simp
  from te_cancel_all [OF i0 l hp] own assms(6) obtain v' te' where
    c: "iotc_time_event_cancel (ev_timers s0) (ev_te s0) h = (IOTC_STATE_OK, Some p, v', te')"
    and i2: "te_inv v' te'" and l2: "vec_list v' = us @ vs" and h2: "te_hnd te' = (te_hnd (ev_te s0))(h := NULL)"
    by auto
  have s2: "iotc_io_timeouts_cancel h s1 = s0\<lparr>ctx_io_timeouts := ?w, ev_timers := v', ev_te := te',
      ev_mem := IOTC_SAFE_FREE p (ev_mem s0)\<rparr>"
    unfolding iotc_io_timeouts_cancel_def Let_def rm unfolding s1(2) using f0(2) c
    by (cases s0) (simp add: iotc_evtd_cancel_def Let_def lock_free_def
        iotc_lock_critical_section_def iotc_unlock_critical_section_def)
  have dst: "distinct (us @ p # vs)" using i0 by (simp add: te_inv_def pos_ok_def l)
  have "insert p (set us \<union> set vs) = insert p (set (vec_list (ev_timers s)))"
    using p(4) by (simp add: l insert_commute Un_commute)
  then have "set us \<union> set vs = set (vec_list (ev_timers s))" using dst p(1) by (auto simp: insert_eq_iff)
  then show ?thesis unfolding s2 Let_def using s1 v(3) w i2 l2 h2 f0(2) hp p(1,4)
    by (simp add: lock_free_def)
qed

theorem io_timeout_create_cancel_witness:
  "\<exists>v m s1. iotc_io_timeouts_create zeroed_handle 10 50 (example_layered m v small_vec) = (IOTC_STATE_OK, s1)
     \<and> vec_list (ctx_io_timeouts s1) = [50] \<and> vec_list (ctx_io_timeouts (iotc_io_timeouts_cancel 50 s1)) = []
     \<and> set (vec_list (ev_timers (iotc_io_timeouts_cancel 50 s1))) = {}"
proof -
  obtain v m where g: "grown Map.empty v m" and l: "vec_list v = []" and ok: "m_ok m = (\<lambda>i n. n < 2 ^ 63)"
    by (rule fresh_vec)
  let ?s = "example_layered m v small_vec"
  obtain st s1 where c: "iotc_io_timeouts_create zeroed_handle 10 50 ?s = (st, s1)" by fastforce
  have f: "ev_timers ?s = v" "ev_mem ?s = m" "ctx_io_timeouts ?s = small_vec" "te_hnd (ev_te ?s) 50 = NULL"
    "lock_free ?s" by (simp_all add: example_layered_def lock_free_def)
  have n: "v_elem_no v = 0" using vec_list_empty_iff g l by (simp add: grown_def)
  have h: "grown Map.empty (ev_timers ?s) (ev_mem ?s)" "te_inv (ev_timers ?s) (ev_te ?s)" "all_granted (ev_mem ?s)"
    "v_elem_no (ev_timers ?s) < 64" "set (vec_list (ev_timers ?s)) \<subseteq> dom Map.empty"
    using g l ok n by (simp_all add: f all_granted_def te_inv_def pos_ok_def grown_def)
  have k: "vec_inv (ctx_io_timeouts ?s)" "v_elem_no (ctx_io_timeouts ?s) < v_capacity (ctx_io_timeouts ?s)"
    "50 \<notin> set (vec_list (ctx_io_timeouts ?s))"
    unfolding f by (simp_all add: small_vec_def vec_inv_def vec_list_def)
  have "(50::nat) \<noteq> NULL" by simp
  from io_timeout_create_cancel [OF h this f(4) k f(5) c, unfolded f] c l show ?thesis
    by (intro exI [of _ v] exI [of _ m] exI [of _ s1]) (simp add: Let_def small_vec_def vec_list_def)
qed

end
