(* ===== verification/Iotc_Helpers.thy ===== *)
theory Iotc_Helpers
  imports Iotc_Mem
begin

unbundle bit_operations_syntax

text \<open>
  The string and bit helpers of \<^verbatim>\<open>src/libiotc/iotc_helpers.c\<close>. A C string is the
  list of its characters before the terminating NUL; a string on the heap is its block
  with that list, \<open>None\<close> for a null pointer. The allocator is an argument, because
  \<^verbatim>\<open>iotc_alloc\<close> is the platform allocator or the memory limiter depending on the
  build.
\<close>

type_synonym cstr = "(ptr \<times> string) option"

definition NUL :: char where
  "NUL = CHR 0x00"

section \<open>Strings\<close>

definition iotc_str_dup ::
    "(nat \<Rightarrow> 'm \<Rightarrow> ptr \<times> 'm) \<Rightarrow> string \<Rightarrow> 'm \<Rightarrow> cstr \<times> 'm" where
  "iotc_str_dup al s m =
     (let len = length s
      in case al (len + 1) m of (ret, m') \<Rightarrow>
           if ret = NULL then (None, m') else (Some (ret, s), m'))"

definition iotc_str_cat ::
    "(nat \<Rightarrow> 'm \<Rightarrow> ptr \<times> 'm) \<Rightarrow> string \<Rightarrow> string \<Rightarrow> 'm \<Rightarrow> cstr \<times> 'm" where
  "iotc_str_cat al s1 s2 m =
     (let len1 = length s1; len2 = length s2
      in case al (len1 + len2 + 1) m of (ret, m') \<Rightarrow>
           if ret = NULL then (None, m') else (Some (ret, s1 @ s2), m'))"

text \<open>
  \<^verbatim>\<open>iotc_str_copy_untiln\<close>: the loop over \<open>counter\<close>, the cells of the destination
  buffer and the rest of the source. Reading past the end of \<open>src\<close> reads its NUL.
\<close>

fun str_copy_loop :: "nat \<Rightarrow> char \<Rightarrow> nat \<Rightarrow> char list \<Rightarrow> string \<Rightarrow> nat \<times> char list" where
  "str_copy_loop real_size delim counter dst [] = (counter, dst)"
| "str_copy_loop real_size delim counter dst (c # src) =
     (if c \<noteq> delim \<and> counter < real_size \<and> c \<noteq> NUL
      then str_copy_loop real_size delim (counter + 1) (dst[counter := c]) src
      else (counter, dst))"

definition iotc_str_copy_untiln ::
    "char list \<Rightarrow> nat \<Rightarrow> string \<Rightarrow> char \<Rightarrow> nat \<times> char list" where
  "iotc_str_copy_untiln dst dst_size src delim =
     (let real_size = dst_size - 1
      in case str_copy_loop real_size delim 0 dst src of
           (counter, dst') \<Rightarrow> (counter, dst'[counter := NUL]))"

lemma str_copy_loop_spec:
  assumes "counter \<le> n" and "n < length dst"
  shows "str_copy_loop n delim counter dst src =
    (let w = take (n - counter) (takeWhile (\<lambda>c. c \<noteq> delim \<and> c \<noteq> NUL) src)
     in (counter + length w, take counter dst @ w @ drop (counter + length w) dst))"
  using assms
proof (induction n delim counter dst src rule: str_copy_loop.induct)
  case (1 n delim counter dst)
  then show ?case by simp
next
  case (2 n delim counter dst c src)
  show ?case
  proof (cases "c \<noteq> delim \<and> counter < n \<and> c \<noteq> NUL")
    case True
    then have "n - counter = Suc (n - (counter + 1))" by linarith
    with True 2 show ?thesis
      by (simp add: Let_def take_Suc_list_update)
  next
    case False
    then show ?thesis by (auto simp: Let_def)
  qed
qed

section \<open>The highest bit\<close>

definition iotc_highest_bit_filter :: "32 word \<Rightarrow> 32 word" where
  "iotc_highest_bit_filter value =
     (let v1 = value OR drop_bit 1 value;
          v2 = v1 OR drop_bit 2 v1;
          v3 = v2 OR drop_bit 4 v2;
          v4 = v3 OR drop_bit 8 v3;
          v5 = v4 OR drop_bit 16 v4
      in v5 AND NOT (drop_bit 1 v5))"

text \<open>One step of the smearing: a window of \<open>k\<close> bits becomes one of \<open>2 * k\<close>.\<close>

lemma smear_step:
  fixes u v :: "'a::len word"
  assumes "\<And>n. bit v n \<longleftrightarrow> (\<exists>i<k. bit u (n + i))"
  shows "bit (v OR drop_bit k v) n \<longleftrightarrow> (\<exists>i<k + k. bit u (n + i))"
proof -
  have "(\<exists>i<k + k. bit u (n + i)) \<longleftrightarrow> (\<exists>i<k. bit u (n + i)) \<or> (\<exists>i<k. bit u (n + (k + i)))"
    (is "?L \<longleftrightarrow> ?R")
  proof
    assume ?L
    then obtain i where i: "i < k + k" "bit u (n + i)" by blast
    show ?R
    proof (cases "i < k")
      case False
      with i have "i - k < k" "bit u (n + (k + (i - k)))" by simp_all
      then show ?thesis by blast
    qed (use i in blast)
  next
    assume ?R
    then show ?L
      by (metis add_less_cancel_left trans_less_add1)
  qed
  then show ?thesis
    by (simp add: bit_or_iff bit_drop_bit_eq assms ac_simps)
qed

lemma highest_bit_filter_bit:
  "bit (iotc_highest_bit_filter v) n \<longleftrightarrow> bit v n \<and> (\<forall>m>n. \<not> bit v m)"
proof -
  define v1 where "v1 = v OR drop_bit 1 v"
  define v2 where "v2 = v1 OR drop_bit 2 v1"
  define v3 where "v3 = v2 OR drop_bit 4 v2"
  define v4 where "v4 = v3 OR drop_bit 8 v3"
  define v5 where "v5 = v4 OR drop_bit 16 v4"
  have "bit v1 n \<longleftrightarrow> (\<exists>i<2. bit v (n + i))" for n
    using smear_step [of v 1 v n] by (simp add: v1_def numeral_2_eq_2)
  then have "bit v2 n \<longleftrightarrow> (\<exists>i<4. bit v (n + i))" for n
    using smear_step [of v1 2 v n] by (simp add: v2_def)
  then have "bit v3 n \<longleftrightarrow> (\<exists>i<8. bit v (n + i))" for n
    using smear_step [of v2 4 v n] by (simp add: v3_def)
  then have "bit v4 n \<longleftrightarrow> (\<exists>i<16. bit v (n + i))" for n
    using smear_step [of v3 8 v n] by (simp add: v4_def)
  then have v5: "bit v5 n \<longleftrightarrow> (\<exists>i<32. bit v (n + i))" for n
    using smear_step [of v4 16 v n] by (simp add: v5_def)
  have win: "(\<exists>i<32. bit v (n + i)) \<longleftrightarrow> (\<exists>m\<ge>n. bit v m)" for n
  proof
    assume "\<exists>m\<ge>n. bit v m"
    then obtain m where m: "n \<le> m" "bit v m" by blast
    then have "m < 32" using bit_imp_le_length by fastforce
    with m have "m - n < 32" "bit v (n + (m - n))" by simp_all
    then show "\<exists>i<32. bit v (n + i)" by blast
  qed (use le_add1 in blast)
  have "iotc_highest_bit_filter v = v5 AND NOT (drop_bit 1 v5)"
    by (simp only: iotc_highest_bit_filter_def v5_def v4_def v3_def v2_def v1_def Let_def)
  then have "bit (iotc_highest_bit_filter v) n \<longleftrightarrow>
      (\<exists>m\<ge>n. bit v m) \<and> n < 32 \<and> \<not> (\<exists>m\<ge>Suc n. bit v m)"
    by (simp add: bit_and_iff bit_not_iff bit_drop_bit_eq v5 win flip: win [of "Suc n"])
  also have "\<dots> \<longleftrightarrow> bit v n \<and> (\<forall>m>n. \<not> bit v m)"
  proof -
    have "(\<exists>m\<ge>n. bit v m) \<longleftrightarrow> bit v n \<or> (\<exists>m>n. bit v m)"
      by (metis le_less)
    moreover have "bit v n \<Longrightarrow> n < 32" using bit_imp_le_length [of v n] by simp
    ultimately show ?thesis by (auto simp: Suc_le_eq)
  qed
  finally show ?thesis .
qed

lemma highest_bit_ex:
  fixes v :: "'a::len word"
  assumes "v \<noteq> 0"
  obtains h where "bit v h" "\<forall>m>h. \<not> bit v m" "h < LENGTH('a)"
proof -
  have "\<exists>n. bit v n" using assms by (auto simp: bit_eq_iff)
  then obtain n where n: "bit v n" by blast
  let ?h = "GREATEST k. bit v k"
  have b: "\<forall>k. bit v k \<longrightarrow> k \<le> LENGTH('a)"
    using bit_imp_le_length by (auto intro: less_imp_le)
  have h: "bit v ?h" using GreatestI_nat [of "bit v" n] n b by blast
  have "\<not> bit v m" if "m > ?h" for m
    using Greatest_le_nat [of "bit v" m] b that by (meson leD)
  with h that show thesis using bit_imp_le_length by blast
qed

lemma highest_bit_bounds:
  fixes v :: "'a::len word"
  assumes "bit v h" "\<forall>m>h. \<not> bit v m"
  shows "2 ^ h \<le> unat v" and "unat v < 2 ^ Suc h"
proof -
  have hl: "h < LENGTH('a)" using assms(1) by (rule bit_imp_le_length)
  have "v = take_bit (Suc h) v"
    using assms(2) by (auto simp: bit_eq_iff bit_take_bit_iff not_less_eq [symmetric])
  then have "unat v = take_bit (Suc h) (unat v)"
    by (metis unsigned_take_bit_eq)
  then show "unat v < 2 ^ Suc h"
    by (metis take_bit_nat_less_exp)
  show "2 ^ h \<le> unat v"
  proof (rule ccontr)
    assume "\<not> 2 ^ h \<le> unat v"
    then have "\<not> bit (unat v) h" by (simp add: bit_iff_odd)
    with assms(1) hl show False by (simp add: bit_unsigned_iff)
  qed
qed

lemma highest_bit_filter_0 [simp]: "iotc_highest_bit_filter 0 = 0"
  by (simp add: bit_eq_iff highest_bit_filter_bit)

lemma highest_bit_filter_exp:
  assumes "bit v h" "\<forall>m>h. \<not> bit v m" "h < 32"
  shows "unat (iotc_highest_bit_filter v) = 2 ^ h"
proof -
  have "iotc_highest_bit_filter v = 2 ^ h"
  proof (rule bit_word_eqI)
    fix n
    assume "n < LENGTH(32)"
    then show "bit (iotc_highest_bit_filter v) n = bit (2 ^ h :: 32 word) n"
      using assms by (cases n h rule: linorder_cases)
        (auto simp: highest_bit_filter_bit bit_exp_iff)
  qed
  moreover have "unat (word_of_nat (2 ^ h) :: 32 word) = 2 ^ h"
    using power_strict_increasing [OF assms(3), of "2 :: nat"]
    by (simp only: unat_of_nat) simp
  ultimately show ?thesis by simp
qed

section \<open>Properties\<close>

text \<open>
  \<^verbatim>\<open>iotc_highest_bit_filter\<close> keeps the highest set bit of a non-zero 32-bit
  value and clears every other: the result is the power of two with
  \<open>result \<le> value < 2 * result\<close> (and 0 stays 0).
\<close>

theorem highest_bit_filter_correct:
  "iotc_highest_bit_filter 0 = 0 \<and>
   (v \<noteq> 0 \<longrightarrow> (\<exists>h<32. unat (iotc_highest_bit_filter v) = 2 ^ h
      \<and> 2 ^ h \<le> unat v \<and> unat v < 2 ^ Suc h))"
proof (cases "v = 0")
  case False
  then obtain h where b: "bit v h" "\<forall>m>h. \<not> bit v m" "h < LENGTH(32)"
    by (rule highest_bit_ex)
  then have h: "bit v h" "\<forall>m>h. \<not> bit v m" "h < 32" by simp_all
  show ?thesis
    using h(3) highest_bit_filter_exp [OF h] highest_bit_bounds [OF h(1,2)]
    by (intro conjI impI exI [of _ h]) (simp_all only: highest_bit_filter_0)
qed simp

theorem highest_bit_filter_correct_witness:
  "(100 :: 32 word) \<noteq> 0 \<and> (\<exists>h<32. unat (iotc_highest_bit_filter 100) = 2 ^ h
      \<and> 2 ^ h \<le> unat (100 :: 32 word) \<and> unat (100 :: 32 word) < 2 ^ Suc h)"
proof -
  have "(100 :: 32 word) \<noteq> 0" by simp
  with highest_bit_filter_correct [of 100] show ?thesis by blast
qed

text \<open>
  \<^verbatim>\<open>iotc_str_copy_untiln\<close> never writes outside the destination: with a buffer
  of \<open>dst_size > 1\<close> cells it stores the longest prefix of the source that has no
  delimiter and fits \<open>dst_size - 1\<close> characters, terminates it with NUL, leaves every
  other cell as it was and returns the length of the prefix.
\<close>

theorem str_copy_untiln_correct:
  assumes "1 < dst_size" and "length dst = dst_size"
  shows "iotc_str_copy_untiln dst dst_size src delim =
    (let w = take (dst_size - 1) (takeWhile (\<lambda>c. c \<noteq> delim \<and> c \<noteq> NUL) src)
     in (length w, w @ [NUL] @ drop (Suc (length w)) dst))"
proof -
  let ?w = "take (dst_size - 1) (takeWhile (\<lambda>c. c \<noteq> delim \<and> c \<noteq> NUL) src)"
  have l: "length ?w < length dst" using assms by simp
  have "str_copy_loop (dst_size - 1) delim 0 dst src = (length ?w, ?w @ drop (length ?w) dst)"
    using assms by (subst str_copy_loop_spec) (simp_all add: Let_def)
  moreover have "(?w @ drop (length ?w) dst)[length ?w := NUL] =
      ?w @ [NUL] @ drop (Suc (length ?w)) dst"
    using l by (simp add: list_update_append Cons_nth_drop_Suc [symmetric])
  ultimately show ?thesis
    by (simp only: iotc_str_copy_untiln_def Let_def prod.case)
qed

theorem str_copy_untiln_correct_witness:
  "iotc_str_copy_untiln (replicate 4 CHR ''x'') 4 ''ab/cd'' CHR ''/'' =
    (let w = take (4 - 1) (takeWhile (\<lambda>c. c \<noteq> CHR ''/'' \<and> c \<noteq> NUL) ''ab/cd'')
     in (length w, w @ [NUL] @ drop (Suc (length w)) (replicate 4 CHR ''x'')))"
  by (rule str_copy_untiln_correct) simp_all

end
