(* ===== verification/Iotc_Data_Desc.thy ===== *)
theory Iotc_Data_Desc
  imports Iotc_Helpers Iotc_Vector
begin

text \<open>
  Byte buffers with a fill level, \<^verbatim>\<open>src/libiotc/iotc_data_desc.c\<close>. A
  descriptor is its own block, the block of its buffer with the bytes in it, and the
  three 32 bit counters of the structure. Sizes that the C code passes as
  \<^verbatim>\<open>size_t\<close> are natural numbers below \<open>2 ^ 64\<close> and are cut to 32 bits
  where the code stores them in a counter. A \<^verbatim>\<open>memcpy\<close> that does not fit its
  target sets the flag of undefined behaviour of the heap.
\<close>

type_synonym byte = "8 word"

record data_desc =
  d_self :: ptr
  d_data_ptr :: ptr
  d_bytes :: "byte list"
  d_capacity :: "32 word"
  d_length :: "32 word"
  d_curr_pos :: "32 word"
  d_memory_type :: memory_type

definition sizeof_data_desc :: nat where
  "sizeof_data_desc = 32"

definition memcpy_at :: "byte list \<Rightarrow> nat \<Rightarrow> byte list \<Rightarrow> byte list" where
  "memcpy_at dst off src = take off dst @ src @ drop (off + length src) dst"

definition memcpy_check :: "nat \<Rightarrow> nat \<Rightarrow> mem \<Rightarrow> mem" where
  "memcpy_check needed available m = (if needed \<le> available then m else m\<lparr>m_bad := True\<rparr>)"

section \<open>Operations\<close>

definition iotc_free_desc :: "data_desc option \<Rightarrow> mem \<Rightarrow> mem" where
  "iotc_free_desc desc m =
     (case desc of None \<Rightarrow> m
      | Some d \<Rightarrow>
          (let m1 = (if d_memory_type d = IOTC_MEMORY_TYPE_MANAGED
                     then IOTC_SAFE_FREE (d_data_ptr d) m else m)
           in IOTC_SAFE_FREE (d_self d) m1))"

text \<open>What \<^verbatim>\<open>IOTC_ALLOC\<close> leaves in a fresh descriptor: zeros.\<close>

definition zeroed_desc :: "ptr \<Rightarrow> data_desc" where
  "zeroed_desc p = \<lparr>d_self = p, d_data_ptr = NULL, d_bytes = [], d_capacity = 0, d_length = 0,
     d_curr_pos = 0, d_memory_type = IOTC_MEMORY_TYPE_UNKNOWN\<rparr>"

definition iotc_make_empty_desc_alloc :: "nat \<Rightarrow> mem \<Rightarrow> data_desc option \<times> mem" where
  "iotc_make_empty_desc_alloc capacity m =
     (case iotc_alloc sizeof_data_desc m of (p, m1) \<Rightarrow>
        if p = NULL then (None, iotc_free_desc None m1)
        else
          (let d = (zeroed_desc p)\<lparr>d_memory_type := IOTC_MEMORY_TYPE_MANAGED\<rparr>
           in case iotc_alloc capacity m1 of (b, m2) \<Rightarrow>
                if b = NULL then (None, iotc_free_desc (Some d) m2)
                else (Some (d\<lparr>d_data_ptr := b, d_bytes := replicate capacity 0,
                              d_length := 0, d_capacity := of_nat capacity\<rparr>), m2)))"

definition iotc_make_desc_from_buffer_copy :: "byte list \<Rightarrow> mem \<Rightarrow> data_desc option \<times> mem" where
  "iotc_make_desc_from_buffer_copy buffer m =
     (case iotc_alloc sizeof_data_desc m of (p, m1) \<Rightarrow>
        if p = NULL then (None, iotc_free_desc None m1)
        else
          (let d = (zeroed_desc p)\<lparr>d_memory_type := IOTC_MEMORY_TYPE_MANAGED\<rparr>;
               len = length buffer
           in case iotc_alloc len m1 of (b, m2) \<Rightarrow>
                if b = NULL then (None, iotc_free_desc (Some d) m2)
                else (Some (d\<lparr>d_data_ptr := b, d_bytes := memcpy_at (replicate len 0) 0 buffer,
                              d_capacity := of_nat len, d_length := of_nat len\<rparr>), m2)))"

definition iotc_make_desc_from_buffer_share ::
    "ptr \<Rightarrow> byte list \<Rightarrow> mem \<Rightarrow> data_desc option \<times> mem" where
  "iotc_make_desc_from_buffer_share data buffer m =
     (case iotc_alloc sizeof_data_desc m of (p, m1) \<Rightarrow>
        if p = NULL then (None, iotc_free_desc None m1)
        else
          (let len = length buffer
           in (Some ((zeroed_desc p)\<lparr>d_capacity := of_nat len, d_length := of_nat len,
                       d_data_ptr := data, d_bytes := buffer,
                       d_memory_type := IOTC_MEMORY_TYPE_UNMANAGED\<rparr>), m1)))"

text \<open>A string is its characters before the terminating zero; \<open>None\<close> is a null pointer.\<close>

definition iotc_make_desc_from_string_copy ::
    "byte list option \<Rightarrow> mem \<Rightarrow> data_desc option \<times> mem" where
  "iotc_make_desc_from_string_copy str m =
     (case str of None \<Rightarrow> (None, m)
      | Some s \<Rightarrow>
          (let len = length s
           in case iotc_alloc sizeof_data_desc m of (p, m1) \<Rightarrow>
             if p = NULL then (None, iotc_free_desc None m1)
             else
               (let d = (zeroed_desc p)\<lparr>d_memory_type := IOTC_MEMORY_TYPE_MANAGED\<rparr>
                in case iotc_alloc len m1 of (b, m2) \<Rightarrow>
                     if b = NULL then (None, iotc_free_desc (Some d) m2)
                     else (Some (d\<lparr>d_data_ptr := b, d_bytes := memcpy_at (replicate len 0) 0 s,
                                   d_capacity := of_nat len, d_length := of_nat len\<rparr>), m2))))"

definition iotc_make_desc_from_string_share ::
    "(ptr \<times> byte list) option \<Rightarrow> mem \<Rightarrow> data_desc option \<times> mem" where
  "iotc_make_desc_from_string_share str m =
     (case str of None \<Rightarrow> (None, m)
      | Some (data, s) \<Rightarrow>
          (let len = length s
           in case iotc_alloc sizeof_data_desc m of (p, m1) \<Rightarrow>
             if p = NULL then (None, iotc_free_desc None m1)
             else (Some ((zeroed_desc p)\<lparr>d_data_ptr := data, d_bytes := s, d_capacity := of_nat len,
                           d_length := of_nat len,
                           d_memory_type := IOTC_MEMORY_TYPE_UNMANAGED\<rparr>), m1)))"

definition iotc_data_desc_will_it_fit :: "data_desc \<Rightarrow> nat \<Rightarrow> bool" where
  "iotc_data_desc_will_it_fit d len =
     (if unat (d_capacity d) < to_size (int (unat (d_length d)) + int len) then False else True)"

definition iotc_data_desc_find_pow2_capacity :: "32 word \<Rightarrow> 32 word \<Rightarrow> 32 word" where
  "iotc_data_desc_find_pow2_capacity original desire =
     (if desire \<le> original then original
      else
        (let tmp = iotc_highest_bit_filter desire
         in if tmp < desire then push_bit 1 tmp else tmp))"

definition iotc_data_desc_pow2_realloc_strategy :: "32 word \<Rightarrow> 32 word \<Rightarrow> 32 word" where
  "iotc_data_desc_pow2_realloc_strategy original desired =
     (let new_cap = iotc_data_desc_find_pow2_capacity original desired in new_cap)"

definition iotc_data_desc_realloc ::
    "data_desc \<Rightarrow> 32 word \<Rightarrow> (32 word \<Rightarrow> 32 word \<Rightarrow> 32 word) \<Rightarrow> mem \<Rightarrow> iotc_state \<times> data_desc \<times> mem" where
  "iotc_data_desc_realloc d new_capacity strategy m =
     (let old = d_data_ptr d;
          calculated_capacity = strategy (d_capacity d) new_capacity
      in case iotc_alloc (unat calculated_capacity) m of (new_buf, m1) \<Rightarrow>
        if new_buf = NULL then (IOTC_OUT_OF_MEMORY, d, m1)
        else
          (let m2 = memcpy_check (unat (d_capacity d)) (unat calculated_capacity) m1;
               d1 = d\<lparr>d_data_ptr := new_buf,
                      d_bytes := memcpy_at (replicate (unat calculated_capacity) 0) 0
                                   (take (unat (d_capacity d)) (d_bytes d)),
                      d_capacity := calculated_capacity\<rparr>;
               m3 = (if d_memory_type d = IOTC_MEMORY_TYPE_MANAGED then IOTC_SAFE_FREE old m2 else m2)
           in (IOTC_STATE_OK, d1\<lparr>d_memory_type := IOTC_MEMORY_TYPE_MANAGED\<rparr>, m3)))"

definition iotc_data_desc_assure_buf_len ::
    "data_desc \<Rightarrow> nat \<Rightarrow> mem \<Rightarrow> iotc_state \<times> data_desc \<times> mem" where
  "iotc_data_desc_assure_buf_len out len m =
     (if \<not> iotc_data_desc_will_it_fit out len
      then iotc_data_desc_realloc out (of_nat (unat (d_length out) + len))
             iotc_data_desc_pow2_realloc_strategy m
      else (IOTC_STATE_OK, out, m))"

text \<open>The appending operations write at the fill level and advance it.\<close>

definition desc_write :: "data_desc \<Rightarrow> byte list \<Rightarrow> data_desc" where
  "desc_write d data =
     d\<lparr>d_bytes := memcpy_at (d_bytes d) (unat (d_length d)) data,
       d_length := d_length d + of_nat (length data)\<rparr>"

definition iotc_data_desc_append_data_resize ::
    "data_desc option \<Rightarrow> byte list option \<Rightarrow> mem \<Rightarrow> iotc_state \<times> data_desc option \<times> mem" where
  "iotc_data_desc_append_data_resize out data m =
     (case (out, data) of
        (Some d, Some bs) \<Rightarrow>
          (case iotc_data_desc_assure_buf_len d (length bs) m of (ret_state, d1, m1) \<Rightarrow>
             if ret_state \<noteq> IOTC_STATE_OK then (ret_state, Some d1, m1)
             else (ret_state, Some (desc_write d1 bs),
                   memcpy_check (unat (d_length d1) + length bs) (length (d_bytes d1)) m1))
      | _ \<Rightarrow> (IOTC_INVALID_PARAMETER, out, m))"

definition iotc_data_desc_append_bytes ::
    "data_desc option \<Rightarrow> byte list option \<Rightarrow> iotc_state \<times> data_desc option" where
  "iotc_data_desc_append_bytes out bytes =
     (case (out, bytes) of
        (Some d, Some bs) \<Rightarrow>
          (if iotc_data_desc_will_it_fit d (length bs) then (IOTC_STATE_OK, Some (desc_write d bs))
           else (IOTC_BUFFER_OVERFLOW, out))
      | _ \<Rightarrow> (IOTC_INVALID_PARAMETER, out))"

definition iotc_data_desc_append_byte ::
    "data_desc option \<Rightarrow> byte \<Rightarrow> iotc_state \<times> data_desc option" where
  "iotc_data_desc_append_byte out byte =
     (case out of None \<Rightarrow> (IOTC_INVALID_PARAMETER, out)
      | Some d \<Rightarrow>
          (if iotc_data_desc_will_it_fit d 1
           then (IOTC_STATE_OK, Some (d\<lparr>d_bytes := (d_bytes d)[unat (d_length d) := byte],
                                        d_length := d_length d + 1\<rparr>))
           else (IOTC_BUFFER_OVERFLOW, out)))"

definition iotc_data_desc_append_data ::
    "data_desc option \<Rightarrow> data_desc option \<Rightarrow> iotc_state \<times> data_desc option" where
  "iotc_data_desc_append_data out inp =
     (case (out, inp) of
        (Some _, Some i) \<Rightarrow>
          iotc_data_desc_append_bytes out
            (if d_data_ptr i = NULL then None else Some (take (unat (d_length i)) (d_bytes i)))
      | _ \<Rightarrow> (IOTC_INVALID_PARAMETER, out))"

section \<open>Invariant and abstraction\<close>

definition desc_inv :: "data_desc \<Rightarrow> bool" where
  "desc_inv d \<longleftrightarrow> d_length d \<le> d_capacity d \<and> length (d_bytes d) = unat (d_capacity d)"

definition desc_data :: "data_desc \<Rightarrow> byte list" where
  "desc_data d = take (unat (d_length d)) (d_bytes d)"

lemma desc_data_length [simp]: "desc_inv d \<Longrightarrow> length (desc_data d) = unat (d_length d)"
  by (simp add: desc_data_def desc_inv_def word_le_nat_alt)

lemma length_memcpy_at:
  "off + length src \<le> length dst \<Longrightarrow> length (memcpy_at dst off src) = length dst"
  by (simp add: memcpy_at_def)

lemma to_size_int: "n < 2 ^ 64 \<Longrightarrow> to_size (int n) = n"
  by (simp add: to_size_def)

lemma fits_iff:
  assumes "len < 2 ^ 63"
  shows "iotc_data_desc_will_it_fit d len \<longleftrightarrow> unat (d_length d) + len \<le> unat (d_capacity d)"
proof -
  have "unat (d_length d) < 2 ^ 32" using unsigned_less [of "d_length d"] by simp
  with assms have "to_size (int (unat (d_length d)) + int len) = unat (d_length d) + len"
    unfolding of_nat_add [symmetric] by (intro to_size_int) simp
  then show ?thesis by (auto simp: iotc_data_desc_will_it_fit_def)
qed

lemma desc_write_spec:
  assumes "desc_inv d" and "unat (d_length d) + length bs \<le> unat (d_capacity d)"
  shows "desc_inv (desc_write d bs)" and "desc_data (desc_write d bs) = desc_data d @ bs"
    and "d_capacity (desc_write d bs) = d_capacity d"
proof -
  have cap: "unat (d_capacity d) < 2 ^ 32" using unsigned_less [of "d_capacity d"] by simp
  with assms(2) have "unat (d_length d + of_nat (length bs)) = unat (d_length d) + length bs"
    by (subst unat_word_ariths) (simp add: unat_of_nat take_bit_eq_mod)
  with assms show "desc_inv (desc_write d bs)" and "desc_data (desc_write d bs) = desc_data d @ bs"
    and "d_capacity (desc_write d bs) = d_capacity d"
    by (auto simp: desc_write_def desc_inv_def desc_data_def memcpy_at_def word_le_nat_alt)
qed

section \<open>Growing\<close>

lemma pow2_capacity_all:
  fixes original desire :: "32 word"
  assumes "original < desire"
  shows "(unat desire \<le> 2 ^ 31 \<longrightarrow> (\<exists>h\<le>31. unat (iotc_data_desc_find_pow2_capacity original desire) = 2 ^ h
      \<and> unat desire \<le> 2 ^ h \<and> 2 ^ h < 2 * unat desire))
    \<and> (2 ^ 31 < unat desire \<longrightarrow> iotc_data_desc_find_pow2_capacity original desire = 0)"
proof -
  from assms have no: "\<not> desire \<le> original" and "desire \<noteq> 0" by auto
  from this(2) obtain h where h: "bit desire h" "\<forall>m>h. \<not> bit desire m" "h < LENGTH(32)"
    by (rule highest_bit_ex)
  note b = highest_bit_bounds [OF h(1,2)]
  have t: "unat (iotc_highest_bit_filter desire) = 2 ^ h"
    by (rule highest_bit_filter_exp) (use h in auto)
  then have tw: "iotc_highest_bit_filter desire = 2 ^ h"
    by (metis of_nat_numeral of_nat_power of_nat_unat ucast_id)
  have le: "iotc_highest_bit_filter desire < desire \<longleftrightarrow> 2 ^ h < unat desire"
    by (simp only: word_less_nat_alt t)
  show ?thesis
  proof (cases "2 ^ h < unat desire")
    case True
    have r: "iotc_data_desc_find_pow2_capacity original desire = 2 ^ Suc h"
      using True le no tw
      by (simp add: iotc_data_desc_find_pow2_capacity_def Let_def push_bit_eq_mult)
    show ?thesis
    proof (cases "h = 31")
      case True31: True
      have "iotc_data_desc_find_pow2_capacity original desire = 0"
        unfolding r True31 by simp
      with True True31 show ?thesis by simp
    next
      case False
      with h(3) have "Suc h \<le> 31" by simp
      then have "(2::nat) ^ Suc h < 2 ^ 32" by (intro power_strict_increasing) simp_all
      then have "unat (of_nat (2 ^ Suc h) :: 32 word) = 2 ^ Suc h"
        by (subst unat_of_nat) (simp add: take_bit_eq_mod)
      then have "unat (2 ^ Suc h :: 32 word) = 2 ^ Suc h" by simp
      moreover have "(2::nat) ^ Suc h \<le> 2 ^ 31" by (rule power_increasing) (use \<open>Suc h \<le> 31\<close> in auto)
      ultimately show ?thesis using b True \<open>Suc h \<le> 31\<close>
        by (auto simp: r intro!: exI [of _ "Suc h"])
    qed
  next
    case False
    with le no have "iotc_data_desc_find_pow2_capacity original desire = iotc_highest_bit_filter desire"
      by (simp add: iotc_data_desc_find_pow2_capacity_def Let_def)
    moreover have "(2::nat) ^ h \<le> 2 ^ 31" by (rule power_increasing) (use h(3) in auto)
    ultimately show ?thesis using b False t h(3) by (auto intro!: exI [of _ h])
  qed
qed

lemma pow2_strategy_enough:
  assumes "unat desired \<le> 2 ^ 31"
  shows "unat original \<le> unat (iotc_data_desc_pow2_realloc_strategy original desired)"
    and "unat desired \<le> unat (iotc_data_desc_pow2_realloc_strategy original desired)"
proof -
  show "unat original \<le> unat (iotc_data_desc_pow2_realloc_strategy original desired)"
    and "unat desired \<le> unat (iotc_data_desc_pow2_realloc_strategy original desired)"
    using pow2_capacity_all [of original desired] assms
    by (cases "original < desired"; force simp: iotc_data_desc_pow2_realloc_strategy_def
        iotc_data_desc_find_pow2_capacity_def not_less word_le_nat_alt word_less_nat_alt)+
qed

text \<open>
  A descriptor that owns its buffer on top of the live blocks \<open>base\<close>.
\<close>

definition desc_over :: "(ptr \<rightharpoonup> nat) \<Rightarrow> data_desc \<Rightarrow> mem \<Rightarrow> bool" where
  "desc_over base d m \<longleftrightarrow> desc_inv d \<and> wf_mem m \<and> \<not> m_bad m
     \<and> d_memory_type d = IOTC_MEMORY_TYPE_MANAGED
     \<and> d_self d \<noteq> NULL \<and> d_data_ptr d \<noteq> NULL \<and> d_self d \<noteq> d_data_ptr d
     \<and> base (d_self d) = None \<and> base (d_data_ptr d) = None
     \<and> m_live m = base(d_self d \<mapsto> sizeof_data_desc, d_data_ptr d \<mapsto> unat (d_capacity d))"

lemma desc_free_over:
  assumes "desc_over base d m"
  shows "m_live (iotc_free_desc (Some d) m) = base" and "\<not> m_bad (iotc_free_desc (Some d) m)"
    and "wf_mem (iotc_free_desc (Some d) m)"
  using assms by (auto simp: desc_over_def iotc_free_desc_def mem_simps fun_eq_iff)

lemma desc_write_over:
  assumes "desc_over base d m" and "unat (d_length d) + length bs \<le> unat (d_capacity d)"
  shows "desc_over base (desc_write d bs) m"
  using assms desc_write_spec [of d bs] by (auto simp: desc_over_def desc_write_def)

lemma make_empty_over:
  assumes "wf_mem m" "\<not> m_bad m" "capacity < 2 ^ 32"
    and "iotc_make_empty_desc_alloc capacity m = (Some d, m')"
  shows "desc_over (m_live m) d m'" and "desc_data d = []"
proof -
  obtain p m1 where a1: "iotc_alloc sizeof_data_desc m = (p, m1)" by fastforce
  obtain b m2 where a2: "iotc_alloc capacity m1 = (b, m2)" by fastforce
  from assms(4) a1 a2 have p: "p \<noteq> NULL" and b: "b \<noteq> NULL" and m': "m' = m2"
    and d: "d = (zeroed_desc p)\<lparr>d_memory_type := IOTC_MEMORY_TYPE_MANAGED, d_data_ptr := b,
      d_bytes := replicate capacity 0, d_length := 0, d_capacity := of_nat capacity\<rparr>"
    by (auto simp: iotc_make_empty_desc_alloc_def Let_def split: if_splits)
  from alloc_wf [OF assms(1) a1] have w1: "wf_mem m1" .
  have c: "unat (of_nat capacity :: 32 word) = capacity"
    using assms(3) by (simp add: unat_of_nat take_bit_eq_mod)
  show "desc_data d = []" by (simp add: d desc_data_def)
  show "desc_over (m_live m) d m'"
    using alloc_live [OF assms(1) a1 p] alloc_live [OF w1 a2 b] alloc_fresh [OF assms(1) a1]
      alloc_fresh [OF w1 a2] alloc_wf [OF w1 a2] alloc_bad [OF a1] alloc_bad [OF a2] assms(2) p b c
    by (auto simp: desc_over_def d m' zeroed_desc_def desc_inv_def split: if_splits)
qed

lemma make_empty_none:
  assumes "wf_mem m" "\<not> m_bad m" and "iotc_make_empty_desc_alloc capacity m = (None, m')"
  shows "m_live m' = m_live m" and "\<not> m_bad m'"
proof -
  obtain p m1 where a1: "iotc_alloc sizeof_data_desc m = (p, m1)" by fastforce
  obtain b m2 where a2: "iotc_alloc capacity m1 = (b, m2)" by fastforce
  note w1 = alloc_wf [OF assms(1) a1]
  have "m_live m' = m_live m \<and> \<not> m_bad m'"
  proof (cases "p = NULL")
    case True
    with assms(3) a1 alloc_null_live [OF assms(1), of sizeof_data_desc m1] alloc_bad [OF a1] assms(2)
    show ?thesis by (auto simp: iotc_make_empty_desc_alloc_def iotc_free_desc_def)
  next
    case False
    with assms(3) a1 a2 have "b = NULL" and m': "m' = IOTC_SAFE_FREE p m2"
      by (auto simp: iotc_make_empty_desc_alloc_def iotc_free_desc_def zeroed_desc_def Let_def
          split: if_splits)
    with a2 False alloc_null_live [OF w1, of capacity m2] alloc_live [OF assms(1) a1 False]
      alloc_wf [OF w1 a2] alloc_bad [OF a1] alloc_bad [OF a2] alloc_fresh [OF assms(1) a1] assms(2)
    show ?thesis by (auto simp: mem_simps fun_eq_iff)
  qed
  then show "m_live m' = m_live m" and "\<not> m_bad m'" by auto
qed

lemma desc_realloc_over_all:
  assumes o: "desc_over base d m" and n: "unat new_cap \<le> 2 ^ 31"
    and r: "iotc_data_desc_realloc d new_cap iotc_data_desc_pow2_realloc_strategy m = (st, d', m')"
  shows "desc_over base d' m' \<and> desc_data d' = desc_data d \<and> d_length d' = d_length d
    \<and> (st = IOTC_STATE_OK \<longrightarrow> unat new_cap \<le> unat (d_capacity d'))
    \<and> (st \<noteq> IOTC_STATE_OK \<longrightarrow> st = IOTC_OUT_OF_MEMORY \<and> d' = d)"
proof -
  let ?c = "iotc_data_desc_pow2_realloc_strategy (d_capacity d) new_cap"
  note pw = pow2_strategy_enough [OF n]
  from o have wf: "wf_mem m" and inv: "desc_inv d" by (auto simp: desc_over_def)
  obtain b m1 where al: "iotc_alloc (unat ?c) m = (b, m1)" by fastforce
  show ?thesis
  proof (cases "b = NULL")
    case True
    with r al have "st = IOTC_OUT_OF_MEMORY" "d' = d" "m' = m1"
      by (auto simp: iotc_data_desc_realloc_def Let_def)
    with o al True alloc_wf [OF wf al] alloc_bad [OF al] alloc_null_live [OF wf, of "unat ?c" m1]
    show ?thesis by (auto simp: desc_over_def)
  next
    case False
    with r al o pw(1)[of "d_capacity d"] have st: "st = IOTC_STATE_OK"
      and m': "m' = IOTC_SAFE_FREE (d_data_ptr d) m1"
      and d': "d' = d\<lparr>d_data_ptr := b, d_bytes := memcpy_at (replicate (unat ?c) 0) 0
          (take (unat (d_capacity d)) (d_bytes d)), d_capacity := ?c\<rparr>"
      by (auto simp: iotc_data_desc_realloc_def memcpy_check_def desc_over_def Let_def)
    from inv pw(1)[of "d_capacity d"] have i': "desc_inv d'" and dd: "desc_data d' = desc_data d"
      by (auto simp: d' desc_inv_def desc_data_def memcpy_at_def word_le_nat_alt)
    with o pw(2)[of "d_capacity d"] st False alloc_live [OF wf al False] alloc_fresh [OF wf al] alloc_wf [OF wf al] alloc_bad [OF al]
    show ?thesis
      by (auto simp: desc_over_def m' d' mem_simps fun_eq_iff split: if_splits)
  qed
qed

lemma append_resize_over:
  assumes o: "desc_over base d m" and n: "unat (d_length d) + length bs \<le> 2 ^ 31"
    and r: "iotc_data_desc_append_data_resize (Some d) (Some bs) m = (st, x, m')"
  shows "\<exists>d'. x = Some d' \<and> desc_over base d' m'
    \<and> (st = IOTC_STATE_OK \<longrightarrow> desc_data d' = desc_data d @ bs)
    \<and> (st \<noteq> IOTC_STATE_OK \<longrightarrow> st = IOTC_OUT_OF_MEMORY \<and> desc_data d' = desc_data d)"
proof -
  obtain st1 d1 m1 where a: "iotc_data_desc_assure_buf_len d (length bs) m = (st1, d1, m1)"
    by (metis prod_cases3)
  have u: "unat (of_nat (unat (d_length d) + length bs) :: 32 word) = unat (d_length d) + length bs"
    using n by (subst unat_of_nat) (simp add: take_bit_eq_mod)
  have f: "iotc_data_desc_will_it_fit d (length bs) \<longleftrightarrow> unat (d_length d) + length bs \<le> unat (d_capacity d)"
    using n by (intro fits_iff) simp
  have s: "desc_over base d1 m1 \<and> desc_data d1 = desc_data d \<and> d_length d1 = d_length d
    \<and> (st1 = IOTC_STATE_OK \<longrightarrow> unat (d_length d) + length bs \<le> unat (d_capacity d1))
    \<and> (st1 \<noteq> IOTC_STATE_OK \<longrightarrow> st1 = IOTC_OUT_OF_MEMORY \<and> d1 = d)"
  proof (cases "iotc_data_desc_will_it_fit d (length bs)")
    case True
    with a f o show ?thesis by (auto simp: iotc_data_desc_assure_buf_len_def)
  next
    case False
    with a have "iotc_data_desc_realloc d (of_nat (unat (d_length d) + length bs))
        iotc_data_desc_pow2_realloc_strategy m = (st1, d1, m1)"
      by (simp only: iotc_data_desc_assure_buf_len_def) simp
    from desc_realloc_over_all [OF o _ this, unfolded u] n show ?thesis by simp
  qed
  show ?thesis
  proof (cases "st1 = IOTC_STATE_OK")
    case True
    with s have len: "unat (d_length d1) + length bs \<le> unat (d_capacity d1)" by simp
    from s have "length (d_bytes d1) = unat (d_capacity d1)" by (simp add: desc_over_def desc_inv_def)
    with r a True len have "st = IOTC_STATE_OK" "x = Some (desc_write d1 bs)" "m' = m1"
      by (auto simp: iotc_data_desc_append_data_resize_def memcpy_check_def)
    with s len desc_write_over [of base d1 m1 bs] desc_write_spec(2) [of d1 bs] show ?thesis
      by (auto simp: desc_over_def)
  next
    case False
    with r a s show ?thesis by (auto simp: iotc_data_desc_append_data_resize_def)
  qed
qed

section \<open>Properties\<close>

text \<open>Chunks appended one after the other, until one is refused.\<close>

fun desc_appends :: "data_desc \<Rightarrow> byte list list \<Rightarrow> mem \<Rightarrow> iotc_state \<times> data_desc \<times> mem" where
  "desc_appends d [] m = (IOTC_STATE_OK, d, m)"
| "desc_appends d (bs # bss) m =
     (case iotc_data_desc_append_data_resize (Some d) (Some bs) m of
        (st, Some d', m') \<Rightarrow>
          if st \<noteq> IOTC_STATE_OK then (st, d', m') else desc_appends d' bss m'
      | (st, None, m') \<Rightarrow> (st, d, m'))"

lemma desc_appends_over:
  assumes "desc_over base d m" and "length (desc_data d @ concat bss) \<le> 2 ^ 31"
    and "desc_appends d bss m = (st, d', m')"
  shows "\<exists>k\<le>length bss. (st = IOTC_STATE_OK \<longleftrightarrow> k = length bss) \<and> desc_over base d' m'
    \<and> desc_data d' = desc_data d @ concat (take k bss)"
  using assms
proof (induction bss arbitrary: d m)
  case Nil
  then show ?case by simp
next
  case (Cons bs bss)
  obtain st1 x m1 where a: "iotc_data_desc_append_data_resize (Some d) (Some bs) m = (st1, x, m1)"
    by (metis prod_cases3)
  from Cons.prems have n: "unat (d_length d) + length bs \<le> 2 ^ 31" by (simp add: desc_over_def)
  from append_resize_over [OF Cons.prems(1) n a] obtain d1 where x: "x = Some d1"
    and o1: "desc_over base d1 m1" and ok: "st1 = IOTC_STATE_OK \<longrightarrow> desc_data d1 = desc_data d @ bs"
    and ko: "st1 \<noteq> IOTC_STATE_OK \<longrightarrow> desc_data d1 = desc_data d" by blast
  show ?case
  proof (cases "st1 = IOTC_STATE_OK")
    case True
    with ok have dd: "desc_data d1 = desc_data d @ bs" by simp
    from Cons.prems(3) a x True have "desc_appends d1 bss m1 = (st, d', m')" by simp
    with Cons.IH [OF o1] Cons.prems(2) dd obtain k where "k \<le> length bss"
      "st = IOTC_STATE_OK \<longleftrightarrow> k = length bss" "desc_over base d' m'"
      "desc_data d' = desc_data d @ bs @ concat (take k bss)" by auto
    then show ?thesis by (intro exI [of _ "Suc k"]) simp
  next
    case False
    with Cons.prems(3) a x have "st = st1" "d' = d1" "m' = m1" by auto
    with False ko o1 show ?thesis by (intro exI [of _ 0]) simp
  qed
qed

text \<open>
  The capacity the buffers grow to: a request that fits leaves it alone, a larger one of at
  most \<open>2 ^ 31\<close> bytes is rounded up to the least power of two that is enough, and one
  beyond \<open>2 ^ 31\<close> shifts the highest bit out and gives 0.
\<close>

theorem pow2_capacity_correct:
  "(desire \<le> original \<longrightarrow> iotc_data_desc_find_pow2_capacity original desire = original)
   \<and> (original < desire \<and> unat desire \<le> 2 ^ 31 \<longrightarrow>
        (\<exists>h\<le>31. unat (iotc_data_desc_find_pow2_capacity original desire) = 2 ^ h
           \<and> unat desire \<le> 2 ^ h \<and> 2 ^ h < 2 * unat desire))
   \<and> (original < desire \<and> 2 ^ 31 < unat desire \<longrightarrow>
        iotc_data_desc_find_pow2_capacity original desire = 0)"
  using pow2_capacity_all [of original desire]
  by (simp add: iotc_data_desc_find_pow2_capacity_def)

theorem pow2_capacity_correct_witness:
  "iotc_data_desc_find_pow2_capacity 10 0xC0000000 = 0
   \<and> (\<exists>h\<le>31. unat (iotc_data_desc_find_pow2_capacity 10 100) = 2 ^ h
           \<and> unat (100 :: 32 word) \<le> 2 ^ h \<and> 2 ^ h < 2 * unat (100 :: 32 word))"
  using pow2_capacity_correct [where original = 10 and desire = "0xC0000000"] pow2_capacity_correct [where original = 10 and desire = 100] by simp

text \<open>
  A buffer from \<^verbatim>\<open>iotc_make_empty_desc_alloc\<close> into which chunks are appended
  with \<^verbatim>\<open>iotc_data_desc_append_data_resize\<close>, at most \<open>2 ^ 31\<close> bytes in
  all, holds exactly the chunks in order, up to the first one for which memory was refused;
  no copy leaves its buffer, whatever the allocator refuses, and \<^verbatim>\<open>iotc_free_desc\<close>
  gives every block back.
\<close>

theorem desc_appends_correct:
  assumes "wf_mem m0" and "\<not> m_bad m0" and "capacity < 2 ^ 32"
    and "iotc_make_empty_desc_alloc capacity m0 = (Some d, m)"
    and "length (concat bss) \<le> 2 ^ 31"
    and "desc_appends d bss m = (st, d', m')"
  shows "\<exists>k\<le>length bss. (st = IOTC_STATE_OK \<longleftrightarrow> k = length bss)
    \<and> desc_data d' = concat (take k bss)
    \<and> m_live (iotc_free_desc (Some d') m') = m_live m0
    \<and> \<not> m_bad (iotc_free_desc (Some d') m')"
proof -
  note mk = make_empty_over [OF assms(1-4)]
  from desc_appends_over [OF mk(1) _ assms(6)] mk(2) assms(5)
  obtain k where "k \<le> length bss" "st = IOTC_STATE_OK \<longleftrightarrow> k = length bss"
    and o: "desc_over (m_live m0) d' m'" and "desc_data d' = concat (take k bss)" by auto
  with desc_free_over [OF o] show ?thesis by blast
qed

theorem desc_appends_correct_witness:
  "\<exists>d m d' m'. iotc_make_empty_desc_alloc 4 (empty_mem (\<lambda>i n. True)) = (Some d, m)
    \<and> desc_appends d [[1, 2], [3]] m = (IOTC_STATE_OK, d', m') \<and> desc_data d' = [1, 2, 3]
    \<and> m_live (iotc_free_desc (Some d') m') = Map.empty"
proof -
  let ?m0 = "empty_mem (\<lambda>i n. True)"
  obtain d m where c: "iotc_make_empty_desc_alloc 4 ?m0 = (Some d, m)"
    by (simp add: iotc_make_empty_desc_alloc_def iotc_alloc_def iotc_bsp_mem_alloc_def empty_mem_def
        sizeof_data_desc_def Let_def)
  obtain st d' m' where a: "desc_appends d [[1, 2], [3]] m = (st, d', m')" by (metis prod_cases3)
  have nb: "\<not> m_bad ?m0" and lv: "m_live ?m0 = Map.empty" by (simp_all add: empty_mem_def)
  have "st = IOTC_STATE_OK"
    using a c by (auto simp: iotc_make_empty_desc_alloc_def iotc_alloc_def iotc_bsp_mem_alloc_def empty_mem_def
        sizeof_data_desc_def zeroed_desc_def iotc_data_desc_append_data_resize_def
        iotc_data_desc_assure_buf_len_def iotc_data_desc_will_it_fit_def desc_write_def to_size_def Let_def)
  with desc_appends_correct [OF wf_empty_mem nb _ c _ a] a c show ?thesis
    by (auto simp: lv)
qed

text \<open>
  The bounded append writes all of the data behind what is there when it fits the
  capacity, and nothing otherwise, with the fill level never beyond the capacity.
\<close>

theorem append_bytes_bounded:
  assumes "desc_inv d" and "length bs < 2 ^ 63"
  shows "(case iotc_data_desc_append_bytes (Some d) (Some bs) of (st, x) \<Rightarrow>
     \<exists>d'. x = Some d' \<and> desc_inv d' \<and> d_capacity d' = d_capacity d
      \<and> (if length (desc_data d) + length bs \<le> unat (d_capacity d)
         then st = IOTC_STATE_OK \<and> desc_data d' = desc_data d @ bs
         else st = IOTC_BUFFER_OVERFLOW \<and> d' = d))"
  using assms desc_write_spec [of d bs] fits_iff [OF assms(2), of d]
  by (simp add: iotc_data_desc_append_bytes_def)

theorem append_bytes_bounded_witness:
  "\<exists>x. iotc_data_desc_append_bytes (Some \<lparr>d_self = 1, d_data_ptr = 2, d_bytes = [7, 0, 0],
        d_capacity = 3, d_length = 1, d_curr_pos = 0, d_memory_type = IOTC_MEMORY_TYPE_MANAGED\<rparr>)
       (Some [1, 2, 3]) = (IOTC_BUFFER_OVERFLOW, x)"
proof -
  let ?d = "\<lparr>d_self = 1, d_data_ptr = 2, d_bytes = [7, 0, 0],
        d_capacity = 3, d_length = 1, d_curr_pos = 0, d_memory_type = IOTC_MEMORY_TYPE_MANAGED\<rparr>"
  have i: "desc_inv ?d" by (simp add: desc_inv_def)
  from append_bytes_bounded [OF i, of "[1, 2, 3]"] show ?thesis
    by (auto simp: desc_data_def split: prod.splits)
qed

end
