(* ===== verification/Iotc_Mqtt_Message.thy ===== *)
theory Iotc_Mqtt_Message
  imports Iotc_Data_Desc
begin

text \<open>
  MQTT messages, \<^verbatim>\<open>third_party/mqtt-protocol-c/iotc_mqtt_message.c\<close>, and the functions of
  \<^verbatim>\<open>src/libiotc/mqtt/logic/iotc_mqtt_logic_layer_data_helpers.h\<close> that fill them and that match
  the topic of a message with a subscription.

  The members of the C union are the constructors of \<open>mqtt_body\<close>; the members with the same
  layout share a constructor, and the type field of the common header says which is meant. The quality of service and
  the flags of the header are the numbers in the bit fields. A string is its block and its
  characters; a character becomes the byte with its code.
\<close>

datatype mqtt_type =
    IOTC_MQTT_TYPE_NONE
  | IOTC_MQTT_TYPE_CONNECT
  | IOTC_MQTT_TYPE_CONNACK
  | IOTC_MQTT_TYPE_PUBLISH
  | IOTC_MQTT_TYPE_PUBACK
  | IOTC_MQTT_TYPE_PUBREC
  | IOTC_MQTT_TYPE_PUBREL
  | IOTC_MQTT_TYPE_PUBCOMP
  | IOTC_MQTT_TYPE_SUBSCRIBE
  | IOTC_MQTT_TYPE_SUBACK
  | IOTC_MQTT_TYPE_UNSUBSCRIBE
  | IOTC_MQTT_TYPE_UNSUBACK
  | IOTC_MQTT_TYPE_PINGREQ
  | IOTC_MQTT_TYPE_PINGRESP
  | IOTC_MQTT_TYPE_DISCONNECT

datatype mqtt_message_class =
    IOTC_MQTT_MESSAGE_CLASS_UNKNOWN
  | IOTC_MQTT_MESSAGE_CLASS_TO_SERVER
  | IOTC_MQTT_MESSAGE_CLASS_FROM_SERVER

datatype mqtt_qos = IOTC_MQTT_QOS_AT_MOST_ONCE | IOTC_MQTT_QOS_AT_LEAST_ONCE | IOTC_MQTT_QOS_EXACTLY_ONCE
datatype mqtt_retain = IOTC_MQTT_RETAIN_FALSE | IOTC_MQTT_RETAIN_TRUE
datatype mqtt_dup = IOTC_MQTT_DUP_FALSE | IOTC_MQTT_DUP_TRUE
datatype session_type = IOTC_SESSION_CLEAN | IOTC_SESSION_CONTINUE

primrec qos_code :: "mqtt_qos \<Rightarrow> nat" where
  "qos_code IOTC_MQTT_QOS_AT_MOST_ONCE = 0"
| "qos_code IOTC_MQTT_QOS_AT_LEAST_ONCE = 1"
| "qos_code IOTC_MQTT_QOS_EXACTLY_ONCE = 2"

primrec retain_code :: "mqtt_retain \<Rightarrow> nat" where
  "retain_code IOTC_MQTT_RETAIN_FALSE = 0"
| "retain_code IOTC_MQTT_RETAIN_TRUE = 1"

primrec dup_code :: "mqtt_dup \<Rightarrow> nat" where
  "dup_code IOTC_MQTT_DUP_FALSE = 0"
| "dup_code IOTC_MQTT_DUP_TRUE = 1"

definition IOTC_MQTT_SUBACK_FAILED :: nat where
  "IOTC_MQTT_SUBACK_FAILED = 0x80"

record topicpair =
  tp_self :: ptr
  tp_next :: ptr
  tp_name :: "data_desc option"
  tp_payload :: nat

record connect_fields =
  cn_protocol_name :: "data_desc option"
  cn_protocol_version :: nat
  cn_clean_session :: nat
  cn_will :: nat
  cn_will_qos :: nat
  cn_will_retain :: nat
  cn_password_follows :: nat
  cn_username_follows :: nat
  cn_keepalive :: nat
  cn_client_id :: "data_desc option"
  cn_will_topic :: "data_desc option"
  cn_will_message :: "data_desc option"
  cn_username :: "data_desc option"
  cn_password :: "data_desc option"

datatype mqtt_body =
    Connect_body connect_fields
  | Connack_body nat
  | Publish_body "data_desc option" nat "data_desc option"
  | Id_body nat
  | Topics_body nat "topicpair option"
  | No_body

record mqtt_message =
  mm_retain :: nat
  mm_qos :: nat
  mm_dup :: nat
  mm_type :: mqtt_type
  mm_remaining_length :: nat
  mm_body :: mqtt_body

definition sizeof_mqtt_message :: nat where "sizeof_mqtt_message = 72"
definition sizeof_topicpair :: nat where "sizeof_topicpair = 24"

definition zeroed_message :: mqtt_message where
  "zeroed_message = \<lparr>mm_retain = 0, mm_qos = 0, mm_dup = 0, mm_type = IOTC_MQTT_TYPE_NONE,
     mm_remaining_length = 0, mm_body = No_body\<rparr>"

definition zeroed_connect :: connect_fields where
  "zeroed_connect = \<lparr>cn_protocol_name = None, cn_protocol_version = 0, cn_clean_session = 0, cn_will = 0,
     cn_will_qos = 0, cn_will_retain = 0, cn_password_follows = 0, cn_username_follows = 0, cn_keepalive = 0,
     cn_client_id = None, cn_will_topic = None, cn_will_message = None, cn_username = None,
     cn_password = None\<rparr>"

section \<open>Messages\<close>

text \<open>The contents that go with the message's type are released, then its block \<open>p\<close>.\<close>

definition free_body :: "mqtt_type \<Rightarrow> mqtt_body \<Rightarrow> mem \<Rightarrow> mem" where
  "free_body ty body m =
     (case (ty, body) of
        (IOTC_MQTT_TYPE_CONNECT, Connect_body c) \<Rightarrow>
          (let m1 = iotc_free_desc (cn_client_id c) m;
               m2 = iotc_free_desc (cn_password c) m1;
               m3 = iotc_free_desc (cn_username c) m2;
               m4 = iotc_free_desc (cn_protocol_name c) m3;
               m5 = iotc_free_desc (cn_will_message c) m4
           in iotc_free_desc (cn_will_topic c) m5)
      | (IOTC_MQTT_TYPE_PUBLISH, Publish_body topic_name message_id content) \<Rightarrow>
          (let m1 = iotc_free_desc content m in iotc_free_desc topic_name m1)
      | (IOTC_MQTT_TYPE_SUBSCRIBE, Topics_body message_id (Some t)) \<Rightarrow>
          IOTC_SAFE_FREE (tp_self t) (iotc_free_desc (tp_name t) m)
      | (IOTC_MQTT_TYPE_SUBACK, Topics_body message_id (Some t)) \<Rightarrow>
          IOTC_SAFE_FREE (tp_self t) (iotc_free_desc (tp_name t) m)
      | _ \<Rightarrow> m)"

definition iotc_mqtt_message_free :: "ptr \<Rightarrow> mqtt_message \<Rightarrow> mem \<Rightarrow> mem" where
  "iotc_mqtt_message_free p msg m =
     (if p = NULL then m else IOTC_SAFE_FREE p (free_body (mm_type msg) (mm_body msg) m))"

definition iotc_mqtt_get_message_id :: "mqtt_message \<Rightarrow> nat" where
  "iotc_mqtt_get_message_id msg =
     (case (mm_type msg, mm_body msg) of
        (IOTC_MQTT_TYPE_PUBLISH, Publish_body topic_name message_id content) \<Rightarrow> message_id
      | (IOTC_MQTT_TYPE_PUBACK, Id_body message_id) \<Rightarrow> message_id
      | (IOTC_MQTT_TYPE_PUBREC, Id_body message_id) \<Rightarrow> message_id
      | (IOTC_MQTT_TYPE_PUBREL, Id_body message_id) \<Rightarrow> message_id
      | (IOTC_MQTT_TYPE_PUBCOMP, Id_body message_id) \<Rightarrow> message_id
      | (IOTC_MQTT_TYPE_SUBSCRIBE, Topics_body message_id topics) \<Rightarrow> message_id
      | (IOTC_MQTT_TYPE_SUBACK, Topics_body message_id topics) \<Rightarrow> message_id
      | (IOTC_MQTT_TYPE_UNSUBACK, Id_body message_id) \<Rightarrow> message_id
      | _ \<Rightarrow> 0)"

definition iotc_mqtt_class_msg_type_receiving :: "mqtt_type \<Rightarrow> mqtt_message_class" where
  "iotc_mqtt_class_msg_type_receiving msg_type =
     (if msg_type \<in> {IOTC_MQTT_TYPE_PUBLISH, IOTC_MQTT_TYPE_PUBREL}
      then IOTC_MQTT_MESSAGE_CLASS_FROM_SERVER
      else if msg_type \<in> {IOTC_MQTT_TYPE_PUBACK, IOTC_MQTT_TYPE_PUBREC, IOTC_MQTT_TYPE_PUBCOMP,
                          IOTC_MQTT_TYPE_SUBACK, IOTC_MQTT_TYPE_UNSUBACK, IOTC_MQTT_TYPE_PINGRESP}
      then IOTC_MQTT_MESSAGE_CLASS_TO_SERVER
      else IOTC_MQTT_MESSAGE_CLASS_UNKNOWN)"

definition iotc_mqtt_class_msg_type_sending :: "mqtt_type \<Rightarrow> mqtt_message_class" where
  "iotc_mqtt_class_msg_type_sending msg_type =
     (if msg_type \<in> {IOTC_MQTT_TYPE_PUBACK, IOTC_MQTT_TYPE_PUBREC, IOTC_MQTT_TYPE_PUBCOMP}
      then IOTC_MQTT_MESSAGE_CLASS_FROM_SERVER
      else if msg_type \<in> {IOTC_MQTT_TYPE_PUBLISH, IOTC_MQTT_TYPE_PUBREL, IOTC_MQTT_TYPE_SUBSCRIBE,
                          IOTC_MQTT_TYPE_UNSUBSCRIBE, IOTC_MQTT_TYPE_PINGREQ, IOTC_MQTT_TYPE_DISCONNECT}
      then IOTC_MQTT_MESSAGE_CLASS_TO_SERVER
      else IOTC_MQTT_MESSAGE_CLASS_UNKNOWN)"

section \<open>Filling in messages\<close>

definition bytes_of :: "string \<Rightarrow> byte list" where
  "bytes_of s = map of_char s"

definition cstr_bytes :: "cstr \<Rightarrow> byte list option" where
  "cstr_bytes s = map_option (\<lambda>(p, cs). bytes_of cs) s"

definition fill_with_pingreq_data :: mqtt_message where
  "fill_with_pingreq_data = zeroed_message\<lparr>mm_type := IOTC_MQTT_TYPE_PINGREQ\<rparr>"

definition fill_with_puback_data :: "nat \<Rightarrow> mqtt_message" where
  "fill_with_puback_data msg_id =
     zeroed_message\<lparr>mm_type := IOTC_MQTT_TYPE_PUBACK, mm_body := Id_body msg_id\<rparr>"

definition fill_with_connack_data :: "nat \<Rightarrow> mqtt_message" where
  "fill_with_connack_data return_code =
     zeroed_message\<lparr>mm_type := IOTC_MQTT_TYPE_CONNACK, mm_body := Connack_body return_code\<rparr>"

definition fill_with_disconnect_data :: mqtt_message where
  "fill_with_disconnect_data = zeroed_message\<lparr>mm_type := IOTC_MQTT_TYPE_DISCONNECT\<rparr>"

text \<open>A CONNECT message; every early return leaves the fields set so far in it.\<close>

definition connect_message :: "connect_fields \<Rightarrow> mqtt_message" where
  "connect_message c = zeroed_message\<lparr>mm_type := IOTC_MQTT_TYPE_CONNECT, mm_body := Connect_body c\<rparr>"

definition fill_connect_will ::
    "cstr \<Rightarrow> cstr \<Rightarrow> mqtt_qos \<Rightarrow> mqtt_retain \<Rightarrow> connect_fields \<Rightarrow> mem \<Rightarrow> iotc_state \<times> connect_fields \<times> mem" where
  "fill_connect_will will_topic will_message will_qos will_retain c m =
     (if will_message = None \<and> will_topic \<noteq> None then (IOTC_NULL_WILL_MESSAGE, c, m)
      else if will_message \<noteq> None \<and> will_topic = None then (IOTC_NULL_WILL_TOPIC, c, m)
      else if will_message \<noteq> None \<and> will_topic \<noteq> None then
        (case iotc_make_desc_from_string_copy (cstr_bytes will_topic) m of (d, m1) \<Rightarrow>
           (let c1 = c\<lparr>cn_will_topic := d\<rparr>
            in if d = None then (IOTC_OUT_OF_MEMORY, c1, m1)
               else (case iotc_make_desc_from_string_copy (cstr_bytes will_message) m1 of (d, m2) \<Rightarrow>
                 (let c2 = c1\<lparr>cn_will_message := d\<rparr>
                  in if d = None then (IOTC_OUT_OF_MEMORY, c2, m2)
                     else (IOTC_STATE_OK, c2\<lparr>cn_will := 1, cn_will_retain := retain_code will_retain,
                             cn_will_qos := qos_code will_qos\<rparr>, m2)))))
      else (IOTC_STATE_OK, c, m))"

definition fill_connect_password :: "cstr \<Rightarrow> connect_fields \<Rightarrow> mem \<Rightarrow> iotc_state \<times> connect_fields \<times> mem" where
  "fill_connect_password password c m =
     (if cn_username_follows c = 1 \<and> password \<noteq> None then
        (let c1 = c\<lparr>cn_password_follows := 1\<rparr>
         in case iotc_make_desc_from_string_copy (cstr_bytes password) m of (d, m1) \<Rightarrow>
              (let c2 = c1\<lparr>cn_password := d\<rparr>
               in if d = None then (IOTC_OUT_OF_MEMORY, c2, m1) else (IOTC_STATE_OK, c2, m1)))
      else (IOTC_STATE_OK, c\<lparr>cn_password_follows := 0\<rparr>, m))"

definition fill_connect_username :: "cstr \<Rightarrow> connect_fields \<Rightarrow> mem \<Rightarrow> iotc_state \<times> connect_fields \<times> mem" where
  "fill_connect_username username c m =
     (if username \<noteq> None then
        (let c1 = c\<lparr>cn_username_follows := 1\<rparr>
         in case iotc_make_desc_from_string_copy (cstr_bytes username) m of (d, m1) \<Rightarrow>
              (let c2 = c1\<lparr>cn_username := d\<rparr>
               in if d = None then (IOTC_OUT_OF_MEMORY, c2, m1) else (IOTC_STATE_OK, c2, m1)))
      else (IOTC_STATE_OK, c\<lparr>cn_username_follows := 0\<rparr>, m))"

definition fill_connect_fields ::
    "cstr \<Rightarrow> cstr \<Rightarrow> cstr \<Rightarrow> nat \<Rightarrow> session_type \<Rightarrow> cstr \<Rightarrow> cstr \<Rightarrow> mqtt_qos \<Rightarrow> mqtt_retain \<Rightarrow> mem \<Rightarrow>
     iotc_state \<times> connect_fields \<times> mem" where
  "fill_connect_fields username password client_id keepalive_timeout session_type will_topic will_message
       will_qos will_retain m =
     (case iotc_make_desc_from_string_copy (Some (bytes_of ''MQTT'')) m of (d, m1) \<Rightarrow>
        (let c1 = zeroed_connect\<lparr>cn_protocol_name := d\<rparr>
         in if d = None then (IOTC_OUT_OF_MEMORY, c1, m1)
            else (let c2 = c1\<lparr>cn_protocol_version := 4\<rparr>
              in case iotc_make_desc_from_string_copy (cstr_bytes client_id) m1 of (d, m2) \<Rightarrow>
                (let c3 = c2\<lparr>cn_client_id := d\<rparr>
                 in if d = None then (IOTC_OUT_OF_MEMORY, c3, m2)
                    else (case fill_connect_username username c3 m2 of (st, c4, m3) \<Rightarrow>
                      if st \<noteq> IOTC_STATE_OK then (st, c4, m3)
                      else (case fill_connect_password password c4 m3 of (st, c5, m4) \<Rightarrow>
                        if st \<noteq> IOTC_STATE_OK then (st, c5, m4)
                        else (case fill_connect_will will_topic will_message will_qos will_retain c5 m4 of
                          (st, c6, m5) \<Rightarrow>
                            if st \<noteq> IOTC_STATE_OK then (st, c6, m5)
                            else (IOTC_STATE_OK,
                              c6\<lparr>cn_clean_session := (if session_type = IOTC_SESSION_CLEAN then 1 else 0),
                                 cn_keepalive := keepalive_timeout\<rparr>, m5))))))))"

definition fill_with_connect_data ::
    "cstr \<Rightarrow> cstr \<Rightarrow> cstr \<Rightarrow> nat \<Rightarrow> session_type \<Rightarrow> cstr \<Rightarrow> cstr \<Rightarrow> mqtt_qos \<Rightarrow> mqtt_retain \<Rightarrow> mem \<Rightarrow>
     iotc_state \<times> mqtt_message \<times> mem" where
  "fill_with_connect_data username password client_id keepalive_timeout session_type will_topic will_message
       will_qos will_retain m =
     (if client_id = None then (IOTC_NULL_CLIENT_ID_ERROR, zeroed_message, m)
      else (case fill_connect_fields username password client_id keepalive_timeout session_type will_topic
               will_message will_qos will_retain m of
              (st, c, m1) \<Rightarrow> (st, connect_message c, m1)))"

definition IOTC_MQTT_MAX_PAYLOAD_SIZE :: nat where
  "IOTC_MQTT_MAX_PAYLOAD_SIZE = 1024 * 128"

text \<open>\<open>msg\<close> is what the block holds before.\<close>

definition fill_with_publish_data ::
    "mqtt_message \<Rightarrow> cstr \<Rightarrow> data_desc \<Rightarrow> mqtt_qos \<Rightarrow> mqtt_retain \<Rightarrow> mqtt_dup \<Rightarrow> nat \<Rightarrow> mem \<Rightarrow>
     iotc_state \<times> mqtt_message \<times> mem" where
  "fill_with_publish_data msg topic cnt qos retain dup msg_id m =
     (if unat (d_length cnt) > IOTC_MQTT_MAX_PAYLOAD_SIZE then (IOTC_MQTT_PAYLOAD_SIZE_TOO_LARGE, msg, m)
      else
        (let msg1 = zeroed_message\<lparr>mm_retain := retain_code retain, mm_qos := qos_code qos,
               mm_dup := dup_code dup, mm_type := IOTC_MQTT_TYPE_PUBLISH\<rparr>
         in case iotc_make_desc_from_string_share (map_option (\<lambda>(p, cs). (p, bytes_of cs)) topic) m of (t, m1) \<Rightarrow>
              if t = None then (IOTC_OUT_OF_MEMORY, msg1\<lparr>mm_body := Publish_body t 0 None\<rparr>, m1)
              else (case iotc_make_desc_from_buffer_share (d_data_ptr cnt)
                           (take (unat (d_length cnt)) (d_bytes cnt)) m1 of (d, m2) \<Rightarrow>
                if d = None then (IOTC_OUT_OF_MEMORY, msg1\<lparr>mm_body := Publish_body t 0 d\<rparr>, m2)
                else (IOTC_STATE_OK, msg1\<lparr>mm_body := Publish_body t msg_id d\<rparr>, m2))))"

definition fill_with_subscribe_data ::
    "cstr \<Rightarrow> nat \<Rightarrow> mqtt_qos \<Rightarrow> mqtt_dup \<Rightarrow> mem \<Rightarrow> iotc_state \<times> mqtt_message \<times> mem" where
  "fill_with_subscribe_data topic msg_id qos dup m =
     (let msg1 = zeroed_message\<lparr>mm_qos := qos_code IOTC_MQTT_QOS_AT_LEAST_ONCE, mm_dup := dup_code dup,
            mm_type := IOTC_MQTT_TYPE_SUBSCRIBE\<rparr>
      in case iotc_alloc sizeof_topicpair m of (p, m1) \<Rightarrow>
        if p = NULL then (IOTC_OUT_OF_MEMORY, msg1\<lparr>mm_body := Topics_body 0 None\<rparr>, m1)
        else
          (let t = \<lparr>tp_self = p, tp_next = NULL, tp_name = None, tp_payload = 0\<rparr>
           in case iotc_make_desc_from_string_copy (cstr_bytes topic) m1 of (d, m2) \<Rightarrow>
                if d = None
                then (IOTC_OUT_OF_MEMORY, msg1\<lparr>mm_body := Topics_body 0 (Some (t\<lparr>tp_name := d\<rparr>))\<rparr>, m2)
                else (IOTC_STATE_OK, msg1\<lparr>mm_body := Topics_body msg_id
                        (Some (t\<lparr>tp_name := d, tp_payload := qos_code qos\<rparr>))\<rparr>, m2)))"

section \<open>Matching topics\<close>

text \<open>
  The result is 0 for a match. \<open>topic\<close> is the topic filter of a subscription, \<open>cb\<close> the topic name of a
  message; \<open>None\<close> stands for null pointers. Both lengths are cut to a byte.
\<close>

definition match_topics :: "byte list option \<Rightarrow> data_desc option \<Rightarrow> int" where
  "match_topics topic cb =
     (case (topic, cb) of
        (Some sub, Some d) \<Rightarrow>
          (if d_data_ptr d = NULL then 1
           else
             (let subscription_length = to_u8 (length sub);
                  published_topic_length = to_u8 (unat (d_length d))
              in if subscription_length = 0 then 1
                 else if published_topic_length = 0 then 1
                 else if sub ! (subscription_length - 1) \<noteq> of_char CHR ''#'' then
                   (if published_topic_length \<noteq> subscription_length then 1
                    else if take published_topic_length sub \<noteq> take published_topic_length (d_bytes d) then 1
                    else 0)
                 else if subscription_length = 1 then 0
                 else if subscription_length - 1 \<le> published_topic_length then
                   (if take (subscription_length - 1) sub \<noteq> take (subscription_length - 1) (d_bytes d)
                    then 1 else 0)
                 else if subscription_length - 2 = published_topic_length then
                   (if take (subscription_length - 2) sub \<noteq> take (subscription_length - 2) (d_bytes d)
                    then 1 else 0)
                 else 1))
      | _ \<Rightarrow> 1)"

section \<open>Topic filters\<close>

text \<open>
  What the protocol prescribes (MQTT 3.1.1, section 4.7, without the single-level wildcard, which the code does not
  treat): topics consist of levels separated by slashes, and a last level \<open>#\<close> of a filter stands
  for the parent level and any number of levels below it.
\<close>

definition slash :: byte where "slash = of_char CHR ''/''"
definition hash :: byte where "hash = of_char CHR ''#''"

fun topic_levels :: "byte list \<Rightarrow> byte list list" where
  "topic_levels [] = [[]]"
| "topic_levels (c # cs) =
     (if c = slash then [] # topic_levels cs
      else (case topic_levels cs of [] \<Rightarrow> [[c]] | l # ls \<Rightarrow> (c # l) # ls))"

fun levels_match :: "byte list list \<Rightarrow> byte list list \<Rightarrow> bool" where
  "levels_match [] ns = (ns = [])"
| "levels_match (f # fs) ns =
     (if f = [hash] \<and> fs = [] then True
      else (case ns of [] \<Rightarrow> False | n # ns' \<Rightarrow> f = n \<and> levels_match fs ns'))"

text \<open>Filters with the wildcard as their whole last level only, or without it.\<close>

definition filter_ok :: "byte list \<Rightarrow> bool" where
  "filter_ok f \<longleftrightarrow> hash \<notin> set f \<or> f = [hash] \<or> (\<exists>p. f = p @ [slash, hash] \<and> hash \<notin> set p)"

lemma topic_levels_not_Nil [simp]: "topic_levels x \<noteq> []" "[] \<noteq> topic_levels x"
  by (induction x) (auto split: list.splits)

lemma topic_levels_append: "topic_levels (a @ slash # b) = topic_levels a @ topic_levels b"
  by (induction a) (auto split: list.splits)

lemma topic_levels_inj: "topic_levels x = topic_levels y \<Longrightarrow> x = y"
proof (induction x arbitrary: y)
  case Nil
  then show ?case by (cases y) (auto split: if_splits list.splits)
next
  case (Cons c cs)
  then show ?case by (cases y) (auto split: if_splits list.splits)
qed

lemma topic_levels_prefix:
  "topic_levels pub = topic_levels p @ zs \<Longrightarrow> zs \<noteq> [] \<Longrightarrow> \<exists>r. pub = p @ slash # r"
proof (induction p arbitrary: pub)
  case Nil
  then show ?case by (cases pub) (auto split: if_splits list.splits)
next
  case (Cons c p)
  show ?case
  proof (cases pub)
    case Nil
    with Cons.prems show ?thesis by (auto split: if_splits list.splits)
  next
    case (Cons d pub')
    with Cons.prems have "c = d" and "topic_levels pub' = topic_levels p @ zs"
      by (auto split: if_splits list.splits)
    with Cons.IH [of pub'] Cons.prems(2) Cons show ?thesis by simp
  qed
qed

lemma hash_in_levels: "l \<in> set (topic_levels x) \<Longrightarrow> hash \<in> set l \<Longrightarrow> hash \<in> set x"
proof (induction x arbitrary: l)
  case (Cons c cs)
  obtain l0 ls where eq: "topic_levels cs = l0 # ls" by (cases "topic_levels cs") auto
  with Cons show ?case by (force split: if_splits)
qed simp

lemma levels_match_plain: "[hash] \<notin> set fs \<Longrightarrow> levels_match fs ns \<longleftrightarrow> fs = ns"
  by (induction fs ns rule: levels_match.induct) (auto split: list.splits)

lemma levels_match_wildcard:
  "[hash] \<notin> set fs \<Longrightarrow> levels_match (fs @ [[hash]]) ns \<longleftrightarrow> (\<exists>zs. ns = fs @ zs)"
proof (induction fs arbitrary: ns)
  case (Cons f fs)
  then show ?case by (cases ns) auto
qed simp

lemma topic_match_wildcard:
  assumes "hash \<notin> set p"
  shows "levels_match (topic_levels (p @ [slash, hash])) (topic_levels pub)
    \<longleftrightarrow> pub = p \<or> (\<exists>r. pub = p @ slash # r)"
proof -
  have "topic_levels (p @ [slash, hash]) = topic_levels p @ [[hash]]"
    using topic_levels_append [of p "[hash]"] by (simp add: slash_def hash_def)
  moreover have "[hash] \<notin> set (topic_levels p)" using assms hash_in_levels by fastforce
  ultimately have "levels_match (topic_levels (p @ [slash, hash])) (topic_levels pub)
      \<longleftrightarrow> (\<exists>zs. topic_levels pub = topic_levels p @ zs)"
    by (simp add: levels_match_wildcard)
  also have "\<dots> \<longleftrightarrow> pub = p \<or> (\<exists>r. pub = p @ slash # r)"
  proof
    assume "\<exists>zs. topic_levels pub = topic_levels p @ zs"
    then obtain zs where z: "topic_levels pub = topic_levels p @ zs" ..
    then show "pub = p \<or> (\<exists>r. pub = p @ slash # r)"
      using topic_levels_inj [of pub p] topic_levels_prefix [OF z] by (cases "zs = []") auto
  qed (auto simp: topic_levels_append)
  finally show ?thesis .
qed

lemma topic_match_plain:
  assumes "hash \<notin> set f"
  shows "levels_match (topic_levels f) (topic_levels pub) \<longleftrightarrow> f = pub"
proof -
  have "[hash] \<notin> set (topic_levels f)" using assms hash_in_levels by fastforce
  then show ?thesis using levels_match_plain topic_levels_inj by metis
qed

lemma desc_take:
  "k \<le> unat (d_length d) \<Longrightarrow> take k (d_bytes d) = take k (desc_data d)"
  by (simp add: desc_data_def min_def)

lemma match_topics_cases:
  assumes "desc_inv d" and "d_data_ptr d \<noteq> NULL" and "sub \<noteq> []" and "length sub < 256"
    and "desc_data d \<noteq> []" and "length (desc_data d) < 256"
  shows "match_topics (Some sub) (Some d) = 0 \<longleftrightarrow>
    (if last sub \<noteq> hash then sub = desc_data d
     else sub = [hash] \<or> (1 < length sub \<and> (take (length sub - 1) (desc_data d) = butlast sub
       \<or> desc_data d = take (length sub - 2) sub)))"
proof -
  let ?pub = "desc_data d"
  have l: "unat (d_length d) = length ?pub" using assms(1) by simp
  have n: "to_u8 (length sub) = length sub" "to_u8 (unat (d_length d)) = length ?pub"
    using assms(4,6) by (simp_all add: l)
  have lst: "sub ! (length sub - 1) = last sub" using assms(3) by (simp add: last_conv_nth)
  have tk: "take k (d_bytes d) = take k ?pub" if "k \<le> length ?pub" for k using desc_take [of k d] that by (simp add: l)
  have bl: "take (length sub - 1) sub = butlast sub" by (simp add: butlast_conv_take)
  have z: "length sub \<noteq> 0" "length ?pub \<noteq> 0" using assms(3,5) by auto
  show ?thesis
  proof (cases "last sub = hash")
    case False
    have "match_topics (Some sub) (Some d) =
        (if length ?pub \<noteq> length sub then 1 else if take (length ?pub) sub \<noteq> ?pub then 1 else 0)"
      using z assms(2) tk [of "length ?pub"] False
      by (simp only: match_topics_def n lst Let_def option.case prod.case hash_def if_False if_True) simp
    moreover have "take (length ?pub) sub = sub" if "length ?pub = length sub" using that by simp
    ultimately show ?thesis using False by (auto split: if_splits)
  next
    case True
    show ?thesis
    proof (cases "length sub = 1")
      case True1: True
      then have "sub = [hash]" using True by (cases sub) auto
      with z assms(2) True1 show ?thesis by (simp add: match_topics_def n hash_def Let_def)
    next
      case False
      with z(1) have g: "1 < length sub" by linarith
      with False have ns: "sub \<noteq> [hash]" by auto
      have m: "match_topics (Some sub) (Some d) = 0 \<longleftrightarrow>
          (if length sub - 1 \<le> length ?pub then butlast sub = take (length sub - 1) ?pub
           else length sub - 2 = length ?pub \<and> take (length sub - 2) sub = ?pub)"
      proof (cases "length sub - 1 \<le> length ?pub")
        case True2: True
        with True False z assms(2) tk [OF True2] show ?thesis
          by (simp only: match_topics_def n lst Let_def option.case prod.case hash_def bl if_False if_True) simp
      next
        case False2: False
        with True False z assms(2) tk [of "length ?pub"] show ?thesis
          by (simp only: match_topics_def n lst Let_def option.case prod.case hash_def if_False if_True) simp
      qed
      have "take (length sub - 1) ?pub = butlast sub \<Longrightarrow> length sub - 1 \<le> length ?pub"
        using g by (metis length_butlast length_take min.cobounded1)
      moreover have "?pub = take (length sub - 2) sub \<Longrightarrow> length ?pub = length sub - 2"
        using g by (metis diff_le_self length_take min.absorb2)
      ultimately show ?thesis using m True ns g by (auto split: if_splits)
    qed
  qed
qed


definition desc_of :: "byte list \<Rightarrow> data_desc" where
  "desc_of bs = \<lparr>d_self = 5, d_data_ptr = 6, d_bytes = bs, d_capacity = of_nat (length bs),
     d_length = of_nat (length bs), d_curr_pos = 0, d_memory_type = IOTC_MEMORY_TYPE_MANAGED\<rparr>"

lemma desc_of_inv: "length bs < 2 ^ 32 \<Longrightarrow> desc_inv (desc_of bs) \<and> desc_data (desc_of bs) = bs"
  by (simp add: desc_of_def desc_inv_def desc_data_def unat_of_nat take_bit_eq_mod)


text \<open>
  Lengths of topics are cut to a byte: a filter and a topic name that are both \<open>256 + n\<close> bytes long match as
  soon as their first \<open>n\<close> bytes do, whatever follows, and never when \<open>n\<close> is 0.
\<close>

theorem match_topics_cuts_lengths:
  assumes "desc_inv d" and "d_data_ptr d \<noteq> NULL" and "n < 256"
    and "length sub = 256 + n" and "length (desc_data d) = 256 + n" and "sub ! (n - 1) \<noteq> hash"
  shows "match_topics (Some sub) (Some d) = 0 \<longleftrightarrow> 0 < n \<and> take n sub = take n (desc_data d)"
proof -
  have l: "unat (d_length d) = 256 + n" using assms(1,5) by simp
  have c: "to_u8 (256 + n) = n" using assms(3) by (simp add: to_u8_def)
  have "take n (d_bytes d) = take n (desc_data d)" by (rule desc_take) (simp add: l)
  then show ?thesis using assms(2,6)
    by (auto simp: match_topics_def assms(4) l c hash_def Let_def)
qed

theorem match_topics_cuts_lengths_witness:
  "match_topics (Some (replicate 257 97)) (Some (desc_of (97 # replicate 256 98))) = 0"
proof -
  have d: "desc_inv (desc_of (97 # replicate 256 98)) \<and> desc_data (desc_of (97 # replicate 256 98)) = 97 # replicate 256 98"
    by (rule desc_of_inv) simp
  let ?d = "desc_of (97 # replicate 256 98)"
  have p: "d_data_ptr ?d \<noteq> NULL" by (simp add: desc_of_def)
  have l: "length (replicate 257 (97::byte)) = 256 + 1" "length (desc_data ?d) = 256 + 1"
    using d by (simp_all del: desc_data_length)
  have h: "replicate 257 (97::byte) ! (1 - 1) \<noteq> hash" by (simp add: hash_def)
  from match_topics_cuts_lengths [OF conjunct1 [OF d] p _ l h] show ?thesis using d by simp
qed

section \<open>Ownership\<close>

text \<open>
  A heap in which exactly the blocks of \<open>M\<close> have been allocated on top of the live blocks \<open>base\<close>.
\<close>

definition owns_blocks :: "(ptr \<rightharpoonup> nat) \<Rightarrow> ptr multiset \<Rightarrow> mem \<Rightarrow> bool" where
  "owns_blocks base M m \<longleftrightarrow> wf_mem m \<and> \<not> m_bad m \<and> (\<forall>p. count M p \<le> 1) \<and> NULL \<notin># M
     \<and> (\<forall>p\<in>#M. base p = None \<and> m_live m p \<noteq> None) \<and> (\<forall>p. p \<notin># M \<longrightarrow> m_live m p = base p)"

lemma owns_none: "wf_mem m \<Longrightarrow> \<not> m_bad m \<Longrightarrow> owns_blocks (m_live m) {#} m"
  by (simp add: owns_blocks_def)

lemma owns_none_live: "owns_blocks base {#} m \<Longrightarrow> m_live m = base \<and> \<not> m_bad m \<and> wf_mem m"
  by (auto simp: owns_blocks_def)

lemma owns_free:
  assumes "owns_blocks base (add_mset p M) m"
  shows "owns_blocks base M (IOTC_SAFE_FREE p m)"
proof -
  have c: "count M q \<le> (if q = p then 0 else 1)" for q
    using assms unfolding owns_blocks_def
    by (metis (mono_tags, lifting) Suc_le_mono count_add_mset le_zero_eq nle_le not_less_eq_eq One_nat_def)
  from c [of p] have n: "p \<notin># M" by (simp add: not_in_iff)
  have "count M q \<le> 1" for q using c [of q] by (simp split: if_splits)
  then show ?thesis using assms n by (auto simp: owns_blocks_def mem_simps)
qed

lemma owns_alloc:
  assumes "owns_blocks base M m" and "iotc_alloc n m = (p, m')"
  shows "owns_blocks base (if p = NULL then M else add_mset p M) m'"
proof (cases "p = NULL")
  case True
  with assms show ?thesis
    using alloc_wf [OF _ assms(2)] alloc_bad [OF assms(2)] alloc_null_live [of m n m']
    by (auto simp: owns_blocks_def)
next
  case False
  from assms(1) have w: "wf_mem m" by (simp add: owns_blocks_def)
  note f = alloc_fresh [OF w assms(2)] and l = alloc_live [OF w assms(2) False]
  from f assms(1) have n: "p \<notin># M" "base p = None" by (auto simp: owns_blocks_def)
  with assms False l show ?thesis
    using alloc_wf [OF w assms(2)] alloc_bad [OF assms(2)]
    by (auto simp: owns_blocks_def not_in_iff)
qed

definition desc_blocks :: "data_desc option \<Rightarrow> ptr multiset" where
  "desc_blocks d = (case d of None \<Rightarrow> {#}
     | Some d \<Rightarrow> {#d_self d#} + (if d_memory_type d = IOTC_MEMORY_TYPE_MANAGED then {#d_data_ptr d#} else {#}))"

lemma desc_blocks_None [simp]: "desc_blocks None = {#}"
  by (simp add: desc_blocks_def)

lemma owns_free_desc:
  assumes "owns_blocks base (desc_blocks d + M) m"
  shows "owns_blocks base M (iotc_free_desc d m)"
proof (cases d)
  case None
  with assms show ?thesis by (simp add: iotc_free_desc_def)
next
  case (Some x)
  show ?thesis
  proof (cases "d_memory_type x = IOTC_MEMORY_TYPE_MANAGED")
    case True
    with Some assms have "owns_blocks base (add_mset (d_data_ptr x) (add_mset (d_self x) M)) m"
      by (simp add: desc_blocks_def add_mset_commute)
    from owns_free [OF owns_free [OF this]] True Some show ?thesis by (simp add: iotc_free_desc_def)
  next
    case False
    with Some assms have "owns_blocks base (add_mset (d_self x) M) m" by (simp add: desc_blocks_def)
    from owns_free [OF this] False Some show ?thesis by (simp add: iotc_free_desc_def)
  qed
qed

lemma owns_string_copy:
  assumes "owns_blocks base M m" and "iotc_make_desc_from_string_copy str m = (d, m')"
  shows "owns_blocks base (desc_blocks d + M) m'"
proof (cases str)
  case None
  with assms show ?thesis by (simp add: iotc_make_desc_from_string_copy_def)
next
  case (Some s)
  obtain p m1 where a1: "iotc_alloc sizeof_data_desc m = (p, m1)" by fastforce
  obtain b m2 where a2: "iotc_alloc (length s) m1 = (b, m2)" by fastforce
  note o1 = owns_alloc [OF assms(1) a1] and o2 = owns_alloc [OF owns_alloc [OF assms(1) a1] a2]
  show ?thesis
    using assms(2) Some a1 a2 o1 o2 owns_free [of base p M m2]
    by (auto simp: iotc_make_desc_from_string_copy_def Let_def desc_blocks_def iotc_free_desc_def
        zeroed_desc_def add_mset_commute split: if_splits)
qed

lemma owns_share:
  assumes "owns_blocks base M m"
    and "iotc_make_desc_from_buffer_share b bs m = (d, m') \<or> iotc_make_desc_from_string_share str m = (d, m')"
  shows "owns_blocks base (desc_blocks d + M) m'"
proof -
  obtain p m1 where a1: "iotc_alloc sizeof_data_desc m = (p, m1)" by fastforce
  from owns_alloc [OF assms(1) a1] assms a1 show ?thesis
    by (auto simp: iotc_make_desc_from_buffer_share_def iotc_make_desc_from_string_share_def Let_def desc_blocks_def
        iotc_free_desc_def zeroed_desc_def split: if_splits option.splits)
qed

text \<open>The blocks of a message, without its own.\<close>

definition connect_blocks :: "connect_fields \<Rightarrow> ptr multiset" where
  "connect_blocks c = desc_blocks (cn_client_id c) + (desc_blocks (cn_password c) + (desc_blocks (cn_username c)
     + (desc_blocks (cn_protocol_name c) + (desc_blocks (cn_will_message c) + desc_blocks (cn_will_topic c)))))"

definition body_blocks :: "mqtt_type \<Rightarrow> mqtt_body \<Rightarrow> ptr multiset" where
  "body_blocks ty body =
     (case (ty, body) of
        (IOTC_MQTT_TYPE_CONNECT, Connect_body c) \<Rightarrow> connect_blocks c
      | (IOTC_MQTT_TYPE_PUBLISH, Publish_body topic_name message_id content) \<Rightarrow>
          desc_blocks content + desc_blocks topic_name
      | (IOTC_MQTT_TYPE_SUBSCRIBE, Topics_body message_id (Some t)) \<Rightarrow> desc_blocks (tp_name t) + {#tp_self t#}
      | (IOTC_MQTT_TYPE_SUBACK, Topics_body message_id (Some t)) \<Rightarrow> desc_blocks (tp_name t) + {#tp_self t#}
      | _ \<Rightarrow> {#})"

definition message_blocks :: "ptr \<Rightarrow> mqtt_message \<Rightarrow> ptr multiset" where
  "message_blocks p msg = body_blocks (mm_type msg) (mm_body msg) + {#p#}"

lemma owns_free_body:
  assumes "owns_blocks base (body_blocks ty body + M) m"
  shows "owns_blocks base M (free_body ty body m)"
proof -
  have connect: "owns_blocks base M (free_body IOTC_MQTT_TYPE_CONNECT (Connect_body c) m)"
    if "owns_blocks base (connect_blocks c + M) m" for c
    using that by (simp add: free_body_def connect_blocks_def Let_def add.assoc owns_free_desc)
  have publish: "owns_blocks base M (free_body IOTC_MQTT_TYPE_PUBLISH (Publish_body t i d) m)"
    if "owns_blocks base (desc_blocks d + desc_blocks t + M) m" for t i d
    using that by (simp add: free_body_def Let_def add.assoc owns_free_desc)
  have topics: "owns_blocks base M (IOTC_SAFE_FREE (tp_self t) (iotc_free_desc (tp_name t) m))"
    if "owns_blocks base (desc_blocks (tp_name t) + {#tp_self t#} + M) m" for t
    using that by (intro owns_free owns_free_desc) (simp add: add.assoc)
  show ?thesis
    using assms connect publish topics
    by (cases ty; cases body) (auto simp: body_blocks_def free_body_def split: option.splits)
qed

lemma owns_message_free:
  assumes "owns_blocks base (message_blocks p msg + M) m"
  shows "owns_blocks base M (iotc_mqtt_message_free p msg m)"
proof -
  from assms have "p \<noteq> NULL" by (auto simp: owns_blocks_def message_blocks_def)
  with owns_free [OF owns_free_body, of base "mm_type msg" "mm_body msg" p M m] assms show ?thesis
    by (simp add: iotc_mqtt_message_free_def message_blocks_def add.assoc)
qed

lemma owns_username:
  assumes "owns_blocks base (connect_blocks c + M) m" and "cn_username c = None"
    and "fill_connect_username username c m = (st, c', m')"
  shows "owns_blocks base (connect_blocks c' + M) m' \<and> c' = c\<lparr>cn_username_follows := cn_username_follows c',
    cn_username := cn_username c'\<rparr>"
proof -
  obtain d m1 where s: "iotc_make_desc_from_string_copy (cstr_bytes username) m = (d, m1)" by fastforce
  from assms owns_string_copy [OF assms(1) s] s show ?thesis
    by (auto simp: fill_connect_username_def connect_blocks_def Let_def add.assoc add.left_commute split: if_splits)
qed

lemma owns_password:
  assumes "owns_blocks base (connect_blocks c + M) m" and "cn_password c = None"
    and "fill_connect_password password c m = (st, c', m')"
  shows "owns_blocks base (connect_blocks c' + M) m' \<and> c' = c\<lparr>cn_password_follows := cn_password_follows c',
    cn_password := cn_password c'\<rparr>"
proof -
  obtain d m1 where s: "iotc_make_desc_from_string_copy (cstr_bytes password) m = (d, m1)" by fastforce
  from assms owns_string_copy [OF assms(1) s] s show ?thesis
    by (auto simp: fill_connect_password_def connect_blocks_def Let_def add.assoc add.left_commute split: if_splits)
qed

lemma owns_will:
  assumes "owns_blocks base (connect_blocks c + M) m" and "cn_will_topic c = None" and "cn_will_message c = None"
    and "fill_connect_will will_topic will_message q r c m = (st, c', m')"
  shows "owns_blocks base (connect_blocks c' + M) m'"
proof -
  obtain d1 m1 where s1: "iotc_make_desc_from_string_copy (cstr_bytes will_topic) m = (d1, m1)" by fastforce
  obtain d2 m2 where s2: "iotc_make_desc_from_string_copy (cstr_bytes will_message) m1 = (d2, m2)" by fastforce
  note o1 = owns_string_copy [OF assms(1) s1]
  note o2 = owns_string_copy [OF o1 s2]
  from assms o1 o2 s1 s2 show ?thesis
    by (auto simp: fill_connect_will_def connect_blocks_def Let_def add.assoc add.left_commute split: if_splits)
qed

lemma owns_connect_fields:
  assumes "owns_blocks base M m"
    and "fill_connect_fields username password client_id keepalive session will_topic will_message q r m = (st, c, m')"
  shows "owns_blocks base (connect_blocks c + M) m'"
proof -
  obtain d1 m1 where s1: "iotc_make_desc_from_string_copy (Some (bytes_of ''MQTT'')) m = (d1, m1)" by fastforce
  obtain d2 m2 where s2: "iotc_make_desc_from_string_copy (cstr_bytes client_id) m1 = (d2, m2)" by fastforce
  note o1 = owns_string_copy [OF assms(1) s1]
  note o2 = owns_string_copy [OF o1 s2]
  define c3 where "c3 = zeroed_connect\<lparr>cn_protocol_name := d1, cn_protocol_version := 4, cn_client_id := d2\<rparr>"
  have n3: "cn_username c3 = None" "cn_password c3 = None" "cn_will_topic c3 = None" "cn_will_message c3 = None"
    by (simp_all add: c3_def zeroed_connect_def)
  have o3: "owns_blocks base (connect_blocks c3 + M) m2"
    using o2 by (simp add: c3_def zeroed_connect_def connect_blocks_def add.assoc)
  obtain st4 c4 m3 where f4: "fill_connect_username username c3 m2 = (st4, c4, m3)" by (metis prod_cases3)
  from owns_username [OF o3 n3(1) f4] have o4: "owns_blocks base (connect_blocks c4 + M) m3"
    and e4: "c4 = c3\<lparr>cn_username_follows := cn_username_follows c4, cn_username := cn_username c4\<rparr>" by auto
  have n4: "cn_password c4 = None" "cn_will_topic c4 = None" "cn_will_message c4 = None"
    using n3 by (subst e4, simp)+
  obtain st5 c5 m4 where f5: "fill_connect_password password c4 m3 = (st5, c5, m4)" by (metis prod_cases3)
  from owns_password [OF o4 n4(1) f5] have o5: "owns_blocks base (connect_blocks c5 + M) m4"
    and e5: "c5 = c4\<lparr>cn_password_follows := cn_password_follows c5, cn_password := cn_password c5\<rparr>" by auto
  have n5: "cn_will_topic c5 = None" "cn_will_message c5 = None" using n4 by (subst e5, simp)+
  obtain st6 c6 m5 where f6: "fill_connect_will will_topic will_message q r c5 m4 = (st6, c6, m5)" by (metis prod_cases3)
  note o6 = owns_will [OF o5 n5 f6]
  have z: "connect_blocks (c6\<lparr>cn_clean_session := x, cn_keepalive := y\<rparr>) = connect_blocks c6" for x y
    by (simp add: connect_blocks_def)
  have z1: "connect_blocks (zeroed_connect\<lparr>cn_protocol_name := d\<rparr>) = desc_blocks d" for d
    by (simp add: connect_blocks_def zeroed_connect_def)
  have eq: "(st, c, m') = (if d1 = None then (IOTC_OUT_OF_MEMORY, zeroed_connect\<lparr>cn_protocol_name := d1\<rparr>, m1)
      else if d2 = None then (IOTC_OUT_OF_MEMORY, c3, m2)
      else if st4 \<noteq> IOTC_STATE_OK then (st4, c4, m3) else if st5 \<noteq> IOTC_STATE_OK then (st5, c5, m4)
      else if st6 \<noteq> IOTC_STATE_OK then (st6, c6, m5)
      else (IOTC_STATE_OK, c6\<lparr>cn_clean_session := (if session = IOTC_SESSION_CLEAN then 1 else 0),
              cn_keepalive := keepalive\<rparr>, m5))"
    unfolding assms(2) [symmetric] using s1 s2 f4 [unfolded c3_def] f5 f6
    by (simp add: fill_connect_fields_def Let_def c3_def)
  show ?thesis
    using eq o1 o3 o4 o5 o6 by (simp add: z z1 split: if_splits)
qed

definition nothing_leaks :: "mem \<Rightarrow> ptr \<Rightarrow> iotc_state \<times> mqtt_message \<times> mem \<Rightarrow> bool" where
  "nothing_leaks m p r \<longleftrightarrow> (case r of (st, msg, m2) \<Rightarrow>
     m_live (iotc_mqtt_message_free p msg m2) = m_live m \<and> \<not> m_bad (iotc_mqtt_message_free p msg m2))"

lemma fill_owned_nothing_leaks:
  assumes "owns_blocks (m_live m) (message_blocks p msg) m2"
  shows "nothing_leaks m p (st, msg, m2)"
  using owns_message_free [of "m_live m" p msg "{#}" m2] assms
  by (auto simp: nothing_leaks_def dest: owns_none_live)

lemma fill_nothing_leaks:
  assumes "wf_mem m" and "\<not> m_bad m" and "iotc_alloc sizeof_mqtt_message m = (p, m1)" and "p \<noteq> NULL"
  shows "nothing_leaks m p (fill_with_connect_data username password client_id keepalive session wt wm q r m1)"
    and "nothing_leaks m p (fill_with_publish_data zeroed_message topic cnt q r dup msg_id m1)"
    and "nothing_leaks m p (fill_with_subscribe_data topic msg_id q dup m1)"
proof -
  let ?b = "m_live m"
  have o: "owns_blocks ?b {#p#} m1" using owns_alloc [OF owns_none [OF assms(1,2)] assms(3)] assms(4) by simp
  have zero: "nothing_leaks m p (st, zeroed_message, m1)" for st
    by (rule fill_owned_nothing_leaks) (use o in \<open>simp add: message_blocks_def zeroed_message_def body_blocks_def\<close>)
  show "nothing_leaks m p (fill_with_connect_data username password client_id keepalive session wt wm q r m1)"
  proof (cases "client_id = None")
    case True
    with zero show ?thesis by (simp add: fill_with_connect_data_def)
  next
    case False
    obtain st c m2 where f: "fill_connect_fields username password client_id keepalive session wt wm q r m1 = (st, c, m2)"
      by (metis prod_cases3)
    have "nothing_leaks m p (st, connect_message c, m2)"
      by (rule fill_owned_nothing_leaks)
        (use owns_connect_fields [OF o f] in \<open>simp add: message_blocks_def connect_message_def zeroed_message_def
           body_blocks_def\<close>)
    with False f show ?thesis by (auto simp: fill_with_connect_data_def)
  qed
  show "nothing_leaks m p (fill_with_publish_data zeroed_message topic cnt q r dup msg_id m1)"
  proof (cases "IOTC_MQTT_MAX_PAYLOAD_SIZE < unat (d_length cnt)")
    case True
    with zero show ?thesis by (simp add: fill_with_publish_data_def)
  next
    case False
    obtain t m2 where s1: "iotc_make_desc_from_string_share (map_option (\<lambda>(p, cs). (p, bytes_of cs)) topic) m1 = (t, m2)"
      by fastforce
    obtain d m3 where s2: "iotc_make_desc_from_buffer_share (d_data_ptr cnt) (take (unat (d_length cnt)) (d_bytes cnt)) m2 = (d, m3)"
      by fastforce
    note o1 = owns_share [OF o disjI2 [OF s1]]
    note o2 = owns_share [OF o1 disjI1 [OF s2]]
    have b: "message_blocks p (zeroed_message\<lparr>mm_retain := x, mm_qos := y, mm_dup := z, mm_type := IOTC_MQTT_TYPE_PUBLISH,
        mm_body := Publish_body t i d\<rparr>) = desc_blocks d + (desc_blocks t + {#p#})" for x y z i t d
      by (simp add: message_blocks_def body_blocks_def)
    show ?thesis using False s1 s2 o1 o2
      by (auto simp: fill_with_publish_data_def Let_def b intro!: fill_owned_nothing_leaks)
  qed
  obtain tp m2 where a: "iotc_alloc sizeof_topicpair m1 = (tp, m2)" by fastforce
  obtain d m3 where s: "iotc_make_desc_from_string_copy (cstr_bytes topic) m2 = (d, m3)" by fastforce
  note o1 = owns_alloc [OF o a]
  note o2 = owns_string_copy [OF o1 s]
  have b: "message_blocks p (zeroed_message\<lparr>mm_qos := y, mm_dup := z, mm_type := IOTC_MQTT_TYPE_SUBSCRIBE,
      mm_body := Topics_body i x\<rparr>) = (case x of None \<Rightarrow> {#p#} | Some t \<Rightarrow> desc_blocks (tp_name t) + {#tp_self t, p#})" for y z i x
    by (simp add: message_blocks_def body_blocks_def split: option.split)
  show "nothing_leaks m p (fill_with_subscribe_data topic msg_id q dup m1)"
    using a s o1 o2 by (auto simp: fill_with_subscribe_data_def Let_def b intro!: fill_owned_nothing_leaks)
qed

text \<open>
  However far filling in a message comes, whatever allocation fails and whatever argument is refused, \<^verbatim>\<open>iotc_mqtt_message_free\<close> gives back
  exactly the blocks that were allocated for it, each once.
\<close>

theorem fill_then_free_leaks_nothing:
  assumes "wf_mem m" and "\<not> m_bad m" and "iotc_alloc sizeof_mqtt_message m = (p, m1)" and "p \<noteq> NULL"
  shows "nothing_leaks m p (fill_with_connect_data username password client_id keepalive session wt wm q r m1)
    \<and> nothing_leaks m p (fill_with_publish_data zeroed_message topic cnt q r dup msg_id m1)
    \<and> nothing_leaks m p (fill_with_subscribe_data topic msg_id q dup m1)"
  using fill_nothing_leaks [OF assms] by blast

theorem fill_then_free_leaks_nothing_witness:
  "\<exists>p m1. iotc_alloc sizeof_mqtt_message (empty_mem (\<lambda>i n. i < 6)) = (p, m1)
    \<and> nothing_leaks (empty_mem (\<lambda>i n. i < 6)) p (fill_with_connect_data (Some (20, ''me'')) None (Some (30, ''id''))
         20 IOTC_SESSION_CLEAN None None IOTC_MQTT_QOS_AT_MOST_ONCE IOTC_MQTT_RETAIN_FALSE m1)"
proof -
  let ?m = "empty_mem (\<lambda>i n. i < 6)"
  obtain p m1 where a: "iotc_alloc sizeof_mqtt_message ?m = (p, m1)" by fastforce
  have "m_ok ?m (m_seq ?m) sizeof_mqtt_message" and b: "\<not> m_bad ?m" by (simp_all add: empty_mem_def)
  then have "p \<noteq> NULL" by (rule_tac alloc_granted [OF wf_empty_mem _ a])
  from fill_then_free_leaks_nothing [OF wf_empty_mem b a this] a show ?thesis by blast
qed

definition desc_text :: "data_desc option \<Rightarrow> byte list option" where
  "desc_text d = map_option desc_data d"

lemma string_copy_text:
  assumes "iotc_make_desc_from_string_copy str m = (d, m')" and "d \<noteq> None"
    and "\<And>s. str = Some s \<Longrightarrow> length s < 2 ^ 32"
  shows "desc_text d = str"
  using assms by (auto simp: iotc_make_desc_from_string_copy_def Let_def desc_text_def desc_data_def memcpy_at_def
      unat_of_nat take_bit_eq_mod split: option.splits prod.splits if_splits)

definition short :: "cstr \<Rightarrow> bool" where
  "short s \<longleftrightarrow> (case s of None \<Rightarrow> True | Some (p, cs) \<Rightarrow> length cs < 2 ^ 32)"

lemma short_bytes: "short s \<Longrightarrow> cstr_bytes s = Some bs \<Longrightarrow> length bs < 2 ^ 32"
  by (auto simp: short_def cstr_bytes_def bytes_of_def)

lemma cstr_bytes_None [simp]: "cstr_bytes s = None \<longleftrightarrow> s = None"
  by (simp add: cstr_bytes_def)

lemma username_ok:
  assumes "fill_connect_username u c m = (IOTC_STATE_OK, c', m')" and "short u" and "cn_username c = None"
  obtains d where "c' = c\<lparr>cn_username_follows := of_bool (u \<noteq> None), cn_username := d\<rparr>" and "desc_text d = cstr_bytes u"
proof -
  obtain d m1 where s: "iotc_make_desc_from_string_copy (cstr_bytes u) m = (d, m1)" by fastforce
  have t: "d \<noteq> None \<Longrightarrow> desc_text d = cstr_bytes u" by (rule string_copy_text [OF s]) (use assms(2) short_bytes in auto)
  show thesis
  proof (cases "u = None")
    case True
    with assms have "c' = c\<lparr>cn_username_follows := 0, cn_username := None\<rparr>"
      by (cases c) (auto simp: fill_connect_username_def)
    with True show thesis by (intro that [where d = None]) (simp_all add: cstr_bytes_def desc_text_def)
  next
    case False
    with assms(1) s t show thesis
      by (intro that [of d]) (auto simp: fill_connect_username_def Let_def split: if_splits)
  qed
qed

lemma password_ok:
  assumes "fill_connect_password u c m = (IOTC_STATE_OK, c', m')" and "short u" and "cn_password c = None"
  obtains d where "c' = c\<lparr>cn_password_follows := of_bool (cn_username_follows c = 1 \<and> u \<noteq> None), cn_password := d\<rparr>"
    and "desc_text d = (if cn_username_follows c = 1 then cstr_bytes u else None)"
proof -
  obtain d m1 where s: "iotc_make_desc_from_string_copy (cstr_bytes u) m = (d, m1)" by fastforce
  have t: "d \<noteq> None \<Longrightarrow> desc_text d = cstr_bytes u" by (rule string_copy_text [OF s]) (use assms(2) short_bytes in auto)
  show thesis
  proof (cases "cn_username_follows c = 1 \<and> u \<noteq> None")
    case False
    with assms have "c' = c\<lparr>cn_password_follows := 0, cn_password := None\<rparr>"
      by (cases c) (auto simp: fill_connect_password_def split: if_splits)
    with False show thesis by (intro that [where d = None]; cases u) (auto simp: cstr_bytes_def desc_text_def)
  next
    case True
    with assms(1) s t show thesis
      by (intro that [of d]) (auto simp: fill_connect_password_def Let_def split: if_splits)
  qed
qed

lemma will_ok:
  assumes "fill_connect_will wt wm q r c m = (IOTC_STATE_OK, c', m')" and "short wt" and "short wm"
    and "cn_will_topic c = None" and "cn_will_message c = None" and "cn_will c = 0"
  obtains e f x y where "c' = c\<lparr>cn_will_topic := e, cn_will_message := f, cn_will := of_bool (wm \<noteq> None),
      cn_will_retain := x, cn_will_qos := y\<rparr>"
    and "desc_text e = cstr_bytes wt" and "desc_text f = cstr_bytes wm" and "wt = None \<longleftrightarrow> wm = None"
proof -
  obtain d1 m1 where s1: "iotc_make_desc_from_string_copy (cstr_bytes wt) m = (d1, m1)" by fastforce
  obtain d2 m2 where s2: "iotc_make_desc_from_string_copy (cstr_bytes wm) m1 = (d2, m2)" by fastforce
  have t1: "d1 \<noteq> None \<Longrightarrow> desc_text d1 = cstr_bytes wt" by (rule string_copy_text [OF s1]) (use assms(2) short_bytes in auto)
  have t2: "d2 \<noteq> None \<Longrightarrow> desc_text d2 = cstr_bytes wm" by (rule string_copy_text [OF s2]) (use assms(3) short_bytes in auto)
  show thesis
  proof (cases "wm = None")
    case True
    with assms have "c' = c" "wt = None" by (cases wt; auto simp: fill_connect_will_def split: if_splits)+
    moreover have "c = c\<lparr>cn_will_topic := None, cn_will_message := None, cn_will := 0,
        cn_will_retain := cn_will_retain c, cn_will_qos := cn_will_qos c\<rparr>" using assms(4-6) by (cases c) simp
    ultimately show thesis using True
      by (intro that [where e = None and f = None and x = "cn_will_retain c" and y = "cn_will_qos c"])
        (simp_all add: cstr_bytes_def desc_text_def)
  next
    case False
    with assms(1) s1 s2 t1 t2 show thesis
      by (intro that [where e = d1 and f = d2 and x = "retain_code r" and y = "qos_code q"])
        (auto simp: fill_connect_will_def Let_def split: if_splits)
  qed
qed

text \<open>
  A CONNECT message that is filled in without an error carries the protocol name and level of MQTT 3.1.1, the client id, and
  exactly the strings that were given; its flags announce the fields that follow as the protocol demands: a password only
  with a user name, and topic and message of a will only together.
\<close>

theorem connect_message_correct:
  assumes "short username" and "short password" and "short client_id" and "short wt" and "short wm"
    and "fill_with_connect_data username password client_id keepalive session wt wm q r m = (IOTC_STATE_OK, msg, m')"
  shows "mm_type msg = IOTC_MQTT_TYPE_CONNECT \<and> client_id \<noteq> None \<and> (wt = None \<longleftrightarrow> wm = None)
    \<and> (\<exists>c. mm_body msg = Connect_body c \<and> cn_protocol_version c = 4
        \<and> desc_text (cn_protocol_name c) = Some (bytes_of ''MQTT'')
        \<and> desc_text (cn_client_id c) = cstr_bytes client_id
        \<and> desc_text (cn_username c) = cstr_bytes username
        \<and> desc_text (cn_password c) = (if username = None then None else cstr_bytes password)
        \<and> desc_text (cn_will_topic c) = cstr_bytes wt \<and> desc_text (cn_will_message c) = cstr_bytes wm
        \<and> cn_username_follows c = of_bool (username \<noteq> None)
        \<and> cn_password_follows c = of_bool (username \<noteq> None \<and> password \<noteq> None)
        \<and> cn_will c = of_bool (wm \<noteq> None)
        \<and> cn_clean_session c = of_bool (session = IOTC_SESSION_CLEAN) \<and> cn_keepalive c = keepalive)"
proof -
  from assms(6) have id: "client_id \<noteq> None" by (auto simp: fill_with_connect_data_def split: if_splits)
  with assms(6) obtain c where f: "fill_connect_fields username password client_id keepalive session wt wm q r m
      = (IOTC_STATE_OK, c, m')" and msg: "msg = connect_message c"
    by (auto simp: fill_with_connect_data_def split: prod.splits)
  obtain d1 m1 where s1: "iotc_make_desc_from_string_copy (Some (bytes_of ''MQTT'')) m = (d1, m1)" by fastforce
  obtain d2 m2 where s2: "iotc_make_desc_from_string_copy (cstr_bytes client_id) m1 = (d2, m2)" by fastforce
  define c3 where "c3 = zeroed_connect\<lparr>cn_protocol_name := d1, cn_protocol_version := 4, cn_client_id := d2\<rparr>"
  obtain st4 c4 m3 where f4: "fill_connect_username username c3 m2 = (st4, c4, m3)" by (metis prod_cases3)
  obtain st5 c5 m4 where f5: "fill_connect_password password c4 m3 = (st5, c5, m4)" by (metis prod_cases3)
  obtain st6 c6 m5 where f6: "fill_connect_will wt wm q r c5 m4 = (st6, c6, m5)" by (metis prod_cases3)
  have ok: "d1 \<noteq> None" "d2 \<noteq> None" "st4 = IOTC_STATE_OK" "st5 = IOTC_STATE_OK" "st6 = IOTC_STATE_OK"
    and c: "c = c6\<lparr>cn_clean_session := (if session = IOTC_SESSION_CLEAN then 1 else 0), cn_keepalive := keepalive\<rparr>"
    using f s1 s2 f4 [unfolded c3_def] f5 f6
    by (auto simp: fill_connect_fields_def Let_def split: if_splits)
  have t1: "desc_text d1 = Some (bytes_of ''MQTT'')" by (rule string_copy_text [OF s1 ok(1)]) (simp add: bytes_of_def)
  have t2: "desc_text d2 = cstr_bytes client_id" by (rule string_copy_text [OF s2 ok(2)]) (use assms(3) short_bytes in auto)
  obtain d4 where e4: "c4 = c3\<lparr>cn_username_follows := of_bool (username \<noteq> None), cn_username := d4\<rparr>"
    and t4: "desc_text d4 = cstr_bytes username"
    by (rule username_ok [OF f4 [unfolded ok] assms(1)]) (simp_all add: c3_def zeroed_connect_def)
  obtain d5 where e5: "c5 = c4\<lparr>cn_password_follows := of_bool (cn_username_follows c4 = 1 \<and> password \<noteq> None), cn_password := d5\<rparr>"
    and t5: "desc_text d5 = (if cn_username_follows c4 = 1 then cstr_bytes password else None)"
    by (rule password_ok [OF f5 [unfolded ok] assms(2)]) (simp_all add: e4 c3_def zeroed_connect_def)
  obtain d6 d7 x y where e6: "c6 = c5\<lparr>cn_will_topic := d6, cn_will_message := d7, cn_will := of_bool (wm \<noteq> None),
      cn_will_retain := x, cn_will_qos := y\<rparr>"
    and t6: "desc_text d6 = cstr_bytes wt" "desc_text d7 = cstr_bytes wm" "wt = None \<longleftrightarrow> wm = None"
    by (rule will_ok [OF f6 [unfolded ok] assms(4,5)]) (simp_all add: e5 e4 c3_def zeroed_connect_def)
  have "cn_username_follows c4 = of_bool (username \<noteq> None)" by (simp add: e4)
  then show ?thesis using id t1 t2 t4 t5 t6
    by (simp add: msg connect_message_def zeroed_message_def c e6 e5 e4 c3_def)
qed

theorem connect_message_correct_witness:
  "\<exists>msg m' c. fill_with_connect_data None (Some (20, ''pw'')) (Some (30, ''id'')) 20 IOTC_SESSION_CLEAN None None
      IOTC_MQTT_QOS_AT_MOST_ONCE IOTC_MQTT_RETAIN_FALSE (empty_mem (\<lambda>i n. True)) = (IOTC_STATE_OK, msg, m')
    \<and> mm_body msg = Connect_body c \<and> cn_password c = None \<and> desc_text (cn_client_id c) = Some (bytes_of ''id'')"
proof -
  let ?f = "fill_with_connect_data None (Some (20, ''pw'')) (Some (30, ''id'')) 20 IOTC_SESSION_CLEAN None None
      IOTC_MQTT_QOS_AT_MOST_ONCE IOTC_MQTT_RETAIN_FALSE (empty_mem (\<lambda>i n. True))"
  have al: "iotc_alloc n (empty_mem (\<lambda>i n. True)\<lparr>m_next := k, m_live := l, m_seq := j\<rparr>) =
      (k, empty_mem (\<lambda>i n. True)\<lparr>m_next := Suc k, m_live := l(k \<mapsto> n), m_seq := Suc j\<rparr>)" for n k l j
    by (simp add: iotc_alloc_def iotc_bsp_mem_alloc_def empty_mem_def)
  have e: "empty_mem (\<lambda>i n. True) = empty_mem (\<lambda>i n. True)\<lparr>m_next := Suc 0, m_live := Map.empty, m_seq := 0\<rparr>"
    by (simp add: empty_mem_def)
  obtain st msg m' where r: "?f = (st, msg, m')" by (metis prod_cases3)
  have "fst ?f = IOTC_STATE_OK"
    by (subst e) (simp add: fill_with_connect_data_def fill_connect_fields_def fill_connect_username_def fill_connect_password_def
        fill_connect_will_def iotc_make_desc_from_string_copy_def Let_def al cstr_bytes_def bytes_of_def zeroed_connect_def)
  with r have r': "?f = (IOTC_STATE_OK, msg, m')" by simp
  from connect_message_correct [OF _ _ _ _ _ r'] show ?thesis using r'
    by (auto simp: short_def cstr_bytes_def desc_text_def)
qed

end
