(* ===== verification/Iotc_Connection_Data.thy ===== *)
theory Iotc_Connection_Data
  imports Iotc_Helpers Iotc_Mqtt_Message
begin

text \<open>
  The parameters of a connection, \<^verbatim>\<open>src/libiotc/iotc_connection_data.c\<close>: a block with copies of the
  strings the user gave. A string is its block and its characters. Comparing with a null string is undefined in C; it sets
  the flag for undefined behaviour.
\<close>

datatype connection_state =
    IOTC_CONNECTION_STATE_UNINITIALIZED
  | IOTC_CONNECTION_STATE_OPENING
  | IOTC_CONNECTION_STATE_OPENED
  | IOTC_CONNECTION_STATE_CLOSING
  | IOTC_CONNECTION_STATE_CLOSED
  | IOTC_CONNECTION_STATE_OPEN_FAILED

record connection_data =
  cd_self :: ptr
  cd_host :: cstr
  cd_username :: cstr
  cd_password :: cstr
  cd_client_id :: cstr
  cd_port :: nat
  cd_connection_timeout :: nat
  cd_keepalive_timeout :: nat
  cd_connection_state :: connection_state
  cd_session_type :: session_type
  cd_will_topic :: cstr
  cd_will_message :: cstr
  cd_will_qos :: mqtt_qos
  cd_will_retain :: mqtt_retain

definition sizeof_connection_data :: nat where "sizeof_connection_data = 80"

definition zeroed_connection_data :: "ptr \<Rightarrow> connection_data" where
  "zeroed_connection_data p = \<lparr>cd_self = p, cd_host = None, cd_username = None, cd_password = None,
     cd_client_id = None, cd_port = 0, cd_connection_timeout = 0, cd_keepalive_timeout = 0,
     cd_connection_state = IOTC_CONNECTION_STATE_UNINITIALIZED, cd_session_type = IOTC_SESSION_CLEAN,
     cd_will_topic = None, cd_will_message = None, cd_will_qos = IOTC_MQTT_QOS_AT_MOST_ONCE,
     cd_will_retain = IOTC_MQTT_RETAIN_FALSE\<rparr>"

section \<open>Operations\<close>

definition str_free :: "cstr \<Rightarrow> mem \<Rightarrow> mem" where
  "str_free s m = IOTC_SAFE_FREE (case s of None \<Rightarrow> NULL | Some (p, cs) \<Rightarrow> p) m"

text \<open>
  One guarded duplication; the flag of the first component says that no duplication failed so far, when it is
  false the code has jumped to the label \<^verbatim>\<open>err_handling\<close>.
\<close>

definition dup_string ::
    "(cstr \<Rightarrow> connection_data \<Rightarrow> connection_data) \<Rightarrow> cstr \<Rightarrow> bool \<times> connection_data \<times> mem \<Rightarrow>
     bool \<times> connection_data \<times> mem" where
  "dup_string put src r =
     (case r of (ok, ret, m) \<Rightarrow>
        if \<not> ok then r
        else (case src of None \<Rightarrow> r
              | Some (p, cs) \<Rightarrow> (case iotc_str_dup iotc_alloc cs m of (d, m1) \<Rightarrow> (d \<noteq> None, put d ret, m1))))"

definition free_strings :: "connection_data \<Rightarrow> mem \<Rightarrow> mem" where
  "free_strings c m =
     str_free (cd_will_message c) (str_free (cd_will_topic c) (str_free (cd_client_id c)
       (str_free (cd_password c) (str_free (cd_username c) (str_free (cd_host c) m)))))"

definition put_settings ::
    "nat \<Rightarrow> nat \<Rightarrow> nat \<Rightarrow> session_type \<Rightarrow> mqtt_qos \<Rightarrow> mqtt_retain \<Rightarrow> connection_data \<Rightarrow> connection_data" where
  "put_settings port connection_timeout keepalive_timeout session_type will_qos will_retain c =
     c\<lparr>cd_port := port, cd_connection_timeout := connection_timeout, cd_keepalive_timeout := keepalive_timeout,
       cd_session_type := session_type, cd_will_qos := will_qos, cd_will_retain := will_retain\<rparr>"

abbreviation (input) "put_host d c \<equiv> c\<lparr>cd_host := d\<rparr>"
abbreviation (input) "put_username d c \<equiv> c\<lparr>cd_username := d\<rparr>"
abbreviation (input) "put_password d c \<equiv> c\<lparr>cd_password := d\<rparr>"
abbreviation (input) "put_client_id d c \<equiv> c\<lparr>cd_client_id := d\<rparr>"
abbreviation (input) "put_will_topic d c \<equiv> c\<lparr>cd_will_topic := d\<rparr>"
abbreviation (input) "put_will_message d c \<equiv> c\<lparr>cd_will_message := d\<rparr>"

definition iotc_alloc_connection_data_lastwill ::
    "cstr \<Rightarrow> nat \<Rightarrow> cstr \<Rightarrow> cstr \<Rightarrow> cstr \<Rightarrow> nat \<Rightarrow> nat \<Rightarrow> session_type \<Rightarrow> cstr \<Rightarrow> cstr \<Rightarrow> mqtt_qos \<Rightarrow> mqtt_retain \<Rightarrow>
     mem \<Rightarrow> connection_data option \<times> mem" where
  "iotc_alloc_connection_data_lastwill host port username password client_id connection_timeout
       keepalive_timeout session_type will_topic will_message will_qos will_retain m =
     (case iotc_alloc sizeof_connection_data m of (p, m0) \<Rightarrow>
        if p = NULL then (None, m0)
        else
          (let r1 = dup_string (\<lambda>d c. put_host d c) host (True, zeroed_connection_data p, m0);
               r2 = dup_string (\<lambda>d c. put_username d c) username r1;
               r3 = dup_string (\<lambda>d c. put_password d c) password r2;
               r4 = dup_string (\<lambda>d c. put_client_id d c) client_id r3;
               r5 = dup_string (\<lambda>d c. put_will_topic d c) will_topic r4;
               r6 = dup_string (\<lambda>d c. put_will_message d c) will_message r5
           in case r6 of (ok, ret, m1) \<Rightarrow>
                if ok then
                  (Some (put_settings port connection_timeout keepalive_timeout session_type will_qos
                           will_retain ret), m1)
                else (None, IOTC_SAFE_FREE p (free_strings ret m1))))"

definition iotc_alloc_connection_data ::
    "cstr \<Rightarrow> nat \<Rightarrow> cstr \<Rightarrow> cstr \<Rightarrow> cstr \<Rightarrow> nat \<Rightarrow> nat \<Rightarrow> session_type \<Rightarrow> mem \<Rightarrow>
     connection_data option \<times> mem" where
  "iotc_alloc_connection_data host port username password client_id connection_timeout keepalive_timeout
       session_type m =
     iotc_alloc_connection_data_lastwill host port username password client_id connection_timeout
       keepalive_timeout session_type None None IOTC_MQTT_QOS_AT_MOST_ONCE IOTC_MQTT_RETAIN_FALSE m"

text \<open>One guarded replacement of the update; the old string \<open>get c\<close> is released before the new one is made.\<close>

definition replace_string ::
    "(connection_data \<Rightarrow> cstr) \<Rightarrow> (cstr \<Rightarrow> connection_data \<Rightarrow> connection_data) \<Rightarrow> cstr \<Rightarrow>
     bool \<times> connection_data \<times> mem \<Rightarrow> bool \<times> connection_data \<times> mem" where
  "replace_string get put src r =
     (case r of (ok, c, m) \<Rightarrow>
        if \<not> ok then r
        else (case src of None \<Rightarrow> r
              | Some (p, cs) \<Rightarrow>
                  (let m0 = (if get c = None then m\<lparr>m_bad := True\<rparr> else m)
                   in if map_option snd (get c) \<noteq> Some cs then
                        (case iotc_str_dup iotc_alloc cs (str_free (get c) m0) of
                           (d, m1) \<Rightarrow> (d \<noteq> None, put d c, m1))
                      else (ok, c, m0))))"

definition replace_strings ::
    "connection_data \<Rightarrow> cstr \<Rightarrow> cstr \<Rightarrow> cstr \<Rightarrow> cstr \<Rightarrow> cstr \<Rightarrow> cstr \<Rightarrow> mem \<Rightarrow> bool \<times> connection_data \<times> mem" where
  "replace_strings conn_data host username password client_id will_topic will_message m =
     (let r1 = replace_string cd_host (\<lambda>d c. put_host d c) host (True, conn_data, m);
          r2 = replace_string cd_username (\<lambda>d c. put_username d c) username r1;
          r3 = replace_string cd_password (\<lambda>d c. put_password d c) password r2;
          r4 = replace_string cd_client_id (\<lambda>d c. put_client_id d c) client_id r3;
          r5 = replace_string cd_will_topic (\<lambda>d c. put_will_topic d c) will_topic r4
      in replace_string cd_will_message (\<lambda>d c. put_will_message d c) will_message r5)"

definition iotc_connection_data_update_lastwill ::
    "connection_data \<Rightarrow> cstr \<Rightarrow> nat \<Rightarrow> cstr \<Rightarrow> cstr \<Rightarrow> cstr \<Rightarrow> nat \<Rightarrow> nat \<Rightarrow> session_type \<Rightarrow> cstr \<Rightarrow> cstr \<Rightarrow> mqtt_qos \<Rightarrow>
     mqtt_retain \<Rightarrow> mem \<Rightarrow> iotc_state \<times> connection_data \<times> mem" where
  "iotc_connection_data_update_lastwill conn_data host port username password client_id connection_timeout
       keepalive_timeout session_type will_topic will_message will_qos will_retain m =
     (case replace_strings conn_data host username password client_id will_topic will_message m of
        (ok, c, m1) \<Rightarrow>
           if ok then
             (IOTC_STATE_OK, put_settings port connection_timeout keepalive_timeout session_type will_qos
                will_retain c, m1)
           else (IOTC_OUT_OF_MEMORY, c, m1))"

definition iotc_connection_data_update ::
    "connection_data \<Rightarrow> cstr \<Rightarrow> nat \<Rightarrow> cstr \<Rightarrow> cstr \<Rightarrow> cstr \<Rightarrow> nat \<Rightarrow> nat \<Rightarrow> session_type \<Rightarrow> mem \<Rightarrow>
     iotc_state \<times> connection_data \<times> mem" where
  "iotc_connection_data_update conn_data host port username password client_id connection_timeout
       keepalive_timeout session_type m =
     iotc_connection_data_update_lastwill conn_data host port username password client_id connection_timeout
       keepalive_timeout session_type None None IOTC_MQTT_QOS_AT_MOST_ONCE IOTC_MQTT_RETAIN_FALSE m"

definition iotc_free_connection_data :: "connection_data option \<Rightarrow> mem \<Rightarrow> mem" where
  "iotc_free_connection_data data m =
     (case data of None \<Rightarrow> m | Some c \<Rightarrow> IOTC_SAFE_FREE (cd_self c) (free_strings c m))"

section \<open>Ownership\<close>

definition str_blocks :: "cstr \<Rightarrow> ptr multiset" where
  "str_blocks s = (case s of None \<Rightarrow> {#} | Some (p, cs) \<Rightarrow> {#p#})"

definition connection_blocks :: "connection_data \<Rightarrow> ptr multiset" where
  "connection_blocks c = str_blocks (cd_host c) + (str_blocks (cd_username c) + (str_blocks (cd_password c)
     + (str_blocks (cd_client_id c) + (str_blocks (cd_will_topic c) + (str_blocks (cd_will_message c)
     + {#cd_self c#})))))"

lemma str_blocks_None [simp]: "str_blocks None = {#}"
  by (simp add: str_blocks_def)

lemma owns_str_free: "owns_blocks base (str_blocks s + M) m \<Longrightarrow> owns_blocks base M (str_free s m)"
proof (cases s)
  case None
  moreover assume "owns_blocks base (str_blocks s + M) m"
  ultimately show ?thesis by (simp add: str_free_def IOTC_SAFE_FREE_def)
next
  case (Some a)
  moreover assume "owns_blocks base (str_blocks s + M) m"
  ultimately show ?thesis
    using owns_free [of base "fst a" M m] by (cases a) (simp add: str_blocks_def str_free_def)
qed

lemma owns_str_dup:
  assumes "owns_blocks base M m" and "iotc_str_dup iotc_alloc cs m = (d, m')"
  shows "owns_blocks base (str_blocks d + M) m'"
  using assms owns_alloc [OF assms(1), of "length cs + 1"]
  by (auto simp: iotc_str_dup_def Let_def str_blocks_def split: prod.splits if_splits)

lemma str_dup_text: "iotc_str_dup al cs m = (d, m') \<Longrightarrow> d \<noteq> None \<Longrightarrow> map_option snd d = Some cs"
  by (auto simp: iotc_str_dup_def Let_def split: prod.splits if_splits)

text \<open>A field and how setting it changes the blocks.\<close>

definition field_of :: "(connection_data \<Rightarrow> cstr) \<Rightarrow> (cstr \<Rightarrow> connection_data \<Rightarrow> connection_data) \<Rightarrow> bool" where
  "field_of get put \<longleftrightarrow> (\<forall>c d. get (put d c) = d
     \<and> connection_blocks c = str_blocks (get c) + connection_blocks (put None c)
     \<and> connection_blocks (put d c) = str_blocks d + connection_blocks (put None c))"

lemma connection_fields:
  "field_of cd_host (\<lambda>d c. put_host d c)" "field_of cd_username (\<lambda>d c. put_username d c)"
  "field_of cd_password (\<lambda>d c. put_password d c)" "field_of cd_client_id (\<lambda>d c. put_client_id d c)"
  "field_of cd_will_topic (\<lambda>d c. put_will_topic d c)" "field_of cd_will_message (\<lambda>d c. put_will_message d c)"
  by (simp_all add: field_of_def connection_blocks_def add_ac)

definition owned_strings :: "(ptr \<rightharpoonup> nat) \<Rightarrow> bool \<times> connection_data \<times> mem \<Rightarrow> bool" where
  "owned_strings base r = (case r of (ok, c, m) \<Rightarrow> owns_blocks base (connection_blocks c) m)"

lemma owned_dup_string:
  assumes "field_of get put" and "owned_strings base r" and "get (fst (snd r)) = None"
  shows "owned_strings base (dup_string put src r)"
proof -
  obtain ok c m where r: "r = (ok, c, m)" by (cases r)
  show ?thesis
  proof (cases "ok \<and> src \<noteq> None")
    case True
    then obtain p cs where s: "src = Some (p, cs)" by auto
    obtain d m1 where d: "iotc_str_dup iotc_alloc cs m = (d, m1)" by fastforce
    from assms r have o: "owns_blocks base (connection_blocks c) m" and n: "get c = None"
      by (auto simp: owned_strings_def)
    from assms(1) n have "connection_blocks (put d c) = str_blocks d + connection_blocks c"
      unfolding field_of_def by (metis add_0 str_blocks_None)
    with owns_str_dup [OF o d] True s d r show ?thesis by (simp add: dup_string_def owned_strings_def)
  next
    case False
    with r assms(2) show ?thesis by (auto simp: dup_string_def split: option.splits)
  qed
qed

lemma owned_replace_string:
  assumes "field_of get put" and "owned_strings base r" and "get (fst (snd r)) \<noteq> None \<or> src = None"
  shows "owned_strings base (replace_string get put src r)"
proof -
  obtain ok c m where r: "r = (ok, c, m)" by (cases r)
  show ?thesis
  proof (cases "ok \<and> src \<noteq> None \<and> map_option snd (get c) \<noteq> map_option snd src")
    case True
    then obtain p cs where s: "src = Some (p, cs)" by auto
    obtain d m1 where d: "iotc_str_dup iotc_alloc cs (str_free (get c) m) = (d, m1)" by fastforce
    from assms r s have o: "owns_blocks base (connection_blocks c) m" and n: "get c \<noteq> None"
      by (auto simp: owned_strings_def)
    from assms(1) o have "owns_blocks base (str_blocks (get c) + connection_blocks (put None c)) m"
      unfolding field_of_def by metis
    from owns_str_dup [OF owns_str_free [OF this] d] assms(1)
    have "owns_blocks base (connection_blocks (put d c)) m1" unfolding field_of_def by metis
    moreover have "get c = None \<longleftrightarrow> False" using n by simp
    ultimately show ?thesis using True s d r by (simp add: replace_string_def owned_strings_def del: not_None_eq)
  next
    case False
    with r assms(2,3) show ?thesis
      by (auto simp: replace_string_def owned_strings_def Let_def split: option.splits)
  qed
qed

text \<open>The two outcomes of a step.\<close>

lemma dup_string_cases:
  obtains (skip) "dup_string put src r = r" and "fst r \<longrightarrow> src = None"
  | (dup) p cs d m1 where "fst r" and "src = Some (p, cs)" and "d \<noteq> None \<Longrightarrow> map_option snd d = Some cs"
      and "dup_string put src r = (d \<noteq> None, put d (fst (snd r)), m1)"
proof (cases "fst r \<and> src \<noteq> None")
  case True
  then obtain p cs where s: "src = Some (p, cs)" by auto
  obtain d m1 where d: "iotc_str_dup iotc_alloc cs (snd (snd r)) = (d, m1)" by fastforce
  from True s d show thesis
    by (intro dup [OF _ s str_dup_text [OF d]]) (auto simp: dup_string_def split: prod.splits)
next
  case False
  then show thesis
    by (intro skip; cases r; cases src) (auto simp: dup_string_def split: prod.splits)
qed

lemma replace_string_cases:
  obtains (skip) "fst (snd (replace_string get put src r)) = fst (snd r)" "fst (replace_string get put src r) = fst r"
      and "fst r \<longrightarrow> src = None \<or> map_option snd (get (fst (snd r))) = map_option snd src"
  | (dup) p cs d m1 where "fst r" and "src = Some (p, cs)" and "d \<noteq> None \<Longrightarrow> map_option snd d = Some cs"
      and "replace_string get put src r = (d \<noteq> None, put d (fst (snd r)), m1)"
proof (cases "fst r \<and> src \<noteq> None \<and> map_option snd (get (fst (snd r))) \<noteq> map_option snd src")
  case True
  then obtain p cs where s: "src = Some (p, cs)" by auto
  let ?m = "if get (fst (snd r)) = None then (snd (snd r))\<lparr>m_bad := True\<rparr> else snd (snd r)"
  obtain d m1 where d: "iotc_str_dup iotc_alloc cs (str_free (get (fst (snd r))) ?m) = (d, m1)" by fastforce
  from True s d show thesis
    by (intro dup [OF _ s str_dup_text [OF d]]) (auto simp: replace_string_def Let_def split: prod.splits)
next
  case False
  then show thesis
    by (intro skip; cases r; cases src) (auto simp: replace_string_def Let_def split: prod.splits)
qed

text \<open>A step does not touch the fields of the others.\<close>

lemma dup_string_get:
  assumes "\<And>d c. get' (put d c) = get' c"
  shows "get' (fst (snd (dup_string put src r))) = get' (fst (snd r))"
  by (rule dup_string_cases [of put src r]) (simp_all add: assms)

lemma replace_string_get:
  assumes "\<And>d c. get' (put d c) = get' c"
  shows "get' (fst (snd (replace_string get put src r))) = get' (fst (snd r))"
  by (rule replace_string_cases [of get put src r]) (simp_all add: assms)

lemma dup_string_done:
  assumes "field_of get put" and "fst (dup_string put src r)" and "get (fst (snd r)) = None"
  shows "fst r \<and> map_option snd (get (fst (snd (dup_string put src r)))) = map_option snd src"
  by (rule dup_string_cases [of put src r]) (use assms in \<open>auto simp: field_of_def\<close>)

lemma replace_string_done:
  assumes "field_of get put" and "fst (replace_string get put src r)"
  shows "fst r \<and> map_option snd (get (fst (snd (replace_string get put src r)))) =
    (if src = None then map_option snd (get (fst (snd r))) else map_option snd src)"
  by (rule replace_string_cases [of get put src r]) (use assms in \<open>auto simp: field_of_def\<close>)

lemma owns_free_strings:
  assumes "owns_blocks base (connection_blocks c) m"
  shows "owns_blocks base {#cd_self c#} (free_strings c m)"
  unfolding free_strings_def
  by (intro owns_str_free) (use assms in \<open>simp add: connection_blocks_def add_ac\<close>)

text \<open>The values of the strings.\<close>

definition string_values :: "connection_data \<Rightarrow> string option list" where
  "string_values c = map (map_option snd) [cd_host c, cd_username c, cd_password c, cd_client_id c,
     cd_will_topic c, cd_will_message c]"

lemma connection_blocks_zeroed [simp]: "connection_blocks (zeroed_connection_data p) = {#p#}"
  by (simp add: connection_blocks_def zeroed_connection_data_def)

lemma connection_blocks_settings [simp]: "connection_blocks (put_settings a b c d e f x) = connection_blocks x"
  by (simp add: connection_blocks_def put_settings_def)

lemma string_values_settings [simp]: "string_values (put_settings a b c d e f x) = string_values x"
  by (simp add: string_values_def put_settings_def)

lemma dup_string_self [simp]:
  "(\<And>d c. cd_self (put d c) = cd_self c) \<Longrightarrow> cd_self (fst (snd (dup_string put src r))) = cd_self (fst (snd r))"
  by (rule dup_string_cases [of put src r]) simp_all

lemma alloc_connection_data_ok:
  assumes "owns_blocks base {#} m"
    and "iotc_alloc_connection_data_lastwill host port username password client_id ct kt st will_topic will_message
      wq wr m = (c, m')"
  shows "owns_blocks base (case c of None \<Rightarrow> {#} | Some c \<Rightarrow> connection_blocks c) m'"
    and "c = Some x \<Longrightarrow> string_values x =
      map (map_option snd) [host, username, password, client_id, will_topic, will_message]
      \<and> cd_port x = port \<and> cd_connection_timeout x = ct \<and> cd_keepalive_timeout x = kt \<and> cd_session_type x = st"
proof -
  obtain p m0 where al: "iotc_alloc sizeof_connection_data m = (p, m0)" by fastforce
  define r0 where "r0 = (True, zeroed_connection_data p, m0)"
  define r1 where "r1 = dup_string (\<lambda>d c. put_host d c) host r0"
  define r2 where "r2 = dup_string (\<lambda>d c. put_username d c) username r1"
  define r3 where "r3 = dup_string (\<lambda>d c. put_password d c) password r2"
  define r4 where "r4 = dup_string (\<lambda>d c. put_client_id d c) client_id r3"
  define r5 where "r5 = dup_string (\<lambda>d c. put_will_topic d c) will_topic r4"
  define r6 where "r6 = dup_string (\<lambda>d c. put_will_message d c) will_message r5"
  note defs = r1_def r2_def r3_def r4_def r5_def r6_def
  have get: "cd_host (fst (snd r6)) = cd_host (fst (snd r1))" "cd_username (fst (snd r6)) = cd_username (fst (snd r2))"
    "cd_password (fst (snd r6)) = cd_password (fst (snd r3))" "cd_client_id (fst (snd r6)) = cd_client_id (fst (snd r4))"
    "cd_will_topic (fst (snd r6)) = cd_will_topic (fst (snd r5))" "cd_self (fst (snd r6)) = p"
    by (simp_all add: defs r0_def dup_string_get zeroed_connection_data_def)
  have none: "cd_host (fst (snd r0)) = None" "cd_username (fst (snd r1)) = None" "cd_password (fst (snd r2)) = None"
    "cd_client_id (fst (snd r3)) = None" "cd_will_topic (fst (snd r4)) = None" "cd_will_message (fst (snd r5)) = None"
    by (simp_all add: defs r0_def dup_string_get zeroed_connection_data_def)
  obtain ok ret m1 where r6: "r6 = (ok, ret, m1)" by (cases r6)
  from assms(2) al r6 have res: "(c, m') = (if p = NULL then (None, m0)
      else if ok then (Some (put_settings port ct kt st wq wr ret), m1)
      else (None, IOTC_SAFE_FREE p (free_strings ret m1)))"
    by (simp add: iotc_alloc_connection_data_lastwill_def Let_def defs r0_def split: if_splits)
  have o0: "owns_blocks base (if p = NULL then {#} else {#p#}) m0" using owns_alloc [OF assms(1) al] .
  have o6: "owns_blocks base (connection_blocks ret) m1" if "p \<noteq> NULL"
  proof -
    from o0 that have "owned_strings base r0" by (simp add: owned_strings_def r0_def)
    from owned_dup_string [OF connection_fields(1) this none(1), of host]
    have "owned_strings base r1" by (simp add: r1_def)
    from owned_dup_string [OF connection_fields(2) this none(2), of username]
    have "owned_strings base r2" by (simp add: r2_def)
    from owned_dup_string [OF connection_fields(3) this none(3), of password]
    have "owned_strings base r3" by (simp add: r3_def)
    from owned_dup_string [OF connection_fields(4) this none(4), of client_id]
    have "owned_strings base r4" by (simp add: r4_def)
    from owned_dup_string [OF connection_fields(5) this none(5), of will_topic]
    have "owned_strings base r5" by (simp add: r5_def)
    from owned_dup_string [OF connection_fields(6) this none(6), of will_message]
    show ?thesis by (simp add: r6_def [symmetric] r6 owned_strings_def)
  qed
  have self: "cd_self ret = p" using get(6) r6 by simp
  show "owns_blocks base (case c of None \<Rightarrow> {#} | Some c \<Rightarrow> connection_blocks c) m'"
    using res o0 o6 owns_free [of base p "{#}"] owns_free_strings [of base ret m1] self
    by (auto split: if_splits)
  show "string_values x = map (map_option snd) [host, username, password, client_id, will_topic, will_message]
      \<and> cd_port x = port \<and> cd_connection_timeout x = ct \<and> cd_keepalive_timeout x = kt \<and> cd_session_type x = st"
    if "c = Some x"
  proof -
    from that res r6 have ok: "fst r6" and x: "x = put_settings port ct kt st wq wr (fst (snd r6))"
      by (auto split: if_splits)
    note d6 = dup_string_done [OF connection_fields(6) ok [unfolded r6_def] none(6), folded r6_def]
    note d5 = dup_string_done [OF connection_fields(5) d6 [THEN conjunct1, unfolded r5_def] none(5), folded r5_def]
    note d4 = dup_string_done [OF connection_fields(4) d5 [THEN conjunct1, unfolded r4_def] none(4), folded r4_def]
    note d3 = dup_string_done [OF connection_fields(3) d4 [THEN conjunct1, unfolded r3_def] none(3), folded r3_def]
    note d2 = dup_string_done [OF connection_fields(2) d3 [THEN conjunct1, unfolded r2_def] none(2), folded r2_def]
    note d1 = dup_string_done [OF connection_fields(1) d2 [THEN conjunct1, unfolded r1_def] none(1), folded r1_def]
    show ?thesis using d1 d2 d3 d4 d5 d6 by (simp add: x get string_values_def put_settings_def)
  qed
qed

text \<open>What an update makes of the strings.\<close>

definition merged :: "cstr \<Rightarrow> string option \<Rightarrow> string option" where
  "merged src old = (if src = None then old else map_option snd src)"

lemma replace_string_self [simp]:
  "(\<And>d c. cd_self (put d c) = cd_self c) \<Longrightarrow> cd_self (fst (snd (replace_string get put src r))) = cd_self (fst (snd r))"
  by (rule replace_string_cases [of get put src r]) simp_all

definition replaceable :: "cstr list \<Rightarrow> connection_data \<Rightarrow> bool" where
  "replaceable srcs c \<longleftrightarrow> list_all2 (\<lambda>src old. src = None \<or> old \<noteq> None) srcs (string_values c)"

lemma update_connection_data_ok:
  assumes "owns_blocks base (connection_blocks c) m"
    and "replaceable [host, username, password, client_id, will_topic, will_message] c"
    and "iotc_connection_data_update_lastwill c host port username password client_id ct kt st will_topic
      will_message wq wr m = (state, c', m')"
  shows "owns_blocks base (connection_blocks c') m'"
    and "state = IOTC_STATE_OK \<Longrightarrow> string_values c' =
      map2 merged [host, username, password, client_id, will_topic, will_message] (string_values c)"
proof -
  define r0 where "r0 = (True, c, m)"
  define r1 where "r1 = replace_string cd_host (\<lambda>d c. put_host d c) host r0"
  define r2 where "r2 = replace_string cd_username (\<lambda>d c. put_username d c) username r1"
  define r3 where "r3 = replace_string cd_password (\<lambda>d c. put_password d c) password r2"
  define r4 where "r4 = replace_string cd_client_id (\<lambda>d c. put_client_id d c) client_id r3"
  define r5 where "r5 = replace_string cd_will_topic (\<lambda>d c. put_will_topic d c) will_topic r4"
  define r6 where "r6 = replace_string cd_will_message (\<lambda>d c. put_will_message d c) will_message r5"
  note defs = r1_def r2_def r3_def r4_def r5_def r6_def
  have get: "cd_host (fst (snd r6)) = cd_host (fst (snd r1))" "cd_username (fst (snd r6)) = cd_username (fst (snd r2))"
    "cd_password (fst (snd r6)) = cd_password (fst (snd r3))" "cd_client_id (fst (snd r6)) = cd_client_id (fst (snd r4))"
    "cd_will_topic (fst (snd r6)) = cd_will_topic (fst (snd r5))"
    by (simp_all add: defs replace_string_get)
  have old: "cd_host (fst (snd r0)) = cd_host c" "cd_username (fst (snd r1)) = cd_username c"
    "cd_password (fst (snd r2)) = cd_password c" "cd_client_id (fst (snd r3)) = cd_client_id c"
    "cd_will_topic (fst (snd r4)) = cd_will_topic c" "cd_will_message (fst (snd r5)) = cd_will_message c"
    by (simp_all add: defs r0_def replace_string_get)
  from assms(2) have none: "cd_host c \<noteq> None \<or> host = None" "cd_username c \<noteq> None \<or> username = None"
    "cd_password c \<noteq> None \<or> password = None" "cd_client_id c \<noteq> None \<or> client_id = None"
    "cd_will_topic c \<noteq> None \<or> will_topic = None" "cd_will_message c \<noteq> None \<or> will_message = None"
    by (auto simp: replaceable_def string_values_def)
  obtain ok ret m1 where r6: "r6 = (ok, ret, m1)" by (cases r6)
  from assms(3) r6 have res: "(state, c', m') = (if ok then (IOTC_STATE_OK, put_settings port ct kt st wq wr ret, m1)
      else (IOTC_OUT_OF_MEMORY, ret, m1))"
    by (simp add: iotc_connection_data_update_lastwill_def replace_strings_def Let_def defs r0_def split: if_splits)
  from assms(1) have "owned_strings base r0" by (simp add: owned_strings_def r0_def)
  from owned_replace_string [OF connection_fields(1) this none(1) [folded old(1)]]
  have "owned_strings base r1" by (simp add: r1_def)
  from owned_replace_string [OF connection_fields(2) this none(2) [folded old(2)]]
  have "owned_strings base r2" by (simp add: r2_def)
  from owned_replace_string [OF connection_fields(3) this none(3) [folded old(3)]]
  have "owned_strings base r3" by (simp add: r3_def)
  from owned_replace_string [OF connection_fields(4) this none(4) [folded old(4)]]
  have "owned_strings base r4" by (simp add: r4_def)
  from owned_replace_string [OF connection_fields(5) this none(5) [folded old(5)]]
  have "owned_strings base r5" by (simp add: r5_def)
  from owned_replace_string [OF connection_fields(6) this none(6) [folded old(6)]]
  have "owned_strings base r6" by (simp add: r6_def)
  with res r6 show "owns_blocks base (connection_blocks c') m'"
    by (auto simp: owned_strings_def split: if_splits)
  show "string_values c' = map2 merged [host, username, password, client_id, will_topic, will_message] (string_values c)"
    if "state = IOTC_STATE_OK"
  proof -
    from that res r6 have ok: "fst r6" and x: "c' = put_settings port ct kt st wq wr (fst (snd r6))"
      by (auto split: if_splits)
    note d6 = replace_string_done [OF connection_fields(6) ok [unfolded r6_def], folded r6_def]
    note d5 = replace_string_done [OF connection_fields(5) d6 [THEN conjunct1, unfolded r5_def], folded r5_def]
    note d4 = replace_string_done [OF connection_fields(4) d5 [THEN conjunct1, unfolded r4_def], folded r4_def]
    note d3 = replace_string_done [OF connection_fields(3) d4 [THEN conjunct1, unfolded r3_def], folded r3_def]
    note d2 = replace_string_done [OF connection_fields(2) d3 [THEN conjunct1, unfolded r2_def], folded r2_def]
    note d1 = replace_string_done [OF connection_fields(1) d2 [THEN conjunct1, unfolded r1_def], folded r1_def]
    show ?thesis using d1 d2 d3 d4 d5 d6 by (simp add: x get old string_values_def put_settings_def merged_def)
  qed
qed

section \<open>Properties\<close>

text \<open>
  Connection data hold copies of exactly the given strings; a successful update replaces those that it is given and keeps
  the others, and whatever happened, releasing the data returns every block, provided an update
  only replaces strings that are there (comparing with a missing one is undefined).
\<close>

theorem connection_data_lifecycle:
  assumes "wf_mem m" and "\<not> m_bad m"
    and "iotc_alloc_connection_data_lastwill host port username password client_id ct kt st will_topic will_message
      wq wr m = (Some c, m1)"
    and "iotc_connection_data_update_lastwill c host' port' username' password' client_id' ct' kt' st' will_topic'
      will_message' wq' wr' m1 = (state, c', m2)"
    and "replaceable [host', username', password', client_id', will_topic', will_message'] c"
  shows "string_values c = map (map_option snd) [host, username, password, client_id, will_topic, will_message]
    \<and> (state = IOTC_STATE_OK \<longrightarrow> string_values c' =
      map2 merged [host', username', password', client_id', will_topic', will_message'] (string_values c))
    \<and> m_live (iotc_free_connection_data (Some c') m2) = m_live m
    \<and> \<not> m_bad (iotc_free_connection_data (Some c') m2)"
proof -
  note o = owns_none [OF assms(1,2)]
  have s: "string_values c = map (map_option snd) [host, username, password, client_id, will_topic, will_message]"
    using alloc_connection_data_ok(2) [OF o assms(3) refl] by blast
  have "owns_blocks (m_live m) (connection_blocks c) m1" using alloc_connection_data_ok(1) [OF o assms(3)] by simp
  note u = update_connection_data_ok [OF this assms(5,4)]
  have v: "state = IOTC_STATE_OK \<longrightarrow> string_values c' =
      map2 merged [host', username', password', client_id', will_topic', will_message'] (string_values c)"
    using u(2) by blast
  have "owns_blocks (m_live m) {#} (iotc_free_connection_data (Some c') m2)"
    using owns_free [of "m_live m" "cd_self c'" "{#}", OF owns_free_strings [OF u(1)]]
    by (simp add: iotc_free_connection_data_def)
  note e = owns_none_live [OF this]
  show ?thesis using s v e by simp
qed

theorem connection_data_lifecycle_witness:
  "let m = empty_mem (\<lambda>i n. True);
       (c, m1) = iotc_alloc_connection_data_lastwill (Some (90, ''host'')) 8883 None (Some (91, ''jwt'')) (Some (92, ''id''))
         10 20 IOTC_SESSION_CLEAN None None IOTC_MQTT_QOS_AT_MOST_ONCE IOTC_MQTT_RETAIN_FALSE m;
       (state, c', m2) = iotc_connection_data_update_lastwill (the c) (Some (93, ''host'')) 8883 None
         (Some (94, ''new'')) None 10 20 IOTC_SESSION_CLEAN None None IOTC_MQTT_QOS_AT_MOST_ONCE
         IOTC_MQTT_RETAIN_FALSE m1
   in state = IOTC_STATE_OK \<and> string_values c' = [Some ''host'', None, Some ''new'', Some ''id'', None, None]
     \<and> m_live (iotc_free_connection_data (Some c') m2) = Map.empty"
proof -
  let ?m = "empty_mem (\<lambda>i n. True)"
  obtain c m1 where a: "iotc_alloc_connection_data_lastwill (Some (90, ''host'')) 8883 None (Some (91, ''jwt''))
      (Some (92, ''id'')) 10 20 IOTC_SESSION_CLEAN None None IOTC_MQTT_QOS_AT_MOST_ONCE IOTC_MQTT_RETAIN_FALSE ?m = (Some c, m1)"
    by (simp add: iotc_alloc_connection_data_lastwill_def empty_mem_def iotc_alloc_def iotc_bsp_mem_alloc_def
        dup_string_def iotc_str_dup_def Let_def)
  obtain state c' m2 where u: "iotc_connection_data_update_lastwill c (Some (93, ''host'')) 8883 None
      (Some (94, ''new'')) None 10 20 IOTC_SESSION_CLEAN None None IOTC_MQTT_QOS_AT_MOST_ONCE
      IOTC_MQTT_RETAIN_FALSE m1 = (state, c', m2)" by (metis prod_cases3)
  have v: "string_values c = [Some ''host'', None, Some ''jwt'', Some ''id'', None, None]"
    using alloc_connection_data_ok(2) [OF owns_none [of ?m] a refl] by (simp, simp add: empty_mem_def)
  have "fst (let (c, m1) = iotc_alloc_connection_data_lastwill (Some (90, ''host'')) 8883 None (Some (91, ''jwt''))
      (Some (92, ''id'')) 10 20 IOTC_SESSION_CLEAN None None IOTC_MQTT_QOS_AT_MOST_ONCE IOTC_MQTT_RETAIN_FALSE ?m
    in replace_strings (the c) (Some (93, ''host'')) None (Some (94, ''new'')) None None None m1)" by code_simp
  then have "state = IOTC_STATE_OK"
    using a u by (auto simp: iotc_connection_data_update_lastwill_def split: prod.splits if_splits)
  moreover have r: "replaceable [Some (93, ''host''), None, Some (94, ''new''), None, None, None] c"
    by (simp add: replaceable_def v)
  have w: "wf_mem ?m" "\<not> m_bad ?m" "m_live ?m = Map.empty" by simp (simp_all add: empty_mem_def)
  ultimately show ?thesis
    using connection_data_lifecycle [OF w(1,2) a u r] by (simp add: a u v merged_def w(3))
qed

end
