(* ===== verification/Iotc_Backoff.thy ===== *)
theory Iotc_Backoff
  imports Iotc_Dispatcher
begin

text \<open>
  The penalty for failed connections, \<^verbatim>\<open>src/libiotc/iotc_backoff_status_api.c\<close>: an index into a
  table of waiting times that every failure moves up and that a timer, restarted with every failure,
  moves down again. The status is a part of \<^verbatim>\<open>iotc_globals\<close>, the timer an event of the global
  dispatcher, whose handle \<open>next_update\<close> is known by its address. The random number and the address
  of \<^verbatim>\<open>iotc_apply_cooldown\<close> are arguments.
\<close>

datatype backoff_class =
    IOTC_BACKOFF_CLASS_NONE
  | IOTC_BACKOFF_CLASS_RECOVERABLE
  | IOTC_BACKOFF_CLASS_TERMINAL

record backoff_status =
  next_update :: ptr
  backoff_lut :: "vec option"
  decay_lut :: "vec option"
  backoff_class :: backoff_class
  backoff_lut_i :: int

definition IOTC_BACKOFF_LUT :: "nat list" where
  "IOTC_BACKOFF_LUT = [0, 2, 4, 8, 16, 32, 64, 128, 256, 512]"

definition IOTC_DECAY_LUT :: "nat list" where
  "IOTC_DECAY_LUT = [4, 4, 8, 16, 30, 30, 30, 30, 30, 30]"

text \<open>The low half of a cell, as \<^verbatim>\<open>selector_t.ui32_value\<close> reads it.\<close>

definition lut_ui32 :: "vec option \<Rightarrow> int \<Rightarrow> nat" where
  "lut_ui32 lut i = to_u32 (v_elems (the lut) ! nat i)"

section \<open>Operations\<close>

definition iotc_restart_update_time ::
    "ptr \<Rightarrow> backoff_status \<Rightarrow> 'z evtd_scheme \<Rightarrow> iotc_state \<times> 'z evtd_scheme" where
  "iotc_restart_update_time apply_cooldown b s =
     (if te_hnd (ev_te s) (next_update b) \<noteq> NULL
      then iotc_evtd_restart (next_update b) (int (lut_ui32 (decay_lut b) (backoff_lut_i b))) s
      else iotc_evtd_execute_in (iotc_make_handle_argc0 IOTC_THREADID_MAINTHREAD apply_cooldown)
             (int (lut_ui32 (decay_lut b) (backoff_lut_i b))) (next_update b) s)"

definition iotc_inc_backoff_penalty ::
    "ptr \<Rightarrow> backoff_status \<Rightarrow> 'z evtd_scheme \<Rightarrow> backoff_status \<times> 'z evtd_scheme" where
  "iotc_inc_backoff_penalty apply_cooldown b s =
     (let b1 = b\<lparr>backoff_lut_i := to_int8 (min (backoff_lut_i b + 1) (v_elem_no (the (backoff_lut b)) - 1))\<rparr>
      in (b1, snd (iotc_restart_update_time apply_cooldown b1 s)))"

definition iotc_dec_backoff_penalty :: "backoff_status \<Rightarrow> backoff_status" where
  "iotc_dec_backoff_penalty b = b\<lparr>backoff_lut_i := to_int8 (max (backoff_lut_i b - 1) 0)\<rparr>"

text \<open>\<open>rnd\<close> is what \<^verbatim>\<open>iotc_bsp_rng_get\<close> returns; the remainder is taken of unsigned numbers.\<close>

definition iotc_get_backoff_penalty :: "nat \<Rightarrow> backoff_status \<Rightarrow> nat" where
  "iotc_get_backoff_penalty rnd b =
     (let prev_backoff_index = to_int8 (max (backoff_lut_i b - 1) 0);
          prev_backoff_base_value = to_int32 (int (lut_ui32 (backoff_lut b) prev_backoff_index));
          full_range = (if backoff_lut_i b = 0 then 0 else prev_backoff_base_value);
          base_value = to_int32 (int (lut_ui32 (backoff_lut b) (backoff_lut_i b)));
          half_range = max (full_range div 2) 1;
          rand_value = to_int32 (int rnd mod ((full_range + 1) mod 2 ^ 32));
          backoff_value = to_int32 (base_value + rand_value - half_range);
          ret_value = max backoff_value (to_int32 (int (lut_ui32 (backoff_lut b) 0)))
      in nat (ret_value mod 2 ^ 32))"

definition iotc_cancel_backoff_event :: "backoff_status \<Rightarrow> 'z evtd_scheme \<Rightarrow> 'z evtd_scheme" where
  "iotc_cancel_backoff_event b s =
     (if te_hnd (ev_te s) (next_update b) \<noteq> NULL then snd (iotc_evtd_cancel (next_update b) s) else s)"

definition iotc_reset_backoff_penalty ::
    "backoff_status \<Rightarrow> 'z evtd_scheme \<Rightarrow> backoff_status \<times> 'z evtd_scheme" where
  "iotc_reset_backoff_penalty b s =
     (let b1 = b\<lparr>backoff_lut_i := 0\<rparr> in (b1, iotc_cancel_backoff_event b1 s))"

definition iotc_backoff_release_luts :: "backoff_status \<Rightarrow> mem \<Rightarrow> backoff_status \<times> mem" where
  "iotc_backoff_release_luts b m =
     (let (b1, m1) = (case backoff_lut b of None \<Rightarrow> (b, m)
                      | Some v \<Rightarrow> (b\<lparr>backoff_lut := None\<rparr>, iotc_vector_destroy v m))
      in case decay_lut b1 of None \<Rightarrow> (b1, m1)
         | Some v \<Rightarrow> (b1\<lparr>decay_lut := None\<rparr>, iotc_vector_destroy v m1))"

text \<open>A table is its address with its contents; \<open>None\<close> is a null pointer.\<close>

definition iotc_backoff_configure_using_data ::
    "(ptr \<times> nat list) option \<Rightarrow> (ptr \<times> nat list) option \<Rightarrow> nat \<Rightarrow> memory_type \<Rightarrow> backoff_status \<Rightarrow> mem \<Rightarrow>
     iotc_state \<times> backoff_status \<times> mem" where
  "iotc_backoff_configure_using_data backoff decay len memory_type b m =
     (case (backoff, decay) of
        (Some (bp, bs), Some (dp, ds)) \<Rightarrow>
          (if len = 0 then (IOTC_INVALID_PARAMETER, b, m)
           else
             (case iotc_backoff_release_luts b m of (b1, m1) \<Rightarrow>
              case iotc_vector_create_from bp bs len memory_type m1 of
                (None, m2) \<Rightarrow> (IOTC_OUT_OF_MEMORY, b1\<lparr>backoff_lut := None\<rparr>, m2)
              | (Some bv, m2) \<Rightarrow>
                  (let b2 = b1\<lparr>backoff_lut := Some bv\<rparr>
                   in case iotc_vector_create_from dp ds len memory_type m2 of
                        (None, m3) \<Rightarrow> (IOTC_OUT_OF_MEMORY, b2\<lparr>decay_lut := None\<rparr>, m3)
                      | (Some dv, m3) \<Rightarrow> (IOTC_STATE_OK, b2\<lparr>decay_lut := Some dv\<rparr>, m3))))
      | _ \<Rightarrow> (IOTC_INVALID_PARAMETER, b, m))"

definition iotc_backoff_release :: "backoff_status \<Rightarrow> mem \<Rightarrow> backoff_status \<times> mem" where
  "iotc_backoff_release b m = iotc_backoff_release_luts b m"

definition iotc_backoff_classify_state :: "iotc_state \<Rightarrow> backoff_class" where
  "iotc_backoff_classify_state state =
     (case state of
        IOTC_CONNECTION_RESET_BY_PEER_ERROR \<Rightarrow> IOTC_BACKOFF_CLASS_TERMINAL
      | IOTC_MQTT_UNACCEPTABLE_PROTOCOL_VERSION \<Rightarrow> IOTC_BACKOFF_CLASS_TERMINAL
      | IOTC_MQTT_IDENTIFIER_REJECTED \<Rightarrow> IOTC_BACKOFF_CLASS_TERMINAL
      | IOTC_MQTT_BAD_USERNAME_OR_PASSWORD \<Rightarrow> IOTC_BACKOFF_CLASS_TERMINAL
      | IOTC_MQTT_NOT_AUTHORIZED \<Rightarrow> IOTC_BACKOFF_CLASS_TERMINAL
      | IOTC_STATE_OK \<Rightarrow> IOTC_BACKOFF_CLASS_NONE
      | IOTC_STATE_WRITTEN \<Rightarrow> IOTC_BACKOFF_CLASS_NONE
      | _ \<Rightarrow> IOTC_BACKOFF_CLASS_RECOVERABLE)"

definition iotc_update_backoff_penalty ::
    "ptr \<Rightarrow> iotc_state \<Rightarrow> backoff_status \<Rightarrow> 'z evtd_scheme \<Rightarrow> backoff_class \<times> backoff_status \<times> 'z evtd_scheme" where
  "iotc_update_backoff_penalty apply_cooldown state b s =
     (let cls = iotc_backoff_classify_state state;
          b1 = b\<lparr>backoff_class := cls\<rparr>
      in case cls of
           IOTC_BACKOFF_CLASS_TERMINAL \<Rightarrow> (cls, iotc_inc_backoff_penalty apply_cooldown b1 s)
         | IOTC_BACKOFF_CLASS_RECOVERABLE \<Rightarrow> (cls, iotc_inc_backoff_penalty apply_cooldown b1 s)
         | IOTC_BACKOFF_CLASS_NONE \<Rightarrow> (cls, b1, s))"

definition iotc_apply_cooldown ::
    "ptr \<Rightarrow> backoff_status \<Rightarrow> 'z evtd_scheme \<Rightarrow> iotc_state \<times> backoff_status \<times> 'z evtd_scheme" where
  "iotc_apply_cooldown apply_cooldown b s =
     (let b1 = (if backoff_class b = IOTC_BACKOFF_CLASS_NONE then iotc_dec_backoff_penalty b else b)
      in if backoff_lut_i b1 > 0
         then (case iotc_restart_update_time apply_cooldown b1 s of (st, s1) \<Rightarrow> (st, b1, s1))
         else (IOTC_STATE_OK, b1, s))"

section \<open>The index\<close>

text \<open>The index designates a cell of both tables.\<close>

definition backoff_inv :: "backoff_status \<Rightarrow> bool" where
  "backoff_inv b \<longleftrightarrow> (case (backoff_lut b, decay_lut b) of
      (Some v, Some d) \<Rightarrow> vec_inv v \<and> vec_inv d \<and> v_elem_no d = v_elem_no v
        \<and> 0 \<le> backoff_lut_i b \<and> backoff_lut_i b < v_elem_no v
    | _ \<Rightarrow> False)"

definition lut_len :: "backoff_status \<Rightarrow> int" where
  "lut_len b = v_elem_no (the (backoff_lut b))"

lemma backoff_inv_len: "backoff_inv b \<Longrightarrow> 0 \<le> backoff_lut_i b \<and> backoff_lut_i b < lut_len b \<and> lut_len b < 128"
  by (auto simp: backoff_inv_def lut_len_def vec_inv_def split: option.splits)

lemma backoff_inv_index:
  "backoff_inv b \<Longrightarrow> 0 \<le> i \<Longrightarrow> i < lut_len b \<Longrightarrow> backoff_inv (b\<lparr>backoff_lut_i := i\<rparr>)"
  by (auto simp: backoff_inv_def lut_len_def split: option.splits)

lemma backoff_inv_class [simp]: "backoff_inv (b\<lparr>backoff_class := c\<rparr>) = backoff_inv b"
  by (cases b) (simp add: backoff_inv_def split: option.split)

text \<open>One step of the status: a connection attempt that ended in a state, or the cooldown timer.\<close>

datatype backoff_event = Attempt iotc_state | Cooldown

fun backoff_step :: "ptr \<Rightarrow> backoff_event \<Rightarrow> backoff_status \<times> 'z evtd_scheme \<Rightarrow> backoff_status \<times> 'z evtd_scheme" where
  "backoff_step f (Attempt st) (b, s) = snd (iotc_update_backoff_penalty f st b s)"
| "backoff_step f Cooldown (b, s) = snd (iotc_apply_cooldown f b s)"

text \<open>What the events mean for the index: failures saturate, cooldowns count down after a success.\<close>

fun index_step :: "int \<Rightarrow> backoff_event \<Rightarrow> backoff_class \<times> int \<Rightarrow> backoff_class \<times> int" where
  "index_step n (Attempt st) (c, i) =
     (iotc_backoff_classify_state st,
      if iotc_backoff_classify_state st = IOTC_BACKOFF_CLASS_NONE then i else min (i + 1) (n - 1))"
| "index_step n Cooldown (c, i) = (c, if c = IOTC_BACKOFF_CLASS_NONE then max (i - 1) 0 else i)"

lemma backoff_step_index:
  assumes "backoff_inv b" and "backoff_step f e (b, s) = (b', s')"
  shows "backoff_inv b' \<and> lut_len b' = lut_len b
    \<and> (backoff_class b', backoff_lut_i b') = index_step (lut_len b) e (backoff_class b, backoff_lut_i b)"
proof (cases e)
  case (Attempt st)
  note n = backoff_inv_len [OF assms(1)]
  then have t: "to_int8 (min (backoff_lut_i b + 1) (lut_len b - 1)) = min (backoff_lut_i b + 1) (lut_len b - 1)"
    by (intro to_int8_id) auto
  from assms(2) Attempt n backoff_inv_index [of "b\<lparr>backoff_class := c\<rparr>" "min (backoff_lut_i b + 1) (lut_len b - 1)" for c]
    assms(1) t
  show ?thesis
    by (cases "iotc_backoff_classify_state st")
      (auto simp: iotc_update_backoff_penalty_def iotc_inc_backoff_penalty_def Let_def lut_len_def)
next
  case Cooldown
  note n = backoff_inv_len [OF assms(1)]
  then have t: "to_int8 (max (backoff_lut_i b - 1) 0) = max (backoff_lut_i b - 1) 0"
    by (intro to_int8_id) auto
  from assms(2) Cooldown n backoff_inv_index [OF assms(1), of "max (backoff_lut_i b - 1) 0"] assms(1) t
  show ?thesis
    by (auto simp: iotc_apply_cooldown_def iotc_dec_backoff_penalty_def Let_def lut_len_def
        split: if_splits prod.splits)
qed

section \<open>Properties\<close>


text \<open>The tables the library is configured with.\<close>

definition default_status :: "int \<Rightarrow> backoff_status" where
  "default_status i = \<lparr>next_update = 40,
     backoff_lut = Some \<lparr>v_self = 50, v_array = 51, v_elems = IOTC_BACKOFF_LUT, v_elem_no = 10, v_capacity = 10,
       v_memory_type = IOTC_MEMORY_TYPE_UNMANAGED\<rparr>,
     decay_lut = Some \<lparr>v_self = 52, v_array = 53, v_elems = IOTC_DECAY_LUT, v_elem_no = 10, v_capacity = 10,
       v_memory_type = IOTC_MEMORY_TYPE_UNMANAGED\<rparr>,
     backoff_class = IOTC_BACKOFF_CLASS_NONE, backoff_lut_i = i\<rparr>"

lemma default_status_inv: "0 \<le> i \<Longrightarrow> i < 10 \<Longrightarrow> backoff_inv (default_status i)"
  by (simp add: backoff_inv_def default_status_def vec_inv_def IOTC_BACKOFF_LUT_def IOTC_DECAY_LUT_def)


lemma lut_ui32_nth:
  assumes "backoff_lut b = Some v" and "vec_inv v" and "0 \<le> i" and "i < v_elem_no v"
    and "\<forall>x\<in>set (vec_list v). x < 2 ^ 30"
  shows "lut_ui32 (backoff_lut b) i = vec_list v ! nat i" and "vec_list v ! nat i < 2 ^ 30"
proof -
  have "nat i < length (vec_list v)" using assms(2-4) by simp
  then show "vec_list v ! nat i < 2 ^ 30" using assms(5) by (meson nth_mem)
  then show "lut_ui32 (backoff_lut b) i = vec_list v ! nat i"
    using vec_list_nth [OF assms(2-4)] assms(1) by (simp add: lut_ui32_def)
qed

lemma penalty_value:
  assumes b: "backoff_inv b" and v: "backoff_lut b = Some v" and small: "\<forall>x\<in>set (vec_list v). x < 2 ^ 30"
  defines "prev \<equiv> vec_list v ! nat (backoff_lut_i b - 1)" and "base \<equiv> vec_list v ! nat (backoff_lut_i b)"
    and "low \<equiv> vec_list v ! 0"
  shows "int (iotc_get_backoff_penalty rnd b) =
    (if backoff_lut_i b = 0 then int low
     else max (int base + int (rnd mod (prev + 1)) - int (max (prev div 2) 1)) (int low))"
proof -
  have vi: "vec_inv v" and i: "0 \<le> backoff_lut_i b" "backoff_lut_i b < v_elem_no v"
    using b v by (auto simp: backoff_inv_def split: option.splits)
  then have iv: "backoff_lut_i b < 128" by (simp add: vec_inv_def)
  note cell = lut_ui32_nth [OF v vi _ _ small]
  have c0: "lut_ui32 (backoff_lut b) 0 = low" "low < 2 ^ 30" using cell [of 0] i by (simp_all add: low_def)
  have cb: "lut_ui32 (backoff_lut b) (backoff_lut_i b) = base" "base < 2 ^ 30"
    using cell [of "backoff_lut_i b"] i by (simp_all add: base_def)
  show ?thesis
  proof (cases "backoff_lut_i b = 0")
    case True
    then have "base = low" by (simp add: base_def low_def)
    moreover have "to_int8 (max (backoff_lut_i b - 1) 0) = 0" using True by simp
    moreover have "to_int32 (int low) = int low" "to_int32 (int low + 0 - 1) = int low - 1"
      using c0(2) by (auto intro!: to_int32_id)
    moreover have "int rnd mod ((0 + 1) mod 2 ^ 32) = 0" "to_int32 0 = 0" "max (0 div 2) 1 = (1::int)"
      "max (int low - 1) (int low) = int low" by simp_all
    ultimately have "iotc_get_backoff_penalty rnd b = nat (int low mod 2 ^ 32)"
      using True cb(1) c0(1) by (simp only: iotc_get_backoff_penalty_def Let_def if_True simp_thms)
    with True c0(2) show ?thesis by (simp add: mod_pos_pos_trivial)
  next
    case False
    then have p: "to_int8 (max (backoff_lut_i b - 1) 0) = backoff_lut_i b - 1" using i iv by simp
    have cp: "lut_ui32 (backoff_lut b) (backoff_lut_i b - 1) = prev" "prev < 2 ^ 30"
      using cell [of "backoff_lut_i b - 1"] i False by (simp_all add: prev_def)
    have m: "(int prev + 1) mod 2 ^ 32 = int (prev + 1)" using cp(2) by simp
    define r h where "r = rnd mod (prev + 1)" and h_def: "h = max (prev div 2) 1"
    have r: "int rnd mod ((int prev + 1) mod 2 ^ 32) = int r"
      unfolding m r_def by (simp only: zmod_int)
    have rp: "r \<le> prev" unfolding r_def using mod_less_divisor [of "prev + 1" rnd] by linarith
    have h: "max (int prev div 2) 1 = int h" by (simp add: h_def zdiv_int)
    have hb: "h < 2 ^ 30" using cp(2) by (simp add: h_def)
    have ub: "int base + int r - int h < 2 ^ 31" "- (2 ^ 31) \<le> int base + int r - int h"
      using cb(2) rp cp(2) hb by simp_all
    have "int (nat (max (int base + int r - int h) (int low) mod 2 ^ 32)) = max (int base + int r - int h) (int low)"
    proof -
      have "0 \<le> max (int base + int r - int h) (int low)" by simp
      moreover have "max (int base + int r - int h) (int low) < 2 ^ 32" using ub c0(2) by simp
      ultimately show ?thesis by (simp only: mod_pos_pos_trivial int_nat_eq if_True)
    qed
    moreover have "iotc_get_backoff_penalty rnd b = nat (max (int base + int r - int h) (int low) mod 2 ^ 32)"
    proof -
      have "to_int32 (int prev) = int prev" "to_int32 (int base) = int base" "to_int32 (int low) = int low"
        "to_int32 (int r) = int r" "to_int32 (int base + int r - int h) = int base + int r - int h"
        using cp(2) cb(2) c0(2) rp ub by (auto intro!: to_int32_id)
      then show ?thesis
        by (simp only: iotc_get_backoff_penalty_def Let_def p c0(1) cb(1) cp(1) False if_False r h)
    qed
    ultimately show ?thesis using False by (simp only: r_def h_def if_False)
  qed
qed

text \<open>
  The penalty for the index \<open>i\<close> lies around the \<open>i\<close>th entry of the table, at most half the
  previous entry below it and half above, rounded, and is never below the first entry; at index 0 it
  is exactly the first entry. (With a previous entry of 0 the half is still taken as 1, so with the tables
  the library comes with the penalty at index 1 is 1, below its entry 2.)
\<close>

theorem backoff_penalty_range:
  assumes "backoff_inv b" and "backoff_lut b = Some v" and "\<forall>x\<in>set (vec_list v). x < 2 ^ 30"
  shows "let low = vec_list v ! 0; base = vec_list v ! nat (backoff_lut_i b);
      prev = vec_list v ! nat (backoff_lut_i b - 1); h = max (prev div 2) 1
    in low \<le> iotc_get_backoff_penalty rnd b
      \<and> (backoff_lut_i b = 0 \<longrightarrow> iotc_get_backoff_penalty rnd b = low)
      \<and> (backoff_lut_i b > 0 \<longrightarrow> base \<le> iotc_get_backoff_penalty rnd b + h
           \<and> iotc_get_backoff_penalty rnd b \<le> max low (base + prev - h))"
proof -
  define low base prev h where d: "low = vec_list v ! 0" "base = vec_list v ! nat (backoff_lut_i b)"
    "prev = vec_list v ! nat (backoff_lut_i b - 1)" "h = max (prev div 2) 1"
  define r where "r = rnd mod (prev + 1)"
  have "r \<le> prev" using mod_less_divisor [of "prev + 1" rnd] unfolding r_def by linarith
  moreover have "0 \<le> backoff_lut_i b" using backoff_inv_len [OF assms(1)] by simp
  moreover have "int (iotc_get_backoff_penalty rnd b) =
    (if backoff_lut_i b = 0 then int low else max (int base + int r - int h) (int low))"
    using penalty_value [OF assms] by (simp only: d r_def)
  ultimately show ?thesis unfolding Let_def d [symmetric] by (auto split: if_splits)
qed

theorem backoff_penalty_range_witness:
  "iotc_get_backoff_penalty 7 (default_status 1) = 1 \<and>
   (3 \<le> iotc_get_backoff_penalty 7 (default_status 2) \<and> iotc_get_backoff_penalty 7 (default_status 2) \<le> 5)"
proof -
  let ?v = "\<lparr>v_self = 50, v_array = 51, v_elems = IOTC_BACKOFF_LUT, v_elem_no = 10, v_capacity = 10,
       v_memory_type = IOTC_MEMORY_TYPE_UNMANAGED\<rparr>"
  have l: "vec_list ?v = [0, 2, 4, 8, 16, 32, 64, 128, 256, 512]"
    by (simp add: vec_list_def IOTC_BACKOFF_LUT_def)
  have v: "backoff_lut (default_status i) = Some ?v" for i by (simp add: default_status_def)
  have small: "\<forall>x\<in>set (vec_list ?v). x < 2 ^ 30" by (simp add: l)
  have i: "backoff_lut_i (default_status i) = i" for i by (simp add: default_status_def)
  have "iotc_get_backoff_penalty 7 (default_status 1) = 1"
    using backoff_penalty_range [OF default_status_inv [of 1] v small, of 7] by (simp add: l i Let_def)
  moreover have "3 \<le> iotc_get_backoff_penalty 7 (default_status 2) \<and> iotc_get_backoff_penalty 7 (default_status 2) \<le> 5"
    using backoff_penalty_range [OF default_status_inv [of 2] v small, of 7] by (simp add: l i Let_def)
  ultimately show ?thesis by blast
qed

section \<open>The timer\<close>

text \<open>The dispatcher can take one more delayed event, and the handle of the status is unused or leads to
  an event in the queue.\<close>

definition timer_ready :: "(ptr \<rightharpoonup> nat) \<Rightarrow> backoff_status \<Rightarrow> 'z evtd_scheme \<Rightarrow> bool" where
  "timer_ready base b s \<longleftrightarrow> grown base (ev_timers s) (ev_mem s) \<and> te_inv (ev_timers s) (ev_te s)
     \<and> (\<forall>i n. n < 2 ^ 63 \<longrightarrow> m_ok (ev_mem s) i n) \<and> v_elem_no (ev_timers s) < 64
     \<and> set (vec_list (ev_timers s)) \<subseteq> dom base \<and> next_update b \<noteq> NULL
     \<and> (let p = te_hnd (ev_te s) (next_update b) in p = NULL \<or> p \<in> set (vec_list (ev_timers s)))"

definition cooldown_pending :: "backoff_status \<Rightarrow> int \<Rightarrow> 'z evtd_scheme \<Rightarrow> bool" where
  "cooldown_pending b t s \<longleftrightarrow> (let p = te_hnd (ev_te s) (next_update b)
     in p \<noteq> NULL \<and> p \<in> set (vec_list (ev_timers s)) \<and> te_time (ev_te s) p = t)"

text \<open>
  After a failed attempt the cooldown timer is pending for the time that the table of decays gives for the
  new index, whether or not it was pending before, provided that the dispatcher can take one more event;
  other delayed events stay in the queue.
\<close>

theorem failure_schedules_cooldown:
  assumes "timer_ready base b s" and "iotc_backoff_classify_state st \<noteq> IOTC_BACKOFF_CLASS_NONE"
    and "iotc_update_backoff_penalty f st b s = (c, b', s')"
  shows "cooldown_pending b' (to_int64 (ev_current_step s + int (lut_ui32 (decay_lut b') (backoff_lut_i b')))) s'
    \<and> set (vec_list (ev_timers s)) \<subseteq> set (vec_list (ev_timers s')) \<and> te_inv (ev_timers s') (ev_te s')"
proof -
  obtain r where inc: "iotc_inc_backoff_penalty f (b\<lparr>backoff_class := iotc_backoff_classify_state st\<rparr>) s = (b', s')"
    using assms(2,3) by (cases "iotc_backoff_classify_state st") (auto simp: iotc_update_backoff_penalty_def Let_def)
  then have nu: "next_update b' = next_update b"
    and s': "s' = snd (iotc_restart_update_time f b' s)"
    by (auto simp: iotc_inc_backoff_penalty_def Let_def)
  let ?h = "next_update b'" and ?t = "int (lut_ui32 (decay_lut b') (backoff_lut_i b'))"
  from assms(1) have g: "grown base (ev_timers s) (ev_mem s)" and i: "te_inv (ev_timers s) (ev_te s)"
    and ok: "\<forall>i n. n < 2 ^ 63 \<longrightarrow> m_ok (ev_mem s) i n" and room: "v_elem_no (ev_timers s) < 64"
    and sub: "set (vec_list (ev_timers s)) \<subseteq> dom base" and h: "?h \<noteq> NULL"
    and q: "te_hnd (ev_te s) ?h = NULL \<or> te_hnd (ev_te s) ?h \<in> set (vec_list (ev_timers s))"
    by (auto simp: timer_ready_def nu Let_def)
  show ?thesis
  proof (cases "te_hnd (ev_te s) ?h = NULL")
    case True
    obtain st' where "iotc_evtd_execute_in (iotc_make_handle_argc0 IOTC_THREADID_MAINTHREAD f) ?t ?h s = (st', s')"
      using s' True by (simp add: iotc_restart_update_time_def) (metis prod.collapse)
    from execute_in_adds [OF g i ok room sub h True this] obtain p where
      p: "p \<noteq> NULL" "te_hnd (ev_te s') = (te_hnd (ev_te s))(?h := p)"
        "set (vec_list (ev_timers s')) = insert p (set (vec_list (ev_timers s)))"
        "te_time (ev_te s') p = to_int64 (ev_current_step s + ?t)" and inv: "te_inv (ev_timers s') (ev_te s')"
      by blast
    have "cooldown_pending b' (to_int64 (ev_current_step s + ?t)) s'"
      unfolding cooldown_pending_def Let_def p(2,3) using p(1,4) by simp
    with inv p(3) show ?thesis by blast
  next
    case False
    let ?p = "te_hnd (ev_te s) ?h"
    from False q have p: "?p \<in> set (vec_list (ev_timers s))" by simp
    obtain x v te where rs: "iotc_time_event_restart (ev_timers s) (ev_te s) ?h (to_int64 (ev_current_step s + ?t)) = (x, v, te)"
      by (metis prod_cases3)
    have "ev_timers s' = v" "ev_te s' = te"
      using s' False rs by (auto simp: iotc_restart_update_time_def iotc_evtd_restart_def Let_def
          iotc_lock_critical_section_def iotc_unlock_critical_section_def)
    moreover from p obtain us vs where l: "vec_list (ev_timers s) = us @ ?p # vs" by (meson split_list)
    note rr = te_restart_all [OF i l refl rs]
    have "mset (takeWhile P vs) + mset (dropWhile P vs) = mset vs" for P
      by (metis mset_append takeWhile_dropWhile_id)
    then have "mset (vec_list v) = mset (vec_list (ev_timers s))"
      using rr by (subst l, cases "to_int64 (ev_current_step s + ?t) < te_time (ev_te s) ?p") (simp_all add: mset_queue_insert)
    then have "set (vec_list v) = set (vec_list (ev_timers s))" by (metis set_mset_mset)
    ultimately show ?thesis using rr False p by (auto simp: cooldown_pending_def Let_def)
  qed
qed

theorem failure_schedules_cooldown_witness:
  "\<exists>s :: nat list evtd_scheme. \<exists>c b' s'. iotc_update_backoff_penalty 99 IOTC_SOCKET_CONNECTION_ERROR (default_status 0) s = (c, b', s')
    \<and> cooldown_pending b' 4 s'"
proof -
  obtain v m where g: "grown Map.empty v m" and l: "vec_list v = []" and ok: "m_ok m = (\<lambda>i n. n < 2 ^ 63)"
    by (rule fresh_vec)
  let ?s = "example_evtd\<lparr>ev_timers := v, ev_mem := m\<rparr>"
  have n: "v_elem_no v = 0" using vec_list_empty_iff g l by (simp add: grown_def)
  have i: "te_inv v (ev_te ?s)" using g l by (simp add: te_inv_def pos_ok_def grown_def)
  have hn: "te_hnd (ev_te ?s) = (\<lambda>h. NULL)" "next_update (default_status 0) = 40" "ev_current_step ?s = 0"
    by (simp_all add: example_evtd_def default_status_def)
  have t: "timer_ready Map.empty (default_status 0) ?s"
    unfolding timer_ready_def Let_def hn using g l ok n i by simp
  obtain c b' s' where u: "iotc_update_backoff_penalty 99 IOTC_SOCKET_CONNECTION_ERROR (default_status 0) ?s = (c, b', s')"
    by (metis prod_cases3)
  have cl: "iotc_backoff_classify_state IOTC_SOCKET_CONNECTION_ERROR = IOTC_BACKOFF_CLASS_RECOVERABLE"
    by (simp add: iotc_backoff_classify_state_def)
  have "iotc_backoff_classify_state IOTC_SOCKET_CONNECTION_ERROR \<noteq> IOTC_BACKOFF_CLASS_NONE" by (simp add: cl)
  from failure_schedules_cooldown [OF t this u]
  have "cooldown_pending b' (to_int64 (ev_current_step ?s + int (lut_ui32 (decay_lut b') (backoff_lut_i b')))) s'"
    by blast
  moreover have "b' = (default_status 0)\<lparr>backoff_class := IOTC_BACKOFF_CLASS_RECOVERABLE, backoff_lut_i := 1\<rparr>"
    using u by (auto simp: iotc_update_backoff_penalty_def cl iotc_inc_backoff_penalty_def default_status_def Let_def)
  ultimately have "cooldown_pending b' 4 s'"
    by (simp add: hn default_status_def lut_ui32_def IOTC_DECAY_LUT_def)
  with u show ?thesis by blast
qed

end
