(* ===== verification/Iotc_Mqtt_Data.thy ===== *)
theory Iotc_Mqtt_Data
  imports Iotc_Layer Iotc_Connection_Data Iotc_Backoff
begin

text \<open>
  The data of the MQTT logic layer, \<^verbatim>\<open>src/libiotc/mqtt/logic/iotc_mqtt_logic_layer_data.c\<close>: its tasks, their
  specific data and the data of the layer.

  The blocks of the program are known by their addresses; the state holds what is in the blocks. The timeout
  handle of a task is known by the task's address in the store of time event handles, that of the
  keepalive event by the address of the layer's data. The queues of tasks are the lists of their nodes;
  \<^verbatim>\<open>Iotc_List\<close> shows that the macros of \<^verbatim>\<open>iotc_list.h\<close> do on chains of nodes what the
  functions on lists below do. The strings' and descriptors' members of the task specific data are the
  union's: the topic is the first member of either.

  A write to a task that is no longer allocated sets the flag for undefined behaviour. Assertions are not executed.
\<close>

section \<open>Data\<close>

datatype scenario =
    IOTC_MQTT_CONNECT
  | IOTC_MQTT_PUBLISH
  | IOTC_MQTT_PUBACK
  | IOTC_MQTT_SUBSCRIBE
  | IOTC_MQTT_KEEPALIVE
  | IOTC_MQTT_SHUTDOWN

datatype task_priority = IOTC_MQTT_LOGIC_TASK_NORMAL | IOTC_MQTT_LOGIC_TASK_IMMEDIATE

datatype session_state =
    IOTC_MQTT_LOGIC_TASK_SESSION_UNSET
  | IOTC_MQTT_LOGIC_TASK_SESSION_DO_NOT_STORE
  | IOTC_MQTT_LOGIC_TASK_SESSION_STORE

datatype specific_data =
    Publish_data cstr "data_desc option" mqtt_retain mqtt_dup
  | Subscribe_data cstr event_handle mqtt_qos

record mqtt_task =
  mt_logic :: event_handle
  mt_callback :: event_handle
  mt_scenario :: scenario
  mt_qos :: mqtt_qos
  mt_data_u :: ptr
  mt_priority :: task_priority
  mt_session_state :: session_state
  mt_cs :: nat
  mt_msg_id :: nat

record logic_layer_data =
  ld_q12 :: "ptr list"
  ld_q12_recv :: "ptr list"
  ld_q0 :: "ptr list"
  ld_current_q0 :: ptr
  ld_handlers :: "vec option"
  ld_last_msg_id :: nat

text \<open>
  The state of a context: the blocks, the layer's data (the address of the block is the \<^verbatim>\<open>user_data\<close> of the layer),
  the copies that the context keeps for a continued session, and the backoff status of the
  global data.
\<close>

record mqtt = layered +
  mq_task :: "ptr \<Rightarrow> mqtt_task"
  mq_spec :: "ptr \<Rightarrow> specific_data"
  mq_msg :: "ptr \<Rightarrow> mqtt_message"
  mq_written :: "ptr \<Rightarrow> nat \<times> mqtt_type"
  mq_data :: logic_layer_data
  cx_copy_handlers :: "vec option"
  cx_copy_q12 :: "ptr list"
  cx_copy_dtor :: ptr
  cx_copy_last_msg_id :: nat
  cx_connection :: connection_data
  gl_backoff :: backoff_status

definition sizeof_mqtt_task :: nat where "sizeof_mqtt_task = 192"
definition sizeof_specific_data :: nat where "sizeof_specific_data = 88"
definition sizeof_logic_layer_data :: nat where "sizeof_logic_layer_data = 56"

definition zeroed_task :: mqtt_task where
  "zeroed_task = \<lparr>mt_logic = zeroed_handle, mt_callback = zeroed_handle, mt_scenario = IOTC_MQTT_CONNECT,
     mt_qos = IOTC_MQTT_QOS_AT_MOST_ONCE, mt_data_u = NULL, mt_priority = IOTC_MQTT_LOGIC_TASK_NORMAL,
     mt_session_state = IOTC_MQTT_LOGIC_TASK_SESSION_UNSET, mt_cs = 0, mt_msg_id = 0\<rparr>"

definition zeroed_logic_data :: logic_layer_data where
  "zeroed_logic_data = \<lparr>ld_q12 = [], ld_q12_recv = [], ld_q0 = [], ld_current_q0 = NULL, ld_handlers = None,
     ld_last_msg_id = 0\<rparr>"

primrec spec_topic :: "specific_data \<Rightarrow> cstr" where
  "spec_topic (Publish_data topic data retain dup) = topic"
| "spec_topic (Subscribe_data topic handler qos) = topic"

section \<open>Access to blocks\<close>

definition on_mem :: "(mem \<Rightarrow> mem) \<Rightarrow> 'z evtd_scheme \<Rightarrow> 'z evtd_scheme" where
  "on_mem f s = s\<lparr>ev_mem := f (ev_mem s)\<rparr>"

definition on_data :: "(logic_layer_data \<Rightarrow> logic_layer_data) \<Rightarrow> 'z mqtt_scheme \<Rightarrow> 'z mqtt_scheme" where
  "on_data f s = s\<lparr>mq_data := f (mq_data s)\<rparr>"

definition write_task :: "ptr \<Rightarrow> (mqtt_task \<Rightarrow> mqtt_task) \<Rightarrow> 'z mqtt_scheme \<Rightarrow> 'z mqtt_scheme" where
  "write_task p f s =
     (let s1 = (if m_live (ev_mem s) p = None then on_mem (\<lambda>m. m\<lparr>m_bad := True\<rparr>) s else s)
      in s1\<lparr>mq_task := (mq_task s1)(p := f (mq_task s1 p))\<rparr>)"

text \<open>\<^verbatim>\<open>IOTC_ALLOC\<close> of a zeroed task and of a message, whose contents the caller sets.\<close>

definition alloc_task :: "'z mqtt_scheme \<Rightarrow> ptr \<times> 'z mqtt_scheme" where
  "alloc_task s =
     (case iotc_alloc sizeof_mqtt_task (ev_mem s) of (p, m) \<Rightarrow>
        if p = NULL then (NULL, s\<lparr>ev_mem := m\<rparr>)
        else (p, s\<lparr>ev_mem := m, ev_te := (ev_te s)\<lparr>te_hnd := (te_hnd (ev_te s))(p := NULL)\<rparr>,
                   mq_task := (mq_task s)(p := zeroed_task)\<rparr>))"

definition alloc_message :: "'z mqtt_scheme \<Rightarrow> ptr \<times> 'z mqtt_scheme" where
  "alloc_message s =
     (case iotc_alloc sizeof_mqtt_message (ev_mem s) of (p, m) \<Rightarrow>
        if p = NULL then (NULL, s\<lparr>ev_mem := m\<rparr>)
        else (p, s\<lparr>ev_mem := m, mq_msg := (mq_msg s)(p := zeroed_message)\<rparr>))"

definition put_message :: "ptr \<Rightarrow> mqtt_message \<Rightarrow> 'z mqtt_scheme \<Rightarrow> 'z mqtt_scheme" where
  "put_message p msg s = s\<lparr>mq_msg := (mq_msg s)(p := msg)\<rparr>"

definition free_message :: "ptr \<Rightarrow> 'z mqtt_scheme \<Rightarrow> 'z mqtt_scheme" where
  "free_message p s = on_mem (iotc_mqtt_message_free p (mq_msg s p)) s"

text \<open>\<open>handlers.h4.a1 = x\<close> and the like: the argument of index \<open>i\<close>.\<close>

definition set_arg :: "nat \<Rightarrow> nat \<Rightarrow> event_handle \<Rightarrow> event_handle" where
  "set_arg i x h = h\<lparr>h_args := (h_args h @ replicate (Suc i - length (h_args h)) 0)[i := x]\<rparr>"

section \<open>Destructors\<close>

definition iotc_mqtt_task_spec_data_free_publish_data :: "ptr \<Rightarrow> 'z mqtt_scheme \<Rightarrow> 'z mqtt_scheme" where
  "iotc_mqtt_task_spec_data_free_publish_data p s =
     on_mem (\<lambda>m.
       (let m1 = (case mq_spec s p of Publish_data topic data retain dup \<Rightarrow> iotc_free_desc data m
                  | Subscribe_data topic handler qos \<Rightarrow> m);
            m2 = str_free (spec_topic (mq_spec s p)) m1
        in IOTC_SAFE_FREE p m2)) s"

definition iotc_mqtt_task_spec_data_free_subscribe_data :: "ptr \<Rightarrow> 'z mqtt_scheme \<Rightarrow> 'z mqtt_scheme" where
  "iotc_mqtt_task_spec_data_free_subscribe_data p s =
     on_mem (\<lambda>m. IOTC_SAFE_FREE p (str_free (spec_topic (mq_spec s p)) m)) s"

text \<open>The variant for the vector of handlers: the cell becomes null.\<close>

definition iotc_mqtt_task_spec_data_free_subscribe_data_vec ::
    "nat \<Rightarrow> 'z mqtt_scheme \<Rightarrow> nat \<times> 'z mqtt_scheme" where
  "iotc_mqtt_task_spec_data_free_subscribe_data_vec data s =
     (NULL, iotc_mqtt_task_spec_data_free_subscribe_data data s)"

definition iotc_mqtt_logic_free_task_data :: "ptr \<Rightarrow> 'z mqtt_scheme \<Rightarrow> 'z mqtt_scheme" where
  "iotc_mqtt_logic_free_task_data task s =
     (let p = mt_data_u (mq_task s task)
      in case mt_scenario (mq_task s task) of
           IOTC_MQTT_PUBLISH \<Rightarrow>
             write_task task (\<lambda>t. t\<lparr>mt_data_u := NULL\<rparr>) (iotc_mqtt_task_spec_data_free_publish_data p s)
         | IOTC_MQTT_SUBSCRIBE \<Rightarrow>
             write_task task (\<lambda>t. t\<lparr>mt_data_u := NULL\<rparr>) (iotc_mqtt_task_spec_data_free_subscribe_data p s)
         | _ \<Rightarrow> s)"

definition iotc_mqtt_logic_free_task :: "ptr \<Rightarrow> 'z mqtt_scheme \<Rightarrow> 'z mqtt_scheme" where
  "iotc_mqtt_logic_free_task task s =
     (if task \<noteq> NULL then
        (let s1 = (if mt_data_u (mq_task s task) \<noteq> NULL then iotc_mqtt_logic_free_task_data task s else s)
         in on_mem (IOTC_SAFE_FREE task) s1)
      else s)"

section \<open>Constructors\<close>

definition iotc_mqtt_logic_make_publish_task ::
    "string \<Rightarrow> data_desc \<Rightarrow> mqtt_qos \<Rightarrow> mqtt_retain \<Rightarrow> event_handle \<Rightarrow> 'z mqtt_scheme \<Rightarrow> ptr \<times> 'z mqtt_scheme" where
  "iotc_mqtt_logic_make_publish_task topic data qos retain callback s =
     (case alloc_task s of (task, s1) \<Rightarrow>
        if task = NULL then (NULL, s1)
        else
          (let s2 = write_task task (\<lambda>t. t\<lparr>mt_scenario := IOTC_MQTT_PUBLISH, mt_qos := qos, mt_callback := callback\<rparr>) s1
           in case iotc_alloc sizeof_specific_data (ev_mem s2) of (p, m) \<Rightarrow>
                (let s3 = write_task task (\<lambda>t. t\<lparr>mt_data_u := p\<rparr>) (s2\<lparr>ev_mem := m\<rparr>)
                 in if p = NULL then (NULL, iotc_mqtt_logic_free_task task s3)
                    else (case iotc_str_dup iotc_alloc topic (ev_mem s3) of (tp, m1) \<Rightarrow>
                      (task, s3\<lparr>ev_mem := m1,
                         mq_spec := (mq_spec s3)(p := Publish_data tp (Some data) retain IOTC_MQTT_DUP_FALSE)\<rparr>)))))"

definition iotc_mqtt_logic_make_subscribe_task ::
    "cstr \<Rightarrow> mqtt_qos \<Rightarrow> event_handle \<Rightarrow> 'z mqtt_scheme \<Rightarrow> ptr \<times> 'z mqtt_scheme" where
  "iotc_mqtt_logic_make_subscribe_task topic qos handler s =
     (case alloc_task s of (task, s1) \<Rightarrow>
        if task = NULL then (NULL, s1)
        else
          (let s2 = write_task task (\<lambda>t. t\<lparr>mt_scenario := IOTC_MQTT_SUBSCRIBE,
                 mt_qos := IOTC_MQTT_QOS_AT_LEAST_ONCE\<rparr>) s1
           in case iotc_alloc sizeof_specific_data (ev_mem s2) of (p, m) \<Rightarrow>
                (let s3 = write_task task (\<lambda>t. t\<lparr>mt_data_u := p\<rparr>) (s2\<lparr>ev_mem := m\<rparr>)
                 in if p = NULL then (NULL, iotc_mqtt_logic_free_task task s3)
                    else (task, s3\<lparr>mq_spec := (mq_spec s3)(p := Subscribe_data topic handler qos)\<rparr>))))"

definition iotc_mqtt_logic_make_shutdown_task :: "'z mqtt_scheme \<Rightarrow> ptr \<times> 'z mqtt_scheme" where
  "iotc_mqtt_logic_make_shutdown_task s =
     (case alloc_task s of (task, s1) \<Rightarrow>
        if task = NULL then (NULL, s1)
        else (task, write_task task (\<lambda>t. t\<lparr>mt_scenario := IOTC_MQTT_SHUTDOWN,
                      mt_priority := IOTC_MQTT_LOGIC_TASK_IMMEDIATE\<rparr>) s1))"

end
