(* ===== verification/Iotc_Mqtt_Task.thy ===== *)
theory Iotc_Mqtt_Task
  imports Iotc_Mqtt_Data
begin

text \<open>
  The tasks of the MQTT logic layer: \<^verbatim>\<open>iotc_mqtt_logic_layer_task_helpers.c\<close> and the coroutines of the headers
  \<^verbatim>\<open>..._connect_command.h\<close>, \<^verbatim>\<open>..._publish_q0_command.h\<close>, \<^verbatim>\<open>..._publish_q1_command.h\<close>,
  \<^verbatim>\<open>..._subscribe_command.h\<close>, \<^verbatim>\<open>..._keepalive_handler.c\<close>, \<^verbatim>\<open>..._publish_handler.h\<close> and
  \<^verbatim>\<open>..._connection_helpers.h\<close> of \<^verbatim>\<open>src/libiotc/mqtt/logic/\<close>.

  A coroutine (\<^verbatim>\<open>iotc_coroutine.h\<close>) keeps the line of the yield it waits at in the field \<^verbatim>\<open>cs\<close> of its
  task; a call with another value in it starts from the beginning. \<^verbatim>\<open>IOTC_CR_EXIT\<close> stores 1,
  \<^verbatim>\<open>IOTC_CR_RESET\<close> stores 2. Each loop body of a coroutine is a definition of its own.

  A coroutine that ends may start the next task, whose coroutine may end at once: \<open>next_task\<close> is what
  \<^verbatim>\<open>iotc_mqtt_logic_layer_run_next_q0_task\<close> does, the recursion is closed below with fuel.
\<close>

section \<open>Addresses of functions\<close>

definition fn_connect :: ptr where "fn_connect = 1"
definition fn_publish_q0 :: ptr where "fn_publish_q0 = 2"
definition fn_publish_q1 :: ptr where "fn_publish_q1 = 3"
definition fn_subscribe :: ptr where "fn_subscribe = 4"
definition fn_keepalive_task :: ptr where "fn_keepalive_task = 5"
definition fn_shutdown :: ptr where "fn_shutdown = 6"
definition fn_publish_q1_recieved :: ptr where "fn_publish_q1_recieved = 7"
definition fn_connect_timeout :: ptr where "fn_connect_timeout = 8"
definition fn_keepalive_once :: ptr where "fn_keepalive_once = 9"
definition fn_keepalive_expiry :: ptr where "fn_keepalive_expiry = 10"
definition fn_queue_shutdown_wrap :: ptr where "fn_queue_shutdown_wrap = 11"

lemmas fn_defs = fn_connect_def fn_publish_q0_def fn_publish_q1_def fn_subscribe_def fn_keepalive_task_def
  fn_shutdown_def fn_publish_q1_recieved_def fn_connect_timeout_def fn_keepalive_once_def fn_keepalive_expiry_def
  fn_queue_shutdown_wrap_def

definition make_handle4 :: "ptr \<Rightarrow> ptr \<Rightarrow> ptr \<Rightarrow> iotc_state \<Rightarrow> ptr \<Rightarrow> event_handle" where
  "make_handle4 f context task st msg =
     iotc_make_handle_argc4 IOTC_THREADID_MAINTHREAD f context task (state_arg st) msg"

section \<open>Helpers\<close>

abbreviation (input) user_data :: "ptr \<Rightarrow> 'z layered_scheme \<Rightarrow> ptr" where
  "user_data context s \<equiv> ly_user_data (ly_at s context)"

abbreviation (input) timeout_set :: "ptr \<Rightarrow> 'z evtd_scheme \<Rightarrow> bool" where
  "timeout_set h s \<equiv> te_hnd (ev_te s) h \<noteq> NULL"

abbreviation (input) keepalive_seconds :: "'z mqtt_scheme \<Rightarrow> int" where
  "keepalive_seconds s \<equiv> int (cd_keepalive_timeout (cx_connection s))"

abbreviation (input) set_cs :: "ptr \<Rightarrow> nat \<Rightarrow> 'z mqtt_scheme \<Rightarrow> 'z mqtt_scheme" where
  "set_cs task n \<equiv> write_task task (\<lambda>t. t\<lparr>mt_cs := n\<rparr>)"

definition cancel_task_timeout :: "ptr \<Rightarrow> 'z layered_scheme \<Rightarrow> 'z layered_scheme" where
  "cancel_task_timeout task s =
     (if timeout_set task s then snd (iotc_evtd_cancel task (iotc_io_timeouts_remove task s)) else s)"

definition iotc_mqtt_logic_task_defer_users_callback ::
    "ptr \<Rightarrow> iotc_state \<Rightarrow> 'z mqtt_scheme \<Rightarrow> 'z mqtt_scheme" where
  "iotc_mqtt_logic_task_defer_users_callback task state s =
     (let callback = mt_callback (mq_task s task)
      in if \<not> iotc_handle_disposed callback
         then snd (iotc_evttd_execute (set_arg 2 (state_arg state) callback) s) else s)"

definition release_current_q0 :: "'z mqtt_scheme \<Rightarrow> 'z mqtt_scheme" where
  "release_current_q0 s =
     (let current = ld_current_q0 (mq_data s)
      in if current \<noteq> NULL then
           on_data (\<lambda>d. d\<lparr>ld_current_q0 := NULL\<rparr>)
             (iotc_mqtt_logic_free_task current
               (if timeout_set current s then cancel_task_timeout current s else s))
         else s)"

definition iotc_mqtt_logic_layer_run_next_q0_task ::
    "(ptr \<Rightarrow> nat list \<Rightarrow> 'z mqtt_scheme \<Rightarrow> iotc_state \<times> 'z mqtt_scheme) \<Rightarrow> 'z mqtt_scheme \<Rightarrow> iotc_state \<times> 'z mqtt_scheme" where
  "iotc_mqtt_logic_layer_run_next_q0_task call s =
     (let s1 = release_current_q0 s
      in case ld_q0 (mq_data s1) of
           [] \<Rightarrow> (IOTC_STATE_OK, s1)
         | task # rest \<Rightarrow>
             (let s2 = on_data (\<lambda>d. d\<lparr>ld_q0 := rest\<rparr>) s1
              in if cd_connection_state (cx_connection s2) = IOTC_CONNECTION_STATE_OPENING
                    \<and> mt_scenario (mq_task s2 task) \<noteq> IOTC_MQTT_CONNECT
                 then (IOTC_STATE_OK, on_data (\<lambda>d. d\<lparr>ld_q0 := ld_q0 d @ [task]\<rparr>) s2)
                 else
                   (let s3 = on_data (\<lambda>d. d\<lparr>ld_current_q0 := task\<rparr>) s2
                    in iotc_evtd_execute_handle call (mt_logic (mq_task s3 task)) s3)))"

definition iotc_mqtt_logic_layer_finalize_task ::
    "('z mqtt_scheme \<Rightarrow> iotc_state \<times> 'z mqtt_scheme) \<Rightarrow> ptr \<Rightarrow> 'z mqtt_scheme \<Rightarrow> iotc_state \<times> 'z mqtt_scheme" where
  "iotc_mqtt_logic_layer_finalize_task next_task task s =
     (if mt_qos (mq_task s task) = IOTC_MQTT_QOS_AT_MOST_ONCE then next_task s
      else
        (let s1 = on_data (\<lambda>d. d\<lparr>ld_q12 := remove1 task (ld_q12 d)\<rparr>) s
         in (IOTC_STATE_OK, iotc_mqtt_logic_free_task task s1)))"

text \<open>\<^verbatim>\<open>IOTC_CR_EXIT\<close> with the finalizing of the task.\<close>

definition cr_exit ::
    "('z mqtt_scheme \<Rightarrow> iotc_state \<times> 'z mqtt_scheme) \<Rightarrow> ptr \<Rightarrow> 'z mqtt_scheme \<Rightarrow> iotc_state \<times> 'z mqtt_scheme" where
  "cr_exit next_task task s = iotc_mqtt_logic_layer_finalize_task next_task task (set_cs task 1 s)"

section \<open>Publishing with quality of service 0\<close>

text \<open>Filling a message block from the data of a publish task.\<close>

definition fill_publish ::
    "ptr \<Rightarrow> ptr \<Rightarrow> mqtt_qos \<Rightarrow> mqtt_dup \<Rightarrow> nat \<Rightarrow> 'z mqtt_scheme \<Rightarrow> iotc_state \<times> 'z mqtt_scheme" where
  "fill_publish msg_memory task qos dup msg_id s =
     (case mq_spec s (mt_data_u (mq_task s task)) of
        Publish_data topic (Some data) retain d \<Rightarrow>
          (case fill_with_publish_data (mq_msg s msg_memory) topic data qos retain dup msg_id (ev_mem s) of
             (st, msg, m) \<Rightarrow> (st, put_message msg_memory msg (s\<lparr>ev_mem := m\<rparr>)))
      | _ \<Rightarrow> (IOTC_STATE_OK, s))"

definition publish_q0_error ::
    "('z mqtt_scheme \<Rightarrow> iotc_state \<times> 'z mqtt_scheme) \<Rightarrow> ptr \<Rightarrow> iotc_state \<Rightarrow> 'z mqtt_scheme \<Rightarrow> iotc_state \<times> 'z mqtt_scheme" where
  "publish_q0_error next_task task state s =
     cr_exit next_task task
       (iotc_mqtt_logic_free_task_data task (iotc_mqtt_logic_task_defer_users_callback task state s))"

definition do_mqtt_publish_q0 ::
    "('z mqtt_scheme \<Rightarrow> iotc_state \<times> 'z mqtt_scheme) \<Rightarrow> ptr \<Rightarrow> ptr \<Rightarrow> iotc_state \<Rightarrow> ptr \<Rightarrow> 'z mqtt_scheme \<Rightarrow>
     iotc_state \<times> 'z mqtt_scheme" where
  "do_mqtt_publish_q0 next_task ctx task state msg_data s =
     (if IOTC_THIS_LAYER_NOT_OPERATIONAL ctx s \<or> user_data ctx s = NULL then (IOTC_STATE_OK, s)
      else if mt_cs (mq_task s task) = 73 then
        (let callback_state = (if state = IOTC_STATE_WRITTEN then IOTC_STATE_OK else state);
             s1 = iotc_mqtt_logic_free_task_data task s
         in cr_exit next_task task (iotc_mqtt_logic_task_defer_users_callback task callback_state s1))
      else
        (case alloc_message s of (msg_memory, s1) \<Rightarrow>
           if msg_memory = NULL then publish_q0_error next_task task IOTC_OUT_OF_MEMORY s1
           else (case fill_publish msg_memory task IOTC_MQTT_QOS_AT_MOST_ONCE IOTC_MQTT_DUP_FALSE 0 s1 of
             (st, s2) \<Rightarrow>
               if st \<noteq> IOTC_STATE_OK then publish_q0_error next_task task st s2
               else IOTC_PROCESS_PUSH_ON_PREV_LAYER ctx msg_memory IOTC_STATE_OK (set_cs task 73 s2))))"

section \<open>Publishing with quality of service 1\<close>

definition publish_q1_error ::
    "('z mqtt_scheme \<Rightarrow> iotc_state \<times> 'z mqtt_scheme) \<Rightarrow> ptr \<Rightarrow> ptr \<Rightarrow> iotc_state \<Rightarrow> 'z mqtt_scheme \<Rightarrow>
     iotc_state \<times> 'z mqtt_scheme" where
  "publish_q1_error next_task task msg_memory state s =
     (let s1 = free_message msg_memory (iotc_mqtt_logic_task_defer_users_callback task state s);
          s2 = (if mt_data_u (mq_task s1 task) \<noteq> NULL then iotc_mqtt_logic_free_task_data task s1 else s1)
      in (state, snd (iotc_mqtt_logic_layer_finalize_task next_task task (set_cs task 2 s2))))"

text \<open>The beginning of the loop, up to the yield on line 80.\<close>

definition publish_q1_send ::
    "('z mqtt_scheme \<Rightarrow> iotc_state \<times> 'z mqtt_scheme) \<Rightarrow> ptr \<Rightarrow> ptr \<Rightarrow> iotc_state \<Rightarrow> 'z mqtt_scheme \<Rightarrow>
     iotc_state \<times> 'z mqtt_scheme" where
  "publish_q1_send next_task context task state s =
     (case alloc_message s of (msg_memory, s1) \<Rightarrow>
        if msg_memory = NULL then publish_q1_error next_task task NULL IOTC_OUT_OF_MEMORY s1
        else (case fill_publish msg_memory task IOTC_MQTT_QOS_AT_LEAST_ONCE
                     (if state = IOTC_STATE_RESEND then IOTC_MQTT_DUP_TRUE else IOTC_MQTT_DUP_FALSE)
                     (mt_msg_id (mq_task s1 task)) s1 of
          (st, s2) \<Rightarrow>
            if st \<noteq> IOTC_STATE_OK then publish_q1_error next_task task msg_memory st s2
            else IOTC_PROCESS_PUSH_ON_PREV_LAYER context msg_memory IOTC_STATE_OK (set_cs task 80 s2)))"

text \<open>A sent message is to be stored for a continued session.\<close>

definition mark_for_session :: "ptr \<Rightarrow> 'z mqtt_scheme \<Rightarrow> 'z mqtt_scheme" where
  "mark_for_session task =
     write_task task (\<lambda>t. t\<lparr>mt_session_state :=
       (if mt_session_state t = IOTC_MQTT_LOGIC_TASK_SESSION_UNSET
        then IOTC_MQTT_LOGIC_TASK_SESSION_STORE else mt_session_state t)\<rparr>)"

text \<open>After the yields on the lines 80 and 110.\<close>

definition publish_q1_written ::
    "('z mqtt_scheme \<Rightarrow> iotc_state \<times> 'z mqtt_scheme) \<Rightarrow> ptr \<Rightarrow> ptr \<Rightarrow> iotc_state \<Rightarrow> ptr \<Rightarrow> 'z mqtt_scheme \<Rightarrow>
     iotc_state \<times> 'z mqtt_scheme" where
  "publish_q1_written next_task context task state msg_memory s =
     (if state \<noteq> IOTC_STATE_WRITTEN then publish_q1_send next_task context task IOTC_STATE_RESEND s
      else
        (let s1 = mark_for_session task s
         in case (if cd_keepalive_timeout (cx_connection s1) > 0
                  then iotc_evtd_execute_in (make_handle4 fn_publish_q1 context task IOTC_STATE_TIMEOUT NULL)
                         (keepalive_seconds s1) task s1
                  else (IOTC_STATE_OK, s1)) of
              (st, s2) \<Rightarrow>
                if st \<noteq> IOTC_STATE_OK then publish_q1_error next_task task msg_memory st s2
                else (IOTC_STATE_OK, set_cs task 110 s2)))"

definition publish_q1_answered ::
    "('z mqtt_scheme \<Rightarrow> iotc_state \<times> 'z mqtt_scheme) \<Rightarrow> ptr \<Rightarrow> ptr \<Rightarrow> iotc_state \<Rightarrow> ptr \<Rightarrow> 'z mqtt_scheme \<Rightarrow>
     iotc_state \<times> 'z mqtt_scheme" where
  "publish_q1_answered next_task context task state0 msg_memory s0 =
     (let state = (if state0 = IOTC_STATE_TIMEOUT then IOTC_STATE_RESEND else state0);
          s = (if state0 = IOTC_STATE_TIMEOUT then s0 else cancel_task_timeout task s0)
      in if state = IOTC_STATE_RESEND then publish_q1_send next_task context task state s
         else if state \<noteq> IOTC_STATE_OK then publish_q1_error next_task task msg_memory state s
         else if mm_type (mq_msg s msg_memory) \<noteq> IOTC_MQTT_TYPE_PUBACK
         then publish_q1_error next_task task msg_memory IOTC_MQTT_LOGIC_WRONG_MESSAGE_RECEIVED s
         else
           (let s1 = iotc_mqtt_logic_task_defer_users_callback task state s;
                s2 = free_message msg_memory s1
            in cr_exit next_task task (iotc_mqtt_logic_free_task_data task s2)))"

definition do_mqtt_publish_q1 ::
    "('z mqtt_scheme \<Rightarrow> iotc_state \<times> 'z mqtt_scheme) \<Rightarrow> ptr \<Rightarrow> ptr \<Rightarrow> iotc_state \<Rightarrow> ptr \<Rightarrow> 'z mqtt_scheme \<Rightarrow>
     iotc_state \<times> 'z mqtt_scheme" where
  "do_mqtt_publish_q1 next_task context task state msg_memory s =
     (if IOTC_THIS_LAYER_NOT_OPERATIONAL context s \<or> user_data context s = NULL
      then (IOTC_STATE_OK, set_cs task 2 (free_message msg_memory (cancel_task_timeout task s)))
      else if mt_cs (mq_task s task) = 80 then publish_q1_written next_task context task state msg_memory s
      else if mt_cs (mq_task s task) = 110 then publish_q1_answered next_task context task state msg_memory s
      else publish_q1_send next_task context task state s)"

section \<open>Subscribing\<close>

text \<open>The task is finalized, which releases it, before its coroutine is reset.\<close>

definition subscribe_error ::
    "('z mqtt_scheme \<Rightarrow> iotc_state \<times> 'z mqtt_scheme) \<Rightarrow> ptr \<Rightarrow> ptr \<Rightarrow> iotc_state \<Rightarrow> 'z mqtt_scheme \<Rightarrow>
     iotc_state \<times> 'z mqtt_scheme" where
  "subscribe_error next_task task msg_memory state s =
     (let s1 = free_message msg_memory s;
          s2 = snd (iotc_mqtt_logic_layer_finalize_task next_task task s1)
      in (state, set_cs task 2 s2))"

definition fill_subscribe :: "ptr \<Rightarrow> ptr \<Rightarrow> mqtt_dup \<Rightarrow> 'z mqtt_scheme \<Rightarrow> iotc_state \<times> 'z mqtt_scheme" where
  "fill_subscribe msg_memory task dup s =
     (case mq_spec s (mt_data_u (mq_task s task)) of
        Subscribe_data topic handler qos \<Rightarrow>
          (case fill_with_subscribe_data topic (mt_msg_id (mq_task s task)) qos dup (ev_mem s) of
             (st, msg, m) \<Rightarrow> (st, put_message msg_memory msg (s\<lparr>ev_mem := m\<rparr>)))
      | _ \<Rightarrow> (IOTC_STATE_OK, s))"

definition subscribe_send ::
    "('z mqtt_scheme \<Rightarrow> iotc_state \<times> 'z mqtt_scheme) \<Rightarrow> ptr \<Rightarrow> ptr \<Rightarrow> iotc_state \<Rightarrow> 'z mqtt_scheme \<Rightarrow>
     iotc_state \<times> 'z mqtt_scheme" where
  "subscribe_send next_task context task state s =
     (case alloc_message s of (msg_memory, s1) \<Rightarrow>
        if msg_memory = NULL then subscribe_error next_task task NULL IOTC_OUT_OF_MEMORY s1
        else (case fill_subscribe msg_memory task
                     (if state = IOTC_STATE_RESEND then IOTC_MQTT_DUP_TRUE else IOTC_MQTT_DUP_FALSE) s1 of
          (st, s2) \<Rightarrow>
            if st \<noteq> IOTC_STATE_OK then subscribe_error next_task task msg_memory st s2
            else IOTC_PROCESS_PUSH_ON_PREV_LAYER context msg_memory IOTC_STATE_OK (set_cs task 71 s2)))"

text \<open>After the yield on line 71; a failure to set the timer leaves the state as it was.\<close>

definition subscribe_written ::
    "('z mqtt_scheme \<Rightarrow> iotc_state \<times> 'z mqtt_scheme) \<Rightarrow> ptr \<Rightarrow> ptr \<Rightarrow> iotc_state \<Rightarrow> ptr \<Rightarrow> 'z mqtt_scheme \<Rightarrow>
     iotc_state \<times> 'z mqtt_scheme" where
  "subscribe_written next_task context task state msg_memory s =
     (if state = IOTC_STATE_WRITTEN then
        (let s1 = mark_for_session task s
         in case (if cd_keepalive_timeout (cx_connection s1) > 0
                  then iotc_evtd_execute_in (make_handle4 fn_subscribe context task IOTC_STATE_TIMEOUT NULL)
                         (keepalive_seconds s1) task s1
                  else (IOTC_STATE_OK, s1)) of
              (local_state, s2) \<Rightarrow>
                if local_state \<noteq> IOTC_STATE_OK then subscribe_error next_task task msg_memory state s2
                else (IOTC_STATE_OK, set_cs task 118 s2))
      else
        (case iotc_evtd_execute_in (make_handle4 fn_subscribe context task IOTC_STATE_RESEND NULL) 1 task s of
           (local_state, s1) \<Rightarrow>
             if local_state \<noteq> IOTC_STATE_OK then subscribe_error next_task task msg_memory state s1
             else (IOTC_STATE_OK, set_cs task 94 s1)))"

definition suback_status :: "mqtt_message \<Rightarrow> nat" where
  "suback_status msg = (case mm_body msg of Topics_body message_id (Some t) \<Rightarrow> tp_payload t | _ \<Rightarrow> 0)"

text \<open>Once the loop is left: the handler of the subscription is told of the answer.\<close>

definition put_suback_args :: "nat \<Rightarrow> specific_data \<Rightarrow> specific_data" where
  "put_suback_args status d =
     (case d of
        Subscribe_data topic handler qos \<Rightarrow>
          Subscribe_data topic
            (set_arg 2 (state_arg (if status = IOTC_MQTT_SUBACK_FAILED then IOTC_MQTT_SUBSCRIPTION_FAILED
                                   else IOTC_MQTT_SUBSCRIPTION_SUCCESSFULL)) (set_arg 1 status handler)) qos
      | _ \<Rightarrow> d)"

definition spec_handler :: "specific_data \<Rightarrow> event_handle" where
  "spec_handler d = (case d of Subscribe_data topic handler qos \<Rightarrow> handler | _ \<Rightarrow> zeroed_handle)"

definition register_handler :: "ptr \<Rightarrow> 'z mqtt_scheme \<Rightarrow> bool \<times> 'z mqtt_scheme" where
  "register_handler data_u s =
     (case iotc_vector_push (the (ld_handlers (mq_data s))) data_u (ev_mem s) of
        (elem, v, m) \<Rightarrow> (elem \<noteq> None, on_data (\<lambda>d. d\<lparr>ld_handlers := Some v\<rparr>) (s\<lparr>ev_mem := m\<rparr>)))"

definition subscribe_acked ::
    "('z mqtt_scheme \<Rightarrow> iotc_state \<times> 'z mqtt_scheme) \<Rightarrow> ptr \<Rightarrow> nat \<Rightarrow> 'z mqtt_scheme \<Rightarrow> iotc_state \<times> 'z mqtt_scheme" where
  "subscribe_acked next_task task status s =
     (let data_u = mt_data_u (mq_task s task);
          s1 = s\<lparr>mq_spec := (mq_spec s)(data_u := put_suback_args status (mq_spec s data_u))\<rparr>
      in case (if status \<noteq> IOTC_MQTT_SUBACK_FAILED then register_handler data_u s1 else (True, s1)) of
           (registered, s2) \<Rightarrow>
             if \<not> registered then subscribe_error next_task task NULL IOTC_OUT_OF_MEMORY s2
             else (case iotc_evttd_execute (spec_handler (mq_spec s2 data_u)) s2 of (e, s3) \<Rightarrow>
               if e = NULL then subscribe_error next_task task NULL IOTC_OUT_OF_MEMORY s3
               else cr_exit next_task task (write_task task (\<lambda>t. t\<lparr>mt_data_u := NULL\<rparr>) s3)))"

definition subscribe_answered ::
    "('z mqtt_scheme \<Rightarrow> iotc_state \<times> 'z mqtt_scheme) \<Rightarrow> ptr \<Rightarrow> iotc_state \<Rightarrow> ptr \<Rightarrow> 'z mqtt_scheme \<Rightarrow>
     iotc_state \<times> 'z mqtt_scheme" where
  "subscribe_answered next_task task state msg_memory s =
     (if state = IOTC_STATE_OK then
        (if mm_type (mq_msg s msg_memory) \<noteq> IOTC_MQTT_TYPE_SUBACK
         then subscribe_error next_task task msg_memory IOTC_MQTT_LOGIC_WRONG_MESSAGE_RECEIVED s
         else
           (let status = suback_status (mq_msg s msg_memory)
            in subscribe_acked next_task task status (free_message msg_memory s)))
      else subscribe_error next_task task msg_memory state s)"

definition do_mqtt_subscribe ::
    "('z mqtt_scheme \<Rightarrow> iotc_state \<times> 'z mqtt_scheme) \<Rightarrow> ptr \<Rightarrow> ptr \<Rightarrow> iotc_state \<Rightarrow> ptr \<Rightarrow> 'z mqtt_scheme \<Rightarrow>
     iotc_state \<times> 'z mqtt_scheme" where
  "do_mqtt_subscribe next_task context task state0 msg s0 =
     (if user_data context s0 = NULL then (IOTC_STATE_OK, free_message msg (cancel_task_timeout task s0))
      else if mt_cs (mq_task s0 task) = 71 then subscribe_written next_task context task state0 msg s0
      else if mt_cs (mq_task s0 task) = 94 then
        (if state0 = IOTC_STATE_RESEND then subscribe_send next_task context task state0 s0
         else subscribe_answered next_task task state0 msg s0)
      else if mt_cs (mq_task s0 task) = 118 then
        (let state = (if state0 = IOTC_STATE_TIMEOUT then IOTC_STATE_RESEND else state0);
             s = (if state0 = IOTC_STATE_TIMEOUT then s0 else cancel_task_timeout task s0)
         in if state = IOTC_STATE_RESEND then subscribe_send next_task context task state s
            else subscribe_answered next_task task state msg s)
      else subscribe_send next_task context task state0 s0)"

section \<open>Connecting\<close>

definition get_error_from_connack :: "nat \<Rightarrow> iotc_state" where
  "get_error_from_connack return_code =
     (if return_code = 1 then IOTC_MQTT_UNACCEPTABLE_PROTOCOL_VERSION
      else if return_code = 2 then IOTC_MQTT_IDENTIFIER_REJECTED
      else if return_code = 3 then IOTC_MQTT_SERVER_UNAVAILIBLE
      else if return_code = 4 then IOTC_MQTT_BAD_USERNAME_OR_PASSWORD
      else if return_code = 5 then IOTC_MQTT_NOT_AUTHORIZED
      else IOTC_MQTT_CONNECT_UNKNOWN_RETURN_CODE)"

definition do_mqtt_connect_timeout ::
    "('z mqtt_scheme \<Rightarrow> iotc_state \<times> 'z mqtt_scheme) \<Rightarrow> ptr \<Rightarrow> ptr \<Rightarrow> 'z mqtt_scheme \<Rightarrow> iotc_state \<times> 'z mqtt_scheme" where
  "do_mqtt_connect_timeout next_task context task s =
     (let s1 = iotc_io_timeouts_remove task s;
          s2 = snd (IOTC_PROCESS_CONNECT_ON_NEXT_LAYER context task IOTC_STATE_TIMEOUT s1)
      in cr_exit next_task task s2)"

definition cancel_connect_timeout :: "ptr \<Rightarrow> 'z layered_scheme \<Rightarrow> 'z layered_scheme" where
  "cancel_connect_timeout task s = (if timeout_set task s then iotc_io_timeouts_cancel task s else s)"

definition connect_error ::
    "('z mqtt_scheme \<Rightarrow> iotc_state \<times> 'z mqtt_scheme) \<Rightarrow> ptr \<Rightarrow> ptr \<Rightarrow> 'z mqtt_scheme \<Rightarrow> iotc_state \<times> 'z mqtt_scheme" where
  "connect_error next_task task msg_memory s =
     cr_exit next_task task (cancel_connect_timeout task (free_message msg_memory s))"

definition connect_send ::
    "('z mqtt_scheme \<Rightarrow> iotc_state \<times> 'z mqtt_scheme) \<Rightarrow> ptr \<Rightarrow> ptr \<Rightarrow> 'z mqtt_scheme \<Rightarrow> iotc_state \<times> 'z mqtt_scheme" where
  "connect_send next_task context task s =
     (case alloc_message s of (msg_memory, s1) \<Rightarrow>
        if msg_memory = NULL then connect_error next_task task NULL s1
        else
          (let cd = cx_connection s1
           in case fill_with_connect_data (cd_username cd) (cd_password cd) (cd_client_id cd)
                     (cd_keepalive_timeout cd) (cd_session_type cd) (cd_will_topic cd) (cd_will_message cd)
                     (cd_will_qos cd) (cd_will_retain cd) (ev_mem s1) of
                (st, msg, m) \<Rightarrow>
                  (let s2 = put_message msg_memory msg (s1\<lparr>ev_mem := m\<rparr>)
                   in if st \<noteq> IOTC_STATE_OK then connect_error next_task task msg_memory s2
                      else (case (if cd_connection_timeout cd > 0
                                  then iotc_io_timeouts_create
                                         (iotc_make_handle_argc2 IOTC_THREADID_MAINTHREAD fn_connect_timeout context task)
                                         (int (cd_connection_timeout cd)) task s2
                                  else (IOTC_STATE_OK, s2)) of
                        (st2, s3) \<Rightarrow>
                          if st2 \<noteq> IOTC_STATE_OK then connect_error next_task task msg_memory s3
                          else IOTC_PROCESS_PUSH_ON_PREV_LAYER context msg_memory IOTC_STATE_OK
                                 (set_cs task 127 s3)))))"

definition connack_code :: "mqtt_message \<Rightarrow> nat" where
  "connack_code msg = (case mm_body msg of Connack_body return_code \<Rightarrow> return_code | _ \<Rightarrow> 0)"

text \<open>The connection has been accepted, and the message released.\<close>

definition connect_accepted ::
    "('z mqtt_scheme \<Rightarrow> iotc_state \<times> 'z mqtt_scheme) \<Rightarrow> ptr \<Rightarrow> ptr \<Rightarrow> iotc_state \<Rightarrow> 'z mqtt_scheme \<Rightarrow>
     iotc_state \<times> 'z mqtt_scheme" where
  "connect_accepted next_task context task state s =
     (case (if cd_keepalive_timeout (cx_connection s) > 0
            then iotc_evtd_execute_in (iotc_make_handle_argc1 IOTC_THREADID_MAINTHREAD fn_keepalive_once context)
                   (keepalive_seconds s) (user_data context s) s
            else (state, s)) of
        (st, s1) \<Rightarrow>
          if cd_keepalive_timeout (cx_connection s) > 0 \<and> st \<noteq> IOTC_STATE_OK
          then connect_error next_task task NULL s1
          else
            (let s2 = s1\<lparr>cx_connection := (cx_connection s1)\<lparr>cd_connection_state := IOTC_CONNECTION_STATE_OPENED\<rparr>\<rparr>;
                 s3 = snd (IOTC_PROCESS_CONNECT_ON_NEXT_LAYER context task st s2)
             in cr_exit next_task task s3))"

definition connect_answered ::
    "('z mqtt_scheme \<Rightarrow> iotc_state \<times> 'z mqtt_scheme) \<Rightarrow> ptr \<Rightarrow> ptr \<Rightarrow> iotc_state \<Rightarrow> ptr \<Rightarrow> 'z mqtt_scheme \<Rightarrow>
     iotc_state \<times> 'z mqtt_scheme" where
  "connect_answered next_task context task state msg_memory s =
     (if mm_type (mq_msg s msg_memory) = IOTC_MQTT_TYPE_CONNACK then
        (let s1 = cancel_connect_timeout task s;
             return_code = connack_code (mq_msg s1 msg_memory)
         in if return_code = 0
            then connect_accepted next_task context task state (free_message msg_memory s1)
            else
              (let s2 = snd (IOTC_PROCESS_CONNECT_ON_NEXT_LAYER context task (get_error_from_connack return_code) s1)
               in cr_exit next_task task (cancel_connect_timeout task (free_message msg_memory s2))))
      else connect_error next_task task msg_memory s)"

definition do_mqtt_connect ::
    "('z mqtt_scheme \<Rightarrow> iotc_state \<times> 'z mqtt_scheme) \<Rightarrow> ptr \<Rightarrow> ptr \<Rightarrow> iotc_state \<Rightarrow> ptr \<Rightarrow> 'z mqtt_scheme \<Rightarrow>
     iotc_state \<times> 'z mqtt_scheme" where
  "do_mqtt_connect next_task context task state msg_memory s =
     (if IOTC_THIS_LAYER_NOT_OPERATIONAL context s \<or> user_data context s = NULL
      then (IOTC_STATE_OK, set_cs task 1 (cancel_task_timeout task (free_message msg_memory s)))
      else if mt_cs (mq_task s task) = 127 then
        (if state = IOTC_STATE_WRITTEN then (IOTC_STATE_OK, set_cs task 140 s)
         else connect_error next_task task msg_memory
                (snd (IOTC_PROCESS_CONNECT_ON_NEXT_LAYER context task state s)))
      else if mt_cs (mq_task s task) = 140 then connect_answered next_task context task state msg_memory s
      else connect_send next_task context task s)"

section \<open>Keeping the connection alive\<close>

definition keepalive_error ::
    "('z mqtt_scheme \<Rightarrow> iotc_state \<times> 'z mqtt_scheme) \<Rightarrow> ptr \<Rightarrow> ptr \<Rightarrow> iotc_state \<Rightarrow> 'z mqtt_scheme \<Rightarrow>
     iotc_state \<times> 'z mqtt_scheme" where
  "keepalive_error next_task task msg_memory state s =
     (let s1 = set_cs task 2 (free_message msg_memory s)
      in (state, snd (iotc_mqtt_logic_layer_finalize_task next_task task s1)))"

definition do_reconnect :: "ptr \<Rightarrow> ptr \<Rightarrow> iotc_state \<Rightarrow> 'z layered_scheme \<Rightarrow> iotc_state \<times> 'z layered_scheme" where
  "do_reconnect context data in_out_state s = IOTC_PROCESS_CLOSE_ON_PREV_LAYER context data in_out_state s"

text \<open>After the yields on the lines 82 and 105.\<close>

definition keepalive_written ::
    "('z mqtt_scheme \<Rightarrow> iotc_state \<times> 'z mqtt_scheme) \<Rightarrow> ptr \<Rightarrow> ptr \<Rightarrow> iotc_state \<Rightarrow> ptr \<Rightarrow> 'z mqtt_scheme \<Rightarrow>
     iotc_state \<times> 'z mqtt_scheme" where
  "keepalive_written next_task context task state msg_memory s =
     (case iotc_evtd_execute_in (make_handle4 fn_keepalive_expiry context task state msg_memory)
             (keepalive_seconds s) task s of
        (st, s1) \<Rightarrow>
          if st \<noteq> IOTC_STATE_OK then keepalive_error next_task task msg_memory st s1
          else (IOTC_STATE_OK, set_cs task 105 s1))"

definition keepalive_answered ::
    "('z mqtt_scheme \<Rightarrow> iotc_state \<times> 'z mqtt_scheme) \<Rightarrow> ptr \<Rightarrow> ptr \<Rightarrow> iotc_state \<Rightarrow> ptr \<Rightarrow> 'z mqtt_scheme \<Rightarrow>
     iotc_state \<times> 'z mqtt_scheme" where
  "keepalive_answered next_task context task state msg_memory s =
     (if state = IOTC_STATE_TIMEOUT then do_reconnect context NULL IOTC_STATE_TIMEOUT (set_cs task 1 s)
      else if state \<noteq> IOTC_STATE_OK then cr_exit next_task task (cancel_task_timeout task s)
      else
        (let s1 = cancel_task_timeout task s
         in if mm_type (mq_msg s1 msg_memory) \<noteq> IOTC_MQTT_TYPE_PINGRESP
            then keepalive_error next_task task msg_memory IOTC_MQTT_LOGIC_WRONG_MESSAGE_RECEIVED s1
            else (case (if cd_connection_state (cx_connection s1) = IOTC_CONNECTION_STATE_OPENED
                        then iotc_evtd_execute_in
                               (iotc_make_handle_argc1 IOTC_THREADID_MAINTHREAD fn_keepalive_once context)
                               (keepalive_seconds s1) (user_data context s1) s1
                        else (IOTC_STATE_OK, s1)) of
              (st, s2) \<Rightarrow>
                if st \<noteq> IOTC_STATE_OK then keepalive_error next_task task msg_memory st s2
                else cr_exit next_task task (free_message msg_memory s2))))"

definition do_mqtt_keepalive_task ::
    "('z mqtt_scheme \<Rightarrow> iotc_state \<times> 'z mqtt_scheme) \<Rightarrow> ptr \<Rightarrow> ptr \<Rightarrow> iotc_state \<Rightarrow> ptr \<Rightarrow> 'z mqtt_scheme \<Rightarrow>
     iotc_state \<times> 'z mqtt_scheme" where
  "do_mqtt_keepalive_task next_task context task state msg_memory s =
     (if user_data context s = NULL then (IOTC_STATE_OK, free_message msg_memory s)
      else if mt_cs (mq_task s task) = 82 then keepalive_written next_task context task state msg_memory s
      else if mt_cs (mq_task s task) = 105 then keepalive_answered next_task context task state msg_memory s
      else
        (case alloc_message s of (p, s1) \<Rightarrow>
           if p = NULL then keepalive_error next_task task NULL IOTC_OUT_OF_MEMORY s1
           else IOTC_PROCESS_PUSH_ON_PREV_LAYER context p IOTC_STATE_OK
                  (set_cs task 82 (put_message p fill_with_pingreq_data s1))))"

definition on_keepalive_timeout_expiry ::
    "('z mqtt_scheme \<Rightarrow> iotc_state \<times> 'z mqtt_scheme) \<Rightarrow> ptr \<Rightarrow> ptr \<Rightarrow> iotc_state \<Rightarrow> ptr \<Rightarrow> 'z mqtt_scheme \<Rightarrow>
     iotc_state \<times> 'z mqtt_scheme" where
  "on_keepalive_timeout_expiry next_task context task state msg_memory s =
     (IOTC_STATE_OK, snd (do_mqtt_keepalive_task next_task context task IOTC_STATE_TIMEOUT msg_memory s))"

section \<open>Shutting down\<close>

definition iotc_mqtt_logic_layer_close ::
    "ptr \<Rightarrow> ptr \<Rightarrow> iotc_state \<Rightarrow> 'z layered_scheme \<Rightarrow> iotc_state \<times> 'z layered_scheme" where
  "iotc_mqtt_logic_layer_close context data in_out_state s =
     (if user_data context s = NULL
      then IOTC_PROCESS_CLOSE_EXTERNALLY_ON_THIS_LAYER context data in_out_state s
      else IOTC_PROCESS_CLOSE_ON_PREV_LAYER context data in_out_state s)"

definition do_shutdown ::
    "('z mqtt_scheme \<Rightarrow> iotc_state \<times> 'z mqtt_scheme) \<Rightarrow> ptr \<Rightarrow> ptr \<Rightarrow> iotc_state \<Rightarrow> ptr \<Rightarrow> 'z mqtt_scheme \<Rightarrow>
     iotc_state \<times> 'z mqtt_scheme" where
  "do_shutdown next_task context task state msg_memory s =
     (if user_data context s = NULL then (IOTC_STATE_OK, free_message msg_memory s)
      else if mt_cs (mq_task s task) = 61 then
        (let s1 = write_task task (\<lambda>t. t\<lparr>mt_data_u := NULL\<rparr>)
                    (on_mem (IOTC_SAFE_FREE (mt_data_u (mq_task s task))) s);
             s2 = snd (iotc_mqtt_logic_layer_close context NULL IOTC_STATE_OK s1)
         in cr_exit next_task task s2)
      else
        (case alloc_message s of (p, s1) \<Rightarrow>
           if p = NULL then (IOTC_OUT_OF_MEMORY, s1)
           else IOTC_PROCESS_PUSH_ON_PREV_LAYER context p IOTC_STATE_OK
                  (set_cs task 61 (put_message p fill_with_disconnect_data s1))))"

section \<open>Received messages\<close>

text \<open>The first handler whose topic filter matches gets the message.\<close>

definition topic_cmp :: "'z mqtt_scheme \<Rightarrow> data_desc option \<Rightarrow> nat \<Rightarrow> bool" where
  "topic_cmp s topic_name e \<longleftrightarrow>
     (if e = NULL then False else match_topics (cstr_bytes (spec_topic (mq_spec s e))) topic_name = 0)"

definition publish_topic :: "mqtt_message \<Rightarrow> data_desc option" where
  "publish_topic msg = (case mm_body msg of Publish_body topic_name message_id content \<Rightarrow> topic_name | _ \<Rightarrow> None)"

definition put_message_args :: "ptr \<Rightarrow> specific_data \<Rightarrow> specific_data" where
  "put_message_args msg d =
     (case d of
        Subscribe_data topic handler qos \<Rightarrow>
          Subscribe_data topic (set_arg 2 (state_arg IOTC_STATE_OK) (set_arg 1 msg handler)) qos
      | _ \<Rightarrow> d)"

definition call_topic_handler :: "ptr \<Rightarrow> 'z mqtt_scheme \<Rightarrow> 'z mqtt_scheme" where
  "call_topic_handler msg_memory s =
     (let handlers = the (ld_handlers (mq_data s));
          index = iotc_vector_find handlers 0
                    (\<lambda>e value. topic_cmp s (publish_topic (mq_msg s msg_memory)) e)
      in if index \<noteq> - 1 then
           (let d = v_elems handlers ! nat index;
                s1 = s\<lparr>mq_spec := (mq_spec s)(d := put_message_args msg_memory (mq_spec s d))\<rparr>
            in snd (iotc_evttd_execute (spec_handler (mq_spec s1 d)) s1))
         else free_message msg_memory s)"

definition on_publish_q0_recieved :: "ptr \<Rightarrow> ptr \<Rightarrow> 'z mqtt_scheme \<Rightarrow> iotc_state \<times> 'z mqtt_scheme" where
  "on_publish_q0_recieved context msg s =
     (if user_data context s = NULL then (IOTC_STATE_OK, free_message msg s)
      else (IOTC_STATE_OK, call_topic_handler msg s))"

text \<open>The task of a received message; its handle keeps the message while the acknowledgement is sent.\<close>

definition make_puback_task :: "ptr \<Rightarrow> ptr \<Rightarrow> 'z mqtt_scheme \<Rightarrow> ptr \<times> 'z mqtt_scheme" where
  "make_puback_task context msg s =
     (let msg_id = iotc_mqtt_get_message_id (mq_msg s msg)
      in case alloc_task s of (task, s1) \<Rightarrow>
           if task = NULL then (NULL, s1)
           else
             (let s2 = write_task task (\<lambda>t. t\<lparr>mt_scenario := IOTC_MQTT_PUBACK, mt_qos := IOTC_MQTT_QOS_AT_LEAST_ONCE,
                         mt_logic := make_handle4 fn_publish_q1_recieved context task IOTC_STATE_OK msg,
                         mt_msg_id := msg_id\<rparr>) s1
              in (task, on_data (\<lambda>d. d\<lparr>ld_q12_recv := ld_q12_recv d @ [task]\<rparr>) s2)))"

definition puback_send :: "ptr \<Rightarrow> ptr \<Rightarrow> 'z mqtt_scheme \<Rightarrow> iotc_state \<times> 'z mqtt_scheme" where
  "puback_send context task s =
     (case alloc_message s of (p, s1) \<Rightarrow>
        if p = NULL then (IOTC_OUT_OF_MEMORY, set_cs task 2 s1)
        else IOTC_PROCESS_PUSH_ON_PREV_LAYER context p IOTC_STATE_OK
               (set_cs task 162 (put_message p (fill_with_puback_data (mt_msg_id (mq_task s1 task))) s1)))"

definition on_publish_q1_recieved ::
    "ptr \<Rightarrow> ptr \<Rightarrow> iotc_state \<Rightarrow> ptr \<Rightarrow> 'z mqtt_scheme \<Rightarrow> iotc_state \<times> 'z mqtt_scheme" where
  "on_publish_q1_recieved context task state msg s =
     (if IOTC_THIS_LAYER_NOT_OPERATIONAL context s \<or> user_data context s = NULL then
        (let s1 = free_message msg s in (state, if task \<noteq> NULL then set_cs task 2 s1 else s1))
      else if task = NULL then
        (case make_puback_task context msg s of (p, s1) \<Rightarrow>
           if p = NULL then (IOTC_OUT_OF_MEMORY, free_message msg s1) else puback_send context p s1)
      else if mt_cs (mq_task s task) = 162 \<and> state = IOTC_STATE_WRITTEN then
        (let s1 = on_data (\<lambda>d. d\<lparr>ld_q12_recv := remove1 task (ld_q12_recv d)\<rparr>) s;
             s2 = iotc_mqtt_logic_free_task task s1
         in (IOTC_STATE_OK, call_topic_handler msg s2))
      else puback_send context task s)"

definition on_publish_recieved :: "ptr \<Rightarrow> ptr \<Rightarrow> iotc_state \<Rightarrow> 'z mqtt_scheme \<Rightarrow> iotc_state \<times> 'z mqtt_scheme" where
  "on_publish_recieved context msg_memory state s =
     (if user_data context s = NULL then (IOTC_STATE_OK, free_message msg_memory s)
      else if mm_qos (mq_msg s msg_memory) = qos_code IOTC_MQTT_QOS_AT_MOST_ONCE
      then on_publish_q0_recieved context msg_memory s
      else if mm_qos (mq_msg s msg_memory) = qos_code IOTC_MQTT_QOS_AT_LEAST_ONCE
      then on_publish_q1_recieved context NULL state msg_memory s
      else (IOTC_STATE_OK, s))"

section \<open>Calling the coroutine of a task\<close>

definition task_function ::
    "('z mqtt_scheme \<Rightarrow> iotc_state \<times> 'z mqtt_scheme) \<Rightarrow> ptr \<Rightarrow> nat list \<Rightarrow> 'z mqtt_scheme \<Rightarrow> iotc_state \<times> 'z mqtt_scheme" where
  "task_function next_task f args s =
     (let c = args ! 0; t = args ! 1; st = arg_state (args ! 2); msg = args ! 3
      in if f = fn_connect then do_mqtt_connect next_task c t st msg s
         else if f = fn_publish_q0 then do_mqtt_publish_q0 next_task c t st msg s
         else if f = fn_publish_q1 then do_mqtt_publish_q1 next_task c t st msg s
         else if f = fn_subscribe then do_mqtt_subscribe next_task c t st msg s
         else if f = fn_keepalive_task then do_mqtt_keepalive_task next_task c t st msg s
         else if f = fn_shutdown then do_shutdown next_task c t st msg s
         else if f = fn_publish_q1_recieved then on_publish_q1_recieved c t st msg s
         else (IOTC_INTERNAL_ERROR, s))"

fun task_call :: "nat \<Rightarrow> ptr \<Rightarrow> nat list \<Rightarrow> 'z mqtt_scheme \<Rightarrow> iotc_state \<times> 'z mqtt_scheme" where
  "task_call 0 f args s = (IOTC_STATE_OK, s\<lparr>ev_spins := True\<rparr>)"
| "task_call (Suc n) f args s =
     task_function (iotc_mqtt_logic_layer_run_next_q0_task (task_call n)) f args s"

end
