(* ===== verification/Iotc_Mqtt_Logic.thy ===== *)
theory Iotc_Mqtt_Logic
  imports Iotc_Mqtt_Task
begin

text \<open>
  The functions of the MQTT logic layer, \<^verbatim>\<open>src/libiotc/mqtt/logic/iotc_mqtt_logic_layer.c\<close> and \<^verbatim>\<open>run_task\<close>
  of \<^verbatim>\<open>..._task_helpers.h\<close>. They run the coroutines of \<^verbatim>\<open>Iotc_Mqtt_Task\<close> with as much fuel as there
  are tasks in the queue for quality of service 0, and one more, which is shown to be enough.
\<close>

definition fn_apply_cooldown :: ptr where "fn_apply_cooldown = 12"

definition task_fuel :: "'z mqtt_scheme \<Rightarrow> nat" where
  "task_fuel s = Suc (length (ld_q0 (mq_data s)))"

definition execute_task :: "ptr \<Rightarrow> 'z mqtt_scheme \<Rightarrow> iotc_state \<times> 'z mqtt_scheme" where
  "execute_task task s = iotc_evtd_execute_handle (task_call (task_fuel s)) (mt_logic (mq_task s task)) s"

definition signal_task :: "ptr \<Rightarrow> iotc_state \<Rightarrow> 'z mqtt_scheme \<Rightarrow> 'z mqtt_scheme" where
  "signal_task task state s =
     snd (execute_task task (write_task task (\<lambda>t. t\<lparr>mt_logic := set_arg 2 (state_arg state) (mt_logic t)\<rparr>) s))"

definition abort_task :: "ptr \<Rightarrow> 'z mqtt_scheme \<Rightarrow> 'z mqtt_scheme" where
  "abort_task task s = signal_task task IOTC_STATE_OK s"

definition resend_task :: "ptr \<Rightarrow> 'z mqtt_scheme \<Rightarrow> 'z mqtt_scheme" where
  "resend_task task s = signal_task task IOTC_STATE_RESEND s"

definition set_new_context_and_call_resend :: "ptr \<Rightarrow> ptr \<Rightarrow> 'z mqtt_scheme \<Rightarrow> 'z mqtt_scheme" where
  "set_new_context_and_call_resend task context s =
     (if mt_session_state (mq_task s task) = IOTC_MQTT_LOGIC_TASK_SESSION_STORE
      then resend_task task (write_task task (\<lambda>t. t\<lparr>mt_logic := set_arg 0 context (mt_logic t)\<rparr>) s)
      else s)"

definition find_task :: "nat \<Rightarrow> ptr list \<Rightarrow> 'z mqtt_scheme \<Rightarrow> ptr" where
  "find_task msg_id queue s =
     (case find (\<lambda>t. mt_msg_id (mq_task s t) = msg_id) queue of None \<Rightarrow> NULL | Some t \<Rightarrow> t)"

section \<open>Running a task\<close>

definition run_task :: "ptr \<Rightarrow> ptr \<Rightarrow> 'z mqtt_scheme \<Rightarrow> iotc_state \<times> 'z mqtt_scheme" where
  "run_task context task s =
     (if mt_qos (mq_task s task) = IOTC_MQTT_QOS_AT_MOST_ONCE then
        (let s1 = (case mt_priority (mq_task s task) of
                     IOTC_MQTT_LOGIC_TASK_NORMAL \<Rightarrow> on_data (\<lambda>d. d\<lparr>ld_q0 := ld_q0 d @ [task]\<rparr>) s
                   | IOTC_MQTT_LOGIC_TASK_IMMEDIATE \<Rightarrow> on_data (\<lambda>d. d\<lparr>ld_q0 := task # ld_q0 d\<rparr>) s)
         in if ld_current_q0 (mq_data s1) = NULL
            then iotc_mqtt_logic_layer_run_next_q0_task (task_call (task_fuel s1)) s1
            else (IOTC_STATE_OK, s1))
      else
        (let msg_id = to_u16 (ld_last_msg_id (mq_data s) + 1);
             s1 = write_task task (\<lambda>t. t\<lparr>mt_msg_id := msg_id\<rparr>) (on_data (\<lambda>d. d\<lparr>ld_last_msg_id := msg_id\<rparr>) s);
             s2 = on_data (\<lambda>d. d\<lparr>ld_q12 := ld_q12 d @ [task]\<rparr>) s1
         in if cd_connection_state (cx_connection s2) = IOTC_CONNECTION_STATE_OPENED
            then execute_task task s2 else (IOTC_STATE_OK, s2)))"

section \<open>Push\<close>

definition push_error :: "ptr \<Rightarrow> iotc_state \<Rightarrow> 'z mqtt_scheme \<Rightarrow> iotc_state \<times> 'z mqtt_scheme" where
  "push_error data in_out_state s =
     (in_out_state,
      if in_out_state = IOTC_STATE_WRITTEN \<or> in_out_state = IOTC_STATE_FAILED_WRITING
      then on_mem (IOTC_SAFE_FREE data) s else iotc_mqtt_logic_free_task data s)"

text \<open>The confirmation that a message has been written, or not; the tuple with its identifier is released first.\<close>

definition push_written :: "ptr \<Rightarrow> ptr \<Rightarrow> iotc_state \<Rightarrow> 'z mqtt_scheme \<Rightarrow> iotc_state \<times> 'z mqtt_scheme" where
  "push_written context data in_out_state s =
     (case mq_written s data of (msg_id, msg_type) \<Rightarrow>
        (let s1 = on_mem (IOTC_SAFE_FREE data) s;
             msg_class = iotc_mqtt_class_msg_type_sending msg_type
         in if msg_id \<noteq> 0 \<and> msg_class = IOTC_MQTT_MESSAGE_CLASS_UNKNOWN
            then push_error data IOTC_MQTT_MESSAGE_CLASS_UNKNOWN_ERROR s1
            else
              (let task_to_be_called =
                     (if msg_id = 0 then ld_current_q0 (mq_data s1)
                      else find_task msg_id (if msg_class = IOTC_MQTT_MESSAGE_CLASS_FROM_SERVER
                             then ld_q12_recv (mq_data s1) else ld_q12 (mq_data s1)) s1)
               in case (if in_out_state = IOTC_STATE_WRITTEN \<and> timeout_set (user_data context s1) s1
                        then iotc_evtd_restart (user_data context s1) (keepalive_seconds s1) s1
                        else (IOTC_STATE_OK, s1)) of
                    (local_state, s2) \<Rightarrow>
                      if local_state \<noteq> IOTC_STATE_OK then push_error data in_out_state s2
                      else if task_to_be_called \<noteq> NULL
                      then execute_task task_to_be_called (write_task task_to_be_called
                             (\<lambda>t. t\<lparr>mt_logic := set_arg 2 (state_arg in_out_state) (mt_logic t)\<rparr>) s2)
                      else (IOTC_MQTT_LOGIC_UNKNOWN_TASK_ID, s2))))"

text \<open>A new task gets its coroutine and is run.\<close>

definition set_logic :: "ptr \<Rightarrow> ptr \<Rightarrow> ptr \<Rightarrow> 'z mqtt_scheme \<Rightarrow> 'z mqtt_scheme" where
  "set_logic f context task =
     write_task task (\<lambda>t. t\<lparr>mt_logic := make_handle4 f context task IOTC_STATE_OK NULL\<rparr>)"

definition push_task :: "ptr \<Rightarrow> ptr \<Rightarrow> 'z mqtt_scheme \<Rightarrow> iotc_state \<times> 'z mqtt_scheme" where
  "push_task context task s =
     (let run = (\<lambda>s. (IOTC_STATE_OK, snd (run_task context task s)));
          current = ld_current_q0 (mq_data s)
      in case mt_scenario (mq_task s task) of
           IOTC_MQTT_CONNECT \<Rightarrow> run (set_logic fn_connect context task s)
         | IOTC_MQTT_PUBLISH \<Rightarrow>
             run (case mt_qos (mq_task s task) of
                    IOTC_MQTT_QOS_AT_MOST_ONCE \<Rightarrow> set_logic fn_publish_q0 context task s
                  | IOTC_MQTT_QOS_AT_LEAST_ONCE \<Rightarrow> set_logic fn_publish_q1 context task s
                  | IOTC_MQTT_QOS_EXACTLY_ONCE \<Rightarrow>
                      if mt_data_u (mq_task s task) \<noteq> NULL then iotc_mqtt_logic_free_task_data task s else s)
         | IOTC_MQTT_SUBSCRIBE \<Rightarrow> run (set_logic fn_subscribe context task s)
         | IOTC_MQTT_KEEPALIVE \<Rightarrow> run (set_logic fn_keepalive_task context task s)
         | IOTC_MQTT_SHUTDOWN \<Rightarrow>
             if current \<noteq> NULL \<and> mt_scenario (mq_task s current) = IOTC_MQTT_SHUTDOWN
             then (IOTC_STATE_OK, iotc_mqtt_logic_free_task task s)
             else run (set_logic fn_shutdown context task s)
         | IOTC_MQTT_PUBACK \<Rightarrow> (IOTC_MQTT_LOGIC_WRONG_SCENARIO_TYPE, s))"

definition iotc_mqtt_logic_layer_push ::
    "ptr \<Rightarrow> ptr \<Rightarrow> iotc_state \<Rightarrow> 'z mqtt_scheme \<Rightarrow> iotc_state \<times> 'z mqtt_scheme" where
  "iotc_mqtt_logic_layer_push context data in_out_state s =
     (if IOTC_THIS_LAYER_NOT_OPERATIONAL context s \<or> user_data context s = NULL
      then push_error data in_out_state s
      else if iotc_backoff_classify_state in_out_state = IOTC_BACKOFF_CLASS_TERMINAL
      then push_error data in_out_state
             (snd (IOTC_PROCESS_CLOSE_ON_THIS_LAYER context NULL IOTC_BACKOFF_TERMINAL s))
      else if in_out_state = IOTC_STATE_WRITTEN \<or> in_out_state = IOTC_STATE_FAILED_WRITING
      then push_written context data in_out_state s
      else push_task context data s)"

text \<open>The timer of the keepalive.\<close>

definition do_mqtt_keepalive_once :: "ptr \<Rightarrow> 'z mqtt_scheme \<Rightarrow> iotc_state \<times> 'z mqtt_scheme" where
  "do_mqtt_keepalive_once context s =
     (if user_data context s = NULL then (IOTC_STATE_OK, s)
      else
        (let s1 = s\<lparr>ev_te := (ev_te s)\<lparr>te_hnd := (te_hnd (ev_te s))(user_data context s := NULL)\<rparr>\<rparr>
         in case alloc_task s1 of (task, s2) \<Rightarrow>
              if task = NULL then (IOTC_OUT_OF_MEMORY, s2)
              else iotc_mqtt_logic_layer_push context task IOTC_STATE_OK
                     (write_task task (\<lambda>t. t\<lparr>mt_scenario := IOTC_MQTT_KEEPALIVE,
                        mt_qos := IOTC_MQTT_QOS_AT_MOST_ONCE\<rparr>) s2)))"

section \<open>Pull\<close>

definition pull_error :: "ptr \<Rightarrow> iotc_state \<Rightarrow> 'z mqtt_scheme \<Rightarrow> iotc_state \<times> 'z mqtt_scheme" where
  "pull_error recvd_msg in_out_state s = (in_out_state, free_message recvd_msg s)"

definition deliver :: "ptr \<Rightarrow> ptr \<Rightarrow> iotc_state \<Rightarrow> 'z mqtt_scheme \<Rightarrow> iotc_state \<times> 'z mqtt_scheme" where
  "deliver task recvd_msg in_out_state s =
     execute_task task (write_task task
       (\<lambda>t. t\<lparr>mt_logic := set_arg 3 recvd_msg (set_arg 2 (state_arg in_out_state) (mt_logic t))\<rparr>) s)"

definition pull_message :: "ptr \<Rightarrow> ptr \<Rightarrow> iotc_state \<Rightarrow> 'z mqtt_scheme \<Rightarrow> iotc_state \<times> 'z mqtt_scheme" where
  "pull_message context recvd_msg in_out_state s =
     (let msg = mq_msg s recvd_msg; msg_id = iotc_mqtt_get_message_id msg
      in if mm_type msg = IOTC_MQTT_TYPE_PUBLISH then on_publish_recieved context recvd_msg IOTC_STATE_OK s
         else if msg_id > 0 then
           (case iotc_mqtt_class_msg_type_receiving (mm_type msg) of
              IOTC_MQTT_MESSAGE_CLASS_UNKNOWN \<Rightarrow> pull_error recvd_msg IOTC_MQTT_MESSAGE_CLASS_UNKNOWN_ERROR s
            | msg_class \<Rightarrow>
                (let task = find_task msg_id (if msg_class = IOTC_MQTT_MESSAGE_CLASS_FROM_SERVER
                       then ld_q12_recv (mq_data s) else ld_q12 (mq_data s)) s
                 in if task \<noteq> NULL then deliver task recvd_msg in_out_state s
                    else (IOTC_MQTT_UNKNOWN_MESSAGE_ID, free_message recvd_msg s)))
         else deliver (ld_current_q0 (mq_data s)) recvd_msg in_out_state s)"

definition iotc_mqtt_logic_layer_pull ::
    "ptr \<Rightarrow> ptr \<Rightarrow> iotc_state \<Rightarrow> 'z mqtt_scheme \<Rightarrow> iotc_state \<times> 'z mqtt_scheme" where
  "iotc_mqtt_logic_layer_pull context recvd_msg in_out_state s =
     (if IOTC_THIS_LAYER_NOT_OPERATIONAL context s \<or> user_data context s = NULL
      then pull_error recvd_msg in_out_state s
      else
        (case iotc_update_backoff_penalty fn_apply_cooldown in_out_state (gl_backoff s) s of
           (cls, b, s0) \<Rightarrow>
             (let s1 = s0\<lparr>gl_backoff := b\<rparr>
              in if cls = IOTC_BACKOFF_CLASS_TERMINAL
                 then pull_error recvd_msg in_out_state
                        (snd (IOTC_PROCESS_CLOSE_ON_THIS_LAYER context NULL IOTC_BACKOFF_TERMINAL s1))
                 else if in_out_state = IOTC_STATE_OK then pull_message context recvd_msg in_out_state s1
                 else pull_error recvd_msg in_out_state s1)))"

section \<open>Starting and ending a connection\<close>

fun iotc_mqtt_logic_task_queue_shutdown :: "ptr list \<Rightarrow> 'z mqtt_scheme \<Rightarrow> 'z mqtt_scheme" where
  "iotc_mqtt_logic_task_queue_shutdown [] s = s"
| "iotc_mqtt_logic_task_queue_shutdown (task # queue) s =
     iotc_mqtt_logic_task_queue_shutdown queue (iotc_mqtt_logic_free_task task s)"

definition set_user_data :: "ptr \<Rightarrow> ptr \<Rightarrow> 'z layered_scheme \<Rightarrow> 'z layered_scheme" where
  "set_user_data context p s =
     s\<lparr>ly_at := (ly_at s)(context := (ly_at s context)\<lparr>ly_user_data := p\<rparr>)\<rparr>"

definition free_user_data :: "ptr \<Rightarrow> 'z layered_scheme \<Rightarrow> 'z layered_scheme" where
  "free_user_data context s = set_user_data context NULL (on_mem (IOTC_SAFE_FREE (user_data context s)) s)"

text \<open>Releasing the handlers of the topics, then their vector.\<close>

definition free_handlers :: "vec option \<Rightarrow> 'z mqtt_scheme \<Rightarrow> 'z mqtt_scheme" where
  "free_handlers handlers s =
     (case handlers of None \<Rightarrow> s
      | Some v \<Rightarrow>
          (case iotc_vector_for_each v iotc_mqtt_task_spec_data_free_subscribe_data_vec s 0 of
             (v1, s1) \<Rightarrow> on_mem (iotc_vector_destroy v1) s1))"

definition alloc_layer_data :: "ptr \<Rightarrow> 'z mqtt_scheme \<Rightarrow> bool \<times> 'z mqtt_scheme" where
  "alloc_layer_data context s =
     (if user_data context s \<noteq> NULL then (True, s)
      else
        (case iotc_alloc sizeof_logic_layer_data (ev_mem s) of (p, m) \<Rightarrow>
           if p = NULL then (False, s\<lparr>ev_mem := m\<rparr>)
           else (True, set_user_data context p
                  (s\<lparr>ev_mem := m, ev_te := (ev_te s)\<lparr>te_hnd := (te_hnd (ev_te s))(p := NULL)\<rparr>,
                     mq_data := zeroed_logic_data, cx_copy_dtor := fn_queue_shutdown_wrap\<rparr>))))"

definition restore_session :: "'z mqtt_scheme \<Rightarrow> 'z mqtt_scheme" where
  "restore_session s =
     (if cd_session_type (cx_connection s) = IOTC_SESSION_CONTINUE then
        s\<lparr>mq_data := (mq_data s)\<lparr>ld_handlers := cx_copy_handlers s, ld_q12 := cx_copy_q12 s,
             ld_last_msg_id := cx_copy_last_msg_id s\<rparr>,
          cx_copy_handlers := None, cx_copy_q12 := [], cx_copy_last_msg_id := 0\<rparr>
      else
        (let s1 = (free_handlers (cx_copy_handlers s) s)\<lparr>cx_copy_handlers := None\<rparr>
         in (iotc_mqtt_logic_task_queue_shutdown (cx_copy_q12 s1) s1)\<lparr>cx_copy_q12 := []\<rparr>))"

definition ensure_handlers :: "'z mqtt_scheme \<Rightarrow> 'z mqtt_scheme" where
  "ensure_handlers s =
     (if ld_handlers (mq_data s) = None then
        (case iotc_vector_create (ev_mem s) of
           (v, m) \<Rightarrow> on_data (\<lambda>d. d\<lparr>ld_handlers := v\<rparr>) (s\<lparr>ev_mem := m\<rparr>))
      else s)"

definition set_connection_state :: "connection_state \<Rightarrow> 'z mqtt_scheme \<Rightarrow> 'z mqtt_scheme" where
  "set_connection_state st s = s\<lparr>cx_connection := (cx_connection s)\<lparr>cd_connection_state := st\<rparr>\<rparr>"

definition iotc_mqtt_logic_layer_init ::
    "ptr \<Rightarrow> ptr \<Rightarrow> iotc_state \<Rightarrow> 'z mqtt_scheme \<Rightarrow> iotc_state \<times> 'z mqtt_scheme" where
  "iotc_mqtt_logic_layer_init context data in_out_state s =
     (case alloc_layer_data context s of (ok, s1) \<Rightarrow>
        if \<not> ok then (IOTC_OUT_OF_MEMORY, free_user_data context s1)
        else
          (let s2 = ensure_handlers (restore_session s1)
           in if ld_handlers (mq_data s2) = None then (IOTC_OUT_OF_MEMORY, free_user_data context s2)
              else IOTC_PROCESS_INIT_ON_PREV_LAYER context data in_out_state
                     (set_connection_state IOTC_CONNECTION_STATE_OPENING s2)))"

definition iotc_mqtt_logic_layer_connect ::
    "ptr \<Rightarrow> ptr \<Rightarrow> iotc_state \<Rightarrow> 'z mqtt_scheme \<Rightarrow> iotc_state \<times> 'z mqtt_scheme" where
  "iotc_mqtt_logic_layer_connect context data in_out_state s =
     (if in_out_state \<noteq> IOTC_STATE_OK then IOTC_PROCESS_CONNECT_ON_NEXT_LAYER context data in_out_state s
      else
        (case alloc_task s of (task, s1) \<Rightarrow>
           if task = NULL then (IOTC_OUT_OF_MEMORY, s1)
           else iotc_mqtt_logic_layer_push context task IOTC_STATE_OK
                  (write_task task (\<lambda>t. t\<lparr>mt_scenario := IOTC_MQTT_CONNECT,
                     mt_qos := IOTC_MQTT_QOS_AT_MOST_ONCE, mt_priority := IOTC_MQTT_LOGIC_TASK_IMMEDIATE\<rparr>) s1)))"

definition iotc_mqtt_logic_layer_post_connect ::
    "ptr \<Rightarrow> ptr \<Rightarrow> iotc_state \<Rightarrow> 'z mqtt_scheme \<Rightarrow> iotc_state \<times> 'z mqtt_scheme" where
  "iotc_mqtt_logic_layer_post_connect context data in_out_state s =
     (if user_data context s = NULL then (in_out_state, s)
      else iotc_layer_default_post_connect context data in_out_state
             (fold (\<lambda>task. set_new_context_and_call_resend task context) (ld_q12 (mq_data s)) s))"

definition should_be_stored :: "mqtt_task \<Rightarrow> bool" where
  "should_be_stored t \<longleftrightarrow> mt_session_state t = IOTC_MQTT_LOGIC_TASK_SESSION_STORE"

definition make_context_null :: "ptr \<Rightarrow> 'z mqtt_scheme \<Rightarrow> 'z mqtt_scheme" where
  "make_context_null task = write_task task (\<lambda>t. t\<lparr>mt_logic := set_arg 0 NULL (mt_logic t)\<rparr>)"

text \<open>What the context keeps for a session that is continued later.\<close>

definition save_session :: "'z mqtt_scheme \<Rightarrow> 'z mqtt_scheme" where
  "save_session s =
     (if cd_session_type (cx_connection s) = IOTC_SESSION_CONTINUE then
        (let s1 = s\<lparr>cx_copy_last_msg_id := ld_last_msg_id (mq_data s)\<rparr>;
             s2 = (case ld_handlers (mq_data s1) of
                     None \<Rightarrow> s1
                   | Some v \<Rightarrow>
                       if v_elem_no v > 0
                       then on_data (\<lambda>d. d\<lparr>ld_handlers := None\<rparr>) (s1\<lparr>cx_copy_handlers := Some v\<rparr>) else s1);
             stored = (\<lambda>t. should_be_stored (mq_task s2 t));
             unacked_list = filter stored (ld_q12 (mq_data s2));
             s3 = on_data (\<lambda>d. d\<lparr>ld_q12 := filter (\<lambda>t. \<not> stored t) (ld_q12 d)\<rparr>)
                    (s2\<lparr>cx_copy_q12 := unacked_list\<rparr>)
         in fold make_context_null unacked_list s3)
      else s)"

text \<open>The current task is told of a timeout, which makes it release what it holds, and is freed.\<close>

definition stop_current :: "'z mqtt_scheme \<Rightarrow> 'z mqtt_scheme" where
  "stop_current s =
     (let current = ld_current_q0 (mq_data s)
      in if current \<noteq> NULL then
           (let s1 = (if timeout_set current s then snd (iotc_evtd_cancel current s) else s);
                s2 = signal_task current IOTC_STATE_TIMEOUT s1
            in on_data (\<lambda>d. d\<lparr>ld_current_q0 := NULL\<rparr>) (iotc_mqtt_logic_free_task (ld_current_q0 (mq_data s2)) s2))
         else s)"

definition cancel_timeouts :: "'z mqtt_scheme \<Rightarrow> 'z mqtt_scheme" where
  "cancel_timeouts s =
     (let s1 = fold cancel_task_timeout (ld_q12 (mq_data s)) s
      in fold cancel_task_timeout (ld_q12_recv (mq_data s1)) s1)"

text \<open>The keepalive event is cancelled and the layer's data are released; then the tasks that were left in the queues.\<close>

definition release_layer :: "ptr \<Rightarrow> 'z mqtt_scheme \<Rightarrow> 'z mqtt_scheme" where
  "release_layer context s =
     (let s1 = (if timeout_set (user_data context s) s
                then snd (iotc_evtd_cancel (user_data context s) s) else s);
          d = mq_data s1;
          s2 = free_user_data context s1;
          s3 = iotc_mqtt_logic_task_queue_shutdown (ld_q12 d) s2;
          s4 = iotc_mqtt_logic_task_queue_shutdown (ld_q12_recv d) s3;
          s5 = (if ld_current_q0 d \<noteq> NULL
                then iotc_mqtt_logic_free_task (ld_current_q0 d) (abort_task (ld_current_q0 d) s4) else s4)
      in iotc_mqtt_logic_task_queue_shutdown (ld_q0 d) s5)"

definition iotc_mqtt_logic_layer_close_externally ::
    "ptr \<Rightarrow> ptr \<Rightarrow> iotc_state \<Rightarrow> 'z mqtt_scheme \<Rightarrow> iotc_state \<times> 'z mqtt_scheme" where
  "iotc_mqtt_logic_layer_close_externally context data in_out_state s =
     (if in_out_state \<noteq> IOTC_STATE_OK \<and> ly_state (ly_at s context) = IOTC_LAYER_STATE_CONNECTING
      then IOTC_PROCESS_CONNECT_ON_THIS_LAYER context data in_out_state s
      else if user_data context s = NULL
      then IOTC_PROCESS_CLOSE_EXTERNALLY_ON_NEXT_LAYER context data in_out_state s
      else
        (case iotc_update_backoff_penalty fn_apply_cooldown in_out_state (gl_backoff s) s of
           (cls, b, s0) \<Rightarrow>
             (let s1 = save_session (cancel_timeouts (s0\<lparr>gl_backoff := b\<rparr>));
                  s2 = free_handlers (ld_handlers (mq_data s1)) s1;
                  s3 = release_layer context (stop_current s2)
              in IOTC_PROCESS_CLOSE_EXTERNALLY_ON_NEXT_LAYER context data in_out_state s3)))"

section \<open>The functions by their addresses\<close>

text \<open>
  What a function of the layer does when the dispatcher calls it; \<open>fs\<close> are the addresses of the functions of the
  layer, \<open>others\<close> the functions of the rest of the program.
\<close>

definition next_q0_task :: "'z mqtt_scheme \<Rightarrow> iotc_state \<times> 'z mqtt_scheme" where
  "next_q0_task s = iotc_mqtt_logic_layer_run_next_q0_task (task_call (task_fuel s)) s"

type_synonym 'z mqtt_caller = "ptr \<Rightarrow> nat list \<Rightarrow> 'z mqtt_scheme \<Rightarrow> iotc_state \<times> 'z mqtt_scheme"

definition logic_call :: "layer_interface \<Rightarrow> 'z mqtt_caller \<Rightarrow> 'z mqtt_caller" where
  "logic_call fs others f args s =
     (let c = args ! 0; d = args ! 1; st = arg_state (args ! 2)
      in if f = lf_push fs then iotc_mqtt_logic_layer_push c d st s
         else if f = lf_pull fs then iotc_mqtt_logic_layer_pull c d st s
         else if f = lf_init fs then iotc_mqtt_logic_layer_init c d st s
         else if f = lf_connect fs then iotc_mqtt_logic_layer_connect c d st s
         else if f = lf_post_connect fs then iotc_mqtt_logic_layer_post_connect c d st s
         else if f = lf_close fs then iotc_mqtt_logic_layer_close c d st s
         else if f = lf_close_externally fs then iotc_mqtt_logic_layer_close_externally c d st s
         else if f = fn_connect_timeout then do_mqtt_connect_timeout next_q0_task c d s
         else if f = fn_keepalive_once then do_mqtt_keepalive_once c s
         else if f = fn_keepalive_expiry
         then on_keepalive_timeout_expiry next_q0_task c d st (args ! 3) s
         else if f \<in> {fn_connect, fn_publish_q0, fn_publish_q1, fn_subscribe, fn_keepalive_task, fn_shutdown,
                       fn_publish_q1_recieved}
         then task_call (task_fuel s) f args s
         else others f args s)"

end
