(* ===== verification/Iotc_Mqtt_Fuel.thy ===== *)
theory Iotc_Mqtt_Fuel
  imports Iotc_Mqtt_Logic
begin

text \<open>
  What the operations on tasks and messages leave alone, and that the fuel of the coroutines is enough: a coroutine only
  starts another one through the queue for quality of service 0, which then is shorter.
\<close>

named_theorems frame \<open>which fields an operation does not change\<close>

section \<open>Frames\<close>

lemma frame_execute_in [frame]:
    "mq_task (snd (iotc_evtd_execute_in h t p s)) = mq_task s"
    "mq_spec (snd (iotc_evtd_execute_in h t p s)) = mq_spec s"
    "mq_msg (snd (iotc_evtd_execute_in h t p s)) = mq_msg s"
    "mq_written (snd (iotc_evtd_execute_in h t p s)) = mq_written s"
    "mq_data (snd (iotc_evtd_execute_in h t p s)) = mq_data s"
    "cx_copy_handlers (snd (iotc_evtd_execute_in h t p s)) = cx_copy_handlers s"
    "cx_copy_q12 (snd (iotc_evtd_execute_in h t p s)) = cx_copy_q12 s"
    "cx_copy_dtor (snd (iotc_evtd_execute_in h t p s)) = cx_copy_dtor s"
    "cx_copy_last_msg_id (snd (iotc_evtd_execute_in h t p s)) = cx_copy_last_msg_id s"
    "cx_connection (snd (iotc_evtd_execute_in h t p s)) = cx_connection s"
    "gl_backoff (snd (iotc_evtd_execute_in h t p s)) = gl_backoff s"
    "ly_at (snd (iotc_evtd_execute_in h t p s)) = ly_at s"
    "ctx_io_timeouts (snd (iotc_evtd_execute_in h t p s)) = ctx_io_timeouts s"
  by (simp_all add: iotc_evtd_execute_in_def Let_def iotc_lock_critical_section_def iotc_unlock_critical_section_def split: prod.splits)

lemma frame_cancel [frame]:
    "mq_task (snd (iotc_evtd_cancel p s)) = mq_task s"
    "mq_spec (snd (iotc_evtd_cancel p s)) = mq_spec s"
    "mq_msg (snd (iotc_evtd_cancel p s)) = mq_msg s"
    "mq_written (snd (iotc_evtd_cancel p s)) = mq_written s"
    "mq_data (snd (iotc_evtd_cancel p s)) = mq_data s"
    "cx_copy_handlers (snd (iotc_evtd_cancel p s)) = cx_copy_handlers s"
    "cx_copy_q12 (snd (iotc_evtd_cancel p s)) = cx_copy_q12 s"
    "cx_copy_dtor (snd (iotc_evtd_cancel p s)) = cx_copy_dtor s"
    "cx_copy_last_msg_id (snd (iotc_evtd_cancel p s)) = cx_copy_last_msg_id s"
    "cx_connection (snd (iotc_evtd_cancel p s)) = cx_connection s"
    "gl_backoff (snd (iotc_evtd_cancel p s)) = gl_backoff s"
    "ly_at (snd (iotc_evtd_cancel p s)) = ly_at s"
    "ctx_io_timeouts (snd (iotc_evtd_cancel p s)) = ctx_io_timeouts s"
  by (simp_all add: iotc_evtd_cancel_def Let_def iotc_lock_critical_section_def iotc_unlock_critical_section_def split: prod.splits)

lemma frame_restart [frame]:
    "mq_task (snd (iotc_evtd_restart p t s)) = mq_task s"
    "mq_spec (snd (iotc_evtd_restart p t s)) = mq_spec s"
    "mq_msg (snd (iotc_evtd_restart p t s)) = mq_msg s"
    "mq_written (snd (iotc_evtd_restart p t s)) = mq_written s"
    "mq_data (snd (iotc_evtd_restart p t s)) = mq_data s"
    "cx_copy_handlers (snd (iotc_evtd_restart p t s)) = cx_copy_handlers s"
    "cx_copy_q12 (snd (iotc_evtd_restart p t s)) = cx_copy_q12 s"
    "cx_copy_dtor (snd (iotc_evtd_restart p t s)) = cx_copy_dtor s"
    "cx_copy_last_msg_id (snd (iotc_evtd_restart p t s)) = cx_copy_last_msg_id s"
    "cx_connection (snd (iotc_evtd_restart p t s)) = cx_connection s"
    "gl_backoff (snd (iotc_evtd_restart p t s)) = gl_backoff s"
    "ly_at (snd (iotc_evtd_restart p t s)) = ly_at s"
    "ctx_io_timeouts (snd (iotc_evtd_restart p t s)) = ctx_io_timeouts s"
  by (simp_all add: iotc_evtd_restart_def Let_def iotc_lock_critical_section_def iotc_unlock_critical_section_def split: prod.splits)

lemma frame_execute [frame]:
    "mq_task (snd (iotc_evttd_execute h s)) = mq_task s"
    "mq_spec (snd (iotc_evttd_execute h s)) = mq_spec s"
    "mq_msg (snd (iotc_evttd_execute h s)) = mq_msg s"
    "mq_written (snd (iotc_evttd_execute h s)) = mq_written s"
    "mq_data (snd (iotc_evttd_execute h s)) = mq_data s"
    "cx_copy_handlers (snd (iotc_evttd_execute h s)) = cx_copy_handlers s"
    "cx_copy_q12 (snd (iotc_evttd_execute h s)) = cx_copy_q12 s"
    "cx_copy_dtor (snd (iotc_evttd_execute h s)) = cx_copy_dtor s"
    "cx_copy_last_msg_id (snd (iotc_evttd_execute h s)) = cx_copy_last_msg_id s"
    "cx_connection (snd (iotc_evttd_execute h s)) = cx_connection s"
    "gl_backoff (snd (iotc_evttd_execute h s)) = gl_backoff s"
    "ly_at (snd (iotc_evttd_execute h s)) = ly_at s"
    "ctx_io_timeouts (snd (iotc_evttd_execute h s)) = ctx_io_timeouts s"
  by (simp_all add: iotc_evttd_execute_def iotc_evtd_execute_def Let_def iotc_lock_critical_section_def iotc_unlock_critical_section_def split: prod.splits option.splits)

lemma frame_on_mem [frame]:
    "mq_task (on_mem f s) = mq_task s"
    "mq_spec (on_mem f s) = mq_spec s"
    "mq_msg (on_mem f s) = mq_msg s"
    "mq_written (on_mem f s) = mq_written s"
    "mq_data (on_mem f s) = mq_data s"
    "cx_copy_handlers (on_mem f s) = cx_copy_handlers s"
    "cx_copy_q12 (on_mem f s) = cx_copy_q12 s"
    "cx_copy_dtor (on_mem f s) = cx_copy_dtor s"
    "cx_copy_last_msg_id (on_mem f s) = cx_copy_last_msg_id s"
    "cx_connection (on_mem f s) = cx_connection s"
    "gl_backoff (on_mem f s) = gl_backoff s"
    "ly_at (on_mem f s) = ly_at s"
    "ctx_io_timeouts (on_mem f s) = ctx_io_timeouts s"
  by (simp_all add: on_mem_def)

lemma frame_timeouts_remove [frame]:
    "mq_task (iotc_io_timeouts_remove p s) = mq_task s"
    "mq_spec (iotc_io_timeouts_remove p s) = mq_spec s"
    "mq_msg (iotc_io_timeouts_remove p s) = mq_msg s"
    "mq_written (iotc_io_timeouts_remove p s) = mq_written s"
    "mq_data (iotc_io_timeouts_remove p s) = mq_data s"
    "cx_copy_handlers (iotc_io_timeouts_remove p s) = cx_copy_handlers s"
    "cx_copy_q12 (iotc_io_timeouts_remove p s) = cx_copy_q12 s"
    "cx_copy_dtor (iotc_io_timeouts_remove p s) = cx_copy_dtor s"
    "cx_copy_last_msg_id (iotc_io_timeouts_remove p s) = cx_copy_last_msg_id s"
    "cx_connection (iotc_io_timeouts_remove p s) = cx_connection s"
    "gl_backoff (iotc_io_timeouts_remove p s) = gl_backoff s"
    "ly_at (iotc_io_timeouts_remove p s) = ly_at s"
  by (simp_all add: iotc_io_timeouts_remove_def Let_def)

lemma frame_timeouts_create [frame]:
    "mq_task (snd (iotc_io_timeouts_create h t p s)) = mq_task s"
    "mq_spec (snd (iotc_io_timeouts_create h t p s)) = mq_spec s"
    "mq_msg (snd (iotc_io_timeouts_create h t p s)) = mq_msg s"
    "mq_written (snd (iotc_io_timeouts_create h t p s)) = mq_written s"
    "mq_data (snd (iotc_io_timeouts_create h t p s)) = mq_data s"
    "cx_copy_handlers (snd (iotc_io_timeouts_create h t p s)) = cx_copy_handlers s"
    "cx_copy_q12 (snd (iotc_io_timeouts_create h t p s)) = cx_copy_q12 s"
    "cx_copy_dtor (snd (iotc_io_timeouts_create h t p s)) = cx_copy_dtor s"
    "cx_copy_last_msg_id (snd (iotc_io_timeouts_create h t p s)) = cx_copy_last_msg_id s"
    "cx_connection (snd (iotc_io_timeouts_create h t p s)) = cx_connection s"
    "gl_backoff (snd (iotc_io_timeouts_create h t p s)) = gl_backoff s"
    "ly_at (snd (iotc_io_timeouts_create h t p s)) = ly_at s"
  by (simp_all add: iotc_io_timeouts_create_def Let_def case_prod_beta frame)

lemma frame_timeouts_cancel [frame]:
    "mq_task (iotc_io_timeouts_cancel p s) = mq_task s"
    "mq_spec (iotc_io_timeouts_cancel p s) = mq_spec s"
    "mq_msg (iotc_io_timeouts_cancel p s) = mq_msg s"
    "mq_written (iotc_io_timeouts_cancel p s) = mq_written s"
    "mq_data (iotc_io_timeouts_cancel p s) = mq_data s"
    "cx_copy_handlers (iotc_io_timeouts_cancel p s) = cx_copy_handlers s"
    "cx_copy_q12 (iotc_io_timeouts_cancel p s) = cx_copy_q12 s"
    "cx_copy_dtor (iotc_io_timeouts_cancel p s) = cx_copy_dtor s"
    "cx_copy_last_msg_id (iotc_io_timeouts_cancel p s) = cx_copy_last_msg_id s"
    "cx_connection (iotc_io_timeouts_cancel p s) = cx_connection s"
    "gl_backoff (iotc_io_timeouts_cancel p s) = gl_backoff s"
    "ly_at (iotc_io_timeouts_cancel p s) = ly_at s"
  by (simp_all add: iotc_io_timeouts_cancel_def Let_def frame)

lemma frame_continue [frame]:
    "mq_task (snd (IOTC_LAYER_CONTINUE_WITH dir f c d st s)) = mq_task s"
    "mq_spec (snd (IOTC_LAYER_CONTINUE_WITH dir f c d st s)) = mq_spec s"
    "mq_msg (snd (IOTC_LAYER_CONTINUE_WITH dir f c d st s)) = mq_msg s"
    "mq_written (snd (IOTC_LAYER_CONTINUE_WITH dir f c d st s)) = mq_written s"
    "mq_data (snd (IOTC_LAYER_CONTINUE_WITH dir f c d st s)) = mq_data s"
    "cx_copy_handlers (snd (IOTC_LAYER_CONTINUE_WITH dir f c d st s)) = cx_copy_handlers s"
    "cx_copy_q12 (snd (IOTC_LAYER_CONTINUE_WITH dir f c d st s)) = cx_copy_q12 s"
    "cx_copy_dtor (snd (IOTC_LAYER_CONTINUE_WITH dir f c d st s)) = cx_copy_dtor s"
    "cx_copy_last_msg_id (snd (IOTC_LAYER_CONTINUE_WITH dir f c d st s)) = cx_copy_last_msg_id s"
    "cx_connection (snd (IOTC_LAYER_CONTINUE_WITH dir f c d st s)) = cx_connection s"
    "gl_backoff (snd (IOTC_LAYER_CONTINUE_WITH dir f c d st s)) = gl_backoff s"
    "ctx_io_timeouts (snd (IOTC_LAYER_CONTINUE_WITH dir f c d st s)) = ctx_io_timeouts s"
  by (simp_all add: IOTC_LAYER_CONTINUE_WITH_def iotc_layer_continue_with_impl_def Let_def case_prod_beta frame)

lemma frame_cancel_task [frame]:
    "mq_task (cancel_task_timeout p s) = mq_task s"
    "mq_spec (cancel_task_timeout p s) = mq_spec s"
    "mq_msg (cancel_task_timeout p s) = mq_msg s"
    "mq_written (cancel_task_timeout p s) = mq_written s"
    "mq_data (cancel_task_timeout p s) = mq_data s"
    "cx_copy_handlers (cancel_task_timeout p s) = cx_copy_handlers s"
    "cx_copy_q12 (cancel_task_timeout p s) = cx_copy_q12 s"
    "cx_copy_dtor (cancel_task_timeout p s) = cx_copy_dtor s"
    "cx_copy_last_msg_id (cancel_task_timeout p s) = cx_copy_last_msg_id s"
    "cx_connection (cancel_task_timeout p s) = cx_connection s"
    "gl_backoff (cancel_task_timeout p s) = gl_backoff s"
    "ly_at (cancel_task_timeout p s) = ly_at s"
  by (simp_all add: cancel_task_timeout_def frame)

lemma frame_cancel_connect [frame]:
    "mq_task (cancel_connect_timeout p s) = mq_task s"
    "mq_spec (cancel_connect_timeout p s) = mq_spec s"
    "mq_msg (cancel_connect_timeout p s) = mq_msg s"
    "mq_written (cancel_connect_timeout p s) = mq_written s"
    "mq_data (cancel_connect_timeout p s) = mq_data s"
    "cx_copy_handlers (cancel_connect_timeout p s) = cx_copy_handlers s"
    "cx_copy_q12 (cancel_connect_timeout p s) = cx_copy_q12 s"
    "cx_copy_dtor (cancel_connect_timeout p s) = cx_copy_dtor s"
    "cx_copy_last_msg_id (cancel_connect_timeout p s) = cx_copy_last_msg_id s"
    "cx_connection (cancel_connect_timeout p s) = cx_connection s"
    "gl_backoff (cancel_connect_timeout p s) = gl_backoff s"
    "ly_at (cancel_connect_timeout p s) = ly_at s"
  by (simp_all add: cancel_connect_timeout_def frame)

lemma frame_write_task [frame]:
    "mq_spec (write_task p f s) = mq_spec s"
    "mq_msg (write_task p f s) = mq_msg s"
    "mq_written (write_task p f s) = mq_written s"
    "mq_data (write_task p f s) = mq_data s"
    "cx_copy_handlers (write_task p f s) = cx_copy_handlers s"
    "cx_copy_q12 (write_task p f s) = cx_copy_q12 s"
    "cx_copy_dtor (write_task p f s) = cx_copy_dtor s"
    "cx_copy_last_msg_id (write_task p f s) = cx_copy_last_msg_id s"
    "cx_connection (write_task p f s) = cx_connection s"
    "gl_backoff (write_task p f s) = gl_backoff s"
    "ly_at (write_task p f s) = ly_at s"
    "ctx_io_timeouts (write_task p f s) = ctx_io_timeouts s"
  by (simp_all add: write_task_def Let_def frame)

lemma frame_alloc_message [frame]:
    "mq_task (snd (alloc_message s)) = mq_task s"
    "mq_spec (snd (alloc_message s)) = mq_spec s"
    "mq_written (snd (alloc_message s)) = mq_written s"
    "mq_data (snd (alloc_message s)) = mq_data s"
    "cx_copy_handlers (snd (alloc_message s)) = cx_copy_handlers s"
    "cx_copy_q12 (snd (alloc_message s)) = cx_copy_q12 s"
    "cx_copy_dtor (snd (alloc_message s)) = cx_copy_dtor s"
    "cx_copy_last_msg_id (snd (alloc_message s)) = cx_copy_last_msg_id s"
    "cx_connection (snd (alloc_message s)) = cx_connection s"
    "gl_backoff (snd (alloc_message s)) = gl_backoff s"
    "ly_at (snd (alloc_message s)) = ly_at s"
    "ctx_io_timeouts (snd (alloc_message s)) = ctx_io_timeouts s"
  by (simp_all add: alloc_message_def split: prod.splits)

lemma frame_put_message [frame]:
    "mq_task (put_message p msg s) = mq_task s"
    "mq_spec (put_message p msg s) = mq_spec s"
    "mq_written (put_message p msg s) = mq_written s"
    "mq_data (put_message p msg s) = mq_data s"
    "cx_copy_handlers (put_message p msg s) = cx_copy_handlers s"
    "cx_copy_q12 (put_message p msg s) = cx_copy_q12 s"
    "cx_copy_dtor (put_message p msg s) = cx_copy_dtor s"
    "cx_copy_last_msg_id (put_message p msg s) = cx_copy_last_msg_id s"
    "cx_connection (put_message p msg s) = cx_connection s"
    "gl_backoff (put_message p msg s) = gl_backoff s"
    "ly_at (put_message p msg s) = ly_at s"
    "ctx_io_timeouts (put_message p msg s) = ctx_io_timeouts s"
  by (simp_all add: put_message_def)

lemma frame_free_message [frame]:
    "mq_task (free_message p s) = mq_task s"
    "mq_spec (free_message p s) = mq_spec s"
    "mq_msg (free_message p s) = mq_msg s"
    "mq_written (free_message p s) = mq_written s"
    "mq_data (free_message p s) = mq_data s"
    "cx_copy_handlers (free_message p s) = cx_copy_handlers s"
    "cx_copy_q12 (free_message p s) = cx_copy_q12 s"
    "cx_copy_dtor (free_message p s) = cx_copy_dtor s"
    "cx_copy_last_msg_id (free_message p s) = cx_copy_last_msg_id s"
    "cx_connection (free_message p s) = cx_connection s"
    "gl_backoff (free_message p s) = gl_backoff s"
    "ly_at (free_message p s) = ly_at s"
    "ctx_io_timeouts (free_message p s) = ctx_io_timeouts s"
  by (simp_all add: free_message_def frame)

lemma frame_defer [frame]:
    "mq_task (iotc_mqtt_logic_task_defer_users_callback p st s) = mq_task s"
    "mq_spec (iotc_mqtt_logic_task_defer_users_callback p st s) = mq_spec s"
    "mq_msg (iotc_mqtt_logic_task_defer_users_callback p st s) = mq_msg s"
    "mq_written (iotc_mqtt_logic_task_defer_users_callback p st s) = mq_written s"
    "mq_data (iotc_mqtt_logic_task_defer_users_callback p st s) = mq_data s"
    "cx_copy_handlers (iotc_mqtt_logic_task_defer_users_callback p st s) = cx_copy_handlers s"
    "cx_copy_q12 (iotc_mqtt_logic_task_defer_users_callback p st s) = cx_copy_q12 s"
    "cx_copy_dtor (iotc_mqtt_logic_task_defer_users_callback p st s) = cx_copy_dtor s"
    "cx_copy_last_msg_id (iotc_mqtt_logic_task_defer_users_callback p st s) = cx_copy_last_msg_id s"
    "cx_connection (iotc_mqtt_logic_task_defer_users_callback p st s) = cx_connection s"
    "gl_backoff (iotc_mqtt_logic_task_defer_users_callback p st s) = gl_backoff s"
    "ly_at (iotc_mqtt_logic_task_defer_users_callback p st s) = ly_at s"
    "ctx_io_timeouts (iotc_mqtt_logic_task_defer_users_callback p st s) = ctx_io_timeouts s"
  by (simp_all add: iotc_mqtt_logic_task_defer_users_callback_def Let_def frame)

lemma frame_free_publish [frame]:
    "mq_task (iotc_mqtt_task_spec_data_free_publish_data p s) = mq_task s"
    "mq_spec (iotc_mqtt_task_spec_data_free_publish_data p s) = mq_spec s"
    "mq_msg (iotc_mqtt_task_spec_data_free_publish_data p s) = mq_msg s"
    "mq_written (iotc_mqtt_task_spec_data_free_publish_data p s) = mq_written s"
    "mq_data (iotc_mqtt_task_spec_data_free_publish_data p s) = mq_data s"
    "cx_copy_handlers (iotc_mqtt_task_spec_data_free_publish_data p s) = cx_copy_handlers s"
    "cx_copy_q12 (iotc_mqtt_task_spec_data_free_publish_data p s) = cx_copy_q12 s"
    "cx_copy_dtor (iotc_mqtt_task_spec_data_free_publish_data p s) = cx_copy_dtor s"
    "cx_copy_last_msg_id (iotc_mqtt_task_spec_data_free_publish_data p s) = cx_copy_last_msg_id s"
    "cx_connection (iotc_mqtt_task_spec_data_free_publish_data p s) = cx_connection s"
    "gl_backoff (iotc_mqtt_task_spec_data_free_publish_data p s) = gl_backoff s"
    "ly_at (iotc_mqtt_task_spec_data_free_publish_data p s) = ly_at s"
    "ctx_io_timeouts (iotc_mqtt_task_spec_data_free_publish_data p s) = ctx_io_timeouts s"
  by (simp_all add: iotc_mqtt_task_spec_data_free_publish_data_def frame)

lemma frame_free_subscribe [frame]:
    "mq_task (iotc_mqtt_task_spec_data_free_subscribe_data p s) = mq_task s"
    "mq_spec (iotc_mqtt_task_spec_data_free_subscribe_data p s) = mq_spec s"
    "mq_msg (iotc_mqtt_task_spec_data_free_subscribe_data p s) = mq_msg s"
    "mq_written (iotc_mqtt_task_spec_data_free_subscribe_data p s) = mq_written s"
    "mq_data (iotc_mqtt_task_spec_data_free_subscribe_data p s) = mq_data s"
    "cx_copy_handlers (iotc_mqtt_task_spec_data_free_subscribe_data p s) = cx_copy_handlers s"
    "cx_copy_q12 (iotc_mqtt_task_spec_data_free_subscribe_data p s) = cx_copy_q12 s"
    "cx_copy_dtor (iotc_mqtt_task_spec_data_free_subscribe_data p s) = cx_copy_dtor s"
    "cx_copy_last_msg_id (iotc_mqtt_task_spec_data_free_subscribe_data p s) = cx_copy_last_msg_id s"
    "cx_connection (iotc_mqtt_task_spec_data_free_subscribe_data p s) = cx_connection s"
    "gl_backoff (iotc_mqtt_task_spec_data_free_subscribe_data p s) = gl_backoff s"
    "ly_at (iotc_mqtt_task_spec_data_free_subscribe_data p s) = ly_at s"
    "ctx_io_timeouts (iotc_mqtt_task_spec_data_free_subscribe_data p s) = ctx_io_timeouts s"
  by (simp_all add: iotc_mqtt_task_spec_data_free_subscribe_data_def frame)

lemma frame_free_task_data [frame]:
    "mq_spec (iotc_mqtt_logic_free_task_data p s) = mq_spec s"
    "mq_msg (iotc_mqtt_logic_free_task_data p s) = mq_msg s"
    "mq_written (iotc_mqtt_logic_free_task_data p s) = mq_written s"
    "mq_data (iotc_mqtt_logic_free_task_data p s) = mq_data s"
    "cx_copy_handlers (iotc_mqtt_logic_free_task_data p s) = cx_copy_handlers s"
    "cx_copy_q12 (iotc_mqtt_logic_free_task_data p s) = cx_copy_q12 s"
    "cx_copy_dtor (iotc_mqtt_logic_free_task_data p s) = cx_copy_dtor s"
    "cx_copy_last_msg_id (iotc_mqtt_logic_free_task_data p s) = cx_copy_last_msg_id s"
    "cx_connection (iotc_mqtt_logic_free_task_data p s) = cx_connection s"
    "gl_backoff (iotc_mqtt_logic_free_task_data p s) = gl_backoff s"
    "ly_at (iotc_mqtt_logic_free_task_data p s) = ly_at s"
    "ctx_io_timeouts (iotc_mqtt_logic_free_task_data p s) = ctx_io_timeouts s"
  by (simp_all add: iotc_mqtt_logic_free_task_data_def Let_def frame split: scenario.split)

lemma frame_free_task [frame]:
    "mq_spec (iotc_mqtt_logic_free_task p s) = mq_spec s"
    "mq_msg (iotc_mqtt_logic_free_task p s) = mq_msg s"
    "mq_written (iotc_mqtt_logic_free_task p s) = mq_written s"
    "mq_data (iotc_mqtt_logic_free_task p s) = mq_data s"
    "cx_copy_handlers (iotc_mqtt_logic_free_task p s) = cx_copy_handlers s"
    "cx_copy_q12 (iotc_mqtt_logic_free_task p s) = cx_copy_q12 s"
    "cx_copy_dtor (iotc_mqtt_logic_free_task p s) = cx_copy_dtor s"
    "cx_copy_last_msg_id (iotc_mqtt_logic_free_task p s) = cx_copy_last_msg_id s"
    "cx_connection (iotc_mqtt_logic_free_task p s) = cx_connection s"
    "gl_backoff (iotc_mqtt_logic_free_task p s) = gl_backoff s"
    "ly_at (iotc_mqtt_logic_free_task p s) = ly_at s"
    "ctx_io_timeouts (iotc_mqtt_logic_free_task p s) = ctx_io_timeouts s"
  by (simp_all add: iotc_mqtt_logic_free_task_def Let_def frame)

lemma frame_fill_publish [frame]:
    "mq_task (snd (fill_publish p t q d i s)) = mq_task s"
    "mq_spec (snd (fill_publish p t q d i s)) = mq_spec s"
    "mq_written (snd (fill_publish p t q d i s)) = mq_written s"
    "mq_data (snd (fill_publish p t q d i s)) = mq_data s"
    "cx_copy_handlers (snd (fill_publish p t q d i s)) = cx_copy_handlers s"
    "cx_copy_q12 (snd (fill_publish p t q d i s)) = cx_copy_q12 s"
    "cx_copy_dtor (snd (fill_publish p t q d i s)) = cx_copy_dtor s"
    "cx_copy_last_msg_id (snd (fill_publish p t q d i s)) = cx_copy_last_msg_id s"
    "cx_connection (snd (fill_publish p t q d i s)) = cx_connection s"
    "gl_backoff (snd (fill_publish p t q d i s)) = gl_backoff s"
    "ly_at (snd (fill_publish p t q d i s)) = ly_at s"
    "ctx_io_timeouts (snd (fill_publish p t q d i s)) = ctx_io_timeouts s"
  by (simp_all add: fill_publish_def frame case_prod_beta split: specific_data.split option.split)

lemma frame_fill_subscribe [frame]:
    "mq_task (snd (fill_subscribe p t d s)) = mq_task s"
    "mq_spec (snd (fill_subscribe p t d s)) = mq_spec s"
    "mq_written (snd (fill_subscribe p t d s)) = mq_written s"
    "mq_data (snd (fill_subscribe p t d s)) = mq_data s"
    "cx_copy_handlers (snd (fill_subscribe p t d s)) = cx_copy_handlers s"
    "cx_copy_q12 (snd (fill_subscribe p t d s)) = cx_copy_q12 s"
    "cx_copy_dtor (snd (fill_subscribe p t d s)) = cx_copy_dtor s"
    "cx_copy_last_msg_id (snd (fill_subscribe p t d s)) = cx_copy_last_msg_id s"
    "cx_connection (snd (fill_subscribe p t d s)) = cx_connection s"
    "gl_backoff (snd (fill_subscribe p t d s)) = gl_backoff s"
    "ly_at (snd (fill_subscribe p t d s)) = ly_at s"
    "ctx_io_timeouts (snd (fill_subscribe p t d s)) = ctx_io_timeouts s"
  by (simp_all add: fill_subscribe_def frame case_prod_beta split: specific_data.split option.split)

lemma frame_mark [frame]:
    "mq_spec (mark_for_session p s) = mq_spec s"
    "mq_msg (mark_for_session p s) = mq_msg s"
    "mq_written (mark_for_session p s) = mq_written s"
    "mq_data (mark_for_session p s) = mq_data s"
    "cx_copy_handlers (mark_for_session p s) = cx_copy_handlers s"
    "cx_copy_q12 (mark_for_session p s) = cx_copy_q12 s"
    "cx_copy_dtor (mark_for_session p s) = cx_copy_dtor s"
    "cx_copy_last_msg_id (mark_for_session p s) = cx_copy_last_msg_id s"
    "cx_connection (mark_for_session p s) = cx_connection s"
    "gl_backoff (mark_for_session p s) = gl_backoff s"
    "ly_at (mark_for_session p s) = ly_at s"
    "ctx_io_timeouts (mark_for_session p s) = ctx_io_timeouts s"
  by (simp_all add: mark_for_session_def frame)

section \<open>Enough fuel\<close>

abbreviation q0_len :: "'z mqtt_scheme \<Rightarrow> nat" where
  "q0_len s \<equiv> length (ld_q0 (mq_data s))"

definition agree_upto ::
    "nat \<Rightarrow> ('z mqtt_scheme \<Rightarrow> iotc_state \<times> 'z mqtt_scheme) \<Rightarrow> ('z mqtt_scheme \<Rightarrow> iotc_state \<times> 'z mqtt_scheme) \<Rightarrow> bool" where
  "agree_upto n f g \<longleftrightarrow> (\<forall>s. q0_len s \<le> n \<longrightarrow> f s = g s)"

lemma agree_uptoD: "agree_upto n f g \<Longrightarrow> q0_len s \<le> n \<Longrightarrow> f s = g s"
  by (simp add: agree_upto_def)

named_theorems fuel_cong \<open>an operation depends on the next task only for shorter queues\<close>

lemma finalize_cong [fuel_cong]:
  "agree_upto n f g \<Longrightarrow> q0_len s \<le> n \<Longrightarrow>
    iotc_mqtt_logic_layer_finalize_task f t s = iotc_mqtt_logic_layer_finalize_task g t s"
  by (simp add: iotc_mqtt_logic_layer_finalize_task_def agree_uptoD)

lemma cr_exit_cong [fuel_cong]: "agree_upto n f g \<Longrightarrow> q0_len s \<le> n \<Longrightarrow> cr_exit f t s = cr_exit g t s"
  by (simp add: cr_exit_def finalize_cong [of n] frame)

lemma publish_q0_error_cong [fuel_cong]:
  "agree_upto n f g \<Longrightarrow> q0_len s \<le> n \<Longrightarrow> publish_q0_error f t st s = publish_q0_error g t st s"
  by (simp add: publish_q0_error_def cr_exit_cong [of n] frame)

lemma publish_q0_cong [fuel_cong]:
  "agree_upto n f g \<Longrightarrow> q0_len s \<le> n \<Longrightarrow> do_mqtt_publish_q0 f c t st m s = do_mqtt_publish_q0 g c t st m s"
  by (simp add: do_mqtt_publish_q0_def Let_def case_prod_beta cr_exit_cong [of n f g] publish_q0_error_cong [of n f g] frame)

lemma publish_q1_error_cong [fuel_cong]:
  "agree_upto n f g \<Longrightarrow> q0_len s \<le> n \<Longrightarrow> publish_q1_error f t m st s = publish_q1_error g t m st s"
  by (simp add: publish_q1_error_def Let_def finalize_cong [of n f g] frame)

lemma publish_q1_send_cong [fuel_cong]:
  "agree_upto n f g \<Longrightarrow> q0_len s \<le> n \<Longrightarrow> publish_q1_send f c t st s = publish_q1_send g c t st s"
  by (simp add: publish_q1_send_def case_prod_beta publish_q1_error_cong [of n f g] frame)

lemma publish_q1_written_cong [fuel_cong]:
  "agree_upto n f g \<Longrightarrow> q0_len s \<le> n \<Longrightarrow> publish_q1_written f c t st m s = publish_q1_written g c t st m s"
  by (simp add: publish_q1_written_def Let_def case_prod_beta publish_q1_error_cong [of n f g]
      publish_q1_send_cong [of n f g] frame)

lemma publish_q1_answered_cong [fuel_cong]:
  "agree_upto n f g \<Longrightarrow> q0_len s \<le> n \<Longrightarrow> publish_q1_answered f c t st m s = publish_q1_answered g c t st m s"
  by (simp add: publish_q1_answered_def Let_def publish_q1_error_cong [of n f g]
      publish_q1_send_cong [of n f g] cr_exit_cong [of n f g] frame)

lemma publish_q1_cong [fuel_cong]:
  "agree_upto n f g \<Longrightarrow> q0_len s \<le> n \<Longrightarrow> do_mqtt_publish_q1 f c t st m s = do_mqtt_publish_q1 g c t st m s"
  by (simp add: do_mqtt_publish_q1_def publish_q1_written_cong [of n f g] publish_q1_answered_cong [of n f g]
      publish_q1_send_cong [of n f g] frame)

lemma subscribe_error_cong [fuel_cong]:
  "agree_upto n f g \<Longrightarrow> q0_len s \<le> n \<Longrightarrow> subscribe_error f t m st s = subscribe_error g t m st s"
  by (simp add: subscribe_error_def Let_def finalize_cong [of n f g] frame)

lemma subscribe_send_cong [fuel_cong]:
  "agree_upto n f g \<Longrightarrow> q0_len s \<le> n \<Longrightarrow> subscribe_send f c t st s = subscribe_send g c t st s"
  by (simp add: subscribe_send_def case_prod_beta subscribe_error_cong [of n f g] frame)

lemma subscribe_written_cong [fuel_cong]:
  "agree_upto n f g \<Longrightarrow> q0_len s \<le> n \<Longrightarrow> subscribe_written f c t st m s = subscribe_written g c t st m s"
  by (simp add: subscribe_written_def Let_def case_prod_beta subscribe_error_cong [of n f g] frame)

lemma register_handler_q0 [simp]: "ld_q0 (mq_data (snd (register_handler d s))) = ld_q0 (mq_data s)"
  by (simp add: register_handler_def on_data_def case_prod_beta)

lemma subscribe_acked_cong [fuel_cong]:
  "agree_upto n f g \<Longrightarrow> q0_len s \<le> n \<Longrightarrow> subscribe_acked f t k s = subscribe_acked g t k s"
  by (simp add: subscribe_acked_def Let_def case_prod_beta subscribe_error_cong [of n f g] cr_exit_cong [of n f g] frame)

lemma subscribe_answered_cong [fuel_cong]:
  "agree_upto n f g \<Longrightarrow> q0_len s \<le> n \<Longrightarrow> subscribe_answered f t st m s = subscribe_answered g t st m s"
  by (simp add: subscribe_answered_def Let_def subscribe_error_cong [of n f g] subscribe_acked_cong [of n f g] frame)

lemma subscribe_cong [fuel_cong]:
  "agree_upto n f g \<Longrightarrow> q0_len s \<le> n \<Longrightarrow> do_mqtt_subscribe f c t st m s = do_mqtt_subscribe g c t st m s"
  by (simp add: do_mqtt_subscribe_def Let_def subscribe_written_cong [of n f g] subscribe_answered_cong [of n f g]
      subscribe_send_cong [of n f g] frame)

lemma connect_error_cong [fuel_cong]:
  "agree_upto n f g \<Longrightarrow> q0_len s \<le> n \<Longrightarrow> connect_error f t m s = connect_error g t m s"
  by (simp add: connect_error_def cr_exit_cong [of n f g] frame)

lemma connect_send_cong [fuel_cong]:
  "agree_upto n f g \<Longrightarrow> q0_len s \<le> n \<Longrightarrow> connect_send f c t s = connect_send g c t s"
  by (simp add: connect_send_def Let_def case_prod_beta connect_error_cong [of n f g] frame)

lemma connect_accepted_cong [fuel_cong]:
  "agree_upto n f g \<Longrightarrow> q0_len s \<le> n \<Longrightarrow> connect_accepted f c t st s = connect_accepted g c t st s"
  by (simp add: connect_accepted_def Let_def case_prod_beta connect_error_cong [of n f g] cr_exit_cong [of n f g] frame)

lemma connect_answered_cong [fuel_cong]:
  "agree_upto n f g \<Longrightarrow> q0_len s \<le> n \<Longrightarrow> connect_answered f c t st m s = connect_answered g c t st m s"
  by (simp add: connect_answered_def Let_def connect_error_cong [of n f g] connect_accepted_cong [of n f g]
      cr_exit_cong [of n f g] frame)

lemma connect_cong [fuel_cong]:
  "agree_upto n f g \<Longrightarrow> q0_len s \<le> n \<Longrightarrow> do_mqtt_connect f c t st m s = do_mqtt_connect g c t st m s"
  by (simp add: do_mqtt_connect_def connect_error_cong [of n f g] connect_answered_cong [of n f g]
      connect_send_cong [of n f g] frame)

lemma keepalive_error_cong [fuel_cong]:
  "agree_upto n f g \<Longrightarrow> q0_len s \<le> n \<Longrightarrow> keepalive_error f t m st s = keepalive_error g t m st s"
  by (simp add: keepalive_error_def Let_def finalize_cong [of n f g] frame)

lemma keepalive_written_cong [fuel_cong]:
  "agree_upto n f g \<Longrightarrow> q0_len s \<le> n \<Longrightarrow> keepalive_written f c t st m s = keepalive_written g c t st m s"
  by (simp add: keepalive_written_def case_prod_beta keepalive_error_cong [of n f g] frame)

lemma keepalive_answered_cong [fuel_cong]:
  "agree_upto n f g \<Longrightarrow> q0_len s \<le> n \<Longrightarrow> keepalive_answered f c t st m s = keepalive_answered g c t st m s"
  by (simp add: keepalive_answered_def Let_def case_prod_beta keepalive_error_cong [of n f g] cr_exit_cong [of n f g] frame)

lemma keepalive_cong [fuel_cong]:
  "agree_upto n f g \<Longrightarrow> q0_len s \<le> n \<Longrightarrow> do_mqtt_keepalive_task f c t st m s = do_mqtt_keepalive_task g c t st m s"
  by (simp add: do_mqtt_keepalive_task_def case_prod_beta keepalive_error_cong [of n f g]
      keepalive_written_cong [of n f g] keepalive_answered_cong [of n f g] frame)

lemma frame_close [frame]:
  "mq_data (snd (iotc_mqtt_logic_layer_close c d st s)) = mq_data s"
  by (simp add: iotc_mqtt_logic_layer_close_def frame)

lemma shutdown_cong [fuel_cong]:
  "agree_upto n f g \<Longrightarrow> q0_len s \<le> n \<Longrightarrow> do_shutdown f c t st m s = do_shutdown g c t st m s"
  by (simp add: do_shutdown_def Let_def case_prod_beta cr_exit_cong [of n f g] frame)

lemma task_function_cong:
  assumes "agree_upto n f g" and "q0_len s \<le> n"
  shows "task_function f h args s = task_function g h args s"
  using assms by (simp add: task_function_def Let_def connect_cong [of n f g] publish_q0_cong [of n f g]
      publish_q1_cong [of n f g] subscribe_cong [of n f g] keepalive_cong [of n f g] shutdown_cong [of n f g])

text \<open>The recursion: starting the next task takes it out of the queue.\<close>

lemma release_current_q0_queue [simp]: "ld_q0 (mq_data (release_current_q0 s)) = ld_q0 (mq_data s)"
  by (simp add: release_current_q0_def Let_def on_data_def frame)

lemma run_next_cong:
  assumes "\<And>h args s. q0_len s < n \<Longrightarrow> call h args s = call' h args s"
  shows "agree_upto n (iotc_mqtt_logic_layer_run_next_q0_task call) (iotc_mqtt_logic_layer_run_next_q0_task call')"
proof -
  have ex: "iotc_evtd_execute_handle call hd s = iotc_evtd_execute_handle call' hd s" if "q0_len s < n" for hd s
    by (simp add: execute_handle_call assms [OF that])
  then show ?thesis
    by (auto simp: agree_upto_def iotc_mqtt_logic_layer_run_next_q0_task_def Let_def on_data_def split: list.split)
qed

lemma task_call_fuel:
  fixes s :: "'z mqtt_scheme"
  shows "q0_len s < n \<Longrightarrow> q0_len s < m \<Longrightarrow> task_call n h args s = task_call m h args s"
proof (induction n arbitrary: m h args s)
  case (Suc n)
  then obtain m' where m: "m = Suc m'" by (cases m) auto
  have "task_call n h' args' s' = task_call m' h' args' s'" if "q0_len s' < q0_len s"
    for h' args' and s' :: "'z mqtt_scheme"
    by (rule Suc.IH) (use that Suc.prems m in auto)
  from task_function_cong [OF run_next_cong [OF this] order_refl] m show ?case by simp
qed simp

text \<open>
  C33. Starting tasks from the queue ends: the coroutine of a task may run the next task of the queue, and that one the next, but the
  number of tasks in the queue, and one more, bounds the depth, so that any two larger amounts of fuel give the
  same result, and likewise for the step that runs the next task.
\<close>

theorem task_recursion_terminates:
  fixes s :: "'z mqtt_scheme"
  shows "task_call (task_fuel s + k) f args s = task_call (task_fuel s) f args s
   \<and> iotc_mqtt_logic_layer_run_next_q0_task (task_call (task_fuel s + k)) s =
     iotc_mqtt_logic_layer_run_next_q0_task (task_call (task_fuel s)) s"
proof
  show "task_call (task_fuel s + k) f args s = task_call (task_fuel s) f args s"
    by (rule task_call_fuel) (simp_all add: task_fuel_def)
  have "task_call (task_fuel s + k) h a s' = task_call (task_fuel s) h a s'" if "q0_len s' < q0_len s"
    for h a and s' :: "'z mqtt_scheme"
    by (rule task_call_fuel) (use that in \<open>simp_all add: task_fuel_def\<close>)
  from agree_uptoD [OF run_next_cong [OF this] order_refl]
  show "iotc_mqtt_logic_layer_run_next_q0_task (task_call (task_fuel s + k)) s =
      iotc_mqtt_logic_layer_run_next_q0_task (task_call (task_fuel s)) s" .
qed

end
