(* ===== verification/Iotc_Mqtt_Ids.thy ===== *)
theory Iotc_Mqtt_Ids
  imports Iotc_Mqtt_Fuel
begin

text \<open>
  The identifiers of the messages with quality of service 1, which \<^verbatim>\<open>run_task\<close> hands out, and the order of the tasks.
\<close>

definition pushes :: "ptr \<Rightarrow> ptr list \<Rightarrow> 'z mqtt_scheme \<Rightarrow> 'z mqtt_scheme" where
  "pushes context ts s = fold (\<lambda>t s. snd (iotc_mqtt_logic_layer_push context t IOTC_STATE_OK s)) ts s"

definition operational :: "ptr \<Rightarrow> 'z mqtt_scheme \<Rightarrow> bool" where
  "operational context s \<longleftrightarrow> \<not> IOTC_THIS_LAYER_NOT_OPERATIONAL context s \<and> user_data context s \<noteq> NULL"

definition publish_q1_task :: "mqtt_task \<Rightarrow> bool" where
  "publish_q1_task t \<longleftrightarrow> mt_scenario t = IOTC_MQTT_PUBLISH \<and> mt_qos t = IOTC_MQTT_QOS_AT_LEAST_ONCE"

lemma write_task_other [simp]: "q \<noteq> p \<Longrightarrow> mq_task (write_task p f s) q = mq_task s q"
  by (simp add: write_task_def Let_def on_mem_def)

lemma write_task_same [simp]: "mq_task (write_task p f s) p = f (mq_task s p)"
  by (simp add: write_task_def Let_def on_mem_def)

lemma on_data_simps [simp]:
  "mq_data (on_data f s) = f (mq_data s)" "mq_task (on_data f s) = mq_task s" "ly_at (on_data f s) = ly_at s"
  "cx_connection (on_data f s) = cx_connection s" "ev_mem (on_data f s) = ev_mem s" "mq_spec (on_data f s) = mq_spec s"
  "mq_msg (on_data f s) = mq_msg s" "ev_te (on_data f s) = ev_te s"
  by (simp_all add: on_data_def)

lemma not_terminal [simp]: "iotc_backoff_classify_state IOTC_STATE_OK = IOTC_BACKOFF_CLASS_NONE"
  by (simp add: iotc_backoff_classify_state_def)

lemma push_unsent:
  assumes "operational context s" and "publish_q1_task (mq_task s t)"
    and "cd_connection_state (cx_connection s) \<noteq> IOTC_CONNECTION_STATE_OPENED"
    and "s' = snd (iotc_mqtt_logic_layer_push context t IOTC_STATE_OK s)"
  shows "ld_q12 (mq_data s') = ld_q12 (mq_data s) @ [t]"
    and "ld_last_msg_id (mq_data s') = to_u16 (ld_last_msg_id (mq_data s) + 1)"
    and "mt_msg_id (mq_task s' t) = to_u16 (ld_last_msg_id (mq_data s) + 1)"
    and "\<And>q. q \<noteq> t \<Longrightarrow> mq_task s' q = mq_task s q" and "publish_q1_task (mq_task s' t)"
    and "cx_connection s' = cx_connection s" and "ly_at s' = ly_at s"
  using assms by (simp_all add: operational_def publish_q1_task_def iotc_mqtt_logic_layer_push_def push_task_def
      run_task_def set_logic_def Let_def frame)

lemma to_u16_add: "to_u16 (to_u16 n + k) = to_u16 (n + k)"
  by (simp add: cint mod_add_left_eq)

lemma pushes_unsent:
  assumes "operational context s" and "\<forall>t\<in>set ts. publish_q1_task (mq_task s t)" and "distinct ts"
    and "cd_connection_state (cx_connection s) \<noteq> IOTC_CONNECTION_STATE_OPENED"
    and "ld_last_msg_id (mq_data s) < 2 ^ 16"
  shows "ld_q12 (mq_data (pushes context ts s)) = ld_q12 (mq_data s) @ ts
    \<and> ld_last_msg_id (mq_data (pushes context ts s)) = to_u16 (ld_last_msg_id (mq_data s) + length ts)
    \<and> (\<forall>q. q \<notin> set ts \<longrightarrow> mq_task (pushes context ts s) q = mq_task s q)
    \<and> (\<forall>i<length ts. mt_msg_id (mq_task (pushes context ts s) (ts ! i)) = to_u16 (ld_last_msg_id (mq_data s) + 1 + i))"
  using assms
proof (induction ts arbitrary: s)
  case Nil
  then show ?case by (simp add: pushes_def cint)
next
  case (Cons t ts)
  define s1 where "s1 = snd (iotc_mqtt_logic_layer_push context t IOTC_STATE_OK s)"
  note p = push_unsent [OF Cons.prems(1) _ Cons.prems(4) s1_def]
  have t: "publish_q1_task (mq_task s t)" using Cons.prems(2) by simp
  have 1: "operational context s1"
    using Cons.prems(1) p(7) [OF t] by (simp add: operational_def IOTC_THIS_LAYER_NOT_OPERATIONAL_def)
  have 2: "\<forall>q\<in>set ts. publish_q1_task (mq_task s1 q)"
    using Cons.prems(2,3) p(4) [OF t] by (metis distinct.simps(2) list.set_intros(2))
  have 3: "cd_connection_state (cx_connection s1) \<noteq> IOTC_CONNECTION_STATE_OPENED"
    using Cons.prems(4) p(6) [OF t] by simp
  have 4: "ld_last_msg_id (mq_data s1) < 2 ^ 16" using p(2) [OF t] by (simp add: cint)
  have d: "distinct ts" "t \<notin> set ts" using Cons.prems(3) by simp_all
  have eq: "pushes context (t # ts) s = pushes context ts s1" by (simp add: pushes_def s1_def)
  have u: "to_u16 (to_u16 (Suc n) + k) = to_u16 (Suc (n + k))" for n k
    using to_u16_add [of "Suc n" k] by simp
  have u': "to_u16 (Suc (to_u16 (Suc n) + k)) = to_u16 (Suc (Suc (n + k)))" for n k
    using to_u16_add [of "Suc n" "Suc k"] by simp
  note ih = Cons.IH [OF 1 2 d(1) 3 4]
  have "mt_msg_id (mq_task (pushes context ts s1) ((t # ts) ! i)) = to_u16 (ld_last_msg_id (mq_data s) + 1 + i)"
    if "i < length (t # ts)" for i
  proof (cases i)
    case 0
    with ih d(2) p(3) [OF t] show ?thesis by simp
  next
    case (Suc k)
    with ih that p(2) [OF t] show ?thesis by (simp add: u')
  qed
  with ih p(1,2,4) [OF t] show ?case by (simp add: eq u)
qed

lemma mod_shift_inj:
  fixes i j :: nat
  assumes "(a + i) mod n = (a + j) mod n" and "i < n" and "j < n"
  shows "i = j"
proof -
  have less: "q \<le> p" if "(a + p) mod n = (a + q) mod n" "p \<le> q" "q < n" for p q
  proof -
    have "n dvd (a + q) - (a + p)" using that mod_eq_dvd_iff_nat [of "a + p" "a + q" n] by simp
    with that show ?thesis using dvd_imp_le [of n "q - p"] by (cases "p < q") auto
  qed
  from less [of i j] less [of j i] assms show ?thesis by (metis le_antisym nle_le)
qed

text \<open>
  Messages with quality of service 1 that are pushed while the connection is not open are queued in order, and get
  the identifiers that follow the last one modulo 65536; they are pairwise different for at most 65536 messages,
  but the identifier 0, which MQTT forbids and which the confirmation of a write takes for that of
  the current task, is handed out as soon as the counter wraps.
\<close>

theorem message_ids_wrap:
  assumes "operational context s" and "\<forall>t\<in>set ts. publish_q1_task (mq_task s t)" and "distinct ts"
    and "cd_connection_state (cx_connection s) \<noteq> IOTC_CONNECTION_STATE_OPENED"
    and "ld_last_msg_id (mq_data s) < 2 ^ 16"
  shows "let s' = pushes context ts s; last = ld_last_msg_id (mq_data s); ids = map (\<lambda>t. mt_msg_id (mq_task s' t)) ts
    in ld_q12 (mq_data s') = ld_q12 (mq_data s) @ ts \<and> ids = map (\<lambda>i. (last + 1 + i) mod 2 ^ 16) [0..<length ts]
      \<and> (length ts \<le> 2 ^ 16 \<longrightarrow> distinct ids) \<and> (0 \<in> set ids \<longleftrightarrow> 2 ^ 16 \<le> last + length ts)"
proof -
  let ?l = "ld_last_msg_id (mq_data s)"
  let ?ids = "map (\<lambda>i. (?l + 1 + i) mod 2 ^ 16) [0..<length ts]"
  note p = pushes_unsent [OF assms]
  have ids: "map (\<lambda>t. mt_msg_id (mq_task (pushes context ts s) t)) ts = ?ids"
    using p by (intro nth_equalityI) (simp_all add: cint)
  have "inj_on (\<lambda>i. (?l + 1 + i) mod 2 ^ 16) {0..<length ts}" if "length ts \<le> 2 ^ 16"
  proof (rule inj_onI)
    fix i j assume "i \<in> {0..<length ts}" and "j \<in> {0..<length ts}"
      and "(?l + 1 + i) mod 2 ^ 16 = (?l + 1 + j) mod 2 ^ 16"
    with that show "i = j" by (intro mod_shift_inj [of "?l + 1" i "2 ^ 16" j]) auto
  qed
  then have d: "length ts \<le> 2 ^ 16 \<Longrightarrow> distinct ?ids" by (simp add: distinct_map)
  have z: "0 \<in> set ?ids \<longleftrightarrow> 2 ^ 16 \<le> ?l + length ts"
  proof
    assume "0 \<in> set ?ids"
    then obtain i where i: "i < length ts" "(?l + 1 + i) mod 2 ^ 16 = 0" by auto
    then have "2 ^ 16 dvd ?l + 1 + i" by (simp add: mod_eq_0_iff_dvd)
    from dvd_imp_le [OF this] have "2 ^ 16 \<le> ?l + 1 + i" by simp
    with i(1) show "2 ^ 16 \<le> ?l + length ts" by simp
  next
    assume "2 ^ 16 \<le> ?l + length ts"
    with assms(5) have "(?l + 1 + (2 ^ 16 - 1 - ?l)) mod 2 ^ 16 = 0" "2 ^ 16 - 1 - ?l < length ts" by simp_all
    then have "(2 ^ 16 - 1 - ?l) \<in> set [0..<length ts]" "0 = (?l + 1 + (2 ^ 16 - 1 - ?l)) mod 2 ^ 16" by simp_all
    then show "0 \<in> set ?ids" unfolding set_map by (rule rev_image_eqI)
  qed
  show ?thesis unfolding Let_def ids using p d z by blast
qed

text \<open>A state to try the properties on; \<open>d\<close> are the data of the layer with address 42.\<close>

definition example_mqtt ::
    "mem \<Rightarrow> vec \<Rightarrow> (ptr \<Rightarrow> mqtt_task) \<Rightarrow> (ptr \<Rightarrow> specific_data) \<Rightarrow> (ptr \<Rightarrow> mqtt_message) \<Rightarrow> logic_layer_data \<Rightarrow>
     connection_state \<Rightarrow> mqtt" where
  "example_mqtt m timers tasks specs msgs d state =
     layered.extend (layered.truncate (example_layered m timers small_vec))
       (mqtt.fields tasks specs msgs (\<lambda>p. (0, IOTC_MQTT_TYPE_NONE)) d None [] NULL 0
         ((zeroed_connection_data 25)\<lparr>cd_connection_state := state, cd_keepalive_timeout := 20,
           cd_session_type := IOTC_SESSION_CONTINUE\<rparr>) (default_status 0))"

lemmas example_mqtt_defs = example_mqtt_def layered.defs mqtt.defs example_layered_def

lemma example_mqtt_simps [simp]:
  "mq_task (example_mqtt m v ts sp ms d st) = ts" "mq_spec (example_mqtt m v ts sp ms d st) = sp"
  "mq_msg (example_mqtt m v ts sp ms d st) = ms" "mq_data (example_mqtt m v ts sp ms d st) = d"
  "ev_mem (example_mqtt m v ts sp ms d st) = m" "ev_timers (example_mqtt m v ts sp ms d st) = v"
  "ly_at (example_mqtt m v ts sp ms d st) = example_layers"
  "cd_connection_state (cx_connection (example_mqtt m v ts sp ms d st)) = st"
  "cd_session_type (cx_connection (example_mqtt m v ts sp ms d st)) = IOTC_SESSION_CONTINUE"
  "cd_keepalive_timeout (cx_connection (example_mqtt m v ts sp ms d st)) = 20"
  by (simp_all add: example_mqtt_defs)

lemma example_operational [simp]: "operational 42 (example_mqtt m v ts sp ms d st)"
  by (simp add: operational_def IOTC_THIS_LAYER_NOT_OPERATIONAL_def example_layers_def)

theorem message_ids_wrap_witness:
  "let s = example_mqtt (empty_mem (\<lambda>i n. True)) small_vec
         (\<lambda>p. zeroed_task\<lparr>mt_scenario := IOTC_MQTT_PUBLISH, mt_qos := IOTC_MQTT_QOS_AT_LEAST_ONCE\<rparr>)
         (\<lambda>p. Publish_data None None IOTC_MQTT_RETAIN_FALSE IOTC_MQTT_DUP_FALSE) (\<lambda>p. zeroed_message)
         (zeroed_logic_data\<lparr>ld_last_msg_id := 65534\<rparr>) IOTC_CONNECTION_STATE_OPENING;
       s' = pushes 42 [60, 61, 62] s
   in map (\<lambda>t. mt_msg_id (mq_task s' t)) [60, 61, 62] = [65535, 0, 1] \<and> ld_q12 (mq_data s') = [60, 61, 62]"
proof -
  let ?s = "example_mqtt (empty_mem (\<lambda>i n. True)) small_vec
         (\<lambda>p. zeroed_task\<lparr>mt_scenario := IOTC_MQTT_PUBLISH, mt_qos := IOTC_MQTT_QOS_AT_LEAST_ONCE\<rparr>)
         (\<lambda>p. Publish_data None None IOTC_MQTT_RETAIN_FALSE IOTC_MQTT_DUP_FALSE) (\<lambda>p. zeroed_message)
         (zeroed_logic_data\<lparr>ld_last_msg_id := 65534\<rparr>) IOTC_CONNECTION_STATE_OPENING"
  have "\<forall>t\<in>set [60, 61, 62]. publish_q1_task (mq_task ?s t)" by (simp add: publish_q1_task_def)
  from message_ids_wrap [OF example_operational this] show ?thesis
    by (simp add: Let_def zeroed_logic_data_def upt_rec)
qed

end
