(* ===== verification/Iotc_Mqtt_Session.thy ===== *)
theory Iotc_Mqtt_Session
  imports Iotc_Mqtt_Ids
begin

text \<open>
  What survives a lost connection: the tasks, the handlers of topics and the counter of identifiers that
  \<^verbatim>\<open>iotc_mqtt_logic_layer_close_externally\<close> stores in the context and
  \<^verbatim>\<open>iotc_mqtt_logic_layer_init\<close> takes from there.
\<close>

section \<open>What the tasks do not touch\<close>

definition context_part ::
    "'z mqtt_scheme \<Rightarrow> vec option \<times> ptr list \<times> nat \<times> backoff_status \<times> session_type \<times> (ptr \<Rightarrow> ptr)" where
  "context_part s = (cx_copy_handlers s, cx_copy_q12 s, cx_copy_last_msg_id s, gl_backoff s,
     cd_session_type (cx_connection s), \<lambda>c. user_data c s)"

named_theorems part \<open>operations that keep what the context holds\<close>

lemma continue_user_data:
  fixes s :: "'z mqtt_scheme"
  shows "ly_user_data (ly_at (snd (IOTC_LAYER_CONTINUE_WITH dir f c d st s)) q) = ly_user_data (ly_at s q)"
  by (simp add: IOTC_LAYER_CONTINUE_WITH_def iotc_layer_continue_with_impl_def Let_def case_prod_beta frame)

lemma part_primitives [part]:
  "context_part (on_mem f s) = context_part s" "context_part (on_data g s) = context_part s"
  "context_part (write_task p h s) = context_part s" "context_part (snd (alloc_message s)) = context_part s"
  "context_part (put_message p m s) = context_part s" "context_part (free_message p s) = context_part s"
  "context_part (snd (iotc_evtd_execute_in hdl t p s)) = context_part s"
  "context_part (snd (iotc_evtd_cancel p s)) = context_part s"
  "context_part (snd (iotc_evtd_restart p t s)) = context_part s"
  "context_part (snd (iotc_evttd_execute hdl s)) = context_part s"
  "context_part (snd (IOTC_LAYER_CONTINUE_WITH dir fs c d st s)) = context_part s"
  "context_part (iotc_io_timeouts_remove p s) = context_part s"
  "context_part (snd (iotc_io_timeouts_create hdl t p s)) = context_part s"
  "context_part (cancel_task_timeout p s) = context_part s"
  "context_part (cancel_connect_timeout p s) = context_part s"
  "context_part (iotc_mqtt_logic_task_defer_users_callback p st s) = context_part s"
  "context_part (iotc_mqtt_logic_free_task_data p s) = context_part s"
  "context_part (iotc_mqtt_logic_free_task p s) = context_part s"
  "context_part (snd (fill_publish p q qs du i s)) = context_part s"
  "context_part (snd (fill_subscribe p q du s)) = context_part s"
  "context_part (mark_for_session p s) = context_part s"
  "context_part (release_current_q0 s) = context_part s"
  by (simp_all add: context_part_def frame on_data_def continue_user_data release_current_q0_def Let_def)

lemma part_updates [part]:
  "context_part (s\<lparr>mq_spec := x\<rparr>) = context_part s"
  "context_part (s\<lparr>ev_mem := y\<rparr>) = context_part s"
  "context_part (s\<lparr>mq_data := z\<rparr>) = context_part s"
  "context_part (s\<lparr>cx_connection := (cx_connection s)\<lparr>cd_connection_state := w\<rparr>\<rparr>) = context_part s"
  by (simp_all add: context_part_def)

definition keeps_context :: "('z mqtt_scheme \<Rightarrow> iotc_state \<times> 'z mqtt_scheme) \<Rightarrow> bool" where
  "keeps_context f \<longleftrightarrow> (\<forall>s. context_part (snd (f s)) = context_part s)"

lemma keepsD [part]: "keeps_context f \<Longrightarrow> context_part (snd (f s)) = context_part s"
  by (simp add: keeps_context_def)

lemma part_exit [part]:
  "keeps_context f \<Longrightarrow> context_part (snd (iotc_mqtt_logic_layer_finalize_task f t s)) = context_part s"
  "keeps_context f \<Longrightarrow> context_part (snd (cr_exit f t s)) = context_part s"
  by (simp_all add: iotc_mqtt_logic_layer_finalize_task_def cr_exit_def Let_def part)

lemma part_errors [part]:
  assumes "keeps_context f"
  shows "context_part (snd (publish_q0_error f t st s)) = context_part s"
    and "context_part (snd (publish_q1_error f t m st s)) = context_part s"
    and "context_part (snd (subscribe_error f t m st s)) = context_part s"
    and "context_part (snd (connect_error f t m s)) = context_part s"
    and "context_part (snd (keepalive_error f t m st s)) = context_part s"
  using assms by (simp_all add: publish_q0_error_def publish_q1_error_def subscribe_error_def connect_error_def
      keepalive_error_def Let_def part)

lemma part_send [part]:
  assumes "keeps_context f"
  shows "context_part (snd (publish_q1_send f c t st s)) = context_part s"
    and "context_part (snd (subscribe_send f c t st s)) = context_part s"
    and "context_part (snd (connect_send f c t s)) = context_part s"
  using assms by (simp_all add: publish_q1_send_def subscribe_send_def connect_send_def Let_def case_prod_beta part)

lemma part_written [part]:
  assumes "keeps_context f"
  shows "context_part (snd (publish_q1_written f c t st m s)) = context_part s"
    and "context_part (snd (subscribe_written f c t st m s)) = context_part s"
    and "context_part (snd (keepalive_written f c t st m s)) = context_part s"
    and "context_part (snd (connect_accepted f c t st s)) = context_part s"
  using assms by (simp_all add: publish_q1_written_def subscribe_written_def keepalive_written_def connect_accepted_def
      Let_def case_prod_beta part)

lemma part_register [part]: "context_part (snd (register_handler d s)) = context_part s"
  by (simp add: register_handler_def case_prod_beta part)

lemma part_acked [part]: "keeps_context f \<Longrightarrow> context_part (snd (subscribe_acked f t k s)) = context_part s"
  by (simp add: subscribe_acked_def Let_def case_prod_beta part)

lemma part_answered [part]:
  assumes "keeps_context f"
  shows "context_part (snd (publish_q1_answered f c t st m s)) = context_part s"
    and "context_part (snd (subscribe_answered f t st m s)) = context_part s"
    and "context_part (snd (keepalive_answered f c t st m s)) = context_part s"
    and "context_part (snd (connect_answered f c t st m s)) = context_part s"
  using assms by (simp_all add: publish_q1_answered_def subscribe_answered_def keepalive_answered_def connect_answered_def
      do_reconnect_def Let_def case_prod_beta part)

lemma part_call_topic [part]: "context_part (call_topic_handler m s) = context_part s"
  by (simp add: call_topic_handler_def Let_def part)

lemma part_puback [part]: "context_part (snd (puback_send c t s)) = context_part s"
  by (simp add: puback_send_def Let_def case_prod_beta part)

lemma part_make_puback [part]: "context_part (snd (make_puback_task c m s)) = context_part s"
  by (simp add: make_puback_task_def alloc_task_def Let_def case_prod_beta part) (simp add: context_part_def)

lemma part_coroutines [part]:
  assumes "keeps_context f"
  shows "context_part (snd (do_mqtt_connect f c t st m s)) = context_part s"
    and "context_part (snd (do_mqtt_publish_q0 f c t st m s)) = context_part s"
    and "context_part (snd (do_mqtt_publish_q1 f c t st m s)) = context_part s"
    and "context_part (snd (do_mqtt_subscribe f c t st m s)) = context_part s"
    and "context_part (snd (do_mqtt_keepalive_task f c t st m s)) = context_part s"
    and "context_part (snd (do_shutdown f c t st m s)) = context_part s"
    and "context_part (snd (on_publish_q1_recieved c t st m s)) = context_part s"
  using assms by (simp_all add: do_mqtt_connect_def do_mqtt_publish_q0_def do_mqtt_publish_q1_def do_mqtt_subscribe_def
      do_mqtt_keepalive_task_def do_shutdown_def on_publish_q1_recieved_def iotc_mqtt_logic_layer_close_def
      Let_def case_prod_beta part)

lemma part_task_function [part]:
  "keeps_context g \<Longrightarrow> context_part (snd (task_function g f args s)) = context_part s"
  by (simp add: task_function_def Let_def part)

lemma part_execute_handle:
  "(\<And>f a s. context_part (snd (call f a s)) = context_part s) \<Longrightarrow>
    context_part (snd (iotc_evtd_execute_handle call h s)) = context_part s"
  by (simp add: execute_handle_call)

lemma part_run_next:
  "(\<And>f a s. context_part (snd (call f a s)) = context_part s) \<Longrightarrow>
    keeps_context (iotc_mqtt_logic_layer_run_next_q0_task call)"
  by (simp add: keeps_context_def iotc_mqtt_logic_layer_run_next_q0_task_def Let_def part part_execute_handle split: list.split)

lemma part_task_call [part]: "context_part (snd (task_call n f args s)) = context_part s"
proof (induction n arbitrary: f args s)
  case 0
  show ?case by (simp add: context_part_def)
next
  case (Suc n)
  from part_run_next [OF Suc.IH] show ?case by (simp add: part)
qed

lemma part_execute_task [part]: "context_part (snd (execute_task t s)) = context_part s"
  by (simp add: execute_task_def part part_execute_handle)

lemma part_signal [part]: "context_part (signal_task t st s) = context_part s"
  by (simp add: signal_task_def part)

section \<open>Closing\<close>

lemma frame_backoff [frame]:
  fixes s :: "'z mqtt_scheme"
  shows "mq_data (snd (snd (iotc_update_backoff_penalty f st b s))) = mq_data s"
    and "mq_task (snd (snd (iotc_update_backoff_penalty f st b s))) = mq_task s"
    and "cx_connection (snd (snd (iotc_update_backoff_penalty f st b s))) = cx_connection s"
    and "cx_copy_handlers (snd (snd (iotc_update_backoff_penalty f st b s))) = cx_copy_handlers s"
    and "ly_at (snd (snd (iotc_update_backoff_penalty f st b s))) = ly_at s"
  by (simp_all add: iotc_update_backoff_penalty_def iotc_inc_backoff_penalty_def iotc_restart_update_time_def Let_def
      frame split: backoff_class.split)

lemma frame_cancel_all [frame]:
  "mq_data (fold cancel_task_timeout ts s) = mq_data s" "mq_task (fold cancel_task_timeout ts s) = mq_task s"
  "cx_connection (fold cancel_task_timeout ts s) = cx_connection s"
  "cx_copy_handlers (fold cancel_task_timeout ts s) = cx_copy_handlers s"
  "ly_at (fold cancel_task_timeout ts s) = ly_at s"
  by (induction ts arbitrary: s) (simp_all add: frame)

lemma part_free_handlers [part]: "context_part (free_handlers h s) = context_part s"
proof -
  have "context_part (snd (vector_for_each_loop iotc_mqtt_task_spec_data_free_subscribe_data_vec v i s)) = context_part s"
    for v i
  proof (induction "iotc_mqtt_task_spec_data_free_subscribe_data_vec :: nat \<Rightarrow> 'a mqtt_scheme \<Rightarrow> _" v i s
      rule: vector_for_each_loop.induct)
    case (1 v i s)
    then show ?case
      by (subst vector_for_each_loop.simps) (simp add: iotc_mqtt_task_spec_data_free_subscribe_data_vec_def
          iotc_mqtt_task_spec_data_free_subscribe_data_def part)
  qed
  then show ?thesis
    by (simp add: free_handlers_def iotc_vector_for_each_def part case_prod_beta split: option.split)
qed

lemma part_stop [part]: "context_part (stop_current s) = context_part s"
  by (simp add: stop_current_def Let_def part)

lemma part_queue_shutdown [part]: "context_part (iotc_mqtt_logic_task_queue_shutdown ts s) = context_part s"
  by (induction ts arbitrary: s) (simp_all add: part)

lemma part_abort [part]: "context_part (abort_task t s) = context_part s"
  by (simp add: abort_task_def part)

lemma part_free_user_data:
  "context_part (free_user_data c s) =
    (case context_part s of (h, q, n, b, ss, u) \<Rightarrow> (h, q, n, b, ss, u(c := NULL)))"
  by (simp add: context_part_def free_user_data_def set_user_data_def frame) (simp add: fun_eq_iff on_mem_def)

lemma part_release:
  "context_part (release_layer c s) =
    (case context_part s of (h, q, n, b, ss, u) \<Rightarrow> (h, q, n, b, ss, u(c := NULL)))"
  by (simp add: release_layer_def Let_def part part_free_user_data)

lemma part_make_null [part]: "context_part (fold make_context_null ts s) = context_part s"
  by (induction ts arbitrary: s) (simp_all add: make_context_null_def part)

definition stored_tasks :: "'z mqtt_scheme \<Rightarrow> ptr list" where
  "stored_tasks s = filter (\<lambda>t. should_be_stored (mq_task s t)) (ld_q12 (mq_data s))"

definition kept_handlers :: "'z mqtt_scheme \<Rightarrow> vec option" where
  "kept_handlers s = (case ld_handlers (mq_data s) of None \<Rightarrow> cx_copy_handlers s
     | Some v \<Rightarrow> if v_elem_no v > 0 then Some v else cx_copy_handlers s)"

lemma part_save_session:
  assumes "cd_session_type (cx_connection s) = IOTC_SESSION_CONTINUE"
  shows "context_part (save_session s) = (kept_handlers s, stored_tasks s, ld_last_msg_id (mq_data s), gl_backoff s,
    IOTC_SESSION_CONTINUE, \<lambda>c. user_data c s)"
  using assms by (simp add: save_session_def Let_def part split: option.split)
    (simp add: context_part_def kept_handlers_def stored_tasks_def on_data_def)

lemma close_externally_part:
  assumes "cd_session_type (cx_connection s) = IOTC_SESSION_CONTINUE" and "user_data context s \<noteq> NULL"
    and "\<not> (st \<noteq> IOTC_STATE_OK \<and> ly_state (ly_at s context) = IOTC_LAYER_STATE_CONNECTING)"
    and "iotc_mqtt_logic_layer_close_externally context data st s = (r, s')"
  shows "\<exists>b u. context_part s' = (kept_handlers s, stored_tasks s, ld_last_msg_id (mq_data s), b,
    IOTC_SESSION_CONTINUE, u) \<and> u context = NULL"
proof -
  define s1 where "s1 = (snd (snd (iotc_update_backoff_penalty fn_apply_cooldown st (gl_backoff s) s)))
    \<lparr>gl_backoff := fst (snd (iotc_update_backoff_penalty fn_apply_cooldown st (gl_backoff s) s))\<rparr>"
  define s2 where "s2 = cancel_timeouts s1"
  define s3 where "s3 = stop_current (free_handlers (ld_handlers (mq_data (save_session s2))) (save_session s2))"
  have s2: "mq_data s2 = mq_data s" "mq_task s2 = mq_task s" "cx_copy_handlers s2 = cx_copy_handlers s"
    "cx_connection s2 = cx_connection s" "ly_at s2 = ly_at s"
    by (simp_all add: s2_def s1_def cancel_timeouts_def Let_def frame)
  have "context_part s3 = context_part (save_session s2)" by (simp add: s3_def part)
  also have "\<dots> = (kept_handlers s, stored_tasks s, ld_last_msg_id (mq_data s), gl_backoff s2,
      IOTC_SESSION_CONTINUE, \<lambda>c. user_data c s)"
    using part_save_session [of s2] assms(1) unfolding s2 kept_handlers_def stored_tasks_def by simp
  finally have 3: "context_part s3 = (kept_handlers s, stored_tasks s, ld_last_msg_id (mq_data s), gl_backoff s2,
      IOTC_SESSION_CONTINUE, \<lambda>c. user_data c s)" .
  have "iotc_mqtt_logic_layer_close_externally context data st s =
      IOTC_PROCESS_CLOSE_EXTERNALLY_ON_NEXT_LAYER context data st (release_layer context s3)"
    using assms(2,3) by (auto simp: iotc_mqtt_logic_layer_close_externally_def Let_def case_prod_beta s1_def s2_def s3_def)
  with assms(4) have "context_part s' = context_part (release_layer context s3)"
    by (metis part_primitives(11) snd_conv)
  then show ?thesis by (simp add: part_release 3)
qed

section \<open>Starting again\<close>

lemma init_restores:
  fixes s :: "'z mqtt_scheme"
  assumes "context_part s = (h, q, n, b, IOTC_SESSION_CONTINUE, u)" and "u context = NULL"
    and "iotc_mqtt_logic_layer_init context data IOTC_STATE_OK s = (r, s')" and "user_data context s' \<noteq> NULL"
  shows "ld_q12 (mq_data s') = q \<and> ld_last_msg_id (mq_data s') = n \<and> (h \<noteq> None \<longrightarrow> ld_handlers (mq_data s') = h)
    \<and> ld_handlers (mq_data s') \<noteq> None \<and> ld_q0 (mq_data s') = [] \<and> ld_current_q0 (mq_data s') = NULL
    \<and> cd_connection_state (cx_connection s') = IOTC_CONNECTION_STATE_OPENING"
proof -
  obtain ok s1 where a: "alloc_layer_data context s = (ok, s1)" by fastforce
  have free: "user_data context (free_user_data context x) = NULL" for x :: "'z mqtt_scheme"
    by (simp add: free_user_data_def set_user_data_def)
  have ok: ok
  proof (rule ccontr)
    assume "\<not> ok"
    with assms(3) a have "s' = free_user_data context s1" by (simp add: iotc_mqtt_logic_layer_init_def)
    with free assms(4) show False by simp
  qed
  from assms(1,2) have un: "user_data context s = NULL" and c: "cx_copy_handlers s = h" "cx_copy_q12 s = q"
    "cx_copy_last_msg_id s = n" "cd_session_type (cx_connection s) = IOTC_SESSION_CONTINUE"
    by (auto simp: context_part_def)
  from a ok un have d1: "mq_data s1 = zeroed_logic_data" "cx_connection s1 = cx_connection s"
    "cx_copy_handlers s1 = h" "cx_copy_q12 s1 = q" "cx_copy_last_msg_id s1 = n"
    by (auto simp: alloc_layer_data_def set_user_data_def c split: prod.splits if_splits)
  define s2 where "s2 = restore_session s1"
  have d2: "mq_data s2 = zeroed_logic_data\<lparr>ld_handlers := h, ld_q12 := q, ld_last_msg_id := n\<rparr>"
    using c(4) by (simp add: s2_def restore_session_def d1)
  define s3 where "s3 = ensure_handlers s2"
  have d3: "ld_q12 (mq_data s3) = q" "ld_last_msg_id (mq_data s3) = n" "ld_q0 (mq_data s3) = []"
    "ld_current_q0 (mq_data s3) = NULL" "h \<noteq> None \<longrightarrow> ld_handlers (mq_data s3) = h"
    by (auto simp: s3_def d2 zeroed_logic_data_def ensure_handlers_def split: prod.splits)
  have init: "iotc_mqtt_logic_layer_init context data IOTC_STATE_OK s =
      (if ld_handlers (mq_data s3) = None then (IOTC_OUT_OF_MEMORY, free_user_data context s3)
       else IOTC_PROCESS_INIT_ON_PREV_LAYER context data IOTC_STATE_OK
         (set_connection_state IOTC_CONNECTION_STATE_OPENING s3))"
    using a ok by (simp add: iotc_mqtt_logic_layer_init_def s2_def s3_def Let_def)
  with assms(3,4) free [of s3] have hs: "ld_handlers (mq_data s3) \<noteq> None"
    by (cases "ld_handlers (mq_data s3)") auto
  with init assms(3) have "s' = snd (IOTC_PROCESS_INIT_ON_PREV_LAYER context data IOTC_STATE_OK
      (set_connection_state IOTC_CONNECTION_STATE_OPENING s3))" by (metis snd_conv)
  then show ?thesis using d3 hs by (simp add: frame set_connection_state_def)
qed


definition can_alloc :: "mem \<Rightarrow> bool" where
  "can_alloc m \<longleftrightarrow> m_ok m = (\<lambda>i n. True) \<and> 0 < m_next m"

named_theorems grants \<open>operations that keep memory available\<close>

lemma grants_mem [grants]:
  "can_alloc m \<Longrightarrow> can_alloc (IOTC_SAFE_FREE p m)" "can_alloc m \<Longrightarrow> can_alloc (m\<lparr>m_bad := x\<rparr>)"
  "can_alloc m \<Longrightarrow> can_alloc (snd (iotc_alloc n m))"
  by (auto simp: can_alloc_def IOTC_SAFE_FREE_def iotc_free_def iotc_bsp_mem_free_def iotc_alloc_def iotc_bsp_mem_alloc_def)

lemma grants_free_desc [grants]: "can_alloc m \<Longrightarrow> can_alloc (iotc_free_desc d m)" "can_alloc m \<Longrightarrow> can_alloc (str_free x m)"
  by (auto simp: iotc_free_desc_def str_free_def Let_def grants split: option.split)

lemma grants_execute [grants]: "can_alloc (ev_mem s) \<Longrightarrow> can_alloc (ev_mem (snd (iotc_evttd_execute h s)))"
  using grants_mem(3) [of "ev_mem s" sizeof_event_handle_queue]
  by (auto simp: iotc_evttd_execute_def iotc_evtd_execute_def Let_def iotc_lock_critical_section_def
      iotc_unlock_critical_section_def split: prod.splits option.splits)

lemma grants_continue [grants]:
  "can_alloc (ev_mem s) \<Longrightarrow> can_alloc (ev_mem (snd (IOTC_LAYER_CONTINUE_WITH dir f c d st s)))"
  by (simp add: IOTC_LAYER_CONTINUE_WITH_def iotc_layer_continue_with_impl_def Let_def case_prod_beta grants)

lemma grants_cancel [grants]: "can_alloc (ev_mem s) \<Longrightarrow> can_alloc (ev_mem (snd (iotc_evtd_cancel p s)))"
  by (simp add: iotc_evtd_cancel_def iotc_lock_critical_section_def iotc_unlock_critical_section_def Let_def grants
      split: prod.splits)

lemma grants_tasks [grants]:
  fixes s :: "'z mqtt_scheme"
  assumes "can_alloc (ev_mem s)"
  shows "can_alloc (ev_mem (cancel_task_timeout p s))" and "can_alloc (ev_mem (write_task p g s))"
    and "can_alloc (ev_mem (free_user_data p s))"
  using assms by (simp_all add: cancel_task_timeout_def iotc_io_timeouts_remove_def write_task_def on_mem_def
      free_user_data_def set_user_data_def Let_def grants)

lemma grants_free_task [grants]: "can_alloc (ev_mem s) \<Longrightarrow> can_alloc (ev_mem (iotc_mqtt_logic_free_task p s))"
  by (simp add: iotc_mqtt_logic_free_task_def iotc_mqtt_logic_free_task_data_def on_mem_def Let_def grants
      iotc_mqtt_task_spec_data_free_publish_data_def iotc_mqtt_task_spec_data_free_subscribe_data_def
      split: scenario.split specific_data.split)

lemma grants_shutdown [grants]:
  "can_alloc (ev_mem s) \<Longrightarrow> can_alloc (ev_mem (iotc_mqtt_logic_task_queue_shutdown ts s))"
  by (induction ts arbitrary: s) (simp_all add: grants)

lemma grants_fold:
  fixes s :: "'z mqtt_scheme"
  shows "(\<And>t s. can_alloc (ev_mem (s :: 'z mqtt_scheme)) \<Longrightarrow> can_alloc (ev_mem (f t s))) \<Longrightarrow>
    can_alloc (ev_mem s) \<Longrightarrow> can_alloc (ev_mem (fold f ts s))"
  by (induction ts arbitrary: s) simp_all

lemma grants_cancel_timeouts [grants]: "can_alloc (ev_mem s) \<Longrightarrow> can_alloc (ev_mem (cancel_timeouts s))"
  by (simp add: cancel_timeouts_def Let_def grants grants_fold)

lemma grants_save_session [grants]: "can_alloc (ev_mem s) \<Longrightarrow> can_alloc (ev_mem (save_session s))"
  by (auto simp: save_session_def Let_def make_context_null_def grants intro!: grants_fold split: option.split)

lemma grants_release:
  "can_alloc (ev_mem s) \<Longrightarrow> ld_current_q0 (mq_data s) = NULL \<Longrightarrow> can_alloc (ev_mem (release_layer c s))"
  by (simp add: release_layer_def Let_def grants frame)

lemma init_granted:
  fixes s :: "'z mqtt_scheme"
  assumes "can_alloc (ev_mem s)" and "context_part s = (Some v, q, n, b, IOTC_SESSION_CONTINUE, u)" and "u context = NULL"
  shows "user_data context (snd (iotc_mqtt_logic_layer_init context data st s)) \<noteq> NULL"
proof -
  from assms(2,3) have c: "user_data context s = NULL" "cx_copy_handlers s = Some v"
    "cd_session_type (cx_connection s) = IOTC_SESSION_CONTINUE" by (auto simp: context_part_def)
  obtain s1 where a: "alloc_layer_data context s = (True, s1)" and s1: "user_data context s1 \<noteq> NULL"
    "cx_copy_handlers s1 = Some v" "cd_session_type (cx_connection s1) = IOTC_SESSION_CONTINUE"
    using assms(1) c by (auto simp: alloc_layer_data_def can_alloc_def iotc_alloc_def iotc_bsp_mem_alloc_def
        set_user_data_def)
  have h: "ld_handlers (mq_data (restore_session s1)) = Some v" "ly_at (restore_session s1) = ly_at s1"
    using s1(2,3) by (simp_all add: restore_session_def)
  then have "iotc_mqtt_logic_layer_init context data st s = IOTC_PROCESS_INIT_ON_PREV_LAYER context data st
      (set_connection_state IOTC_CONNECTION_STATE_OPENING (restore_session s1))"
    by (simp add: iotc_mqtt_logic_layer_init_def a ensure_handlers_def)
  then show ?thesis using s1(1) h(2) by (simp add: continue_user_data set_connection_state_def)
qed

lemma save_session_data:
  assumes "cd_session_type (cx_connection s) = IOTC_SESSION_CONTINUE"
  shows "ld_current_q0 (mq_data (save_session s)) = ld_current_q0 (mq_data s)"
    and "ld_handlers (mq_data (save_session s)) = (case ld_handlers (mq_data s) of None \<Rightarrow> None
      | Some v \<Rightarrow> if v_elem_no v > 0 then None else Some v)"
proof -
  have fold: "mq_data (fold make_context_null ts x) = mq_data x" for ts and x :: "'a mqtt_scheme"
    by (induction ts arbitrary: x) (simp_all add: make_context_null_def frame)
  show "ld_current_q0 (mq_data (save_session s)) = ld_current_q0 (mq_data s)"
    using assms by (simp add: save_session_def Let_def fold split: option.split)
  show "ld_handlers (mq_data (save_session s)) = (case ld_handlers (mq_data s) of None \<Rightarrow> None
      | Some v \<Rightarrow> if v_elem_no v > 0 then None else Some v)"
    using assms by (simp add: save_session_def Let_def fold split: option.split)
qed

definition session_example :: mqtt where
  "session_example = example_mqtt (empty_mem (\<lambda>i n. True)) small_vec
     (\<lambda>p. zeroed_task\<lparr>mt_session_state := if p = 60 then IOTC_MQTT_LOGIC_TASK_SESSION_STORE
        else IOTC_MQTT_LOGIC_TASK_SESSION_UNSET\<rparr>)
     (\<lambda>p. Publish_data None None IOTC_MQTT_RETAIN_FALSE IOTC_MQTT_DUP_FALSE) (\<lambda>p. zeroed_message)
     (zeroed_logic_data\<lparr>ld_q12 := [60, 61], ld_last_msg_id := 2, ld_handlers := Some (small_vec\<lparr>v_elem_no := 1\<rparr>)\<rparr>)
     IOTC_CONNECTION_STATE_OPENED"


end
