(* ===== verification/Iotc_Mqtt_Heap.thy ===== *)
theory Iotc_Mqtt_Heap
  imports Iotc_Mqtt_Session
begin

text \<open>
  Who owns the blocks of a running program: the nodes of the pending calls, the delayed events and the blocks that the
  tasks and messages at hand consist of. What an operation does is stated as its effect on these three, so that nothing
  else can be lost or released twice.
\<close>

section \<open>The heap of a running program\<close>

text \<open>
  \<open>hs\<close> are the pending calls, \<open>M\<close> the blocks at hand and \<open>base\<close> all the others. Memory is granted on request.
\<close>

definition sys :: "(ptr \<rightharpoonup> nat) \<Rightarrow> event_handle list \<Rightarrow> ptr multiset \<Rightarrow> 'z layered_scheme \<Rightarrow> bool" where
  "sys base hs M s \<longleftrightarrow>
     (\<exists>qs. chain (ev_next s) (ev_call_queue s) qs \<and> map (ev_queued s) qs = hs
        \<and> owns_blocks base (mset qs + (mset (vec_list (ev_timers s)) + M)) (ev_mem s))
     \<and> lock_free s \<and> all_granted (ev_mem s) \<and> te_inv (ev_timers s) (ev_te s) \<and> vec_inv (ctx_io_timeouts s)"

lemma sys_updates [simp]:
  fixes s :: "'z mqtt_scheme"
  shows "sys base hs M (s\<lparr>mq_task := a\<rparr>) = sys base hs M s" "sys base hs M (s\<lparr>mq_spec := b\<rparr>) = sys base hs M s"
    "sys base hs M (s\<lparr>mq_msg := c\<rparr>) = sys base hs M s" "sys base hs M (s\<lparr>mq_data := d\<rparr>) = sys base hs M s"
    "sys base hs M (s\<lparr>cx_connection := e\<rparr>) = sys base hs M s"
    "sys base hs M (on_data f s) = sys base hs M s" "sys base hs M (put_message p msg s) = sys base hs M s"
  by (simp_all add: sys_def lock_free_def on_data_def put_message_def)

lemma sys_ly_at [simp]: "sys base hs M (s\<lparr>ly_at := f\<rparr>) = sys base hs M s"
  by (simp add: sys_def lock_free_def)

lemma owns_live: "owns_blocks base M m \<Longrightarrow> p \<in># M \<Longrightarrow> m_live m p \<noteq> None"
  by (auto simp: owns_blocks_def)

lemma owns_wf: "owns_blocks base M m \<Longrightarrow> wf_mem m"
  by (simp add: owns_blocks_def)

lemma sys_live: "sys base hs M s \<Longrightarrow> p \<in># M \<Longrightarrow> m_live (ev_mem s) p \<noteq> None"
  unfolding sys_def by (auto dest: owns_live [of _ _ _ p])

lemma sys_not_NULL: "sys base hs M s \<Longrightarrow> p \<in># M \<Longrightarrow> p \<noteq> NULL"
  unfolding sys_def owns_blocks_def by (intro notI) auto

lemma sys_not_bad: "sys base hs M s \<Longrightarrow> \<not> m_bad (ev_mem s)"
  unfolding sys_def owns_blocks_def by auto

lemma sys_wf: "sys base hs M s \<Longrightarrow> wf_mem (ev_mem s)"
  unfolding sys_def by (auto dest: owns_wf)

lemma sys_write_task [simp]: "sys base hs M s \<Longrightarrow> p \<in># M \<Longrightarrow> sys base hs M (write_task p f s)"
  using sys_live [of base hs M s p] unfolding write_task_def Let_def by auto

lemma sys_mem:
  assumes "sys base hs (A + M) s" and "\<And>X m. owns_blocks base (A + X) m \<Longrightarrow> owns_blocks base X (f m)"
    and "\<And>m. m_ok (f m) = m_ok m"
  shows "sys base hs M (on_mem f s)"
proof -
  from assms(1) obtain qs where "chain (ev_next s) (ev_call_queue s) qs" "map (ev_queued s) qs = hs"
    and o: "owns_blocks base (A + (mset qs + (mset (vec_list (ev_timers s)) + M))) (ev_mem s)"
    by (auto simp: sys_def ac_simps)
  with assms(2) [OF o] assms(1,3) show ?thesis
    by (auto simp: sys_def on_mem_def lock_free_def all_granted_def intro!: exI [of _ qs])
qed

lemma sys_free: "sys base hs (add_mset p M) s \<Longrightarrow> sys base hs M (on_mem (IOTC_SAFE_FREE p) s)"
  by (rule sys_mem [of base hs "{#p#}"]) (simp_all add: owns_free mem_simps)

lemma message_free_ok: "m_ok (iotc_mqtt_message_free p msg m) = m_ok m"
proof -
  have d: "m_ok (iotc_free_desc x m) = m_ok m" for x m
    by (auto simp: iotc_free_desc_def mem_simps Let_def split: option.split)
  show ?thesis
    by (simp add: iotc_mqtt_message_free_def free_body_def Let_def d mem_simps split: mqtt_type.split mqtt_body.split option.split)
qed

lemma sys_free_message: "sys base hs (message_blocks p (mq_msg s p) + M) s \<Longrightarrow> sys base hs M (free_message p s)"
  unfolding free_message_def
  by (rule sys_mem [where f = "iotc_mqtt_message_free p (mq_msg s p)"]) (auto simp: owns_message_free message_free_ok)

section \<open>Allocation\<close>

lemma sys_alloc:
  assumes "sys base hs M s" and "iotc_alloc n (ev_mem s) = (p, m)" and "n < 2 ^ 63"
  shows "p \<noteq> NULL \<and> sys base hs (add_mset p M) (s\<lparr>ev_mem := m\<rparr>) \<and> p \<notin># M"
proof -
  from assms(1) obtain qs where q: "chain (ev_next s) (ev_call_queue s) qs" "map (ev_queued s) qs = hs"
    and o: "owns_blocks base (mset qs + (mset (vec_list (ev_timers s)) + M)) (ev_mem s)" by (auto simp: sys_def)
  have g: "all_granted (ev_mem s)" using assms(1) by (simp add: sys_def)
  have p: "p \<noteq> NULL" using alloc_all_granted [OF g owns_wf [OF o] assms(3)] assms(2) owns_wf [OF o]
    by (auto simp: wf_mem_def)
  from alloc_fresh [OF owns_wf [OF o] assms(2)] have "m_live (ev_mem s) p = None" using p by simp
  then have "p \<notin># M" using owns_live [OF o, of p] by auto
  moreover have "owns_blocks base (mset qs + (mset (vec_list (ev_timers s)) + add_mset p M)) m"
    using owns_alloc [OF o assms(2)] p by simp
  ultimately show ?thesis using q p assms(1) all_granted_alloc [OF g assms(2)]
    by (auto simp: sys_def lock_free_def)
qed

lemma sys_alloc_message:
  assumes "sys base hs M s" and "alloc_message s = (p, s')"
  shows "p \<noteq> NULL \<and> p \<notin># M \<and> sys base hs (add_mset p M) s'
    \<and> s' = s\<lparr>ev_mem := ev_mem s', mq_msg := (mq_msg s)(p := zeroed_message)\<rparr>"
proof -
  obtain q m where a: "iotc_alloc sizeof_mqtt_message (ev_mem s) = (q, m)" by fastforce
  from sys_alloc [OF assms(1) a] have "q \<noteq> NULL" "sys base hs (add_mset q M) (s\<lparr>ev_mem := m\<rparr>)" "q \<notin># M"
    by (simp_all add: sizeof_mqtt_message_def)
  with assms(2) a show ?thesis by (auto simp: alloc_message_def sys_def lock_free_def)
qed

section \<open>Calls\<close>

lemma sys_queue: "sys base hs M s \<Longrightarrow> \<exists>qs. queue_ok qs s \<and> map (ev_queued s) qs = hs
    \<and> owns_blocks base (mset qs + (mset (vec_list (ev_timers s)) + M)) (ev_mem s)"
  unfolding sys_def queue_ok_def using owns_live owns_wf by fastforce

lemma sys_post:
  assumes "sys base hs M s" and "iotc_evttd_execute h s = (e, s')"
  shows "e \<noteq> NULL \<and> sys base (hs @ [h]) M s'"
proof -
  obtain qs where q: "queue_ok qs s" "map (ev_queued s) qs = hs"
    and o: "owns_blocks base (mset qs + (mset (vec_list (ev_timers s)) + M)) (ev_mem s)"
    using sys_queue [OF assms(1)] by blast
  have g: "all_granted (ev_mem s)" using assms(1) by (simp add: sys_def)
  then have ok: "m_ok (ev_mem s) (m_seq (ev_mem s)) sizeof_event_handle_queue"
    by (simp add: all_granted_def sizeof_event_handle_queue_def)
  obtain e' m nx hd' where x: "iotc_evttd_execute h s =
      (e', s\<lparr>ev_mem := m, ev_queued := (ev_queued s)(e' := h), ev_next := nx, ev_call_queue := hd'\<rparr>)"
    and e: "e' \<noteq> NULL" "e' \<notin> set qs" and c: "chain nx hd' (qs @ [e'])"
    and al: "iotc_alloc sizeof_event_handle_queue (ev_mem s) = (e', m)"
    by (rule evttd_execute_posts [OF q(1) ok])
  have "owns_blocks base (mset (qs @ [e']) + (mset (vec_list (ev_timers s)) + M)) m"
    using owns_alloc [OF o al] e(1) by (simp add: ac_simps)
  moreover have "map ((ev_queued s)(e' := h)) (qs @ [e']) = hs @ [h]" using q(2) e(2) by auto
  ultimately show ?thesis using assms x e c all_granted_alloc [OF g al]
    by (auto simp: sys_def lock_free_def intro!: exI [of _ "qs @ [e']"])
qed

lemma sys_continue:
  assumes "sys base hs M s" and "neighbour_ok context s dir"
    and "IOTC_LAYER_CONTINUE_WITH dir (layer_target f) context data st s = (r, s')"
  shows "r = IOTC_STATE_OK \<and> sys base (hs @ [call_handle context s (dir, f, data, st)]) M s'
    \<and> ly_at s' = (ly_at s)(context := (ly_at s context)\<lparr>ly_state := layer_step f st (ly_state (ly_at s context))\<rparr>)"
proof -
  let ?l = "layer_in_dir dir context s" and ?h = "call_handle context s (dir, f, data, st)"
  have l: "?l \<noteq> NULL" and i: "interface_ok (ly_funcs (ly_at s ?l))" using assms(2) by (auto simp: neighbour_ok_def)
  have t: "layer_target f (ly_funcs (ly_at s ?l)) \<noteq> NULL" using i by (cases f) (auto simp: interface_ok_def)
  obtain e s1 where p: "iotc_evttd_execute ?h s = (e, s1)" by fastforce
  from sys_post [OF assms(1) p] have e: "e \<noteq> NULL" "sys base (hs @ [?h]) M s1" by auto
  have la: "ly_at s1 = ly_at s" using evttd_execute_layers [of ?h s] p by simp
  have n: "get_next_layer_state (layer_target f (ly_funcs (ly_at s ?l))) context ?l st s1 =
      layer_step f st (ly_state (ly_at s context))"
    using next_state_step [of s1 ?l f "context" st] i by (simp add: la)
  from assms(3) l t p e(1) have "r = IOTC_STATE_OK" and s': "s' = s1\<lparr>ly_at := (ly_at s)(context :=
      (ly_at s context)\<lparr>ly_state := layer_step f st (ly_state (ly_at s context))\<rparr>)\<rparr>"
    by (auto simp: IOTC_LAYER_CONTINUE_WITH_def iotc_layer_continue_with_impl_def Let_def call_handle_def n la)
  with e(2) show ?thesis by simp
qed

lemma continue_frame:
  fixes s :: "'z mqtt_scheme"
  assumes "IOTC_LAYER_CONTINUE_WITH dir f context data st s = (r, s')"
  shows "mq_task s' = mq_task s" "mq_data s' = mq_data s" "cx_connection s' = cx_connection s" "ev_te s' = ev_te s"
    "mq_msg s' = mq_msg s" "mq_spec s' = mq_spec s"
proof -
  have s': "s' = snd (IOTC_LAYER_CONTINUE_WITH dir f context data st s)" by (simp add: assms)
  show "mq_task s' = mq_task s" "mq_data s' = mq_data s" "cx_connection s' = cx_connection s" "mq_msg s' = mq_msg s"
    "mq_spec s' = mq_spec s" by (simp_all add: s' frame)
  have "ev_te (snd (iotc_evttd_execute h s)) = ev_te s" for h and s :: "'z mqtt_scheme"
    by (simp add: iotc_evttd_execute_def iotc_evtd_execute_def Let_def iotc_lock_critical_section_def
        iotc_unlock_critical_section_def split: prod.splits option.splits)
  then show "ev_te s' = ev_te s" unfolding s'
    by (simp add: IOTC_LAYER_CONTINUE_WITH_def iotc_layer_continue_with_impl_def Let_def case_prod_beta)
qed

lemma layers_upd:
  assumes "neighbour_ok context s d" and "ly_at s' = ly_at s"
  shows "neighbour_ok context s' d" "call_handle context s' c = call_handle context s c"
proof -
  have "layer_in_dir d context s' = layer_in_dir d context s" for d using assms(2) by (cases d) simp_all
  with assms show "neighbour_ok context s' d" "call_handle context s' c = call_handle context s c"
    by (simp_all add: neighbour_ok_def call_handle_def)
qed

section \<open>Timeouts\<close>

definition timer_known :: "ptr \<Rightarrow> 'z evtd_scheme \<Rightarrow> bool" where
  "timer_known h s \<longleftrightarrow> (timeout_set h s \<longrightarrow> te_hnd (ev_te s) h \<in> set (vec_list (ev_timers s)))"

lemma remove_inv: "vec_inv (ctx_io_timeouts s) \<Longrightarrow> vec_inv (ctx_io_timeouts (iotc_io_timeouts_remove h s))"
  using vec_find_nonneg(1) [of "ctx_io_timeouts s" h iotc_io_timeouts_compare_pointers]
    vec_del_spec(1) [of "ctx_io_timeouts s"] vec_list_length [of "ctx_io_timeouts s"]
  by (fastforce simp: iotc_io_timeouts_remove_def Let_def vec_inv_def)

lemma swap_time_events_capacity [simp]: "v_capacity (fst (iotc_swap_time_events v s i j)) = v_capacity v"
  by (simp add: iotc_swap_time_events_def iotc_vector_swap_elems_def Let_def)

lemma move_to_the_end_capacity: "v_capacity (fst (move_to_the_end_loop v s i j k)) = v_capacity v"
proof (induction v s i j k rule: move_to_the_end_loop.induct)
  case (1 v s i j k)
  then show ?case by (subst move_to_the_end_loop.simps) (simp add: Let_def)
qed

lemma cancel_capacity: "iotc_time_event_cancel v s h = (st, p, v', s') \<Longrightarrow> v_capacity v' = v_capacity v"
  by (auto simp: iotc_time_event_cancel_def iotc_time_event_move_to_the_end_def iotc_vector_del_def
      iotc_vector_swap_elems_def Let_def case_prod_beta move_to_the_end_capacity split: if_splits)

definition has_room :: "'z evtd_scheme \<Rightarrow> bool" where
  "has_room s \<longleftrightarrow> v_elem_no (ev_timers s) < v_capacity (ev_timers s)"

lemma sys_cancel:
  assumes "sys base hs M s" and "timer_known h s" and "timeout_set h s"
    and "te_time_event_handle (te_at (ev_te s) (te_hnd (ev_te s) h)) = h" and "h \<noteq> NULL"
  shows "sys base hs M (snd (iotc_evtd_cancel h s))"
    and "te_hnd (ev_te (snd (iotc_evtd_cancel h s))) = (te_hnd (ev_te s))(h := NULL)"
    and "has_room (snd (iotc_evtd_cancel h s))"
proof -
  let ?p = "te_hnd (ev_te s) h"
  obtain us vs where l: "vec_list (ev_timers s) = us @ ?p # vs" using assms(2,3) by (metis timer_known_def split_list)
  have i: "te_inv (ev_timers s) (ev_te s)" using assms(1) by (simp add: sys_def)
  from te_cancel_all [OF i l refl] assms(4,5) obtain v te where
    c: "iotc_time_event_cancel (ev_timers s) (ev_te s) h = (IOTC_STATE_OK, Some ?p, v, te)"
    and i2: "te_inv v te" and l2: "vec_list v = us @ vs" and h2: "te_hnd te = (te_hnd (ev_te s))(h := NULL)" by auto
  have f: "\<not> ev_cs_state s" "\<not> ev_spins s" using assms(1) by (auto simp: sys_def lock_free_def)
  have e: "snd (iotc_evtd_cancel h s) = s\<lparr>ev_timers := v, ev_te := te, ev_mem := IOTC_SAFE_FREE ?p (ev_mem s)\<rparr>"
    using c f by (cases s) (simp add: iotc_evtd_cancel_def Let_def iotc_lock_critical_section_def
        iotc_unlock_critical_section_def)
  from assms(1) obtain qs where q: "chain (ev_next s) (ev_call_queue s) qs" "map (ev_queued s) qs = hs"
    and o: "owns_blocks base (mset qs + (mset (vec_list (ev_timers s)) + M)) (ev_mem s)" by (auto simp: sys_def)
  have "owns_blocks base (add_mset ?p (mset qs + (mset (us @ vs) + M))) (ev_mem s)" using o by (simp add: l)
  from owns_free [OF this] show "sys base hs M (snd (iotc_evtd_cancel h s))" unfolding e using assms(1) q i2 l2
    by (auto simp: sys_def lock_free_def intro!: exI [of _ qs])
  show "te_hnd (ev_te (snd (iotc_evtd_cancel h s))) = (te_hnd (ev_te s))(h := NULL)" by (simp add: e h2)
  have "vec_inv v" "vec_inv (ev_timers s)" using i i2 by (simp_all add: te_inv_def pos_ok_def)
  then have "v_elem_no v < v_elem_no (ev_timers s)" "v_elem_no (ev_timers s) \<le> v_capacity (ev_timers s)"
    using vec_list_length [of v] vec_list_length [of "ev_timers s"] by (auto simp: l l2 vec_inv_def)
  then show "has_room (snd (iotc_evtd_cancel h s))" using cancel_capacity [OF c] by (simp add: e has_room_def)
qed

lemma sys_execute_in:
  assumes "sys base hs M s" and "has_room s" and "h \<noteq> NULL"
    and "te_hnd (ev_te s) h = NULL" and "iotc_evtd_execute_in hdl t h s = (st, s')"
  shows "st = IOTC_STATE_OK \<and> sys base hs M s' \<and> (\<exists>p. te_hnd (ev_te s') = (te_hnd (ev_te s))(h := p)
    \<and> p \<in> set (vec_list (ev_timers s')) \<and> te_time (ev_te s') p = to_int64 (ev_current_step s + t)
    \<and> te_event_handle (te_at (ev_te s') p) = hdl)"
proof -
  obtain p m where al: "iotc_alloc sizeof_time_event (ev_mem s) = (p, m)" by fastforce
  obtain qs where q: "chain (ev_next s) (ev_call_queue s) qs" "map (ev_queued s) qs = hs"
    and o: "owns_blocks base (mset qs + (mset (vec_list (ev_timers s)) + M)) (ev_mem s)"
    and i: "te_inv (ev_timers s) (ev_te s)" and lk: "\<not> ev_cs_state s" "\<not> ev_spins s"
    and g: "all_granted (ev_mem s)" and tv: "vec_inv (ctx_io_timeouts s)"
    using assms(1) by (auto simp: sys_def lock_free_def)
  have p: "p \<noteq> NULL" using alloc_all_granted [OF g owns_wf [OF o], of sizeof_time_event] al owns_wf [OF o]
    by (auto simp: wf_mem_def sizeof_time_event_def)
  from alloc_fresh [OF owns_wf [OF o] al] p have "m_live (ev_mem s) p = None" by simp
  with owns_live [OF o, of p] have pn: "p \<notin> set (vec_list (ev_timers s))" by auto
  let ?e = "new_time_event hdl (to_int64 (ev_current_step s + t))"
  let ?te = "(ev_te s)\<lparr>te_at := (te_at (ev_te s))(p := ?e)\<rparr>"
  note i1 = te_inv_new [OF i pn, of ?e]
  have inv: "vec_inv (ev_timers s)" using i by (simp add: te_inv_def pos_ok_def)
  from vec_push_room [OF inv assms(2) [unfolded has_room_def], of p m] obtain v1 where
    push: "iotc_vector_push (ev_timers s) p m = (Some (length (vec_list (ev_timers s))), v1, m)" and v1: "vec_inv v1"
      "vec_list v1 = vec_list (ev_timers s) @ [p]" by auto
  obtain st' v te m2 where a: "iotc_time_event_add (ev_timers s) ?te p h m = (st', v, te, m2)" by (metis prod_cases4)
  have te: "te_time_event_handle (te_at ?te p) = NULL" "h \<noteq> NULL \<longrightarrow> te_hnd ?te h = NULL"
    using assms(4) by (simp_all add: new_time_event_def)
  note r = te_add_pushed [OF push v1 i1 p pn te a]
  have s': "s' = s\<lparr>ev_timers := v, ev_te := te, ev_mem := m\<rparr>" "st = IOTC_STATE_OK"
    using assms(5) al p a r lk by (auto simp: iotc_evtd_execute_in_def Let_def iotc_lock_critical_section_def
        iotc_unlock_critical_section_def)
  have "owns_blocks base (mset qs + (mset (vec_list v) + M)) m" using owns_alloc [OF o al] p r
    by (simp add: mset_queue_insert)
  then show ?thesis using r s' q tv lk all_granted_alloc [OF g al] assms(3)
    by (auto simp: sys_def lock_free_def new_time_event_def intro!: exI [of _ qs])
qed


section \<open>A heap to try the properties on\<close>

definition example_heap :: "ptr list \<Rightarrow> mem" where
  "example_heap ps = \<lparr>m_next = 100, m_live = (\<lambda>p. if p \<in> set ps then Some 1 else None), m_seq = 0,
     m_ok = (\<lambda>i n. True), m_bad = False\<rparr>"

lemma example_te: "te_hnd (ev_te (example_mqtt m v ts sp ms d st)) = (\<lambda>h. NULL)"
  by (simp add: example_mqtt_defs)

lemma sys_example:
  assumes "distinct ps" and "\<forall>p\<in>set ps. 0 < p \<and> p < 100"
  shows "sys Map.empty [] (mset ps) (example_mqtt (example_heap ps) small_vec ts sp ms d st)"
proof -
  have "count (mset ps) p \<le> 1" for p using assms(1) by (simp add: distinct_count_atmost_1)
  then have "owns_blocks Map.empty (mset ps) (example_heap ps)" using assms(2)
    by (auto simp: owns_blocks_def example_heap_def wf_mem_def)
  moreover have "vec_inv small_vec" "vec_list small_vec = []" by (simp_all add: vec_inv_def small_vec_def vec_list_def)
  ultimately show ?thesis
    by (simp add: sys_def example_mqtt_defs lock_free_def te_inv_def pos_ok_def all_granted_def)
       (simp add: example_heap_def)
qed

end
