(* ===== verification/Iotc_Mqtt_Publish.thy ===== *)
theory Iotc_Mqtt_Publish
  imports Iotc_Mqtt_Heap
begin

text \<open>
  What becomes of the messages: the end of a publish with quality of service 1, and the way of a received message
  to the handler of its topic.
\<close>

section \<open>Running the coroutine of a task\<close>

lemma set_arg_logic [simp]:
  "set_arg 2 (state_arg x) (make_handle4 f c t st m) = make_handle4 f c t x m"
  "set_arg 3 p (make_handle4 f c t st m) = make_handle4 f c t st p"
  by (simp_all add: set_arg_def make_handle4_def iotc_make_handle_argc4_def)

lemma set_arg_order [simp]:
  "set_arg 3 p (set_arg 2 (state_arg x) (make_handle4 f c t st m)) = make_handle4 f c t x p"
  by simp

abbreviation (input) next_of :: "'z mqtt_scheme \<Rightarrow> 'z mqtt_scheme \<Rightarrow> iotc_state \<times> 'z mqtt_scheme" where
  "next_of s \<equiv> iotc_mqtt_logic_layer_run_next_q0_task (task_call (length (ld_q0 (mq_data s))))"

lemma execute_logic:
  assumes "mt_logic (mq_task s t) = make_handle4 f c p st m"
  shows "execute_task t s = task_function (next_of s) f [c, p, state_arg st, m] s"
  using assms by (simp add: execute_task_def iotc_evtd_execute_handle_def make_handle4_def iotc_make_handle_argc4_def
      task_fuel_def)

lemma task_publish_q1 [simp]:
  "task_function next_task fn_publish_q1 [c, t, state_arg st, m] s = do_mqtt_publish_q1 next_task c t st m s"
  by (simp add: task_function_def fn_defs)

lemma deliver_publish_q1:
  assumes "mt_logic (mq_task s t) = make_handle4 fn_publish_q1 c t st0 m0"
  shows "deliver t p st s = do_mqtt_publish_q1 (next_of s) c t st p
    (write_task t (\<lambda>x. x\<lparr>mt_logic := make_handle4 fn_publish_q1 c t st p\<rparr>) s)"
proof -
  have "write_task t (\<lambda>x. x\<lparr>mt_logic := set_arg 3 p (set_arg 2 (state_arg st) (mt_logic x))\<rparr>) s
      = write_task t (\<lambda>x. x\<lparr>mt_logic := make_handle4 fn_publish_q1 c t st p\<rparr>) s"
    using assms by (simp add: write_task_def Let_def on_mem_def)
  then show ?thesis unfolding deliver_def by (subst execute_logic [of _ _ fn_publish_q1 c t st p]) (simp_all add: frame)
qed

section \<open>The blocks of a task\<close>

definition spec_blocks :: "specific_data \<Rightarrow> ptr multiset" where
  "spec_blocks d = str_blocks (spec_topic d)
     + (case d of Publish_data topic data retain dup \<Rightarrow> desc_blocks data | _ \<Rightarrow> {#})"

definition task_blocks :: "ptr \<Rightarrow> 'z mqtt_scheme \<Rightarrow> ptr multiset" where
  "task_blocks t s = add_mset t
     (if mt_data_u (mq_task s t) = NULL then {#}
      else add_mset (mt_data_u (mq_task s t)) (spec_blocks (mq_spec s (mt_data_u (mq_task s t)))))"

lemma free_desc_ok [simp]: "m_ok (iotc_free_desc x m) = m_ok m"
  by (auto simp: iotc_free_desc_def mem_simps Let_def split: option.split)

lemma str_free_ok [simp]: "m_ok (str_free x m) = m_ok m"
  by (auto simp: str_free_def split: option.split)

lemma sys_free_publish_data:
  assumes "sys base hs (add_mset p (spec_blocks (mq_spec s p)) + M) s" and "mq_spec s p = Publish_data tp data r d"
  shows "sys base hs M (iotc_mqtt_task_spec_data_free_publish_data p s)"
  unfolding iotc_mqtt_task_spec_data_free_publish_data_def
proof (rule sys_mem [OF assms(1)])
  fix X m assume "owns_blocks base (add_mset p (spec_blocks (mq_spec s p)) + X) m"
  then have "owns_blocks base (desc_blocks data + (str_blocks tp + add_mset p X)) m"
    by (simp add: assms(2) spec_blocks_def ac_simps)
  from owns_free [OF owns_str_free [OF owns_free_desc [OF this]]]
  show "owns_blocks base X
     (let m1 = (case mq_spec s p of Publish_data topic data retain dup \<Rightarrow> iotc_free_desc data m
                | Subscribe_data topic handler qos \<Rightarrow> m);
          m2 = str_free (spec_topic (mq_spec s p)) m1 in IOTC_SAFE_FREE p m2)"
    by (simp add: assms(2))
qed (simp add: assms(2))

lemma sys_free_task_data:
  assumes "sys base hs (task_blocks t s + M) s" and "mt_scenario (mq_task s t) = IOTC_MQTT_PUBLISH"
    and "mt_data_u (mq_task s t) \<noteq> NULL" and "mq_spec s (mt_data_u (mq_task s t)) = Publish_data tp data r d"
  shows "sys base hs (add_mset t M) (iotc_mqtt_logic_free_task_data t s)"
    "mt_data_u (mq_task (iotc_mqtt_logic_free_task_data t s) t) = NULL"
proof -
  let ?p = "mt_data_u (mq_task s t)"
  have "sys base hs (add_mset ?p (spec_blocks (mq_spec s ?p)) + add_mset t M) s"
    using assms(1,3) by (simp add: task_blocks_def add_mset_commute)
  from sys_free_publish_data [OF this assms(4)] assms(2)
  show "sys base hs (add_mset t M) (iotc_mqtt_logic_free_task_data t s)"
    by (simp add: iotc_mqtt_logic_free_task_data_def Let_def)
  show "mt_data_u (mq_task (iotc_mqtt_logic_free_task_data t s) t) = NULL"
    using assms(2) by (simp add: iotc_mqtt_logic_free_task_data_def Let_def)
qed

lemma free_task_data_other [simp]: "q \<noteq> t \<Longrightarrow> mq_task (iotc_mqtt_logic_free_task_data t s) q = mq_task s q"
  by (simp add: iotc_mqtt_logic_free_task_data_def iotc_mqtt_task_spec_data_free_publish_data_def
      iotc_mqtt_task_spec_data_free_subscribe_data_def on_mem_def Let_def split: scenario.split)

lemma free_task_other [simp]: "q \<noteq> t \<Longrightarrow> mq_task (iotc_mqtt_logic_free_task t s) q = mq_task s q"
  by (simp add: iotc_mqtt_logic_free_task_def on_mem_def Let_def)

lemma sys_free_task:
  "sys base hs (add_mset t M) s \<Longrightarrow> mt_data_u (mq_task s t) = NULL \<Longrightarrow> sys base hs M (iotc_mqtt_logic_free_task t s)"
  using sys_free [of base hs t M s] sys_not_NULL [of base hs "add_mset t M" s t]
  by (simp add: iotc_mqtt_logic_free_task_def)

text \<open>The timeout of a task, when it runs, is among the delayed events and knows its handle.\<close>

definition timer_ok :: "ptr \<Rightarrow> 'z evtd_scheme \<Rightarrow> bool" where
  "timer_ok h s \<longleftrightarrow> (timeout_set h s \<longrightarrow> te_hnd (ev_te s) h \<in> set (vec_list (ev_timers s))
     \<and> te_time_event_handle (te_at (ev_te s) (te_hnd (ev_te s) h)) = h)"

lemma remove_frame [simp]:
  "ev_te (iotc_io_timeouts_remove h s) = ev_te s" "ev_timers (iotc_io_timeouts_remove h s) = ev_timers s"
  "ev_mem (iotc_io_timeouts_remove h s) = ev_mem s"
  by (simp_all add: iotc_io_timeouts_remove_def Let_def)

lemma sys_remove: "sys base hs M s \<Longrightarrow> sys base hs M (iotc_io_timeouts_remove h s)"
  using remove_inv [of s h]
  by (auto simp: sys_def iotc_io_timeouts_remove_def Let_def lock_free_def)

lemma sys_cancel_task_timeout:
  "sys base hs M s \<Longrightarrow> timer_ok t s \<Longrightarrow> t \<noteq> NULL \<Longrightarrow> sys base hs M (cancel_task_timeout t s)"
  unfolding cancel_task_timeout_def
  by (auto intro!: sys_cancel sys_remove simp: timer_ok_def timer_known_def)


section \<open>An acknowledged publish\<close>

definition called_back :: "iotc_state \<Rightarrow> mqtt_task \<Rightarrow> event_handle list" where
  "called_back st t = (if iotc_handle_disposed (mt_callback t) then [] else [set_arg 2 (state_arg st) (mt_callback t)])"

lemma sys_defer_callback:
  assumes "sys base hs M s"
  shows "sys base (hs @ called_back st (mq_task s t)) M (iotc_mqtt_logic_task_defer_users_callback t st s)"
proof (cases "iotc_handle_disposed (mt_callback (mq_task s t))")
  case False
  obtain e s' where p: "iotc_evttd_execute (set_arg 2 (state_arg st) (mt_callback (mq_task s t))) s = (e, s')" by fastforce
  from sys_post [OF assms p] False p show ?thesis
    by (simp add: called_back_def iotc_mqtt_logic_task_defer_users_callback_def)
qed (use assms in \<open>simp add: called_back_def iotc_mqtt_logic_task_defer_users_callback_def\<close>)

definition waits_for_puback :: "ptr \<Rightarrow> ptr \<Rightarrow> 'z mqtt_scheme \<Rightarrow> bool" where
  "waits_for_puback context t s \<longleftrightarrow> publish_q1_task (mq_task s t) \<and> mt_cs (mq_task s t) = 110 \<and> timer_ok t s
     \<and> (\<exists>st m. mt_logic (mq_task s t) = make_handle4 fn_publish_q1 context t st m)
     \<and> mt_data_u (mq_task s t) \<noteq> NULL
     \<and> (\<exists>topic data r d. mq_spec s (mt_data_u (mq_task s t)) = Publish_data topic data r d)"

lemma answered_ok:
  fixes s :: "'z mqtt_scheme"
  assumes o: "sys base hs (task_blocks t s + message_blocks p (mq_msg s p)) s" and w: "waits_for_puback context t s"
    and a: "mm_type (mq_msg s p) = IOTC_MQTT_TYPE_PUBACK"
    and r: "publish_q1_answered next_task context t IOTC_STATE_OK p s = (r, s')"
  shows "r = IOTC_STATE_OK \<and> sys base (hs @ called_back IOTC_STATE_OK (mq_task s t)) {#} s'
    \<and> ld_q12 (mq_data s') = remove1 t (ld_q12 (mq_data s)) \<and> (\<forall>q. q \<noteq> t \<longrightarrow> mq_task s' q = mq_task s q)"
proof -
  let ?hs = "hs @ called_back IOTC_STATE_OK (mq_task s t)"
  define s2 where "s2 = cancel_task_timeout t s"
  define s3 where "s3 = iotc_mqtt_logic_task_defer_users_callback t IOTC_STATE_OK s2"
  define s4 where "s4 = free_message p s3"
  define s5 where "s5 = iotc_mqtt_logic_free_task_data t s4"
  define s6 where "s6 = set_cs t 1 s5"
  define s7 where "s7 = on_data (\<lambda>d. d\<lparr>ld_q12 := remove1 t (ld_q12 d)\<rparr>) s6"
  note eqs = s2_def s3_def s4_def s5_def s6_def s7_def
  obtain tp data rt d where t: "publish_q1_task (mq_task s t)" "timer_ok t s" "mt_data_u (mq_task s t) \<noteq> NULL"
    and d: "mq_spec s (mt_data_u (mq_task s t)) = Publish_data tp data rt d"
    using w by (auto simp: waits_for_puback_def)
  have f4: "mq_task s4 = mq_task s" "mq_spec s4 = mq_spec s" "mq_data s4 = mq_data s" "mq_msg s3 = mq_msg s"
      "mq_task s2 = mq_task s"
    by (simp_all add: eqs frame)
  have n: "t \<noteq> NULL" using sys_not_NULL [OF o, of t] by (simp add: task_blocks_def)
  have "sys base hs (message_blocks p (mq_msg s p) + task_blocks t s) s2"
    unfolding s2_def by (rule sys_cancel_task_timeout) (use o t n in \<open>simp_all add: add.commute\<close>)
  from sys_defer_callback [OF this, of IOTC_STATE_OK t]
  have "sys base ?hs (message_blocks p (mq_msg s3 p) + task_blocks t s) s3" by (simp add: s3_def f4(5)) (simp add: f4 flip: s3_def)
  from sys_free_message [OF this] have o4: "sys base ?hs (task_blocks t s) s4" by (simp flip: s4_def)
  have "task_blocks t s4 = task_blocks t s" by (simp add: task_blocks_def f4)
  with o4 have "sys base ?hs (task_blocks t s4 + {#}) s4" by simp
  note o5 = sys_free_task_data [OF this, unfolded f4, OF _ t(3) d]
  have "sys base ?hs {#t#} s7" "mt_data_u (mq_task s7 t) = NULL" "mt_qos (mq_task s6 t) = IOTC_MQTT_QOS_AT_LEAST_ONCE"
    using o5 t(1) by (simp_all add: publish_q1_task_def s7_def s6_def s5_def f4)
      (simp add: iotc_mqtt_logic_free_task_data_def iotc_mqtt_task_spec_data_free_publish_data_def on_mem_def f4 Let_def)
  moreover have "(r, s') = (IOTC_STATE_OK, iotc_mqtt_logic_free_task t s7)"
    using r calculation(3) a f4(4) unfolding publish_q1_answered_def cr_exit_def iotc_mqtt_logic_layer_finalize_task_def
    by (simp add: Let_def eqs frame)
  ultimately show ?thesis using sys_free_task [of base ?hs t "{#}" s7] by (simp add: eqs frame)
qed




definition puback_example :: mqtt where
  "puback_example = example_mqtt (example_heap [60, 61, 70]) small_vec
     (\<lambda>p. zeroed_task\<lparr>mt_scenario := IOTC_MQTT_PUBLISH, mt_qos := IOTC_MQTT_QOS_AT_LEAST_ONCE, mt_cs := 110,
        mt_data_u := 61, mt_msg_id := 5, mt_logic := make_handle4 fn_publish_q1 42 60 IOTC_STATE_OK NULL,
        mt_callback := iotc_make_handle_argc3 IOTC_THREADID_MAINTHREAD 900 1 2 3\<rparr>)
     (\<lambda>p. Publish_data None None IOTC_MQTT_RETAIN_FALSE IOTC_MQTT_DUP_FALSE)
     (\<lambda>p. zeroed_message\<lparr>mm_type := IOTC_MQTT_TYPE_PUBACK, mm_body := Id_body 5\<rparr>)
     (zeroed_logic_data\<lparr>ld_q12 := [60]\<rparr>) IOTC_CONNECTION_STATE_OPENED"


end
