(* ===== verification/Iotc_Mqtt_Connect.thy ===== *)
theory Iotc_Mqtt_Connect
  imports Iotc_Mqtt_Publish
begin

text \<open>
  The end of the handshake: what the answer of the server to a CONNECT message does to the connection, the timers and the
  layers above.
\<close>

section \<open>Timers of the handshake\<close>

lemma timer_ok_unset: "te_hnd (ev_te s) h = NULL \<Longrightarrow> timer_ok h s"
  by (simp add: timer_ok_def)

lemma sys_cancel_connect:
  assumes "sys base hs M s" and "timer_ok t s" and "t \<noteq> NULL" and "has_room s \<or> timeout_set t s"
  shows "sys base hs M (cancel_connect_timeout t s)"
    and "te_hnd (ev_te (cancel_connect_timeout t s)) = (te_hnd (ev_te s))(t := NULL)"
    and "has_room (cancel_connect_timeout t s)"
proof -
  let ?r = "iotc_io_timeouts_remove t s"
  have c: "sys base hs M (snd (iotc_evtd_cancel t ?r))
      \<and> te_hnd (ev_te (snd (iotc_evtd_cancel t ?r))) = (te_hnd (ev_te s))(t := NULL)
      \<and> has_room (snd (iotc_evtd_cancel t ?r))" if "timeout_set t s"
    using sys_cancel [OF sys_remove [OF assms(1)], of t t] assms(2,3) that by (simp add: timer_ok_def timer_known_def)
  have e: "cancel_connect_timeout t s = (if timeout_set t s then snd (iotc_evtd_cancel t ?r) else s)"
    by (simp add: cancel_connect_timeout_def iotc_io_timeouts_cancel_def Let_def)
  show "sys base hs M (cancel_connect_timeout t s)" using c assms(1) by (simp add: e)
  show "te_hnd (ev_te (cancel_connect_timeout t s)) = (te_hnd (ev_te s))(t := NULL)" using c by (auto simp: e fun_eq_iff)
  show "has_room (cancel_connect_timeout t s)" using c assms(4) by (auto simp: e)
qed

section \<open>The end of the handshake\<close>

definition waits_for_connack :: "ptr \<Rightarrow> ptr \<Rightarrow> 'z mqtt_scheme \<Rightarrow> bool" where
  "waits_for_connack context t s \<longleftrightarrow> ld_current_q0 (mq_data s) = t \<and> mt_cs (mq_task s t) = 140
     \<and> mt_qos (mq_task s t) = IOTC_MQTT_QOS_AT_MOST_ONCE \<and> mt_data_u (mq_task s t) = NULL
     \<and> (\<exists>st m. mt_logic (mq_task s t) = make_handle4 fn_connect context t st m)"

lemma finish_connect:
  fixes s :: "'z mqtt_scheme"
  assumes "sys base hs (add_mset t {#}) s" and "ld_current_q0 (mq_data s) = t" and "ld_q0 (mq_data s) = []"
    and "mt_qos (mq_task s t) = IOTC_MQTT_QOS_AT_MOST_ONCE" and "mt_data_u (mq_task s t) = NULL"
    and "te_hnd (ev_te s) t = NULL"
    and "cr_exit (iotc_mqtt_logic_layer_run_next_q0_task call) t s = (r, s')"
  shows "r = IOTC_STATE_OK \<and> sys base hs {#} s' \<and> ld_current_q0 (mq_data s') = NULL \<and> cx_connection s' = cx_connection s
    \<and> ly_at s' = ly_at s \<and> te_hnd (ev_te s') = te_hnd (ev_te s)"
proof -
  define s1 where "s1 = set_cs t 1 s"
  have n: "t \<noteq> NULL" using sys_not_NULL [OF assms(1), of t] by simp
  have te: "ev_te s1 = ev_te s" "mq_data s1 = mq_data s" "cx_connection s1 = cx_connection s" "ly_at s1 = ly_at s"
    "sys base hs {#t#} s1" "mt_data_u (mq_task s1 t) = NULL" "mt_qos (mq_task s1 t) = IOTC_MQTT_QOS_AT_MOST_ONCE"
    using assms(1,4,5) by (simp_all add: s1_def) (simp_all add: write_task_def on_mem_def Let_def)
  have o: "sys base hs {#} (iotc_mqtt_logic_free_task t s1)"
    by (rule sys_free_task) (use te in simp_all)
  have f: "mq_data (iotc_mqtt_logic_free_task t x) = mq_data x" "ev_te (iotc_mqtt_logic_free_task t s1) = ev_te s1"
    "cx_connection (iotc_mqtt_logic_free_task t x) = cx_connection x" "ly_at (iotc_mqtt_logic_free_task t x) = ly_at x"
    for x :: "'z mqtt_scheme" using te(6) n by (simp_all add: frame) (simp add: iotc_mqtt_logic_free_task_def on_mem_def)
  have "release_current_q0 s1 = on_data (\<lambda>d. d\<lparr>ld_current_q0 := NULL\<rparr>) (iotc_mqtt_logic_free_task t s1)"
    using n assms(2,6) by (simp add: release_current_q0_def Let_def te)
  moreover have "iotc_mqtt_logic_layer_finalize_task (iotc_mqtt_logic_layer_run_next_q0_task call) t s1 = (r, s')"
    using assms(7) unfolding cr_exit_def s1_def .
  ultimately have "r = IOTC_STATE_OK" "s' = on_data (\<lambda>d. d\<lparr>ld_current_q0 := NULL\<rparr>) (iotc_mqtt_logic_free_task t s1)"
    using assms(3) te by (simp_all add: iotc_mqtt_logic_layer_finalize_task_def iotc_mqtt_logic_layer_run_next_q0_task_def
        Let_def f)
  with o f te show ?thesis by simp
qed


lemma task_connect [simp]:
  "task_function next_task fn_connect [c, t, state_arg st, m] s = do_mqtt_connect next_task c t st m s"
  by (simp add: task_function_def fn_defs)

lemma deliver_connect:
  assumes "mt_logic (mq_task s t) = make_handle4 fn_connect c t st0 m0"
  shows "deliver t p st s = do_mqtt_connect (next_of s) c t st p
    (write_task t (\<lambda>x. x\<lparr>mt_logic := make_handle4 fn_connect c t st p\<rparr>) s)"
proof -
  have "write_task t (\<lambda>x. x\<lparr>mt_logic := set_arg 3 p (set_arg 2 (state_arg st) (mt_logic x))\<rparr>) s
      = write_task t (\<lambda>x. x\<lparr>mt_logic := make_handle4 fn_connect c t st p\<rparr>) s"
    using assms by (simp add: write_task_def Let_def on_mem_def)
  then show ?thesis unfolding deliver_def by (subst execute_logic [of _ _ fn_connect c t st p]) (simp_all add: frame)
qed

definition connack_answer :: "nat \<Rightarrow> iotc_state" where
  "connack_answer code = (if code = 0 then IOTC_STATE_OK else get_error_from_connack code)"

lemma connect_answered_ok:
  fixes s :: "'z mqtt_scheme"
  assumes o: "sys base hs (add_mset t (message_blocks p (mq_msg s p))) s" and w: "waits_for_connack context t s"
    and q: "ld_q0 (mq_data s) = []" and b: "mm_body (mq_msg s p) = Connack_body code" and ty: "mm_type (mq_msg s p) = IOTC_MQTT_TYPE_CONNACK"
    and t: "timer_ok t s" and room: "has_room s \<or> timeout_set t s"
    and u: "user_data context s \<noteq> t" "user_data context s \<noteq> NULL" "te_hnd (ev_te s) (user_data context s) = NULL"
    and nb: "neighbour_ok context s Next"
    and r: "connect_answered (iotc_mqtt_logic_layer_run_next_q0_task call) context t IOTC_STATE_OK p s = (r, s')"
  shows "r = IOTC_STATE_OK
    \<and> sys base (hs @ [call_handle context s (Next, F_connect, t, connack_answer code)]) {#} s'
    \<and> cd_connection_state (cx_connection s') = (if code = 0 then IOTC_CONNECTION_STATE_OPENED else cd_connection_state (cx_connection s))
    \<and> ly_state (ly_at s' context) = (if code = 0 then IOTC_LAYER_STATE_CONNECTED else IOTC_LAYER_STATE_CLOSED)
    \<and> ld_current_q0 (mq_data s') = NULL \<and> te_hnd (ev_te s') t = NULL
    \<and> (te_hnd (ev_te s') (user_data context s) \<noteq> NULL \<longleftrightarrow> code = 0 \<and> cd_keepalive_timeout (cx_connection s) > 0)"
proof -
  have n: "t \<noteq> NULL" using sys_not_NULL [OF o, of t] by simp
  define s1 where "s1 = cancel_connect_timeout t s"
  note c1 = sys_cancel_connect [OF o t n room, folded s1_def]
  have f1: "mq_task s1 = mq_task s" "mq_data s1 = mq_data s" "mq_msg s1 = mq_msg s" "ly_at s1 = ly_at s"
    "cx_connection s1 = cx_connection s" by (simp_all add: s1_def frame)
  have code: "connack_code (mq_msg s1 p) = code" using b f1 by (simp add: connack_code_def)
  show ?thesis
  proof (cases "code = 0")
    case True
    define s2 where "s2 = free_message p s1"
    have "sys base hs (message_blocks p (mq_msg s1 p) + {#t#}) s1" using c1(1) f1 by simp
    from sys_free_message [OF this] have o2: "sys base hs {#t#} s2" by (simp add: s2_def)
    have f2: "mq_task s2 = mq_task s" "mq_data s2 = mq_data s" "ly_at s2 = ly_at s" "cx_connection s2 = cx_connection s"
      "ev_te s2 = ev_te s1" "has_room s2" using c1(3)
      by (simp_all add: s2_def f1 frame free_message_def) (simp_all add: on_mem_def has_room_def)
    have un: "te_hnd (ev_te s2) (user_data context s) = NULL" using c1(2) u by (simp add: f2)
    obtain s3 where e: "(if cd_keepalive_timeout (cx_connection s2) > 0
            then iotc_evtd_execute_in (iotc_make_handle_argc1 IOTC_THREADID_MAINTHREAD fn_keepalive_once context)
                   (keepalive_seconds s2) (user_data context s2) s2
            else (IOTC_STATE_OK, s2)) = (IOTC_STATE_OK, s3)" and o3: "sys base hs {#t#} s3"
      and f3: "mq_task s3 = mq_task s" "mq_data s3 = mq_data s" "ly_at s3 = ly_at s" "cx_connection s3 = cx_connection s"
      and t3: "te_hnd (ev_te s3) t = NULL"
        "te_hnd (ev_te s3) (user_data context s) \<noteq> NULL \<longleftrightarrow> cd_keepalive_timeout (cx_connection s) > 0"
    proof (cases "cd_keepalive_timeout (cx_connection s2) > 0")
      case True
      obtain st s3 where e: "iotc_evtd_execute_in (iotc_make_handle_argc1 IOTC_THREADID_MAINTHREAD fn_keepalive_once context)
          (keepalive_seconds s2) (user_data context s2) s2 = (st, s3)" by fastforce
      have "user_data context s2 \<noteq> NULL" "te_hnd (ev_te s2) (user_data context s2) = NULL" using u un f2 by simp_all
      note x = sys_execute_in [OF o2 f2(6) this e]
      from x obtain q where q: "te_hnd (ev_te s3) = (te_hnd (ev_te s2))(user_data context s2 := q)"
        "q \<in> set (vec_list (ev_timers s3))" by blast
      have "te_inv (ev_timers s3) (ev_te s3)" using x by (simp add: sys_def)
      then have "q \<noteq> NULL" using q(2) unfolding te_inv_def by (intro notI) simp
      moreover have "s3 = snd (iotc_evtd_execute_in (iotc_make_handle_argc1 IOTC_THREADID_MAINTHREAD fn_keepalive_once context)
          (keepalive_seconds s2) (user_data context s2) s2)" by (simp add: e)
      ultimately show ?thesis using that [of s3] x q(1) e True u(1) c1(2) by (simp add: f2 frame)
    next
      case False
      with that [of s2] o2 f2 un c1(2) show ?thesis by simp
    qed
    define s4 where "s4 = s3\<lparr>cx_connection := (cx_connection s3)\<lparr>cd_connection_state := IOTC_CONNECTION_STATE_OPENED\<rparr>\<rparr>"
    obtain r5 s5 where k: "IOTC_LAYER_CONTINUE_WITH Next lf_connect context t IOTC_STATE_OK s4 = (r5, s5)" by fastforce
    have o4: "sys base hs {#t#} s4" using o3 by (simp add: s4_def)
    have l4: "ly_at s4 = ly_at s" by (simp add: s4_def f3)
    note nb4 = layers_upd(1) [OF nb l4]
    from sys_continue [OF o4 nb4, of F_connect t IOTC_STATE_OK r5 s5] k
    have o5: "sys base (hs @ [call_handle context s (Next, F_connect, t, IOTC_STATE_OK)]) {#t#} s5"
      "ly_state (ly_at s5 context) = IOTC_LAYER_STATE_CONNECTED"
      by (simp_all add: layers_upd(2) [OF nb l4])
    have f5: "mq_task s5 = mq_task s" "mq_data s5 = mq_data s" "cx_connection s5 = cx_connection s4" "ev_te s5 = ev_te s3"
      using continue_frame [OF k] by (simp_all add: s4_def f3)
    have "cr_exit (iotc_mqtt_logic_layer_run_next_q0_task call) t s5 = (r, s')"
      using r ty code True e k by (simp add: connect_answered_def connect_accepted_def Let_def f1 s4_def
          flip: s1_def s2_def)
    from finish_connect [OF o5(1) _ _ _ _ _ this] w q t3 f5 o5(2) show ?thesis using True
      by (simp add: waits_for_connack_def connack_answer_def s4_def)
  next
    case False
    obtain r2 s2 where k: "IOTC_LAYER_CONTINUE_WITH Next lf_connect context t (get_error_from_connack code) s1 = (r2, s2)" by fastforce
    have ne: "get_error_from_connack code \<noteq> IOTC_STATE_OK" by (simp add: get_error_from_connack_def)
    note nb1 = layers_upd(1) [OF nb f1(4)]
    from sys_continue [OF c1(1) nb1, of F_connect t "get_error_from_connack code" r2 s2] k ne
    have o2: "sys base (hs @ [call_handle context s (Next, F_connect, t, get_error_from_connack code)])
        (add_mset t (message_blocks p (mq_msg s p))) s2" "ly_state (ly_at s2 context) = IOTC_LAYER_STATE_CLOSED"
      by (simp_all add: layers_upd(2) [OF nb f1(4)])
    have f2: "mq_task s2 = mq_task s" "mq_data s2 = mq_data s" "cx_connection s2 = cx_connection s" "ev_te s2 = ev_te s1"
      "mq_msg s2 = mq_msg s" using continue_frame [OF k] by (simp_all add: f1)
    define s3 where "s3 = free_message p s2"
    have "sys base (hs @ [call_handle context s (Next, F_connect, t, get_error_from_connack code)])
        (message_blocks p (mq_msg s2 p) + {#t#}) s2" using o2(1) by (simp add: f2)
    from sys_free_message [OF this] have o3: "sys base (hs @ [call_handle context s (Next, F_connect, t, get_error_from_connack code)]) {#t#} s3"
      by (simp add: s3_def)
    have f3: "mq_task s3 = mq_task s" "mq_data s3 = mq_data s" "cx_connection s3 = cx_connection s" "ev_te s3 = ev_te s1"
      "ly_at s3 = ly_at s2" by (simp_all add: s3_def f2 frame free_message_def) (simp_all add: on_mem_def f2)
    have t3: "te_hnd (ev_te s3) t = NULL" "te_hnd (ev_te s3) (user_data context s) = NULL" using c1(2) u by (simp_all add: f3)
    have "cancel_connect_timeout t s3 = s3" using t3(1) by (simp add: cancel_connect_timeout_def)
    then have "cr_exit (iotc_mqtt_logic_layer_run_next_q0_task call) t s3 = (r, s')"
      using r ty code False k by (simp add: connect_answered_def Let_def f1 flip: s1_def s3_def)
    from finish_connect [OF o3 _ _ _ _ _ this] w q t3 f3 o2(2) show ?thesis using False
      by (simp add: waits_for_connack_def connack_answer_def)
  qed
qed


text \<open>
  C16. The answer of the server decides the connection: with the code 0 the connection is open and the next layer
  is told that it is connected, after the calls that were pending, and the keepalive timer runs if the connection
  has a keepalive; with any other code the state of the connection stays, the next layer gets the error of the code,
  and no keepalive starts. In both cases the connection timeout ends, the layer's state says which it was, and exactly the
  blocks of the task and of the message are released.
\<close>

theorem connack_decides_connection:
  assumes "operational context s" and "waits_for_connack context t s" and "ld_q0 (mq_data s) = []"
    and "sys base hs (add_mset t (message_blocks p (mq_msg s p))) s"
    and "mm_type (mq_msg s p) = IOTC_MQTT_TYPE_CONNACK" and "mm_body (mq_msg s p) = Connack_body code"
    and "timer_ok t s" and "has_room s \<or> timeout_set t s" and "user_data context s \<noteq> t"
    and "te_hnd (ev_te s) (user_data context s) = NULL" and "neighbour_ok context s Next"
    and "iotc_mqtt_logic_layer_pull context p IOTC_STATE_OK s = (r, s')"
  shows "r = IOTC_STATE_OK
    \<and> sys base (hs @ [call_handle context s (Next, F_connect, t, connack_answer code)]) {#} s'
    \<and> cd_connection_state (cx_connection s') =
        (if code = 0 then IOTC_CONNECTION_STATE_OPENED else cd_connection_state (cx_connection s))
    \<and> ly_state (ly_at s' context) = (if code = 0 then IOTC_LAYER_STATE_CONNECTED else IOTC_LAYER_STATE_CLOSED)
    \<and> ld_current_q0 (mq_data s') = NULL \<and> te_hnd (ev_te s') t = NULL
    \<and> (te_hnd (ev_te s') (user_data context s) \<noteq> NULL \<longleftrightarrow> code = 0 \<and> cd_keepalive_timeout (cx_connection s) > 0)"
proof -
  define s1 where "s1 = s\<lparr>gl_backoff := (gl_backoff s)\<lparr>backoff_class := IOTC_BACKOFF_CLASS_NONE\<rparr>\<rparr>"
  obtain st m where l: "mt_logic (mq_task s1 t) = make_handle4 fn_connect context t st m"
    using assms(2) by (auto simp: waits_for_connack_def s1_def)
  define s2 where "s2 = write_task t (\<lambda>x. x\<lparr>mt_logic := make_handle4 fn_connect context t IOTC_STATE_OK p\<rparr>) s1"
  have o1: "sys base hs (add_mset t (message_blocks p (mq_msg s p))) s1"
    using assms(4) by (simp add: s1_def sys_def lock_free_def)
  then have o2: "sys base hs (add_mset t (message_blocks p (mq_msg s p))) s2" by (simp add: s2_def)
  have f: "mq_msg s2 = mq_msg s" "mq_data s2 = mq_data s" "ly_at s2 = ly_at s" "cx_connection s2 = cx_connection s"
    "ev_te s2 = ev_te s" "ev_timers s2 = ev_timers s"
    by (simp_all add: s2_def s1_def frame) (simp_all add: write_task_def on_mem_def Let_def)
  have w2: "waits_for_connack context t s2"
    using assms(2) unfolding waits_for_connack_def f by (auto simp: s2_def s1_def)
  have "iotc_mqtt_logic_layer_pull context p IOTC_STATE_OK s = pull_message context p IOTC_STATE_OK s1"
    using assms(1) by (simp add: iotc_mqtt_logic_layer_pull_def operational_def iotc_update_backoff_penalty_def Let_def s1_def)
  also have "\<dots> = deliver t p IOTC_STATE_OK s1"
    using assms(2,5,6) by (simp add: pull_message_def s1_def Let_def iotc_mqtt_get_message_id_def waits_for_connack_def)
  also have "\<dots> = connect_answered (next_of s1) context t IOTC_STATE_OK p s2"
    using assms(1) w2 unfolding deliver_connect [OF l] s2_def [symmetric]
    by (simp add: do_mqtt_connect_def waits_for_connack_def operational_def IOTC_THIS_LAYER_NOT_OPERATIONAL_def f)
  finally have r: "connect_answered (next_of s1) context t IOTC_STATE_OK p s2 = (r, s')" using assms(12) by simp
  have u: "user_data context s2 \<noteq> t" "user_data context s2 \<noteq> NULL" "te_hnd (ev_te s2) (user_data context s2) = NULL"
    "timer_ok t s2" "has_room s2 \<or> timeout_set t s2"
    using assms(1,7-10) by (simp_all add: f operational_def timer_ok_def has_room_def)
  note nb = layers_upd [OF assms(11) f(3)]
  from connect_answered_ok [OF _ w2 _ _ _ u(4,5,1-3) nb(1) r, of base hs code] o2 assms(3,5,6) show ?thesis
    by (simp add: f nb(2))
qed


definition connack_example :: "nat \<Rightarrow> mqtt" where
  "connack_example code = example_mqtt (example_heap [60, 70]) small_vec
     (\<lambda>p. zeroed_task\<lparr>mt_cs := 140, mt_logic := make_handle4 fn_connect 42 60 IOTC_STATE_OK NULL\<rparr>)
     (\<lambda>p. Publish_data None None IOTC_MQTT_RETAIN_FALSE IOTC_MQTT_DUP_FALSE)
     (\<lambda>p. zeroed_message\<lparr>mm_type := IOTC_MQTT_TYPE_CONNACK, mm_body := Connack_body code\<rparr>)
     (zeroed_logic_data\<lparr>ld_current_q0 := 60\<rparr>) IOTC_CONNECTION_STATE_OPENING"

theorem connack_decides_connection_witness:
  "cd_connection_state (cx_connection (snd (iotc_mqtt_logic_layer_pull 42 70 IOTC_STATE_OK (connack_example 0))))
     = IOTC_CONNECTION_STATE_OPENED
   \<and> ly_state (ly_at (snd (iotc_mqtt_logic_layer_pull 42 70 IOTC_STATE_OK (connack_example 5))) 42)
     = IOTC_LAYER_STATE_CLOSED"
proof -
  have *: "r = IOTC_STATE_OK
    \<and> sys Map.empty ([] @ [call_handle 42 (connack_example code) (Next, F_connect, 60, connack_answer code)]) {#} s'
    \<and> cd_connection_state (cx_connection s') =
        (if code = 0 then IOTC_CONNECTION_STATE_OPENED else cd_connection_state (cx_connection (connack_example code)))
    \<and> ly_state (ly_at s' 42) = (if code = 0 then IOTC_LAYER_STATE_CONNECTED else IOTC_LAYER_STATE_CLOSED)
    \<and> ld_current_q0 (mq_data s') = NULL \<and> te_hnd (ev_te s') 60 = NULL
    \<and> (te_hnd (ev_te s') (user_data 42 (connack_example code)) \<noteq> NULL
        \<longleftrightarrow> code = 0 \<and> cd_keepalive_timeout (cx_connection (connack_example code)) > 0)"
    if "iotc_mqtt_logic_layer_pull 42 70 IOTC_STATE_OK (connack_example code) = (r, s')" for code r s'
  proof (rule connack_decides_connection [OF _ _ _ _ _ _ _ _ _ _ _ that])
    show "sys Map.empty [] (add_mset 60 (message_blocks 70 (mq_msg (connack_example code) 70))) (connack_example code)"
      using sys_example [of "[60, 70]"] by (simp add: connack_example_def message_blocks_def body_blocks_def)
    show "timer_ok 60 (connack_example code)" "has_room (connack_example code) \<or> timeout_set 60 (connack_example code)"
      "te_hnd (ev_te (connack_example code)) (user_data 42 (connack_example code)) = NULL"
      by (simp_all add: timer_ok_def has_room_def connack_example_def example_te small_vec_def)
    show "neighbour_ok 42 (connack_example code) Next"
      by (simp add: connack_example_def neighbour_ok_def example_layers_def interface_ok_def)
  qed (auto simp: connack_example_def waits_for_connack_def zeroed_task_def zeroed_logic_data_def example_layers_def)
  obtain r s' r2 s2 where "iotc_mqtt_logic_layer_pull 42 70 IOTC_STATE_OK (connack_example 0) = (r, s')"
    "iotc_mqtt_logic_layer_pull 42 70 IOTC_STATE_OK (connack_example 5) = (r2, s2)" by fastforce
  with * [of 0 r s'] * [of 5 r2 s2] show ?thesis by simp
qed

end
