(* ===== verification/Iotc_Mqtt_Receive.thy ===== *)
theory Iotc_Mqtt_Receive
  imports Iotc_Mqtt_Publish
begin

text \<open>
  The way of a received message: to the handler of the first subscription whose filter matches, and for quality of
  service 1 only after its acknowledgement has been handed to the layer below.
\<close>

section \<open>The handler of a topic\<close>

lemma vec_find_value:
  assumes "vec_inv v"
  shows "case find (\<lambda>e. cmp e x) (vec_list v) of
      None \<Rightarrow> iotc_vector_find v x cmp = - 1
    | Some e \<Rightarrow> iotc_vector_find v x cmp \<noteq> - 1 \<and> v_elems v ! nat (iotc_vector_find v x cmp) = e"
proof (cases "find (\<lambda>k. cmp (vec_list v ! k) x) [0..<length (vec_list v)]")
  case None
  then show ?thesis by (simp add: vec_find_spec [OF assms] find_nth [of _ "vec_list v"])
next
  case (Some k)
  then have "k < length (vec_list v)" by (simp add: find_Some_first)
  with vec_list_nth [OF assms, of "int k"] assms Some show ?thesis
    by (simp add: vec_find_spec [OF assms] find_nth [of _ "vec_list v"])
qed

definition matching_handler :: "mqtt_message \<Rightarrow> 'z mqtt_scheme \<Rightarrow> ptr option" where
  "matching_handler msg s = find (topic_cmp s (publish_topic msg)) (vec_list (the (ld_handlers (mq_data s))))"

definition handlers_ok :: "'z mqtt_scheme \<Rightarrow> bool" where
  "handlers_ok s \<longleftrightarrow> (\<exists>v. ld_handlers (mq_data s) = Some v \<and> vec_inv v
     \<and> (\<forall>e\<in>set (vec_list v). e \<noteq> NULL \<longrightarrow> (\<exists>topic h q. mq_spec s e = Subscribe_data topic h q)))"

text \<open>The call that a message for the handler at \<open>e\<close> makes.\<close>

definition handler_call :: "ptr \<Rightarrow> ptr \<Rightarrow> 'z mqtt_scheme \<Rightarrow> event_handle" where
  "handler_call e p s = set_arg 2 (state_arg IOTC_STATE_OK) (set_arg 1 p (spec_handler (mq_spec s e)))"

lemma call_topic_handler_ok:
  fixes s :: "'z mqtt_scheme"
  assumes "sys base hs (message_blocks p (mq_msg s p) + M) s" and "handlers_ok s" and "s' = call_topic_handler p s"
  shows "case matching_handler (mq_msg s p) s of
      None \<Rightarrow> sys base hs M s'
    | Some e \<Rightarrow> sys base (hs @ [handler_call e p s]) (message_blocks p (mq_msg s p) + M) s'"
    and "mq_data s' = mq_data s \<and> mq_task s' = mq_task s \<and> mq_msg s' = mq_msg s"
proof -
  obtain v where v: "ld_handlers (mq_data s) = Some v" "vec_inv v"
    and h: "\<forall>e\<in>set (vec_list v). e \<noteq> NULL \<longrightarrow> (\<exists>topic h q. mq_spec s e = Subscribe_data topic h q)"
    using assms(2) by (auto simp: handlers_ok_def)
  let ?t = "publish_topic (mq_msg s p)"
  let ?i = "iotc_vector_find v 0 (\<lambda>e value. topic_cmp s ?t e)"
  note f = vec_find_value [OF v(2), where cmp = "\<lambda>e value. topic_cmp s ?t e" and x = 0]
  show "case matching_handler (mq_msg s p) s of
      None \<Rightarrow> sys base hs M s'
    | Some e \<Rightarrow> sys base (hs @ [handler_call e p s]) (message_blocks p (mq_msg s p) + M) s'"
  proof (cases "matching_handler (mq_msg s p) s")
    case None
    then have "?i = - 1" using f by (simp add: matching_handler_def v)
    then have "s' = free_message p s" by (simp add: assms(3) call_topic_handler_def Let_def v)
    with None sys_free_message [OF assms(1)] show ?thesis by simp
  next
    case (Some e)
    then have e: "find (topic_cmp s ?t) (vec_list v) = Some e" by (simp add: matching_handler_def v)
    then have "e \<in> set (vec_list v)" "topic_cmp s ?t e" by (auto simp: find_Some_iff)
    moreover from this(2) have "e \<noteq> NULL" by (cases "e = NULL") (simp_all add: topic_cmp_def)
    ultimately obtain topic hdl q where sp: "mq_spec s e = Subscribe_data topic hdl q" using h by blast
    let ?s1 = "s\<lparr>mq_spec := (mq_spec s)(e := put_message_args p (mq_spec s e))\<rparr>"
    have i: "?i \<noteq> - 1" "v_elems v ! nat ?i = e" using f e by simp_all
    obtain x s2 where c: "iotc_evttd_execute (handler_call e p s) ?s1 = (x, s2)" by fastforce
    have "spec_handler (mq_spec ?s1 e) = handler_call e p s"
      by (simp add: handler_call_def sp put_message_args_def spec_handler_def)
    with i c have "s' = s2" by (simp add: assms(3) call_topic_handler_def Let_def v)
    moreover have "sys base hs (message_blocks p (mq_msg s p) + M) ?s1" using assms(1) by simp
    ultimately show ?thesis using sys_post [OF _ c] Some by simp
  qed
  show "mq_data s' = mq_data s \<and> mq_task s' = mq_task s \<and> mq_msg s' = mq_msg s"
    by (simp add: assms(3) call_topic_handler_def Let_def frame)
qed

section \<open>An example\<close>

text \<open>Two subscriptions, at 80 and 81, and a message at 70 whose topic only the second one matches.\<close>

definition receive_example :: "mqtt_qos \<Rightarrow> ptr list \<Rightarrow> mqtt" where
  "receive_example qos ps = example_mqtt (example_heap ps) small_vec
     (\<lambda>p. zeroed_task\<lparr>mt_msg_id := 7, mt_cs := 162,
        mt_logic := make_handle4 fn_publish_q1_recieved 42 60 IOTC_STATE_OK 70\<rparr>)
     (\<lambda>p. Subscribe_data (Some (90, if p = 81 then ''a/#'' else ''b/#''))
        (iotc_make_handle_argc3 IOTC_THREADID_MAINTHREAD (900 + p) 0 0 0) IOTC_MQTT_QOS_AT_MOST_ONCE)
     (\<lambda>p. zeroed_message\<lparr>mm_type := IOTC_MQTT_TYPE_PUBLISH, mm_qos := qos_code qos,
        mm_body := Publish_body (Some (desc_of (bytes_of ''a/x''))) 7 None\<rparr>)
     (zeroed_logic_data\<lparr>ld_q12_recv := [60],
        ld_handlers := Some (small_vec\<lparr>v_elems := [80, 81], v_elem_no := 2\<rparr>)\<rparr>) IOTC_CONNECTION_STATE_OPENED"

lemma receive_example_handlers: "handlers_ok (receive_example qos ps)"
  by (simp add: handlers_ok_def receive_example_def vec_inv_def vec_list_def small_vec_def)

lemma receive_example_matches:
  "matching_handler (mq_msg (receive_example qos ps) 70) (receive_example qos ps) = Some 81"
proof -
  have "match_topics (Some (bytes_of ''b/#'')) (Some (desc_of (bytes_of ''a/x''))) = 1"
    "match_topics (Some (bytes_of ''a/#'')) (Some (desc_of (bytes_of ''a/x''))) = 0"
    by code_simp+
  then show ?thesis
    by (simp add: matching_handler_def receive_example_def small_vec_def vec_list_def topic_cmp_def publish_topic_def
        cstr_bytes_def)
qed

lemma receive_example_sys:
  "sys Map.empty [] (message_blocks 70 (mq_msg (receive_example qos [70, 5, 6]) 70)) (receive_example qos [70, 5, 6])"
  "sys Map.empty [] (add_mset 71 (add_mset 60 (message_blocks 70 (mq_msg (receive_example qos [71, 60, 70, 5, 6]) 70))))
     (receive_example qos [71, 60, 70, 5, 6])"
  using sys_example [of "[70, 5, 6]"] sys_example [of "[71, 60, 70, 5, 6]"]
  by (simp_all add: receive_example_def message_blocks_def body_blocks_def desc_blocks_def desc_of_def add_mset_commute)

text \<open>
  C18. A received message with quality of service 0 goes to the first registered subscription whose filter matches its
  topic: exactly one call, of that handler with the message and the state OK, is queued after the pending ones, and the
  message is handed over. When no filter matches nothing is called and the message's blocks are released.
\<close>

theorem qos0_message_dispatched:
  assumes "operational context s" and "handlers_ok s"
    and "sys base hs (message_blocks p (mq_msg s p)) s"
    and "mm_type (mq_msg s p) = IOTC_MQTT_TYPE_PUBLISH" and "mm_qos (mq_msg s p) = qos_code IOTC_MQTT_QOS_AT_MOST_ONCE"
    and "iotc_mqtt_logic_layer_pull context p IOTC_STATE_OK s = (r, s')"
  shows "r = IOTC_STATE_OK \<and> mq_data s' = mq_data s \<and> mq_task s' = mq_task s
    \<and> (case matching_handler (mq_msg s p) s of
         None \<Rightarrow> sys base hs {#} s'
       | Some e \<Rightarrow> sys base (hs @ [handler_call e p s]) (message_blocks p (mq_msg s p)) s')"
proof -
  define s1 where "s1 = s\<lparr>gl_backoff := (gl_backoff s)\<lparr>backoff_class := IOTC_BACKOFF_CLASS_NONE\<rparr>\<rparr>"
  have s': "(r, s') = (IOTC_STATE_OK, call_topic_handler p s1)"
    using assms(1,4-6) by (simp add: iotc_mqtt_logic_layer_pull_def operational_def iotc_update_backoff_penalty_def Let_def
        pull_message_def on_publish_recieved_def on_publish_q0_recieved_def s1_def)
  have eq: "mq_msg s1 = mq_msg s" "mq_spec s1 = mq_spec s" "mq_data s1 = mq_data s" "mq_task s1 = mq_task s"
    by (simp_all add: s1_def)
  have "sys base hs (message_blocks p (mq_msg s1 p) + {#}) s1"
    using assms(3) by (simp add: s1_def sys_def lock_free_def)
  moreover have "handler_call e p s1 = handler_call e p s" for e by (simp add: handler_call_def eq)
  moreover have "handlers_ok s1" using assms(2) by (simp add: handlers_ok_def eq)
  moreover have "topic_cmp s1 = topic_cmp s" by (simp add: topic_cmp_def eq fun_eq_iff)
  ultimately show ?thesis using call_topic_handler_ok [of base hs p s1 "{#}" s'] s'
    by (simp add: matching_handler_def eq split: option.splits)
qed


theorem qos0_message_dispatched_witness:
  "sys Map.empty [iotc_make_handle_argc3 IOTC_THREADID_MAINTHREAD 981 0 70 (state_arg IOTC_STATE_OK)]
     {#70, 5, 6#} (snd (iotc_mqtt_logic_layer_pull 42 70 IOTC_STATE_OK
       (receive_example IOTC_MQTT_QOS_AT_MOST_ONCE [70, 5, 6])))"
proof -
  let ?s = "receive_example IOTC_MQTT_QOS_AT_MOST_ONCE [70, 5, 6]"
  obtain r s' where p: "iotc_mqtt_logic_layer_pull 42 70 IOTC_STATE_OK ?s = (r, s')" by fastforce
  have "operational 42 ?s" "mm_type (mq_msg ?s 70) = IOTC_MQTT_TYPE_PUBLISH"
    "mm_qos (mq_msg ?s 70) = qos_code IOTC_MQTT_QOS_AT_MOST_ONCE" by (simp_all add: receive_example_def)
  from qos0_message_dispatched [OF this(1) receive_example_handlers receive_example_sys(1) this(2,3) p] p show ?thesis
    unfolding receive_example_matches
    by (simp add: handler_call_def receive_example_def spec_handler_def iotc_make_handle_argc3_def set_arg_def
        message_blocks_def body_blocks_def desc_blocks_def desc_of_def add_mset_commute)
qed

section \<open>Acknowledged messages\<close>

lemma task_recieved [simp]:
  "task_function next_task fn_publish_q1_recieved [c, t, state_arg st, m] s = on_publish_q1_recieved c t st m s"
  by (simp add: task_function_def fn_defs)

definition waits_for_ack_written :: "ptr \<Rightarrow> ptr \<Rightarrow> ptr \<Rightarrow> 'z mqtt_scheme \<Rightarrow> bool" where
  "waits_for_ack_written context t p s \<longleftrightarrow> mt_cs (mq_task s t) = 162 \<and> mt_data_u (mq_task s t) = NULL
     \<and> (\<exists>st. mt_logic (mq_task s t) = make_handle4 fn_publish_q1_recieved context t st p)"

text \<open>The handles of the delayed events are at addresses that were handed out.\<close>

definition handles_known :: "'z evtd_scheme \<Rightarrow> bool" where
  "handles_known s \<longleftrightarrow> (\<forall>e\<in>set (vec_list (ev_timers s)). te_time_event_handle (te_at (ev_te s) e) < m_next (ev_mem s))"

lemma sys_alloc_task:
  assumes "sys base hs M s" and "handles_known s" and "alloc_task s = (p, s')"
  shows "p \<noteq> NULL \<and> p \<notin># M \<and> sys base hs (add_mset p M) s'
    \<and> mq_task s' = (mq_task s)(p := zeroed_task) \<and> mq_data s' = mq_data s \<and> mq_msg s' = mq_msg s
    \<and> ly_at s' = ly_at s \<and> cx_connection s' = cx_connection s"
proof -
  obtain q m where a: "iotc_alloc sizeof_mqtt_task (ev_mem s) = (q, m)" by fastforce
  have "sizeof_mqtt_task < 2 ^ 63" by (simp add: sizeof_mqtt_task_def)
  note al = sys_alloc [OF assms(1) a this]
  have w: "wf_mem (ev_mem s)" "all_granted (ev_mem s)" using sys_wf [OF assms(1)] assms(1) by (simp_all add: sys_def)
  have q: "q = m_next (ev_mem s)" using alloc_all_granted [OF w(2,1), of sizeof_mqtt_task] a by (simp add: sizeof_mqtt_task_def)
  have s': "p = q" "s' = s\<lparr>ev_mem := m, ev_te := (ev_te s)\<lparr>te_hnd := (te_hnd (ev_te s))(p := NULL)\<rparr>,
      mq_task := (mq_task s)(p := zeroed_task)\<rparr>" using assms(3) a al by (auto simp: alloc_task_def)
  have i: "te_inv (ev_timers s) (ev_te s)" using assms(1) by (simp add: sys_def)
  have "te_inv (ev_timers s) ((ev_te s)\<lparr>te_hnd := (te_hnd (ev_te s))(p := NULL)\<rparr>)"
    using i assms(2) s'(1) unfolding te_inv_def handles_known_def pos_ok_def q by auto
  with al show ?thesis unfolding s'(2) by (auto simp: s'(1) sys_def lock_free_def)
qed

text \<open>
  A received message with quality of service 1 is not delivered at once: a new task with its identifier is appended to
  the tasks of received messages, and the only call that is queued hands the layer below a PUBACK message with the
  same identifier; the message and the task stay owned, waiting for the acknowledgement to be written.
\<close>

theorem qos1_message_acknowledged_first:
  assumes "operational context s" and "neighbour_ok context s Prev" and "handles_known s"
    and "sys base hs (message_blocks p (mq_msg s p)) s"
    and "mm_type (mq_msg s p) = IOTC_MQTT_TYPE_PUBLISH" and "mm_qos (mq_msg s p) = qos_code IOTC_MQTT_QOS_AT_LEAST_ONCE"
    and "iotc_mqtt_logic_layer_pull context p IOTC_STATE_OK s = (r, s')"
  shows "r = IOTC_STATE_OK \<and> (\<exists>t q. ld_q12_recv (mq_data s') = ld_q12_recv (mq_data s) @ [t]
    \<and> mt_msg_id (mq_task s' t) = iotc_mqtt_get_message_id (mq_msg s p) \<and> waits_for_ack_written context t p s'
    \<and> mq_msg s' q = fill_with_puback_data (iotc_mqtt_get_message_id (mq_msg s p))
    \<and> sys base (hs @ [call_handle context s (Prev, F_push, q, IOTC_STATE_OK)])
        (add_mset t (message_blocks q (mq_msg s' q) + message_blocks p (mq_msg s' p))) s')"
proof -
  define s1 where "s1 = s\<lparr>gl_backoff := (gl_backoff s)\<lparr>backoff_class := IOTC_BACKOFF_CLASS_NONE\<rparr>\<rparr>"
  let ?id = "iotc_mqtt_get_message_id (mq_msg s p)" and ?M = "message_blocks p (mq_msg s p)"
  have o1: "sys base hs ?M s1" and hk: "handles_known s1" using assms(3,4)
    by (simp_all add: s1_def sys_def lock_free_def handles_known_def)
  have eq: "mq_msg s1 = mq_msg s" "mq_data s1 = mq_data s" "ly_at s1 = ly_at s" by (simp_all add: s1_def)
  obtain t s2 where a: "alloc_task s1 = (t, s2)" by fastforce
  note t = sys_alloc_task [OF o1 hk a]
  let ?f = "\<lambda>t'. t'\<lparr>mt_scenario := IOTC_MQTT_PUBACK, mt_qos := IOTC_MQTT_QOS_AT_LEAST_ONCE,
      mt_logic := make_handle4 fn_publish_q1_recieved context t IOTC_STATE_OK p, mt_msg_id := ?id\<rparr>"
  define s3 where "s3 = on_data (\<lambda>d. d\<lparr>ld_q12_recv := ld_q12_recv d @ [t]\<rparr>) (write_task t ?f s2)"
  have mk: "make_puback_task context p s1 = (t, s3)"
    using a t by (simp add: make_puback_task_def Let_def s3_def eq)
  have o3: "sys base hs (add_mset t ?M) s3" using t by (simp add: s3_def)
  obtain q s4 where am: "alloc_message s3 = (q, s4)" by fastforce
  note m = sys_alloc_message [OF o3 am]
  define s5 where "s5 = set_cs t 162 (put_message q (fill_with_puback_data ?id) s4)"
  have f3: "mq_task s3 t = ?f zeroed_task" "mq_msg s3 = mq_msg s" "ly_at s3 = ly_at s"
    "ld_q12_recv (mq_data s3) = ld_q12_recv (mq_data s) @ [t]"
    using t by (simp_all add: s3_def eq frame)
  have s4: "s4 = snd (alloc_message s3)" by (simp add: am)
  have pq: "p \<noteq> q" using m by (auto simp: message_blocks_def)
  have "s4 = s3\<lparr>ev_mem := ev_mem s4, mq_msg := (mq_msg s3)(q := zeroed_message)\<rparr>" using m by blast
  then have "mq_msg s4 = (mq_msg s3)(q := zeroed_message)" by (metis mqtt.select_convs(3) mqtt.surjective mqtt.update_convs(3))
  then have mp: "mq_msg s4 p = mq_msg s p" using pq by (simp add: f3)
  have f5: "mq_task s5 t = (?f zeroed_task)\<lparr>mt_cs := 162\<rparr>" "ly_at s5 = ly_at s" "mq_data s5 = mq_data s3"
    "mq_msg s5 q = fill_with_puback_data ?id" "mq_msg s5 p = mq_msg s p"
    using pq mp by (simp_all add: s5_def frame put_message_def) (simp_all add: s4 frame f3)
  have qb: "message_blocks q (fill_with_puback_data ?id) = {#q#}"
    by (simp add: message_blocks_def body_blocks_def fill_with_puback_data_def)
  have "sys base hs (add_mset q (add_mset t ?M)) s4" using m by simp
  then have o5: "sys base hs (add_mset t (message_blocks q (mq_msg s5 q) + message_blocks p (mq_msg s5 p))) s5"
    by (simp add: s5_def [symmetric] f5 qb) (simp add: s5_def add_mset_commute)
  obtain r6 s6 where k: "IOTC_LAYER_CONTINUE_WITH Prev lf_push context q IOTC_STATE_OK s5 = (r6, s6)" by fastforce
  note nb = layers_upd [OF assms(2) f5(2)]
  from sys_continue [OF o5 nb(1), of F_push q IOTC_STATE_OK r6 s6] k
  have o6: "r6 = IOTC_STATE_OK" "sys base (hs @ [call_handle context s (Prev, F_push, q, IOTC_STATE_OK)])
      (add_mset t (message_blocks q (mq_msg s5 q) + message_blocks p (mq_msg s5 p))) s6"
    by (simp_all add: nb(2))
  have "mt_msg_id (mq_task s3 t) = ?id" by (simp add: f3)
  then have "mt_msg_id (mq_task s4 t) = ?id" by (simp add: s4 frame)
  then have "puback_send context t s3 = (r6, s6)" using m k by (simp add: puback_send_def am s5_def)
  moreover have "iotc_mqtt_logic_layer_pull context p IOTC_STATE_OK s = on_publish_q1_recieved context NULL IOTC_STATE_OK p s1"
    using assms(1,5,6) by (simp add: iotc_mqtt_logic_layer_pull_def operational_def iotc_update_backoff_penalty_def Let_def
        pull_message_def on_publish_recieved_def qos_code_def s1_def)
  moreover have "\<not> IOTC_THIS_LAYER_NOT_OPERATIONAL context s1" "user_data context s1 \<noteq> NULL"
    using assms(1) by (simp_all add: operational_def IOTC_THIS_LAYER_NOT_OPERATIONAL_def eq)
  ultimately have "(r, s') = (r6, s6)" using assms(7) mk t by (simp add: on_publish_q1_recieved_def)
  then show ?thesis using o6 continue_frame [OF k] f5 f3(4)
    by (auto simp: waits_for_ack_written_def zeroed_task_def intro!: exI [of _ t] exI [of _ q])
qed


theorem qos1_message_acknowledged_first_witness:
  "\<exists>t q. ld_q12_recv (mq_data (snd (iotc_mqtt_logic_layer_pull 42 70 IOTC_STATE_OK
       (receive_example IOTC_MQTT_QOS_AT_LEAST_ONCE [70, 5, 6])))) = [60, t]
     \<and> mq_msg (snd (iotc_mqtt_logic_layer_pull 42 70 IOTC_STATE_OK
       (receive_example IOTC_MQTT_QOS_AT_LEAST_ONCE [70, 5, 6]))) q = fill_with_puback_data 7"
proof -
  let ?s = "receive_example IOTC_MQTT_QOS_AT_LEAST_ONCE [70, 5, 6]"
  obtain r s' where p: "iotc_mqtt_logic_layer_pull 42 70 IOTC_STATE_OK ?s = (r, s')" by fastforce
  have "operational 42 ?s" "neighbour_ok 42 ?s Prev" "handles_known ?s" "mm_type (mq_msg ?s 70) = IOTC_MQTT_TYPE_PUBLISH"
    "mm_qos (mq_msg ?s 70) = qos_code IOTC_MQTT_QOS_AT_LEAST_ONCE"
    by (simp_all add: receive_example_def handles_known_def small_vec_def vec_list_def)
      (simp add: neighbour_ok_def example_layers_def interface_ok_def)
  from qos1_message_acknowledged_first [OF this(1-3) receive_example_sys(1) this(4,5) p] p show ?thesis
    by (simp add: receive_example_def zeroed_logic_data_def iotc_mqtt_get_message_id_def) blast
qed

lemma sys_restart_all:
  assumes "sys base hs M s" and "timer_ok h s" and "timeout_set h s" and "iotc_evtd_restart h t s = (st, s')"
  shows "st = IOTC_STATE_OK \<and> sys base hs M s' \<and> te_hnd (ev_te s') = te_hnd (ev_te s) \<and> (\<forall>g. timer_ok g s \<longrightarrow> timer_ok g s')"
proof -
  let ?p = "te_hnd (ev_te s) h"
  obtain us vs where l: "vec_list (ev_timers s) = us @ ?p # vs" using assms(2,3) by (metis timer_ok_def split_list)
  have i: "te_inv (ev_timers s) (ev_te s)" using assms(1) by (simp add: sys_def)
  let ?t = "to_int64 (ev_current_step s + t)"
  obtain st' v te where c: "iotc_time_event_restart (ev_timers s) (ev_te s) h ?t = (st', v, te)" by (metis prod_cases3)
  note r = te_restart_all [OF i l refl c]
  have td: "mset (takeWhile P xs) + mset (dropWhile P xs) = mset xs" for P and xs :: "ptr list"
    by (simp flip: mset_append)
  have ms: "mset (vec_list v) = mset (vec_list (ev_timers s))"
    using r by (auto simp: l mset_queue_insert td simp flip: add.assoc)
  have f: "\<not> ev_cs_state s" "\<not> ev_spins s" using assms(1) by (auto simp: sys_def lock_free_def)
  have "s' = s\<lparr>ev_timers := v, ev_te := te\<rparr>" "st = st'"
    using assms(4) c f by (cases s; simp add: iotc_evtd_restart_def Let_def iotc_lock_critical_section_def
        iotc_unlock_critical_section_def)+
  then show ?thesis using assms(1) r ms mset_eq_setD [OF ms] by (auto simp: sys_def lock_free_def timer_ok_def)
qed

lemma sys_restart:
  "sys base hs M s \<Longrightarrow> timer_ok h s \<Longrightarrow> timeout_set h s \<Longrightarrow> iotc_evtd_restart h t s = (st, s')
    \<Longrightarrow> st = IOTC_STATE_OK \<and> sys base hs M s'"
  using sys_restart_all by blast

text \<open>
  C19. When the acknowledgement of a received message has been written, its task ends and is released, and only then is the
  message delivered: one call of the first matching handler is queued, or the message is released when there is none. The
  keepalive timer starts anew.
\<close>

theorem qos1_message_delivered_when_acknowledged:
  assumes "operational context s" and "waits_for_ack_written context t p s" and "handlers_ok s"
    and "mq_written s w = (msg_id, IOTC_MQTT_TYPE_PUBACK)" and "msg_id \<noteq> 0"
    and "find_task msg_id (ld_q12_recv (mq_data s)) s = t"
    and "sys base hs (add_mset w (add_mset t (message_blocks p (mq_msg s p)))) s"
    and "timer_ok (user_data context s) s"
    and "iotc_mqtt_logic_layer_push context w IOTC_STATE_WRITTEN s = (r, s')"
  shows "r = IOTC_STATE_OK \<and> ld_q12_recv (mq_data s') = remove1 t (ld_q12_recv (mq_data s))
    \<and> (case matching_handler (mq_msg s p) s of
         None \<Rightarrow> sys base hs {#} s'
       | Some e \<Rightarrow> sys base (hs @ [handler_call e p s]) (message_blocks p (mq_msg s p)) s')"
proof -
  let ?M = "message_blocks p (mq_msg s p)"
  define s1 where "s1 = on_mem (IOTC_SAFE_FREE w) s"
  have o1: "sys base hs (add_mset t ?M) s1" unfolding s1_def by (rule sys_free) (use assms(7) in simp)
  have t: "t \<noteq> NULL" using sys_not_NULL [OF assms(7), of t] by simp
  obtain st2 s2 where e: "(if timeout_set (user_data context s1) s1
      then iotc_evtd_restart (user_data context s1) (keepalive_seconds s1) s1 else (IOTC_STATE_OK, s1)) = (st2, s2)"
    by fastforce
  have tk: "timer_ok (user_data context s1) s1" using assms(8) by (simp add: s1_def on_mem_def timer_ok_def)
  have o2: "st2 = IOTC_STATE_OK" "sys base hs (add_mset t ?M) s2"
    using e o1 sys_restart [OF o1 tk] by (auto split: if_splits)
  have s2: "s2 = s1 \<or> s2 = snd (iotc_evtd_restart (user_data context s1) (keepalive_seconds s1) s1)"
    using e by (auto split: if_splits)
  have f2: "mq_task s2 = mq_task s" "mq_spec s2 = mq_spec s" "mq_data s2 = mq_data s" "mq_msg s2 = mq_msg s"
    "ly_at s2 = ly_at s" using s2 by (auto simp: frame s1_def)
  obtain st0 where l: "mt_logic (mq_task s2 t) = make_handle4 fn_publish_q1_recieved context t st0 p"
    and cs: "mt_cs (mq_task s t) = 162" and d: "mt_data_u (mq_task s t) = NULL"
    using assms(2) by (auto simp: waits_for_ack_written_def f2)
  define s3 where "s3 = write_task t (\<lambda>x. x\<lparr>mt_logic := make_handle4 fn_publish_q1_recieved context t IOTC_STATE_WRITTEN p\<rparr>) s2"
  have w3: "write_task t (\<lambda>x. x\<lparr>mt_logic := set_arg 2 (state_arg IOTC_STATE_WRITTEN) (mt_logic x)\<rparr>) s2 = s3"
    using l by (simp add: s3_def write_task_def Let_def on_mem_def)
  have o3: "sys base hs (add_mset t ?M) s3" using o2(2) by (simp add: s3_def)
  have f3: "mq_task s3 t = (mq_task s t)\<lparr>mt_logic := make_handle4 fn_publish_q1_recieved context t IOTC_STATE_WRITTEN p\<rparr>"
    "mq_spec s3 = mq_spec s" "mq_data s3 = mq_data s" "mq_msg s3 = mq_msg s" "ly_at s3 = ly_at s"
    by (simp_all add: s3_def f2 frame)
  define s4 where "s4 = iotc_mqtt_logic_free_task t (on_data (\<lambda>d. d\<lparr>ld_q12_recv := remove1 t (ld_q12_recv d)\<rparr>) s3)"
  have o4: "sys base hs (?M + {#}) s4" unfolding s4_def by (rule sys_free_task) (use o3 f3(1) d in simp_all)
  have f4: "mq_spec s4 = mq_spec s" "mq_msg s4 = mq_msg s" "mq_data s4 = (mq_data s)\<lparr>ld_q12_recv := remove1 t (ld_q12_recv (mq_data s))\<rparr>"
    by (simp_all add: s4_def frame f3)
  have ex: "execute_task t s3 = on_publish_q1_recieved context t IOTC_STATE_WRITTEN p s3"
    by (subst execute_logic [of _ _ fn_publish_q1_recieved "context" t IOTC_STATE_WRITTEN p]) (simp_all add: f3)
  have "\<not> IOTC_THIS_LAYER_NOT_OPERATIONAL context s3" "user_data context s3 \<noteq> NULL"
    using assms(1) by (simp_all add: operational_def IOTC_THIS_LAYER_NOT_OPERATIONAL_def f3)
  with ex have x: "execute_task t s3 = (IOTC_STATE_OK, call_topic_handler p s4)"
    using t cs by (simp add: on_publish_q1_recieved_def Let_def f3 s4_def)
  have fnd: "find_task msg_id (ld_q12_recv (mq_data s1)) s1 = t"
    using assms(6) by (simp add: s1_def on_mem_def find_task_def)
  have "iotc_mqtt_logic_layer_push context w IOTC_STATE_WRITTEN s = push_written context w IOTC_STATE_WRITTEN s"
    using assms(1) by (simp add: iotc_mqtt_logic_layer_push_def operational_def iotc_backoff_classify_state_def)
  also have "\<dots> = (IOTC_STATE_OK, call_topic_handler p s4)"
    unfolding push_written_def using assms(4,5) e o2(1) fnd t x w3
    by (simp add: Let_def iotc_mqtt_class_msg_type_sending_def flip: s1_def)
  finally have s': "r = IOTC_STATE_OK" "s' = call_topic_handler p s4" using assms(9) by simp_all
  have "handlers_ok s4" using assms(3) by (simp add: handlers_ok_def f4)
  moreover have "matching_handler (mq_msg s4 p) s4 = matching_handler (mq_msg s p) s"
    "handler_call e p s4 = handler_call e p s" for e
    by (simp_all add: matching_handler_def topic_cmp_def [abs_def] handler_call_def f4)
  ultimately show ?thesis using call_topic_handler_ok [of base hs p s4 "{#}" s'] o4 s'
    by (simp add: f4 split: option.splits)
qed

theorem qos1_message_delivered_when_acknowledged_witness:
  "sys Map.empty [iotc_make_handle_argc3 IOTC_THREADID_MAINTHREAD 981 0 70 (state_arg IOTC_STATE_OK)]
     {#70, 5, 6#} (snd (iotc_mqtt_logic_layer_push 42 71 IOTC_STATE_WRITTEN
       ((receive_example IOTC_MQTT_QOS_AT_LEAST_ONCE [71, 60, 70, 5, 6])\<lparr>mq_written := \<lambda>p. (7, IOTC_MQTT_TYPE_PUBACK)\<rparr>)))"
proof -
  let ?s = "receive_example IOTC_MQTT_QOS_AT_LEAST_ONCE [71, 60, 70, 5, 6]"
  let ?t = "?s\<lparr>mq_written := \<lambda>p. (7, IOTC_MQTT_TYPE_PUBACK)\<rparr>"
  obtain r s' where p: "iotc_mqtt_logic_layer_push 42 71 IOTC_STATE_WRITTEN ?t = (r, s')" by fastforce
  have f: "mq_task ?t = mq_task ?s" "mq_spec ?t = mq_spec ?s" "mq_data ?t = mq_data ?s" "mq_msg ?t = mq_msg ?s"
    "ly_at ?t = ly_at ?s" "ev_te ?t = ev_te ?s" by simp_all
  have o: "operational 42 ?t" "waits_for_ack_written 42 60 70 ?t" "mq_written ?t 71 = (7, IOTC_MQTT_TYPE_PUBACK)"
    "(7::nat) \<noteq> 0" "find_task 7 (ld_q12_recv (mq_data ?t)) ?t = 60" "timer_ok (user_data 42 ?t) ?t"
    using example_operational by (simp_all add: operational_def IOTC_THIS_LAYER_NOT_OPERATIONAL_def f)
      (auto simp: receive_example_def waits_for_ack_written_def zeroed_task_def zeroed_logic_data_def find_task_def timer_ok_def
        example_te example_layers_def)
  have h: "handlers_ok ?t" using receive_example_handlers by (simp add: handlers_ok_def)
  have b: "sys Map.empty [] (add_mset 71 (add_mset 60 (message_blocks 70 (mq_msg ?t 70)))) ?t"
    using receive_example_sys(2) by (simp add: sys_def lock_free_def)
  have "topic_cmp ?t = topic_cmp ?s" by (simp add: topic_cmp_def [abs_def])
  then have m: "matching_handler (mq_msg ?t 70) ?t = Some 81" using receive_example_matches
    by (simp add: matching_handler_def)
  from qos1_message_delivered_when_acknowledged [OF o(1,2) h o(3-5) b o(6) p] p show ?thesis
    unfolding m by (simp add: handler_call_def receive_example_def spec_handler_def iotc_make_handle_argc3_def set_arg_def
        message_blocks_def body_blocks_def desc_blocks_def desc_of_def add_mset_commute)
qed

section \<open>A subscription that fails\<close>

lemma safe_free_gone: "p \<noteq> NULL \<Longrightarrow> m_live (IOTC_SAFE_FREE p m) p = None"
  by (simp add: IOTC_SAFE_FREE_def iotc_free_def iotc_bsp_mem_free_def)

lemma subscribe_error_bad:
  fixes s :: "'z mqtt_scheme"
  assumes "mt_qos (mq_task (free_message p s) t) \<noteq> IOTC_MQTT_QOS_AT_MOST_ONCE" and "t \<noteq> NULL"
  shows "m_bad (ev_mem (snd (subscribe_error next_task t p st s)))"
proof -
  have "m_live (ev_mem (iotc_mqtt_logic_free_task t x)) t = None" for x :: "'z mqtt_scheme"
    using assms(2) by (simp add: iotc_mqtt_logic_free_task_def Let_def on_mem_def safe_free_gone)
  then show ?thesis using assms
    by (simp add: subscribe_error_def iotc_mqtt_logic_layer_finalize_task_def Let_def write_task_def on_mem_def)
qed

text \<open>
  A subscription for whose message there is no memory fails with \<^verbatim>\<open>IOTC_OUT_OF_MEMORY\<close>, but its coroutine
  is reset after its task has been finalized: the line number is written to the block of the task
  that has just been released.
\<close>

theorem failed_subscribe_writes_freed_task:
  assumes "user_data context s \<noteq> NULL" and "mt_cs (mq_task s t) \<notin> {71, 94, 118}"
    and "mt_qos (mq_task s t) = IOTC_MQTT_QOS_AT_LEAST_ONCE" and "t \<noteq> NULL"
    and "\<not> m_ok (ev_mem s) (m_seq (ev_mem s)) sizeof_mqtt_message"
    and "do_mqtt_subscribe next_task context t st p s = (r, s')"
  shows "r = IOTC_OUT_OF_MEMORY \<and> m_bad (ev_mem s')"
proof -
  obtain s1 where a: "alloc_message s = (NULL, s1)" and f: "mq_task s1 = mq_task s"
    using assms(5) by (simp add: alloc_message_def iotc_alloc_def iotc_bsp_mem_alloc_def)
  have e: "(r, s') = subscribe_error next_task t NULL IOTC_OUT_OF_MEMORY s1"
    using assms(1,2,6) by (simp add: do_mqtt_subscribe_def subscribe_send_def a)
  have "m_bad (ev_mem (snd (subscribe_error next_task t NULL IOTC_OUT_OF_MEMORY s1)))"
    by (rule subscribe_error_bad) (use assms(3,4) f in \<open>simp_all add: frame\<close>)
  with e show ?thesis by (metis fst_conv snd_conv subscribe_error_def)
qed

theorem failed_subscribe_writes_freed_task_witness:
  "let s = example_mqtt ((example_heap [60, 61])\<lparr>m_ok := \<lambda>i n. False\<rparr>) small_vec
         (\<lambda>p. zeroed_task\<lparr>mt_scenario := IOTC_MQTT_SUBSCRIBE, mt_qos := IOTC_MQTT_QOS_AT_LEAST_ONCE, mt_data_u := 61\<rparr>)
         (\<lambda>p. Subscribe_data None zeroed_handle IOTC_MQTT_QOS_AT_MOST_ONCE) (\<lambda>p. zeroed_message) zeroed_logic_data
         IOTC_CONNECTION_STATE_OPENED
   in \<not> m_bad (ev_mem s) \<and> m_bad (ev_mem (snd (do_mqtt_subscribe next_q0_task 42 60 IOTC_STATE_OK NULL s)))"
proof -
  let ?s = "example_mqtt ((example_heap [60, 61])\<lparr>m_ok := \<lambda>i n. False\<rparr>) small_vec
         (\<lambda>p. zeroed_task\<lparr>mt_scenario := IOTC_MQTT_SUBSCRIBE, mt_qos := IOTC_MQTT_QOS_AT_LEAST_ONCE, mt_data_u := 61\<rparr>)
         (\<lambda>p. Subscribe_data None zeroed_handle IOTC_MQTT_QOS_AT_MOST_ONCE) (\<lambda>p. zeroed_message) zeroed_logic_data
         IOTC_CONNECTION_STATE_OPENED"
  obtain r s' where d: "do_mqtt_subscribe next_q0_task 42 60 IOTC_STATE_OK NULL ?s = (r, s')" by fastforce
  have "m_bad (ev_mem s')" using failed_subscribe_writes_freed_task [OF _ _ _ _ _ d]
    by (simp add: example_layers_def zeroed_task_def)
  moreover have "\<not> m_bad (ev_mem ?s)" by (simp add: example_heap_def)
  ultimately show ?thesis unfolding Let_def d by simp
qed

end
