(* ===== verification/Iotc_Bsp_Net.thy ===== *)
theory Iotc_Bsp_Net
  imports Iotc_Prelude
begin

text \<open>
  The types of the interface to the sockets of a platform, \<^verbatim>\<open>include/bsp/iotc_bsp_io_net.h\<close>. Its functions are chosen when the
  library is built and are parameters of the model.
\<close>

datatype net_state =
    IOTC_BSP_IO_NET_STATE_OK
  | IOTC_BSP_IO_NET_STATE_ERROR
  | IOTC_BSP_IO_NET_STATE_BUSY
  | IOTC_BSP_IO_NET_STATE_CONNECTION_RESET
  | IOTC_BSP_IO_NET_STATE_TIMEOUT

text \<open>A socket in the array that is given to \<^verbatim>\<open>iotc_bsp_io_net_select\<close>: what is wanted and what happened.\<close>

record socket_events =
  iotc_socket :: int
  in_socket_want_read :: bool
  in_socket_want_write :: bool
  in_socket_want_error :: bool
  in_socket_want_connect :: bool
  out_socket_can_read :: bool
  out_socket_can_write :: bool
  out_socket_error :: bool
  out_socket_connect_finished :: bool

definition zeroed_socket_events :: socket_events where
  "zeroed_socket_events = \<lparr>iotc_socket = 0, in_socket_want_read = False, in_socket_want_write = False,
     in_socket_want_error = False, in_socket_want_connect = False, out_socket_can_read = False,
     out_socket_can_write = False, out_socket_error = False, out_socket_connect_finished = False\<rparr>"

definition socket_ready :: "socket_events \<Rightarrow> bool" where
  "socket_ready e \<longleftrightarrow> out_socket_can_read e \<or> out_socket_can_write e \<or> out_socket_connect_finished e \<or> out_socket_error e"

end
