(* ===== verification/Iotc_Event_Loop.thy ===== *)
theory Iotc_Event_Loop
  imports Iotc_Dispatcher Iotc_Bsp_Net
begin

text \<open>
  The loop that drives the dispatchers, \<^verbatim>\<open>src/libiotc/event_loop/iotc_event_loop.c\<close>. The dispatchers are a list; the platform is given
  by a function \<open>select\<close>, which answers the wait of every round, and a clock, which is read once for the wait and once for the step of
  each dispatcher. An access behind the end of the array of the sockets marks the heap of the dispatcher.
\<close>

section \<open>The array of the sockets\<close>

definition IOTC_DEFAULT_IDLE_TIMEOUT :: int where "IOTC_DEFAULT_IDLE_TIMEOUT = 1"
definition IOTC_MAX_IDLE_TIMEOUT :: int where "IOTC_MAX_IDLE_TIMEOUT = 5"

definition iotc_bsp_event_loop_count_all_sockets :: "'z evtd_scheme list \<Rightarrow> nat" where
  "iotc_bsp_event_loop_count_all_sockets evtds =
     (if evtds = [] then nat (state_code IOTC_INVALID_PARAMETER) else sum_list (map (\<lambda>s. nat (v_elem_no (ev_sockets s))) evtds))"

definition socket_to_update :: "fd_tuple \<Rightarrow> socket_events \<Rightarrow> socket_events" where
  "socket_to_update t e = e\<lparr>iotc_socket := t_fd t,
     in_socket_want_read := 0 < and (t_event_type t) IOTC_EVENT_WANT_READ,
     in_socket_want_write := 0 < and (t_event_type t) IOTC_EVENT_WANT_WRITE,
     in_socket_want_error := 0 < and (t_event_type t) IOTC_EVENT_ERROR,
     in_socket_want_connect := 0 < and (t_event_type t) IOTC_EVENT_WANT_CONNECT\<rparr>"

definition in_array :: "nat \<Rightarrow> socket_events list \<Rightarrow> 'z evtd_scheme \<Rightarrow> 'z evtd_scheme" where
  "in_array k arr s = (if k < length arr then s else s\<lparr>ev_mem := (ev_mem s)\<lparr>m_bad := True\<rparr>\<rparr>)"

fun fill_sockets ::
    "ptr list \<Rightarrow> nat \<Rightarrow> socket_events list \<Rightarrow> 'z evtd_scheme \<Rightarrow> nat \<times> socket_events list \<times> 'z evtd_scheme" where
  "fill_sockets [] socket_id arr s = (socket_id, arr, s)"
| "fill_sockets (p # ps) socket_id arr s =
     fill_sockets ps (socket_id + 1) (arr[socket_id := socket_to_update (ev_fd s p) (arr ! socket_id)]) (in_array socket_id arr s)"

text \<open>The earliest delayed call of all dispatchers.\<close>

definition timeout_candidate :: "iotc_state \<Rightarrow> int option \<Rightarrow> int option \<Rightarrow> int option" where
  "timeout_candidate state tmp_timeout candidate =
     (if state = IOTC_STATE_OK
      then Some (case candidate of Some c \<Rightarrow> min c (the tmp_timeout) | None \<Rightarrow> the tmp_timeout)
      else candidate)"

fun transform_evtds ::
    "'z caller \<Rightarrow> 'z evtd_scheme list \<Rightarrow> nat \<Rightarrow> socket_events list \<Rightarrow> int option \<Rightarrow> bool
      \<Rightarrow> (socket_events list \<times> int option \<times> bool \<times> 'z evtd_scheme list) option" where
  "transform_evtds call [] socket_id arr candidate was_file_updated = Some (arr, candidate, was_file_updated, [])"
| "transform_evtds call (s # evtds) socket_id arr candidate was_file_updated =
     (case iotc_evtd_get_time_of_earliest_event s of (state, tmp_timeout, s1) \<Rightarrow>
        case fill_sockets (vec_list (ev_sockets s1)) socket_id arr s1 of (socket_id', arr', s2) \<Rightarrow>
          case iotc_evtd_update_file_fd_events call s2 of
            None \<Rightarrow> None
          | Some (updated, s3) \<Rightarrow>
              case transform_evtds call evtds socket_id' arr' (timeout_candidate state tmp_timeout candidate)
                  (was_file_updated \<or> updated) of
                None \<Rightarrow> None
              | Some (arr'', c, u, evtds') \<Rightarrow> Some (arr'', c, u, s3 # evtds'))"

definition select_timeout :: "int option \<Rightarrow> bool \<Rightarrow> int \<Rightarrow> int" where
  "select_timeout candidate was_file_updated current_time =
     (let timeout = (case candidate of
            Some c \<Rightarrow> if c \<ge> current_time then c - current_time else 0
          | None \<Rightarrow> IOTC_DEFAULT_IDLE_TIMEOUT)
      in if was_file_updated then 0 else min timeout IOTC_MAX_IDLE_TIMEOUT)"

definition iotc_bsp_event_loop_transform_to_bsp_select ::
    "'z caller \<Rightarrow> int \<Rightarrow> 'z evtd_scheme list \<Rightarrow> socket_events list
      \<Rightarrow> (iotc_state \<times> socket_events list \<times> int \<times> 'z evtd_scheme list) option" where
  "iotc_bsp_event_loop_transform_to_bsp_select call current_time evtds arr =
     (if evtds = [] then Some (IOTC_INVALID_PARAMETER, arr, 0, evtds)
      else
        (case transform_evtds call evtds 0 arr None False of
           None \<Rightarrow> None
         | Some (arr', candidate, updated, evtds') \<Rightarrow>
             Some (IOTC_STATE_OK, arr', select_timeout candidate updated current_time, evtds')))"

section \<open>The events\<close>

text \<open>The bound of the inner loop is read again after every handler.\<close>

partial_function (option) update_sockets_loop ::
    "'z caller \<Rightarrow> socket_events list \<Rightarrow> int \<Rightarrow> nat \<Rightarrow> 'z evtd_scheme \<Rightarrow> (iotc_state \<times> nat \<times> 'z evtd_scheme) option" where
  "update_sockets_loop call arr i socket_id s =
     (if i < v_elem_no (ev_sockets s) then
        (let e = (if socket_id < length arr then arr ! socket_id else zeroed_socket_events);
             s1 = in_array socket_id arr s
         in if socket_ready e then
              (case iotc_evtd_update_event_on_socket call (iotc_socket e) s1 of (state, s2) \<Rightarrow>
                 if state \<noteq> IOTC_STATE_OK then Some (state, socket_id, s2)
                 else update_sockets_loop call arr (i + 1) (socket_id + 1) s2)
            else update_sockets_loop call arr (i + 1) (socket_id + 1) s1)
      else Some (IOTC_STATE_OK, socket_id, s))"

fun update_evtds ::
    "'z caller \<Rightarrow> socket_events list \<Rightarrow> nat \<Rightarrow> 'z evtd_scheme list \<Rightarrow> (iotc_state \<times> 'z evtd_scheme list) option" where
  "update_evtds call arr socket_id [] = Some (IOTC_STATE_OK, [])"
| "update_evtds call arr socket_id (s # evtds) =
     (case update_sockets_loop call arr 0 socket_id s of
        None \<Rightarrow> None
      | Some (state, socket_id', s') \<Rightarrow>
          if state \<noteq> IOTC_STATE_OK then Some (state, s' # evtds)
          else
            (case update_evtds call arr socket_id' evtds of
               None \<Rightarrow> None
             | Some (state', evtds') \<Rightarrow> Some (state', s' # evtds')))"

definition iotc_bsp_event_loop_update_event_dispatcher ::
    "'z caller \<Rightarrow> 'z evtd_scheme list \<Rightarrow> socket_events list \<Rightarrow> (iotc_state \<times> 'z evtd_scheme list) option" where
  "iotc_bsp_event_loop_update_event_dispatcher call evtds arr =
     (if evtds = [] then Some (IOTC_INVALID_PARAMETER, evtds) else update_evtds call arr 0 evtds)"

fun step_evtds :: "'z caller \<Rightarrow> (nat \<Rightarrow> int) \<Rightarrow> nat \<Rightarrow> 'z evtd_scheme list \<Rightarrow> 'z evtd_scheme list option" where
  "step_evtds call clock evtd_id [] = Some []"
| "step_evtds call clock evtd_id (s # evtds) =
     (case iotc_evtd_step call (clock evtd_id) s of
        None \<Rightarrow> None
      | Some s' \<Rightarrow>
          (case step_evtds call clock (evtd_id + 1) evtds of None \<Rightarrow> None | Some evtds' \<Rightarrow> Some (s' # evtds')))"

section \<open>The loop\<close>

text \<open>
  The number of the round selects the answer of the platform and the readings of the clock. The counter of the code has 32 bits; it is only
  compared with the number of rounds that was asked for, which it does not pass.
\<close>

type_synonym select_fn = "nat \<Rightarrow> socket_events list \<Rightarrow> int \<Rightarrow> net_state \<times> socket_events list"

definition event_loop_round ::
    "'z caller \<Rightarrow> select_fn \<Rightarrow> (nat \<Rightarrow> nat \<Rightarrow> int) \<Rightarrow> nat \<Rightarrow> 'z evtd_scheme list
      \<Rightarrow> ((iotc_state \<times> 'z evtd_scheme list) + 'z evtd_scheme list) option" where
  "event_loop_round call select clock n evtds =
     (let arr = replicate (iotc_bsp_event_loop_count_all_sockets evtds) zeroed_socket_events;
          step = (\<lambda>evtds. case step_evtds call (clock n) 1 evtds of None \<Rightarrow> None | Some evtds' \<Rightarrow> Some (Inr evtds'))
      in case iotc_bsp_event_loop_transform_to_bsp_select call (clock n 0) evtds arr of
           None \<Rightarrow> None
         | Some (state, arr1, timeout, evtds1) \<Rightarrow>
             if state \<noteq> IOTC_STATE_OK then Some (Inl (state, evtds1))
             else
               (case select n arr1 timeout of (select_state, arr2) \<Rightarrow>
                  if select_state = IOTC_BSP_IO_NET_STATE_OK then
                    (case iotc_bsp_event_loop_update_event_dispatcher call evtds1 arr2 of
                       None \<Rightarrow> None
                     | Some (state2, evtds2) \<Rightarrow> if state2 \<noteq> IOTC_STATE_OK then Some (Inl (state2, evtds2)) else step evtds2)
                  else if select_state = IOTC_BSP_IO_NET_STATE_ERROR then Some (Inl (IOTC_INTERNAL_ERROR, evtds1))
                  else step evtds1))"

partial_function (option) event_loop ::
    "'z caller \<Rightarrow> select_fn \<Rightarrow> (nat \<Rightarrow> nat \<Rightarrow> int) \<Rightarrow> nat \<Rightarrow> nat \<Rightarrow> 'z evtd_scheme list \<Rightarrow> (iotc_state \<times> 'z evtd_scheme list) option" where
  "event_loop call select clock num_iterations n evtds =
     (if iotc_evtd_all_continue (map Some evtds) \<and> (num_iterations = 0 \<or> n < num_iterations) then
        (case event_loop_round call select clock n evtds of
           None \<Rightarrow> None
         | Some (Inl r) \<Rightarrow> Some r
         | Some (Inr evtds') \<Rightarrow> event_loop call select clock num_iterations (n + 1) evtds')
      else Some (IOTC_STATE_OK, evtds))"

definition iotc_event_loop_with_evtds ::
    "'z caller \<Rightarrow> select_fn \<Rightarrow> (nat \<Rightarrow> nat \<Rightarrow> int) \<Rightarrow> nat \<Rightarrow> 'z evtd_scheme list \<Rightarrow> (iotc_state \<times> 'z evtd_scheme list) option" where
  "iotc_event_loop_with_evtds call select clock num_iterations evtds =
     (if evtds = [] then Some (IOTC_INVALID_PARAMETER, evtds) else event_loop call select clock num_iterations 0 evtds)"

section \<open>The wait\<close>

definition timer_due :: "'z evtd_scheme \<Rightarrow> int" where
  "timer_due s = te_time (ev_te s) (iotc_time_event_peek_top (ev_timers s))"

lemma earliest_event:
  assumes "lock_free s"
  shows "iotc_evtd_get_time_of_earliest_event s =
    (if v_elem_no (ev_timers s) \<noteq> 0 then (IOTC_STATE_OK, Some (timer_due s), s) else (IOTC_ELEMENT_NOT_FOUND, None, s))"
  using assms by (cases s) (simp add: iotc_evtd_get_time_of_earliest_event_def Let_def timer_due_def lock_free_def
      iotc_lock_critical_section_def iotc_unlock_critical_section_def)

definition candidates :: "'z evtd_scheme list \<Rightarrow> int set" where
  "candidates evtds = timer_due ` {s \<in> set evtds. v_elem_no (ev_timers s) \<noteq> 0}"

lemma candidates_simps [simp]:
  "candidates [] = {}" "candidates (s # evtds) = (if v_elem_no (ev_timers s) \<noteq> 0 then {timer_due s} else {}) \<union> candidates evtds"
  "finite (candidates evtds)"
  by (auto simp: candidates_def)

lemma fill_sockets_files: "fill_sockets ps k arr s = (k', arr', s') \<Longrightarrow> ev_files s' = ev_files s"
  by (induction ps k arr s rule: fill_sockets.induct) (auto simp: in_array_def split: if_splits)

lemma no_files: "v_elem_no (ev_files s) = 0 \<Longrightarrow> iotc_evtd_update_file_fd_events call s = Some (False, s)"
  by (simp add: iotc_evtd_update_file_fd_events_def update_file_fd_loop.simps)

lemma transform_no_files:
  assumes "\<forall>s\<in>set evtds. lock_free s \<and> v_elem_no (ev_files s) = 0" and "transform_evtds call evtds k arr c u = Some (arr', c', u', evtds')"
  shows "u' = u"
  using assms
proof (induction evtds arbitrary: k arr c u arr' c' u' evtds')
  case (Cons s evtds)
  from Cons.prems(1) have l: "lock_free s" "v_elem_no (ev_files s) = 0" by auto
  obtain k1 arr1 s1 where f: "fill_sockets (vec_list (ev_sockets s)) k arr s = (k1, arr1, s1)" using prod_cases3 by blast
  have n: "v_elem_no (ev_files s1) = 0" using fill_sockets_files [OF f] l(2) by simp
  from Cons.prems(2) obtain c1 evtds1 where "transform_evtds call evtds k1 arr1 c1 u = Some (arr', c', u', evtds1)"
    unfolding transform_evtds.simps earliest_event [OF l(1)]
    by (auto simp: f no_files [OF n] split: option.splits if_splits)
  with Cons.IH Cons.prems(1) show ?case by simp
qed simp

lemma transform_candidate:
  assumes "\<forall>s\<in>set evtds. lock_free s" and "transform_evtds call evtds k arr c u = Some (arr', c', u', evtds')"
  shows "c' = (if candidates evtds \<union> set_option c = {} then None else Some (Min (candidates evtds \<union> set_option c)))"
  using assms
proof (induction evtds arbitrary: k arr c u arr' c' u' evtds')
  case Nil
  then show ?case by (cases c) (auto simp: candidates_def)
next
  case (Cons s evtds)
  from Cons.prems(1) have l: "lock_free s" by simp
  define c1 where "c1 = (if v_elem_no (ev_timers s) \<noteq> 0 then Some (case c of Some c \<Rightarrow> min c (timer_due s) | None \<Rightarrow> timer_due s) else c)"
  from Cons.prems(2) obtain k1 arr1 u1 evtds1 where "transform_evtds call evtds k1 arr1 c1 u1 = Some (arr', c', u', evtds1)"
    unfolding transform_evtds.simps earliest_event [OF l]
    by (auto simp: timeout_candidate_def c1_def split: prod.splits option.splits if_splits)
  with Cons.IH [of k1 arr1 c1 u1] Cons.prems(1)
  have "c' = (if candidates evtds \<union> set_option c1 = {} then None else Some (Min (candidates evtds \<union> set_option c1)))" by simp
  then show ?case
    by (cases c; cases "candidates evtds = {}") (auto simp: c1_def min.assoc min.left_commute min.commute)
qed

lemma select_timeout_of:
  "select_timeout (if b then None else Some c) u now = (if u then 0 else if b then 1 else max 0 (min 5 (c - now)))"
  by (auto simp: select_timeout_def IOTC_DEFAULT_IDLE_TIMEOUT_def IOTC_MAX_IDLE_TIMEOUT_def)

text \<open>
  The wait is as long as it may be and not longer: it ends at the earliest delayed call of any dispatcher, at once if that one is late or
  an event of a file was handled, after five seconds at the latest, and after one second when no call is
  delayed.
\<close>

theorem select_waits_for_earliest:
  assumes "\<forall>s\<in>set evtds. lock_free s" and "evtds \<noteq> []"
    and "iotc_bsp_event_loop_transform_to_bsp_select call now evtds arr = Some (st, arr', timeout, evtds')"
  shows "st = IOTC_STATE_OK \<and> 0 \<le> timeout \<and> timeout \<le> 5 \<and>
    ((\<forall>s\<in>set evtds. v_elem_no (ev_files s) = 0) \<longrightarrow>
       timeout = (if candidates evtds = {} then 1 else max 0 (min 5 (Min (candidates evtds) - now)))) \<and>
    (\<forall>s\<in>set evtds. v_elem_no (ev_timers s) \<noteq> 0 \<longrightarrow> timeout \<le> max 0 (timer_due s - now))"
proof -
  from assms(2,3) obtain c u where t: "transform_evtds call evtds 0 arr None False = Some (arr', c, u, evtds')"
    and r: "st = IOTC_STATE_OK" "timeout = select_timeout c u now"
    by (auto simp: iotc_bsp_event_loop_transform_to_bsp_select_def split: option.splits)
  from transform_candidate [OF assms(1) t] have c: "c = (if candidates evtds = {} then None else Some (Min (candidates evtds)))" by simp
  then have timeout: "timeout = (if u then 0 else if candidates evtds = {} then 1 else max 0 (min 5 (Min (candidates evtds) - now)))"
    using r(2) by (simp only: select_timeout_of)
  have "timeout \<le> max 0 (timer_due s - now)" if "s \<in> set evtds" "v_elem_no (ev_timers s) \<noteq> 0" for s
  proof -
    have "timer_due s \<in> candidates evtds" using that by (auto simp: candidates_def)
    then have "Min (candidates evtds) \<le> timer_due s" "candidates evtds \<noteq> {}" by auto
    then show ?thesis by (auto simp: timeout)
  qed
  moreover have "\<not> u" if "\<forall>s\<in>set evtds. v_elem_no (ev_files s) = 0"
    using transform_no_files [OF _ t] assms(1) that by simp
  ultimately show ?thesis using r(1) timeout by auto
qed

section \<open>A round\<close>

definition sockets_known :: "'z evtd_scheme \<Rightarrow> bool" where
  "sockets_known s \<longleftrightarrow> vec_inv (ev_sockets s) \<and> distinct (map (\<lambda>p. t_fd (ev_fd s p)) (vec_list (ev_sockets s)))
     \<and> (\<forall>p\<in>set (vec_list (ev_sockets s)). t_fd_type (ev_fd s p) = IOTC_EVTD_FD_TYPE_SOCKET)"

text \<open>The handles of the sockets with an event.\<close>

fun ready_handles :: "(ptr \<Rightarrow> fd_tuple) \<Rightarrow> ptr list \<Rightarrow> socket_events list \<Rightarrow> event_handle list" where
  "ready_handles fds (p # ps) (e # es) = (if socket_ready e then [t_handle (fds p)] else []) @ ready_handles fds ps es"
| "ready_handles fds _ _ = []"

definition one_shot :: "fd_tuple \<Rightarrow> fd_tuple" where
  "one_shot t = t\<lparr>t_event_type := IOTC_EVENT_WANT_READ, t_handle := t_read_handle t\<rparr>"

fun reset_ready :: "(ptr \<Rightarrow> fd_tuple) \<Rightarrow> ptr list \<Rightarrow> socket_events list \<Rightarrow> ptr \<Rightarrow> fd_tuple" where
  "reset_ready fds (p # ps) (e # es) = reset_ready (if socket_ready e then fds(p := one_shot (fds p)) else fds) ps es"
| "reset_ready fds _ _ = fds"

lemma ready_handles_other: "p \<notin> set ps \<Longrightarrow> ready_handles (fds(p := t)) ps es = ready_handles fds ps es"
  by (induction fds ps es rule: ready_handles.induct) auto

lemma find_distinct:
  assumes "distinct (map f xs)" and "x \<in> set xs"
  shows "find (\<lambda>y. f y = f x) xs = Some x"
  using assms by (induction xs) auto

lemma update_sockets_ready:
  assumes "passive_call call res upd" and "lock_free s" and "sockets_known s"
    and "vec_list (ev_sockets s) = qs @ ps" and "length es = length ps" and "k = length done_es"
    and "map iotc_socket es = map (\<lambda>p. t_fd (ev_fd s p)) ps"
  shows "update_sockets_loop call (done_es @ es) (int (length qs)) k s = Some (IOTC_STATE_OK, k + length ps,
    evtd.more_update (fold (handle_effect upd) (ready_handles (ev_fd s) ps es)) (s\<lparr>ev_fd := reset_ready (ev_fd s) ps es\<rparr>))"
  using assms(2-)
proof (induction ps arbitrary: qs es done_es k s)
  case Nil
  from Nil.prems(2) have v: "vec_inv (ev_sockets s)" by (simp add: sockets_known_def)
  have "\<not> int (length qs) < v_elem_no (ev_sockets s)" using vec_list_length [OF v] Nil.prems(3) by auto
  then show ?case using Nil.prems(4) by (subst update_sockets_loop.simps) (cases s; simp)
next
  case (Cons p ps)
  then obtain e es1 where es: "es = e # es1" "iotc_socket e = t_fd (ev_fd s p)" by (cases es) auto
  from Cons.prems(2) have v: "vec_inv (ev_sockets s)" by (simp add: sockets_known_def)
  have i: "int (length qs) < v_elem_no (ev_sockets s)" using vec_list_length [OF v] Cons.prems(3) by auto
  have p: "p \<in> set (vec_list (ev_sockets s))" using Cons.prems(3) by simp
  have pn: "p \<notin> set ps" "p \<notin> set qs" using Cons.prems(2,3) by (auto simp: sockets_known_def image_iff)
  define s1 where "s1 = (if socket_ready e then evtd.more_update (handle_effect upd (t_handle (ev_fd s p)))
      (s\<lparr>ev_fd := (ev_fd s)(p := one_shot (ev_fd s p))\<rparr>) else s)"
  have "fd_lookup handles_and_socket_fd (t_fd (ev_fd s p)) s = Some p"
    using find_distinct [of "\<lambda>p. t_fd (ev_fd s p)"] Cons.prems(2) p by (simp add: fd_lookup_def sockets_known_def)
  with update_event_passive [OF assms(1) Cons.prems(1), of handles_and_socket_fd] v p Cons.prems(2)
  have u: "iotc_evtd_update_event_on_socket call (t_fd (ev_fd s p)) s = (IOTC_STATE_OK, s1)" if "socket_ready e"
    using that by (simp add: iotc_evtd_update_event_on_socket_def sockets_known_def s1_def one_shot_def)
  have fds: "ev_fd s1 = (if socket_ready e then (ev_fd s)(p := one_shot (ev_fd s p)) else ev_fd s)" "ev_sockets s1 = ev_sockets s"
    "lock_free s1 = lock_free s" by (simp_all add: s1_def lock_free_def)
  have t: "(\<lambda>p. t_fd (ev_fd s1 p)) = (\<lambda>p. t_fd (ev_fd s p))" "(\<lambda>p. t_fd_type (ev_fd s1 p)) = (\<lambda>p. t_fd_type (ev_fd s p))"
    by (simp_all add: fds one_shot_def fun_eq_iff)
  have kn: "sockets_known s1" using Cons.prems(2) t by (simp add: sockets_known_def fds(2) fun_eq_iff)
  have "update_sockets_loop call (done_es @ es) (int (length qs)) k s = update_sockets_loop call ((done_es @ [e]) @ es1) (int (length (qs @ [p]))) (k + 1) s1"
    using i u Cons.prems(5) by (subst update_sockets_loop.simps)
      (auto simp: es s1_def in_array_def nth_append add.commute)
  also have "\<dots> = Some (IOTC_STATE_OK, k + 1 + length ps,
    evtd.more_update (fold (handle_effect upd) (ready_handles (ev_fd s1) ps es1)) (s1\<lparr>ev_fd := reset_ready (ev_fd s1) ps es1\<rparr>))"
    using Cons.prems kn t by (intro Cons.IH) (simp_all add: fds es)
  finally show ?case using pn by (cases s) (auto simp: es s1_def ready_handles_other)
qed

lemma fill_sockets_all:
  "fill_sockets ps (length xs) (xs @ replicate (length ps) e) s
    = (length xs + length ps, xs @ map (\<lambda>p. socket_to_update (ev_fd s p) e) ps, s)"
proof (induction ps arbitrary: xs)
  case (Cons p ps)
  from Cons.IH [of "xs @ [socket_to_update (ev_fd s p) e]"] show ?case by (simp add: in_array_def nth_append)
qed simp

definition wanted :: "'z evtd_scheme \<Rightarrow> socket_events list" where
  "wanted s = map (\<lambda>p. socket_to_update (ev_fd s p) zeroed_socket_events) (vec_list (ev_sockets s))"

lemma transform_one:
  assumes "lock_free s" and "vec_inv (ev_sockets s)" and "v_elem_no (ev_files s) = 0"
  obtains timeout where "iotc_bsp_event_loop_transform_to_bsp_select call now [s]
    (replicate (iotc_bsp_event_loop_count_all_sockets [s]) zeroed_socket_events) = Some (IOTC_STATE_OK, wanted s, timeout, [s])"
proof -
  have "iotc_bsp_event_loop_count_all_sockets [s] = length (vec_list (ev_sockets s))"
    using assms(2) by (simp add: iotc_bsp_event_loop_count_all_sockets_def)
  moreover have "fill_sockets (vec_list (ev_sockets s)) 0 (replicate (length (vec_list (ev_sockets s))) zeroed_socket_events) s
      = (length (vec_list (ev_sockets s)), wanted s, s)"
    using fill_sockets_all [of "vec_list (ev_sockets s)" "[]"] by (simp add: wanted_def)
  ultimately show thesis
    using that [of "select_timeout (if v_elem_no (ev_timers s) \<noteq> 0 then Some (timer_due s) else None) False now"] no_files [OF assms(3)]
    by (simp add: iotc_bsp_event_loop_transform_to_bsp_select_def earliest_event [OF assms(1)] timeout_candidate_def split: if_splits)
qed

lemma evtd_inv_fd: "evtd_inv qs (evtd.more_update f (s\<lparr>ev_fd := g\<rparr>)) = evtd_inv qs s"
  by (simp add: evtd_inv_def)


theorem select_waits_for_earliest_witness:
  "\<exists>arr evtds. iotc_bsp_event_loop_transform_to_bsp_select log_call 2 [example_evtd] [zeroed_socket_events] = Some (IOTC_STATE_OK, arr, 2, evtds)"
proof -
  have l: "lock_free example_evtd" by (simp add: lock_free_def example_evtd_def)
  have d: "candidates [example_evtd] = {4}" by (simp add: timer_due_def) (simp add: example_evtd_def iotc_time_event_peek_top_def)
  have f: "vec_inv (ev_sockets example_evtd)" "v_elem_no (ev_files example_evtd) = 0" by (simp_all add: example_evtd_def vec_inv_def)
  have n: "iotc_bsp_event_loop_count_all_sockets [example_evtd] = 1" by (simp add: iotc_bsp_event_loop_count_all_sockets_def example_evtd_def)
  obtain timeout where t: "iotc_bsp_event_loop_transform_to_bsp_select log_call 2 [example_evtd] [zeroed_socket_events]
      = Some (IOTC_STATE_OK, wanted example_evtd, timeout, [example_evtd])"
    using transform_one [OF l f, of log_call 2] n by auto
  have "\<forall>s\<in>set [example_evtd]. lock_free s" using l by simp
  from select_waits_for_earliest [OF this _ t] f(2) have "timeout = 2" unfolding d by simp
  with t show ?thesis by blast
qed


end
