(* ===== verification/Iotc_Mqtt_Serialiser.thy ===== *)
theory Iotc_Mqtt_Serialiser
  imports Iotc_Mqtt_Message
begin

text \<open>
  The serialiser, \<^verbatim>\<open>third_party/mqtt-protocol-c/iotc_mqtt_serialiser.c\<close>: the size of a message and the
  bytes of its header and its variable header; the payload of a PUBLISH is sent separately. The bit fields of the
  header and of the flags of a CONNECT are given by their places in the byte. A descriptor that the
  code dereferences without a check is taken with \<open>the\<close>; the unused byte of a CONNACK is not kept and written as 0.
\<close>

section \<open>Layout\<close>

primrec type_code :: "mqtt_type \<Rightarrow> nat" where
  "type_code IOTC_MQTT_TYPE_NONE = 0"
| "type_code IOTC_MQTT_TYPE_CONNECT = 1"
| "type_code IOTC_MQTT_TYPE_CONNACK = 2"
| "type_code IOTC_MQTT_TYPE_PUBLISH = 3"
| "type_code IOTC_MQTT_TYPE_PUBACK = 4"
| "type_code IOTC_MQTT_TYPE_PUBREC = 5"
| "type_code IOTC_MQTT_TYPE_PUBREL = 6"
| "type_code IOTC_MQTT_TYPE_PUBCOMP = 7"
| "type_code IOTC_MQTT_TYPE_SUBSCRIBE = 8"
| "type_code IOTC_MQTT_TYPE_SUBACK = 9"
| "type_code IOTC_MQTT_TYPE_UNSUBSCRIBE = 10"
| "type_code IOTC_MQTT_TYPE_UNSUBACK = 11"
| "type_code IOTC_MQTT_TYPE_PINGREQ = 12"
| "type_code IOTC_MQTT_TYPE_PINGRESP = 13"
| "type_code IOTC_MQTT_TYPE_DISCONNECT = 14"

definition common_value :: "mqtt_message \<Rightarrow> nat" where
  "common_value msg = mm_retain msg + 2 * mm_qos msg + 8 * mm_dup msg + 16 * type_code (mm_type msg)"

definition flags_value :: "connect_fields \<Rightarrow> nat" where
  "flags_value c = 2 * cn_clean_session c + 4 * cn_will c + 8 * cn_will_qos c + 32 * cn_will_retain c
     + 64 * cn_password_follows c + 128 * cn_username_follows c"

definition desc_length :: "data_desc option \<Rightarrow> nat" where
  "desc_length d = unat (d_length (the d))"

section \<open>Size\<close>

definition iotc_mqtt_get_remaining_length_bytes :: "nat \<Rightarrow> nat" where
  "iotc_mqtt_get_remaining_length_bytes n =
     (if n \<le> 127 then 1 else if n \<le> 16383 then 2 else if n \<le> 2097151 then 3 else if n \<le> 268435455 then 4 else 0)"

definition connect_size :: "connect_fields \<Rightarrow> nat" where
  "connect_size c = 6 + 1 + 1 + 2 + 2 + (if cn_client_id c \<noteq> None then desc_length (cn_client_id c) else 0)
     + (if cn_username_follows c \<noteq> 0 then 2 + desc_length (cn_username c) else 0)
     + (if cn_password_follows c \<noteq> 0 then 2 + desc_length (cn_password c) else 0)
     + (if cn_will c \<noteq> 0 then 4 + desc_length (cn_will_topic c) + desc_length (cn_will_message c) else 0)"

text \<open>The state, the length of the message, the remaining length and the length of the payload.\<close>

definition iotc_mqtt_serialiser_size :: "mqtt_message \<Rightarrow> iotc_state \<times> nat \<times> nat \<times> nat" where
  "iotc_mqtt_serialiser_size msg =
     (let finish = (\<lambda>n payload. (IOTC_STATE_OK, 1 + n + iotc_mqtt_get_remaining_length_bytes n, n, payload))
      in case (mm_type msg, mm_body msg) of
           (IOTC_MQTT_TYPE_CONNECT, Connect_body c) \<Rightarrow> finish (connect_size c) 0
         | (IOTC_MQTT_TYPE_CONNACK, _) \<Rightarrow> finish 2 0
         | (IOTC_MQTT_TYPE_PUBLISH, Publish_body topic_name message_id content) \<Rightarrow>
             finish (2 + desc_length topic_name + (if mm_qos msg > 0 then 2 else 0) + desc_length content)
               (desc_length content)
         | (IOTC_MQTT_TYPE_PUBACK, _) \<Rightarrow> finish 2 0
         | (IOTC_MQTT_TYPE_DISCONNECT, _) \<Rightarrow> finish 0 0
         | (IOTC_MQTT_TYPE_SUBSCRIBE, Topics_body message_id topics) \<Rightarrow>
             finish (2 + 2 + desc_length (tp_name (the topics)) + 1) 0
         | (IOTC_MQTT_TYPE_SUBACK, _) \<Rightarrow> finish (2 + 1) 0
         | (IOTC_MQTT_TYPE_PINGREQ, _) \<Rightarrow> finish 0 0
         | (IOTC_MQTT_TYPE_PINGRESP, _) \<Rightarrow> finish 0 0
         | _ \<Rightarrow> (IOTC_MQTT_SERIALIZER_ERROR, 1, 0, 0))"

section \<open>Writing\<close>

text \<open>A writer appends to the buffer and says whether it could.\<close>

type_synonym writer = "data_desc option \<Rightarrow> bool \<times> data_desc option"

fun write_all :: "writer list \<Rightarrow> writer" where
  "write_all [] out = (True, out)"
| "write_all (w # ws) out = (case w out of (ok, out1) \<Rightarrow> if ok then write_all ws out1 else (False, out1))"

definition write_8 :: "nat \<Rightarrow> writer" where
  "write_8 value out =
     (case iotc_data_desc_append_byte out (of_nat value) of (st, out1) \<Rightarrow> (st = IOTC_STATE_OK, out1))"

definition write_16 :: "nat \<Rightarrow> writer" where
  "write_16 value = write_all [write_8 (value div 256), write_8 (value mod 256)]"

definition write_string :: "data_desc option \<Rightarrow> writer" where
  "write_string str =
     (case str of
        Some d \<Rightarrow> write_all [write_16 (unat (d_length d)),
          (\<lambda>out. case iotc_data_desc_append_data out str of (st, out1) \<Rightarrow> (st = IOTC_STATE_OK, out1))]
      | None \<Rightarrow> write_16 0)"

text \<open>The remaining length, seven bits at a time.\<close>

function write_remaining_length :: "nat \<Rightarrow> writer" where
  "write_remaining_length n out =
     (let value = n mod 128; rest = n div 128
      in case write_8 (if rest > 0 then value + 128 else value) out of
           (ok, out1) \<Rightarrow> if \<not> ok then (False, out1)
                         else if rest > 0 then write_remaining_length rest out1 else (True, out1))"
  by pat_completeness auto
termination
  by (relation "measure fst") auto

declare write_remaining_length.simps [simp del]

definition write_connect :: "connect_fields \<Rightarrow> writer" where
  "write_connect c = write_all
     ([write_string (cn_protocol_name c), write_8 (cn_protocol_version c), write_8 (flags_value c),
       write_16 (cn_keepalive c), write_string (cn_client_id c)]
      @ (if cn_will c \<noteq> 0 then [write_string (cn_will_topic c), write_string (cn_will_message c)] else [])
      @ (if cn_username_follows c \<noteq> 0 then [write_string (cn_username c)] else [])
      @ (if cn_password_follows c \<noteq> 0 then [write_string (cn_password c)] else []))"

definition write_body :: "mqtt_message \<Rightarrow> writer" where
  "write_body msg =
     (case (mm_type msg, mm_body msg) of
        (IOTC_MQTT_TYPE_CONNECT, Connect_body c) \<Rightarrow> write_connect c
      | (IOTC_MQTT_TYPE_CONNACK, Connack_body return_code) \<Rightarrow> write_all [write_8 0, write_8 return_code]
      | (IOTC_MQTT_TYPE_PUBLISH, Publish_body topic_name message_id content) \<Rightarrow>
          write_all (write_string topic_name # (if mm_qos msg > 0 then [write_16 message_id] else []))
      | (IOTC_MQTT_TYPE_PUBACK, Id_body message_id) \<Rightarrow> write_16 message_id
      | (IOTC_MQTT_TYPE_SUBSCRIBE, Topics_body message_id topics) \<Rightarrow>
          write_all [write_16 message_id, write_string (tp_name (the topics)), write_8 (tp_payload (the topics) mod 256)]
      | (IOTC_MQTT_TYPE_SUBACK, Topics_body message_id topics) \<Rightarrow>
          write_all [write_16 message_id, write_8 (tp_payload (the topics) mod 256)]
      | (IOTC_MQTT_TYPE_DISCONNECT, _) \<Rightarrow> write_all []
      | (IOTC_MQTT_TYPE_PINGREQ, _) \<Rightarrow> write_all []
      | (IOTC_MQTT_TYPE_PINGRESP, _) \<Rightarrow> write_all []
      | _ \<Rightarrow> (\<lambda>out. (False, out)))"

definition iotc_mqtt_serialiser_write :: "mqtt_message \<Rightarrow> nat \<Rightarrow> writer" where
  "iotc_mqtt_serialiser_write msg remaining_len =
     write_all [write_8 (common_value msg), write_remaining_length remaining_len, write_body msg]"


section \<open>The bytes of a message\<close>

text \<open>The encoding of MQTT, as lists of bytes.\<close>

definition enc_16 :: "nat \<Rightarrow> byte list" where
  "enc_16 n = [of_nat (n div 256), of_nat (n mod 256)]"

fun enc_remaining :: "nat \<Rightarrow> byte list" where
  "enc_remaining n = (if n < 128 then [of_nat n] else of_nat (n mod 128 + 128) # enc_remaining (n div 128))"

declare enc_remaining.simps [simp del]

definition enc_string :: "data_desc option \<Rightarrow> byte list" where
  "enc_string d = (case d of None \<Rightarrow> enc_16 0 | Some d \<Rightarrow> enc_16 (unat (d_length d)) @ desc_data d)"

definition enc_connect :: "connect_fields \<Rightarrow> byte list" where
  "enc_connect c = enc_string (cn_protocol_name c) @ [of_nat (cn_protocol_version c), of_nat (flags_value c)]
     @ enc_16 (cn_keepalive c) @ enc_string (cn_client_id c)
     @ (if cn_will c \<noteq> 0 then enc_string (cn_will_topic c) @ enc_string (cn_will_message c) else [])
     @ (if cn_username_follows c \<noteq> 0 then enc_string (cn_username c) else [])
     @ (if cn_password_follows c \<noteq> 0 then enc_string (cn_password c) else [])"

definition enc_body :: "mqtt_message \<Rightarrow> byte list" where
  "enc_body msg =
     (case mm_body msg of
        Connect_body c \<Rightarrow> enc_connect c
      | Connack_body return_code \<Rightarrow> [0, of_nat return_code]
      | Publish_body topic_name message_id content \<Rightarrow>
          enc_string topic_name @ (if mm_qos msg > 0 then enc_16 message_id else [])
      | Id_body message_id \<Rightarrow> enc_16 message_id
      | Topics_body message_id topics \<Rightarrow>
          enc_16 message_id
          @ (if mm_type msg = IOTC_MQTT_TYPE_SUBSCRIBE then enc_string (tp_name (the topics)) else [])
          @ [of_nat (tp_payload (the topics) mod 256)]
      | No_body \<Rightarrow> [])"

text \<open>A message that can be sent: the body goes with the type, and its descriptors are there.\<close>

definition desc_ok :: "data_desc option \<Rightarrow> bool" where
  "desc_ok d = (case d of None \<Rightarrow> False | Some d \<Rightarrow> desc_inv d \<and> d_data_ptr d \<noteq> NULL)"

definition connect_ok :: "connect_fields \<Rightarrow> bool" where
  "connect_ok c \<longleftrightarrow> desc_ok (cn_protocol_name c) \<and> desc_length (cn_protocol_name c) = 4
     \<and> (cn_client_id c \<noteq> None \<longrightarrow> desc_ok (cn_client_id c))
     \<and> (cn_will c \<noteq> 0 \<longrightarrow> desc_ok (cn_will_topic c) \<and> desc_ok (cn_will_message c))
     \<and> (cn_username_follows c \<noteq> 0 \<longrightarrow> desc_ok (cn_username c))
     \<and> (cn_password_follows c \<noteq> 0 \<longrightarrow> desc_ok (cn_password c))"

definition sendable :: "mqtt_message \<Rightarrow> bool" where
  "sendable msg =
     (case (mm_type msg, mm_body msg) of
        (IOTC_MQTT_TYPE_CONNECT, Connect_body c) \<Rightarrow> connect_ok c
      | (IOTC_MQTT_TYPE_CONNACK, Connack_body return_code) \<Rightarrow> True
      | (IOTC_MQTT_TYPE_PUBLISH, Publish_body topic_name message_id content) \<Rightarrow> desc_ok topic_name \<and> desc_ok content
      | (IOTC_MQTT_TYPE_PUBACK, Id_body message_id) \<Rightarrow> True
      | (IOTC_MQTT_TYPE_SUBSCRIBE, Topics_body message_id (Some t)) \<Rightarrow> desc_ok (tp_name t)
      | (IOTC_MQTT_TYPE_SUBACK, Topics_body message_id (Some t)) \<Rightarrow> True
      | (IOTC_MQTT_TYPE_DISCONNECT, No_body) \<Rightarrow> True
      | (IOTC_MQTT_TYPE_PINGREQ, No_body) \<Rightarrow> True
      | (IOTC_MQTT_TYPE_PINGRESP, No_body) \<Rightarrow> True
      | _ \<Rightarrow> False)"

section \<open>Writers append\<close>

definition same_buffer :: "data_desc \<Rightarrow> data_desc \<Rightarrow> bool" where
  "same_buffer d d' \<longleftrightarrow> d_self d' = d_self d \<and> d_data_ptr d' = d_data_ptr d \<and> d_capacity d' = d_capacity d
     \<and> d_memory_type d' = d_memory_type d"

lemma append_same_buffer: "iotc_data_desc_append_bytes (Some d) bs = (st, Some d') \<Longrightarrow> same_buffer d d'"
  by (auto simp: iotc_data_desc_append_bytes_def desc_write_def same_buffer_def split: if_splits option.splits)

definition appends :: "writer \<Rightarrow> byte list \<Rightarrow> bool" where
  "appends w bs \<longleftrightarrow> (\<forall>d. desc_inv d \<longrightarrow>
     (if length (desc_data d) + length bs \<le> unat (d_capacity d)
      then \<exists>d'. w (Some d) = (True, Some d') \<and> desc_inv d' \<and> same_buffer d d'
        \<and> desc_data d' = desc_data d @ bs
      else \<not> fst (w (Some d))))"

lemma appends_nil: "appends (write_all []) []"
  by (auto simp: appends_def desc_inv_def desc_data_def word_le_nat_alt same_buffer_def)

lemma appends_cons:
  assumes "appends w bs" and "appends (write_all ws) cs"
  shows "appends (write_all (w # ws)) (bs @ cs)"
  unfolding appends_def
proof (intro allI impI)
  fix d assume d: "desc_inv d"
  show "if length (desc_data d) + length (bs @ cs) \<le> unat (d_capacity d)
    then \<exists>d'. write_all (w # ws) (Some d) = (True, Some d') \<and> desc_inv d' \<and> same_buffer d d'
        \<and> desc_data d' = desc_data d @ bs @ cs
    else \<not> fst (write_all (w # ws) (Some d))"
  proof (cases "length (desc_data d) + length bs \<le> unat (d_capacity d)")
    case True
    with assms(1) d obtain d1 where w: "w (Some d) = (True, Some d1)" and d1: "desc_inv d1" "same_buffer d d1"
      "desc_data d1 = desc_data d @ bs" unfolding appends_def by meson
    from assms(2) d1(1) have "if length (desc_data d1) + length cs \<le> unat (d_capacity d1)
      then \<exists>d'. write_all ws (Some d1) = (True, Some d') \<and> desc_inv d' \<and> same_buffer d1 d'
        \<and> desc_data d' = desc_data d1 @ cs
      else \<not> fst (write_all ws (Some d1))" by (simp add: appends_def)
    with w d1 show ?thesis by (auto simp: same_buffer_def split: if_splits)
  next
    case False
    with assms(1) d have "\<not> fst (w (Some d))" by (auto simp: appends_def)
    with False show ?thesis by (auto split: prod.split)
  qed
qed

lemma appends_all: "list_all2 appends ws bss \<Longrightarrow> appends (write_all ws) (concat bss)"
  by (induction rule: list_all2_induct) (simp_all add: appends_nil appends_cons del: write_all.simps)

lemma appends_cong: "appends w bs \<Longrightarrow> bs = cs \<Longrightarrow> appends w cs"
  by simp

lemma append_byte_bytes:
  assumes "desc_inv d"
  shows "iotc_data_desc_append_byte (Some d) b = iotc_data_desc_append_bytes (Some d) (Some [b])"
proof -
  have "(d_bytes d)[unat (d_length d) := b] = memcpy_at (d_bytes d) (unat (d_length d)) [b]"
    if "unat (d_length d) + 1 \<le> unat (d_capacity d)"
    using that assms by (simp add: memcpy_at_def desc_inv_def upd_conv_take_nth_drop)
  then show ?thesis using fits_iff [of 1 d]
    by (auto simp: iotc_data_desc_append_byte_def iotc_data_desc_append_bytes_def desc_write_def)
qed

lemma appends_bytes:
  assumes "length bs < 2 ^ 63"
  shows "appends (\<lambda>out. case iotc_data_desc_append_bytes out (Some bs) of (st, out1) \<Rightarrow> (st = IOTC_STATE_OK, out1)) bs"
  unfolding appends_def
proof (intro allI impI)
  fix d assume "desc_inv d"
  from append_bytes_bounded [OF this assms]
  show "if length (desc_data d) + length bs \<le> unat (d_capacity d)
    then \<exists>d'. (case iotc_data_desc_append_bytes (Some d) (Some bs) of (st, out1) \<Rightarrow> (st = IOTC_STATE_OK, out1)) = (True, Some d')
      \<and> desc_inv d' \<and> same_buffer d d' \<and> desc_data d' = desc_data d @ bs
    else \<not> fst (case iotc_data_desc_append_bytes (Some d) (Some bs) of (st, out1) \<Rightarrow> (st = IOTC_STATE_OK, out1))"
    by (auto split: prod.splits if_splits dest: append_same_buffer)
qed

lemma appends_8: "appends (write_8 n) [of_nat n]"
  using appends_bytes [of "[of_nat n]"] by (simp add: appends_def write_8_def append_byte_bytes)

lemma appends_16: "appends (write_16 n) (enc_16 n)"
  unfolding write_16_def
  by (rule appends_cong [OF appends_all [where bss = "[[of_nat (n div 256)], [of_nat (n mod 256)]]"]])
    (auto simp: appends_8 enc_16_def)

lemma appends_string:
  assumes "d \<noteq> None \<longrightarrow> desc_ok d"
  shows "appends (write_string d) (enc_string d)"
proof (cases d)
  case None
  then show ?thesis by (simp add: write_string_def enc_string_def appends_16)
next
  case (Some i)
  with assms have i: "desc_inv i" "d_data_ptr i \<noteq> NULL" by (simp_all add: desc_ok_def)
  have "unat (d_length i) < 2 ^ 32" using unsigned_less [of "d_length i"] by simp
  then have l: "length (desc_data i) < 2 ^ 63" using desc_data_length [OF i(1)] by simp
  have eq: "iotc_data_desc_append_data (Some o') (Some i) = iotc_data_desc_append_bytes (Some o') (Some (desc_data i))" for o'
    using i(2) by (simp add: iotc_data_desc_append_data_def desc_data_def)
  have "appends (\<lambda>out. case iotc_data_desc_append_data out (Some i) of (st, out1) \<Rightarrow> (st = IOTC_STATE_OK, out1)) (desc_data i)"
    using appends_bytes [OF l] by (simp add: appends_def eq)
  then show ?thesis using Some unfolding write_string_def enc_string_def
    by (simp del: write_all.simps)
      (rule appends_cong [OF appends_all [where bss = "[enc_16 (unat (d_length i)), desc_data i]"]], auto simp: appends_16)
qed

lemma appends_remaining: "appends (write_remaining_length n) (enc_remaining n)"
proof (induction n rule: less_induct)
  case (less n)
  show ?case
  proof (cases "n < 128")
    case True
    then have "write_remaining_length n = write_all [write_8 n]"
      by (auto simp: write_remaining_length.simps [of n] fun_eq_iff split: prod.split)
    moreover have "appends (write_all [write_8 n]) (concat [[of_nat n]])" by (rule appends_all) (simp add: appends_8)
    ultimately show ?thesis using True by (simp add: enc_remaining.simps [of n] del: write_all.simps)
  next
    case False
    then have "0 < n div 128" by auto
    then have "write_remaining_length n = write_all [write_8 (n mod 128 + 128), write_remaining_length (n div 128)]"
      by (auto simp: write_remaining_length.simps [of n] Let_def fun_eq_iff split: prod.split)
    moreover have "appends (write_all [write_8 (n mod 128 + 128), write_remaining_length (n div 128)])
        (concat [[of_nat (n mod 128 + 128)], enc_remaining (n div 128)])"
      by (rule appends_all) (use False less appends_8 [of "n mod 128 + 128"] in simp)
    ultimately show ?thesis using False by (simp add: enc_remaining.simps [of n] del: write_all.simps)
  qed
qed


lemma appends_connect:
  assumes "connect_ok c"
  shows "appends (write_connect c) (enc_connect c)"
proof -
  note s = appends_string
  let ?bss = "[enc_string (cn_protocol_name c), [of_nat (cn_protocol_version c)], [of_nat (flags_value c)],
       enc_16 (cn_keepalive c), enc_string (cn_client_id c)]
      @ (if cn_will c \<noteq> 0 then [enc_string (cn_will_topic c), enc_string (cn_will_message c)] else [])
      @ (if cn_username_follows c \<noteq> 0 then [enc_string (cn_username c)] else [])
      @ (if cn_password_follows c \<noteq> 0 then [enc_string (cn_password c)] else [])"
  show ?thesis unfolding write_connect_def
    by (rule appends_cong [OF appends_all [where bss = ?bss]])
      (use assms in \<open>auto simp: connect_ok_def appends_8 appends_16 s enc_connect_def\<close>)
qed

lemma appends_body:
  assumes "sendable msg"
  shows "appends (write_body msg) (enc_body msg)"
proof -
  have nil: "appends (write_all []) []" by (rule appends_nil)
  have connack: "appends (write_all [write_8 0, write_8 n]) [0, of_nat n]" for n
    by (rule appends_cong [OF appends_all [where bss = "[[of_nat 0], [of_nat n]]"]]) (use appends_8 [of 0] in \<open>auto simp: appends_8\<close>)
  have publish: "appends (write_all (write_string t # (if q then [write_16 i] else [])))
      (enc_string t @ (if q then enc_16 i else []))" if "desc_ok t" for t q i
    by (rule appends_cong [OF appends_all [where bss = "enc_string t # (if q then [enc_16 i] else [])"]])
      (use that in \<open>auto simp: appends_16 appends_string\<close>)
  have subscribe: "appends (write_all [write_16 i, write_string t, write_8 n]) (enc_16 i @ enc_string t @ [of_nat n])"
    if "desc_ok t" for i t n
    by (rule appends_cong [OF appends_all [where bss = "[enc_16 i, enc_string t, [of_nat n]]"]])
      (use that in \<open>auto simp: appends_16 appends_string appends_8\<close>)
  have suback: "appends (write_all [write_16 i, write_8 n]) (enc_16 i @ [of_nat n])" for i n
    by (rule appends_cong [OF appends_all [where bss = "[enc_16 i, [of_nat n]]"]]) (auto simp: appends_16 appends_8)
  show ?thesis using assms
    unfolding sendable_def write_body_def enc_body_def
    by (cases "mm_type msg"; cases "mm_body msg")
      (simp_all add: nil connack publish subscribe suback appends_connect appends_16 del: write_all.simps of_nat_mod
        split: option.splits)
qed

definition encode :: "mqtt_message \<Rightarrow> nat \<Rightarrow> byte list" where
  "encode msg remaining = of_nat (common_value msg) # enc_remaining remaining @ enc_body msg"

lemma appends_message: "sendable msg \<Longrightarrow> appends (iotc_mqtt_serialiser_write msg remaining) (encode msg remaining)"
  unfolding iotc_mqtt_serialiser_write_def encode_def
  by (rule appends_cong [OF appends_all [where bss = "[[of_nat (common_value msg)], enc_remaining remaining, enc_body msg]"]])
    (auto simp: appends_8 appends_remaining appends_body)

section \<open>Sizes\<close>

lemma length_enc_16 [simp]: "length (enc_16 n) = 2"
  by (simp add: enc_16_def)

lemma length_enc_string: "desc_ok d \<Longrightarrow> length (enc_string d) = 2 + desc_length d"
  by (auto simp: desc_ok_def enc_string_def desc_length_def split: option.splits)

lemma length_enc_string_None [simp]: "length (enc_string None) = 2"
  by (simp add: enc_string_def)

lemma length_enc_remaining:
  "n \<le> 268435455 \<Longrightarrow> length (enc_remaining n) = iotc_mqtt_get_remaining_length_bytes n"
proof -
  have 1: "length (enc_remaining n) = 1" if "n \<le> 127" for n using that by (simp add: enc_remaining.simps [of n])
  have 2: "length (enc_remaining n) = 2" if "127 < n" "n \<le> 16383" for n
    using that 1 [of "n div 128"] by (simp add: enc_remaining.simps [of n])
  have 3: "length (enc_remaining n) = 3" if "16383 < n" "n \<le> 2097151" for n
    using that 2 [of "n div 128"] by (simp add: enc_remaining.simps [of n])
  have "length (enc_remaining n) = 4" if "2097151 < n" "n \<le> 268435455" for n
    using that 3 [of "n div 128"] by (simp add: enc_remaining.simps [of n])
  with 1 2 3 show "n \<le> 268435455 \<Longrightarrow> length (enc_remaining n) = iotc_mqtt_get_remaining_length_bytes n"
    by (simp add: iotc_mqtt_get_remaining_length_bytes_def)
qed

lemma length_enc_connect: "connect_ok c \<Longrightarrow> length (enc_connect c) = connect_size c"
  by (cases "cn_client_id c") (auto simp: connect_ok_def enc_connect_def connect_size_def length_enc_string)

lemma size_of_body:
  assumes "sendable msg" and "iotc_mqtt_serialiser_size msg = (st, len, rem, payload)"
  shows "st = IOTC_STATE_OK \<and> rem = length (enc_body msg) + payload
    \<and> len = 1 + rem + iotc_mqtt_get_remaining_length_bytes rem"
  using assms unfolding sendable_def iotc_mqtt_serialiser_size_def enc_body_def
  by (cases "mm_type msg"; cases "mm_body msg")
    (auto simp: Let_def length_enc_connect length_enc_string split: option.splits)

lemma write_message:
  assumes "sendable msg" and "iotc_mqtt_serialiser_size msg = (st, len, rem, payload)" and "rem \<le> 268435455"
    and "desc_inv d" and "desc_data d = []"
  shows "st = IOTC_STATE_OK \<and> len - payload = length (encode msg rem)
    \<and> (if length (encode msg rem) \<le> unat (d_capacity d)
       then \<exists>x. iotc_mqtt_serialiser_write msg rem (Some d) = (True, Some x) \<and> desc_inv x \<and> same_buffer d x
         \<and> desc_data x = encode msg rem
       else \<not> fst (iotc_mqtt_serialiser_write msg rem (Some d)))"
proof -
  note s = size_of_body [OF assms(1,2)]
  have "length (encode msg rem) = len - payload"
    using s length_enc_remaining [OF assms(3)] by (simp add: encode_def)
  with s show ?thesis
    using appends_message [OF assms(1), of rem, unfolded appends_def, rule_format, OF assms(4)] assms(5)
    by (simp only: list.size append_Nil add_0)
qed



end
