(* ===== verification/Iotc_Mqtt_Parser.thy ===== *)
theory Iotc_Mqtt_Parser
  imports Iotc_Mqtt_Serialiser
begin

text \<open>
  The parser, \<^verbatim>\<open>third_party/mqtt-protocol-c/iotc_mqtt_parser.c\<close>: a coroutine that is called with the bytes that
  have arrived and asks for more with \<^verbatim>\<open>IOTC_STATE_WANT_READ\<close>. It keeps the line of the yield it waits at; the
  code after a yield is a definition of its own. The strings are read by a second coroutine. The source descriptor is
  the list of its bytes that are not read yet; reading beyond them sets the flag for undefined behaviour.

  The state of the last step is a static variable of the C function: it is shared by all parsers of the process and
  is part of the state here. The message that is filled in was zeroed before; its body is looked at as that of the type
  that has been read, and the type 15, which no constructor has, is taken for \<^verbatim>\<open>IOTC_MQTT_TYPE_NONE\<close>. The
  counters do not wrap, only the difference of lengths does. The first byte of a CONNACK is skipped.
\<close>

section \<open>State\<close>

record parser =
  p_error :: nat
  p_cs :: nat
  p_read_cs :: nat
  p_digit_bytes :: nat
  p_multiplier :: nat
  p_remaining_length :: nat
  p_str_length :: nat
  p_data_length :: nat

record parsing = parser +
  pg_local :: iotc_state
  pg_msg :: mqtt_message
  pg_src :: "byte list"
  pg_mem :: mem

definition iotc_mqtt_parser_init :: parser where
  "iotc_mqtt_parser_init = \<lparr>p_error = 0, p_cs = 0, p_read_cs = 0, p_digit_bytes = 0, p_multiplier = 0,
     p_remaining_length = 0, p_str_length = 0, p_data_length = 0\<rparr>"

definition type_of_code :: "nat \<Rightarrow> mqtt_type" where
  "type_of_code n = (case find (\<lambda>t. type_code t = n)
       [IOTC_MQTT_TYPE_CONNECT, IOTC_MQTT_TYPE_CONNACK, IOTC_MQTT_TYPE_PUBLISH, IOTC_MQTT_TYPE_PUBACK,
        IOTC_MQTT_TYPE_PUBREC, IOTC_MQTT_TYPE_PUBREL, IOTC_MQTT_TYPE_PUBCOMP, IOTC_MQTT_TYPE_SUBSCRIBE,
        IOTC_MQTT_TYPE_SUBACK, IOTC_MQTT_TYPE_UNSUBSCRIBE, IOTC_MQTT_TYPE_UNSUBACK, IOTC_MQTT_TYPE_PINGREQ,
        IOTC_MQTT_TYPE_PINGRESP, IOTC_MQTT_TYPE_DISCONNECT] of
     None \<Rightarrow> IOTC_MQTT_TYPE_NONE | Some t \<Rightarrow> t)"

definition set_common_value :: "nat \<Rightarrow> mqtt_message \<Rightarrow> mqtt_message" where
  "set_common_value v msg = msg\<lparr>mm_retain := v mod 2, mm_qos := v div 2 mod 4, mm_dup := v div 8 mod 2,
     mm_type := type_of_code (v div 16)\<rparr>"

definition set_flags_value :: "nat \<Rightarrow> connect_fields \<Rightarrow> connect_fields" where
  "set_flags_value v c = c\<lparr>cn_clean_session := v div 2 mod 2, cn_will := v div 4 mod 2, cn_will_qos := v div 8 mod 4,
     cn_will_retain := v div 32 mod 2, cn_password_follows := v div 64 mod 2, cn_username_follows := v div 128 mod 2\<rparr>"

text \<open>The body as that of a type; a body that is still zeroed has only zeros.\<close>

definition connect_of :: "mqtt_message \<Rightarrow> connect_fields" where
  "connect_of msg = (case mm_body msg of Connect_body c \<Rightarrow> c | _ \<Rightarrow> zeroed_connect)"

definition publish_of :: "mqtt_message \<Rightarrow> data_desc option \<times> nat \<times> data_desc option" where
  "publish_of msg = (case mm_body msg of Publish_body t i c \<Rightarrow> (t, i, c) | _ \<Rightarrow> (None, 0, None))"

definition id_of :: "mqtt_message \<Rightarrow> nat" where
  "id_of msg = (case mm_body msg of Id_body i \<Rightarrow> i | _ \<Rightarrow> 0)"

definition topics_of :: "mqtt_message \<Rightarrow> nat \<times> topicpair option" where
  "topics_of msg = (case mm_body msg of Topics_body i t \<Rightarrow> (i, t) | _ \<Rightarrow> (0, None))"

definition on_connect :: "(connect_fields \<Rightarrow> connect_fields) \<Rightarrow> mqtt_message \<Rightarrow> mqtt_message" where
  "on_connect f msg = msg\<lparr>mm_body := Connect_body (f (connect_of msg))\<rparr>"

definition on_publish :: "(data_desc option \<times> nat \<times> data_desc option \<Rightarrow> data_desc option \<times> nat \<times> data_desc option) \<Rightarrow>
    mqtt_message \<Rightarrow> mqtt_message" where
  "on_publish f msg = msg\<lparr>mm_body := (case f (publish_of msg) of (t, i, c) \<Rightarrow> Publish_body t i c)\<rparr>"

definition on_id :: "(nat \<Rightarrow> nat) \<Rightarrow> mqtt_message \<Rightarrow> mqtt_message" where
  "on_id f msg = msg\<lparr>mm_body := Id_body (f (id_of msg))\<rparr>"

definition on_topics :: "(nat \<times> topicpair option \<Rightarrow> nat \<times> topicpair option) \<Rightarrow> mqtt_message \<Rightarrow> mqtt_message" where
  "on_topics f msg = msg\<lparr>mm_body := (case f (topics_of msg) of (i, t) \<Rightarrow> Topics_body i t)\<rparr>"

section \<open>Steps\<close>

type_synonym cont = "parsing \<Rightarrow> iotc_state \<times> parsing"

definition on_msg :: "(mqtt_message \<Rightarrow> mqtt_message) \<Rightarrow> parsing \<Rightarrow> parsing" where
  "on_msg f s = s\<lparr>pg_msg := f (pg_msg s)\<rparr>"

definition parser_exit :: "iotc_state \<Rightarrow> cont" where
  "parser_exit st s = (st, s\<lparr>p_cs := 1\<rparr>)"

definition yield_on :: "nat \<Rightarrow> cont \<Rightarrow> cont" where
  "yield_on line k s = (if pg_src s = [] then (IOTC_STATE_WANT_READ, s\<lparr>p_cs := line\<rparr>) else k s)"

definition read_yield_on :: "nat \<Rightarrow> cont \<Rightarrow> cont" where
  "read_yield_on line k s = (if pg_src s = [] then (IOTC_STATE_WANT_READ, s\<lparr>p_read_cs := line\<rparr>) else k s)"

text \<open>The next byte is read and counted.\<close>

definition next_byte :: "(nat \<Rightarrow> cont) \<Rightarrow> cont" where
  "next_byte k s =
     (case pg_src s of
        b # bs \<Rightarrow> k (unat b) (s\<lparr>pg_src := bs, p_data_length := p_data_length s + 1\<rparr>)
      | [] \<Rightarrow> k 0 (s\<lparr>pg_mem := (pg_mem s)\<lparr>m_bad := True\<rparr>, p_data_length := p_data_length s + 1\<rparr>))"

section \<open>Strings and data\<close>

type_synonym desc_get = "mqtt_message \<Rightarrow> data_desc option"
type_synonym desc_put = "data_desc option \<Rightarrow> mqtt_message \<Rightarrow> mqtt_message"

text \<open>The loop: what is there is appended; \<open>counted\<close> says whether it is counted.\<close>

definition read_chunk :: "bool \<Rightarrow> nat \<Rightarrow> desc_get \<Rightarrow> desc_put \<Rightarrow> cont" where
  "read_chunk counted line get put s =
     (let d = get (pg_msg s);
          to_read = to_size (int (p_str_length s) - int (desc_length d));
          len_to_read = min to_read (length (pg_src s))
      in if to_read = 0 then (IOTC_STATE_OK, s\<lparr>p_read_cs := 0\<rparr>)
         else (case iotc_data_desc_append_data_resize d (Some (take len_to_read (pg_src s))) (pg_mem s) of
           (st, d1, m) \<Rightarrow>
             (let s1 = s\<lparr>pg_msg := put d1 (pg_msg s), pg_mem := m\<rparr>
              in if st \<noteq> IOTC_STATE_OK then (st, s1\<lparr>p_read_cs := 1\<rparr>)
                 else (let s2 = s1\<lparr>pg_src := drop len_to_read (pg_src s),
                              p_data_length := p_data_length s + (if counted then len_to_read else 0)\<rparr>
                       in if to_read - len_to_read > 0 then (IOTC_STATE_WANT_READ, s2\<lparr>p_read_cs := line\<rparr>)
                          else (IOTC_STATE_OK, s2\<lparr>p_read_cs := 0\<rparr>)))))"

definition ensure_desc :: "desc_get \<Rightarrow> desc_put \<Rightarrow> cont \<Rightarrow> cont" where
  "ensure_desc get put k s =
     (if get (pg_msg s) = None then
        (case iotc_make_empty_desc_alloc 4 (pg_mem s) of (d, m) \<Rightarrow>
           (let s1 = s\<lparr>pg_msg := put d (pg_msg s), pg_mem := m\<rparr>
            in if d = None then (IOTC_OUT_OF_MEMORY, s1\<lparr>p_read_cs := 1\<rparr>) else k s1))
      else k s)"

definition read_string_low :: "desc_get \<Rightarrow> desc_put \<Rightarrow> cont" where
  "read_string_low get put =
     next_byte (\<lambda>b s. read_yield_on 69 (read_chunk True 83 get put) (s\<lparr>p_str_length := p_str_length s + b\<rparr>))"

definition read_string_high :: "desc_get \<Rightarrow> desc_put \<Rightarrow> cont" where
  "read_string_high get put =
     next_byte (\<lambda>b s. read_yield_on 59 (read_string_low get put) (s\<lparr>p_str_length := 256 * b\<rparr>))"

text \<open>The coroutines, entered at the line they wait at.\<close>

definition string_resume :: "desc_get \<Rightarrow> desc_put \<Rightarrow> cont" where
  "string_resume get put s =
     (if p_read_cs s = 53 then read_string_high get put s
      else if p_read_cs s = 59 then read_string_low get put s
      else if p_read_cs s = 69 \<or> p_read_cs s = 83 then read_chunk True 83 get put s
      else read_yield_on 53 (read_string_high get put) s)"

definition read_string :: "desc_get \<Rightarrow> desc_put \<Rightarrow> cont" where
  "read_string get put = ensure_desc get put (string_resume get put)"

definition data_resume :: "desc_get \<Rightarrow> desc_put \<Rightarrow> cont" where
  "data_resume get put s =
     (if p_read_cs s = 136 \<or> p_read_cs s = 147 then read_chunk False 147 get put s
      else read_yield_on 136 (read_chunk False 147 get put) s)"

definition read_data :: "desc_get \<Rightarrow> desc_put \<Rightarrow> cont" where
  "read_data get put = ensure_desc get put (data_resume get put)"

text \<open>\<^verbatim>\<open>READ_STRING\<close> and \<^verbatim>\<open>READ_DATA\<close>, and what a call after their yield does.\<close>

definition read_at :: "nat \<Rightarrow> cont \<Rightarrow> cont \<Rightarrow> cont" where
  "read_at line reader k s =
     (case reader s of (st, s1) \<Rightarrow>
        (let s2 = s1\<lparr>pg_local := st\<rparr>
         in if st = IOTC_STATE_WANT_READ then (IOTC_STATE_WANT_READ, s2\<lparr>p_cs := line\<rparr>)
            else if st \<noteq> IOTC_STATE_OK then parser_exit st s2
            else k s2))"

definition read_resume :: "nat \<Rightarrow> cont \<Rightarrow> cont \<Rightarrow> cont" where
  "read_resume line reader k s = (if pg_local s \<noteq> IOTC_STATE_OK then read_at line reader k s else k s)"


section \<open>The bodies\<close>

definition byte_into :: "(nat \<Rightarrow> mqtt_message \<Rightarrow> mqtt_message) \<Rightarrow> cont \<Rightarrow> cont" where
  "byte_into f k = next_byte (\<lambda>b s. k (on_msg (f b) s))"

text \<open>The two bytes of a number: the first one replaces what was there, the second one is added.\<close>

abbreviation (input) id_high :: "nat \<Rightarrow> mqtt_message \<Rightarrow> mqtt_message" where
  "id_high b \<equiv> on_id (\<lambda>i. 256 * b)"

abbreviation (input) id_low :: "nat \<Rightarrow> mqtt_message \<Rightarrow> mqtt_message" where
  "id_low b \<equiv> on_id (\<lambda>i. to_u16 (i + b))"

subsection \<open>Connect\<close>

definition read_protocol_name :: cont where
  "read_protocol_name = read_string (\<lambda>m. cn_protocol_name (connect_of m))
     (\<lambda>d. on_connect (\<lambda>c. c\<lparr>cn_protocol_name := d\<rparr>))"

definition read_client_id :: cont where
  "read_client_id = read_string (\<lambda>m. cn_client_id (connect_of m)) (\<lambda>d. on_connect (\<lambda>c. c\<lparr>cn_client_id := d\<rparr>))"

definition read_will_topic :: cont where
  "read_will_topic = read_string (\<lambda>m. cn_will_topic (connect_of m)) (\<lambda>d. on_connect (\<lambda>c. c\<lparr>cn_will_topic := d\<rparr>))"

definition read_will_message :: cont where
  "read_will_message = read_string (\<lambda>m. cn_will_message (connect_of m))
     (\<lambda>d. on_connect (\<lambda>c. c\<lparr>cn_will_message := d\<rparr>))"

definition read_username :: cont where
  "read_username = read_string (\<lambda>m. cn_username (connect_of m)) (\<lambda>d. on_connect (\<lambda>c. c\<lparr>cn_username := d\<rparr>))"

definition read_password :: cont where
  "read_password = read_string (\<lambda>m. cn_password (connect_of m)) (\<lambda>d. on_connect (\<lambda>c. c\<lparr>cn_password := d\<rparr>))"

definition connect_password :: cont where
  "connect_password s =
     (if cn_password_follows (connect_of (pg_msg s)) \<noteq> 0
      then read_at 283 read_password (parser_exit IOTC_STATE_OK) s else parser_exit IOTC_STATE_OK s)"

definition connect_username :: cont where
  "connect_username s =
     (if cn_username_follows (connect_of (pg_msg s)) \<noteq> 0 then read_at 279 read_username connect_password s
      else connect_password s)"

definition connect_will_message :: cont where
  "connect_will_message s =
     (if cn_will (connect_of (pg_msg s)) \<noteq> 0 then read_at 275 read_will_message connect_username s
      else connect_username s)"

definition connect_will_topic :: cont where
  "connect_will_topic s =
     (if cn_will (connect_of (pg_msg s)) \<noteq> 0 then read_at 271 read_will_topic connect_will_message s
      else connect_will_message s)"

definition connect_keepalive_low :: cont where
  "connect_keepalive_low = byte_into (\<lambda>b. on_connect (\<lambda>c. c\<lparr>cn_keepalive := to_u16 (cn_keepalive c + b)\<rparr>))
     (read_at 268 read_client_id connect_will_topic)"

definition connect_keepalive_high :: cont where
  "connect_keepalive_high = byte_into (\<lambda>b. on_connect (\<lambda>c. c\<lparr>cn_keepalive := 256 * b\<rparr>))
     (yield_on 261 connect_keepalive_low)"

definition connect_flags :: cont where
  "connect_flags = byte_into (\<lambda>b. on_connect (set_flags_value b)) (yield_on 254 connect_keepalive_high)"

definition connect_version :: cont where
  "connect_version = byte_into (\<lambda>b. on_connect (\<lambda>c. c\<lparr>cn_protocol_version := b\<rparr>)) (yield_on 246 connect_flags)"

subsection \<open>Connack\<close>

definition connack_code_byte :: cont where
  "connack_code_byte = byte_into (\<lambda>b m. m\<lparr>mm_body := Connack_body b\<rparr>) (parser_exit IOTC_STATE_OK)"

definition connack_unused :: cont where
  "connack_unused = byte_into (\<lambda>b m. m) (yield_on 296 connack_code_byte)"

subsection \<open>Publish\<close>

definition read_topic :: cont where
  "read_topic = read_string (\<lambda>m. fst (publish_of m)) (\<lambda>d. on_publish (\<lambda>(t, i, c). (d, i, c)))"

definition read_content :: cont where
  "read_content = read_data (\<lambda>m. snd (snd (publish_of m))) (\<lambda>d. on_publish (\<lambda>(t, i, c). (t, i, d)))"

definition publish_content :: cont where
  "publish_content s =
     (let s1 = s\<lparr>p_str_length := to_size (int (p_remaining_length s + 2) - int (p_data_length s))\<rparr>
      in if p_str_length s1 > 0 then read_at 330 read_content (parser_exit IOTC_STATE_OK) s1
         else parser_exit IOTC_STATE_OK s1)"

definition publish_id_low :: cont where
  "publish_id_low = byte_into (\<lambda>b. on_publish (\<lambda>(t, i, c). (t, to_u16 (i + b), c))) publish_content"

definition publish_id_high :: cont where
  "publish_id_high = byte_into (\<lambda>b. on_publish (\<lambda>(t, i, c). (t, 256 * b, c))) (yield_on 319 publish_id_low)"

definition publish_after_topic :: cont where
  "publish_after_topic s = (if mm_qos (pg_msg s) > 0 then publish_id_high s else publish_content s)"

definition publish_topic_name :: cont where
  "publish_topic_name = read_at 309 read_topic (yield_on 311 publish_after_topic)"

subsection \<open>Messages with an identifier only\<close>

definition id_low_byte :: cont where
  "id_low_byte = byte_into id_low (parser_exit IOTC_STATE_OK)"

definition id_high_byte :: "nat \<Rightarrow> cont" where
  "id_high_byte line = byte_into id_high (yield_on line id_low_byte)"

subsection \<open>Subscribe and suback\<close>

definition read_topic_filter :: cont where
  "read_topic_filter = read_string (\<lambda>m. tp_name (the (snd (topics_of m))))
     (\<lambda>d. on_topics (\<lambda>(i, t). (i, map_option (\<lambda>t. t\<lparr>tp_name := d\<rparr>) t)))"

definition new_topicpair :: "cont \<Rightarrow> cont" where
  "new_topicpair k s =
     (case iotc_alloc sizeof_topicpair (pg_mem s) of (p, m) \<Rightarrow>
        if p = NULL then
          parser_exit IOTC_OUT_OF_MEMORY (on_msg (on_topics (\<lambda>(i, t). (i, None))) (s\<lparr>pg_mem := m, pg_local := IOTC_OUT_OF_MEMORY\<rparr>))
        else k (on_msg (on_topics (\<lambda>(i, t). (i, Some \<lparr>tp_self = p, tp_next = NULL, tp_name = None, tp_payload = 0\<rparr>)))
               (s\<lparr>pg_mem := m\<rparr>)))"

definition subscribe_qos :: cont where
  "subscribe_qos = byte_into (\<lambda>b. on_topics (\<lambda>(i, t). (i, map_option (\<lambda>t. t\<lparr>tp_payload := b\<rparr>) t)))
     (parser_exit IOTC_STATE_OK)"

definition subscribe_topic :: cont where
  "subscribe_topic = new_topicpair (read_at 424 read_topic_filter (yield_on 426 subscribe_qos))"

definition topics_id_low :: "nat \<Rightarrow> cont \<Rightarrow> cont" where
  "topics_id_low line k = byte_into (\<lambda>b. on_topics (\<lambda>(i, t). (to_u16 (i + b), t))) (yield_on line k)"

definition topics_id_high :: "nat \<Rightarrow> cont \<Rightarrow> cont" where
  "topics_id_high line k = byte_into (\<lambda>b. on_topics (\<lambda>(i, t). (256 * b, t))) (yield_on line k)"

definition iotc_mqtt_parse_suback_response :: "nat \<Rightarrow> nat option" where
  "iotc_mqtt_parse_suback_response resp = (if resp \<in> {0, 1, 2, IOTC_MQTT_SUBACK_FAILED} then Some resp else None)"

text \<open>A wrong answer is not consumed.\<close>

definition suback_status_byte :: cont where
  "suback_status_byte = new_topicpair (\<lambda>s.
     (let resp = (case pg_src s of b # bs \<Rightarrow> unat b | [] \<Rightarrow> 0)
      in case iotc_mqtt_parse_suback_response resp of
           None \<Rightarrow> parser_exit IOTC_MQTT_PARSER_ERROR (s\<lparr>pg_local := IOTC_MQTT_PARSER_ERROR\<rparr>)
         | Some status \<Rightarrow>
             byte_into (\<lambda>b. on_topics (\<lambda>(i, t). (i, map_option (\<lambda>t. t\<lparr>tp_payload := status\<rparr>) t)))
               (parser_exit IOTC_STATE_OK) (s\<lparr>pg_local := IOTC_STATE_OK\<rparr>)))"

section \<open>The header\<close>

definition parse_body :: cont where
  "parse_body s =
     (case mm_type (pg_msg s) of
        IOTC_MQTT_TYPE_CONNECT \<Rightarrow> read_at 236 read_protocol_name (yield_on 238 connect_version) s
      | IOTC_MQTT_TYPE_CONNACK \<Rightarrow> yield_on 289 connack_unused s
      | IOTC_MQTT_TYPE_PUBLISH \<Rightarrow> yield_on 306 publish_topic_name s
      | IOTC_MQTT_TYPE_PUBACK \<Rightarrow> yield_on 336 (id_high_byte 343) s
      | IOTC_MQTT_TYPE_PUBREC \<Rightarrow> yield_on 353 (id_high_byte 360) s
      | IOTC_MQTT_TYPE_PUBREL \<Rightarrow> yield_on 370 (id_high_byte 377) s
      | IOTC_MQTT_TYPE_PUBCOMP \<Rightarrow> yield_on 387 (id_high_byte 394) s
      | IOTC_MQTT_TYPE_SUBSCRIBE \<Rightarrow> yield_on 404 (topics_id_high 411 (topics_id_low 418 subscribe_topic)) s
      | IOTC_MQTT_TYPE_SUBACK \<Rightarrow> yield_on 437 (topics_id_high 444 (topics_id_low 451 suback_status_byte)) s
      | IOTC_MQTT_TYPE_PINGREQ \<Rightarrow> parser_exit IOTC_STATE_OK s
      | IOTC_MQTT_TYPE_PINGRESP \<Rightarrow> parser_exit IOTC_STATE_OK s
      | IOTC_MQTT_TYPE_DISCONNECT \<Rightarrow> parser_exit IOTC_STATE_OK s
      | _ \<Rightarrow> parser_exit IOTC_MQTT_PARSER_ERROR (s\<lparr>p_error := 3, p_read_cs := 2\<rparr>))"

text \<open>The byte at hand stays until the next round of the loop, or until the loop is left.\<close>

definition byte_at_hand :: "parsing \<Rightarrow> nat" where
  "byte_at_hand s = (case pg_src s of b # bs \<Rightarrow> unat b | [] \<Rightarrow> 0)"

definition header_done :: cont where
  "header_done s =
     (if byte_at_hand s \<ge> 128 then parser_exit IOTC_MQTT_PARSER_ERROR (s\<lparr>p_error := 2\<rparr>)
      else parse_body (on_msg (\<lambda>m. m\<lparr>mm_remaining_length := to_u32 (p_remaining_length s)\<rparr>)
             (s\<lparr>pg_src := tl (pg_src s), p_data_length := p_data_length s + 1\<rparr>)))"

function header_digit :: cont where
  "header_digit s =
     (let s1 = s\<lparr>p_remaining_length := p_remaining_length s + byte_at_hand s mod 128 * p_multiplier s,
             p_multiplier := p_multiplier s * 128\<rparr>
      in if byte_at_hand s \<ge> 128 \<and> p_digit_bytes s < 4 then
           (let s2 = s1\<lparr>pg_src := tl (pg_src s), p_digit_bytes := p_digit_bytes s + 1\<rparr>
            in if pg_src s2 = [] then (IOTC_STATE_WANT_READ, s2\<lparr>p_cs := 215\<rparr>) else header_digit s2)
         else header_done s1)"
  by pat_completeness auto
termination
  by (relation "measure (\<lambda>s. 4 - p_digit_bytes s)") auto

declare header_digit.simps [simp del]

definition header_byte :: cont where
  "header_byte s =
     (let s1 = (on_msg (set_common_value (byte_at_hand s)) s)
            \<lparr>p_digit_bytes := 1, p_multiplier := 1, p_remaining_length := 0, p_data_length := 1, pg_src := tl (pg_src s)\<rparr>
      in yield_on 215 header_digit s1)"

section \<open>The coroutine\<close>

definition parser_resume :: "nat \<Rightarrow> cont" where
  "parser_resume line =
     (if line = 200 then header_byte
      else if line = 215 then header_digit
      else if line = 236 then read_resume 236 read_protocol_name (yield_on 238 connect_version)
      else if line = 238 then connect_version
      else if line = 246 then connect_flags
      else if line = 254 then connect_keepalive_high
      else if line = 261 then connect_keepalive_low
      else if line = 268 then read_resume 268 read_client_id connect_will_topic
      else if line = 271 then read_resume 271 read_will_topic connect_will_message
      else if line = 275 then read_resume 275 read_will_message connect_username
      else if line = 279 then read_resume 279 read_username connect_password
      else if line = 283 then read_resume 283 read_password (parser_exit IOTC_STATE_OK)
      else if line = 289 then connack_unused
      else if line = 296 then connack_code_byte
      else if line = 306 then publish_topic_name
      else if line = 309 then read_resume 309 read_topic (yield_on 311 publish_after_topic)
      else if line = 311 then publish_after_topic
      else if line = 319 then publish_id_low
      else if line = 330 then read_resume 330 read_content (parser_exit IOTC_STATE_OK)
      else if line = 336 then id_high_byte 343
      else if line = 353 then id_high_byte 360
      else if line = 370 then id_high_byte 377
      else if line = 387 then id_high_byte 394
      else if line \<in> {343, 360, 377, 394} then id_low_byte
      else if line = 404 then topics_id_high 411 (topics_id_low 418 subscribe_topic)
      else if line = 411 then topics_id_low 418 subscribe_topic
      else if line = 418 then subscribe_topic
      else if line = 424 then read_resume 424 read_topic_filter (yield_on 426 subscribe_qos)
      else if line = 426 then subscribe_qos
      else if line = 437 then topics_id_high 444 (topics_id_low 451 suback_status_byte)
      else if line = 444 then topics_id_low 451 suback_status_byte
      else if line = 451 then suback_status_byte
      else (\<lambda>s. yield_on 200 header_byte (s\<lparr>pg_local := IOTC_STATE_OK\<rparr>)))"

definition iotc_mqtt_parser_execute :: cont where
  "iotc_mqtt_parser_execute s = parser_resume (p_cs s) s"

end
