(* ===== verification/Iotc_Mqtt_Chunks.thy ===== *)
theory Iotc_Mqtt_Chunks
  imports Iotc_Mqtt_Parser Iotc_Layer
begin

text \<open>
  Feeding the parser: bytes that arrive in chunks of any size, a contract for the pieces of the coroutine and the rules
  that put the contract of a piece together from those of the pieces after it. The contract says that the
  piece consumes exactly the bytes it is meant for, however they are cut, that it asks for more as long as one of
  them is missing, and that it leaves what comes after them.
\<close>

section \<open>Chunks\<close>

text \<open>The parser is run on one chunk after the other until it does not want more.\<close>

fun parse_chunks :: "byte list list \<Rightarrow> parsing \<Rightarrow> iotc_state \<times> parsing \<times> byte list list" where
  "parse_chunks [] s = (IOTC_STATE_WANT_READ, s, [])"
| "parse_chunks (c # cs) s =
     (case iotc_mqtt_parser_execute (s\<lparr>pg_src := c\<rparr>) of (st, s1) \<Rightarrow>
        if st = IOTC_STATE_WANT_READ then parse_chunks cs s1 else (st, s1, cs))"

section \<open>The contract\<close>

text \<open>A chunk that goes with the bytes that are needed: it ends before them, with them or behind them.\<close>

definition agrees :: "byte list \<Rightarrow> byte list \<Rightarrow> bool" where
  "agrees bs c \<longleftrightarrow> take (length bs) c = take (length c) bs"

text \<open>
  What a call has to give when it was given all but \<open>bs\<close> of the bytes, and \<open>rest\<close> beyond them: success with
  the postcondition \<open>Q\<close> and \<open>rest\<close> left, or the wish for more, and then every next chunk takes it further.
\<close>

inductive consumes :: "(parsing \<Rightarrow> bool) \<Rightarrow> byte list \<Rightarrow> byte list \<Rightarrow> iotc_state \<times> parsing \<Rightarrow> bool"
  for Q :: "parsing \<Rightarrow> bool" where
  complete: "Q s \<Longrightarrow> pg_src s = rest \<Longrightarrow> consumes Q [] rest (IOTC_STATE_OK, s)"
| wants: "bs \<noteq> [] \<Longrightarrow> pg_src s = [] \<Longrightarrow>
    (\<And>c. c \<noteq> [] \<Longrightarrow> agrees bs c \<Longrightarrow>
       consumes Q (drop (length c) bs) (drop (length bs) c) (iotc_mqtt_parser_execute (s\<lparr>pg_src := c\<rparr>))) \<Longrightarrow>
    consumes Q bs [] (IOTC_STATE_WANT_READ, s)"

inductive_cases consumes_ok: "consumes Q bs rest (IOTC_STATE_OK, s)"
inductive_cases consumes_wants: "consumes Q bs rest (IOTC_STATE_WANT_READ, s)"

lemma consumes_result: "consumes Q bs rest r \<Longrightarrow> fst r = (if bs = [] then IOTC_STATE_OK else IOTC_STATE_WANT_READ)"
  by (erule consumes.cases) auto

definition parses :: "(parsing \<Rightarrow> bool) \<Rightarrow> byte list \<Rightarrow> cont \<Rightarrow> (parsing \<Rightarrow> bool) \<Rightarrow> bool" where
  "parses P bs k Q \<longleftrightarrow> (\<forall>s. P s \<longrightarrow> agrees bs (pg_src s) \<longrightarrow>
     consumes Q (drop (length (pg_src s)) bs) (drop (length bs) (pg_src s)) (k s))"

lemma parsesI:
  "(\<And>s. P s \<Longrightarrow> agrees bs (pg_src s) \<Longrightarrow>
     consumes Q (drop (length (pg_src s)) bs) (drop (length bs) (pg_src s)) (k s)) \<Longrightarrow> parses P bs k Q"
  by (simp add: parses_def)

lemma parsesD:
  "parses P bs k Q \<Longrightarrow> P s \<Longrightarrow> agrees bs (pg_src s) \<Longrightarrow>
     consumes Q (drop (length (pg_src s)) bs) (drop (length bs) (pg_src s)) (k s)"
  by (simp add: parses_def)

lemma agrees_nil [simp]: "agrees bs []" "agrees [] c"
  by (simp_all add: agrees_def)

lemma agrees_cons [simp]: "agrees (b # bs) (c # cs) \<longleftrightarrow> b = c \<and> agrees bs cs"
  by (auto simp: agrees_def)

lemma agrees_append: "agrees (bs @ ds) (bs @ c) \<longleftrightarrow> agrees ds c"
  by (induction bs) auto

lemma agrees_short: "length c \<le> length bs \<Longrightarrow> agrees bs c \<Longrightarrow> \<exists>ds. bs = c @ ds"
  by (auto simp: agrees_def) (metis append_take_drop_id)

lemma agrees_long: "length bs \<le> length c \<Longrightarrow> agrees bs c \<Longrightarrow> \<exists>e. c = bs @ e"
  by (auto simp: agrees_def) (metis append_take_drop_id)

lemma agrees_append_long:
  assumes "agrees (bs @ ds) c" and "length bs \<le> length c"
  obtains e where "c = bs @ e" and "agrees ds e"
proof -
  have "take (length bs) (take (length (bs @ ds)) c) = take (length bs) (take (length c) (bs @ ds))"
    using assms(1) by (simp only: agrees_def)
  with assms(2) have "take (length bs) c = bs" by (simp add: min_def)
  then have c: "c = bs @ drop (length bs) c" by (metis append_take_drop_id)
  with assms(1) have "agrees ds (drop (length bs) c)" by (metis agrees_append)
  with c show thesis by (rule that)
qed

lemma agrees_append_short:
  assumes "agrees (bs @ ds) c" and "length c < length bs"
  obtains e where "bs = c @ e" and "e \<noteq> []"
proof -
  have "take (length c) bs = c" using assms by (simp add: agrees_def)
  then have "bs = c @ drop (length c) bs" by (metis append_take_drop_id)
  moreover have "drop (length c) bs \<noteq> []" using assms(2) by simp
  ultimately show thesis by (rule that)
qed

text \<open>Every cut of the bytes into chunks that are not empty is parsed.\<close>

lemma consumes_chunks:
  assumes "consumes Q bs [] (IOTC_STATE_WANT_READ, s)" and "bs \<noteq> []"
    and "\<forall>c\<in>set cs. c \<noteq> []" and "concat cs = bs @ rest" and "cs \<noteq> [] \<and> length rest < length (last cs)"
  shows "\<exists>s'. parse_chunks cs s = (IOTC_STATE_OK, s', []) \<and> Q s' \<and> pg_src s' = rest"
  using assms
proof (induction cs arbitrary: bs s)
  case Nil
  then show ?case by simp
next
  case (Cons c cs)
  let ?r = "iotc_mqtt_parser_execute (s\<lparr>pg_src := c\<rparr>)"
  have a: "agrees bs c" using Cons.prems(4) by (auto simp: agrees_def append_eq_append_conv2)
  have r: "consumes Q (drop (length c) bs) (drop (length bs) c) ?r"
    using Cons.prems(1,3) a by (auto elim!: consumes_wants)
  show ?case
  proof (cases "drop (length c) bs = []")
    case True
    then have l: "length bs \<le> length c" by simp
    with agrees_long [OF l a] obtain e where c: "c = bs @ e" by auto
    have "cs = []"
    proof (rule ccontr)
      assume ne: "cs \<noteq> []"
      then have "length (last cs) \<le> length (concat cs)"
        by (metis append_butlast_last_id concat.simps(1) concat.simps(2) concat_append le_add2 length_append self_append_conv)
      with ne Cons.prems(4,5) c show False by auto
    qed
    with Cons.prems(4) c have "e = rest" by simp
    with r True c obtain s' where "?r = (IOTC_STATE_OK, s')" "Q s'" "pg_src s' = rest"
      by (auto elim: consumes.cases)
    with \<open>cs = []\<close> show ?thesis by simp
  next
    case False
    then have l: "length c \<le> length bs" by simp
    with agrees_short [OF l a] obtain ds where b: "bs = c @ ds" by auto
    with r False obtain s1 where e: "?r = (IOTC_STATE_WANT_READ, s1)"
      and c1: "consumes Q ds [] (IOTC_STATE_WANT_READ, s1)" using consumes_result [OF r] by (cases ?r) auto
    have q: "concat cs = ds @ rest" using Cons.prems(4) b by simp
    with False b have ne: "cs \<noteq> []" by auto
    with Cons.prems(3,5) False b Cons.IH [OF c1 _ _ q] show ?thesis by (simp add: e)
  qed
qed

section \<open>The state between the pieces\<close>

text \<open>
  The heap of a parse: the blocks of the message so far on top of others, \<open>snd H\<close>, and the live blocks
  \<open>fst H\<close>, and memory that is granted.
\<close>

type_synonym heap_base = "(ptr \<rightharpoonup> nat) \<times> ptr multiset"

definition blocks_of :: "mqtt_message \<Rightarrow> ptr multiset" where
  "blocks_of msg = body_blocks (mm_type msg) (mm_body msg)"

definition heap_ok :: "heap_base \<Rightarrow> mqtt_message \<Rightarrow> mem \<Rightarrow> bool" where
  "heap_ok H M m \<longleftrightarrow> owns_blocks (fst H) (blocks_of M + snd H) m \<and> all_granted m"

text \<open>The message so far, the number of bytes counted and the remaining length that was read.\<close>

definition reading :: "heap_base \<Rightarrow> mqtt_message \<Rightarrow> nat \<Rightarrow> nat \<Rightarrow> parsing \<Rightarrow> bool" where
  "reading H M n r s \<longleftrightarrow> pg_msg s = M \<and> p_data_length s = n \<and> p_remaining_length s = r \<and> heap_ok H M (pg_mem s)
     \<and> p_read_cs s \<le> 2"

definition ready :: "heap_base \<Rightarrow> mqtt_message \<Rightarrow> nat \<Rightarrow> nat \<Rightarrow> parsing \<Rightarrow> bool" where
  "ready H M n r s \<longleftrightarrow> reading H M n r s \<and> pg_src s \<noteq> []"

lemma reading_upd [simp]:
  "reading H M n r (s\<lparr>p_cs := l\<rparr>) = reading H M n r s" "reading H M n r (s\<lparr>pg_src := c\<rparr>) = reading H M n r s"
  "reading H M n r (s\<lparr>pg_local := st\<rparr>) = reading H M n r s" "reading H M n r (s\<lparr>p_str_length := x\<rparr>) = reading H M n r s"
  by (simp_all add: reading_def)

lemma parses_exit:
  assumes "\<And>s. reading H M n r s \<Longrightarrow> p_cs s = 1 \<Longrightarrow> Q s"
  shows "parses (reading H M n r) [] (parser_exit IOTC_STATE_OK) Q"
  by (rule parsesI) (simp add: parser_exit_def consumes.complete assms)

lemma parses_ready: "parses (reading H M n r) bs k Q \<Longrightarrow> parses (ready H M n r) bs k Q"
  by (simp add: parses_def ready_def)

lemma parses_byte:
  assumes k: "parses (reading H (f (unat b) M) (Suc n) r) bs k Q" and bl: "blocks_of (f (unat b) M) = blocks_of M"
  shows "parses (ready H M n r) (b # bs) (byte_into f k) Q"
proof (rule parsesI)
  fix s assume s: "ready H M n r s" and a: "agrees (b # bs) (pg_src s)"
  then obtain cs where c: "pg_src s = b # cs" by (cases "pg_src s") (auto simp: ready_def)
  let ?s = "on_msg (f (unat b)) (s\<lparr>pg_src := cs, p_data_length := p_data_length s + 1\<rparr>)"
  have "reading H (f (unat b) M) (Suc n) r ?s" using s bl by (simp add: ready_def reading_def on_msg_def heap_ok_def)
  with parsesD [OF k this] a c show "consumes Q (drop (length (pg_src s)) (b # bs))
      (drop (length (b # bs)) (pg_src s)) (byte_into f k s)"
    by (simp add: byte_into_def next_byte_def on_msg_def)
qed

lemma parses_yield_gen:
  assumes "parses (\<lambda>s. P s \<and> pg_src s \<noteq> []) bs k Q" and "bs \<noteq> []" and "parser_resume line = k"
    and P: "\<And>s c. P s \<Longrightarrow> P (s\<lparr>p_cs := line, pg_src := c\<rparr>)"
  shows "parses P bs (yield_on line k) Q"
proof (rule parsesI)
  fix s assume s: "P s" and a: "agrees bs (pg_src s)"
  show "consumes Q (drop (length (pg_src s)) bs) (drop (length bs) (pg_src s)) (yield_on line k s)"
  proof (cases "pg_src s = []")
    case True
    have "consumes Q (drop (length c) bs) (drop (length bs) c) (iotc_mqtt_parser_execute (s\<lparr>p_cs := line, pg_src := c\<rparr>))"
      if "c \<noteq> []" "agrees bs c" for c
      using parsesD [OF assms(1), of "s\<lparr>p_cs := line, pg_src := c\<rparr>"] P [OF s] that
      by (simp add: iotc_mqtt_parser_execute_def assms(3))
    with True assms(2) show ?thesis by (auto simp: yield_on_def intro!: consumes.wants)
  next
    case False
    with s a parsesD [OF assms(1)] show ?thesis by (simp add: yield_on_def)
  qed
qed

lemma parses_yield:
  assumes "parses (ready H M n r) bs k Q" and "bs \<noteq> []" and "parser_resume line = k"
  shows "parses (reading H M n r) bs (yield_on line k) Q"
  by (rule parses_yield_gen) (use assms in \<open>auto simp: parses_def ready_def\<close>)

section \<open>Descriptors that are filled\<close>

definition owned :: "(ptr \<rightharpoonup> nat) \<Rightarrow> ptr multiset \<Rightarrow> (ptr \<rightharpoonup> nat) \<Rightarrow> bool" where
  "owned B K base \<longleftrightarrow> (\<forall>p. count K p \<le> 1) \<and> NULL \<notin># K \<and> (\<forall>p\<in>#K. B p = None \<and> base p \<noteq> None)
     \<and> (\<forall>p. p \<notin># K \<longrightarrow> base p = B p)"

lemma owned_live: "owns_blocks B K m \<Longrightarrow> owned B K (m_live m)"
  by (simp add: owns_blocks_def owned_def)

lemma owned_desc:
  assumes "owned B K base" and "desc_over base d m"
  shows "owns_blocks B (desc_blocks (Some d) + K) m"
proof -
  from assms have n: "d_self d \<notin># K" "d_data_ptr d \<notin># K" "d_self d \<noteq> d_data_ptr d" "B (d_self d) = None" "B (d_data_ptr d) = None"
    unfolding owned_def desc_over_def by metis+
  then have c: "count (desc_blocks (Some d) + K) p \<le> 1" for p
    using assms by (auto simp: desc_blocks_def desc_over_def owned_def not_in_iff)
  show ?thesis using assms n c unfolding owns_blocks_def owned_def desc_over_def
    by (auto simp: desc_blocks_def)
qed

lemma desc_size_small: "unat (w :: 32 word) < 2 ^ 63"
proof -
  have "unat w < 2 ^ 32" using unsigned_less [of w] by simp
  then show ?thesis by simp
qed

lemma append_resize_granted:
  assumes o: "desc_over base d m" and g: "all_granted m" and n: "length (desc_data d) + length bs \<le> 2 ^ 31"
  obtains d' m' where "iotc_data_desc_append_data_resize (Some d) (Some bs) m = (IOTC_STATE_OK, Some d', m')"
    and "desc_over base d' m'" and "all_granted m'" and "desc_data d' = desc_data d @ bs"
proof -
  obtain st x m' where r: "iotc_data_desc_append_data_resize (Some d) (Some bs) m = (st, x, m')" by (metis prod_cases3)
  have n': "unat (d_length d) + length bs \<le> 2 ^ 31" using n o by (simp add: desc_over_def)
  have w: "wf_mem m" using o by (simp add: desc_over_def)
  have a: "fst (iotc_data_desc_assure_buf_len d (length bs) m) = IOTC_STATE_OK
      \<and> all_granted (snd (snd (iotc_data_desc_assure_buf_len d (length bs) m)))"
  proof (cases "iotc_data_desc_will_it_fit d (length bs)")
    case True
    with g show ?thesis by (simp add: iotc_data_desc_assure_buf_len_def)
  next
    case False
    let ?c = "iotc_data_desc_pow2_realloc_strategy (d_capacity d) (of_nat (unat (d_length d) + length bs))"
    have u: "unat ?c < 2 ^ 63" by (rule desc_size_small)
    obtain q m1 where q: "iotc_alloc (unat ?c) m = (q, m1)" by fastforce
    have "q \<noteq> NULL" by (rule alloc_granted [OF w _ q]) (use g u in \<open>simp only: all_granted_def\<close>)
    moreover have "all_granted m1" by (rule all_granted_alloc [OF g q])
    moreover note q
    ultimately have "q \<noteq> NULL" and "all_granted m1" "iotc_alloc (unat ?c) m = (q, m1)" by auto
    with False g show ?thesis
      by (simp add: iotc_data_desc_assure_buf_len_def iotc_data_desc_realloc_def Let_def memcpy_check_def)
        (simp add: all_granted_def)
  qed
  with r have st: "st = IOTC_STATE_OK" and g': "all_granted m'"
    by (auto simp: iotc_data_desc_append_data_resize_def case_prod_beta memcpy_check_def all_granted_def)
  with append_resize_over [OF o n' r] r that show thesis by blast
qed

lemma make_empty_granted:
  assumes "wf_mem m" and "\<not> m_bad m" and "all_granted m" and "c < 2 ^ 32"
  obtains d m' where "iotc_make_empty_desc_alloc c m = (Some d, m')" and "desc_over (m_live m) d m'"
    and "all_granted m'" and "desc_data d = []"
proof -
  obtain p m1 where a1: "iotc_alloc sizeof_data_desc m = (p, m1)" by fastforce
  obtain b m2 where a2: "iotc_alloc c m1 = (b, m2)" by fastforce
  have w: "wf_mem m" "wf_mem m1" and g: "all_granted m" "all_granted m1"
    using assms a1 by (auto simp: alloc_wf all_granted_alloc)
  have "p \<noteq> NULL"
    by (rule alloc_granted [OF w(1) _ a1]) (use g(1) in \<open>simp add: all_granted_def sizeof_data_desc_def\<close>)
  moreover have "b \<noteq> NULL"
    by (rule alloc_granted [OF w(2) _ a2]) (use g(2) assms(4) in \<open>simp add: all_granted_def\<close>)
  ultimately obtain d where r: "iotc_make_empty_desc_alloc c m = (Some d, m2)"
    using a1 a2 by (simp add: iotc_make_empty_desc_alloc_def Let_def)
  with make_empty_over [OF w(1) assms(2,4) r] that [OF r] g(2) a2 show thesis
    by (auto simp: all_granted_alloc)
qed

text \<open>What \<^verbatim>\<open>READ_STRING\<close> and \<^verbatim>\<open>READ_DATA\<close> do with the answer of the reader.\<close>

definition after_read :: "nat \<Rightarrow> cont \<Rightarrow> iotc_state \<times> parsing \<Rightarrow> iotc_state \<times> parsing" where
  "after_read line k r = read_at line (\<lambda>s. r) k (snd r)"

lemma read_at_after: "read_at line reader k s = after_read line k (reader s)"
  by (simp add: read_at_def after_read_def)

lemma after_read_ok: "after_read line k (IOTC_STATE_OK, s) = k (s\<lparr>pg_local := IOTC_STATE_OK\<rparr>)"
  by (simp add: read_at_def after_read_def)

lemma after_read_want:
  "after_read line k (IOTC_STATE_WANT_READ, s)
   = (IOTC_STATE_WANT_READ, s\<lparr>pg_local := IOTC_STATE_WANT_READ, p_cs := line\<rparr>)"
  by (simp add: read_at_def after_read_def)

text \<open>The place in the message that a descriptor is stored at.\<close>

locale descriptor_field =
  fixes get :: desc_get and put :: desc_put and has :: "mqtt_message \<Rightarrow> bool"
  assumes get_put [simp]: "has m \<Longrightarrow> get (put d m) = d"
    and put_put [simp]: "put d (put e m) = put d m"
    and blocks_put: "has m \<Longrightarrow> get m = None \<Longrightarrow> blocks_of (put d m) = desc_blocks d + blocks_of m"
begin

definition filling :: "heap_base \<Rightarrow> mqtt_message \<Rightarrow> nat \<Rightarrow> nat \<Rightarrow> bool \<Rightarrow> nat \<Rightarrow> byte list \<Rightarrow> parsing \<Rightarrow> bool" where
  "filling H M n r counted L t s \<longleftrightarrow> (\<exists>d base. pg_msg s = put (Some d) M \<and> desc_over base d (pg_mem s) \<and> all_granted (pg_mem s)
     \<and> owned (fst H) (blocks_of M + snd H) base \<and> desc_data d = t \<and> p_str_length s = L \<and> p_data_length s = n + (if counted then length t else 0)
     \<and> p_remaining_length s = r)"

lemma heap_ok_put:
  assumes "has M" and "get M = None" and "owned (fst H) (blocks_of M + snd H) base" and "desc_over base d m"
    and "all_granted m"
  shows "heap_ok H (put (Some d) M) m"
  using owned_desc [OF assms(3,4)] assms(5) blocks_put [OF assms(1,2), of "Some d"] by (simp add: heap_ok_def add.assoc)

lemma read_chunk_all:
  assumes "has M" and gm: "get M = None" and "filling H M n r counted L t s" and "length t \<le> L" and "L \<le> 2 ^ 31"
  shows "if L - length t \<le> length (pg_src s)
    then \<exists>d s'. read_chunk counted yl get put s = (IOTC_STATE_OK, s') \<and> desc_inv d \<and> d_data_ptr d \<noteq> NULL
      \<and> desc_data d = t @ take (L - length t) (pg_src s)
      \<and> reading H (put (Some d) M) (n + (if counted then L else 0)) r s' \<and> pg_src s' = drop (L - length t) (pg_src s)
    else \<exists>s'. read_chunk counted yl get put s = (IOTC_STATE_WANT_READ, s') \<and> p_read_cs s' = yl
      \<and> filling H M n r counted L (t @ pg_src s) s' \<and> pg_src s' = []"
proof -
  from assms(3) obtain d base where f: "pg_msg s = put (Some d) M" "desc_over base d (pg_mem s)" "all_granted (pg_mem s)"
    "desc_data d = t" "p_str_length s = L" "p_data_length s = n + (if counted then length t else 0)"
    "p_remaining_length s = r" and ow: "owned (fst H) (blocks_of M + snd H) base" by (auto simp: filling_def)
  note hp = heap_ok_put [OF assms(1) gm ow]
  have dl: "unat (d_length d) = length t" using f(2,4) by (auto simp: desc_over_def)
  have tr: "to_size (int (p_str_length s) - int (desc_length (get (pg_msg s)))) = L - length t"
    using assms dl f by (simp add: desc_length_def of_nat_diff [symmetric] to_size_int del: of_nat_diff)
  let ?l = "min (L - length t) (length (pg_src s))"
  show ?thesis
  proof (cases "L = length t")
    case True
    with f tr assms hp [OF f(2,3)] show ?thesis
      by (auto simp: read_chunk_def reading_def desc_over_def intro!: exI [of _ d])
  next
    case False
    have "length (desc_data d) + length (take ?l (pg_src s)) \<le> 2 ^ 31" using assms f(4) by simp
    from append_resize_granted [OF f(2,3) this] obtain d' m' where
      a: "iotc_data_desc_append_data_resize (Some d) (Some (take ?l (pg_src s))) (pg_mem s) = (IOTC_STATE_OK, Some d', m')"
      and d': "desc_over base d' m'" "all_granted m'" "desc_data d' = t @ take ?l (pg_src s)" using f(4) by metis
    have g: "get (pg_msg s) = Some d" using f assms by simp
    show ?thesis
    proof (cases "L - length t \<le> length (pg_src s)")
      case True
      then have l: "?l = L - length t" by simp
      show ?thesis using True False a d' f assms(1,4) tr hp [OF d'(1,2)] unfolding read_chunk_def Let_def tr l g
        by (auto simp: reading_def desc_over_def intro!: exI [of _ d'])
    next
      case F2: False
      then have l: "?l = length (pg_src s)" by simp
      show ?thesis using F2 False a d' f assms(1,4) tr ow unfolding read_chunk_def Let_def tr l g
        by (auto simp: filling_def intro!: exI [of _ d'])
    qed
  qed
qed

text \<open>The rest of the bytes of the field, \<open>v\<close>, and then those of what comes after it.\<close>

lemma chunk_consumes:
  assumes hm: "has M" and gm: "get M = None" and L: "length text \<le> 2 ^ 31"
    and reader: "\<And>s. get (pg_msg s) \<noteq> None \<Longrightarrow> p_read_cs s = yl \<Longrightarrow> reader s = read_chunk counted yl get put s"
    and resume: "parser_resume line = read_resume line reader k"
    and k: "\<And>d. desc_inv d \<Longrightarrow> d_data_ptr d \<noteq> NULL \<Longrightarrow> desc_data d = text \<Longrightarrow>
      parses (reading H (put (Some d) M) (n + (if counted then length text else 0)) r) bs k Q"
    and f: "filling H M n r counted (length text) t s" and tv: "text = t @ v" and a: "agrees (v @ bs) (pg_src s)"
    and ne: "v = [] \<or> pg_src s \<noteq> []"
  shows "consumes Q (drop (length (pg_src s)) (v @ bs)) (drop (length (v @ bs)) (pg_src s))
      (after_read line k (read_chunk counted yl get put s))"
  using f tv a ne
proof (induction v arbitrary: t s rule: length_induct)
  case (1 v)
  have lv: "length text - length t = length v" using 1(3) by simp
  note c = read_chunk_all [OF hm gm 1(2) _ L, where yl = yl, unfolded lv]
  show ?case
  proof (cases "length v \<le> length (pg_src s)")
    case True
    with 1(4) obtain u where vs: "pg_src s = v @ u" "agrees bs u" by (rule agrees_append_long)
    then have tk: "take (length v) (pg_src s) = v" by simp
    from c 1(3) True obtain d s' where e: "read_chunk counted yl get put s = (IOTC_STATE_OK, s')" "desc_inv d" "d_data_ptr d \<noteq> NULL"
      "desc_data d = text" "reading H (put (Some d) M) (n + (if counted then length text else 0)) r s'"
      "pg_src s' = drop (length v) (pg_src s)" by (auto simp: tk)
    have "agrees bs (pg_src s')" using vs e(6) by simp
    with parsesD [OF k [OF e(2-4)], of "s'\<lparr>pg_local := IOTC_STATE_OK\<rparr>"] e(1,5,6) True show ?thesis
      by (simp add: after_read_ok add.commute)
  next
    case False
    with c 1(3) obtain s' where e: "read_chunk counted yl get put s = (IOTC_STATE_WANT_READ, s')" "p_read_cs s' = yl"
      "filling H M n r counted (length text) (t @ pg_src s) s'" "pg_src s' = []" by auto
    from False have "length (pg_src s) < length v" by simp
    with 1(4) obtain w where w: "v = pg_src s @ w" and wn: "w \<noteq> []" by (rule agrees_append_short)
    let ?s = "s'\<lparr>pg_local := IOTC_STATE_WANT_READ, p_cs := line\<rparr>"
    have "consumes Q (w @ bs) [] (IOTC_STATE_WANT_READ, ?s)"
    proof (rule consumes.wants)
      fix c assume cn: "c \<noteq> []" and ca: "agrees (w @ bs) c"
      let ?s1 = "?s\<lparr>pg_src := c\<rparr>"
      from e(3) obtain d where g: "pg_msg s' = put (Some d) M" by (auto simp: filling_def)
      have "iotc_mqtt_parser_execute ?s1 = after_read line k (read_chunk counted yl get put ?s1)"
        using reader [of ?s1] g hm e(2) by (simp add: iotc_mqtt_parser_execute_def resume read_resume_def read_at_after)
      moreover have "length w < length v" using w 1(5) wn by auto
      moreover have "filling H M n r counted (length text) (t @ pg_src s) ?s1" using e(3) by (simp add: filling_def)
      ultimately show "consumes Q (drop (length c) (w @ bs)) (drop (length (w @ bs)) c) (iotc_mqtt_parser_execute ?s1)"
        using 1(3) w ca cn 1(1) [rule_format, of w "t @ pg_src s" ?s1] by simp
    qed (use wn e(4) in auto)
    with e(1) w False show ?thesis by (simp add: after_read_want)
  qed
qed

lemma yield_consumes:
  assumes ne: "bs \<noteq> []" and resume: "parser_resume line = read_resume line reader k"
    and reader: "\<And>s. get (pg_msg s) \<noteq> None \<Longrightarrow> p_read_cs s = lab \<Longrightarrow> reader s = kk s"
    and hm: "has M" and f: "filling H M n r counted L t s" and a: "agrees bs (pg_src s)"
    and kk: "\<And>s. filling H M n r counted L t s \<Longrightarrow> pg_src s \<noteq> [] \<Longrightarrow> agrees bs (pg_src s) \<Longrightarrow>
      consumes Q (drop (length (pg_src s)) bs) (drop (length bs) (pg_src s)) (after_read line k (kk s))"
  shows "consumes Q (drop (length (pg_src s)) bs) (drop (length bs) (pg_src s))
      (after_read line k (read_yield_on lab kk s))"
proof (cases "pg_src s = []")
  case True
  let ?s = "\<lambda>c. s\<lparr>p_read_cs := lab, pg_local := IOTC_STATE_WANT_READ, p_cs := line, pg_src := c\<rparr>"
  have "consumes Q (drop (length c) bs) (drop (length bs) c) (iotc_mqtt_parser_execute (?s c))"
    if "c \<noteq> []" "agrees bs c" for c
  proof -
    from f obtain d where "pg_msg s = put (Some d) M" by (auto simp: filling_def)
    then have "iotc_mqtt_parser_execute (?s c) = after_read line k (kk (?s c))"
      using reader [of "?s c"] hm by (simp add: iotc_mqtt_parser_execute_def resume read_resume_def read_at_after)
    moreover have "filling H M n r counted L t (?s c)" using f by (simp add: filling_def)
    ultimately show ?thesis using kk [of "?s c"] that by simp
  qed
  then have "consumes Q bs [] (IOTC_STATE_WANT_READ, s\<lparr>p_read_cs := lab, pg_local := IOTC_STATE_WANT_READ, p_cs := line\<rparr>)"
    using True ne by (intro consumes.wants) auto
  with True show ?thesis by (simp add: read_yield_on_def after_read_want)
next
  case False
  with f a kk show ?thesis by (simp add: read_yield_on_def)
qed

lemma ensure_desc_new:
  assumes "has M" and "get M = None" and "reading H M n r s"
  obtains s' where "ensure_desc get put kk s = kk s'" and "filling H M n r counted (p_str_length s') [] s'" and "p_str_length s' = p_str_length s"
    and "pg_src s' = pg_src s" and "p_read_cs s' \<le> 2"
proof -
  from assms(3) have h: "wf_mem (pg_mem s)" "\<not> m_bad (pg_mem s)" "all_granted (pg_mem s)"
    and ow: "owned (fst H) (blocks_of M + snd H) (m_live (pg_mem s))"
    by (auto simp: reading_def heap_ok_def owned_live) (auto simp: owns_blocks_def)
  from make_empty_granted [OF h, of 4] obtain d m' where e: "iotc_make_empty_desc_alloc 4 (pg_mem s) = (Some d, m')"
    "desc_over (m_live (pg_mem s)) d m'" "all_granted m'" "desc_data d = []" by auto
  show thesis
  proof (rule that [of "s\<lparr>pg_msg := put (Some d) (pg_msg s), pg_mem := m'\<rparr>"])
    show "ensure_desc get put kk s = kk (s\<lparr>pg_msg := put (Some d) (pg_msg s), pg_mem := m'\<rparr>)"
      using e(1) assms(2,3) by (simp add: ensure_desc_def reading_def)
  qed (use e ow assms(3) in \<open>auto simp: filling_def reading_def\<close>)
qed

lemma parses_string:
  assumes hm: "has M" and gm: "get M = None" and L: "length text < 65536" and ne: "text @ bs \<noteq> []"
    and resume: "parser_resume line = read_resume line (read_string get put) k"
    and k: "\<And>d. desc_inv d \<Longrightarrow> d_data_ptr d \<noteq> NULL \<Longrightarrow> desc_data d = text \<Longrightarrow>
      parses (reading H (put (Some d) M) (n + 2 + length text) r) bs k Q"
  shows "parses (reading H M n r) (enc_16 (length text) @ text @ bs) (read_at line (read_string get put) k) Q"
proof (rule parsesI)
  let ?hi = "of_nat (length text div 256) :: byte" and ?lo = "of_nat (length text mod 256) :: byte"
  let ?rd = "read_string get put"
  have hl: "unat ?hi = length text div 256" "unat ?lo = length text mod 256"
    using L by (simp_all add: unat_of_nat take_bit_eq_mod)
  fix s assume s: "reading H M n r s" and a: "agrees (enc_16 (length text) @ text @ bs) (pg_src s)"
  have chunk: "consumes Q (drop (length (pg_src s)) (text @ bs)) (drop (length (text @ bs)) (pg_src s))
      (after_read line k (read_chunk True 83 get put s))"
    if "filling H M (n + 2) r True (length text) [] s" "pg_src s \<noteq> []" "agrees (text @ bs) (pg_src s)" for s
    by (rule chunk_consumes [where reader = ?rd and M = M and n = "n + 2" and r = r and t = "[]"])
      (use that hm gm L resume k in \<open>auto simp: read_string_def string_resume_def ensure_desc_def\<close>)
  have low: "consumes Q (drop (length (pg_src s)) (?lo # text @ bs)) (drop (length (?lo # text @ bs)) (pg_src s))
      (after_read line k (read_string_low get put s))"
    if f: "filling H M (n + 1) r True (256 * (length text div 256)) [] s" and "pg_src s \<noteq> []"
      and a: "agrees (?lo # text @ bs) (pg_src s)" for s
  proof -
    from that obtain c where c: "pg_src s = ?lo # c" by (cases "pg_src s") auto
    let ?s = "s\<lparr>pg_src := c, p_data_length := p_data_length s + 1, p_str_length := length text\<rparr>"
    have "p_str_length s + length text mod 256 = length text" using f by (auto simp: filling_def)
    then have "read_string_low get put s = read_yield_on 69 (read_chunk True 83 get put) ?s"
      using c hl by (simp add: read_string_low_def next_byte_def)
    moreover have "consumes Q (drop (length (pg_src ?s)) (text @ bs)) (drop (length (text @ bs)) (pg_src ?s))
      (after_read line k (read_yield_on 69 (read_chunk True 83 get put) ?s))"
      by (rule yield_consumes [where M = M and n = "n + 2" and r = r and t = "[]" and L = "length text" and counted = True, OF ne resume])
        (use f a c hm chunk in \<open>auto simp: read_string_def string_resume_def ensure_desc_def filling_def\<close>)
    ultimately show ?thesis by (simp add: c)
  qed
  have high: "consumes Q (drop (length (pg_src s)) (?hi # ?lo # text @ bs)) (drop (length (?hi # ?lo # text @ bs)) (pg_src s))
      (after_read line k (read_string_high get put s))"
    if f: "filling H M n r True L [] s" and "pg_src s \<noteq> []" and a: "agrees (?hi # ?lo # text @ bs) (pg_src s)" for s L
  proof -
    from that obtain c where c: "pg_src s = ?hi # c" by (cases "pg_src s") auto
    let ?s = "s\<lparr>pg_src := c, p_data_length := p_data_length s + 1, p_str_length := 256 * (length text div 256)\<rparr>"
    have "read_string_high get put s = read_yield_on 59 (read_string_low get put) ?s"
      using c f hl by (simp add: read_string_high_def next_byte_def filling_def)
    moreover have "consumes Q (drop (length (pg_src ?s)) (?lo # text @ bs)) (drop (length (?lo # text @ bs)) (pg_src ?s))
      (after_read line k (read_yield_on 59 (read_string_low get put) ?s))"
      by (rule yield_consumes [where M = M and n = "n + 1" and r = r and t = "[]" and L = "256 * (length text div 256)" and counted = True, OF _ resume])
        (use f a c hm low in \<open>auto simp: read_string_def string_resume_def ensure_desc_def filling_def\<close>)
    ultimately show ?thesis by (simp add: c)
  qed
  obtain s' where e: "read_string get put s = read_yield_on 53 (read_string_high get put) s'"
    and s': "filling H M n r True (p_str_length s') [] s'" "pg_src s' = pg_src s"
    unfolding read_string_def by (rule ensure_desc_new [OF hm gm s, of "string_resume get put" True])
      (simp add: string_resume_def)
  have e16: "enc_16 (length text) @ text @ bs = ?hi # ?lo # text @ bs" by (simp add: enc_16_def del: of_nat_mod)
  have "consumes Q (drop (length (pg_src s')) (?hi # ?lo # text @ bs)) (drop (length (?hi # ?lo # text @ bs)) (pg_src s'))
      (after_read line k (read_yield_on 53 (read_string_high get put) s'))"
    by (rule yield_consumes [where M = M and n = n and r = r and t = "[]" and L = "p_str_length s'" and counted = True, OF _ resume])
      (use s' a e16 hm high in \<open>auto simp: read_string_def string_resume_def ensure_desc_def\<close>)
  with e s'(2) show "consumes Q (drop (length (pg_src s)) (enc_16 (length text) @ text @ bs))
     (drop (length (enc_16 (length text) @ text @ bs)) (pg_src s)) (read_at line (read_string get put) k s)"
    by (simp only: e16 read_at_after)
qed

lemma parses_data:
  assumes hm: "has M" and gm: "get M = None" and L: "length text \<le> 2 ^ 31" and ne: "text \<noteq> []"
    and resume: "parser_resume line = read_resume line (read_data get put) k"
    and k: "\<And>d. desc_inv d \<Longrightarrow> d_data_ptr d \<noteq> NULL \<Longrightarrow> desc_data d = text \<Longrightarrow>
      parses (reading H (put (Some d) M) n r) bs k Q"
  shows "parses (\<lambda>s. reading H M n r s \<and> p_str_length s = length text) (text @ bs) (read_at line (read_data get put) k) Q"
proof (rule parsesI)
  fix s assume s: "reading H M n r s \<and> p_str_length s = length text" and a: "agrees (text @ bs) (pg_src s)"
  have chunk: "consumes Q (drop (length (pg_src s)) (text @ bs)) (drop (length (text @ bs)) (pg_src s))
      (after_read line k (read_chunk False 147 get put s))"
    if "filling H M n r False (length text) [] s" "pg_src s \<noteq> []" "agrees (text @ bs) (pg_src s)" for s
    by (rule chunk_consumes [where reader = "read_data get put" and M = M and n = n and r = r and t = "[]"])
      (use that hm gm L resume k in \<open>auto simp: read_data_def data_resume_def ensure_desc_def\<close>)
  obtain s' where e: "read_data get put s = read_yield_on 136 (read_chunk False 147 get put) s'"
    and s': "filling H M n r False (length text) [] s'" "pg_src s' = pg_src s"
    unfolding read_data_def by (rule ensure_desc_new [OF hm gm conjunct1 [OF s], of "data_resume get put" False])
      (use s in \<open>simp add: data_resume_def\<close>)
  have "consumes Q (drop (length (pg_src s')) (text @ bs)) (drop (length (text @ bs)) (pg_src s'))
      (after_read line k (read_yield_on 136 (read_chunk False 147 get put) s'))"
    by (rule yield_consumes [where M = M and n = n and r = r and t = "[]" and L = "length text" and counted = False, OF _ resume])
      (use s' a ne hm chunk in \<open>auto simp: read_data_def data_resume_def ensure_desc_def\<close>)
  with e s'(2) show "consumes Q (drop (length (pg_src s)) (text @ bs)) (drop (length (text @ bs)) (pg_src s))
     (read_at line (read_data get put) k s)"
    by (simp only: read_at_after)
qed

text \<open>A string that is there under a condition.\<close>

lemma parses_optional:
  assumes kk: "\<And>s. kk s = (if c (pg_msg s) then read_at line (read_string get put) k s else k s)"
    and hm: "c M \<Longrightarrow> has M \<and> get M = None \<and> length text < 65536 \<and> text @ bs \<noteq> []"
    and resume: "parser_resume line = read_resume line (read_string get put) k"
    and k: "\<And>d. c M \<Longrightarrow> desc_inv d \<Longrightarrow> d_data_ptr d \<noteq> NULL \<Longrightarrow> desc_data d = text \<Longrightarrow>
      parses (reading H (put (Some d) M) (n + 2 + length text) r) bs k Q"
    and no: "\<not> c M \<Longrightarrow> parses (reading H M n r) bs k Q"
  shows "parses (reading H M n r) ((if c M then enc_16 (length text) @ text else []) @ bs) kk Q"
proof (cases "c M")
  case True
  have "parses (reading H M n r) (enc_16 (length text) @ text @ bs) (read_at line (read_string get put) k) Q"
    by (rule parses_string) (use True hm resume k in auto)
  with True show ?thesis by (simp add: parses_def kk reading_def)
next
  case False
  with no show ?thesis by (simp add: parses_def kk reading_def)
qed

end

section \<open>Numbers of two bytes\<close>

lemma enc_16_bytes:
  assumes "i < 65536"
  shows "unat (of_nat (i div 256) :: byte) = i div 256" and "unat (of_nat (i mod 256) :: byte) = i mod 256"
    and "to_u16 (256 * (i div 256) + i mod 256) = i"
  using assms by (simp_all add: unat_of_nat take_bit_eq_mod to_u16_def)

lemma parses_u16:
  assumes i: "i < 65536" and bl: "blocks_of (fh (i div 256) M) = blocks_of M"
      "blocks_of (fl (i mod 256) (fh (i div 256) M)) = blocks_of M" and k: "parses (reading H (fl (i mod 256) (fh (i div 256) M)) (n + 2) r) bs k Q"
    and resume: "parser_resume line = byte_into fl k"
  shows "parses (ready H M n r) (enc_16 i @ bs) (byte_into fh (yield_on line (byte_into fl k))) Q"
proof -
  note b = enc_16_bytes [OF i]
  have "parses (ready H (fh (i div 256) M) (Suc n) r) (of_nat (i mod 256) # bs) (byte_into fl k) Q"
    by (rule parses_byte) (use k b(2) bl in \<open>simp_all add: numeral_2_eq_2\<close>)
  then have "parses (reading H (fh (i div 256) M) (Suc n) r) (of_nat (i mod 256) # bs) (yield_on line (byte_into fl k)) Q"
    by (rule parses_yield) (simp_all add: resume)
  then have "parses (ready H M n r) (of_nat (i div 256) # of_nat (i mod 256) # bs) (byte_into fh (yield_on line (byte_into fl k))) Q"
    by (intro parses_byte) (simp_all only: b bl(1))
  then show ?thesis by (simp add: enc_16_def del: of_nat_mod)
qed

end
