(* ===== verification/Iotc_Mqtt_Roundtrip.thy ===== *)
theory Iotc_Mqtt_Roundtrip
  imports Iotc_Mqtt_Chunks
begin

text \<open>
  What the serialiser writes the parser reads: the pieces of the coroutine are shown to keep the contract of
  \<^verbatim>\<open>Iotc_Mqtt_Chunks\<close> from the last one back to the first one, and the messages that go over the wire come
  out with the same contents.
\<close>

section \<open>The fields that hold descriptors\<close>

lemma blocks_of_connect: "mm_type M = IOTC_MQTT_TYPE_CONNECT \<Longrightarrow> blocks_of M = connect_blocks (connect_of M)"
  by (cases "mm_body M") (simp_all add: blocks_of_def body_blocks_def connect_of_def connect_blocks_def zeroed_connect_def)

lemma blocks_of_publish:
  "mm_type M = IOTC_MQTT_TYPE_PUBLISH \<Longrightarrow>
   blocks_of M = desc_blocks (snd (snd (publish_of M))) + desc_blocks (fst (publish_of M))"
  by (cases "mm_body M") (simp_all add: blocks_of_def body_blocks_def publish_of_def)

lemma blocks_of_topics:
  "mm_type M = IOTC_MQTT_TYPE_SUBSCRIBE \<or> mm_type M = IOTC_MQTT_TYPE_SUBACK \<Longrightarrow>
   blocks_of M = (case snd (topics_of M) of None \<Rightarrow> {#} | Some t \<Rightarrow> desc_blocks (tp_name t) + {#tp_self t#})"
  by (cases "mm_body M") (auto simp: blocks_of_def body_blocks_def topics_of_def split: option.split)

lemma blocks_of_other:
  "mm_type M \<notin> {IOTC_MQTT_TYPE_CONNECT, IOTC_MQTT_TYPE_PUBLISH, IOTC_MQTT_TYPE_SUBSCRIBE, IOTC_MQTT_TYPE_SUBACK}
   \<or> mm_body M = No_body \<Longrightarrow> blocks_of M = {#}"
  by (cases "mm_type M") (auto simp: blocks_of_def body_blocks_def)

lemma blocks_of_length [simp]: "blocks_of (M\<lparr>mm_remaining_length := x\<rparr>) = blocks_of M"
  by (simp add: blocks_of_def)

lemma heap_ok_same: "blocks_of M = blocks_of M' \<Longrightarrow> heap_ok H M m \<Longrightarrow> heap_ok H M' m"
  by (simp add: heap_ok_def)

lemma body_simps [simp]:
  "connect_of (on_connect f m) = f (connect_of m)" "mm_type (on_connect f m) = mm_type m"
  "publish_of (on_publish g m) = g (publish_of m)" "mm_type (on_publish g m) = mm_type m"
  "mm_qos (on_publish g m) = mm_qos m" "id_of (on_id h m) = h (id_of m)"
  "topics_of (on_topics k m) = k (topics_of m)" "mm_type (on_topics k m) = mm_type m"
  "mm_type (on_id h m) = mm_type m"
  by (simp_all add: on_connect_def connect_of_def on_publish_def publish_of_def on_id_def id_of_def
      on_topics_def topics_of_def split: prod.split)

lemma on_twice:
  "on_connect f (on_connect f1 m) = on_connect (\<lambda>x. f (f1 x)) m" "on_publish g (on_publish g1 m) = on_publish (\<lambda>x. g (g1 x)) m"
  "on_id h (on_id h1 m) = on_id (\<lambda>x. h (h1 x)) m" "on_topics k (on_topics k1 m) = on_topics (\<lambda>x. k (k1 x)) m"
  by (simp_all add: on_connect_def connect_of_def on_publish_def publish_of_def on_id_def id_of_def
      on_topics_def topics_of_def split: prod.split)

lemma on_eq:
  "f (connect_of m) = f1 (connect_of m) \<Longrightarrow> on_connect f m = on_connect f1 m"
  "g (publish_of m) = g1 (publish_of m) \<Longrightarrow> on_publish g m = on_publish g1 m"
  "h (id_of m) = h1 (id_of m) \<Longrightarrow> on_id h m = on_id h1 m"
  "k (topics_of m) = k1 (topics_of m) \<Longrightarrow> on_topics k m = on_topics k1 m"
  by (simp_all add: on_connect_def on_publish_def on_id_def on_topics_def)

interpretation protocol_name: descriptor_field "\<lambda>m. cn_protocol_name (connect_of m)"
  "\<lambda>d. on_connect (\<lambda>c. c\<lparr>cn_protocol_name := d\<rparr>)" "\<lambda>m. mm_type m = IOTC_MQTT_TYPE_CONNECT"
  by unfold_locales (simp_all add: blocks_of_connect connect_blocks_def on_twice)

interpretation client_id: descriptor_field "\<lambda>m. cn_client_id (connect_of m)"
  "\<lambda>d. on_connect (\<lambda>c. c\<lparr>cn_client_id := d\<rparr>)" "\<lambda>m. mm_type m = IOTC_MQTT_TYPE_CONNECT"
  by unfold_locales (simp_all add: blocks_of_connect connect_blocks_def on_twice)

interpretation will_topic: descriptor_field "\<lambda>m. cn_will_topic (connect_of m)"
  "\<lambda>d. on_connect (\<lambda>c. c\<lparr>cn_will_topic := d\<rparr>)" "\<lambda>m. mm_type m = IOTC_MQTT_TYPE_CONNECT"
  by unfold_locales (simp_all add: blocks_of_connect connect_blocks_def on_twice)

interpretation will_message: descriptor_field "\<lambda>m. cn_will_message (connect_of m)"
  "\<lambda>d. on_connect (\<lambda>c. c\<lparr>cn_will_message := d\<rparr>)" "\<lambda>m. mm_type m = IOTC_MQTT_TYPE_CONNECT"
  by unfold_locales (simp_all add: blocks_of_connect connect_blocks_def on_twice)

interpretation username: descriptor_field "\<lambda>m. cn_username (connect_of m)"
  "\<lambda>d. on_connect (\<lambda>c. c\<lparr>cn_username := d\<rparr>)" "\<lambda>m. mm_type m = IOTC_MQTT_TYPE_CONNECT"
  by unfold_locales (simp_all add: blocks_of_connect connect_blocks_def on_twice)

interpretation password: descriptor_field "\<lambda>m. cn_password (connect_of m)"
  "\<lambda>d. on_connect (\<lambda>c. c\<lparr>cn_password := d\<rparr>)" "\<lambda>m. mm_type m = IOTC_MQTT_TYPE_CONNECT"
  by unfold_locales (simp_all add: blocks_of_connect connect_blocks_def on_twice)

interpretation topic_name: descriptor_field "\<lambda>m. fst (publish_of m)"
  "\<lambda>d. on_publish (\<lambda>(t, i, c). (d, i, c))" "\<lambda>m. mm_type m = IOTC_MQTT_TYPE_PUBLISH"
  by unfold_locales (auto simp: blocks_of_publish on_twice case_prod_beta intro!: on_eq(2))

interpretation content: descriptor_field "\<lambda>m. snd (snd (publish_of m))"
  "\<lambda>d. on_publish (\<lambda>(t, i, c). (t, i, d))" "\<lambda>m. mm_type m = IOTC_MQTT_TYPE_PUBLISH"
  by unfold_locales (auto simp: blocks_of_publish on_twice case_prod_beta intro!: on_eq(2))

interpretation topic_filter: descriptor_field "\<lambda>m. tp_name (the (snd (topics_of m)))"
  "\<lambda>d. on_topics (\<lambda>(i, t). (i, map_option (\<lambda>t. t\<lparr>tp_name := d\<rparr>) t))"
  "\<lambda>m. mm_type m = IOTC_MQTT_TYPE_SUBSCRIBE \<and> snd (topics_of m) \<noteq> None"
  by unfold_locales (auto simp: blocks_of_topics on_twice case_prod_beta option.map_comp o_def intro!: on_eq(4))

section \<open>The header\<close>

definition digits :: "heap_base \<Rightarrow> mqtt_message \<Rightarrow> nat \<Rightarrow> nat \<Rightarrow> nat \<Rightarrow> parsing \<Rightarrow> bool" where
  "digits H M x mul j s \<longleftrightarrow> pg_msg s = M \<and> p_data_length s = 1 \<and> p_remaining_length s = x \<and> p_multiplier s = mul
     \<and> p_digit_bytes s = j \<and> heap_ok H M (pg_mem s) \<and> p_read_cs s \<le> 2"

lemma parses_digits:
  assumes "n < 128 ^ (5 - j)" and "1 \<le> j" and "j \<le> 4"
    and k: "parses (reading H (M\<lparr>mm_remaining_length := to_u32 (x + n * mul)\<rparr>) 2 (x + n * mul)) bs parse_body Q"
  shows "parses (\<lambda>s. digits H M x mul j s \<and> pg_src s \<noteq> []) (enc_remaining n @ bs) header_digit Q"
  using assms
proof (induction n arbitrary: x mul j rule: enc_remaining.induct)
  case (1 n)
  show ?case
  proof (rule parsesI)
    fix s assume d: "digits H M x mul j s \<and> pg_src s \<noteq> []" and a: "agrees (enc_remaining n @ bs) (pg_src s)"
    then obtain b c where c: "pg_src s = b # c" by (cases "pg_src s") auto
    show "consumes Q (drop (length (pg_src s)) (enc_remaining n @ bs))
      (drop (length (enc_remaining n @ bs)) (pg_src s)) (header_digit s)"
    proof (cases "n < 128")
      case True
      then have e: "enc_remaining n = [of_nat n]" by (simp add: enc_remaining.simps [of n])
      with a c have b: "b = of_nat n" and ac: "agrees bs c" by auto
      from True have ub: "unat (of_nat n :: byte) = n" by (simp add: unat_of_nat take_bit_eq_mod)
      let ?s = "on_msg (\<lambda>m. m\<lparr>mm_remaining_length := to_u32 (x + n * mul)\<rparr>)
        (s\<lparr>p_remaining_length := x + n * mul, p_multiplier := mul * 128, pg_src := c, p_data_length := 2\<rparr>)"
      have hb: "byte_at_hand s = n" "n mod 128 = n" using True c b ub by (simp_all add: byte_at_hand_def)
      have f: "p_remaining_length s = x" "p_multiplier s = mul" "p_data_length s = 1" "tl (pg_src s) = c" using d c by (simp_all add: digits_def)
      have "header_digit s = parse_body ?s"
        by (subst header_digit.simps) (use True in \<open>simp add: Let_def hb f header_done_def byte_at_hand_def on_msg_def c ub b numeral_2_eq_2\<close>)
      moreover have "reading H (M\<lparr>mm_remaining_length := to_u32 (x + n * mul)\<rparr>) 2 (x + n * mul) ?s"
        using d by (auto simp: digits_def reading_def on_msg_def intro: heap_ok_same [of M])
      ultimately show ?thesis using parsesD [OF 1(5), of ?s] ac e c by (simp add: on_msg_def)
    next
      case False
      then have e: "enc_remaining n = of_nat (n mod 128 + 128) # enc_remaining (n div 128)" by (simp add: enc_remaining.simps [of n])
      with a c have b: "b = of_nat (n mod 128 + 128)" and ac: "agrees (enc_remaining (n div 128) @ bs) c" by (auto simp del: of_nat_add)
      have ub: "unat b = n mod 128 + 128" unfolding b by (simp add: unat_of_nat take_bit_eq_mod del: of_nat_add)
      from False 1(2-4) have j: "j < 4" by (cases "j = 4") auto
      let ?x = "x + n mod 128 * mul"
      let ?s = "s\<lparr>p_remaining_length := ?x, p_multiplier := mul * 128, pg_src := c, p_digit_bytes := Suc j\<rparr>"
      have m: "b mod 128 = n mod 128" if "b = n mod 128 + 128" for b using that by simp
      have hb: "byte_at_hand s = n mod 128 + 128" using c ub by (simp add: byte_at_hand_def)
      have f: "p_remaining_length s = x" "p_multiplier s = mul" "p_digit_bytes s = j" "tl (pg_src s) = c" using d c by (simp_all add: digits_def)
      have h: "header_digit s = yield_on 215 header_digit ?s"
        using j unfolding header_digit.simps [of s] Let_def hb f m [OF refl] yield_on_def by simp
      have xn: "?x + n div 128 * (mul * 128) = x + n * mul"
      proof -
        have "n * mul = (n mod 128 + 128 * (n div 128)) * mul" by (simp only: mod_mult_div_eq)
        then show ?thesis by (simp only: add_mult_distrib add_mult_distrib2 ac_simps)
      qed
      have "n div 128 < 128 ^ (5 - Suc j)"
      proof -
        have "128 ^ (5 - j) = 128 * (128::nat) ^ (5 - Suc j)" using j by (simp add: Suc_diff_Suc flip: power_Suc)
        with 1(2) show ?thesis by (simp add: less_mult_imp_div_less mult.commute)
      qed
      then have "parses (\<lambda>s. digits H M ?x (mul * 128) (Suc j) s \<and> pg_src s \<noteq> []) (enc_remaining (n div 128) @ bs) header_digit Q"
        using 1(1) [OF False, of "Suc j" ?x "mul * 128"] 1(5) j by (simp add: xn)
      then have "parses (digits H M ?x (mul * 128) (Suc j)) (enc_remaining (n div 128) @ bs) (yield_on 215 header_digit) Q"
        by (rule parses_yield_gen) (simp_all add: parser_resume_def digits_def enc_remaining.simps [of "n div 128"])
      from parsesD [OF this, of ?s] d ac c h e show ?thesis by (simp add: digits_def)
    qed
  qed
qed

definition fresh_parser :: "heap_base \<Rightarrow> parsing \<Rightarrow> bool" where
  "fresh_parser H s \<longleftrightarrow> p_cs s \<le> 2 \<and> p_read_cs s \<le> 2 \<and> pg_msg s = zeroed_message \<and> heap_ok H zeroed_message (pg_mem s)"

lemma parses_header:
  assumes "n \<le> 268435455"
    and k: "parses (reading H ((set_common_value (unat b) zeroed_message)\<lparr>mm_remaining_length := to_u32 n\<rparr>) 2 n) bs parse_body Q"
  shows "parses (fresh_parser H) (b # enc_remaining n @ bs) iotc_mqtt_parser_execute Q"
proof -
  let ?P = "\<lambda>s :: parsing. p_read_cs s \<le> 2 \<and> pg_msg s = zeroed_message \<and> heap_ok H zeroed_message (pg_mem s)"
  let ?M = "set_common_value (unat b) zeroed_message"
  have "parses (\<lambda>s. digits H ?M 0 1 1 s \<and> pg_src s \<noteq> []) (enc_remaining n @ bs) header_digit Q"
    by (rule parses_digits) (use assms in auto)
  then have d: "parses (digits H ?M 0 1 1) (enc_remaining n @ bs) (yield_on 215 header_digit) Q"
    by (rule parses_yield_gen) (simp_all add: parser_resume_def digits_def enc_remaining.simps [of n])
  have "parses (\<lambda>s. ?P s \<and> pg_src s \<noteq> []) (b # enc_remaining n @ bs) header_byte Q"
  proof (rule parsesI)
    fix s assume s: "?P s \<and> pg_src s \<noteq> []" and a: "agrees (b # enc_remaining n @ bs) (pg_src s)"
    then obtain c where c: "pg_src s = b # c" by (cases "pg_src s") auto
    let ?s = "(on_msg (set_common_value (unat b)) s)
            \<lparr>p_digit_bytes := 1, p_multiplier := 1, p_remaining_length := 0, p_data_length := 1, pg_src := c\<rparr>"
    have "heap_ok H ?M (pg_mem s)" using s
      by (auto intro: heap_ok_same [of zeroed_message] simp: blocks_of_other set_common_value_def zeroed_message_def)
    with parsesD [OF d, of ?s] s a c
    show "consumes Q (drop (length (pg_src s)) (b # enc_remaining n @ bs))
      (drop (length (b # enc_remaining n @ bs)) (pg_src s)) (header_byte s)"
      by (simp add: header_byte_def byte_at_hand_def digits_def on_msg_def)
  qed
  then have y: "parses ?P (b # enc_remaining n @ bs) (yield_on 200 header_byte) Q"
    by (rule parses_yield_gen) (simp_all add: parser_resume_def)
  show ?thesis
  proof (rule parsesI)
    fix s assume s: "fresh_parser H s" and a: "agrees (b # enc_remaining n @ bs) (pg_src s)"
    have "iotc_mqtt_parser_execute s = yield_on 200 header_byte (s\<lparr>pg_local := IOTC_STATE_OK\<rparr>)"
      using s by (simp add: iotc_mqtt_parser_execute_def parser_resume_def fresh_parser_def)
    with parsesD [OF y, of "s\<lparr>pg_local := IOTC_STATE_OK\<rparr>"] s a
    show "consumes Q (drop (length (pg_src s)) (b # enc_remaining n @ bs))
      (drop (length (b # enc_remaining n @ bs)) (pg_src s)) (iotc_mqtt_parser_execute s)"
      by (simp add: fresh_parser_def)
  qed
qed

section \<open>The bodies\<close>

definition text_of :: "data_desc option \<Rightarrow> byte list" where
  "text_of d = (case d of None \<Rightarrow> [] | Some d \<Rightarrow> desc_data d)"

lemma text_of_simps [simp]: "text_of None = []" "text_of (Some d) = desc_data d"
  by (simp_all add: text_of_def)

definition settled :: "heap_base \<Rightarrow> (mqtt_message \<Rightarrow> bool) \<Rightarrow> parsing \<Rightarrow> bool" where
  "settled H R s \<longleftrightarrow> R (pg_msg s) \<and> p_cs s = 1 \<and> p_read_cs s \<le> 2
     \<and> heap_ok H (pg_msg s) (pg_mem s)"

lemma parses_end: "R M \<Longrightarrow> parses (reading H M n r) [] (parser_exit IOTC_STATE_OK) (settled H R)"
  by (rule parses_exit) (simp add: settled_def reading_def)

lemma enc_16_not_nil [simp]: "enc_16 i \<noteq> []"
  by (simp add: enc_16_def)

subsection \<open>Publish\<close>

lemma parses_content:
  assumes ty: "mm_type M = IOTC_MQTT_TYPE_PUBLISH" and "n \<le> r + 2" and "r + 2 - n = length text" and "r < 2 ^ 30" and "snd (snd (publish_of M)) = None"
    and R: "\<And>d. desc_data d = text \<Longrightarrow> R (on_publish (\<lambda>(t, i, c). (t, i, Some d)) M)" and "text = [] \<Longrightarrow> R M"
  shows "parses (reading H M n r) text publish_content (settled H R)"
proof (rule parsesI)
  fix s assume s: "reading H M n r s" and a: "agrees text (pg_src s)"
  have l: "to_size (int (p_remaining_length s + 2) - int (p_data_length s)) = length text"
    using s assms(2-4) by (simp add: reading_def of_nat_diff [symmetric] to_size_int del: of_nat_diff of_nat_add)
  let ?s = "s\<lparr>p_str_length := length text\<rparr>"
  show "consumes (settled H R) (drop (length (pg_src s)) text) (drop (length text) (pg_src s)) (publish_content s)"
  proof (cases "text = []")
    case True
    with parsesD [OF parses_end [where R = R, OF assms(7) [OF True]], of H n r ?s] s a l show ?thesis by (simp add: publish_content_def)
  next
    case False
    have "parses (\<lambda>s. reading H M n r s \<and> p_str_length s = length text) (text @ []) (read_at 330 read_content (parser_exit IOTC_STATE_OK)) (settled H R)"
      unfolding read_content_def
      by (rule content.parses_data)
        (use assms False in \<open>auto simp: parser_resume_def read_content_def intro: parses_end\<close>)
    from parsesD [OF this, of ?s] s a l False show ?thesis unfolding publish_content_def by (simp add: Let_def)
  qed
qed

lemma parses_publish:
  assumes "mm_type M = IOTC_MQTT_TYPE_PUBLISH" and "publish_of M = (None, 0, None)" and "length topic < 65536"
    and "i < 65536" and "r = 2 + length topic + (if mm_qos M > 0 then 2 else 0) + length text" and "r < 2 ^ 30"
    and "mm_qos M > 0 \<or> text \<noteq> []"
    and R: "\<And>t c. desc_data t = topic \<Longrightarrow> text_of c = text \<Longrightarrow>
      R (on_publish (\<lambda>x. (Some t, (if mm_qos M > 0 then i else 0), c)) M)"
  shows "parses (reading H M 2 r) (enc_16 (length topic) @ topic @ (if mm_qos M > 0 then enc_16 i else []) @ text)
    parse_body (settled H R)"
proof -
  have after: "parses (ready H M1 (2 + 2 + length topic) r) ((if mm_qos M > 0 then enc_16 i else []) @ text) publish_after_topic (settled H R)"
    if t: "desc_data t = topic" and M1: "M1 = on_publish (\<lambda>(u, i, c). (Some t, i, c)) M" for t M1
  proof (cases "mm_qos M > 0")
    case True
    define M2 where "M2 = on_publish (\<lambda>(t, j, c). (t, to_u16 (j + i mod 256), c)) (on_publish (\<lambda>(t, j, c). (t, 256 * (i div 256), c)) M1)"
    have p2: "publish_of M2 = (Some t, i, None)" using enc_16_bytes [OF assms(4)] assms(2) by (simp add: M2_def M1)
    have e2: "M2 = on_publish (\<lambda>x. (Some t, i, None)) M" unfolding M2_def M1 on_twice
      by (rule on_eq) (use enc_16_bytes [OF assms(4)] assms(2) in simp)
    have "parses (reading H M2 (2 + 2 + length topic + 2) r) text publish_content (settled H R)"
      by (rule parses_content)
        (use True assms(1,5-7) R [OF t, of None] R [OF t, of "Some d" for d] p2 in \<open>auto simp: e2 on_twice\<close>)
    then have "parses (ready H M1 (2 + 2 + length topic) r) (enc_16 i @ text) publish_id_high (settled H R)"
      unfolding publish_id_high_def publish_id_low_def M2_def
      by (intro parses_u16) (auto simp: assms(1,4) parser_resume_def publish_id_low_def blocks_of_publish M1 case_prod_beta)
    with True show ?thesis by (simp add: parses_def publish_after_topic_def ready_def reading_def M1)
  next
    case False
    have after_topic: "R (on_publish (\<lambda>(t, i, c). (t, i, Some d)) M1)" if "desc_data d = text" for d
    proof -
      have "on_publish (\<lambda>(t, i, c). (t, i, Some d)) M1 = on_publish (\<lambda>x. (Some t, 0, Some d)) M"
        unfolding M1 on_twice by (rule on_eq) (simp add: assms(2))
      with R [OF t, of "Some d"] False that show ?thesis by simp
    qed
    have "parses (reading H M1 (2 + 2 + length topic) r) text publish_content (settled H R)"
      by (rule parses_content)
        (use False assms(1,2,5-7) after_topic in \<open>auto simp: M1\<close>)
    with False show ?thesis by (simp add: parses_def publish_after_topic_def ready_def reading_def M1)
  qed
  have "parses (reading H M 2 r) (enc_16 (length topic) @ topic @ (if mm_qos M > 0 then enc_16 i else []) @ text)
      publish_topic_name (settled H R)"
    unfolding publish_topic_name_def read_topic_def
    by (rule topic_name.parses_string)
      (use assms(1,2,3,7) after in \<open>auto simp: parser_resume_def read_topic_def intro!: parses_yield\<close>)
  then have "parses (reading H M 2 r) (enc_16 (length topic) @ topic @ (if mm_qos M > 0 then enc_16 i else []) @ text)
      (yield_on 306 publish_topic_name) (settled H R)"
    by (intro parses_yield parses_ready) (simp_all add: parser_resume_def enc_16_def)
  then show ?thesis using assms(1) by (simp add: parses_def parse_body_def reading_def)
qed

subsection \<open>Connack, puback and the messages without a body\<close>

lemma parses_connack:
  assumes "mm_type M = IOTC_MQTT_TYPE_CONNACK" and "code < 256" and "R (M\<lparr>mm_body := Connack_body code\<rparr>)"
  shows "parses (reading H M n r) [0, of_nat code] parse_body (settled H R)"
proof -
  have u: "unat (of_nat code :: byte) = code" using assms(2) by (simp add: unat_of_nat take_bit_eq_mod)
  have "parses (ready H M (Suc n) r) [of_nat code] connack_code_byte (settled H R)"
    unfolding connack_code_byte_def
    by (rule parses_byte) (use assms u in \<open>auto simp: blocks_of_other intro!: parses_end\<close>)
  then have "parses (reading H M (Suc n) r) [of_nat code] (yield_on 296 connack_code_byte) (settled H R)"
    by (rule parses_yield) (simp_all add: parser_resume_def)
  then have "parses (ready H M n r) [0, of_nat code] connack_unused (settled H R)"
    unfolding connack_unused_def by (intro parses_byte) simp_all
  then have "parses (reading H M n r) [0, of_nat code] (yield_on 289 connack_unused) (settled H R)"
    by (rule parses_yield) (simp_all add: parser_resume_def)
  with assms(1) show ?thesis by (simp add: parses_def parse_body_def reading_def)
qed

lemma parses_id:
  assumes "mm_type M = IOTC_MQTT_TYPE_PUBACK" and "i < 65536" and "R (M\<lparr>mm_body := Id_body i\<rparr>)"
  shows "parses (reading H M n r) (enc_16 i) parse_body (settled H R)"
proof -
  have "on_id (\<lambda>j. to_u16 (j + i mod 256)) (on_id (\<lambda>j. 256 * (i div 256)) M) = M\<lparr>mm_body := Id_body i\<rparr>"
    using enc_16_bytes [OF assms(2)] by (simp add: on_id_def id_of_def)
  then have "parses (ready H M n r) (enc_16 i @ []) (id_high_byte 343) (settled H R)"
    unfolding id_high_byte_def id_low_byte_def
    by (intro parses_u16 parses_end) (use assms in \<open>auto simp: parser_resume_def id_low_byte_def blocks_of_other\<close>)
  then have "parses (reading H M n r) (enc_16 i) (yield_on 336 (id_high_byte 343)) (settled H R)"
    by (intro parses_yield) (simp_all add: parser_resume_def)
  with assms(1) show ?thesis by (simp add: parses_def parse_body_def reading_def)
qed

lemma parses_empty:
  assumes "mm_type M \<in> {IOTC_MQTT_TYPE_PINGREQ, IOTC_MQTT_TYPE_PINGRESP, IOTC_MQTT_TYPE_DISCONNECT}" and "R M"
  shows "parses (reading H M n r) [] parse_body (settled H R)"
  using parses_end [where R = R, OF assms(2), of H n r] assms(1) by (auto simp: parses_def parse_body_def reading_def)

subsection \<open>Subscribe and suback\<close>

lemma parses_new_topicpair:
  assumes ty: "mm_type M = IOTC_MQTT_TYPE_SUBSCRIBE \<or> mm_type M = IOTC_MQTT_TYPE_SUBACK" and none: "snd (topics_of M) = None"
    and k: "\<And>p. parses (\<lambda>s. ready H (on_topics (\<lambda>(i, t). (i, Some \<lparr>tp_self = p, tp_next = NULL, tp_name = None, tp_payload = 0\<rparr>)) M) n r s) bs k Q"
  shows "parses (ready H M n r) bs (new_topicpair k) Q"
proof (rule parsesI)
  fix s assume s: "ready H M n r s" and a: "agrees bs (pg_src s)"
  obtain p m where al: "iotc_alloc sizeof_topicpair (pg_mem s) = (p, m)" by fastforce
  have h: "heap_ok H M (pg_mem s)" using s by (simp add: ready_def reading_def)
  then have p: "p \<noteq> NULL"
    by (intro alloc_granted [OF _ _ al]) (auto simp: heap_ok_def all_granted_def sizeof_topicpair_def owns_blocks_def)
  let ?M = "on_topics (\<lambda>(i, t). (i, Some \<lparr>tp_self = p, tp_next = NULL, tp_name = None, tp_payload = 0\<rparr>)) M"
  have "blocks_of ?M = add_mset p (blocks_of M)"
    using ty none blocks_of_topics [of M] blocks_of_topics [of ?M] by (simp add: case_prod_beta)
  then have m: "heap_ok H ?M m" using h owns_alloc [OF _ al] p all_granted_alloc [OF _ al] by (auto simp: heap_ok_def)
  let ?s = "on_msg (on_topics (\<lambda>(i, t). (i, Some \<lparr>tp_self = p, tp_next = NULL, tp_name = None, tp_payload = 0\<rparr>))) (s\<lparr>pg_mem := m\<rparr>)"
  show "consumes Q (drop (length (pg_src s)) bs) (drop (length bs) (pg_src s)) (new_topicpair k s)"
    using parsesD [OF k [of p], of ?s] s a al p m
    by (simp add: new_topicpair_def on_msg_def ready_def reading_def)
qed

lemma parses_topics_id:
  assumes "i < 65536" and ty: "mm_type M = IOTC_MQTT_TYPE_SUBSCRIBE \<or> mm_type M = IOTC_MQTT_TYPE_SUBACK" and "parses (ready H (on_topics (\<lambda>(j, t). (i, t)) M) (n + 2) r) bs k Q" and "bs \<noteq> []"
    and "parser_resume high = topics_id_low low k" and "parser_resume low = k"
  shows "parses (ready H M n r) (enc_16 i @ bs) (topics_id_high high (topics_id_low low k)) Q"
proof -
  have "on_topics (\<lambda>(j, t). (to_u16 (j + i mod 256), t)) (on_topics (\<lambda>(j, t). (256 * (i div 256), t)) M) = on_topics (\<lambda>(j, t). (i, t)) M"
    unfolding on_twice by (rule on_eq) (use enc_16_bytes [OF assms(1)] in \<open>simp add: case_prod_beta\<close>)
  with assms show ?thesis
    unfolding topics_id_high_def topics_id_low_def
    by (intro parses_u16 parses_yield) (auto simp: blocks_of_topics case_prod_beta)
qed

lemma parses_subscribe:
  assumes "mm_type M = IOTC_MQTT_TYPE_SUBSCRIBE" and none: "snd (topics_of M) = None" and "i < 65536" and "length topic < 65536" and "q < 256"
    and R: "\<And>p d. desc_data d = topic \<Longrightarrow>
      R (M\<lparr>mm_body := Topics_body i (Some \<lparr>tp_self = p, tp_next = NULL, tp_name = Some d, tp_payload = q\<rparr>)\<rparr>)"
  shows "parses (reading H M n r) (enc_16 i @ enc_16 (length topic) @ topic @ [of_nat q]) parse_body (settled H R)"
proof -
  have u: "unat (of_nat q :: byte) = q" using assms(5) by (simp add: unat_of_nat take_bit_eq_mod)
  let ?M1 = "on_topics (\<lambda>(j, t). (i, t)) M"
  let ?M2 = "\<lambda>p. on_topics (\<lambda>(i, t). (i, Some \<lparr>tp_self = p, tp_next = NULL, tp_name = None, tp_payload = 0\<rparr>)) ?M1"
  have qos: "parses (reading H M3 n' r) [of_nat q] (yield_on 426 subscribe_qos) (settled H R)"
    if "M3 = on_topics (\<lambda>(i, t). (i, map_option (\<lambda>t. t\<lparr>tp_name := Some d\<rparr>) t)) (?M2 p)" "desc_data d = topic" for M3 n' d p
    unfolding subscribe_qos_def
  proof (rule parses_yield, rule parses_byte)
    show "blocks_of (on_topics (\<lambda>(i, t). (i, map_option (\<lambda>t. t\<lparr>tp_payload := unat (of_nat q :: byte)\<rparr>) t)) M3) = blocks_of M3"
      using that(1) assms(1) by (simp add: blocks_of_topics case_prod_beta)
    show "parses (reading H (on_topics (\<lambda>(i, t). (i, map_option (\<lambda>t. t\<lparr>tp_payload := unat (of_nat q :: byte)\<rparr>) t)) M3) (Suc n') r) []
        (parser_exit IOTC_STATE_OK) (settled H R)"
      using R [OF that(2), of p] by (intro parses_end) (simp add: that(1) u on_topics_def topics_of_def split: prod.split)
  qed (simp_all add: parser_resume_def subscribe_qos_def)
  have "parses (ready H M n r) (enc_16 i @ enc_16 (length topic) @ topic @ [of_nat q])
      (topics_id_high 411 (topics_id_low 418 subscribe_topic)) (settled H R)"
  proof (rule parses_topics_id)
    show "parses (ready H ?M1 (n + 2) r) (enc_16 (length topic) @ topic @ [of_nat q]) subscribe_topic (settled H R)"
      unfolding subscribe_topic_def
    proof (rule parses_new_topicpair, simp add: assms(1), simp add: none case_prod_beta, rule parses_ready)
      fix p
      show "parses (reading H (?M2 p) (n + 2) r) (enc_16 (length topic) @ topic @ [of_nat q])
          (read_at 424 read_topic_filter (yield_on 426 subscribe_qos)) (settled H R)"
        unfolding read_topic_filter_def
        by (rule topic_filter.parses_string)
          (use assms(1,4) qos [OF refl] in \<open>auto simp: parser_resume_def read_topic_filter_def case_prod_beta\<close>)
    qed
  qed (use assms in \<open>auto simp: parser_resume_def\<close>)
  then have "parses (reading H M n r) (enc_16 i @ enc_16 (length topic) @ topic @ [of_nat q])
      (yield_on 404 (topics_id_high 411 (topics_id_low 418 subscribe_topic))) (settled H R)"
    by (intro parses_yield) (simp_all add: parser_resume_def)
  with assms(1) show ?thesis by (simp add: parses_def parse_body_def reading_def)
qed

lemma parses_suback:
  assumes "mm_type M = IOTC_MQTT_TYPE_SUBACK" and none: "snd (topics_of M) = None" and "i < 65536" and "q \<in> {0, 1, 2, 128}"
    and R: "\<And>p. R (M\<lparr>mm_body := Topics_body i (Some \<lparr>tp_self = p, tp_next = NULL, tp_name = None, tp_payload = q\<rparr>)\<rparr>)"
  shows "parses (reading H M n r) (enc_16 i @ [of_nat q]) parse_body (settled H R)"
proof -
  let ?M1 = "on_topics (\<lambda>(j, t). (i, t)) M"
  let ?M2 = "\<lambda>p. on_topics (\<lambda>(i, t). (i, Some \<lparr>tp_self = p, tp_next = NULL, tp_name = None, tp_payload = 0\<rparr>)) ?M1"
  let ?k = "byte_into (\<lambda>b. on_topics (\<lambda>(i, t). (i, map_option (\<lambda>t. t\<lparr>tp_payload := q\<rparr>) t))) (parser_exit IOTC_STATE_OK)"
  have "parses (ready H M n r) (enc_16 i @ [of_nat q]) (topics_id_high 444 (topics_id_low 451 suback_status_byte)) (settled H R)"
  proof (rule parses_topics_id)
    show "parses (ready H ?M1 (n + 2) r) [of_nat q] suback_status_byte (settled H R)"
      unfolding suback_status_byte_def
    proof (rule parses_new_topicpair, simp add: assms(1), simp add: none case_prod_beta, rule parsesI)
      fix p s assume s: "ready H (?M2 p) (n + 2) r s" and a: "agrees [of_nat q] (pg_src s)"
      then obtain c where c: "pg_src s = of_nat q # c" by (cases "pg_src s") (auto simp: ready_def)
      have f: "iotc_mqtt_parse_suback_response (unat (of_nat q :: byte)) = Some q"
        using assms(4) by (auto simp: iotc_mqtt_parse_suback_response_def IOTC_MQTT_SUBACK_FAILED_def)
      have "parses (ready H (?M2 p) (n + 2) r) [of_nat q] ?k (settled H R)"
      proof (rule parses_byte)
        show "blocks_of (on_topics (\<lambda>(i, t). (i, map_option (\<lambda>t. t\<lparr>tp_payload := q\<rparr>) t)) (?M2 p)) = blocks_of (?M2 p)"
          using assms(1) by (simp add: blocks_of_topics case_prod_beta)
        show "parses (reading H (on_topics (\<lambda>(i, t). (i, map_option (\<lambda>t. t\<lparr>tp_payload := q\<rparr>) t)) (?M2 p)) (Suc (n + 2)) r) []
            (parser_exit IOTC_STATE_OK) (settled H R)"
          using R [of p] by (intro parses_end) (simp add: on_topics_def topics_of_def split: prod.split)
      qed
      from parsesD [OF this, of "s\<lparr>pg_local := IOTC_STATE_OK\<rparr>"] s a
      have "consumes (settled H R) (drop (length (pg_src s)) [of_nat q]) (drop 1 (pg_src s)) (?k (s\<lparr>pg_local := IOTC_STATE_OK\<rparr>))"
        by (simp add: ready_def)
      then show "consumes (settled H R) (drop (length (pg_src s)) [of_nat q]) (drop (length [of_nat q]) (pg_src s))
         (let resp = case pg_src s of [] \<Rightarrow> 0 | b # bs \<Rightarrow> unat b
          in case iotc_mqtt_parse_suback_response resp of
               None \<Rightarrow> parser_exit IOTC_MQTT_PARSER_ERROR (s\<lparr>pg_local := IOTC_MQTT_PARSER_ERROR\<rparr>)
             | Some status \<Rightarrow>
                 byte_into (\<lambda>b. on_topics (\<lambda>(i, t). (i, map_option (\<lambda>t. t\<lparr>tp_payload := status\<rparr>) t)))
                   (parser_exit IOTC_STATE_OK) (s\<lparr>pg_local := IOTC_STATE_OK\<rparr>))"
        unfolding Let_def c list.case f option.case by simp
    qed
  qed (use assms in \<open>auto simp: parser_resume_def\<close>)
  then have "parses (reading H M n r) (enc_16 i @ [of_nat q])
      (yield_on 437 (topics_id_high 444 (topics_id_low 451 suback_status_byte))) (settled H R)"
    by (intro parses_yield) (simp_all add: parser_resume_def)
  with assms(1) show ?thesis by (simp add: parses_def parse_body_def reading_def)
qed

subsection \<open>Connect\<close>

text \<open>The first \<open>j\<close> of the five strings behind the fixed part have been read; a string that is not there is not compared.\<close>

definition filled :: "nat \<Rightarrow> connect_fields \<Rightarrow> connect_fields \<Rightarrow> bool" where
  "filled j c0 c \<longleftrightarrow> text_of (cn_protocol_name c) = text_of (cn_protocol_name c0)
     \<and> cn_protocol_version c = cn_protocol_version c0 \<and> cn_clean_session c = cn_clean_session c0
     \<and> cn_will c = cn_will c0 \<and> cn_will_qos c = cn_will_qos c0 \<and> cn_will_retain c = cn_will_retain c0
     \<and> cn_password_follows c = cn_password_follows c0 \<and> cn_username_follows c = cn_username_follows c0
     \<and> cn_keepalive c = cn_keepalive c0
     \<and> (if 1 \<le> j then text_of (cn_client_id c) = text_of (cn_client_id c0) else cn_client_id c = None)
     \<and> (if 2 \<le> j then cn_will c0 = 0 \<or> text_of (cn_will_topic c) = text_of (cn_will_topic c0) else cn_will_topic c = None)
     \<and> (if 3 \<le> j then cn_will c0 = 0 \<or> text_of (cn_will_message c) = text_of (cn_will_message c0) else cn_will_message c = None)
     \<and> (if 4 \<le> j then cn_username_follows c0 = 0 \<or> text_of (cn_username c) = text_of (cn_username c0) else cn_username c = None)
     \<and> (if 5 \<le> j then cn_password_follows c0 = 0 \<or> text_of (cn_password c) = text_of (cn_password c0) else cn_password c = None)"

definition enc_text :: "data_desc option \<Rightarrow> byte list" where
  "enc_text d = enc_16 (length (text_of d)) @ text_of d"

text \<open>The strings are short and the last one that is there is not empty.\<close>

definition connect_strings_ok :: "connect_fields \<Rightarrow> bool" where
  "connect_strings_ok c \<longleftrightarrow> length (text_of (cn_protocol_name c)) < 65536 \<and> length (text_of (cn_client_id c)) < 65536
     \<and> length (text_of (cn_will_topic c)) < 65536 \<and> length (text_of (cn_will_message c)) < 65536
     \<and> length (text_of (cn_username c)) < 65536 \<and> length (text_of (cn_password c)) < 65536
     \<and> text_of (if cn_password_follows c \<noteq> 0 then cn_password c else if cn_username_follows c \<noteq> 0 then cn_username c
                else if cn_will c \<noteq> 0 then cn_will_message c else cn_client_id c) \<noteq> []"

lemma on_connect_body [simp]:
  "on_connect f (M\<lparr>mm_body := Connect_body c\<rparr>) = M\<lparr>mm_body := Connect_body (f c)\<rparr>"
  "connect_of (M\<lparr>mm_body := Connect_body c\<rparr>) = c"
  by (simp_all add: on_connect_def connect_of_def)

lemma enc_text_not_nil [simp]: "enc_text d \<noteq> []"
  by (simp add: enc_text_def)

lemma parses_connect_strings:
  assumes ty: "mm_type M = IOTC_MQTT_TYPE_CONNECT" and ok: "connect_strings_ok c0" and R: "\<And>c. filled 5 c0 c \<Longrightarrow> R (M\<lparr>mm_body := Connect_body c\<rparr>)"
    and c: "filled 0 c0 c"
  shows "parses (reading H (M\<lparr>mm_body := Connect_body c\<rparr>) n r)
    (enc_text (cn_client_id c0) @ (if cn_will c0 \<noteq> 0 then enc_text (cn_will_topic c0) @ enc_text (cn_will_message c0) else [])
     @ (if cn_username_follows c0 \<noteq> 0 then enc_text (cn_username c0) else [])
     @ (if cn_password_follows c0 \<noteq> 0 then enc_text (cn_password c0) else []))
    (read_at 268 read_client_id connect_will_topic) (settled H R)"
proof -
  let ?m = "\<lambda>c. M\<lparr>mm_body := Connect_body c\<rparr>"
  let ?pw = "if cn_password_follows c0 \<noteq> 0 then enc_text (cn_password c0) else []"
  let ?un = "(if cn_username_follows c0 \<noteq> 0 then enc_text (cn_username c0) else []) @ ?pw"
  let ?wm = "(if cn_will c0 \<noteq> 0 then enc_text (cn_will_message c0) else []) @ ?un"
  let ?wt = "(if cn_will c0 \<noteq> 0 then enc_text (cn_will_topic c0) else []) @ ?wm"
  note sizes = ok [unfolded connect_strings_ok_def]
  have pw: "parses (reading H (?m c) n r) ?pw connect_password (settled H R)" if "filled 4 c0 c" for c n
  proof -
    have e: "cn_password_follows c = cn_password_follows c0" using that by (simp add: filled_def)
    have "parses (reading H (?m c) n r) ((if cn_password_follows (connect_of (?m c)) \<noteq> 0
        then enc_16 (length (text_of (cn_password c0))) @ text_of (cn_password c0) else []) @ []) connect_password (settled H R)"
      by (rule password.parses_optional [where line = 283 and k = "parser_exit IOTC_STATE_OK"])
        (use that ty sizes in \<open>auto simp: connect_password_def read_password_def parser_resume_def filled_def intro!: parses_end R\<close>)
    then show ?thesis unfolding enc_text_def e on_connect_body append_Nil2 .
  qed
  have un: "parses (reading H (?m c) n r) (?un) connect_username (settled H R)" if "filled 3 c0 c" for c n
  proof -
    have e: "cn_username_follows c = cn_username_follows c0" using that by (simp add: filled_def)
    have "parses (reading H (?m c) n r) ((if cn_username_follows (connect_of (?m c)) \<noteq> 0
        then enc_16 (length (text_of (cn_username c0))) @ text_of (cn_username c0) else []) @ ?pw) connect_username (settled H R)"
    proof (rule username.parses_optional [where line = 279 and k = connect_password])
      show "parses (reading H (?m c) n r) ?pw connect_password (settled H R)" if "\<not> cn_username_follows (connect_of (?m c)) \<noteq> 0"
        by (rule pw) (use that e \<open>filled 3 c0 c\<close> in \<open>simp add: filled_def\<close>)
      show "parses (reading H (on_connect (\<lambda>c. c\<lparr>cn_username := Some d\<rparr>) (?m c)) (n + 2 + length (text_of (cn_username c0))) r) ?pw connect_password (settled H R)"
        if "desc_data d = text_of (cn_username c0)" for d
        unfolding on_connect_body by (rule pw) (use that \<open>filled 3 c0 c\<close> in \<open>simp add: filled_def\<close>)
    qed (use that e ty sizes in \<open>auto simp: connect_username_def read_username_def parser_resume_def filled_def\<close>)
    then show ?thesis unfolding enc_text_def e on_connect_body append_Nil2 .
  qed
  have wm: "parses (reading H (?m c) n r) (?wm) connect_will_message (settled H R)" if "filled 2 c0 c" for c n
  proof -
    have e: "cn_will c = cn_will c0" using that by (simp add: filled_def)
    have "parses (reading H (?m c) n r) ((if cn_will (connect_of (?m c)) \<noteq> 0
        then enc_16 (length (text_of (cn_will_message c0))) @ text_of (cn_will_message c0) else []) @ (?un)) connect_will_message (settled H R)"
    proof (rule will_message.parses_optional [where line = 275 and k = connect_username])
      show "parses (reading H (?m c) n r) (?un) connect_username (settled H R)" if "\<not> cn_will (connect_of (?m c)) \<noteq> 0"
        by (rule un) (use that e \<open>filled 2 c0 c\<close> in \<open>simp add: filled_def\<close>)
      show "parses (reading H (on_connect (\<lambda>c. c\<lparr>cn_will_message := Some d\<rparr>) (?m c)) (n + 2 + length (text_of (cn_will_message c0))) r) (?un) connect_username (settled H R)"
        if "desc_data d = text_of (cn_will_message c0)" for d
        unfolding on_connect_body by (rule un) (use that \<open>filled 2 c0 c\<close> in \<open>simp add: filled_def\<close>)
    qed (use that e ty sizes in \<open>auto simp: connect_will_message_def read_will_message_def parser_resume_def filled_def\<close>)
    then show ?thesis unfolding enc_text_def e on_connect_body append_Nil2 .
  qed
  have wt: "parses (reading H (?m c) n r) (?wt) connect_will_topic (settled H R)" if "filled 1 c0 c" for c n
  proof -
    have e: "cn_will c = cn_will c0" using that by (simp add: filled_def)
    have "parses (reading H (?m c) n r) ((if cn_will (connect_of (?m c)) \<noteq> 0
        then enc_16 (length (text_of (cn_will_topic c0))) @ text_of (cn_will_topic c0) else []) @ (?wm)) connect_will_topic (settled H R)"
    proof (rule will_topic.parses_optional [where line = 271 and k = connect_will_message])
      show "parses (reading H (?m c) n r) (?wm) connect_will_message (settled H R)" if "\<not> cn_will (connect_of (?m c)) \<noteq> 0"
        by (rule wm) (use that e \<open>filled 1 c0 c\<close> in \<open>simp add: filled_def\<close>)
      show "parses (reading H (on_connect (\<lambda>c. c\<lparr>cn_will_topic := Some d\<rparr>) (?m c)) (n + 2 + length (text_of (cn_will_topic c0))) r) (?wm) connect_will_message (settled H R)"
        if "desc_data d = text_of (cn_will_topic c0)" for d
        unfolding on_connect_body by (rule wm) (use that \<open>filled 1 c0 c\<close> in \<open>simp add: filled_def\<close>)
    qed (use that e ty sizes in \<open>auto simp: connect_will_topic_def read_will_topic_def parser_resume_def filled_def\<close>)
    then show ?thesis unfolding enc_text_def e on_connect_body append_Nil2 .
  qed
  have l: "enc_text (cn_client_id c0) @ (if cn_will c0 \<noteq> 0 then enc_text (cn_will_topic c0) @ enc_text (cn_will_message c0) else []) @ ?un
     = enc_16 (length (text_of (cn_client_id c0))) @ text_of (cn_client_id c0) @ ?wt" by (simp add: enc_text_def [of "cn_client_id c0"])
  show ?thesis unfolding l read_client_id_def
  proof (rule client_id.parses_string)
    show "parses (reading H (on_connect (\<lambda>c. c\<lparr>cn_client_id := Some d\<rparr>) (?m c)) (n + 2 + length (text_of (cn_client_id c0))) r) (?wt) connect_will_topic (settled H R)"
      if "desc_data d = text_of (cn_client_id c0)" for d
      unfolding on_connect_body by (rule wt) (use that c in \<open>simp add: filled_def\<close>)
  qed (use c ty sizes in \<open>auto simp: read_client_id_def parser_resume_def filled_def\<close>)
qed

lemma flags_value_small:
  assumes "cn_clean_session c < 2" and "cn_will c < 2" and "cn_will_qos c < 4" and "cn_will_retain c < 2"
    and "cn_password_follows c < 2" and "cn_username_follows c < 2"
  shows "flags_value c < 256"
    and "set_flags_value (flags_value c) c1 = c1\<lparr>cn_clean_session := cn_clean_session c, cn_will := cn_will c, cn_will_qos := cn_will_qos c,
     cn_will_retain := cn_will_retain c, cn_password_follows := cn_password_follows c, cn_username_follows := cn_username_follows c\<rparr>"
proof -
  let ?q = "cn_will_qos c"
  show "flags_value c < 256" using assms by (simp add: flags_value_def)
  have q: "?q = 0 \<or> ?q = 1 \<or> ?q = 2 \<or> ?q = 3" using assms(3) by auto
  have b: "x = 0 \<or> x = 1" if "x < 2" for x :: nat using that by auto
  show "set_flags_value (flags_value c) c1 = c1\<lparr>cn_clean_session := cn_clean_session c, cn_will := cn_will c, cn_will_qos := cn_will_qos c,
     cn_will_retain := cn_will_retain c, cn_password_follows := cn_password_follows c, cn_username_follows := cn_username_follows c\<rparr>"
    using b [OF assms(1)] b [OF assms(2)] q b [OF assms(4)] b [OF assms(5)] b [OF assms(6)]
    by (elim disjE) (simp_all add: flags_value_def set_flags_value_def)
qed

lemma enc_connect_text:
  assumes "connect_ok c"
  shows "enc_connect c = enc_text (cn_protocol_name c) @ of_nat (cn_protocol_version c) # of_nat (flags_value c) # enc_16 (cn_keepalive c)
     @ enc_text (cn_client_id c) @ (if cn_will c \<noteq> 0 then enc_text (cn_will_topic c) @ enc_text (cn_will_message c) else [])
     @ (if cn_username_follows c \<noteq> 0 then enc_text (cn_username c) else [])
     @ (if cn_password_follows c \<noteq> 0 then enc_text (cn_password c) else [])"
proof -
  have t: "enc_string d = enc_text d" if "d \<noteq> None \<longrightarrow> desc_ok d" for d
    using that by (auto simp: enc_string_def enc_text_def desc_ok_def split: option.split)
  show ?thesis using assms t by (auto simp: enc_connect_def connect_ok_def desc_ok_def)
qed

definition connect_numbers_ok :: "connect_fields \<Rightarrow> bool" where
  "connect_numbers_ok c \<longleftrightarrow> cn_protocol_version c < 256 \<and> cn_clean_session c < 2 \<and> cn_will c < 2 \<and> cn_will_qos c < 4
     \<and> cn_will_retain c < 2 \<and> cn_password_follows c < 2 \<and> cn_username_follows c < 2 \<and> cn_keepalive c < 65536"

lemma parses_connect:
  assumes "mm_type M = IOTC_MQTT_TYPE_CONNECT" and "connect_of M = zeroed_connect"
    and ok: "connect_ok c0" "connect_strings_ok c0" "connect_numbers_ok c0"
    and R: "\<And>c. filled 5 c0 c \<Longrightarrow> R (M\<lparr>mm_body := Connect_body c\<rparr>)"
  shows "parses (reading H M n r) (enc_connect c0) parse_body (settled H R)"
proof -
  let ?m = "\<lambda>c. M\<lparr>mm_body := Connect_body c\<rparr>"
  note nums = ok(3) [unfolded connect_numbers_ok_def]
  have fl: "flags_value c0 < 256" "\<And>c1. set_flags_value (flags_value c0) c1 = c1\<lparr>cn_clean_session := cn_clean_session c0, cn_will := cn_will c0, cn_will_qos := cn_will_qos c0,
     cn_will_retain := cn_will_retain c0, cn_password_follows := cn_password_follows c0, cn_username_follows := cn_username_follows c0\<rparr>"
    by (rule flags_value_small; use nums in simp)+
  have u: "unat (of_nat (cn_protocol_version c0) :: byte) = cn_protocol_version c0" "unat (of_nat (flags_value c0) :: byte) = flags_value c0"
    using nums fl(1) by (simp_all add: unat_of_nat take_bit_eq_mod)
  note ka = enc_16_bytes [of "cn_keepalive c0"]
  let ?str = "enc_text (cn_client_id c0) @ (if cn_will c0 \<noteq> 0 then enc_text (cn_will_topic c0) @ enc_text (cn_will_message c0) else [])
     @ (if cn_username_follows c0 \<noteq> 0 then enc_text (cn_username c0) else [])
     @ (if cn_password_follows c0 \<noteq> 0 then enc_text (cn_password c0) else [])"
  have keepalive: "parses (ready H (?m c) n r) (enc_16 (cn_keepalive c0) @ ?str) connect_keepalive_high (settled H R)"
    if "filled 0 c0 (c\<lparr>cn_keepalive := cn_keepalive c0\<rparr>)" for c n
    unfolding connect_keepalive_high_def connect_keepalive_low_def
  proof (rule parses_u16)
    show "parses (reading H (on_connect (\<lambda>c. c\<lparr>cn_keepalive := to_u16 (cn_keepalive c + cn_keepalive c0 mod 256)\<rparr>)
        (on_connect (\<lambda>c. c\<lparr>cn_keepalive := 256 * (cn_keepalive c0 div 256)\<rparr>) (?m c))) (n + 2) r) (?str)
      (read_at 268 read_client_id connect_will_topic) (settled H R)"
      unfolding on_connect_body by (rule parses_connect_strings [where R = R and M = M, OF assms(1) ok(2) R]) (use that ka nums in \<open>simp_all\<close>)
  qed (use nums assms(1) in \<open>auto simp: parser_resume_def connect_keepalive_low_def blocks_of_connect connect_blocks_def\<close>)
  have version: "parses (ready H (?m c) n r) (of_nat (cn_protocol_version c0) # of_nat (flags_value c0) # enc_16 (cn_keepalive c0) @ ?str)
      connect_version (settled H R)"
    if "c = zeroed_connect\<lparr>cn_protocol_name := Some d\<rparr>" "desc_data d = text_of (cn_protocol_name c0)" for c d n
    unfolding connect_version_def
  proof (rule parses_byte, rule parses_yield)
    show "parses (ready H (on_connect (\<lambda>c. c\<lparr>cn_protocol_version := unat (of_nat (cn_protocol_version c0) :: byte)\<rparr>) (?m c)) (Suc n) r)
      (of_nat (flags_value c0) # enc_16 (cn_keepalive c0) @ ?str) connect_flags (settled H R)"
      unfolding connect_flags_def
    proof (rule parses_byte, rule parses_yield)
      show "parses (ready H (on_connect (set_flags_value (unat (of_nat (flags_value c0) :: byte)))
          (on_connect (\<lambda>c. c\<lparr>cn_protocol_version := unat (of_nat (cn_protocol_version c0) :: byte)\<rparr>) (?m c))) (Suc (Suc n)) r)
        (enc_16 (cn_keepalive c0) @ ?str) connect_keepalive_high (settled H R)"
        unfolding on_connect_body u fl(2)
        by (rule keepalive) (use that in \<open>simp add: filled_def zeroed_connect_def\<close>)
    qed (use assms(1) in \<open>simp_all add: parser_resume_def blocks_of_connect connect_blocks_def set_flags_value_def\<close>)
  qed (use assms(1) in \<open>simp_all add: parser_resume_def blocks_of_connect connect_blocks_def\<close>)
  have "parses (reading H M n r) (enc_16 (length (text_of (cn_protocol_name c0))) @ text_of (cn_protocol_name c0)
      @ of_nat (cn_protocol_version c0) # of_nat (flags_value c0) # enc_16 (cn_keepalive c0) @ ?str)
      (read_at 236 read_protocol_name (yield_on 238 connect_version)) (settled H R)"
    unfolding read_protocol_name_def
  proof (rule protocol_name.parses_string)
    fix d assume d: "desc_data d = text_of (cn_protocol_name c0)"
    have e: "on_connect (\<lambda>c. c\<lparr>cn_protocol_name := Some d\<rparr>) M = ?m (zeroed_connect\<lparr>cn_protocol_name := Some d\<rparr>)"
      using assms(2) by (simp add: on_connect_def)
    show "parses (reading H (on_connect (\<lambda>c. c\<lparr>cn_protocol_name := Some d\<rparr>) M) (n + 2 + length (text_of (cn_protocol_name c0))) r)
      (of_nat (cn_protocol_version c0) # of_nat (flags_value c0) # enc_16 (cn_keepalive c0) @ ?str) (yield_on 238 connect_version) (settled H R)"
      unfolding e by (rule parses_yield, rule version [OF refl d]) (simp_all add: parser_resume_def)
  qed (use ok(2) assms(1,2) in \<open>auto simp: parser_resume_def read_protocol_name_def connect_strings_ok_def zeroed_connect_def\<close>)
  then have "parses (reading H M n r) (enc_connect c0) (read_at 236 read_protocol_name (yield_on 238 connect_version)) (settled H R)"
    unfolding enc_connect_text [OF ok(1)] enc_text_def [of "cn_protocol_name c0"] append_assoc .
  with assms(1) show ?thesis by (simp add: parses_def parse_body_def reading_def)
qed

section \<open>Messages\<close>

text \<open>The same contents: the numbers, and the texts of the strings that the message has.\<close>

definition same_body :: "mqtt_message \<Rightarrow> mqtt_body \<Rightarrow> bool" where
  "same_body msg body =
     (case (mm_body msg, body) of
        (Connect_body c, Connect_body c') \<Rightarrow> filled 5 c c'
      | (Connack_body x, Connack_body y) \<Rightarrow> y = x
      | (Publish_body t i c, Publish_body t' i' c') \<Rightarrow>
          text_of t' = text_of t \<and> i' = (if mm_qos msg > 0 then i else 0) \<and> text_of c' = text_of c
      | (Id_body i, Id_body i') \<Rightarrow> i' = i
      | (Topics_body i (Some t), Topics_body i' (Some t')) \<Rightarrow>
          i' = i \<and> tp_payload t' = tp_payload t
          \<and> (if mm_type msg = IOTC_MQTT_TYPE_SUBSCRIBE then text_of (tp_name t') = text_of (tp_name t) else True)
      | (No_body, No_body) \<Rightarrow> True
      | _ \<Rightarrow> False)"

definition same_message :: "mqtt_message \<Rightarrow> mqtt_message \<Rightarrow> bool" where
  "same_message msg m \<longleftrightarrow> mm_retain m = mm_retain msg \<and> mm_qos m = mm_qos msg \<and> mm_dup m = mm_dup msg
     \<and> mm_type m = mm_type msg \<and> same_body msg (mm_body m)"

text \<open>The numbers fit their fields and the strings their lengths; a PUBLISH that ends with its topic is not complete for the parser.\<close>

definition fits_wire :: "mqtt_message \<Rightarrow> bool" where
  "fits_wire msg \<longleftrightarrow> mm_retain msg < 2 \<and> mm_qos msg < 4 \<and> mm_dup msg < 2 \<and>
     (case mm_body msg of
        Connect_body c \<Rightarrow> connect_strings_ok c \<and> connect_numbers_ok c
      | Connack_body code \<Rightarrow> code < 256
      | Publish_body t i c \<Rightarrow> length (text_of t) < 65536 \<and> i < 65536 \<and> (mm_qos msg > 0 \<or> text_of c \<noteq> [])
      | Id_body i \<Rightarrow> i < 65536
      | Topics_body i t \<Rightarrow> i < 65536 \<and> length (text_of (tp_name (the t))) < 65536 \<and> tp_payload (the t) < 256
          \<and> (if mm_type msg = IOTC_MQTT_TYPE_SUBACK then tp_payload (the t) \<in> {0, 1, 2, 128} else True)
      | No_body \<Rightarrow> True)"

definition payload_bytes :: "mqtt_message \<Rightarrow> byte list" where
  "payload_bytes msg = (case mm_body msg of Publish_body t i c \<Rightarrow> text_of c | _ \<Rightarrow> [])"

lemma common_value_back:
  assumes "fits_wire msg" and "sendable msg"
  shows "set_common_value (unat (of_nat (common_value msg) :: byte)) m = m\<lparr>mm_retain := mm_retain msg, mm_qos := mm_qos msg,
     mm_dup := mm_dup msg, mm_type := mm_type msg\<rparr>"
proof -
  have b: "mm_retain msg < 2" "mm_qos msg < 4" "mm_dup msg < 2" using assms(1) by (simp_all add: fits_wire_def)
  have t: "type_code (mm_type msg) < 16 \<and> type_of_code (type_code (mm_type msg)) = mm_type msg"
    using assms(2) by (cases "mm_type msg") (simp_all add: sendable_def type_of_code_def)
  have "common_value msg < 256" using b t by (simp add: common_value_def)
  then have u: "unat (of_nat (common_value msg) :: byte) = common_value msg" by (simp add: unat_of_nat take_bit_eq_mod)
  have r: "mm_retain msg = 0 \<or> mm_retain msg = 1" and d: "mm_dup msg = 0 \<or> mm_dup msg = 1"
    and q: "mm_qos msg = 0 \<or> mm_qos msg = 1 \<or> mm_qos msg = 2 \<or> mm_qos msg = 3" using b by auto
  have "common_value msg div 16 = type_code (mm_type msg)" "common_value msg mod 2 = mm_retain msg"
    "common_value msg div 2 mod 4 = mm_qos msg" "common_value msg div 8 mod 2 = mm_dup msg"
    using conjunct1 [OF t] unfolding common_value_def
    by (cases "mm_type msg"; insert r d q; elim disjE; simp)+
  then show ?thesis using t by (simp add: u set_common_value_def)
qed

lemma text_of_ok: "desc_ok d \<Longrightarrow> desc_length d = length (text_of d) \<and> enc_string d = enc_16 (length (text_of d)) @ text_of d"
  by (auto simp: desc_ok_def desc_length_def enc_string_def split: option.splits)

lemma parses_message:
  assumes "sendable msg" and "fits_wire msg" and "iotc_mqtt_serialiser_size msg = (st, len, rem, payload)"
    and "rem \<le> 268435455"
  shows "parses (fresh_parser H) (encode msg rem @ payload_bytes msg) iotc_mqtt_parser_execute (settled H (same_message msg))"
proof -
  let ?M = "zeroed_message\<lparr>mm_retain := mm_retain msg, mm_qos := mm_qos msg, mm_dup := mm_dup msg, mm_type := mm_type msg,
    mm_remaining_length := to_u32 rem\<rparr>"
  have M: "mm_type ?M = mm_type msg" "mm_qos ?M = mm_qos msg" "publish_of ?M = (None, 0, None)" "connect_of ?M = zeroed_connect"
    "snd (topics_of ?M) = None"
    by (simp_all add: publish_of_def connect_of_def topics_of_def zeroed_message_def)
  have R: "same_message msg (?M\<lparr>mm_body := b\<rparr>)" if "same_body msg b" for b using that by (simp add: same_message_def)
  have body: "parses (reading H ?M 2 rem) (enc_body msg @ payload_bytes msg) parse_body (settled H (same_message msg))"
  proof (cases "mm_body msg")
    case (Connect_body c)
    with assms(1) have "mm_type msg = IOTC_MQTT_TYPE_CONNECT" "connect_ok c" by (auto simp: sendable_def split: mqtt_type.splits)
    with Connect_body assms(2) parses_connect [of ?M c "same_message msg" H 2 rem] M R show ?thesis
      by (simp add: enc_body_def payload_bytes_def fits_wire_def same_body_def)
  next
    case (Connack_body code)
    with assms(1) have "mm_type msg = IOTC_MQTT_TYPE_CONNACK" by (auto simp: sendable_def split: mqtt_type.splits)
    with Connack_body assms(2) parses_connack [of ?M code "same_message msg" H 2 rem] M R show ?thesis
      by (simp add: enc_body_def payload_bytes_def fits_wire_def same_body_def)
  next
    case (Publish_body t i c)
    with assms(1) have ty: "mm_type msg = IOTC_MQTT_TYPE_PUBLISH" "desc_ok t" "desc_ok c" by (auto simp: sendable_def split: mqtt_type.splits)
    have "rem = 2 + length (text_of t) + (if mm_qos msg > 0 then 2 else 0) + length (text_of c)"
      using assms(3) Publish_body ty text_of_ok [OF ty(2)] text_of_ok [OF ty(3)] by (simp add: iotc_mqtt_serialiser_size_def)
    moreover have "same_message msg (on_publish (\<lambda>x. (Some t', if mm_qos msg > 0 then i else 0, c')) ?M)"
      if "desc_data t' = text_of t" "text_of c' = text_of c" for t' c'
      unfolding on_publish_def prod.case by (rule R) (use that Publish_body in \<open>simp add: same_body_def\<close>)
    ultimately show ?thesis
      using Publish_body ty assms(2,4) parses_publish [of ?M "text_of t" i rem "text_of c" "same_message msg" H] M text_of_ok [OF ty(2)]
      by (simp add: enc_body_def payload_bytes_def fits_wire_def split del: if_split)
  next
    case (Id_body i)
    with assms(1) have "mm_type msg = IOTC_MQTT_TYPE_PUBACK" by (auto simp: sendable_def split: mqtt_type.splits)
    with Id_body assms(2) parses_id [of ?M i "same_message msg" H 2 rem] M R show ?thesis
      by (simp add: enc_body_def payload_bytes_def fits_wire_def same_body_def)
  next
    case (Topics_body i u)
    with assms(1) obtain t where u: "u = Some t"
      and ty: "mm_type msg = IOTC_MQTT_TYPE_SUBSCRIBE \<and> desc_ok (tp_name t) \<or> mm_type msg = IOTC_MQTT_TYPE_SUBACK"
      by (auto simp: sendable_def split: mqtt_type.splits option.splits)
    from assms(2) Topics_body u have f: "i < 65536" "length (text_of (tp_name t)) < 65536" "tp_payload t < 256"
      and q: "mm_type msg = IOTC_MQTT_TYPE_SUBACK \<Longrightarrow> tp_payload t \<in> {0, 1, 2, 128}" by (simp_all add: fits_wire_def)
    show ?thesis using ty
    proof
      assume s: "mm_type msg = IOTC_MQTT_TYPE_SUBSCRIBE \<and> desc_ok (tp_name t)"
      with parses_subscribe [of ?M i "text_of (tp_name t)" "tp_payload t" "same_message msg" H 2 rem] f R M Topics_body u
        text_of_ok [OF conjunct2 [OF s]]
      show ?thesis by (simp add: enc_body_def payload_bytes_def same_body_def del: of_nat_mod)
    next
      assume s: "mm_type msg = IOTC_MQTT_TYPE_SUBACK"
      with parses_suback [of ?M i "tp_payload t" "same_message msg" H 2 rem] f R M Topics_body u q [OF s]
      show ?thesis by (simp add: enc_body_def payload_bytes_def same_body_def del: of_nat_mod)
    qed
  next
    case No_body
    with assms(1) have "mm_type msg \<in> {IOTC_MQTT_TYPE_PINGREQ, IOTC_MQTT_TYPE_PINGRESP, IOTC_MQTT_TYPE_DISCONNECT}"
      by (auto simp: sendable_def split: mqtt_type.splits)
    moreover have "same_message msg ?M" using No_body by (simp add: same_message_def same_body_def zeroed_message_def)
    ultimately show ?thesis using No_body parses_empty [of ?M "same_message msg" H 2 rem] M
      by (simp add: enc_body_def payload_bytes_def)
  qed
  show ?thesis unfolding encode_def append_Cons append_assoc
    by (rule parses_header) (use assms body in \<open>simp_all add: common_value_back\<close>)
qed

section \<open>Runs\<close>

text \<open>A parser with what it is called with: the static variable, a message that is zeroed and a heap.\<close>

definition parsing_from :: "parser \<Rightarrow> iotc_state \<Rightarrow> mem \<Rightarrow> parsing" where
  "parsing_from p st m = parser.extend p (parsing.fields st zeroed_message [] m)"

lemmas parser_eval = iotc_mqtt_parser_execute_def parser_resume_def yield_on_def read_yield_on_def header_byte_def
  byte_at_hand_def header_digit.simps header_done_def parse_body_def on_msg_def set_common_value_def type_of_code_def Let_def
  publish_topic_name_def read_at_def read_resume_def read_topic_def read_string_def string_resume_def ensure_desc_def
  read_string_high_def read_string_low_def next_byte_def read_chunk_def desc_length_def to_size_def
  on_publish_def publish_of_def iotc_make_empty_desc_alloc_def iotc_alloc_def iotc_bsp_mem_alloc_def zeroed_desc_def
  iotc_data_desc_append_data_resize_def iotc_data_desc_assure_buf_len_def iotc_data_desc_will_it_fit_def desc_write_def
  memcpy_at_def memcpy_check_def publish_after_topic_def publish_content_def read_content_def read_data_def
  data_resume_def parser_exit_def zeroed_message_def iotc_mqtt_parser_init_def parser.defs parsing.defs empty_mem_def
  parsing_from_def sizeof_data_desc_def to_u32_def desc_data_def



text \<open>The topic and the payload of a parsed PUBLISH.\<close>

definition published :: "parsing \<Rightarrow> byte list \<times> byte list" where
  "published s = (text_of (fst (publish_of (pg_msg s))), text_of (snd (snd (publish_of (pg_msg s)))))"

text \<open>
  The state of the last step is a static variable and so one for all parsers of the process. A PUBLISH with the topic
  \<open>ab\<close> and the payload \<open>xy\<close> that arrives in two chunks, cut inside the topic, is parsed as such; but when another
  connection receives a PINGRESP between the chunks, the rest of the topic is skipped: the topic is \<open>a\<close>
  and the payload \<open>bxy\<close>, and the parser reports success.
\<close>

theorem parsers_share_state:
  "\<exists>s s1 s2 t. parse_chunks [[0x30, 6, 0, 2, 0x61]] (parsing_from iotc_mqtt_parser_init IOTC_STATE_OK (empty_mem (\<lambda>i n. True)))
      = (IOTC_STATE_WANT_READ, s, [])
   \<and> parse_chunks [[0x62, 0x78, 0x79]] s = (IOTC_STATE_OK, s1, []) \<and> published s1 = ([0x61, 0x62], [0x78, 0x79])
   \<and> parse_chunks [[0xd0, 0]] (parsing_from iotc_mqtt_parser_init (pg_local s) (pg_mem s)) = (IOTC_STATE_OK, t, [])
   \<and> parse_chunks [[0x62, 0x78, 0x79]] (s\<lparr>pg_local := pg_local t, pg_mem := pg_mem t\<rparr>) = (IOTC_STATE_OK, s2, [])
   \<and> published s2 = ([0x61], [0x62, 0x78, 0x79])"
  by (simp add: parser_eval published_def)

text \<open>
  A PUBLISH of quality of service 0 without a payload is not recognised when its last byte has arrived: the parser asks for
  more, and reports the message only with the next chunk, of which it consumes nothing.
\<close>

theorem empty_publish_waits_for_next_message:
  "\<exists>s. parse_chunks [[0x30, 3, 0, 1, x]] (parsing_from iotc_mqtt_parser_init IOTC_STATE_OK (empty_mem (\<lambda>i n. True)))
      = (IOTC_STATE_WANT_READ, s, [])
   \<and> (\<exists>s1. parse_chunks [b # bs] s = (IOTC_STATE_OK, s1, []) \<and> pg_src s1 = b # bs \<and> published s1 = ([x], []))"
  by (simp add: parser_eval published_def)

end
