(* ===== verification/Iotc_Mqtt_Codec.thy ===== *)
theory Iotc_Mqtt_Codec
  imports Iotc_Mqtt_Roundtrip Iotc_Mqtt_Heap
begin

text \<open>
  The codec layer, \<^verbatim>\<open>src/libiotc/mqtt/codec/iotc_mqtt_codec_layer.c\<close>: it turns the messages of the logic layer into
  buffers for the layer below and buffers into messages. Sending is a coroutine over a queue of tasks, one per message; it is
  entered again with the confirmation of the layer below, first of the header, then of the payload of a PUBLISH.
  Receiving is a coroutine around the parser that goes through a buffer until it is used up.

  The state adds to that of the logic layer the tasks and descriptors by their blocks, the layer's data and the
  static variable of the parser. The queue is the list of its nodes. Labels are line numbers. The head of the queue that
  the code dereferences is checked for \<open>NULL\<close>, which is undefined behaviour.
\<close>

section \<open>State\<close>

record codec_task =
  ct_msg :: ptr
  ct_msg_id :: nat
  ct_msg_type :: mqtt_type

record codec_data =
  co_msg :: ptr
  co_task_queue :: "ptr list"
  co_parser :: parser
  co_local_state :: iotc_state
  co_msg_id :: nat
  co_msg_type :: mqtt_type
  co_pull_cs :: nat
  co_push_cs :: nat

record codec = mqtt +
  cl_task :: "ptr \<Rightarrow> codec_task"
  cl_desc :: "ptr \<Rightarrow> data_desc"
  cl_data :: codec_data
  cl_static :: iotc_state

definition sizeof_codec_task :: nat where "sizeof_codec_task = 24"
definition sizeof_codec_data :: nat where "sizeof_codec_data = 112"
definition sizeof_written_data :: nat where "sizeof_written_data = 8"

definition zeroed_codec_data :: codec_data where
  "zeroed_codec_data = \<lparr>co_msg = NULL, co_task_queue = [], co_parser = iotc_mqtt_parser_init, co_local_state = IOTC_STATE_OK,
     co_msg_id = 0, co_msg_type = IOTC_MQTT_TYPE_NONE, co_pull_cs = 0, co_push_cs = 0\<rparr>"

definition on_codec :: "(codec_data \<Rightarrow> codec_data) \<Rightarrow> 'z codec_scheme \<Rightarrow> 'z codec_scheme" where
  "on_codec f s = s\<lparr>cl_data := f (cl_data s)\<rparr>"

definition set_ct_msg :: "ptr \<Rightarrow> ptr \<Rightarrow> 'z codec_scheme \<Rightarrow> 'z codec_scheme" where
  "set_ct_msg task msg s =
     (let s1 = (if task = NULL then on_mem (\<lambda>m. m\<lparr>m_bad := True\<rparr>) s else s)
      in s1\<lparr>cl_task := (cl_task s1)(task := (cl_task s1 task)\<lparr>ct_msg := msg\<rparr>)\<rparr>)"

section \<open>Tasks\<close>

definition iotc_mqtt_codec_layer_make_task :: "ptr \<Rightarrow> 'z codec_scheme \<Rightarrow> ptr \<times> 'z codec_scheme" where
  "iotc_mqtt_codec_layer_make_task msg s =
     (case iotc_alloc sizeof_codec_task (ev_mem s) of (p, m) \<Rightarrow>
        if p = NULL then (NULL, s\<lparr>ev_mem := m\<rparr>)
        else (p, s\<lparr>ev_mem := m, cl_task := (cl_task s)(p := \<lparr>ct_msg = msg,
                   ct_msg_id = iotc_mqtt_get_message_id (mq_msg s msg), ct_msg_type = mm_type (mq_msg s msg)\<rparr>)\<rparr>))"

definition iotc_mqtt_codec_layer_activate_task :: "ptr \<Rightarrow> 'z codec_scheme \<Rightarrow> ptr \<times> 'z codec_scheme" where
  "iotc_mqtt_codec_layer_activate_task task s = (ct_msg (cl_task s task), set_ct_msg task NULL s)"

definition iotc_mqtt_codec_layer_continue_task :: "ptr \<Rightarrow> ptr \<Rightarrow> 'z codec_scheme \<Rightarrow> 'z codec_scheme" where
  "iotc_mqtt_codec_layer_continue_task task msg s = set_ct_msg task msg s"

definition iotc_mqtt_codec_layer_free_task :: "ptr \<Rightarrow> 'z codec_scheme \<Rightarrow> 'z codec_scheme" where
  "iotc_mqtt_codec_layer_free_task task s =
     (if task = NULL then s else on_mem (IOTC_SAFE_FREE task) (free_message (ct_msg (cl_task s task)) s))"

definition task_queue_head :: "'z codec_scheme \<Rightarrow> ptr" where
  "task_queue_head s = (case co_task_queue (cl_data s) of [] \<Rightarrow> NULL | task # tasks \<Rightarrow> task)"

definition alloc_written_data :: "nat \<Rightarrow> mqtt_type \<Rightarrow> 'z codec_scheme \<Rightarrow> ptr \<times> 'z codec_scheme" where
  "alloc_written_data msg_id msg_type s =
     (case iotc_alloc sizeof_written_data (ev_mem s) of (p, m) \<Rightarrow>
        if p = NULL then (NULL, s\<lparr>ev_mem := m\<rparr>)
        else (p, s\<lparr>ev_mem := m, mq_written := (mq_written s)(p := (msg_id, msg_type))\<rparr>))"

text \<open>Every task is reported as not sent; the tuple is not checked for \<open>NULL\<close>.\<close>

fun clear_tasks :: "ptr \<Rightarrow> ptr list \<Rightarrow> 'z codec_scheme \<Rightarrow> 'z codec_scheme" where
  "clear_tasks context [] s = s"
| "clear_tasks context (task # tasks) s =
     (let s1 = on_codec (\<lambda>d. d\<lparr>co_task_queue := tasks\<rparr>) s
      in case alloc_written_data (ct_msg_id (cl_task s1 task)) (ct_msg_type (cl_task s1 task)) s1 of
           (written_data, s2) \<Rightarrow>
             (let s3 = snd (IOTC_PROCESS_PUSH_ON_NEXT_LAYER context written_data IOTC_STATE_FAILED_WRITING s2)
              in clear_tasks context tasks (iotc_mqtt_codec_layer_free_task task s3)))"

definition clear_task_queue :: "ptr \<Rightarrow> 'z codec_scheme \<Rightarrow> 'z codec_scheme" where
  "clear_task_queue context s = clear_tasks context (co_task_queue (cl_data s)) s"

section \<open>Push\<close>

text \<open>The error path; only the block of the descriptor is released, not its buffer.\<close>

definition codec_push_error :: "ptr \<Rightarrow> ptr \<Rightarrow> ptr \<Rightarrow> 'z codec_scheme \<Rightarrow> iotc_state \<times> 'z codec_scheme" where
  "codec_push_error context data data_desc s =
     (let s1 = clear_task_queue context (on_mem (IOTC_SAFE_FREE data_desc) s)
      in IOTC_PROCESS_PUSH_ON_NEXT_LAYER context data IOTC_STATE_FAILED_WRITING
           (on_codec (\<lambda>d. d\<lparr>co_push_cs := 2\<rparr>) s1))"

text \<open>The header is sent.\<close>

definition codec_push_start :: "ptr \<Rightarrow> ptr \<Rightarrow> 'z codec_scheme \<Rightarrow> iotc_state \<times> 'z codec_scheme" where
  "codec_push_start context msg s =
     (if msg = NULL then codec_push_error context msg NULL s
      else
        (let message = mq_msg s msg;
             s1 = on_codec (\<lambda>d. d\<lparr>co_msg_id := iotc_mqtt_get_message_id message, co_msg_type := mm_type message\<rparr>) s
         in case iotc_mqtt_serialiser_size message of (state, msg_contents_size, remaining_len, publish_payload_len) \<Rightarrow>
              if state \<noteq> IOTC_STATE_OK then codec_push_error context msg NULL s1
              else
                (case iotc_make_empty_desc_alloc (msg_contents_size - publish_payload_len) (ev_mem s1) of
                   (None, m) \<Rightarrow> codec_push_error context msg NULL (s1\<lparr>ev_mem := m\<rparr>)
                 | (Some d, m) \<Rightarrow>
                     (case iotc_mqtt_serialiser_write message remaining_len (Some d) of (ok, out) \<Rightarrow>
                        (let s2 = s1\<lparr>ev_mem := m, cl_desc := (cl_desc s1)(d_self d := the out)\<rparr>
                         in if \<not> ok then codec_push_error context msg (d_self d) s2
                            else IOTC_PROCESS_PUSH_ON_PREV_LAYER context (d_self d) state
                                   (on_codec (\<lambda>c. c\<lparr>co_push_cs := 156\<rparr>) s2))))))"

text \<open>The layer calls itself with the message of the next task.\<close>

definition codec_push_next :: "ptr \<Rightarrow> ptr \<Rightarrow> 'z codec_scheme \<Rightarrow> iotc_state \<times> 'z codec_scheme" where
  "codec_push_next context msg s =
     (if IOTC_THIS_LAYER_NOT_OPERATIONAL context s \<or> user_data context s = NULL
      then (IOTC_STATE_OK, free_message msg s)
      else codec_push_start context msg (iotc_mqtt_codec_layer_continue_task (task_queue_head s) msg s))"

definition codec_push_finalise :: "ptr \<Rightarrow> ptr \<Rightarrow> iotc_state \<Rightarrow> 'z codec_scheme \<Rightarrow> iotc_state \<times> 'z codec_scheme" where
  "codec_push_finalise context data in_out_state s =
     (let task = task_queue_head s;
          s1 = set_ct_msg task NULL (free_message (ct_msg (cl_task s task)) s)
      in case alloc_written_data (co_msg_id (cl_data s1)) (co_msg_type (cl_data s1)) s1 of (written_data, s2) \<Rightarrow>
           if written_data = NULL then codec_push_error context data NULL s2
           else
             (let s3 = snd (IOTC_PROCESS_PUSH_ON_NEXT_LAYER context written_data in_out_state s2);
                  s4 = iotc_mqtt_codec_layer_free_task task (on_codec (\<lambda>d. d\<lparr>co_task_queue := tl (co_task_queue d)\<rparr>) s3)
              in if co_task_queue (cl_data s4) \<noteq> [] then
                   (case iotc_mqtt_codec_layer_activate_task (task_queue_head s4) s4 of (msg_to_send, s5) \<Rightarrow>
                      codec_push_next context msg_to_send (on_codec (\<lambda>d. d\<lparr>co_push_cs := 1\<rparr>) s5))
                 else (IOTC_STATE_OK, on_codec (\<lambda>d. d\<lparr>co_push_cs := 1\<rparr>) s4)))"

text \<open>The header has been sent; the descriptor of the payload shares its bytes with the message.\<close>

definition codec_push_payload :: "ptr \<Rightarrow> ptr \<Rightarrow> iotc_state \<Rightarrow> 'z codec_scheme \<Rightarrow> iotc_state \<times> 'z codec_scheme" where
  "codec_push_payload context data in_out_state s =
     (if in_out_state \<noteq> IOTC_STATE_WRITTEN then codec_push_finalise context data in_out_state s
      else
        (let message = mq_msg s (ct_msg (cl_task s (task_queue_head s)))
         in case (mm_type message, mm_body message) of
              (IOTC_MQTT_TYPE_PUBLISH, Publish_body topic_name message_id content) \<Rightarrow>
                (if desc_length content > 0 then
                   (case iotc_make_desc_from_buffer_share (d_data_ptr (the content)) (desc_data (the content)) (ev_mem s) of
                      (None, m) \<Rightarrow> codec_push_error context data NULL (s\<lparr>ev_mem := m\<rparr>)
                    | (Some d, m) \<Rightarrow>
                        IOTC_PROCESS_PUSH_ON_PREV_LAYER context (d_self d) IOTC_STATE_OK
                          (on_codec (\<lambda>c. c\<lparr>co_push_cs := 188\<rparr>) (s\<lparr>ev_mem := m, cl_desc := (cl_desc s)(d_self d := d)\<rparr>)))
                 else codec_push_finalise context data in_out_state s)
            | _ \<Rightarrow> codec_push_finalise context data in_out_state s))"

definition iotc_mqtt_codec_layer_push ::
    "ptr \<Rightarrow> ptr \<Rightarrow> iotc_state \<Rightarrow> 'z codec_scheme \<Rightarrow> iotc_state \<times> 'z codec_scheme" where
  "iotc_mqtt_codec_layer_push context data in_out_state s =
     (if IOTC_THIS_LAYER_NOT_OPERATIONAL context s \<or> user_data context s = NULL
      then (IOTC_STATE_OK, free_message data s)
      else if in_out_state = IOTC_STATE_OK \<and> data \<noteq> NULL then
        (case iotc_mqtt_codec_layer_make_task data s of (new_task, s1) \<Rightarrow>
           if new_task = NULL then codec_push_error context data NULL s1
           else
             (let s2 = on_codec (\<lambda>d. d\<lparr>co_task_queue := co_task_queue d @ [new_task]\<rparr>) s1
              in if co_push_cs (cl_data s2) > 2 then (IOTC_STATE_OK, s2) else codec_push_start context data s2))
      else
        (let s1 = (if in_out_state = IOTC_STATE_WANT_WRITE
                   then iotc_mqtt_codec_layer_continue_task (task_queue_head s) data s else s)
         in if co_push_cs (cl_data s1) = 156 then codec_push_payload context data in_out_state s1
            else if co_push_cs (cl_data s1) = 188 then codec_push_finalise context data in_out_state s1
            else codec_push_start context data s1))"

section \<open>Pull\<close>

definition unread :: "data_desc \<Rightarrow> byte list" where
  "unread d = drop (unat (d_curr_pos d)) (desc_data d)"

definition run_parser :: "ptr \<Rightarrow> 'z codec_scheme \<Rightarrow> iotc_state \<times> 'z codec_scheme" where
  "run_parser data s =
     (let d = cl_desc s data; msg = co_msg (cl_data s)
      in case iotc_mqtt_parser_execute (parser.extend (co_parser (cl_data s))
             (parsing.fields (cl_static s) (mq_msg s msg) (unread d) (ev_mem s))) of
           (state, p) \<Rightarrow>
             (state, s\<lparr>ev_mem := pg_mem p, mq_msg := (mq_msg s)(msg := pg_msg p), cl_static := pg_local p,
                cl_desc := (cl_desc s)(data := d\<lparr>d_curr_pos := d_curr_pos d + of_nat (length (unread d) - length (pg_src p))\<rparr>),
                cl_data := (cl_data s)\<lparr>co_parser := parser.truncate p, co_local_state := state\<rparr>\<rparr>))"

definition free_data_desc :: "ptr \<Rightarrow> 'z codec_scheme \<Rightarrow> 'z codec_scheme" where
  "free_data_desc data s = on_mem (iotc_free_desc (if data = NULL then None else Some (cl_desc s data))) s"

definition codec_pull_error :: "ptr \<Rightarrow> ptr \<Rightarrow> iotc_state \<Rightarrow> 'z codec_scheme \<Rightarrow> iotc_state \<times> 'z codec_scheme" where
  "codec_pull_error context data in_out_state s =
     (let s1 = on_codec (\<lambda>d. d\<lparr>co_msg := NULL\<rparr>) (free_message (co_msg (cl_data s)) s);
          s2 = on_codec (\<lambda>d. d\<lparr>co_pull_cs := 2\<rparr>) (free_data_desc data s1);
          s3 = clear_task_queue context s2;
          local_state = co_local_state (cl_data s3)
      in IOTC_PROCESS_CLOSE_ON_PREV_LAYER context NULL
           (if state_code in_out_state > state_code local_state then in_out_state else local_state) s3)"

text \<open>
  A message is passed on. The result of a round is what the function returns, or the state in which it calls itself to go on
  with the rest of the buffer.
\<close>

definition codec_pull_done :: "ptr \<Rightarrow> ptr \<Rightarrow> 'z codec_scheme \<Rightarrow> (iotc_state \<times> 'z codec_scheme) + 'z codec_scheme" where
  "codec_pull_done context data s =
     (if co_local_state (cl_data s) \<noteq> IOTC_STATE_OK then Inl (codec_pull_error context data IOTC_STATE_OK s)
      else
        (let recvd = co_msg (cl_data s);
             s1 = on_codec (\<lambda>d. d\<lparr>co_msg := NULL\<rparr>) s;
             s2 = snd (IOTC_PROCESS_PULL_ON_NEXT_LAYER context recvd (co_local_state (cl_data s1)) s1);
             s3 = on_codec (\<lambda>d. d\<lparr>co_pull_cs := 2\<rparr>) s2
         in if d_curr_pos (cl_desc s3 data) = d_length (cl_desc s3 data) \<or> co_local_state (cl_data s3) \<noteq> IOTC_STATE_OK
            then Inl (IOTC_STATE_OK, on_codec (\<lambda>d. d\<lparr>co_pull_cs := 1\<rparr>) (free_data_desc data s3))
            else Inr s3))"

definition codec_pull_parse :: "ptr \<Rightarrow> ptr \<Rightarrow> 'z codec_scheme \<Rightarrow> (iotc_state \<times> 'z codec_scheme) + 'z codec_scheme" where
  "codec_pull_parse context data s =
     (case run_parser data s of (state, s1) \<Rightarrow>
        if state = IOTC_STATE_WANT_READ
        then Inl (IOTC_STATE_OK, on_codec (\<lambda>d. d\<lparr>co_pull_cs := 292\<rparr>) (free_data_desc data s1))
        else codec_pull_done context data s1)"

definition codec_pull_round ::
    "ptr \<Rightarrow> ptr \<Rightarrow> iotc_state \<Rightarrow> 'z codec_scheme \<Rightarrow> (iotc_state \<times> 'z codec_scheme) + 'z codec_scheme" where
  "codec_pull_round context data in_out_state s =
     (if IOTC_THIS_LAYER_NOT_OPERATIONAL context s \<or> user_data context s = NULL
      then Inl (IOTC_STATE_OK, free_data_desc data s)
      else if in_out_state \<noteq> IOTC_STATE_OK then Inl (codec_pull_error context data in_out_state s)
      else if co_pull_cs (cl_data s) = 292 then
        (if co_local_state (cl_data s) = IOTC_STATE_WANT_READ then codec_pull_parse context data s
         else codec_pull_done context data s)
      else
        (case alloc_message s of (p, s1) \<Rightarrow>
           (let s2 = on_codec (\<lambda>d. d\<lparr>co_msg := p\<rparr>) s1
            in if p = NULL then Inl (codec_pull_error context data IOTC_OUT_OF_MEMORY s2)
               else codec_pull_parse context data (on_codec (\<lambda>d. d\<lparr>co_parser := iotc_mqtt_parser_init\<rparr>) s2))))"

section \<open>The other functions\<close>

definition iotc_mqtt_codec_layer_init ::
    "ptr \<Rightarrow> ptr \<Rightarrow> iotc_state \<Rightarrow> 'z codec_scheme \<Rightarrow> iotc_state \<times> 'z codec_scheme" where
  "iotc_mqtt_codec_layer_init context data in_out_state s =
     (case iotc_alloc sizeof_codec_data (ev_mem s) of (p, m) \<Rightarrow>
        (let s1 = s\<lparr>ev_mem := m, ly_at := (ly_at s)(context := (ly_at s context)\<lparr>ly_user_data := p\<rparr>)\<rparr>
         in if p = NULL then IOTC_PROCESS_INIT_ON_PREV_LAYER context data IOTC_OUT_OF_MEMORY s1
            else IOTC_PROCESS_INIT_ON_PREV_LAYER context data in_out_state (s1\<lparr>cl_data := zeroed_codec_data\<rparr>)))"

definition iotc_mqtt_codec_layer_connect ::
    "ptr \<Rightarrow> ptr \<Rightarrow> iotc_state \<Rightarrow> 'z codec_scheme \<Rightarrow> iotc_state \<times> 'z codec_scheme" where
  "iotc_mqtt_codec_layer_connect context data in_out_state s = IOTC_PROCESS_CONNECT_ON_NEXT_LAYER context data in_out_state s"

definition iotc_mqtt_codec_layer_close ::
    "ptr \<Rightarrow> ptr \<Rightarrow> iotc_state \<Rightarrow> 'z codec_scheme \<Rightarrow> iotc_state \<times> 'z codec_scheme" where
  "iotc_mqtt_codec_layer_close context data in_out_state s =
     (if user_data context s = NULL then IOTC_PROCESS_CLOSE_EXTERNALLY_ON_THIS_LAYER context data in_out_state s
      else IOTC_PROCESS_CLOSE_ON_PREV_LAYER context data in_out_state s)"

definition iotc_mqtt_codec_layer_close_externally ::
    "ptr \<Rightarrow> ptr \<Rightarrow> iotc_state \<Rightarrow> 'z codec_scheme \<Rightarrow> iotc_state \<times> 'z codec_scheme" where
  "iotc_mqtt_codec_layer_close_externally context data in_out_state s =
     (let layer_data = user_data context s;
          s1 = (if layer_data = NULL then s
                else
                  (let s2 = on_codec (\<lambda>d. d\<lparr>co_push_cs := 2\<rparr>) (clear_task_queue context s);
                       s3 = on_codec (\<lambda>d. d\<lparr>co_msg := NULL\<rparr>) (free_message (co_msg (cl_data s2)) s2);
                       s4 = on_mem (IOTC_SAFE_FREE layer_data) s3
                   in s4\<lparr>ly_at := (ly_at s4)(context := (ly_at s4 context)\<lparr>ly_user_data := NULL\<rparr>)\<rparr>))
      in IOTC_PROCESS_CLOSE_EXTERNALLY_ON_NEXT_LAYER context data in_out_state s1)"

section \<open>An example\<close>

definition example_codec ::
    "ptr list \<Rightarrow> (ptr \<Rightarrow> mqtt_message) \<Rightarrow> (ptr \<Rightarrow> codec_task) \<Rightarrow> (ptr \<Rightarrow> data_desc) \<Rightarrow> codec_data \<Rightarrow> codec" where
  "example_codec ps msgs tasks descs d =
     mqtt.extend (mqtt.truncate (example_mqtt (example_heap ps) small_vec (\<lambda>p. zeroed_task)
         (\<lambda>p. Publish_data None None IOTC_MQTT_RETAIN_FALSE IOTC_MQTT_DUP_FALSE) msgs zeroed_logic_data IOTC_CONNECTION_STATE_OPENED))
       (codec.fields tasks descs d IOTC_STATE_OK)"

lemma example_codec_simps [simp]:
  "mq_msg (example_codec ps ms ts ds d) = ms" "cl_task (example_codec ps ms ts ds d) = ts" "cl_desc (example_codec ps ms ts ds d) = ds"
  "cl_data (example_codec ps ms ts ds d) = d" "ly_at (example_codec ps ms ts ds d) = example_layers"
  "ev_mem (example_codec ps ms ts ds d) = example_heap ps"
  by (simp_all add: example_codec_def codec.defs mqtt.defs example_mqtt_def layered.defs example_layered_def)

lemma sys_example_codec:
  assumes "distinct ps" and "\<forall>p\<in>set ps. 0 < p \<and> p < 100"
  shows "sys Map.empty [] (mset ps) (example_codec ps ms ts ds d)"
  using sys_example [OF assms, of "\<lambda>p. zeroed_task" "\<lambda>p. Publish_data None None IOTC_MQTT_RETAIN_FALSE IOTC_MQTT_DUP_FALSE" ms zeroed_logic_data
      IOTC_CONNECTION_STATE_OPENED]
  by (simp add: sys_def lock_free_def example_codec_def codec.defs mqtt.defs)

end
