(* ===== verification/Iotc_Mqtt_Progress.thy ===== *)
theory Iotc_Mqtt_Progress
  imports Iotc_Mqtt_Parser
begin

text \<open>
  The parser makes progress: no piece of the coroutine gives bytes back, and a parser that starts a message with
  a byte at hand takes that byte. This bounds the recursion of the layer that runs it.
\<close>

definition shrinks :: "cont \<Rightarrow> bool" where
  "shrinks k \<longleftrightarrow> (\<forall>s. length (pg_src (snd (k s))) \<le> length (pg_src s))"

lemma shrinksD: "shrinks k \<Longrightarrow> length (pg_src (snd (k s))) \<le> length (pg_src s)"
  by (simp add: shrinks_def)

lemma shrinks_exit: "shrinks (parser_exit st)"
  by (simp add: shrinks_def parser_exit_def)

lemma shrinks_yield: "shrinks k \<Longrightarrow> shrinks (yield_on line k)" "shrinks k \<Longrightarrow> shrinks (read_yield_on line k)"
  by (auto simp: shrinks_def yield_on_def read_yield_on_def)

lemma shrinks_upd: "shrinks k \<Longrightarrow> (\<And>s. length (pg_src (f s)) \<le> length (pg_src s)) \<Longrightarrow> shrinks (\<lambda>s. k (f s))"
  unfolding shrinks_def by (meson le_trans)

lemma shrinks_next:
  assumes "\<And>b. shrinks (k b)"
  shows "shrinks (next_byte k)"
  unfolding shrinks_def
proof
  fix s :: parsing
  show "length (pg_src (snd (next_byte k s))) \<le> length (pg_src s)"
  proof (cases "pg_src s")
    case Nil
    then show ?thesis using shrinksD [OF assms [of 0], of "s\<lparr>pg_mem := (pg_mem s)\<lparr>m_bad := True\<rparr>, p_data_length := p_data_length s + 1\<rparr>"]
      by (simp add: next_byte_def)
  next
    case (Cons b bs)
    then show ?thesis using shrinksD [OF assms [of "unat b"], of "s\<lparr>pg_src := bs, p_data_length := p_data_length s + 1\<rparr>"]
      by (simp add: next_byte_def)
  qed
qed

lemma shrinks_chunk: "shrinks (read_chunk counted line get put)"
  by (simp add: shrinks_def read_chunk_def Let_def case_prod_beta)

lemma shrinks_ensure: "shrinks k \<Longrightarrow> shrinks (ensure_desc get put k)"
  unfolding shrinks_def
proof
  fix s :: parsing assume k: "\<forall>s. length (pg_src (snd (k s))) \<le> length (pg_src s)"
  obtain d m where a: "iotc_make_empty_desc_alloc 4 (pg_mem s) = (d, m)" by fastforce
  from k [rule_format, of s] k [rule_format, of "s\<lparr>pg_msg := put d (pg_msg s), pg_mem := m\<rparr>"] a
  show "length (pg_src (snd (ensure_desc get put k s))) \<le> length (pg_src s)"
    by (auto simp: ensure_desc_def parser_exit_def Let_def split: option.split)
qed

lemma shrinks_read_at:
  assumes r: "shrinks reader" and k: "shrinks k"
  shows "shrinks (read_at line reader k)"
  unfolding shrinks_def
proof
  fix s :: parsing
  obtain st s1 where e: "reader s = (st, s1)" by fastforce
  with shrinksD [OF r, of s] shrinksD [OF k, of "s1\<lparr>pg_local := st\<rparr>"]
  show "length (pg_src (snd (read_at line reader k s))) \<le> length (pg_src s)"
    by (auto simp: read_at_def parser_exit_def Let_def)
qed

lemma shrinks_resume: "shrinks reader \<Longrightarrow> shrinks k \<Longrightarrow> shrinks (read_resume line reader k)"
  using shrinks_read_at [of reader k line] by (simp only: shrinks_def read_resume_def split: if_split) blast

lemma shrinks_byte: "shrinks k \<Longrightarrow> shrinks (byte_into f k)"
  unfolding byte_into_def by (rule shrinks_next, rule shrinks_upd [where k = k]) (simp_all add: on_msg_def)

lemma shrinks_if: "shrinks k \<Longrightarrow> shrinks l \<Longrightarrow> shrinks (\<lambda>s. if c s then k s else l s)"
  by (simp add: shrinks_def)

lemma shrinks_string: "shrinks (read_string get put)" "shrinks (read_data get put)"
proof -
  note chunk = shrinks_chunk
  have low: "shrinks (read_string_low get put)"
    unfolding read_string_low_def by (intro shrinks_next shrinks_upd [OF shrinks_yield(2) [OF chunk]]) simp
  have high: "shrinks (read_string_high get put)"
    unfolding read_string_high_def by (intro shrinks_next shrinks_upd [OF shrinks_yield(2) [OF low]]) simp
  have "shrinks (string_resume get put)"
    using chunk [of True 83 get put] low high shrinks_yield(2) [OF high, of 53]
    by (simp add: shrinks_def string_resume_def)
  then show "shrinks (read_string get put)" unfolding read_string_def by (rule shrinks_ensure)
  have "shrinks (data_resume get put)"
    using chunk [of False 147 get put] shrinks_yield(2) [OF chunk, of 136 False 147 get put] by (simp add: shrinks_def data_resume_def)
  then show "shrinks (read_data get put)" unfolding read_data_def by (rule shrinks_ensure)
qed

lemmas shrink_rules = shrinks_exit shrinks_yield shrinks_read_at shrinks_resume shrinks_byte shrinks_string

lemma shrinks_fields:
  "shrinks read_protocol_name" "shrinks read_client_id" "shrinks read_will_topic" "shrinks read_will_message"
  "shrinks read_username" "shrinks read_password" "shrinks read_topic" "shrinks read_content" "shrinks read_topic_filter"
  by (simp_all add: read_protocol_name_def read_client_id_def read_will_topic_def read_will_message_def
      read_username_def read_password_def read_topic_def read_content_def read_topic_filter_def shrinks_string)

lemma shrinks_connect:
  "shrinks connect_password" "shrinks connect_username" "shrinks connect_will_message" "shrinks connect_will_topic"
  "shrinks connect_keepalive_low" "shrinks connect_keepalive_high" "shrinks connect_flags" "shrinks connect_version"
proof -
  have 1: "shrinks connect_password"
    using shrinks_read_at [OF shrinks_fields(6) shrinks_exit [of IOTC_STATE_OK], of 283] shrinks_exit [of IOTC_STATE_OK]
    by (simp add: shrinks_def connect_password_def)
  have 2: "shrinks connect_username" using shrinks_read_at [OF shrinks_fields(5) 1, of 279] 1 by (simp add: shrinks_def connect_username_def)
  have 3: "shrinks connect_will_message" using shrinks_read_at [OF shrinks_fields(4) 2, of 275] 2 by (simp add: shrinks_def connect_will_message_def)
  have 4: "shrinks connect_will_topic" using shrinks_read_at [OF shrinks_fields(3) 3, of 271] 3 by (simp add: shrinks_def connect_will_topic_def)
  show "shrinks connect_password" "shrinks connect_username" "shrinks connect_will_message" "shrinks connect_will_topic" by fact+
  show 5: "shrinks connect_keepalive_low" unfolding connect_keepalive_low_def by (intro shrink_rules shrinks_fields 4)
  show 6: "shrinks connect_keepalive_high" unfolding connect_keepalive_high_def by (intro shrink_rules 5)
  show 7: "shrinks connect_flags" unfolding connect_flags_def by (intro shrink_rules 6)
  show "shrinks connect_version" unfolding connect_version_def by (intro shrink_rules 7)
qed

lemma shrinks_publish:
  "shrinks publish_content" "shrinks publish_id_low" "shrinks publish_id_high" "shrinks publish_after_topic" "shrinks publish_topic_name"
proof -
  have 1: "shrinks (\<lambda>s. if p_str_length s > 0 then read_at 330 read_content (parser_exit IOTC_STATE_OK) s else parser_exit IOTC_STATE_OK s)"
    by (intro shrinks_if shrink_rules shrinks_fields)
  show 2: "shrinks publish_content"
    using shrinks_upd [OF 1, of "\<lambda>s. s\<lparr>p_str_length := to_size (int (p_remaining_length s + 2) - int (p_data_length s))\<rparr>"]
    unfolding publish_content_def [abs_def] Let_def by simp
  show 3: "shrinks publish_id_low" unfolding publish_id_low_def by (intro shrink_rules 2)
  show 4: "shrinks publish_id_high" unfolding publish_id_high_def by (intro shrink_rules 3)
  show 5: "shrinks publish_after_topic" using 2 4 by (simp add: shrinks_def publish_after_topic_def)
  show "shrinks publish_topic_name" unfolding publish_topic_name_def by (intro shrink_rules shrinks_fields 5)
qed

lemma shrinks_ids: "shrinks id_low_byte" "shrinks (id_high_byte line)" "shrinks connack_code_byte" "shrinks connack_unused"
  unfolding id_high_byte_def id_low_byte_def connack_unused_def connack_code_byte_def by (intro shrink_rules)+

lemma shrinks_topicpair: "shrinks k \<Longrightarrow> shrinks (new_topicpair k)"
  unfolding shrinks_def
proof
  fix s :: parsing assume k: "\<forall>s. length (pg_src (snd (k s))) \<le> length (pg_src s)"
  obtain p m where a: "iotc_alloc sizeof_topicpair (pg_mem s) = (p, m)" by fastforce
  let ?s = "on_msg (on_topics (\<lambda>(i, t). (i, Some \<lparr>tp_self = p, tp_next = NULL, tp_name = None, tp_payload = 0\<rparr>))) (s\<lparr>pg_mem := m\<rparr>)"
  from k [rule_format, of ?s] a show "length (pg_src (snd (new_topicpair k s))) \<le> length (pg_src s)"
    by (simp add: new_topicpair_def parser_exit_def on_msg_def)
qed

lemma shrinks_topics:
  "shrinks subscribe_qos" "shrinks subscribe_topic" "shrinks suback_status_byte"
  "shrinks k \<Longrightarrow> shrinks (topics_id_low line k)" "shrinks k \<Longrightarrow> shrinks (topics_id_high line k)"
proof -
  show 1: "shrinks subscribe_qos" unfolding subscribe_qos_def by (intro shrink_rules)
  show "shrinks subscribe_topic" unfolding subscribe_topic_def by (intro shrinks_topicpair shrink_rules shrinks_fields 1)
  have "shrinks (\<lambda>s. let resp = case pg_src s of [] \<Rightarrow> 0 | b # bs \<Rightarrow> unat b
     in case iotc_mqtt_parse_suback_response resp of
          None \<Rightarrow> parser_exit IOTC_MQTT_PARSER_ERROR (s\<lparr>pg_local := IOTC_MQTT_PARSER_ERROR\<rparr>)
        | Some status \<Rightarrow>
            byte_into (\<lambda>b. on_topics (\<lambda>(i, t). (i, map_option (\<lambda>t. t\<lparr>tp_payload := status\<rparr>) t)))
              (parser_exit IOTC_STATE_OK) (s\<lparr>pg_local := IOTC_STATE_OK\<rparr>))"
    using shrinksD [OF shrinks_byte [OF shrinks_exit], of _ IOTC_STATE_OK "s\<lparr>pg_local := IOTC_STATE_OK\<rparr>" for s]
    by (auto simp: shrinks_def Let_def parser_exit_def split: option.split)
  then show "shrinks suback_status_byte" unfolding suback_status_byte_def by (rule shrinks_topicpair)
  show "shrinks k \<Longrightarrow> shrinks (topics_id_low line k)" "shrinks k \<Longrightarrow> shrinks (topics_id_high line k)"
    unfolding topics_id_low_def topics_id_high_def by (intro shrink_rules; assumption)+
qed

lemma shrinks_body: "shrinks parse_body"
proof -
  note r = shrink_rules shrinks_fields shrinks_connect shrinks_publish shrinks_ids shrinks_topics
  have "shrinks (read_at 236 read_protocol_name (yield_on 238 connect_version))" "shrinks (yield_on 289 connack_unused)"
    "shrinks (yield_on 306 publish_topic_name)" "\<And>a b. shrinks (yield_on a (id_high_byte b))"
    "shrinks (yield_on 404 (topics_id_high 411 (topics_id_low 418 subscribe_topic)))"
    "shrinks (yield_on 437 (topics_id_high 444 (topics_id_low 451 suback_status_byte)))"
    by (intro r)+
  then show ?thesis unfolding shrinks_def
    by (intro allI) (simp add: parse_body_def parser_exit_def split: mqtt_type.split)
qed

lemma header_done_shrinks: "shrinks header_done"
  unfolding shrinks_def
proof
  fix s :: parsing
  let ?s = "on_msg (\<lambda>m. m\<lparr>mm_remaining_length := to_u32 (p_remaining_length s)\<rparr>)
             (s\<lparr>pg_src := tl (pg_src s), p_data_length := p_data_length s + 1\<rparr>)"
  have "length (pg_src (snd (parse_body ?s))) \<le> length (pg_src s)"
    using shrinksD [OF shrinks_body, of ?s] by (simp add: on_msg_def)
  then show "length (pg_src (snd (header_done s))) \<le> length (pg_src s)"
    unfolding header_done_def by (cases "byte_at_hand s \<ge> 128") (simp_all add: parser_exit_def)
qed

lemma header_digit_shrinks: "shrinks header_digit"
  unfolding shrinks_def
proof
  fix s :: parsing show "length (pg_src (snd (header_digit s))) \<le> length (pg_src s)"
  proof (induction s rule: header_digit.induct)
    case (1 s)
    let ?s1 = "s\<lparr>p_remaining_length := p_remaining_length s + byte_at_hand s mod 128 * p_multiplier s,
        p_multiplier := p_multiplier s * 128\<rparr>"
    from shrinksD [OF header_done_shrinks, of ?s1] 1 [OF refl _ refl] show ?case
      by (subst header_digit.simps) (auto simp: Let_def)
  qed
qed

lemma header_byte_takes: "pg_src s \<noteq> [] \<Longrightarrow> length (pg_src (snd (header_byte s))) < length (pg_src s)"
  using shrinksD [OF shrinks_yield(1) [OF header_digit_shrinks, of 215], of "(on_msg (set_common_value (byte_at_hand s)) s)
            \<lparr>p_digit_bytes := 1, p_multiplier := 1, p_remaining_length := 0, p_data_length := 1, pg_src := tl (pg_src s)\<rparr>"]
  by (cases "pg_src s") (simp_all add: header_byte_def on_msg_def)

lemma execute_shrinks: "length (pg_src (snd (iotc_mqtt_parser_execute s))) \<le> length (pg_src s)"
proof -
  note r = shrink_rules shrinks_fields shrinks_connect shrinks_publish shrinks_ids shrinks_topics header_digit_shrinks
  have h: "shrinks header_byte" unfolding shrinks_def
  proof
    fix s :: parsing
    from shrinksD [OF shrinks_yield(1) [OF header_digit_shrinks, of 215], of "(on_msg (set_common_value (byte_at_hand s)) s)
            \<lparr>p_digit_bytes := 1, p_multiplier := 1, p_remaining_length := 0, p_data_length := 1, pg_src := tl (pg_src s)\<rparr>"]
    show "length (pg_src (snd (header_byte s))) \<le> length (pg_src s)" by (simp add: header_byte_def on_msg_def)
  qed
  have start: "shrinks (\<lambda>s. yield_on 200 header_byte (s\<lparr>pg_local := IOTC_STATE_OK\<rparr>))"
    by (rule shrinks_upd [where f = "\<lambda>s. s\<lparr>pg_local := IOTC_STATE_OK\<rparr>", OF shrinks_yield(1) [OF h]]) simp
  have "shrinks (parser_resume (p_cs s))" unfolding parser_resume_def
    by (simp add: if_distrib [of shrinks] r h start cong del: if_weak_cong)
  then show ?thesis unfolding iotc_mqtt_parser_execute_def by (rule shrinksD)
qed

lemma execute_takes:
  assumes "p_cs s \<le> 2" and "pg_src s \<noteq> []"
  shows "length (pg_src (snd (iotc_mqtt_parser_execute s))) < length (pg_src s)"
  using header_byte_takes [of "s\<lparr>pg_local := IOTC_STATE_OK\<rparr>"] assms
  by (simp add: iotc_mqtt_parser_execute_def parser_resume_def yield_on_def)

end
