(* ===== verification/Iotc_Mqtt_Codec_Pull.thy ===== *)
theory Iotc_Mqtt_Codec_Pull
  imports Iotc_Mqtt_Codec Iotc_Mqtt_Progress
begin

text \<open>
  The receiving side of the codec layer: the function that goes through a buffer, which ends since every round uses up
  bytes, and what it delivers to the logic layer.
\<close>

lemma continue_codec:
  fixes s :: "'z codec_scheme"
  shows "cl_data (snd (IOTC_LAYER_CONTINUE_WITH dir f context data st s)) = cl_data s"
    "cl_desc (snd (IOTC_LAYER_CONTINUE_WITH dir f context data st s)) = cl_desc s"
    "cl_task (snd (IOTC_LAYER_CONTINUE_WITH dir f context data st s)) = cl_task s"
    "cl_static (snd (IOTC_LAYER_CONTINUE_WITH dir f context data st s)) = cl_static s"
  by (simp_all add: IOTC_LAYER_CONTINUE_WITH_def iotc_layer_continue_with_impl_def iotc_evttd_execute_def iotc_evtd_execute_def
      Let_def iotc_lock_critical_section_def iotc_unlock_critical_section_def split: prod.splits option.splits)

section \<open>The buffer is used up\<close>

lemma unread_advance:
  assumes "n \<le> length (unread d)"
  shows "unread (d\<lparr>d_curr_pos := d_curr_pos d + of_nat n\<rparr>) = drop n (unread d)"
proof (cases "n = 0")
  case True
  then show ?thesis by (simp add: unread_def)
next
  case False
  have "length (desc_data d) \<le> unat (d_length d)" by (simp add: desc_data_def)
  moreover have "unat (d_length d) < 2 ^ 32" using unsigned_less [of "d_length d"] by simp
  moreover have "n \<le> length (desc_data d) - unat (d_curr_pos d)" using assms by (simp add: unread_def)
  ultimately have b: "unat (d_curr_pos d) + n < 2 ^ 32" and n: "n < 2 ^ 32" using False by auto
  then have "unat (of_nat n :: 32 word) = n" by (simp add: unat_of_nat take_bit_eq_mod)
  then have "unat (d_curr_pos d + of_nat n) = unat (d_curr_pos d) + n" using b by (simp add: unat_word_ariths)
  then show ?thesis by (simp add: unread_def desc_data_def add.commute)
qed

definition codec_parsing :: "ptr \<Rightarrow> 'z codec_scheme \<Rightarrow> parsing" where
  "codec_parsing data s = parser.extend (co_parser (cl_data s))
     (parsing.fields (cl_static s) (mq_msg s (co_msg (cl_data s))) (unread (cl_desc s data)) (ev_mem s))"

lemma codec_parsing_simps [simp]:
  "p_cs (codec_parsing data s) = p_cs (co_parser (cl_data s))" "p_read_cs (codec_parsing data s) = p_read_cs (co_parser (cl_data s))"
  "pg_src (codec_parsing data s) = unread (cl_desc s data)" "pg_mem (codec_parsing data s) = ev_mem s"
  "pg_msg (codec_parsing data s) = mq_msg s (co_msg (cl_data s))"
  by (simp_all add: codec_parsing_def parser.defs parsing.defs)

definition codec_parsed :: "ptr \<Rightarrow> iotc_state \<times> parsing \<Rightarrow> 'z codec_scheme \<Rightarrow> iotc_state \<times> 'z codec_scheme" where
  "codec_parsed data r s = (case r of (state, p) \<Rightarrow>
     (state, s\<lparr>ev_mem := pg_mem p, mq_msg := (mq_msg s)(co_msg (cl_data s) := pg_msg p), cl_static := pg_local p,
        cl_desc := (cl_desc s)(data := (cl_desc s data)\<lparr>d_curr_pos := d_curr_pos (cl_desc s data)
          + of_nat (length (unread (cl_desc s data)) - length (pg_src p))\<rparr>),
        cl_data := (cl_data s)\<lparr>co_parser := parser.truncate p, co_local_state := state\<rparr>\<rparr>))"

lemma run_parser_parsed: "run_parser data s = codec_parsed data (iotc_mqtt_parser_execute (codec_parsing data s)) s"
  by (simp add: run_parser_def codec_parsed_def codec_parsing_def Let_def)

lemma parsed_unread:
  assumes "run_parser data s = (st, s1)"
  shows "unread (cl_desc s1 data) = drop (length (unread (cl_desc s data))
      - length (pg_src (snd (iotc_mqtt_parser_execute (codec_parsing data s))))) (unread (cl_desc s data))"
  using assms by (auto simp: run_parser_parsed codec_parsed_def unread_advance split: prod.splits)

lemma parsed_shrinks:
  assumes "run_parser data s = (st, s1)"
  shows "length (unread (cl_desc s1 data)) \<le> length (unread (cl_desc s data))"
    and "p_cs (co_parser (cl_data s)) \<le> 2 \<Longrightarrow> unread (cl_desc s data) \<noteq> []
      \<Longrightarrow> length (unread (cl_desc s1 data)) < length (unread (cl_desc s data))"
  using execute_takes [of "codec_parsing data s"] by (auto simp: parsed_unread [OF assms])

lemma parsed_nothing:
  assumes "run_parser data s = (st, s1)" and "p_cs (co_parser (cl_data s)) \<le> 2" and "unread (cl_desc s data) = []"
  shows "st = IOTC_STATE_WANT_READ"
  using assms by (auto simp: run_parser_parsed codec_parsed_def iotc_mqtt_parser_execute_def parser_resume_def yield_on_def
      split: prod.splits)

lemma done_unread:
  assumes "codec_pull_done context data s = Inr s1"
  shows "unread (cl_desc s1 data) = unread (cl_desc s data) \<and> co_pull_cs (cl_data s1) = 2"
  using assms by (auto simp: codec_pull_done_def Let_def on_codec_def continue_codec split: if_splits)

lemma round_decreases:
  assumes "codec_pull_round context data st s = Inr s1"
  shows "length (unread (cl_desc s1 data)) < length (unread (cl_desc s data))
    \<or> length (unread (cl_desc s1 data)) = length (unread (cl_desc s data)) \<and> co_pull_cs (cl_data s) = 292 \<and> co_pull_cs (cl_data s1) \<noteq> 292"
proof -
  have parse: "length (unread (cl_desc s1 data)) \<le> length (unread (cl_desc x data)) \<and> co_pull_cs (cl_data s1) = 2
      \<and> (p_cs (co_parser (cl_data x)) \<le> 2 \<longrightarrow> length (unread (cl_desc s1 data)) < length (unread (cl_desc x data)))"
    if "codec_pull_parse context data x = Inr s1" for x
  proof -
    obtain st1 x1 where r: "run_parser data x = (st1, x1)" by fastforce
    with that have "st1 \<noteq> IOTC_STATE_WANT_READ" "codec_pull_done context data x1 = Inr s1"
      by (auto simp: codec_pull_parse_def split: if_splits)
    with done_unread [OF this(2)] parsed_shrinks [OF r] parsed_nothing [OF r] show ?thesis by auto
  qed
  show ?thesis
  proof (cases "co_pull_cs (cl_data s) = 292")
    case True
    with assms have "codec_pull_parse context data s = Inr s1 \<or> codec_pull_done context data s = Inr s1"
      by (auto simp: codec_pull_round_def split: if_splits)
    with parse [of s] done_unread [of "context" data s s1] True show ?thesis by auto
  next
    case False
    obtain p x where a: "alloc_message s = (p, x)" by fastforce
    have d: "cl_desc x = cl_desc s" using a by (auto simp: alloc_message_def split: prod.splits if_splits)
    from assms False a have "codec_pull_parse context data (on_codec (\<lambda>d. d\<lparr>co_parser := iotc_mqtt_parser_init\<rparr>)
        (on_codec (\<lambda>d. d\<lparr>co_msg := p\<rparr>) x)) = Inr s1"
      by (auto simp: codec_pull_round_def Let_def split: if_splits)
    from parse [OF this] show ?thesis by (simp add: on_codec_def d iotc_mqtt_parser_init_def)
  qed
qed

function iotc_mqtt_codec_layer_pull ::
    "ptr \<Rightarrow> ptr \<Rightarrow> iotc_state \<Rightarrow> 'z codec_scheme \<Rightarrow> iotc_state \<times> 'z codec_scheme" where
  "iotc_mqtt_codec_layer_pull context data in_out_state s =
     (case codec_pull_round context data in_out_state s of
        Inl result \<Rightarrow> result
      | Inr s1 \<Rightarrow> iotc_mqtt_codec_layer_pull context data in_out_state s1)"
  by pat_completeness auto

termination iotc_mqtt_codec_layer_pull
  by (relation "measure (\<lambda>(c, d, st, s). 2 * length (unread (cl_desc s d)) + (if co_pull_cs (cl_data s) = 292 then 1 else 0))")
    (auto dest!: round_decreases)

declare iotc_mqtt_codec_layer_pull.simps [simp del]

section \<open>What is delivered\<close>

lemma free_desc_oracle: "m_ok (iotc_free_desc x m) = m_ok m"
  by (auto simp: iotc_free_desc_def mem_simps Let_def split: option.split)

definition wire_ok :: "mqtt_message \<Rightarrow> bool" where
  "wire_ok msg \<longleftrightarrow> sendable msg \<and> fits_wire msg \<and> fst (snd (snd (iotc_mqtt_serialiser_size msg))) \<le> 268435455"

definition wire :: "mqtt_message \<Rightarrow> byte list" where
  "wire msg = encode msg (fst (snd (snd (iotc_mqtt_serialiser_size msg)))) @ payload_bytes msg"

definition desc_ready :: "data_desc \<Rightarrow> bool" where
  "desc_ready d \<longleftrightarrow> desc_inv d \<and> d_curr_pos d \<le> d_length d"

lemma ready_unread: "desc_ready d \<Longrightarrow> length (unread d) = unat (d_length d) - unat (d_curr_pos d)"
  by (simp add: desc_ready_def unread_def)

lemma ready_at_end: "desc_ready d \<Longrightarrow> d_curr_pos d = d_length d \<longleftrightarrow> unread d = []"
  using ready_unread [of d] by (auto simp: desc_ready_def word_le_nat_alt unat_eq_nat_uint [symmetric] word_unat_eq_iff
      simp flip: length_0_conv)

lemma ready_advance:
  assumes "desc_ready d" and "n \<le> length (unread d)"
  shows "desc_ready (d\<lparr>d_curr_pos := d_curr_pos d + of_nat n\<rparr>)"
proof -
  have n: "unat (d_curr_pos d) + n \<le> unat (d_length d)" using assms ready_unread [OF assms(1)]
    by (auto simp: desc_ready_def word_le_nat_alt)
  moreover have "unat (d_length d) < 2 ^ 32" using unsigned_less [of "d_length d"] by simp
  ultimately have "unat (d_curr_pos d) + n < 2 ^ 32" "n < 2 ^ 32" by auto
  then have "unat (d_curr_pos d + of_nat n) = unat (d_curr_pos d) + n" by (simp add: unat_word_ariths unat_of_nat take_bit_eq_mod)
  with assms(1) n show ?thesis by (simp add: desc_ready_def desc_inv_def word_le_nat_alt)
qed

lemma wire_not_nil [simp]: "wire msg \<noteq> []"
  by (simp add: wire_def encode_def)

lemma parsed_message:
  assumes o: "sys base hs M s" and w: "wire_ok msg" "unread (cl_desc s data) = wire msg @ rest" and d: "desc_ready (cl_desc s data)"
    and p: "co_parser (cl_data s) = iotc_mqtt_parser_init" "mq_msg s (co_msg (cl_data s)) = zeroed_message"
    and r: "run_parser data s = (st, s1)"
  shows "st = IOTC_STATE_OK \<and> same_message msg (mq_msg s1 (co_msg (cl_data s)))
    \<and> sys base hs (blocks_of (mq_msg s1 (co_msg (cl_data s))) + M) s1
    \<and> mq_msg s1 = (mq_msg s)(co_msg (cl_data s) := mq_msg s1 (co_msg (cl_data s)))
    \<and> unread (cl_desc s1 data) = rest \<and> desc_ready (cl_desc s1 data)
    \<and> desc_blocks (Some (cl_desc s1 data)) = desc_blocks (Some (cl_desc s data))
    \<and> co_local_state (cl_data s1) = IOTC_STATE_OK \<and> co_msg (cl_data s1) = co_msg (cl_data s) \<and> ly_at s1 = ly_at s"
proof -
  from o obtain qs where q: "chain (ev_next s) (ev_call_queue s) qs" "map (ev_queued s) qs = hs"
    and ob: "owns_blocks base (mset qs + (mset (vec_list (ev_timers s)) + M)) (ev_mem s)" by (auto simp: sys_def)
  define H where "H = (base, mset qs + (mset (vec_list (ev_timers s)) + M))"
  obtain st' len rem payload where sz: "iotc_mqtt_serialiser_size msg = (st', len, rem, payload)" by (metis prod_cases4)
  from w(1) sz have ok: "sendable msg" "fits_wire msg" "rem \<le> 268435455" by (simp_all add: wire_ok_def)
  have "fresh_parser H (codec_parsing data s)"
    using o ob by (simp add: fresh_parser_def p iotc_mqtt_parser_init_def heap_ok_def blocks_of_other zeroed_message_def H_def sys_def)
  moreover have src: "unread (cl_desc s data) = (encode msg rem @ payload_bytes msg) @ rest" using w(2) sz by (simp add: wire_def)
  then have "agrees (encode msg rem @ payload_bytes msg) (unread (cl_desc s data))" by (simp add: agrees_def)
  ultimately have "consumes (settled H (same_message msg)) [] rest (iotc_mqtt_parser_execute (codec_parsing data s))"
    using parsesD [OF parses_message [OF ok(1,2) sz ok(3), of H], of "codec_parsing data s"] src by simp
  then obtain s' where e: "iotc_mqtt_parser_execute (codec_parsing data s) = (IOTC_STATE_OK, s')" "settled H (same_message msg) s'" "pg_src s' = rest"
    by (auto elim: consumes.cases)
  have n: "length (unread (cl_desc s data)) - length rest = length (wire msg)" "length (wire msg) \<le> length (unread (cl_desc s data))"
    using w(2) by simp_all
  have u: "unread ((cl_desc s data)\<lparr>d_curr_pos := d_curr_pos (cl_desc s data) + of_nat (length (wire msg))\<rparr>) = rest"
    using unread_advance [OF n(2)] w(2) by simp
  note ready = ready_advance [OF d n(2)]
  from e(2) have h: "owns_blocks base (mset qs + (mset (vec_list (ev_timers s)) + (blocks_of (pg_msg s') + M))) (pg_mem s')"
    "all_granted (pg_mem s')" "same_message msg (pg_msg s')"
    by (simp_all add: settled_def heap_ok_def H_def ac_simps)
  have s1: "st = IOTC_STATE_OK" "s1 = s\<lparr>ev_mem := pg_mem s', mq_msg := (mq_msg s)(co_msg (cl_data s) := pg_msg s'), cl_static := pg_local s',
        cl_desc := (cl_desc s)(data := (cl_desc s data)\<lparr>d_curr_pos := d_curr_pos (cl_desc s data) + of_nat (length (wire msg))\<rparr>),
        cl_data := (cl_data s)\<lparr>co_parser := parser.truncate s', co_local_state := IOTC_STATE_OK\<rparr>\<rparr>"
    using r by (simp_all add: run_parser_parsed codec_parsed_def e n(1))
  have "sys base hs (blocks_of (pg_msg s') + M) s1"
    using o q h(1,2) unfolding sys_def s1(2) by (auto simp: lock_free_def intro!: exI [of _ qs])
  then show ?thesis using h(3) u ready by (simp add: s1 desc_blocks_def)
qed

definition codec_idle :: "ptr \<Rightarrow> 'z codec_scheme \<Rightarrow> bool" where
  "codec_idle context s \<longleftrightarrow> user_data context s \<noteq> NULL \<and> \<not> IOTC_THIS_LAYER_NOT_OPERATIONAL context s
     \<and> neighbour_ok context s Next \<and> co_pull_cs (cl_data s) \<le> 2 \<and> co_msg (cl_data s) = NULL"

lemma idle_upd:
  "codec_idle context s \<Longrightarrow> ly_at s' = ly_at s \<Longrightarrow> co_pull_cs (cl_data s') \<le> 2 \<Longrightarrow> co_msg (cl_data s') = NULL
    \<Longrightarrow> codec_idle context s'"
  by (auto simp: codec_idle_def layers_upd IOTC_THIS_LAYER_NOT_OPERATIONAL_def)

lemma sys_codec [simp]:
  fixes s :: "'z codec_scheme"
  shows "sys base hs M (on_codec f s) = sys base hs M s"
  by (simp add: sys_def on_codec_def lock_free_def)

lemma on_codec_simps [simp]:
  "cl_data (on_codec f s) = f (cl_data s)" "ly_at (on_codec f s) = ly_at s" "mq_msg (on_codec f s) = mq_msg s"
  "cl_desc (on_codec f s) = cl_desc s" "ev_mem (on_codec f s) = ev_mem s" "cl_static (on_codec f s) = cl_static s"
  by (simp_all add: on_codec_def)

lemma round_delivers:
  assumes i: "codec_idle context s" and o: "sys base hs (desc_blocks (Some (cl_desc s data)) + M) s"
    and d: "desc_ready (cl_desc s data)" and w: "wire_ok msg" "unread (cl_desc s data) = wire msg @ rest"
  obtains p s1 where "codec_pull_round context data IOTC_STATE_OK s =
      (if rest = [] then Inl (IOTC_STATE_OK, on_codec (\<lambda>d. d\<lparr>co_pull_cs := 1\<rparr>) (free_data_desc data s1)) else Inr s1)"
    "p \<notin># desc_blocks (Some (cl_desc s data)) + M" "same_message msg (mq_msg s1 p)" "codec_idle context s1"
    "mq_msg s1 = (mq_msg s)(p := mq_msg s1 p)" "ly_at s1 = ly_at s"
    "sys base (hs @ [call_handle context s (Next, F_pull, p, IOTC_STATE_OK)])
       (message_blocks p (mq_msg s1 p) + (desc_blocks (Some (cl_desc s1 data)) + M)) s1"
    "unread (cl_desc s1 data) = rest" "desc_ready (cl_desc s1 data)"
proof -
  let ?B = "desc_blocks (Some (cl_desc s data)) + M"
  obtain p a where al: "alloc_message s = (p, a)" by fastforce
  from sys_alloc_message [OF o al] have p: "p \<noteq> NULL" "p \<notin># ?B" and oa: "sys base hs (add_mset p ?B) a"
    and a: "a = s\<lparr>ev_mem := ev_mem a, mq_msg := (mq_msg s)(p := zeroed_message)\<rparr>" by auto
  define b where "b = on_codec (\<lambda>d. d\<lparr>co_parser := iotc_mqtt_parser_init\<rparr>) (on_codec (\<lambda>d. d\<lparr>co_msg := p\<rparr>) a)"
  have fa: "cl_desc a = cl_desc s" "cl_data a = cl_data s" "mq_msg a = (mq_msg s)(p := zeroed_message)" "ly_at a = ly_at s"
    by (subst a, simp)+
  have fb: "cl_desc b = cl_desc s" "co_msg (cl_data b) = p" "mq_msg b = (mq_msg s)(p := zeroed_message)" "ly_at b = ly_at s"
    "co_parser (cl_data b) = iotc_mqtt_parser_init" by (simp_all add: b_def fa)
  obtain st c where r: "run_parser data b = (st, c)" by fastforce
  have ob: "sys base hs (add_mset p ?B) b" using oa by (simp add: b_def)
  from parsed_message [OF ob w(1) _ _ _ _ r] w(2) d
  have c: "st = IOTC_STATE_OK" "same_message msg (mq_msg c p)" "sys base hs (blocks_of (mq_msg c p) + add_mset p ?B) c"
    "mq_msg c = (mq_msg b)(p := mq_msg c p)" "unread (cl_desc c data) = rest" "desc_ready (cl_desc c data)"
    "desc_blocks (Some (cl_desc c data)) = desc_blocks (Some (cl_desc s data))" "co_local_state (cl_data c) = IOTC_STATE_OK"
    "co_msg (cl_data c) = p" "ly_at c = ly_at s"
    by (simp_all add: fb)
  let ?c = "on_codec (\<lambda>d. d\<lparr>co_msg := NULL\<rparr>) c"
  obtain rr e where k: "IOTC_PROCESS_PULL_ON_NEXT_LAYER context p IOTC_STATE_OK ?c = (rr, e)" by fastforce
  have nb: "neighbour_ok context ?c Next" and ch: "call_handle context ?c x = call_handle context s x" for x
    using layers_upd [of "context" s Next ?c] i c(10) by (simp_all add: codec_idle_def)
  from sys_continue [OF _ nb, of base hs "blocks_of (mq_msg c p) + add_mset p ?B" F_pull p IOTC_STATE_OK rr e] k c(3)
  have e: "sys base (hs @ [call_handle context s (Next, F_pull, p, IOTC_STATE_OK)]) (blocks_of (mq_msg c p) + add_mset p ?B) e"
    "ly_at e = ly_at s" by (simp_all add: ch c(10))
  have e': "e = snd (IOTC_PROCESS_PULL_ON_NEXT_LAYER context p IOTC_STATE_OK ?c)" by (simp add: k)
  have fe: "cl_desc e = cl_desc c" "cl_data e = cl_data ?c" "mq_msg e = mq_msg c" unfolding e' by (simp_all add: continue_codec frame)
  define s1 where "s1 = on_codec (\<lambda>d. d\<lparr>co_pull_cs := 2\<rparr>) e"
  show thesis
  proof (rule that [of s1 p])
    have "codec_pull_round context data IOTC_STATE_OK s = codec_pull_done context data c"
      using i r p(1) al by (simp add: codec_pull_round_def codec_idle_def codec_pull_parse_def c(1) flip: b_def)
    also have "\<dots> = (if rest = [] then Inl (IOTC_STATE_OK, on_codec (\<lambda>d. d\<lparr>co_pull_cs := 1\<rparr>) (free_data_desc data s1)) else Inr s1)"
      using ready_at_end [OF c(6)] by (simp add: codec_pull_done_def Let_def c k fe s1_def)
    finally show "codec_pull_round context data IOTC_STATE_OK s =
      (if rest = [] then Inl (IOTC_STATE_OK, on_codec (\<lambda>d. d\<lparr>co_pull_cs := 1\<rparr>) (free_data_desc data s1)) else Inr s1)" .
    show "codec_idle context s1" by (rule idle_upd [OF i]) (simp_all add: s1_def e(2) fe)
    show "sys base (hs @ [call_handle context s (Next, F_pull, p, IOTC_STATE_OK)])
       (message_blocks p (mq_msg s1 p) + (desc_blocks (Some (cl_desc s1 data)) + M)) s1"
      using e(1) by (simp add: s1_def message_blocks_def blocks_of_def fe c(7) ac_simps)
    show "mq_msg s1 = (mq_msg s)(p := mq_msg s1 p)" using c(4) by (simp add: s1_def fe fb)
  qed (use p c e(2) in \<open>simp_all add: s1_def fe\<close>)
qed

lemma pull_round:
  "codec_pull_round context data st s = Inl r \<Longrightarrow> iotc_mqtt_codec_layer_pull context data st s = r"
  "codec_pull_round context data st s = Inr s1 \<Longrightarrow>
     iotc_mqtt_codec_layer_pull context data st s = iotc_mqtt_codec_layer_pull context data st s1"
  by (subst iotc_mqtt_codec_layer_pull.simps, simp)+

abbreviation (input) delivered :: "ptr \<Rightarrow> 'z layered_scheme \<Rightarrow> ptr \<Rightarrow> event_handle" where
  "delivered context s p \<equiv> call_handle context s (Next, F_pull, p, IOTC_STATE_OK)"


definition delivery_example :: codec where
  "delivery_example = example_codec [61, 60] (\<lambda>p. zeroed_message) (\<lambda>p. \<lparr>ct_msg = NULL, ct_msg_id = 0, ct_msg_type = IOTC_MQTT_TYPE_NONE\<rparr>)
     (\<lambda>p. (zeroed_desc 60)\<lparr>d_data_ptr := 61, d_bytes := [0x40, 2, 1, 2, 0xd0, 0], d_length := 6, d_capacity := 6,
        d_memory_type := IOTC_MEMORY_TYPE_MANAGED\<rparr>) zeroed_codec_data"


end
