(* ===== verification/Iotc_Mqtt_Codec_Push.thy ===== *)
theory Iotc_Mqtt_Codec_Push
  imports Iotc_Mqtt_Codec_Pull
begin

text \<open>
  The sending side of the codec layer refines a small machine: a queue of messages of which the first is being sent, its header
  or its payload. Every step emits the buffers for the layer below and the reports for the logic layer.
\<close>

section \<open>The specification\<close>

datatype phase = Idle | Header | Payload

datatype sent =
    Send "byte list"
  | Report nat mqtt_type iotc_state

type_synonym sender = "phase \<times> mqtt_message list"

definition header_bytes :: "mqtt_message \<Rightarrow> byte list" where
  "header_bytes msg = encode msg (fst (snd (snd (iotc_mqtt_serialiser_size msg))))"

definition encodable :: "mqtt_message \<Rightarrow> bool" where
  "encodable msg \<longleftrightarrow> sendable msg \<and> fst (snd (snd (iotc_mqtt_serialiser_size msg))) \<le> 268435455"

fun submit :: "mqtt_message \<Rightarrow> sender \<Rightarrow> sender \<times> sent list" where
  "submit msg (Idle, msgs) = ((Header, [msg]), [Send (header_bytes msg)])"
| "submit msg (ph, msgs) = ((ph, msgs @ [msg]), [])"

definition report :: "iotc_state \<Rightarrow> mqtt_message \<Rightarrow> sent" where
  "report st msg = Report (iotc_mqtt_get_message_id msg) (mm_type msg) st"

fun sent_off :: "iotc_state \<Rightarrow> mqtt_message list \<Rightarrow> sender \<times> sent list" where
  "sent_off st [] = ((Idle, []), [])"
| "sent_off st [msg] = ((Idle, []), [report st msg])"
| "sent_off st (msg # next_msg # msgs) = ((Header, next_msg # msgs), [report st msg, Send (header_bytes next_msg)])"

fun confirm :: "iotc_state \<Rightarrow> sender \<Rightarrow> sender \<times> sent list" where
  "confirm st (Header, msg # msgs) =
     (if st = IOTC_STATE_WRITTEN \<and> payload_bytes msg \<noteq> [] then ((Payload, msg # msgs), [Send (payload_bytes msg)])
      else sent_off st (msg # msgs))"
| "confirm st (ph, msgs) = sent_off st msgs"

section \<open>The relation to the state of the layer\<close>

text \<open>An item is a task and its message.\<close>

definition item_ok :: "'z codec_scheme \<Rightarrow> ptr \<times> ptr \<Rightarrow> bool" where
  "item_ok s i = (case i of (t, p) \<Rightarrow> cl_task s t = \<lparr>ct_msg = p, ct_msg_id = iotc_mqtt_get_message_id (mq_msg s p),
     ct_msg_type = mm_type (mq_msg s p)\<rparr> \<and> encodable (mq_msg s p))"

definition item_blocks :: "'z codec_scheme \<Rightarrow> (ptr \<times> ptr) list \<Rightarrow> ptr multiset" where
  "item_blocks s items = \<Sum>\<^sub># (mset (map (\<lambda>(t, p). add_mset t (message_blocks p (mq_msg s p))) items))"

definition item_msgs :: "'z codec_scheme \<Rightarrow> (ptr \<times> ptr) list \<Rightarrow> mqtt_message list" where
  "item_msgs s items = map (\<lambda>(t, p). mq_msg s p) items"

definition codec_linked :: "ptr \<Rightarrow> 'z codec_scheme \<Rightarrow> bool" where
  "codec_linked context s \<longleftrightarrow> user_data context s \<noteq> NULL \<and> \<not> IOTC_THIS_LAYER_NOT_OPERATIONAL context s
     \<and> neighbour_ok context s Next \<and> neighbour_ok context s Prev"

definition in_phase :: "phase \<Rightarrow> mqtt_message list \<Rightarrow> codec_data \<Rightarrow> bool" where
  "in_phase ph msgs d \<longleftrightarrow>
     (case ph of
        Idle \<Rightarrow> msgs = [] \<and> co_push_cs d \<le> 2
      | Header \<Rightarrow> msgs \<noteq> [] \<and> co_push_cs d = 156 \<and> co_msg_id d = iotc_mqtt_get_message_id (hd msgs) \<and> co_msg_type d = mm_type (hd msgs)
      | Payload \<Rightarrow> msgs \<noteq> [] \<and> co_push_cs d = 188 \<and> co_msg_id d = iotc_mqtt_get_message_id (hd msgs) \<and> co_msg_type d = mm_type (hd msgs))"

definition codec_sends :: "ptr \<Rightarrow> phase \<Rightarrow> (ptr \<times> ptr) list \<Rightarrow> 'z codec_scheme \<Rightarrow> bool" where
  "codec_sends context ph items s \<longleftrightarrow> codec_linked context s \<and> co_task_queue (cl_data s) = map fst items
     \<and> (\<forall>i\<in>set items. item_ok s i) \<and> in_phase ph (item_msgs s items) (cl_data s)"

text \<open>A call that carries an output, and the blocks it hands over.\<close>

fun emits :: "ptr \<Rightarrow> 'z codec_scheme \<Rightarrow> sent \<Rightarrow> event_handle \<times> ptr multiset \<Rightarrow> bool" where
  "emits context s (Send bs) (h, B) \<longleftrightarrow>
     (\<exists>d. h = call_handle context s (Prev, F_push, d, IOTC_STATE_OK) \<and> d_self (cl_desc s d) = d
        \<and> desc_data (cl_desc s d) = bs \<and> B = desc_blocks (Some (cl_desc s d)))"
| "emits context s (Report i ty st) (h, B) \<longleftrightarrow>
     (\<exists>w. h = call_handle context s (Next, F_push, w, st) \<and> mq_written s w = (i, ty) \<and> B = {#w#})"

section \<open>The steps\<close>

lemma linked_upd: "codec_linked context s \<Longrightarrow> ly_at s' = ly_at s \<Longrightarrow> codec_linked context s'"
  by (auto simp: codec_linked_def layers_upd IOTC_THIS_LAYER_NOT_OPERATIONAL_def)

lemma continue_written:
  fixes s :: "'z codec_scheme"
  shows "mq_written (snd (IOTC_LAYER_CONTINUE_WITH dir f context data st s)) = mq_written s"
  by (simp add: frame)

lemma sys_desc:
  fixes s :: "'z codec_scheme"
  shows "sys base hs M (s\<lparr>cl_desc := x\<rparr>) = sys base hs M s" "sys base hs M (s\<lparr>cl_task := y\<rparr>) = sys base hs M s"
    "sys base hs M (s\<lparr>mq_written := z\<rparr>) = sys base hs M s"
  by (simp_all add: sys_def lock_free_def)

lemma desc_over_blocks:
  assumes "owns_blocks base M m" and "desc_over (m_live m) d m'"
  shows "owns_blocks base (desc_blocks (Some d) + M) m'"
proof -
  have l: "m_live m (d_self d) = None" "m_live m (d_data_ptr d) = None" using assms(2) by (simp_all add: desc_over_def)
  then have n: "d_self d \<notin># M" "d_data_ptr d \<notin># M" using owns_live [OF assms(1)] by metis+
  with l assms(1) have b: "base (d_self d) = None" "base (d_data_ptr d) = None" by (auto simp: owns_blocks_def)
  have "count (desc_blocks (Some d) + M) p \<le> 1" for p
    using assms n by (auto simp: owns_blocks_def desc_over_def desc_blocks_def count_eq_zero_iff)
  then show ?thesis using assms n b by (auto simp: owns_blocks_def desc_over_def desc_blocks_def not_in_iff)
qed

lemma make_empty_capacity:
  "iotc_make_empty_desc_alloc n m = (Some d, m') \<Longrightarrow> n < 2 ^ 32 \<Longrightarrow> unat (d_capacity d) = n"
  by (auto simp: iotc_make_empty_desc_alloc_def Let_def unat_of_nat take_bit_eq_mod split: prod.splits if_splits)

lemma start_sends:
  assumes o: "sys base hs M s" and c: "codec_linked context s" and p: "p \<noteq> NULL" and e: "encodable (mq_msg s p)"
    and r: "codec_push_start context p s = (r, s')"
  shows "r = IOTC_STATE_OK \<and> (\<exists>h B. emits context s' (Send (header_bytes (mq_msg s p))) (h, B) \<and> sys base (hs @ [h]) (B + M) s')
    \<and> cl_data s' = (cl_data s)\<lparr>co_msg_id := iotc_mqtt_get_message_id (mq_msg s p), co_msg_type := mm_type (mq_msg s p), co_push_cs := 156\<rparr>
    \<and> cl_task s' = cl_task s \<and> mq_msg s' = mq_msg s \<and> ly_at s' = ly_at s \<and> mq_written s' = mq_written s"
proof -
  let ?m = "mq_msg s p"
  obtain st len rem payload where sz: "iotc_mqtt_serialiser_size ?m = (st, len, rem, payload)" by (metis prod_cases4)
  from e sz have en: "sendable ?m" "rem \<le> 268435455" and hb: "header_bytes ?m = encode ?m rem"
    by (simp_all add: encodable_def header_bytes_def)
  let ?c = "len - payload"
  have "length (encode ?m rem) = ?c" "length (encode ?m rem) \<le> 5 + rem"
    using size_of_body [OF en(1) sz] length_enc_remaining [OF en(2)]
    by (simp_all add: encode_def iotc_mqtt_get_remaining_length_bytes_def)
  then have small: "?c < 2 ^ 32" and ec: "length (encode ?m rem) = ?c" using en(2) by simp_all
  obtain qs where q: "chain (ev_next s) (ev_call_queue s) qs" "map (ev_queued s) qs = hs"
    and ob: "owns_blocks base (mset qs + (mset (vec_list (ev_timers s)) + M)) (ev_mem s)" using o by (auto simp: sys_def)
  obtain d m' where d: "iotc_make_empty_desc_alloc ?c (ev_mem s) = (Some d, m')" "desc_over (m_live (ev_mem s)) d m'"
    "all_granted m'" "desc_data d = []"
    using make_empty_granted [of "ev_mem s" ?c] ob small o by (auto simp: owns_blocks_def sys_def)
  have cap: "unat (d_capacity d) = ?c" by (rule make_empty_capacity [OF d(1) small])
  have di: "desc_inv d" using d(2) by (simp add: desc_over_def)
  from write_message [OF en(1) sz en(2) di d(4)] cap obtain x where st: "st = IOTC_STATE_OK"
    and x: "iotc_mqtt_serialiser_write ?m rem (Some d) = (True, Some x)" "same_buffer d x" "desc_data x = encode ?m rem" by auto
  have bx: "desc_blocks (Some x) = desc_blocks (Some d)" "d_self x = d_self d" using x(2) by (simp_all add: same_buffer_def desc_blocks_def)
  define s2 where "s2 = on_codec (\<lambda>c. c\<lparr>co_push_cs := 156\<rparr>) ((on_codec (\<lambda>d. d\<lparr>co_msg_id := iotc_mqtt_get_message_id ?m,
      co_msg_type := mm_type ?m\<rparr>) s)\<lparr>ev_mem := m', cl_desc := (cl_desc s)(d_self d := x)\<rparr>)"
  have o2: "sys base hs (desc_blocks (Some d) + M) s2"
    using desc_over_blocks [OF ob d(2)] q o d(3) by (auto simp: s2_def sys_def lock_free_def on_codec_def ac_simps intro!: exI [of _ qs])
  have f2: "cl_data s2 = (cl_data s)\<lparr>co_msg_id := iotc_mqtt_get_message_id ?m, co_msg_type := mm_type ?m, co_push_cs := 156\<rparr>"
    "cl_task s2 = cl_task s" "mq_msg s2 = mq_msg s" "ly_at s2 = ly_at s" "mq_written s2 = mq_written s" "cl_desc s2 (d_self d) = x"
    by (simp_all add: s2_def on_codec_def)
  note nb = layers_upd [of "context" s Prev s2]
  from c have nbp: "neighbour_ok context s Prev" by (simp add: codec_linked_def)
  have k: "IOTC_PROCESS_PUSH_ON_PREV_LAYER context (d_self d) IOTC_STATE_OK s2 = (r, s')"
    using r p sz st x(1) d(1) by (simp add: codec_push_start_def Let_def s2_def on_codec_def)
  from sys_continue [OF o2 nb(1) [OF nbp f2(4)], of F_push "d_self d" IOTC_STATE_OK r s'] k
  have o3: "r = IOTC_STATE_OK" "sys base (hs @ [call_handle context s (Prev, F_push, d_self d, IOTC_STATE_OK)]) (desc_blocks (Some d) + M) s'"
    "ly_at s' = ly_at s" by (simp_all add: nb(2) [OF nbp f2(4)] f2(4))
  have s': "s' = snd (IOTC_PROCESS_PUSH_ON_PREV_LAYER context (d_self d) IOTC_STATE_OK s2)" by (simp add: k)
  have f3: "cl_desc s' = cl_desc s2" "cl_data s' = cl_data s2" "mq_msg s' = mq_msg s2" "cl_task s' = cl_task s2" "mq_written s' = mq_written s2"
    unfolding s' by (simp_all add: continue_codec frame)
  have "emits context s' (Send (header_bytes ?m)) (call_handle context s (Prev, F_push, d_self d, IOTC_STATE_OK), desc_blocks (Some d))"
    using bx x(3) layers_upd(2) [OF nbp o3(3)] by (auto simp: f3 f2 hb intro!: exI [of _ "d_self d"])
  with o3 f3 f2 show ?thesis by auto
qed

text \<open>The state of the layer after some outputs; \<open>hs\<close> are the calls that were pending before them.\<close>

definition codec_after ::
    "(ptr \<rightharpoonup> nat) \<Rightarrow> event_handle list \<Rightarrow> ptr multiset \<Rightarrow> ptr \<Rightarrow> sent list \<Rightarrow> phase \<Rightarrow> (ptr \<times> ptr) list \<Rightarrow> 'z codec_scheme \<Rightarrow> bool" where
  "codec_after base hs M context outs ph items s \<longleftrightarrow> codec_sends context ph items s
     \<and> (\<exists>es. list_all2 (emits context s) outs es
          \<and> sys base (hs @ map fst es) (\<Sum>\<^sub># (mset (map snd es)) + (item_blocks s items + M)) s)"

lemma codec_afterI:
  assumes "codec_sends context ph items s" and "list_all2 (emits context s) outs es" and "sys base hs' B s"
    and "hs' = hs @ map fst es" and "B = \<Sum>\<^sub># (mset (map snd es)) + (item_blocks s items + M)"
  shows "codec_after base hs M context outs ph items s"
  using assms by (auto simp: codec_after_def)

lemma sys_alloc_written:
  fixes s :: "'z codec_scheme"
  assumes "sys base hs M s" and "alloc_written_data i ty s = (w, s')"
  shows "w \<noteq> NULL \<and> sys base hs (add_mset w M) s' \<and> mq_written s' w = (i, ty) \<and> w \<notin># M
    \<and> cl_task s' = cl_task s \<and> cl_data s' = cl_data s \<and> mq_msg s' = mq_msg s \<and> ly_at s' = ly_at s \<and> cl_desc s' = cl_desc s"
proof -
  obtain p m where a: "iotc_alloc sizeof_written_data (ev_mem s) = (p, m)" by fastforce
  from sys_alloc [OF assms(1) a] have "p \<noteq> NULL" "sys base hs (add_mset p M) (s\<lparr>ev_mem := m\<rparr>)" "p \<notin># M"
    by (simp_all add: sizeof_written_data_def)
  with assms(2) a show ?thesis by (auto simp: alloc_written_data_def sys_def lock_free_def)
qed

lemma on_codec_more [simp]: "cl_task (on_codec f s) = cl_task s" "mq_written (on_codec f s) = mq_written s"
  by (simp_all add: on_codec_def)

lemma set_ct_msg_simps [simp]:
  "t \<noteq> NULL \<Longrightarrow> cl_task (set_ct_msg t p s) = (cl_task s)(t := (cl_task s t)\<lparr>ct_msg := p\<rparr>)"
  "cl_data (set_ct_msg t p s) = cl_data s" "mq_msg (set_ct_msg t p s) = mq_msg s" "ly_at (set_ct_msg t p s) = ly_at s"
  "t \<noteq> NULL \<Longrightarrow> sys base hs M (set_ct_msg t p s) = sys base hs M s" "mq_written (set_ct_msg t p s) = mq_written s"
  by (simp_all add: set_ct_msg_def Let_def sys_def lock_free_def on_mem_def)

lemma free_message_simps [simp]:
  "cl_task (free_message p s) = cl_task s" "cl_data (free_message p s) = cl_data s" "mq_msg (free_message p s) = mq_msg s"
  "ly_at (free_message p s) = ly_at s" "free_message NULL s = s" "mq_written (free_message p s) = mq_written s"
  by (simp_all add: free_message_def on_mem_def iotc_mqtt_message_free_def)

lemma on_mem_codec [simp]:
  "cl_task (on_mem f s) = cl_task s" "cl_data (on_mem f s) = cl_data s" "mq_msg (on_mem f s) = mq_msg s"
  "ly_at (on_mem f s) = ly_at s" "mq_written (on_mem f s) = mq_written s" "cl_desc (on_mem f s) = cl_desc s"
  by (simp_all add: on_mem_def)

lemma item_blocks_simps [simp]:
  "item_blocks s [] = {#}" "item_blocks s ((t, p) # items) = add_mset t (message_blocks p (mq_msg s p)) + item_blocks s items"
  "item_blocks s (items @ items') = item_blocks s items + item_blocks s items'"
  by (simp_all add: item_blocks_def)

lemma item_blocks_upd: "mq_msg s' = mq_msg s \<Longrightarrow> item_blocks s' items = item_blocks s items"
  by (simp add: item_blocks_def)

lemma item_msgs_upd: "mq_msg s' = mq_msg s \<Longrightarrow> item_msgs s' items = item_msgs s items"
  by (simp add: item_msgs_def)

lemma item_task_in: "(t, p) \<in> set items \<Longrightarrow> t \<in># item_blocks s items"
  by (induction items) (auto simp: item_blocks_def)

lemma sys_distinct: "sys base hs (add_mset p M) s \<Longrightarrow> p \<notin># M"
  unfolding sys_def owns_blocks_def by (auto simp: not_in_iff dest!: spec [of _ p])

lemma finalise_ok:
  assumes c: "codec_sends context ph ((t, p) # items) s" and o: "sys base hs (item_blocks s ((t, p) # items) + M) s" and ph: "ph \<noteq> Idle"
    and r: "codec_push_finalise context data st s = (r, s')"
  shows "r = IOTC_STATE_OK \<and> (\<exists>ph' outs. sent_off st (item_msgs s ((t, p) # items)) = ((ph', item_msgs s' items), outs)
    \<and> codec_after base hs M context outs ph' items s')"
proof -
  let ?m = "mq_msg s p"
  from c have l: "codec_linked context s" and q: "co_task_queue (cl_data s) = t # map fst items" "ct_msg (cl_task s t) = p"
    and it: "\<forall>i\<in>set items. item_ok s i" and id: "co_msg_id (cl_data s) = iotc_mqtt_get_message_id ?m" "co_msg_type (cl_data s) = mm_type ?m"
    using ph by (auto simp: codec_sends_def item_ok_def in_phase_def item_msgs_def split: phase.splits)
  have t: "t \<noteq> NULL" using sys_not_NULL [OF o, of t] by auto
  have "t \<notin># message_blocks p ?m + item_blocks s items + M" using sys_distinct [of base hs t "message_blocks p ?m + item_blocks s items + M" s] o by (simp add: ac_simps)
  then have tn: "t \<notin># item_blocks s items" by auto
  define s1 where "s1 = set_ct_msg t NULL (free_message p s)"
  have "sys base hs (add_mset t (item_blocks s items + M)) (free_message p s)"
    by (rule sys_free_message) (use o in \<open>simp add: ac_simps\<close>)
  then have o1: "sys base hs (add_mset t (item_blocks s items + M)) s1" by (simp add: s1_def t)
  obtain w s2 where a: "alloc_written_data (iotc_mqtt_get_message_id ?m) (mm_type ?m) s1 = (w, s2)" by fastforce
  from sys_alloc_written [OF o1 a] have w: "w \<noteq> NULL" "mq_written s2 w = (iotc_mqtt_get_message_id ?m, mm_type ?m)"
    and o2: "sys base hs (add_mset w (add_mset t (item_blocks s items + M))) s2"
    and f2: "cl_task s2 = (cl_task s)(t := (cl_task s t)\<lparr>ct_msg := NULL\<rparr>)" "cl_data s2 = cl_data s" "mq_msg s2 = mq_msg s" "ly_at s2 = ly_at s"
    using t by (auto simp: s1_def)
  obtain k s3 where k: "IOTC_PROCESS_PUSH_ON_NEXT_LAYER context w st s2 = (k, s3)" by fastforce
  from l have nbn: "neighbour_ok context s Next" by (simp add: codec_linked_def)
  note nb = layers_upd [OF nbn f2(4)]
  let ?h = "call_handle context s (Next, F_push, w, st)"
  from sys_continue [OF o2 nb(1), of F_push w st k s3] k
  have o3: "sys base (hs @ [?h]) (add_mset w (add_mset t (item_blocks s items + M))) s3" "ly_at s3 = ly_at s"
    by (simp_all add: nb(2) f2(4))
  have s3: "s3 = snd (IOTC_PROCESS_PUSH_ON_NEXT_LAYER context w st s2)" by (simp add: k)
  have f3: "cl_data s3 = cl_data s" "mq_msg s3 = mq_msg s" "cl_task s3 = cl_task s2" "mq_written s3 = mq_written s2"
    unfolding s3 by (simp_all add: continue_codec frame f2)
  define s4 where "s4 = iotc_mqtt_codec_layer_free_task t (on_codec (\<lambda>d. d\<lparr>co_task_queue := tl (co_task_queue d)\<rparr>) s3)"
  have s4: "s4 = on_mem (IOTC_SAFE_FREE t) (on_codec (\<lambda>d. d\<lparr>co_task_queue := tl (co_task_queue d)\<rparr>) s3)"
    using t by (simp add: s4_def iotc_mqtt_codec_layer_free_task_def f3 f2 on_codec_def)
  have o4: "sys base (hs @ [?h]) (add_mset w (item_blocks s items + M)) s4" unfolding s4
    by (rule sys_free) (use o3(1) in \<open>simp add: add_mset_commute\<close>)
  have f4: "cl_data s4 = (cl_data s)\<lparr>co_task_queue := map fst items\<rparr>" "mq_msg s4 = mq_msg s" "cl_task s4 = cl_task s2"
    "mq_written s4 = mq_written s2" "ly_at s4 = ly_at s"
    by (simp_all add: s4 f3 o3(2) q(1))
  have it4: "item_ok s4 i" if "i \<in> set items" for i
    using that it tn item_task_in [of "fst i" "snd i" items s] by (auto simp: item_ok_def f4 f2)
  have r4: "codec_push_finalise context data st s = (if items \<noteq> [] then
      (case iotc_mqtt_codec_layer_activate_task (task_queue_head s4) s4 of (msg_to_send, s5) \<Rightarrow>
                      codec_push_next context msg_to_send (on_codec (\<lambda>d. d\<lparr>co_push_cs := 1\<rparr>) s5))
                 else (IOTC_STATE_OK, on_codec (\<lambda>d. d\<lparr>co_push_cs := 1\<rparr>) s4))"
    using a k w(1) by (simp add: codec_push_finalise_def Let_def task_queue_head_def q id f4(1) flip: s1_def s4_def)
  have e: "emits context s' (report st ?m) (?h, {#w#})" if "ly_at s' = ly_at s" "mq_written s' = mq_written s4" for s' :: "'a codec_scheme"
    using w(2) layers_upd(2) [OF nbn that(1)] by (auto simp: report_def that(2) f4 intro!: exI [of _ w])
  show ?thesis
  proof (cases items)
    case Nil
    then have s': "r = IOTC_STATE_OK" "s' = on_codec (\<lambda>d. d\<lparr>co_push_cs := 1\<rparr>) s4" using r r4 by simp_all
    have "codec_after base hs M context [report st ?m] Idle [] s'"
      using linked_upd [OF l, of s'] e [of s'] o4 Nil
      by (auto simp: codec_after_def codec_sends_def in_phase_def item_msgs_def s' f4 intro!: exI [of _ "[(?h, {#w#})]"])
    then show ?thesis using s'(1) Nil by (simp add: item_msgs_def)
  next
    case (Cons i items2)
    obtain t2 p2 where i: "i = (t2, p2)" by fastforce
    have t2: "t2 \<noteq> NULL" "p2 \<noteq> NULL" using sys_not_NULL [OF o4, of t2] sys_not_NULL [OF o4, of p2] Cons i
      by (auto simp: message_blocks_def)
    from it4 [of i] Cons i have ok: "cl_task s4 t2 = \<lparr>ct_msg = p2, ct_msg_id = iotc_mqtt_get_message_id (mq_msg s p2),
        ct_msg_type = mm_type (mq_msg s p2)\<rparr>" "encodable (mq_msg s p2)" by (simp_all add: item_ok_def f4)
    have hd: "task_queue_head s4 = t2" by (simp add: task_queue_head_def f4(1) Cons i)
    define s5 where "s5 = on_codec (\<lambda>d. d\<lparr>co_push_cs := 1\<rparr>) (set_ct_msg t2 NULL s4)"
    have f5: "ly_at s5 = ly_at s" by (simp add: s5_def f4)
    note l5 = linked_upd [OF l f5]
    define s6 where "s6 = set_ct_msg t2 p2 s5"
    have f6: "cl_task s6 = cl_task s4" "cl_data s6 = (cl_data s4)\<lparr>co_push_cs := 1\<rparr>" "mq_msg s6 = mq_msg s" "ly_at s6 = ly_at s"
      "mq_written s6 = mq_written s4"
      using t2 ok(1) by (simp_all add: s6_def s5_def f4) (simp_all add: on_codec_def ok(1) fun_upd_idem f4)
    have o6: "sys base (hs @ [?h]) (add_mset w (item_blocks s items + M)) s6"
      using o4 t2 by (simp add: s6_def s5_def)
    have hd5: "task_queue_head s5 = t2" using hd by (simp add: task_queue_head_def s5_def)
    have "codec_push_finalise context data st s = codec_push_next context p2 s5"
      using r4 Cons ok(1) by (simp add: hd iotc_mqtt_codec_layer_activate_task_def s5_def)
    also have "\<dots> = codec_push_start context p2 s6"
      using l5 by (simp add: codec_push_next_def codec_linked_def iotc_mqtt_codec_layer_continue_task_def hd5 s6_def)
    finally have "codec_push_start context p2 s6 = (r, s')" using r by simp
    from start_sends [OF o6 linked_upd [OF l f6(4)] t2(2) _ this] ok(2) obtain h B
      where rr: "r = IOTC_STATE_OK" and h: "emits context s' (Send (header_bytes (mq_msg s p2))) (h, B)"
      and o7: "sys base ((hs @ [?h]) @ [h]) (B + add_mset w (item_blocks s items + M)) s'"
      and f7: "cl_data s' = (cl_data s6)\<lparr>co_msg_id := iotc_mqtt_get_message_id (mq_msg s p2), co_msg_type := mm_type (mq_msg s p2), co_push_cs := 156\<rparr>"
        "cl_task s' = cl_task s4" "mq_msg s' = mq_msg s" "ly_at s' = ly_at s" "mq_written s' = mq_written s4"
      by (auto simp: f6)
    have "codec_sends context Header items s'"
      using linked_upd [OF l f7(4)] it4 by (auto simp: codec_sends_def in_phase_def f7 f6 f4 item_ok_def item_msgs_def Cons i)
    moreover have "item_blocks s' items = item_blocks s items" by (rule item_blocks_upd [OF f7(3)])
    ultimately have "codec_after base hs M context [report st ?m, Send (header_bytes (mq_msg s p2))] Header items s'"
      using e [OF f7(4,5)] h o7 by (auto simp: codec_after_def ac_simps intro!: exI [of _ "[(?h, {#w#}), (h, B)]"])
    then show ?thesis using rr Cons i by (simp add: item_msgs_def f7(3))
  qed
qed

lemma payload_length:
  assumes "encodable msg" and "mm_body msg = Publish_body topic_name message_id content"
  shows "payload_bytes msg = desc_data (the content)" "length (payload_bytes msg) = desc_length content" "mm_type msg = IOTC_MQTT_TYPE_PUBLISH"
  using assms by (auto simp: encodable_def sendable_def payload_bytes_def desc_ok_def desc_length_def split: mqtt_type.splits option.splits)

lemma no_payload: "mm_body msg \<noteq> Publish_body t i c \<Longrightarrow> (\<And>t i c. mm_body msg \<noteq> Publish_body t i c) \<Longrightarrow> payload_bytes msg = []"
  by (auto simp: payload_bytes_def split: mqtt_body.split)

lemma shared_data:
  "length bs < 2 ^ 32 \<Longrightarrow> desc_data ((zeroed_desc d)\<lparr>d_capacity := of_nat (length bs), d_length := of_nat (length bs),
      d_data_ptr := p, d_bytes := bs, d_memory_type := ty\<rparr>) = bs"
  by (simp add: desc_data_def unat_of_nat take_bit_eq_mod)

lemma payload_sends:
  assumes c: "codec_sends context Header ((t, p) # items) s" and o: "sys base hs (item_blocks s ((t, p) # items) + M) s"
    and b: "payload_bytes (mq_msg s p) \<noteq> []"
    and r: "codec_push_payload context data IOTC_STATE_WRITTEN s = (r, s')"
  shows "r = IOTC_STATE_OK \<and> mq_msg s' = mq_msg s
    \<and> codec_after base hs M context [Send (payload_bytes (mq_msg s p))] Payload ((t, p) # items) s'"
proof -
  let ?m = "mq_msg s p"
  from c have l: "codec_linked context s" and q: "co_task_queue (cl_data s) = t # map fst items" "ct_msg (cl_task s t) = p" and e: "encodable ?m"
    by (auto simp: codec_sends_def item_ok_def)
  from b obtain tn i c where bd: "mm_body ?m = Publish_body tn i c" by (auto simp: payload_bytes_def split: mqtt_body.splits)
  note pl = payload_length [OF e bd]
  have pos: "0 < desc_length c" using pl(1,2) b by (metis length_greater_0_conv)
  have len: "length (desc_data (the c)) < 2 ^ 32" using pl(1,2) unsigned_less [of "d_length (the c)"] by (simp add: desc_length_def)
  obtain d m where a: "iotc_alloc sizeof_data_desc (ev_mem s) = (d, m)" by fastforce
  from sys_alloc [OF o a] have d: "d \<noteq> NULL" "sys base hs (add_mset d (item_blocks s ((t, p) # items) + M)) (s\<lparr>ev_mem := m\<rparr>)"
    by (simp_all add: sizeof_data_desc_def)
  let ?d = "(zeroed_desc d)\<lparr>d_capacity := of_nat (length (desc_data (the c))), d_length := of_nat (length (desc_data (the c))),
      d_data_ptr := d_data_ptr (the c), d_bytes := desc_data (the c), d_memory_type := IOTC_MEMORY_TYPE_UNMANAGED\<rparr>"
  have sd: "d_self ?d = d" "desc_data ?d = payload_bytes ?m" "desc_blocks (Some ?d) = {#d#}"
    using shared_data [OF len] by (simp_all add: pl(1) zeroed_desc_def desc_blocks_def)
  define s1 where "s1 = on_codec (\<lambda>c. c\<lparr>co_push_cs := 188\<rparr>) (s\<lparr>ev_mem := m, cl_desc := (cl_desc s)(d := ?d)\<rparr>)"
  have o1: "sys base hs (add_mset d (item_blocks s ((t, p) # items) + M)) s1"
    using d(2) by (simp add: s1_def sys_def lock_free_def on_codec_def)
  have f1: "ly_at s1 = ly_at s" "mq_msg s1 = mq_msg s" "cl_task s1 = cl_task s" "cl_data s1 = (cl_data s)\<lparr>co_push_cs := 188\<rparr>" "cl_desc s1 d = ?d"
    by (simp_all add: s1_def)
  from l have nbp: "neighbour_ok context s Prev" by (simp add: codec_linked_def)
  note nb = layers_upd [OF nbp f1(1)]
  have k: "IOTC_PROCESS_PUSH_ON_PREV_LAYER context d IOTC_STATE_OK s1 = (r, s')"
    using r bd pl b d(1) a pos
    by (simp add: codec_push_payload_def task_queue_head_def q Let_def iotc_make_desc_from_buffer_share_def zeroed_desc_def s1_def)
  from sys_continue [OF o1 nb(1), of F_push d IOTC_STATE_OK r s'] k
  have o2: "r = IOTC_STATE_OK" "sys base (hs @ [call_handle context s (Prev, F_push, d, IOTC_STATE_OK)]) (add_mset d (item_blocks s ((t, p) # items) + M)) s'"
    "ly_at s' = ly_at s" by (simp_all add: nb(2) f1(1))
  have s': "s' = snd (IOTC_PROCESS_PUSH_ON_PREV_LAYER context d IOTC_STATE_OK s1)" by (simp add: k)
  have f2: "cl_desc s' = cl_desc s1" "cl_data s' = cl_data s1" "mq_msg s' = mq_msg s" "cl_task s' = cl_task s"
    unfolding s' by (simp_all add: continue_codec frame f1)
  have "emits context s' (Send (payload_bytes ?m)) (call_handle context s (Prev, F_push, d, IOTC_STATE_OK), {#d#})"
    using layers_upd(2) [OF nbp o2(3)] sd by (auto simp: f2 f1 intro!: exI [of _ d])
  moreover have "codec_sends context Payload ((t, p) # items) s'"
    using c linked_upd [OF l o2(3)] by (simp add: codec_sends_def f2 f1 item_ok_def in_phase_def item_msgs_def)
  moreover have "item_blocks s' ((t, p) # items) = item_blocks s ((t, p) # items)" by (rule item_blocks_upd [OF f2(3)])
  ultimately have "codec_after base hs M context [Send (payload_bytes ?m)] Payload ((t, p) # items) s'"
    by (intro codec_afterI [OF _ _ o2(2), where es = "[(call_handle context s (Prev, F_push, d, IOTC_STATE_OK), {#d#})]"])
      (simp_all del: emits.simps)
  then show ?thesis using o2(1) f2(3) by simp
qed

text \<open>
  C8. The sending side of the codec layer refines a queue: a message that is submitted while nothing is being sent has its header
  encoded and passed to the layer below; one that is submitted while another is being sent only waits at the end of the
  queue. No block is lost: the messages and their tasks stay owned, and the call hands over the blocks of its buffer.
\<close>

theorem codec_queues_message:
  assumes "codec_sends context ph items s"
    and "sys base hs (message_blocks p (mq_msg s p) + (item_blocks s items + M)) s" and "encodable (mq_msg s p)"
    and "iotc_mqtt_codec_layer_push context p IOTC_STATE_OK s = (r, s')"
  shows "r = IOTC_STATE_OK \<and> (\<exists>t ph' outs.
    submit (mq_msg s p) (ph, item_msgs s items) = ((ph', item_msgs s' (items @ [(t, p)])), outs)
    \<and> codec_after base hs M context outs ph' (items @ [(t, p)]) s')"
proof -
  let ?m = "mq_msg s p" and ?B = "message_blocks p (mq_msg s p) + (item_blocks s items + M)"
  from assms(1) have l: "codec_linked context s" and q: "co_task_queue (cl_data s) = map fst items" and it: "\<forall>i\<in>set items. item_ok s i"
    by (simp_all add: codec_sends_def)
  have p: "p \<noteq> NULL" using sys_not_NULL [OF assms(2), of p] by (simp add: message_blocks_def)
  obtain t m where a: "iotc_alloc sizeof_codec_task (ev_mem s) = (t, m)" by fastforce
  from sys_alloc [OF assms(2) a] have t: "t \<noteq> NULL" "sys base hs (add_mset t ?B) (s\<lparr>ev_mem := m\<rparr>)" "t \<notin># ?B"
    by (simp_all add: sizeof_codec_task_def)
  define s1 where "s1 = on_codec (\<lambda>d. d\<lparr>co_task_queue := co_task_queue d @ [t]\<rparr>) (s\<lparr>ev_mem := m, cl_task := (cl_task s)(t := \<lparr>ct_msg = p,
      ct_msg_id = iotc_mqtt_get_message_id ?m, ct_msg_type = mm_type ?m\<rparr>)\<rparr>)"
  have o1: "sys base hs (add_mset t ?B) s1" using t(2) by (simp add: s1_def sys_def lock_free_def on_codec_def)
  have f1: "ly_at s1 = ly_at s" "mq_msg s1 = mq_msg s" "cl_data s1 = (cl_data s)\<lparr>co_task_queue := map fst (items @ [(t, p)])\<rparr>"
    "cl_task s1 = (cl_task s)(t := \<lparr>ct_msg = p, ct_msg_id = iotc_mqtt_get_message_id ?m, ct_msg_type = mm_type ?m\<rparr>)"
    by (simp_all add: s1_def q)
  note l1 = linked_upd [OF l f1(1)]
  have it1: "item_ok s1 i" if i: "i \<in> set (items @ [(t, p)])" for i
  proof (cases "i = (t, p)")
    case True
    then show ?thesis using assms(3) by (simp add: item_ok_def f1)
  next
    case False
    then have "fst i \<in># item_blocks s items" using i item_task_in [of "fst i" "snd i" items s] by auto
    then have "fst i \<noteq> t" using t(3) by auto
    with False i it show ?thesis by (auto simp: item_ok_def f1 case_prod_beta)
  qed
  have b1: "item_blocks s1 (items @ [(t, p)]) + M = add_mset t ?B" using item_blocks_upd [OF f1(2), of items] by (simp add: f1 ac_simps)
  have r1: "iotc_mqtt_codec_layer_push context p IOTC_STATE_OK s = (if co_push_cs (cl_data s1) > 2 then (IOTC_STATE_OK, s1) else codec_push_start context p s1)"
    using l p a t(1) by (simp add: iotc_mqtt_codec_layer_push_def codec_linked_def iotc_mqtt_codec_layer_make_task_def Let_def f1(3) flip: s1_def)
  show ?thesis
  proof (cases "ph = Idle")
    case True
    with assms(1) have i: "items = []" "co_push_cs (cl_data s1) \<le> 2" by (auto simp: codec_sends_def in_phase_def item_msgs_def f1)
    with r1 assms(4) have "codec_push_start context p s1 = (r, s')" by simp
    from start_sends [OF o1 l1 p _ this] assms(3) obtain h B where rr: "r = IOTC_STATE_OK"
      and h: "emits context s' (Send (header_bytes ?m)) (h, B)" "sys base (hs @ [h]) (B + add_mset t ?B) s'"
      and f2: "cl_data s' = (cl_data s1)\<lparr>co_msg_id := iotc_mqtt_get_message_id ?m, co_msg_type := mm_type ?m, co_push_cs := 156\<rparr>"
        "cl_task s' = cl_task s1" "mq_msg s' = mq_msg s1" "ly_at s' = ly_at s1"
      by (auto simp: f1)
    have "codec_sends context Header (items @ [(t, p)]) s'"
      using linked_upd [OF l1 f2(4)] it1 i(1) by (simp add: codec_sends_def in_phase_def item_msgs_def f1 f2 item_ok_def)
    moreover have "item_blocks s' (items @ [(t, p)]) = item_blocks s1 (items @ [(t, p)])" by (rule item_blocks_upd [OF f2(3)])
    ultimately have "codec_after base hs M context [Send (header_bytes ?m)] Header (items @ [(t, p)]) s'"
      using b1 h(1) by (intro codec_afterI [OF _ _ h(2), where es = "[(h, B)]"]) simp_all
    then show ?thesis using rr i(1) True by (auto simp: item_msgs_def f1 f2)
  next
    case False
    with assms(1) have "co_push_cs (cl_data s1) > 2" by (auto simp: codec_sends_def in_phase_def f1 split: phase.splits)
    with r1 assms(4) have rr: "r = IOTC_STATE_OK" "s' = s1" by simp_all
    have "codec_sends context ph (items @ [(t, p)]) s1" using assms(1) l1 it1 False
      by (auto simp: codec_sends_def in_phase_def item_msgs_def f1 split: phase.splits)
    then have "codec_after base hs M context [] ph (items @ [(t, p)]) s'" unfolding rr
      using b1 by (intro codec_afterI [OF _ _ o1, where es = "[]"]) simp_all
    then show ?thesis using rr False by (cases ph) (auto simp: item_msgs_def f1)
  qed
qed

text \<open>
  C7. When the layer below confirms, the payload of a PUBLISH follows its header; when the message is sent, or one of its parts could
  not be written, the logic layer gets a report with the number and type of the message and this state, the message and its task
  are released, and the header of the next message is passed on.
\<close>

theorem codec_confirms_message:
  assumes "codec_sends context ph (i # items) s" and "sys base hs (item_blocks s (i # items) + M) s"
    and "st \<in> {IOTC_STATE_WRITTEN, IOTC_STATE_FAILED_WRITING}"
    and "iotc_mqtt_codec_layer_push context data st s = (r, s')"
  shows "r = IOTC_STATE_OK \<and> (\<exists>ph' items' outs. items' \<in> {i # items, items}
    \<and> confirm st (ph, item_msgs s (i # items)) = ((ph', item_msgs s' items'), outs)
    \<and> codec_after base hs M context outs ph' items' s')"
proof -
  obtain t p where i: "i = (t, p)" by fastforce
  have ph: "ph \<noteq> Idle" "co_push_cs (cl_data s) = (if ph = Header then 156 else 188)" and l: "codec_linked context s"
    and q: "task_queue_head s = t" "ct_msg (cl_task s t) = p" and e: "encodable (mq_msg s p)"
    using assms(1) by (auto simp: codec_sends_def in_phase_def item_msgs_def i task_queue_head_def item_ok_def split: phase.splits)
  have r: "iotc_mqtt_codec_layer_push context data st s =
      (if ph = Header then codec_push_payload context data st s else codec_push_finalise context data st s)"
    using l ph assms(3) by (auto simp: iotc_mqtt_codec_layer_push_def codec_linked_def)
  have fin: "r = IOTC_STATE_OK \<and> (\<exists>ph' items' outs. items' \<in> {i # items, items}
    \<and> sent_off st (item_msgs s (i # items)) = ((ph', item_msgs s' items'), outs)
    \<and> codec_after base hs M context outs ph' items' s')" if "codec_push_finalise context data st s = (r, s')"
    using finalise_ok [OF assms(1,2) [unfolded i] ph(1) that] i by auto
  have head: "item_msgs s (i # items) = mq_msg s p # item_msgs s items" by (simp add: item_msgs_def i)
  show ?thesis
  proof (cases "ph = Header")
    case False
    then have "confirm st (ph, msgs) = sent_off st msgs" for msgs using ph(1) by (cases ph) auto
    moreover have "codec_push_finalise context data st s = (r, s')" using r assms(4) False by simp
    ultimately show ?thesis using fin by simp
  next
    case True
    show ?thesis
    proof (cases "st = IOTC_STATE_WRITTEN \<and> payload_bytes (mq_msg s p) \<noteq> []")
      case w: True
      then have "codec_push_payload context data IOTC_STATE_WRITTEN s = (r, s')" using r assms(4) True by simp
      from payload_sends [OF _ _ _ this, of t p items base hs M] assms(1,2) i True w show ?thesis
        by (simp add: head) (auto simp: item_msgs_def intro!: exI [of _ "i # items"])
    next
      case False
      have "codec_push_payload context data st s = codec_push_finalise context data st s"
      proof (cases "mm_body (mq_msg s p)")
        case (Publish_body tn n c)
        with payload_length [OF e this] False show ?thesis by (auto simp: codec_push_payload_def q Let_def split: mqtt_type.split)
      qed (auto simp: codec_push_payload_def q Let_def split: mqtt_type.split)
      with r assms(4) True have "codec_push_finalise context data st s = (r, s')" by simp
      moreover have "confirm st (ph, item_msgs s (i # items)) = sent_off st (item_msgs s (i # items))"
        using True False unfolding head by (simp only: confirm.simps if_False)
      ultimately show ?thesis using fin by simp
    qed
  qed
qed

definition push_example :: "nat list \<Rightarrow> nat \<Rightarrow> codec" where
  "push_example queue cs = example_codec ([70] @ queue)
     (\<lambda>p. zeroed_message\<lparr>mm_type := IOTC_MQTT_TYPE_PUBACK, mm_body := Id_body 258\<rparr>)
     (\<lambda>t. \<lparr>ct_msg = 70, ct_msg_id = 258, ct_msg_type = IOTC_MQTT_TYPE_PUBACK\<rparr>) (\<lambda>p. zeroed_desc p)
     (zeroed_codec_data\<lparr>co_task_queue := queue, co_msg_id := 258, co_msg_type := IOTC_MQTT_TYPE_PUBACK, co_push_cs := cs\<rparr>)"

lemma push_example_linked: "codec_linked 42 (push_example q cs)"
  by (simp add: codec_linked_def push_example_def example_layers_def IOTC_THIS_LAYER_NOT_OPERATIONAL_def neighbour_ok_def interface_ok_def)

lemma push_example_message:
  "encodable (mq_msg (push_example q cs) p)" "header_bytes (mq_msg (push_example q cs) p) = [0x40, 2, 1, 2]"
  "iotc_mqtt_get_message_id (mq_msg (push_example q cs) p) = 258" "message_blocks p (mq_msg (push_example q cs) p) = {#p#}"
  "mm_type (mq_msg (push_example q cs) p) = IOTC_MQTT_TYPE_PUBACK" "payload_bytes (mq_msg (push_example q cs) p) = []"
  by (simp_all add: push_example_def encodable_def sendable_def iotc_mqtt_serialiser_size_def iotc_mqtt_get_remaining_length_bytes_def
      header_bytes_def encode_def common_value_def zeroed_message_def enc_remaining.simps enc_body_def enc_16_def
      iotc_mqtt_get_message_id_def message_blocks_def body_blocks_def payload_bytes_def)

theorem codec_queues_message_witness:
  "\<exists>s' d. iotc_mqtt_codec_layer_push 42 70 IOTC_STATE_OK (push_example [] 0) = (IOTC_STATE_OK, s') \<and> desc_data (cl_desc s' d) = [0x40, 2, 1, 2]"
proof -
  obtain r s' where e: "iotc_mqtt_codec_layer_push 42 70 IOTC_STATE_OK (push_example [] 0) = (r, s')" by fastforce
  have "codec_sends 42 Idle [] (push_example [] 0)"
    using push_example_linked by (simp add: codec_sends_def in_phase_def item_msgs_def) (simp add: push_example_def)
  moreover have "sys Map.empty [] (message_blocks 70 (mq_msg (push_example [] 0) 70) + (item_blocks (push_example [] 0) [] + {#})) (push_example [] 0)"
    using sys_example_codec [of "[70]"] by (simp add: push_example_message) (simp add: push_example_def)
  ultimately have "r = IOTC_STATE_OK" "\<exists>ph' items. codec_after Map.empty [] {#} 42 [Send [0x40, 2, 1, 2]] ph' items s'"
    using codec_queues_message [of 42 Idle "[]" "push_example [] 0" Map.empty "[]" 70 "{#}" r s'] e push_example_message
    by (auto simp: item_msgs_def)
  with e show ?thesis by (auto simp: codec_after_def list_all2_Cons1)
qed

theorem codec_confirms_message_witness:
  "\<exists>s' w. iotc_mqtt_codec_layer_push 42 NULL IOTC_STATE_WRITTEN (push_example [60] 156) = (IOTC_STATE_OK, s')
     \<and> mq_written s' w = (258, IOTC_MQTT_TYPE_PUBACK) \<and> co_task_queue (cl_data s') = []"
proof -
  let ?s = "push_example [60] 156"
  obtain r s' where e: "iotc_mqtt_codec_layer_push 42 NULL IOTC_STATE_WRITTEN ?s = (r, s')" by fastforce
  have "codec_sends 42 Header [(60, 70)] ?s"
    using push_example_linked push_example_message
    by (simp add: codec_sends_def in_phase_def item_msgs_def item_ok_def) (simp add: push_example_def)
  moreover have "sys Map.empty [] (item_blocks ?s [(60, 70)] + {#}) ?s"
    using sys_example_codec [of "[60, 70]"] sys_example_codec [of "[70, 60]"]
    by (simp add: push_example_message) (simp add: push_example_def add_mset_commute)
  ultimately have "r = IOTC_STATE_OK" "codec_after Map.empty [] {#} 42 [Report 258 IOTC_MQTT_TYPE_PUBACK IOTC_STATE_WRITTEN] Idle [] s'"
    using codec_confirms_message [of 42 Header "(60, 70)" "[]" ?s Map.empty "[]" "{#}" IOTC_STATE_WRITTEN NULL r s'] e push_example_message
    by (auto simp: item_msgs_def report_def)
  with e show ?thesis by (auto simp: codec_after_def codec_sends_def list_all2_Cons1)
qed

section \<open>Closing\<close>

definition task_ok :: "'z codec_scheme \<Rightarrow> ptr \<times> ptr \<Rightarrow> bool" where
  "task_ok s i = (case i of (t, p) \<Rightarrow> cl_task s t = \<lparr>ct_msg = p, ct_msg_id = iotc_mqtt_get_message_id (mq_msg s p),
     ct_msg_type = mm_type (mq_msg s p)\<rparr>)"

definition failed_report :: "ptr \<Rightarrow> 'z layered_scheme \<Rightarrow> ptr \<Rightarrow> event_handle" where
  "failed_report context s w = call_handle context s (Next, F_push, w, IOTC_STATE_FAILED_WRITING)"

definition reports_on :: "'z codec_scheme \<Rightarrow> 'z codec_scheme \<Rightarrow> ptr \<times> ptr \<Rightarrow> ptr \<Rightarrow> bool" where
  "reports_on s s' i w \<longleftrightarrow> mq_written s' w = (iotc_mqtt_get_message_id (mq_msg s (snd i)), mm_type (mq_msg s (snd i)))"

lemma clear_tasks_ok:
  assumes "sys base hs (item_blocks s items + M) s" and "neighbour_ok context s Next" and "\<forall>i\<in>set items. task_ok s i"
  shows "\<exists>ws s'. clear_tasks context (map fst items) s = s' \<and> list_all2 (reports_on s s') items ws
    \<and> sys base (hs @ map (failed_report context s) ws) (mset ws + M) s' \<and> (\<forall>w\<in>#M. mq_written s' w = mq_written s w)
    \<and> ly_at s' = ly_at s \<and> mq_msg s' = mq_msg s \<and> cl_data s' = (cl_data s)\<lparr>co_task_queue := if items = [] then co_task_queue (cl_data s) else []\<rparr>"
  using assms
proof (induction items arbitrary: s hs M)
  case Nil
  then show ?case by simp
next
  case (Cons i items)
  obtain t p where i: "i = (t, p)" by fastforce
  let ?m = "mq_msg s p"
  note o = Cons.prems(1) and nbn = Cons.prems(2)
  have t: "t \<noteq> NULL" using sys_not_NULL [OF o, of t] i by auto
  have "t \<notin># message_blocks p ?m + item_blocks s items + M" using sys_distinct [of base hs t "message_blocks p ?m + item_blocks s items + M" s] o i
    by (simp add: ac_simps)
  then have tn: "t \<notin># item_blocks s items" by auto
  define s1 where "s1 = on_codec (\<lambda>d. d\<lparr>co_task_queue := map fst items\<rparr>) s"
  have o1: "sys base hs (item_blocks s (i # items) + M) s1" using o by (simp add: s1_def)
  have q: "ct_msg (cl_task s1 t) = p" "ct_msg_id (cl_task s1 t) = iotc_mqtt_get_message_id ?m" "ct_msg_type (cl_task s1 t) = mm_type ?m"
    using Cons.prems(3) by (simp_all add: task_ok_def i s1_def)
  obtain w s2 where a: "alloc_written_data (iotc_mqtt_get_message_id ?m) (mm_type ?m) s1 = (w, s2)" by fastforce
  from sys_alloc_written [OF o1 a] have w: "mq_written s2 w = (iotc_mqtt_get_message_id ?m, mm_type ?m)" "w \<notin># item_blocks s (i # items) + M"
    and o2: "sys base hs (add_mset w (item_blocks s (i # items) + M)) s2"
    and f2: "cl_task s2 = cl_task s" "cl_data s2 = cl_data s1" "mq_msg s2 = mq_msg s" "ly_at s2 = ly_at s" by (simp_all add: s1_def)
  have m2: "mq_written s2 x = mq_written s x" if "x \<noteq> w" for x
    using a that by (auto simp: alloc_written_data_def s1_def split: prod.splits if_splits)
  obtain k s3 where k: "IOTC_PROCESS_PUSH_ON_NEXT_LAYER context w IOTC_STATE_FAILED_WRITING s2 = (k, s3)" by fastforce
  note nb = layers_upd [OF nbn f2(4)]
  from sys_continue [OF o2 nb(1), of F_push w IOTC_STATE_FAILED_WRITING k s3] k
  have o3: "sys base (hs @ [failed_report context s w]) (add_mset w (item_blocks s (i # items) + M)) s3" "ly_at s3 = ly_at s"
    by (simp_all add: nb(2) f2(4) failed_report_def)
  have s3: "s3 = snd (IOTC_PROCESS_PUSH_ON_NEXT_LAYER context w IOTC_STATE_FAILED_WRITING s2)" by (simp add: k)
  have f3: "cl_data s3 = cl_data s1" "mq_msg s3 = mq_msg s" "cl_task s3 = cl_task s" "mq_written s3 = mq_written s2"
    unfolding s3 by (simp_all add: continue_codec frame f2)
  define s4 where "s4 = iotc_mqtt_codec_layer_free_task t s3"
  have s4: "s4 = on_mem (IOTC_SAFE_FREE t) (free_message p s3)"
    using t q by (simp add: s4_def iotc_mqtt_codec_layer_free_task_def f3 s1_def)
  have "sys base (hs @ [failed_report context s w]) (add_mset t (item_blocks s items + add_mset w M)) (free_message p s3)"
    by (rule sys_free_message) (use o3(1) i in \<open>simp add: f3 ac_simps add_mset_commute [of w t]\<close>)
  then have o4: "sys base (hs @ [failed_report context s w]) (item_blocks s items + add_mset w M) s4" unfolding s4 by (rule sys_free)
  have f4: "cl_data s4 = (cl_data s)\<lparr>co_task_queue := map fst items\<rparr>" "mq_msg s4 = mq_msg s" "cl_task s4 = cl_task s"
    "mq_written s4 = mq_written s2" "ly_at s4 = ly_at s"
    by (simp_all add: s4 f3 o3(2) s1_def)
  have r: "clear_tasks context (map fst (i # items)) s = clear_tasks context (map fst items) s4"
    using a q k by (simp add: i Let_def flip: s1_def s4_def)
  have o4': "sys base (hs @ [failed_report context s w]) (item_blocks s4 items + add_mset w M) s4"
    using o4 item_blocks_upd [OF f4(2), of items] by simp
  have it4: "\<forall>i\<in>set items. task_ok s4 i" using Cons.prems(3) by (auto simp: task_ok_def f4)
  from Cons.IH [OF o4' layers_upd(1) [OF nbn f4(5)] it4] obtain ws s' where e: "clear_tasks context (map fst items) s4 = s'"
    and ws: "list_all2 (reports_on s4 s') items ws" "sys base ((hs @ [failed_report context s w]) @ map (failed_report context s4) ws) (mset ws + add_mset w M) s'"
    and old: "\<forall>x\<in>#add_mset w M. mq_written s' x = mq_written s4 x" and f5: "ly_at s' = ly_at s4" "mq_msg s' = mq_msg s4"
    "cl_data s' = (cl_data s4)\<lparr>co_task_queue := if items = [] then co_task_queue (cl_data s4) else []\<rparr>" by blast
  have "failed_report context s4 = failed_report context s" using layers_upd(2) [OF nbn f4(5)] by (auto simp: failed_report_def fun_eq_iff)
  moreover have "reports_on s s' i w" using old w(1) by (simp add: reports_on_def i f4)
  moreover have "reports_on s4 s' = reports_on s s'" by (simp add: reports_on_def fun_eq_iff f4)
  moreover have "\<forall>x\<in>#M. mq_written s' x = mq_written s x" using old w(2) m2 unfolding f4 by (metis UnCI set_mset_add_mset_insert insertCI union_iff)
  ultimately show ?case using ws by (intro exI [of _ "w # ws"] exI [of _ s'] conjI, unfold r e) (simp_all add: f5 f4)
qed

definition part_blocks :: "'z codec_scheme \<Rightarrow> ptr multiset" where
  "part_blocks s = (if co_msg (cl_data s) = NULL then {#} else message_blocks (co_msg (cl_data s)) (mq_msg s (co_msg (cl_data s))))"

text \<open>
  When the layer is closed from outside, the logic layer gets a report, in the order of the queue, for every message that was not
  sent, with its number and type; the tasks, the messages, a message that was only partly received and the data of the
  layer are released, every block once.
\<close>

theorem codec_close_reports_queue:
  assumes "co_task_queue (cl_data s) = map fst items" and "\<forall>i\<in>set items. task_ok s i" and "neighbour_ok context s Next"
    and "sys base hs (item_blocks s items + (part_blocks s + add_mset (user_data context s) M)) s"
    and "iotc_mqtt_codec_layer_close_externally context data st s = (r, s')"
  shows "r = IOTC_STATE_OK \<and> user_data context s' = NULL \<and> co_task_queue (cl_data s') = []
    \<and> (\<exists>ws. list_all2 (reports_on s s') items ws
        \<and> sys base (hs @ map (failed_report context s) ws @ [call_handle context s (Next, F_close_externally, data, st)]) (mset ws + M) s')"
proof -
  let ?c = "co_msg (cl_data s)" and ?l = "user_data context s"
  let ?R = "part_blocks s + add_mset ?l M"
  have ul: "?l \<noteq> NULL" using sys_not_NULL [OF assms(4), of ?l] by simp
  from clear_tasks_ok [OF assms(4,3,2)] obtain ws s1 where s1: "clear_tasks context (map fst items) s = s1"
    and ws: "list_all2 (reports_on s s1) items ws" "sys base (hs @ map (failed_report context s) ws) (mset ws + ?R) s1"
    and f1: "ly_at s1 = ly_at s" "mq_msg s1 = mq_msg s"
      "cl_data s1 = (cl_data s)\<lparr>co_task_queue := if items = [] then co_task_queue (cl_data s) else []\<rparr>" by blast
  define s2 where "s2 = on_codec (\<lambda>d. d\<lparr>co_push_cs := 2\<rparr>) s1"
  define s3 where "s3 = on_codec (\<lambda>d. d\<lparr>co_msg := NULL\<rparr>) (free_message ?c s2)"
  define s4 where "s4 = on_mem (IOTC_SAFE_FREE ?l) s3"
  define s5 where "s5 = s4\<lparr>ly_at := (ly_at s4)(context := (ly_at s4 context)\<lparr>ly_user_data := NULL\<rparr>)\<rparr>"
  have o3: "sys base (hs @ map (failed_report context s) ws) (add_mset ?l (mset ws + M)) s3"
  proof (cases "?c = NULL")
    case True
    then show ?thesis using ws(2) by (simp add: s3_def s2_def part_blocks_def)
  next
    case False
    show ?thesis unfolding s3_def sys_codec
      by (rule sys_free_message) (use ws(2) False in \<open>simp add: s2_def f1 part_blocks_def ac_simps\<close>)
  qed
  have "sys base (hs @ map (failed_report context s) ws) (mset ws + M) s4" unfolding s4_def by (rule sys_free [OF o3])
  then have o5: "sys base (hs @ map (failed_report context s) ws) (mset ws + M) s5" by (simp add: s5_def)
  have l5: "ly_at s5 = (ly_at s)(context := (ly_at s context)\<lparr>ly_user_data := NULL\<rparr>)"
    by (simp add: s5_def s4_def s3_def s2_def f1)
  have f5: "mq_msg s5 = mq_msg s" "mq_written s5 = mq_written s1" "co_task_queue (cl_data s5) = []"
    using assms(1) by (simp_all add: s5_def s4_def s3_def s2_def f1)
  have d5: "layer_in_dir Next context s5 = layer_in_dir Next context s" "ly_funcs (ly_at s5 x) = ly_funcs (ly_at s x)" for x
    by (simp_all add: l5)
  have nb5: "neighbour_ok context s5 Next" and ch5: "call_handle context s5 (Next, f, x, y) = call_handle context s (Next, f, x, y)" for f x y
    using assms(3) unfolding neighbour_ok_def call_handle_def prod.case d5 by simp_all
  have k: "IOTC_PROCESS_CLOSE_EXTERNALLY_ON_NEXT_LAYER context data st s5 = (r, s')"
    using assms(5) ul by (simp add: iotc_mqtt_codec_layer_close_externally_def clear_task_queue_def assms(1) s1 Let_def
        s5_def s4_def s3_def s2_def f1)
  from sys_continue [OF o5 nb5, of F_close_externally data st r s'] k
  have o6: "r = IOTC_STATE_OK" "sys base (hs @ map (failed_report context s) ws @ [call_handle context s (Next, F_close_externally, data, st)]) (mset ws + M) s'"
    "user_data context s' = NULL" by (simp_all add: ch5 l5)
  have s': "s' = snd (IOTC_PROCESS_CLOSE_EXTERNALLY_ON_NEXT_LAYER context data st s5)" by (simp add: k)
  have "mq_msg s' = mq_msg s5" "mq_written s' = mq_written s5" "cl_data s' = cl_data s5" unfolding s' by (simp_all add: continue_codec frame)
  then have "list_all2 (reports_on s s') items ws" "co_task_queue (cl_data s') = []"
    using ws(1) by (simp_all add: reports_on_def [abs_def] f5)
  with o6 show ?thesis by blast
qed

text \<open>
  The error path of sending: a message that cannot be encoded is released together with its task, and reported as not sent; but then
  its address is passed to the logic layer once more, in the place of a report, so that a call is pending whose argument is a
  block that has been released.
\<close>

theorem codec_failure_passes_released_message:
  assumes "codec_sends context Idle [] s" and "sys base hs (message_blocks p (mq_msg s p) + M) s"
    and "fst (iotc_mqtt_serialiser_size (mq_msg s p)) \<noteq> IOTC_STATE_OK"
    and "iotc_mqtt_codec_layer_push context p IOTC_STATE_OK s = (r, s')"
  shows "\<exists>w. mq_written s' w = (iotc_mqtt_get_message_id (mq_msg s p), mm_type (mq_msg s p))
    \<and> sys base (hs @ [failed_report context s w, failed_report context s p]) (add_mset w M) s'
    \<and> p \<notin># M \<and> base p = None"
proof -
  let ?m = "mq_msg s p"
  from assms(1) have l: "codec_linked context s" and q: "co_task_queue (cl_data s) = []" "co_push_cs (cl_data s) \<le> 2"
    by (simp_all add: codec_sends_def in_phase_def)
  have p: "p \<noteq> NULL" using sys_not_NULL [OF assms(2), of p] by (simp add: message_blocks_def)
  have "sys base hs (add_mset p (blocks_of ?m + M)) s" using assms(2) by (simp add: message_blocks_def blocks_of_def ac_simps)
  from sys_distinct [OF this] have pM: "p \<notin># M" by simp
  have pb: "base p = None" using assms(2) by (auto simp: sys_def owns_blocks_def message_blocks_def)
  obtain t m where a: "iotc_alloc sizeof_codec_task (ev_mem s) = (t, m)" by fastforce
  from sys_alloc [OF assms(2) a] have t: "t \<noteq> NULL" "sys base hs (add_mset t (message_blocks p ?m + M)) (s\<lparr>ev_mem := m\<rparr>)"
    by (simp_all add: sizeof_codec_task_def)
  define s1 where "s1 = on_codec (\<lambda>d. d\<lparr>co_task_queue := [t], co_msg_id := iotc_mqtt_get_message_id ?m, co_msg_type := mm_type ?m\<rparr>)
     (s\<lparr>ev_mem := m, cl_task := (cl_task s)(t := \<lparr>ct_msg = p, ct_msg_id = iotc_mqtt_get_message_id ?m, ct_msg_type = mm_type ?m\<rparr>)\<rparr>)"
  have f1: "ly_at s1 = ly_at s" "mq_msg s1 = mq_msg s" "co_task_queue (cl_data s1) = [t]" "task_ok s1 (t, p)"
    by (simp_all add: s1_def task_ok_def)
  have o1: "sys base hs (item_blocks s1 [(t, p)] + M) s1" using t(2) by (simp add: f1) (simp add: s1_def sys_def lock_free_def on_codec_def)
  from l have nbn: "neighbour_ok context s Next" by (simp add: codec_linked_def)
  note nb = layers_upd [OF nbn f1(1)]
  from clear_tasks_ok [OF o1 nb(1)] f1(4) obtain w s2 where s2: "clear_tasks context [t] s1 = s2"
    and w: "reports_on s1 s2 (t, p) w" "sys base (hs @ [failed_report context s1 w]) (add_mset w M) s2" and f2: "ly_at s2 = ly_at s" "mq_msg s2 = mq_msg s"
    by (force simp: f1 list_all2_Cons1)
  define s3 where "s3 = on_codec (\<lambda>d. d\<lparr>co_push_cs := 2\<rparr>) s2"
  have f3: "ly_at s3 = ly_at s" "mq_written s3 = mq_written s2" by (simp_all add: s3_def f2)
  have e: "codec_push_error context p NULL s1 = IOTC_PROCESS_PUSH_ON_NEXT_LAYER context p IOTC_STATE_FAILED_WRITING s3"
    by (simp add: codec_push_error_def Let_def clear_task_queue_def f1 s2 s3_def on_mem_def IOTC_SAFE_FREE_def del: clear_tasks.simps)
  have "iotc_mqtt_codec_layer_push context p IOTC_STATE_OK s = codec_push_error context p NULL s1"
    using l p a t(1) q assms(3)
    by (auto simp: iotc_mqtt_codec_layer_push_def codec_linked_def iotc_mqtt_codec_layer_make_task_def Let_def codec_push_start_def
        s1_def on_codec_def split: prod.splits)
  with e assms(4) have k: "IOTC_PROCESS_PUSH_ON_NEXT_LAYER context p IOTC_STATE_FAILED_WRITING s3 = (r, s')" by simp
  have o3: "sys base (hs @ [failed_report context s w]) (add_mset w M) s3" using w(2) by (simp add: s3_def failed_report_def nb(2))
  from sys_continue [OF o3 layers_upd(1) [OF nbn f3(1)], of F_push p IOTC_STATE_FAILED_WRITING r s'] k
  have o4: "sys base (hs @ [failed_report context s w, failed_report context s p]) (add_mset w M) s'"
    by (simp add: failed_report_def layers_upd(2) [OF nbn f3(1)])
  have "mq_written s' = mq_written s3" using k by (metis continue_written snd_conv)
  with w(1) have "mq_written s' w = (iotc_mqtt_get_message_id ?m, mm_type ?m)" by (simp add: reports_on_def f1 f3)
  with o4 pM pb show ?thesis by blast
qed

theorem codec_close_reports_queue_witness:
  "\<exists>s' w. iotc_mqtt_codec_layer_close_externally 42 NULL IOTC_STATE_OK (push_example [60, 30] 156\<lparr>cl_data := zeroed_codec_data\<lparr>co_task_queue := [60]\<rparr>\<rparr>)
      = (IOTC_STATE_OK, s') \<and> mq_written s' w = (258, IOTC_MQTT_TYPE_PUBACK) \<and> user_data 42 s' = NULL"
proof -
  let ?s = "push_example [60, 30] 156\<lparr>cl_data := zeroed_codec_data\<lparr>co_task_queue := [60]\<rparr>\<rparr>"
  obtain r s' where e: "iotc_mqtt_codec_layer_close_externally 42 NULL IOTC_STATE_OK ?s = (r, s')" by fastforce
  have m: "mq_msg ?s = mq_msg (push_example [60, 30] 156)" by simp
  have "co_task_queue (cl_data ?s) = map fst [(60, 70)]" by simp
  moreover have "\<forall>i\<in>set [(60, 70)]. task_ok ?s i"
    using push_example_message unfolding task_ok_def m by simp (simp add: push_example_def)
  moreover have "neighbour_ok 42 ?s Next" by (simp add: push_example_def neighbour_ok_def example_layers_def interface_ok_def)
  moreover have "sys Map.empty [] (item_blocks ?s [(60, 70)] + (part_blocks ?s + add_mset (user_data 42 ?s) {#})) ?s"
    using sys_example_codec [of "[70, 60, 30]"] push_example_message unfolding item_blocks_simps m
    by simp (simp add: push_example_def example_layers_def part_blocks_def zeroed_codec_data_def sys_def lock_free_def add_mset_commute)
  ultimately have "r = IOTC_STATE_OK \<and> user_data 42 s' = NULL \<and> (\<exists>ws. list_all2 (reports_on ?s s') [(60, 70)] ws)"
    using codec_close_reports_queue [of ?s "[(60, 70)]" 42 Map.empty "[]" "{#}" NULL IOTC_STATE_OK r s'] e by blast
  then show ?thesis using e push_example_message unfolding reports_on_def m by (auto simp: list_all2_Cons1)
qed

theorem codec_failure_passes_released_message_witness:
  "\<exists>s' w. snd (iotc_mqtt_codec_layer_push 42 70 IOTC_STATE_OK (push_example [] 0\<lparr>mq_msg := (\<lambda>p. zeroed_message\<lparr>mm_type := IOTC_MQTT_TYPE_UNSUBSCRIBE\<rparr>)\<rparr>)) = s'
     \<and> sys Map.empty [failed_report 42 (push_example [] 0) w, failed_report 42 (push_example [] 0) 70] {#w#} s'"
proof -
  let ?s = "push_example [] 0\<lparr>mq_msg := (\<lambda>p. zeroed_message\<lparr>mm_type := IOTC_MQTT_TYPE_UNSUBSCRIBE\<rparr>)\<rparr>"
  obtain r s' where e: "iotc_mqtt_codec_layer_push 42 70 IOTC_STATE_OK ?s = (r, s')" by fastforce
  have "codec_linked 42 ?s" by (rule linked_upd [OF push_example_linked [of "[]" 0]]) simp
  then have "codec_sends 42 Idle [] ?s"
    by (simp add: codec_sends_def in_phase_def item_msgs_def) (simp add: push_example_def)
  moreover have "sys Map.empty [] (message_blocks 70 (mq_msg ?s 70) + {#}) ?s"
    using sys_example_codec [of "[70]"] by (simp add: message_blocks_def body_blocks_def) (simp add: push_example_def)
  moreover have "fst (iotc_mqtt_serialiser_size (mq_msg ?s 70)) \<noteq> IOTC_STATE_OK"
    by (simp add: iotc_mqtt_serialiser_size_def)
  ultimately obtain w where "sys Map.empty ([] @ [failed_report 42 ?s w, failed_report 42 ?s 70]) (add_mset w {#}) s'"
    using codec_failure_passes_released_message [of 42 ?s Map.empty "[]" 70 "{#}" r s'] e by blast
  moreover have "failed_report 42 ?s = failed_report 42 (push_example [] 0)" by (simp add: fun_eq_iff failed_report_def call_handle_def)
  ultimately show ?thesis using e by auto
qed

end
