(* ===== verification/Iotc_Io_Net.thy ===== *)
theory Iotc_Io_Net
  imports Iotc_Mqtt_Codec_Push Iotc_Mqtt_Receive Iotc_Bsp_Net
begin

text \<open>
  The layer at the socket, \<^verbatim>\<open>src/libiotc/io/net/iotc_io_net_layer.c\<close>. The functions of the platform,
  \<^verbatim>\<open>iotc_bsp_io_net_...\<close>, are chosen when the library is built; they are given by a world that answers the calls one
  after the other, and that keeps the bytes it has taken and the sockets that were closed.
\<close>

section \<open>The platform\<close>

record net_world =
  nw_seq :: nat
  nw_connect :: "nat \<Rightarrow> cstr \<Rightarrow> nat \<Rightarrow> net_state \<times> int"
  nw_check :: "nat \<Rightarrow> int \<Rightarrow> net_state"
  nw_write :: "nat \<Rightarrow> int \<Rightarrow> byte list \<Rightarrow> net_state \<times> int"
  nw_read :: "nat \<Rightarrow> int \<Rightarrow> nat \<Rightarrow> net_state \<times> byte list"
  nw_sent :: "byte list"
  nw_closed :: "int list"

text \<open>What the layer relies on: a write takes at most the bytes it is given, and, what the header of the interface does not say, some of
  them when it succeeds; a read fills at most the buffer.\<close>

definition writes_ok :: "net_world \<Rightarrow> bool" where
  "writes_ok w \<longleftrightarrow> (\<forall>i fd bs n. bs \<noteq> [] \<longrightarrow> nw_write w i fd bs = (IOTC_BSP_IO_NET_STATE_OK, n) \<longrightarrow> 0 < n \<and> n \<le> int (length bs))"

definition reads_ok :: "net_world \<Rightarrow> bool" where
  "reads_ok w \<longleftrightarrow> (\<forall>i fd n st bs. nw_read w i fd n = (st, bs) \<longrightarrow> length bs \<le> n)"

section \<open>State\<close>

record io_net_data =
  io_socket :: int
  io_connect_cs :: nat

record io_net = codec +
  io_data :: io_net_data
  io_world :: net_world

definition sizeof_io_net_data :: nat where "sizeof_io_net_data = 16"
definition IOTC_IO_BUFFER_SIZE :: nat where "IOTC_IO_BUFFER_SIZE = 32"

definition fn_io_net_connect :: ptr where "fn_io_net_connect = 13"
definition fn_io_net_pull :: ptr where "fn_io_net_pull = 14"
definition fn_io_net_push :: ptr where "fn_io_net_push = 15"

definition on_world :: "(net_world \<Rightarrow> net_world) \<Rightarrow> 'z io_net_scheme \<Rightarrow> 'z io_net_scheme" where
  "on_world f s = s\<lparr>io_world := f (io_world s)\<rparr>"

definition set_connect_cs :: "nat \<Rightarrow> 'z io_net_scheme \<Rightarrow> 'z io_net_scheme" where
  "set_connect_cs cs s = s\<lparr>io_data := (io_data s)\<lparr>io_connect_cs := cs\<rparr>\<rparr>"

definition iotc_bsp_io_net_socket_connect :: "'z io_net_scheme \<Rightarrow> net_state \<times> 'z io_net_scheme" where
  "iotc_bsp_io_net_socket_connect s =
     (let w = io_world s
      in case nw_connect w (nw_seq w) (cd_host (cx_connection s)) (cd_port (cx_connection s)) of (st, fd) \<Rightarrow>
           (st, on_world (\<lambda>w. w\<lparr>nw_seq := nw_seq w + 1\<rparr>) (s\<lparr>io_data := (io_data s)\<lparr>io_socket := fd\<rparr>\<rparr>)))"

definition iotc_bsp_io_net_connection_check :: "'z io_net_scheme \<Rightarrow> net_state \<times> 'z io_net_scheme" where
  "iotc_bsp_io_net_connection_check s =
     (nw_check (io_world s) (nw_seq (io_world s)) (io_socket (io_data s)), on_world (\<lambda>w. w\<lparr>nw_seq := nw_seq w + 1\<rparr>) s)"

definition iotc_bsp_io_net_write :: "byte list \<Rightarrow> 'z io_net_scheme \<Rightarrow> (net_state \<times> int) \<times> 'z io_net_scheme" where
  "iotc_bsp_io_net_write bs s =
     (case nw_write (io_world s) (nw_seq (io_world s)) (io_socket (io_data s)) bs of (st, len) \<Rightarrow>
        ((st, len), on_world (\<lambda>w. w\<lparr>nw_seq := nw_seq w + 1,
           nw_sent := nw_sent w @ (if st = IOTC_BSP_IO_NET_STATE_OK then take (nat len) bs else [])\<rparr>) s))"

definition iotc_bsp_io_net_read :: "nat \<Rightarrow> 'z io_net_scheme \<Rightarrow> (net_state \<times> byte list) \<times> 'z io_net_scheme" where
  "iotc_bsp_io_net_read n s =
     (nw_read (io_world s) (nw_seq (io_world s)) (io_socket (io_data s)) n, on_world (\<lambda>w. w\<lparr>nw_seq := nw_seq w + 1\<rparr>) s)"

definition iotc_bsp_io_net_close_socket :: "'z io_net_scheme \<Rightarrow> 'z io_net_scheme" where
  "iotc_bsp_io_net_close_socket s = on_world (\<lambda>w. w\<lparr>nw_seq := nw_seq w + 1, nw_closed := nw_closed w @ [io_socket (io_data s)]\<rparr>) s"

section \<open>Connecting\<close>

definition io_net_connected :: "ptr \<Rightarrow> ptr \<Rightarrow> iotc_state \<Rightarrow> 'z io_net_scheme \<Rightarrow> iotc_state \<times> 'z io_net_scheme" where
  "io_net_connected context data in_out_state s =
     (case iotc_bsp_io_net_connection_check s of (state, s1) \<Rightarrow>
        (let s2 = set_connect_cs 1 s1
         in if state \<noteq> IOTC_BSP_IO_NET_STATE_OK
            then IOTC_PROCESS_CONNECT_ON_NEXT_LAYER context data IOTC_SOCKET_GETSOCKOPT_ERROR s2
            else IOTC_PROCESS_CONNECT_ON_NEXT_LAYER context NULL IOTC_STATE_OK s2))"

definition io_net_connect_start :: "ptr \<Rightarrow> ptr \<Rightarrow> iotc_state \<Rightarrow> 'z io_net_scheme \<Rightarrow> iotc_state \<times> 'z io_net_scheme" where
  "io_net_connect_start context data in_out_state s =
     (case iotc_bsp_io_net_socket_connect s of (state, s1) \<Rightarrow>
        if state \<noteq> IOTC_BSP_IO_NET_STATE_OK
        then IOTC_PROCESS_CONNECT_ON_NEXT_LAYER context data IOTC_SOCKET_CONNECTION_ERROR (set_connect_cs 1 s1)
        else
          (let s2 = snd (iotc_evtd_register_socket_fd (io_socket (io_data s1))
                 (iotc_make_handle_argc3 IOTC_THREADID_MAINTHREAD fn_io_net_pull context NULL (state_arg IOTC_STATE_OK)) s1);
               s3 = snd (iotc_evtd_continue_when_evt_on_socket IOTC_EVENT_WANT_CONNECT
                 (iotc_make_handle_argc3 IOTC_THREADID_MAINTHREAD fn_io_net_connect context data (state_arg IOTC_STATE_OK))
                 (io_socket (io_data s2)) s2)
           in (IOTC_STATE_OK, set_connect_cs 82 s3)))"

definition iotc_io_net_layer_connect ::
    "ptr \<Rightarrow> ptr \<Rightarrow> iotc_state \<Rightarrow> 'z io_net_scheme \<Rightarrow> iotc_state \<times> 'z io_net_scheme" where
  "iotc_io_net_layer_connect context data in_out_state s =
     (if in_out_state \<noteq> IOTC_STATE_OK then IOTC_PROCESS_CONNECT_ON_NEXT_LAYER context NULL in_out_state s
      else if user_data context s = NULL then IOTC_PROCESS_CONNECT_ON_NEXT_LAYER context NULL IOTC_INTERNAL_ERROR s
      else if io_connect_cs (io_data s) = 82 then io_net_connected context data in_out_state s
      else io_net_connect_start context data in_out_state s)"

text \<open>Without memory the address of the socket is formed from a null pointer.\<close>

definition iotc_io_net_layer_init ::
    "ptr \<Rightarrow> ptr \<Rightarrow> iotc_state \<Rightarrow> 'z io_net_scheme \<Rightarrow> iotc_state \<times> 'z io_net_scheme" where
  "iotc_io_net_layer_init context data in_out_state s =
     (if context = NULL then (IOTC_INVALID_PARAMETER, s)
      else if user_data context s \<noteq> NULL then (IOTC_FAILED_INITIALIZATION, s)
      else
        (case iotc_alloc sizeof_io_net_data (ev_mem s) of (p, m) \<Rightarrow>
           if p = NULL
           then IOTC_PROCESS_CONNECT_ON_THIS_LAYER context data IOTC_OUT_OF_MEMORY (s\<lparr>ev_mem := m\<lparr>m_bad := True\<rparr>\<rparr>)
           else IOTC_PROCESS_CONNECT_ON_THIS_LAYER context data IOTC_STATE_OK
                  (s\<lparr>ev_mem := m, io_data := \<lparr>io_socket = 0, io_connect_cs = 0\<rparr>,
                     ly_at := (ly_at s)(context := (ly_at s context)\<lparr>ly_user_data := p\<rparr>)\<rparr>)))"

section \<open>Writing\<close>

text \<open>The bytes between the position and the capacity are written, as often as is needed. The result is what the function returns,
  or the state behind the loop.\<close>

definition unsent :: "data_desc \<Rightarrow> nat" where
  "unsent d = unat (d_capacity d - d_curr_pos d)"

definition io_net_write_failed ::
    "ptr \<Rightarrow> ptr \<Rightarrow> net_state \<Rightarrow> 'z io_net_scheme \<Rightarrow> iotc_state \<times> 'z io_net_scheme" where
  "io_net_write_failed context data bsp_state s =
     (if bsp_state = IOTC_BSP_IO_NET_STATE_BUSY then
        (case iotc_evtd_continue_when_evt_on_socket IOTC_EVENT_WANT_WRITE
             (iotc_make_handle_argc3 IOTC_THREADID_MAINTHREAD fn_io_net_push context data (state_arg IOTC_STATE_WANT_WRITE))
             (io_socket (io_data s)) s of (r, s1) \<Rightarrow>
           if r < 0 then IOTC_PROCESS_CLOSE_EXTERNALLY_ON_THIS_LAYER context NULL IOTC_INTERNAL_ERROR s1
           else (IOTC_STATE_OK, s1))
      else if bsp_state = IOTC_BSP_IO_NET_STATE_CONNECTION_RESET
      then IOTC_PROCESS_CLOSE_EXTERNALLY_ON_THIS_LAYER context NULL IOTC_CONNECTION_RESET_BY_PEER_ERROR (free_data_desc data s)
      else IOTC_PROCESS_CLOSE_EXTERNALLY_ON_THIS_LAYER context data IOTC_SOCKET_WRITE_ERROR (free_data_desc data s))"

partial_function (option) io_net_write_loop ::
    "ptr \<Rightarrow> ptr \<Rightarrow> 'z io_net_scheme \<Rightarrow> ((iotc_state \<times> 'z io_net_scheme) + 'z io_net_scheme) option" where
  "io_net_write_loop context data s =
     (let d = cl_desc s data;
          s1 = on_mem (memcpy_check (unat (d_curr_pos d) + unsent d) (length (d_bytes d))) s
      in case iotc_bsp_io_net_write (take (unsent d) (drop (unat (d_curr_pos d)) (d_bytes d))) s1 of ((bsp_state, len), s2) \<Rightarrow>
           if bsp_state \<noteq> IOTC_BSP_IO_NET_STATE_OK \<or> len < 0 then Some (Inl (io_net_write_failed context data bsp_state s2))
           else
             (let d1 = d\<lparr>d_curr_pos := d_curr_pos d + of_int len\<rparr>;
                  s3 = s2\<lparr>cl_desc := (cl_desc s2)(data := d1)\<rparr>
              in if unsent d1 > 0 then io_net_write_loop context data s3 else Some (Inr s3)))"

definition iotc_io_net_layer_push ::
    "ptr \<Rightarrow> ptr \<Rightarrow> iotc_state \<Rightarrow> 'z io_net_scheme \<Rightarrow> (iotc_state \<times> 'z io_net_scheme) option" where
  "iotc_io_net_layer_push context data in_out_state s =
     (let finish = (\<lambda>s. IOTC_PROCESS_PUSH_ON_NEXT_LAYER context NULL IOTC_STATE_WRITTEN (free_data_desc data s))
      in if IOTC_THIS_LAYER_NOT_OPERATIONAL context s \<or> user_data context s = NULL
         then Some (IOTC_STATE_OK, free_data_desc data s)
         else if data \<noteq> NULL \<and> d_capacity (cl_desc s data) > 0 then
           (case io_net_write_loop context data s of
              None \<Rightarrow> None
            | Some (Inl r) \<Rightarrow> Some r
            | Some (Inr s1) \<Rightarrow> Some (finish s1))
         else Some (finish s))"

section \<open>Reading\<close>

definition io_net_read_into :: "ptr \<Rightarrow> ptr \<Rightarrow> iotc_state \<Rightarrow> 'z io_net_scheme \<Rightarrow> iotc_state \<times> 'z io_net_scheme" where
  "io_net_read_into context buffer_desc in_out_state s =
     (case iotc_bsp_io_net_read (unat (d_capacity (cl_desc s buffer_desc))) s of ((bsp_state, bs), s1) \<Rightarrow>
        (let d = cl_desc s buffer_desc;
             s2 = on_mem (memcpy_check (length bs) (length (d_bytes d)))
               (s1\<lparr>cl_desc := (cl_desc s1)(buffer_desc := d\<lparr>d_bytes := memcpy_at (d_bytes d) 0 bs\<rparr>)\<rparr>);
             failed = (\<lambda>st. IOTC_PROCESS_CLOSE_EXTERNALLY_ON_THIS_LAYER context NULL st (free_data_desc buffer_desc s2))
         in if bsp_state = IOTC_BSP_IO_NET_STATE_BUSY then
              (IOTC_STATE_WANT_READ, snd (iotc_evtd_continue_when_evt_on_socket IOTC_EVENT_WANT_READ
                 (iotc_make_handle_argc3 IOTC_THREADID_MAINTHREAD fn_io_net_pull context buffer_desc (state_arg in_out_state))
                 (io_socket (io_data s2)) s2))
            else if bsp_state = IOTC_BSP_IO_NET_STATE_CONNECTION_RESET then failed IOTC_CONNECTION_RESET_BY_PEER_ERROR
            else if bsp_state \<noteq> IOTC_BSP_IO_NET_STATE_OK then failed IOTC_SOCKET_READ_ERROR
            else
              (let s3 = (if v_elem_no (ctx_io_timeouts s2) > 0 \<and> cd_connection_timeout (cx_connection s2) > 0
                         then iotc_io_timeouts_restart (int (cd_connection_timeout (cx_connection s2))) s2 else s2);
                   s4 = s3\<lparr>cl_desc := (cl_desc s3)(buffer_desc :=
                          (cl_desc s3 buffer_desc)\<lparr>d_length := of_nat (length bs), d_curr_pos := 0\<rparr>)\<rparr>
               in IOTC_PROCESS_PULL_ON_NEXT_LAYER context buffer_desc IOTC_STATE_OK s4)))"

definition iotc_io_net_layer_pull ::
    "ptr \<Rightarrow> ptr \<Rightarrow> iotc_state \<Rightarrow> 'z io_net_scheme \<Rightarrow> iotc_state \<times> 'z io_net_scheme" where
  "iotc_io_net_layer_pull context data in_out_state s =
     (if IOTC_THIS_LAYER_NOT_OPERATIONAL context s \<or> user_data context s = NULL
      then (IOTC_STATE_OK, if data \<noteq> NULL then free_data_desc data s else s)
      else if data \<noteq> NULL then
        (let d = cl_desc s data;
             s1 = on_mem (memcpy_check IOTC_IO_BUFFER_SIZE (length (d_bytes d)))
               (s\<lparr>cl_desc := (cl_desc s)(data := d\<lparr>d_bytes := memcpy_at (d_bytes d) 0 (replicate IOTC_IO_BUFFER_SIZE 0),
                  d_curr_pos := 0, d_length := 0\<rparr>)\<rparr>)
         in io_net_read_into context data in_out_state s1)
      else
        (case iotc_make_empty_desc_alloc IOTC_IO_BUFFER_SIZE (ev_mem s) of
           (None, m) \<Rightarrow> IOTC_PROCESS_CLOSE_EXTERNALLY_ON_THIS_LAYER context NULL IOTC_OUT_OF_MEMORY (s\<lparr>ev_mem := m\<rparr>)
         | (Some d, m) \<Rightarrow> io_net_read_into context (d_self d) in_out_state
              (s\<lparr>ev_mem := m, cl_desc := (cl_desc s)(d_self d := d)\<rparr>)))"

section \<open>Closing\<close>

definition iotc_io_net_layer_close ::
    "ptr \<Rightarrow> ptr \<Rightarrow> iotc_state \<Rightarrow> 'z io_net_scheme \<Rightarrow> iotc_state \<times> 'z io_net_scheme" where
  "iotc_io_net_layer_close context data in_out_state s = IOTC_PROCESS_CLOSE_EXTERNALLY_ON_THIS_LAYER context data in_out_state s"

definition iotc_io_net_layer_close_externally ::
    "ptr \<Rightarrow> ptr \<Rightarrow> iotc_state \<Rightarrow> 'z io_net_scheme \<Rightarrow> iotc_state \<times> 'z io_net_scheme" where
  "iotc_io_net_layer_close_externally context data in_out_state s =
     (let layer_data = user_data context s
      in if layer_data = NULL then IOTC_PROCESS_CLOSE_EXTERNALLY_ON_NEXT_LAYER context data in_out_state s
         else
           (let s1 = snd (iotc_evtd_unregister_socket_fd (io_socket (io_data s)) s);
                s2 = iotc_bsp_io_net_close_socket s1;
                s3 = on_mem (IOTC_SAFE_FREE layer_data) s2;
                s4 = s3\<lparr>ly_at := (ly_at s3)(context := (ly_at s3 context)\<lparr>ly_user_data := NULL\<rparr>)\<rparr>
            in IOTC_PROCESS_CLOSE_EXTERNALLY_ON_NEXT_LAYER context data in_out_state s4))"

section \<open>What is written\<close>

lemma sys_cong:
  assumes "sys base hs M s" and "ev_next s' = ev_next s" "ev_call_queue s' = ev_call_queue s" "ev_queued s' = ev_queued s"
    "ev_mem s' = ev_mem s" "ev_timers s' = ev_timers s" "ev_te s' = ev_te s" "ctx_io_timeouts s' = ctx_io_timeouts s"
    "ev_cs_state s' = ev_cs_state s" "ev_spins s' = ev_spins s"
  shows "sys base hs M s'"
  using assms by (simp add: sys_def lock_free_def)

definition socket_tuple :: "'z io_net_scheme \<Rightarrow> ptr option" where
  "socket_tuple s = fd_lookup handles_and_socket_fd (io_socket (io_data s)) s"

definition socket_waits :: "nat \<Rightarrow> event_handle \<Rightarrow> 'z io_net_scheme \<Rightarrow> bool" where
  "socket_waits ev h s \<longleftrightarrow> (\<exists>p. socket_tuple s = Some p \<and> t_handle (ev_fd s p) = h \<and> t_event_type (ev_fd s p) = ev)"

definition io_ready :: "ptr \<Rightarrow> 'z io_net_scheme \<Rightarrow> bool" where
  "io_ready context s \<longleftrightarrow> user_data context s \<noteq> NULL \<and> \<not> IOTC_THIS_LAYER_NOT_OPERATIONAL context s
     \<and> neighbour_ok context s Next \<and> neighbour_ok context s This \<and> vec_inv (ev_sockets s) \<and> socket_tuple s \<noteq> None"

lemma continue_registered:
  assumes "lock_free s" and "vec_inv (ev_sockets s)" and "fd_lookup handles_and_socket_fd fd s = Some p"
  shows "iotc_evtd_continue_when_evt_on_socket ev h fd s
    = (1, s\<lparr>ev_fd := (ev_fd s)(p := (ev_fd s p)\<lparr>t_event_type := ev, t_handle := h\<rparr>)\<rparr>)"
proof -
  let ?c = handles_and_socket_fd
  have v: "vec_inv (get_container ?c (iotc_lock_critical_section s))"
    using assms(1,2) by (simp add: iotc_lock_critical_section_def lock_free_def)
  have l: "fd_lookup ?c fd (iotc_lock_critical_section s) = Some p"
    using assms(1,3) by (simp add: fd_lookup_def iotc_lock_critical_section_def lock_free_def)
  from find_fd_spec(1) [OF v, of fd] find_fd_spec(2) [OF v l] l assms(1)
  show ?thesis
    by (cases s; auto simp: iotc_evtd_continue_when_evt_on_socket_def Let_def lock_free_def
        iotc_lock_critical_section_def iotc_unlock_critical_section_def)
qed

lemma tuple_kept: "fd_lookup c fd (s\<lparr>ev_fd := (ev_fd s)(p := (ev_fd s p)\<lparr>t_event_type := ev, t_handle := h\<rparr>)\<rparr>) = fd_lookup c fd s"
proof -
  let ?s = "s\<lparr>ev_fd := (ev_fd s)(p := (ev_fd s p)\<lparr>t_event_type := ev, t_handle := h\<rparr>)\<rparr>"
  have e: "(\<lambda>q. t_fd (ev_fd ?s q) = fd) = (\<lambda>q. t_fd (ev_fd s q) = fd)" by auto
  have g: "get_container c ?s = get_container c s" by (cases c) simp_all
  show ?thesis unfolding fd_lookup_def e g ..
qed

text \<open>The part of a buffer that is still to be written.\<close>

definition left :: "data_desc \<Rightarrow> byte list" where
  "left d = drop (unat (d_curr_pos d)) (d_bytes d)"

definition sendable_buffer :: "data_desc \<Rightarrow> bool" where
  "sendable_buffer d \<longleftrightarrow> length (d_bytes d) = unat (d_capacity d) \<and> d_curr_pos d < d_capacity d"

lemma unsent_left:
  assumes "sendable_buffer d"
  shows "unsent d = length (left d)" "left d \<noteq> []" "take (unsent d) (drop (unat (d_curr_pos d)) (d_bytes d)) = left d"
    "unat (d_curr_pos d) + unsent d = length (d_bytes d)"
proof -
  have le: "unat (d_curr_pos d) < unat (d_capacity d)" using assms by (simp add: sendable_buffer_def word_less_nat_alt)
  then have u: "unsent d = unat (d_capacity d) - unat (d_curr_pos d)"
    by (simp add: unsent_def unat_sub word_le_nat_alt)
  with le assms show "unsent d = length (left d)" "left d \<noteq> []" "take (unsent d) (drop (unat (d_curr_pos d)) (d_bytes d)) = left d"
    "unat (d_curr_pos d) + unsent d = length (d_bytes d)"
    by (simp_all add: sendable_buffer_def left_def)
qed

lemma advance_left:
  assumes "sendable_buffer d" and "0 < n" and "n \<le> int (length (left d))" and "d' = d\<lparr>d_curr_pos := d_curr_pos d + of_int n\<rparr>"
  shows "left d' = drop (nat n) (left d)" "unsent d' = length (left d) - nat n" "nat n < length (left d) \<Longrightarrow> sendable_buffer d'"
proof -
  have le: "unat (d_curr_pos d) < unat (d_capacity d)" using assms(1) by (simp add: sendable_buffer_def word_less_nat_alt)
  have cap: "unat (d_capacity d) < 2 ^ 32" using unsigned_less [of "d_capacity d"] by simp
  have ll: "length (left d) = unat (d_capacity d) - unat (d_curr_pos d)" using assms(1) by (simp add: left_def sendable_buffer_def)
  have nn: "of_int n = (of_nat (nat n) :: 32 word)" using assms(2) by simp
  have b: "unat (d_curr_pos d) + nat n \<le> unat (d_capacity d)"
    using nat_mono [OF assms(3)] le ll by linarith
  then have "unat (d_curr_pos d) + nat n < 2 ^ 32" "nat n < 2 ^ 32" using cap by auto
  then have c: "unat (d_curr_pos d') = unat (d_curr_pos d) + nat n"
    by (simp add: assms(4) nn unat_word_ariths unat_of_nat take_bit_eq_mod)
  have f: "d_bytes d' = d_bytes d" "d_capacity d' = d_capacity d" by (simp_all add: assms(4))
  show "left d' = drop (nat n) (left d)" by (simp add: left_def f c add.commute)
  show "unsent d' = length (left d) - nat n" using b c by (simp add: unsent_def f unat_sub word_le_nat_alt ll)
  show "sendable_buffer d'" if "nat n < length (left d)"
    using that assms(1) b c by (simp add: sendable_buffer_def f word_less_nat_alt ll)
qed

lemma exI2: "P a b \<Longrightarrow> \<exists>x y. P x y"
  by blast

definition after_writes :: "ptr \<Rightarrow> nat \<Rightarrow> nat \<Rightarrow> 'z io_net_scheme \<Rightarrow> 'z io_net_scheme" where
  "after_writes data calls k s = (on_world (\<lambda>w. w\<lparr>nw_seq := nw_seq w + calls, nw_sent := nw_sent w @ take k (left (cl_desc s data))\<rparr>) s)
     \<lparr>cl_desc := (cl_desc s)(data := (cl_desc s data)\<lparr>d_curr_pos := d_curr_pos (cl_desc s data) + of_nat k\<rparr>)\<rparr>"

lemma write_loop_spec:
  assumes "sendable_buffer (cl_desc s data)" and "writes_ok (io_world s)"
  shows "\<exists>k calls. k \<le> length (left (cl_desc s data)) \<and> left (cl_desc (after_writes data calls k s) data) = drop k (left (cl_desc s data)) \<and>
    (if k = length (left (cl_desc s data)) then io_net_write_loop context data s = Some (Inr (after_writes data calls k s))
     else \<exists>bsp n. nw_write (io_world s) (nw_seq (io_world s) + calls - 1) (io_socket (io_data s)) (drop k (left (cl_desc s data))) = (bsp, n)
       \<and> bsp \<noteq> IOTC_BSP_IO_NET_STATE_OK \<and> 0 < calls
       \<and> io_net_write_loop context data s = Some (Inl (io_net_write_failed context data bsp (after_writes data calls k s))))"
  using assms
proof (induction "length (left (cl_desc s data))" arbitrary: s rule: less_induct)
  case less
  let ?d = "cl_desc s data"
  note u = unsent_left [OF less.prems(1)]
  obtain bsp n where w: "nw_write (io_world s) (nw_seq (io_world s)) (io_socket (io_data s)) (left ?d) = (bsp, n)" by fastforce
  have m: "on_mem (memcpy_check (unat (d_curr_pos ?d) + unsent ?d) (length (d_bytes ?d))) s = s"
    by (simp add: u(4) memcpy_check_def on_mem_def)
  show ?case
  proof (cases "bsp = IOTC_BSP_IO_NET_STATE_OK")
    case False
    have "io_net_write_loop context data s = Some (Inl (io_net_write_failed context data bsp (after_writes data (Suc 0) 0 s)))"
      using False by (subst io_net_write_loop.simps)
        (simp add: Let_def m u(3) iotc_bsp_io_net_write_def w after_writes_def on_world_def)
    with w False u(2) show ?thesis by (intro exI2 [where a = 0 and b = "Suc 0"]) (simp add: after_writes_def left_def on_world_def)
  next
    case True
    with w less.prems(2) u(2) have n: "0 < n" "n \<le> int (length (left ?d))" unfolding writes_ok_def by blast+
    let ?d1 = "?d\<lparr>d_curr_pos := d_curr_pos ?d + of_int n\<rparr>" and ?s = "after_writes data (Suc 0) (nat n) s"
    note a = advance_left [OF less.prems(1) n refl]
    have s1: "cl_desc ?s data = ?d1" "io_data ?s = io_data s" "writes_ok (io_world ?s)" "nw_write (io_world ?s) = nw_write (io_world s)"
      "nw_seq (io_world ?s) = Suc (nw_seq (io_world s))"
      using n(1) less.prems(2) by (simp_all add: after_writes_def on_world_def writes_ok_def)
    have step: "io_net_write_loop context data s = (if unsent ?d1 > 0 then io_net_write_loop context data ?s else Some (Inr ?s))"
      using True n by (subst io_net_write_loop.simps)
        (simp add: Let_def m u(3) iotc_bsp_io_net_write_def w after_writes_def on_world_def)
    show ?thesis
    proof (cases "nat n < length (left ?d)")
      case False
      then have k: "nat n = length (left ?d)" using n by linarith
      have "left (cl_desc ?s data) = drop (nat n) (left ?d)" by (simp only: s1(1) a(1))
      then have "left (cl_desc ?s data) = []" using k by simp
      moreover have "io_net_write_loop context data s = Some (Inr ?s)" using step a(2) k by simp
      ultimately show ?thesis unfolding k by (intro exI2 [where a = "length (left ?d)" and b = "Suc 0"]) simp
    next
      case lt: True
      have l1: "length (left (cl_desc ?s data)) < length (left ?d)" using n lt by (simp add: s1 a(1))
      have sb: "sendable_buffer (cl_desc ?s data)" using a(3) lt by (simp add: s1)
      have ls: "left (cl_desc ?s data) = drop (nat n) (left ?d)" by (simp only: s1(1) a(1))
      from less.hyps [OF l1 sb s1(3), unfolded ls length_drop drop_drop s1(2,4,5)] obtain k calls
        where k: "k \<le> length (left ?d) - nat n" "left (cl_desc (after_writes data calls k ?s) data) = drop (k + nat n) (left ?d)"
        and r: "if k = length (left ?d) - nat n then io_net_write_loop context data ?s = Some (Inr (after_writes data calls k ?s))
         else \<exists>bsp i. nw_write (io_world s) (Suc (nw_seq (io_world s)) + calls - 1) (io_socket (io_data s)) (drop (k + nat n) (left ?d)) = (bsp, i)
           \<and> bsp \<noteq> IOTC_BSP_IO_NET_STATE_OK \<and> 0 < calls
           \<and> io_net_write_loop context data ?s = Some (Inl (io_net_write_failed context data bsp (after_writes data calls k ?s)))"
        by blast
      have aw: "after_writes data calls k ?s = after_writes data (Suc calls) (k + nat n) s"
        using n by (simp add: after_writes_def on_world_def a(1) [simplified] take_add add.commute [of k] add.assoc)
      have "0 < unsent ?d1" using lt a(2) by simp
      with step have "io_net_write_loop context data s = io_net_write_loop context data ?s" by simp
      moreover have "k + nat n = length (left ?d) \<longleftrightarrow> k = length (left ?d) - nat n" using lt k(1) by linarith
      moreover have "k + nat n \<le> length (left ?d)" using k(1) lt by linarith
      moreover have "left (cl_desc (after_writes data (Suc calls) (k + nat n) s) data) = drop (k + nat n) (left ?d)"
        using k(2) unfolding aw .
      ultimately show ?thesis using r unfolding aw
        by (intro exI2 [where a = "k + nat n" and b = "Suc calls"]) (auto split: if_splits)
    qed
  qed
qed

lemma io_layers_upd:
  assumes "ly_at s' = ly_at s"
  shows "layer_in_dir d context s' = layer_in_dir d context s" "neighbour_ok context s' d = neighbour_ok context s d"
    "call_handle context s' c = call_handle context s c"
proof -
  show l: "layer_in_dir d context s' = layer_in_dir d context s" for d using assms by (cases d) simp_all
  show "neighbour_ok context s' d = neighbour_ok context s d" "call_handle context s' c = call_handle context s c"
    using assms by (simp_all add: neighbour_ok_def call_handle_def l)
qed

lemma after_writes_frame:
  "ly_at (after_writes data n k s) = ly_at s" "io_data (after_writes data n k s) = io_data s"
  "socket_tuple (after_writes data n k s) = socket_tuple s" "ev_sockets (after_writes data n k s) = ev_sockets s"
  "sys base hs M (after_writes data n k s) = sys base hs M s" "lock_free (after_writes data n k s) = lock_free s"
  "desc_blocks (Some (cl_desc (after_writes data n k s) data)) = desc_blocks (Some (cl_desc s data))"
  by (simp_all add: after_writes_def on_world_def socket_tuple_def fd_lookup_def sys_def lock_free_def desc_blocks_def)

lemma sys_free_desc:
  assumes "sys base hs (desc_blocks (Some (cl_desc s data)) + M) s" and "data \<noteq> NULL"
  shows "sys base hs M (free_data_desc data s)"
  unfolding free_data_desc_def
  by (rule sys_mem [where A = "desc_blocks (Some (cl_desc s data))"]) (use assms in \<open>auto simp: owns_free_desc free_desc_ok\<close>)

lemma continue_world:
  fixes s :: "'z io_net_scheme"
  shows "io_world (snd (IOTC_LAYER_CONTINUE_WITH dir f context data st s)) = io_world s"
    "io_data (snd (IOTC_LAYER_CONTINUE_WITH dir f context data st s)) = io_data s"
  by (simp_all add: IOTC_LAYER_CONTINUE_WITH_def iotc_layer_continue_with_impl_def iotc_evttd_execute_def iotc_evtd_execute_def
      Let_def iotc_lock_critical_section_def iotc_unlock_critical_section_def split: prod.splits option.splits)

lemma sys_lock_free: "sys base hs M s \<Longrightarrow> lock_free s"
  by (simp add: sys_def)

definition push_wait :: "ptr \<Rightarrow> ptr \<Rightarrow> event_handle" where
  "push_wait context data = iotc_make_handle_argc3 IOTC_THREADID_MAINTHREAD fn_io_net_push context data (state_arg IOTC_STATE_WANT_WRITE)"

lemma io_ready_upd:
  assumes "ly_at s' = ly_at s" and "socket_tuple s' = socket_tuple s" and "ev_sockets s' = ev_sockets s"
  shows "io_ready context s' = io_ready context s"
  using assms io_layers_upd [OF assms(1)] by (simp add: io_ready_def IOTC_THIS_LAYER_NOT_OPERATIONAL_def)

lemma post_freed:
  assumes "sys base hs (desc_blocks (Some (cl_desc s data)) + M) s" and "data \<noteq> NULL" and "neighbour_ok context s d"
  obtains s' where "IOTC_LAYER_CONTINUE_WITH d (layer_target f) context x y (free_data_desc data s) = (IOTC_STATE_OK, s')"
    "io_world s' = io_world s" "sys base (hs @ [call_handle context s (d, f, x, y)]) M s'"
proof -
  let ?s = "free_data_desc data s"
  have fr: "ly_at ?s = ly_at s" "io_world ?s = io_world s" by (simp_all add: free_data_desc_def on_mem_def)
  obtain q s' where c: "IOTC_LAYER_CONTINUE_WITH d (layer_target f) context x y ?s = (q, s')" by fastforce
  from sys_continue [OF sys_free_desc [OF assms(1,2)] _ c] assms(3)
  have "q = IOTC_STATE_OK" "sys base (hs @ [call_handle context s (d, f, x, y)]) M s'"
    by (simp_all add: io_layers_upd [OF fr(1)])
  moreover have "io_world s' = io_world s" using continue_world(1) [of d "layer_target f" "context" x y ?s] by (simp add: c fr)
  ultimately show thesis using that c by blast
qed

text \<open>What the layer does with the answer to a write that did not succeed.\<close>

definition write_answered ::
    "(ptr \<rightharpoonup> nat) \<Rightarrow> event_handle list \<Rightarrow> ptr multiset \<Rightarrow> ptr \<Rightarrow> ptr \<Rightarrow> byte list \<Rightarrow> net_state \<Rightarrow> 'z io_net_scheme \<Rightarrow> 'z io_net_scheme
      \<Rightarrow> bool" where
  "write_answered base hs M context data rest bsp s s' \<longleftrightarrow>
     (case bsp of
        IOTC_BSP_IO_NET_STATE_OK \<Rightarrow> False
      | IOTC_BSP_IO_NET_STATE_BUSY \<Rightarrow> socket_waits IOTC_EVENT_WANT_WRITE (push_wait context data) s' \<and> left (cl_desc s' data) = rest
          \<and> sys base hs (desc_blocks (Some (cl_desc s' data)) + M) s'
      | IOTC_BSP_IO_NET_STATE_CONNECTION_RESET \<Rightarrow>
          sys base (hs @ [call_handle context s (This, F_close_externally, NULL, IOTC_CONNECTION_RESET_BY_PEER_ERROR)]) M s'
      | _ \<Rightarrow> sys base (hs @ [call_handle context s (This, F_close_externally, data, IOTC_SOCKET_WRITE_ERROR)]) M s')"

lemma write_failed_answered:
  assumes "io_ready context s" and "data \<noteq> NULL" and "sys base hs (desc_blocks (Some (cl_desc s data)) + M) s"
    and "bsp \<noteq> IOTC_BSP_IO_NET_STATE_OK"
  obtains s' where "io_net_write_failed context data bsp s = (IOTC_STATE_OK, s')" "io_world s' = io_world s"
    "write_answered base hs M context data (left (cl_desc s data)) bsp s s'"
proof (cases "bsp = IOTC_BSP_IO_NET_STATE_BUSY")
  case True
  obtain t where t: "socket_tuple s = Some t" using assms(1) by (auto simp: io_ready_def)
  let ?s' = "s\<lparr>ev_fd := (ev_fd s)(t := (ev_fd s t)\<lparr>t_event_type := IOTC_EVENT_WANT_WRITE, t_handle := push_wait context data\<rparr>)\<rparr>"
  have "iotc_evtd_continue_when_evt_on_socket IOTC_EVENT_WANT_WRITE (push_wait context data) (io_socket (io_data s)) s = (1, ?s')"
    using continue_registered [OF sys_lock_free [OF assms(3)]] assms(1) t by (simp add: io_ready_def socket_tuple_def)
  then have "io_net_write_failed context data bsp s = (IOTC_STATE_OK, ?s')"
    by (simp add: io_net_write_failed_def True flip: push_wait_def)
  moreover have "socket_tuple ?s' = Some t" using t tuple_kept [of handles_and_socket_fd "io_socket (io_data s)" s t]
    by (simp add: socket_tuple_def)
  moreover have "sys base hs (desc_blocks (Some (cl_desc ?s' data)) + M) ?s'" by (rule sys_cong) (use assms(3) in simp_all)
  ultimately show thesis using that [of ?s'] True by (simp add: write_answered_def socket_waits_def)
next
  case False
  let ?x = "if bsp = IOTC_BSP_IO_NET_STATE_CONNECTION_RESET then NULL else data"
  let ?y = "if bsp = IOTC_BSP_IO_NET_STATE_CONNECTION_RESET then IOTC_CONNECTION_RESET_BY_PEER_ERROR else IOTC_SOCKET_WRITE_ERROR"
  from assms(1) have nb: "neighbour_ok context s This" by (simp add: io_ready_def)
  obtain s' where "IOTC_LAYER_CONTINUE_WITH This (layer_target F_close_externally) context ?x ?y (free_data_desc data s) = (IOTC_STATE_OK, s')"
    "io_world s' = io_world s" "sys base (hs @ [call_handle context s (This, F_close_externally, ?x, ?y)]) M s'"
    using post_freed [OF assms(3,2) nb, of F_close_externally ?x ?y] by blast
  with assms(4) False that [of s'] show thesis
    by (cases bsp) (simp_all add: io_net_write_failed_def write_answered_def)
qed


section \<open>What is read\<close>

declare io_timeouts_restart_loop.simps [simp del]

definition timeouts_ok :: "'z layered_scheme \<Rightarrow> bool" where
  "timeouts_ok s \<longleftrightarrow> (\<forall>h\<in>set (vec_list (ctx_io_timeouts s)). timer_ok h s \<and> timeout_set h s)"

lemma restart_loop_sys:
  assumes "sys base hs M s" and "timeouts_ok s" and "0 \<le> i"
  shows "sys base hs M (io_timeouts_restart_loop i t s)"
  using assms
proof (induction i t s rule: io_timeouts_restart_loop.induct)
  case (1 i t s)
  show ?case
  proof (cases "i < v_elem_no (ctx_io_timeouts s)")
    case True
    let ?h = "v_elems (ctx_io_timeouts s) ! nat i"
    have v: "vec_inv (ctx_io_timeouts s)" using "1.prems"(1) by (simp add: sys_def)
    have "?h = vec_list (ctx_io_timeouts s) ! nat i" using vec_list_nth [OF v, of i] True "1.prems"(3) by simp
    moreover have "nat i < length (vec_list (ctx_io_timeouts s))" using vec_list_length [OF v] True "1.prems"(3) by simp
    ultimately have h: "?h \<in> set (vec_list (ctx_io_timeouts s))" by simp
    with "1.prems"(2) have hk: "timer_ok ?h s" "timeout_set ?h s" by (auto simp: timeouts_ok_def)
    obtain st s1 where r: "iotc_evtd_restart ?h t s = (st, s1)" by fastforce
    note k = sys_restart_all [OF "1.prems"(1) hk r]
    have s1: "s1 = snd (iotc_evtd_restart ?h t s)" by (simp add: r)
    have c: "ctx_io_timeouts s1 = ctx_io_timeouts s" by (simp add: s1)
    have "timeouts_ok s1" using "1.prems"(2) k by (simp add: timeouts_ok_def c)
    have "sys base hs M s1" "0 \<le> i + 1" using k "1.prems"(3) by auto
    from "1.IH" [OF True refl s1 this(1) \<open>timeouts_ok s1\<close> this(2)]
    have "sys base hs M (io_timeouts_restart_loop (i + 1) t s1)" .
    then show ?thesis using True by (subst io_timeouts_restart_loop.simps) (simp add: Let_def r)
  next
    case False
    then show ?thesis using "1.prems"(1) by (subst io_timeouts_restart_loop.simps) simp
  qed
qed

definition pull_wait :: "ptr \<Rightarrow> ptr \<Rightarrow> iotc_state \<Rightarrow> event_handle" where
  "pull_wait context data st = iotc_make_handle_argc3 IOTC_THREADID_MAINTHREAD fn_io_net_pull context data (state_arg st)"

definition read_buffer :: "data_desc \<Rightarrow> bool" where
  "read_buffer d \<longleftrightarrow> length (d_bytes d) = IOTC_IO_BUFFER_SIZE \<and> d_capacity d = of_nat IOTC_IO_BUFFER_SIZE"

text \<open>What the layer does with the answer to a read.\<close>

definition read_answered ::
    "(ptr \<rightharpoonup> nat) \<Rightarrow> event_handle list \<Rightarrow> ptr multiset \<Rightarrow> ptr \<Rightarrow> iotc_state \<Rightarrow> net_state \<times> byte list \<Rightarrow> 'z io_net_scheme \<Rightarrow> ptr
      \<Rightarrow> iotc_state \<times> 'z io_net_scheme \<Rightarrow> bool" where
  "read_answered base hs M context st answer s d r \<longleftrightarrow>
     (case (answer, r) of ((bsp, bs), (ret, s')) \<Rightarrow>
        ret = (if bsp = IOTC_BSP_IO_NET_STATE_BUSY then IOTC_STATE_WANT_READ else IOTC_STATE_OK) \<and>
        (case bsp of
           IOTC_BSP_IO_NET_STATE_OK \<Rightarrow> unread (cl_desc s' d) = bs
             \<and> sys base (hs @ [call_handle context s (Next, F_pull, d, IOTC_STATE_OK)]) (desc_blocks (Some (cl_desc s' d)) + M) s'
         | IOTC_BSP_IO_NET_STATE_BUSY \<Rightarrow> socket_waits IOTC_EVENT_WANT_READ (pull_wait context d st) s' \<and> read_buffer (cl_desc s' d)
             \<and> sys base hs (desc_blocks (Some (cl_desc s' d)) + M) s'
         | IOTC_BSP_IO_NET_STATE_CONNECTION_RESET \<Rightarrow>
             sys base (hs @ [call_handle context s (This, F_close_externally, NULL, IOTC_CONNECTION_RESET_BY_PEER_ERROR)]) M s'
         | _ \<Rightarrow> sys base (hs @ [call_handle context s (This, F_close_externally, NULL, IOTC_SOCKET_READ_ERROR)]) M s'))"

lemma io_timeouts_restart_frame:
  fixes s :: "'z io_net_scheme"
  shows "cl_desc (iotc_io_timeouts_restart t s) = cl_desc s" "ly_at (iotc_io_timeouts_restart t s) = ly_at s"
proof -
  have r: "cl_desc (snd (iotc_evtd_restart h t s)) = cl_desc s" "ly_at (snd (iotc_evtd_restart h t s)) = ly_at s" for h t and s :: "'z io_net_scheme"
    by (simp_all add: iotc_evtd_restart_def Let_def iotc_lock_critical_section_def iotc_unlock_critical_section_def split: prod.splits)
  have "cl_desc (io_timeouts_restart_loop i t s) = cl_desc s \<and> ly_at (io_timeouts_restart_loop i t s) = ly_at s" for i
  proof (induction i t s rule: io_timeouts_restart_loop.induct)
    case (1 i t s)
    then show ?case
      by (cases "i < v_elem_no (ctx_io_timeouts s)"; subst (1 2) io_timeouts_restart_loop.simps)
        (simp_all add: Let_def r)
  qed
  then show "cl_desc (iotc_io_timeouts_restart t s) = cl_desc s" "ly_at (iotc_io_timeouts_restart t s) = ly_at s"
    by (simp_all add: iotc_io_timeouts_restart_def)
qed

lemma read_into_answered:
  assumes rd: "io_ready context s" and d: "d \<noteq> NULL" "read_buffer (cl_desc s d)" "d_curr_pos (cl_desc s d) = 0" and w: "reads_ok (io_world s)"
    and o: "sys base hs (desc_blocks (Some (cl_desc s d)) + M) s" and to: "timeouts_ok s"
    and a: "nw_read (io_world s) (nw_seq (io_world s)) (io_socket (io_data s)) IOTC_IO_BUFFER_SIZE = answer"
  shows "read_answered base hs M context st answer s d (io_net_read_into context d st s)"
proof -
  obtain bsp bs where ans: "answer = (bsp, bs)" by fastforce
  let ?d = "cl_desc s d"
  have cap: "unat (d_capacity ?d) = IOTC_IO_BUFFER_SIZE" "length (d_bytes ?d) = IOTC_IO_BUFFER_SIZE"
    using d(2) by (simp_all add: read_buffer_def IOTC_IO_BUFFER_SIZE_def)
  have lb: "length bs \<le> IOTC_IO_BUFFER_SIZE" using w a ans unfolding reads_ok_def by metis
  define s2 where "s2 = (on_world (\<lambda>w. w\<lparr>nw_seq := nw_seq w + 1\<rparr>) s)\<lparr>cl_desc := (cl_desc s)(d := ?d\<lparr>d_bytes := memcpy_at (d_bytes ?d) 0 bs\<rparr>)\<rparr>"
  have m: "on_mem (memcpy_check (length bs) IOTC_IO_BUFFER_SIZE) x = x" for x :: "'a io_net_scheme"
    using lb by (simp add: on_mem_def memcpy_check_def)
  have f2: "ly_at s2 = ly_at s" "ctx_io_timeouts s2 = ctx_io_timeouts s" "io_data s2 = io_data s" "ev_sockets s2 = ev_sockets s" "ev_fd s2 = ev_fd s"
    "cl_desc s2 d = ?d\<lparr>d_bytes := memcpy_at (d_bytes ?d) 0 bs\<rparr>"
    by (simp_all add: s2_def on_world_def)
  have b2: "desc_blocks (Some (cl_desc s2 d)) = desc_blocks (Some ?d)" by (simp add: f2 desc_blocks_def)
  have o2: "sys base hs (desc_blocks (Some (cl_desc s2 d)) + M) s2" unfolding b2
    by (rule sys_cong [OF o]) (simp_all add: s2_def on_world_def)
  have r: "io_net_read_into context d st s =
     (let failed = (\<lambda>e. IOTC_PROCESS_CLOSE_EXTERNALLY_ON_THIS_LAYER context NULL e (free_data_desc d s2))
         in if bsp = IOTC_BSP_IO_NET_STATE_BUSY then
              (IOTC_STATE_WANT_READ, snd (iotc_evtd_continue_when_evt_on_socket IOTC_EVENT_WANT_READ (pull_wait context d st) (io_socket (io_data s2)) s2))
            else if bsp = IOTC_BSP_IO_NET_STATE_CONNECTION_RESET then failed IOTC_CONNECTION_RESET_BY_PEER_ERROR
            else if bsp \<noteq> IOTC_BSP_IO_NET_STATE_OK then failed IOTC_SOCKET_READ_ERROR
            else
              (let s3 = (if v_elem_no (ctx_io_timeouts s2) > 0 \<and> cd_connection_timeout (cx_connection s2) > 0
                         then iotc_io_timeouts_restart (int (cd_connection_timeout (cx_connection s2))) s2 else s2)
               in IOTC_PROCESS_PULL_ON_NEXT_LAYER context d IOTC_STATE_OK (s3\<lparr>cl_desc := (cl_desc s3)(d :=
                          (cl_desc s3 d)\<lparr>d_length := of_nat (length bs), d_curr_pos := 0\<rparr>)\<rparr>)))"
    using a unfolding io_net_read_into_def iotc_bsp_io_net_read_def cap ans pull_wait_def
    by (simp add: Let_def m cap(2) s2_def on_world_def)
  from rd have rdy: "neighbour_ok context s Next" "neighbour_ok context s This" "vec_inv (ev_sockets s)" "socket_tuple s \<noteq> None"
    by (simp_all add: io_ready_def)
  show ?thesis
  proof (cases "bsp = IOTC_BSP_IO_NET_STATE_BUSY")
    case True
    obtain t where t: "socket_tuple s = Some t" using rdy(4) by auto
    have ta: "fd_lookup handles_and_socket_fd (io_socket (io_data s2)) s2 = Some t"
      using t by (simp add: socket_tuple_def fd_lookup_def f2)
    let ?s' = "s2\<lparr>ev_fd := (ev_fd s2)(t := (ev_fd s2 t)\<lparr>t_event_type := IOTC_EVENT_WANT_READ, t_handle := pull_wait context d st\<rparr>)\<rparr>"
    have "snd (iotc_evtd_continue_when_evt_on_socket IOTC_EVENT_WANT_READ (pull_wait context d st) (io_socket (io_data s2)) s2) = ?s'"
      using continue_registered [OF sys_lock_free [OF o2] _ ta, of IOTC_EVENT_WANT_READ "pull_wait context d st"] rdy(3) by (simp add: f2)
    then have e: "io_net_read_into context d st s = (IOTC_STATE_WANT_READ, ?s')" using True by (simp add: r)
    have "socket_tuple ?s' = Some t" using ta tuple_kept [of handles_and_socket_fd "io_socket (io_data s2)" s2 t]
      by (simp add: socket_tuple_def)
    moreover have "sys base hs (desc_blocks (Some (cl_desc ?s' d)) + M) ?s'" by (rule sys_cong) (use o2 in simp_all)
    moreover have "read_buffer (cl_desc ?s' d)" using d(2) lb by (simp add: f2 read_buffer_def memcpy_at_def)
    ultimately show ?thesis using True by (simp add: read_answered_def e ans socket_waits_def)
  next
    case nb: False
    show ?thesis
    proof (cases "bsp = IOTC_BSP_IO_NET_STATE_OK")
      case False
      let ?y = "if bsp = IOTC_BSP_IO_NET_STATE_CONNECTION_RESET then IOTC_CONNECTION_RESET_BY_PEER_ERROR else IOTC_SOCKET_READ_ERROR"
      from post_freed [OF o2 d(1), of "context" This F_close_externally NULL ?y] rdy(2) obtain s'
        where c: "IOTC_LAYER_CONTINUE_WITH This (layer_target F_close_externally) context NULL ?y (free_data_desc d s2) = (IOTC_STATE_OK, s')"
          "sys base (hs @ [call_handle context s (This, F_close_externally, NULL, ?y)]) M s'"
        unfolding io_layers_upd [OF f2(1)] by blast
      then have "io_net_read_into context d st s = (IOTC_STATE_OK, s')" using nb False
        by (cases "bsp = IOTC_BSP_IO_NET_STATE_CONNECTION_RESET") (simp_all add: r)
      with c(2) nb False show ?thesis by (cases bsp) (simp_all add: read_answered_def ans)
    next
      case True
      define s3 where "s3 = (if v_elem_no (ctx_io_timeouts s2) > 0 \<and> cd_connection_timeout (cx_connection s2) > 0
                         then iotc_io_timeouts_restart (int (cd_connection_timeout (cx_connection s2))) s2 else s2)"
      have "timeouts_ok s2" using to by (simp add: timeouts_ok_def timer_ok_def s2_def on_world_def)
      from restart_loop_sys [OF o2 this, of 0] have o3: "sys base hs (desc_blocks (Some (cl_desc s2 d)) + M) s3"
        using o2 by (simp add: s3_def iotc_io_timeouts_restart_def)
      have f3: "cl_desc s3 = cl_desc s2" "ly_at s3 = ly_at s" by (simp_all add: s3_def io_timeouts_restart_frame f2)
      define s4 where "s4 = s3\<lparr>cl_desc := (cl_desc s3)(d := (cl_desc s3 d)\<lparr>d_length := of_nat (length bs), d_curr_pos := 0\<rparr>)\<rparr>"
      have o4: "sys base hs (desc_blocks (Some ?d) + M) s4" by (rule sys_cong) (use o3 b2 in \<open>simp_all add: s4_def\<close>)
      have l4: "ly_at s4 = ly_at s" by (simp add: s4_def f3)
      have d4: "unread (cl_desc s4 d) = bs" "desc_blocks (Some (cl_desc s4 d)) = desc_blocks (Some ?d)"
        using lb by (simp_all add: s4_def f3 f2 unread_def desc_data_def desc_blocks_def memcpy_at_def unat_of_nat take_bit_eq_mod
            IOTC_IO_BUFFER_SIZE_def)
      obtain q s' where c: "IOTC_LAYER_CONTINUE_WITH Next (layer_target F_pull) context d IOTC_STATE_OK s4 = (q, s')" by fastforce
      from sys_continue [OF o4 _ c] rdy(1) have k: "q = IOTC_STATE_OK" "sys base (hs @ [call_handle context s (Next, F_pull, d, IOTC_STATE_OK)]) (desc_blocks (Some ?d) + M) s'"
        by (simp_all add: io_layers_upd [OF l4])
      have "cl_desc s' = cl_desc s4" using continue_codec(2) [of Next lf_pull "context" d IOTC_STATE_OK s4] c by simp
      moreover have "io_net_read_into context d st s = (q, s')" using c True by (simp add: r Let_def s4_def s3_def)
      ultimately show ?thesis using k True d4 by (simp add: read_answered_def ans)
    qed
  qed
qed

text \<open>
  C10. Reading hands what the platform has read, and nothing else, to the layer above, in a new buffer or in the one that was kept from a read
  that had to wait. When the platform is busy the buffer is kept and the layer waits for the socket; on an error the buffer is released
  and the connection is closed with the reason.
\<close>

theorem io_pull_delivers_bytes:
  assumes "io_ready context s" and "data = NULL \<or> read_buffer (cl_desc s data)" and "reads_ok (io_world s)" and "timeouts_ok s"
    and "sys base hs ((if data = NULL then {#} else desc_blocks (Some (cl_desc s data))) + M) s"
    and "nw_read (io_world s) (nw_seq (io_world s)) (io_socket (io_data s)) IOTC_IO_BUFFER_SIZE = answer"
  shows "\<exists>d. (data \<noteq> NULL \<longrightarrow> d = data) \<and> d \<noteq> NULL \<and>
    read_answered base hs M context st answer s d (iotc_io_net_layer_pull context data st s)"
proof -
  from assms(1) have rd: "user_data context s \<noteq> NULL" "\<not> IOTC_THIS_LAYER_NOT_OPERATIONAL context s" by (simp_all add: io_ready_def)
  have main: "read_answered base hs M context st answer s d (io_net_read_into context d st s1)"
    if "s1 = s\<lparr>ev_mem := m, cl_desc := (cl_desc s)(d := x)\<rparr>" "d \<noteq> NULL" "read_buffer x" "d_curr_pos x = 0" "sys base hs (desc_blocks (Some x) + M) s1"
    for s1 m d x
  proof -
    have l: "ly_at s1 = ly_at s" by (simp add: that)
    have "io_ready context s1" using assms(1) io_ready_upd [of s1 s] by (simp add: that(1) socket_tuple_def fd_lookup_def)
    moreover have "reads_ok (io_world s1)" "timeouts_ok s1" using assms(3,4) by (simp_all add: that(1) timeouts_ok_def timer_ok_def)
    moreover have "cl_desc s1 d = x" by (simp add: that(1))
    moreover have "nw_read (io_world s1) (nw_seq (io_world s1)) (io_socket (io_data s1)) IOTC_IO_BUFFER_SIZE = answer"
      using assms(6) by (simp add: that(1))
    ultimately have "read_answered base hs M context st answer s1 d (io_net_read_into context d st s1)"
      using that(2-5) by (intro read_into_answered) simp_all
    then show ?thesis unfolding read_answered_def io_layers_upd(3) [OF l] .
  qed
  show ?thesis
  proof (cases "data = NULL")
    case True
    with assms(5) have o: "sys base hs M s" by simp
    then obtain qs where q: "chain (ev_next s) (ev_call_queue s) qs" "map (ev_queued s) qs = hs"
      and ob: "owns_blocks base (mset qs + (mset (vec_list (ev_timers s)) + M)) (ev_mem s)" by (auto simp: sys_def)
    obtain d m' where d: "iotc_make_empty_desc_alloc IOTC_IO_BUFFER_SIZE (ev_mem s) = (Some d, m')" "desc_over (m_live (ev_mem s)) d m'"
      "all_granted m'" "desc_data d = []"
      using make_empty_granted [of "ev_mem s" IOTC_IO_BUFFER_SIZE] ob o by (auto simp: owns_blocks_def sys_def IOTC_IO_BUFFER_SIZE_def)
    let ?s1 = "s\<lparr>ev_mem := m', cl_desc := (cl_desc s)(d_self d := d)\<rparr>"
    have "sys base hs (desc_blocks (Some d) + M) ?s1"
      using desc_over_blocks [OF ob d(2)] q o d(3) by (auto simp: sys_def lock_free_def ac_simps intro!: exI [of _ qs])
    moreover have "read_buffer d" "d_curr_pos d = 0" using d(1,2)
      by (auto simp: read_buffer_def iotc_make_empty_desc_alloc_def Let_def zeroed_desc_def split: prod.splits if_splits)
    moreover have "d_self d \<noteq> NULL" using d(2) by (simp add: desc_over_def)
    ultimately have "read_answered base hs M context st answer s (d_self d) (io_net_read_into context (d_self d) st ?s1)"
      by (intro main [OF refl]) simp_all
    with True rd d(1) show ?thesis by (intro exI [of _ "d_self d"]) (simp add: iotc_io_net_layer_pull_def \<open>d_self d \<noteq> NULL\<close>)
  next
    case False
    let ?x = "(cl_desc s data)\<lparr>d_bytes := memcpy_at (d_bytes (cl_desc s data)) 0 (replicate IOTC_IO_BUFFER_SIZE 0), d_curr_pos := 0, d_length := 0\<rparr>"
    have lb: "length (d_bytes (cl_desc s data)) = IOTC_IO_BUFFER_SIZE" using assms(2) False by (simp add: read_buffer_def)
    let ?s1 = "s\<lparr>ev_mem := ev_mem s, cl_desc := (cl_desc s)(data := ?x)\<rparr>"
    have bx: "desc_blocks (Some ?x) = desc_blocks (Some (cl_desc s data))" by (simp add: desc_blocks_def)
    have "sys base hs (desc_blocks (Some ?x) + M) ?s1" unfolding bx
      by (rule sys_cong [where s = s]) (use assms(5) False in simp_all)
    moreover have "read_buffer ?x" using assms(2) False lb by (simp add: read_buffer_def memcpy_at_def)
    ultimately have "read_answered base hs M context st answer s data (io_net_read_into context data st ?s1)"
      using False by (intro main [OF refl]) simp_all
    moreover have "on_mem (memcpy_check IOTC_IO_BUFFER_SIZE (length (d_bytes (cl_desc s data)))) (s\<lparr>cl_desc := (cl_desc s)(data := ?x)\<rparr>) = ?s1"
      by (simp add: lb on_mem_def memcpy_check_def)
    ultimately show ?thesis using False rd by (intro exI [of _ data]) (simp add: iotc_io_net_layer_pull_def Let_def)
  qed
qed

section \<open>Closing and spinning\<close>

lemma unregister_registered:
  assumes "lock_free s" and "vec_inv (ev_sockets s)" and "fd_lookup handles_and_socket_fd fd s = Some p"
  obtains v where "iotc_evtd_unregister_socket_fd fd s = (1, s\<lparr>ev_mem := IOTC_SAFE_FREE p (ev_mem s), ev_sockets := v\<rparr>)"
proof -
  let ?c = handles_and_socket_fd
  have v: "vec_inv (get_container ?c (iotc_lock_critical_section s))"
    using assms(1,2) by (simp add: iotc_lock_critical_section_def lock_free_def)
  have l: "fd_lookup ?c fd (iotc_lock_critical_section s) = Some p"
    using assms(1,3) by (simp add: fd_lookup_def iotc_lock_critical_section_def lock_free_def)
  from find_fd_spec(1) [OF v, of fd] find_fd_spec(2) [OF v l] l assms(1)
  have "\<exists>v. iotc_evtd_unregister_socket_fd fd s = (1, s\<lparr>ev_mem := IOTC_SAFE_FREE p (ev_mem s), ev_sockets := v\<rparr>)"
    by (cases s; auto simp: iotc_evtd_unregister_socket_fd_def iotc_evtd_unregister_fd_def Let_def lock_free_def
        iotc_lock_critical_section_def iotc_unlock_critical_section_def)
  with that show thesis by blast
qed

text \<open>
  Closing releases the socket once, its entry in the dispatcher and the data of the layer, and tells the layer above. But a buffer
  that was kept for a read that waits is known only to the entry: when the connection is closed then, the
  buffer is still allocated and nothing refers to it any more.
\<close>

theorem io_close_loses_read_buffer:
  assumes "io_ready context s" and "socket_tuple s = Some p" and "t_handle (ev_fd s p) = pull_wait context d IOTC_STATE_OK"
    and "sys base hs (desc_blocks (Some (cl_desc s d)) + add_mset p (add_mset (user_data context s) M)) s"
    and "iotc_io_net_layer_close_externally context data st s = (r, s')"
  shows "r = IOTC_STATE_OK \<and> nw_closed (io_world s') = nw_closed (io_world s) @ [io_socket (io_data s)] \<and> user_data context s' = NULL
    \<and> sys base (hs @ [call_handle context s (Next, F_close_externally, data, st)]) (desc_blocks (Some (cl_desc s d)) + M) s'"
proof -
  let ?l = "user_data context s" and ?B = "desc_blocks (Some (cl_desc s d))"
  from assms(1) have rd: "?l \<noteq> NULL" "neighbour_ok context s Next" "vec_inv (ev_sockets s)" by (simp_all add: io_ready_def)
  obtain v where u: "iotc_evtd_unregister_socket_fd (io_socket (io_data s)) s = (1, s\<lparr>ev_mem := IOTC_SAFE_FREE p (ev_mem s), ev_sockets := v\<rparr>)"
    by (rule unregister_registered [OF sys_lock_free [OF assms(4)] rd(3), of "io_socket (io_data s)" p])
      (use assms(2) in \<open>simp_all add: socket_tuple_def\<close>)
  define s1 where "s1 = s\<lparr>ev_mem := IOTC_SAFE_FREE p (ev_mem s), ev_sockets := v\<rparr>"
  have "sys base hs (add_mset ?l (?B + M)) (on_mem (IOTC_SAFE_FREE p) s)"
    by (rule sys_free) (use assms(4) in \<open>simp add: add_mset_commute\<close>)
  then have o1: "sys base hs (add_mset ?l (?B + M)) s1" by (rule sys_cong) (simp_all add: s1_def on_mem_def)
  define s2 where "s2 = iotc_bsp_io_net_close_socket s1"
  have o2: "sys base hs (add_mset ?l (?B + M)) s2" by (rule sys_cong [OF o1]) (simp_all add: s2_def iotc_bsp_io_net_close_socket_def on_world_def)
  define s3 where "s3 = on_mem (IOTC_SAFE_FREE ?l) s2"
  have o3: "sys base hs (?B + M) s3" unfolding s3_def by (rule sys_free [OF o2])
  define s4 where "s4 = s3\<lparr>ly_at := (ly_at s3)(context := (ly_at s3 context)\<lparr>ly_user_data := NULL\<rparr>)\<rparr>"
  have o4: "sys base hs (?B + M) s4" using o3 by (simp add: s4_def)
  have l3: "ly_at s3 = ly_at s" by (simp add: s3_def s2_def s1_def iotc_bsp_io_net_close_socket_def on_world_def on_mem_def)
  have l4: "layer_in_dir Next context s4 = layer_in_dir Next context s" "ly_funcs (ly_at s4 x) = ly_funcs (ly_at s x)"
    "user_data context s4 = NULL" for x by (simp_all add: s4_def l3)
  have nb4: "neighbour_ok context s4 Next" and ch4: "call_handle context s4 (Next, f, x, y) = call_handle context s (Next, f, x, y)" for f x y
    using rd(2) unfolding neighbour_ok_def call_handle_def prod.case l4 by simp_all
  have w4: "nw_closed (io_world s4) = nw_closed (io_world s) @ [io_socket (io_data s)]"
    by (simp add: s4_def s3_def s2_def s1_def iotc_bsp_io_net_close_socket_def on_world_def on_mem_def)
  have k: "IOTC_PROCESS_CLOSE_EXTERNALLY_ON_NEXT_LAYER context data st s4 = (r, s')"
    using assms(5) rd(1) u by (simp add: iotc_io_net_layer_close_externally_def Let_def s4_def s3_def s2_def s1_def)
  from sys_continue [OF o4 nb4, of F_close_externally data st r s'] k
  have "r = IOTC_STATE_OK" "sys base (hs @ [call_handle context s (Next, F_close_externally, data, st)]) (?B + M) s'" "user_data context s' = NULL"
    by (simp_all add: ch4 l4)
  moreover have "io_world s' = io_world s4" using k continue_world(1) [of Next lf_close_externally "context" data st s4] by simp
  ultimately show ?thesis using w4 by simp
qed

definition takes_nothing :: "net_world \<Rightarrow> bool" where
  "takes_nothing w \<longleftrightarrow> (\<forall>i fd bs. nw_write w i fd bs = (IOTC_BSP_IO_NET_STATE_OK, 0))"

lemma write_loop_spins:
  assumes "io_net_write_loop context data s = Some r"
  shows "unsent (cl_desc s data) > 0 \<longrightarrow> \<not> takes_nothing (io_world s)"
  by (rule io_net_write_loop.raw_induct [where P = "\<lambda>context data s y. unsent (cl_desc s data) > 0 \<longrightarrow> \<not> takes_nothing (io_world s)", OF _ assms])
    (force simp: Let_def iotc_bsp_io_net_write_def takes_nothing_def on_world_def on_mem_def split: prod.splits if_splits)

text \<open>
  The loop of a write ends only because the platform makes progress: on one that answers success but takes no byte, as the
  interface does not rule out, the function never returns, and with it the whole program stops.
\<close>

theorem io_push_spins:
  assumes "io_ready context s" and "data \<noteq> NULL" and "unsent (cl_desc s data) > 0" and "d_capacity (cl_desc s data) > 0"
    and "takes_nothing (io_world s)"
  shows "iotc_io_net_layer_push context data st s = None"
  using assms write_loop_spins [of "context" data s]
  by (cases "io_net_write_loop context data s") (auto simp: iotc_io_net_layer_push_def Let_def io_ready_def)

section \<open>Examples\<close>

definition example_world :: "int \<Rightarrow> net_world" where
  "example_world n = \<lparr>nw_seq = 0, nw_connect = (\<lambda>i host port. (IOTC_BSP_IO_NET_STATE_OK, 5)), nw_check = (\<lambda>i fd. IOTC_BSP_IO_NET_STATE_OK),
     nw_write = (\<lambda>i fd bs. (IOTC_BSP_IO_NET_STATE_OK, min n (int (length bs)))),
     nw_read = (\<lambda>i fd k. (IOTC_BSP_IO_NET_STATE_OK, take k [7, 8])), nw_sent = [], nw_closed = []\<rparr>"

definition example_buffer :: data_desc where
  "example_buffer = \<lparr>d_self = 60, d_data_ptr = 61, d_bytes = [1, 2, 3], d_capacity = 3, d_length = 3, d_curr_pos = 0,
     d_memory_type = IOTC_MEMORY_TYPE_MANAGED\<rparr>"

definition example_io :: "ptr list \<Rightarrow> net_world \<Rightarrow> event_handle \<Rightarrow> io_net" where
  "example_io ps w h = codec.extend ((codec.truncate (example_codec ps (\<lambda>p. zeroed_message)
       (\<lambda>p. \<lparr>ct_msg = NULL, ct_msg_id = 0, ct_msg_type = IOTC_MQTT_TYPE_NONE\<rparr>) (\<lambda>p. example_buffer) zeroed_codec_data))
       \<lparr>ev_sockets := small_vec\<lparr>v_elems := [9, 0], v_elem_no := 1\<rparr>,
         ev_fd := (\<lambda>p. \<lparr>t_fd = 5, t_handle = h, t_read_handle = h, t_event_type = IOTC_EVENT_WANT_READ, t_fd_type = IOTC_EVTD_FD_TYPE_SOCKET\<rparr>)\<rparr>)
     (io_net.fields \<lparr>io_socket = 5, io_connect_cs = 0\<rparr> w)"

lemma example_io_simps [simp]:
  "cl_desc (example_io ps w h) = (\<lambda>p. example_buffer)" "ly_at (example_io ps w h) = example_layers"
  "ev_mem (example_io ps w h) = example_heap ps" "io_world (example_io ps w h) = w"
  "io_data (example_io ps w h) = \<lparr>io_socket = 5, io_connect_cs = 0\<rparr>" "ev_sockets (example_io ps w h) = small_vec\<lparr>v_elems := [9, 0], v_elem_no := 1\<rparr>"
  "ev_fd (example_io ps w h) = (\<lambda>p. \<lparr>t_fd = 5, t_handle = h, t_read_handle = h, t_event_type = IOTC_EVENT_WANT_READ, t_fd_type = IOTC_EVTD_FD_TYPE_SOCKET\<rparr>)"
  "ctx_io_timeouts (example_io ps w h) = small_vec"
  by (simp_all add: example_io_def io_net.defs codec.defs example_codec_def mqtt.defs example_mqtt_def layered.defs example_layered_def)

lemma example_io_sys:
  assumes "distinct ps" and "\<forall>p\<in>set ps. 0 < p \<and> p < 100"
  shows "sys Map.empty [] (mset ps) (example_io ps w h)"
  using sys_example_codec [OF assms, of "\<lambda>p. zeroed_message" "\<lambda>p. \<lparr>ct_msg = NULL, ct_msg_id = 0, ct_msg_type = IOTC_MQTT_TYPE_NONE\<rparr>"
      "\<lambda>p. example_buffer" zeroed_codec_data]
  by (simp add: sys_def lock_free_def example_io_def io_net.defs codec.defs)

lemma example_io_tuple: "socket_tuple (example_io ps w h) = Some 9"
  by (simp add: socket_tuple_def fd_lookup_def) (simp add: small_vec_def vec_list_def)

lemma example_io_ready: "io_ready 42 (example_io ps w h)"
  by (simp add: io_ready_def IOTC_THIS_LAYER_NOT_OPERATIONAL_def neighbour_ok_def interface_ok_def example_io_tuple)
    (simp add: example_layers_def small_vec_def vec_inv_def)

lemma example_buffer_blocks: "desc_blocks (Some example_buffer) = {#60, 61#}"
  by (simp add: desc_blocks_def example_buffer_def)


theorem io_pull_delivers_bytes_witness:
  "\<exists>d s'. iotc_io_net_layer_pull 42 NULL IOTC_STATE_OK (example_io [] (example_world 2) zeroed_handle) = (IOTC_STATE_OK, s')
     \<and> unread (cl_desc s' d) = [7, 8] \<and> d \<noteq> NULL"
proof -
  let ?s = "example_io [] (example_world 2) zeroed_handle"
  have "reads_ok (io_world ?s)" "timeouts_ok ?s" by (auto simp: reads_ok_def example_world_def timeouts_ok_def small_vec_def vec_list_def)
  moreover have "sys Map.empty [] ({#} + {#}) ?s" using example_io_sys [of "[]"] by simp
  moreover have "nw_read (io_world ?s) (nw_seq (io_world ?s)) (io_socket (io_data ?s)) IOTC_IO_BUFFER_SIZE = (IOTC_BSP_IO_NET_STATE_OK, [7, 8])"
    by (simp add: example_world_def IOTC_IO_BUFFER_SIZE_def)
  ultimately obtain d where "d \<noteq> NULL" "read_answered Map.empty [] {#} 42 IOTC_STATE_OK (IOTC_BSP_IO_NET_STATE_OK, [7, 8]) ?s d
      (iotc_io_net_layer_pull 42 NULL IOTC_STATE_OK ?s)"
    using io_pull_delivers_bytes [OF example_io_ready, of NULL "[]" "example_world 2" zeroed_handle Map.empty "[]" "{#}"
        "(IOTC_BSP_IO_NET_STATE_OK, [7, 8])" IOTC_STATE_OK] by auto
  then show ?thesis by (cases "iotc_io_net_layer_pull 42 NULL IOTC_STATE_OK ?s") (auto simp: read_answered_def)
qed

theorem io_close_loses_read_buffer_witness:
  "\<exists>s'. snd (iotc_io_net_layer_close_externally 42 NULL IOTC_STATE_OK (example_io [60, 61, 9, 30] (example_world 2) (pull_wait 42 60 IOTC_STATE_OK))) = s'
     \<and> m_live (ev_mem s') 60 \<noteq> None \<and> nw_closed (io_world s') = [5]"
proof -
  let ?s = "example_io [60, 61, 9, 30] (example_world 2) (pull_wait 42 60 IOTC_STATE_OK)"
  obtain r s' where e: "iotc_io_net_layer_close_externally 42 NULL IOTC_STATE_OK ?s = (r, s')" by fastforce
  have "sys Map.empty [] (desc_blocks (Some (cl_desc ?s 60)) + add_mset 9 (add_mset (user_data 42 ?s) {#})) ?s"
    using example_io_sys [of "[60, 61, 9, 30]"] by (simp add: example_buffer_blocks example_layers_def add_mset_commute)
  from io_close_loses_read_buffer [OF example_io_ready example_io_tuple _ this e]
  have "sys Map.empty [call_handle 42 ?s (Next, F_close_externally, NULL, IOTC_STATE_OK)] {#60, 61#} s'" "nw_closed (io_world s') = [5]"
    by (simp_all add: example_buffer_blocks) (simp add: example_world_def)
  moreover from this(1) have "m_live (ev_mem s') 60 \<noteq> None" by (auto simp: sys_def owns_blocks_def)
  ultimately show ?thesis using e by simp
qed

theorem io_push_spins_witness:
  "iotc_io_net_layer_push 42 60 IOTC_STATE_OK (example_io [60, 61] (example_world 0) zeroed_handle) = None"
  by (rule io_push_spins [OF example_io_ready])
    (simp_all add: example_buffer_def unsent_def takes_nothing_def example_world_def)

end
