(* ===== verification/Iotc_Fs.thy ===== *)
theory Iotc_Fs
  imports Iotc_Error Iotc_Data_Desc
begin

text \<open>
  The file systems of \<^verbatim>\<open>src/libiotc/io/fs\<close>: the table of functions through which the library reads files (\<^verbatim>\<open>iotc_fs_api.h\<close>), the
  read-only file system in memory (\<^verbatim>\<open>memory/iotc_fs_memory.c\<close>) and the translation of the states of a platform's file system
  (\<^verbatim>\<open>iotc_fs_bsp_to_iotc_mapping.c\<close>). What a client of the table relies on is the locale \<open>readable_files\<close>.
\<close>

section \<open>The table of functions\<close>

datatype fs_resource_type = IOTC_FS_CERTIFICATE | IOTC_FS_CREDENTIALS | IOTC_FS_CONFIG_DATA

definition IOTC_FS_INVALID_RESOURCE_HANDLE :: int where "IOTC_FS_INVALID_RESOURCE_HANDLE = - 1"
definition IOTC_FS_OPEN_READ :: nat where "IOTC_FS_OPEN_READ = 2 ^ 0"
definition IOTC_FS_OPEN_WRITE :: nat where "IOTC_FS_OPEN_WRITE = 2 ^ 1"
definition IOTC_FS_OPEN_APPEND :: nat where "IOTC_FS_OPEN_APPEND = 2 ^ 2"

text \<open>
  The functions on a file system with the state \<open>'f\<close>. What is written through a pointer is a result: the size, the handle, and for a read
  the address of the chunk with its bytes.
\<close>

record 'f fs_functions =
  stat_resource :: "fs_resource_type \<Rightarrow> string \<Rightarrow> 'f \<Rightarrow> iotc_state \<times> nat option \<times> 'f"
  open_resource :: "fs_resource_type \<Rightarrow> string \<Rightarrow> nat \<Rightarrow> 'f \<Rightarrow> iotc_state \<times> int option \<times> 'f"
  read_resource :: "int \<Rightarrow> nat \<Rightarrow> 'f \<Rightarrow> iotc_state \<times> (ptr \<times> byte list) option \<times> 'f"
  close_resource :: "int \<Rightarrow> 'f \<Rightarrow> iotc_state \<times> 'f"

section \<open>Files in memory\<close>

text \<open>
  The only file is the list of root certificates, so the two handler functions of an entry are the ones for it. An access
  outside the database sets \<open>fm_bad\<close>; the entry it reads is taken to be closed.
\<close>

record fs_memory_entry =
  fe_file_name :: string
  fe_memory_ptr :: ptr
  fe_open_counter :: nat
  fe_open :: bool

record fs_memory =
  fm_database :: "fs_memory_entry list"
  fm_RootCA_list :: "byte list"
  fm_RootCA_ptr :: ptr
  fm_bad :: bool

definition IOTC_GLOBAL_CERTIFICATE_FILE_NAME :: string where "IOTC_GLOBAL_CERTIFICATE_FILE_NAME = ''roots.pem''"

definition IOTC_FS_MEMORY_DATABASE :: "fs_memory_entry list" where
  "IOTC_FS_MEMORY_DATABASE = [\<lparr>fe_file_name = IOTC_GLOBAL_CERTIFICATE_FILE_NAME, fe_memory_ptr = NULL, fe_open_counter = 0, fe_open = False\<rparr>]"

definition fs_entry :: "int \<Rightarrow> fs_memory \<Rightarrow> fs_memory_entry" where
  "fs_entry h f = (if 0 \<le> h \<and> h < int (length (fm_database f)) then fm_database f ! nat h
     else \<lparr>fe_file_name = [], fe_memory_ptr = NULL, fe_open_counter = 0, fe_open = False\<rparr>)"

definition fs_access :: "int \<Rightarrow> fs_memory \<Rightarrow> fs_memory" where
  "fs_access h f = (if 0 \<le> h \<and> h < int (length (fm_database f)) then f else f\<lparr>fm_bad := True\<rparr>)"

definition iotc_fs_buffer_size :: "fs_memory \<Rightarrow> nat" where
  "iotc_fs_buffer_size f = length (fm_RootCA_list f)"

definition iotc_fs_memory_stat_builtin_cert :: "fs_memory \<Rightarrow> iotc_state \<times> nat" where
  "iotc_fs_memory_stat_builtin_cert f = (IOTC_STATE_OK, length (fm_RootCA_list f))"

definition iotc_fs_memory_open_builtin_cert :: "int \<Rightarrow> fs_memory \<Rightarrow> iotc_state \<times> fs_memory" where
  "iotc_fs_memory_open_builtin_cert h f =
     (IOTC_STATE_OK, f\<lparr>fm_database := (fm_database f)[nat h := (fs_entry h f)\<lparr>fe_memory_ptr := fm_RootCA_ptr f\<rparr>]\<rparr>)"

fun find_entry_loop :: "string \<Rightarrow> fs_memory_entry list \<Rightarrow> int \<Rightarrow> iotc_state \<times> int" where
  "find_entry_loop resource_name [] i = (IOTC_FS_RESOURCE_NOT_AVAILABLE, IOTC_FS_INVALID_RESOURCE_HANDLE)"
| "find_entry_loop resource_name (e # es) i =
     (if resource_name = fe_file_name e then (IOTC_STATE_OK, i) else find_entry_loop resource_name es (i + 1))"

definition iotc_fs_memory_find_entry :: "string \<Rightarrow> fs_memory \<Rightarrow> iotc_state \<times> int" where
  "iotc_fs_memory_find_entry resource_name f = find_entry_loop resource_name (fm_database f) 0"

definition iotc_fs_stat :: "fs_resource_type \<Rightarrow> string option \<Rightarrow> bool \<Rightarrow> fs_memory \<Rightarrow> iotc_state \<times> nat option \<times> fs_memory" where
  "iotc_fs_stat resource_type resource_name resource_stat_given f =
     (case resource_name of
        None \<Rightarrow> (IOTC_INVALID_PARAMETER, None, f)
      | Some name \<Rightarrow>
          if \<not> resource_stat_given then (IOTC_INVALID_PARAMETER, None, f)
          else
            (case iotc_fs_memory_find_entry name f of (ret, resource_id) \<Rightarrow>
               if ret = IOTC_STATE_OK
               then (case iotc_fs_memory_stat_builtin_cert f of (st, sz) \<Rightarrow> (st, Some sz, fs_access resource_id f))
               else (IOTC_FS_RESOURCE_NOT_AVAILABLE, None, f)))"

definition iotc_fs_open ::
    "fs_resource_type \<Rightarrow> string option \<Rightarrow> nat \<Rightarrow> bool \<Rightarrow> fs_memory \<Rightarrow> iotc_state \<times> int option \<times> fs_memory" where
  "iotc_fs_open resource_type resource_name open_flags resource_handle_given f =
     (case resource_name of
        None \<Rightarrow> (IOTC_INVALID_PARAMETER, None, f)
      | Some name \<Rightarrow>
          if \<not> resource_handle_given then (IOTC_INVALID_PARAMETER, None, f)
          else if and open_flags IOTC_FS_OPEN_WRITE = IOTC_FS_OPEN_WRITE \<or> and open_flags IOTC_FS_OPEN_APPEND = IOTC_FS_OPEN_APPEND
          then (IOTC_FS_ERROR, None, f)
          else
            (case iotc_fs_memory_find_entry name f of (res, h) \<Rightarrow>
               if res = IOTC_STATE_OK then
                 (let entry = fs_entry h f;
                      f1 = (fs_access h f)\<lparr>fm_database := (fm_database f)[nat h := entry\<lparr>fe_open := True,
                          fe_open_counter := to_size (int (fe_open_counter entry) + 1)\<rparr>]\<rparr>
                  in case iotc_fs_memory_open_builtin_cert h f1 of (st, f2) \<Rightarrow> (st, Some h, f2))
               else (res, Some h, f)))"

text \<open>The bounds of the handle, as the code has them.\<close>

definition bad_handle :: "int \<Rightarrow> fs_memory \<Rightarrow> bool" where
  "bad_handle h f \<longleftrightarrow> h = IOTC_FS_INVALID_RESOURCE_HANDLE \<or> h > int (length (fm_database f))"

definition iotc_fs_read ::
    "int \<Rightarrow> nat \<Rightarrow> ptr option \<Rightarrow> bool \<Rightarrow> fs_memory \<Rightarrow> iotc_state \<times> (ptr \<times> byte list) option \<times> fs_memory" where
  "iotc_fs_read resource_handle offset buffer buffer_size_given f =
     (if bad_handle resource_handle f then (IOTC_INVALID_PARAMETER, None, f)
      else
        (let f1 = fs_access resource_handle f; entry = fs_entry resource_handle f
         in if \<not> fe_open entry then (IOTC_FS_ERROR, None, f1)
            else if buffer = None \<or> \<not> buffer_size_given then (IOTC_INVALID_PARAMETER, None, f1)
            else if buffer \<noteq> Some NULL then (IOTC_INVALID_PARAMETER, None, f1)
            else
              (case iotc_fs_memory_stat_builtin_cert f1 of (res, resource_size) \<Rightarrow>
                 (let real_offset = min offset resource_size;
                      buffer_size = min (resource_size - real_offset) (iotc_fs_buffer_size f1)
                  in (res, Some (fe_memory_ptr entry + real_offset, take buffer_size (drop real_offset (fm_RootCA_list f1))), f1)))))"

definition iotc_fs_write :: "int \<Rightarrow> byte list \<Rightarrow> nat \<Rightarrow> fs_memory \<Rightarrow> iotc_state \<times> fs_memory" where
  "iotc_fs_write resource_handle buffer offset f = (IOTC_FS_ERROR, f)"

definition iotc_fs_close :: "int \<Rightarrow> fs_memory \<Rightarrow> iotc_state \<times> fs_memory" where
  "iotc_fs_close resource_handle f =
     (if bad_handle resource_handle f then (IOTC_INVALID_PARAMETER, f)
      else
        (let f1 = fs_access resource_handle f; entry = fs_entry resource_handle f
         in if \<not> fe_open entry then (IOTC_FS_ERROR, f1)
            else
              (let c = to_size (int (fe_open_counter entry) - 1);
                   e1 = entry\<lparr>fe_open_counter := c\<rparr>;
                   e2 = (if c = 0 then e1\<lparr>fe_memory_ptr := NULL, fe_open := False\<rparr> else e1)
               in (IOTC_STATE_OK, f1\<lparr>fm_database := (fm_database f1)[nat resource_handle := e2]\<rparr>))))"

definition iotc_fs_remove :: "fs_resource_type \<Rightarrow> string \<Rightarrow> fs_memory \<Rightarrow> iotc_state" where
  "iotc_fs_remove resource_type resource_name f =
     (if fst (iotc_fs_memory_find_entry resource_name f) = IOTC_STATE_OK then IOTC_FS_ERROR else IOTC_FS_RESOURCE_NOT_AVAILABLE)"

definition memory_fs :: "fs_memory fs_functions" where
  "memory_fs = \<lparr>stat_resource = (\<lambda>ty name. iotc_fs_stat ty (Some name) True),
     open_resource = (\<lambda>ty name flags. iotc_fs_open ty (Some name) flags True),
     read_resource = (\<lambda>h offset. iotc_fs_read h offset (Some NULL) True),
     close_resource = iotc_fs_close\<rparr>"

section \<open>The file system of a platform\<close>

datatype bsp_fs_state =
    IOTC_BSP_IO_FS_STATE_OK
  | IOTC_BSP_IO_FS_ERROR
  | IOTC_BSP_IO_FS_INVALID_PARAMETER
  | IOTC_BSP_IO_FS_RESOURCE_NOT_AVAILABLE
  | IOTC_BSP_IO_FS_OUT_OF_MEMORY
  | IOTC_BSP_IO_FS_NOT_IMPLEMENTED
  | IOTC_BSP_IO_FS_OPEN_ERROR
  | IOTC_BSP_IO_FS_OPEN_READ_ONLY
  | IOTC_BSP_IO_FS_REMOVE_ERROR
  | IOTC_BSP_IO_FS_WRITE_ERROR
  | IOTC_BSP_IO_FS_READ_ERROR
  | IOTC_BSP_IO_FS_CLOSE_ERROR

definition iotc_fs_bsp_io_fs_2_iotc_state :: "bsp_fs_state \<Rightarrow> iotc_state" where
  "iotc_fs_bsp_io_fs_2_iotc_state st =
     (case st of
        IOTC_BSP_IO_FS_STATE_OK \<Rightarrow> IOTC_STATE_OK
      | IOTC_BSP_IO_FS_ERROR \<Rightarrow> IOTC_FS_ERROR
      | IOTC_BSP_IO_FS_INVALID_PARAMETER \<Rightarrow> IOTC_INVALID_PARAMETER
      | IOTC_BSP_IO_FS_RESOURCE_NOT_AVAILABLE \<Rightarrow> IOTC_FS_RESOURCE_NOT_AVAILABLE
      | IOTC_BSP_IO_FS_OUT_OF_MEMORY \<Rightarrow> IOTC_OUT_OF_MEMORY
      | _ \<Rightarrow> IOTC_INTERNAL_ERROR)"

text \<open>The functions of a platform, and the file system that \<^verbatim>\<open>posix/iotc_fs_posix.c\<close> makes of them.\<close>

record 'f bsp_fs =
  iotc_bsp_io_fs_stat :: "string \<Rightarrow> 'f \<Rightarrow> bsp_fs_state \<times> nat \<times> 'f"
  iotc_bsp_io_fs_open :: "string \<Rightarrow> nat \<Rightarrow> 'f \<Rightarrow> bsp_fs_state \<times> int option \<times> 'f"
  iotc_bsp_io_fs_read :: "int \<Rightarrow> nat \<Rightarrow> 'f \<Rightarrow> bsp_fs_state \<times> (ptr \<times> byte list) option \<times> 'f"
  iotc_bsp_io_fs_close :: "int \<Rightarrow> 'f \<Rightarrow> bsp_fs_state \<times> 'f"

definition posix_fs :: "'f bsp_fs \<Rightarrow> 'f fs_functions" where
  "posix_fs b = \<lparr>
     stat_resource = (\<lambda>ty name f. case iotc_bsp_io_fs_stat b name f of (st, sz, f') \<Rightarrow>
       (let result = iotc_fs_bsp_io_fs_2_iotc_state st
        in (result, if result = IOTC_STATE_OK then Some sz else None, f'))),
     open_resource = (\<lambda>ty name flags f. case iotc_bsp_io_fs_open b name flags f of (st, h, f') \<Rightarrow> (iotc_fs_bsp_io_fs_2_iotc_state st, h, f')),
     read_resource = (\<lambda>h offset f. case iotc_bsp_io_fs_read b h offset f of (st, c, f') \<Rightarrow> (iotc_fs_bsp_io_fs_2_iotc_state st, c, f')),
     close_resource = (\<lambda>h f. case iotc_bsp_io_fs_close b h f of (st, f') \<Rightarrow> (iotc_fs_bsp_io_fs_2_iotc_state st, f'))\<rparr>"

section \<open>What a client relies on\<close>

text \<open>
  \<open>content f h\<close> is the file that is open under the handle \<open>h\<close>. A read gives a chunk of it at the offset, not an empty one before the end; the
  size that was reported is the size of the file that is opened next.
\<close>

locale readable_files =
  fixes fs :: "'f fs_functions" and content :: "'f \<Rightarrow> int \<Rightarrow> byte list option"
  assumes stat_then_open: "stat_resource fs ty name f = (IOTC_STATE_OK, sz, f1)
      \<Longrightarrow> open_resource fs ty name IOTC_FS_OPEN_READ f1 = (IOTC_STATE_OK, r, f2)
      \<Longrightarrow> \<exists>n k bs. sz = Some n \<and> r = Some k \<and> 0 \<le> k \<and> content f2 k = Some bs \<and> length bs = n"
    and read_chunk: "content f h = Some bs \<Longrightarrow> offset \<le> length bs
      \<Longrightarrow> \<exists>p k f'. read_resource fs h offset f = (IOTC_STATE_OK, Some (p, take k (drop offset bs)), f')
            \<and> (offset < length bs \<longrightarrow> 0 < k) \<and> content f' = content f"
    and close_ok: "content f h = Some bs \<Longrightarrow> \<exists>f'. close_resource fs h f = (IOTC_STATE_OK, f')"

section \<open>The files in memory are readable\<close>

text \<open>A file is open as long as it was opened more often than closed.\<close>

definition entry_ok :: "ptr \<Rightarrow> fs_memory_entry \<Rightarrow> bool" where
  "entry_ok ca e \<longleftrightarrow> (fe_open e \<longleftrightarrow> 0 < fe_open_counter e) \<and> fe_open_counter e < 2 ^ 64
     \<and> fe_memory_ptr e = (if fe_open e then ca else NULL)"

definition fs_memory_inv :: "fs_memory \<Rightarrow> bool" where
  "fs_memory_inv f \<longleftrightarrow> \<not> fm_bad f \<and> fm_RootCA_ptr f \<noteq> NULL
     \<and> (\<forall>e\<in>set (fm_database f). entry_ok (fm_RootCA_ptr f) e)"

definition memory_content :: "fs_memory \<Rightarrow> int \<Rightarrow> byte list option" where
  "memory_content f h = (if 0 \<le> h \<and> h < int (length (fm_database f)) \<and> fe_open (fs_entry h f) then Some (fm_RootCA_list f) else None)"

lemma find_entry_loop_spec:
  "find_entry_loop name es i = (st, h) \<Longrightarrow>
    (st = IOTC_STATE_OK \<and> i \<le> h \<and> h < i + int (length es) \<and> fe_file_name (es ! nat (h - i)) = name)
    \<or> (st = IOTC_FS_RESOURCE_NOT_AVAILABLE \<and> (\<forall>e\<in>set es. fe_file_name e \<noteq> name))"
proof (induction name es i rule: find_entry_loop.induct)
  case (2 name e es i)
  show ?case
  proof (cases "name = fe_file_name e")
    case False
    with 2 have "(st = IOTC_STATE_OK \<and> i + 1 \<le> h \<and> h < i + 1 + int (length es) \<and> fe_file_name (es ! nat (h - (i + 1))) = name)
      \<or> (st = IOTC_FS_RESOURCE_NOT_AVAILABLE \<and> (\<forall>e\<in>set es. fe_file_name e \<noteq> name))" by simp
    moreover have "nat (h - i) = Suc (nat (h - (i + 1)))" if "i + 1 \<le> h" using that by simp
    ultimately show ?thesis using False by auto
  qed (use 2 in auto)
qed simp

lemma find_entry_spec:
  assumes "iotc_fs_memory_find_entry name f = (st, h)"
  shows "(st = IOTC_STATE_OK \<and> 0 \<le> h \<and> h < int (length (fm_database f))) \<or> st = IOTC_FS_RESOURCE_NOT_AVAILABLE"
  using find_entry_loop_spec [of name "fm_database f" 0 st h] assms by (auto simp: iotc_fs_memory_find_entry_def)

lemma open_spec:
  assumes "iotc_fs_open ty (Some name) IOTC_FS_OPEN_READ True f = (IOTC_STATE_OK, r, f')"
  shows "\<exists>h. r = Some h \<and> 0 \<le> h \<and> h < int (length (fm_database f)) \<and> f' = f\<lparr>fm_database := (fm_database f)[nat h :=
     (fm_database f ! nat h)\<lparr>fe_open := True, fe_open_counter := to_size (int (fe_open_counter (fm_database f ! nat h)) + 1), fe_memory_ptr := fm_RootCA_ptr f\<rparr>]\<rparr>"
proof -
  obtain st h where e: "iotc_fs_memory_find_entry name f = (st, h)" by fastforce
  from find_entry_spec [OF e] assms e show ?thesis
    by (auto simp: iotc_fs_open_def iotc_fs_memory_open_builtin_cert_def Let_def fs_entry_def fs_access_def
        IOTC_FS_OPEN_READ_def IOTC_FS_OPEN_WRITE_def IOTC_FS_OPEN_APPEND_def split: if_splits)
qed

interpretation memory_files: readable_files memory_fs memory_content
proof (unfold_locales, goal_cases)
  case (1 ty name f sz f1 r f2)
  obtain st k where e: "iotc_fs_memory_find_entry name f = (st, k)" by fastforce
  from 1(1) find_entry_spec [OF e] have f1: "f1 = f" and sz: "sz = Some (length (fm_RootCA_list f))"
    by (auto simp: memory_fs_def iotc_fs_stat_def iotc_fs_memory_stat_builtin_cert_def fs_access_def e split: if_splits)
  from 1(2) open_spec [of ty name f r f2] obtain h where h: "r = Some h" "0 \<le> h" "h < int (length (fm_database f))"
    and f2: "f2 = f\<lparr>fm_database := (fm_database f)[nat h := (fm_database f ! nat h)\<lparr>fe_open := True,
       fe_open_counter := to_size (int (fe_open_counter (fm_database f ! nat h)) + 1), fe_memory_ptr := fm_RootCA_ptr f\<rparr>]\<rparr>"
    unfolding f1 by (auto simp: memory_fs_def)
  from h have "memory_content f2 h = Some (fm_RootCA_list f)" by (simp add: memory_content_def fs_entry_def f2)
  with h sz show ?case by simp
next
  case (2 f h bs offset)
  then show ?case
    by (intro exI [of _ "fe_memory_ptr (fs_entry h f) + offset"] exI [of _ "length bs - offset"] exI [of _ f])
      (auto simp: memory_fs_def iotc_fs_read_def memory_content_def bad_handle_def IOTC_FS_INVALID_RESOURCE_HANDLE_def Let_def
        iotc_fs_memory_stat_builtin_cert_def fs_access_def iotc_fs_buffer_size_def split: if_splits)
next
  case (3 f h bs)
  then show ?case
    by (auto simp: memory_fs_def iotc_fs_close_def memory_content_def bad_handle_def IOTC_FS_INVALID_RESOURCE_HANDLE_def Let_def split: if_splits)
qed

section \<open>Counting\<close>

lemma entry_in: "0 \<le> h \<Longrightarrow> h < int (length (fm_database f)) \<Longrightarrow> fs_entry h f \<in> set (fm_database f)"
  by (simp add: fs_entry_def)

lemma inv_update:
  assumes "fs_memory_inv f" and "entry_ok (fm_RootCA_ptr f) e"
  shows "fs_memory_inv (f\<lparr>fm_database := (fm_database f)[k := e]\<rparr>)"
proof -
  have "x = e \<or> x \<in> set (fm_database f)" if "x \<in> set ((fm_database f)[k := e])" for x
    using that set_update_subset_insert [of "fm_database f" k e] by blast
  with assms show ?thesis by (auto simp: fs_memory_inv_def)
qed

text \<open>
  A file in memory stays open until it was closed as often as it was opened: closing counts down by one, the last one makes the file
  unreadable, closing a file that is not open is an error that changes nothing, and counter, state and address agree afterwards.
\<close>

theorem fs_memory_counts:
  assumes "fs_memory_inv f" and "0 \<le> h" and "h < int (length (fm_database f))" and "iotc_fs_close h f = (st, f')"
  shows "fs_memory_inv f' \<and> (if fe_open (fs_entry h f)
     then st = IOTC_STATE_OK \<and> fe_open_counter (fs_entry h f') + 1 = fe_open_counter (fs_entry h f)
       \<and> (memory_content f' h = None \<longleftrightarrow> fe_open_counter (fs_entry h f) = 1)
     else st = IOTC_FS_ERROR \<and> f' = f)"
proof -
  let ?e = "fs_entry h f"
  from assms(1) entry_in [OF assms(2,3)] have e: "fe_open ?e \<longleftrightarrow> 0 < fe_open_counter ?e" "fe_open_counter ?e < 2 ^ 64"
    "fe_memory_ptr ?e = (if fe_open ?e then fm_RootCA_ptr f else NULL)" by (auto simp: fs_memory_inv_def entry_ok_def)
  show ?thesis
  proof (cases "fe_open ?e")
    case True
    then have c: "to_size (int (fe_open_counter ?e) - 1) = fe_open_counter ?e - 1" using e(1,2) by simp
    define e' where "e' = (if fe_open_counter ?e - 1 = 0 then ?e\<lparr>fe_open_counter := fe_open_counter ?e - 1, fe_memory_ptr := NULL, fe_open := False\<rparr>
        else ?e\<lparr>fe_open_counter := fe_open_counter ?e - 1\<rparr>)"
    have "iotc_fs_close h f = (IOTC_STATE_OK, f\<lparr>fm_database := (fm_database f)[nat h := e']\<rparr>)"
      using assms(2,3) True by (simp add: iotc_fs_close_def bad_handle_def IOTC_FS_INVALID_RESOURCE_HANDLE_def Let_def fs_access_def e'_def c)
    then have f': "st = IOTC_STATE_OK" "f' = f\<lparr>fm_database := (fm_database f)[nat h := e']\<rparr>" using assms(4) by simp_all
    have e': "fs_entry h f' = e'" using assms(2,3) by (simp add: fs_entry_def f')
    have "fs_memory_inv f'" unfolding f' using assms(1) by (rule inv_update) (use e True in \<open>auto simp: e'_def entry_ok_def\<close>)
    moreover have "fe_open_counter e' + 1 = fe_open_counter ?e" using e True by (simp add: e'_def)
    moreover have "fe_open e' \<longleftrightarrow> fe_open_counter ?e \<noteq> 1" using e True by (auto simp: e'_def)
    ultimately show ?thesis using True f' e' assms(2,3) by (simp add: memory_content_def)
  next
    case False
    then show ?thesis using assms
      by (auto simp: iotc_fs_close_def bad_handle_def IOTC_FS_INVALID_RESOURCE_HANDLE_def Let_def fs_access_def)
  qed
qed

theorem fs_memory_counts_witness:
  "\<exists>f'. iotc_fs_close 0 \<lparr>fm_database = [\<lparr>fe_file_name = ''a'', fe_memory_ptr = 9, fe_open_counter = 2, fe_open = True\<rparr>], fm_RootCA_list = [1],
     fm_RootCA_ptr = 9, fm_bad = False\<rparr> = (IOTC_STATE_OK, f') \<and> fs_memory_inv f' \<and> memory_content f' 0 \<noteq> None"
proof -
  let ?f = "\<lparr>fm_database = [\<lparr>fe_file_name = ''a'', fe_memory_ptr = 9, fe_open_counter = 2, fe_open = True\<rparr>], fm_RootCA_list = [1 :: byte],
     fm_RootCA_ptr = 9, fm_bad = False\<rparr>"
  obtain st f' where c: "iotc_fs_close 0 ?f = (st, f')" by fastforce
  have "fs_memory_inv ?f" by (simp add: fs_memory_inv_def entry_ok_def)
  from fs_memory_counts [OF this _ _ c] c show ?thesis by (simp add: fs_entry_def)
qed

text \<open>
  The check of the bounds lets the number of the files through: reading and closing with that handle use the entry behind the table.
\<close>

theorem fs_memory_handle_off_by_one:
  "fm_bad (snd (snd (iotc_fs_read (int (length (fm_database f))) offset buffer given f)))
   \<and> fm_bad (snd (iotc_fs_close (int (length (fm_database f))) f))"
  by (simp add: iotc_fs_read_def iotc_fs_close_def bad_handle_def IOTC_FS_INVALID_RESOURCE_HANDLE_def Let_def fs_access_def fs_entry_def)

end
