(* ===== verification/Iotc_Resource_Manager.thy ===== *)
theory Iotc_Resource_Manager
  imports Iotc_Io_Net Iotc_Fs
begin

text \<open>
  The resource manager, \<^verbatim>\<open>src/libiotc/io/fs/iotc_resource_manager.c\<close>: it opens, reads and closes a file through the table of functions of a
  file system, in coroutines that wait by registering the handle of the file with the dispatcher, and then calls back.
  A function behind a pointer is run by \<open>call\<close>.
\<close>

section \<open>State\<close>

record rm_context =
  rc_data_buffer :: ptr
  rc_callback :: event_handle
  rc_resource_size :: nat
  rc_resource_handle :: int
  rc_open_flags :: nat
  rc_memory_type :: memory_type
  rc_data_offset :: nat
  rc_cs :: nat

text \<open>The contexts by address, the counter of the handles that stand for no file, the table and the state of the file system, and the
  strings behind the names that are passed as arguments of a call.\<close>

record 'f rm = io_net +
  rm_at :: "ptr \<Rightarrow> rm_context"
  rm_counter :: int
  rm_functions :: "'f fs_functions"
  rm_files :: 'f
  rm_names :: "ptr \<Rightarrow> string"

type_synonym ('f, 'z) rm_caller = "ptr \<Rightarrow> nat list \<Rightarrow> ('f, 'z) rm_scheme \<Rightarrow> iotc_state \<times> ('f, 'z) rm_scheme"

definition zeroed_rm_context :: rm_context where
  "zeroed_rm_context = \<lparr>rc_data_buffer = NULL, rc_callback = zeroed_handle, rc_resource_size = 0, rc_resource_handle = 0,
     rc_open_flags = 0, rc_memory_type = IOTC_MEMORY_TYPE_UNKNOWN, rc_data_offset = 0, rc_cs = 0\<rparr>"

definition sizeof_rm_context :: nat where "sizeof_rm_context = 128"

definition fn_rm_open_coroutine :: ptr where "fn_rm_open_coroutine = 16"
definition fn_rm_read_coroutine :: ptr where "fn_rm_read_coroutine = 17"
definition fn_rm_close_coroutine :: ptr where "fn_rm_close_coroutine = 18"

definition on_rm :: "ptr \<Rightarrow> (rm_context \<Rightarrow> rm_context) \<Rightarrow> ('f, 'z) rm_scheme \<Rightarrow> ('f, 'z) rm_scheme" where
  "on_rm ctx f s = s\<lparr>rm_at := (rm_at s)(ctx := f (rm_at s ctx))\<rparr>"

section \<open>The state that a callback gets\<close>

definition iotc_resource_manager_get_callback_state :: "event_handle \<Rightarrow> iotc_state" where
  "iotc_resource_manager_get_callback_state h =
     (if handle_type h = IOTC_EVENT_HANDLE_ARGC3 \<or> handle_type h = IOTC_EVENT_HANDLE_ARGC4
      then arg_state (h_args h ! 2) else IOTC_INVALID_PARAMETER)"

definition iotc_resource_manager_set_callback_state :: "event_handle \<Rightarrow> iotc_state \<Rightarrow> iotc_state \<times> event_handle" where
  "iotc_resource_manager_set_callback_state h state =
     (let callback_state = iotc_resource_manager_get_callback_state h;
          ret_state = (if callback_state = IOTC_STATE_OK then state else callback_state)
      in if handle_type h = IOTC_EVENT_HANDLE_ARGC3 \<or> handle_type h = IOTC_EVENT_HANDLE_ARGC4
         then (IOTC_STATE_OK, h\<lparr>h_args := (h_args h)[2 := state_arg ret_state]\<rparr>)
         else (IOTC_INVALID_PARAMETER, h))"

text \<open>The macro that queues the callback; an error goes on with the state in the left part.\<close>

definition rm_invoke_callback ::
    "ptr \<Rightarrow> iotc_state \<Rightarrow> ('f, 'z) rm_scheme \<Rightarrow> (iotc_state \<times> ('f, 'z) rm_scheme) + ('f, 'z) rm_scheme" where
  "rm_invoke_callback ctx ret_state s =
     (case iotc_resource_manager_set_callback_state (rc_callback (rm_at s ctx)) ret_state of (st, h) \<Rightarrow>
        (let s1 = on_rm ctx (\<lambda>c. c\<lparr>rc_callback := h\<rparr>) s
         in if st \<noteq> IOTC_STATE_OK then Inl (ret_state, s1)
            else
              (case iotc_evttd_execute h s1 of (e, s2) \<Rightarrow>
                 if e = NULL then Inl (IOTC_OUT_OF_MEMORY, s2)
                 else Inr (on_rm ctx (\<lambda>c. c\<lparr>rc_callback := iotc_dispose_handle (rc_callback c)\<rparr>) s2))))"

text \<open>The part behind \<^verbatim>\<open>err_handling\<close>: the callback is called at once.\<close>

definition rm_failed :: "('f, 'z) rm_caller \<Rightarrow> ptr \<Rightarrow> iotc_state \<times> ('f, 'z) rm_scheme \<Rightarrow> iotc_state \<times> ('f, 'z) rm_scheme" where
  "rm_failed call ctx r =
     (case r of (ret_state, s) \<Rightarrow>
        (let event_handle = rc_callback (rm_at s ctx);
             s1 = on_rm ctx (\<lambda>c. c\<lparr>rc_callback := iotc_dispose_handle (rc_callback c)\<rparr>) s;
             h = snd (iotc_resource_manager_set_callback_state event_handle ret_state)
         in (ret_state, snd (iotc_evtd_execute_handle call h s1))))"

definition rm_finish :: "('f, 'z) rm_caller \<Rightarrow> ptr \<Rightarrow> iotc_state \<Rightarrow> ('f, 'z) rm_scheme \<Rightarrow> iotc_state \<times> ('f, 'z) rm_scheme" where
  "rm_finish call ctx ret_state s =
     (case rm_invoke_callback ctx ret_state s of
        Inl r \<Rightarrow> rm_failed call ctx r
      | Inr s1 \<Rightarrow> (ret_state, on_rm ctx (\<lambda>c. c\<lparr>rc_cs := 1\<rparr>) s1))"

section \<open>The context\<close>

definition iotc_resource_manager_get_invalid_unique_fd :: "('f, 'z) rm_scheme \<Rightarrow> int \<times> ('f, 'z) rm_scheme" where
  "iotc_resource_manager_get_invalid_unique_fd s =
     (let c = to_int64 (rm_counter s - 1) in (rm_counter s, s\<lparr>rm_counter := (if c \<ge> 0 then - 1 else c)\<rparr>))"

definition iotc_resource_manager_make_context ::
    "ptr \<Rightarrow> ptr option \<Rightarrow> ('f, 'z) rm_scheme \<Rightarrow> iotc_state \<times> ptr option \<times> ('f, 'z) rm_scheme" where
  "iotc_resource_manager_make_context data_buffer context s =
     (if context \<noteq> Some NULL then (IOTC_INVALID_PARAMETER, context, s)
      else
        (case iotc_alloc sizeof_rm_context (ev_mem s) of (p, m) \<Rightarrow>
           if p = NULL then (IOTC_OUT_OF_MEMORY, Some NULL, s\<lparr>ev_mem := m\<rparr>)
           else
             (let s1 = (s\<lparr>ev_mem := m\<rparr>)
              in case iotc_resource_manager_get_invalid_unique_fd s1 of (fd, s2) \<Rightarrow>
                   (IOTC_STATE_OK, Some p, s2\<lparr>rm_at := (rm_at s2)(p := zeroed_rm_context
                      \<lparr>rc_data_buffer := data_buffer,
                       rc_memory_type := (if data_buffer = NULL then IOTC_MEMORY_TYPE_MANAGED else IOTC_MEMORY_TYPE_UNMANAGED),
                       rc_resource_handle := fd\<rparr>)\<rparr>))))"

definition iotc_resource_manager_free_context :: "ptr \<Rightarrow> ('f, 'z) rm_scheme \<Rightarrow> iotc_state \<times> ('f, 'z) rm_scheme" where
  "iotc_resource_manager_free_context context s =
     (if context = NULL then (IOTC_STATE_OK, s)
      else
        (let c = rm_at s context;
             s1 = (if rc_memory_type c = IOTC_MEMORY_TYPE_MANAGED \<and> rc_data_buffer c \<noteq> NULL
                   then free_data_desc (rc_data_buffer c) s else s)
         in (IOTC_STATE_OK, on_mem (IOTC_SAFE_FREE context) s1)))"

section \<open>The coroutines\<close>

text \<open>Waiting registers the handle of the file once; the line of a wait is what the coroutine goes on from.\<close>

definition rm_register :: "event_handle \<Rightarrow> ptr \<Rightarrow> ('f, 'z) rm_scheme \<Rightarrow> int \<times> ('f, 'z) rm_scheme" where
  "rm_register local_handle ctx s =
     iotc_evtd_register_file_fd IOTC_EVENT_WANT_READ (rc_resource_handle (rm_at s ctx)) local_handle s"

definition rm_unregister :: "ptr \<Rightarrow> ('f, 'z) rm_scheme \<Rightarrow> ('f, 'z) rm_scheme" where
  "rm_unregister ctx s = snd (iotc_evtd_unregister_file_fd (rc_resource_handle (rm_at s ctx)) s)"

definition set_rm_cs :: "ptr \<Rightarrow> nat \<Rightarrow> ('f, 'z) rm_scheme \<Rightarrow> ('f, 'z) rm_scheme" where
  "set_rm_cs ctx line s = on_rm ctx (\<lambda>c. c\<lparr>rc_cs := line\<rparr>) s"

definition rm_open_failed :: "('f, 'z) rm_caller \<Rightarrow> ptr \<Rightarrow> iotc_state \<Rightarrow> ('f, 'z) rm_scheme \<Rightarrow> iotc_state \<times> ('f, 'z) rm_scheme" where
  "rm_open_failed call ctx ret_state s = rm_failed call ctx (ret_state, set_rm_cs ctx 2 s)"

definition rm_open_loop ::
    "('f, 'z) rm_caller \<Rightarrow> ptr \<Rightarrow> fs_resource_type \<Rightarrow> string \<Rightarrow> ('f, 'z) rm_scheme \<Rightarrow> iotc_state \<times> ('f, 'z) rm_scheme" where
  "rm_open_loop call ctx resource_type resource_name s =
     (case open_resource (rm_functions s) resource_type resource_name (rc_open_flags (rm_at s ctx)) (rm_files s) of
        (ret_state, h, f) \<Rightarrow>
          (let s1 = s\<lparr>rm_files := f\<rparr>
           in if ret_state = IOTC_STATE_WANT_READ then (IOTC_STATE_WANT_READ, set_rm_cs ctx 203 s1)
              else
                (let s2 = rm_unregister ctx s1
                 in if ret_state \<noteq> IOTC_STATE_OK then rm_open_failed call ctx ret_state s2
                    else
                      (let s3 = on_rm ctx (\<lambda>c. c\<lparr>rc_resource_handle :=
                             (case h of Some h \<Rightarrow> h | None \<Rightarrow> IOTC_FS_INVALID_RESOURCE_HANDLE)\<rparr>) s2
                       in case rm_invoke_callback ctx ret_state s3 of
                            Inl (st, s4) \<Rightarrow> rm_open_failed call ctx st s4
                          | Inr s4 \<Rightarrow> (ret_state, set_rm_cs ctx 1 s4)))))"

definition rm_stat_loop ::
    "('f, 'z) rm_caller \<Rightarrow> event_handle \<Rightarrow> ptr \<Rightarrow> fs_resource_type \<Rightarrow> string \<Rightarrow> ('f, 'z) rm_scheme \<Rightarrow> iotc_state \<times> ('f, 'z) rm_scheme" where
  "rm_stat_loop call local_handle ctx resource_type resource_name s =
     (case stat_resource (rm_functions s) resource_type resource_name (rm_files s) of (ret_state, n, f) \<Rightarrow>
        (let s1 = on_rm ctx (\<lambda>c. case n of Some n \<Rightarrow> c\<lparr>rc_resource_size := n\<rparr> | None \<Rightarrow> c) (s\<lparr>rm_files := f\<rparr>)
         in if ret_state = IOTC_STATE_WANT_READ then (IOTC_STATE_WANT_READ, set_rm_cs ctx 196 s1)
            else
              (let s2 = rm_unregister ctx s1
               in if ret_state \<noteq> IOTC_STATE_OK then rm_open_failed call ctx ret_state s2
                  else
                    (case rm_register local_handle ctx s2 of (res, s3) \<Rightarrow>
                       if res = 0 then rm_open_failed call ctx IOTC_OUT_OF_MEMORY s3
                       else rm_open_loop call ctx resource_type resource_name s3))))"

primrec fs_type_code :: "fs_resource_type \<Rightarrow> nat" where
  "fs_type_code IOTC_FS_CERTIFICATE = 0"
| "fs_type_code IOTC_FS_CREDENTIALS = 1"
| "fs_type_code IOTC_FS_CONFIG_DATA = 2"

definition fs_type_of :: "nat \<Rightarrow> fs_resource_type" where
  "fs_type_of n = (if n = 0 then IOTC_FS_CERTIFICATE else if n = 1 then IOTC_FS_CREDENTIALS else IOTC_FS_CONFIG_DATA)"

definition iotc_resource_manager_open_coroutine ::
    "('f, 'z) rm_caller \<Rightarrow> ptr \<Rightarrow> nat \<Rightarrow> iotc_state \<Rightarrow> ptr \<Rightarrow> ('f, 'z) rm_scheme \<Rightarrow> iotc_state \<times> ('f, 'z) rm_scheme" where
  "iotc_resource_manager_open_coroutine call ctx res_type state res_name s =
     (if res_name = NULL then (IOTC_INVALID_PARAMETER, s)
      else
        (let local_handle = iotc_make_handle_argc4 IOTC_THREADID_MAINTHREAD fn_rm_open_coroutine ctx res_type (state_arg state) res_name;
             name = rm_names s res_name; cs = rc_cs (rm_at s ctx)
         in if cs = 196 then rm_stat_loop call local_handle ctx (fs_type_of res_type) name s
            else if cs = 203 then rm_open_loop call ctx (fs_type_of res_type) name s
            else
              (case rm_register local_handle ctx s of (res, s1) \<Rightarrow>
                 if res = 0 then rm_open_failed call ctx IOTC_OUT_OF_MEMORY s1
                 else rm_stat_loop call local_handle ctx (fs_type_of res_type) name s1)))"

text \<open>What is done with a chunk. The buffer is made by the first one; an error goes to the left with the state that is reported.\<close>

definition store_buffer :: "ptr \<Rightarrow> data_desc \<Rightarrow> mem \<Rightarrow> ('f, 'z) rm_scheme \<Rightarrow> ('f, 'z) rm_scheme" where
  "store_buffer ctx d m s = on_rm ctx (\<lambda>c. c\<lparr>rc_data_buffer := d_self d\<rparr>) (s\<lparr>ev_mem := m, cl_desc := (cl_desc s)(d_self d := d)\<rparr>)"

definition rm_take_chunk ::
    "ptr \<Rightarrow> iotc_state \<Rightarrow> (ptr \<times> byte list) option \<Rightarrow> ('f, 'z) rm_scheme
      \<Rightarrow> (iotc_state \<times> ('f, 'z) rm_scheme) + (iotc_state \<times> ('f, 'z) rm_scheme)" where
  "rm_take_chunk ctx ret_state chunk s =
     (let buffer = (case chunk of None \<Rightarrow> NULL | Some (p, bs) \<Rightarrow> p);
          bytes = map_option snd chunk;
          buffer_size = (case chunk of None \<Rightarrow> 0 | Some (p, bs) \<Rightarrow> length bs);
          offset = to_size (int (rc_data_offset (rm_at s ctx)) + int buffer_size);
          size = rc_resource_size (rm_at s ctx);
          s1 = on_rm ctx (\<lambda>c. c\<lparr>rc_data_offset := offset\<rparr>) s;
          state1 = (if ret_state = IOTC_STATE_OK \<and> offset \<noteq> size then IOTC_STATE_WANT_READ else ret_state);
          data_buffer = rc_data_buffer (rm_at s ctx);
          finish = (\<lambda>s. Inr (if offset < size then IOTC_STATE_WANT_READ else state1, s))
      in if data_buffer = NULL then
           (if state1 = IOTC_STATE_OK then
              (case iotc_make_desc_from_buffer_share buffer (case bytes of None \<Rightarrow> [] | Some bs \<Rightarrow> bs) (ev_mem s1) of
                 (None, m) \<Rightarrow> Inl (IOTC_OUT_OF_MEMORY, s1\<lparr>ev_mem := m\<rparr>)
               | (Some d, m) \<Rightarrow> finish (store_buffer ctx d m s1))
            else if state1 = IOTC_STATE_WANT_READ then
              (case iotc_make_empty_desc_alloc size (ev_mem s1) of
                 (None, m) \<Rightarrow> Inl (IOTC_OUT_OF_MEMORY, s1\<lparr>ev_mem := m\<rparr>)
               | (Some d, m) \<Rightarrow>
                   (case iotc_data_desc_append_bytes (Some d) bytes of (st, d') \<Rightarrow>
                      (let s2 = store_buffer ctx (the d') m s1
                       in if st \<noteq> IOTC_STATE_OK then Inl (state1, s2) else finish s2)))
            else finish s1)
         else if state1 = IOTC_STATE_WANT_READ \<or> state1 = IOTC_STATE_OK then
           (case iotc_data_desc_append_data_resize (Some (cl_desc s1 data_buffer)) bytes (ev_mem s1) of (st, d, m) \<Rightarrow>
              (let s2 = s1\<lparr>ev_mem := m, cl_desc := (cl_desc s1)(data_buffer := the d)\<rparr>
               in if st \<noteq> IOTC_STATE_OK then Inl (state1, s2) else finish s2))
         else finish s1)"

definition rm_read_loop :: "('f, 'z) rm_caller \<Rightarrow> ptr \<Rightarrow> ('f, 'z) rm_scheme \<Rightarrow> iotc_state \<times> ('f, 'z) rm_scheme" where
  "rm_read_loop call ctx s =
     (case read_resource (rm_functions s) (rc_resource_handle (rm_at s ctx)) (rc_data_offset (rm_at s ctx)) (rm_files s) of
        (ret_state, chunk, f) \<Rightarrow>
          (case rm_take_chunk ctx ret_state chunk (s\<lparr>rm_files := f\<rparr>) of
             Inl r \<Rightarrow> rm_failed call ctx r
           | Inr (ret_state, s1) \<Rightarrow>
               if ret_state = IOTC_STATE_WANT_READ then (IOTC_STATE_WANT_READ, set_rm_cs ctx 290 s1)
               else
                 (let s2 = rm_unregister ctx s1
                  in if ret_state \<noteq> IOTC_STATE_OK then rm_failed call ctx (ret_state, s2) else rm_finish call ctx ret_state s2)))"

definition iotc_resource_manager_read_coroutine :: "('f, 'z) rm_caller \<Rightarrow> ptr \<Rightarrow> ('f, 'z) rm_scheme \<Rightarrow> iotc_state \<times> ('f, 'z) rm_scheme" where
  "iotc_resource_manager_read_coroutine call ctx s =
     (if rc_cs (rm_at s ctx) = 290 then rm_read_loop call ctx s
      else
        (let s1 = on_rm ctx (\<lambda>c. c\<lparr>rc_data_offset := 0\<rparr>) s
         in case rm_register (iotc_make_handle_argc1 IOTC_THREADID_MAINTHREAD fn_rm_read_coroutine ctx) ctx s1 of (res, s2) \<Rightarrow>
              if res = 0 then rm_failed call ctx (IOTC_OUT_OF_MEMORY, s2) else rm_read_loop call ctx s2))"

definition rm_close_loop :: "('f, 'z) rm_caller \<Rightarrow> ptr \<Rightarrow> ('f, 'z) rm_scheme \<Rightarrow> iotc_state \<times> ('f, 'z) rm_scheme" where
  "rm_close_loop call ctx s =
     (case close_resource (rm_functions s) (rc_resource_handle (rm_at s ctx)) (rm_files s) of (ret_state, f) \<Rightarrow>
        (let s1 = s\<lparr>rm_files := f\<rparr>
         in if ret_state = IOTC_STATE_WANT_READ then (IOTC_STATE_WANT_READ, set_rm_cs ctx 329 s1)
            else
              (let s2 = rm_unregister ctx s1
               in if ret_state \<noteq> IOTC_STATE_OK then rm_failed call ctx (ret_state, s2)
                  else rm_finish call ctx ret_state (on_rm ctx (\<lambda>c. c\<lparr>rc_resource_handle := IOTC_FS_INVALID_RESOURCE_HANDLE\<rparr>) s2))))"

definition iotc_resource_manager_close_coroutine :: "('f, 'z) rm_caller \<Rightarrow> ptr \<Rightarrow> ('f, 'z) rm_scheme \<Rightarrow> iotc_state \<times> ('f, 'z) rm_scheme" where
  "iotc_resource_manager_close_coroutine call ctx s =
     (if rc_cs (rm_at s ctx) = 329 then rm_close_loop call ctx s
      else
        (case rm_register (iotc_make_handle_argc1 IOTC_THREADID_MAINTHREAD fn_rm_close_coroutine ctx) ctx s of (res, s1) \<Rightarrow>
           if res = 0 then rm_failed call ctx (IOTC_OUT_OF_MEMORY, s1) else rm_close_loop call ctx s1))"

section \<open>The operations\<close>

definition rm_start :: "event_handle \<Rightarrow> ('f, 'z) rm_scheme \<Rightarrow> iotc_state \<times> ('f, 'z) rm_scheme" where
  "rm_start h s = (case iotc_evttd_execute h s of (e, s1) \<Rightarrow> (if e = NULL then IOTC_OUT_OF_MEMORY else IOTC_STATE_OK, s1))"

definition iotc_resource_manager_open ::
    "ptr \<Rightarrow> event_handle \<Rightarrow> fs_resource_type \<Rightarrow> ptr \<Rightarrow> nat \<Rightarrow> ('f, 'z) rm_scheme \<Rightarrow> iotc_state \<times> ('f, 'z) rm_scheme" where
  "iotc_resource_manager_open context callback resource_type resource_name open_flags s =
     (if resource_name = NULL \<or> context = NULL then (IOTC_INVALID_PARAMETER, s)
      else if \<not> iotc_handle_disposed (rc_callback (rm_at s context)) \<or> rc_resource_handle (rm_at s context) \<ge> 0
      then (IOTC_INVALID_PARAMETER, s)
      else rm_start (iotc_make_handle_argc4 IOTC_THREADID_MAINTHREAD fn_rm_open_coroutine context (fs_type_code resource_type)
               (state_arg IOTC_STATE_OK) resource_name)
             (on_rm context (\<lambda>c. c\<lparr>rc_open_flags := open_flags, rc_callback := callback\<rparr>) s))"

definition iotc_resource_manager_read :: "ptr \<Rightarrow> event_handle \<Rightarrow> ('f, 'z) rm_scheme \<Rightarrow> iotc_state \<times> ('f, 'z) rm_scheme" where
  "iotc_resource_manager_read context callback s =
     (if context = NULL then (IOTC_INVALID_PARAMETER, s)
      else if \<not> iotc_handle_disposed (rc_callback (rm_at s context)) \<or> rc_resource_handle (rm_at s context) < 0
      then (IOTC_INVALID_PARAMETER, s)
      else rm_start (iotc_make_handle_argc1 IOTC_THREADID_MAINTHREAD fn_rm_read_coroutine context)
             (on_rm context (\<lambda>c. c\<lparr>rc_callback := callback\<rparr>) s))"

definition iotc_resource_manager_close :: "ptr \<Rightarrow> event_handle \<Rightarrow> ('f, 'z) rm_scheme \<Rightarrow> iotc_state \<times> ('f, 'z) rm_scheme" where
  "iotc_resource_manager_close context callback s =
     (if context = NULL then (IOTC_INVALID_PARAMETER, s)
      else if \<not> iotc_handle_disposed (rc_callback (rm_at s context)) \<or> rc_resource_handle (rm_at s context) < 0
      then (IOTC_INVALID_PARAMETER, s)
      else rm_start (iotc_make_handle_argc1 IOTC_THREADID_MAINTHREAD fn_rm_close_coroutine context)
             (on_rm context (\<lambda>c. c\<lparr>rc_callback := callback\<rparr>) s))"

end
