(* ===== verification/Iotc_Tls.thy ===== *)
theory Iotc_Tls
  imports Iotc_Resource_Manager
begin

text \<open>
  The TLS layer, \<^verbatim>\<open>src/libiotc/tls/iotc_tls_layer.c\<close>. It stands between the sockets and the codec: what arrives is queued for a library
  that asks for it through a callback, and what the library wants to send is passed down through another one. The library is not
  part of the repository: a call of it is a tree of the callbacks that it makes, and it is a parameter of the model.
\<close>

section \<open>The library\<close>

datatype tls_state =
    IOTC_BSP_TLS_STATE_OK
  | IOTC_BSP_TLS_STATE_INIT_ERROR
  | IOTC_BSP_TLS_STATE_CERT_ERROR
  | IOTC_BSP_TLS_STATE_CONNECT_ERROR
  | IOTC_BSP_TLS_STATE_WANT_READ
  | IOTC_BSP_TLS_STATE_WANT_WRITE
  | IOTC_BSP_TLS_STATE_READ_ERROR
  | IOTC_BSP_TLS_STATE_WRITE_ERROR

text \<open>A call of the library ends, or asks for at most so many bytes, or asks to send the bytes at an address; then it goes on with the answer.\<close>

datatype 'r tls_run =
    Tls_return 'r
  | Tls_recv nat "tls_state \<times> byte list \<Rightarrow> 'r tls_run"
  | Tls_send ptr "byte list" "tls_state \<times> nat \<Rightarrow> 'r tls_run"

record 'l tls_lib =
  iotc_bsp_tls_init :: "cstr \<Rightarrow> byte list \<Rightarrow> 'l \<Rightarrow> tls_state \<times> ptr \<times> 'l"
  iotc_bsp_tls_cleanup :: "ptr \<Rightarrow> 'l \<Rightarrow> ptr \<times> 'l"
  iotc_bsp_tls_pending :: "ptr \<Rightarrow> 'l \<Rightarrow> int"
  iotc_bsp_tls_connect :: "ptr \<Rightarrow> 'l \<Rightarrow> (tls_state \<times> 'l) tls_run"
  iotc_bsp_tls_read :: "ptr \<Rightarrow> nat \<Rightarrow> 'l \<Rightarrow> (tls_state \<times> byte list \<times> 'l) tls_run"
  iotc_bsp_tls_write :: "ptr \<Rightarrow> byte list \<Rightarrow> 'l \<Rightarrow> (tls_state \<times> int \<times> 'l) tls_run"

section \<open>State\<close>

datatype tls_write_state = IOTC_TLS_LAYER_DATA_NONE | IOTC_TLS_LAYER_DATA_WRITING | IOTC_TLS_LAYER_DATA_WRITTEN

datatype tls_handler = Connect_handler | Recv_handler | Send_handler

record tls_data =
  tl_context :: ptr
  tl_raw_buffer :: "ptr list"
  tl_decoded_buffer :: ptr
  tl_to_write_buffer :: ptr
  tl_recv_handler :: "tls_handler option"
  tl_send_handler :: "tls_handler option"
  tl_rm_context :: ptr
  tl_sending_cs :: nat
  tl_conn_cs :: nat
  tl_send_cs :: nat
  tl_recv_cs :: nat
  tl_write_state :: tls_write_state

record ('f, 'l) tls = "'f rm" +
  tl_data :: tls_data
  tl_lib :: "'l tls_lib"
  tl_lib_state :: 'l

definition zeroed_tls_data :: tls_data where
  "zeroed_tls_data = \<lparr>tl_context = NULL, tl_raw_buffer = [], tl_decoded_buffer = NULL, tl_to_write_buffer = NULL, tl_recv_handler = None,
     tl_send_handler = None, tl_rm_context = NULL, tl_sending_cs = 0, tl_conn_cs = 0, tl_send_cs = 0, tl_recv_cs = 0,
     tl_write_state = IOTC_TLS_LAYER_DATA_NONE\<rparr>"

definition sizeof_tls_data :: nat where "sizeof_tls_data = 80"

definition fn_tls_init :: ptr where "fn_tls_init = 20"
definition fn_tls_close_externally :: ptr where "fn_tls_close_externally = 21"
definition name_certificate :: ptr where "name_certificate = 22"

definition on_tls :: "(tls_data \<Rightarrow> tls_data) \<Rightarrow> ('f, 'l, 'z) tls_scheme \<Rightarrow> ('f, 'l, 'z) tls_scheme" where
  "on_tls f s = s\<lparr>tl_data := f (tl_data s)\<rparr>"

definition undefined_behaviour :: "'z evtd_scheme \<Rightarrow> 'z evtd_scheme" where
  "undefined_behaviour s = s\<lparr>ev_mem := (ev_mem s)\<lparr>m_bad := True\<rparr>\<rparr>"

section \<open>The callbacks\<close>

definition iotc_bsp_tls_recv_callback :: "nat \<Rightarrow> ('f, 'l, 'z) tls_scheme \<Rightarrow> (tls_state \<times> byte list) \<times> ('f, 'l, 'z) tls_scheme" where
  "iotc_bsp_tls_recv_callback sz s =
     (case tl_raw_buffer (tl_data s) of
        [] \<Rightarrow> ((IOTC_BSP_TLS_STATE_WANT_READ, []), s)
      | recvd # rest \<Rightarrow>
          (let d = cl_desc s recvd;
               available = unat (d_length d - d_curr_pos d);
               bytes_to_copy = min sz available;
               bs = take bytes_to_copy (drop (unat (d_curr_pos d)) (d_bytes d));
               d1 = d\<lparr>d_curr_pos := d_curr_pos d + of_nat bytes_to_copy\<rparr>;
               s1 = on_mem (memcpy_check (unat (d_curr_pos d) + bytes_to_copy) (length (d_bytes d))) (s\<lparr>cl_desc := (cl_desc s)(recvd := d1)\<rparr>);
               s2 = (if d_curr_pos d1 = d_length d1
                     then free_data_desc recvd (on_tls (\<lambda>l. l\<lparr>tl_raw_buffer := rest\<rparr>) s1) else s1)
           in ((IOTC_BSP_TLS_STATE_OK, bs), s2)))"

text \<open>Sending is a coroutine: the first call passes the bytes down, every other one asks whether they were written.\<close>

definition tls_sent :: "nat \<Rightarrow> ('f, 'l, 'z) tls_scheme \<Rightarrow> (tls_state \<times> nat) \<times> ('f, 'l, 'z) tls_scheme" where
  "tls_sent sz s =
     (if tl_write_state (tl_data s) \<noteq> IOTC_TLS_LAYER_DATA_WRITTEN
      then ((IOTC_BSP_TLS_STATE_WANT_WRITE, 0), on_tls (\<lambda>l. l\<lparr>tl_sending_cs := 118\<rparr>) s)
      else ((IOTC_BSP_TLS_STATE_OK, sz), on_tls (\<lambda>l. l\<lparr>tl_write_state := IOTC_TLS_LAYER_DATA_NONE, tl_sending_cs := 1\<rparr>) s))"

definition iotc_bsp_tls_send_callback ::
    "ptr \<Rightarrow> byte list \<Rightarrow> ptr \<Rightarrow> ('f, 'l, 'z) tls_scheme \<Rightarrow> (tls_state \<times> nat) \<times> ('f, 'l, 'z) tls_scheme" where
  "iotc_bsp_tls_send_callback buf bs context s =
     (if tl_sending_cs (tl_data s) = 118 then tls_sent (length bs) s
      else
        (let s1 = on_tls (\<lambda>l. l\<lparr>tl_write_state := IOTC_TLS_LAYER_DATA_WRITING\<rparr>) s
         in case iotc_make_desc_from_buffer_share buf bs (ev_mem s1) of
              (None, m) \<Rightarrow> ((IOTC_BSP_TLS_STATE_WRITE_ERROR, 0), s1\<lparr>ev_mem := m\<rparr>)
            | (Some d, m) \<Rightarrow>
                (let s2 = s1\<lparr>ev_mem := m, cl_desc := (cl_desc s1)(d_self d := d)\<rparr>
                 in tls_sent (length bs) (snd (IOTC_PROCESS_PUSH_ON_PREV_LAYER context (d_self d) IOTC_STATE_OK s2)))))"

primrec run_tls :: "ptr \<Rightarrow> 'r tls_run \<Rightarrow> ('f, 'l, 'z) tls_scheme \<Rightarrow> 'r \<times> ('f, 'l, 'z) tls_scheme" where
  "run_tls context (Tls_return r) = (\<lambda>s. (r, s))"
| "run_tls context (Tls_recv n k) = (\<lambda>s. case iotc_bsp_tls_recv_callback n s of (a, s1) \<Rightarrow> run_tls context (k a) s1)"
| "run_tls context (Tls_send p bs k) = (\<lambda>s. case iotc_bsp_tls_send_callback p bs context s of (a, s1) \<Rightarrow> run_tls context (k a) s1)"

section \<open>The handlers\<close>

definition tls_not_operational :: "ptr \<Rightarrow> ('f, 'l, 'z) tls_scheme \<Rightarrow> bool" where
  "tls_not_operational context s \<longleftrightarrow> IOTC_THIS_LAYER_NOT_OPERATIONAL context s \<or> user_data context s = NULL"

text \<open>Bytes that are left are read before anything else happens.\<close>

definition tls_pull_rest :: "ptr \<Rightarrow> ('f, 'l, 'z) tls_scheme \<Rightarrow> ('f, 'l, 'z) tls_scheme" where
  "tls_pull_rest context s =
     (if tl_raw_buffer (tl_data s) \<noteq> [] \<or> iotc_bsp_tls_pending (tl_lib s) (tl_context (tl_data s)) (tl_lib_state s) > 0
      then snd (IOTC_LAYER_CONTINUE_WITH This lf_pull context NULL IOTC_STATE_WANT_READ s) else s)"

definition connect_handler :: "ptr \<Rightarrow> ptr \<Rightarrow> iotc_state \<Rightarrow> ('f, 'l, 'z) tls_scheme \<Rightarrow> iotc_state \<times> ('f, 'l, 'z) tls_scheme" where
  "connect_handler context data in_out_state s =
     (if tls_not_operational context s then (IOTC_STATE_OK, s)
      else
        (case run_tls context (iotc_bsp_tls_connect (tl_lib s) (tl_context (tl_data s)) (tl_lib_state s)) s of ((bsp_tls_state, l), s1) \<Rightarrow>
           (let s2 = s1\<lparr>tl_lib_state := l\<rparr>
            in if bsp_tls_state = IOTC_BSP_TLS_STATE_WANT_READ \<or> bsp_tls_state = IOTC_BSP_TLS_STATE_WANT_WRITE then
                 (if bsp_tls_state = IOTC_BSP_TLS_STATE_WANT_READ then IOTC_STATE_WANT_READ else IOTC_STATE_WANT_WRITE,
                  on_tls (\<lambda>d. d\<lparr>tl_conn_cs := 166\<rparr>) s2)
               else if bsp_tls_state \<noteq> IOTC_BSP_TLS_STATE_OK then
                 IOTC_PROCESS_CLOSE_ON_THIS_LAYER context NULL
                   (if bsp_tls_state = IOTC_BSP_TLS_STATE_CERT_ERROR then IOTC_TLS_FAILED_CERT_ERROR else IOTC_TLS_CONNECT_ERROR)
                   (on_tls (\<lambda>d. d\<lparr>tl_conn_cs := 2\<rparr>) s2)
               else
                 (let s3 = tls_pull_rest context (on_tls (\<lambda>d. d\<lparr>tl_recv_handler := Some Recv_handler, tl_send_handler := Some Send_handler\<rparr>) s2)
                  in IOTC_PROCESS_CONNECT_ON_NEXT_LAYER context data IOTC_STATE_OK (on_tls (\<lambda>d. d\<lparr>tl_conn_cs := 1\<rparr>) s3)))))"

definition free_to_write :: "nat \<Rightarrow> ('f, 'l, 'z) tls_scheme \<Rightarrow> ('f, 'l, 'z) tls_scheme" where
  "free_to_write cs s = on_tls (\<lambda>d. d\<lparr>tl_to_write_buffer := NULL, tl_send_cs := cs\<rparr>) (free_data_desc (tl_to_write_buffer (tl_data s)) s)"

text \<open>The buffer is read before it is known that there is one.\<close>

definition send_handler :: "ptr \<Rightarrow> ('f, 'l, 'z) tls_scheme \<Rightarrow> iotc_state \<times> ('f, 'l, 'z) tls_scheme" where
  "send_handler context s =
     (if tls_not_operational context s then (IOTC_STATE_OK, s)
      else
        (let p = tl_to_write_buffer (tl_data s); d = cl_desc s p;
             s0 = (if p = NULL then undefined_behaviour s else s)
         in case run_tls context (iotc_bsp_tls_write (tl_lib s) (tl_context (tl_data s)) (take (unsent d) (drop (unat (d_curr_pos d)) (d_bytes d)))
                  (tl_lib_state s)) s0 of ((ret, bytes_written, l), s1) \<Rightarrow>
              (let s2 = s1\<lparr>tl_lib_state := l\<rparr>;
                   s3 = (if bytes_written > 0
                         then s2\<lparr>cl_desc := (cl_desc s2)(p := (cl_desc s2 p)\<lparr>d_curr_pos := d_curr_pos (cl_desc s2 p) + of_int bytes_written\<rparr>)\<rparr>
                         else s2)
               in if ret = IOTC_BSP_TLS_STATE_WANT_WRITE then (IOTC_STATE_WANT_WRITE, on_tls (\<lambda>d. d\<lparr>tl_send_cs := 241\<rparr>) s3)
                  else if ret \<noteq> IOTC_BSP_TLS_STATE_OK
                  then IOTC_PROCESS_PUSH_ON_NEXT_LAYER context NULL IOTC_STATE_FAILED_WRITING (free_to_write 2 s3)
                  else IOTC_PROCESS_PUSH_ON_NEXT_LAYER context NULL IOTC_STATE_WRITTEN (free_to_write 1 s3))))"

definition recv_failed :: "ptr \<Rightarrow> iotc_state \<Rightarrow> ('f, 'l, 'z) tls_scheme \<Rightarrow> iotc_state \<times> ('f, 'l, 'z) tls_scheme" where
  "recv_failed context in_out_state s =
     (let s1 = on_tls (\<lambda>d. d\<lparr>tl_recv_cs := 2\<rparr>) s;
          s2 = on_tls (\<lambda>d. d\<lparr>tl_decoded_buffer := NULL\<rparr>) (free_data_desc (tl_decoded_buffer (tl_data s1)) s1)
      in IOTC_PROCESS_CLOSE_ON_THIS_LAYER context NULL in_out_state s2)"

definition recv_into :: "ptr \<Rightarrow> ('f, 'l, 'z) tls_scheme \<Rightarrow> iotc_state \<times> ('f, 'l, 'z) tls_scheme" where
  "recv_into context s =
     (let p = tl_decoded_buffer (tl_data s); d = cl_desc s p
      in case run_tls context (iotc_bsp_tls_read (tl_lib s) (tl_context (tl_data s)) (unat (d_capacity d - d_length d)) (tl_lib_state s)) s of
           ((ret, bs, l), s1) \<Rightarrow>
             (let d1 = cl_desc s1 p;
                  s2 = on_mem (memcpy_check (unat (d_length d1) + length bs) (length (d_bytes d1)))
                    (s1\<lparr>tl_lib_state := l, cl_desc := (cl_desc s1)(p := desc_write d1 bs)\<rparr>)
              in if ret = IOTC_BSP_TLS_STATE_WANT_READ then (IOTC_STATE_WANT_READ, on_tls (\<lambda>d. d\<lparr>tl_recv_cs := 316\<rparr>) s2)
                 else if ret \<noteq> IOTC_BSP_TLS_STATE_OK then recv_failed context IOTC_TLS_READ_ERROR s2
                 else
                   (let s3 = tls_pull_rest context (on_tls (\<lambda>d. d\<lparr>tl_decoded_buffer := NULL\<rparr>) s2)
                    in IOTC_PROCESS_PULL_ON_NEXT_LAYER context p IOTC_STATE_OK (on_tls (\<lambda>d. d\<lparr>tl_recv_cs := 1\<rparr>) s3))))"

definition recv_handler :: "ptr \<Rightarrow> iotc_state \<Rightarrow> ('f, 'l, 'z) tls_scheme \<Rightarrow> iotc_state \<times> ('f, 'l, 'z) tls_scheme" where
  "recv_handler context in_out_state s =
     (if tls_not_operational context s then (IOTC_STATE_OK, s)
      else if tl_decoded_buffer (tl_data s) \<noteq> NULL then recv_into context s
      else
        (case iotc_make_empty_desc_alloc IOTC_IO_BUFFER_SIZE (ev_mem s) of
           (None, m) \<Rightarrow> recv_failed context IOTC_OUT_OF_MEMORY (s\<lparr>ev_mem := m\<rparr>)
         | (Some d, m) \<Rightarrow> recv_into context
             (on_tls (\<lambda>l. l\<lparr>tl_decoded_buffer := d_self d\<rparr>) (s\<lparr>ev_mem := m, cl_desc := (cl_desc s)(d_self d := d)\<rparr>))))"

definition call_tls_handler ::
    "tls_handler option \<Rightarrow> ptr \<Rightarrow> ptr \<Rightarrow> iotc_state \<Rightarrow> ('f, 'l, 'z) tls_scheme \<Rightarrow> iotc_state \<times> ('f, 'l, 'z) tls_scheme" where
  "call_tls_handler h context data in_out_state s =
     (case h of
        None \<Rightarrow> (IOTC_STATE_OK, undefined_behaviour s)
      | Some Connect_handler \<Rightarrow> connect_handler context data in_out_state s
      | Some Recv_handler \<Rightarrow> recv_handler context in_out_state s
      | Some Send_handler \<Rightarrow> send_handler context s)"

section \<open>The functions of the layer\<close>

definition iotc_tls_layer_push :: "ptr \<Rightarrow> ptr \<Rightarrow> iotc_state \<Rightarrow> ('f, 'l, 'z) tls_scheme \<Rightarrow> iotc_state \<times> ('f, 'l, 'z) tls_scheme" where
  "iotc_tls_layer_push context data in_out_state s =
     (if tls_not_operational context s then (IOTC_STATE_OK, free_data_desc data s)
      else if in_out_state = IOTC_STATE_WRITTEN then
        call_tls_handler (tl_send_handler (tl_data s)) context NULL IOTC_STATE_OK (on_tls (\<lambda>d. d\<lparr>tl_write_state := IOTC_TLS_LAYER_DATA_WRITTEN\<rparr>) s)
      else if in_out_state = IOTC_STATE_OK \<or> in_out_state = IOTC_STATE_WANT_WRITE then
        call_tls_handler (tl_send_handler (tl_data s)) context NULL IOTC_STATE_OK (on_tls (\<lambda>d. d\<lparr>tl_to_write_buffer := data\<rparr>) s)
      else IOTC_PROCESS_PUSH_ON_PREV_LAYER context data in_out_state s)"

definition iotc_tls_layer_pull :: "ptr \<Rightarrow> ptr \<Rightarrow> iotc_state \<Rightarrow> ('f, 'l, 'z) tls_scheme \<Rightarrow> iotc_state \<times> ('f, 'l, 'z) tls_scheme" where
  "iotc_tls_layer_pull context data in_out_state s =
     (if tls_not_operational context s then IOTC_PROCESS_CLOSE_ON_THIS_LAYER context NULL in_out_state (free_data_desc data s)
      else
        (let s1 = (if in_out_state = IOTC_STATE_OK \<and> data \<noteq> NULL
                   then on_tls (\<lambda>d. d\<lparr>tl_raw_buffer := tl_raw_buffer d @ [data]\<rparr>) s else s)
         in call_tls_handler (tl_recv_handler (tl_data s1)) context data in_out_state s1))"

text \<open>The certificates are opened, read and closed by the resource manager, which calls the function again with its answer. An error cleans the
  library up and goes on to the connect function of the layer.\<close>

definition tls_init_failed :: "ptr \<Rightarrow> ptr \<Rightarrow> iotc_state \<Rightarrow> ('f, 'l, 'z) tls_scheme \<Rightarrow> iotc_state \<times> ('f, 'l, 'z) tls_scheme" where
  "tls_init_failed context data in_out_state s =
     (let s1 = (if user_data context s = NULL then s
                else
                  (case iotc_bsp_tls_cleanup (tl_lib s) (tl_context (tl_data s)) (tl_lib_state s) of (c, l) \<Rightarrow>
                     on_tls (\<lambda>d. d\<lparr>tl_conn_cs := 2, tl_context := c\<rparr>) (s\<lparr>tl_lib_state := l\<rparr>)))
      in IOTC_PROCESS_CONNECT_ON_THIS_LAYER context data in_out_state s1)"

definition tls_init_handle :: "ptr \<Rightarrow> ptr \<Rightarrow> iotc_state \<Rightarrow> event_handle" where
  "tls_init_handle context data st = iotc_make_handle_argc3 IOTC_THREADID_MAINTHREAD fn_tls_init context data (state_arg st)"

definition tls_init_wait :: "nat \<Rightarrow> ('f, 'l, 'z) tls_scheme \<Rightarrow> iotc_state \<times> ('f, 'l, 'z) tls_scheme" where
  "tls_init_wait line s = (IOTC_STATE_OK, on_tls (\<lambda>d. d\<lparr>tl_conn_cs := line\<rparr>) s)"

definition tls_init_open :: "ptr \<Rightarrow> ptr \<Rightarrow> ('f, 'l, 'z) tls_scheme \<Rightarrow> iotc_state \<times> ('f, 'l, 'z) tls_scheme" where
  "tls_init_open context data s =
     (case iotc_resource_manager_make_context NULL (Some (tl_rm_context (tl_data s))) s of (st, c, s1) \<Rightarrow>
        (let s2 = on_tls (\<lambda>d. d\<lparr>tl_rm_context := the c\<rparr>) s1
         in if st \<noteq> IOTC_STATE_OK then tls_init_failed context data IOTC_TLS_FAILED_LOADING_CERTIFICATE s2
            else
              (case iotc_resource_manager_open (tl_rm_context (tl_data s2)) (tls_init_handle context data st) IOTC_FS_CERTIFICATE
                  name_certificate IOTC_FS_OPEN_READ s2 of (st1, s3) \<Rightarrow>
                 if st1 \<noteq> IOTC_STATE_OK then tls_init_failed context data IOTC_TLS_FAILED_LOADING_CERTIFICATE s3
                 else tls_init_wait 490 s3)))"

definition tls_init_read :: "ptr \<Rightarrow> ptr \<Rightarrow> iotc_state \<Rightarrow> ('f, 'l, 'z) tls_scheme \<Rightarrow> iotc_state \<times> ('f, 'l, 'z) tls_scheme" where
  "tls_init_read context data in_out_state s =
     (if in_out_state \<noteq> IOTC_STATE_OK then tls_init_failed context data IOTC_TLS_FAILED_LOADING_CERTIFICATE s
      else
        (case iotc_resource_manager_read (tl_rm_context (tl_data s)) (tls_init_handle context data in_out_state) s of (st, s1) \<Rightarrow>
           if st \<noteq> IOTC_STATE_OK then tls_init_failed context data IOTC_TLS_FAILED_LOADING_CERTIFICATE s1 else tls_init_wait 516 s1))"

definition tls_init_library :: "ptr \<Rightarrow> ptr \<Rightarrow> iotc_state \<Rightarrow> ('f, 'l, 'z) tls_scheme \<Rightarrow> iotc_state \<times> ('f, 'l, 'z) tls_scheme" where
  "tls_init_library context data in_out_state s =
     (if in_out_state \<noteq> IOTC_STATE_OK then tls_init_failed context data IOTC_TLS_FAILED_LOADING_CERTIFICATE s
      else
        (case iotc_bsp_tls_init (tl_lib s) (cd_host (cx_connection s))
             (desc_data (cl_desc s (rc_data_buffer (rm_at s (tl_rm_context (tl_data s)))))) (tl_lib_state s) of (st, c, l) \<Rightarrow>
           (let s1 = on_tls (\<lambda>d. d\<lparr>tl_context := c\<rparr>) (s\<lparr>tl_lib_state := l\<rparr>)
            in if st \<noteq> IOTC_BSP_TLS_STATE_OK
               then tls_init_failed context data
                 (if st = IOTC_BSP_TLS_STATE_CERT_ERROR then IOTC_TLS_FAILED_LOADING_CERTIFICATE else IOTC_TLS_INITALIZATION_ERROR) s1
               else tls_init_wait 568 (snd (iotc_resource_manager_close (tl_rm_context (tl_data s1)) (tls_init_handle context data in_out_state) s1)))))"

definition tls_init_done :: "ptr \<Rightarrow> ptr \<Rightarrow> iotc_state \<Rightarrow> ('f, 'l, 'z) tls_scheme \<Rightarrow> iotc_state \<times> ('f, 'l, 'z) tls_scheme" where
  "tls_init_done context data in_out_state s =
     (if in_out_state \<noteq> IOTC_STATE_OK then tls_init_failed context data IOTC_TLS_FAILED_LOADING_CERTIFICATE s
      else
        (case iotc_resource_manager_free_context (tl_rm_context (tl_data s)) s of (st, s1) \<Rightarrow>
           (let s2 = on_tls (\<lambda>d. d\<lparr>tl_rm_context := NULL\<rparr>) s1
            in if st \<noteq> IOTC_STATE_OK then tls_init_failed context data IOTC_TLS_FAILED_LOADING_CERTIFICATE s2
               else IOTC_PROCESS_INIT_ON_PREV_LAYER context data st
                 (on_tls (\<lambda>d. d\<lparr>tl_recv_handler := Some Connect_handler, tl_send_handler := Some Connect_handler, tl_recv_cs := 1\<rparr>) s2))))"

definition iotc_tls_layer_init :: "ptr \<Rightarrow> ptr \<Rightarrow> iotc_state \<Rightarrow> ('f, 'l, 'z) tls_scheme \<Rightarrow> iotc_state \<times> ('f, 'l, 'z) tls_scheme" where
  "iotc_tls_layer_init context data in_out_state s =
     (if data = NULL then tls_init_failed context data IOTC_TLS_INITALIZATION_ERROR s
      else if user_data context s = NULL then
        (case iotc_alloc sizeof_tls_data (ev_mem s) of (p, m) \<Rightarrow>
           if p = NULL then tls_init_failed context data IOTC_OUT_OF_MEMORY (s\<lparr>ev_mem := m\<rparr>)
           else tls_init_open context data (set_user_data context p (s\<lparr>ev_mem := m, tl_data := zeroed_tls_data\<rparr>)))
      else if tl_conn_cs (tl_data s) = 490 then tls_init_read context data in_out_state s
      else if tl_conn_cs (tl_data s) = 516 then tls_init_library context data in_out_state s
      else if tl_conn_cs (tl_data s) = 568 then tls_init_done context data in_out_state s
      else tls_init_open context data s)"

definition iotc_tls_layer_connect :: "ptr \<Rightarrow> ptr \<Rightarrow> iotc_state \<Rightarrow> ('f, 'l, 'z) tls_scheme \<Rightarrow> iotc_state \<times> ('f, 'l, 'z) tls_scheme" where
  "iotc_tls_layer_connect context data in_out_state s =
     (if tls_not_operational context s \<or> in_out_state \<noteq> IOTC_STATE_OK
      then IOTC_PROCESS_CONNECT_ON_NEXT_LAYER context data in_out_state s
      else connect_handler context NULL IOTC_STATE_OK s)"

definition iotc_tls_layer_close :: "ptr \<Rightarrow> ptr \<Rightarrow> iotc_state \<Rightarrow> ('f, 'l, 'z) tls_scheme \<Rightarrow> iotc_state \<times> ('f, 'l, 'z) tls_scheme" where
  "iotc_tls_layer_close context data in_out_state s =
     (if user_data context s = NULL then IOTC_PROCESS_CLOSE_EXTERNALLY_ON_THIS_LAYER context data in_out_state s
      else IOTC_PROCESS_CLOSE_ON_PREV_LAYER context data in_out_state s)"

definition tls_close_released :: "ptr \<Rightarrow> ptr \<Rightarrow> iotc_state \<Rightarrow> ('f, 'l, 'z) tls_scheme \<Rightarrow> iotc_state \<times> ('f, 'l, 'z) tls_scheme" where
  "tls_close_released context data in_out_state s =
     (if in_out_state \<noteq> IOTC_STATE_OK \<and> ly_state (ly_at s context) = IOTC_LAYER_STATE_CONNECTING
      then IOTC_PROCESS_CONNECT_ON_THIS_LAYER context data in_out_state s
      else IOTC_PROCESS_CLOSE_EXTERNALLY_ON_NEXT_LAYER context data in_out_state s)"

definition tls_release :: "ptr \<Rightarrow> ('f, 'l, 'z) tls_scheme \<Rightarrow> ('f, 'l, 'z) tls_scheme" where
  "tls_release context s =
     (case iotc_bsp_tls_cleanup (tl_lib s) (tl_context (tl_data s)) (tl_lib_state s) of (c, l) \<Rightarrow>
        (let s1 = on_tls (\<lambda>d. d\<lparr>tl_context := c\<rparr>) (s\<lparr>tl_lib_state := l\<rparr>);
             s2 = fold free_data_desc (tl_raw_buffer (tl_data s1)) s1;
             s3 = on_tls (\<lambda>d. d\<lparr>tl_decoded_buffer := NULL\<rparr>) (free_data_desc (tl_decoded_buffer (tl_data s2)) s2);
             s4 = on_tls (\<lambda>d. d\<lparr>tl_to_write_buffer := NULL\<rparr>) (free_data_desc (tl_to_write_buffer (tl_data s3)) s3)
         in set_user_data context NULL (on_mem (IOTC_SAFE_FREE (user_data context s4)) s4)))"

definition iotc_tls_layer_close_externally ::
    "ptr \<Rightarrow> ptr \<Rightarrow> iotc_state \<Rightarrow> ('f, 'l, 'z) tls_scheme \<Rightarrow> iotc_state \<times> ('f, 'l, 'z) tls_scheme" where
  "iotc_tls_layer_close_externally context data in_out_state s =
     (let c = tl_rm_context (tl_data s);
          finish = (\<lambda>s. tls_close_released context data in_out_state (tls_release context s));
          free = (\<lambda>s. finish (on_tls (\<lambda>d. d\<lparr>tl_rm_context := NULL\<rparr>) (snd (iotc_resource_manager_free_context c s))))
      in if user_data context s = NULL then tls_close_released context data in_out_state s
         else if c = NULL then finish s
         else if rc_resource_handle (rm_at s c) \<ge> 0 then
           (case iotc_resource_manager_close c
                (iotc_make_handle_argc3 IOTC_THREADID_MAINTHREAD fn_tls_close_externally context data (state_arg in_out_state)) s of (st, s1) \<Rightarrow>
              if st = IOTC_STATE_OK then (IOTC_STATE_OK, s1) else free s1)
         else free s)"

end
