(* ===== verification/Iotc_Tls_Channel.thy ===== *)
theory Iotc_Tls_Channel
  imports Iotc_Tls
begin

text \<open>
  What a TLS library sees of the layer: a channel that gives the received bytes in order, each once, and carries one write at a
  time. The run of a call over the queue of received buffers refines a run over that channel, for every library.
\<close>

section \<open>The channel\<close>

inductive channel_run ::
    "'r tls_run \<Rightarrow> byte list \<Rightarrow> tls_write_state \<Rightarrow> 'r \<Rightarrow> byte list \<Rightarrow> tls_write_state \<Rightarrow> byte list list \<Rightarrow> bool" where
  channel_return: "channel_run (Tls_return r) inp ph r inp ph []"
| channel_empty: "channel_run (k (IOTC_BSP_TLS_STATE_WANT_READ, [])) [] ph r inp' ph' out \<Longrightarrow> channel_run (Tls_recv n k) [] ph r inp' ph' out"
| channel_recv: "channel_run (k (IOTC_BSP_TLS_STATE_OK, bs)) inp ph r inp' ph' out \<Longrightarrow> length bs \<le> n \<Longrightarrow> bs \<noteq> [] \<or> n = 0 \<Longrightarrow> bs @ inp \<noteq> []
    \<Longrightarrow> channel_run (Tls_recv n k) (bs @ inp) ph r inp' ph' out"
| channel_send: "channel_run (k (IOTC_BSP_TLS_STATE_WANT_WRITE, 0)) inp IOTC_TLS_LAYER_DATA_WRITING r inp' ph' out
    \<Longrightarrow> channel_run (Tls_send p bs k) inp IOTC_TLS_LAYER_DATA_NONE r inp' ph' (bs # out)"
| channel_wait: "channel_run (k (IOTC_BSP_TLS_STATE_WANT_WRITE, 0)) inp IOTC_TLS_LAYER_DATA_WRITING r inp' ph' out
    \<Longrightarrow> channel_run (Tls_send p bs k) inp IOTC_TLS_LAYER_DATA_WRITING r inp' ph' out"
| channel_written: "channel_run (k (IOTC_BSP_TLS_STATE_OK, length bs)) inp IOTC_TLS_LAYER_DATA_NONE r inp' ph' out
    \<Longrightarrow> channel_run (Tls_send p bs k) inp IOTC_TLS_LAYER_DATA_WRITTEN r inp' ph' out"

text \<open>A write that was started is not finished in the same call: there is at most one.\<close>

lemma writing_stays: "channel_run t inp ph r inp' ph' out \<Longrightarrow> ph = IOTC_TLS_LAYER_DATA_WRITING \<Longrightarrow> ph' = IOTC_TLS_LAYER_DATA_WRITING \<and> out = []"
  by (induction rule: channel_run.induct) simp_all

lemma one_write: "channel_run t inp ph r inp' ph' out \<Longrightarrow> length out \<le> 1 \<and> (out \<noteq> [] \<longrightarrow> ph' = IOTC_TLS_LAYER_DATA_WRITING)"
  by (induction rule: channel_run.induct) (auto dest: writing_stays)

lemma reads_prefix: "channel_run t inp ph r inp' ph' out \<Longrightarrow> \<exists>got. inp = got @ inp'"
  by (induction rule: channel_run.induct) auto

section \<open>The state of the layer as a channel\<close>

definition unread_bytes :: "data_desc \<Rightarrow> byte list" where
  "unread_bytes d = drop (unat (d_curr_pos d)) (desc_data d)"

definition raw_ok :: "(ptr \<Rightarrow> data_desc) \<Rightarrow> ptr \<Rightarrow> bool" where
  "raw_ok f p \<longleftrightarrow> p \<noteq> NULL \<and> d_self (f p) = p \<and> desc_inv (f p) \<and> d_curr_pos (f p) < d_length (f p)"

definition blocks_at :: "(ptr \<Rightarrow> data_desc) \<Rightarrow> ptr list \<Rightarrow> ptr multiset" where
  "blocks_at f ps = (\<Sum>p\<leftarrow>ps. desc_blocks (Some (f p)))"

definition raw_blocks :: "('f, 'l, 'z) tls_scheme \<Rightarrow> ptr multiset" where
  "raw_blocks s = blocks_at (cl_desc s) (tl_raw_buffer (tl_data s))"

definition channel :: "ptr \<Rightarrow> ('f, 'l, 'z) tls_scheme \<Rightarrow> byte list \<Rightarrow> tls_write_state \<Rightarrow> bool" where
  "channel context s inp ph \<longleftrightarrow> (\<forall>p\<in>set (tl_raw_buffer (tl_data s)). raw_ok (cl_desc s) p)
     \<and> inp = concat (map (\<lambda>p. unread_bytes (cl_desc s p)) (tl_raw_buffer (tl_data s)))
     \<and> tl_write_state (tl_data s) = ph \<and> (tl_sending_cs (tl_data s) = 118 \<longleftrightarrow> ph \<noteq> IOTC_TLS_LAYER_DATA_NONE)
     \<and> neighbour_ok context s Prev"

text \<open>What a call of the library leaves alone.\<close>

definition run_frame :: "ptr multiset \<Rightarrow> ('f, 'l, 'z) tls_scheme \<Rightarrow> ('f, 'l, 'z) tls_scheme \<Rightarrow> bool" where
  "run_frame M s s' \<longleftrightarrow> ly_at s' = ly_at s \<and> tl_lib s' = tl_lib s \<and> tl_lib_state s' = tl_lib_state s \<and> (\<forall>p\<in>#M. cl_desc s' p = cl_desc s p)
     \<and> (\<exists>r c w. tl_data s' = (tl_data s)\<lparr>tl_raw_buffer := r, tl_sending_cs := c, tl_write_state := w\<rparr>)"

lemma run_frame_refl [intro!, simp]: "run_frame M s s"
proof -
  have "tl_data s = (tl_data s)\<lparr>tl_raw_buffer := tl_raw_buffer (tl_data s), tl_sending_cs := tl_sending_cs (tl_data s), tl_write_state := tl_write_state (tl_data s)\<rparr>" by simp
  then show ?thesis unfolding run_frame_def by blast
qed

lemma run_frame_trans: "run_frame M s s1 \<Longrightarrow> run_frame N s1 s2 \<Longrightarrow> set_mset M \<subseteq> set_mset N \<Longrightarrow> run_frame M s s2"
  unfolding run_frame_def by (elim conjE exE; intro conjI exI) auto

lemma blocks_at_simps [simp]: "blocks_at f [] = {#}" "blocks_at f (p # ps) = desc_blocks (Some (f p)) + blocks_at f ps"
  "blocks_at f (ps @ qs) = blocks_at f ps + blocks_at f qs"
  by (simp_all add: blocks_at_def)

lemma blocks_at_cong: "(\<And>p. p \<in> set ps \<Longrightarrow> f p = g p) \<Longrightarrow> blocks_at f ps = blocks_at g ps"
  by (simp add: blocks_at_def cong: map_cong)

lemma self_in_blocks: "p \<in> set ps \<Longrightarrow> d_self (f p) = p \<Longrightarrow> p \<in># blocks_at f ps"
  by (induction ps) (auto simp: desc_blocks_def)

lemma unread_empty: "raw_ok f p \<Longrightarrow> unread_bytes (f p) \<noteq> []"
  by (auto simp: raw_ok_def unread_bytes_def word_less_nat_alt)

section \<open>Receiving\<close>

lemma advance_unread:
  assumes "desc_inv d" and "d_curr_pos d < d_length d" and "k \<le> unat (d_length d - d_curr_pos d)"
  shows "unread_bytes d = take k (drop (unat (d_curr_pos d)) (d_bytes d)) @ unread_bytes (d\<lparr>d_curr_pos := d_curr_pos d + of_nat k\<rparr>)"
    and "length (take k (drop (unat (d_curr_pos d)) (d_bytes d))) = k"
    and "d_curr_pos d + of_nat k = d_length d \<longleftrightarrow> k = unat (d_length d - d_curr_pos d)"
    and "d_curr_pos d + of_nat k \<le> d_length d" and "unat (d_curr_pos d) + k \<le> length (d_bytes d)"
proof -
  have sub: "unat (d_length d - d_curr_pos d) = unat (d_length d) - unat (d_curr_pos d)"
    using assms(2) by (simp add: unat_sub word_le_nat_alt word_less_nat_alt)
  have lt: "unat (d_length d) < 2 ^ 32" using unsigned_less [of "d_length d"] by simp
  have pos: "unat (d_curr_pos d + of_nat k) = unat (d_curr_pos d) + k"
    using assms(2,3) lt by (subst unat_word_ariths) (simp add: sub unat_of_nat take_bit_eq_mod word_less_nat_alt)
  have len: "unat (d_length d) \<le> length (d_bytes d)" using assms(1) by (simp add: desc_inv_def word_le_nat_alt)
  show "unread_bytes d = take k (drop (unat (d_curr_pos d)) (d_bytes d)) @ unread_bytes (d\<lparr>d_curr_pos := d_curr_pos d + of_nat k\<rparr>)"
  proof -
    let ?x = "drop (unat (d_curr_pos d)) (desc_data d)"
    have "take k ?x = take k (drop (unat (d_curr_pos d)) (d_bytes d))"
      using assms(2,3) len by (simp add: desc_data_def drop_take min_def sub)
    moreover have "unread_bytes (d\<lparr>d_curr_pos := d_curr_pos d + of_nat k\<rparr>) = drop k ?x"
      by (simp add: unread_bytes_def pos desc_data_def add.commute)
    ultimately show ?thesis using append_take_drop_id [of k ?x] by (simp add: unread_bytes_def)
  qed
  show "length (take k (drop (unat (d_curr_pos d)) (d_bytes d))) = k" using assms(2,3) len by (simp add: sub word_less_nat_alt)
  show "d_curr_pos d + of_nat k = d_length d \<longleftrightarrow> k = unat (d_length d - d_curr_pos d)"
    unfolding word_eq_iff_unsigned [where 'a = nat] using assms(2) by (auto simp: pos sub word_less_nat_alt)
  show "d_curr_pos d + of_nat k \<le> d_length d" using assms(2,3) by (simp add: word_le_nat_alt pos sub word_less_nat_alt)
  show "unat (d_curr_pos d) + k \<le> length (d_bytes d)" using assms(2,3) len by (simp add: sub word_less_nat_alt)
qed

lemma recv_step:
  fixes s :: "('f, 'l, 'z) tls_scheme"
  assumes "channel context s inp ph" and "sys base hs (raw_blocks s + M) s" and "iotc_bsp_tls_recv_callback n s = ((st, bs), s')"
  shows "\<exists>inp'. channel context s' inp' ph \<and> sys base hs (raw_blocks s' + M) s' \<and> run_frame M s s'
    \<and> (if inp = [] then st = IOTC_BSP_TLS_STATE_WANT_READ \<and> bs = [] \<and> inp' = []
       else st = IOTC_BSP_TLS_STATE_OK \<and> inp = bs @ inp' \<and> length bs \<le> n \<and> (bs \<noteq> [] \<or> n = 0))"
proof (cases "tl_raw_buffer (tl_data s)")
  case Nil
  with assms show ?thesis by (auto simp: iotc_bsp_tls_recv_callback_def channel_def)
next
  case (Cons p rest)
  let ?d = "cl_desc s p"
  let ?k = "min n (unat (d_length ?d - d_curr_pos ?d))"
  let ?d1 = "?d\<lparr>d_curr_pos := d_curr_pos ?d + of_nat ?k\<rparr>"
  have ok: "\<forall>q\<in>set (p # rest). raw_ok (cl_desc s) q" and inp: "inp = unread_bytes ?d @ concat (map (\<lambda>q. unread_bytes (cl_desc s q)) rest)"
    using assms(1) Cons by (simp_all add: channel_def)
  then have d: "p \<noteq> NULL" "d_self ?d = p" "desc_inv ?d" "d_curr_pos ?d < d_length ?d" by (simp_all add: raw_ok_def)
  note adv = advance_unread [OF d(3,4) min.cobounded2 [of n]]
  have ne: "inp \<noteq> []" using unread_empty [of "cl_desc s" p] ok inp by simp
  have rb: "raw_blocks s = desc_blocks (Some ?d) + blocks_at (cl_desc s) rest" by (simp add: raw_blocks_def Cons)
  have "p \<notin># (desc_blocks (Some ?d) - {#p#}) + (blocks_at (cl_desc s) rest + M)"
    using assms(2) d(2) by (intro sys_distinct [of base hs]) (simp add: rb desc_blocks_def split: if_splits)
  then have pr: "p \<notin> set rest" and pM: "p \<notin># M"
    using self_in_blocks [of p rest "cl_desc s"] d(2) by auto
  define s1 where "s1 = on_mem (memcpy_check (unat (d_curr_pos ?d) + ?k) (length (d_bytes ?d))) (s\<lparr>cl_desc := (cl_desc s)(p := ?d1)\<rparr>)"
  have s1: "s1 = s\<lparr>cl_desc := (cl_desc s)(p := ?d1)\<rparr>" using adv(5) by (simp add: s1_def on_mem_def memcpy_check_def)
  have ba: "blocks_at ((cl_desc s)(p := x)) rest = blocks_at (cl_desc s) rest" for x using pr by (intro blocks_at_cong) auto
  have un: "map (\<lambda>q. unread_bytes (((cl_desc s)(p := x)) q)) rest = map (\<lambda>q. unread_bytes (cl_desc s q)) rest" for x using pr by (intro map_cong) auto
  have cu: "concat (map (\<lambda>q. unread_bytes (if q = p then x else cl_desc s q)) rest) = concat (map (\<lambda>q. unread_bytes (cl_desc s q)) rest)" for x
    using un [of x] by (simp only: fun_upd_apply)
  have db: "desc_blocks (Some ?d1) = desc_blocks (Some ?d)" by (simp add: desc_blocks_def)
  have sy1: "sys base hs (desc_blocks (Some (cl_desc s1 p)) + (blocks_at (cl_desc s) rest + M)) s1"
    using assms(2) by (simp add: s1 db rb add.assoc sys_desc)
  let ?bs = "take ?k (drop (unat (d_curr_pos ?d)) (d_bytes ?d))"
  have nz: "0 < unat (d_length ?d - d_curr_pos ?d)" using d(4) unat_gt_0 by (metis right_minus_eq less_irrefl)
  have bsl: "length ?bs = ?k" by (rule adv(2))
  have r: "st = IOTC_BSP_TLS_STATE_OK" "bs = ?bs" and s': "s' = (if d_curr_pos ?d1 = d_length ?d1
      then free_data_desc p (on_tls (\<lambda>l. l\<lparr>tl_raw_buffer := rest\<rparr>) s1) else s1)"
    using assms(3) by (auto simp: iotc_bsp_tls_recv_callback_def Cons Let_def s1_def)
  have fr: "length bs \<le> n" "bs \<noteq> [] \<or> n = 0" using bsl nz by (auto simp: r(2) simp flip: length_greater_0_conv)
  show ?thesis
  proof (cases "d_curr_pos ?d1 = d_length ?d1")
    case True
    then have k: "?k = unat (d_length ?d - d_curr_pos ?d)" using adv(3) by simp
    let ?s2 = "on_tls (\<lambda>l. l\<lparr>tl_raw_buffer := rest\<rparr>) s1"
    have f2: "s' = free_data_desc p ?s2" using s' True by simp
    have "sys base hs (desc_blocks (Some (cl_desc ?s2 p)) + (blocks_at (cl_desc s) rest + M)) ?s2"
      using sy1 by (simp add: on_tls_def) (erule sys_cong; simp)
    from sys_free_desc [OF this d(1)] have sy2: "sys base hs (blocks_at (cl_desc s) rest + M) s'" by (simp add: f2)
    have fs: "cl_desc s' = (cl_desc s)(p := ?d1)" "tl_data s' = (tl_data s)\<lparr>tl_raw_buffer := rest\<rparr>" "ly_at s' = ly_at s"
      "tl_lib s' = tl_lib s" "tl_lib_state s' = tl_lib_state s"
      by (simp_all add: f2 free_data_desc_def on_mem_def on_tls_def s1)
    have "unread_bytes ?d1 = []" using True adv(1) by (simp add: unread_bytes_def desc_data_def)
    then have "inp = bs @ concat (map (\<lambda>q. unread_bytes (cl_desc s q)) rest)" using inp adv(1) by (simp add: r)
    moreover have "channel context s' (concat (map (\<lambda>q. unread_bytes (cl_desc s q)) rest)) ph"
      using assms(1) ok pr layers_upd(1) [OF _ fs(3)] by (auto simp: channel_def fs(1,2) raw_ok_def cu)
    moreover have "sys base hs (raw_blocks s' + M) s'" using sy2 ba by (simp add: raw_blocks_def fs)
    moreover have "run_frame M s s'" using pM fs unfolding run_frame_def
      by (intro conjI exI [of _ rest] exI [of _ "tl_sending_cs (tl_data s)"] exI [of _ "tl_write_state (tl_data s)"]) auto
    ultimately show ?thesis using ne r(1) fr by auto
  next
    case False
    then have f2: "s' = s1" using s' by simp
    have lt: "d_curr_pos ?d1 < d_length ?d1" using False adv(4) by simp
    have fs: "cl_desc s' = (cl_desc s)(p := ?d1)" "tl_data s' = tl_data s" "ly_at s' = ly_at s"
      "tl_lib s' = tl_lib s" "tl_lib_state s' = tl_lib_state s" by (simp_all add: f2 s1)
    let ?i = "unread_bytes ?d1 @ concat (map (\<lambda>q. unread_bytes (cl_desc s q)) rest)"
    have "inp = bs @ ?i" using inp adv(1) by (simp add: r)
    moreover have "channel context s' ?i ph"
      using assms(1) ok pr lt layers_upd(1) [OF _ fs(3)] by (auto simp: channel_def fs(1,2) raw_ok_def Cons desc_inv_def cu)
    moreover have "sys base hs (raw_blocks s' + M) s'" 
    proof -
      have "raw_blocks s' = desc_blocks (Some (cl_desc s1 p)) + blocks_at (cl_desc s) rest" by (simp add: raw_blocks_def fs Cons ba) (simp add: s1)
      then show ?thesis using sy1 by (simp add: f2 add.assoc)
    qed
    moreover have "run_frame M s s'" using pM fs unfolding run_frame_def
      by (intro conjI exI [of _ "tl_raw_buffer (tl_data s)"] exI [of _ "tl_sending_cs (tl_data s)"] exI [of _ "tl_write_state (tl_data s)"]) auto
    ultimately show ?thesis using ne r(1) fr by auto
  qed
qed

section \<open>Sending\<close>

abbreviation (input) push_call :: "ptr \<Rightarrow> ('f, 'l, 'z) tls_scheme \<Rightarrow> ptr \<Rightarrow> event_handle" where
  "push_call context s d \<equiv> call_handle context s (Prev, F_push, d, IOTC_STATE_OK)"

lemma continue_tls_frame:
  fixes s :: "('f, 'l, 'z) tls_scheme"
  assumes "IOTC_LAYER_CONTINUE_WITH dir f context data st s = (r, s')"
  shows "tl_data s' = tl_data s" "tl_lib s' = tl_lib s" "tl_lib_state s' = tl_lib_state s" "cl_desc s' = cl_desc s" "rm_at s' = rm_at s"
proof -
  have s': "s' = snd (IOTC_LAYER_CONTINUE_WITH dir f context data st s)" by (simp add: assms)
  have "tl_data (snd (iotc_evttd_execute h s)) = tl_data s" "tl_lib (snd (iotc_evttd_execute h s)) = tl_lib s" "tl_lib_state (snd (iotc_evttd_execute h s)) = tl_lib_state s"
    "cl_desc (snd (iotc_evttd_execute h s)) = cl_desc s" "rm_at (snd (iotc_evttd_execute h s)) = rm_at s" for h and s :: "('f, 'l, 'z) tls_scheme"
    by (simp_all add: iotc_evttd_execute_def iotc_evtd_execute_def Let_def iotc_lock_critical_section_def
        iotc_unlock_critical_section_def split: prod.splits option.splits)
  then show "tl_data s' = tl_data s" "tl_lib s' = tl_lib s" "tl_lib_state s' = tl_lib_state s" "cl_desc s' = cl_desc s" "rm_at s' = rm_at s"
    by (simp_all add: s' IOTC_LAYER_CONTINUE_WITH_def iotc_layer_continue_with_impl_def Let_def case_prod_beta)
qed

lemma tls_sent_step:
  assumes "tl_write_state (tl_data s) = ph" and "ph \<noteq> IOTC_TLS_LAYER_DATA_NONE"
  shows "tls_sent n s = (if ph = IOTC_TLS_LAYER_DATA_WRITING
      then ((IOTC_BSP_TLS_STATE_WANT_WRITE, 0), on_tls (\<lambda>l. l\<lparr>tl_sending_cs := 118\<rparr>) s)
      else ((IOTC_BSP_TLS_STATE_OK, n), on_tls (\<lambda>l. l\<lparr>tl_write_state := IOTC_TLS_LAYER_DATA_NONE, tl_sending_cs := 1\<rparr>) s))"
  using assms by (cases ph) (simp_all add: tls_sent_def)

lemma on_tls_frame:
  fixes s :: "('f, 'l, 'z) tls_scheme"
  assumes "f (tl_data s) = (tl_data s)\<lparr>tl_sending_cs := c, tl_write_state := w\<rparr>"
  shows "run_frame M s (on_tls f s)" and "raw_blocks (on_tls f s) = raw_blocks s" and "sys base hs N (on_tls f s) = sys base hs N s"
    and "channel context s inp ph \<Longrightarrow> (c = 118 \<longleftrightarrow> w \<noteq> IOTC_TLS_LAYER_DATA_NONE) \<Longrightarrow> channel context (on_tls f s) inp w"
proof -
  show "run_frame M s (on_tls f s)" unfolding run_frame_def
    by (intro conjI exI [of _ "tl_raw_buffer (tl_data s)"] exI [of _ c] exI [of _ w]) (simp_all add: on_tls_def assms)
  show "raw_blocks (on_tls f s) = raw_blocks s" by (simp add: raw_blocks_def on_tls_def assms)
  show "sys base hs N (on_tls f s) = sys base hs N s" by (simp add: on_tls_def sys_def lock_free_def)
  have "ly_at (on_tls f s) = ly_at s" by (simp add: on_tls_def)
  from layers_upd(1) [OF _ this] show "channel context s inp ph \<Longrightarrow> (c = 118 \<longleftrightarrow> w \<noteq> IOTC_TLS_LAYER_DATA_NONE) \<Longrightarrow> channel context (on_tls f s) inp w"
    by (simp add: channel_def on_tls_def assms)
qed

lemma send_pending:
  assumes "channel context s inp ph" and "sys base hs (raw_blocks s + M) s" and "ph \<noteq> IOTC_TLS_LAYER_DATA_NONE"
    and "iotc_bsp_tls_send_callback q bs context s = (a, s')"
  shows "if ph = IOTC_TLS_LAYER_DATA_WRITING then a = (IOTC_BSP_TLS_STATE_WANT_WRITE, 0) \<and> channel context s' inp IOTC_TLS_LAYER_DATA_WRITING
       \<and> sys base hs (raw_blocks s' + M) s' \<and> run_frame M s s'
     else a = (IOTC_BSP_TLS_STATE_OK, length bs) \<and> channel context s' inp IOTC_TLS_LAYER_DATA_NONE
       \<and> sys base hs (raw_blocks s' + M) s' \<and> run_frame M s s'"
proof -
  have c: "tl_sending_cs (tl_data s) = 118" "tl_write_state (tl_data s) = ph" using assms(1,3) by (simp_all add: channel_def)
  then have r: "(a, s') = tls_sent (length bs) s" using assms(4) by (simp add: iotc_bsp_tls_send_callback_def)
  show ?thesis
  proof (cases "ph = IOTC_TLS_LAYER_DATA_WRITING")
    case True
    with r c have x: "a = (IOTC_BSP_TLS_STATE_WANT_WRITE, 0)" "s' = on_tls (\<lambda>l. l\<lparr>tl_sending_cs := 118\<rparr>) s" by (simp_all add: tls_sent_step)
    have "(tl_data s)\<lparr>tl_sending_cs := 118\<rparr> = (tl_data s)\<lparr>tl_sending_cs := 118, tl_write_state := IOTC_TLS_LAYER_DATA_WRITING\<rparr>"
      using c True by (cases "tl_data s") simp
    from on_tls_frame [where f = "\<lambda>l. l\<lparr>tl_sending_cs := 118\<rparr>" and s = s, OF this] assms(1,2) True show ?thesis by (simp add: x)
  next
    case False
    with r c assms(3) have x: "a = (IOTC_BSP_TLS_STATE_OK, length bs)"
      "s' = on_tls (\<lambda>l. l\<lparr>tl_write_state := IOTC_TLS_LAYER_DATA_NONE, tl_sending_cs := 1\<rparr>) s" by (simp_all add: tls_sent_step)
    have "(tl_data s)\<lparr>tl_write_state := IOTC_TLS_LAYER_DATA_NONE, tl_sending_cs := 1\<rparr>
      = (tl_data s)\<lparr>tl_sending_cs := 1, tl_write_state := IOTC_TLS_LAYER_DATA_NONE\<rparr>" by simp
    from on_tls_frame [where f = "\<lambda>l. l\<lparr>tl_write_state := IOTC_TLS_LAYER_DATA_NONE, tl_sending_cs := 1\<rparr>" and s = s, OF this] assms(1,2) False show ?thesis by (simp add: x)
  qed
qed

lemma send_start:
  fixes s :: "('f, 'l, 'z) tls_scheme"
  assumes "channel context s inp IOTC_TLS_LAYER_DATA_NONE" and "sys base hs (raw_blocks s + M) s"
    and "iotc_bsp_tls_send_callback q bs context s = (a, s')"
  shows "\<exists>d. a = (IOTC_BSP_TLS_STATE_WANT_WRITE, 0) \<and> channel context s' inp IOTC_TLS_LAYER_DATA_WRITING
    \<and> sys base (hs @ [push_call context s d]) (raw_blocks s' + add_mset d M) s' \<and> run_frame M s s'
    \<and> (length bs < 2 ^ 32 \<longrightarrow> desc_data (cl_desc s' d) = bs)"
proof -
  have c: "tl_sending_cs (tl_data s) \<noteq> 118" "neighbour_ok context s Prev" using assms(1) by (simp_all add: channel_def)
  obtain d m where al: "iotc_alloc sizeof_data_desc (ev_mem s) = (d, m)" by fastforce
  from sys_alloc [OF assms(2) al] have d: "d \<noteq> NULL" "sys base hs (add_mset d (raw_blocks s + M)) (s\<lparr>ev_mem := m\<rparr>)" "d \<notin># raw_blocks s + M"
    by (simp_all add: sizeof_data_desc_def)
  let ?d = "(zeroed_desc d)\<lparr>d_capacity := of_nat (length bs), d_length := of_nat (length bs), d_data_ptr := q, d_bytes := bs,
      d_memory_type := IOTC_MEMORY_TYPE_UNMANAGED\<rparr>"
  have sd: "d_self ?d = d" "length bs < 2 ^ 32 \<longrightarrow> desc_data ?d = bs" using shared_data [of bs] by (simp_all add: zeroed_desc_def)
  define s1 where "s1 = on_tls (\<lambda>l. l\<lparr>tl_write_state := IOTC_TLS_LAYER_DATA_WRITING\<rparr>) s"
  define s2 where "s2 = s1\<lparr>ev_mem := m, cl_desc := (cl_desc s1)(d := ?d)\<rparr>"
  have mk: "iotc_make_desc_from_buffer_share q bs (ev_mem s1) = (Some ?d, m)"
    using al d(1) by (simp add: s1_def on_tls_def iotc_make_desc_from_buffer_share_def Let_def)
  have sy2: "sys base hs (add_mset d (raw_blocks s + M)) s2" by (rule sys_cong [OF d(2)]) (simp_all add: s2_def s1_def on_tls_def)
  have f2: "ly_at s2 = ly_at s" "cl_desc s2 = (cl_desc s)(d := ?d)" "tl_lib s2 = tl_lib s" "tl_lib_state s2 = tl_lib_state s"
    "tl_data s2 = (tl_data s)\<lparr>tl_write_state := IOTC_TLS_LAYER_DATA_WRITING\<rparr>" by (simp_all add: s2_def s1_def on_tls_def)
  note l2 = layers_upd [OF c(2) f2(1)]
  obtain r s3 where p: "IOTC_LAYER_CONTINUE_WITH Prev (layer_target F_push) context d IOTC_STATE_OK s2 = (r, s3)" by fastforce
  from sys_continue [OF sy2 l2(1) p] l2(2) have sy3: "sys base (hs @ [push_call context s d]) (add_mset d (raw_blocks s + M)) s3"
    and la: "ly_at s3 = ly_at s" by (auto simp: f2)
  note f3 = continue_tls_frame [OF p, unfolded f2]
  have ws: "tl_write_state (tl_data s3) = IOTC_TLS_LAYER_DATA_WRITING" by (simp add: f3)
  have r: "a = (IOTC_BSP_TLS_STATE_WANT_WRITE, 0)" "s' = on_tls (\<lambda>l. l\<lparr>tl_sending_cs := 118\<rparr>) s3"
    using assms(3) c(1) p mk sd(1) tls_sent_step [OF ws, of "length bs"]
    by (simp_all add: iotc_bsp_tls_send_callback_def Let_def flip: s1_def s2_def)
  have f4: "tl_data s' = (tl_data s)\<lparr>tl_sending_cs := 118, tl_write_state := IOTC_TLS_LAYER_DATA_WRITING\<rparr>" "cl_desc s' = (cl_desc s)(d := ?d)"
    "ly_at s' = ly_at s" "tl_lib s' = tl_lib s" "tl_lib_state s' = tl_lib_state s" using f3 la by (simp_all add: r on_tls_def)
  have ne: "p \<noteq> d" if "p \<in> set (tl_raw_buffer (tl_data s))" for p
    using d(3) that self_in_blocks [OF that, of "cl_desc s"] assms(1) by (auto simp: raw_blocks_def channel_def raw_ok_def)
  have rb: "raw_blocks s' = raw_blocks s" unfolding raw_blocks_def f4 using ne by (simp add: f4) (intro blocks_at_cong, auto)
  have mp: "map (\<lambda>p. unread_bytes (cl_desc s' p)) (tl_raw_buffer (tl_data s')) = map (\<lambda>p. unread_bytes (cl_desc s p)) (tl_raw_buffer (tl_data s))"
    using ne by (simp add: f4)
  have "\<forall>p\<in>set (tl_raw_buffer (tl_data s')). raw_ok (cl_desc s') p" using assms(1) ne by (auto simp: channel_def f4 raw_ok_def)
  then have "channel context s' inp IOTC_TLS_LAYER_DATA_WRITING"
    using assms(1) layers_upd(1) [OF c(2) f4(3)] unfolding channel_def mp by (simp add: f4)
  moreover have "sys base (hs @ [push_call context s d]) (raw_blocks s' + add_mset d M) s'"
    unfolding rb using sy3 by (simp add: r(2)) (erule sys_cong; simp add: on_tls_def)
  moreover have "run_frame M s s'" unfolding run_frame_def
    by (intro conjI exI [of _ "tl_raw_buffer (tl_data s)"] exI [of _ 118] exI [of _ IOTC_TLS_LAYER_DATA_WRITING]) (use d(3) in \<open>auto simp: f4\<close>)
  moreover have "length bs < 2 ^ 32 \<longrightarrow> desc_data (cl_desc s' d) = bs" using sd(2) by (simp add: f4)
  ultimately show ?thesis using r(1) by blast
qed

section \<open>A call of the library\<close>

definition carries :: "(ptr \<Rightarrow> data_desc) \<Rightarrow> ptr \<Rightarrow> byte list \<Rightarrow> bool" where
  "carries f d bs \<longleftrightarrow> (length bs < 2 ^ 32 \<longrightarrow> desc_data (f d) = bs)"

lemma push_call_frame: "run_frame M s s' \<Longrightarrow> neighbour_ok context s Prev \<Longrightarrow> push_call context s' d = push_call context s d"
  by (intro layers_upd(2)) (simp_all add: run_frame_def)

lemma library_run:
  fixes s :: "('f, 'l, 'z) tls_scheme"
  assumes "channel context s inp ph" and "sys base hs (raw_blocks s + M) s" and "run_tls context t s = (r, s')"
  shows "\<exists>inp' ph' out ds. channel_run t inp ph r inp' ph' out \<and> channel context s' inp' ph'
    \<and> sys base (hs @ map (push_call context s) ds) (raw_blocks s' + (mset ds + M)) s'
    \<and> list_all2 (carries (cl_desc s')) ds out \<and> run_frame M s s'"
  using assms
proof (induction t arbitrary: s inp ph hs M)
  case (Tls_return x)
  then show ?case by (intro exI [of _ inp] exI [of _ ph] exI [of _ "[]"]) (auto intro: channel_run.intros)
next
  case (Tls_recv n k)
  obtain st bs s1 where c: "iotc_bsp_tls_recv_callback n s = ((st, bs), s1)" by (metis surj_pair)
  from recv_step [OF Tls_recv.prems(1,2) c] obtain inp1 where n1: "channel context s1 inp1 ph" "sys base hs (raw_blocks s1 + M) s1" "run_frame M s s1"
    and a: "if inp = [] then st = IOTC_BSP_TLS_STATE_WANT_READ \<and> bs = [] \<and> inp1 = []
       else st = IOTC_BSP_TLS_STATE_OK \<and> inp = bs @ inp1 \<and> length bs \<le> n \<and> (bs \<noteq> [] \<or> n = 0)" by blast
  from Tls_recv.prems(3) c have "run_tls context (k (st, bs)) s1 = (r, s')" by simp
  from Tls_recv.IH [OF rangeI n1(1,2) this] obtain inp' ph' out ds where o: "channel_run (k (st, bs)) inp1 ph r inp' ph' out"
    "channel context s' inp' ph'" "sys base (hs @ map (push_call context s1) ds) (raw_blocks s' + (mset ds + M)) s'"
    "list_all2 (carries (cl_desc s')) ds out" "run_frame M s1 s'" by blast
  have "channel_run (Tls_recv n k) inp ph r inp' ph' out" using o(1) a by (auto intro: channel_run.intros split: if_splits)
  moreover have "map (push_call context s1) ds = map (push_call context s) ds"
    using push_call_frame [OF n1(3)] Tls_recv.prems(1) by (simp add: channel_def)
  moreover have "run_frame M s s'" using run_frame_trans [OF n1(3) o(5)] by simp
  ultimately show ?case using o by metis
next
  case (Tls_send q bs k)
  obtain a s1 where c: "iotc_bsp_tls_send_callback q bs context s = (a, s1)" by fastforce
  from Tls_send.prems(3) c have rn: "run_tls context (k a) s1 = (r, s')" by simp
  have nb: "neighbour_ok context s Prev" using Tls_send.prems(1) by (simp add: channel_def)
  show ?case
  proof (cases "ph = IOTC_TLS_LAYER_DATA_NONE")
    case True
    from send_start [OF Tls_send.prems(1) [unfolded True] Tls_send.prems(2) c] obtain d where
      a: "a = (IOTC_BSP_TLS_STATE_WANT_WRITE, 0)" and n1: "channel context s1 inp IOTC_TLS_LAYER_DATA_WRITING"
        "sys base (hs @ [push_call context s d]) (raw_blocks s1 + add_mset d M) s1" "run_frame M s s1"
      and dd: "length bs < 2 ^ 32 \<longrightarrow> desc_data (cl_desc s1 d) = bs" by blast
    from Tls_send.IH [OF rangeI n1(1,2) rn] obtain inp' ph' out ds where o: "channel_run (k a) inp IOTC_TLS_LAYER_DATA_WRITING r inp' ph' out"
      "channel context s' inp' ph'" "sys base ((hs @ [push_call context s d]) @ map (push_call context s1) ds) (raw_blocks s' + (mset ds + add_mset d M)) s'"
      "list_all2 (carries (cl_desc s')) ds out" "run_frame (add_mset d M) s1 s'" by blast
    have "channel_run (Tls_send q bs k) inp ph r inp' ph' (bs # out)" using o(1) unfolding a True by (rule channel_send)
    moreover have pe: "map (push_call context s1) ds = map (push_call context s) ds" using push_call_frame [OF n1(3) nb] by simp
    have "sys base (hs @ map (push_call context s) (d # ds)) (raw_blocks s' + (mset (d # ds) + M)) s'"
      using o(3) unfolding pe by simp
    moreover have "run_frame M s s'" by (rule run_frame_trans [OF n1(3) o(5)]) auto
    moreover have "carries (cl_desc s') d bs" using dd o(5) by (simp add: carries_def run_frame_def)
    ultimately show ?thesis using o by (intro exI [of _ inp'] exI [of _ ph'] exI [of _ "bs # out"] exI [of _ "d # ds"]) (simp del: list.map mset.simps)
  next
    case False
    define ph1 where "ph1 = (if ph = IOTC_TLS_LAYER_DATA_WRITING then ph else IOTC_TLS_LAYER_DATA_NONE)"
    from send_pending [OF Tls_send.prems(1,2) False c] have n1: "channel context s1 inp ph1" "sys base hs (raw_blocks s1 + M) s1" "run_frame M s s1"
      and a: "a = (if ph = IOTC_TLS_LAYER_DATA_WRITING then (IOTC_BSP_TLS_STATE_WANT_WRITE, 0) else (IOTC_BSP_TLS_STATE_OK, length bs))"
      by (auto simp: ph1_def split: if_splits)
    from Tls_send.IH [OF rangeI n1(1,2) rn] obtain inp' ph' out ds where o: "channel_run (k a) inp ph1 r inp' ph' out"
      "channel context s' inp' ph'" "sys base (hs @ map (push_call context s1) ds) (raw_blocks s' + (mset ds + M)) s'"
      "list_all2 (carries (cl_desc s')) ds out" "run_frame M s1 s'" by blast
    have "channel_run (Tls_send q bs k) inp ph r inp' ph' out"
      using o(1) False by (cases ph) (auto simp: a ph1_def intro: channel_wait channel_written)
    moreover have "map (push_call context s1) ds = map (push_call context s) ds" using push_call_frame [OF n1(3) nb] by simp
    moreover have "run_frame M s s'" using run_frame_trans [OF n1(3) o(5)] by simp
    ultimately show ?thesis using o by metis
  qed
qed

end
