(* ===== verification/Iotc_Resource_Read.thy ===== *)
theory Iotc_Resource_Read
  imports Iotc_Resource_Manager
begin

text \<open>
  What the resource manager reads: on any file system that keeps the contract \<open>readable_files\<close>, in whatever chunks, the buffer of the context is
  the file when the callback is called.
\<close>

section \<open>Waiting for a file\<close>

definition file_tuple :: "int \<Rightarrow> 'z evtd_scheme \<Rightarrow> ptr option" where
  "file_tuple fd s = fd_lookup handles_and_file_fd fd s"

text \<open>There is room to register one more file, and this one is not registered.\<close>

definition file_free :: "(ptr \<rightharpoonup> nat) \<Rightarrow> int \<Rightarrow> 'z evtd_scheme \<Rightarrow> bool" where
  "file_free base fd s \<longleftrightarrow> vec_inv (ev_files s) \<and> v_elem_no (ev_files s) < v_capacity (ev_files s)
     \<and> (\<forall>q\<in>set (vec_list (ev_files s)). base q \<noteq> None \<and> t_fd (ev_fd s q) \<noteq> fd)"

definition file_registered :: "int \<Rightarrow> event_handle \<Rightarrow> ptr \<Rightarrow> 'z evtd_scheme \<Rightarrow> bool" where
  "file_registered fd h p s \<longleftrightarrow> vec_inv (ev_files s) \<and> p \<in> set (vec_list (ev_files s)) \<and> distinct (vec_list (ev_files s))
     \<and> t_fd (ev_fd s p) = fd \<and> t_handle (ev_fd s p) = h \<and> (\<forall>q\<in>set (vec_list (ev_files s)). q \<noteq> p \<longrightarrow> t_fd (ev_fd s q) \<noteq> fd)"

lemma find_only: "x \<in> set xs \<Longrightarrow> P x \<Longrightarrow> (\<forall>y\<in>set xs. y \<noteq> x \<longrightarrow> \<not> P y) \<Longrightarrow> find P xs = Some x"
  by (induction xs) auto

lemma register_file:
  assumes "sys base hs M s" and "file_free base fd s" and "distinct (vec_list (ev_files s))"
  obtains p m v where "iotc_evtd_register_file_fd ev fd h s = (1, s\<lparr>ev_mem := m,
      ev_fd := (ev_fd s)(p := \<lparr>t_fd = fd, t_handle = h, t_read_handle = h, t_event_type = ev, t_fd_type = IOTC_EVTD_FD_TYPE_FILE\<rparr>), ev_files := v\<rparr>)"
    and "sys base hs (add_mset p M) (s\<lparr>ev_mem := m,
      ev_fd := (ev_fd s)(p := \<lparr>t_fd = fd, t_handle = h, t_read_handle = h, t_event_type = ev, t_fd_type = IOTC_EVTD_FD_TYPE_FILE\<rparr>), ev_files := v\<rparr>)"
    and "file_registered fd h p (s\<lparr>ev_mem := m,
      ev_fd := (ev_fd s)(p := \<lparr>t_fd = fd, t_handle = h, t_read_handle = h, t_event_type = ev, t_fd_type = IOTC_EVTD_FD_TYPE_FILE\<rparr>), ev_files := v\<rparr>)"
proof -
  let ?t = "\<lparr>t_fd = fd, t_handle = h, t_read_handle = h, t_event_type = ev, t_fd_type = IOTC_EVTD_FD_TYPE_FILE\<rparr>"
  obtain p m where al: "iotc_alloc sizeof_fd_tuple (ev_mem s) = (p, m)" by fastforce
  from sys_alloc [OF assms(1) al] have p: "p \<noteq> NULL" "sys base hs (add_mset p M) (s\<lparr>ev_mem := m\<rparr>)" by (simp_all add: sizeof_fd_tuple_def)
  then have pb: "base p = None" by (auto simp: sys_def owns_blocks_def)
  obtain v where v: "iotc_vector_push (ev_files s) p m = (Some (length (vec_list (ev_files s))), v, m)" "vec_inv v"
    "vec_list v = vec_list (ev_files s) @ [p]"
    using vec_push_room [of "ev_files s" p m] assms(2) by (auto simp: file_free_def)
  let ?s = "s\<lparr>ev_mem := m, ev_fd := (ev_fd s)(p := ?t), ev_files := v\<rparr>"
  have lf: "lock_free s" using assms(1) by (simp add: sys_def)
  have "iotc_evtd_register_file_fd ev fd h s = (1, ?s)"
    using al p(1) v(1) lf by (cases s; simp add: iotc_evtd_register_file_fd_def iotc_evtd_register_fd_def Let_def lock_free_def
        iotc_lock_critical_section_def iotc_unlock_critical_section_def)
  moreover have "sys base hs (add_mset p M) ?s" by (rule sys_cong [OF p(2)]) simp_all
  moreover have "file_registered fd h p ?s" using v assms(2,3) pb by (auto simp: file_registered_def file_free_def)
  ultimately show thesis using that by blast
qed

lemma unregister_file:
  assumes "lock_free s" and "file_registered fd h p s"
  obtains v where "iotc_evtd_unregister_file_fd fd s = (1, s\<lparr>ev_mem := IOTC_SAFE_FREE p (ev_mem s), ev_files := v\<rparr>)"
    and "vec_inv v" and "\<forall>q\<in>set (vec_list v). t_fd (ev_fd s q) \<noteq> fd"
proof -
  let ?c = handles_and_file_fd and ?v = "ev_files s" and ?s1 = "iotc_lock_critical_section s"
  have lk: "ev_files ?s1 = ev_files s" by (simp add: iotc_lock_critical_section_def)
  from assms(2) have inv: "vec_inv ?v" and only: "\<forall>q\<in>set (vec_list ?v). q \<noteq> p \<longrightarrow> t_fd (ev_fd s q) \<noteq> fd" and d: "distinct (vec_list ?v)"
    by (simp_all add: file_registered_def)
  have l1: "fd_lookup ?c fd ?s1 = Some p" unfolding fd_lookup_def container_simps get_container.simps
    using assms(2) by (intro find_only) (auto simp: file_registered_def)
  have inv1: "vec_inv (get_container ?c ?s1)" using inv by simp
  define k where "k = iotc_evtd_find_fd ?c fd ?s1"
  have ne: "k \<noteq> - 1" and cell: "v_elems ?v ! nat k = p"
    using find_fd_spec [OF inv1, of fd] l1 by (auto simp: k_def)
  have rng: "0 \<le> k" "k < v_elem_no ?v"
  proof -
    have idf: "k = iotc_vector_find ?v 0 (\<lambda>e0 value. t_fd (ev_fd s e0) = fd)" by (simp add: k_def iotc_evtd_find_fd_def)
    with vec_find_spec [OF inv, of 0 "\<lambda>e0 value. t_fd (ev_fd s e0) = fd"] ne show "0 \<le> k" by (auto split: option.splits)
    with vec_find_nonneg(1) [OF inv idf [symmetric]] inv show "k < v_elem_no ?v" by simp
  qed
  let ?v1 = "?v\<lparr>v_elems := (v_elems ?v)[nat k := NULL]\<rparr>"
  have n: "nat k < length (vec_list ?v)" using rng inv by simp
  have v1: "vec_inv ?v1" "vec_list ?v1 = (vec_list ?v)[nat k := NULL]" "v_elem_no ?v1 = v_elem_no ?v"
    using inv n by (auto simp: vec_inv_def vec_list_def take_update_swap)
  from vec_del_spec [OF v1(1), of k] rng v1 have d1: "vec_inv (iotc_vector_del ?v1 k)"
    "vec_list (iotc_vector_del ?v1 k) = drop_index ((vec_list ?v)[nat k := NULL]) (nat k)" by simp_all
  have p: "vec_list ?v ! nat k = p" using cell vec_list_nth [OF inv rng] by simp
  have "mset (vec_list (iotc_vector_del ?v1 k)) = mset (vec_list ?v) - {#p#}"
    unfolding d1(2) using mset_drop_index [of "nat k" "(vec_list ?v)[nat k := NULL]"] n
    by (simp add: mset_update p [symmetric] del: vec_list_length)
  then have "set (vec_list (iotc_vector_del ?v1 k)) = set (vec_list ?v) - {p}"
    using d set_remove1_eq [OF d, of p] by (metis mset_remove1 set_mset_mset)
  then have "\<forall>q\<in>set (vec_list (iotc_vector_del ?v1 k)). t_fd (ev_fd s q) \<noteq> fd" using only by simp
  moreover have "iotc_evtd_unregister_file_fd fd s = (1, iotc_unlock_critical_section
      ((set_container ?c (iotc_vector_del ?v1 k) ?s1)\<lparr>ev_mem := IOTC_SAFE_FREE p (ev_mem s)\<rparr>))"
    using ne by (simp add: iotc_evtd_unregister_file_fd_def iotc_evtd_unregister_fd_def Let_def cell lk flip: k_def)
  moreover have "iotc_unlock_critical_section ((set_container ?c v ?s1)\<lparr>ev_mem := m\<rparr>) = s\<lparr>ev_mem := m, ev_files := v\<rparr>" for v m
    using assms(1) by (cases s) (simp add: lock_free_def iotc_lock_critical_section_def iotc_unlock_critical_section_def)
  ultimately show thesis by (intro that [OF _ d1(1)]) simp_all
qed

section \<open>A chunk\<close>

text \<open>The first \<open>k\<close> bytes of the file are in the buffer; there is none before the first chunk.\<close>

definition buffer_blocks :: "ptr \<Rightarrow> ('f, 'z) rm_scheme \<Rightarrow> ptr multiset" where
  "buffer_blocks ctx s = (if rc_data_buffer (rm_at s ctx) = NULL then {#} else desc_blocks (Some (cl_desc s (rc_data_buffer (rm_at s ctx)))))"

definition read_so_far :: "ptr \<Rightarrow> byte list \<Rightarrow> nat \<Rightarrow> ('f, 'z) rm_scheme \<Rightarrow> bool" where
  "read_so_far ctx bs k s \<longleftrightarrow>
     (let c = rm_at s ctx; d = cl_desc s (rc_data_buffer c)
      in rc_data_offset c = k \<and> rc_resource_size c = length bs \<and> k \<le> length bs
         \<and> (if k = 0 then rc_data_buffer c = NULL
            else rc_data_buffer c \<noteq> NULL \<and> d_self d = rc_data_buffer c \<and> desc_inv d \<and> desc_data d = take k bs
              \<and> unat (d_capacity d) = length bs))"

text \<open>What taking a chunk changes.\<close>

definition chunk_taken :: "ptr \<Rightarrow> nat \<Rightarrow> ('f, 'z) rm_scheme \<Rightarrow> ('f, 'z) rm_scheme \<Rightarrow> bool" where
  "chunk_taken ctx k s s' \<longleftrightarrow> (\<exists>m b e. s' = s\<lparr>ev_mem := m, cl_desc := e,
     rm_at := (rm_at s)(ctx := (rm_at s ctx)\<lparr>rc_data_offset := k, rc_data_buffer := b\<rparr>)\<rparr>)"

lemma append_fits:
  assumes "desc_inv d" and "unat (d_length d) + length bs \<le> unat (d_capacity d)" and "length bs < 2 ^ 63"
  shows "iotc_data_desc_append_data_resize (Some d) (Some bs) m = (IOTC_STATE_OK, Some (desc_write d bs), m)"
    and "iotc_data_desc_append_bytes (Some d) (Some bs) = (IOTC_STATE_OK, Some (desc_write d bs))"
  using assms fits_iff [OF assms(3), of d]
  by (simp_all add: iotc_data_desc_append_data_resize_def iotc_data_desc_append_bytes_def iotc_data_desc_assure_buf_len_def memcpy_check_def desc_inv_def)

lemma write_keeps: "d_self (desc_write d bs) = d_self d" "desc_blocks (Some (desc_write d bs)) = desc_blocks (Some d)"
  by (simp_all add: desc_write_def desc_blocks_def)

definition at_offset :: "ptr \<Rightarrow> nat \<Rightarrow> ('f, 'z) rm_scheme \<Rightarrow> ('f, 'z) rm_scheme" where
  "at_offset ctx k s = on_rm ctx (\<lambda>c. c\<lparr>rc_data_offset := k\<rparr>) s"

lemma store_simps [simp]:
  "rm_at (store_buffer ctx d m (at_offset ctx k s)) ctx = (rm_at s ctx)\<lparr>rc_data_offset := k, rc_data_buffer := d_self d\<rparr>"
  "cl_desc (store_buffer ctx d m (at_offset ctx k s)) = (cl_desc s)(d_self d := d)"
  "ev_mem (at_offset ctx k s) = ev_mem s" "cl_desc (at_offset ctx k s) = cl_desc s"
  "rm_at (at_offset ctx k s) = (rm_at s)(ctx := (rm_at s ctx)\<lparr>rc_data_offset := k\<rparr>)"
  by (simp_all add: store_buffer_def at_offset_def on_rm_def)

lemma sys_store: "sys base hs M (store_buffer ctx d m (at_offset ctx k s)) = sys base hs M (s\<lparr>ev_mem := m\<rparr>)"
  by (simp add: sys_def lock_free_def store_buffer_def at_offset_def on_rm_def)

lemma store_taken: "chunk_taken ctx k s (store_buffer ctx d m (at_offset ctx k s))"
  unfolding chunk_taken_def
  by (intro exI [of _ m] exI [of _ "d_self d"] exI [of _ "(cl_desc s)(d_self d := d)"]) (simp add: store_buffer_def at_offset_def on_rm_def)

lemma rm_take_offset:
  assumes "rc_data_offset (rm_at s ctx) = k" and "k + length ch < 2 ^ 64"
  shows "on_rm ctx (\<lambda>c. c\<lparr>rc_data_offset := to_size (int (rc_data_offset (rm_at s ctx)) + int (length ch))\<rparr>) s = at_offset ctx (k + length ch) s"
proof -
  have "to_size (int k + int (length ch)) = k + length ch" unfolding of_nat_add [symmetric] using assms(2) by (intro to_size_int) simp
  then show ?thesis by (simp add: at_offset_def assms(1))
qed

lemma take_first_chunk:
  fixes s :: "('f, 'z) rm_scheme"
  assumes "sys base hs M s" and "read_so_far ctx bs 0 s" and "length bs < 2 ^ 31" and "j \<le> length bs"
  obtains s' where "rm_take_chunk ctx IOTC_STATE_OK (Some (q, take j bs)) s = Inr (if j < length bs then IOTC_STATE_WANT_READ else IOTC_STATE_OK, s')"
    and "chunk_taken ctx j s s'" and "sys base hs (buffer_blocks ctx s' + M) s'" and "rc_data_buffer (rm_at s' ctx) \<noteq> NULL"
    and "desc_data (cl_desc s' (rc_data_buffer (rm_at s' ctx))) = take j bs"
    and "0 < j \<Longrightarrow> j < length bs \<Longrightarrow> read_so_far ctx bs j s'"
proof -
  let ?c = "rm_at s ctx"
  have c: "rc_data_offset ?c = 0" "rc_resource_size ?c = length bs" "rc_data_buffer ?c = NULL"
    using assms(2) by (auto simp: read_so_far_def Let_def)
  have off: "to_size (int j) = j" using assms(3,4) by (intro to_size_int) simp
  have len: "length (take j bs) = j" using assms(4) by simp
  obtain p m where a: "iotc_alloc sizeof_data_desc (ev_mem s) = (p, m)" by fastforce
  from sys_alloc [OF assms(1) a] have p: "p \<noteq> NULL" "sys base hs (add_mset p M) (s\<lparr>ev_mem := m\<rparr>)" by (simp_all add: sizeof_data_desc_def)
  note f = at_offset_def [symmetric]
  show thesis
  proof (cases "j = length bs")
    case True
    let ?d = "(zeroed_desc p)\<lparr>d_capacity := of_nat j, d_length := of_nat j, d_data_ptr := q, d_bytes := take j bs,
        d_memory_type := IOTC_MEMORY_TYPE_UNMANAGED\<rparr>" and ?s = "at_offset ctx j s"
    let ?s' = "store_buffer ctx ?d m ?s"
    have "rm_take_chunk ctx IOTC_STATE_OK (Some (q, take j bs)) s = Inr (IOTC_STATE_OK, ?s')"
      using True p(1) a off by (simp add: rm_take_chunk_def Let_def c iotc_make_desc_from_buffer_share_def f)
    moreover have "sys base hs (buffer_blocks ctx ?s' + M) ?s'"
      using p by (simp add: sys_store buffer_blocks_def desc_blocks_def zeroed_desc_def)
    moreover have "desc_data ?d = take j bs" using shared_data [of bs] assms(3) True by (simp add: desc_data_def)
    ultimately show thesis using that [of ?s'] True p(1) store_taken [of ctx j s ?d m] by (simp add: zeroed_desc_def)
  next
    case False
    obtain b m2 where a2: "iotc_alloc (length bs) m = (b, m2)" by fastforce
    from sys_alloc [OF p(2), of "length bs" b m2] a2 assms(3) have b: "b \<noteq> NULL" "sys base hs (add_mset b (add_mset p M)) (s\<lparr>ev_mem := m2\<rparr>)" by simp_all
    let ?e = "(zeroed_desc p)\<lparr>d_memory_type := IOTC_MEMORY_TYPE_MANAGED, d_data_ptr := b, d_bytes := replicate (length bs) 0,
        d_length := 0, d_capacity := of_nat (length bs)\<rparr>"
    let ?d = "desc_write ?e (take j bs)" and ?s = "at_offset ctx j s"
    let ?s' = "store_buffer ctx ?d m2 ?s"
    have cap: "unat (of_nat (length bs) :: 32 word) = length bs" using assms(3) by (simp add: unat_of_nat take_bit_eq_mod)
    have inv: "desc_inv ?e" by (simp add: desc_inv_def cap)
    have fit: "unat (d_length ?e) + length (take j bs) \<le> unat (d_capacity ?e)" using assms(4) by (simp add: cap)
    have mk: "iotc_make_empty_desc_alloc (length bs) (ev_mem s) = (Some ?e, m2)" using a a2 p(1) b(1)
      by (simp add: iotc_make_empty_desc_alloc_def Let_def)
    have lt: "length (take j bs) < 2 ^ 63" using assms(3) by simp
    note w = desc_write_spec [OF inv fit] append_fits(2) [OF inv fit lt]
    have "rm_take_chunk ctx IOTC_STATE_OK (Some (q, take j bs)) s = Inr (IOTC_STATE_WANT_READ, ?s')"
      using False p(1) off mk w assms(4) by (simp add: rm_take_chunk_def Let_def c f)
    moreover have "d_self ?d = p" "desc_blocks (Some ?d) = {#p, b#}"
      by (simp_all add: write_keeps zeroed_desc_def) (simp_all add: desc_blocks_def)
    moreover have "sys base hs (add_mset b (add_mset p M)) ?s'" unfolding sys_store by (rule b(2))
    moreover have "desc_data ?e = []" by (simp add: desc_data_def)
    ultimately show thesis using that [of ?s'] p(1) False assms(4) store_taken [of ctx j s ?d m2] w c cap
      by (simp add: buffer_blocks_def read_so_far_def add_mset_commute)
  qed
qed

lemma take_next_chunk:
  fixes s :: "('f, 'z) rm_scheme"
  assumes "sys base hs (buffer_blocks ctx s + M) s" and "read_so_far ctx bs k s" and "0 < k" and "length bs < 2 ^ 31"
    and "k + length ch \<le> length bs" and "take (k + length ch) bs = take k bs @ ch"
  obtains s' where "rm_take_chunk ctx IOTC_STATE_OK (Some (q, ch)) s = Inr (if k + length ch < length bs then IOTC_STATE_WANT_READ else IOTC_STATE_OK, s')"
    and "chunk_taken ctx (k + length ch) s s'" and "sys base hs (buffer_blocks ctx s' + M) s'" and "read_so_far ctx bs (k + length ch) s'"
proof -
  let ?c = "rm_at s ctx" and ?k = "k + length ch"
  let ?b = "rc_data_buffer ?c"
  let ?d = "cl_desc s ?b"
  have c: "rc_data_offset ?c = k" "rc_resource_size ?c = length bs" "?b \<noteq> NULL" "d_self ?d = ?b" "desc_inv ?d"
    "desc_data ?d = take k bs" "unat (d_capacity ?d) = length bs"
    using assms(2,3) by (auto simp: read_so_far_def Let_def)
  have lk: "unat (d_length ?d) = k" using desc_data_length [OF c(5)] c(6) assms(5) by simp
  have fit: "unat (d_length ?d) + length ch \<le> unat (d_capacity ?d)" using assms(5) by (simp add: lk c(7))
  have lt: "length ch < 2 ^ 63" using assms(4,5) by simp
  note w = desc_write_spec [OF c(5) fit] append_fits(1) [OF c(5) fit lt]
  have off: "to_size (int (rc_data_offset ?c) + int (length ch)) = ?k"
    unfolding c(1) of_nat_add [symmetric] by (intro to_size_int) (use assms(4,5) in simp)
  let ?s' = "store_buffer ctx (desc_write ?d ch) (ev_mem s) (at_offset ctx ?k s)"
  have st: "?s' = (at_offset ctx ?k s)\<lparr>ev_mem := ev_mem s, cl_desc := (cl_desc s)(?b := desc_write ?d ch)\<rparr>"
    using c(4) by (simp add: store_buffer_def on_rm_def at_offset_def write_keeps)
  have "rm_take_chunk ctx IOTC_STATE_OK (Some (q, ch)) s = Inr (if ?k < length bs then IOTC_STATE_WANT_READ else IOTC_STATE_OK, ?s')"
    unfolding st using assms(5) c w off by (simp add: rm_take_chunk_def Let_def flip: at_offset_def)
  moreover have "sys base hs (buffer_blocks ctx ?s' + M) ?s'" unfolding sys_store using assms(1) c(3,4)
    by (simp add: buffer_blocks_def write_keeps)
  moreover have "read_so_far ctx bs ?k ?s'" using c w assms(3,5,6) by (simp add: read_so_far_def write_keeps)
  ultimately show thesis using that [of ?s'] store_taken by blast
qed

text \<open>Both together: the buffer grows by the chunk, and is the file when the whole of it was read.\<close>

definition whole_file :: "ptr \<Rightarrow> byte list \<Rightarrow> ('f, 'z) rm_scheme \<Rightarrow> bool" where
  "whole_file ctx bs s \<longleftrightarrow> rc_data_buffer (rm_at s ctx) \<noteq> NULL \<and> desc_data (cl_desc s (rc_data_buffer (rm_at s ctx))) = bs"

lemma take_chunk:
  fixes s :: "('f, 'z) rm_scheme"
  assumes "sys base hs (buffer_blocks ctx s + M) s" and "read_so_far ctx bs k s" and "length bs < 2 ^ 31"
    and "ch = take j (drop k bs)" and "k < length bs \<longrightarrow> 0 < j"
  obtains k' s' where "rm_take_chunk ctx IOTC_STATE_OK (Some (q, ch)) s = Inr (if k' < length bs then IOTC_STATE_WANT_READ else IOTC_STATE_OK, s')"
    and "k' \<le> length bs" and "k \<le> k'" and "k < length bs \<longrightarrow> k < k'"
    and "chunk_taken ctx k' s s'" and "sys base hs (buffer_blocks ctx s' + M) s'"
    and "k' < length bs \<longrightarrow> read_so_far ctx bs k' s'" and "k' = length bs \<longrightarrow> whole_file ctx bs s'"
proof (cases "k = 0")
  case True
  define i where "i = length ch"
  have ch: "ch = take i bs" "i \<le> length bs" "0 < length bs \<Longrightarrow> 0 < i" using assms(4,5) True by (auto simp: i_def min_def)
  have "buffer_blocks ctx s = {#}" using assms(2) True by (simp add: read_so_far_def buffer_blocks_def Let_def)
  with assms(1) have "sys base hs M s" by simp
  then obtain s' where s': "rm_take_chunk ctx IOTC_STATE_OK (Some (q, take i bs)) s = Inr (if i < length bs then IOTC_STATE_WANT_READ else IOTC_STATE_OK, s')"
    "chunk_taken ctx i s s'" "sys base hs (buffer_blocks ctx s' + M) s'" "rc_data_buffer (rm_at s' ctx) \<noteq> NULL"
    "desc_data (cl_desc s' (rc_data_buffer (rm_at s' ctx))) = take i bs" and r: "0 < i \<Longrightarrow> i < length bs \<Longrightarrow> read_so_far ctx bs i s'"
    by (rule take_first_chunk [OF _ assms(2) [unfolded True] assms(3) ch(2), where M = M and q = q]) blast
  have g: "0 < i" if "i < length bs" using that ch(3) by (cases bs) simp_all
  have "whole_file ctx bs s'" if "i = length bs" using s'(4,5) that by (simp add: whole_file_def)
  with s' r g ch True show thesis using that [of i s'] by auto
next
  case False
  have kl: "k \<le> length bs" using assms(2) by (simp add: read_so_far_def Let_def)
  have 1: "k + length ch \<le> length bs" using assms(4) kl by simp
  have 2: "take (k + length ch) bs = take k bs @ ch" using assms(4) by (simp add: take_add min_def)
  have 3: "k < length bs \<Longrightarrow> k < k + length ch" using assms(4,5) by simp
  from False have k: "0 < k" by simp
  obtain s' where s': "rm_take_chunk ctx IOTC_STATE_OK (Some (q, ch)) s = Inr (if k + length ch < length bs then IOTC_STATE_WANT_READ else IOTC_STATE_OK, s')"
    "chunk_taken ctx (k + length ch) s s'" "sys base hs (buffer_blocks ctx s' + M) s'" "read_so_far ctx bs (k + length ch) s'"
    by (rule take_next_chunk [OF assms(1,2) k assms(3) 1 2])
  from s'(4) k have "whole_file ctx bs s'" if "k + length ch = length bs"
    using that by (cases "bs = []") (simp_all add: whole_file_def read_so_far_def Let_def)
  with s' 1 3 show thesis using that [of "k + length ch" s'] by (simp add: le_add1)
qed

section \<open>The coroutine\<close>

definition callback_ready :: "event_handle \<Rightarrow> bool" where
  "callback_ready h \<longleftrightarrow> handle_type h = IOTC_EVENT_HANDLE_ARGC3 \<and> 3 \<le> length (h_args h) \<and> h_args h ! 2 = state_arg IOTC_STATE_OK"

lemma callback_set:
  assumes "callback_ready h"
  shows "iotc_resource_manager_set_callback_state h IOTC_STATE_OK = (IOTC_STATE_OK, h)"
proof -
  have "h\<lparr>h_args := (h_args h)[2 := h_args h ! 2]\<rparr> = h" by simp
  with assms show ?thesis
    by (simp add: callback_ready_def iotc_resource_manager_set_callback_state_def iotc_resource_manager_get_callback_state_def Let_def)
qed

lemma post_keeps:
  fixes s :: "('f, 'z) rm_scheme"
  assumes "iotc_evttd_execute h s = (e, s')"
  shows "rm_at s' = rm_at s" and "cl_desc s' = cl_desc s" and "ev_files s' = ev_files s" and "ev_fd s' = ev_fd s"
    and "rm_files s' = rm_files s" and "rm_functions s' = rm_functions s"
  using assms by (auto simp: iotc_evttd_execute_def iotc_evtd_execute_def
      Let_def iotc_lock_critical_section_def iotc_unlock_critical_section_def split: prod.splits option.splits if_splits)

lemma rm_finish_ok:
  fixes s :: "('f, 'z) rm_scheme"
  assumes "sys base hs M s" and "rc_callback (rm_at s ctx) = h" and "callback_ready h"
  obtains s' where "rm_finish call ctx IOTC_STATE_OK s = (IOTC_STATE_OK, s')" and "sys base (hs @ [h]) M s'"
    and "rm_at s' = (rm_at s)(ctx := (rm_at s ctx)\<lparr>rc_callback := iotc_dispose_handle h, rc_cs := 1\<rparr>)" and "cl_desc s' = cl_desc s"
    and "ev_files s' = ev_files s" and "ev_fd s' = ev_fd s" and "rm_files s' = rm_files s"
proof -
  define s1 where "s1 = on_rm ctx (\<lambda>c. c\<lparr>rc_callback := h\<rparr>) s"
  have sys1: "sys base hs M s1" by (rule sys_cong [OF assms(1)]) (simp_all add: s1_def on_rm_def)
  have f1: "rm_at s1 = rm_at s" "cl_desc s1 = cl_desc s" "ev_files s1 = ev_files s" "ev_fd s1 = ev_fd s" "rm_files s1 = rm_files s"
    using assms(2) by (auto simp: s1_def on_rm_def)
  obtain e s2 where p: "iotc_evttd_execute h s1 = (e, s2)" by fastforce
  from sys_post [OF sys1 p] have e: "e \<noteq> NULL" "sys base (hs @ [h]) M s2" by simp_all
  let ?s' = "set_rm_cs ctx 1 (on_rm ctx (\<lambda>c. c\<lparr>rc_callback := iotc_dispose_handle (rc_callback c)\<rparr>) s2)"
  have "rm_finish call ctx IOTC_STATE_OK s = (IOTC_STATE_OK, ?s')"
    using assms(2) callback_set [OF assms(3)] p e(1) by (simp add: rm_finish_def rm_invoke_callback_def Let_def set_rm_cs_def flip: s1_def)
  moreover have "sys base (hs @ [h]) M ?s'" by (rule sys_cong [OF e(2)]) (simp_all add: set_rm_cs_def on_rm_def)
  ultimately show thesis using post_keeps [OF p] f1 assms(2) by (intro that [of ?s']) (simp_all add: set_rm_cs_def on_rm_def)
qed

text \<open>In the middle of a file and behind its end.\<close>

definition reading :: "(ptr \<rightharpoonup> nat) \<Rightarrow> event_handle list \<Rightarrow> ptr multiset \<Rightarrow> ('f \<Rightarrow> int \<Rightarrow> byte list option) \<Rightarrow> ptr \<Rightarrow> event_handle \<Rightarrow> byte list \<Rightarrow> nat
    \<Rightarrow> ('f, 'z) rm_scheme \<Rightarrow> bool" where
  "reading base hs M content ctx h bs k s \<longleftrightarrow>
     (\<exists>p w. sys base hs (buffer_blocks ctx s + add_mset p M) s \<and> read_so_far ctx bs k s
        \<and> file_registered (rc_resource_handle (rm_at s ctx)) w p s)
     \<and> content (rm_files s) (rc_resource_handle (rm_at s ctx)) = Some bs \<and> readable_files (rm_functions s) content
     \<and> rc_callback (rm_at s ctx) = h"

definition delivered :: "(ptr \<rightharpoonup> nat) \<Rightarrow> event_handle list \<Rightarrow> ptr multiset \<Rightarrow> ptr \<Rightarrow> event_handle \<Rightarrow> byte list \<Rightarrow> ('f, 'z) rm_scheme \<Rightarrow> bool" where
  "delivered base hs M ctx h bs s \<longleftrightarrow> whole_file ctx bs s \<and> sys base (hs @ [h]) (buffer_blocks ctx s + M) s
     \<and> iotc_handle_disposed (rc_callback (rm_at s ctx))
     \<and> (\<forall>q\<in>set (vec_list (ev_files s)). t_fd (ev_fd s q) \<noteq> rc_resource_handle (rm_at s ctx))"

lemma read_round:
  fixes s :: "('f, 'z) rm_scheme"
  assumes "reading base hs M content ctx h bs k s" and "length bs < 2 ^ 31" and "callback_ready h"
    and "rm_read_loop call ctx s = (st, s')"
  shows "st = IOTC_STATE_OK \<and> delivered base hs M ctx h bs s'
    \<or> (\<exists>k'>k. k' < length bs \<and> st = IOTC_STATE_WANT_READ \<and> rc_cs (rm_at s' ctx) = 290 \<and> reading base hs M content ctx h bs k' s')"
proof -
  let ?fd = "rc_resource_handle (rm_at s ctx)"
  obtain p w where sy: "sys base hs (buffer_blocks ctx s + add_mset p M) s" and sf: "read_so_far ctx bs k s" and fr: "file_registered ?fd w p s"
    and ct: "content (rm_files s) ?fd = Some bs" and rf: "readable_files (rm_functions s) content" and cb: "rc_callback (rm_at s ctx) = h"
    using assms(1) by (auto simp: reading_def)
  have off: "rc_data_offset (rm_at s ctx) = k" "k \<le> length bs" using sf by (simp_all add: read_so_far_def Let_def)
  from readable_files.read_chunk [OF rf ct off(2)] obtain q j f where rd: "read_resource (rm_functions s) ?fd k (rm_files s) =
      (IOTC_STATE_OK, Some (q, take j (drop k bs)), f)" and j: "k < length bs \<longrightarrow> 0 < j" and cf: "content f = content (rm_files s)" by blast
  let ?s1 = "s\<lparr>rm_files := f\<rparr>"
  have bb: "buffer_blocks ctx ?s1 = buffer_blocks ctx s" by (simp add: buffer_blocks_def)
  have sy1: "sys base hs (buffer_blocks ctx ?s1 + add_mset p M) ?s1" unfolding bb by (rule sys_cong [OF sy]) simp_all
  have sf1: "read_so_far ctx bs k ?s1" using sf by (simp add: read_so_far_def)
  obtain k' s2 where tc: "rm_take_chunk ctx IOTC_STATE_OK (Some (q, take j (drop k bs))) ?s1 =
      Inr (if k' < length bs then IOTC_STATE_WANT_READ else IOTC_STATE_OK, s2)"
    and k': "k' \<le> length bs" "k \<le> k'" "k < length bs \<longrightarrow> k < k'" and tk: "chunk_taken ctx k' ?s1 s2"
    and sy2: "sys base hs (buffer_blocks ctx s2 + add_mset p M) s2"
    and sf2: "k' < length bs \<longrightarrow> read_so_far ctx bs k' s2" and wh: "k' = length bs \<longrightarrow> whole_file ctx bs s2"
    by (rule take_chunk [OF sy1 sf1 assms(2) refl j, where q = q]) (rule that)
  from tk obtain m b e where s2: "s2 = ?s1\<lparr>ev_mem := m, cl_desc := e,
      rm_at := (rm_at s)(ctx := (rm_at s ctx)\<lparr>rc_data_offset := k', rc_data_buffer := b\<rparr>)\<rparr>" by (auto simp: chunk_taken_def)
  have f2: "rc_resource_handle (rm_at s2 ctx) = ?fd" "rc_callback (rm_at s2 ctx) = h" "rm_files s2 = f" "rm_functions s2 = rm_functions s"
    "file_registered ?fd w p s2" by (simp_all add: s2 cb) (use fr in \<open>simp add: file_registered_def s2\<close>)
  show ?thesis
  proof (cases "k' < length bs")
    case True
    let ?s3 = "set_rm_cs ctx 290 s2"
    have "rm_read_loop call ctx s = (IOTC_STATE_WANT_READ, ?s3)" using True by (simp add: rm_read_loop_def off rd tc)
    with assms(4) have r: "st = IOTC_STATE_WANT_READ" "s' = ?s3" by simp_all
    have b3: "buffer_blocks ctx ?s3 = buffer_blocks ctx s2" by (simp add: buffer_blocks_def set_rm_cs_def on_rm_def)
    have "sys base hs (buffer_blocks ctx ?s3 + add_mset p M) ?s3" unfolding b3 by (rule sys_cong [OF sy2]) (simp_all add: set_rm_cs_def on_rm_def)
    moreover have "read_so_far ctx bs k' ?s3" using sf2 True by (auto simp: read_so_far_def set_rm_cs_def on_rm_def Let_def)
    moreover have "file_registered ?fd w p ?s3" using f2(5) by (simp add: file_registered_def set_rm_cs_def on_rm_def)
    moreover have "rc_resource_handle (rm_at ?s3 ctx) = ?fd" "rc_callback (rm_at ?s3 ctx) = h" "rm_files ?s3 = f" "rm_functions ?s3 = rm_functions s"
      "rc_cs (rm_at ?s3 ctx) = 290" using f2 by (simp_all add: set_rm_cs_def on_rm_def)
    ultimately show ?thesis using True k' rf ct cf unfolding r reading_def by auto
  next
    case False
    with k' have kl: "k' = length bs" by simp
    from unregister_file [OF sys_lock_free [OF sy2] f2(5)] obtain v where u: "iotc_evtd_unregister_file_fd ?fd s2 =
        (1, s2\<lparr>ev_mem := IOTC_SAFE_FREE p (ev_mem s2), ev_files := v\<rparr>)" and v: "\<forall>q\<in>set (vec_list v). t_fd (ev_fd s2 q) \<noteq> ?fd" by blast
    define s3 where "s3 = s2\<lparr>ev_mem := IOTC_SAFE_FREE p (ev_mem s2), ev_files := v\<rparr>"
    have "sys base hs (buffer_blocks ctx s2 + M) (on_mem (IOTC_SAFE_FREE p) s2)" by (rule sys_free) (use sy2 in simp)
    then have sy3: "sys base hs (buffer_blocks ctx s2 + M) s3" by (rule sys_cong) (simp_all add: s3_def on_mem_def)
    have cb3: "rc_callback (rm_at s3 ctx) = h" using f2 by (simp add: s3_def)
    obtain s4 where fin: "rm_finish call ctx IOTC_STATE_OK s3 = (IOTC_STATE_OK, s4)" "sys base (hs @ [h]) (buffer_blocks ctx s2 + M) s4"
      and f4: "rm_at s4 = (rm_at s3)(ctx := (rm_at s3 ctx)\<lparr>rc_callback := iotc_dispose_handle h, rc_cs := 1\<rparr>)" "cl_desc s4 = cl_desc s3"
        "ev_files s4 = ev_files s3" "ev_fd s4 = ev_fd s3" "rm_files s4 = rm_files s3" by (rule rm_finish_ok [OF sy3 cb3 assms(3)])
    have "rm_read_loop call ctx s = (IOTC_STATE_OK, s4)"
      using False fin(1) by (simp add: rm_read_loop_def off rd tc rm_unregister_def f2 u s3_def)
    with assms(4) have r: "st = IOTC_STATE_OK" "s' = s4" by simp_all
    have at4: "rm_at s4 ctx = (rm_at s2 ctx)\<lparr>rc_callback := iotc_dispose_handle h, rc_cs := 1\<rparr>" "cl_desc s4 = cl_desc s2"
      "ev_files s4 = v" "ev_fd s4 = ev_fd s2" by (simp_all add: f4 s3_def)
    have "buffer_blocks ctx s4 = buffer_blocks ctx s2" by (simp add: buffer_blocks_def at4)
    with fin(2) have "sys base (hs @ [h]) (buffer_blocks ctx s4 + M) s4" by simp
    moreover have "whole_file ctx bs s4" using wh kl by (simp add: whole_file_def at4)
    moreover have "iotc_handle_disposed (iotc_dispose_handle h)" by (simp add: iotc_handle_disposed_def iotc_dispose_handle_def zeroed_handle_def)
    ultimately show ?thesis using v f2 by (simp add: r delivered_def at4)
  qed
qed

section \<open>A file is collected\<close>

text \<open>The dispatcher calls the registered handle in every round as long as the coroutine waits.\<close>

primrec read_rounds :: "('f, 'z) rm_caller \<Rightarrow> ptr \<Rightarrow> nat \<Rightarrow> ('f, 'z) rm_scheme \<Rightarrow> iotc_state \<times> ('f, 'z) rm_scheme" where
  "read_rounds call ctx 0 s = (IOTC_STATE_WANT_READ, s)"
| "read_rounds call ctx (Suc n) s =
     (case iotc_resource_manager_read_coroutine call ctx s of (st, s1) \<Rightarrow>
        if st = IOTC_STATE_WANT_READ then read_rounds call ctx n s1 else (st, s1))"

lemma rounds_deliver:
  fixes s :: "('f, 'z) rm_scheme"
  assumes "reading base hs M content ctx h bs k s" and "rc_cs (rm_at s ctx) = 290" and "k < length bs" and "length bs < 2 ^ 31"
    and "callback_ready h" and "length bs \<le> k + n"
  shows "\<exists>s'. read_rounds call ctx n s = (IOTC_STATE_OK, s') \<and> delivered base hs M ctx h bs s'"
  using assms(1-3,6)
proof (induction n arbitrary: k s)
  case (Suc n)
  obtain st s1 where l: "rm_read_loop call ctx s = (st, s1)" by fastforce
  have c: "iotc_resource_manager_read_coroutine call ctx s = (st, s1)"
    by (simp add: iotc_resource_manager_read_coroutine_def Suc.prems(2) l)
  from read_round [OF Suc.prems(1) assms(4,5) l] show ?case
  proof (elim disjE exE conjE)
    fix k' assume "k < k'" and k': "k' < length bs" "st = IOTC_STATE_WANT_READ" "rc_cs (rm_at s1 ctx) = 290" "reading base hs M content ctx h bs k' s1"
    with Suc.prems(4) have "length bs \<le> k' + n" by simp
    from Suc.IH [OF k'(4,3,1) this] show ?case by (simp add: c k'(2))
  qed (simp add: c)
qed simp

text \<open>
  C13. A file is read into one buffer. On every file system that keeps the contract of a readable one, in whatever chunks it gives, the
  coroutine ends after at most one round more than the file has bytes: the buffer of the context then is the file, the callback
  is queued once with its state OK, the context is free for the next request and the handle of the file is no longer registered.
\<close>

theorem rm_read_collects_file:
  fixes s :: "('f, 'z) rm_scheme"
  assumes "readable_files (rm_functions s) content" and "content (rm_files s) (rc_resource_handle (rm_at s ctx)) = Some bs"
    and "rc_resource_size (rm_at s ctx) = length bs" and "length bs < 2 ^ 31" and "rc_data_buffer (rm_at s ctx) = NULL"
    and "rc_cs (rm_at s ctx) \<noteq> 290" and "callback_ready (rc_callback (rm_at s ctx))"
    and "sys base hs M s" and "file_free base (rc_resource_handle (rm_at s ctx)) s" and "distinct (vec_list (ev_files s))"
  shows "\<exists>s'. read_rounds call ctx (Suc (length bs)) s = (IOTC_STATE_OK, s')
    \<and> delivered base hs M ctx (rc_callback (rm_at s ctx)) bs s'"
proof -
  let ?fd = "rc_resource_handle (rm_at s ctx)" and ?h = "rc_callback (rm_at s ctx)" and ?w = "iotc_make_handle_argc1 IOTC_THREADID_MAINTHREAD fn_rm_read_coroutine ctx"
  define s1 where "s1 = at_offset ctx 0 s"
  have sy1: "sys base hs M s1" by (rule sys_cong [OF assms(8)]) (simp_all add: s1_def at_offset_def on_rm_def)
  have f1: "file_free base ?fd s1" "distinct (vec_list (ev_files s1))" using assms(9,10) by (simp_all add: file_free_def s1_def at_offset_def on_rm_def)
  obtain s2 p where r: "iotc_evtd_register_file_fd IOTC_EVENT_WANT_READ ?fd ?w s1 = (1, s2)"
    and sy2: "sys base hs (add_mset p M) s2" and fr: "file_registered ?fd ?w p s2"
    and at2: "rm_at s2 = rm_at s1" "rm_files s2 = rm_files s1" "rm_functions s2 = rm_functions s1"
    by (rule register_file [OF sy1 f1, of IOTC_EVENT_WANT_READ ?w]) (rule that, assumption+, simp_all)
  have at1: "rm_at s1 ctx = (rm_at s ctx)\<lparr>rc_data_offset := 0\<rparr>" "rm_files s1 = rm_files s" "rm_functions s1 = rm_functions s"
    by (simp_all add: s1_def) (simp_all add: at_offset_def on_rm_def)
  obtain st s3 where l: "rm_read_loop call ctx s2 = (st, s3)" by fastforce
  have c: "iotc_resource_manager_read_coroutine call ctx s = (st, s3)"
    using assms(6) r l at1(1) by (simp add: iotc_resource_manager_read_coroutine_def rm_register_def flip: s1_def at_offset_def)
  have "reading base hs M content ctx ?h bs 0 s2" unfolding reading_def
    using sy2 fr assms(1-3,5) at1 at2 by (auto simp: buffer_blocks_def read_so_far_def)
  from read_round [OF this assms(4,7) l] show ?thesis
  proof (elim disjE exE conjE)
    fix k' assume k': "0 < k'" "k' < length bs" "st = IOTC_STATE_WANT_READ" "rc_cs (rm_at s3 ctx) = 290" "reading base hs M content ctx ?h bs k' s3"
    from rounds_deliver [OF k'(5,4,2) assms(4,7), of "length bs"] show ?thesis by (simp add: c k'(3))
  qed (simp add: c)
qed

definition example_files :: fs_memory where
  "example_files = \<lparr>fm_database = [\<lparr>fe_file_name = ''a'', fe_memory_ptr = 9, fe_open_counter = 1, fe_open = True\<rparr>], fm_RootCA_list = [7, 8, 9],
     fm_RootCA_ptr = 9, fm_bad = False\<rparr>"

definition example_handle :: event_handle where
  "example_handle = iotc_make_handle_argc3 IOTC_THREADID_MAINTHREAD 99 3 4 (state_arg IOTC_STATE_OK)"

definition example_rm :: "'f fs_functions \<Rightarrow> 'f \<Rightarrow> nat \<Rightarrow> 'f rm" where
  "example_rm fs f cs = io_net.extend (io_net.truncate ((example_io [] (example_world 1) zeroed_handle)\<lparr>ev_files := small_vec\<rparr>))
     (rm.fields (\<lambda>p. zeroed_rm_context\<lparr>rc_callback := example_handle, rc_resource_size := 3, rc_cs := cs\<rparr>) (- 1) fs f (\<lambda>p. ''a''))"

lemma example_rm_simps [simp]:
  "rm_at (example_rm fs f cs) = (\<lambda>p. zeroed_rm_context\<lparr>rc_callback := example_handle, rc_resource_size := 3, rc_cs := cs\<rparr>)"
  "rm_functions (example_rm fs f cs) = fs" "rm_files (example_rm fs f cs) = f" "ev_files (example_rm fs f cs) = small_vec"
  by (simp_all add: example_rm_def rm.defs io_net.defs)

lemma example_rm_sys: "sys Map.empty [] {#} (example_rm fs f cs)"
  using example_io_sys [of "[]" "example_world 1" zeroed_handle] by (simp add: sys_def lock_free_def example_rm_def rm.defs io_net.defs)

theorem rm_read_collects_file_witness:
  "\<exists>s'. read_rounds (\<lambda>f args s. (IOTC_STATE_OK, s)) 3 4 (example_rm memory_fs example_files 0) = (IOTC_STATE_OK, s')
    \<and> delivered Map.empty [] {#} 3 example_handle [7, 8, 9] s'"
proof -
  let ?s = "example_rm memory_fs example_files 0"
  have f: "readable_files (rm_functions ?s) memory_content" using memory_files.readable_files_axioms by simp
  have c: "memory_content (rm_files ?s) (rc_resource_handle (rm_at ?s 3)) = Some [7, 8, 9]"
    by (simp add: memory_content_def example_files_def fs_entry_def zeroed_rm_context_def)
  have sv: "vec_inv small_vec" "vec_list small_vec = []" by (simp_all add: vec_inv_def small_vec_def vec_list_def)
  have "callback_ready example_handle" by (simp add: callback_ready_def example_handle_def iotc_make_handle_argc3_def)
  moreover have "file_free Map.empty 0 ?s" using sv by (simp add: file_free_def small_vec_def)
  ultimately have "\<exists>s'. read_rounds (\<lambda>f args s. (IOTC_STATE_OK, s)) 3 (Suc (length [7 :: byte, 8, 9])) ?s = (IOTC_STATE_OK, s')
      \<and> delivered Map.empty [] {#} 3 (rc_callback (rm_at ?s 3)) [7, 8, 9] s'"
    by (intro rm_read_collects_file [OF f c]) (simp_all add: zeroed_rm_context_def sv example_rm_sys)
  moreover have "Suc (length [7 :: byte, 8, 9]) = 4" by simp
  moreover have "rc_callback (rm_at ?s 3) = example_handle" by simp
  ultimately show ?thesis by (simp only:)
qed

text \<open>
  An error of the file system before the end of the file is not reported: whatever a read gives other than OK, with a buffer of bytes or without, as
  long as fewer bytes came than the size of the file, the coroutine waits as if there was more to come and calls nobody.
\<close>

theorem rm_read_error_retried:
  fixes s :: "('f, 'z) rm_scheme"
  assumes "rc_cs (rm_at s ctx) = 290" and "read_resource (rm_functions s) (rc_resource_handle (rm_at s ctx)) (rc_data_offset (rm_at s ctx)) (rm_files s) = (e, None, f)"
    and "e \<noteq> IOTC_STATE_OK" and "e \<noteq> IOTC_STATE_WANT_READ"
    and "rc_data_offset (rm_at s ctx) < rc_resource_size (rm_at s ctx)" and "rc_resource_size (rm_at s ctx) < 2 ^ 63"
  shows "iotc_resource_manager_read_coroutine call ctx s = (IOTC_STATE_WANT_READ, s\<lparr>rm_files := f\<rparr>)"
proof -
  have "to_size (int (rc_data_offset (rm_at s ctx))) = rc_data_offset (rm_at s ctx)" using assms(5,6) by (intro to_size_int) simp
  moreover have "(rm_at s)(ctx := (rm_at s ctx)\<lparr>rc_cs := 290\<rparr>) = rm_at s" using assms(1) by (cases "rm_at s ctx") auto
  ultimately show ?thesis using assms
    by (simp add: iotc_resource_manager_read_coroutine_def rm_read_loop_def rm_take_chunk_def Let_def set_rm_cs_def on_rm_def)
qed

theorem rm_read_error_retried_witness:
  "let s = example_rm (memory_fs\<lparr>read_resource := \<lambda>h offset f. (IOTC_FS_ERROR, None, f)\<rparr>) example_files 290
   in iotc_resource_manager_read_coroutine (\<lambda>f args s. (IOTC_STATE_OK, s)) 3 s = (IOTC_STATE_WANT_READ, s\<lparr>rm_files := example_files\<rparr>)"
  unfolding Let_def by (rule rm_read_error_retried [where e = IOTC_FS_ERROR]) (simp_all add: zeroed_rm_context_def)

end
