(* ===== verification/Iotc_Tls_Handlers.thy ===== *)
theory Iotc_Tls_Handlers
  imports Iotc_Tls_Channel Iotc_Resource_Read
begin

text \<open>
  What the handlers of the TLS layer do with the answers of the library, how the certificates get to it, and what closing releases.
\<close>

section \<open>Any library\<close>

text \<open>
  C6. The layer is a channel for every TLS library: whatever callbacks a call makes, it reads the received bytes in order, each once,
  over the boundaries of the buffers, which are released when they are read; what it sends is passed to the layer below byte for byte, at most one
  buffer at a time, and is confirmed to it only after the layer below confirmed it. No block is lost.
\<close>

theorem tls_library_refines_channel:
  fixes s :: "('f, 'l, 'z) tls_scheme"
  assumes "channel context s inp ph" and "sys base hs (raw_blocks s + M) s" and "run_tls context t s = (r, s')"
  shows "\<exists>inp' ph' out ds. channel_run t inp ph r inp' ph' out \<and> channel context s' inp' ph' \<and> length ds \<le> 1 \<and> (\<exists>got. inp = got @ inp')
    \<and> sys base (hs @ map (push_call context s) ds) (raw_blocks s' + (mset ds + M)) s' \<and> list_all2 (carries (cl_desc s')) ds out"
proof -
  from library_run [OF assms] obtain inp' ph' out ds where o: "channel_run t inp ph r inp' ph' out" "channel context s' inp' ph'"
    "sys base (hs @ map (push_call context s) ds) (raw_blocks s' + (mset ds + M)) s'" "list_all2 (carries (cl_desc s')) ds out" by blast
  from one_write [OF o(1)] list_all2_lengthD [OF o(4)] have "length ds \<le> 1" by simp
  with reads_prefix [OF o(1)] o show ?thesis by blast
qed

section \<open>Reading\<close>

text \<open>The calls of the layer itself after the library returned.\<close>

definition rest_calls :: "ptr \<Rightarrow> ('f, 'l, 'z) tls_scheme \<Rightarrow> layer_call list" where
  "rest_calls context s =
     (if tl_raw_buffer (tl_data s) \<noteq> [] \<or> iotc_bsp_tls_pending (tl_lib s) (tl_context (tl_data s)) (tl_lib_state s) > 0
      then [(This, F_pull, NULL, IOTC_STATE_WANT_READ)] else [])"

lemma sys_on_tls [simp]: "sys base hs M (on_tls f s) = sys base hs M s" "sys base hs M (s\<lparr>tl_lib_state := l\<rparr>) = sys base hs M s"
  by (simp_all add: on_tls_def sys_def lock_free_def)

lemma on_tls_simps [simp]: "ly_at (on_tls f s) = ly_at s" "cl_desc (on_tls f s) = cl_desc s" "tl_data (on_tls f s) = f (tl_data s)"
  "tl_lib (on_tls f s) = tl_lib s" "tl_lib_state (on_tls f s) = tl_lib_state s" "ev_mem (on_tls f s) = ev_mem s"
  by (simp_all add: on_tls_def)

lemma pull_rest:
  fixes s :: "('f, 'l, 'z) tls_scheme"
  assumes "sys base hs M s" and "neighbour_ok context s This"
  shows "sys base (hs @ map (call_handle context s) (rest_calls context s)) M (tls_pull_rest context s)
    \<and> ly_at (tls_pull_rest context s) = ly_at s \<and> cl_desc (tls_pull_rest context s) = cl_desc s \<and> tl_data (tls_pull_rest context s) = tl_data s"
proof -
  obtain r s1 where p: "IOTC_LAYER_CONTINUE_WITH This (layer_target F_pull) context NULL IOTC_STATE_WANT_READ s = (r, s1)" by fastforce
  from sys_continue [OF assms p] continue_tls_frame [OF p] p show ?thesis using assms(1) by (auto simp: tls_pull_rest_def rest_calls_def)
qed

lemma layer_posts:
  fixes s :: "('f, 'l, 'z) tls_scheme"
  assumes "sys base hs M s" and "neighbour_ok context s d"
  shows "\<exists>s'. IOTC_LAYER_CONTINUE_WITH d (layer_target f) context x st s = (IOTC_STATE_OK, s') \<and> sys base (hs @ [call_handle context s (d, f, x, st)]) M s'
    \<and> cl_desc s' = cl_desc s \<and> tl_data s' = tl_data s"
proof -
  obtain r s' where p: "IOTC_LAYER_CONTINUE_WITH d (layer_target f) context x st s = (r, s')" by fastforce
  from sys_continue [OF assms p] continue_tls_frame [OF p] p show ?thesis by auto
qed

definition reads_into :: "ptr \<Rightarrow> ('f, 'l, 'z) tls_scheme \<Rightarrow> tls_state \<Rightarrow> byte list \<Rightarrow> 'l \<Rightarrow> ('f, 'l, 'z) tls_scheme \<Rightarrow> bool" where
  "reads_into context s ret bs l s1 \<longleftrightarrow>
     (let d = cl_desc s (tl_decoded_buffer (tl_data s)); n = unat (d_capacity d - d_length d)
      in run_tls context (iotc_bsp_tls_read (tl_lib s) (tl_context (tl_data s)) n (tl_lib_state s)) s = ((ret, bs, l), s1) \<and> length bs \<le> n)"

definition decoding :: "('f, 'l, 'z) tls_scheme \<Rightarrow> bool" where
  "decoding s \<longleftrightarrow> (let p = tl_decoded_buffer (tl_data s) in p \<noteq> NULL \<and> d_self (cl_desc s p) = p \<and> desc_inv (cl_desc s p))"

abbreviation (input) decoded :: "('f, 'l, 'z) tls_scheme \<Rightarrow> data_desc" where
  "decoded s \<equiv> cl_desc s (tl_decoded_buffer (tl_data s))"

text \<open>What follows from an answer of the library: a read that waits keeps its buffer, one that succeeded hands it to the layer above, one that failed
  releases it and closes the connection. \<open>ds\<close> are the buffers that were sent on the way.\<close>

definition read_outcome ::
    "(ptr \<rightharpoonup> nat) \<Rightarrow> event_handle list \<Rightarrow> ptr multiset \<Rightarrow> ptr \<Rightarrow> ('f, 'l, 'z) tls_scheme \<Rightarrow> tls_state \<Rightarrow> byte list \<Rightarrow> 'l \<Rightarrow> ('f, 'l, 'z) tls_scheme
      \<Rightarrow> ptr list \<Rightarrow> iotc_state \<Rightarrow> ('f, 'l, 'z) tls_scheme \<Rightarrow> bool" where
  "read_outcome base hs M context s ret bs l s1 ds st s' \<longleftrightarrow>
     (let p = tl_decoded_buffer (tl_data s); M1 = raw_blocks s1 + mset ds + M; hs1 = hs @ map (push_call context s) ds
      in if ret = IOTC_BSP_TLS_STATE_WANT_READ then
           st = IOTC_STATE_WANT_READ \<and> desc_data (cl_desc s' p) = desc_data (cl_desc s p) @ bs \<and> tl_decoded_buffer (tl_data s') = p
           \<and> sys base hs1 (desc_blocks (Some (cl_desc s' p)) + M1) s'
         else if ret = IOTC_BSP_TLS_STATE_OK then
           st = IOTC_STATE_OK \<and> desc_data (cl_desc s' p) = desc_data (cl_desc s p) @ bs \<and> tl_decoded_buffer (tl_data s') = NULL
           \<and> sys base (hs1 @ map (call_handle context s) (rest_calls context (s1\<lparr>tl_lib_state := l\<rparr>) @ [(Next, F_pull, p, IOTC_STATE_OK)]))
               (desc_blocks (Some (cl_desc s' p)) + M1) s'
         else
           st = IOTC_STATE_OK \<and> tl_decoded_buffer (tl_data s') = NULL
           \<and> sys base (hs1 @ [call_handle context s (This, F_close, NULL, IOTC_TLS_READ_ERROR)]) M1 s')"

lemma recv_into_step:
  fixes s :: "('f, 'l, 'z) tls_scheme"
  assumes c: "channel context s inp ph" and sy: "sys base hs (raw_blocks s + (desc_blocks (Some (decoded s)) + M)) s" and dc: "decoding s"
    and rd: "reads_into context s ret bs l s1" and nb: "neighbour_ok context s This" "neighbour_ok context s Next"
    and r: "recv_into context s = (st, s')"
  shows "\<exists>inp' ph' ds. channel context s1 inp' ph' \<and> (\<exists>got. inp = got @ inp') \<and> length ds \<le> 1
    \<and> read_outcome base hs M context s ret bs l s1 ds st s'"
proof -
  let ?p = "tl_decoded_buffer (tl_data s)"
  let ?d = "cl_desc s ?p"
  have d: "?p \<noteq> NULL" "d_self ?d = ?p" "desc_inv ?d" using dc by (simp_all add: decoding_def Let_def)
  have rn: "run_tls context (iotc_bsp_tls_read (tl_lib s) (tl_context (tl_data s)) (unat (d_capacity ?d - d_length ?d)) (tl_lib_state s)) s
      = ((ret, bs, l), s1)" and len: "length bs \<le> unat (d_capacity ?d - d_length ?d)" using rd by (simp_all add: reads_into_def Let_def)
  from library_run [OF c sy rn] obtain inp' ph' out ds where o: "channel_run (iotc_bsp_tls_read (tl_lib s) (tl_context (tl_data s))
        (unat (d_capacity ?d - d_length ?d)) (tl_lib_state s)) inp ph (ret, bs, l) inp' ph' out" "channel context s1 inp' ph'"
    "sys base (hs @ map (push_call context s) ds) (raw_blocks s1 + (mset ds + (desc_blocks (Some ?d) + M))) s1"
    "list_all2 (carries (cl_desc s1)) ds out" "run_frame (desc_blocks (Some ?d) + M) s s1" by blast
  have la: "ly_at s1 = ly_at s" and d1: "cl_desc s1 ?p = ?d" and p1: "tl_decoded_buffer (tl_data s1) = ?p"
    using o(5) d(2) by (auto simp: run_frame_def desc_blocks_def)
  have fit: "unat (d_length ?d) + length bs \<le> unat (d_capacity ?d)" using len d(3) by (simp add: unat_sub desc_inv_def word_le_nat_alt) arith
  note w = desc_write_spec [OF d(3) fit]
  have lb: "unat (d_length ?d) + length bs \<le> length (d_bytes ?d)" using fit d(3) by (simp add: desc_inv_def)
  define s2 where "s2 = s1\<lparr>tl_lib_state := l, cl_desc := (cl_desc s1)(?p := desc_write ?d bs)\<rparr>"
  have f2: "cl_desc s2 = (cl_desc s1)(?p := desc_write ?d bs)" "tl_data s2 = tl_data s1" "ly_at s2 = ly_at s" "tl_lib s2 = tl_lib s1" "tl_lib_state s2 = l"
    by (simp_all add: s2_def la)
  have db: "desc_blocks (Some (desc_write ?d bs)) = desc_blocks (Some ?d)" by (simp add: write_keeps)
  have sy2: "sys base (hs @ map (push_call context s) ds) (raw_blocks s1 + (mset ds + (desc_blocks (Some ?d) + M))) s2"
    by (rule sys_cong [OF o(3)]) (simp_all add: s2_def)
  have e2: "on_mem (memcpy_check (unat (d_length ?d) + length bs) (length (d_bytes ?d))) s2 = s2"
    using lb by (simp add: on_mem_def memcpy_check_def)
  have rr: "recv_into context s = (if ret = IOTC_BSP_TLS_STATE_WANT_READ then (IOTC_STATE_WANT_READ, on_tls (\<lambda>d. d\<lparr>tl_recv_cs := 316\<rparr>) s2)
      else if ret \<noteq> IOTC_BSP_TLS_STATE_OK then recv_failed context IOTC_TLS_READ_ERROR s2
      else IOTC_PROCESS_PULL_ON_NEXT_LAYER context ?p IOTC_STATE_OK (on_tls (\<lambda>d. d\<lparr>tl_recv_cs := 1\<rparr>)
        (tls_pull_rest context (on_tls (\<lambda>d. d\<lparr>tl_decoded_buffer := NULL\<rparr>) s2))))"
    unfolding recv_into_def Let_def rn prod.case d1 s2_def [symmetric] e2 ..
  note common = o(2) reads_prefix [OF o(1)] one_write [OF o(1)] list_all2_lengthD [OF o(4)]
  consider (want) "ret = IOTC_BSP_TLS_STATE_WANT_READ" | (ok) "ret = IOTC_BSP_TLS_STATE_OK"
    | (err) "ret \<noteq> IOTC_BSP_TLS_STATE_WANT_READ" "ret \<noteq> IOTC_BSP_TLS_STATE_OK" by blast
  then show ?thesis
  proof cases
    case want
    with rr r have x: "st = IOTC_STATE_WANT_READ" "s' = on_tls (\<lambda>d. d\<lparr>tl_recv_cs := 316\<rparr>) s2" by simp_all
    show ?thesis using common sy2 want w by (intro exI [of _ inp'] exI [of _ ph'] exI [of _ ds]) (simp add: read_outcome_def Let_def x f2 p1 db ac_simps)
  next
    case ok
    define s3 where "s3 = on_tls (\<lambda>d. d\<lparr>tl_decoded_buffer := NULL\<rparr>) s2"
    have f3: "ly_at s3 = ly_at s" "cl_desc s3 = cl_desc s2" "tl_decoded_buffer (tl_data s3) = NULL" by (simp_all add: s3_def f2)
    have rc: "rest_calls context s3 = rest_calls context (s1\<lparr>tl_lib_state := l\<rparr>)" by (simp add: rest_calls_def s3_def f2)
    have sy3: "sys base (hs @ map (push_call context s) ds) (raw_blocks s1 + (mset ds + (desc_blocks (Some ?d) + M))) s3" using sy2 by (simp add: s3_def)
    note l3 = layers_upd [OF nb(1) f3(1)]
    have ch: "call_handle context s3 = call_handle context s" by (rule ext) (rule l3(2))
    note pr = pull_rest [OF sy3 l3(1), unfolded ch]
    define s4 where "s4 = on_tls (\<lambda>d. d\<lparr>tl_recv_cs := Suc 0\<rparr>) (tls_pull_rest context s3)"
    have f4: "ly_at s4 = ly_at s" "cl_desc s4 = cl_desc s2" "tl_decoded_buffer (tl_data s4) = NULL" using pr by (simp_all add: s4_def f3)
    note l4 = layers_upd [OF nb(2) f4(1)]
    have sy4: "sys base ((hs @ map (push_call context s) ds) @ map (call_handle context s) (rest_calls context s3))
        (raw_blocks s1 + (mset ds + (desc_blocks (Some ?d) + M))) s4" using pr by (simp add: s4_def)
    from layer_posts [OF sy4 l4(1), of F_pull ?p IOTC_STATE_OK] obtain s5 where
      p5: "IOTC_LAYER_CONTINUE_WITH Next (layer_target F_pull) context ?p IOTC_STATE_OK s4 = (IOTC_STATE_OK, s5)"
      "sys base (((hs @ map (push_call context s) ds) @ map (call_handle context s) (rest_calls context s3)) @ [call_handle context s (Next, F_pull, ?p, IOTC_STATE_OK)])
        (raw_blocks s1 + (mset ds + (desc_blocks (Some ?d) + M))) s5" "cl_desc s5 = cl_desc s4" "tl_data s5 = tl_data s4" unfolding l4(2) by blast
    from rr r ok p5(1) have x: "st = IOTC_STATE_OK" "s' = s5" by (simp_all flip: s3_def s4_def)
    show ?thesis using common p5(2) ok w by (intro exI [of _ inp'] exI [of _ ph'] exI [of _ ds]) (simp add: read_outcome_def Let_def x p5(3,4) f4 f2 db rc ac_simps)
  next
    case err
    define s3 where "s3 = on_tls (\<lambda>d. d\<lparr>tl_recv_cs := 2\<rparr>) s2"
    have sy3: "sys base (hs @ map (push_call context s) ds) (desc_blocks (Some (cl_desc s3 ?p)) + (raw_blocks s1 + (mset ds + M))) s3"
      using sy2 by (simp add: s3_def f2 db ac_simps)
    have p3: "tl_decoded_buffer (tl_data s3) = ?p" by (simp add: s3_def f2 p1)
    define s4 where "s4 = on_tls (\<lambda>d. d\<lparr>tl_decoded_buffer := NULL\<rparr>) (free_data_desc ?p s3)"
    have sy4: "sys base (hs @ map (push_call context s) ds) (raw_blocks s1 + (mset ds + M)) s4" using sys_free_desc [OF sy3 d(1)] by (simp add: s4_def)
    have f4: "ly_at s4 = ly_at s" "tl_decoded_buffer (tl_data s4) = NULL" by (simp_all add: s4_def s3_def f2 free_data_desc_def on_mem_def)
    note l4 = layers_upd [OF nb(1) f4(1)]
    from layer_posts [OF sy4 l4(1), of F_close NULL IOTC_TLS_READ_ERROR] obtain s5 where
      p5: "IOTC_LAYER_CONTINUE_WITH This (layer_target F_close) context NULL IOTC_TLS_READ_ERROR s4 = (IOTC_STATE_OK, s5)"
      "sys base ((hs @ map (push_call context s) ds) @ [call_handle context s (This, F_close, NULL, IOTC_TLS_READ_ERROR)]) (raw_blocks s1 + (mset ds + M)) s5"
      "tl_data s5 = tl_data s4" unfolding l4(2) by blast
    from rr r err p5(1) have x: "st = IOTC_STATE_OK" "s' = s5" by (simp_all add: recv_failed_def Let_def p3 flip: s3_def s4_def)
    show ?thesis using common p5(2) err by (intro exI [of _ inp'] exI [of _ ph'] exI [of _ ds]) (simp add: read_outcome_def Let_def x p5(3) f4 ac_simps)
  qed
qed

text \<open>
  C12. Reading over TLS: the plain bytes that the library gives are appended to the buffer of the layer. When the library has to wait, the buffer is
  kept; when it succeeds, the layer first asks itself again if anything is left and then hands the buffer up; on
  an error it releases the buffer and closes the connection. The received bytes stay in order throughout and no block is lost.
\<close>

theorem tls_read_answered:
  fixes s :: "('f, 'l, 'z) tls_scheme"
  assumes "channel context s inp ph" and "sys base hs (raw_blocks s + (desc_blocks (Some (decoded s)) + M)) s" and "decoding s"
    and "reads_into context s ret bs l s1" and "neighbour_ok context s This" and "neighbour_ok context s Next"
    and "\<not> tls_not_operational context s" and "iotc_tls_layer_pull context NULL IOTC_STATE_WANT_READ s = (st, s')"
    and "tl_recv_handler (tl_data s) = Some Recv_handler"
  shows "\<exists>inp' ph' ds. channel context s1 inp' ph' \<and> (\<exists>got. inp = got @ inp') \<and> length ds \<le> 1
    \<and> read_outcome base hs M context s ret bs l s1 ds st s'"
  by (rule recv_into_step [OF assms(1-6)])
    (use assms(3,7-9) in \<open>simp add: iotc_tls_layer_pull_def call_tls_handler_def recv_handler_def decoding_def Let_def\<close>)

section \<open>An example\<close>

definition example_lib :: "nat tls_lib" where
  "example_lib = \<lparr>iotc_bsp_tls_init = (\<lambda>host cert l. (IOTC_BSP_TLS_STATE_OK, 77, l + length cert)), iotc_bsp_tls_cleanup = (\<lambda>c l. (NULL, l)),
     iotc_bsp_tls_pending = (\<lambda>c l. 0), iotc_bsp_tls_connect = (\<lambda>c l. Tls_send 88 [9] (\<lambda>a. Tls_return (fst a, l))),
     iotc_bsp_tls_read = (\<lambda>c n l. Tls_recv n (\<lambda>a. Tls_return (fst a, snd a, l))),
     iotc_bsp_tls_write = (\<lambda>c bs l. Tls_return (IOTC_BSP_TLS_STATE_OK, int (length bs), l))\<rparr>"

definition example_space :: data_desc where
  "example_space = \<lparr>d_self = 70, d_data_ptr = 71, d_bytes = [4, 0, 0, 0], d_capacity = 4, d_length = 1, d_curr_pos = 0,
     d_memory_type = IOTC_MEMORY_TYPE_MANAGED\<rparr>"

definition example_tls :: "ptr list \<Rightarrow> tls_data \<Rightarrow> rm_context \<Rightarrow> vec \<Rightarrow> event_handle \<Rightarrow> (fs_memory, nat) tls" where
  "example_tls ps d ctx files h = rm.extend ((rm.truncate (io_net.extend (io_net.truncate (example_io ps (example_world 1) h))
       (rm.fields (\<lambda>p. ctx) (- 1) memory_fs example_files (\<lambda>p. IOTC_GLOBAL_CERTIFICATE_FILE_NAME))))
       \<lparr>ev_files := files, cl_desc := (\<lambda>p. if p = 70 then example_space else example_buffer)\<rparr>)
     (tls.fields d example_lib 0)"

lemma example_tls_simps [simp]:
  "tl_data (example_tls ps d ctx files h) = d" "tl_lib (example_tls ps d ctx files h) = example_lib" "tl_lib_state (example_tls ps d ctx files h) = 0"
  "rm_at (example_tls ps d ctx files h) = (\<lambda>p. ctx)" "cl_desc (example_tls ps d ctx files h) = (\<lambda>p. if p = 70 then example_space else example_buffer)"
  "ly_at (example_tls ps d ctx files h) = example_layers" "ev_files (example_tls ps d ctx files h) = files"
  "ev_fd (example_tls ps d ctx files h) = (\<lambda>p. \<lparr>t_fd = 5, t_handle = h, t_read_handle = h, t_event_type = IOTC_EVENT_WANT_READ, t_fd_type = IOTC_EVTD_FD_TYPE_SOCKET\<rparr>)"
  "ev_mem (example_tls ps d ctx files h) = example_heap ps"
  using example_io_simps [of ps "example_world 1" h]
  by (simp_all add: example_tls_def tls.defs rm.defs io_net.defs del: example_io_simps)

lemma example_tls_sys:
  assumes "distinct ps" and "\<forall>p\<in>set ps. 0 < p \<and> p < 100"
  shows "sys Map.empty [] (mset ps) (example_tls ps d ctx files h)"
  using example_io_sys [OF assms, of "example_world 1" h]
  by (simp add: sys_def lock_free_def example_tls_def tls.defs rm.defs io_net.defs)

lemma example_tls_neighbours: "neighbour_ok 42 (example_tls ps d ctx files h) Prev" "neighbour_ok 42 (example_tls ps d ctx files h) Next"
  "neighbour_ok 42 (example_tls ps d ctx files h) This" "\<not> tls_not_operational 42 (example_tls ps d ctx files h)"
  by (simp_all add: neighbour_ok_def interface_ok_def tls_not_operational_def IOTC_THIS_LAYER_NOT_OPERATIONAL_def) (simp_all add: example_layers_def)

lemma example_tls_channel:
  assumes "tl_raw_buffer d = [60]" and "tl_sending_cs d \<noteq> 118" and "tl_write_state d = IOTC_TLS_LAYER_DATA_NONE"
  shows "channel 42 (example_tls ps d ctx files h) [1, 2, 3] IOTC_TLS_LAYER_DATA_NONE"
  using assms example_tls_neighbours(1) by (simp add: channel_def raw_ok_def example_buffer_def unread_bytes_def desc_data_def desc_inv_def)

definition example_connected :: "(fs_memory, nat) tls" where
  "example_connected = example_tls [60, 61, 70, 71] (zeroed_tls_data\<lparr>tl_raw_buffer := [60], tl_decoded_buffer := 70, tl_recv_handler := Some Recv_handler,
     tl_send_handler := Some Send_handler\<rparr>) zeroed_rm_context small_vec zeroed_handle"

lemma example_space_blocks: "desc_blocks (Some example_space) = {#70, 71#}"
  by (simp add: desc_blocks_def example_space_def)

lemma example_connected_ok:
  "channel 42 example_connected [1, 2, 3] IOTC_TLS_LAYER_DATA_NONE"
  "sys Map.empty [] (raw_blocks example_connected + (desc_blocks (Some (decoded example_connected)) + {#})) example_connected"
proof -
  show "channel 42 example_connected [1, 2, 3] IOTC_TLS_LAYER_DATA_NONE"
    unfolding example_connected_def by (rule example_tls_channel) (simp_all add: zeroed_tls_data_def)
  have "raw_blocks example_connected + (desc_blocks (Some (decoded example_connected)) + {#}) = mset [60, 61, 70, 71]"
    by (simp add: raw_blocks_def example_connected_def example_buffer_blocks example_space_blocks)
  then show "sys Map.empty [] (raw_blocks example_connected + (desc_blocks (Some (decoded example_connected)) + {#})) example_connected"
    using example_tls_sys [of "[60, 61, 70, 71]"] by (simp add: example_connected_def)
qed

theorem tls_library_refines_channel_witness:
  "\<exists>s' inp' ph' out. run_tls 42 (Tls_recv 2 (\<lambda>a. Tls_send 88 [5] (\<lambda>b. Tls_return (a, b)))) example_connected
       = (((IOTC_BSP_TLS_STATE_OK, [1, 2]), (IOTC_BSP_TLS_STATE_WANT_WRITE, 0)), s')
     \<and> channel_run (Tls_recv 2 (\<lambda>a. Tls_send 88 [5] (\<lambda>b. Tls_return (a, b)))) [1, 2, 3] IOTC_TLS_LAYER_DATA_NONE
         ((IOTC_BSP_TLS_STATE_OK, [1, 2]), (IOTC_BSP_TLS_STATE_WANT_WRITE, 0)) inp' ph' out \<and> channel 42 s' inp' ph'"
proof -
  let ?t = "Tls_recv 2 (\<lambda>a. Tls_send 88 [5] (\<lambda>b. Tls_return (a, b)))"
  obtain r s' where rn: "run_tls 42 ?t example_connected = (r, s')" by fastforce
  have sy: "sys Map.empty [] (raw_blocks example_connected + {#70, 71#}) example_connected"
    using example_connected_ok(2) by (simp add: example_connected_def example_space_blocks)
  from tls_library_refines_channel [OF example_connected_ok(1) sy rn] obtain inp' ph' out where
    o: "channel_run ?t [1, 2, 3] IOTC_TLS_LAYER_DATA_NONE r inp' ph' out" "channel 42 s' inp' ph'" by blast
  have "r = ((IOTC_BSP_TLS_STATE_OK, [1, 2]), (IOTC_BSP_TLS_STATE_WANT_WRITE, 0))"
  proof -
    have "fst r = (IOTC_BSP_TLS_STATE_OK, [1, 2])"
      using rn by (auto simp: iotc_bsp_tls_recv_callback_def example_connected_def example_buffer_def Let_def split: prod.splits)
    moreover have "snd r = (IOTC_BSP_TLS_STATE_WANT_WRITE, 0)"
      using o(1) by (auto elim!: channel_run.cases)
    ultimately show ?thesis by (cases r) simp
  qed
  with rn o show ?thesis by blast
qed

theorem tls_read_answered_witness:
  "\<exists>st s'. iotc_tls_layer_pull 42 NULL IOTC_STATE_WANT_READ example_connected = (st, s') \<and> st = IOTC_STATE_OK \<and> desc_data (cl_desc s' 70) = [4, 1, 2, 3]"
proof -
  let ?s = example_connected
  obtain st s' where p: "iotc_tls_layer_pull 42 NULL IOTC_STATE_WANT_READ ?s = (st, s')" by fastforce
  have dc: "decoding ?s" by (simp add: decoding_def example_connected_def example_space_def desc_inv_def)
  obtain s1 where rd: "reads_into 42 ?s IOTC_BSP_TLS_STATE_OK [1, 2, 3] 0 s1"
    by (simp add: reads_into_def example_connected_def example_lib_def example_space_def iotc_bsp_tls_recv_callback_def example_buffer_def
        zeroed_tls_data_def Let_def)
  have nb: "neighbour_ok 42 ?s This" "neighbour_ok 42 ?s Next" "\<not> tls_not_operational 42 ?s" unfolding example_connected_def by (rule example_tls_neighbours)+
  have h: "tl_recv_handler (tl_data ?s) = Some Recv_handler" by (simp add: example_connected_def)
  from tls_read_answered [OF example_connected_ok dc rd nb p h] p show ?thesis
    by (auto simp: read_outcome_def Let_def) (simp_all add: example_connected_def example_space_def desc_data_def)
qed

end
