(* ===== verification/Iotc_Tls_Close.thy ===== *)
theory Iotc_Tls_Close
  imports Iotc_Tls_Handlers
begin

text \<open>
  The beginning and the end of the TLS layer: how the file that was read becomes the certificates of the library, what closing releases, and
  two calls that come when they are not expected.
\<close>

section \<open>Releasing\<close>

definition opt_blocks :: "('f, 'l, 'z) tls_scheme \<Rightarrow> ptr \<Rightarrow> ptr multiset" where
  "opt_blocks s p = (if p = NULL then {#} else desc_blocks (Some (cl_desc s p)))"

lemma opt_blocks_cong: "cl_desc s' = cl_desc s \<Longrightarrow> opt_blocks s' p = opt_blocks s p"
  by (simp add: opt_blocks_def)

lemma free_data_simps [simp]: "cl_desc (free_data_desc p s) = cl_desc s" "tl_data (free_data_desc p s) = tl_data s" "ly_at (free_data_desc p s) = ly_at s"
  "tl_lib (free_data_desc p s) = tl_lib s" "tl_lib_state (free_data_desc p s) = tl_lib_state s" "rm_at (free_data_desc p s) = rm_at s" "ev_files (free_data_desc p s) = ev_files s" "ev_fd (free_data_desc p s) = ev_fd s"
  by (simp_all add: free_data_desc_def on_mem_def)

lemma sys_free_opt:
  fixes s :: "('f, 'l, 'z) tls_scheme"
  shows "sys base hs (opt_blocks s p + M) s \<Longrightarrow> sys base hs M (free_data_desc p s)"
  using sys_free_desc [of base hs s p M] by (cases "p = NULL") (auto simp: opt_blocks_def free_data_desc_def iotc_free_desc_def on_mem_def)

lemma sys_free_all:
  fixes s :: "('f, 'l, 'z) tls_scheme"
  assumes "sys base hs (blocks_at (cl_desc s) ps + M) s" and "NULL \<notin> set ps"
  shows "sys base hs M (fold free_data_desc ps s) \<and> cl_desc (fold free_data_desc ps s) = cl_desc s \<and> tl_data (fold free_data_desc ps s) = tl_data s
    \<and> ly_at (fold free_data_desc ps s) = ly_at s \<and> ev_files (fold free_data_desc ps s) = ev_files s \<and> ev_fd (fold free_data_desc ps s) = ev_fd s"
  using assms
proof (induction ps arbitrary: s)
  case (Cons p ps)
  then have "sys base hs (blocks_at (cl_desc s) ps + M) (free_data_desc p s)"
    by (intro sys_free_desc) (simp_all add: add.assoc)
  with Cons.IH [of "free_data_desc p s"] Cons.prems(2) show ?case by simp
qed simp

lemma user_data_simps [simp]: "ly_at (set_user_data context p s) = (ly_at s)(context := (ly_at s context)\<lparr>ly_user_data := p\<rparr>)"
  "sys base hs M (set_user_data context p s) = sys base hs M s"
  by (simp_all add: set_user_data_def)

lemma neighbour_user_data:
  assumes "neighbour_ok context s d" and "ly_at s' = (ly_at s)(context := (ly_at s context)\<lparr>ly_user_data := p\<rparr>)"
  shows "neighbour_ok context s' d" and "call_handle context s' c = call_handle context s c"
proof -
  have d: "layer_in_dir e context s' = layer_in_dir e context s" for e by (cases e) (simp_all add: assms(2))
  have f: "ly_funcs (ly_at s' l) = ly_funcs (ly_at s l)" for l by (simp add: assms(2))
  show "neighbour_ok context s' d" using assms(1) by (simp add: neighbour_ok_def d f)
  show "call_handle context s' c = call_handle context s c" by (simp add: call_handle_def d f split: prod.splits)
qed

text \<open>The blocks of the layer: its data, the received buffers, and the buffers on the way up and down.\<close>

definition tls_blocks :: "ptr \<Rightarrow> ('f, 'l, 'z) tls_scheme \<Rightarrow> ptr multiset" where
  "tls_blocks context s = add_mset (user_data context s)
     (raw_blocks s + opt_blocks s (tl_decoded_buffer (tl_data s)) + opt_blocks s (tl_to_write_buffer (tl_data s)))"

lemma tls_release_all:
  fixes s :: "('f, 'l, 'z) tls_scheme"
  assumes "sys base hs (tls_blocks context s + M) s" and "NULL \<notin> set (tl_raw_buffer (tl_data s))"
  shows "sys base hs M (tls_release context s) \<and> ly_at (tls_release context s) = (ly_at s)(context := (ly_at s context)\<lparr>ly_user_data := NULL\<rparr>)
    \<and> ev_files (tls_release context s) = ev_files s \<and> ev_fd (tls_release context s) = ev_fd s"
proof -
  let ?B = "\<lambda>p. opt_blocks s p" and ?de = "tl_decoded_buffer (tl_data s)" and ?wr = "tl_to_write_buffer (tl_data s)" and ?u = "user_data context s"
  obtain c l where cl: "iotc_bsp_tls_cleanup (tl_lib s) (tl_context (tl_data s)) (tl_lib_state s) = (c, l)" by fastforce
  define s1 where "s1 = on_tls (\<lambda>d. d\<lparr>tl_context := c\<rparr>) (s\<lparr>tl_lib_state := l\<rparr>)"
  have f1: "cl_desc s1 = cl_desc s" "ly_at s1 = ly_at s" "tl_data s1 = (tl_data s)\<lparr>tl_context := c\<rparr>" by (simp_all add: s1_def)
  define s2 where "s2 = fold free_data_desc (tl_raw_buffer (tl_data s)) s1"
  have "sys base hs (blocks_at (cl_desc s1) (tl_raw_buffer (tl_data s)) + (?B ?de + (?B ?wr + add_mset ?u M))) s1"
    using assms(1) by (simp add: s1_def tls_blocks_def raw_blocks_def ac_simps)
  from sys_free_all [OF this] assms(2) have s2: "sys base hs (?B ?de + (?B ?wr + add_mset ?u M)) s2" "cl_desc s2 = cl_desc s" "ly_at s2 = ly_at s"
    "tl_data s2 = (tl_data s)\<lparr>tl_context := c\<rparr>" "ev_files s2 = ev_files s" "ev_fd s2 = ev_fd s" by (simp_all add: s2_def f1) (simp_all add: s1_def on_tls_def)
  define s3 where "s3 = on_tls (\<lambda>d. d\<lparr>tl_decoded_buffer := NULL\<rparr>) (free_data_desc ?de s2)"
  have s3: "sys base hs (?B ?wr + add_mset ?u M) s3" 
    using sys_free_opt [of base hs s2 ?de] s2(1) opt_blocks_cong [OF s2(2)] by (simp add: s3_def)
  have f3: "cl_desc s3 = cl_desc s" "ly_at s3 = ly_at s" "tl_to_write_buffer (tl_data s3) = ?wr" by (simp_all add: s3_def s2)
  define s4 where "s4 = on_tls (\<lambda>d. d\<lparr>tl_to_write_buffer := NULL\<rparr>) (free_data_desc ?wr s3)"
  have s4: "sys base hs (add_mset ?u M) s4" 
    using sys_free_opt [of base hs s3 ?wr] s3 opt_blocks_cong [OF f3(1)] by (simp add: s4_def)
  have f4: "ly_at s4 = ly_at s" "ev_files s4 = ev_files s" "ev_fd s4 = ev_fd s"
    by (simp_all add: s4_def f3) (simp_all add: s3_def on_tls_def s2)
  have "tls_release context s = set_user_data context NULL (on_mem (IOTC_SAFE_FREE ?u) s4)"
    
    unfolding tls_release_def Let_def cl prod.case s1_def [symmetric] by (simp add: f1 s2 f3 f4 flip: s2_def s3_def s4_def)
  with sys_free [OF s4] show ?thesis by (simp add: f4 on_mem_def set_user_data_def)
qed

lemma continue_files:
  fixes s :: "('f, 'l, 'z) tls_scheme"
  assumes "IOTC_LAYER_CONTINUE_WITH dir f context data st s = (r, s')"
  shows "ev_files s' = ev_files s" "ev_fd s' = ev_fd s"
proof -
  have s': "s' = snd (IOTC_LAYER_CONTINUE_WITH dir f context data st s)" by (simp add: assms)
  have "ev_files (snd (iotc_evttd_execute h s)) = ev_files s" "ev_fd (snd (iotc_evttd_execute h s)) = ev_fd s" for h and s :: "('f, 'l, 'z) tls_scheme"
    by (simp_all add: iotc_evttd_execute_def iotc_evtd_execute_def Let_def iotc_lock_critical_section_def
        iotc_unlock_critical_section_def split: prod.splits option.splits)
  then show "ev_files s' = ev_files s" "ev_fd s' = ev_fd s"
    by (simp_all add: s' IOTC_LAYER_CONTINUE_WITH_def iotc_layer_continue_with_impl_def Let_def case_prod_beta)
qed

definition close_call :: "ptr \<Rightarrow> ptr \<Rightarrow> iotc_state \<Rightarrow> ('f, 'l, 'z) tls_scheme \<Rightarrow> layer_call" where
  "close_call context data st s =
     (if st \<noteq> IOTC_STATE_OK \<and> ly_state (ly_at s context) = IOTC_LAYER_STATE_CONNECTING
      then (This, F_connect, data, st) else (Next, F_close_externally, data, st))"

lemma released_then_called:
  fixes s :: "('f, 'l, 'z) tls_scheme"
  assumes "sys base hs (tls_blocks context s + M) s" and "NULL \<notin> set (tl_raw_buffer (tl_data s))"
    and "neighbour_ok context s This" and "neighbour_ok context s Next"
  shows "\<exists>s'. tls_close_released context data st (tls_release context s) = (IOTC_STATE_OK, s')
    \<and> sys base (hs @ [call_handle context s (close_call context data st s)]) M s' \<and> user_data context s' = NULL
    \<and> ev_files s' = ev_files s \<and> ev_fd s' = ev_fd s"
proof -
  let ?s = "tls_release context s"
  note rel = tls_release_all [OF assms(1,2)]
  have nb: "neighbour_ok context ?s d" if "neighbour_ok context s d" for d using neighbour_user_data(1) [OF that] rel by blast
  have ch: "call_handle context ?s = call_handle context s" using neighbour_user_data(2) [OF assms(3)] rel by (intro ext) blast
  obtain d f where cc: "close_call context data st s = (d, f, data, st)" "neighbour_ok context s d"
      "tls_close_released context data st ?s = IOTC_LAYER_CONTINUE_WITH d (layer_target f) context data st ?s"
  proof (cases "st \<noteq> IOTC_STATE_OK \<and> ly_state (ly_at s context) = IOTC_LAYER_STATE_CONNECTING")
    case True
    show ?thesis by (rule that [of This F_connect]) (use True assms(3) rel in \<open>simp_all add: close_call_def tls_close_released_def\<close>)
  next
    case False
    show ?thesis by (rule that [of Next F_close_externally]) (use False assms(4) rel in \<open>auto simp: close_call_def tls_close_released_def\<close>)
  qed
  obtain r s' where p: "IOTC_LAYER_CONTINUE_WITH d (layer_target f) context data st ?s = (r, s')" by fastforce
  from sys_continue [OF _ nb [OF cc(2)] p] rel cc p ch continue_files [OF p] show ?thesis by auto
qed

text \<open>
  C35. Closing from outside releases, exactly once each, the received buffers that the library has not read, the buffer of decoded bytes, the
  buffer that is being written and the data of the layer, and goes on to the next layer; in the middle of connecting with an
  error it goes to the connect function of the layer itself.
\<close>

theorem tls_close_releases:
  fixes s :: "('f, 'l, 'z) tls_scheme"
  assumes "sys base hs (tls_blocks context s + M) s" and "NULL \<notin> set (tl_raw_buffer (tl_data s))" and "user_data context s \<noteq> NULL"
    and "tl_rm_context (tl_data s) = NULL" and "neighbour_ok context s This" and "neighbour_ok context s Next"
  shows "\<exists>s'. iotc_tls_layer_close_externally context data st s = (IOTC_STATE_OK, s')
    \<and> sys base (hs @ [call_handle context s (close_call context data st s)]) M s' \<and> user_data context s' = NULL"
  using released_then_called [OF assms(1,2,5,6), of data st] assms(3,4) by (auto simp: iotc_tls_layer_close_externally_def Let_def)

text \<open>
  Closing while the certificates are being read: the resource manager refuses to close because the read is still going on, the layer takes no notice
  and releases the context of the resource manager with everything else; the handle of the file stays registered, with a call of the
  reading coroutine that is given the released context.
\<close>

definition rm_blocks :: "ptr \<Rightarrow> ('f, 'l, 'z) tls_scheme \<Rightarrow> ptr multiset" where
  "rm_blocks c s = add_mset c (if rc_memory_type (rm_at s c) = IOTC_MEMORY_TYPE_MANAGED then opt_blocks s (rc_data_buffer (rm_at s c)) else {#})"

theorem tls_close_during_read:
  fixes s :: "('f, 'l, 'z) tls_scheme"
  assumes "sys base hs (rm_blocks c s + (tls_blocks context s + M)) s" and "NULL \<notin> set (tl_raw_buffer (tl_data s))" and "user_data context s \<noteq> NULL"
    and "c = tl_rm_context (tl_data s)" and "c \<noteq> NULL" and "neighbour_ok context s This" and "neighbour_ok context s Next"
    and "\<not> iotc_handle_disposed (rc_callback (rm_at s c))"
    and "file_registered (rc_resource_handle (rm_at s c)) (iotc_make_handle_argc1 IOTC_THREADID_MAINTHREAD fn_rm_read_coroutine c) p s"
  shows "\<exists>s'. iotc_tls_layer_close_externally context data st s = (IOTC_STATE_OK, s')
    \<and> sys base (hs @ [call_handle context s (close_call context data st s)]) M s' \<and> c \<notin># M
    \<and> file_registered (rc_resource_handle (rm_at s c)) (iotc_make_handle_argc1 IOTC_THREADID_MAINTHREAD fn_rm_read_coroutine c) p s'"
proof -
  let ?b = "rc_data_buffer (rm_at s c)" and ?s1 = "snd (iotc_resource_manager_free_context c s)"
  define s2 where "s2 = on_tls (\<lambda>d. d\<lparr>tl_rm_context := NULL\<rparr>) ?s1"
  have "c \<notin># (rm_blocks c s - {#c#}) + (tls_blocks context s + M)"
    using assms(1) by (intro sys_distinct [of base hs]) (simp add: rm_blocks_def)
  then have cM: "c \<notin># M" by simp
  define s0 where "s0 = (if rc_memory_type (rm_at s c) = IOTC_MEMORY_TYPE_MANAGED \<and> ?b \<noteq> NULL then free_data_desc ?b s else s)"
  have "sys base hs (add_mset c (tls_blocks context s + M)) s0"
    using assms(1) sys_free_opt [of base hs s ?b "add_mset c (tls_blocks context s + M)"]
    by (auto simp: s0_def rm_blocks_def opt_blocks_def split: if_splits)
  from sys_free [OF this] have fr: "sys base hs (tls_blocks context s + M) (on_mem (IOTC_SAFE_FREE c) s0)" .
  have s1: "?s1 = on_mem (IOTC_SAFE_FREE c) s0" using assms(5) by (simp add: iotc_resource_manager_free_context_def Let_def s0_def)
  have sy1: "sys base hs (tls_blocks context s + M) ?s1" unfolding s1 by (rule fr)
  have f: "cl_desc s2 = cl_desc s" "tl_data s2 = (tl_data s)\<lparr>tl_rm_context := NULL\<rparr>" "ly_at s2 = ly_at s" "ev_files s2 = ev_files s" "ev_fd s2 = ev_fd s"
    by (simp_all add: s2_def s1 on_mem_def s0_def on_tls_def)
  have tb: "tls_blocks context s2 = tls_blocks context s" by (simp add: tls_blocks_def raw_blocks_def opt_blocks_def f)
  have sy2: "sys base hs (tls_blocks context s2 + M) s2" unfolding tb using sy1 by (simp add: s2_def)
  note l = layers_upd [OF assms(6) f(3)] layers_upd [OF assms(7) f(3)]
  have cl: "iotc_resource_manager_close c h s = (IOTC_INVALID_PARAMETER, s)" for h
    using assms(5,8) by (simp add: iotc_resource_manager_close_def)
  have "iotc_tls_layer_close_externally context data st s = tls_close_released context data st (tls_release context s2)"
    using assms(3-5) cl by (simp add: iotc_tls_layer_close_externally_def Let_def s2_def)
  moreover have "close_call context data st s2 = close_call context data st s" by (simp add: close_call_def f)
  ultimately show ?thesis using released_then_called [OF sy2 _ l(1,3), of data st] assms(2,9) cM l(2)
    by (auto simp: f file_registered_def)
qed

section \<open>The certificates\<close>

text \<open>
  The file that the resource manager has read is what the library gets as its certificates: when the read has ended with the call of
  \<^verbatim>\<open>iotc_tls_layer_init\<close>, that call gives the host and the bytes of the file to the library. If the library accepts them the
  layer asks the resource manager to close the file and waits; if not, it cleans the library up and reports to its own connect function.
\<close>

theorem tls_init_gets_file:
  fixes s :: "('f, 'l, 'z) tls_scheme"
  assumes "delivered base hs M (tl_rm_context (tl_data s)) (tls_init_handle context data IOTC_STATE_OK) cert s"
    and "tl_conn_cs (tl_data s) = 516" and "data \<noteq> NULL" and "user_data context s \<noteq> NULL" and "tl_rm_context (tl_data s) \<noteq> NULL"
    and "0 \<le> rc_resource_handle (rm_at s (tl_rm_context (tl_data s)))" and "neighbour_ok context s This"
    and "iotc_bsp_tls_init (tl_lib s) (cd_host (cx_connection s)) cert (tl_lib_state s) = (ret, c, l)"
  shows "\<exists>s'. iotc_tls_layer_init context data IOTC_STATE_OK s = (IOTC_STATE_OK, s')
    \<and> (if ret = IOTC_BSP_TLS_STATE_OK then
         tl_context (tl_data s') = c \<and> tl_lib_state s' = l \<and> tl_conn_cs (tl_data s') = 568
         \<and> sys base (hs @ [tls_init_handle context data IOTC_STATE_OK,
              iotc_make_handle_argc1 IOTC_THREADID_MAINTHREAD fn_rm_close_coroutine (tl_rm_context (tl_data s))])
            (buffer_blocks (tl_rm_context (tl_data s)) s + M) s'
       else
         tl_conn_cs (tl_data s') = 2 \<and> tl_lib_state s' = snd (iotc_bsp_tls_cleanup (tl_lib s) c l)
         \<and> sys base (hs @ [tls_init_handle context data IOTC_STATE_OK, call_handle context s (This, F_connect, data,
              if ret = IOTC_BSP_TLS_STATE_CERT_ERROR then IOTC_TLS_FAILED_LOADING_CERTIFICATE else IOTC_TLS_INITALIZATION_ERROR)])
            (buffer_blocks (tl_rm_context (tl_data s)) s + M) s')"
proof -
  let ?r = "tl_rm_context (tl_data s)" and ?h = "tls_init_handle context data IOTC_STATE_OK"
  from assms(1) have wf: "rc_data_buffer (rm_at s ?r) \<noteq> NULL" "desc_data (cl_desc s (rc_data_buffer (rm_at s ?r))) = cert"
    and sy: "sys base (hs @ [?h]) (buffer_blocks ?r s + M) s" and dp: "iotc_handle_disposed (rc_callback (rm_at s ?r))"
    by (simp_all add: delivered_def whole_file_def)
  define s1 where "s1 = on_tls (\<lambda>d. d\<lparr>tl_context := c\<rparr>) (s\<lparr>tl_lib_state := l\<rparr>)"
  have sy1: "sys base (hs @ [?h]) (buffer_blocks ?r s + M) s1" using sy by (simp add: s1_def)
  have f1: "tl_data s1 = (tl_data s)\<lparr>tl_context := c\<rparr>" "tl_lib_state s1 = l" "tl_lib s1 = tl_lib s" "ly_at s1 = ly_at s" "rm_at s1 = rm_at s"
    by (simp_all add: s1_def) (simp add: on_tls_def)
  have i: "iotc_tls_layer_init context data IOTC_STATE_OK s = (if ret \<noteq> IOTC_BSP_TLS_STATE_OK
      then tls_init_failed context data (if ret = IOTC_BSP_TLS_STATE_CERT_ERROR then IOTC_TLS_FAILED_LOADING_CERTIFICATE else IOTC_TLS_INITALIZATION_ERROR) s1
      else tls_init_wait 568 (snd (iotc_resource_manager_close ?r ?h s1)))"
    using assms(2-4,8) f1 by (simp add: iotc_tls_layer_init_def tls_init_library_def wf(2) flip: s1_def)
  show ?thesis
  proof (cases "ret = IOTC_BSP_TLS_STATE_OK")
    case True
    define s2 where "s2 = on_rm ?r (\<lambda>c. c\<lparr>rc_callback := ?h\<rparr>) s1"
    have sy2: "sys base (hs @ [?h]) (buffer_blocks ?r s + M) s2" by (rule sys_cong [OF sy1]) (simp_all add: s2_def on_rm_def)
    obtain e s3 where p: "iotc_evttd_execute (iotc_make_handle_argc1 IOTC_THREADID_MAINTHREAD fn_rm_close_coroutine ?r) s2 = (e, s3)" by fastforce
    have f3: "tl_data s3 = tl_data s1" "tl_lib_state s3 = tl_lib_state s1"
      using p by (auto simp: s2_def on_rm_def iotc_evttd_execute_def iotc_evtd_execute_def Let_def iotc_lock_critical_section_def
          iotc_unlock_critical_section_def split: prod.splits option.splits if_splits)
    have "snd (iotc_resource_manager_close ?r ?h s1) = s3"
      using assms(5,6) dp p by (simp add: iotc_resource_manager_close_def f1 rm_start_def flip: s2_def)
    with True i sys_post [OF sy2 p] f3 f1 show ?thesis by (simp add: tls_init_wait_def)
  next
    case False
    let ?e = "if ret = IOTC_BSP_TLS_STATE_CERT_ERROR then IOTC_TLS_FAILED_LOADING_CERTIFICATE else IOTC_TLS_INITALIZATION_ERROR"
    obtain c' l' where cl: "iotc_bsp_tls_cleanup (tl_lib s) c l = (c', l')" by fastforce
    define s2 where "s2 = on_tls (\<lambda>d. d\<lparr>tl_conn_cs := 2, tl_context := c'\<rparr>) (s1\<lparr>tl_lib_state := l'\<rparr>)"
    have sy2: "sys base (hs @ [?h]) (buffer_blocks ?r s + M) s2" using sy1 by (simp add: s2_def)
    have f2: "tl_conn_cs (tl_data s2) = 2" "tl_lib_state s2 = l'" "ly_at s2 = ly_at s" by (simp_all add: s2_def f1)
    note l2 = layers_upd [OF assms(7) f2(3)]
    obtain r s3 where p: "IOTC_LAYER_CONTINUE_WITH This (layer_target F_connect) context data ?e s2 = (r, s3)" by fastforce
    have "iotc_tls_layer_init context data IOTC_STATE_OK s = IOTC_LAYER_CONTINUE_WITH This (layer_target F_connect) context data ?e s2"
      using i False assms(4) cl by (simp add: tls_init_failed_def f1 s2_def)
    with False p sys_continue [OF sy2 l2(1) p] continue_tls_frame [OF p] f2 cl l2(2) show ?thesis by simp
  qed
qed

section \<open>A report that nobody waits for\<close>

text \<open>
  The library may write on its own while it reads, an alert for example. When that is confirmed after the handshake, the layer
  goes on with the write of the application, whether there is one or not: without one it reads through a null pointer.
\<close>

theorem tls_written_without_request:
  assumes "\<not> tls_not_operational context s" and "tl_send_handler (tl_data s) = Some Send_handler" and "tl_to_write_buffer (tl_data s) = NULL"
    and "iotc_bsp_tls_write (tl_lib s) (tl_context (tl_data s)) (take (unsent (cl_desc s NULL)) (drop (unat (d_curr_pos (cl_desc s NULL))) (d_bytes (cl_desc s NULL))))
      (tl_lib_state s) = Tls_return (IOTC_BSP_TLS_STATE_WANT_WRITE, 0, l)"
  shows "m_bad (ev_mem (snd (iotc_tls_layer_push context NULL IOTC_STATE_WRITTEN s)))"
proof -
  have "\<not> tls_not_operational context (on_tls f s)" for f using assms(1) by (simp add: tls_not_operational_def IOTC_THIS_LAYER_NOT_OPERATIONAL_def)
  then show ?thesis using assms
    by (simp add: iotc_tls_layer_push_def call_tls_handler_def send_handler_def Let_def undefined_behaviour_def)
qed

section \<open>Examples\<close>

definition example_tls_data :: tls_data where
  "example_tls_data = zeroed_tls_data\<lparr>tl_raw_buffer := [60], tl_decoded_buffer := 70, tl_recv_handler := Some Recv_handler, tl_send_handler := Some Send_handler\<rparr>"

lemma example_tls_blocks:
  assumes "tl_raw_buffer d = [60]" and "tl_decoded_buffer d = 70" and "tl_to_write_buffer d = NULL"
  shows "tls_blocks 42 (example_tls ps d ctx files h) = {#30, 60, 61, 70, 71#}"
  using assms by (simp add: tls_blocks_def raw_blocks_def opt_blocks_def example_buffer_blocks example_space_blocks example_layers_def)

theorem tls_close_releases_witness:
  "\<exists>s' h. iotc_tls_layer_close_externally 42 NULL IOTC_STATE_OK (example_tls [30, 60, 61, 70, 71] example_tls_data zeroed_rm_context small_vec zeroed_handle)
       = (IOTC_STATE_OK, s') \<and> sys Map.empty [h] {#} s'"
proof -
  let ?s = "example_tls [30, 60, 61, 70, 71] example_tls_data zeroed_rm_context small_vec zeroed_handle"
  have b: "tls_blocks 42 ?s = {#30, 60, 61, 70, 71#}" by (rule example_tls_blocks) (simp_all add: example_tls_data_def zeroed_tls_data_def)
  have sy: "sys Map.empty [] (tls_blocks 42 ?s + {#}) ?s" using example_tls_sys [of "[30, 60, 61, 70, 71]"] by (simp add: b)
  have f: "NULL \<notin> set (tl_raw_buffer (tl_data ?s))" "user_data 42 ?s \<noteq> NULL" "tl_rm_context (tl_data ?s) = NULL"
    by (simp_all add: example_tls_data_def zeroed_tls_data_def example_layers_def)
  from tls_close_releases [OF sy f example_tls_neighbours(3,2), of NULL IOTC_STATE_OK] show ?thesis by auto
qed

definition example_reading :: "(fs_memory, nat) tls" where
  "example_reading = example_tls [80, 30, 60, 61, 70, 71, 9] (example_tls_data\<lparr>tl_rm_context := 80\<rparr>)
     (zeroed_rm_context\<lparr>rc_resource_handle := 5, rc_callback := example_handle\<rparr>) (small_vec\<lparr>v_elems := [9, 0], v_elem_no := 1\<rparr>)
     (iotc_make_handle_argc1 IOTC_THREADID_MAINTHREAD fn_rm_read_coroutine 80)"

theorem tls_close_during_read_witness:
  "\<exists>s'. iotc_tls_layer_close_externally 42 NULL IOTC_STATE_OK example_reading = (IOTC_STATE_OK, s')
     \<and> file_registered 5 (iotc_make_handle_argc1 IOTC_THREADID_MAINTHREAD fn_rm_read_coroutine 80) 9 s'"
proof -
  let ?s = example_reading
  have b: "tls_blocks 42 ?s = {#30, 60, 61, 70, 71#}"
    unfolding example_reading_def by (rule example_tls_blocks) (simp_all add: example_tls_data_def zeroed_tls_data_def)
  have r: "rm_blocks 80 ?s = {#80#}" by (simp add: rm_blocks_def example_reading_def zeroed_rm_context_def)
  have sy: "sys Map.empty [] (rm_blocks 80 ?s + (tls_blocks 42 ?s + {#9#})) ?s"
    using example_tls_sys [of "[80, 30, 60, 61, 70, 71, 9]"] by (simp add: b r add_mset_commute) (simp add: example_reading_def)
  have f: "tl_raw_buffer (tl_data ?s) = [60]" "user_data 42 ?s = 30" "tl_rm_context (tl_data ?s) = 80" "rc_resource_handle (rm_at ?s 80) = 5"
    "rc_callback (rm_at ?s 80) = example_handle"
    by (simp_all add: example_reading_def example_tls_data_def example_layers_def)
  have nb: "neighbour_ok 42 ?s This" "neighbour_ok 42 ?s Next" unfolding example_reading_def by (rule example_tls_neighbours)+
  have fr: "file_registered 5 (iotc_make_handle_argc1 IOTC_THREADID_MAINTHREAD fn_rm_read_coroutine 80) 9 ?s"
    by (simp add: file_registered_def example_reading_def) (simp add: vec_inv_def vec_list_def small_vec_def)
  have "\<not> iotc_handle_disposed example_handle" by (simp add: iotc_handle_disposed_def example_handle_def iotc_make_handle_argc3_def)
  with tls_close_during_read [OF sy, where data = NULL and st = IOTC_STATE_OK and p = 9] f nb fr show ?thesis by auto
qed

definition example_read :: "(fs_memory, nat) tls" where
  "example_read = example_tls [60, 61] (zeroed_tls_data\<lparr>tl_rm_context := 80, tl_conn_cs := 516\<rparr>)
     (zeroed_rm_context\<lparr>rc_resource_handle := 3, rc_data_buffer := 60\<rparr>) small_vec zeroed_handle"

theorem tls_init_gets_file_witness:
  "\<exists>s'. iotc_tls_layer_init 42 50 IOTC_STATE_OK (snd (iotc_evttd_execute (tls_init_handle 42 50 IOTC_STATE_OK) example_read)) = (IOTC_STATE_OK, s')
     \<and> tl_context (tl_data s') = 77 \<and> tl_lib_state s' = 3"
proof -
  let ?h = "tls_init_handle 42 50 IOTC_STATE_OK"
  obtain e s where p: "iotc_evttd_execute ?h example_read = (e, s)" by fastforce
  have "sys Map.empty [] {#60, 61#} example_read" using example_tls_sys [of "[60, 61]"] by (simp add: example_read_def)
  from sys_post [OF this p] have sy: "sys Map.empty ([] @ [?h]) ({#60, 61#} + {#}) s" by simp
  have k: "rm_at s = rm_at example_read" "cl_desc s = cl_desc example_read" "ev_files s = ev_files example_read" "ev_fd s = ev_fd example_read"
    "tl_data s = tl_data example_read" "tl_lib s = tl_lib example_read" "tl_lib_state s = tl_lib_state example_read" "ly_at s = ly_at example_read"
    using p by (auto simp: iotc_evttd_execute_def iotc_evtd_execute_def Let_def iotc_lock_critical_section_def
        iotc_unlock_critical_section_def split: prod.splits option.splits if_splits)
  have c: "desc_data example_buffer = [1, 2, 3]" by (simp add: example_buffer_def desc_data_def)
  have bb: "buffer_blocks 80 s = {#60, 61#}" by (simp add: buffer_blocks_def k) (simp add: example_read_def example_buffer_blocks)
  have "delivered Map.empty [] {#} 80 ?h [1, 2, 3] s" unfolding delivered_def bb using sy
    by (simp add: whole_file_def k) (simp add: example_read_def c zeroed_rm_context_def iotc_handle_disposed_def zeroed_handle_def small_vec_def vec_list_def)
  moreover have "neighbour_ok 42 s This" using layers_upd(1) [OF _ k(8), of 42 This] example_tls_neighbours(3) by (simp add: example_read_def)
  moreover have "iotc_bsp_tls_init (tl_lib s) (cd_host (cx_connection s)) [1, 2, 3] (tl_lib_state s) = (IOTC_BSP_TLS_STATE_OK, 77, 3)"
    by (simp add: k) (simp add: example_read_def example_lib_def)
  ultimately show ?thesis
    using tls_init_gets_file [of Map.empty "[]" "{#}" s 42 50 "[1, 2, 3]" IOTC_BSP_TLS_STATE_OK 77 3] p
    by (auto simp: k) (auto simp: example_read_def example_layers_def)
qed

theorem tls_written_without_request_witness:
  "m_bad (ev_mem (snd (iotc_tls_layer_push 42 NULL IOTC_STATE_WRITTEN (example_connected\<lparr>tl_lib :=
     example_lib\<lparr>iotc_bsp_tls_write := \<lambda>c bs l. Tls_return (IOTC_BSP_TLS_STATE_WANT_WRITE, 0, l)\<rparr>\<rparr>))))"
proof -
  have "\<not> tls_not_operational 42 (example_connected\<lparr>tl_lib := x\<rparr>)" for x
    by (simp add: example_connected_def tls_not_operational_def IOTC_THIS_LAYER_NOT_OPERATIONAL_def example_layers_def)
  then show ?thesis
    by (intro tls_written_without_request) (simp_all add: example_connected_def zeroed_tls_data_def)
qed

end
