(* ===== verification/Iotc_Memory_Limiter.thy ===== *)
theory Iotc_Memory_Limiter
  imports Iotc_Mem
begin

text \<open>
  The limiter of the memory that the library uses, \<^verbatim>\<open>src/libiotc/debug_extensions/memory_limiter/iotc_memory_limiter.c\<close>, in the
  configuration with extra debug information: every block has a header before it, and the headers are a doubly linked list. The
  addresses of the blocks of the heap are those of the headers; the user's pointer is behind the header. The backtrace in a header is
  only printed and not in the model, and assertions are not executed. An access to a header that is not allocated marks the heap.
\<close>

datatype allocation_type =
    IOTC_MEMORY_LIMITER_ALLOCATION_TYPE_APPLICATION
  | IOTC_MEMORY_LIMITER_ALLOCATION_TYPE_SYSTEM

record limiter_entry =
  en_next :: ptr
  en_prev :: ptr
  en_file :: ptr
  en_line :: nat
  en_size :: nat

record limiter =
  ml_mem :: mem
  ml_entry :: "ptr \<Rightarrow> limiter_entry"
  ml_head :: ptr
  ml_cs_state :: bool
  ml_spins :: bool
  ml_application_limit :: nat
  ml_total_limit :: nat
  ml_allocated :: nat

definition IOTC_MEMORY_LIMITER_APPLICATION_MEMORY_LIMIT :: nat where
  "IOTC_MEMORY_LIMITER_APPLICATION_MEMORY_LIMIT = 524288"

definition IOTC_MEMORY_LIMITER_SYSTEM_MEMORY_LIMIT :: nat where
  "IOTC_MEMORY_LIMITER_SYSTEM_MEMORY_LIMIT = 2024"

text \<open>With the sixteen words and the counter of the backtrace.\<close>

definition sizeof_limiter_entry :: nat where "sizeof_limiter_entry = 176"

definition get_ptr_from_entry :: "ptr \<Rightarrow> ptr" where "get_ptr_from_entry e = e + sizeof_limiter_entry"
definition get_entry_from_ptr :: "ptr \<Rightarrow> ptr" where "get_entry_from_ptr p = p - sizeof_limiter_entry"

lemma entry_of_ptr [simp]: "get_entry_from_ptr (get_ptr_from_entry e) = e" "get_ptr_from_entry e \<noteq> NULL"
  by (simp_all add: get_entry_from_ptr_def get_ptr_from_entry_def sizeof_limiter_entry_def)

section \<open>Accesses\<close>

definition limiter_lock :: "limiter \<Rightarrow> limiter" where
  "limiter_lock s = (if ml_cs_state s then s\<lparr>ml_spins := True\<rparr> else s\<lparr>ml_cs_state := True\<rparr>)"

definition limiter_unlock :: "limiter \<Rightarrow> limiter" where
  "limiter_unlock s = (if ml_cs_state s then s\<lparr>ml_cs_state := False\<rparr> else s\<lparr>ml_spins := True\<rparr>)"

definition touch_entry :: "ptr \<Rightarrow> limiter \<Rightarrow> limiter" where
  "touch_entry e s = (if m_live (ml_mem s) e = None then s\<lparr>ml_mem := (ml_mem s)\<lparr>m_bad := True\<rparr>\<rparr> else s)"

definition write_entry :: "ptr \<Rightarrow> (limiter_entry \<Rightarrow> limiter_entry) \<Rightarrow> limiter \<Rightarrow> limiter" where
  "write_entry e f s = (let s1 = touch_entry e s in s1\<lparr>ml_entry := (ml_entry s1)(e := f (ml_entry s1 e))\<rparr>)"

text \<open>The entry becomes the first one; its own link back is left as it is.\<close>

definition push_entry :: "ptr \<Rightarrow> limiter \<Rightarrow> limiter" where
  "push_entry e s =
     (if ml_head s = NULL then s\<lparr>ml_head := e\<rparr>
      else
        (let s1 = write_entry e (\<lambda>x. x\<lparr>en_next := ml_head s\<rparr>) s;
             s2 = write_entry (ml_head s1) (\<lambda>x. x\<lparr>en_prev := e\<rparr>) s1
         in s2\<lparr>ml_head := e\<rparr>))"

definition unlink_entry :: "ptr \<Rightarrow> limiter \<Rightarrow> limiter" where
  "unlink_entry e s =
     (let prev = en_prev (ml_entry s e);
          s1 = (if prev \<noteq> NULL then write_entry prev (\<lambda>x. x\<lparr>en_next := en_next (ml_entry s e)\<rparr>) s
                else s\<lparr>ml_head := en_next (ml_entry s e)\<rparr>)
      in if en_next (ml_entry s1 e) \<noteq> NULL
         then write_entry (en_next (ml_entry s1 e)) (\<lambda>x. x\<lparr>en_prev := en_prev (ml_entry s1 e)\<rparr>) s1
         else s1)"

partial_function (option) iotc_memory_limiter_entry_list_visitor ::
    "(ptr \<Rightarrow> bool) \<Rightarrow> ptr \<Rightarrow> limiter \<Rightarrow> (ptr \<times> limiter) option" where
  "iotc_memory_limiter_entry_list_visitor predicate tmp s =
     (if tmp = NULL then Some (NULL, s)
      else if predicate tmp then Some (tmp, s)
      else (let s1 = touch_entry tmp s
            in iotc_memory_limiter_entry_list_visitor predicate (en_next (ml_entry s1 tmp)) s1))"

section \<open>Limits\<close>

definition limit_of :: "allocation_type \<Rightarrow> limiter \<Rightarrow> nat" where
  "limit_of t s = (if t = IOTC_MEMORY_LIMITER_ALLOCATION_TYPE_APPLICATION then ml_application_limit s else ml_total_limit s)"

definition iotc_memory_limiter_will_allocation_fit :: "allocation_type \<Rightarrow> nat \<Rightarrow> limiter \<Rightarrow> iotc_state" where
  "iotc_memory_limiter_will_allocation_fit memory_type size_to_alloc s =
     (if to_size (int (ml_allocated s) + int size_to_alloc) > limit_of memory_type s then IOTC_OUT_OF_MEMORY else IOTC_STATE_OK)"

definition iotc_memory_limiter_get_allocated_space :: "limiter \<Rightarrow> nat" where
  "iotc_memory_limiter_get_allocated_space s = ml_allocated s"

definition iotc_memory_limiter_set_limit :: "nat \<Rightarrow> limiter \<Rightarrow> iotc_state \<times> limiter" where
  "iotc_memory_limiter_set_limit new_memory_limit s =
     (let current_required_capacity =
            to_size (int (iotc_memory_limiter_get_allocated_space s) + int IOTC_MEMORY_LIMITER_SYSTEM_MEMORY_LIMIT)
      in if new_memory_limit < current_required_capacity then (IOTC_OUT_OF_MEMORY, s)
         else
           (let s1 = s\<lparr>ml_total_limit := new_memory_limit\<rparr>
            in (IOTC_STATE_OK, s1\<lparr>ml_application_limit :=
                  to_size (int (ml_total_limit s1) - int IOTC_MEMORY_LIMITER_SYSTEM_MEMORY_LIMIT)\<rparr>)))"

definition iotc_memory_limiter_get_capacity :: "allocation_type \<Rightarrow> limiter \<Rightarrow> nat" where
  "iotc_memory_limiter_get_capacity limit_type s =
     (if limit_type = IOTC_MEMORY_LIMITER_ALLOCATION_TYPE_APPLICATION then ml_application_limit s else ml_total_limit s)"

definition iotc_memory_limiter_get_current_limit :: "allocation_type \<Rightarrow> limiter \<Rightarrow> nat" where
  "iotc_memory_limiter_get_current_limit limit_type s =
     (let capacity = iotc_memory_limiter_get_capacity limit_type s;
          allocated_space = iotc_memory_limiter_get_allocated_space s
      in if allocated_space \<ge> capacity then 0 else capacity - allocated_space)"

section \<open>Allocation\<close>

text \<open>The header is cleared, which goes behind the end of a block that is smaller than a header.\<close>

definition new_entry :: "ptr \<Rightarrow> nat \<Rightarrow> limiter_entry" where
  "new_entry file line = \<lparr>en_next = NULL, en_prev = NULL, en_file = file, en_line = line, en_size = 0\<rparr>"

definition clear_entry :: "ptr \<Rightarrow> nat \<Rightarrow> ptr \<Rightarrow> nat \<Rightarrow> limiter \<Rightarrow> limiter" where
  "clear_entry e real_size file line s =
     (let s1 = (if real_size < sizeof_limiter_entry then s\<lparr>ml_mem := (ml_mem s)\<lparr>m_bad := True\<rparr>\<rparr> else s)
      in s1\<lparr>ml_entry := (ml_entry s1)(e := new_entry file line)\<rparr>)"

definition iotc_memory_limiter_alloc :: "allocation_type \<Rightarrow> nat \<Rightarrow> ptr \<Rightarrow> nat \<Rightarrow> limiter \<Rightarrow> ptr \<times> limiter" where
  "iotc_memory_limiter_alloc limit_type size_to_alloc file line s =
     (let s1 = limiter_lock s;
          real_size_to_alloc = to_size (int size_to_alloc + int sizeof_limiter_entry)
      in if iotc_memory_limiter_will_allocation_fit limit_type real_size_to_alloc s1 \<noteq> IOTC_STATE_OK
         then (NULL, limiter_unlock s1)
         else
           (case iotc_alloc real_size_to_alloc (ml_mem s1) of (entry, m) \<Rightarrow>
              (let s2 = s1\<lparr>ml_mem := m\<rparr>
               in if entry = NULL then (NULL, limiter_unlock s2)
                  else
                    (let s3 = push_entry entry (clear_entry entry real_size_to_alloc file line s2);
                         s4 = write_entry entry (\<lambda>x. x\<lparr>en_size := real_size_to_alloc\<rparr>) s3
                     in (get_ptr_from_entry entry,
                         limiter_unlock (s4\<lparr>ml_allocated := to_size (int (ml_allocated s4) + int real_size_to_alloc)\<rparr>))))))"

definition iotc_memory_limiter_calloc ::
    "allocation_type \<Rightarrow> nat \<Rightarrow> nat \<Rightarrow> ptr \<Rightarrow> nat \<Rightarrow> limiter \<Rightarrow> ptr \<times> limiter" where
  "iotc_memory_limiter_calloc limit_type num size_to_alloc file line s =
     (let allocation_size = to_size (int num * int size_to_alloc)
      in iotc_memory_limiter_alloc limit_type allocation_size file line s)"

definition iotc_memory_limiter_realloc ::
    "allocation_type \<Rightarrow> ptr \<Rightarrow> nat \<Rightarrow> ptr \<Rightarrow> nat \<Rightarrow> limiter \<Rightarrow> ptr \<times> limiter" where
  "iotc_memory_limiter_realloc limit_type p size_to_alloc file line s =
     (if p = NULL then (NULL, s)
      else
        (let s1 = limiter_lock s;
             entry = get_entry_from_ptr p;
             s2 = touch_entry entry s1;
             real_size_to_alloc = to_size (int size_to_alloc + int sizeof_limiter_entry);
             real_diff = to_int64 (int real_size_to_alloc - int (en_size (ml_entry s2 entry)))
         in if iotc_memory_limiter_will_allocation_fit limit_type (to_size (max real_diff 0)) s2 \<noteq> IOTC_STATE_OK
            then (NULL, limiter_unlock s2)
            else
              (let s3 = unlink_entry entry s2
               in case iotc_realloc entry real_size_to_alloc (ml_mem s3) of (r, m) \<Rightarrow>
                    if r = NULL then (NULL, limiter_unlock (s3\<lparr>ml_mem := m\<rparr>))
                    else
                      (let s4 = s3\<lparr>ml_mem := m, ml_entry := (ml_entry s3)(r := (ml_entry s3 entry)\<lparr>en_file := file, en_line := line\<rparr>)\<rparr>;
                           s5 = push_entry r s4;
                           s6 = write_entry r (\<lambda>x. x\<lparr>en_size := real_size_to_alloc\<rparr>) s5
                       in (get_ptr_from_entry r,
                           limiter_unlock (s6\<lparr>ml_allocated := to_size (int (ml_allocated s6) + real_diff)\<rparr>))))))"

definition iotc_memory_limiter_free :: "ptr \<Rightarrow> limiter \<Rightarrow> limiter option" where
  "iotc_memory_limiter_free p s =
     (if p = NULL then Some s
      else
        (let s1 = limiter_lock s;
             entry = get_entry_from_ptr p;
             s2 = touch_entry entry s1;
             size_to_free = en_size (ml_entry s2 entry)
         in case iotc_memory_limiter_entry_list_visitor (\<lambda>x. x = entry) (ml_head s2) s2 of
              None \<Rightarrow> None
            | Some (leg, s3) \<Rightarrow>
                (let s4 = unlink_entry entry s3;
                     s5 = s4\<lparr>ml_mem := iotc_free entry (ml_mem s4)\<rparr>
                 in Some (limiter_unlock (s5\<lparr>ml_allocated :=
                      to_size (max (to_int32 (to_int32 (int (ml_allocated s5)) - to_int32 (int size_to_free))) 0)\<rparr>)))))"

section \<open>Reclaiming everything\<close>

partial_function (option) last_entry :: "ptr \<Rightarrow> limiter \<Rightarrow> (ptr \<times> limiter) option" where
  "last_entry tmp s =
     (let s1 = touch_entry tmp s
      in if en_next (ml_entry s1 tmp) \<noteq> NULL then last_entry (en_next (ml_entry s1 tmp)) s1 else Some (tmp, s1))"

partial_function (option) peel_entries :: "ptr \<Rightarrow> limiter \<Rightarrow> limiter option" where
  "peel_entries tmp s =
     (if tmp \<noteq> NULL then
        (let s1 = touch_entry tmp s;
             prev = en_prev (ml_entry s1 tmp)
         in case iotc_memory_limiter_free (get_ptr_from_entry tmp) (limiter_unlock s1) of
              None \<Rightarrow> None
            | Some s2 \<Rightarrow> peel_entries prev (limiter_lock s2))
      else Some s)"

text \<open>The early return leaves the critical section locked.\<close>

definition iotc_memory_limiter_gc :: "limiter \<Rightarrow> limiter option" where
  "iotc_memory_limiter_gc s =
     (let s1 = limiter_lock s
      in if ml_head s1 = NULL then Some s1
         else
           (case last_entry (ml_head s1) s1 of
              None \<Rightarrow> None
            | Some (tmp, s2) \<Rightarrow> (case peel_entries tmp s2 of None \<Rightarrow> None | Some s3 \<Rightarrow> Some (limiter_unlock s3))))"

partial_function (option) visit_entries :: "(limiter_entry \<Rightarrow> 'u \<Rightarrow> 'u) \<Rightarrow> ptr \<Rightarrow> 'u \<Rightarrow> limiter \<Rightarrow> ('u \<times> limiter) option" where
  "visit_entries visitor_fn tmp u s =
     (let s1 = touch_entry tmp s;
          u1 = visitor_fn (ml_entry s1 tmp) u;
          next = en_next (ml_entry s1 tmp)
      in if next \<noteq> NULL then visit_entries visitor_fn next u1 s1 else Some (u1, s1))"

definition iotc_memory_limiter_visit_memory_leaks ::
    "(limiter_entry \<Rightarrow> 'u \<Rightarrow> 'u) \<Rightarrow> 'u \<Rightarrow> limiter \<Rightarrow> ('u \<times> limiter) option" where
  "iotc_memory_limiter_visit_memory_leaks visitor_fn u s =
     (let s1 = limiter_lock s
      in case (if ml_head s1 \<noteq> NULL then visit_entries visitor_fn (ml_head s1) u s1 else Some (u, s1)) of
           None \<Rightarrow> None
         | Some (u1, s2) \<Rightarrow> Some (u1, limiter_unlock s2))"

section \<open>The facades\<close>

definition iotc_memory_limiter_alloc_application :: "nat \<Rightarrow> ptr \<Rightarrow> nat \<Rightarrow> limiter \<Rightarrow> ptr \<times> limiter" where
  "iotc_memory_limiter_alloc_application =
     iotc_memory_limiter_alloc IOTC_MEMORY_LIMITER_ALLOCATION_TYPE_APPLICATION"

definition iotc_memory_limiter_calloc_application :: "nat \<Rightarrow> nat \<Rightarrow> ptr \<Rightarrow> nat \<Rightarrow> limiter \<Rightarrow> ptr \<times> limiter" where
  "iotc_memory_limiter_calloc_application =
     iotc_memory_limiter_calloc IOTC_MEMORY_LIMITER_ALLOCATION_TYPE_APPLICATION"

definition iotc_memory_limiter_realloc_application :: "ptr \<Rightarrow> nat \<Rightarrow> ptr \<Rightarrow> nat \<Rightarrow> limiter \<Rightarrow> ptr \<times> limiter" where
  "iotc_memory_limiter_realloc_application =
     iotc_memory_limiter_realloc IOTC_MEMORY_LIMITER_ALLOCATION_TYPE_APPLICATION"

definition iotc_memory_limiter_alloc_system :: "nat \<Rightarrow> ptr \<Rightarrow> nat \<Rightarrow> limiter \<Rightarrow> ptr \<times> limiter" where
  "iotc_memory_limiter_alloc_system = iotc_memory_limiter_alloc IOTC_MEMORY_LIMITER_ALLOCATION_TYPE_SYSTEM"

definition iotc_memory_limiter_calloc_system :: "nat \<Rightarrow> nat \<Rightarrow> ptr \<Rightarrow> nat \<Rightarrow> limiter \<Rightarrow> ptr \<times> limiter" where
  "iotc_memory_limiter_calloc_system = iotc_memory_limiter_calloc IOTC_MEMORY_LIMITER_ALLOCATION_TYPE_SYSTEM"

definition iotc_memory_limiter_realloc_system :: "ptr \<Rightarrow> nat \<Rightarrow> ptr \<Rightarrow> nat \<Rightarrow> limiter \<Rightarrow> ptr \<times> limiter" where
  "iotc_memory_limiter_realloc_system = iotc_memory_limiter_realloc IOTC_MEMORY_LIMITER_ALLOCATION_TYPE_SYSTEM"

section \<open>Doubly linked segments\<close>

text \<open>\<open>p\<close> is before the first and \<open>q\<close> behind the last entry.\<close>

definition first_or :: "ptr list \<Rightarrow> ptr \<Rightarrow> ptr" where "first_or xs q = (case xs of [] \<Rightarrow> q | x # _ \<Rightarrow> x)"
definition last_or :: "ptr list \<Rightarrow> ptr \<Rightarrow> ptr" where "last_or xs p = (if xs = [] then p else last xs)"

fun dlseg :: "(ptr \<Rightarrow> limiter_entry) \<Rightarrow> ptr \<Rightarrow> ptr list \<Rightarrow> ptr \<Rightarrow> bool" where
  "dlseg f p [] q = True"
| "dlseg f p (x # xs) q \<longleftrightarrow> en_prev (f x) = p \<and> en_next (f x) = first_or xs q \<and> dlseg f x xs q"

lemma first_or_simps [simp]: "first_or [] q = q" "first_or (x # xs) q = x"
  "first_or (xs @ ys) q = first_or xs (first_or ys q)"
  by (auto simp: first_or_def split: list.split)

lemma last_or_simps [simp]: "last_or [] p = p" "last_or (xs @ [x]) p = x" "last_or (x # xs) p = last_or xs x"
  by (auto simp: last_or_def)

lemma first_or_in: "xs \<noteq> [] \<Longrightarrow> first_or xs q \<in> set xs"
  by (cases xs) auto

lemma last_or_in: "xs \<noteq> [] \<Longrightarrow> last_or xs p \<in> set xs"
  by (simp add: last_or_def)

lemma dlseg_append [simp]:
  "dlseg f p (xs @ ys) q \<longleftrightarrow> dlseg f p xs (first_or ys q) \<and> dlseg f (last_or xs p) ys q"
  by (induction xs arbitrary: p) auto

lemma dlseg_other [simp]: "y \<notin> set xs \<Longrightarrow> dlseg (f(y := e)) p xs q = dlseg f p xs q"
  by (induction xs arbitrary: p) auto

text \<open>Redirecting the link behind the last and the one before the first entry.\<close>

lemma dlseg_last:
  assumes "dlseg f p (xs @ [y]) q" and "y \<notin> set xs"
  shows "dlseg (f(y := (f y)\<lparr>en_next := r\<rparr>)) p (xs @ [y]) r"
  using assms by simp

lemma dlseg_first:
  assumes "dlseg f p (y # xs) q" and "y \<notin> set xs"
  shows "dlseg (f(y := (f y)\<lparr>en_prev := r\<rparr>)) r (y # xs) q"
  using assms by simp

section \<open>The invariant\<close>

text \<open>\<open>xs\<close> are the headers, from the most recent one; the blocks behind them are all there is in the heap.\<close>

definition total_size :: "(ptr \<Rightarrow> limiter_entry) \<Rightarrow> ptr list \<Rightarrow> nat" where
  "total_size f xs = sum_list (map (\<lambda>x. en_size (f x)) xs)"

definition limiter_linked :: "ptr list \<Rightarrow> limiter \<Rightarrow> bool" where
  "limiter_linked xs s \<longleftrightarrow> wf_mem (ml_mem s) \<and> \<not> m_bad (ml_mem s) \<and> dlseg (ml_entry s) NULL xs NULL
     \<and> ml_head s = first_or xs NULL \<and> distinct xs \<and> dom (m_live (ml_mem s)) = set xs
     \<and> (\<forall>x\<in>set xs. m_live (ml_mem s) x = Some (en_size (ml_entry s x)))"

definition limiter_counts :: "ptr list \<Rightarrow> limiter \<Rightarrow> bool" where
  "limiter_counts xs s \<longleftrightarrow> ml_allocated s = total_size (ml_entry s) xs \<and> ml_allocated s \<le> ml_total_limit s
     \<and> ml_application_limit s + IOTC_MEMORY_LIMITER_SYSTEM_MEMORY_LIMIT = ml_total_limit s
     \<and> ml_total_limit s < 2 ^ 31"

definition limiter_ok :: "ptr list \<Rightarrow> limiter \<Rightarrow> bool" where
  "limiter_ok xs s \<longleftrightarrow> limiter_linked xs s \<and> limiter_counts xs s \<and> \<not> ml_cs_state s \<and> \<not> ml_spins s"

lemma total_size_simps [simp]:
  "total_size f [] = 0" "total_size f (x # xs) = en_size (f x) + total_size f xs"
  "total_size f (xs @ ys) = total_size f xs + total_size f ys"
  by (simp_all add: total_size_def)

lemma total_size_cong: "(\<And>x. x \<in> set xs \<Longrightarrow> en_size (f x) = en_size (g x)) \<Longrightarrow> total_size f xs = total_size g xs"
  unfolding total_size_def by (rule arg_cong [where f = sum_list], rule map_cong) auto

lemma touch_live [simp]: "m_live (ml_mem s) e = Some n \<Longrightarrow> touch_entry e s = s"
  by (simp add: touch_entry_def)

lemma write_live: "m_live (ml_mem s) e = Some n \<Longrightarrow> write_entry e f s = s\<lparr>ml_entry := (ml_entry s)(e := f (ml_entry s e))\<rparr>"
  by (simp add: write_entry_def)

lemma linked_not_null: "limiter_linked xs s \<Longrightarrow> NULL \<notin> set xs"
  by (auto simp: limiter_linked_def wf_mem_def)

lemma linked_live: "limiter_linked xs s \<Longrightarrow> x \<in> set xs \<Longrightarrow> \<exists>n. m_live (ml_mem s) x = Some n"
  by (auto simp: limiter_linked_def)

text \<open>What is linked does not depend on the lock and on the counters.\<close>

lemma linked_cong:
  assumes "ml_mem s' = ml_mem s" and "ml_entry s' = ml_entry s" and "ml_head s' = ml_head s"
  shows "limiter_linked xs s' = limiter_linked xs s"
  using assms by (simp add: limiter_linked_def)

subsection \<open>Linking and unlinking\<close>

lemma push_entry_linked:
  assumes l: "limiter_linked xs s" and al: "iotc_alloc n (ml_mem s) = (e, m)" and e: "e \<noteq> NULL"
    and n: "sizeof_limiter_entry \<le> n"
    and s': "s' = write_entry e (\<lambda>x. x\<lparr>en_size := n\<rparr>) (push_entry e (clear_entry e n file line (s\<lparr>ml_mem := m\<rparr>)))"
  shows "limiter_linked (e # xs) s'" and "total_size (ml_entry s') (e # xs) = n + total_size (ml_entry s) xs"
    and "ml_cs_state s' = ml_cs_state s" and "ml_spins s' = ml_spins s" and "ml_allocated s' = ml_allocated s"
    and "ml_total_limit s' = ml_total_limit s" and "ml_application_limit s' = ml_application_limit s"
proof -
  from l have w: "wf_mem (ml_mem s)" and bad: "\<not> m_bad (ml_mem s)" and ds: "dlseg (ml_entry s) NULL xs NULL"
    and hd: "ml_head s = first_or xs NULL" and di: "distinct xs" and dom: "dom (m_live (ml_mem s)) = set xs"
    and sz: "\<And>x. x \<in> set xs \<Longrightarrow> m_live (ml_mem s) x = Some (en_size (ml_entry s x))"
    by (auto simp: limiter_linked_def)
  have lv: "m_live m = (m_live (ml_mem s))(e \<mapsto> n)" by (rule alloc_live [OF w al e])
  have nx: "e \<notin> set xs" using alloc_fresh [OF w al] dom by auto
  have w': "wf_mem m" by (rule alloc_wf [OF w al])
  have b': "\<not> m_bad m" using alloc_bad [OF al] bad by simp
  have all: "limiter_linked (e # xs) s' \<and> total_size (ml_entry s') (e # xs) = n + total_size (ml_entry s) xs
    \<and> ml_cs_state s' = ml_cs_state s \<and> ml_spins s' = ml_spins s \<and> ml_allocated s' = ml_allocated s
    \<and> ml_total_limit s' = ml_total_limit s \<and> ml_application_limit s' = ml_application_limit s"
  proof (cases xs)
    case Nil
    then show ?thesis using n lv hd w' b' dom
      by (simp add: s' push_entry_def clear_entry_def write_entry_def touch_entry_def limiter_linked_def new_entry_def)
  next
    case (Cons y ys)
    from Cons nx have ne: "y \<noteq> e" "e \<notin> set ys" "y \<in> set xs" by auto
    from linked_not_null [OF l] Cons have y: "y \<noteq> NULL" by auto
    from ne(3) dom obtain k where ly: "m_live (ml_mem s) y = Some k" by blast
    have f: "ml_entry s' = (ml_entry s)(e := (new_entry file line)\<lparr>en_next := y, en_size := n\<rparr>,
        y := (ml_entry s y)\<lparr>en_prev := e\<rparr>)"
      using n lv hd Cons ne y ly by (auto simp: s' push_entry_def clear_entry_def write_entry_def touch_entry_def new_entry_def)
    have m': "ml_mem s' = m" "ml_head s' = e" "ml_cs_state s' = ml_cs_state s" "ml_spins s' = ml_spins s"
      "ml_allocated s' = ml_allocated s" "ml_total_limit s' = ml_total_limit s" "ml_application_limit s' = ml_application_limit s"
      using n lv hd Cons ne y ly by (auto simp: s' push_entry_def clear_entry_def write_entry_def touch_entry_def new_entry_def)
    have tot: "total_size (ml_entry s') ys = total_size (ml_entry s) ys"
      using ne di Cons by (intro total_size_cong) (auto simp: f)
    have "limiter_linked (e # xs) s'"
      unfolding limiter_linked_def m' using w' b' ds di Cons ne lv dom sz nx
      by (auto simp: f new_entry_def)
    moreover have "total_size (ml_entry s') (e # xs) = n + total_size (ml_entry s) xs"
      using tot ne Cons by (simp add: f new_entry_def)
    ultimately show ?thesis using m' by simp
  qed
  from all show "limiter_linked (e # xs) s'" and "total_size (ml_entry s') (e # xs) = n + total_size (ml_entry s) xs"
    and "ml_cs_state s' = ml_cs_state s" and "ml_spins s' = ml_spins s" and "ml_allocated s' = ml_allocated s"
    and "ml_total_limit s' = ml_total_limit s" and "ml_application_limit s' = ml_application_limit s" by blast+
qed

lemma unlink_entry_segments:
  assumes l: "limiter_linked (us @ e # vs) s" and s': "s' = unlink_entry e s"
  shows "dlseg (ml_entry s') NULL us (first_or vs NULL)" and "dlseg (ml_entry s') (last_or us NULL) vs NULL"
    and "ml_head s' = first_or (us @ vs) NULL" and "\<And>x. en_size (ml_entry s' x) = en_size (ml_entry s x)"
    and "ml_entry s' e = ml_entry s e" and "ml_mem s' = ml_mem s" and "ml_cs_state s' = ml_cs_state s"
    and "ml_spins s' = ml_spins s" and "ml_allocated s' = ml_allocated s" and "ml_total_limit s' = ml_total_limit s"
    and "ml_application_limit s' = ml_application_limit s"
proof -
  from l have d1: "dlseg (ml_entry s) NULL us e" and d2: "dlseg (ml_entry s) e vs NULL"
    and pe: "en_prev (ml_entry s e) = last_or us NULL" and ne: "en_next (ml_entry s e) = first_or vs NULL"
    and hd: "ml_head s = first_or us e" and di: "distinct (us @ e # vs)"
    by (auto simp: limiter_linked_def)
  have live: "\<And>x. x \<in> set (us @ e # vs) \<Longrightarrow> \<exists>n. m_live (ml_mem s) x = Some n" by (rule linked_live [OF l])
  have nz: "NULL \<notin> set (us @ e # vs)" by (rule linked_not_null [OF l])
  define s1 where "s1 = (if last_or us NULL \<noteq> NULL
    then s\<lparr>ml_entry := (ml_entry s)(last_or us NULL := (ml_entry s (last_or us NULL))\<lparr>en_next := first_or vs NULL\<rparr>)\<rparr>
    else s\<lparr>ml_head := first_or vs NULL\<rparr>)"
  have lz: "last_or us NULL = NULL \<longleftrightarrow> us = []" using nz by (cases us rule: rev_cases) auto
  have fz: "first_or vs NULL = NULL \<longleftrightarrow> vs = []" using nz by (cases vs) auto
  have lu: "us \<noteq> [] \<Longrightarrow> last_or us NULL \<in> set us" by (rule last_or_in)
  have w1: "us \<noteq> [] \<Longrightarrow> write_entry (last_or us NULL) (\<lambda>x. x\<lparr>en_next := en_next (ml_entry s e)\<rparr>) s
      = s\<lparr>ml_entry := (ml_entry s)(last_or us NULL := (ml_entry s (last_or us NULL))\<lparr>en_next := first_or vs NULL\<rparr>)\<rparr>"
    using live [of "last_or us NULL"] lu ne by (auto simp: write_live)
  have e1: "ml_entry s1 e = ml_entry s e" "m_live (ml_mem s1) = m_live (ml_mem s)"
    using lu lz di by (auto simp: s1_def)
  have u1: "s' = (if first_or vs NULL \<noteq> NULL
      then write_entry (first_or vs NULL) (\<lambda>x. x\<lparr>en_prev := last_or us NULL\<rparr>) s1 else s1)"
    using w1 lz e1 ne pe by (auto simp: s' unlink_entry_def Let_def s1_def)
  have u2: "s' = (if vs = [] then s1
      else s1\<lparr>ml_entry := (ml_entry s1)(first_or vs NULL := (ml_entry s1 (first_or vs NULL))\<lparr>en_prev := last_or us NULL\<rparr>)\<rparr>)"
    using u1 fz first_or_in [of vs NULL] live [of "first_or vs NULL"] e1 by (auto simp: write_live)
  have S: "dlseg (ml_entry s1) NULL us (first_or vs NULL)" "dlseg (ml_entry s1) e vs NULL"
  proof -
    show "dlseg (ml_entry s1) NULL us (first_or vs NULL)"
    proof (cases us rule: rev_cases)
      case (snoc us' u)
      have "dlseg ((ml_entry s)(u := (ml_entry s u)\<lparr>en_next := first_or vs NULL\<rparr>)) NULL (us' @ [u]) (first_or vs NULL)"
        using d1 di snoc by (intro dlseg_last) auto
      then show ?thesis using lz snoc by (simp add: s1_def)
    qed simp
    show "dlseg (ml_entry s1) e vs NULL"
    proof (cases "us = []")
      case False
      with lu di have "last_or us NULL \<notin> set vs" by auto
      with d2 show ?thesis by (simp add: s1_def)
    qed (use d2 in \<open>simp add: s1_def\<close>)
  qed
  show "dlseg (ml_entry s') NULL us (first_or vs NULL)"
  proof (cases "vs = []")
    case False
    then have "first_or vs NULL \<notin> set us" using di first_or_in [of vs NULL] by auto
    with S(1) False show ?thesis by (simp add: u2)
  qed (use S(1) in \<open>simp add: u2\<close>)
  show "dlseg (ml_entry s') (last_or us NULL) vs NULL"
  proof (cases vs)
    case (Cons v vs')
    have "dlseg ((ml_entry s1)(v := (ml_entry s1 v)\<lparr>en_prev := last_or us NULL\<rparr>)) (last_or us NULL) (v # vs') NULL"
      using S(2) di Cons by (intro dlseg_first) auto
    then show ?thesis using Cons by (simp add: u2)
  qed simp
  show "ml_head s' = first_or (us @ vs) NULL"
    using hd lz by (cases us) (auto simp: u2 s1_def)
  show "\<And>x. en_size (ml_entry s' x) = en_size (ml_entry s x)" by (auto simp: u2 s1_def)
  show "ml_entry s' e = ml_entry s e" using di first_or_in [of vs NULL] e1 by (auto simp: u2)
  show "ml_mem s' = ml_mem s" and "ml_cs_state s' = ml_cs_state s"
    and "ml_spins s' = ml_spins s" and "ml_allocated s' = ml_allocated s" and "ml_total_limit s' = ml_total_limit s"
    and "ml_application_limit s' = ml_application_limit s" by (auto simp: u2 s1_def)
qed

text \<open>The search for an entry ends.\<close>

lemma visitor_segment:
  assumes "dlseg (ml_entry s) p (us @ e # vs) q" and "e \<notin> set us" and "NULL \<notin> set (us @ [e])"
    and "\<forall>x\<in>set us. m_live (ml_mem s) x \<noteq> None"
  shows "iotc_memory_limiter_entry_list_visitor (\<lambda>x. x = e) (first_or us e) s = Some (e, s)"
  using assms
proof (induction us arbitrary: p)
  case Nil
  then show ?case by (simp add: iotc_memory_limiter_entry_list_visitor.simps)
next
  case (Cons u us)
  then show ?case
    by (subst iotc_memory_limiter_entry_list_visitor.simps) auto
qed

text \<open>Releasing an entry that is in the list.\<close>

lemma limiter_free_ok:
  assumes l: "limiter_linked (us @ e # vs) s" and c: "limiter_counts (us @ e # vs) s" and lk: "\<not> ml_cs_state s"
  obtains s' where "iotc_memory_limiter_free (get_ptr_from_entry e) s = Some s'" and "limiter_linked (us @ vs) s'"
    and "limiter_counts (us @ vs) s'" and "\<not> ml_cs_state s'" and "ml_spins s' = ml_spins s"
    and "ml_total_limit s' = ml_total_limit s"
proof -
  define s1 where "s1 = s\<lparr>ml_cs_state := True\<rparr>"
  have l1: "limiter_linked (us @ e # vs) s1" using l by (simp add: s1_def limiter_linked_def)
  from linked_live [OF l, of e] obtain n where n: "m_live (ml_mem s) e = Some n" by auto
  have di: "distinct (us @ e # vs)" and ds: "dlseg (ml_entry s1) NULL (us @ e # vs) NULL"
    and hd: "ml_head s1 = first_or us e" using l1 by (auto simp: limiter_linked_def)
  have vis: "iotc_memory_limiter_entry_list_visitor (\<lambda>x. x = e) (ml_head s1) s1 = Some (e, s1)"
    unfolding hd using visitor_segment [OF ds] di linked_not_null [OF l1] linked_live [OF l1] by auto
  define s4 where "s4 = unlink_entry e s1"
  note u = unlink_entry_segments [OF l1 s4_def]
  have sz: "en_size (ml_entry s e) \<le> ml_allocated s" "ml_allocated s < 2 ^ 31" using c by (auto simp: limiter_counts_def)
  define m where "m = iotc_free e (ml_mem s)"
  define s' where "s' = s4\<lparr>ml_mem := m, ml_allocated := ml_allocated s - en_size (ml_entry s e), ml_cs_state := False\<rparr>"
  have en: "ml_entry s1 = ml_entry s" "ml_mem s1 = ml_mem s" "ml_allocated s1 = ml_allocated s" by (simp_all add: s1_def)
  have cs1: "ml_cs_state s1" by (simp add: s1_def)
  have cnt: "to_size (max (to_int32 (to_int32 (int (ml_allocated s)) - to_int32 (int (en_size (ml_entry s e))))) 0)
      = ml_allocated s - en_size (ml_entry s e)"
    using sz by simp
  have "iotc_memory_limiter_free (get_ptr_from_entry e) s = Some s'"
    using lk n vis u(6-11) en cnt cs1
    by (simp add: iotc_memory_limiter_free_def limiter_lock_def limiter_unlock_def Let_def s4_def [symmetric]
        s1_def [symmetric] s'_def m_def)
  moreover have "limiter_linked (us @ vs) s'"
  proof -
    have w: "wf_mem (ml_mem s)" and b: "\<not> m_bad (ml_mem s)" and dom: "dom (m_live (ml_mem s)) = set (us @ e # vs)"
      and lv: "\<And>x. x \<in> set (us @ e # vs) \<Longrightarrow> m_live (ml_mem s) x = Some (en_size (ml_entry s x))"
      using l by (auto simp: limiter_linked_def)
    show ?thesis
      unfolding limiter_linked_def using w b dom lv u n di en
      by (auto simp: s'_def m_def free_live free_bad)
  qed
  moreover have "limiter_counts (us @ vs) s'"
  proof -
    have "total_size (ml_entry s') (us @ vs) = total_size (ml_entry s) (us @ vs)"
      using u(4) en by (intro total_size_cong) (simp add: s'_def)
    then show ?thesis using c u en by (simp add: limiter_counts_def s'_def s1_def)
  qed
  moreover have "\<not> ml_cs_state s'" "ml_spins s' = ml_spins s" "ml_total_limit s' = ml_total_limit s"
    using u by (simp_all add: s'_def s1_def)
  ultimately show thesis by (rule that)
qed

lemma limiter_alloc_ok:
  assumes ok: "limiter_ok xs s" and n: "n < 2 ^ 31" and al: "iotc_memory_limiter_alloc t n file line s = (p, s')"
  obtains "p = NULL" and "limiter_ok xs s'"
  | e where "p = get_ptr_from_entry e" and "limiter_ok (e # xs) s'" and "ml_allocated s' \<le> limit_of t s"
    and "en_size (ml_entry s' e) = n + sizeof_limiter_entry"
proof -
  define r where "r = n + sizeof_limiter_entry"
  from ok have l: "limiter_linked xs s" and c: "limiter_counts xs s" and lk: "\<not> ml_cs_state s" "\<not> ml_spins s"
    by (auto simp: limiter_ok_def)
  have r: "to_size (int n + int sizeof_limiter_entry) = r" "r < 2 ^ 32" "sizeof_limiter_entry \<le> r"
    using n by (simp_all add: r_def sizeof_limiter_entry_def)
  have b: "ml_allocated s < 2 ^ 31" "limit_of t s \<le> ml_total_limit s" using c by (auto simp: limiter_counts_def limit_of_def)
  have sum: "to_size (int (ml_allocated s) + int r) = ml_allocated s + r" using b(1) r(2) by simp
  define s1 where "s1 = s\<lparr>ml_cs_state := True\<rparr>"
  show thesis
  proof (cases "ml_allocated s + r > limit_of t s")
    case True
    then have "p = NULL" and "s' = s"
      using al lk sum r(1)
      by (auto simp: iotc_memory_limiter_alloc_def Let_def limiter_lock_def limiter_unlock_def
          iotc_memory_limiter_will_allocation_fit_def limit_of_def split: if_splits)
    then show thesis using ok that(1) by simp
  next
    case False
    obtain e m where a: "iotc_alloc r (ml_mem s) = (e, m)" by fastforce
    have w: "wf_mem (ml_mem s)" using l by (simp add: limiter_linked_def)
    show thesis
    proof (cases "e = NULL")
      case True
      then have s': "p = NULL" "s' = s\<lparr>ml_mem := m\<rparr>"
        using al lk sum r(1) a False
        by (auto simp: iotc_memory_limiter_alloc_def Let_def limiter_lock_def limiter_unlock_def
            iotc_memory_limiter_will_allocation_fit_def limit_of_def split: if_splits)
      have "limiter_ok xs s'"
        using ok alloc_wf [OF w a] alloc_null_live [OF w a [unfolded True]] alloc_bad [OF a]
        by (simp add: s' limiter_ok_def limiter_linked_def limiter_counts_def)
      with s'(1) show thesis by (rule that(1))
    next
      case e: False
      have l1: "limiter_linked xs s1" using l by (simp add: s1_def limiter_linked_def)
      have a1: "iotc_alloc r (ml_mem s1) = (e, m)" using a by (simp add: s1_def)
      define s4 where "s4 = write_entry e (\<lambda>x. x\<lparr>en_size := r\<rparr>)
        (push_entry e (clear_entry e r file line (s1\<lparr>ml_mem := m\<rparr>)))"
      note u = push_entry_linked [OF l1 a1 e r(3) s4_def]
      have s': "p = get_ptr_from_entry e" "s' = s4\<lparr>ml_allocated := ml_allocated s + r, ml_cs_state := False\<rparr>"
        using al lk sum r(1) a False e u(3-5)
        by (auto simp: iotc_memory_limiter_alloc_def Let_def limiter_lock_def limiter_unlock_def s4_def s1_def
            iotc_memory_limiter_will_allocation_fit_def limit_of_def split: if_splits)
      have "limiter_ok (e # xs) s'"
        using u c lk False b by (simp add: limiter_ok_def limiter_linked_def limiter_counts_def s' s1_def)
      moreover have "en_size (ml_entry s' e) = n + sizeof_limiter_entry"
      proof -
        have "en_size (ml_entry s4 e) = r" by (simp add: s4_def write_entry_def Let_def)
        then show ?thesis by (simp add: s' r_def)
      qed
      ultimately show thesis using s' False by (intro that(2)) auto
    qed
  qed
qed

section \<open>Clients of the limiter\<close>

text \<open>
  What a correct client does: it releases blocks that it has, and a block is resized only while it is the most recent one. The sizes
  and the limits are below two gigabytes.
\<close>

definition has_block :: "ptr \<Rightarrow> limiter \<Rightarrow> bool" where
  "has_block p s \<longleftrightarrow> p = get_ptr_from_entry (get_entry_from_ptr p) \<and> m_live (ml_mem s) (get_entry_from_ptr p) \<noteq> None"

inductive limiter_step :: "limiter \<Rightarrow> limiter \<Rightarrow> bool" where
  alloc: "n < 2 ^ 31 \<Longrightarrow> iotc_memory_limiter_alloc t n file line s = (p, s') \<Longrightarrow> limiter_step s s'"
| calloc: "num * n < 2 ^ 31 \<Longrightarrow> iotc_memory_limiter_calloc t num n file line s = (p, s') \<Longrightarrow> limiter_step s s'"
| release: "has_block p s \<Longrightarrow> iotc_memory_limiter_free p s = Some s' \<Longrightarrow> limiter_step s s'"
| set_limit: "n < 2 ^ 31 \<Longrightarrow> iotc_memory_limiter_set_limit n s = (st, s') \<Longrightarrow> limiter_step s s'"

definition initial_limiter :: "(nat \<Rightarrow> nat \<Rightarrow> bool) \<Rightarrow> limiter" where
  "initial_limiter ok =
     \<lparr>ml_mem = empty_mem ok, ml_entry = (\<lambda>p. new_entry NULL 0), ml_head = NULL, ml_cs_state = False, ml_spins = False,
      ml_application_limit = IOTC_MEMORY_LIMITER_APPLICATION_MEMORY_LIMIT,
      ml_total_limit = IOTC_MEMORY_LIMITER_APPLICATION_MEMORY_LIMIT + IOTC_MEMORY_LIMITER_SYSTEM_MEMORY_LIMIT,
      ml_allocated = 0\<rparr>"

definition limiter_reached :: "(nat \<Rightarrow> nat \<Rightarrow> bool) \<Rightarrow> limiter \<Rightarrow> bool" where
  "limiter_reached ok s \<longleftrightarrow> limiter_step\<^sup>*\<^sup>* (initial_limiter ok) s"

lemma initial_limiter_ok: "limiter_ok [] (initial_limiter ok)"
  by (simp add: initial_limiter_def limiter_ok_def limiter_linked_def limiter_counts_def empty_mem_def wf_mem_def
      IOTC_MEMORY_LIMITER_APPLICATION_MEMORY_LIMIT_def IOTC_MEMORY_LIMITER_SYSTEM_MEMORY_LIMIT_def)

lemma set_limit_ok:
  assumes "limiter_ok xs s" and "n < 2 ^ 31" and "iotc_memory_limiter_set_limit n s = (st, s')"
  shows "limiter_ok xs s'"
proof -
  have "to_size (int (ml_allocated s) + int IOTC_MEMORY_LIMITER_SYSTEM_MEMORY_LIMIT)
      = ml_allocated s + IOTC_MEMORY_LIMITER_SYSTEM_MEMORY_LIMIT"
    using assms(1) by (simp add: limiter_ok_def limiter_counts_def IOTC_MEMORY_LIMITER_SYSTEM_MEMORY_LIMIT_def)
  then show ?thesis using assms
    by (auto simp: iotc_memory_limiter_set_limit_def iotc_memory_limiter_get_allocated_space_def Let_def limiter_ok_def
        limiter_counts_def limiter_linked_def split: if_splits)
qed

lemma has_block_entry:
  assumes "limiter_ok xs s" and "has_block p s"
  obtains us e vs where "xs = us @ e # vs" and "p = get_ptr_from_entry e"
proof -
  from assms have "get_entry_from_ptr p \<in> set xs" and p: "p = get_ptr_from_entry (get_entry_from_ptr p)"
    by (auto simp: limiter_ok_def limiter_linked_def has_block_def)
  then show thesis using split_list [of "get_entry_from_ptr p" xs] that by metis
qed

lemma limiter_step_ok:
  assumes "limiter_step s s'" and "limiter_ok xs s"
  shows "\<exists>ys. limiter_ok ys s'"
  using assms(1)
proof cases
  case (alloc n t f l p)
  then show ?thesis using limiter_alloc_ok [OF assms(2)] by metis
next
  case (calloc num n t f l p)
  then have "iotc_memory_limiter_alloc t (num * n) f l s = (p, s')"
    by (simp add: iotc_memory_limiter_calloc_def Let_def flip: of_nat_mult)
  then show ?thesis using limiter_alloc_ok [OF assms(2) calloc(1)] by metis
next
  case (release p)
  obtain us e vs where xs: "xs = us @ e # vs" and p: "p = get_ptr_from_entry e"
    by (rule has_block_entry [OF assms(2) release(1)])
  from assms(2) have l: "limiter_linked (us @ e # vs) s" and c: "limiter_counts (us @ e # vs) s"
    and lk: "\<not> ml_cs_state s" "\<not> ml_spins s" by (auto simp: limiter_ok_def xs)
  from limiter_free_ok [OF l c lk(1)] release(2) p lk(2) show ?thesis
    by (metis limiter_ok_def option.inject)
next
  case (set_limit n st)
  then show ?thesis using set_limit_ok [OF assms(2)] by blast
qed

lemma limiter_reached_ok: "limiter_reached ok s \<Longrightarrow> \<exists>xs. limiter_ok xs s"
  unfolding limiter_reached_def
proof (induction rule: rtranclp_induct)
  case base
  show ?case using initial_limiter_ok by blast
next
  case (step y z)
  then show ?case using limiter_step_ok by blast
qed

section \<open>Reclaiming\<close>

lemma last_entry_segment:
  assumes "dlseg (ml_entry s) p (us @ [e]) NULL" and "\<forall>x\<in>set (us @ [e]). m_live (ml_mem s) x \<noteq> None \<and> x \<noteq> NULL"
  shows "last_entry (first_or us e) s = Some (e, s)"
  using assms
proof (induction us arbitrary: p)
  case Nil
  then show ?case by (subst last_entry.simps) auto
next
  case (Cons u us)
  have "first_or us e \<noteq> NULL" using Cons.prems by (cases us) auto
  with Cons show ?case by (subst last_entry.simps) auto
qed

lemma peel_entries_ok:
  assumes "limiter_linked xs s" and "limiter_counts xs s" and "ml_cs_state s" and "\<not> ml_spins s"
  shows "\<exists>s'. peel_entries (last_or xs NULL) s = Some s' \<and> limiter_linked [] s' \<and> limiter_counts [] s' \<and> ml_cs_state s'
    \<and> \<not> ml_spins s'"
  using assms
proof (induction xs arbitrary: s rule: rev_induct)
  case Nil
  then show ?case by (subst peel_entries.simps) simp
next
  case (snoc e us)
  have ez: "e \<noteq> NULL" using linked_not_null [OF snoc.prems(1)] by auto
  obtain n where n: "m_live (ml_mem s) e = Some n" using linked_live [OF snoc.prems(1)] by auto
  have pe: "en_prev (ml_entry s e) = last_or us NULL" using snoc.prems(1) by (auto simp: limiter_linked_def)
  define s1 where "s1 = s\<lparr>ml_cs_state := False\<rparr>"
  have l1: "limiter_linked (us @ e # []) s1" "limiter_counts (us @ e # []) s1" "\<not> ml_cs_state s1"
    using snoc.prems by (auto simp: s1_def limiter_linked_def limiter_counts_def)
  obtain s2 where f: "iotc_memory_limiter_free (get_ptr_from_entry e) s1 = Some s2" and l2: "limiter_linked us s2"
    "limiter_counts us s2" "\<not> ml_cs_state s2" "ml_spins s2 = ml_spins s1"
    by (rule limiter_free_ok [OF l1]) auto
  have l3: "limiter_linked us (s2\<lparr>ml_cs_state := True\<rparr>)" "limiter_counts us (s2\<lparr>ml_cs_state := True\<rparr>)"
    using l2 by (auto simp: limiter_linked_def limiter_counts_def)
  have sp: "\<not> ml_spins (s2\<lparr>ml_cs_state := True\<rparr>)" using l2(4) snoc.prems(4) by (simp add: s1_def)
  have "peel_entries e s = peel_entries (last_or us NULL) (s2\<lparr>ml_cs_state := True\<rparr>)"
    using ez n pe f l2(3) snoc.prems(3)
    by (subst peel_entries.simps) (simp add: limiter_unlock_def limiter_lock_def s1_def)
  with snoc.IH [OF l3 _ sp] show ?case by simp
qed

lemma limiter_gc_ok:
  assumes "limiter_ok xs s" and "xs \<noteq> []"
  obtains s' where "iotc_memory_limiter_gc s = Some s'" and "limiter_ok [] s'"
proof -
  obtain us e where xs: "xs = us @ [e]" using assms(2) by (cases xs rule: rev_cases) auto
  define s1 where "s1 = s\<lparr>ml_cs_state := True\<rparr>"
  have l: "limiter_linked xs s1" "limiter_counts xs s1" "\<not> ml_cs_state s" "\<not> ml_spins s1"
    using assms(1) by (auto simp: s1_def limiter_ok_def limiter_linked_def limiter_counts_def)
  have h: "ml_head s1 = first_or us e" "dlseg (ml_entry s1) NULL (us @ [e]) NULL" using l(1) by (auto simp: limiter_linked_def xs)
  have nz: "NULL \<notin> set xs" by (rule linked_not_null [OF l(1)])
  have last: "last_entry (ml_head s1) s1 = Some (e, s1)"
    unfolding h(1) using nz linked_live [OF l(1)] xs by (intro last_entry_segment [OF h(2)]) (metis option.simps(3))
  have hz: "ml_head s1 \<noteq> NULL" unfolding h(1) using nz xs by (cases us) auto
  obtain s' where p: "peel_entries e s1 = Some s'" "limiter_linked [] s'" "limiter_counts [] s'" "ml_cs_state s'" "\<not> ml_spins s'"
    using peel_entries_ok [OF l(1,2) _ l(4)] xs by (auto simp: s1_def)
  have "iotc_memory_limiter_gc s = Some (s'\<lparr>ml_cs_state := False\<rparr>)"
    using l(3) last hz p by (simp add: iotc_memory_limiter_gc_def limiter_lock_def limiter_unlock_def s1_def [symmetric] Let_def)
  moreover have "limiter_ok [] (s'\<lparr>ml_cs_state := False\<rparr>)"
    using p by (simp add: limiter_ok_def limiter_linked_def limiter_counts_def)
  ultimately show thesis by (rule that)
qed

section \<open>Properties\<close>


text \<open>A reached state with two blocks, from requests of 24 and of 1024 bytes.\<close>

definition two_blocks :: limiter where
  "two_blocks = snd (iotc_memory_limiter_alloc IOTC_MEMORY_LIMITER_ALLOCATION_TYPE_SYSTEM 1024 50 2
     (snd (iotc_memory_limiter_alloc IOTC_MEMORY_LIMITER_ALLOCATION_TYPE_APPLICATION 24 50 1 (initial_limiter (\<lambda>i n. True)))))"

lemma two_blocks_reached: "limiter_reached (\<lambda>i n. True) two_blocks"
proof -
  obtain p s1 where a: "iotc_memory_limiter_alloc IOTC_MEMORY_LIMITER_ALLOCATION_TYPE_APPLICATION 24 50 1
      (initial_limiter (\<lambda>i n. True)) = (p, s1)" by fastforce
  obtain q s2 where b: "iotc_memory_limiter_alloc IOTC_MEMORY_LIMITER_ALLOCATION_TYPE_SYSTEM 1024 50 2 s1 = (q, s2)" by fastforce
  have "limiter_step (initial_limiter (\<lambda>i n. True)) s1" "limiter_step s1 s2"
    using limiter_step.alloc [OF _ a] limiter_step.alloc [OF _ b] by simp_all
  then show ?thesis using a b by (simp add: limiter_reached_def two_blocks_def)
qed

lemmas limiter_eval = two_blocks_def iotc_memory_limiter_alloc_def iotc_memory_limiter_realloc_def initial_limiter_def
  limiter_lock_def limiter_unlock_def iotc_memory_limiter_will_allocation_fit_def limit_of_def push_entry_def unlink_entry_def
  clear_entry_def write_entry_def touch_entry_def new_entry_def empty_mem_def iotc_alloc_def iotc_bsp_mem_alloc_def iotc_realloc_def
  iotc_bsp_mem_realloc_def iotc_bsp_mem_free_def sizeof_limiter_entry_def IOTC_MEMORY_LIMITER_APPLICATION_MEMORY_LIMIT_def
  IOTC_MEMORY_LIMITER_SYSTEM_MEMORY_LIMIT_def get_ptr_from_entry_def get_entry_from_ptr_def


text \<open>A request of the application leaves the reserve of the system untouched.\<close>

lemma limiter_reserve:
  assumes "limiter_reached ok s" and "n < 2 ^ 31"
    and "iotc_memory_limiter_alloc_application n f l s = (p, s')" and "p \<noteq> NULL"
  shows "ml_allocated s' + IOTC_MEMORY_LIMITER_SYSTEM_MEMORY_LIMIT \<le> ml_total_limit s"
proof -
  from limiter_reached_ok [OF assms(1)] obtain xs where ok: "limiter_ok xs s" by blast
  have a: "iotc_memory_limiter_alloc IOTC_MEMORY_LIMITER_ALLOCATION_TYPE_APPLICATION n f l s = (p, s')"
    using assms(3) by (simp add: iotc_memory_limiter_alloc_application_def)
  show ?thesis
    by (rule limiter_alloc_ok [OF ok assms(2) a])
      (use assms(4) ok in \<open>auto simp: limit_of_def limiter_ok_def limiter_counts_def\<close>)
qed



text \<open>Without a block the lock stays taken, and every later operation waits for it.\<close>

lemma limiter_gc_empty_keeps_lock:
  assumes "ml_head s = NULL" and "\<not> ml_cs_state s"
  shows "iotc_memory_limiter_gc s = Some (s\<lparr>ml_cs_state := True\<rparr>)
    \<and> ml_spins (limiter_lock (s\<lparr>ml_cs_state := True\<rparr>))"
  using assms by (simp add: iotc_memory_limiter_gc_def limiter_lock_def)

text \<open>
  Resizing a block that is not the most recent one breaks the list: the moved header keeps the link back to its old neighbour, so
  that releasing the block afterwards leaves the list's head at the header that has been released.
\<close>

theorem limiter_realloc_dangles:
  assumes "limiter_reached ok s" and "has_block p s" and "get_entry_from_ptr p \<noteq> ml_head s"
    and re: "iotc_memory_limiter_realloc t p n f l s = (q, s1)" and q: "q \<noteq> NULL"
  shows "\<exists>s2. iotc_memory_limiter_free q s1 = Some s2 \<and> ml_head s2 = get_entry_from_ptr q
    \<and> m_live (ml_mem s2) (ml_head s2) = None"
proof -
  from limiter_reached_ok [OF assms(1)] obtain xs where ok: "limiter_ok xs s" by blast
  obtain us e vs where xs: "xs = us @ e # vs" and p: "p = get_ptr_from_entry e" by (rule has_block_entry [OF ok assms(2)])
  have us: "us \<noteq> []" using assms(3) ok p by (auto simp: limiter_ok_def limiter_linked_def xs)
  define s0 where "s0 = s\<lparr>ml_cs_state := True\<rparr>"
  have l: "limiter_linked (us @ e # vs) s0" "\<not> ml_cs_state s" using ok by (auto simp: s0_def limiter_ok_def limiter_linked_def xs)
  obtain k where k: "m_live (ml_mem s0) e = Some k" using linked_live [OF l(1)] by auto
  define s3 where "s3 = unlink_entry e s0"
  note u = unlink_entry_segments [OF l(1) s3_def]
  define r where "r = to_size (int n + int sizeof_limiter_entry)"
  obtain g m where g: "iotc_realloc e r (ml_mem s3) = (g, m)" by fastforce
  define h where "h = first_or us NULL"
  define w where "w = last_or us NULL"
  have live: "\<And>x. x \<in> set us \<Longrightarrow> \<exists>n. m_live (ml_mem s0) x = Some n" using linked_live [OF l(1)] by auto
  have nz: "NULL \<notin> set us" "e \<notin> set us" using linked_not_null [OF l(1)] l(1) by (auto simp: limiter_linked_def)
  have hw: "h \<in> set us" "w \<in> set us" using us by (simp_all add: h_def w_def first_or_in last_or_in)
  have hd: "ml_head s3 = h" using u(3) us by (simp add: h_def first_or_def split: list.splits)
  have pe: "en_prev (ml_entry s3 e) = w" using u(5) l(1) by (auto simp: limiter_linked_def w_def)
  have wf: "wf_mem (ml_mem s0)" using l(1) by (simp add: limiter_linked_def)
  have gz: "g \<noteq> NULL" and q': "q = get_ptr_from_entry g"
    and s1: "\<exists>c. s1 = limiter_unlock ((write_entry g (\<lambda>x. x\<lparr>en_size := r\<rparr>) (push_entry g
      (s3\<lparr>ml_mem := m, ml_entry := (ml_entry s3)(g := (ml_entry s3 e)\<lparr>en_file := f, en_line := l\<rparr>)\<rparr>)))\<lparr>ml_allocated := c\<rparr>)"
    using re q p l(2) k g
    by (auto simp: iotc_memory_limiter_realloc_def Let_def limiter_lock_def s0_def [symmetric] s3_def [symmetric] r_def [symmetric]
        split: if_splits)
  have fr: "m_live (ml_mem s0) g = None" "g \<noteq> e" "m_live m = (m_live (ml_mem s0))(g \<mapsto> r, e := None)"
    using g gz wf k u(6)
    by (auto simp: iotc_realloc_def iotc_bsp_mem_realloc_def iotc_bsp_mem_alloc_def iotc_bsp_mem_free_def wf_mem_def
        split: prod.splits if_splits)
  have gus: "g \<notin> set us" using live fr(1) by fastforce
  have ne: "h \<noteq> NULL" "w \<noteq> NULL" "h \<noteq> e" "w \<noteq> e" "h \<noteq> g" "w \<noteq> g" using hw nz gus by metis+
  obtain kh kw where kk: "m_live m h = Some kh" "m_live m w = Some kw" "m_live m g = Some r"
    using live [OF hw(1)] live [OF hw(2)] ne fr by auto
  define f4 where "f4 = (ml_entry s3)(h := (ml_entry s3 h)\<lparr>en_prev := g\<rparr>,
    g := (ml_entry s3 e)\<lparr>en_file := f, en_line := l, en_next := h, en_size := r\<rparr>)"
  have "\<exists>c. s1 = s3\<lparr>ml_mem := m, ml_head := g, ml_entry := f4, ml_allocated := c, ml_cs_state := False\<rparr>"
    using s1 hd ne kk u(7) by (auto simp: push_entry_def write_live limiter_unlock_def s0_def f4_def)
  then obtain c where c: "s1 = s3\<lparr>ml_mem := m, ml_head := g, ml_entry := f4, ml_allocated := c, ml_cs_state := False\<rparr>" ..
  have f4: "en_prev (f4 g) = w" "en_next (f4 g) = h" using ne pe by (simp_all add: f4_def)
  define s2 where "s2 = s1\<lparr>ml_cs_state := True\<rparr>"
  have vis: "iotc_memory_limiter_entry_list_visitor (\<lambda>x. x = g) (ml_head s2) s2 = Some (g, s2)"
    using gz c by (subst iotc_memory_limiter_entry_list_visitor.simps) (simp add: s2_def)
  have un: "unlink_entry g s2 = s2\<lparr>ml_entry := (f4(w := (f4 w)\<lparr>en_next := h\<rparr>))(h := ((f4(w := (f4 w)\<lparr>en_next := h\<rparr>)) h)\<lparr>en_prev := w\<rparr>)\<rparr>"
    using f4 ne kk by (simp add: unlink_entry_def Let_def write_live s2_def c)
  have "iotc_memory_limiter_free q s1 \<noteq> None
    \<and> (\<forall>s'. iotc_memory_limiter_free q s1 = Some s' \<longrightarrow> ml_head s' = g \<and> m_live (ml_mem s') g = None)"
    using q' vis un kk gz c
    by (simp add: iotc_memory_limiter_free_def limiter_lock_def limiter_unlock_def s2_def Let_def iotc_free_def iotc_bsp_mem_free_def)
  then show ?thesis using q' by auto
qed

theorem limiter_realloc_dangles_witness:
  "\<exists>s2. iotc_memory_limiter_free 179 (snd (iotc_memory_limiter_realloc IOTC_MEMORY_LIMITER_ALLOCATION_TYPE_APPLICATION 177 100 50 3
        two_blocks)) = Some s2
    \<and> ml_head s2 = get_entry_from_ptr 179 \<and> m_live (ml_mem s2) (ml_head s2) = None"
proof -
  have b: "has_block 177 two_blocks"
    by (simp add: has_block_def limiter_eval Let_def)
  have h: "get_entry_from_ptr 177 \<noteq> ml_head two_blocks"
    by (simp add: limiter_eval Let_def)
  have r: "fst (iotc_memory_limiter_realloc IOTC_MEMORY_LIMITER_ALLOCATION_TYPE_APPLICATION 177 100 50 3 two_blocks) = 179"
    by (simp add: limiter_eval Let_def)
  show ?thesis
    by (rule limiter_realloc_dangles [OF two_blocks_reached b h surjective_pairing [of
          "iotc_memory_limiter_realloc IOTC_MEMORY_LIMITER_ALLOCATION_TYPE_APPLICATION 177 100 50 3 two_blocks", unfolded r]]) simp
qed

text \<open>
  A request of nearly the whole address space is granted: the size with the header wraps around, passes the limit, and the user gets
  a block that is smaller than a header, behind whose end the header is written.
\<close>

theorem limiter_alloc_wraps:
  assumes "limiter_reached ok s" and "2 ^ 64 - sizeof_limiter_entry \<le> n" and "n < 2 ^ 64"
    and al: "iotc_memory_limiter_alloc t n f l s = (p, s')" and p: "p \<noteq> NULL"
  shows "m_live (ml_mem s') (get_entry_from_ptr p) = Some (n + sizeof_limiter_entry - 2 ^ 64) \<and> m_bad (ml_mem s')"
proof -
  from limiter_reached_ok [OF assms(1)] obtain xs where ok: "limiter_ok xs s" by blast
  define r where "r = n + sizeof_limiter_entry - 2 ^ 64"
  have lt: "r < sizeof_limiter_entry" "int n + int sizeof_limiter_entry = int r + 2 ^ 64"
    using assms(2,3) by (simp_all add: r_def sizeof_limiter_entry_def)
  have r: "to_size (int n + int sizeof_limiter_entry) = r"
    unfolding lt(2) using lt(1) by (simp add: to_size_def sizeof_limiter_entry_def)
  obtain e m where a: "iotc_alloc r (ml_mem s) = (e, m)" by fastforce
  have e: "p = get_ptr_from_entry e" "e \<noteq> NULL"
    using al p a r ok
    by (auto simp: iotc_memory_limiter_alloc_def Let_def limiter_lock_def limiter_ok_def split: if_splits)
  have w: "wf_mem (ml_mem s)" using ok by (simp add: limiter_ok_def limiter_linked_def)
  have lv: "m_live m e = Some r" using alloc_live [OF w a e(2)] by simp
  have mem: "m_live (ml_mem (push_entry e (clear_entry e r f l z))) = m_live (ml_mem z)
      \<and> (m_bad (ml_mem (push_entry e (clear_entry e r f l z))))" for z
    using lt(1) by (auto simp: push_entry_def clear_entry_def write_entry_def touch_entry_def Let_def)
  have "\<exists>c. s' = limiter_unlock ((write_entry e (\<lambda>x. x\<lparr>en_size := r\<rparr>) (push_entry e (clear_entry e r f l
      (s\<lparr>ml_cs_state := True, ml_mem := m\<rparr>))))\<lparr>ml_allocated := c\<rparr>)"
    using al p a ok e
    by (auto simp: iotc_memory_limiter_alloc_def Let_def limiter_lock_def r limiter_ok_def split: if_splits)
  then have "ml_mem s' = ml_mem (write_entry e (\<lambda>x. x\<lparr>en_size := r\<rparr>) (push_entry e (clear_entry e r f l
      (s\<lparr>ml_cs_state := True, ml_mem := m\<rparr>))))"
    by (auto simp: limiter_unlock_def)
  with mem [of "s\<lparr>ml_cs_state := True, ml_mem := m\<rparr>"] lv show ?thesis
    by (simp add: e(1) write_entry_def touch_entry_def Let_def) (simp add: r_def)
qed

theorem limiter_alloc_wraps_witness:
  "m_live (ml_mem (snd (iotc_memory_limiter_alloc IOTC_MEMORY_LIMITER_ALLOCATION_TYPE_APPLICATION (2 ^ 64 - 76) 50 3 two_blocks)))
     (get_entry_from_ptr 179) = Some (2 ^ 64 - 76 + sizeof_limiter_entry - 2 ^ 64)
   \<and> m_bad (ml_mem (snd (iotc_memory_limiter_alloc IOTC_MEMORY_LIMITER_ALLOCATION_TYPE_APPLICATION (2 ^ 64 - 76) 50 3 two_blocks)))"
proof -
  have r: "fst (iotc_memory_limiter_alloc IOTC_MEMORY_LIMITER_ALLOCATION_TYPE_APPLICATION (2 ^ 64 - 76) 50 3 two_blocks) = 179"
    by (simp add: limiter_eval Let_def to_size_def)
  show ?thesis
    by (rule limiter_alloc_wraps [OF two_blocks_reached _ _ surjective_pairing [of
          "iotc_memory_limiter_alloc IOTC_MEMORY_LIMITER_ALLOCATION_TYPE_APPLICATION (2 ^ 64 - 76) 50 3 two_blocks", unfolded r]])
      (simp_all add: sizeof_limiter_entry_def)
qed

text \<open>The subtraction is one of signed 32 bit numbers: beyond two gigabytes a release resets the counter.\<close>

lemma limiter_free_resets:
  assumes "2 ^ 31 \<le> ml_allocated s" and "ml_allocated s < 2 ^ 32" and "ml_head s = e" and "m_live (ml_mem s) e \<noteq> None" and "e \<noteq> NULL"
    and "\<not> ml_cs_state s" and "2 ^ 31 + en_size (ml_entry s e) \<le> ml_allocated s"
    and "iotc_memory_limiter_free (get_ptr_from_entry e) s = Some s'"
  shows "ml_allocated s' = 0"
proof -
  define a where "a = int (ml_allocated s) - 2 ^ 32"
  have a: "int (ml_allocated s) = a + 2 ^ 32" "- (2 ^ 31) \<le> a" "a < 0" using assms(1,2) by (auto simp: a_def)
  have "to_int32 (a + 2 ^ 32) = to_int32 a"
    unfolding to_int32_def using mod_add_self2 [of "a + 2 ^ 31" "2 ^ 32"] by (simp add: add.commute add.left_commute)
  then have 1: "to_int32 (int (ml_allocated s)) = a" using a by simp
  have 2: "to_int32 (int (en_size (ml_entry s e))) = int (en_size (ml_entry s e))" using assms(2,7) by simp
  have 3: "to_int32 (a - int (en_size (ml_entry s e))) = a - int (en_size (ml_entry s e))" using a assms(7) by simp
  have un: "ml_allocated (unlink_entry e z) = ml_allocated z" for z
    by (simp add: unlink_entry_def write_entry_def touch_entry_def Let_def)
  show ?thesis
    using assms(3-6,8) 1 2 3 a(3) un
    by (auto simp: iotc_memory_limiter_free_def limiter_lock_def limiter_unlock_def Let_def
        iotc_memory_limiter_entry_list_visitor.simps [of _ e] touch_entry_def split: if_splits)
qed

end
