(* ===== verification/Iotc_Context.thy ===== *)
theory Iotc_Context
  imports Iotc_Handle Iotc_Timed_Task Iotc_Mqtt_Logic
begin

text \<open>
  The contexts of the library: the global data of \<^verbatim>\<open>src/libiotc/iotc_globals.h\<close>, the chain of layers of
  \<^verbatim>\<open>src/libiotc/iotc_layer_chain.h\<close> and \<^verbatim>\<open>src/libiotc/iotc_layer_factory.h\<close>, and the creation and deletion of contexts in
  \<^verbatim>\<open>src/libiotc/iotc.c\<close>.

  The state extends that of the layers by the global data and by the blocks of all contexts, each known by its address. The
  handle \<^verbatim>\<open>connect_handler\<close> of a context is known by the context's address in the store of time event handles. Contexts
  use the global dispatcher, which is the dispatcher of the state. The table of layer types is
  static data and a parameter. The threads are disabled, so that the pool of threads is a null pointer.
\<close>

section \<open>The state\<close>

datatype shutdown_state = IOTC_SHUTDOWN_UNINITIALISED | IOTC_SHUTDOWN_STARTED

record context_block =
  ct_top :: ptr
  ct_bottom :: ptr
  ct_copy_handlers :: "vec option"
  ct_copy_q12 :: "ptr list"
  ct_io_timeouts :: "vec option"
  ct_connection :: "connection_data option"
  ct_connection_callback :: event_handle
  ct_shutdown_state :: shutdown_state
  ct_files :: ptr
  ct_file_names :: "ptr list"

record api = mqtt +
  gl_network_timeout :: nat
  gl_ref_count :: nat
  gl_evtd :: ptr
  gl_contexts :: "vec option"
  gl_tasks :: "(ptr \<times> vec option \<times> ptr) option"
  ap_ctx :: "ptr \<Rightarrow> context_block"
  ap_layer_context :: "ptr \<Rightarrow> ptr"

record layer_type =
  lt_id :: nat
  lt_interface :: layer_interface

definition sizeof_context :: nat where "sizeof_context = 216"
definition sizeof_layer :: nat where "sizeof_layer = 64"
definition IOTC_MAX_NUM_CONTEXTS :: int where "IOTC_MAX_NUM_CONTEXTS = 2"

definition zeroed_context :: context_block where
  "zeroed_context = \<lparr>ct_top = NULL, ct_bottom = NULL, ct_copy_handlers = None, ct_copy_q12 = [], ct_io_timeouts = None,
     ct_connection = None, ct_connection_callback = zeroed_handle, ct_shutdown_state = IOTC_SHUTDOWN_UNINITIALISED,
     ct_files = NULL, ct_file_names = []\<rparr>"

definition upd_ctx :: "ptr \<Rightarrow> (context_block \<Rightarrow> context_block) \<Rightarrow> 'z api_scheme \<Rightarrow> 'z api_scheme" where
  "upd_ctx c f s = s\<lparr>ap_ctx := (ap_ctx s)(c := f (ap_ctx s c))\<rparr>"

text \<open>An access through a null pointer marks the heap.\<close>

definition mark_bad :: "bool \<Rightarrow> 'z evtd_scheme \<Rightarrow> 'z evtd_scheme" where
  "mark_bad b s = (if b then on_mem (\<lambda>m. m\<lparr>m_bad := True\<rparr>) s else s)"

definition null_vector :: vec where
  "null_vector = \<lparr>v_self = NULL, v_array = NULL, v_elems = [], v_elem_no = 0, v_capacity = 0,
     v_memory_type = IOTC_MEMORY_TYPE_UNKNOWN\<rparr>"

definition destroy_vector :: "vec option \<Rightarrow> mem \<Rightarrow> mem" where
  "destroy_vector v m = (case v of None \<Rightarrow> m\<lparr>m_bad := True\<rparr> | Some x \<Rightarrow> iotc_vector_destroy x m)"

definition contexts :: "'z api_scheme \<Rightarrow> vec" where
  "contexts s = (case gl_contexts s of None \<Rightarrow> null_vector | Some v \<Rightarrow> v)"

definition touch_contexts :: "'z api_scheme \<Rightarrow> 'z api_scheme" where
  "touch_contexts s = mark_bad (gl_contexts s = None) s"

section \<open>Layers\<close>

definition default_layer_heap_alloc :: "layer_type \<Rightarrow> 'z layered_scheme \<Rightarrow> ptr \<times> 'z layered_scheme" where
  "default_layer_heap_alloc type s =
     (case iotc_alloc sizeof_layer (ev_mem s) of (ret, m) \<Rightarrow>
        if ret = NULL then (NULL, s\<lparr>ev_mem := m\<rparr>)
        else (ret, s\<lparr>ev_mem := m, ly_at := (ly_at s)(ret :=
               \<lparr>ly_funcs = lt_interface type, ly_next = NULL, ly_prev = NULL, ly_type_id = lt_id type,
                ly_user_data = NULL, ly_state = IOTC_LAYER_STATE_NONE\<rparr>)\<rparr>))"

definition default_layer_heap_free :: "ptr \<Rightarrow> 'z layered_scheme \<Rightarrow> 'z layered_scheme" where
  "default_layer_heap_free layer s = on_mem (iotc_free layer) s"

definition iotc_layer_alloc :: "nat \<Rightarrow> layer_type list \<Rightarrow> 'z layered_scheme \<Rightarrow> ptr \<times> 'z layered_scheme" where
  "iotc_layer_alloc layer_type_id layer_types s = default_layer_heap_alloc (layer_types ! layer_type_id) s"

text \<open>The type of the layer is read first.\<close>

definition iotc_layer_free :: "ptr \<Rightarrow> 'z layered_scheme \<Rightarrow> 'z layered_scheme" where
  "iotc_layer_free layer s = default_layer_heap_free layer (mark_bad (layer = NULL) s)"

definition iotc_layer_placement_create :: "ptr \<Rightarrow> ptr \<Rightarrow> ptr \<Rightarrow> 'z api_scheme \<Rightarrow> 'z api_scheme" where
  "iotc_layer_placement_create layer udata context_data s =
     s\<lparr>ly_at := (ly_at s)(layer := (ly_at s layer)\<lparr>ly_user_data := udata\<rparr>),
       ap_layer_context := (ap_layer_context s)(layer := context_data)\<rparr>"

definition iotc_layer_create :: "nat \<Rightarrow> ptr \<Rightarrow> ptr \<Rightarrow> layer_type list \<Rightarrow> 'z api_scheme \<Rightarrow> ptr \<times> 'z api_scheme" where
  "iotc_layer_create layer_type_id udata context_data layer_types s =
     (case iotc_layer_alloc layer_type_id layer_types s of (ret, s1) \<Rightarrow>
        if ret = NULL then (NULL, s1)
        else (ret, iotc_layer_placement_create ret udata context_data s1))"

definition iotc_layer_delete :: "ptr \<Rightarrow> 'z layered_scheme \<Rightarrow> 'z layered_scheme" where
  "iotc_layer_delete layer s = iotc_layer_free layer s"

section \<open>The chain\<close>

fun create_layers :: "nat list \<Rightarrow> ptr \<Rightarrow> layer_type list \<Rightarrow> 'z api_scheme \<Rightarrow> ptr list \<times> 'z api_scheme" where
  "create_layers [] context_data layer_types s = ([], s)"
| "create_layers (i # layers_ids) context_data layer_types s =
     (case iotc_layer_create i NULL context_data layer_types s of (l, s1) \<Rightarrow>
      case create_layers layers_ids context_data layer_types s1 of (ls, s2) \<Rightarrow> (l # ls, s2))"

fun connect_layers :: "ptr list \<Rightarrow> 'z layered_scheme \<Rightarrow> 'z layered_scheme" where
  "connect_layers (a # b # layers) s =
     connect_layers (b # layers) (IOTC_LAYERS_CONNECT a b (mark_bad (a = NULL \<or> b = NULL) s))"
| "connect_layers layers s = s"

text \<open>The result is the bottom and the top of the chain.\<close>

definition iotc_layer_chain_connect :: "ptr list \<Rightarrow> 'z layered_scheme \<Rightarrow> (ptr \<times> ptr) \<times> 'z layered_scheme" where
  "iotc_layer_chain_connect layers s = ((layers ! 0, layers ! (length layers - 1)), connect_layers layers s)"

definition iotc_layer_chain_create ::
    "nat list \<Rightarrow> ptr \<Rightarrow> layer_type list \<Rightarrow> 'z api_scheme \<Rightarrow> (ptr \<times> ptr) \<times> 'z api_scheme" where
  "iotc_layer_chain_create layers_ids context_data layer_types s =
     (case create_layers layers_ids context_data layer_types s of (layers, s1) \<Rightarrow> iotc_layer_chain_connect layers s1)"

text \<open>The layers of the chain are written into an array of \<open>len\<close> pointers.\<close>

definition put_layer :: "nat \<Rightarrow> ptr \<Rightarrow> ptr list \<Rightarrow> 'z evtd_scheme \<Rightarrow> ptr list \<times> 'z evtd_scheme" where
  "put_layer idx layer layers s = (layers[idx := layer], mark_bad (length layers \<le> idx) s)"

partial_function (option) disconnect_layers ::
    "ptr \<Rightarrow> ptr \<Rightarrow> nat \<Rightarrow> ptr list \<Rightarrow> 'z layered_scheme \<Rightarrow> (ptr list \<times> 'z layered_scheme) option" where
  "disconnect_layers prev tmp idx layers s =
     (if tmp = NULL then Some (layers, s)
      else
        (let s1 = IOTC_LAYERS_DISCONNECT prev tmp s;
             next = ly_next (ly_at s1 tmp);
             idx1 = to_u8 (Suc idx)
         in case put_layer idx1 tmp layers s1 of (layers1, s2) \<Rightarrow> disconnect_layers tmp next idx1 layers1 s2))"

definition iotc_layer_chain_delete :: "ptr \<Rightarrow> nat \<Rightarrow> 'z layered_scheme \<Rightarrow> 'z layered_scheme option" where
  "iotc_layer_chain_delete b len s =
     (case put_layer 0 b (replicate len NULL) (mark_bad (b = NULL) s) of (layers, s1) \<Rightarrow>
        (case disconnect_layers b (ly_next (ly_at s1 b)) 0 layers s1 of
           None \<Rightarrow> None
         | Some (layers1, s2) \<Rightarrow> Some (fold iotc_layer_delete layers1 s2)))"

section \<open>Creating a context\<close>

text \<open>Where the static tables are.\<close>

definition backoff_lut_address :: ptr where "backoff_lut_address = 101"
definition decay_lut_address :: ptr where "decay_lut_address = 102"

text \<open>
  The global data of the first context. The result says with which state the code jumps to its error handling, if it does: the
  failure of the configuration of the backoff is noticed but its state is not stored.
\<close>

definition create_globals :: "'z api_scheme \<Rightarrow> iotc_state option \<times> 'z api_scheme" where
  "create_globals s =
     (case iotc_evtd_create_instance (ev_te s) (ev_next s) (ev_queued s) (ev_fd s) (evtd.more s) (ev_mem s) of (inst, m) \<Rightarrow>
        (let s1 = (case inst of None \<Rightarrow> s\<lparr>ev_mem := m, gl_evtd := NULL\<rparr> | Some e \<Rightarrow> e\<lparr>gl_evtd := ev_self e\<rparr>)
         in case iotc_backoff_configure_using_data (Some (backoff_lut_address, IOTC_BACKOFF_LUT))
                   (Some (decay_lut_address, IOTC_DECAY_LUT)) (length IOTC_BACKOFF_LUT) IOTC_MEMORY_TYPE_UNMANAGED
                   (gl_backoff s1) (ev_mem s1) of (st, b, m1) \<Rightarrow>
              (let s2 = s1\<lparr>gl_backoff := b, ev_mem := m1\<rparr>
               in if st \<noteq> IOTC_STATE_OK then (Some IOTC_STATE_OK, s2)
                  else if gl_evtd s2 = NULL then (Some IOTC_OUT_OF_MEMORY, s2)
                  else
                    (case iotc_vector_create (ev_mem s2) of (v, m2) \<Rightarrow>
                     case iotc_make_timed_task_container m2 of (c, m3) \<Rightarrow>
                       (None, s2\<lparr>gl_contexts := v, gl_tasks := c, ev_mem := m3\<rparr>)))))"

text \<open>From the allocation of the context on.\<close>

definition create_block :: "layer_type list \<Rightarrow> nat list \<Rightarrow> 'z api_scheme \<Rightarrow> iotc_state \<times> ptr \<times> 'z api_scheme" where
  "create_block layer_config layer_chain s =
     (case iotc_alloc sizeof_context (ev_mem s) of (p, m) \<Rightarrow>
        if p = NULL then (IOTC_OUT_OF_MEMORY, NULL, s\<lparr>ev_mem := m\<rparr>)
        else
          (let s1 = s\<lparr>ev_mem := m, ev_te := (ev_te s)\<lparr>te_hnd := (te_hnd (ev_te s))(p := NULL)\<rparr>,
                      ap_ctx := (ap_ctx s)(p := zeroed_context)\<rparr>
           in case iotc_vector_create (ev_mem s1) of (v, m1) \<Rightarrow>
                (let s2 = upd_ctx p (\<lambda>c. c\<lparr>ct_io_timeouts := v\<rparr>) (s1\<lparr>ev_mem := m1\<rparr>)
                 in if v = None then (IOTC_OUT_OF_MEMORY, NULL, on_mem (IOTC_SAFE_FREE p) s2)
                    else
                      (case iotc_layer_chain_create layer_chain p layer_config s2 of ((b, t), s3) \<Rightarrow>
                         (let s4 = touch_contexts (upd_ctx p (\<lambda>c. c\<lparr>ct_bottom := b, ct_top := t\<rparr>) s3)
                          in case iotc_register_handle_for_object (contexts s4) IOTC_MAX_NUM_CONTEXTS p (ev_mem s4) of
                               (state, v1, m2) \<Rightarrow>
                                 (let s5 = s4\<lparr>gl_contexts := map_option (\<lambda>x. v1) (gl_contexts s4), ev_mem := m2\<rparr>
                                  in if state \<noteq> IOTC_STATE_OK then (state, NULL, on_mem (IOTC_SAFE_FREE p) s5)
                                     else (IOTC_STATE_OK, p, s5)))))))"

definition iotc_create_context_with_custom_layers ::
    "layer_type list \<Rightarrow> nat list \<Rightarrow> 'z api_scheme \<Rightarrow> iotc_state \<times> ptr \<times> 'z api_scheme" where
  "iotc_create_context_with_custom_layers layer_config layer_chain s =
     (let s1 = s\<lparr>gl_ref_count := to_u8 (gl_ref_count s + 1)\<rparr>
      in case (if gl_ref_count s1 = 1 then create_globals s1 else (None, s1)) of
           (Some st, s2) \<Rightarrow> (st, NULL, s2)
         | (None, s2) \<Rightarrow> create_block layer_config layer_chain s2)"

definition iotc_create_context :: "layer_type list \<Rightarrow> nat list \<Rightarrow> 'z api_scheme \<Rightarrow> int \<times> 'z api_scheme" where
  "iotc_create_context layer_types_g default_chain s =
     (case iotc_create_context_with_custom_layers layer_types_g default_chain s of (state, c, s1) \<Rightarrow>
        if state \<noteq> IOTC_STATE_OK then (- state_code state, s1)
        else
          (let s2 = touch_contexts s1
           in case iotc_find_handle_for_object (contexts s2) c of (state, context_handle) \<Rightarrow>
                if state \<noteq> IOTC_STATE_OK then (- state_code state, s2) else (context_handle, s2)))"

section \<open>Deleting a context\<close>

definition free_names :: "ptr list \<Rightarrow> mem \<Rightarrow> mem" where
  "free_names names m = fold IOTC_SAFE_FREE names m"

definition iotc_free_context_data :: "ptr \<Rightarrow> 'z api_scheme \<Rightarrow> 'z api_scheme" where
  "iotc_free_context_data p s =
     (let c = ap_ctx s p;
          s1 = on_mem (destroy_vector (ct_io_timeouts c)) s;
          s2 = upd_ctx p (\<lambda>c. c\<lparr>ct_copy_handlers := None\<rparr>) (free_handlers (ct_copy_handlers c) s1);
          s3 = iotc_mqtt_logic_task_queue_shutdown (ct_copy_q12 c) s2;
          s4 = on_mem (\<lambda>m. IOTC_SAFE_FREE (ct_files c) (free_names (ct_file_names c) m)) s3
      in upd_ctx p (\<lambda>c. c\<lparr>ct_connection := None\<rparr>) (on_mem (iotc_free_connection_data (ct_connection c)) s4))"

text \<open>The container of the timed tasks on the state of the dispatcher alone.\<close>

definition destroy_tasks :: "(ptr \<times> vec option \<times> ptr) option \<Rightarrow> mem \<Rightarrow> mem" where
  "destroy_tasks c m =
     (case c of None \<Rightarrow> m\<lparr>m_bad := True\<rparr>
      | Some (p, v, cs) \<Rightarrow>
          IOTC_SAFE_FREE p (IOTC_SAFE_FREE cs (destroy_vector v m)))"

lemma destroy_tasks_container:
  assumes "tt_self t = p" and "tt_vec t = v" and "tt_cs t = cs"
  shows "destroy_tasks (Some (p, Some v, cs)) (ev_mem t) = ev_mem (iotc_destroy_timed_task_container t)"
  using assms by (simp add: destroy_tasks_def destroy_vector_def iotc_destroy_timed_task_container_def Let_def)

definition delete_globals :: "'z api_scheme \<Rightarrow> 'z api_scheme" where
  "delete_globals s =
     (let s1 = iotc_cancel_backoff_event (gl_backoff s) s;
          r = iotc_backoff_release (gl_backoff s1) (ev_mem s1);
          s2 = s1\<lparr>gl_backoff := fst r, ev_mem := snd r\<rparr>;
          s3 = the (iotc_evtd_destroy_instance (Some s2));
          s4 = s3\<lparr>gl_evtd := NULL\<rparr>;
          s5 = (on_mem (destroy_vector (gl_contexts s4)) s4)\<lparr>gl_contexts := None\<rparr>
      in (on_mem (destroy_tasks (gl_tasks s5)) s5)\<lparr>gl_tasks := None\<rparr>)"

definition iotc_delete_context_with_custom_layers ::
    "ptr \<Rightarrow> nat \<Rightarrow> 'z api_scheme \<Rightarrow> (iotc_state \<times> 'z api_scheme) option" where
  "iotc_delete_context_with_custom_layers p layer_chain_size s =
     (if p = NULL then Some (IOTC_INVALID_PARAMETER, s)
      else
        (let s0 = touch_contexts s
         in case iotc_delete_handle_for_object (contexts s0) p of (state, v) \<Rightarrow>
              (let s1 = s0\<lparr>gl_contexts := map_option (\<lambda>x. v) (gl_contexts s0)\<rparr>
               in if state \<noteq> IOTC_STATE_OK then Some (IOTC_ELEMENT_NOT_FOUND, s1)
                  else
                    (case iotc_layer_chain_delete (ct_bottom (ap_ctx s1 p)) layer_chain_size s1 of
                       None \<Rightarrow> None
                     | Some s2 \<Rightarrow>
                         (let s3 = on_mem (IOTC_SAFE_FREE p) (iotc_free_context_data p s2);
                              s4 = s3\<lparr>gl_ref_count := to_u8 (gl_ref_count s3 + 255)\<rparr>
                          in Some (IOTC_STATE_OK, if gl_ref_count s4 = 0 then delete_globals s4 else s4))))))"

definition iotc_delete_context :: "nat \<Rightarrow> int \<Rightarrow> 'z api_scheme \<Rightarrow> (iotc_state \<times> 'z api_scheme) option" where
  "iotc_delete_context chain_length context_handle s =
     (let s1 = touch_contexts s
      in iotc_delete_context_with_custom_layers (iotc_object_for_handle (contexts s1) context_handle) chain_length s1)"

end
