(* ===== verification/Iotc_Context_Life.thy ===== *)
theory Iotc_Context_Life
  imports Iotc_Context
begin

text \<open>
  The life of a context: the handle that its creation gives, and that its deletion releases every block that the creation allocated.
\<close>

section \<open>Blocks of what a context is made of\<close>

definition own :: "(ptr \<rightharpoonup> nat) \<Rightarrow> ptr multiset \<Rightarrow> mem \<Rightarrow> bool" where
  "own base M m \<longleftrightarrow> owns_blocks base M m \<and> all_granted m"

definition vec_blocks :: "vec \<Rightarrow> ptr multiset" where
  "vec_blocks v = {#v_self v, v_array v#}"

definition fresh_vector :: "vec \<Rightarrow> bool" where
  "fresh_vector v \<longleftrightarrow> v_memory_type v = IOTC_MEMORY_TYPE_MANAGED \<and> vec_inv v \<and> v_elem_no v = 0 \<and> v_capacity v = 2"

lemma own_wf: "own base M m \<Longrightarrow> wf_mem m"
  by (simp add: own_def owns_blocks_def)

lemma own_alloc:
  assumes "own base M m" and "n < 2 ^ 63"
  obtains p m' where "iotc_alloc n m = (p, m')" and "p \<noteq> NULL" and "own base (add_mset p M) m'"
proof -
  obtain p m' where a: "iotc_alloc n m = (p, m')" by fastforce
  have "m_ok m (m_seq m) n" using assms by (simp add: own_def all_granted_def)
  from alloc_granted [OF own_wf [OF assms(1)] this a] have p: "p \<noteq> NULL" .
  have "own base (add_mset p M) m'"
    using owns_alloc [of base M m n p m'] assms(1) a p all_granted_alloc [OF _ a] by (simp add: own_def)
  with a p show thesis by (rule that)
qed

lemma own_free: "own base (add_mset p M) m \<Longrightarrow> own base M (IOTC_SAFE_FREE p m)"
  by (simp add: own_def owns_free)

lemma own_not_null: "own base M m \<Longrightarrow> p \<in># M \<Longrightarrow> p \<noteq> NULL"
  unfolding own_def owns_blocks_def by metis

lemma own_distinct: "own base (mset ls + M) m \<Longrightarrow> distinct ls"
proof -
  assume "own base (mset ls + M) m"
  then have "count (mset ls) x \<le> 1" for x
    by (metis (no_types, lifting) own_def owns_blocks_def count_union le_add1 order.trans)
  then show "distinct ls" by (metis count_mset_0_iff count_mset_gt_0 distinct_count_atmost_1 gr0_conv_Suc le_antisym less_one not_le)
qed

lemma own_vector_create:
  assumes "own base M m"
  obtains v m' where "iotc_vector_create m = (Some v, m')" and "fresh_vector v" and "own base (vec_blocks v + M) m'"
proof -
  obtain p m1 where a: "iotc_alloc sizeof_vector m = (p, m1)" "p \<noteq> NULL" "own base (add_mset p M) m1"
    by (rule own_alloc [OF assms, of sizeof_vector]) (simp_all add: sizeof_vector_def)
  obtain q m2 where b: "iotc_alloc 16 m1 = (q, m2)" "q \<noteq> NULL" "own base (add_mset q (add_mset p M)) m2"
    by (rule own_alloc [OF a(3), of 16]) simp_all
  show thesis
    by (rule that [of "\<lparr>v_self = p, v_array = q, v_elems = replicate 2 0, v_elem_no = 0, v_capacity = 2,
          v_memory_type = IOTC_MEMORY_TYPE_MANAGED\<rparr>" m2])
      (use a b in \<open>auto simp: iotc_vector_create_def iotc_vector_realloc_def Let_def IOTC_VECTOR_DEFAULT_CAPACITY_def
        sizeof_elem_def vec_blocks_def fresh_vector_def vec_inv_def add_mset_commute\<close>)
qed

lemma own_vector_destroy:
  assumes "own base (vec_blocks v + M) m" and "v_memory_type v = IOTC_MEMORY_TYPE_MANAGED"
  shows "own base M (iotc_vector_destroy v m)"
proof -
  have "own base (add_mset (v_array v) (add_mset (v_self v) M)) m"
    using assms(1) by (simp add: vec_blocks_def add_mset_commute)
  from own_free [OF own_free [OF this]] assms(2) show ?thesis by (simp add: iotc_vector_destroy_def)
qed

section \<open>Layers\<close>

fun layer_links :: "(ptr \<Rightarrow> layer) \<Rightarrow> ptr \<Rightarrow> ptr list \<Rightarrow> bool" where
  "layer_links f p [] \<longleftrightarrow> ly_next (f p) = NULL"
| "layer_links f p (x # xs) \<longleftrightarrow> ly_next (f p) = x \<and> layer_links f x xs"

lemma layer_links_cong:
  "(\<And>x. x \<in> set (p # xs) \<Longrightarrow> ly_next (f x) = ly_next (g x)) \<Longrightarrow> layer_links f p xs = layer_links g p xs"
  by (induction xs arbitrary: p) auto

lemma create_layers_owned:
  assumes "own base M (ev_mem s)"
  obtains ls m at' ctx' where "create_layers ids c types s = (ls, s\<lparr>ev_mem := m, ly_at := at', ap_layer_context := ctx'\<rparr>)"
    and "length ls = length ids" and "own base (mset ls + M) m" and "\<And>x. x \<in> set ls \<Longrightarrow> ly_next (at' x) = NULL"
proof -
  have "\<exists>ls m at' ctx'. create_layers ids c types s = (ls, s\<lparr>ev_mem := m, ly_at := at', ap_layer_context := ctx'\<rparr>)
    \<and> length ls = length ids \<and> own base (mset ls + M) m \<and> (\<forall>x\<in>set ls. ly_next (at' x) = NULL)
    \<and> (\<forall>x\<in>#M. at' x = ly_at s x)"
    using assms
  proof (induction ids arbitrary: s M)
    case Nil
    then show ?case by (intro exI [of _ "[]"] exI [of _ "ev_mem s"] exI [of _ "ly_at s"] exI [of _ "ap_layer_context s"]) simp
  next
    case (Cons i ids)
    obtain p m where a: "iotc_alloc sizeof_layer (ev_mem s) = (p, m)" "p \<noteq> NULL" "own base (add_mset p M) m"
      by (rule own_alloc [OF Cons.prems, of sizeof_layer]) (simp_all add: sizeof_layer_def)
    have pM: "p \<notin># M"
      using a(3) by (auto simp: own_def owns_blocks_def not_in_iff dest: spec [of _ p])
    obtain l where l: "iotc_layer_create i NULL c types s = (p, s\<lparr>ev_mem := m, ly_at := (ly_at s)(p := l),
        ap_layer_context := (ap_layer_context s)(p := c)\<rparr>)" and n: "ly_next l = NULL"
      using a(1,2) by (auto simp: iotc_layer_create_def iotc_layer_alloc_def default_layer_heap_alloc_def
          iotc_layer_placement_create_def)
    define s1 where "s1 = s\<lparr>ev_mem := m, ly_at := (ly_at s)(p := l), ap_layer_context := (ap_layer_context s)(p := c)\<rparr>"
    have "own base (add_mset p M) (ev_mem s1)" using a(3) by (simp add: s1_def)
    from Cons.IH [OF this] obtain ls m2 at2 ctx2 where r: "create_layers ids c types s1 =
        (ls, s1\<lparr>ev_mem := m2, ly_at := at2, ap_layer_context := ctx2\<rparr>)" and len: "length ls = length ids"
      and o: "own base (mset ls + add_mset p M) m2" and z: "\<forall>x\<in>set ls. ly_next (at2 x) = NULL"
      and k: "\<forall>x\<in>#add_mset p M. at2 x = ly_at s1 x" by blast
    have "create_layers (i # ids) c types s = (p # ls, s\<lparr>ev_mem := m2, ly_at := at2, ap_layer_context := ctx2\<rparr>)"
      using l r by (simp add: s1_def)
    moreover have "\<forall>x\<in>set (p # ls). ly_next (at2 x) = NULL" using z k n by (simp add: s1_def)
    moreover have "\<forall>x\<in>#M. at2 x = ly_at s x" using k pM by (auto simp: s1_def)
    ultimately show ?case using len o by (metis length_Cons mset.simps(2) union_mset_add_mset_left union_mset_add_mset_right)
  qed
  then show thesis using that by blast
qed

lemma connect_layers_links:
  assumes "distinct (a # xs)" and "NULL \<notin> set (a # xs)" and "\<forall>x\<in>set (a # xs). ly_next (ly_at s x) = NULL"
  obtains f where "connect_layers (a # xs) s = s\<lparr>ly_at := f\<rparr>" and "layer_links f a xs"
proof -
  have "\<exists>f. connect_layers (a # xs) s = s\<lparr>ly_at := f\<rparr> \<and> layer_links f a xs
    \<and> (\<forall>y. y \<notin> set (a # xs) \<longrightarrow> f y = ly_at s y)"
    using assms
  proof (induction xs arbitrary: a s)
    case Nil
    then show ?case by (intro exI [of _ "ly_at s"]) simp
  next
    case (Cons b xs)
    define s1 where "s1 = IOTC_LAYERS_CONNECT a b s"
    have s1: "s1 = s\<lparr>ly_at := ly_at s1\<rparr>" "ly_next (ly_at s1 a) = b"
      "\<And>y. y \<noteq> a \<Longrightarrow> ly_next (ly_at s1 y) = ly_next (ly_at s y)" "\<And>y. y \<noteq> a \<Longrightarrow> y \<noteq> b \<Longrightarrow> ly_at s1 y = ly_at s y"
      using Cons.prems(1) by (auto simp: s1_def IOTC_LAYERS_CONNECT_def Let_def)
    have "\<forall>x\<in>set (b # xs). x \<noteq> a" using Cons.prems(1) by auto
    with s1(3) Cons.prems(3) have "\<forall>x\<in>set (b # xs). ly_next (ly_at s1 x) = NULL" by simp
    from Cons.IH [OF _ _ this] Cons.prems(1,2) obtain f where f: "connect_layers (b # xs) s1 = s1\<lparr>ly_at := f\<rparr>"
      "layer_links f b xs" "\<forall>y. y \<notin> set (b # xs) \<longrightarrow> f y = ly_at s1 y" by auto
    have "connect_layers (a # b # xs) s = connect_layers (b # xs) s1"
      using Cons.prems(2) by (simp add: s1_def mark_bad_def)
    also have "\<dots> = s\<lparr>ly_at := f\<rparr>" unfolding f(1) by (subst s1(1)) simp
    finally show ?case using f(2,3) s1 Cons.prems(1) by (intro exI [of _ f]) auto
  qed
  then show thesis using that by blast
qed

lemma disconnect_layers_collects:
  assumes "layer_links (ly_at s) p xs" and "distinct (p # xs)" and "NULL \<notin> set (p # xs)"
    and "length layers = Suc idx + length xs" and "length layers < 256"
  obtains f where "disconnect_layers p (ly_next (ly_at s p)) idx layers s = Some (take (Suc idx) layers @ xs, s\<lparr>ly_at := f\<rparr>)"
proof -
  have "\<exists>f. disconnect_layers p (ly_next (ly_at s p)) idx layers s = Some (take (Suc idx) layers @ xs, s\<lparr>ly_at := f\<rparr>)"
    using assms
  proof (induction xs arbitrary: p s idx layers)
    case Nil
    then have "disconnect_layers p (ly_next (ly_at s p)) idx layers s = Some (layers, s)"
      by (simp add: disconnect_layers.simps [of p NULL])
    with Nil.prems(4) show ?case by (intro exI [of _ "ly_at s"]) simp
  next
    case (Cons x xs)
    define s1 where "s1 = IOTC_LAYERS_DISCONNECT p x s"
    have s1: "s1 = s\<lparr>ly_at := ly_at s1\<rparr>" "\<And>y. y \<noteq> p \<Longrightarrow> ly_next (ly_at s1 y) = ly_next (ly_at s y)"
      using Cons.prems(2) by (auto simp: s1_def IOTC_LAYERS_DISCONNECT_def Let_def)
    have "\<forall>y\<in>set (x # xs). y \<noteq> p" using Cons.prems(2) by auto
    then have "layer_links (ly_at s1) x xs = layer_links (ly_at s) x xs"
      using s1(2) by (intro layer_links_cong) blast
    with Cons.prems(1) have l: "layer_links (ly_at s1) x xs" by simp
    have i: "to_u8 (Suc idx) = Suc idx" using Cons.prems(4,5) by simp
    have len: "length (layers[Suc idx := x]) = Suc (Suc idx) + length xs" "length (layers[Suc idx := x]) < 256"
      using Cons.prems(4,5) by simp_all
    from Cons.IH [OF l _ _ len] Cons.prems(2,3) obtain f where
      f: "disconnect_layers x (ly_next (ly_at s1 x)) (Suc idx) (layers[Suc idx := x]) s1
        = Some (take (Suc (Suc idx)) (layers[Suc idx := x]) @ xs, s1\<lparr>ly_at := f\<rparr>)" by auto
    have t: "take (Suc (Suc idx)) (layers[Suc idx := x]) = take (Suc idx) layers @ [x]"
      using Cons.prems(4) by (simp add: take_Suc_conv_app_nth)
    have "disconnect_layers p (ly_next (ly_at s p)) idx layers s
        = disconnect_layers x (ly_next (ly_at s1 x)) (Suc idx) (layers[Suc idx := x]) s1"
      using Cons.prems(1,3,4) i
      by (subst disconnect_layers.simps) (simp add: s1_def [symmetric] put_layer_def mark_bad_def Let_def s1(1) [symmetric])
    also have "\<dots> = Some (take (Suc idx) layers @ x # xs, s\<lparr>ly_at := f\<rparr>)"
      unfolding f t by (subst s1(1)) simp
    finally show ?case by blast
  qed
  then show thesis using that by blast
qed

lemma layers_deleted:
  assumes "own base (mset ls + M) (ev_mem s)"
  obtains m where "fold iotc_layer_delete ls s = s\<lparr>ev_mem := m\<rparr>" and "own base M m"
proof -
  have "\<exists>m. fold iotc_layer_delete ls s = s\<lparr>ev_mem := m\<rparr> \<and> own base M m"
    using assms
  proof (induction ls arbitrary: s)
    case Nil
    then show ?case by (intro exI [of _ "ev_mem s"]) simp
  next
    case (Cons l ls)
    have n: "l \<noteq> NULL" using own_not_null [OF Cons.prems, of l] by simp
    have d: "iotc_layer_delete l s = s\<lparr>ev_mem := IOTC_SAFE_FREE l (ev_mem s)\<rparr>"
      using n by (simp add: iotc_layer_delete_def iotc_layer_free_def default_layer_heap_free_def mark_bad_def on_mem_def
          IOTC_SAFE_FREE_def)
    have "own base (mset ls + M) (ev_mem (s\<lparr>ev_mem := IOTC_SAFE_FREE l (ev_mem s)\<rparr>))"
      using own_free [of base l "mset ls + M" "ev_mem s"] Cons.prems by simp
    from Cons.IH [OF this] show ?case by (auto simp: d)
  qed
  then show thesis using that by blast
qed

section \<open>The global data\<close>

lemma evtd_create_owned:
  assumes "own base M (ev_mem s)"
  obtains p cs timers sockets files m where "iotc_evtd_create_instance (ev_te s) (ev_next s) (ev_queued s) (ev_fd s) (evtd.more s) (ev_mem s)
      = (Some (s\<lparr>ev_self := p, ev_current_step := 0, ev_timers := timers, ev_call_queue := NULL, ev_cs := cs,
          ev_cs_state := False, ev_spins := False, ev_sockets := sockets, ev_files := files, ev_on_empty := zeroed_handle,
          ev_stop := False, ev_mem := m\<rparr>), m)"
    and "p \<noteq> NULL" and "own base ({#p, cs#} + vec_blocks timers + vec_blocks sockets + vec_blocks files + M) m"
    and "fresh_vector timers" and "fresh_vector sockets" and "fresh_vector files"
proof -
  obtain p m1 where 1: "iotc_alloc sizeof_evtd_instance (ev_mem s) = (p, m1)" "p \<noteq> NULL" "own base (add_mset p M) m1"
    by (rule own_alloc [OF assms, of sizeof_evtd_instance]) (simp_all add: sizeof_evtd_instance_def)
  obtain v1 m2 where 2: "iotc_vector_create m1 = (Some v1, m2)" "fresh_vector v1" "own base (vec_blocks v1 + add_mset p M) m2"
    by (rule own_vector_create [OF 1(3)])
  obtain v2 m3 where 3: "iotc_vector_create m2 = (Some v2, m3)" "fresh_vector v2"
    "own base (vec_blocks v2 + (vec_blocks v1 + add_mset p M)) m3" by (rule own_vector_create [OF 2(3)])
  obtain v3 m4 where 4: "iotc_vector_create m3 = (Some v3, m4)" "fresh_vector v3"
    "own base (vec_blocks v3 + (vec_blocks v2 + (vec_blocks v1 + add_mset p M))) m4" by (rule own_vector_create [OF 3(3)])
  obtain cs m5 where 5: "iotc_alloc sizeof_critical_section m4 = (cs, m5)" "cs \<noteq> NULL"
    "own base (add_mset cs (vec_blocks v3 + (vec_blocks v2 + (vec_blocks v1 + add_mset p M)))) m5"
    by (rule own_alloc [OF 4(3), of sizeof_critical_section]) (simp_all add: sizeof_critical_section_def)
  show thesis
  proof (rule that)
    show "iotc_evtd_create_instance (ev_te s) (ev_next s) (ev_queued s) (ev_fd s) (evtd.more s) (ev_mem s)
      = (Some (s\<lparr>ev_self := p, ev_current_step := 0, ev_timers := v1, ev_call_queue := NULL, ev_cs := cs,
          ev_cs_state := False, ev_spins := False, ev_sockets := v2, ev_files := v3, ev_on_empty := zeroed_handle,
          ev_stop := False, ev_mem := m5\<rparr>), m5)"
      using 1(1,2) 2(1) 3(1) 4(1) 5(1,2) by (cases s) (simp add: iotc_evtd_create_instance_def evtd.defs)
    show "own base ({#p, cs#} + vec_blocks v1 + vec_blocks v2 + vec_blocks v3 + M) m5"
      using 5(3) by (simp add: add_ac add_mset_commute)
  qed (use 1 2 3 4 in auto)
qed

text \<open>What the first context allocates besides itself; \<open>b\<close> and \<open>d\<close> are the tables of the backoff.\<close>

definition globals_made :: "(ptr \<rightharpoonup> nat) \<Rightarrow> ptr multiset \<Rightarrow> 'z api_scheme \<Rightarrow> bool" where
  "globals_made base M s \<longleftrightarrow> (\<exists>b d v tp tv tcs. backoff_lut (gl_backoff s) = Some b \<and> decay_lut (gl_backoff s) = Some d
     \<and> v_memory_type b = IOTC_MEMORY_TYPE_UNMANAGED \<and> v_memory_type d = IOTC_MEMORY_TYPE_UNMANAGED
     \<and> gl_contexts s = Some v \<and> v_memory_type v = IOTC_MEMORY_TYPE_MANAGED
     \<and> gl_tasks s = Some (tp, Some tv, tcs) \<and> v_memory_type tv = IOTC_MEMORY_TYPE_MANAGED
     \<and> v_memory_type (ev_timers s) = IOTC_MEMORY_TYPE_MANAGED \<and> v_elem_no (ev_timers s) = 0
     \<and> v_memory_type (ev_sockets s) = IOTC_MEMORY_TYPE_MANAGED \<and> v_memory_type (ev_files s) = IOTC_MEMORY_TYPE_MANAGED
     \<and> \<not> ev_cs_state s \<and> te_hnd (ev_te s) (next_update (gl_backoff s)) = NULL
     \<and> own base ({#ev_self s, ev_cs s, v_self b, v_self d, tp, tcs#} + vec_blocks v + vec_blocks tv
         + vec_blocks (ev_timers s) + vec_blocks (ev_sockets s) + vec_blocks (ev_files s) + M) (ev_mem s))"

lemma create_globals_made:
  assumes o: "own base M (ev_mem s)" and b: "backoff_lut (gl_backoff s) = None" "decay_lut (gl_backoff s) = None"
    and t: "te_hnd (ev_te s) (next_update (gl_backoff s)) = NULL"
  obtains s' v where "create_globals s = (None, s')" and "globals_made base M s'" and "gl_ref_count s' = gl_ref_count s"
    and "gl_contexts s' = Some v" and "fresh_vector v"
proof -
  obtain p cs timers sockets files m where c: "iotc_evtd_create_instance (ev_te s) (ev_next s) (ev_queued s) (ev_fd s)
      (evtd.more s) (ev_mem s)
      = (Some (s\<lparr>ev_self := p, ev_current_step := 0, ev_timers := timers, ev_call_queue := NULL, ev_cs := cs,
          ev_cs_state := False, ev_spins := False, ev_sockets := sockets, ev_files := files, ev_on_empty := zeroed_handle,
          ev_stop := False, ev_mem := m\<rparr>), m)" and p: "p \<noteq> NULL"
    and o1: "own base ({#p, cs#} + vec_blocks timers + vec_blocks sockets + vec_blocks files + M) m"
    and f: "fresh_vector timers" "fresh_vector sockets" "fresh_vector files"
    by (rule evtd_create_owned [OF o])
  define K where "K = {#p, cs#} + vec_blocks timers + vec_blocks sockets + vec_blocks files + M"
  obtain x m1 where x: "iotc_alloc sizeof_vector m = (x, m1)" "x \<noteq> NULL" "own base (add_mset x K) m1"
    by (rule own_alloc [OF o1 [folded K_def], of sizeof_vector]) (simp_all add: sizeof_vector_def)
  obtain y m2 where y: "iotc_alloc sizeof_vector m1 = (y, m2)" "y \<noteq> NULL" "own base (add_mset y (add_mset x K)) m2"
    by (rule own_alloc [OF x(3), of sizeof_vector]) (simp_all add: sizeof_vector_def)
  obtain v m3 where v: "iotc_vector_create m2 = (Some v, m3)" "fresh_vector v"
    "own base (vec_blocks v + add_mset y (add_mset x K)) m3" by (rule own_vector_create [OF y(3)])
  obtain tp m4 where tp: "iotc_alloc sizeof_task_container m3 = (tp, m4)" "tp \<noteq> NULL"
    "own base (add_mset tp (vec_blocks v + add_mset y (add_mset x K))) m4"
    by (rule own_alloc [OF v(3), of sizeof_task_container]) (simp_all add: sizeof_task_container_def)
  obtain tv m5 where tv: "iotc_vector_create m4 = (Some tv, m5)" "fresh_vector tv"
    "own base (vec_blocks tv + add_mset tp (vec_blocks v + add_mset y (add_mset x K))) m5" by (rule own_vector_create [OF tp(3)])
  obtain tcs m6 where tcs: "iotc_alloc sizeof_critical_section m5 = (tcs, m6)" "tcs \<noteq> NULL"
    "own base (add_mset tcs (vec_blocks tv + add_mset tp (vec_blocks v + add_mset y (add_mset x K)))) m6"
    by (rule own_alloc [OF tv(3), of sizeof_critical_section]) (simp_all add: sizeof_critical_section_def)
  define bv where "bv = (\<lambda>q a xs. \<lparr>v_self = q, v_array = a, v_elems = xs, v_elem_no = 10, v_capacity = 10,
    v_memory_type = IOTC_MEMORY_TYPE_UNMANAGED\<rparr>)"
  define s' where "s' = s\<lparr>ev_self := p, ev_current_step := 0, ev_timers := timers, ev_call_queue := NULL, ev_cs := cs,
    ev_cs_state := False, ev_spins := False, ev_sockets := sockets, ev_files := files, ev_on_empty := zeroed_handle,
    ev_stop := False, ev_mem := m6, gl_evtd := p,
    gl_backoff := (gl_backoff s)\<lparr>backoff_lut := Some (bv x backoff_lut_address IOTC_BACKOFF_LUT),
      decay_lut := Some (bv y decay_lut_address IOTC_DECAY_LUT)\<rparr>,
    gl_contexts := Some v, gl_tasks := Some (tp, Some tv, tcs)\<rparr>"
  have cfg: "iotc_backoff_configure_using_data (Some (backoff_lut_address, IOTC_BACKOFF_LUT))
      (Some (decay_lut_address, IOTC_DECAY_LUT)) (length IOTC_BACKOFF_LUT) IOTC_MEMORY_TYPE_UNMANAGED (gl_backoff s) m
    = (IOTC_STATE_OK, (gl_backoff s)\<lparr>backoff_lut := Some (bv x backoff_lut_address IOTC_BACKOFF_LUT),
        decay_lut := Some (bv y decay_lut_address IOTC_DECAY_LUT)\<rparr>, m2)"
    using b x(1,2) y(1,2)
    by (simp add: iotc_backoff_configure_using_data_def iotc_backoff_release_luts_def iotc_vector_create_from_def bv_def
        IOTC_BACKOFF_LUT_def IOTC_DECAY_LUT_def)
  have tk: "iotc_make_timed_task_container m3 = (Some (tp, Some tv, tcs), m6)"
    using tp(1,2) tv(1) tcs(1,2) by (simp add: iotc_make_timed_task_container_def)
  have "create_globals s = (None, s')"
    using p by (simp add: create_globals_def c cfg v(1) tk Let_def) (simp add: s'_def)
  moreover have "own base ({#p, cs, x, y, tp, tcs#} + vec_blocks v + vec_blocks tv
         + vec_blocks timers + vec_blocks sockets + vec_blocks files + M) m6"
    using tcs(3) by (simp add: K_def add_ac add_mset_commute)
  then have "globals_made base M s'"
    using f v(2) tv(2) t by (simp add: globals_made_def s'_def bv_def fresh_vector_def)
  ultimately show thesis by (rule that) (auto simp: s'_def v(2))
qed

lemma delete_globals_releases:
  assumes g: "globals_made base M s"
  shows "own base M (ev_mem (delete_globals s))"
proof -
  from g obtain b d v tp tv tcs where b: "backoff_lut (gl_backoff s) = Some b" "decay_lut (gl_backoff s) = Some d"
    and ty: "v_memory_type b = IOTC_MEMORY_TYPE_UNMANAGED" "v_memory_type d = IOTC_MEMORY_TYPE_UNMANAGED"
      "v_memory_type v = IOTC_MEMORY_TYPE_MANAGED" "v_memory_type tv = IOTC_MEMORY_TYPE_MANAGED"
      "v_memory_type (ev_timers s) = IOTC_MEMORY_TYPE_MANAGED" "v_memory_type (ev_sockets s) = IOTC_MEMORY_TYPE_MANAGED"
      "v_memory_type (ev_files s) = IOTC_MEMORY_TYPE_MANAGED"
    and e: "gl_contexts s = Some v" "gl_tasks s = Some (tp, Some tv, tcs)" "v_elem_no (ev_timers s) = 0" "\<not> ev_cs_state s"
      "te_hnd (ev_te s) (next_update (gl_backoff s)) = NULL"
    and o: "own base ({#ev_self s, ev_cs s, v_self b, v_self d, tp, tcs#} + vec_blocks v + vec_blocks tv
         + vec_blocks (ev_timers s) + vec_blocks (ev_sockets s) + vec_blocks (ev_files s) + M) (ev_mem s)"
    by (auto simp: globals_made_def)
  define m1 where "m1 = IOTC_SAFE_FREE (v_self b) (ev_mem s)"
  define m2 where "m2 = IOTC_SAFE_FREE (v_self d) m1"
  define m3 where "m3 = iotc_vector_destroy (ev_files s) m2"
  define m4 where "m4 = iotc_vector_destroy (ev_sockets s) m3"
  define m5 where "m5 = iotc_vector_destroy (ev_timers s) m4"
  define m6 where "m6 = IOTC_SAFE_FREE (ev_self s) m5"
  define m7 where "m7 = IOTC_SAFE_FREE (ev_cs s) m6"
  define m8 where "m8 = iotc_vector_destroy v m7"
  define m9 where "m9 = iotc_vector_destroy tv m8"
  define m10 where "m10 = IOTC_SAFE_FREE tcs m9"
  define m11 where "m11 = IOTC_SAFE_FREE tp m10"
  have "ev_mem (delete_globals s) = m11"
    using b ty(1,2) e
    by (simp add: delete_globals_def iotc_cancel_backoff_event_def iotc_backoff_release_def iotc_backoff_release_luts_def
        iotc_evtd_destroy_instance_def iotc_lock_critical_section_def iotc_unlock_critical_section_def Let_def
        iotc_time_event_destroy_def iotc_vector_for_each_def vector_for_each_loop.simps on_mem_def destroy_vector_def
        destroy_tasks_def iotc_vector_destroy_def [of b] iotc_vector_destroy_def [of d]
        m11_def m10_def m9_def m8_def m7_def m6_def m5_def m4_def m3_def m2_def m1_def)
  moreover have "own base M m11"
  proof -
    note S = add_ac add_mset_commute
    have "own base ({#ev_self s, ev_cs s, v_self d, tp, tcs#} + vec_blocks v + vec_blocks tv
         + vec_blocks (ev_timers s) + vec_blocks (ev_sockets s) + vec_blocks (ev_files s) + M) m1"
      unfolding m1_def by (rule own_free) (use o in \<open>simp add: S\<close>)
    then have "own base ({#ev_self s, ev_cs s, tp, tcs#} + vec_blocks v + vec_blocks tv
         + vec_blocks (ev_timers s) + vec_blocks (ev_sockets s) + vec_blocks (ev_files s) + M) m2"
      unfolding m2_def by (intro own_free) (simp add: S)
    then have "own base ({#ev_self s, ev_cs s, tp, tcs#} + vec_blocks v + vec_blocks tv
         + vec_blocks (ev_timers s) + vec_blocks (ev_sockets s) + M) m3"
      unfolding m3_def by (intro own_vector_destroy) (simp_all add: S ty)
    then have "own base ({#ev_self s, ev_cs s, tp, tcs#} + vec_blocks v + vec_blocks tv + vec_blocks (ev_timers s) + M) m4"
      unfolding m4_def by (intro own_vector_destroy) (simp_all add: S ty)
    then have "own base ({#ev_self s, ev_cs s, tp, tcs#} + vec_blocks v + vec_blocks tv + M) m5"
      unfolding m5_def by (intro own_vector_destroy) (simp_all add: S ty)
    then have "own base ({#ev_cs s, tp, tcs#} + vec_blocks v + vec_blocks tv + M) m6"
      unfolding m6_def by (intro own_free) (simp add: S)
    then have "own base ({#tp, tcs#} + vec_blocks v + vec_blocks tv + M) m7"
      unfolding m7_def by (intro own_free) (simp add: S)
    then have "own base ({#tp, tcs#} + vec_blocks tv + M) m8"
      unfolding m8_def by (intro own_vector_destroy) (simp_all add: S ty)
    then have "own base ({#tp, tcs#} + M) m9"
      unfolding m9_def by (intro own_vector_destroy) (simp_all add: S ty)
    then have "own base ({#tp#} + M) m10"
      unfolding m10_def by (intro own_free) (simp add: S)
    then show ?thesis unfolding m11_def by (intro own_free) simp
  qed
  ultimately show ?thesis by simp
qed

section \<open>One context\<close>

lemma first_registration:
  assumes "fresh_vector v" and "p \<noteq> NULL"
  obtains es where "iotc_register_handle_for_object v IOTC_MAX_NUM_CONTEXTS p m
      = (IOTC_STATE_OK, v\<lparr>v_elems := es, v_elem_no := 1\<rparr>, m)"
    and "iotc_find_handle_for_object (v\<lparr>v_elems := es, v_elem_no := 1\<rparr>) p = (IOTC_STATE_OK, 0)"
    and "iotc_object_for_handle (v\<lparr>v_elems := es, v_elem_no := 1\<rparr>) 0 = p"
    and "iotc_delete_handle_for_object (v\<lparr>v_elems := es, v_elem_no := 1\<rparr>) p
      = (IOTC_STATE_OK, v\<lparr>v_elems := es[0 := NULL], v_elem_no := 1\<rparr>)"
proof -
  have l: "length (v_elems v) = 2" "v_elem_no v = 0" "v_capacity v = 2"
    using assms(1) by (auto simp: fresh_vector_def vec_inv_def)
  define es where "es = (v_elems v)[0 := p]"
  have e0: "es ! 0 = p" using l by (simp add: es_def)
  have f: "iotc_vector_find (v\<lparr>v_elems := es, v_elem_no := 1\<rparr>) p iotc_compare_context_pointers = 0"
    using e0 by (simp add: iotc_vector_find_def vector_find_loop.simps iotc_compare_context_pointers_def)
  show thesis
  proof (rule that [of es])
    show "iotc_register_handle_for_object v IOTC_MAX_NUM_CONTEXTS p m
      = (IOTC_STATE_OK, v\<lparr>v_elems := es, v_elem_no := 1\<rparr>, m)"
      using l by (simp add: iotc_register_handle_for_object_def iotc_vector_find_def vector_find_loop.simps Let_def
          IOTC_MAX_NUM_CONTEXTS_def iotc_vector_push_def es_def)
  qed (use e0 f in \<open>simp_all add: iotc_find_handle_for_object_def iotc_object_for_handle_def iotc_vector_get_def
      iotc_delete_handle_for_object_def\<close>)
qed

lemma layer_chain_made:
  assumes o: "own base M (ev_mem s)" and len: "2 \<le> length ids"
  obtains l ls m at' ctx' where "iotc_layer_chain_create ids c types s
      = ((l, last (l # ls)), s\<lparr>ev_mem := m, ly_at := at', ap_layer_context := ctx'\<rparr>)"
    and "length (l # ls) = length ids" and "own base (mset (l # ls) + M) m" and "layer_links at' l ls"
proof -
  obtain ls0 m at0 ctx' where r: "create_layers ids c types s = (ls0, s\<lparr>ev_mem := m, ly_at := at0, ap_layer_context := ctx'\<rparr>)"
    and ln: "length ls0 = length ids" and o1: "own base (mset ls0 + M) m" and z: "\<And>x. x \<in> set ls0 \<Longrightarrow> ly_next (at0 x) = NULL"
    by (rule create_layers_owned [OF o, of ids c types]) blast
  from ln len obtain l ls where ls: "ls0 = l # ls" by (cases ls0) auto
  define s1 where "s1 = s\<lparr>ev_mem := m, ly_at := at0, ap_layer_context := ctx'\<rparr>"
  have d: "distinct (l # ls)" using own_distinct [OF o1] ls by simp
  have n: "NULL \<notin> set (l # ls)" using own_not_null [OF o1] ls by auto
  obtain f where f: "connect_layers (l # ls) s1 = s1\<lparr>ly_at := f\<rparr>" "layer_links f l ls"
    by (rule connect_layers_links [OF d n, of s1]) (use z ls in \<open>auto simp: s1_def\<close>)
  show thesis
    by (rule that [where l = l and ls = ls and m = m and at' = f and ctx' = ctx'])
      (use r f o1 ls in \<open>auto simp: iotc_layer_chain_create_def iotc_layer_chain_connect_def s1_def last_conv_nth
        ln [symmetric]\<close>)
qed

lemma layer_chain_deleted:
  assumes o: "own base (mset (l # ls) + M) (ev_mem s)" and k: "layer_links (ly_at s) l ls" and n: "length (l # ls) < 256"
  obtains m at' where "iotc_layer_chain_delete l (length (l # ls)) s = Some (s\<lparr>ev_mem := m, ly_at := at'\<rparr>)" and "own base M m"
proof -
  have d: "distinct (l # ls)" and z: "NULL \<notin> set (l # ls)" using own_distinct [OF o] own_not_null [OF o] by auto
  obtain f where f: "disconnect_layers l (ly_next (ly_at s l)) 0 (l # replicate (length ls) NULL) s
      = Some (take (Suc 0) (l # replicate (length ls) NULL) @ ls, s\<lparr>ly_at := f\<rparr>)"
    by (rule disconnect_layers_collects [OF k d z, of "l # replicate (length ls) NULL" 0]) (use n in auto)
  have "own base (mset (l # ls) + M) (ev_mem (s\<lparr>ly_at := f\<rparr>))" using o by simp
  from layers_deleted [OF this] obtain m where m: "fold iotc_layer_delete (l # ls) (s\<lparr>ly_at := f\<rparr>) = (s\<lparr>ly_at := f\<rparr>)\<lparr>ev_mem := m\<rparr>"
    "own base M m" by blast
  show thesis
    by (rule that [where m = m and at' = f]) (use f m z in \<open>auto simp: iotc_layer_chain_delete_def put_layer_def mark_bad_def\<close>)
qed

text \<open>
  C14. A context can be created and deleted without a trace: when the library holds none yet and memory is granted, the creation gives
  the handle 0, and deleting that handle succeeds and leaves exactly the blocks that were live before, for
  every chain of at least two layers.
\<close>

theorem context_lifecycle:
  assumes "wf_mem (ev_mem s)" and "\<not> m_bad (ev_mem s)" and "all_granted (ev_mem s)" and "gl_ref_count s = 0"
    and "backoff_lut (gl_backoff s) = None" and "decay_lut (gl_backoff s) = None"
    and "te_hnd (ev_te s) (next_update (gl_backoff s)) = NULL"
    and "2 \<le> length ids" and "length ids < 256"
  shows "\<exists>s1 s2. iotc_create_context types ids s = (0, s1)
    \<and> iotc_delete_context (length ids) 0 s1 = Some (IOTC_STATE_OK, s2)
    \<and> m_live (ev_mem s2) = m_live (ev_mem s) \<and> \<not> m_bad (ev_mem s2)"
proof -
  define base where "base = m_live (ev_mem s)"
  define s0 where "s0 = s\<lparr>gl_ref_count := 1\<rparr>"
  have o: "own base {#} (ev_mem s0)" using owns_none assms(1-3) by (simp add: own_def base_def s0_def)
  obtain sa v where a: "create_globals s0 = (None, sa)" and gm: "globals_made base {#} sa" and rc: "gl_ref_count sa = gl_ref_count s0"
    and v: "gl_contexts sa = Some v" "fresh_vector v"
    by (rule create_globals_made [OF o]) (use assms in \<open>simp_all add: s0_def\<close>)
  from gm v(1) obtain b d tp tv tcs where bd: "backoff_lut (gl_backoff sa) = Some b" "decay_lut (gl_backoff sa) = Some d"
      "v_memory_type b = IOTC_MEMORY_TYPE_UNMANAGED" "v_memory_type d = IOTC_MEMORY_TYPE_UNMANAGED"
      "v_memory_type v = IOTC_MEMORY_TYPE_MANAGED" "gl_tasks sa = Some (tp, Some tv, tcs)"
      "v_memory_type tv = IOTC_MEMORY_TYPE_MANAGED" "v_memory_type (ev_timers sa) = IOTC_MEMORY_TYPE_MANAGED"
      "v_elem_no (ev_timers sa) = 0" "v_memory_type (ev_sockets sa) = IOTC_MEMORY_TYPE_MANAGED"
      "v_memory_type (ev_files sa) = IOTC_MEMORY_TYPE_MANAGED" "\<not> ev_cs_state sa"
      "te_hnd (ev_te sa) (next_update (gl_backoff sa)) = NULL"
    and oa: "own base ({#ev_self sa, ev_cs sa, v_self b, v_self d, tp, tcs#} + vec_blocks v + vec_blocks tv
         + vec_blocks (ev_timers sa) + vec_blocks (ev_sockets sa) + vec_blocks (ev_files sa) + {#}) (ev_mem sa)"
    by (auto simp: globals_made_def)
  define K where "K = {#ev_self sa, ev_cs sa, v_self b, v_self d, tp, tcs#} + vec_blocks v + vec_blocks tv
         + vec_blocks (ev_timers sa) + vec_blocks (ev_sockets sa) + vec_blocks (ev_files sa)"
  obtain p m where p: "iotc_alloc sizeof_context (ev_mem sa) = (p, m)" "p \<noteq> NULL" "own base (add_mset p K) m"
    by (rule own_alloc [of base K "ev_mem sa" sizeof_context]) (use oa in \<open>simp_all add: K_def sizeof_context_def\<close>)
  obtain io m1 where io: "iotc_vector_create m = (Some io, m1)" "fresh_vector io" "own base (vec_blocks io + add_mset p K) m1"
    by (rule own_vector_create [OF p(3)])
  define sb where "sb = upd_ctx p (\<lambda>c. c\<lparr>ct_io_timeouts := Some io\<rparr>)
    (sa\<lparr>ev_te := (ev_te sa)\<lparr>te_hnd := (te_hnd (ev_te sa))(p := NULL)\<rparr>, ap_ctx := (ap_ctx sa)(p := zeroed_context), ev_mem := m1\<rparr>)"
  have ob: "own base (vec_blocks io + add_mset p K) (ev_mem sb)" using io(3) by (simp add: sb_def upd_ctx_def)
  obtain l ls m2 at' ctx' where ch: "iotc_layer_chain_create ids p types sb
      = ((l, last (l # ls)), sb\<lparr>ev_mem := m2, ly_at := at', ap_layer_context := ctx'\<rparr>)"
    and ln: "length (l # ls) = length ids" and oc: "own base (mset (l # ls) + (vec_blocks io + add_mset p K)) m2"
    and lk: "layer_links at' l ls"
    by (rule layer_chain_made [OF ob assms(8)])
  obtain es where reg: "iotc_register_handle_for_object v IOTC_MAX_NUM_CONTEXTS p m2
      = (IOTC_STATE_OK, v\<lparr>v_elems := es, v_elem_no := 1\<rparr>, m2)"
    and fnd: "iotc_find_handle_for_object (v\<lparr>v_elems := es, v_elem_no := 1\<rparr>) p = (IOTC_STATE_OK, 0)"
    and obj: "iotc_object_for_handle (v\<lparr>v_elems := es, v_elem_no := 1\<rparr>) 0 = p"
    and del: "iotc_delete_handle_for_object (v\<lparr>v_elems := es, v_elem_no := 1\<rparr>) p
      = (IOTC_STATE_OK, v\<lparr>v_elems := es[0 := NULL], v_elem_no := 1\<rparr>)"
    by (rule first_registration [OF v(2) p(2)])
  define s1 where "s1 = (upd_ctx p (\<lambda>c. c\<lparr>ct_bottom := l, ct_top := last (l # ls)\<rparr>)
    (sb\<lparr>ev_mem := m2, ly_at := at', ap_layer_context := ctx'\<rparr>))\<lparr>gl_contexts := Some (v\<lparr>v_elems := es, v_elem_no := 1\<rparr>)\<rparr>"
  have gb: "gl_contexts sb = Some v" by (simp add: sb_def upd_ctx_def v(1))
  have "create_block types ids sa = (IOTC_STATE_OK, p, s1)"
    using p(1,2) io(1) ch reg gb
    by (simp add: create_block_def sb_def [symmetric] touch_contexts_def mark_bad_def contexts_def Let_def)
      (simp add: s1_def upd_ctx_def contexts_def touch_contexts_def mark_bad_def gb)
  then have cr: "iotc_create_context types ids s = (0, s1)"
    using a assms(4) fnd
    by (simp add: iotc_create_context_def iotc_create_context_with_custom_layers_def s0_def Let_def)
      (simp add: s1_def contexts_def touch_contexts_def mark_bad_def)
  define s2 where "s2 = s1\<lparr>gl_contexts := Some (v\<lparr>v_elems := es[0 := NULL], v_elem_no := 1\<rparr>)\<rparr>"
  have ct: "ap_ctx s2 p = zeroed_context\<lparr>ct_io_timeouts := Some io, ct_bottom := l, ct_top := last (l # ls)\<rparr>"
    by (simp add: s2_def s1_def sb_def upd_ctx_def zeroed_context_def)
  have o2: "own base (mset (l # ls) + (vec_blocks io + add_mset p K)) (ev_mem s2)" using oc by (simp add: s2_def s1_def upd_ctx_def)
  have k2: "layer_links (ly_at s2) l ls" using lk by (simp add: s2_def s1_def upd_ctx_def)
  obtain m3 at3 where dl: "iotc_layer_chain_delete l (length ids) s2 = Some (s2\<lparr>ev_mem := m3, ly_at := at3\<rparr>)"
    and o3: "own base (vec_blocks io + add_mset p K) m3"
    by (rule layer_chain_deleted [OF o2 k2, unfolded ln, OF assms(9)])
  define m4 where "m4 = IOTC_SAFE_FREE p (iotc_vector_destroy io m3)"
  have o4: "own base K m4" unfolding m4_def
    by (rule own_free, rule own_vector_destroy [OF o3]) (use io(2) in \<open>simp add: fresh_vector_def\<close>)
  define s3 where "s3 = (s2\<lparr>ev_mem := m3, ly_at := at3\<rparr>)\<lparr>ap_ctx := (ap_ctx s2)(p := ap_ctx s2 p), ev_mem := m4, gl_ref_count := 0\<rparr>"
  have fr: "on_mem (IOTC_SAFE_FREE p) (iotc_free_context_data p (s2\<lparr>ev_mem := m3, ly_at := at3\<rparr>))
    = (s2\<lparr>ev_mem := m3, ly_at := at3\<rparr>)\<lparr>ap_ctx := (ap_ctx s2)(p := ap_ctx s2 p), ev_mem := m4\<rparr>"
    by (simp add: iotc_free_context_data_def Let_def ct upd_ctx_def on_mem_def destroy_vector_def free_handlers_def
        free_names_def iotc_free_connection_data_def zeroed_context_def m4_def)
  have rc2: "gl_ref_count s2 = 1" using rc by (simp add: s2_def s1_def sb_def upd_ctx_def s0_def)
  have de: "iotc_delete_context (length ids) 0 s1 = Some (IOTC_STATE_OK, delete_globals s3)"
  proof -
    have t: "touch_contexts s1 = s1" "contexts s1 = v\<lparr>v_elems := es, v_elem_no := 1\<rparr>"
      by (simp_all add: touch_contexts_def mark_bad_def contexts_def s1_def)
    have g: "s1\<lparr>gl_contexts := map_option (\<lambda>x. v\<lparr>v_elems := es[0 := NULL], v_elem_no := 1\<rparr>) (gl_contexts s1)\<rparr> = s2"
      by (simp add: s2_def s1_def)
    have cb: "ct_bottom (ap_ctx s1 p) = l" using ct by (simp add: s2_def)
    show ?thesis
      using p(2) rc2
      by (simp add: iotc_delete_context_def iotc_delete_context_with_custom_layers_def t obj del g cb dl fr Let_def to_u8_def)
        (simp add: s3_def)
  qed
  have "globals_made base {#} s3"
    using bd o4
    by (simp add: globals_made_def s3_def s2_def s1_def sb_def upd_ctx_def vec_blocks_def K_def)
  from delete_globals_releases [OF this] have "own base {#} (ev_mem (delete_globals s3))" .
  then have "m_live (ev_mem (delete_globals s3)) = base" "\<not> m_bad (ev_mem (delete_globals s3))"
    by (auto simp: own_def dest: owns_none_live)
  with cr de show ?thesis by (auto simp: base_def)
qed

text \<open>The library before its first call, with a heap that grants everything.\<close>

definition idle_library :: "(nat \<Rightarrow> nat \<Rightarrow> bool) \<Rightarrow> api" where
  "idle_library ok = \<lparr>ev_self = NULL, ev_current_step = 0, ev_timers = null_vector,
     ev_te = \<lparr>te_at = (\<lambda>p. new_time_event zeroed_handle 0), te_hnd = (\<lambda>p. NULL)\<rparr>, ev_call_queue = NULL, ev_next = (\<lambda>p. NULL),
     ev_queued = (\<lambda>p. zeroed_handle), ev_cs = NULL, ev_cs_state = False, ev_spins = False, ev_sockets = null_vector,
     ev_files = null_vector, ev_fd = (\<lambda>p. \<lparr>t_fd = 0, t_handle = zeroed_handle, t_read_handle = zeroed_handle, t_event_type = 0,
       t_fd_type = IOTC_EVTD_FD_TYPE_SOCKET\<rparr>), ev_on_empty = zeroed_handle, ev_stop = False, ev_mem = empty_mem ok,
     ly_at = (\<lambda>p. \<lparr>ly_funcs = \<lparr>lf_push = 0, lf_pull = 0, lf_close = 0, lf_close_externally = 0, lf_init = 0, lf_connect = 0,
       lf_post_connect = 0\<rparr>, ly_next = NULL, ly_prev = NULL, ly_type_id = 0, ly_user_data = NULL, ly_state = IOTC_LAYER_STATE_NONE\<rparr>),
     ctx_io_timeouts = null_vector, mq_task = (\<lambda>p. zeroed_task),
     mq_spec = (\<lambda>p. Publish_data None None IOTC_MQTT_RETAIN_FALSE IOTC_MQTT_DUP_FALSE), mq_msg = (\<lambda>p. zeroed_message),
     mq_written = (\<lambda>p. (0, IOTC_MQTT_TYPE_NONE)), mq_data = zeroed_logic_data, cx_copy_handlers = None, cx_copy_q12 = [],
     cx_copy_dtor = NULL, cx_copy_last_msg_id = 0, cx_connection = zeroed_connection_data NULL,
     gl_backoff = \<lparr>next_update = 99, backoff_lut = None, decay_lut = None, backoff_class = IOTC_BACKOFF_CLASS_NONE, backoff_lut_i = 0\<rparr>,
     gl_network_timeout = 1500, gl_ref_count = 0, gl_evtd = NULL, gl_contexts = None, gl_tasks = None,
     ap_ctx = (\<lambda>p. zeroed_context), ap_layer_context = (\<lambda>p. NULL)\<rparr>"

definition some_layer_types :: "layer_type list" where
  "some_layer_types = map (\<lambda>i. \<lparr>lt_id = i, lt_interface = \<lparr>lf_push = 10 * i + 201, lf_pull = 10 * i + 202, lf_close = 10 * i + 203,
     lf_close_externally = 10 * i + 204, lf_init = 10 * i + 205, lf_connect = 10 * i + 206, lf_post_connect = 10 * i + 207\<rparr>\<rparr>) [0..<5]"

theorem context_lifecycle_witness:
  "\<exists>s1 s2. iotc_create_context some_layer_types [0, 1, 2, 3, 4] (idle_library (\<lambda>i n. True)) = (0, s1)
    \<and> iotc_delete_context (length [0, 1, 2, 3, 4 :: nat]) 0 s1 = Some (IOTC_STATE_OK, s2)
    \<and> m_live (ev_mem s2) = m_live (ev_mem (idle_library (\<lambda>i n. True))) \<and> \<not> m_bad (ev_mem s2)"
  by (rule context_lifecycle) (simp_all add: idle_library_def all_granted_def empty_mem_def wf_mem_def)

section \<open>Handles\<close>

definition handles_ok :: "'z api_scheme \<Rightarrow> bool" where
  "handles_ok s \<longleftrightarrow> (\<forall>v. gl_contexts s = Some v \<longrightarrow> vec_inv v \<and> v_capacity v = 2)"

named_theorems keeps_contexts \<open>what leaves the table of contexts as it is\<close>

lemma contexts_on_mem [keeps_contexts]: "gl_contexts (on_mem f s) = gl_contexts s"
  by (simp add: on_mem_def)

lemma contexts_mark_bad [keeps_contexts]: "gl_contexts (mark_bad b s) = gl_contexts s"
  by (simp add: mark_bad_def keeps_contexts)

lemma contexts_touch [keeps_contexts]: "gl_contexts (touch_contexts s) = gl_contexts s"
  by (simp add: touch_contexts_def keeps_contexts)

lemma contexts_upd_ctx [keeps_contexts]: "gl_contexts (upd_ctx p f s) = gl_contexts s"
  by (simp add: upd_ctx_def)

lemma contexts_create_layers [keeps_contexts]: "gl_contexts (snd (create_layers ids c types s)) = gl_contexts s"
  by (induction ids arbitrary: s) (simp_all add: iotc_layer_create_def iotc_layer_alloc_def default_layer_heap_alloc_def
      iotc_layer_placement_create_def case_prod_beta)

lemma contexts_connect_layers [keeps_contexts]: "gl_contexts (connect_layers ls s) = gl_contexts s"
  by (induction ls s rule: connect_layers.induct) (simp_all add: IOTC_LAYERS_CONNECT_def Let_def keeps_contexts)

lemma contexts_chain_create [keeps_contexts]: "gl_contexts (snd (iotc_layer_chain_create ids c types s)) = gl_contexts s"
  by (simp add: iotc_layer_chain_create_def iotc_layer_chain_connect_def keeps_contexts case_prod_beta)

lemma register_keeps_table:
  assumes "vec_inv v" and "v_capacity v = 2" and "iotc_register_handle_for_object v IOTC_MAX_NUM_CONTEXTS p m = (st, v', m')"
  shows "vec_inv v' \<and> v_capacity v' = 2"
proof -
  let ?h = "iotc_vector_find v NULL iotc_compare_context_pointers"
  show ?thesis
  proof (cases "?h < 0")
    case True
    show ?thesis
    proof (cases "v_elem_no v < v_capacity v")
      case room: True
      from vec_push_room [OF assms(1) room, of p m] assms True show ?thesis
        by (auto simp: iotc_register_handle_for_object_def IOTC_MAX_NUM_CONTEXTS_def split: if_splits)
    qed (use assms True in \<open>auto simp: iotc_register_handle_for_object_def IOTC_MAX_NUM_CONTEXTS_def split: if_splits prod.splits\<close>)
  next
    case False
    with assms show ?thesis by (auto simp: iotc_register_handle_for_object_def vec_inv_def)
  qed
qed

lemma vector_create_table:
  assumes "iotc_vector_create m = (Some v, m')"
  shows "vec_inv v \<and> v_capacity v = 2"
  using assms
  by (auto simp: iotc_vector_create_def iotc_vector_realloc_def Let_def IOTC_VECTOR_DEFAULT_CAPACITY_def sizeof_elem_def vec_inv_def
      split: prod.splits if_splits bool.splits)

lemma create_globals_table:
  assumes "handles_ok s" and "create_globals s = (r, s')"
  shows "handles_ok s'" and "r \<noteq> None \<Longrightarrow> gl_contexts s' = gl_contexts s"
proof -
  obtain inst m where c: "iotc_evtd_create_instance (ev_te s) (ev_next s) (ev_queued s) (ev_fd s) (evtd.more s) (ev_mem s) = (inst, m)"
    by fastforce
  have k: "gl_contexts e = gl_contexts s" if "inst = Some e" for e
    using c that by (cases s) (auto simp: iotc_evtd_create_instance_def evtd.defs split: prod.splits option.splits if_splits)
  show "handles_ok s'" and "r \<noteq> None \<Longrightarrow> gl_contexts s' = gl_contexts s"
    using assms c k
    by (auto simp: create_globals_def Let_def handles_ok_def dest: vector_create_table
        split: prod.splits option.splits if_splits)
qed

lemma create_block_table:
  assumes "handles_ok s" and "create_block types ids s = (st, p, s')"
  shows "handles_ok s'" and "st = IOTC_STATE_OK \<Longrightarrow> p \<noteq> NULL"
proof -
  have t: "vec_inv v \<and> v_capacity v = 2" if "gl_contexts s = Some v" for v using assms(1) that by (simp add: handles_ok_def)
  have c: "gl_contexts s2 = gl_contexts s1" if "iotc_layer_chain_create ids p' types s1 = (r, s2)" for r s1 s2 p'
    using contexts_chain_create [of ids p' types s1] that by simp
  have g: "contexts z = v" if "gl_contexts z = Some v" for z :: "'z api_scheme" and v using that by (simp add: contexts_def)
  show "handles_ok s'"
  proof (cases "gl_contexts s")
    case None
    with assms(2) show ?thesis
      by (auto simp: create_block_def Let_def handles_ok_def keeps_contexts split: prod.splits option.splits if_splits dest!: c)
  next
    case (Some v)
    with assms(2) t [OF Some] show ?thesis
      by (auto simp: create_block_def Let_def handles_ok_def keeps_contexts contexts_def
          split: prod.splits option.splits if_splits dest!: c dest: register_keeps_table)
  qed
  show "st = IOTC_STATE_OK \<Longrightarrow> p \<noteq> NULL"
    using assms(2) by (auto simp: create_block_def Let_def split: prod.splits if_splits)
qed



text \<open>
  A failure of the first creation to allocate the tables of the backoff is reported as success: the state of the failed call is not
  stored before the jump to the error handling, and \<^verbatim>\<open>iotc_create_context\<close> then looks for a null context in a
  table that does not exist.
\<close>

theorem create_context_swallows_failure:
  assumes "gl_ref_count s = 0" and "gl_contexts s = None" and "backoff_lut (gl_backoff s) = None" and "decay_lut (gl_backoff s) = None"
    and "\<forall>i n. \<not> m_ok (ev_mem s) i n"
  shows "fst (iotc_create_context_with_custom_layers types ids s) = IOTC_STATE_OK
    \<and> fst (snd (iotc_create_context_with_custom_layers types ids s)) = NULL
    \<and> m_bad (ev_mem (snd (iotc_create_context types ids s)))"
proof -
  have a: "iotc_alloc n m = (NULL, m\<lparr>m_seq := Suc (m_seq m)\<rparr>)" if "\<forall>i n. \<not> m_ok m i n" for n m
    using that by (simp add: iotc_alloc_def iotc_bsp_mem_alloc_def)
  define s0 where "s0 = s\<lparr>gl_ref_count := 1\<rparr>"
  define m1 where "m1 = (ev_mem s0)\<lparr>m_seq := Suc (m_seq (ev_mem s0))\<rparr>"
  have r: "\<forall>i n. \<not> m_ok (ev_mem s0) i n" "\<forall>i n. \<not> m_ok m1 i n" using assms(5) by (simp_all add: s0_def m1_def)
  have e: "iotc_evtd_create_instance (ev_te s0) (ev_next s0) (ev_queued s0) (ev_fd s0) (evtd.more s0) (ev_mem s0) = (None, m1)"
    using a [OF r(1)] by (simp add: iotc_evtd_create_instance_def m1_def)
  obtain b m2 where c: "iotc_backoff_configure_using_data (Some (backoff_lut_address, IOTC_BACKOFF_LUT))
      (Some (decay_lut_address, IOTC_DECAY_LUT)) (length IOTC_BACKOFF_LUT) IOTC_MEMORY_TYPE_UNMANAGED (gl_backoff s0) m1
    = (IOTC_OUT_OF_MEMORY, b, m2)"
    using a [OF r(2)] assms(3,4)
    by (simp add: iotc_backoff_configure_using_data_def iotc_backoff_release_luts_def iotc_vector_create_from_def s0_def
        IOTC_BACKOFF_LUT_def)
  have g: "create_globals s0 = (Some IOTC_STATE_OK, s0\<lparr>ev_mem := m2, gl_evtd := NULL, gl_backoff := b\<rparr>)"
    unfolding create_globals_def e using c by (simp add: Let_def)
  have w: "iotc_create_context_with_custom_layers types ids s
      = (IOTC_STATE_OK, NULL, s0\<lparr>ev_mem := m2, gl_evtd := NULL, gl_backoff := b\<rparr>)"
    using g assms(1) by (simp add: iotc_create_context_with_custom_layers_def s0_def Let_def)
  then show ?thesis
    using assms(2)
    by (simp add: iotc_create_context_def s0_def Let_def touch_contexts_def mark_bad_def on_mem_def split: prod.split)
qed

theorem create_context_swallows_failure_witness:
  "fst (iotc_create_context_with_custom_layers some_layer_types [0, 1, 2, 3, 4] (idle_library (\<lambda>i n. False))) = IOTC_STATE_OK
    \<and> fst (snd (iotc_create_context_with_custom_layers some_layer_types [0, 1, 2, 3, 4] (idle_library (\<lambda>i n. False)))) = NULL
    \<and> m_bad (ev_mem (snd (iotc_create_context some_layer_types [0, 1, 2, 3, 4] (idle_library (\<lambda>i n. False)))))"
  by (rule create_context_swallows_failure) (simp_all add: idle_library_def empty_mem_def)

end
