(* ===== verification/Iotc_Api.thy ===== *)
theory Iotc_Api
  imports Iotc_Context_Life Iotc_Event_Loop Iotc_Memory_Limiter
begin

text \<open>
  The functions that the application calls, \<^verbatim>\<open>src/libiotc/iotc.c\<close>, the wrappers of its callbacks,
  \<^verbatim>\<open>src/libiotc/iotc_user_sub_call_wrapper.c\<close>, and the layer on top of the chain,
  \<^verbatim>\<open>src/libiotc/control_topic/iotc_control_topic_layer.c\<close>.

  A function of the application is a transformer of the state. The data of the contexts are in the store of the
  contexts; the fields for the layers of the running context are not touched here. Assertions are not
  executed: a null context is an access through a null pointer, which marks the heap.
\<close>

definition fn_user_callback_wrapper :: ptr where "fn_user_callback_wrapper = 22"
definition fn_user_sub_call_wrapper :: ptr where "fn_user_sub_call_wrapper = 23"
definition fn_default_client_callback :: ptr where "fn_default_client_callback = 24"
definition IOTC_THREADID_THREAD_0 :: nat where "IOTC_THREADID_THREAD_0 = 0"
definition empty_string_address :: ptr where "empty_string_address = 103"

section \<open>Callbacks of the application\<close>

text \<open>\<open>user f h data st\<close> is what the function \<open>f\<close> of the application does.\<close>

definition iotc_user_callback_wrapper ::
    "(ptr \<Rightarrow> int \<Rightarrow> ptr \<Rightarrow> iotc_state \<Rightarrow> 'z api_scheme \<Rightarrow> 'z api_scheme) \<Rightarrow> ptr \<Rightarrow> ptr \<Rightarrow> iotc_state \<Rightarrow> ptr \<Rightarrow> 'z api_scheme \<Rightarrow>
     iotc_state \<times> 'z api_scheme" where
  "iotc_user_callback_wrapper user ctx data in_state client_callback s =
     (let s1 = touch_contexts s
      in case iotc_find_handle_for_object (contexts s1) ctx of (state, context_handle) \<Rightarrow>
           if state \<noteq> IOTC_STATE_OK then (state, s1)
           else (state, user client_callback context_handle data in_state s1))"

datatype sub_call =
    Sub_unknown
  | Sub_suback cstr nat
  | Sub_message "byte list" "byte list" mqtt_retain mqtt_qos mqtt_dup

definition iotc_mqtt_convert_to_qos :: "nat \<Rightarrow> iotc_state \<times> mqtt_qos" where
  "iotc_mqtt_convert_to_qos qos =
     (if qos = 0 then (IOTC_STATE_OK, IOTC_MQTT_QOS_AT_MOST_ONCE)
      else if qos = 1 then (IOTC_STATE_OK, IOTC_MQTT_QOS_AT_LEAST_ONCE)
      else if qos = 2 then (IOTC_STATE_OK, IOTC_MQTT_QOS_EXACTLY_ONCE)
      else (IOTC_INVALID_PARAMETER, IOTC_MQTT_QOS_AT_MOST_ONCE))"

definition iotc_mqtt_convert_to_dup :: "nat \<Rightarrow> iotc_state \<times> mqtt_dup" where
  "iotc_mqtt_convert_to_dup dup =
     (if dup = 0 then (IOTC_STATE_OK, IOTC_MQTT_DUP_FALSE)
      else if dup = 1 then (IOTC_STATE_OK, IOTC_MQTT_DUP_TRUE)
      else (IOTC_INVALID_PARAMETER, IOTC_MQTT_DUP_FALSE))"

definition iotc_mqtt_convert_to_retain :: "nat \<Rightarrow> iotc_state \<times> mqtt_retain" where
  "iotc_mqtt_convert_to_retain retain =
     (if retain = 0 then (IOTC_STATE_OK, IOTC_MQTT_RETAIN_FALSE)
      else if retain = 1 then (IOTC_STATE_OK, IOTC_MQTT_RETAIN_TRUE)
      else (IOTC_INVALID_PARAMETER, IOTC_MQTT_RETAIN_FALSE))"

type_synonym 'z sub_user = "ptr \<Rightarrow> int \<Rightarrow> sub_call \<Rightarrow> iotc_state \<Rightarrow> ptr \<Rightarrow> 'z api_scheme \<Rightarrow> 'z api_scheme"

text \<open>A message for a subscription: a zero is appended to its topic, then the fields are converted. The
  result is the call of the application, \<open>None\<close> when the code leaves before it.\<close>

definition desc_filled :: "data_desc option \<Rightarrow> byte list" where
  "desc_filled d = (case d of None \<Rightarrow> [] | Some x \<Rightarrow> take (unat (d_length x)) (d_bytes x))"

definition sub_message :: "ptr \<Rightarrow> 'z mqtt_scheme \<Rightarrow> (sub_call \<times> iotc_state) option \<times> 'z mqtt_scheme" where
  "sub_message p s =
     (case mm_body (mq_msg s p) of
        Publish_body topic_name message_id content \<Rightarrow>
          (case iotc_data_desc_append_data_resize topic_name (Some [0]) (ev_mem s) of (st, topic1, m) \<Rightarrow>
             (let s1 = put_message p ((mq_msg s p)\<lparr>mm_body := Publish_body topic1 message_id content\<rparr>) (s\<lparr>ev_mem := m\<rparr>);
                  msg = mq_msg s1 p
              in if st \<noteq> IOTC_STATE_OK then (None, s1)
                 else (case iotc_mqtt_convert_to_qos (mm_qos msg) of (st, qos) \<Rightarrow>
                   if st \<noteq> IOTC_STATE_OK then (None, s1)
                   else (case iotc_mqtt_convert_to_dup (mm_dup msg) of (st, dup) \<Rightarrow>
                     if st \<noteq> IOTC_STATE_OK then (None, s1)
                     else (case iotc_mqtt_convert_to_retain (mm_retain msg) of (st, retain) \<Rightarrow>
                       if st \<noteq> IOTC_STATE_OK then (None, s1)
                       else (Some (Sub_message (desc_filled topic1) (desc_filled content) retain qos dup, st), s1))))))
      | _ \<Rightarrow> (None, mark_bad True s))"

definition call_user_sub ::
    "'z sub_user \<Rightarrow> ptr \<Rightarrow> iotc_state \<Rightarrow> ptr \<Rightarrow> ptr \<Rightarrow> ptr \<Rightarrow> int \<Rightarrow> 'z api_scheme \<Rightarrow> 'z api_scheme" where
  "call_user_sub user data in_state client_callback udata task_data context_handle s =
     (case in_state of
        IOTC_MQTT_SUBSCRIPTION_FAILED \<Rightarrow>
          iotc_mqtt_task_spec_data_free_subscribe_data task_data
            (user client_callback context_handle (Sub_suback (spec_topic (mq_spec s task_data)) data) in_state udata s)
      | IOTC_MQTT_SUBSCRIPTION_SUCCESSFULL \<Rightarrow>
          user client_callback context_handle (Sub_suback (spec_topic (mq_spec s task_data)) data) in_state udata s
      | IOTC_STATE_OK \<Rightarrow>
          (case sub_message data s of (call, s1) \<Rightarrow>
             free_message data
               (case call of None \<Rightarrow> s1 | Some (c, st) \<Rightarrow> user client_callback context_handle c st udata s1))
      | _ \<Rightarrow> user client_callback context_handle Sub_unknown in_state udata s)"

definition iotc_user_sub_call_wrapper ::
    "'z sub_user \<Rightarrow> ptr \<Rightarrow> ptr \<Rightarrow> iotc_state \<Rightarrow> ptr \<Rightarrow> ptr \<Rightarrow> ptr \<Rightarrow> 'z api_scheme \<Rightarrow> iotc_state \<times> 'z api_scheme" where
  "iotc_user_sub_call_wrapper user ctx data in_state client_callback udata task_data s =
     (if client_callback = NULL \<or> task_data = NULL then (IOTC_INVALID_PARAMETER, s)
      else
        (let s1 = (if ctx \<noteq> NULL then touch_contexts s else s)
         in case (if ctx \<noteq> NULL then iotc_find_handle_for_object (contexts s1) ctx
                  else (IOTC_STATE_OK, IOTC_INVALID_CONTEXT_HANDLE)) of (state, context_handle) \<Rightarrow>
              if state \<noteq> IOTC_STATE_OK then (state, s1)
              else (state, call_user_sub user data in_state client_callback udata task_data context_handle s1)))"

section \<open>The control topic layer\<close>

definition iotc_control_topic_connection_state_changed ::
    "ptr \<Rightarrow> iotc_state \<Rightarrow> 'z api_scheme \<Rightarrow> iotc_state \<times> 'z api_scheme" where
  "iotc_control_topic_connection_state_changed layer state s =
     (let c = ap_layer_context s layer;
          d = (case ct_connection (ap_ctx s c) of None \<Rightarrow> NULL | Some d \<Rightarrow> cd_self d);
          callback = set_arg 2 (state_arg state) (set_arg 1 d (ct_connection_callback (ap_ctx s c)));
          s1 = upd_ctx c (\<lambda>x. x\<lparr>ct_connection_callback := callback\<rparr>) s;
          s2 = snd (iotc_evttd_execute callback s1)
      in (state,
          if state = IOTC_STATE_OK
             \<and> map_option cd_connection_state (ct_connection (ap_ctx s2 c)) = Some IOTC_CONNECTION_STATE_OPENED
          then snd (IOTC_LAYER_CONTINUE_WITH This lf_post_connect layer NULL state s2) else s2))"

definition iotc_control_topic_layer_push :: "ptr \<Rightarrow> ptr \<Rightarrow> iotc_state \<Rightarrow> 'z layered_scheme \<Rightarrow> iotc_state \<times> 'z layered_scheme" where
  "iotc_control_topic_layer_push layer data in_out_state s = IOTC_PROCESS_PUSH_ON_PREV_LAYER layer data in_out_state s"

definition iotc_control_topic_layer_pull :: "ptr \<Rightarrow> ptr \<Rightarrow> iotc_state \<Rightarrow> 'z layered_scheme \<Rightarrow> iotc_state \<times> 'z layered_scheme" where
  "iotc_control_topic_layer_pull layer data in_out_state s = (in_out_state, s)"

definition iotc_control_topic_layer_init :: "ptr \<Rightarrow> ptr \<Rightarrow> iotc_state \<Rightarrow> 'z layered_scheme \<Rightarrow> iotc_state \<times> 'z layered_scheme" where
  "iotc_control_topic_layer_init layer data in_out_state s = IOTC_PROCESS_INIT_ON_PREV_LAYER layer data in_out_state s"

definition iotc_control_topic_layer_connect :: "ptr \<Rightarrow> ptr \<Rightarrow> iotc_state \<Rightarrow> 'z api_scheme \<Rightarrow> iotc_state \<times> 'z api_scheme" where
  "iotc_control_topic_layer_connect layer data in_out_state s =
     (if in_out_state = IOTC_STATE_OK then iotc_control_topic_connection_state_changed layer in_out_state s
      else IOTC_PROCESS_CLOSE_ON_PREV_LAYER layer NULL in_out_state s)"

definition set_context_connection_state :: "ptr \<Rightarrow> connection_state \<Rightarrow> 'z api_scheme \<Rightarrow> 'z api_scheme" where
  "set_context_connection_state c st s =
     upd_ctx c (\<lambda>x. x\<lparr>ct_connection := map_option (\<lambda>d. d\<lparr>cd_connection_state := st\<rparr>) (ct_connection x)\<rparr>)
       (mark_bad (ct_connection (ap_ctx s c) = None) s)"

definition iotc_control_topic_layer_close :: "ptr \<Rightarrow> ptr \<Rightarrow> iotc_state \<Rightarrow> 'z api_scheme \<Rightarrow> iotc_state \<times> 'z api_scheme" where
  "iotc_control_topic_layer_close layer data in_out_state s =
     IOTC_PROCESS_CLOSE_ON_PREV_LAYER layer data in_out_state
       (set_context_connection_state (ap_layer_context s layer) IOTC_CONNECTION_STATE_CLOSING s)"

definition iotc_control_topic_layer_close_externally ::
    "ptr \<Rightarrow> ptr \<Rightarrow> iotc_state \<Rightarrow> 'z api_scheme \<Rightarrow> iotc_state \<times> 'z api_scheme" where
  "iotc_control_topic_layer_close_externally layer data in_out_state s =
     (let c = ap_layer_context s layer
      in iotc_control_topic_connection_state_changed layer in_out_state
           (set_context_connection_state c
              (if map_option cd_connection_state (ct_connection (ap_ctx s c)) = Some IOTC_CONNECTION_STATE_OPENING
               then IOTC_CONNECTION_STATE_OPEN_FAILED else IOTC_CONNECTION_STATE_CLOSED) s))"

section \<open>Connecting\<close>

definition iotc_set_network_timeout :: "nat \<Rightarrow> 'z api_scheme \<Rightarrow> 'z api_scheme" where
  "iotc_set_network_timeout timeout s = s\<lparr>gl_network_timeout := timeout\<rparr>"

definition iotc_get_network_timeout :: "'z api_scheme \<Rightarrow> nat" where
  "iotc_get_network_timeout s = gl_network_timeout s"

definition iotc_is_context_connected :: "int \<Rightarrow> 'z api_scheme \<Rightarrow> bool" where
  "iotc_is_context_connected iotc_h s =
     (if iotc_h = IOTC_INVALID_CONTEXT_HANDLE then False
      else
        (let iotc = iotc_object_for_handle (contexts s) iotc_h
         in case (if iotc = NULL then None else ct_connection (ap_ctx s iotc)) of
              None \<Rightarrow> False
            | Some d \<Rightarrow> cd_connection_state d = IOTC_CONNECTION_STATE_OPENED
                        \<and> ct_shutdown_state (ap_ctx s iotc) = IOTC_SHUTDOWN_UNINITIALISED))"

text \<open>The data of the connection, updated or allocated. The first component tells with which state the code jumps to its error
  handling: that of a failed update is not stored.\<close>

definition connect_data ::
    "ptr \<Rightarrow> cstr \<Rightarrow> nat \<Rightarrow> cstr \<Rightarrow> cstr \<Rightarrow> cstr \<Rightarrow> nat \<Rightarrow> nat \<Rightarrow> 'z api_scheme \<Rightarrow> iotc_state option \<times> 'z api_scheme" where
  "connect_data iotc host port username password client_id connection_timeout keepalive_timeout s =
     (case ct_connection (ap_ctx s iotc) of
        Some d \<Rightarrow>
          (case iotc_connection_data_update_lastwill d host port username password client_id connection_timeout keepalive_timeout
                  IOTC_SESSION_CLEAN None None IOTC_MQTT_QOS_AT_MOST_ONCE IOTC_MQTT_RETAIN_FALSE (ev_mem s) of (st, d1, m) \<Rightarrow>
             (if st \<noteq> IOTC_STATE_OK then Some IOTC_STATE_OK else None,
              upd_ctx iotc (\<lambda>c. c\<lparr>ct_connection := Some d1\<rparr>) (s\<lparr>ev_mem := m\<rparr>)))
      | None \<Rightarrow>
          (case iotc_alloc_connection_data_lastwill host port username password client_id connection_timeout keepalive_timeout
                  IOTC_SESSION_CLEAN None None IOTC_MQTT_QOS_AT_MOST_ONCE IOTC_MQTT_RETAIN_FALSE (ev_mem s) of (d, m) \<Rightarrow>
             (if d = None then Some IOTC_OUT_OF_MEMORY else None,
              upd_ctx iotc (\<lambda>c. c\<lparr>ct_connection := d\<rparr>) (s\<lparr>ev_mem := m\<rparr>))))"

definition connection_started :: "connection_data option \<Rightarrow> bool" where
  "connection_started d \<longleftrightarrow> (case d of None \<Rightarrow> False
     | Some d \<Rightarrow> cd_connection_state d \<noteq> IOTC_CONNECTION_STATE_CLOSED \<and> cd_connection_state d \<noteq> IOTC_CONNECTION_STATE_OPEN_FAILED
         \<and> cd_connection_state d \<noteq> IOTC_CONNECTION_STATE_UNINITIALIZED)"

text \<open>The reset of the states and the delayed call of the top layer; \<open>rnd\<close> is the random number for the backoff.\<close>

definition schedule_init :: "nat \<Rightarrow> ptr \<Rightarrow> event_handle \<Rightarrow> 'z api_scheme \<Rightarrow> iotc_state \<times> 'z api_scheme" where
  "schedule_init rnd iotc callback s =
     (let s1 = upd_ctx iotc (\<lambda>c. c\<lparr>ct_connection := map_option (\<lambda>d. d\<lparr>cd_connection_state := IOTC_CONNECTION_STATE_UNINITIALIZED\<rparr>)
                   (ct_connection c),
                 ct_shutdown_state := IOTC_SHUTDOWN_UNINITIALISED, ct_connection_callback := callback\<rparr>) s;
          input_layer = ct_top (ap_ctx s1 iotc);
          d = (case ct_connection (ap_ctx s1 iotc) of None \<Rightarrow> NULL | Some d \<Rightarrow> cd_self d)
      in iotc_evtd_execute_in
           (iotc_make_handle_argc3 IOTC_THREADID_MAINTHREAD (lf_init (ly_funcs (ly_at s1 input_layer))) input_layer d
              (state_arg IOTC_STATE_OK))
           (int (iotc_get_backoff_penalty rnd (gl_backoff s1))) iotc s1)"

definition iotc_connect_to ::
    "nat \<Rightarrow> int \<Rightarrow> cstr \<Rightarrow> nat \<Rightarrow> cstr \<Rightarrow> cstr \<Rightarrow> cstr \<Rightarrow> nat \<Rightarrow> nat \<Rightarrow> ptr \<Rightarrow> 'z api_scheme \<Rightarrow> iotc_state \<times> 'z api_scheme" where
  "iotc_connect_to rnd iotc_h host port username password client_id connection_timeout keepalive_timeout client_callback s =
     (if host = None then (IOTC_NULL_HOST, s)
      else if client_id = None then (IOTC_NULL_CLIENT_ID_ERROR, s)
      else if IOTC_INVALID_CONTEXT_HANDLE \<ge> iotc_h then (IOTC_NULL_CONTEXT, s)
      else
        (let username1 = (if username = None then Some (empty_string_address, '''') else username);
             s1 = touch_contexts s;
             iotc = iotc_object_for_handle (contexts s1) iotc_h
         in if iotc = NULL then (IOTC_NULL_CONTEXT, s1)
            else
              (let callback = iotc_make_handle_argc4 IOTC_THREADID_THREAD_0 fn_user_callback_wrapper iotc NULL
                     (state_arg IOTC_STATE_OK) client_callback
               in if te_hnd (ev_te s1) iotc \<noteq> NULL \<or> connection_started (ct_connection (ap_ctx s1 iotc))
                  then (IOTC_ALREADY_INITIALIZED, s1)
                  else
                    (case connect_data iotc host port username1 password client_id connection_timeout keepalive_timeout s1 of
                       (Some st, s2) \<Rightarrow> (st, s2)
                     | (None, s2) \<Rightarrow> schedule_init rnd iotc callback s2))))"

section \<open>Publishing and subscribing\<close>

definition iotc_publish_data_impl ::
    "int \<Rightarrow> string \<Rightarrow> data_desc \<Rightarrow> mqtt_qos \<Rightarrow> ptr \<Rightarrow> ptr \<Rightarrow> 'z api_scheme \<Rightarrow> iotc_state \<times> 'z api_scheme" where
  "iotc_publish_data_impl iotc_h topic data qos callback0 udata0 s0 =
     (let s = touch_contexts s0;
          iotc = iotc_object_for_handle (contexts s) iotc_h;
          callback = (if callback0 = NULL then fn_default_client_callback else callback0);
          udata = (if callback0 = NULL then NULL else udata0);
          event_handle = iotc_make_handle_argc4 IOTC_THREADID_THREAD_0 fn_user_callback_wrapper iotc udata
            (state_arg IOTC_STATE_OK) callback
      in if backoff_class (gl_backoff s) \<noteq> IOTC_BACKOFF_CLASS_NONE
         then (IOTC_BACKOFF_TERMINAL, on_mem (iotc_free_desc (Some data)) s)
         else
           (let s1 = mark_bad (iotc = NULL) s; input_layer = ct_top (ap_ctx s1 iotc)
            in case iotc_mqtt_logic_make_publish_task topic data qos IOTC_MQTT_RETAIN_FALSE event_handle s1 of (task, s2) \<Rightarrow>
                 if task = NULL then (IOTC_OUT_OF_MEMORY, s2)
                 else IOTC_LAYER_CONTINUE_WITH This lf_push input_layer task IOTC_STATE_OK s2))"

definition iotc_publish ::
    "int \<Rightarrow> string \<Rightarrow> byte list \<Rightarrow> mqtt_qos \<Rightarrow> ptr \<Rightarrow> ptr \<Rightarrow> 'z api_scheme \<Rightarrow> iotc_state \<times> 'z api_scheme" where
  "iotc_publish iotc_h topic msg qos callback udata s =
     (case iotc_make_desc_from_string_copy (Some msg) (ev_mem s) of
        (None, m) \<Rightarrow> (IOTC_OUT_OF_MEMORY, s\<lparr>ev_mem := m\<rparr>)
      | (Some data_desc, m) \<Rightarrow> iotc_publish_data_impl iotc_h topic data_desc qos callback udata (s\<lparr>ev_mem := m\<rparr>))"

definition iotc_publish_data ::
    "int \<Rightarrow> string \<Rightarrow> byte list \<Rightarrow> mqtt_qos \<Rightarrow> ptr \<Rightarrow> ptr \<Rightarrow> 'z api_scheme \<Rightarrow> iotc_state \<times> 'z api_scheme" where
  "iotc_publish_data iotc_h topic data qos callback udata s =
     (case iotc_make_desc_from_buffer_copy data (ev_mem s) of
        (None, m) \<Rightarrow> (IOTC_OUT_OF_MEMORY, s\<lparr>ev_mem := m\<rparr>)
      | (Some data_desc, m) \<Rightarrow> iotc_publish_data_impl iotc_h topic data_desc qos callback udata (s\<lparr>ev_mem := m\<rparr>))"

text \<open>The handler in the specific data of the task gets the data as its last argument.\<close>

definition put_handler_data :: "ptr \<Rightarrow> 'z mqtt_scheme \<Rightarrow> 'z mqtt_scheme" where
  "put_handler_data task s =
     (let p = mt_data_u (mq_task s task)
      in s\<lparr>mq_spec := (mq_spec s)(p := (case mq_spec s p of
             Subscribe_data topic handler qos \<Rightarrow> Subscribe_data topic (set_arg 5 p handler) qos
           | d \<Rightarrow> d))\<rparr>)"

definition iotc_subscribe ::
    "int \<Rightarrow> string option \<Rightarrow> mqtt_qos \<Rightarrow> ptr \<Rightarrow> ptr \<Rightarrow> 'z api_scheme \<Rightarrow> iotc_state \<times> 'z api_scheme" where
  "iotc_subscribe iotc_h topic qos callback udata s0 =
     (if iotc_h = IOTC_INVALID_CONTEXT_HANDLE \<or> topic = None \<or> callback = NULL then (IOTC_INVALID_PARAMETER, s0)
      else
        (let s = touch_contexts s0; iotc = iotc_object_for_handle (contexts s) iotc_h
         in if iotc = NULL then (IOTC_OUT_OF_MEMORY, s)
            else if backoff_class (gl_backoff s) \<noteq> IOTC_BACKOFF_CLASS_NONE then (IOTC_BACKOFF_TERMINAL, s)
            else
              (case iotc_str_dup iotc_alloc (the topic) (ev_mem s) of (internal_topic, m) \<Rightarrow>
                 if internal_topic = None then (IOTC_OUT_OF_MEMORY, s\<lparr>ev_mem := m\<rparr>)
                 else
                   (let s1 = s\<lparr>ev_mem := m\<rparr>; input_layer = ct_top (ap_ctx s1 iotc);
                        event_handle = iotc_make_handle_argc6 IOTC_THREADID_THREAD_0 fn_user_sub_call_wrapper iotc NULL
                          (state_arg IOTC_STATE_OK) callback udata NULL
                    in case iotc_mqtt_logic_make_subscribe_task internal_topic qos event_handle s1 of (task, s2) \<Rightarrow>
                         if task = NULL then (IOTC_OUT_OF_MEMORY, on_mem (str_free internal_topic) s2)
                         else IOTC_LAYER_CONTINUE_WITH This lf_push input_layer task IOTC_STATE_OK (put_handler_data task s2)))))"

section \<open>Closing\<close>

definition shutdown_push :: "ptr \<Rightarrow> 'z api_scheme \<Rightarrow> iotc_state \<times> 'z api_scheme" where
  "shutdown_push iotc s =
     (case iotc_mqtt_logic_make_shutdown_task s of (task, s1) \<Rightarrow>
        if task = NULL then (IOTC_OUT_OF_MEMORY, s1)
        else IOTC_LAYER_CONTINUE_WITH This lf_push (ct_top (ap_ctx s1 iotc)) task IOTC_STATE_OK s1)"

definition iotc_shutdown_connection :: "int \<Rightarrow> 'z api_scheme \<Rightarrow> iotc_state \<times> 'z api_scheme" where
  "iotc_shutdown_connection iotc_h s0 =
     (let s1 = touch_contexts s0;
          iotc = iotc_object_for_handle (contexts s1) iotc_h;
          s = mark_bad (iotc = NULL) s1;
          c = ap_ctx s iotc
      in if te_hnd (ev_te s) iotc = NULL then
           (if map_option cd_connection_state (ct_connection c) \<noteq> Some IOTC_CONNECTION_STATE_OPENED
            then (IOTC_SOCKET_NO_ACTIVE_CONNECTION_ERROR, s)
            else (case ct_shutdown_state c of
                    IOTC_SHUTDOWN_UNINITIALISED \<Rightarrow>
                      shutdown_push iotc (upd_ctx iotc (\<lambda>c. c\<lparr>ct_shutdown_state := IOTC_SHUTDOWN_STARTED\<rparr>) s)
                  | IOTC_SHUTDOWN_STARTED \<Rightarrow> (IOTC_ALREADY_INITIALIZED, s)))
         else iotc_evtd_cancel iotc s)"

section \<open>Events and timed tasks\<close>

definition iotc_events_stop :: "'z api_scheme \<Rightarrow> 'z api_scheme" where
  "iotc_events_stop s = iotc_evtd_stop s"

definition iotc_events_process_blocking ::
    "('z api_ext mqtt_ext layered_ext) caller \<Rightarrow> select_fn \<Rightarrow> (nat \<Rightarrow> nat \<Rightarrow> int) \<Rightarrow> 'z api_scheme \<Rightarrow> 'z api_scheme option" where
  "iotc_events_process_blocking call select clock s =
     map_option (\<lambda>(st, evtds). evtds ! 0) (iotc_event_loop_with_evtds call select clock 0 [s])"

definition iotc_events_process_tick ::
    "('z api_ext mqtt_ext layered_ext) caller \<Rightarrow> select_fn \<Rightarrow> (nat \<Rightarrow> nat \<Rightarrow> int) \<Rightarrow> 'z api_scheme \<Rightarrow>
     (iotc_state \<times> 'z api_scheme) option" where
  "iotc_events_process_tick call select clock s =
     (if iotc_evtd_dispatcher_continue (if gl_evtd s = NULL then None else Some s) then
        (case iotc_event_loop_with_evtds call select clock 1 [s] of
           None \<Rightarrow> None
         | Some (st, evtds) \<Rightarrow> Some (IOTC_STATE_OK, evtds ! 0))
      else Some (IOTC_EVENT_PROCESS_STOPPED, s))"

definition iotc_schedule_timed_task :: "ptr \<Rightarrow> int \<Rightarrow> ptr \<Rightarrow> int \<Rightarrow> bool \<Rightarrow> ptr \<Rightarrow> 'z tasks_scheme \<Rightarrow> int \<times> 'z tasks_scheme" where
  "iotc_schedule_timed_task wrapper iotc_h callback seconds_from_now repeats_forever data s =
     iotc_add_timed_task wrapper iotc_h callback seconds_from_now repeats_forever data s"

definition iotc_cancel_timed_task :: "int \<Rightarrow> 'z tasks_scheme \<Rightarrow> 'z tasks_scheme" where
  "iotc_cancel_timed_task timed_task_handle s = iotc_remove_timed_task timed_task_handle s"

section \<open>The heap and the file system\<close>

text \<open>The two functions on the heap in a build with the limiter.\<close>

definition iotc_set_maximum_heap_usage :: "nat \<Rightarrow> limiter \<Rightarrow> iotc_state \<times> limiter" where
  "iotc_set_maximum_heap_usage max_bytes s = iotc_memory_limiter_set_limit max_bytes s"

definition iotc_get_heap_usage :: "bool \<Rightarrow> limiter \<Rightarrow> iotc_state \<times> nat option" where
  "iotc_get_heap_usage heap_usage_is_null s =
     (if heap_usage_is_null then (IOTC_INVALID_PARAMETER, None)
      else (IOTC_STATE_OK, Some (iotc_memory_limiter_get_allocated_space s)))"

text \<open>The table of functions that replaces the one of the library, as pointers. The function that closes a file is not checked.\<close>

record fs_function_table =
  ft_size :: nat
  ft_stat :: ptr
  ft_open :: ptr
  ft_read :: ptr
  ft_write :: ptr
  ft_close :: ptr
  ft_remove :: ptr

definition sizeof_fs_functions :: nat where "sizeof_fs_functions = 56"

definition iotc_set_fs_functions :: "fs_function_table \<Rightarrow> fs_function_table \<Rightarrow> iotc_state \<times> fs_function_table" where
  "iotc_set_fs_functions given table =
     (if sizeof_fs_functions \<noteq> ft_size given then (IOTC_INTERNAL_ERROR, table)
      else if ft_stat given = NULL then (IOTC_INVALID_PARAMETER, table)
      else if ft_open given = NULL then (IOTC_INVALID_PARAMETER, table)
      else if ft_read given = NULL then (IOTC_INVALID_PARAMETER, table)
      else if ft_write given = NULL then (IOTC_INVALID_PARAMETER, table)
      else if ft_remove given = NULL then (IOTC_INVALID_PARAMETER, table)
      else (IOTC_STATE_OK, given))"

lemma set_fs_functions_null_close:
  "ft_close given = NULL \<Longrightarrow> iotc_set_fs_functions given table = (IOTC_STATE_OK, t) \<Longrightarrow> ft_close t = NULL"
  by (auto simp: iotc_set_fs_functions_def split: if_splits)

text \<open>The contents of a message as a string of C; the length is a number of 32 bits.\<close>

definition iotc_parse_message_payload_as_string :: "mqtt_message option \<Rightarrow> mem \<Rightarrow> (ptr \<times> byte list) option \<times> mem" where
  "iotc_parse_message_payload_as_string msg m =
     (case msg of None \<Rightarrow> (None, m)
      | Some x \<Rightarrow>
          (case mm_body x of
             Publish_body topic_name message_id (Some content) \<Rightarrow>
               (let n = unat (d_length content + 1)
                in case iotc_alloc n m of (payload, m1) \<Rightarrow>
                     if payload = NULL then (None, m1)
                     else (Some (payload, desc_filled (Some content) @ [0]), memcpy_check (unat (d_length content) + 1) n m1))
           | _ \<Rightarrow> (None, m\<lparr>m_bad := True\<rparr>)))"

section \<open>Starting, stopping and the host of the build\<close>

text \<open>The platform is a parameter with its state.\<close>

definition iotc_initialize :: "('w \<Rightarrow> 'w) \<Rightarrow> ('w \<Rightarrow> 'w) \<Rightarrow> 'w \<Rightarrow> iotc_state \<times> 'w" where
  "iotc_initialize iotc_bsp_time_init iotc_bsp_rng_init w = (IOTC_STATE_OK, iotc_bsp_rng_init (iotc_bsp_time_init w))"

definition iotc_shutdown :: "('w \<Rightarrow> 'w) \<Rightarrow> 'w \<Rightarrow> iotc_state \<times> 'w" where
  "iotc_shutdown iotc_bsp_rng_shutdown w = (IOTC_STATE_OK, iotc_bsp_rng_shutdown w)"

text \<open>The first parameter is the value of the macro \<^verbatim>\<open>IOTC_MQTT_HOST\<close>.\<close>

definition iotc_connect ::
    "cstr \<times> nat \<Rightarrow> nat \<Rightarrow> int \<Rightarrow> cstr \<Rightarrow> cstr \<Rightarrow> cstr \<Rightarrow> nat \<Rightarrow> nat \<Rightarrow> ptr \<Rightarrow> 'z api_scheme \<Rightarrow> iotc_state \<times> 'z api_scheme" where
  "iotc_connect host_and_port rnd iotc_h username password client_id connection_timeout keepalive_timeout client_callback s =
     iotc_connect_to rnd iotc_h (fst host_and_port) (snd host_and_port) username password client_id connection_timeout
       keepalive_timeout client_callback s"

end
