(* ===== verification/Iotc_Api_Use.thy ===== *)
theory Iotc_Api_Use
  imports Iotc_Api Iotc_Mqtt_Receive
begin

text \<open>
  What the functions of the application do: connecting and giving up a connection, publishing, shutting down, and the way of a received message to
  the callback of its subscription.
\<close>

section \<open>What a call finds\<close>

definition api_ready :: "int \<Rightarrow> ptr \<Rightarrow> 'z api_scheme \<Rightarrow> bool" where
  "api_ready h c s \<longleftrightarrow> gl_contexts s \<noteq> None \<and> 0 \<le> h \<and> iotc_object_for_handle (contexts s) h = c \<and> c \<noteq> NULL"

lemma touch_ready: "gl_contexts s \<noteq> None \<Longrightarrow> touch_contexts s = s"
  by (auto simp: touch_contexts_def mark_bad_def)

lemma mark_bad_not [simp]: "mark_bad False s = s"
  by (simp add: mark_bad_def)

lemma api_updates [simp]:
  fixes s :: "'z api_scheme"
  shows "gl_contexts (upd_ctx c f s) = gl_contexts s" "ev_mem (upd_ctx c f s) = ev_mem s" "ev_te (upd_ctx c f s) = ev_te s"
    "ev_timers (upd_ctx c f s) = ev_timers s" "ly_at (upd_ctx c f s) = ly_at s" "gl_backoff (upd_ctx c f s) = gl_backoff s"
    "ev_current_step (upd_ctx c f s) = ev_current_step s" "ap_ctx (upd_ctx c f s) c = f (ap_ctx s c)"
    "ap_layer_context (upd_ctx c f s) = ap_layer_context s" "has_room (upd_ctx c f s) = has_room s"
  by (simp_all add: upd_ctx_def has_room_def)

lemma sys_upd_ctx [simp]:
  fixes s :: "'z api_scheme"
  shows "sys base hs M (upd_ctx c f s) = sys base hs M s"
  by (simp add: sys_def lock_free_def upd_ctx_def)

lemma contexts_upd [simp]: "contexts (upd_ctx c f s) = contexts s"
  by (simp add: contexts_def)

text \<open>The dispatcher leaves the data of the contexts alone.\<close>

lemma api_execute_in:
  fixes s :: "'z api_scheme"
  assumes "iotc_evtd_execute_in hdl t h s = (st, s')"
  shows "ap_ctx s' = ap_ctx s" and "gl_contexts s' = gl_contexts s"
  using assms by (auto simp: iotc_evtd_execute_in_def Let_def iotc_lock_critical_section_def
      iotc_unlock_critical_section_def split: prod.splits if_splits)

lemma api_cancel:
  fixes s :: "'z api_scheme"
  shows "ap_ctx (snd (iotc_evtd_cancel h s)) = ap_ctx s" and "gl_contexts (snd (iotc_evtd_cancel h s)) = gl_contexts s"
  by (simp_all add: iotc_evtd_cancel_def Let_def iotc_lock_critical_section_def iotc_unlock_critical_section_def split: prod.splits)

lemma cancel_state:
  assumes "sys base hs M s" and "te_hnd (ev_te s) h \<in> set (vec_list (ev_timers s))"
  shows "fst (iotc_evtd_cancel h s) = IOTC_STATE_OK"
proof -
  obtain us vs where l: "vec_list (ev_timers s) = us @ te_hnd (ev_te s) h # vs" using assms(2) by (metis split_list)
  have "te_inv (ev_timers s) (ev_te s)" using assms(1) by (simp add: sys_def)
  from te_cancel_all [OF this l refl] show ?thesis
    by (auto simp: iotc_evtd_cancel_def Let_def iotc_lock_critical_section_def split: prod.splits)
qed

section \<open>New blocks\<close>

lemma owns_more:
  assumes "owns_blocks base M m" and "owns_blocks (m_live m) N m'"
  shows "owns_blocks base (N + M) m'"
proof -
  have d: "p \<notin># M" if "p \<in># N" for p using assms that unfolding owns_blocks_def by metis
  have "count (N + M) p \<le> 1" for p
    using assms d [of p] unfolding owns_blocks_def by (cases "p \<in># N") (auto simp: not_in_iff)
  moreover have "base p = None \<and> m_live m' p \<noteq> None" if "p \<in># N + M" for p
    using assms d that unfolding owns_blocks_def by (metis union_iff)
  moreover have "m_live m' p = base p" if "p \<notin># N + M" for p
    using assms that unfolding owns_blocks_def by (metis union_iff)
  ultimately show ?thesis using assms unfolding owns_blocks_def by auto
qed

lemma sys_new_mem:
  assumes "sys base hs M s" and "owns_blocks (m_live (ev_mem s)) N m" and "all_granted m"
  shows "sys base hs (N + M) (s\<lparr>ev_mem := m\<rparr>)"
proof -
  obtain qs where q: "chain (ev_next s) (ev_call_queue s) qs" "map (ev_queued s) qs = hs"
    and o: "owns_blocks base (mset qs + (mset (vec_list (ev_timers s)) + M)) (ev_mem s)"
    using assms(1) by (auto simp: sys_def)
  from owns_more [OF o assms(2)] have "owns_blocks base (mset qs + (mset (vec_list (ev_timers s)) + (N + M))) m"
    by (simp add: ac_simps)
  with q assms(1,3) show ?thesis by (auto simp: sys_def lock_free_def)
qed

definition short :: "cstr \<Rightarrow> bool" where
  "short s \<longleftrightarrow> (\<forall>p cs. s = Some (p, cs) \<longrightarrow> length cs < 2 ^ 62)"

definition granting :: "bool \<times> connection_data \<times> mem \<Rightarrow> bool" where
  "granting r \<longleftrightarrow> fst r \<and> all_granted (snd (snd r)) \<and> wf_mem (snd (snd r))"

lemma dup_granted:
  assumes "granting r" and "short src"
  shows "granting (dup_string put src r)"
proof (cases src)
  case None
  with assms show ?thesis by (cases r) (simp add: dup_string_def granting_def)
next
  case (Some a)
  obtain p cs where a: "a = (p, cs)" by (cases a)
  obtain ok c m where r: "r = (ok, c, m)" by (cases r)
  have g: "ok" "all_granted m" "wf_mem m" using assms(1) r by (auto simp: granting_def)
  have l: "length cs + 1 < 2 ^ 63" using assms(2) Some a by (simp add: short_def)
  obtain q m' where al: "iotc_alloc (length cs + 1) m = (q, m')" by fastforce
  have "m_ok m (m_seq m) (length cs + 1)" using g(2) l by (simp add: all_granted_def)
  from alloc_granted [OF g(3) this al] have "q \<noteq> NULL" .
  with al Some a r g all_granted_alloc [OF g(2) al] alloc_wf [OF g(3) al] show ?thesis
    by (simp add: dup_string_def granting_def iotc_str_dup_def Let_def)
qed

lemma alloc_connection_granted:
  assumes "owns_blocks base {#} m" and "all_granted m" and "short host" and "short username" and "short password" and "short client_id"
    and "short will_topic" and "short will_message"
  obtains d m' where "iotc_alloc_connection_data_lastwill host port username password client_id ct kt st will_topic will_message
      wq wr m = (Some d, m')" and "all_granted m'"
proof -
  obtain p m0 where al: "iotc_alloc sizeof_connection_data m = (p, m0)" by fastforce
  have w: "wf_mem m" using assms(1) by (simp add: owns_blocks_def)
  have "m_ok m (m_seq m) sizeof_connection_data" using assms(2) by (simp add: all_granted_def sizeof_connection_data_def)
  from alloc_granted [OF w this al] have p: "p \<noteq> NULL" .
  define r6 where "r6 = dup_string (\<lambda>d c. put_will_message d c) will_message (dup_string (\<lambda>d c. put_will_topic d c) will_topic
    (dup_string (\<lambda>d c. put_client_id d c) client_id (dup_string (\<lambda>d c. put_password d c) password
      (dup_string (\<lambda>d c. put_username d c) username (dup_string (\<lambda>d c. put_host d c) host (True, zeroed_connection_data p, m0))))))"
  have "granting (True, zeroed_connection_data p, m0)"
    using all_granted_alloc [OF assms(2) al] alloc_wf [OF w al] by (simp add: granting_def)
  then have "granting r6" unfolding r6_def by (intro dup_granted assms)
  then obtain c m1 where r6: "r6 = (True, c, m1)" "all_granted m1" by (cases r6) (auto simp: granting_def)
  show thesis
    by (rule that [of "put_settings port ct kt st wq wr c" m1])
      (use al p r6 in \<open>auto simp: iotc_alloc_connection_data_lastwill_def Let_def r6_def\<close>)
qed

section \<open>Connecting\<close>

lemma connect_data_fresh:
  assumes "sys base hs M s" and "ct_connection (ap_ctx s c) = None" and "short host" and "short username" and "short password" and "short client_id"
  obtains d m where "connect_data c host port username password client_id ct kt s
      = (None, upd_ctx c (\<lambda>x. x\<lparr>ct_connection := Some d\<rparr>) (s\<lparr>ev_mem := m\<rparr>))"
    and "sys base hs (connection_blocks d + M) (s\<lparr>ev_mem := m\<rparr>)"
    and "string_values d = map (map_option snd) [host, username, password, client_id, None, None] \<and> cd_port d = port
      \<and> cd_connection_timeout d = ct \<and> cd_keepalive_timeout d = kt"
proof -
  have o: "owns_blocks (m_live (ev_mem s)) {#} (ev_mem s)" by (rule owns_none) (use sys_wf sys_not_bad assms(1) in blast)+
  have g: "all_granted (ev_mem s)" using assms(1) by (simp add: sys_def)
  obtain d m where a: "iotc_alloc_connection_data_lastwill host port username password client_id ct kt IOTC_SESSION_CLEAN None None
      IOTC_MQTT_QOS_AT_MOST_ONCE IOTC_MQTT_RETAIN_FALSE (ev_mem s) = (Some d, m)" and m: "all_granted m"
    by (rule alloc_connection_granted [OF o g assms(3-6), of None None]) (auto simp: short_def)
  note r = alloc_connection_data_ok [OF o a]
  from r(1) have o2: "owns_blocks (m_live (ev_mem s)) (connection_blocks d) m" by simp
  show thesis
    by (rule that [of d m]) (use a assms(2) r(2) sys_new_mem [OF assms(1) o2 m] in \<open>simp_all add: connect_data_def\<close>)
qed

definition init_call :: "ptr \<Rightarrow> connection_data \<Rightarrow> 'z api_scheme \<Rightarrow> event_handle" where
  "init_call c d s = (let t = ct_top (ap_ctx s c)
     in iotc_make_handle_argc3 IOTC_THREADID_MAINTHREAD (lf_init (ly_funcs (ly_at s t))) t (cd_self d) (state_arg IOTC_STATE_OK))"

definition scheduled :: "ptr \<Rightarrow> int \<Rightarrow> event_handle \<Rightarrow> 'z evtd_scheme \<Rightarrow> bool" where
  "scheduled h t hdl s \<longleftrightarrow> (let e = te_hnd (ev_te s) h in e \<in> set (vec_list (ev_timers s)) \<and> te_event_handle (te_at (ev_te s) e) = hdl
     \<and> te_time (ev_te s) e = t \<and> te_time_event_handle (te_at (ev_te s) e) = h)"

lemma connect_fresh:
  assumes "api_ready h c s" and "sys base hs M s" and "has_room s" and "te_hnd (ev_te s) c = NULL" and "ct_connection (ap_ctx s c) = None"
    and "host \<noteq> None" and "client_id \<noteq> None" and "short host" and "short username" and "short password" and "short client_id"
  obtains s1 d where "iotc_connect_to rnd h host port username password client_id ct kt cb s = (IOTC_STATE_OK, s1)"
    and "sys base hs (connection_blocks d + M) s1" and "ct_connection (ap_ctx s1 c) = Some d"
    and "cd_connection_state d = IOTC_CONNECTION_STATE_UNINITIALIZED" and "ct_shutdown_state (ap_ctx s1 c) = IOTC_SHUTDOWN_UNINITIALISED"
    and "string_values d = [map_option snd host, Some (case username of None \<Rightarrow> '''' | Some u \<Rightarrow> snd u), map_option snd password,
      map_option snd client_id, None, None]"
    and "scheduled c (to_int64 (ev_current_step s + int (iotc_get_backoff_penalty rnd (gl_backoff s)))) (init_call c d s) s1"
    and "gl_contexts s1 = gl_contexts s" and "te_hnd (ev_te s1) = (te_hnd (ev_te s))(c := te_hnd (ev_te s1) c)"
proof -
  have cn: "c \<noteq> NULL" and oc: "iotc_object_for_handle (contexts s) h = c" and h: "0 \<le> h" and gc: "gl_contexts s \<noteq> None"
    using assms(1) by (auto simp: api_ready_def)
  define username1 where "username1 = (if username = None then Some (empty_string_address, '''') else username)"
  have su: "short username1" using assms(9) by (simp add: username1_def short_def)
  obtain d m where cd: "connect_data c host port username1 password client_id ct kt s
      = (None, upd_ctx c (\<lambda>x. x\<lparr>ct_connection := Some d\<rparr>) (s\<lparr>ev_mem := m\<rparr>))"
    and o: "sys base hs (connection_blocks d + M) (s\<lparr>ev_mem := m\<rparr>)"
    and v: "string_values d = map (map_option snd) [host, username1, password, client_id, None, None] \<and> cd_port d = port
      \<and> cd_connection_timeout d = ct \<and> cd_keepalive_timeout d = kt"
    by (rule connect_data_fresh [OF assms(2,5,8) su assms(10,11)])
  define callback where "callback = iotc_make_handle_argc4 IOTC_THREADID_THREAD_0 fn_user_callback_wrapper c NULL (state_arg IOTC_STATE_OK) cb"
  define d1 where "d1 = d\<lparr>cd_connection_state := IOTC_CONNECTION_STATE_UNINITIALIZED\<rparr>"
  define s2 where "s2 = upd_ctx c (\<lambda>x. x\<lparr>ct_connection := Some d1, ct_shutdown_state := IOTC_SHUTDOWN_UNINITIALISED,
      ct_connection_callback := callback\<rparr>) (s\<lparr>ev_mem := m\<rparr>)"
  let ?p = "int (iotc_get_backoff_penalty rnd (gl_backoff s))"
  obtain st s1 where e: "iotc_evtd_execute_in (init_call c d s) ?p c s2 = (st, s1)" by fastforce
  have si: "schedule_init rnd c callback (upd_ctx c (\<lambda>x. x\<lparr>ct_connection := Some d\<rparr>) (s\<lparr>ev_mem := m\<rparr>)) = (st, s1)"
    using e by (simp add: schedule_init_def Let_def s2_def d1_def upd_ctx_def init_call_def)
  have o2: "sys base hs (connection_blocks d1 + M) s2" using o by (simp add: s2_def d1_def connection_blocks_def)
  have f2: "has_room s2" "te_hnd (ev_te s2) c = NULL" "ev_current_step s2 = ev_current_step s" "ev_te s2 = ev_te s"
    using assms(3,4) by (simp_all add: s2_def has_room_def)
  from sys_execute_in [OF o2 f2(1) cn f2(2) e] obtain q where st: "st = IOTC_STATE_OK" and o1: "sys base hs (connection_blocks d1 + M) s1"
    and q: "te_hnd (ev_te s1) = (te_hnd (ev_te s2))(c := q)" "q \<in> set (vec_list (ev_timers s1))"
      "te_time (ev_te s1) q = to_int64 (ev_current_step s2 + ?p)" "te_event_handle (te_at (ev_te s1) q) = init_call c d s" by blast
  have own: "te_time_event_handle (te_at (ev_te s1) q) = c" using execute_in_owner [OF cn e [unfolded st]] q(1) by simp
  note f = api_execute_in [OF e]
  show thesis
  proof (rule that [of s1 d1])
    have h1: "- 1 < h" using h by simp
    show "iotc_connect_to rnd h host port username password client_id ct kt cb s = (IOTC_STATE_OK, s1)"
      using cd si st assms(4-7) oc cn h1
      by (simp add: iotc_connect_to_def Let_def touch_ready [OF gc] connection_started_def username1_def callback_def
          IOTC_INVALID_CONTEXT_HANDLE_def)
    show "scheduled c (to_int64 (ev_current_step s + ?p)) (init_call c d1 s) s1"
      using q own f2(3) by (simp add: scheduled_def Let_def init_call_def d1_def)
    show "te_hnd (ev_te s1) = (te_hnd (ev_te s))(c := te_hnd (ev_te s1) c)" using q(1) f2(4) by simp
    show "string_values d1 = [map_option snd host, Some (case username of None \<Rightarrow> '''' | Some u \<Rightarrow> snd u), map_option snd password,
        map_option snd client_id, None, None]"
      using v by (simp add: d1_def string_values_def username1_def split: option.split)
  qed (use o1 f in \<open>simp_all add: s2_def d1_def\<close>)
qed

text \<open>
  C3. A connection that is asked for is not begun at once: its parameters are copied, and the initialisation of the top layer is
  scheduled, with the data of the connection, after the waiting time of the backoff. Until then a second request is refused without an
  effect, and a request to close the connection takes the scheduled call back and leaves nothing of it in the heap; after
  that there is nothing to close.
\<close>

theorem connect_waits_until_shutdown:
  assumes "api_ready h c s" and "sys base hs M s" and "has_room s" and "te_hnd (ev_te s) c = NULL" and "ct_connection (ap_ctx s c) = None"
    and "host \<noteq> None" and "client_id \<noteq> None" and "short host" and "short username" and "short password" and "short client_id"
  shows "\<exists>d s1 s2. iotc_connect_to rnd h host port username password client_id ct kt cb s = (IOTC_STATE_OK, s1)
    \<and> sys base hs (connection_blocks d + M) s1 \<and> ct_connection (ap_ctx s1 c) = Some d
    \<and> string_values d = [map_option snd host, Some (case username of None \<Rightarrow> '''' | Some u \<Rightarrow> snd u), map_option snd password,
        map_option snd client_id, None, None]
    \<and> scheduled c (to_int64 (ev_current_step s + int (iotc_get_backoff_penalty rnd (gl_backoff s)))) (init_call c d s) s1
    \<and> iotc_connect_to rnd2 h host port username password client_id ct kt cb s1 = (IOTC_ALREADY_INITIALIZED, s1)
    \<and> iotc_shutdown_connection h s1 = (IOTC_STATE_OK, s2)
    \<and> sys base hs (connection_blocks d + M) s2 \<and> te_hnd (ev_te s2) = te_hnd (ev_te s)
    \<and> iotc_shutdown_connection h s2 = (IOTC_SOCKET_NO_ACTIVE_CONNECTION_ERROR, s2)"
proof -
  obtain s1 d where c1: "iotc_connect_to rnd h host port username password client_id ct kt cb s = (IOTC_STATE_OK, s1)"
    and o1: "sys base hs (connection_blocks d + M) s1" and d1: "ct_connection (ap_ctx s1 c) = Some d"
    and u1: "cd_connection_state d = IOTC_CONNECTION_STATE_UNINITIALIZED"
    and v1: "string_values d = [map_option snd host, Some (case username of None \<Rightarrow> '''' | Some u \<Rightarrow> snd u), map_option snd password,
        map_option snd client_id, None, None]"
    and sc: "scheduled c (to_int64 (ev_current_step s + int (iotc_get_backoff_penalty rnd (gl_backoff s)))) (init_call c d s) s1"
    and g1: "gl_contexts s1 = gl_contexts s" and t1: "te_hnd (ev_te s1) = (te_hnd (ev_te s))(c := te_hnd (ev_te s1) c)"
    by (rule connect_fresh [OF assms])
  have r: "gl_contexts s1 \<noteq> None" "contexts s1 = contexts s" "iotc_object_for_handle (contexts s) h = c" "c \<noteq> NULL" "- 1 < h"
    using assms(1) g1 by (auto simp: api_ready_def contexts_def)
  have q: "te_hnd (ev_te s1) c \<in> set (vec_list (ev_timers s1))"
    "te_time_event_handle (te_at (ev_te s1) (te_hnd (ev_te s1) c)) = c" using sc by (simp_all add: scheduled_def Let_def)
  have "te_inv (ev_timers s1) (ev_te s1)" using o1 by (simp add: sys_def)
  with q(1) have n: "te_hnd (ev_te s1) c \<noteq> NULL" by (metis te_inv_def)
  have again: "iotc_connect_to rnd2 h host port username password client_id ct kt cb s1 = (IOTC_ALREADY_INITIALIZED, s1)"
    using r assms(6,7) n by (simp add: iotc_connect_to_def Let_def touch_ready IOTC_INVALID_CONTEXT_HANDLE_def)
  define s2 where "s2 = snd (iotc_evtd_cancel c s1)"
  have e: "iotc_evtd_cancel c s1 = (IOTC_STATE_OK, s2)" using cancel_state [OF o1 q(1)] by (simp add: s2_def prod_eq_iff)
  have "iotc_shutdown_connection h s1 = iotc_evtd_cancel c s1"
    using r n by (simp add: iotc_shutdown_connection_def Let_def touch_ready)
  with e have sh: "iotc_shutdown_connection h s1 = (IOTC_STATE_OK, s2)" by simp
  have k: "timer_known c s1" "timeout_set c s1" using q(1) n by (simp_all add: timer_known_def)
  note x = sys_cancel [OF o1 k q(2) r(4), folded s2_def]
  have "te_hnd (ev_te s2) = (te_hnd (ev_te s))(c := NULL)" unfolding x(2) by (subst t1) simp
  then have t2: "te_hnd (ev_te s2) = te_hnd (ev_te s)" using assms(4) by (metis fun_upd_triv)
  note f2 = api_cancel [of c s1, folded s2_def]
  have "gl_contexts s2 \<noteq> None" "contexts s2 = contexts s" using f2(2) r(1,2) by (simp_all add: contexts_def)
  then have "iotc_shutdown_connection h s2 = (IOTC_SOCKET_NO_ACTIVE_CONNECTION_ERROR, s2)"
    using r assms(4) d1 u1 by (simp add: iotc_shutdown_connection_def Let_def touch_ready t2 f2(1))
  with c1 o1 d1 v1 sc again sh x(1) t2 show ?thesis by blast
qed

text \<open>A library with one context, at 50, whose handle is 0.\<close>

definition one_context :: vec where
  "one_context = \<lparr>v_self = 8, v_array = 9, v_elems = [50, 0], v_elem_no = 1, v_capacity = 2, v_memory_type = IOTC_MEMORY_TYPE_MANAGED\<rparr>"

definition running_library :: "ptr list \<Rightarrow> context_block \<Rightarrow> api" where
  "running_library ps b = (idle_library (\<lambda>i n. True))\<lparr>ev_mem := example_heap ps, ev_timers := small_vec, ctx_io_timeouts := small_vec,
     ly_at := example_layers, gl_backoff := default_status 0, gl_ref_count := 1, gl_contexts := Some one_context,
     ap_ctx := (\<lambda>c. b)\<rparr>"

definition fresh_context :: context_block where
  "fresh_context = zeroed_context\<lparr>ct_bottom := 41, ct_top := 43, ct_io_timeouts := Some small_vec\<rparr>"

lemma running_library_simps [simp]:
  "ev_mem (running_library ps b) = example_heap ps" "te_hnd (ev_te (running_library ps b)) h = NULL"
  "ap_ctx (running_library ps b) c = b" "gl_contexts (running_library ps b) = Some one_context"
  "ly_at (running_library ps b) = example_layers" "gl_backoff (running_library ps b) = default_status 0"
  "ev_timers (running_library ps b) = small_vec" "ev_current_step (running_library ps b) = 0"
  by (simp_all add: running_library_def idle_library_def)

lemma running_library_ready: "api_ready 0 50 (running_library ps b)"
  by (simp add: api_ready_def contexts_def one_context_def iotc_object_for_handle_def iotc_vector_get_def)

lemma sys_running_library:
  assumes "distinct ps" and "\<forall>p\<in>set ps. 0 < p \<and> p < 100"
  shows "sys Map.empty [] (mset ps) (running_library ps b)"
proof -
  have "count (mset ps) p \<le> 1" for p using assms(1) by (simp add: distinct_count_atmost_1)
  then have "owns_blocks Map.empty (mset ps) (example_heap ps)" using assms(2)
    by (auto simp: owns_blocks_def example_heap_def wf_mem_def)
  moreover have "vec_inv small_vec" "vec_list small_vec = []" by (simp_all add: vec_inv_def small_vec_def vec_list_def)
  ultimately show ?thesis
    by (simp add: sys_def lock_free_def te_inv_def pos_ok_def all_granted_def)
       (simp add: example_heap_def running_library_def idle_library_def)
qed

lemma running_library_room: "has_room (running_library ps b)"
  by (simp add: has_room_def small_vec_def)

theorem connect_waits_until_shutdown_witness:
  "\<exists>d s1 s2. iotc_connect_to 0 0 (Some (60, ''host'')) 8883 None None (Some (61, ''id'')) 10 20 70 (running_library [] fresh_context)
      = (IOTC_STATE_OK, s1)
    \<and> string_values d = [Some ''host'', Some '''', None, Some ''id'', None, None] \<and> ct_connection (ap_ctx s1 50) = Some d
    \<and> iotc_connect_to 0 0 (Some (60, ''host'')) 8883 None None (Some (61, ''id'')) 10 20 70 s1 = (IOTC_ALREADY_INITIALIZED, s1)
    \<and> iotc_shutdown_connection 0 s1 = (IOTC_STATE_OK, s2)"
proof -
  have o: "sys Map.empty [] {#} (running_library [] fresh_context)" using sys_running_library [of "[]"] by simp
  show ?thesis
    using connect_waits_until_shutdown [OF running_library_ready o running_library_room, of "Some (60, ''host'')"
        "Some (61, ''id'')" None None 0 8883 10 20 70 0]
    by (simp add: short_def fresh_context_def zeroed_context_def) blast
qed

text \<open>
  When the parameters of an earlier connection cannot be replaced because memory is refused, the request to connect is answered with
  the state OK all the same, since the state of the failed call is not stored: no call is scheduled, the
  old host is gone, and the next request for the same host finds a null pointer in its place.
\<close>

theorem connect_swallows_failure:
  assumes "api_ready h c s" and "te_hnd (ev_te s) c = NULL" and "ct_connection (ap_ctx s c) = Some d"
    and "cd_connection_state d = IOTC_CONNECTION_STATE_CLOSED" and "cd_host d = Some (p, old)" and "old \<noteq> host" and "client_id \<noteq> None"
    and "\<forall>i n. \<not> m_ok (ev_mem s) i n"
  shows "\<exists>s1. iotc_connect_to rnd h (Some (q, host)) port username password client_id ct kt cb s = (IOTC_STATE_OK, s1)
    \<and> ev_timers s1 = ev_timers s \<and> ev_te s1 = ev_te s \<and> map_option cd_host (ct_connection (ap_ctx s1 c)) = Some None
    \<and> ct_connection_callback (ap_ctx s1 c) = ct_connection_callback (ap_ctx s c)
    \<and> m_bad (ev_mem (snd (iotc_connect_to rnd h (Some (q, host)) port username password client_id ct kt cb s1)))"
proof -
  have r: "gl_contexts s \<noteq> None" "iotc_object_for_handle (contexts s) h = c" "c \<noteq> NULL" "- 1 < h"
    using assms(1) by (auto simp: api_ready_def)
  define username1 where "username1 = (if username = None then Some (empty_string_address, '''') else username)"
  let ?upd = "\<lambda>d m. iotc_connection_data_update_lastwill d (Some (q, host)) port username1 password client_id ct kt IOTC_SESSION_CLEAN
    None None IOTC_MQTT_QOS_AT_MOST_ONCE IOTC_MQTT_RETAIN_FALSE m"
  have skip: "replace_string get put src (False, x, m) = (False, x, m)" for get put src x m by (simp add: replace_string_def)
  have al: "\<exists>k. iotc_str_dup iotc_alloc cs m = (None, k) \<and> m_bad k = m_bad m \<and> m_ok k = m_ok m" if "\<forall>i n. \<not> m_ok m i n" for cs m
    using that by (simp add: iotc_str_dup_def iotc_alloc_def iotc_bsp_mem_alloc_def)
  have step: "\<exists>k. ?upd x m = (IOTC_OUT_OF_MEMORY, put_host None x, k) \<and> m_bad k = m_bad (if cd_host x = None then m\<lparr>m_bad := True\<rparr>
      else str_free (cd_host x) m) \<and> m_ok k = m_ok m"
    if x: "\<forall>i n. \<not> m_ok m i n" "map_option snd (cd_host x) \<noteq> Some host" for x m
  proof -
    let ?m = "str_free (cd_host x) (if cd_host x = None then m\<lparr>m_bad := True\<rparr> else m)"
    have "\<forall>i n. \<not> m_ok ?m i n" using x(1) by simp
    from al [OF this] obtain k where k: "iotc_str_dup iotc_alloc host ?m = (None, k)" "m_bad k = m_bad ?m" "m_ok k = m_ok ?m" by blast
    have "m_bad ?m = m_bad (if cd_host x = None then m\<lparr>m_bad := True\<rparr> else str_free (cd_host x) m)"
      by (simp add: str_free_def IOTC_SAFE_FREE_def)
    with k x(2) show ?thesis
      by (simp add: iotc_connection_data_update_lastwill_def replace_strings_def Let_def replace_string_def)
  qed
  have cu: "iotc_connect_to rnd h (Some (q, host)) port username password client_id ct kt cb z
      = (IOTC_STATE_OK, upd_ctx c (\<lambda>y. y\<lparr>ct_connection := Some x'\<rparr>) (z\<lparr>ev_mem := k\<rparr>))"
    if "gl_contexts z = gl_contexts s" "te_hnd (ev_te z) c = NULL" "ct_connection (ap_ctx z c) = Some x"
      "cd_connection_state x = IOTC_CONNECTION_STATE_CLOSED" "?upd x (ev_mem z) = (IOTC_OUT_OF_MEMORY, x', k)" for z x x' k
    using that r assms(7)
    by (simp add: iotc_connect_to_def Let_def touch_ready connection_started_def connect_data_def username1_def contexts_def
        IOTC_INVALID_CONTEXT_HANDLE_def)
  obtain k where k: "?upd d (ev_mem s) = (IOTC_OUT_OF_MEMORY, put_host None d, k)" "m_ok k = m_ok (ev_mem s)"
    using step [OF assms(8), of d] assms(5,6) by auto
  define s1 where "s1 = upd_ctx c (\<lambda>y. y\<lparr>ct_connection := Some (put_host None d)\<rparr>) (s\<lparr>ev_mem := k\<rparr>)"
  have s1: "ct_connection (ap_ctx s1 c) = Some (put_host None d)" "ev_mem s1 = k" "gl_contexts s1 = gl_contexts s" "ev_te s1 = ev_te s"
    by (simp_all add: s1_def)
  have "\<forall>i n. \<not> m_ok k i n" using k(2) assms(8) by simp
  from step [OF this, of "put_host None d"] obtain k2 where
    k2: "?upd (put_host None d) k = (IOTC_OUT_OF_MEMORY, put_host None (put_host None d), k2)" "m_bad k2" by auto
  have "m_bad (ev_mem (snd (iotc_connect_to rnd h (Some (q, host)) port username password client_id ct kt cb s1)))"
    using cu [OF s1(3) _ s1(1) _ k2(1) [folded s1(2)]] assms(2,4) k2(2) by (simp add: s1(4))
  moreover have "iotc_connect_to rnd h (Some (q, host)) port username password client_id ct kt cb s = (IOTC_STATE_OK, s1)"
    using cu [OF refl assms(2-4) k(1)] by (simp add: s1_def)
  ultimately show ?thesis using s1 assms(3) by (intro exI [of _ s1]) (simp add: s1_def)
qed

definition closed_context :: context_block where
  "closed_context = fresh_context\<lparr>ct_connection := Some ((zeroed_connection_data 30)\<lparr>cd_connection_state := IOTC_CONNECTION_STATE_CLOSED,
     cd_host := Some (60, [CHR ''o''])\<rparr>)\<rparr>"

theorem connect_swallows_failure_witness:
  "\<exists>s1. iotc_connect_to 0 0 (Some (61, [CHR ''n''])) 8883 None None (Some (62, [CHR ''i''])) 10 20 70
        ((running_library [] closed_context)\<lparr>ev_mem := empty_mem (\<lambda>i n. False)\<rparr>) = (IOTC_STATE_OK, s1)
    \<and> m_bad (ev_mem (snd (iotc_connect_to 0 0 (Some (61, [CHR ''n''])) 8883 None None (Some (62, [CHR ''i''])) 10 20 70 s1)))"
proof -
  let ?s = "(running_library [] closed_context)\<lparr>ev_mem := empty_mem (\<lambda>i n. False)\<rparr>"
  let ?d = "(zeroed_connection_data 30)\<lparr>cd_connection_state := IOTC_CONNECTION_STATE_CLOSED, cd_host := Some (60, [CHR ''o''])\<rparr>"
  have r: "api_ready 0 50 ?s" by (simp add: api_ready_def contexts_def one_context_def iotc_object_for_handle_def iotc_vector_get_def)
  have f: "te_hnd (ev_te ?s) 50 = NULL" "ct_connection (ap_ctx ?s 50) = Some ?d"
    "cd_connection_state ?d = IOTC_CONNECTION_STATE_CLOSED" "cd_host ?d = Some (60, [CHR ''o''])" "[CHR ''o''] \<noteq> [CHR ''n'']"
    "Some (62::nat, [CHR ''i'']) \<noteq> None" "\<forall>i n. \<not> m_ok (ev_mem ?s) i n"
    by (simp_all add: closed_context_def fresh_context_def zeroed_context_def empty_mem_def)
  show ?thesis
    using connect_swallows_failure [OF r f, where q = 61 and port = 8883 and rnd = 0 and username = None and password = None
        and ct = 10 and kt = 20 and cb = 70] by blast
qed

section \<open>Publishing\<close>

lemma sys_alloc_known:
  assumes "sys base hs M s" and "handles_known s" and "n < 2 ^ 63" and "iotc_alloc n (ev_mem s) = (p, m)"
  shows "p \<noteq> NULL \<and> p \<notin># M \<and> sys base hs (add_mset p M) (s\<lparr>ev_mem := m\<rparr>) \<and> handles_known (s\<lparr>ev_mem := m\<rparr>)"
proof -
  have "all_granted (ev_mem s)" using assms(1) by (simp add: sys_def)
  from alloc_all_granted [OF this sys_wf [OF assms(1)] assms(3)] assms(4) have "m_next m = Suc (m_next (ev_mem s))" by auto
  with assms(2) have "handles_known (s\<lparr>ev_mem := m\<rparr>)" by (auto simp: handles_known_def)
  with sys_alloc [OF assms(1,4,3)] show ?thesis by blast
qed

lemma write_owned:
  "sys base hs M s \<Longrightarrow> p \<in># M \<Longrightarrow> write_task p f s = s\<lparr>mq_task := (mq_task s)(p := f (mq_task s p))\<rparr>"
  using sys_live [of base hs M s p] by (auto simp: write_task_def Let_def)

lemma unat_of_nat_small: "n < 2 ^ 32 \<Longrightarrow> unat (of_nat n :: 32 word) = n"
  by (simp add: unat_of_nat take_bit_eq_mod)

lemma sys_desc_copy:
  assumes "sys base hs M s" and "handles_known s" and "length bs < 2 ^ 32"
  obtains d m where "iotc_make_desc_from_string_copy (Some bs) (ev_mem s) = (Some d, m)"
    and "sys base hs (desc_blocks (Some d) + M) (s\<lparr>ev_mem := m\<rparr>)" and "handles_known (s\<lparr>ev_mem := m\<rparr>)" and "desc_filled (Some d) = bs"
proof -
  obtain p m1 where a: "iotc_alloc sizeof_data_desc (ev_mem s) = (p, m1)" by fastforce
  have "sizeof_data_desc < 2 ^ 63" by (simp add: sizeof_data_desc_def)
  note 1 = sys_alloc_known [OF assms(1,2) this a]
  obtain b m2 where b: "iotc_alloc (length bs) m1 = (b, m2)" by fastforce
  have "length bs < 2 ^ 63" using assms(3) by simp
  from sys_alloc_known [of base hs "add_mset p M" "s\<lparr>ev_mem := m1\<rparr>", OF _ _ this] 1 b
  have 2: "b \<noteq> NULL" "sys base hs (add_mset b (add_mset p M)) (s\<lparr>ev_mem := m2\<rparr>)" "handles_known (s\<lparr>ev_mem := m2\<rparr>)" by auto
  let ?d = "(zeroed_desc p)\<lparr>d_memory_type := IOTC_MEMORY_TYPE_MANAGED, d_data_ptr := b, d_bytes := memcpy_at (replicate (length bs) 0) 0 bs,
    d_capacity := of_nat (length bs), d_length := of_nat (length bs)\<rparr>"
  show thesis
  proof (rule that [of ?d m2])
    show "iotc_make_desc_from_string_copy (Some bs) (ev_mem s) = (Some ?d, m2)"
      using a b 1 2(1) by (simp add: iotc_make_desc_from_string_copy_def Let_def)
    show "sys base hs (desc_blocks (Some ?d) + M) (s\<lparr>ev_mem := m2\<rparr>)"
      using 2(2) by (simp add: desc_blocks_def zeroed_desc_def add_mset_commute)
    show "desc_filled (Some ?d) = bs" using assms(3) by (simp add: desc_filled_def unat_of_nat_small memcpy_at_def)
  qed (rule 2(3))
qed

lemma make_publish_ok:
  fixes s :: "'z api_scheme"
  assumes o: "sys base hs (desc_blocks (Some d) + M) s" and k: "handles_known s" and l: "length topic < 2 ^ 62"
  obtains t p m te tp where "iotc_mqtt_logic_make_publish_task topic d qos retain cb s
      = (t, s\<lparr>ev_mem := m, ev_te := te, mq_task := (mq_task s)(t := zeroed_task\<lparr>mt_scenario := IOTC_MQTT_PUBLISH, mt_qos := qos,
          mt_callback := cb, mt_data_u := p\<rparr>), mq_spec := (mq_spec s)(p := Publish_data (Some (tp, topic)) (Some d) retain IOTC_MQTT_DUP_FALSE)\<rparr>)"
    and "t \<noteq> NULL" and "p \<noteq> NULL"
    and "sys base hs (add_mset t (add_mset p (add_mset tp (desc_blocks (Some d)))) + M) (s\<lparr>ev_mem := m, ev_te := te\<rparr>)"
proof -
  define f1 :: "mqtt_task \<Rightarrow> mqtt_task" where "f1 = (\<lambda>t. t\<lparr>mt_scenario := IOTC_MQTT_PUBLISH, mt_qos := qos, mt_callback := cb\<rparr>)"
  obtain t s1 where a: "alloc_task s = (t, s1)" by fastforce
  obtain q m0 where al: "iotc_alloc sizeof_mqtt_task (ev_mem s) = (q, m0)" by fastforce
  have "sizeof_mqtt_task < 2 ^ 63" by (simp add: sizeof_mqtt_task_def)
  note 0 = sys_alloc_known [OF o k this al]
  let ?te = "(ev_te s)\<lparr>te_hnd := (te_hnd (ev_te s))(t := NULL)\<rparr>"
  have s1: "t = q" "s1 = s\<lparr>ev_mem := m0, ev_te := ?te, mq_task := (mq_task s)(t := zeroed_task)\<rparr>"
    using a al 0 by (auto simp: alloc_task_def)
  note 1 = sys_alloc_task [OF o k a]
  have k1: "handles_known s1" using 0 by (simp add: s1 handles_known_def)
  define s2 where "s2 = write_task t f1 s1"
  have s2: "s2 = s1\<lparr>mq_task := (mq_task s1)(t := f1 (mq_task s1 t))\<rparr>"
    unfolding s2_def by (rule write_owned [of base hs "add_mset t (desc_blocks (Some d) + M)"]) (use 1 in simp_all)
  have o2: "sys base hs (add_mset t (desc_blocks (Some d) + M)) s2" "handles_known s2"
    using 1 k1 by (simp_all add: s2_def) (simp add: s2_def [symmetric] s2 handles_known_def)
  obtain p m where b: "iotc_alloc sizeof_specific_data (ev_mem s2) = (p, m)" by fastforce
  have "sizeof_specific_data < 2 ^ 63" by (simp add: sizeof_specific_data_def)
  note 2 = sys_alloc_known [OF o2 this b]
  define s3 where "s3 = write_task t (\<lambda>t. t\<lparr>mt_data_u := p\<rparr>) (s2\<lparr>ev_mem := m\<rparr>)"
  have s3: "s3 = (s2\<lparr>ev_mem := m\<rparr>)\<lparr>mq_task := (mq_task s2)(t := (mq_task s2 t)\<lparr>mt_data_u := p\<rparr>)\<rparr>"
    unfolding s3_def using write_owned [of base hs "add_mset p (add_mset t (desc_blocks (Some d) + M))" "s2\<lparr>ev_mem := m\<rparr>" t] 2 by simp
  have o3: "sys base hs (add_mset p (add_mset t (desc_blocks (Some d) + M))) s3" "handles_known s3"
    using 2 by (simp_all add: s3_def) (simp add: s3_def [symmetric] s3 handles_known_def)
  obtain tp m2 where c: "iotc_alloc (length topic + 1) (ev_mem s3) = (tp, m2)" by fastforce
  have "length topic + 1 < 2 ^ 63" using l by simp
  note 3 = sys_alloc_known [OF o3 this c]
  show thesis
  proof (rule that [where t = t and m = m2 and te = ?te and p = p and tp = tp])
    have "iotc_mqtt_logic_make_publish_task topic d qos retain cb s
        = (t, s3\<lparr>ev_mem := m2, mq_spec := (mq_spec s3)(p := Publish_data (Some (tp, topic)) (Some d) retain IOTC_MQTT_DUP_FALSE)\<rparr>)"
      using a b c 1 2 3 by (simp add: iotc_mqtt_logic_make_publish_task_def Let_def iotc_str_dup_def flip: f1_def s2_def s3_def)
    also have "\<dots> = (t, s\<lparr>ev_mem := m2, ev_te := ?te, mq_task := (mq_task s)(t := zeroed_task\<lparr>mt_scenario := IOTC_MQTT_PUBLISH, mt_qos := qos,
          mt_callback := cb, mt_data_u := p\<rparr>), mq_spec := (mq_spec s)(p := Publish_data (Some (tp, topic)) (Some d) retain IOTC_MQTT_DUP_FALSE)\<rparr>)"
      by (simp add: s3 s2 s1(2) f1_def)
    finally show "iotc_mqtt_logic_make_publish_task topic d qos retain cb s = \<dots>" .
    have "sys base hs (add_mset tp (add_mset p (add_mset t (desc_blocks (Some d) + M)))) (s3\<lparr>ev_mem := m2\<rparr>)" using 3 by blast
    then show "sys base hs (add_mset t (add_mset p (add_mset tp (desc_blocks (Some d)))) + M) (s\<lparr>ev_mem := m2, ev_te := ?te\<rparr>)"
      by (simp add: s3 s2 s1(2) sys_def lock_free_def add_mset_commute)
  qed (use 1 2 in blast)+
qed

text \<open>The callback that a publish is given, with the default for a null pointer.\<close>

definition publish_callback :: "ptr \<Rightarrow> ptr \<Rightarrow> ptr \<Rightarrow> event_handle" where
  "publish_callback c cb ud = iotc_make_handle_argc4 IOTC_THREADID_THREAD_0 fn_user_callback_wrapper c (if cb = NULL then NULL else ud)
     (state_arg IOTC_STATE_OK) (if cb = NULL then fn_default_client_callback else cb)"

text \<open>
  C4. Publishing in a time of backoff is refused and releases the copy of the message, so that the heap and the queue of calls are as they were.
  Otherwise the call of the top layer with a new task is the one call that is added to the queue, and the task owns copies of the
  topic and of the message, the quality of service and the callback.
\<close>

theorem publish_queues_task:
  assumes "api_ready h c s" and "sys base hs M s" and "handles_known s" and "length msg < 2 ^ 32" and "length topic < 2 ^ 62"
    and "neighbour_ok (ct_top (ap_ctx s c)) s This"
  shows "\<exists>st s1. iotc_publish h topic msg qos cb ud s = (st, s1)
    \<and> (if backoff_class (gl_backoff s) \<noteq> IOTC_BACKOFF_CLASS_NONE then st = IOTC_BACKOFF_TERMINAL \<and> sys base hs M s1
       else st = IOTC_STATE_OK \<and> (\<exists>t tp d. sys base (hs @ [call_handle (ct_top (ap_ctx s c)) s (This, F_push, t, IOTC_STATE_OK)]) (task_blocks t s1 + M) s1
         \<and> mt_scenario (mq_task s1 t) = IOTC_MQTT_PUBLISH \<and> mt_qos (mq_task s1 t) = qos \<and> mt_callback (mq_task s1 t) = publish_callback c cb ud
         \<and> mq_spec s1 (mt_data_u (mq_task s1 t)) = Publish_data (Some (tp, topic)) (Some d) IOTC_MQTT_RETAIN_FALSE IOTC_MQTT_DUP_FALSE
         \<and> desc_filled (Some d) = msg))"
proof -
  obtain d m where d: "iotc_make_desc_from_string_copy (Some msg) (ev_mem s) = (Some d, m)"
    and o: "sys base hs (desc_blocks (Some d) + M) (s\<lparr>ev_mem := m\<rparr>)" and k: "handles_known (s\<lparr>ev_mem := m\<rparr>)"
    and f: "desc_filled (Some d) = msg"
    by (rule sys_desc_copy [OF assms(2-4)])
  define s0 where "s0 = s\<lparr>ev_mem := m\<rparr>"
  let ?top = "ct_top (ap_ctx s c)"
  have r: "gl_contexts s0 \<noteq> None" "iotc_object_for_handle (contexts s0) h = c" "c \<noteq> NULL" "ap_ctx s0 = ap_ctx s" "gl_backoff s0 = gl_backoff s"
    using assms(1) by (auto simp: api_ready_def s0_def contexts_def)
  have p: "iotc_publish h topic msg qos cb ud s = iotc_publish_data_impl h topic d qos cb ud s0"
    using d by (simp add: iotc_publish_def s0_def)
  show ?thesis
  proof (cases "backoff_class (gl_backoff s) = IOTC_BACKOFF_CLASS_NONE")
    case False
    have "sys base hs M (on_mem (iotc_free_desc (Some d)) s0)"
      by (rule sys_mem [of base hs "desc_blocks (Some d)"]) (use o in \<open>simp_all add: s0_def owns_free_desc\<close>)
    with False r p show ?thesis by (simp add: iotc_publish_data_impl_def Let_def touch_ready)
  next
    case True
    obtain t u m' te tp where mk: "iotc_mqtt_logic_make_publish_task topic d qos IOTC_MQTT_RETAIN_FALSE (publish_callback c cb ud) s0
      = (t, s0\<lparr>ev_mem := m', ev_te := te, mq_task := (mq_task s0)(t := zeroed_task\<lparr>mt_scenario := IOTC_MQTT_PUBLISH, mt_qos := qos,
          mt_callback := publish_callback c cb ud, mt_data_u := u\<rparr>),
          mq_spec := (mq_spec s0)(u := Publish_data (Some (tp, topic)) (Some d) IOTC_MQTT_RETAIN_FALSE IOTC_MQTT_DUP_FALSE)\<rparr>)"
      and n: "t \<noteq> NULL" "u \<noteq> NULL"
      and o2: "sys base hs (add_mset t (add_mset u (add_mset tp (desc_blocks (Some d)))) + M) (s0\<lparr>ev_mem := m', ev_te := te\<rparr>)"
      by (rule make_publish_ok [of base hs d M s0 topic qos IOTC_MQTT_RETAIN_FALSE "publish_callback c cb ud"])
        (use o k assms(5) in \<open>simp_all add: s0_def\<close>)
    define s2 where "s2 = s0\<lparr>ev_mem := m', ev_te := te, mq_task := (mq_task s0)(t := zeroed_task\<lparr>mt_scenario := IOTC_MQTT_PUBLISH, mt_qos := qos,
          mt_callback := publish_callback c cb ud, mt_data_u := u\<rparr>),
          mq_spec := (mq_spec s0)(u := Publish_data (Some (tp, topic)) (Some d) IOTC_MQTT_RETAIN_FALSE IOTC_MQTT_DUP_FALSE)\<rparr>"
    have tb: "task_blocks t s2 = add_mset t (add_mset u (add_mset tp (desc_blocks (Some d))))"
      using n(2) by (simp add: task_blocks_def s2_def spec_blocks_def str_blocks_def)
    have o3: "sys base hs (task_blocks t s2 + M) s2" using o2 unfolding tb by (simp add: s2_def)
    have ly: "ly_at s2 = ly_at s" by (simp add: s2_def s0_def)
    then have nb: "neighbour_ok ?top s2 This" using assms(6) by (simp add: neighbour_ok_def)
    obtain st s1 where q: "IOTC_LAYER_CONTINUE_WITH This lf_push ?top t IOTC_STATE_OK s2 = (st, s1)" by fastforce
    from sys_continue [OF o3 nb, of F_push t IOTC_STATE_OK st s1] q have st: "st = IOTC_STATE_OK"
      and o1: "sys base (hs @ [call_handle ?top s2 (This, F_push, t, IOTC_STATE_OK)]) (task_blocks t s2 + M) s1" by auto
    have ch: "call_handle ?top s2 (This, F_push, t, IOTC_STATE_OK) = call_handle ?top s (This, F_push, t, IOTC_STATE_OK)"
      by (simp add: call_handle_def ly)
    have fr: "mq_task s1 = mq_task s2" "mq_spec s1 = mq_spec s2"
      using frame_continue(1,2) [of This lf_push ?top t IOTC_STATE_OK s2] by (simp_all add: q)
    then have "task_blocks t s1 = task_blocks t s2" by (simp add: task_blocks_def)
    moreover have "iotc_publish_data_impl h topic d qos cb ud s0
        = (case iotc_mqtt_logic_make_publish_task topic d qos IOTC_MQTT_RETAIN_FALSE (publish_callback c cb ud) s0 of (task, s2) \<Rightarrow>
             if task = NULL then (IOTC_OUT_OF_MEMORY, s2) else IOTC_LAYER_CONTINUE_WITH This lf_push (ct_top (ap_ctx s0 c)) task IOTC_STATE_OK s2)"
      using True r by (simp add: iotc_publish_data_impl_def Let_def touch_ready publish_callback_def)
    then have "iotc_publish h topic msg qos cb ud s = (st, s1)"
      using p q n(1) r(4) unfolding mk s2_def by simp
    ultimately show ?thesis using True st o1 ch f fr
      by (intro exI [of _ st] exI [of _ s1]) (simp, intro exI [of _ t] exI [of _ tp] exI [of _ d], simp add: s2_def)
  qed
qed

theorem publish_queues_task_witness:
  "\<exists>s1 t. iotc_publish 0 ''t'' [1, 2] IOTC_MQTT_QOS_AT_MOST_ONCE 0 0 (running_library [] fresh_context) = (IOTC_STATE_OK, s1)
    \<and> sys Map.empty [iotc_make_handle_argc3 251 430 43 t 0] (task_blocks t s1) s1"
proof -
  have o: "sys Map.empty [] {#} (running_library [] fresh_context)" using sys_running_library [of "[]"] by simp
  have k: "handles_known (running_library [] fresh_context)" by (simp add: handles_known_def small_vec_def vec_list_def)
  have n: "neighbour_ok (ct_top (ap_ctx (running_library [] fresh_context) 50)) (running_library [] fresh_context) This"
    by (simp add: neighbour_ok_def fresh_context_def example_layers_def interface_ok_def)
  show ?thesis
    using publish_queues_task [OF running_library_ready o k _ _ n, of "[1, 2]" "''t''" IOTC_MQTT_QOS_AT_MOST_ONCE 0 0]
    by (auto simp: default_status_def call_handle_def fresh_context_def example_layers_def IOTC_THREADID_MAINTHREAD_def state_arg_def)
qed

section \<open>Closing\<close>

text \<open>
  C39. When memory for the task of a shutdown is refused, the connection stays marked as being shut down although nothing was
  queued: from then on, whatever memory there is, a request to shut it down or to connect is refused as already under way, and
  the connection, still open, is reported as not connected.
\<close>

theorem shutdown_stuck_after_failure:
  assumes "api_ready h c s" and "te_hnd (ev_te s) c = NULL" and "ct_connection (ap_ctx s c) = Some d"
    and "cd_connection_state d = IOTC_CONNECTION_STATE_OPENED" and "ct_shutdown_state (ap_ctx s c) = IOTC_SHUTDOWN_UNINITIALISED"
    and "\<not> m_ok (ev_mem s) (m_seq (ev_mem s)) sizeof_mqtt_task"
  shows "\<exists>s1. iotc_shutdown_connection h s = (IOTC_OUT_OF_MEMORY, s1) \<and> ev_call_queue s1 = ev_call_queue s \<and> ev_next s1 = ev_next s
    \<and> iotc_is_context_connected h s \<and> \<not> iotc_is_context_connected h s1
    \<and> (\<forall>m. iotc_shutdown_connection h (s1\<lparr>ev_mem := m\<rparr>) = (IOTC_ALREADY_INITIALIZED, s1\<lparr>ev_mem := m\<rparr>)
        \<and> iotc_connect_to rnd h (Some host) port username password (Some client_id) ct kt cb (s1\<lparr>ev_mem := m\<rparr>)
            = (IOTC_ALREADY_INITIALIZED, s1\<lparr>ev_mem := m\<rparr>))"
proof -
  have r: "gl_contexts s \<noteq> None" "iotc_object_for_handle (contexts s) h = c" "c \<noteq> NULL" "- 1 < h"
    using assms(1) by (auto simp: api_ready_def)
  define s1 where "s1 = (upd_ctx c (\<lambda>c. c\<lparr>ct_shutdown_state := IOTC_SHUTDOWN_STARTED\<rparr>) s)\<lparr>ev_mem := (ev_mem s)\<lparr>m_seq := Suc (m_seq (ev_mem s))\<rparr>\<rparr>"
  have a: "iotc_alloc sizeof_mqtt_task (ev_mem s) = (NULL, (ev_mem s)\<lparr>m_seq := Suc (m_seq (ev_mem s))\<rparr>)"
    using assms(6) by (simp add: iotc_alloc_def iotc_bsp_mem_alloc_def)
  have f: "gl_contexts (s1\<lparr>ev_mem := m\<rparr>) = gl_contexts s" "contexts (s1\<lparr>ev_mem := m\<rparr>) = contexts s" "ev_te s1 = ev_te s"
    "ct_connection (ap_ctx s1 c) = Some d" "ct_shutdown_state (ap_ctx s1 c) = IOTC_SHUTDOWN_STARTED" for m
    by (simp_all add: s1_def contexts_def assms(3))
  have c1: "contexts s1 = contexts s" by (simp add: s1_def contexts_def)
  have "iotc_shutdown_connection h s = (IOTC_OUT_OF_MEMORY, s1)"
    using r assms(2-5) a by (simp add: iotc_shutdown_connection_def Let_def touch_ready shutdown_push_def
        iotc_mqtt_logic_make_shutdown_task_def alloc_task_def s1_def)
  moreover have "iotc_shutdown_connection h (s1\<lparr>ev_mem := m\<rparr>) = (IOTC_ALREADY_INITIALIZED, s1\<lparr>ev_mem := m\<rparr>)" for m
    using r assms(2,4) f by (simp add: iotc_shutdown_connection_def Let_def touch_ready)
  moreover have "iotc_connect_to rnd h (Some host) port username password (Some client_id) ct kt cb (s1\<lparr>ev_mem := m\<rparr>)
      = (IOTC_ALREADY_INITIALIZED, s1\<lparr>ev_mem := m\<rparr>)" for m
    using r assms(2,4) f by (simp add: iotc_connect_to_def Let_def touch_ready connection_started_def IOTC_INVALID_CONTEXT_HANDLE_def)
  moreover have "iotc_is_context_connected h s \<and> \<not> iotc_is_context_connected h s1"
    using r assms(3-5) f(4,5) c1 by (simp add: iotc_is_context_connected_def Let_def IOTC_INVALID_CONTEXT_HANDLE_def)
  ultimately show ?thesis by (intro exI [of _ s1]) (simp add: s1_def upd_ctx_def)
qed

definition open_context :: context_block where
  "open_context = fresh_context\<lparr>ct_connection := Some ((zeroed_connection_data 30)\<lparr>cd_connection_state := IOTC_CONNECTION_STATE_OPENED\<rparr>)\<rparr>"

theorem shutdown_stuck_after_failure_witness:
  "\<exists>s1. iotc_shutdown_connection 0 ((running_library [] open_context)\<lparr>ev_mem := empty_mem (\<lambda>i n. False)\<rparr>) = (IOTC_OUT_OF_MEMORY, s1)
    \<and> (\<forall>m. iotc_shutdown_connection 0 (s1\<lparr>ev_mem := m\<rparr>) = (IOTC_ALREADY_INITIALIZED, s1\<lparr>ev_mem := m\<rparr>))"
proof -
  let ?s = "(running_library [] open_context)\<lparr>ev_mem := empty_mem (\<lambda>i n. False)\<rparr>"
  have r: "api_ready 0 50 ?s" by (simp add: api_ready_def contexts_def one_context_def iotc_object_for_handle_def iotc_vector_get_def)
  have f: "te_hnd (ev_te ?s) 50 = NULL"
    "ct_connection (ap_ctx ?s 50) = Some ((zeroed_connection_data 30)\<lparr>cd_connection_state := IOTC_CONNECTION_STATE_OPENED\<rparr>)"
    "ct_shutdown_state (ap_ctx ?s 50) = IOTC_SHUTDOWN_UNINITIALISED" "\<not> m_ok (ev_mem ?s) (m_seq (ev_mem ?s)) sizeof_mqtt_task"
    by (simp_all add: open_context_def fresh_context_def zeroed_context_def empty_mem_def)
  have f5: "cd_connection_state ((zeroed_connection_data 30)\<lparr>cd_connection_state := IOTC_CONNECTION_STATE_OPENED\<rparr>) = IOTC_CONNECTION_STATE_OPENED"
    by simp
  from shutdown_stuck_after_failure [OF r f(1,2) f5 f(3,4), of 0 "(60, ''host'')" 8883 None None "(61, ''id'')" 10 20 70]
  show ?thesis by blast
qed

section \<open>The control topic layer\<close>

definition connection_report :: "ptr \<Rightarrow> connection_data \<Rightarrow> iotc_state \<Rightarrow> 'z api_scheme \<Rightarrow> event_handle" where
  "connection_report c d st s = set_arg 2 (state_arg st) (set_arg 1 (cd_self d) (ct_connection_callback (ap_ctx s c)))"

lemma evttd_execute_ctx: "ap_ctx (snd (iotc_evttd_execute h s)) = ap_ctx s"
  by (simp add: iotc_evttd_execute_def iotc_evtd_execute_def Let_def iotc_lock_critical_section_def
      iotc_unlock_critical_section_def split: prod.splits option.splits)

lemma state_changed_unfold:
  assumes "ap_layer_context s l = c" and "ct_connection (ap_ctx s c) = Some d"
  shows "iotc_control_topic_connection_state_changed l st s =
    (let h = connection_report c d st s; s2 = snd (iotc_evttd_execute h (upd_ctx c (\<lambda>x. x\<lparr>ct_connection_callback := h\<rparr>) s))
     in (st, if st = IOTC_STATE_OK
               \<and> map_option cd_connection_state (ct_connection (ap_ctx s2 c)) = Some IOTC_CONNECTION_STATE_OPENED
             then snd (IOTC_LAYER_CONTINUE_WITH This lf_post_connect l NULL st s2) else s2))"
  unfolding iotc_control_topic_connection_state_changed_def Let_def connection_report_def assms(1) by (simp only: assms(2) option.case)

lemma state_changed:
  assumes "sys base hs M s" and "ap_layer_context s l = c" and "ct_connection (ap_ctx s c) = Some d"
    and "neighbour_ok l s This" and "iotc_control_topic_connection_state_changed l st s = (r, s1)"
  shows "r = st \<and> sys base (hs @ connection_report c d st s
      # (if st = IOTC_STATE_OK \<and> cd_connection_state d = IOTC_CONNECTION_STATE_OPENED
         then [call_handle l s (This, F_post_connect, NULL, st)] else [])) M s1"
proof -
  let ?h = "connection_report c d st s"
  define s0 where "s0 = upd_ctx c (\<lambda>x. x\<lparr>ct_connection_callback := ?h\<rparr>) s"
  obtain e s2 where p: "iotc_evttd_execute ?h s0 = (e, s2)" by fastforce
  have o0: "sys base hs M s0" using assms(1) by (simp add: s0_def)
  from sys_post [OF o0 p] have o2: "sys base (hs @ [?h]) M s2" by blast
  have f: "ap_ctx s2 c = (ap_ctx s c)\<lparr>ct_connection_callback := ?h\<rparr>" "ly_at s2 = ly_at s"
    using evttd_execute_ctx [of ?h s0] evttd_execute_layers [of ?h s0] unfolding p by (simp_all add: s0_def)
  have nb: "neighbour_ok l s2 This" using assms(4) by (simp add: neighbour_ok_def f)
  have ch: "call_handle l s2 x = call_handle l s x" if "fst x = This" for x
    using that by (cases x) (simp add: call_handle_def f)
  obtain r3 s3 where q: "IOTC_LAYER_CONTINUE_WITH This lf_post_connect l NULL st s2 = (r3, s3)" by fastforce
  from sys_continue [OF o2 nb, of F_post_connect NULL st r3 s3] q
  have o3: "sys base ((hs @ [?h]) @ [call_handle l s (This, F_post_connect, NULL, st)]) M s3" by (simp add: ch)
  have "(r, s1) = (st, if st = IOTC_STATE_OK \<and> cd_connection_state d = IOTC_CONNECTION_STATE_OPENED then s3 else s2)"
    using assms(5) unfolding state_changed_unfold [OF assms(2,3)] Let_def s0_def [symmetric] p snd_conv q f(1)
    by (auto simp: assms(3))
  with o2 o3 show ?thesis by auto
qed

text \<open>
  C24. The layer on top of the chain tells the application what became of its connection: when the layers below have connected, the callback is
  queued once with the data of the connection, and the functions that follow an opened connection after it; when
  they have closed, the state of the connection becomes that of a failed attempt if it was being opened and
  that of a closed connection otherwise, and the callback is queued once with the reason.
\<close>

theorem control_topic_reports_connection:
  assumes "sys base hs M s" and "ap_layer_context s l = c" and "ct_connection (ap_ctx s c) = Some d" and "neighbour_ok l s This"
  shows "\<exists>s1 s2 d2. iotc_control_topic_layer_connect l data IOTC_STATE_OK s = (IOTC_STATE_OK, s1)
    \<and> sys base (hs @ connection_report c d IOTC_STATE_OK s # (if cd_connection_state d = IOTC_CONNECTION_STATE_OPENED
          then [call_handle l s (This, F_post_connect, NULL, IOTC_STATE_OK)] else [])) M s1
    \<and> iotc_control_topic_layer_close_externally l data st s = (st, s2)
    \<and> d2 = d\<lparr>cd_connection_state := (if cd_connection_state d = IOTC_CONNECTION_STATE_OPENING
          then IOTC_CONNECTION_STATE_OPEN_FAILED else IOTC_CONNECTION_STATE_CLOSED)\<rparr>
    \<and> ct_connection (ap_ctx s2 c) = Some d2 \<and> sys base (hs @ [connection_report c d st s]) M s2"
proof -
  obtain r1 s1 where a: "iotc_control_topic_connection_state_changed l IOTC_STATE_OK s = (r1, s1)" by fastforce
  let ?x = "if cd_connection_state d = IOTC_CONNECTION_STATE_OPENING then IOTC_CONNECTION_STATE_OPEN_FAILED else IOTC_CONNECTION_STATE_CLOSED"
  define d2 where "d2 = d\<lparr>cd_connection_state := ?x\<rparr>"
  define s0 where "s0 = set_context_connection_state c ?x s"
  have s0: "s0 = upd_ctx c (\<lambda>y. y\<lparr>ct_connection := Some d2\<rparr>) s" "ct_connection (ap_ctx s0 c) = Some d2"
    using assms(3) by (simp_all add: s0_def set_context_connection_state_def d2_def upd_ctx_def)
  have o0: "sys base hs M s0" "ap_layer_context s0 l = c" "neighbour_ok l s0 This" "connection_report c d2 st s0 = connection_report c d st s"
    using assms by (simp_all add: s0(1) neighbour_ok_def connection_report_def d2_def)
  obtain r2 s2 where b: "iotc_control_topic_connection_state_changed l st s0 = (r2, s2)" by fastforce
  have n: "cd_connection_state d2 \<noteq> IOTC_CONNECTION_STATE_OPENED" by (simp add: d2_def)
  from state_changed [OF o0(1,2) s0(2) o0(3) b] n
  have 2: "r2 = st" "sys base (hs @ [connection_report c d st s]) M s2" by (simp_all add: o0(4))
  have "ct_connection (ap_ctx s2 c) = Some d2"
  proof -
    have "s2 = snd (iotc_evttd_execute (connection_report c d2 st s0)
        (upd_ctx c (\<lambda>x. x\<lparr>ct_connection_callback := connection_report c d2 st s0\<rparr>) s0))"
      using b n unfolding state_changed_unfold [OF o0(2) s0(2)] Let_def evttd_execute_ctx by (auto simp: s0(2))
    then show ?thesis by (simp add: evttd_execute_ctx s0(2))
  qed
  moreover have "iotc_control_topic_layer_close_externally l data st s = (st, s2)"
    using assms(2,3) b 2(1) by (simp add: iotc_control_topic_layer_close_externally_def Let_def s0_def)
  moreover have "iotc_control_topic_layer_connect l data IOTC_STATE_OK s = (IOTC_STATE_OK, s1)"
    using a state_changed [OF assms a] by (simp add: iotc_control_topic_layer_connect_def)
  ultimately show ?thesis using state_changed [OF assms a] 2 d2_def by (intro exI [of _ s1] exI [of _ s2] exI [of _ d2]) simp
qed

theorem control_topic_reports_connection_witness:
  "\<exists>s1 s2. iotc_control_topic_layer_connect 43 0 IOTC_STATE_OK ((running_library [] open_context)\<lparr>ap_layer_context := (\<lambda>l. 50)\<rparr>) = (IOTC_STATE_OK, s1)
    \<and> iotc_control_topic_layer_close_externally 43 0 IOTC_STATE_TIMEOUT ((running_library [] open_context)\<lparr>ap_layer_context := (\<lambda>l. 50)\<rparr>)
        = (IOTC_STATE_TIMEOUT, s2)
    \<and> map_option cd_connection_state (ct_connection (ap_ctx s2 50)) = Some IOTC_CONNECTION_STATE_CLOSED"
proof -
  let ?s = "(running_library [] open_context)\<lparr>ap_layer_context := (\<lambda>l. 50)\<rparr>"
  have o: "sys Map.empty [] {#} ?s" using sys_running_library [of "[]" open_context] by (simp add: sys_def lock_free_def)
  have n: "neighbour_ok 43 ?s This" by (simp add: neighbour_ok_def example_layers_def interface_ok_def)
  have "ap_layer_context ?s 43 = 50" "ct_connection (ap_ctx ?s 50) = Some ((zeroed_connection_data 30)\<lparr>cd_connection_state := IOTC_CONNECTION_STATE_OPENED\<rparr>)"
    by (simp_all add: open_context_def)
  from control_topic_reports_connection [OF o this n, of 0 IOTC_STATE_TIMEOUT] show ?thesis
    by (auto simp: zeroed_connection_data_def)
qed

section \<open>A received message\<close>

lemma alloc_granted_owned:
  assumes "owns_blocks base M m" and "all_granted m" and "n < 2 ^ 63" and "iotc_alloc n m = (p, m')"
  shows "p \<noteq> NULL \<and> owns_blocks base (add_mset p M) m' \<and> all_granted m'"
proof -
  have "m_ok m (m_seq m) n" using assms(2,3) by (simp add: all_granted_def)
  from alloc_granted [OF owns_wf [OF assms(1)] this assms(4)] have "p \<noteq> NULL" .
  with owns_alloc [OF assms(1,4)] all_granted_alloc [OF assms(2,4)] show ?thesis by simp
qed

lemma append_owned:
  assumes o: "owns_blocks base (desc_blocks (Some d) + M) m" and g: "all_granted m" and i: "desc_inv d"
    and t: "d_memory_type d = IOTC_MEMORY_TYPE_MANAGED" and n: "unat (d_length d) + length bs \<le> 2 ^ 31"
  obtains d' m' where "iotc_data_desc_append_data_resize (Some d) (Some bs) m = (IOTC_STATE_OK, Some d', m')"
    and "owns_blocks base (desc_blocks (Some d') + M) m'" and "all_granted m'" and "desc_data d' = desc_data d @ bs"
proof -
  let ?n = "of_nat (unat (d_length d) + length bs) :: 32 word"
  let ?c = "iotc_data_desc_pow2_realloc_strategy (d_capacity d) ?n"
  have u: "unat ?n = unat (d_length d) + length bs" using n by (intro unat_of_nat_small) simp
  have f: "iotc_data_desc_will_it_fit d (length bs) \<longleftrightarrow> unat (d_length d) + length bs \<le> unat (d_capacity d)"
    using n by (intro fits_iff) simp
  obtain d1 m1 where a: "iotc_data_desc_assure_buf_len d (length bs) m = (IOTC_STATE_OK, d1, m1)"
    and o1: "owns_blocks base (desc_blocks (Some d1) + M) m1" "all_granted m1" and i1: "desc_inv d1" "desc_data d1 = desc_data d"
    and c1: "d_length d1 = d_length d" "unat (d_length d) + length bs \<le> unat (d_capacity d1)" "d_memory_type d1 = IOTC_MEMORY_TYPE_MANAGED"
  proof (cases "iotc_data_desc_will_it_fit d (length bs)")
    case True
    with f that [of d m] o g i t show thesis by (simp add: iotc_data_desc_assure_buf_len_def)
  next
    case False
    obtain b m1 where al: "iotc_alloc (unat ?c) m = (b, m1)" by fastforce
    have "unat ?c < 2 ^ 32" using unsigned_less [of ?c, where 'a = nat] by simp
    then have "unat ?c < 2 ^ 63" by simp
    note 1 = alloc_granted_owned [OF o g this al]
    note pw = pow2_strategy_enough [of ?n "d_capacity d", unfolded u, OF n]
    let ?d = "d\<lparr>d_data_ptr := b, d_bytes := memcpy_at (replicate (unat ?c) 0) 0 (take (unat (d_capacity d)) (d_bytes d)),
      d_capacity := ?c\<rparr>"
    have r: "iotc_data_desc_assure_buf_len d (length bs) m = (IOTC_STATE_OK, ?d, IOTC_SAFE_FREE (d_data_ptr d) m1)"
      using False al 1 pw(1) t unfolding iotc_data_desc_assure_buf_len_def
      by (simp add: iotc_data_desc_realloc_def memcpy_check_def Let_def)
    have "owns_blocks base (add_mset (d_data_ptr d) (desc_blocks (Some ?d) + M)) m1"
      using 1 t by (simp add: desc_blocks_def add_mset_commute)
    from owns_free [OF this] have "owns_blocks base (desc_blocks (Some ?d) + M) (IOTC_SAFE_FREE (d_data_ptr d) m1)" .
    moreover have "desc_inv ?d" "desc_data ?d = desc_data d"
      using i pw(1) by (auto simp: desc_inv_def desc_data_def memcpy_at_def word_le_nat_alt)
    ultimately show thesis using that [OF r] 1 pw(2) t by simp
  qed
  have len: "unat (d_length d1) + length bs \<le> unat (d_capacity d1)" using c1(1,2) by simp
  have "length (d_bytes d1) = unat (d_capacity d1)" using i1(1) by (simp add: desc_inv_def)
  with a len have "iotc_data_desc_append_data_resize (Some d) (Some bs) m = (IOTC_STATE_OK, Some (desc_write d1 bs), m1)"
    by (simp add: iotc_data_desc_append_data_resize_def memcpy_check_def)
  moreover have "desc_blocks (Some (desc_write d1 bs)) = desc_blocks (Some d1)" by (simp add: desc_blocks_def desc_write_def)
  ultimately show thesis using that o1 i1 desc_write_spec(2) [OF i1(1) len] by metis
qed

text \<open>The fields of a message as the application gets them.\<close>

definition user_qos :: "nat \<Rightarrow> mqtt_qos" where
  "user_qos n = (if n = 0 then IOTC_MQTT_QOS_AT_MOST_ONCE else if n = 1 then IOTC_MQTT_QOS_AT_LEAST_ONCE else IOTC_MQTT_QOS_EXACTLY_ONCE)"

definition user_message :: "byte list \<Rightarrow> byte list \<Rightarrow> mqtt_message \<Rightarrow> sub_call" where
  "user_message topic content msg = Sub_message topic content
     (if mm_retain msg = 0 then IOTC_MQTT_RETAIN_FALSE else IOTC_MQTT_RETAIN_TRUE) (user_qos (mm_qos msg))
     (if mm_dup msg = 0 then IOTC_MQTT_DUP_FALSE else IOTC_MQTT_DUP_TRUE)"

text \<open>A callback that returns with the message as it was and with the heap in order.\<close>

definition well_behaved :: "(ptr \<rightharpoonup> nat) \<Rightarrow> event_handle list \<Rightarrow> ptr multiset \<Rightarrow> ptr \<Rightarrow> ('z api_scheme \<Rightarrow> 'z api_scheme) \<Rightarrow> bool" where
  "well_behaved base hs M p f \<longleftrightarrow> (\<forall>s. sys base hs (message_blocks p (mq_msg s p) + M) s \<longrightarrow>
     mq_msg (f s) p = mq_msg s p \<and> sys base hs (message_blocks p (mq_msg s p) + M) (f s))"

text \<open>
  C9. A message for a subscription reaches its callback exactly once, with the handle of the context, the topic followed by a zero,
  the contents and the flags of the message; after the callback has returned the message with its topic and contents is released,
  and nothing else.
\<close>

theorem subscription_message_delivered:
  assumes "gl_contexts s \<noteq> None" and "c \<noteq> NULL" and "iotc_find_handle_for_object (contexts s) c = (IOTC_STATE_OK, h)" and "cb \<noteq> NULL"
    and "task \<noteq> NULL" and "sys base hs (message_blocks p (mq_msg s p) + M) s" and "mm_type (mq_msg s p) = IOTC_MQTT_TYPE_PUBLISH"
    and "mm_body (mq_msg s p) = Publish_body (Some topic) i content" and "desc_inv topic" and "d_memory_type topic = IOTC_MEMORY_TYPE_MANAGED"
    and "unat (d_length topic) < 2 ^ 31" and "mm_qos (mq_msg s p) < 3" and "mm_retain (mq_msg s p) < 2" and "mm_dup (mq_msg s p) < 2"
    and "well_behaved base hs M p (user cb h (user_message (desc_data topic @ [0]) (desc_filled content) (mq_msg s p)) IOTC_STATE_OK ud)"
  shows "\<exists>s1. iotc_user_sub_call_wrapper user c p IOTC_STATE_OK cb ud task s = (IOTC_STATE_OK,
      free_message p (user cb h (user_message (desc_data topic @ [0]) (desc_filled content) (mq_msg s p)) IOTC_STATE_OK ud s1))
    \<and> sys base hs M (snd (iotc_user_sub_call_wrapper user c p IOTC_STATE_OK cb ud task s))"
proof -
  let ?m = "mq_msg s p"
  have b: "message_blocks p ?m = desc_blocks (Some topic) + (message_blocks p (?m\<lparr>mm_body := Publish_body None i content\<rparr>))"
    using assms(7,8) by (simp add: message_blocks_def body_blocks_def add_ac)
  obtain qs where q: "chain (ev_next s) (ev_call_queue s) qs" "map (ev_queued s) qs = hs"
    and o: "owns_blocks base (mset qs + (mset (vec_list (ev_timers s)) + (message_blocks p ?m + M))) (ev_mem s)"
    using assms(6) by (auto simp: sys_def)
  let ?R = "mset qs + (mset (vec_list (ev_timers s)) + (message_blocks p (?m\<lparr>mm_body := Publish_body None i content\<rparr>) + M))"
  have o': "owns_blocks base (desc_blocks (Some topic) + ?R) (ev_mem s)" using o by (simp add: b ac_simps)
  have "all_granted (ev_mem s)" using assms(6) by (simp add: sys_def)
  then obtain t2 m2 where a: "iotc_data_desc_append_data_resize (Some topic) (Some [0]) (ev_mem s) = (IOTC_STATE_OK, Some t2, m2)"
    and o2: "owns_blocks base (desc_blocks (Some t2) + ?R) m2" "all_granted m2" and t2: "desc_data t2 = desc_data topic @ [0]"
    using append_owned [OF o' _ assms(9,10), of "[0]"] assms(11) by auto
  let ?m2 = "?m\<lparr>mm_body := Publish_body (Some t2) i content\<rparr>"
  define s1 where "s1 = put_message p ?m2 (s\<lparr>ev_mem := m2\<rparr>)"
  have m1: "mq_msg s1 p = ?m2" by (simp add: s1_def put_message_def)
  have "message_blocks p ?m2 = desc_blocks (Some t2) + (message_blocks p (?m\<lparr>mm_body := Publish_body None i content\<rparr>))"
    using assms(7) by (simp add: message_blocks_def body_blocks_def add_ac)
  with o2 q assms(6) have s1: "sys base hs (message_blocks p (mq_msg s1 p) + M) s1"
    by (auto simp: m1 s1_def put_message_def sys_def lock_free_def ac_simps intro!: exI [of _ qs])
  let ?call = "user_message (desc_data topic @ [0]) (desc_filled content) ?m"
  have f2: "desc_filled (Some t2) = desc_data topic @ [0]" using t2 by (simp add: desc_filled_def desc_data_def)
  have e: "sub_message p s = (Some (?call, IOTC_STATE_OK), s1)"
    using assms(8,12-14) a f2 m1
    by (auto simp: sub_message_def Let_def iotc_mqtt_convert_to_qos_def iotc_mqtt_convert_to_dup_def iotc_mqtt_convert_to_retain_def
        user_message_def user_qos_def simp flip: s1_def)
  let ?u = "user cb h ?call IOTC_STATE_OK ud s1"
  have r: "iotc_user_sub_call_wrapper user c p IOTC_STATE_OK cb ud task s = (IOTC_STATE_OK, free_message p ?u)"
    using assms(1-5) e by (simp add: iotc_user_sub_call_wrapper_def Let_def touch_ready call_user_sub_def)
  have "mq_msg ?u p = mq_msg s1 p" "sys base hs (message_blocks p (mq_msg s1 p) + M) ?u"
    using assms(15) s1 unfolding well_behaved_def by blast+
  then have "sys base hs M (free_message p ?u)" using sys_free_message [of base hs p ?u M] by simp
  then show ?thesis unfolding r snd_conv by blast
qed

text \<open>A message in the heap, and a callback that counts its calls in the network timeout.\<close>

definition example_desc :: "ptr \<Rightarrow> ptr \<Rightarrow> byte list \<Rightarrow> data_desc" where
  "example_desc p q bs = (zeroed_desc p)\<lparr>d_memory_type := IOTC_MEMORY_TYPE_MANAGED, d_data_ptr := q, d_bytes := bs,
     d_length := of_nat (length bs), d_capacity := of_nat (length bs)\<rparr>"

definition received_message :: mqtt_message where
  "received_message = zeroed_message\<lparr>mm_type := IOTC_MQTT_TYPE_PUBLISH,
     mm_body := Publish_body (Some (example_desc 61 62 [116])) 0 (Some (example_desc 63 64 [1, 2, 3]))\<rparr>"

definition counting_user :: "unit sub_user" where
  "counting_user f h call st ud s = (if call = Sub_message [116, 0] [1, 2, 3] IOTC_MQTT_RETAIN_FALSE IOTC_MQTT_QOS_AT_MOST_ONCE IOTC_MQTT_DUP_FALSE
     then s\<lparr>gl_network_timeout := gl_network_timeout s + 1\<rparr> else s)"

theorem subscription_message_delivered_witness:
  "\<exists>s1. iotc_user_sub_call_wrapper counting_user 50 60 IOTC_STATE_OK 70 0 71 ((running_library [60, 61, 62, 63, 64] fresh_context)\<lparr>mq_msg := (\<lambda>p. received_message)\<rparr>)
      = (IOTC_STATE_OK, s1) \<and> sys Map.empty [] {#} s1"
proof -
  let ?s = "(running_library [60, 61, 62, 63, 64] fresh_context)\<lparr>mq_msg := (\<lambda>p. received_message)\<rparr>"
  have m: "message_blocks 60 (mq_msg ?s 60) = mset [60, 61, 62, 63, 64]"
    by (simp add: received_message_def message_blocks_def body_blocks_def desc_blocks_def example_desc_def zeroed_desc_def)
  have o: "sys Map.empty [] (message_blocks 60 (mq_msg ?s 60) + {#}) ?s"
    unfolding m using sys_running_library [of "[60, 61, 62, 63, 64]" fresh_context] by (simp add: sys_def lock_free_def)
  have c: "gl_contexts ?s \<noteq> None" "iotc_find_handle_for_object (contexts ?s) 50 = (IOTC_STATE_OK, 0)"
    by (simp_all add: contexts_def one_context_def iotc_find_handle_for_object_def iotc_vector_find_def vector_find_loop.simps
        iotc_compare_context_pointers_def)
  have t: "desc_inv (example_desc 61 62 [116])" "d_memory_type (example_desc 61 62 [116]) = IOTC_MEMORY_TYPE_MANAGED"
    "unat (d_length (example_desc 61 62 [116])) < 2 ^ 31" by (simp_all add: desc_inv_def example_desc_def)
  have f: "mm_type (mq_msg ?s 60) = IOTC_MQTT_TYPE_PUBLISH" "mm_qos (mq_msg ?s 60) < 3" "mm_retain (mq_msg ?s 60) < 2" "mm_dup (mq_msg ?s 60) < 2"
    "mm_body (mq_msg ?s 60) = Publish_body (Some (example_desc 61 62 [116])) 0 (Some (example_desc 63 64 [1, 2, 3]))"
    by (simp_all add: received_message_def zeroed_message_def)
  have u: "well_behaved Map.empty [] {#} 60 (counting_user 70 0 call IOTC_STATE_OK 0)" for call
    by (auto simp: well_behaved_def counting_user_def sys_def lock_free_def)
  have n: "(50::nat) \<noteq> NULL" "(70::nat) \<noteq> NULL" "(71::nat) \<noteq> NULL" by simp_all
  from subscription_message_delivered [where p = 60 and user = counting_user and ud = 0, OF c(1) n(1) c(2) n(2,3) o f(1,5) t f(2-4) u] show ?thesis by (metis snd_conv)
qed

end
