(* ===== verification/Iotc_Jwt.thy ===== *)
theory Iotc_Jwt
  imports Iotc_Mqtt_Message
begin

text \<open>
  The tokens with which a device authenticates, \<^verbatim>\<open>src/libiotc/iotc_jwt.c\<close>, and the ports of the cryptography that it uses, for
  mbedtls, wolfssl and cryptoauthlib (\<^verbatim>\<open>src/bsp/crypto\<close>), with the dummy of \<^verbatim>\<open>src/bsp/platform/dummy\<close>. The functions of
  these libraries are parameters, collected in a record for each of the libraries; so is the clock.

  A function that fills a buffer returns what it stored from the start of the buffer on. The buffer of the
  caller is a list of bytes; a store outside it sets a flag.
\<close>

section \<open>Types\<close>

datatype crypto_state =
    IOTC_BSP_CRYPTO_STATE_OK
  | IOTC_BSP_CRYPTO_ERROR
  | IOTC_BSP_CRYPTO_BASE64_ERROR
  | IOTC_BSP_CRYPTO_SHA256_ERROR
  | IOTC_BSP_CRYPTO_ECC_ERROR
  | IOTC_BSP_CRYPTO_BUFFER_TOO_SMALL_ERROR
  | IOTC_BSP_CRYPTO_KEY_PARSE_ERROR
  | IOTC_BSP_CRYPTO_SERIALIZE_ERROR
  | IOTC_BSP_CRYPTO_INVALID_INPUT_PARAMETER_ERROR

datatype signature_algorithm =
    IOTC_CRYPTO_KEY_SIGNATURE_ALGORITHM_INVALID
  | IOTC_CRYPTO_KEY_SIGNATURE_ALGORITHM_ES256

text \<open>The key; the last constructor is a number that the enumeration does not have.\<close>

datatype crypto_key =
    Key_pem "string option"
  | Key_slot nat
  | Key_custom ptr nat
  | Key_unknown

record crypto_key_data =
  ck_key :: crypto_key
  ck_algorithm :: signature_algorithm

record jwt_buffer =
  jb_bytes :: "byte list"
  jb_bad :: bool

definition jwt_store :: "nat \<Rightarrow> byte list \<Rightarrow> jwt_buffer \<Rightarrow> jwt_buffer" where
  "jwt_store off bs b = b\<lparr>jb_bytes := memcpy_at (jb_bytes b) off bs, jb_bad := (jb_bad b \<or> length (jb_bytes b) < off + length bs)\<rparr>"

definition jwt_load :: "nat \<Rightarrow> jwt_buffer \<Rightarrow> byte list \<times> jwt_buffer" where
  "jwt_load n b = (take n (jb_bytes b), b\<lparr>jb_bad := (jb_bad b \<or> length (jb_bytes b) < n)\<rparr>)"

text \<open>The interface \<^verbatim>\<open>src/include/bsp/iotc_bsp_crypto.h\<close>: the encoding returns what it stored from the start of the buffer on,
  the signature is stored in the buffer that is handed in with its size.\<close>

record crypto_port =
  cp_base64 :: "nat \<Rightarrow> byte list \<Rightarrow> crypto_state \<times> nat \<times> byte list"
  cp_sha256 :: "byte list \<Rightarrow> crypto_state \<times> byte list"
  cp_ecc :: "crypto_key_data \<Rightarrow> jwt_buffer \<Rightarrow> nat \<Rightarrow> byte list \<Rightarrow> crypto_state \<times> nat \<times> jwt_buffer"

section \<open>The token\<close>

definition IOTC_JWT_HEADER_BUF_SIZE :: nat where "IOTC_JWT_HEADER_BUF_SIZE = 40"
definition IOTC_JWT_PAYLOAD_BUF_SIZE :: nat where "IOTC_JWT_PAYLOAD_BUF_SIZE = 256"
definition IOTC_JWT_MAX_SIGNATURE_SIZE :: nat where "IOTC_JWT_MAX_SIGNATURE_SIZE = 132"
definition IOTC_JWT_HEADER_BUF_SIZE_BASE64 :: nat where "IOTC_JWT_HEADER_BUF_SIZE_BASE64 = (IOTC_JWT_HEADER_BUF_SIZE + 2) div 3 * 4"
definition IOTC_JWT_PAYLOAD_BUF_SIZE_BASE64 :: nat where "IOTC_JWT_PAYLOAD_BUF_SIZE_BASE64 = (IOTC_JWT_PAYLOAD_BUF_SIZE + 2) div 3 * 4"
definition IOTC_JWT_MAX_SIGNATURE_SIZE_BASE64 :: nat where "IOTC_JWT_MAX_SIGNATURE_SIZE_BASE64 = (IOTC_JWT_MAX_SIGNATURE_SIZE + 2) div 3 * 4"
definition IOTC_JWT_SIZE :: nat where
  "IOTC_JWT_SIZE = IOTC_JWT_HEADER_BUF_SIZE_BASE64 + 1 + IOTC_JWT_PAYLOAD_BUF_SIZE_BASE64 + 1 + IOTC_JWT_MAX_SIGNATURE_SIZE_BASE64"
definition IOTC_JWT_PROJECTID_MAX_LEN :: nat where "IOTC_JWT_PROJECTID_MAX_LEN = 200"

text \<open>Decimal numbers, and the part of a text that \<^verbatim>\<open>snprintf\<close> stores before the zero.\<close>

fun digits :: "nat \<Rightarrow> string" where
  "digits n = (if n < 10 then [char_of (48 + n)] else digits (n div 10) @ [char_of (48 + n mod 10)])"

declare digits.simps [simp del]

definition decimal :: "int \<Rightarrow> string" where
  "decimal i = (if i < 0 then ''-'' @ digits (nat (- i)) else digits (nat i))"

definition snprintf :: "nat \<Rightarrow> string \<Rightarrow> string" where
  "snprintf n text = take (n - 1) text"

definition jwt_header :: "string \<Rightarrow> string" where
  "jwt_header algo = ''{\"alg\":\"'' @ algo @ ''\",\"typ\":\"JWT\"}''"

definition jwt_payload :: "int \<Rightarrow> int \<Rightarrow> string \<Rightarrow> string" where
  "jwt_payload iat exp aud = ''{\"iat\":'' @ decimal iat @ '',\"exp\":'' @ decimal exp @ '',\"aud\":\"'' @ aud @ ''\"}''"

definition iotc_create_iotcore_jwt_b64h_b64p ::
    "crypto_port \<Rightarrow> int \<Rightarrow> nat \<Rightarrow> string \<Rightarrow> nat \<Rightarrow> string \<Rightarrow> jwt_buffer \<Rightarrow> crypto_state \<times> nat \<times> jwt_buffer" where
  "iotc_create_iotcore_jwt_b64h_b64p port current_time_in_sec dst_string_size project_id expiration_period_sec algo b =
     (let header = snprintf IOTC_JWT_HEADER_BUF_SIZE (jwt_header algo);
          payload = snprintf IOTC_JWT_PAYLOAD_BUF_SIZE
            (jwt_payload current_time_in_sec (to_int64 (current_time_in_sec + int expiration_period_sec)) project_id)
      in case cp_base64 port dst_string_size (bytes_of header) of (ret, bytes_written, bs) \<Rightarrow>
           (let b1 = jwt_store 0 bs b
            in if ret \<noteq> IOTC_BSP_CRYPTO_STATE_OK then (ret, bytes_written, b1)
               else if bytes_written \<ge> dst_string_size then (IOTC_BSP_CRYPTO_BUFFER_TOO_SMALL_ERROR, bytes_written, b1)
               else
                 (let b2 = jwt_store bytes_written (bytes_of ''.'') b1; w = bytes_written + 1
                  in case cp_base64 port (dst_string_size - w) (bytes_of payload) of (ret, bytes_written_payload, bs) \<Rightarrow>
                       (ret, w + bytes_written_payload, jwt_store w bs b2))))"

primrec jwt_error :: "crypto_state \<Rightarrow> iotc_state" where
  "jwt_error IOTC_BSP_CRYPTO_STATE_OK = IOTC_STATE_OK"
| "jwt_error IOTC_BSP_CRYPTO_BUFFER_TOO_SMALL_ERROR = IOTC_BUFFER_TOO_SMALL_ERROR"
| "jwt_error IOTC_BSP_CRYPTO_INVALID_INPUT_PARAMETER_ERROR = IOTC_INVALID_PARAMETER"
| "jwt_error IOTC_BSP_CRYPTO_ERROR = IOTC_JWT_FORMATTION_ERROR"
| "jwt_error IOTC_BSP_CRYPTO_BASE64_ERROR = IOTC_JWT_FORMATTION_ERROR"
| "jwt_error IOTC_BSP_CRYPTO_SHA256_ERROR = IOTC_JWT_FORMATTION_ERROR"
| "jwt_error IOTC_BSP_CRYPTO_ECC_ERROR = IOTC_JWT_FORMATTION_ERROR"
| "jwt_error IOTC_BSP_CRYPTO_KEY_PARSE_ERROR = IOTC_JWT_FORMATTION_ERROR"
| "jwt_error IOTC_BSP_CRYPTO_SERIALIZE_ERROR = IOTC_JWT_FORMATTION_ERROR"

text \<open>From the first encoding on. The size that is left for the signature is an unsigned difference.\<close>

definition jwt_sections ::
    "crypto_port \<Rightarrow> int \<Rightarrow> string \<Rightarrow> nat \<Rightarrow> crypto_key_data \<Rightarrow> nat \<Rightarrow> jwt_buffer \<Rightarrow> crypto_state \<times> nat \<times> jwt_buffer" where
  "jwt_sections port now project_id expiration_period_sec private_key_data dst_jwt_buf_len b =
     (case iotc_create_iotcore_jwt_b64h_b64p port now dst_jwt_buf_len project_id expiration_period_sec ''ES256'' b of
        (ret, w, b1) \<Rightarrow>
          if ret \<noteq> IOTC_BSP_CRYPTO_STATE_OK then (ret, w, b1)
          else (case jwt_load (to_u32 w) b1 of (part, b2) \<Rightarrow>
            (case cp_sha256 port part of (ret, sha256_b64h_b64p) \<Rightarrow>
               if ret \<noteq> IOTC_BSP_CRYPTO_STATE_OK then (ret, w, b2)
               else
                 (let b3 = jwt_store w (bytes_of ''.'') b2; w2 = w + 1
                  in case cp_ecc port private_key_data \<lparr>jb_bytes = replicate IOTC_JWT_MAX_SIGNATURE_SIZE 0, jb_bad = jb_bad b3\<rparr>
                            IOTC_JWT_MAX_SIGNATURE_SIZE sha256_b64h_b64p of (ret, n, ecc_signature) \<Rightarrow>
                       if ret \<noteq> IOTC_BSP_CRYPTO_STATE_OK then (ret, w2, b3\<lparr>jb_bad := jb_bad ecc_signature\<rparr>)
                       else (case jwt_load n ecc_signature of (sig, e) \<Rightarrow>
                         (case cp_base64 port (to_size (int dst_jwt_buf_len - int w2)) sig of (ret, k, bs) \<Rightarrow>
                            (ret, w2 + k, jwt_store w2 bs (b3\<lparr>jb_bad := jb_bad e\<rparr>))))))))"

text \<open>A null pointer is \<open>None\<close>, for the number of bytes written that it is not changed.\<close>

definition iotc_create_iotcore_jwt ::
    "crypto_port \<Rightarrow> int \<Rightarrow> string option \<Rightarrow> nat \<Rightarrow> crypto_key_data option \<Rightarrow> jwt_buffer option \<Rightarrow> nat \<Rightarrow> bool \<Rightarrow>
     iotc_state \<times> nat option \<times> jwt_buffer option" where
  "iotc_create_iotcore_jwt port now project_id expiration_period_sec private_key_data dst_jwt_buf dst_jwt_buf_len bytes_written_null =
     (if bytes_written_null then (IOTC_INVALID_PARAMETER, None, dst_jwt_buf)
      else (case (project_id, private_key_data, dst_jwt_buf) of
         (Some p, Some key, Some b) \<Rightarrow>
           if ck_algorithm key \<noteq> IOTC_CRYPTO_KEY_SIGNATURE_ALGORITHM_ES256 then (IOTC_ALG_NOT_SUPPORTED_ERROR, None, dst_jwt_buf)
           else if ck_key key = Key_pem None then (IOTC_NULL_KEY_DATA_ERROR, None, dst_jwt_buf)
           else if ck_key key = Key_unknown then (IOTC_NOT_IMPLEMENTED, None, dst_jwt_buf)
           else if IOTC_JWT_PROJECTID_MAX_LEN < length p
             then (IOTC_JWT_PROJECTID_TOO_LONG_ERROR, Some IOTC_JWT_PROJECTID_MAX_LEN, dst_jwt_buf)
           else (case jwt_sections port now p expiration_period_sec key dst_jwt_buf_len b of
                   (ret, w, b1) \<Rightarrow> (jwt_error ret, Some w, Some b1))
       | _ \<Rightarrow> (IOTC_INVALID_PARAMETER, None, dst_jwt_buf)))"

section \<open>The port for mbedtls\<close>

datatype base64_code = Base64_done | MBEDTLS_ERR_BASE64_BUFFER_TOO_SMALL | Base64_failed int

record ('pk, 'ec) mbedtls =
  mbedtls_base64_encode :: "nat \<Rightarrow> byte list \<Rightarrow> base64_code \<times> nat \<times> byte list"
  mbedtls_sha256_starts_ret :: int
  mbedtls_sha256_update_ret :: "byte list \<Rightarrow> int"
  mbedtls_sha256_finish_ret :: "byte list \<Rightarrow> int \<times> byte list"
  mbedtls_pk_parse_key :: "string \<Rightarrow> int \<times> 'pk"
  mbedtls_ecdsa_from_keypair :: "'pk \<Rightarrow> int \<times> 'ec"
  mbedtls_ecdsa_sign_det :: "'ec \<Rightarrow> byte list \<Rightarrow> int \<times> nat \<times> nat"
  mbedtls_mpi_write_binary :: "nat \<Rightarrow> nat \<Rightarrow> int \<times> byte list"

definition mbedtls_bsp_base64_encode :: "('pk, 'ec) mbedtls \<Rightarrow> nat \<Rightarrow> byte list \<Rightarrow> crypto_state \<times> nat \<times> byte list" where
  "mbedtls_bsp_base64_encode lib dst_string_size src =
     (case mbedtls_base64_encode lib dst_string_size src of (result, bytes_written, bs) \<Rightarrow>
        (case result of
           Base64_done \<Rightarrow> IOTC_BSP_CRYPTO_STATE_OK
         | MBEDTLS_ERR_BASE64_BUFFER_TOO_SMALL \<Rightarrow> IOTC_BSP_CRYPTO_BUFFER_TOO_SMALL_ERROR
         | Base64_failed e \<Rightarrow> IOTC_BSP_CRYPTO_BASE64_ERROR, bytes_written, bs))"

text \<open>The loop that translates to the alphabet for URLs, which both ports have.\<close>

definition url_char :: "byte \<Rightarrow> byte" where
  "url_char c = (if c = 43 then 45 else if c = 47 then 95 else c)"

definition translate_url :: "crypto_state \<times> nat \<times> byte list \<Rightarrow> crypto_state \<times> nat \<times> byte list" where
  "translate_url r =
     (case r of (b64_result, bytes_written, bs) \<Rightarrow>
        if b64_result \<noteq> IOTC_BSP_CRYPTO_STATE_OK then (b64_result, bytes_written, bs)
        else (IOTC_BSP_CRYPTO_STATE_OK, bytes_written, map url_char (take bytes_written bs) @ drop bytes_written bs))"

definition mbedtls_base64_encode_urlsafe :: "('pk, 'ec) mbedtls \<Rightarrow> nat \<Rightarrow> byte list \<Rightarrow> crypto_state \<times> nat \<times> byte list" where
  "mbedtls_base64_encode_urlsafe lib dst_string_size src = translate_url (mbedtls_bsp_base64_encode lib dst_string_size src)"

definition mbedtls_sha256 :: "('pk, 'ec) mbedtls \<Rightarrow> byte list \<Rightarrow> crypto_state \<times> byte list" where
  "mbedtls_sha256 lib src =
     (if mbedtls_sha256_starts_ret lib \<noteq> 0 then (IOTC_BSP_CRYPTO_SHA256_ERROR, replicate 32 0)
      else if mbedtls_sha256_update_ret lib src \<noteq> 0 then (IOTC_BSP_CRYPTO_SHA256_ERROR, replicate 32 0)
      else (case mbedtls_sha256_finish_ret lib src of (r, digest) \<Rightarrow>
        if r \<noteq> 0 then (IOTC_BSP_CRYPTO_SHA256_ERROR, digest) else (IOTC_BSP_CRYPTO_STATE_OK, digest)))"

text \<open>The number of written bytes is 0 before the call.\<close>

definition mbedtls_ecc :: "('pk, 'ec) mbedtls \<Rightarrow> crypto_key_data \<Rightarrow> jwt_buffer \<Rightarrow> nat \<Rightarrow> byte list \<Rightarrow> crypto_state \<times> nat \<times> jwt_buffer" where
  "mbedtls_ecc lib private_key_data dst dst_buf_size src =
     (case ck_key private_key_data of
        Key_pem (Some private_key_pem) \<Rightarrow>
          (case mbedtls_pk_parse_key lib private_key_pem of (r1, pk) \<Rightarrow>
             if r1 \<noteq> 0 then (IOTC_BSP_CRYPTO_KEY_PARSE_ERROR, 0, dst)
             else (case mbedtls_ecdsa_from_keypair lib pk of (r2, ec) \<Rightarrow>
               if r2 \<noteq> 0 then (IOTC_BSP_CRYPTO_ECC_ERROR, 0, dst)
               else (case mbedtls_ecdsa_sign_det lib ec src of (r3, r, s) \<Rightarrow>
                 if r3 \<noteq> 0 then (IOTC_BSP_CRYPTO_ECC_ERROR, 0, dst)
                 else if dst_buf_size < 64 then (IOTC_BSP_CRYPTO_BUFFER_TOO_SMALL_ERROR, 64, dst)
                 else (case mbedtls_mpi_write_binary lib r 32 of (r4, rb) \<Rightarrow>
                   (let d1 = jwt_store 0 rb dst
                    in if r4 \<noteq> 0 then (IOTC_BSP_CRYPTO_SERIALIZE_ERROR, 64, d1)
                       else (case mbedtls_mpi_write_binary lib s 32 of (r5, sb) \<Rightarrow>
                         (if r5 \<noteq> 0 then IOTC_BSP_CRYPTO_SERIALIZE_ERROR else IOTC_BSP_CRYPTO_STATE_OK, 64, jwt_store 32 sb d1)))))))
      | _ \<Rightarrow> (IOTC_BSP_CRYPTO_INVALID_INPUT_PARAMETER_ERROR, 0, dst))"

definition mbedtls_port :: "('pk, 'ec) mbedtls \<Rightarrow> crypto_port" where
  "mbedtls_port lib = \<lparr>cp_base64 = mbedtls_base64_encode_urlsafe lib, cp_sha256 = mbedtls_sha256 lib, cp_ecc = mbedtls_ecc lib\<rparr>"

section \<open>The port for wolfssl\<close>

datatype wolf_code = Wolf_done | LENGTH_ONLY_E | BAD_FUNC_ARG | BUFFER_E | ASN_NO_PEM_HEADER | Wolf_failed int

record ('der, 'key) wolfssl =
  Base64_length :: "byte list \<Rightarrow> wolf_code \<times> nat"
  Base64_Encode_NoNl :: "nat \<Rightarrow> byte list \<Rightarrow> wolf_code \<times> nat \<times> byte list"
  wc_InitSha256 :: wolf_code
  wc_Sha256Update :: "byte list \<Rightarrow> wolf_code"
  wc_Sha256Final :: "byte list \<Rightarrow> wolf_code \<times> byte list"
  PemToDer :: "string \<Rightarrow> wolf_code \<times> 'der"
  wc_EccPrivateKeyDecode :: "'der \<Rightarrow> wolf_code \<times> 'key"
  mp_init_r :: wolf_code
  mp_init_s :: wolf_code
  wc_ecc_sign_hash_ex :: "'key \<Rightarrow> byte list \<Rightarrow> wolf_code \<times> nat \<times> nat"
  mp_unsigned_bin_size :: "nat \<Rightarrow> nat"
  mp_to_unsigned_bin :: "nat \<Rightarrow> wolf_code \<times> byte list"

definition wolfssl_base64_result :: "wolf_code \<Rightarrow> crypto_state" where
  "wolfssl_base64_result result =
     (case result of
        Wolf_done \<Rightarrow> IOTC_BSP_CRYPTO_STATE_OK
      | BAD_FUNC_ARG \<Rightarrow> IOTC_BSP_CRYPTO_BUFFER_TOO_SMALL_ERROR
      | _ \<Rightarrow> IOTC_BSP_CRYPTO_BASE64_ERROR)"

definition wolfssl_bsp_base64_encode :: "('der, 'key) wolfssl \<Rightarrow> nat \<Rightarrow> byte list \<Rightarrow> crypto_state \<times> nat \<times> byte list" where
  "wolfssl_bsp_base64_encode lib dst_string_size src =
     (case Base64_length lib src of (result, n) \<Rightarrow>
        if result \<noteq> LENGTH_ONLY_E then (wolfssl_base64_result result, n, [])
        else if n + 1 \<le> dst_string_size then
          (case Base64_Encode_NoNl lib dst_string_size src of (result, k, bs) \<Rightarrow>
             if result \<noteq> Wolf_done then (wolfssl_base64_result result, n + 1, bs)
             else (IOTC_BSP_CRYPTO_STATE_OK, k, if k < dst_string_size then memcpy_at bs k [0] else bs))
        else (IOTC_BSP_CRYPTO_BUFFER_TOO_SMALL_ERROR, n + 1, []))"

definition wolfssl_base64_encode_urlsafe :: "('der, 'key) wolfssl \<Rightarrow> nat \<Rightarrow> byte list \<Rightarrow> crypto_state \<times> nat \<times> byte list" where
  "wolfssl_base64_encode_urlsafe lib dst_string_size src = translate_url (wolfssl_bsp_base64_encode lib dst_string_size src)"

definition wolfssl_sha256 :: "('der, 'key) wolfssl \<Rightarrow> byte list \<Rightarrow> crypto_state \<times> byte list" where
  "wolfssl_sha256 lib src =
     (if wc_InitSha256 lib \<noteq> Wolf_done then (IOTC_BSP_CRYPTO_SHA256_ERROR, replicate 32 0)
      else if wc_Sha256Update lib src \<noteq> Wolf_done then (IOTC_BSP_CRYPTO_SHA256_ERROR, replicate 32 0)
      else (case wc_Sha256Final lib src of (r, digest) \<Rightarrow>
        if r \<noteq> Wolf_done then (IOTC_BSP_CRYPTO_SHA256_ERROR, digest) else (IOTC_BSP_CRYPTO_STATE_OK, digest)))"

text \<open>The padding is an unsigned difference: a number of more than 32 bytes is stored before its place.\<close>

definition store_padded :: "nat \<Rightarrow> nat \<Rightarrow> byte list \<Rightarrow> jwt_buffer \<Rightarrow> jwt_buffer" where
  "store_padded off n bs b = (if n \<le> 32 then jwt_store (off + (32 - n)) bs b else b\<lparr>jb_bad := True\<rparr>)"

text \<open>The calls before the label at which the function ends, with the code that it has there.\<close>

definition wolfssl_sign :: "('der, 'key) wolfssl \<Rightarrow> string \<Rightarrow> jwt_buffer \<Rightarrow> nat \<Rightarrow> byte list \<Rightarrow> wolf_code \<times> nat \<times> jwt_buffer" where
  "wolfssl_sign lib private_key_pem dst dst_buf_size src =
     (case PemToDer lib private_key_pem of (ret, pDer) \<Rightarrow>
        if ret \<noteq> Wolf_done then (ret, 0, dst)
        else (case wc_EccPrivateKeyDecode lib pDer of (ret, ecc_key_private) \<Rightarrow>
          if ret \<noteq> Wolf_done then (ret, 0, dst)
          else if mp_init_r lib \<noteq> Wolf_done then (mp_init_r lib, 0, dst)
          else if mp_init_s lib \<noteq> Wolf_done then (mp_init_s lib, 0, dst)
          else (case wc_ecc_sign_hash_ex lib ecc_key_private src of (ret, r, s) \<Rightarrow>
            if ret \<noteq> Wolf_done then (ret, 0, dst)
            else if dst_buf_size < 64 then (BUFFER_E, 64, dst)
            else
              (let d = jwt_store 0 (replicate 64 0) dst
               in case mp_to_unsigned_bin lib r of (ret, rb) \<Rightarrow>
                    (let d1 = store_padded 0 (mp_unsigned_bin_size lib r) rb d
                     in if ret \<noteq> Wolf_done then (ret, 64, d1)
                        else (case mp_to_unsigned_bin lib s of (ret, sb) \<Rightarrow>
                          (ret, 64, store_padded 32 (mp_unsigned_bin_size lib s) sb d1)))))))"

definition wolfssl_ecc :: "('der, 'key) wolfssl \<Rightarrow> crypto_key_data \<Rightarrow> jwt_buffer \<Rightarrow> nat \<Rightarrow> byte list \<Rightarrow> crypto_state \<times> nat \<times> jwt_buffer" where
  "wolfssl_ecc lib private_key_data dst dst_buf_size src =
     (case ck_key private_key_data of
        Key_pem (Some private_key_pem) \<Rightarrow>
          (case wolfssl_sign lib private_key_pem dst dst_buf_size src of (ret, w, d) \<Rightarrow>
             (case ret of
                BUFFER_E \<Rightarrow> IOTC_BSP_CRYPTO_BUFFER_TOO_SMALL_ERROR
              | ASN_NO_PEM_HEADER \<Rightarrow> IOTC_BSP_CRYPTO_KEY_PARSE_ERROR
              | _ \<Rightarrow> IOTC_BSP_CRYPTO_STATE_OK, w, d))
      | _ \<Rightarrow> (IOTC_BSP_CRYPTO_INVALID_INPUT_PARAMETER_ERROR, 0, dst))"

definition wolfssl_port :: "('der, 'key) wolfssl \<Rightarrow> crypto_port" where
  "wolfssl_port lib = \<lparr>cp_base64 = wolfssl_base64_encode_urlsafe lib, cp_sha256 = wolfssl_sha256 lib, cp_ecc = wolfssl_ecc lib\<rparr>"

section \<open>The port for cryptoauthlib, and the dummy\<close>

datatype atca_status = ATCA_SUCCESS | ATCA_SMALL_BUFFER | ATCA_failed int

record cryptoauthlib =
  atcab_base64encode :: "nat \<Rightarrow> byte list \<Rightarrow> atca_status \<times> nat \<times> byte list"
  atcac_sw_sha2_256 :: "byte list \<Rightarrow> atca_status \<times> byte list"
  atcab_sign :: "nat \<Rightarrow> byte list \<Rightarrow> atca_status \<times> byte list"

text \<open>The number of written bytes is 0 before each of the calls.\<close>

definition cryptoauth_base64_encode_urlsafe :: "cryptoauthlib \<Rightarrow> nat \<Rightarrow> byte list \<Rightarrow> crypto_state \<times> nat \<times> byte list" where
  "cryptoauth_base64_encode_urlsafe lib dst_string_size src =
     (case atcab_base64encode lib dst_string_size src of (status, n, bs) \<Rightarrow>
        (case status of
           ATCA_SUCCESS \<Rightarrow> (IOTC_BSP_CRYPTO_STATE_OK, n, bs)
         | ATCA_SMALL_BUFFER \<Rightarrow> (IOTC_BSP_CRYPTO_BUFFER_TOO_SMALL_ERROR, 0, bs)
         | ATCA_failed e \<Rightarrow> (IOTC_BSP_CRYPTO_ERROR, 0, bs)))"

definition cryptoauth_sha256 :: "cryptoauthlib \<Rightarrow> byte list \<Rightarrow> crypto_state \<times> byte list" where
  "cryptoauth_sha256 lib src =
     (case atcac_sw_sha2_256 lib src of (status, digest) \<Rightarrow>
        (if status = ATCA_SUCCESS then IOTC_BSP_CRYPTO_STATE_OK else IOTC_BSP_CRYPTO_ERROR, digest))"

definition cryptoauth_ecc ::
    "cryptoauthlib \<Rightarrow> crypto_key_data \<Rightarrow> jwt_buffer \<Rightarrow> nat \<Rightarrow> byte list \<Rightarrow> crypto_state \<times> nat \<times> jwt_buffer" where
  "cryptoauth_ecc lib private_key_data dst dst_buf_size src =
     (case ck_key private_key_data of
        Key_slot slot_id \<Rightarrow>
          if 64 > dst_buf_size then (IOTC_BSP_CRYPTO_ERROR, 0, dst)
          else if length src \<noteq> 32 then (IOTC_BSP_CRYPTO_ERROR, 0, dst)
          else (case atcab_sign lib slot_id src of (ret, bs) \<Rightarrow>
            (let d = jwt_store 0 bs dst
             in if ret \<noteq> ATCA_SUCCESS then (IOTC_BSP_CRYPTO_ERROR, 0, d) else (IOTC_BSP_CRYPTO_STATE_OK, 64, d)))
      | _ \<Rightarrow> (IOTC_BSP_CRYPTO_ERROR, 0, dst))"

definition cryptoauth_port :: "cryptoauthlib \<Rightarrow> crypto_port" where
  "cryptoauth_port lib =
     \<lparr>cp_base64 = cryptoauth_base64_encode_urlsafe lib, cp_sha256 = cryptoauth_sha256 lib, cp_ecc = cryptoauth_ecc lib\<rparr>"

definition dummy_port :: crypto_port where
  "dummy_port = \<lparr>cp_base64 = (\<lambda>n src. (IOTC_BSP_CRYPTO_STATE_OK, 0, [])), cp_sha256 = (\<lambda>src. (IOTC_BSP_CRYPTO_STATE_OK, replicate 32 0)),
     cp_ecc = (\<lambda>key dst n src. (IOTC_BSP_CRYPTO_STATE_OK, 0, dst))\<rparr>"

section \<open>The contract of the encoding, which the ports meet\<close>

text \<open>
  A text and what follows it are stored when there is room for the text and a zero, and nothing is stored otherwise.
  The contracts of the libraries: mbedtls stores the encoding with a zero behind it, wolfssl stores the encoding only, and both
  say how much room is missing; cryptoauthlib does as mbedtls, with the alphabet for URLs.
\<close>

definition encodes :: "(nat \<Rightarrow> byte list \<Rightarrow> crypto_state \<times> nat \<times> byte list) \<Rightarrow> (byte list \<Rightarrow> byte list) \<Rightarrow> bool" where
  "encodes b64 enc \<longleftrightarrow> (\<forall>n src.
     if length (enc src) < n
     then b64 n src = (IOTC_BSP_CRYPTO_STATE_OK, length (enc src), enc src @ [0])
     else (\<exists>w. b64 n src = (IOTC_BSP_CRYPTO_BUFFER_TOO_SMALL_ERROR, w, [])))"

lemma encodes_room: "encodes b64 enc \<Longrightarrow> length (enc src) < n \<Longrightarrow>
    b64 n src = (IOTC_BSP_CRYPTO_STATE_OK, length (enc src), enc src @ [0])"
  by (simp add: encodes_def)

lemma encodes_short: "encodes b64 enc \<Longrightarrow> n \<le> length (enc src) \<Longrightarrow>
    \<exists>w. b64 n src = (IOTC_BSP_CRYPTO_BUFFER_TOO_SMALL_ERROR, w, [])"
  unfolding encodes_def by (metis not_less)

definition mbedtls_encodes :: "('pk, 'ec) mbedtls \<Rightarrow> (byte list \<Rightarrow> byte list) \<Rightarrow> bool" where
  "mbedtls_encodes lib b64 \<longleftrightarrow> (\<forall>n src. mbedtls_base64_encode lib n src =
     (if length (b64 src) < n then (Base64_done, length (b64 src), b64 src @ [0])
      else (MBEDTLS_ERR_BASE64_BUFFER_TOO_SMALL, length (b64 src) + 1, [])))"

definition wolfssl_encodes :: "('der, 'key) wolfssl \<Rightarrow> (byte list \<Rightarrow> byte list) \<Rightarrow> bool" where
  "wolfssl_encodes lib b64 \<longleftrightarrow> (\<forall>src. Base64_length lib src = (LENGTH_ONLY_E, length (b64 src))) \<and>
     (\<forall>n src. Base64_Encode_NoNl lib n src =
        (if length (b64 src) \<le> n then (Wolf_done, length (b64 src), b64 src) else (BAD_FUNC_ARG, n, [])))"

lemma mbedtls_port_encodes:
  "mbedtls_encodes lib b64 \<Longrightarrow> encodes (cp_base64 (mbedtls_port lib)) (\<lambda>src. map url_char (b64 src))"
  by (simp add: encodes_def mbedtls_encodes_def mbedtls_port_def mbedtls_base64_encode_urlsafe_def translate_url_def
      mbedtls_bsp_base64_encode_def)

lemma wolfssl_port_encodes:
  "wolfssl_encodes lib b64 \<Longrightarrow> encodes (cp_base64 (wolfssl_port lib)) (\<lambda>src. map url_char (b64 src))"
  by (auto simp: encodes_def wolfssl_encodes_def wolfssl_port_def wolfssl_base64_encode_urlsafe_def translate_url_def
      wolfssl_bsp_base64_encode_def memcpy_at_def)

definition cryptoauth_encodes :: "cryptoauthlib \<Rightarrow> (byte list \<Rightarrow> byte list) \<Rightarrow> bool" where
  "cryptoauth_encodes lib enc \<longleftrightarrow> (\<forall>n src. atcab_base64encode lib n src =
     (if length (enc src) < n then (ATCA_SUCCESS, length (enc src), enc src @ [0]) else (ATCA_SMALL_BUFFER, n, [])))"

lemma cryptoauth_port_encodes: "cryptoauth_encodes lib enc \<Longrightarrow> encodes (cp_base64 (cryptoauth_port lib)) enc"
  by (simp add: encodes_def cryptoauth_encodes_def cryptoauth_port_def cryptoauth_base64_encode_urlsafe_def)

section \<open>The payload fits its buffer\<close>

lemma length_digits: "n < 10 ^ Suc k \<Longrightarrow> length (digits n) \<le> Suc k"
proof (induction k arbitrary: n)
  case 0
  then show ?case by (simp add: digits.simps [of n])
next
  case (Suc k)
  show ?case
  proof (cases "n < 10")
    case False
    have "n div 10 < 10 ^ Suc k" using Suc.prems by (simp add: less_mult_imp_div_less)
    from Suc.IH [OF this] False show ?thesis by (simp add: digits.simps [of n])
  qed (simp add: digits.simps [of n])
qed

lemma length_decimal: "0 \<le> i \<Longrightarrow> i < 10 ^ Suc k \<Longrightarrow> length (decimal i) \<le> Suc k"
  unfolding decimal_def using length_digits [of "nat i" k] by (simp add: nat_less_iff)

definition sane_time :: "int \<Rightarrow> nat \<Rightarrow> bool" where
  "sane_time now period \<longleftrightarrow> 0 \<le> now \<and> now < 10 ^ 15 \<and> period < 2 ^ 32"

lemma payload_untruncated:
  assumes "sane_time now period" and "length p \<le> IOTC_JWT_PROJECTID_MAX_LEN"
  shows "snprintf IOTC_JWT_PAYLOAD_BUF_SIZE (jwt_payload now (to_int64 (now + int period)) p) = jwt_payload now (now + int period) p"
    and "length (jwt_payload now (now + int period) p) < IOTC_JWT_PAYLOAD_BUF_SIZE"
proof -
  have t: "to_int64 (now + int period) = now + int period" using assms(1) by (simp add: sane_time_def to_int64_def)
  have n: "length (decimal now) \<le> 15" using length_decimal [of now 14] assms(1) by (simp add: sane_time_def)
  have "int period < 2 ^ 32" using assms(1) by (simp add: sane_time_def)
  then have "length (decimal (now + int period)) \<le> 16" using length_decimal [of "now + int period" 15] assms(1) by (simp add: sane_time_def)
  with n assms(2) show l: "length (jwt_payload now (now + int period) p) < IOTC_JWT_PAYLOAD_BUF_SIZE"
    by (simp add: jwt_payload_def IOTC_JWT_PROJECTID_MAX_LEN_def IOTC_JWT_PAYLOAD_BUF_SIZE_def)
  then show "snprintf IOTC_JWT_PAYLOAD_BUF_SIZE (jwt_payload now (to_int64 (now + int period)) p) = jwt_payload now (now + int period) p"
    by (simp add: t snprintf_def IOTC_JWT_PAYLOAD_BUF_SIZE_def)
qed

lemma header_untruncated: "snprintf IOTC_JWT_HEADER_BUF_SIZE (jwt_header ''ES256'') = jwt_header ''ES256''"
  by (simp add: snprintf_def IOTC_JWT_HEADER_BUF_SIZE_def jwt_header_def)

section \<open>Runs\<close>

text \<open>The buffer starts with a text, and nothing was stored outside it.\<close>

definition holds :: "byte list \<Rightarrow> nat \<Rightarrow> jwt_buffer \<Rightarrow> bool" where
  "holds pre n b \<longleftrightarrow> length (jb_bytes b) = n \<and> \<not> jb_bad b \<and> length pre \<le> n \<and> take (length pre) (jb_bytes b) = pre"

lemma holds_store:
  assumes "holds pre n b" and "length pre + length x + length y \<le> n"
  shows "holds (pre @ x) n (jwt_store (length pre) (x @ y) b)"
  using assms by (auto simp: holds_def jwt_store_def memcpy_at_def)

lemmas holds_store_all = holds_store [where y = "[]", simplified]

lemma memcpy_at_nothing: "memcpy_at dst off [] = dst"
  by (simp add: memcpy_at_def)

lemma holds_store_nothing: "holds pre n b \<Longrightarrow> jwt_store (length pre) [] b = b"
  by (cases b) (auto simp: holds_def jwt_store_def memcpy_at_nothing)

lemma holds_load: "holds pre n b \<Longrightarrow> jwt_load (length pre) b = (pre, b)"
  by (cases b) (auto simp: holds_def jwt_load_def)

definition jwt_input :: "(byte list \<Rightarrow> byte list) \<Rightarrow> int \<Rightarrow> nat \<Rightarrow> string \<Rightarrow> byte list" where
  "jwt_input enc now period p = enc (bytes_of (jwt_header ''ES256'')) @ bytes_of ''.'' @ enc (bytes_of (jwt_payload now (now + int period) p))"

definition jwt_token :: "(byte list \<Rightarrow> byte list) \<Rightarrow> int \<Rightarrow> nat \<Rightarrow> string \<Rightarrow> byte list \<Rightarrow> byte list" where
  "jwt_token enc now period p sig = jwt_input enc now period p @ bytes_of ''.'' @ enc sig"

lemma bytes_of_dot [simp]: "length (bytes_of ''.'') = 1"
  by (simp add: bytes_of_def)

lemma jwt_input_created:
  assumes "encodes (cp_base64 port) enc" and "sane_time now period" and "length p \<le> IOTC_JWT_PROJECTID_MAX_LEN"
    and "holds [] n b"
  shows "\<exists>w b1. iotc_create_iotcore_jwt_b64h_b64p port now n p period ''ES256'' b
      = (if length (jwt_input enc now period p) < n then IOTC_BSP_CRYPTO_STATE_OK else IOTC_BSP_CRYPTO_BUFFER_TOO_SMALL_ERROR, w, b1)
    \<and> length (jb_bytes b1) = n \<and> \<not> jb_bad b1
    \<and> (length (jwt_input enc now period p) < n \<longrightarrow> w = length (jwt_input enc now period p) \<and> holds (jwt_input enc now period p) n b1)"
proof -
  let ?h = "bytes_of (jwt_header ''ES256'')" and ?p = "bytes_of (jwt_payload now (now + int period) p)"
  note t = header_untruncated payload_untruncated(1) [OF assms(2,3)]
  have len: "length (jwt_input enc now period p) = length (enc ?h) + 1 + length (enc ?p)" by (simp add: jwt_input_def)
  have b: "length (jb_bytes b) = n" "\<not> jb_bad b" using assms(4) by (auto simp: holds_def)
  show ?thesis
  proof (cases "length (enc ?h) < n")
    case False
    then obtain w where "cp_base64 port n ?h = (IOTC_BSP_CRYPTO_BUFFER_TOO_SMALL_ERROR, w, [])"
      using encodes_short [OF assms(1), of n ?h] by auto
    with False b show ?thesis
      by (simp add: iotc_create_iotcore_jwt_b64h_b64p_def Let_def t len holds_store_nothing [OF assms(4), simplified])
  next
    case True
    define b1 where "b1 = jwt_store 0 (enc ?h @ [0]) b"
    define b2 where "b2 = jwt_store (length (enc ?h)) (bytes_of ''.'') b1"
    have h1: "holds (enc ?h) n b1" using holds_store [OF assms(4), of "enc ?h" "[0]"] True by (simp add: b1_def)
    have h2: "holds (enc ?h @ bytes_of ''.'') n b2" using holds_store_all [OF h1, of "bytes_of ''.''"] True by (simp add: b2_def)
    have run: "iotc_create_iotcore_jwt_b64h_b64p port now n p period ''ES256'' b =
        (case cp_base64 port (n - Suc (length (enc ?h))) ?p of (ret, k, bs) \<Rightarrow>
           (ret, Suc (length (enc ?h)) + k, jwt_store (Suc (length (enc ?h))) bs b2))"
      using encodes_room [OF assms(1) True] True
      by (simp add: iotc_create_iotcore_jwt_b64h_b64p_def Let_def t b1_def b2_def)
    show ?thesis
    proof (cases "length (enc ?p) < n - Suc (length (enc ?h))")
      case False
      then obtain w where "cp_base64 port (n - Suc (length (enc ?h))) ?p = (IOTC_BSP_CRYPTO_BUFFER_TOO_SMALL_ERROR, w, [])"
        using encodes_short [OF assms(1), of _ ?p] by (metis not_less)
      with False True run h2 show ?thesis
        using holds_store_nothing [OF h2] by (simp add: len) (simp add: holds_def)
    next
      case fits: True
      have h3: "holds (jwt_input enc now period p) n (jwt_store (Suc (length (enc ?h))) (enc ?p @ [0]) b2)"
        using holds_store [OF h2, of "enc ?p" "[0]"] fits True by (simp add: jwt_input_def)
      then have "length (jb_bytes (jwt_store (Suc (length (enc ?h))) (enc ?p @ [0]) b2)) = n"
        "\<not> jb_bad (jwt_store (Suc (length (enc ?h))) (enc ?p @ [0]) b2)" by (auto simp: holds_def)
      with h3 run encodes_room [OF assms(1) fits] fits show ?thesis by (simp add: len)
    qed
  qed
qed

lemma jwt_sections_run:
  assumes "encodes (cp_base64 port) enc" and "sane_time now period" and "length p \<le> IOTC_JWT_PROJECTID_MAX_LEN"
    and "holds [] n b" and "n < 2 ^ 32"
    and "cp_sha256 port (jwt_input enc now period p) = (IOTC_BSP_CRYPTO_STATE_OK, digest)"
    and "cp_ecc port key \<lparr>jb_bytes = replicate IOTC_JWT_MAX_SIGNATURE_SIZE 0, jb_bad = False\<rparr> IOTC_JWT_MAX_SIGNATURE_SIZE digest
      = (IOTC_BSP_CRYPTO_STATE_OK, length sig, e)" and "holds sig IOTC_JWT_MAX_SIGNATURE_SIZE e"
  shows "\<exists>w b1. jwt_sections port now p period key n b
      = (if length (jwt_token enc now period p sig) < n then IOTC_BSP_CRYPTO_STATE_OK else IOTC_BSP_CRYPTO_BUFFER_TOO_SMALL_ERROR, w, b1)
    \<and> length (jb_bytes b1) = n \<and> \<not> jb_bad b1
    \<and> (length (jwt_token enc now period p sig) < n \<longrightarrow>
         w = length (jwt_token enc now period p sig) \<and> holds (jwt_token enc now period p sig) n b1)"
proof -
  let ?i = "jwt_input enc now period p"
  have len: "length (jwt_token enc now period p sig) = length ?i + 1 + length (enc sig)" by (simp add: jwt_token_def)
  obtain w b1 where c: "iotc_create_iotcore_jwt_b64h_b64p port now n p period ''ES256'' b
      = (if length ?i < n then IOTC_BSP_CRYPTO_STATE_OK else IOTC_BSP_CRYPTO_BUFFER_TOO_SMALL_ERROR, w, b1)"
    "length (jb_bytes b1) = n" "\<not> jb_bad b1" "length ?i < n \<Longrightarrow> w = length ?i \<and> holds ?i n b1"
    using jwt_input_created [OF assms(1-4)] by blast
  show ?thesis
  proof (cases "length ?i < n")
    case False
    with c(1-3) show ?thesis by (simp add: jwt_sections_def len)
  next
    case True
    define b3 where "b3 = jwt_store (length ?i) (bytes_of ''.'') b1"
    have h: "w = length ?i" "holds ?i n b1" using c(4) [OF True] by blast+
    have h3: "holds (?i @ bytes_of ''.'') n b3" using holds_store_all [OF h(2), of "bytes_of ''.''"] True by (simp add: b3_def)
    have nb: "jb_bad b3 = False" "jb_bad e = False" "b3\<lparr>jb_bad := False\<rparr> = b3"
      using h3 assms(8) by (cases b3, simp_all add: holds_def)+
    have rest: "to_size (int n - (1 + int (length ?i))) = n - Suc (length ?i)"
      using True assms(5) by (simp add: to_size_def)
    have u: "to_u32 (length ?i) = length ?i" using True assms(5) by (simp add: to_u32_def)
    have run: "jwt_sections port now p period key n b =
        (case cp_base64 port (n - Suc (length ?i)) sig of (ret, k, bs) \<Rightarrow>
           (ret, Suc (length ?i) + k, jwt_store (Suc (length ?i)) bs b3))"
      using assms(6,7) nb(1,2) True
      by (simp add: nb(3) jwt_sections_def c(1) h(1) Let_def u rest holds_load [OF h(2)] holds_load [OF assms(8)] b3_def [symmetric])
    show ?thesis
    proof (cases "length (enc sig) < n - Suc (length ?i)")
      case False
      then obtain w2 where "cp_base64 port (n - Suc (length ?i)) sig = (IOTC_BSP_CRYPTO_BUFFER_TOO_SMALL_ERROR, w2, [])"
        using encodes_short [OF assms(1), of _ sig] by (metis not_less)
      with False True run h3 show ?thesis
        using holds_store_nothing [OF h3] by (simp add: len) (simp add: holds_def)
    next
      case fits: True
      have h4: "holds (jwt_token enc now period p sig) n (jwt_store (Suc (length ?i)) (enc sig @ [0]) b3)"
        using holds_store [OF h3, of "enc sig" "[0]"] fits True by (simp add: jwt_token_def)
      then have "length (jb_bytes (jwt_store (Suc (length ?i)) (enc sig @ [0]) b3)) = n"
        "\<not> jb_bad (jwt_store (Suc (length ?i)) (enc sig @ [0]) b3)" by (auto simp: holds_def)
      with h4 run encodes_room [OF assms(1) fits] fits show ?thesis by (simp add: len)
    qed
  qed
qed

text \<open>The arguments that reach the first encoding.\<close>

definition key_usable :: "crypto_key_data \<Rightarrow> bool" where
  "key_usable k \<longleftrightarrow> ck_algorithm k = IOTC_CRYPTO_KEY_SIGNATURE_ALGORITHM_ES256 \<and> ck_key k \<noteq> Key_pem None \<and> ck_key k \<noteq> Key_unknown"

lemma create_jwt_run:
  assumes "key_usable key" and "length p \<le> IOTC_JWT_PROJECTID_MAX_LEN"
  shows "iotc_create_iotcore_jwt port now (Some p) period (Some key) (Some b) n False
      = (case jwt_sections port now p period key n b of (ret, w, b1) \<Rightarrow> (jwt_error ret, Some w, Some b1))"
  using assms by (simp add: iotc_create_iotcore_jwt_def key_usable_def)

section \<open>The token, and the errors\<close>

text \<open>
  C27. With a port whose encoding keeps its contract, a hash and a signature, and with a project of at most 200 characters, the request
  for a token has one of two results. When the encoded header, payload and signature with the two dots and a zero fit the buffer,
  they are what the buffer starts with, the payload is not cut off, and the number of bytes is theirs; otherwise the buffer is
  reported as too small. Nothing is ever stored outside the buffer.
\<close>

theorem jwt_token_or_error:
  assumes "encodes (cp_base64 port) enc" and "sane_time now period" and "length p \<le> IOTC_JWT_PROJECTID_MAX_LEN"
    and "key_usable key" and "length (jb_bytes b) < 2 ^ 32" and "\<not> jb_bad b"
    and "cp_sha256 port (jwt_input enc now period p) = (IOTC_BSP_CRYPTO_STATE_OK, digest)"
    and "cp_ecc port key \<lparr>jb_bytes = replicate IOTC_JWT_MAX_SIGNATURE_SIZE 0, jb_bad = False\<rparr> IOTC_JWT_MAX_SIGNATURE_SIZE digest
      = (IOTC_BSP_CRYPTO_STATE_OK, length sig, e)" and "holds sig IOTC_JWT_MAX_SIGNATURE_SIZE e"
  shows "\<exists>w b1. iotc_create_iotcore_jwt port now (Some p) period (Some key) (Some b) (length (jb_bytes b)) False
      = (if length (jwt_token enc now period p sig) < length (jb_bytes b) then IOTC_STATE_OK else IOTC_BUFFER_TOO_SMALL_ERROR, Some w, Some b1)
    \<and> \<not> jb_bad b1
    \<and> (length (jwt_token enc now period p sig) < length (jb_bytes b) \<longrightarrow> take w (jb_bytes b1) = jwt_token enc now period p sig)"
proof -
  have h: "holds [] (length (jb_bytes b)) b" using assms(6) by (simp add: holds_def)
  obtain w b1 where r: "jwt_sections port now p period key (length (jb_bytes b)) b
      = (if length (jwt_token enc now period p sig) < length (jb_bytes b) then IOTC_BSP_CRYPTO_STATE_OK
         else IOTC_BSP_CRYPTO_BUFFER_TOO_SMALL_ERROR, w, b1)" "\<not> jb_bad b1"
    "length (jwt_token enc now period p sig) < length (jb_bytes b) \<longrightarrow>
       w = length (jwt_token enc now period p sig) \<and> holds (jwt_token enc now period p sig) (length (jb_bytes b)) b1"
    using jwt_sections_run [OF assms(1-3) h assms(5,7-9)] by blast
  show ?thesis using r by (simp add: create_jwt_run [OF assms(4,3)] holds_def)
qed

text \<open>
  C36. With an encoding of four characters for three bytes, a buffer of \<open>IOTC_JWT_SIZE\<close> bytes is never too small, whatever the project, the time
  and the signature of at most 132 bytes are.
\<close>

theorem jwt_size_suffices:
  assumes "encodes (cp_base64 port) enc" and "\<And>src. length (enc src) \<le> (length src + 2) div 3 * 4"
    and "sane_time now period" and "length p \<le> IOTC_JWT_PROJECTID_MAX_LEN"
    and "key_usable key" and "length (jb_bytes b) = IOTC_JWT_SIZE" and "\<not> jb_bad b"
    and "cp_sha256 port (jwt_input enc now period p) = (IOTC_BSP_CRYPTO_STATE_OK, digest)"
    and "cp_ecc port key \<lparr>jb_bytes = replicate IOTC_JWT_MAX_SIGNATURE_SIZE 0, jb_bad = False\<rparr> IOTC_JWT_MAX_SIGNATURE_SIZE digest
      = (IOTC_BSP_CRYPTO_STATE_OK, length sig, e)" and "holds sig IOTC_JWT_MAX_SIGNATURE_SIZE e"
  shows "\<exists>w b1. iotc_create_iotcore_jwt port now (Some p) period (Some key) (Some b) IOTC_JWT_SIZE False = (IOTC_STATE_OK, Some w, Some b1)
    \<and> take w (jb_bytes b1) = jwt_token enc now period p sig"
proof -
  have c: "IOTC_JWT_SIZE = 578" by (simp add: IOTC_JWT_SIZE_def IOTC_JWT_HEADER_BUF_SIZE_BASE64_def IOTC_JWT_PAYLOAD_BUF_SIZE_BASE64_def
      IOTC_JWT_MAX_SIGNATURE_SIZE_BASE64_def IOTC_JWT_HEADER_BUF_SIZE_def IOTC_JWT_PAYLOAD_BUF_SIZE_def IOTC_JWT_MAX_SIGNATURE_SIZE_def)
  have m: "length (enc src) \<le> k div 3 * 4" if "length src + 2 \<le> k" for src k
    using assms(2) [of src] div_le_mono [OF that, of 3] by linarith
  have "length (enc (bytes_of (jwt_header ''ES256''))) \<le> 29 div 3 * 4" by (rule m) (simp add: jwt_header_def bytes_of_def)
  moreover have "length (enc (bytes_of (jwt_payload now (now + int period) p))) \<le> 257 div 3 * 4"
    using payload_untruncated(2) [OF assms(3,4)] by (intro m) (simp add: bytes_of_def IOTC_JWT_PAYLOAD_BUF_SIZE_def)
  moreover have "length (enc sig) \<le> 134 div 3 * 4"
    using assms(10) by (intro m) (simp add: holds_def IOTC_JWT_MAX_SIGNATURE_SIZE_def)
  ultimately have fits: "length (jwt_token enc now period p sig) < IOTC_JWT_SIZE"
    by (simp add: jwt_token_def jwt_input_def c)
  have h: "holds [] IOTC_JWT_SIZE b" using assms(6,7) by (simp add: holds_def)
  have "IOTC_JWT_SIZE < 2 ^ 32" by (simp add: c)
  from jwt_sections_run [OF assms(1,3,4) h this assms(8-10)] fits obtain b1 where
    "jwt_sections port now p period key IOTC_JWT_SIZE b = (IOTC_BSP_CRYPTO_STATE_OK, length (jwt_token enc now period p sig), b1)"
    "holds (jwt_token enc now period p sig) IOTC_JWT_SIZE b1" by auto
  then show ?thesis by (simp add: create_jwt_run [OF assms(5,4)] holds_def)
qed

text \<open>
  C38. With the port for wolfssl a key that cannot be decoded or a hash that cannot be signed is not reported: the function for the signature
  returns OK for every code but two, so that the token is handed out with the encoding of no bytes in the place of the signature.
\<close>

theorem wolfssl_signature_failure_accepted:
  assumes "wolfssl_encodes lib b64" and "sane_time now period" and "length p \<le> IOTC_JWT_PROJECTID_MAX_LEN"
    and "key = \<lparr>ck_key = Key_pem (Some pem), ck_algorithm = IOTC_CRYPTO_KEY_SIGNATURE_ALGORITHM_ES256\<rparr>"
    and "length (jb_bytes b) < 2 ^ 32" and "\<not> jb_bad b" and "enc = (\<lambda>src. map url_char (b64 src))"
    and "length (jwt_token enc now period p []) < length (jb_bytes b)"
    and "wc_InitSha256 lib = Wolf_done" and "wc_Sha256Update lib (jwt_input enc now period p) = Wolf_done"
    and "wc_Sha256Final lib (jwt_input enc now period p) = (Wolf_done, digest)"
    and "PemToDer lib pem = (Wolf_done, der)"
    and "fst (wc_EccPrivateKeyDecode lib der) = Wolf_failed c
      \<or> wc_EccPrivateKeyDecode lib der = (Wolf_done, k) \<and> mp_init_r lib = Wolf_done \<and> mp_init_s lib = Wolf_done
        \<and> fst (wc_ecc_sign_hash_ex lib k digest) = Wolf_failed c"
  shows "\<exists>w b1. iotc_create_iotcore_jwt (wolfssl_port lib) now (Some p) period (Some key) (Some b) (length (jb_bytes b)) False
      = (IOTC_STATE_OK, Some w, Some b1)
    \<and> take w (jb_bytes b1) = jwt_token enc now period p []"
proof -
  let ?e = "\<lparr>jb_bytes = replicate IOTC_JWT_MAX_SIGNATURE_SIZE 0, jb_bad = False\<rparr>"
  have h: "holds [] (length (jb_bytes b)) b" using assms(6) by (simp add: holds_def)
  have e: "encodes (cp_base64 (wolfssl_port lib)) enc" using wolfssl_port_encodes [OF assms(1)] assms(7) by simp
  have s: "cp_sha256 (wolfssl_port lib) (jwt_input enc now period p) = (IOTC_BSP_CRYPTO_STATE_OK, digest)"
    using assms(9-11) by (simp add: wolfssl_port_def wolfssl_sha256_def)
  have "wolfssl_sign lib pem ?e IOTC_JWT_MAX_SIGNATURE_SIZE digest = (Wolf_failed c, 0, ?e)"
    using assms(12,13) by (auto simp: wolfssl_sign_def split: prod.splits)
  then have k: "cp_ecc (wolfssl_port lib) key ?e IOTC_JWT_MAX_SIGNATURE_SIZE digest = (IOTC_BSP_CRYPTO_STATE_OK, length ([] :: byte list), ?e)"
    by (simp add: wolfssl_port_def wolfssl_ecc_def assms(4))
  have "holds [] IOTC_JWT_MAX_SIGNATURE_SIZE ?e" by (simp add: holds_def)
  from jwt_sections_run [OF e assms(2,3) h assms(5) s k this] assms(8) obtain b1 where
    "jwt_sections (wolfssl_port lib) now p period key (length (jb_bytes b)) b
      = (IOTC_BSP_CRYPTO_STATE_OK, length (jwt_token enc now period p []), b1)"
    "holds (jwt_token enc now period p []) (length (jb_bytes b)) b1" by auto
  moreover have "key_usable key" by (simp add: key_usable_def assms(4))
  ultimately show ?thesis by (simp add: create_jwt_run [OF _ assms(3)] holds_def)
qed

section \<open>Instances\<close>

text \<open>The encoding of RFC 4648, and libraries that use it.\<close>

definition base64_char :: "nat \<Rightarrow> byte" where
  "base64_char n = (if n < 26 then of_nat (65 + n) else if n < 52 then of_nat (71 + n) else if n < 62 then of_nat (n - 4)
     else if n = 62 then 43 else 47)"

fun base64 :: "byte list \<Rightarrow> byte list" where
  "base64 [] = []"
| "base64 [a] = [base64_char (unat a div 4), base64_char (unat a mod 4 * 16), 61, 61]"
| "base64 [a, b] = [base64_char (unat a div 4), base64_char (unat a mod 4 * 16 + unat b div 16), base64_char (unat b mod 16 * 4), 61]"
| "base64 (a # b # c # bs) = base64_char (unat a div 4) # base64_char (unat a mod 4 * 16 + unat b div 16)
     # base64_char (unat b mod 16 * 4 + unat c div 64) # base64_char (unat c mod 64) # base64 bs"

lemma length_base64: "length (base64 src) = (length src + 2) div 3 * 4"
  by (induction src rule: base64.induct) (simp_all, presburger)

definition example_mbedtls :: "(unit, unit) mbedtls" where
  "example_mbedtls = \<lparr>
     mbedtls_base64_encode = (\<lambda>n src. if length (base64 src) < n then (Base64_done, length (base64 src), base64 src @ [0])
       else (MBEDTLS_ERR_BASE64_BUFFER_TOO_SMALL, length (base64 src) + 1, [])),
     mbedtls_sha256_starts_ret = 0, mbedtls_sha256_update_ret = (\<lambda>src. 0),
     mbedtls_sha256_finish_ret = (\<lambda>src. (0, replicate 32 1)),
     mbedtls_pk_parse_key = (\<lambda>pem. (0, ())), mbedtls_ecdsa_from_keypair = (\<lambda>pk. (0, ())),
     mbedtls_ecdsa_sign_det = (\<lambda>ec h. (0, 2, 3)), mbedtls_mpi_write_binary = (\<lambda>x n. (0, replicate n (of_nat x)))\<rparr>"

definition example_wolfssl :: "(unit, unit) wolfssl" where
  "example_wolfssl = \<lparr>
     Base64_length = (\<lambda>src. (LENGTH_ONLY_E, length (base64 src))),
     Base64_Encode_NoNl = (\<lambda>n src. if length (base64 src) \<le> n then (Wolf_done, length (base64 src), base64 src) else (BAD_FUNC_ARG, n, [])),
     wc_InitSha256 = Wolf_done, wc_Sha256Update = (\<lambda>src. Wolf_done), wc_Sha256Final = (\<lambda>src. (Wolf_done, replicate 32 1)),
     PemToDer = (\<lambda>pem. (Wolf_done, ())), wc_EccPrivateKeyDecode = (\<lambda>der. (Wolf_failed (- 140), ())),
     mp_init_r = Wolf_done, mp_init_s = Wolf_done, wc_ecc_sign_hash_ex = (\<lambda>k h. (Wolf_done, 2, 3)),
     mp_unsigned_bin_size = (\<lambda>x. 1), mp_to_unsigned_bin = (\<lambda>x. (Wolf_done, [of_nat x]))\<rparr>"

definition example_key :: crypto_key_data where
  "example_key = \<lparr>ck_key = Key_pem (Some ''k''), ck_algorithm = IOTC_CRYPTO_KEY_SIGNATURE_ALGORITHM_ES256\<rparr>"

definition example_signature :: "byte list" where
  "example_signature = replicate 32 2 @ replicate 32 3"

definition url_base64 :: "byte list \<Rightarrow> byte list" where
  "url_base64 src = map url_char (base64 src)"

lemma example_mbedtls_port:
  "encodes (cp_base64 (mbedtls_port example_mbedtls)) url_base64"
  "cp_sha256 (mbedtls_port example_mbedtls) src = (IOTC_BSP_CRYPTO_STATE_OK, replicate 32 1)"
  "cp_ecc (mbedtls_port example_mbedtls) example_key \<lparr>jb_bytes = replicate IOTC_JWT_MAX_SIGNATURE_SIZE 0, jb_bad = False\<rparr>
     IOTC_JWT_MAX_SIGNATURE_SIZE h = (IOTC_BSP_CRYPTO_STATE_OK, length example_signature,
       jwt_store 32 (replicate 32 3) (jwt_store 0 (replicate 32 2) \<lparr>jb_bytes = replicate IOTC_JWT_MAX_SIGNATURE_SIZE 0, jb_bad = False\<rparr>))"
  using mbedtls_port_encodes [of example_mbedtls base64]
  by (simp_all add: mbedtls_encodes_def example_mbedtls_def url_base64_def [abs_def] mbedtls_port_def mbedtls_sha256_def mbedtls_ecc_def
      example_key_def IOTC_JWT_MAX_SIGNATURE_SIZE_def example_signature_def)

lemma example_signature_held: "holds example_signature IOTC_JWT_MAX_SIGNATURE_SIZE
    (jwt_store 32 (replicate 32 3) (jwt_store 0 (replicate 32 2) \<lparr>jb_bytes = replicate IOTC_JWT_MAX_SIGNATURE_SIZE 0, jb_bad = False\<rparr>))"
  by (simp add: holds_def jwt_store_def memcpy_at_def IOTC_JWT_MAX_SIGNATURE_SIZE_def example_signature_def)

lemma example_key_usable: "key_usable example_key"
  by (simp add: key_usable_def example_key_def)

theorem jwt_token_or_error_witness:
  "\<exists>w b1. iotc_create_iotcore_jwt (mbedtls_port example_mbedtls) 1000 (Some ''p'') 60 (Some example_key)
      (Some \<lparr>jb_bytes = replicate 20 0, jb_bad = False\<rparr>) 20 False = (IOTC_BUFFER_TOO_SMALL_ERROR, Some w, Some b1) \<and> \<not> jb_bad b1"
proof -
  have t: "sane_time 1000 60" by (simp add: sane_time_def)
  have p: "length ''p'' \<le> IOTC_JWT_PROJECTID_MAX_LEN" by (simp add: IOTC_JWT_PROJECTID_MAX_LEN_def)
  have l: "\<not> length (jwt_token url_base64 1000 60 ''p'' example_signature) < 20"
    by (simp add: jwt_token_def jwt_input_def url_base64_def length_base64 jwt_header_def bytes_of_def)
  show ?thesis
    using jwt_token_or_error [OF example_mbedtls_port(1) t p example_key_usable _ _ example_mbedtls_port(2,3) example_signature_held,
        of "\<lparr>jb_bytes = replicate 20 0, jb_bad = False\<rparr>"] l by auto
qed

theorem jwt_size_suffices_witness:
  "\<exists>w b1. iotc_create_iotcore_jwt (mbedtls_port example_mbedtls) 1000 (Some ''p'') 60 (Some example_key)
      (Some \<lparr>jb_bytes = replicate IOTC_JWT_SIZE 0, jb_bad = False\<rparr>) IOTC_JWT_SIZE False = (IOTC_STATE_OK, Some w, Some b1)
    \<and> take w (jb_bytes b1) = jwt_token url_base64 1000 60 ''p'' example_signature"
proof -
  have t: "sane_time 1000 60" by (simp add: sane_time_def)
  have p: "length ''p'' \<le> IOTC_JWT_PROJECTID_MAX_LEN" by (simp add: IOTC_JWT_PROJECTID_MAX_LEN_def)
  have l: "\<And>src. length (url_base64 src) \<le> (length src + 2) div 3 * 4" by (simp add: url_base64_def length_base64)
  show ?thesis
    by (rule jwt_size_suffices [OF example_mbedtls_port(1) l t p example_key_usable _ _ example_mbedtls_port(2,3) example_signature_held])
       simp_all
qed

theorem wolfssl_signature_failure_accepted_witness:
  "\<exists>w b1. iotc_create_iotcore_jwt (wolfssl_port example_wolfssl) 1000 (Some ''p'') 60 (Some example_key)
      (Some \<lparr>jb_bytes = replicate 300 0, jb_bad = False\<rparr>) 300 False = (IOTC_STATE_OK, Some w, Some b1)
    \<and> take w (jb_bytes b1) = jwt_input url_base64 1000 60 ''p'' @ bytes_of ''.''"
proof -
  have t: "sane_time 1000 60" by (simp add: sane_time_def)
  have p: "length ''p'' \<le> IOTC_JWT_PROJECTID_MAX_LEN" by (simp add: IOTC_JWT_PROJECTID_MAX_LEN_def)
  have e: "wolfssl_encodes example_wolfssl base64" by (simp add: wolfssl_encodes_def example_wolfssl_def)
  have l: "length (jwt_token url_base64 1000 60 ''p'' []) < length (jb_bytes \<lparr>jb_bytes = replicate 300 0, jb_bad = False\<rparr>)"
    by (simp add: jwt_token_def jwt_input_def url_base64_def length_base64 jwt_header_def jwt_payload_def bytes_of_def decimal_def digits.simps)
  have x: "wc_InitSha256 example_wolfssl = Wolf_done" "wc_Sha256Update example_wolfssl src = Wolf_done"
    "wc_Sha256Final example_wolfssl src = (Wolf_done, replicate 32 1)" "PemToDer example_wolfssl ''k'' = (Wolf_done, ())"
    "fst (wc_EccPrivateKeyDecode example_wolfssl ()) = Wolf_failed (- 140)" for src
    by (simp_all add: example_wolfssl_def)
  show ?thesis
    using wolfssl_signature_failure_accepted [OF e t p example_key_def _ _ _ l x(1-4) disjI1 [OF x(5)]]
    by (simp add: url_base64_def [abs_def] jwt_token_def)
qed

end
