(* ===== verification/Iotc_Tls_Ports.thy ===== *)
theory Iotc_Tls_Ports
  imports Iotc_Tls_Handlers
begin

text \<open>
  The ports of the interface \<^verbatim>\<open>iotc_bsp_tls.h\<close> to mbedtls and to wolfssl, \<^verbatim>\<open>src/bsp/tls\<close>. The functions of the two libraries are
  parameters, collected in a record each. A call of a library that may send and receive is a tree of the calls of the functions that the
  port has registered; the port turns it into the tree of the callbacks of the TLS layer.

  What a library returns is a number of bytes or one of the codes that the port tells apart.
\<close>

section \<open>Calls that send and receive\<close>

datatype ('c, 'r) io_run =
    Io_return 'r
  | Io_recv nat "'c \<times> byte list \<Rightarrow> ('c, 'r) io_run"
  | Io_send ptr "byte list" "'c \<Rightarrow> ('c, 'r) io_run"

text \<open>The functions that the port registers stand between a library and the callbacks of the layer.\<close>

primrec port_run ::
    "(tls_state \<times> byte list \<Rightarrow> 'c \<times> byte list) \<Rightarrow> (tls_state \<times> nat \<Rightarrow> 'c) \<Rightarrow> ('r \<Rightarrow> 'q) \<Rightarrow> ('c, 'r) io_run \<Rightarrow> 'q tls_run" where
  "port_run recv send f (Io_return r) = Tls_return (f r)"
| "port_run recv send f (Io_recv n k) = Tls_recv n (\<lambda>a. port_run recv send f (k (recv a)))"
| "port_run recv send f (Io_send p bs k) = Tls_send p bs (\<lambda>a. port_run recv send f (k (send a)))"

section \<open>The port for mbedtls\<close>

datatype mbedtls_code =
    Mbedtls_count nat
  | MBEDTLS_ERR_SSL_WANT_READ
  | MBEDTLS_ERR_SSL_WANT_WRITE
  | MBEDTLS_ERR_SSL_INTERNAL_ERROR
  | MBEDTLS_ERR_X509_CERT_VERIFY_FAILED
  | Mbedtls_failed int

record 'm mbedtls_ssl =
  mbedtls_calloc :: "'m \<Rightarrow> ptr \<times> 'm"
  mbedtls_ssl_init :: "ptr \<Rightarrow> 'm \<Rightarrow> 'm"
  mbedtls_ssl_config_init :: "ptr \<Rightarrow> 'm \<Rightarrow> 'm"
  mbedtls_entropy_init :: "ptr \<Rightarrow> 'm \<Rightarrow> 'm"
  mbedtls_ctr_drbg_init :: "ptr \<Rightarrow> 'm \<Rightarrow> 'm"
  mbedtls_ctr_drbg_seed :: "ptr \<Rightarrow> 'm \<Rightarrow> int \<times> 'm"
  mbedtls_ssl_set_bio :: "ptr \<Rightarrow> 'm \<Rightarrow> 'm"
  mbedtls_ssl_config_defaults :: "ptr \<Rightarrow> 'm \<Rightarrow> int \<times> 'm"
  mbedtls_ssl_conf_authmode :: "ptr \<Rightarrow> bool \<Rightarrow> 'm \<Rightarrow> 'm"
  mbedtls_x509_crt_init :: "ptr \<Rightarrow> 'm \<Rightarrow> 'm"
  mbedtls_x509_crt_parse :: "ptr \<Rightarrow> byte list \<Rightarrow> 'm \<Rightarrow> int \<times> 'm"
  mbedtls_ssl_conf_ca_chain :: "ptr \<Rightarrow> 'm \<Rightarrow> 'm"
  mbedtls_ssl_conf_rng :: "ptr \<Rightarrow> 'm \<Rightarrow> 'm"
  mbedtls_ssl_setup :: "ptr \<Rightarrow> 'm \<Rightarrow> int \<times> 'm"
  mbedtls_ssl_set_hostname :: "ptr \<Rightarrow> cstr \<Rightarrow> 'm \<Rightarrow> int \<times> 'm"
  mbedtls_ssl_handshake :: "ptr \<Rightarrow> 'm \<Rightarrow> (mbedtls_code, mbedtls_code \<times> 'm) io_run"
  mbedtls_ssl_read :: "ptr \<Rightarrow> nat \<Rightarrow> 'm \<Rightarrow> (mbedtls_code, mbedtls_code \<times> byte list \<times> 'm) io_run"
  mbedtls_ssl_write :: "ptr \<Rightarrow> byte list \<Rightarrow> 'm \<Rightarrow> (mbedtls_code, mbedtls_code \<times> 'm) io_run"
  mbedtls_ssl_get_bytes_avail :: "ptr \<Rightarrow> 'm \<Rightarrow> nat"
  mbedtls_x509_crt_free :: "ptr \<Rightarrow> 'm \<Rightarrow> 'm"
  mbedtls_ssl_config_free :: "ptr \<Rightarrow> 'm \<Rightarrow> 'm"
  mbedtls_ssl_free :: "ptr \<Rightarrow> 'm \<Rightarrow> 'm"
  mbedtls_ctr_drbg_free :: "ptr \<Rightarrow> 'm \<Rightarrow> 'm"
  mbedtls_entropy_free :: "ptr \<Rightarrow> 'm \<Rightarrow> 'm"
  mbedtls_free :: "ptr \<Rightarrow> 'm \<Rightarrow> 'm"

text \<open>The state of the library with a flag for undefined behaviour of the port.\<close>

record 'm mbedtls_context =
  mp_lib :: 'm
  mp_bad :: bool

definition iotc_mbedtls_recv :: "tls_state \<times> byte list \<Rightarrow> mbedtls_code \<times> byte list" where
  "iotc_mbedtls_recv a =
     (case fst a of
        IOTC_BSP_TLS_STATE_OK \<Rightarrow> (Mbedtls_count (length (snd a)), snd a)
      | IOTC_BSP_TLS_STATE_WANT_READ \<Rightarrow> (MBEDTLS_ERR_SSL_WANT_READ, [])
      | _ \<Rightarrow> (MBEDTLS_ERR_SSL_INTERNAL_ERROR, []))"

definition iotc_mbedtls_send :: "tls_state \<times> nat \<Rightarrow> mbedtls_code" where
  "iotc_mbedtls_send a =
     (case fst a of
        IOTC_BSP_TLS_STATE_OK \<Rightarrow> Mbedtls_count (snd a)
      | IOTC_BSP_TLS_STATE_WANT_WRITE \<Rightarrow> MBEDTLS_ERR_SSL_WANT_WRITE
      | _ \<Rightarrow> MBEDTLS_ERR_SSL_INTERNAL_ERROR)"

abbreviation mbedtls_io :: "('r \<Rightarrow> 'q) \<Rightarrow> (mbedtls_code, 'r) io_run \<Rightarrow> 'q tls_run" where
  "mbedtls_io \<equiv> port_run iotc_mbedtls_recv iotc_mbedtls_send"

text \<open>For a certificate of no bytes the byte in front of the buffer is looked at.\<close>

definition mbedtls_prepare_certificate_buffer :: "byte list \<Rightarrow> byte list option" where
  "mbedtls_prepare_certificate_buffer cert =
     (if cert = [] then None
      else Some (if cert ! (length cert - 1) = 10 then cert[length cert - 1 := 0] else cert))"

definition mbedtls_init_rest :: "'m mbedtls_ssl \<Rightarrow> bool \<Rightarrow> cstr \<Rightarrow> byte list \<Rightarrow> ptr \<Rightarrow> 'm \<Rightarrow> tls_state \<times> 'm mbedtls_context" where
  "mbedtls_init_rest lib verify domain_name cert p m =
     (let m1 = snd (mbedtls_ssl_config_defaults lib p (mbedtls_ssl_set_bio lib p m));
          m2 = mbedtls_x509_crt_init lib p (mbedtls_ssl_conf_authmode lib p verify m1)
      in case mbedtls_prepare_certificate_buffer cert of
           None \<Rightarrow> (IOTC_BSP_TLS_STATE_INIT_ERROR, \<lparr>mp_lib = m2, mp_bad = True\<rparr>)
         | Some c \<Rightarrow>
             (case mbedtls_x509_crt_parse lib p c m2 of (r, m3) \<Rightarrow>
                if r < 0 then (IOTC_BSP_TLS_STATE_INIT_ERROR, \<lparr>mp_lib = m3, mp_bad = False\<rparr>)
                else (case mbedtls_ssl_setup lib p (mbedtls_ssl_conf_rng lib p (mbedtls_ssl_conf_ca_chain lib p m3)) of (r, m4) \<Rightarrow>
                  if r \<noteq> 0 then (IOTC_BSP_TLS_STATE_INIT_ERROR, \<lparr>mp_lib = m4, mp_bad = False\<rparr>)
                  else (case mbedtls_ssl_set_hostname lib p domain_name m4 of (r, m5) \<Rightarrow>
                    (if r \<noteq> 0 then IOTC_BSP_TLS_STATE_INIT_ERROR else IOTC_BSP_TLS_STATE_OK, \<lparr>mp_lib = m5, mp_bad = False\<rparr>)))))"

text \<open>The result of the allocation is not checked.\<close>

definition mbedtls_tls_init ::
    "'m mbedtls_ssl \<Rightarrow> bool \<Rightarrow> cstr \<Rightarrow> byte list \<Rightarrow> 'm mbedtls_context \<Rightarrow> tls_state \<times> ptr \<times> 'm mbedtls_context" where
  "mbedtls_tls_init lib verify domain_name cert s =
     (case mbedtls_calloc lib (mp_lib s) of (p, m) \<Rightarrow>
        if p = NULL then (IOTC_BSP_TLS_STATE_INIT_ERROR, NULL, \<lparr>mp_lib = m, mp_bad = True\<rparr>)
        else
          (let m1 = mbedtls_ctr_drbg_init lib p (mbedtls_entropy_init lib p (mbedtls_ssl_config_init lib p (mbedtls_ssl_init lib p m)))
           in case mbedtls_ctr_drbg_seed lib p m1 of (r, m2) \<Rightarrow>
                if r \<noteq> 0 then (IOTC_BSP_TLS_STATE_INIT_ERROR, p, \<lparr>mp_lib = m2, mp_bad = mp_bad s\<rparr>)
                else (case mbedtls_init_rest lib verify domain_name cert p m2 of (state, s1) \<Rightarrow>
                  (state, p, s1\<lparr>mp_bad := (mp_bad s \<or> mp_bad s1)\<rparr>))))"

definition mbedtls_tls_connect :: "'m mbedtls_ssl \<Rightarrow> ptr \<Rightarrow> 'm mbedtls_context \<Rightarrow> (tls_state \<times> 'm mbedtls_context) tls_run" where
  "mbedtls_tls_connect lib p s = mbedtls_io (\<lambda>(ret_state, m).
     case ret_state of
       MBEDTLS_ERR_SSL_WANT_READ \<Rightarrow> (IOTC_BSP_TLS_STATE_WANT_READ, s\<lparr>mp_lib := m\<rparr>)
     | MBEDTLS_ERR_SSL_WANT_WRITE \<Rightarrow> (IOTC_BSP_TLS_STATE_WANT_WRITE, s\<lparr>mp_lib := m\<rparr>)
     | MBEDTLS_ERR_X509_CERT_VERIFY_FAILED \<Rightarrow> (IOTC_BSP_TLS_STATE_CERT_ERROR, s\<lparr>mp_lib := m\<rparr>)
     | _ \<Rightarrow>
         if ret_state = Mbedtls_count 0 then (IOTC_BSP_TLS_STATE_OK, s\<lparr>mp_lib := mbedtls_x509_crt_free lib p m\<rparr>)
         else (IOTC_BSP_TLS_STATE_CONNECT_ERROR, s\<lparr>mp_lib := m\<rparr>)) (mbedtls_ssl_handshake lib p (mp_lib s))"

definition mbedtls_tls_read :: "'m mbedtls_ssl \<Rightarrow> ptr \<Rightarrow> nat \<Rightarrow> 'm mbedtls_context \<Rightarrow> (tls_state \<times> byte list \<times> 'm mbedtls_context) tls_run" where
  "mbedtls_tls_read lib p data_size s = mbedtls_io (\<lambda>(ret_state, bs, m).
     case ret_state of
       Mbedtls_count n \<Rightarrow> if n > 0 then (IOTC_BSP_TLS_STATE_OK, take n bs, s\<lparr>mp_lib := m\<rparr>) else (IOTC_BSP_TLS_STATE_READ_ERROR, [], s\<lparr>mp_lib := m\<rparr>)
     | MBEDTLS_ERR_SSL_WANT_READ \<Rightarrow> (IOTC_BSP_TLS_STATE_WANT_READ, [], s\<lparr>mp_lib := m\<rparr>)
     | _ \<Rightarrow> (IOTC_BSP_TLS_STATE_READ_ERROR, [], s\<lparr>mp_lib := m\<rparr>)) (mbedtls_ssl_read lib p data_size (mp_lib s))"

text \<open>The number of written bytes is 0 before the call.\<close>

definition mbedtls_tls_write :: "'m mbedtls_ssl \<Rightarrow> ptr \<Rightarrow> byte list \<Rightarrow> 'm mbedtls_context \<Rightarrow> (tls_state \<times> int \<times> 'm mbedtls_context) tls_run" where
  "mbedtls_tls_write lib p data s = mbedtls_io (\<lambda>(ret_state, m).
     case ret_state of
       Mbedtls_count n \<Rightarrow> if n > 0 then (IOTC_BSP_TLS_STATE_OK, int n, s\<lparr>mp_lib := m\<rparr>) else (IOTC_BSP_TLS_STATE_WRITE_ERROR, 0, s\<lparr>mp_lib := m\<rparr>)
     | MBEDTLS_ERR_SSL_WANT_WRITE \<Rightarrow> (IOTC_BSP_TLS_STATE_WANT_WRITE, 0, s\<lparr>mp_lib := m\<rparr>)
     | _ \<Rightarrow> (IOTC_BSP_TLS_STATE_WRITE_ERROR, 0, s\<lparr>mp_lib := m\<rparr>)) (mbedtls_ssl_write lib p data (mp_lib s))"

definition mbedtls_tls_pending :: "'m mbedtls_ssl \<Rightarrow> ptr \<Rightarrow> 'm mbedtls_context \<Rightarrow> int" where
  "mbedtls_tls_pending lib p s = to_int32 (int (mbedtls_ssl_get_bytes_avail lib p (mp_lib s)))"

definition mbedtls_tls_cleanup :: "'m mbedtls_ssl \<Rightarrow> ptr \<Rightarrow> 'm mbedtls_context \<Rightarrow> ptr \<times> 'm mbedtls_context" where
  "mbedtls_tls_cleanup lib p s =
     (if p = NULL then (NULL, s)
      else (NULL, s\<lparr>mp_lib := mbedtls_free lib p (mbedtls_entropy_free lib p (mbedtls_ctr_drbg_free lib p
              (mbedtls_ssl_free lib p (mbedtls_ssl_config_free lib p (mbedtls_x509_crt_free lib p (mp_lib s))))))\<rparr>))"

definition mbedtls_tls_port :: "'m mbedtls_ssl \<Rightarrow> bool \<Rightarrow> 'm mbedtls_context tls_lib" where
  "mbedtls_tls_port lib verify = \<lparr>
     iotc_bsp_tls_init = mbedtls_tls_init lib verify, iotc_bsp_tls_cleanup = mbedtls_tls_cleanup lib,
     iotc_bsp_tls_pending = mbedtls_tls_pending lib, iotc_bsp_tls_connect = mbedtls_tls_connect lib,
     iotc_bsp_tls_read = mbedtls_tls_read lib, iotc_bsp_tls_write = mbedtls_tls_write lib\<rparr>"

section \<open>The port for wolfssl\<close>

text \<open>What the registered functions return, and what \<^verbatim>\<open>CyaSSL_get_error\<close> says about a result that is not positive.\<close>

datatype cbio_code = Cbio_count nat | CYASSL_CBIO_ERR_WANT_READ | CYASSL_CBIO_ERR_WANT_WRITE | CYASSL_CBIO_ERR_GENERAL

datatype cyassl_error = SSL_SUCCESS | SSL_ERROR_WANT_READ | SSL_ERROR_WANT_WRITE | Cyassl_failed int

datatype ocsp = No_ocsp | IOTC_TLS_OCSP | IOTC_TLS_OCSP_STAPLING

record 'm cyassl =
  CyaSSL_Init :: "'m \<Rightarrow> bool \<times> 'm"
  CyaSSL_SetAllocators :: "'m \<Rightarrow> int \<times> 'm"
  wolfSSL_Malloc :: "'m \<Rightarrow> ptr \<times> 'm"
  CyaSSL_CTX_new :: "'m \<Rightarrow> ptr \<times> 'm"
  CyaSSL_SetIO :: "ptr \<Rightarrow> 'm \<Rightarrow> 'm"
  CyaSSL_CTX_set_verify :: "ptr \<Rightarrow> 'm \<Rightarrow> 'm"
  CyaSSL_new :: "ptr \<Rightarrow> 'm \<Rightarrow> ptr \<times> 'm"
  CyaSSL_check_domain_name :: "ptr \<Rightarrow> cstr \<Rightarrow> 'm \<Rightarrow> bool \<times> 'm"
  CyaSSL_UseSNI :: "ptr \<Rightarrow> cstr \<Rightarrow> 'm \<Rightarrow> bool \<times> 'm"
  wolfSSL_UseOCSPStapling :: "ptr \<Rightarrow> 'm \<Rightarrow> bool \<times> 'm"
  wolfSSL_EnableOCSP :: "ptr \<Rightarrow> 'm \<Rightarrow> bool \<times> 'm"
  CyaSSL_SetIOCtx :: "ptr \<Rightarrow> 'm \<Rightarrow> 'm"
  CyaSSL_CTX_load_verify_buffer :: "ptr \<Rightarrow> byte list \<Rightarrow> 'm \<Rightarrow> bool \<times> 'm"
  CyaSSL_connect :: "ptr \<Rightarrow> 'm \<Rightarrow> (cbio_code, int \<times> 'm) io_run"
  CyaSSL_read :: "ptr \<Rightarrow> nat \<Rightarrow> 'm \<Rightarrow> (cbio_code, int \<times> byte list \<times> 'm) io_run"
  CyaSSL_write :: "ptr \<Rightarrow> byte list \<Rightarrow> 'm \<Rightarrow> (cbio_code, int \<times> 'm) io_run"
  CyaSSL_get_error :: "ptr \<Rightarrow> int \<Rightarrow> 'm \<Rightarrow> cyassl_error"
  CyaSSL_pending :: "ptr \<Rightarrow> 'm \<Rightarrow> int"
  CyaSSL_UnloadCertsKeys :: "ptr \<Rightarrow> 'm \<Rightarrow> 'm"
  CyaSSL_CTX_UnloadCAs :: "ptr \<Rightarrow> 'm \<Rightarrow> 'm"
  CyaSSL_free :: "ptr \<Rightarrow> 'm \<Rightarrow> 'm"
  CyaSSL_CTX_free :: "ptr \<Rightarrow> 'm \<Rightarrow> 'm"
  CyaSSL_Cleanup :: "'m \<Rightarrow> 'm"
  wolfSSL_Free :: "ptr \<Rightarrow> 'm \<Rightarrow> 'm"

text \<open>The two fields of the block of the port; a field that was not set since the block was allocated is \<open>None\<close>.\<close>

record 'm wolfssl_context =
  wp_lib :: 'm
  wp_ctx :: "ptr \<Rightarrow> ptr option"
  wp_obj :: "ptr \<Rightarrow> ptr option"
  wp_bad :: bool

definition iotc_wolfssl_recv :: "tls_state \<times> byte list \<Rightarrow> cbio_code \<times> byte list" where
  "iotc_wolfssl_recv a =
     (case fst a of
        IOTC_BSP_TLS_STATE_OK \<Rightarrow> (Cbio_count (length (snd a)), snd a)
      | IOTC_BSP_TLS_STATE_WANT_READ \<Rightarrow> (CYASSL_CBIO_ERR_WANT_READ, [])
      | _ \<Rightarrow> (CYASSL_CBIO_ERR_GENERAL, []))"

definition iotc_wolfssl_send :: "tls_state \<times> nat \<Rightarrow> cbio_code" where
  "iotc_wolfssl_send a =
     (case fst a of
        IOTC_BSP_TLS_STATE_OK \<Rightarrow> Cbio_count (snd a)
      | IOTC_BSP_TLS_STATE_WANT_WRITE \<Rightarrow> CYASSL_CBIO_ERR_WANT_WRITE
      | _ \<Rightarrow> CYASSL_CBIO_ERR_GENERAL)"

abbreviation wolfssl_io :: "('r \<Rightarrow> 'q) \<Rightarrow> (cbio_code, 'r) io_run \<Rightarrow> 'q tls_run" where
  "wolfssl_io \<equiv> port_run iotc_wolfssl_recv iotc_wolfssl_send"

text \<open>From the new object on.\<close>

definition wolfssl_init_object :: "'m cyassl \<Rightarrow> ocsp \<Rightarrow> cstr \<Rightarrow> byte list \<Rightarrow> ptr \<Rightarrow> ptr \<Rightarrow> 'm \<Rightarrow> tls_state \<times> 'm" where
  "wolfssl_init_object lib build domain_name cert ctx obj m =
     (case CyaSSL_check_domain_name lib obj domain_name m of (b1, m1) \<Rightarrow>
        if \<not> b1 then (IOTC_BSP_TLS_STATE_INIT_ERROR, m1)
        else (case CyaSSL_UseSNI lib obj domain_name m1 of (b2, m2) \<Rightarrow>
          if \<not> b2 then (IOTC_BSP_TLS_STATE_INIT_ERROR, m2)
          else (case (case build of
                   IOTC_TLS_OCSP_STAPLING \<Rightarrow> wolfSSL_UseOCSPStapling lib obj m2
                 | IOTC_TLS_OCSP \<Rightarrow> wolfSSL_EnableOCSP lib obj m2
                 | No_ocsp \<Rightarrow> (True, m2)) of (b3, m3) \<Rightarrow>
            if \<not> b3 then (IOTC_BSP_TLS_STATE_INIT_ERROR, m3)
            else (case CyaSSL_CTX_load_verify_buffer lib ctx cert (CyaSSL_SetIOCtx lib obj m3) of (b4, m4) \<Rightarrow>
              (if \<not> b4 then IOTC_BSP_TLS_STATE_CERT_ERROR else IOTC_BSP_TLS_STATE_OK, m4)))))"

text \<open>The result of the allocation is not checked.\<close>

definition wolfssl_tls_init ::
    "'m cyassl \<Rightarrow> ocsp \<Rightarrow> bool \<Rightarrow> cstr \<Rightarrow> byte list \<Rightarrow> 'm wolfssl_context \<Rightarrow> tls_state \<times> ptr \<times> 'm wolfssl_context" where
  "wolfssl_tls_init lib build verify domain_name cert s =
     (case CyaSSL_Init lib (wp_lib s) of (b, m) \<Rightarrow>
        if \<not> b then (IOTC_BSP_TLS_STATE_INIT_ERROR, NULL, s\<lparr>wp_lib := m\<rparr>)
        else (case CyaSSL_SetAllocators lib m of (r, m1) \<Rightarrow>
          if r \<noteq> 0 then (IOTC_BSP_TLS_STATE_INIT_ERROR, NULL, s\<lparr>wp_lib := m1\<rparr>)
          else (case wolfSSL_Malloc lib m1 of (p, m2) \<Rightarrow>
            if p = NULL then (IOTC_BSP_TLS_STATE_INIT_ERROR, NULL, s\<lparr>wp_lib := m2, wp_bad := True\<rparr>)
            else (case CyaSSL_CTX_new lib m2 of (ctx, m3) \<Rightarrow>
              (let s1 = s\<lparr>wp_lib := m3, wp_ctx := (wp_ctx s)(p := Some ctx), wp_obj := (wp_obj s)(p := None)\<rparr>
               in if ctx = NULL then (IOTC_BSP_TLS_STATE_INIT_ERROR, p, s1)
                  else
                    (let m4 = CyaSSL_SetIO lib ctx m3; m5 = (if verify then m4 else CyaSSL_CTX_set_verify lib ctx m4)
                     in case CyaSSL_new lib ctx m5 of (obj, m6) \<Rightarrow>
                          (let s2 = s1\<lparr>wp_lib := m6, wp_obj := (wp_obj s1)(p := Some obj)\<rparr>
                           in if obj = NULL then (IOTC_BSP_TLS_STATE_INIT_ERROR, p, s2)
                              else (case wolfssl_init_object lib build domain_name cert ctx obj m6 of (state, m7) \<Rightarrow>
                                (state, p, s2\<lparr>wp_lib := m7\<rparr>)))))))))"

text \<open>A call with the object of a block that has none is a call with an arbitrary address.\<close>

definition object_of :: "'m wolfssl_context \<Rightarrow> ptr \<Rightarrow> ptr" where
  "object_of s p = (case wp_obj s p of None \<Rightarrow> NULL | Some obj \<Rightarrow> obj)"

definition cyassl_state :: "'m cyassl \<Rightarrow> ptr \<Rightarrow> int \<Rightarrow> 'm \<Rightarrow> cyassl_error" where
  "cyassl_state lib obj ret m = (if ret \<le> 0 then CyaSSL_get_error lib obj ret m else SSL_SUCCESS)"

definition wolfssl_tls_connect :: "'m cyassl \<Rightarrow> ptr \<Rightarrow> 'm wolfssl_context \<Rightarrow> (tls_state \<times> 'm wolfssl_context) tls_run" where
  "wolfssl_tls_connect lib p s = wolfssl_io (\<lambda>(ret, m).
     case cyassl_state lib (object_of s p) ret m of
       SSL_ERROR_WANT_READ \<Rightarrow> (IOTC_BSP_TLS_STATE_WANT_READ, s\<lparr>wp_lib := m\<rparr>)
     | SSL_ERROR_WANT_WRITE \<Rightarrow> (IOTC_BSP_TLS_STATE_WANT_WRITE, s\<lparr>wp_lib := m\<rparr>)
     | SSL_SUCCESS \<Rightarrow> (IOTC_BSP_TLS_STATE_OK, s\<lparr>wp_lib := m\<rparr>)
     | Cyassl_failed e \<Rightarrow> (IOTC_BSP_TLS_STATE_CONNECT_ERROR, s\<lparr>wp_lib := CyaSSL_UnloadCertsKeys lib (object_of s p) m\<rparr>))
     (CyaSSL_connect lib (object_of s p) (wp_lib s))"

text \<open>The layer looks at the number of read bytes when it is positive.\<close>

definition wolfssl_tls_read :: "'m cyassl \<Rightarrow> ptr \<Rightarrow> nat \<Rightarrow> 'm wolfssl_context \<Rightarrow> (tls_state \<times> byte list \<times> 'm wolfssl_context) tls_run" where
  "wolfssl_tls_read lib p data_size s = wolfssl_io (\<lambda>(ret, bs, m).
     (case cyassl_state lib (object_of s p) ret m of
        SSL_ERROR_WANT_READ \<Rightarrow> IOTC_BSP_TLS_STATE_WANT_READ
      | SSL_SUCCESS \<Rightarrow> IOTC_BSP_TLS_STATE_OK
      | _ \<Rightarrow> IOTC_BSP_TLS_STATE_READ_ERROR, take (nat ret) bs, s\<lparr>wp_lib := m\<rparr>))
     (CyaSSL_read lib (object_of s p) data_size (wp_lib s))"

definition wolfssl_tls_write :: "'m cyassl \<Rightarrow> ptr \<Rightarrow> byte list \<Rightarrow> 'm wolfssl_context \<Rightarrow> (tls_state \<times> int \<times> 'm wolfssl_context) tls_run" where
  "wolfssl_tls_write lib p data s = wolfssl_io (\<lambda>(ret, m).
     (case cyassl_state lib (object_of s p) ret m of
        SSL_ERROR_WANT_WRITE \<Rightarrow> IOTC_BSP_TLS_STATE_WANT_WRITE
      | SSL_SUCCESS \<Rightarrow> IOTC_BSP_TLS_STATE_OK
      | _ \<Rightarrow> IOTC_BSP_TLS_STATE_WRITE_ERROR, ret, s\<lparr>wp_lib := m\<rparr>))
     (CyaSSL_write lib (object_of s p) data (wp_lib s))"

definition wolfssl_tls_pending :: "'m cyassl \<Rightarrow> ptr \<Rightarrow> 'm wolfssl_context \<Rightarrow> int" where
  "wolfssl_tls_pending lib p s = CyaSSL_pending lib (object_of s p) (wp_lib s)"

text \<open>The object that is released may be one that was never set.\<close>

definition wolfssl_tls_cleanup :: "'m cyassl \<Rightarrow> ptr \<Rightarrow> 'm wolfssl_context \<Rightarrow> ptr \<times> 'm wolfssl_context" where
  "wolfssl_tls_cleanup lib p s =
     (if p = NULL then (NULL, s)
      else
        (let ctx = (case wp_ctx s p of None \<Rightarrow> NULL | Some ctx \<Rightarrow> ctx);
             bad = (wp_ctx s p = None \<or> wp_obj s p = None);
             m = CyaSSL_CTX_free lib ctx (CyaSSL_free lib (object_of s p) (CyaSSL_CTX_UnloadCAs lib ctx (wp_lib s)))
         in (NULL, s\<lparr>wp_lib := wolfSSL_Free lib p (CyaSSL_Cleanup lib m), wp_ctx := (wp_ctx s)(p := None),
                      wp_obj := (wp_obj s)(p := None), wp_bad := (wp_bad s \<or> bad)\<rparr>)))"

definition wolfssl_tls_port :: "'m cyassl \<Rightarrow> ocsp \<Rightarrow> bool \<Rightarrow> 'm wolfssl_context tls_lib" where
  "wolfssl_tls_port lib build verify = \<lparr>
     iotc_bsp_tls_init = wolfssl_tls_init lib build verify, iotc_bsp_tls_cleanup = wolfssl_tls_cleanup lib,
     iotc_bsp_tls_pending = wolfssl_tls_pending lib, iotc_bsp_tls_connect = wolfssl_tls_connect lib,
     iotc_bsp_tls_read = wolfssl_tls_read lib, iotc_bsp_tls_write = wolfssl_tls_write lib\<rparr>"

text \<open>The seed of the library, a byte for each random number.\<close>

fun iotc_bsp_rng_generate_wolfssl_seed :: "('g \<Rightarrow> nat \<times> 'g) \<Rightarrow> nat \<Rightarrow> 'g \<Rightarrow> byte list \<times> 'g" where
  "iotc_bsp_rng_generate_wolfssl_seed iotc_bsp_rng_get 0 g = ([], g)"
| "iotc_bsp_rng_generate_wolfssl_seed iotc_bsp_rng_get (Suc n) g =
     (case iotc_bsp_rng_get g of (x, g1) \<Rightarrow>
      case iotc_bsp_rng_generate_wolfssl_seed iotc_bsp_rng_get n g1 of (bs, g2) \<Rightarrow> (of_nat x # bs, g2))"

section \<open>What a library sees\<close>

text \<open>
  A socket that does not block: what is there is read in order, a send is answered with the code for waiting until the bytes of the first
  one were written, and then with their number. It is the channel of the layer in the codes of a library.
\<close>

inductive socket_run ::
    "(nat \<Rightarrow> 'c) \<Rightarrow> 'c \<Rightarrow> 'c \<Rightarrow> ('c, 'r) io_run \<Rightarrow> byte list \<Rightarrow> tls_write_state \<Rightarrow> 'r \<Rightarrow> byte list \<Rightarrow> tls_write_state \<Rightarrow> byte list list \<Rightarrow> bool"
  for cnt :: "nat \<Rightarrow> 'c" and want_read want_write :: 'c where
  socket_return: "socket_run cnt want_read want_write (Io_return r) inp ph r inp ph []"
| socket_empty: "socket_run cnt want_read want_write (k (want_read, [])) [] ph r inp' ph' out
    \<Longrightarrow> socket_run cnt want_read want_write (Io_recv n k) [] ph r inp' ph' out"
| socket_recv: "socket_run cnt want_read want_write (k (cnt (length bs), bs)) inp ph r inp' ph' out \<Longrightarrow> length bs \<le> n \<Longrightarrow> bs \<noteq> [] \<or> n = 0
    \<Longrightarrow> bs @ inp \<noteq> [] \<Longrightarrow> socket_run cnt want_read want_write (Io_recv n k) (bs @ inp) ph r inp' ph' out"
| socket_send: "socket_run cnt want_read want_write (k want_write) inp IOTC_TLS_LAYER_DATA_WRITING r inp' ph' out
    \<Longrightarrow> socket_run cnt want_read want_write (Io_send p bs k) inp IOTC_TLS_LAYER_DATA_NONE r inp' ph' (bs # out)"
| socket_wait: "socket_run cnt want_read want_write (k want_write) inp IOTC_TLS_LAYER_DATA_WRITING r inp' ph' out
    \<Longrightarrow> socket_run cnt want_read want_write (Io_send p bs k) inp IOTC_TLS_LAYER_DATA_WRITING r inp' ph' out"
| socket_written: "socket_run cnt want_read want_write (k (cnt (length bs))) inp IOTC_TLS_LAYER_DATA_NONE r inp' ph' out
    \<Longrightarrow> socket_run cnt want_read want_write (Io_send p bs k) inp IOTC_TLS_LAYER_DATA_WRITTEN r inp' ph' out"

inductive_cases channel_run_returnE: "channel_run (Tls_return r) inp ph q inp' ph' out"

text \<open>The contract of the two functions that a port registers with its library.\<close>

locale registered_io =
  fixes recv :: "tls_state \<times> byte list \<Rightarrow> 'c \<times> byte list" and send :: "tls_state \<times> nat \<Rightarrow> 'c"
    and cnt :: "nat \<Rightarrow> 'c" and want_read want_write :: 'c
  assumes recv_ok: "recv (IOTC_BSP_TLS_STATE_OK, bs) = (cnt (length bs), bs)"
    and recv_wait: "recv (IOTC_BSP_TLS_STATE_WANT_READ, []) = (want_read, [])"
    and send_ok: "send (IOTC_BSP_TLS_STATE_OK, n) = cnt n"
    and send_wait: "send (IOTC_BSP_TLS_STATE_WANT_WRITE, 0) = want_write"
begin

lemma channel_is_socket:
  "channel_run (port_run recv send f t) inp ph r inp' ph' out
    \<Longrightarrow> \<exists>q. r = f q \<and> socket_run cnt want_read want_write t inp ph q inp' ph' out"
proof (induction t arbitrary: inp ph out)
  case (Io_return x)
  then show ?case by (auto elim!: channel_run_returnE intro: socket_run.intros)
next
  case (Io_recv n k)
  from Io_recv.prems have "channel_run (Tls_recv n (\<lambda>a. port_run recv send f (k (recv a)))) inp ph r inp' ph' out" by simp
  then show ?case
  proof cases
    case channel_empty
    then have "channel_run (port_run recv send f (k (want_read, []))) [] ph r inp' ph' out" by (simp add: recv_wait)
    from Io_recv.IH [OF rangeI this] obtain q where "r = f q" "socket_run cnt want_read want_write (k (want_read, [])) [] ph q inp' ph' out" by blast
    with channel_empty show ?thesis using socket_empty [of cnt want_read want_write k ph q inp' ph' out n] by blast
  next
    case (channel_recv bs inp1)
    then have "channel_run (port_run recv send f (k (cnt (length bs), bs))) inp1 ph r inp' ph' out" by (simp add: recv_ok)
    from Io_recv.IH [OF rangeI this] obtain q where "r = f q" "socket_run cnt want_read want_write (k (cnt (length bs), bs)) inp1 ph q inp' ph' out" by blast
    with channel_recv show ?thesis using socket_recv [of cnt want_read want_write k bs inp1 ph q inp' ph' out n] by blast
  qed
next
  case (Io_send p bs k)
  from Io_send.prems have "channel_run (Tls_send p bs (\<lambda>a. port_run recv send f (k (send a)))) inp ph r inp' ph' out" by simp
  then show ?case
  proof cases
    case (channel_send out1)
    then have "channel_run (port_run recv send f (k want_write)) inp IOTC_TLS_LAYER_DATA_WRITING r inp' ph' out1" by (simp add: send_wait)
    from Io_send.IH [OF rangeI this] obtain q where "r = f q" "socket_run cnt want_read want_write (k want_write) inp IOTC_TLS_LAYER_DATA_WRITING q inp' ph' out1" by blast
    with channel_send show ?thesis using socket_send [of cnt want_read want_write k inp q inp' ph' out1 p bs] by blast
  next
    case channel_wait
    then have "channel_run (port_run recv send f (k want_write)) inp IOTC_TLS_LAYER_DATA_WRITING r inp' ph' out" by (simp add: send_wait)
    from Io_send.IH [OF rangeI this] obtain q where "r = f q" "socket_run cnt want_read want_write (k want_write) inp IOTC_TLS_LAYER_DATA_WRITING q inp' ph' out" by blast
    with channel_wait show ?thesis using socket_wait [of cnt want_read want_write k inp q inp' ph' out p bs] by blast
  next
    case channel_written
    then have "channel_run (port_run recv send f (k (cnt (length bs)))) inp IOTC_TLS_LAYER_DATA_NONE r inp' ph' out" by (simp add: send_ok)
    from Io_send.IH [OF rangeI this] obtain q where "r = f q" "socket_run cnt want_read want_write (k (cnt (length bs))) inp IOTC_TLS_LAYER_DATA_NONE q inp' ph' out" by blast
    with channel_written show ?thesis using socket_written [of cnt want_read want_write k bs inp q inp' ph' out p] by blast
  qed
qed

text \<open>With the layer, a call of the library through the port is a run on such a socket.\<close>

lemma library_on_socket:
  fixes s :: "('f, 'l, 'z) tls_scheme"
  assumes "channel context s inp ph" and "sys base hs (raw_blocks s + M) s" and "run_tls context (port_run recv send f t) s = (r, s')"
  shows "\<exists>q inp' ph' out. r = f q \<and> socket_run cnt want_read want_write t inp ph q inp' ph' out \<and> channel context s' inp' ph'"
proof -
  from library_run [OF assms] obtain inp' ph' out where
    o: "channel_run (port_run recv send f t) inp ph r inp' ph' out" "channel context s' inp' ph'" by blast
  from channel_is_socket [OF o(1)] o(2) show ?thesis by blast
qed

end

interpretation mbedtls_bio: registered_io iotc_mbedtls_recv iotc_mbedtls_send Mbedtls_count MBEDTLS_ERR_SSL_WANT_READ MBEDTLS_ERR_SSL_WANT_WRITE
  by unfold_locales (simp_all add: iotc_mbedtls_recv_def iotc_mbedtls_send_def)

interpretation wolfssl_bio: registered_io iotc_wolfssl_recv iotc_wolfssl_send Cbio_count CYASSL_CBIO_ERR_WANT_READ CYASSL_CBIO_ERR_WANT_WRITE
  by unfold_locales (simp_all add: iotc_wolfssl_recv_def iotc_wolfssl_send_def)

section \<open>Calls through the ports\<close>

text \<open>
  C11. A read through the port for mbedtls is a read of mbedtls on a socket that does not block and holds exactly the bytes that the layer has
  received: what it takes from them is gone from the layer and nothing else. It is OK only when mbedtls returned a positive number, with that many bytes, and
  asks for more only when mbedtls wants to read; everything else, the end of the stream included, is an error.
\<close>

theorem mbedtls_read_on_socket:
  fixes s :: "('f, 'l, 'z) tls_scheme"
  assumes "channel context s inp ph" and "sys base hs (raw_blocks s + M) s"
    and "run_tls context (iotc_bsp_tls_read (mbedtls_tls_port lib verify) p n l) s = ((st, bs, l'), s')"
  shows "\<exists>code got m inp' ph' out. socket_run Mbedtls_count MBEDTLS_ERR_SSL_WANT_READ MBEDTLS_ERR_SSL_WANT_WRITE
        (mbedtls_ssl_read lib p n (mp_lib l)) inp ph (code, got, m) inp' ph' out
    \<and> channel context s' inp' ph' \<and> l' = l\<lparr>mp_lib := m\<rparr>
    \<and> (st = IOTC_BSP_TLS_STATE_OK \<longleftrightarrow> (\<exists>k>0. code = Mbedtls_count k)) \<and> (\<forall>k>0. code = Mbedtls_count k \<longrightarrow> bs = take k got)
    \<and> (st = IOTC_BSP_TLS_STATE_WANT_READ \<longleftrightarrow> code = MBEDTLS_ERR_SSL_WANT_READ)
    \<and> (st \<noteq> IOTC_BSP_TLS_STATE_OK \<longrightarrow> bs = [])"
proof -
  from mbedtls_bio.library_on_socket [OF assms(1,2) assms(3) [unfolded mbedtls_tls_port_def, simplified, unfolded mbedtls_tls_read_def]]
  obtain code got m inp' ph' out where
    o: "socket_run Mbedtls_count MBEDTLS_ERR_SSL_WANT_READ MBEDTLS_ERR_SSL_WANT_WRITE (mbedtls_ssl_read lib p n (mp_lib l)) inp ph
      (code, got, m) inp' ph' out" "channel context s' inp' ph'"
    and r: "(st, bs, l') = (case code of
       Mbedtls_count n \<Rightarrow> if n > 0 then (IOTC_BSP_TLS_STATE_OK, take n got, l\<lparr>mp_lib := m\<rparr>) else (IOTC_BSP_TLS_STATE_READ_ERROR, [], l\<lparr>mp_lib := m\<rparr>)
     | MBEDTLS_ERR_SSL_WANT_READ \<Rightarrow> (IOTC_BSP_TLS_STATE_WANT_READ, [], l\<lparr>mp_lib := m\<rparr>)
     | _ \<Rightarrow> (IOTC_BSP_TLS_STATE_READ_ERROR, [], l\<lparr>mp_lib := m\<rparr>))" by auto
  have "l' = l\<lparr>mp_lib := m\<rparr> \<and> (st = IOTC_BSP_TLS_STATE_OK \<longleftrightarrow> (\<exists>k>0. code = Mbedtls_count k))
    \<and> (\<forall>k>0. code = Mbedtls_count k \<longrightarrow> bs = take k got) \<and> (st = IOTC_BSP_TLS_STATE_WANT_READ \<longleftrightarrow> code = MBEDTLS_ERR_SSL_WANT_READ)
    \<and> (st \<noteq> IOTC_BSP_TLS_STATE_OK \<longrightarrow> bs = [])"
    using r by (cases code) (auto split: if_splits)
  with o show ?thesis by blast
qed

text \<open>
  A handshake through the port for wolfssl is one of wolfssl on such a socket; it succeeds only when wolfssl returned a positive number or its
  error code says success, and a certificate that is refused is reported as any other failure of the connection.
\<close>

theorem wolfssl_handshake_on_socket:
  fixes s :: "('f, 'l, 'z) tls_scheme"
  assumes "channel context s inp ph" and "sys base hs (raw_blocks s + M) s" and "wp_obj l p = Some obj"
    and "run_tls context (iotc_bsp_tls_connect (wolfssl_tls_port lib build verify) p l) s = ((st, l'), s')"
  shows "\<exists>ret m inp' ph' out. socket_run Cbio_count CYASSL_CBIO_ERR_WANT_READ CYASSL_CBIO_ERR_WANT_WRITE
        (CyaSSL_connect lib obj (wp_lib l)) inp ph (ret, m) inp' ph' out
    \<and> channel context s' inp' ph'
    \<and> (st = IOTC_BSP_TLS_STATE_OK \<longleftrightarrow> ret > 0 \<or> CyaSSL_get_error lib obj ret m = SSL_SUCCESS)
    \<and> st \<noteq> IOTC_BSP_TLS_STATE_CERT_ERROR
    \<and> (st = IOTC_BSP_TLS_STATE_CONNECT_ERROR \<longrightarrow> wp_lib l' = CyaSSL_UnloadCertsKeys lib obj m)"
proof -
  have ob: "object_of l p = obj" using assms(3) by (simp add: object_of_def)
  from wolfssl_bio.library_on_socket [OF assms(1,2) assms(4) [unfolded wolfssl_tls_port_def, simplified, unfolded wolfssl_tls_connect_def ob]]
  obtain ret m inp' ph' out where
    o: "socket_run Cbio_count CYASSL_CBIO_ERR_WANT_READ CYASSL_CBIO_ERR_WANT_WRITE (CyaSSL_connect lib obj (wp_lib l)) inp ph
      (ret, m) inp' ph' out" "channel context s' inp' ph'"
    and r: "(st, l') = (case cyassl_state lib obj ret m of
       SSL_ERROR_WANT_READ \<Rightarrow> (IOTC_BSP_TLS_STATE_WANT_READ, l\<lparr>wp_lib := m\<rparr>)
     | SSL_ERROR_WANT_WRITE \<Rightarrow> (IOTC_BSP_TLS_STATE_WANT_WRITE, l\<lparr>wp_lib := m\<rparr>)
     | SSL_SUCCESS \<Rightarrow> (IOTC_BSP_TLS_STATE_OK, l\<lparr>wp_lib := m\<rparr>)
     | Cyassl_failed e \<Rightarrow> (IOTC_BSP_TLS_STATE_CONNECT_ERROR, l\<lparr>wp_lib := CyaSSL_UnloadCertsKeys lib obj m\<rparr>))" by auto
  have "(st = IOTC_BSP_TLS_STATE_OK \<longleftrightarrow> ret > 0 \<or> CyaSSL_get_error lib obj ret m = SSL_SUCCESS)
    \<and> st \<noteq> IOTC_BSP_TLS_STATE_CERT_ERROR
    \<and> (st = IOTC_BSP_TLS_STATE_CONNECT_ERROR \<longrightarrow> wp_lib l' = CyaSSL_UnloadCertsKeys lib obj m)"
    using r by (cases "CyaSSL_get_error lib obj ret m") (auto simp: cyassl_state_def split: if_splits)
  with o show ?thesis by blast
qed

text \<open>
  C37. When wolfssl cannot make its context, the port reports the error but leaves a block behind whose object was never set: the cleanup with which the layer
  answers a failed initialisation passes that arbitrary value to \<^verbatim>\<open>CyaSSL_free\<close>.
\<close>

theorem wolfssl_cleanup_frees_unset_object:
  assumes "CyaSSL_Init lib (wp_lib s) = (True, m)" and "CyaSSL_SetAllocators lib m = (0, m1)"
    and "wolfSSL_Malloc lib m1 = (p, m2)" and "p \<noteq> NULL" and "CyaSSL_CTX_new lib m2 = (NULL, m3)"
  shows "\<exists>s1. iotc_bsp_tls_init (wolfssl_tls_port lib build verify) host cert s = (IOTC_BSP_TLS_STATE_INIT_ERROR, p, s1)
    \<and> wp_bad s1 = wp_bad s \<and> wp_bad (snd (iotc_bsp_tls_cleanup (wolfssl_tls_port lib build verify) p s1))"
  using assms by (simp add: wolfssl_tls_port_def wolfssl_tls_init_def wolfssl_tls_cleanup_def)

text \<open>Once the object is there the cleanup uses nothing that was not set.\<close>

lemma wolfssl_cleanup_of_object:
  assumes "wp_ctx s p = Some ctx" and "wp_obj s p = Some obj"
  shows "wp_bad (snd (wolfssl_tls_cleanup lib p s)) = wp_bad s" "fst (wolfssl_tls_cleanup lib p s) = NULL"
  using assms by (simp_all add: wolfssl_tls_cleanup_def Let_def)

lemma wolfssl_init_ok_object:
  assumes "wolfssl_tls_init lib build verify host cert s = (IOTC_BSP_TLS_STATE_OK, p, s1)"
  shows "p \<noteq> NULL \<and> (\<exists>ctx obj. ctx \<noteq> NULL \<and> obj \<noteq> NULL \<and> wp_ctx s1 p = Some ctx \<and> wp_obj s1 p = Some obj)"
  using assms unfolding wolfssl_tls_init_def by (auto simp: Let_def split: prod.splits if_splits)

section \<open>Instances\<close>

definition echo_mbedtls :: "unit mbedtls_ssl" where
  "echo_mbedtls = \<lparr>
     mbedtls_calloc = (\<lambda>m. (5, m)), mbedtls_ssl_init = (\<lambda>p m. m), mbedtls_ssl_config_init = (\<lambda>p m. m), mbedtls_entropy_init = (\<lambda>p m. m),
     mbedtls_ctr_drbg_init = (\<lambda>p m. m), mbedtls_ctr_drbg_seed = (\<lambda>p m. (0, m)), mbedtls_ssl_set_bio = (\<lambda>p m. m),
     mbedtls_ssl_config_defaults = (\<lambda>p m. (0, m)), mbedtls_ssl_conf_authmode = (\<lambda>p b m. m), mbedtls_x509_crt_init = (\<lambda>p m. m),
     mbedtls_x509_crt_parse = (\<lambda>p c m. (0, m)), mbedtls_ssl_conf_ca_chain = (\<lambda>p m. m), mbedtls_ssl_conf_rng = (\<lambda>p m. m),
     mbedtls_ssl_setup = (\<lambda>p m. (0, m)), mbedtls_ssl_set_hostname = (\<lambda>p h m. (0, m)),
     mbedtls_ssl_handshake = (\<lambda>p m. Io_return (Mbedtls_count 0, m)),
     mbedtls_ssl_read = (\<lambda>p n m. Io_recv n (\<lambda>(c, bs). Io_return (c, bs, m))),
     mbedtls_ssl_write = (\<lambda>p bs m. Io_send 88 bs (\<lambda>c. Io_return (c, m))), mbedtls_ssl_get_bytes_avail = (\<lambda>p m. 0),
     mbedtls_x509_crt_free = (\<lambda>p m. m), mbedtls_ssl_config_free = (\<lambda>p m. m), mbedtls_ssl_free = (\<lambda>p m. m), mbedtls_ctr_drbg_free = (\<lambda>p m. m),
     mbedtls_entropy_free = (\<lambda>p m. m), mbedtls_free = (\<lambda>p m. m)\<rparr>"

definition failing_cyassl :: "unit cyassl" where
  "failing_cyassl = \<lparr>
     CyaSSL_Init = (\<lambda>m. (True, m)), CyaSSL_SetAllocators = (\<lambda>m. (0, m)), wolfSSL_Malloc = (\<lambda>m. (5, m)), CyaSSL_CTX_new = (\<lambda>m. (NULL, m)),
     CyaSSL_SetIO = (\<lambda>p m. m), CyaSSL_CTX_set_verify = (\<lambda>p m. m), CyaSSL_new = (\<lambda>p m. (NULL, m)), CyaSSL_check_domain_name = (\<lambda>p h m. (True, m)),
     CyaSSL_UseSNI = (\<lambda>p h m. (True, m)), wolfSSL_UseOCSPStapling = (\<lambda>p m. (True, m)), wolfSSL_EnableOCSP = (\<lambda>p m. (True, m)),
     CyaSSL_SetIOCtx = (\<lambda>p m. m), CyaSSL_CTX_load_verify_buffer = (\<lambda>p c m. (True, m)),
     CyaSSL_connect = (\<lambda>p m. Io_recv 2 (\<lambda>a. Io_return (1, m))), CyaSSL_read = (\<lambda>p n m. Io_return (0, [], m)), CyaSSL_write = (\<lambda>p bs m. Io_return (0, m)),
     CyaSSL_get_error = (\<lambda>p r m. Cyassl_failed r), CyaSSL_pending = (\<lambda>p m. 0), CyaSSL_UnloadCertsKeys = (\<lambda>p m. m),
     CyaSSL_CTX_UnloadCAs = (\<lambda>p m. m), CyaSSL_free = (\<lambda>p m. m), CyaSSL_CTX_free = (\<lambda>p m. m), CyaSSL_Cleanup = (\<lambda>m. m), wolfSSL_Free = (\<lambda>p m. m)\<rparr>"

lemma example_connected_sys: "sys Map.empty [] (raw_blocks example_connected + {#70, 71#}) example_connected"
  using example_connected_ok(2) by (simp add: example_connected_def example_space_blocks)

theorem mbedtls_read_on_socket_witness:
  "\<exists>st bs l' s' inp' ph'. run_tls 42 (iotc_bsp_tls_read (mbedtls_tls_port echo_mbedtls True) 5 2 \<lparr>mp_lib = (), mp_bad = False\<rparr>) example_connected
      = ((st, bs, l'), s') \<and> st = IOTC_BSP_TLS_STATE_OK \<and> bs = [1, 2] \<and> channel 42 s' inp' ph'"
proof -
  obtain st bs l' s' where r: "run_tls 42 (iotc_bsp_tls_read (mbedtls_tls_port echo_mbedtls True) 5 2 \<lparr>mp_lib = (), mp_bad = False\<rparr>) example_connected
      = ((st, bs, l'), s')" by (metis surj_pair)
  from mbedtls_read_on_socket [OF example_connected_ok(1) example_connected_sys r] obtain code got m inp' ph' out where
    o: "socket_run Mbedtls_count MBEDTLS_ERR_SSL_WANT_READ MBEDTLS_ERR_SSL_WANT_WRITE (mbedtls_ssl_read echo_mbedtls 5 2 ()) [1, 2, 3]
      IOTC_TLS_LAYER_DATA_NONE (code, got, m) inp' ph' out" "channel 42 s' inp' ph'" by (simp only: mbedtls_context.simps) blast
  have "fst (fst (run_tls 42 (iotc_bsp_tls_read (mbedtls_tls_port echo_mbedtls True) 5 2 \<lparr>mp_lib = (), mp_bad = False\<rparr>) example_connected))
      = IOTC_BSP_TLS_STATE_OK \<and> fst (snd (fst (run_tls 42 (iotc_bsp_tls_read (mbedtls_tls_port echo_mbedtls True) 5 2
        \<lparr>mp_lib = (), mp_bad = False\<rparr>) example_connected))) = [1, 2]"
    by (simp add: mbedtls_tls_port_def mbedtls_tls_read_def echo_mbedtls_def iotc_mbedtls_recv_def iotc_bsp_tls_recv_callback_def
        example_connected_def example_buffer_def Let_def split: prod.splits)
  with r have "st = IOTC_BSP_TLS_STATE_OK" "bs = [1, 2]" by simp_all
  with r o(2) show ?thesis by blast
qed

theorem wolfssl_handshake_on_socket_witness:
  "\<exists>l' s'. run_tls 42 (iotc_bsp_tls_connect (wolfssl_tls_port failing_cyassl No_ocsp True) 5
      \<lparr>wp_lib = (), wp_ctx = (\<lambda>p. Some 6), wp_obj = (\<lambda>p. Some 7), wp_bad = False\<rparr>) example_connected = ((IOTC_BSP_TLS_STATE_OK, l'), s')"
proof -
  let ?l = "\<lparr>wp_lib = (), wp_ctx = (\<lambda>p. Some 6), wp_obj = (\<lambda>p. Some 7), wp_bad = False\<rparr>"
  obtain st l' s' where r: "run_tls 42 (iotc_bsp_tls_connect (wolfssl_tls_port failing_cyassl No_ocsp True) 5 ?l) example_connected
      = ((st, l'), s')" by (metis surj_pair)
  have ob: "wp_obj ?l 5 = Some 7" by simp
  from wolfssl_handshake_on_socket [OF example_connected_ok(1) example_connected_sys ob r] obtain ret m inp' ph' out where
    o: "socket_run Cbio_count CYASSL_CBIO_ERR_WANT_READ CYASSL_CBIO_ERR_WANT_WRITE (CyaSSL_connect failing_cyassl 7 ()) [1, 2, 3]
        IOTC_TLS_LAYER_DATA_NONE (ret, m) inp' ph' out"
      "st = IOTC_BSP_TLS_STATE_OK \<longleftrightarrow> ret > 0 \<or> CyaSSL_get_error failing_cyassl 7 ret m = SSL_SUCCESS" by auto
  have "ret = 1" using o(1) unfolding failing_cyassl_def by (auto elim!: socket_run.cases)
  with o(2) r show ?thesis by simp
qed

theorem wolfssl_cleanup_frees_unset_object_witness:
  "\<exists>s1. iotc_bsp_tls_init (wolfssl_tls_port failing_cyassl No_ocsp True) None []
        \<lparr>wp_lib = (), wp_ctx = Map.empty, wp_obj = Map.empty, wp_bad = False\<rparr> = (IOTC_BSP_TLS_STATE_INIT_ERROR, 5, s1)
    \<and> wp_bad (snd (iotc_bsp_tls_cleanup (wolfssl_tls_port failing_cyassl No_ocsp True) 5 s1))"
  using wolfssl_cleanup_frees_unset_object [of failing_cyassl "\<lparr>wp_lib = (), wp_ctx = Map.empty, wp_obj = Map.empty, wp_bad = False\<rparr>"
      "()" "()" 5 "()" "()" No_ocsp True None "[]"]
  by (auto simp: failing_cyassl_def)

end
