(* ===== verification/Iotc_Bsp_Posix.thy ===== *)
theory Iotc_Bsp_Posix
  imports Iotc_Fs
begin

text \<open>
  The files of a POSIX platform, \<^verbatim>\<open>src/bsp/platform/posix/iotc_bsp_io_fs_posix.c\<close>, with the functions of
  \<^verbatim>\<open>io/fs/posix/iotc_fs_posix.c\<close> that write and remove. The port keeps a list of the open files, each with a buffer that is allocated for
  the first read. The calls of the operating system are parameters; each of them returns its result and leaves an \<open>errno\<close>.
\<close>

section \<open>The operating system\<close>

datatype errno = EBADF | EACCES | EFAULT | ENOENT | ENOTDIR | ELOOP | EOVERFLOW | ENAMETOOLONG | ENOMEM | Errno int

record 'o posix_os =
  os_stat :: "string \<Rightarrow> 'o \<Rightarrow> int \<times> int \<times> errno \<times> 'o"
  os_open :: "string \<Rightarrow> bool \<Rightarrow> 'o \<Rightarrow> int \<times> errno \<times> 'o"
  os_lseek :: "int \<Rightarrow> nat \<Rightarrow> 'o \<Rightarrow> int \<times> errno \<times> 'o"
  os_read :: "int \<Rightarrow> nat \<Rightarrow> 'o \<Rightarrow> int \<times> byte list \<times> errno \<times> 'o"
  os_write :: "int \<Rightarrow> byte list \<Rightarrow> 'o \<Rightarrow> int \<times> errno \<times> 'o"
  os_close :: "int \<Rightarrow> 'o \<Rightarrow> int \<times> errno \<times> 'o"
  os_remove :: "string \<Rightarrow> 'o \<Rightarrow> int \<times> errno \<times> 'o"

section \<open>The list of open files\<close>

definition iotc_bsp_io_fs_buffer_size :: nat where "iotc_bsp_io_fs_buffer_size = 1024"
definition IOTC_BSP_IO_FS_INVALID_RESOURCE_HANDLE :: int where "IOTC_BSP_IO_FS_INVALID_RESOURCE_HANDLE = - 1"
definition sizeof_file_container :: nat where "sizeof_file_container = 24"

record file_container =
  fc_self :: ptr
  fc_fd :: int
  fc_buffer :: ptr

record 'o posix_files =
  px_files :: "file_container list"
  px_mem :: mem
  px_os :: 'o

definition iotc_bsp_io_fs_posix_errno_2_iotc_bsp_io_fs_state :: "errno \<Rightarrow> bsp_fs_state" where
  "iotc_bsp_io_fs_posix_errno_2_iotc_bsp_io_fs_state e =
     (case e of
        EBADF \<Rightarrow> IOTC_BSP_IO_FS_RESOURCE_NOT_AVAILABLE
      | EACCES \<Rightarrow> IOTC_BSP_IO_FS_RESOURCE_NOT_AVAILABLE
      | EFAULT \<Rightarrow> IOTC_BSP_IO_FS_RESOURCE_NOT_AVAILABLE
      | ENOENT \<Rightarrow> IOTC_BSP_IO_FS_RESOURCE_NOT_AVAILABLE
      | ENOTDIR \<Rightarrow> IOTC_BSP_IO_FS_RESOURCE_NOT_AVAILABLE
      | ELOOP \<Rightarrow> IOTC_BSP_IO_FS_ERROR
      | EOVERFLOW \<Rightarrow> IOTC_BSP_IO_FS_ERROR
      | ENAMETOOLONG \<Rightarrow> IOTC_BSP_IO_FS_INVALID_PARAMETER
      | ENOMEM \<Rightarrow> IOTC_BSP_IO_FS_OUT_OF_MEMORY
      | Errno _ \<Rightarrow> IOTC_BSP_IO_FS_ERROR)"

definition iotc_bsp_io_fs_posix_file_list_cnd :: "file_container \<Rightarrow> int \<Rightarrow> bool" where
  "iotc_bsp_io_fs_posix_file_list_cnd list_element fd \<longleftrightarrow> fc_fd list_element = fd"

definition find_file :: "int \<Rightarrow> file_container list \<Rightarrow> file_container option" where
  "find_file fd xs = find (\<lambda>x. iotc_bsp_io_fs_posix_file_list_cnd x fd) xs"

definition put_buffer :: "ptr \<Rightarrow> ptr \<Rightarrow> file_container list \<Rightarrow> file_container list" where
  "put_buffer p b xs = map (\<lambda>x. if fc_self x = p then x\<lparr>fc_buffer := b\<rparr> else x) xs"

definition on_px_mem :: "(mem \<Rightarrow> mem) \<Rightarrow> 'o posix_files \<Rightarrow> 'o posix_files" where
  "on_px_mem f s = s\<lparr>px_mem := f (px_mem s)\<rparr>"

definition px_undefined :: "bool \<Rightarrow> 'o posix_files \<Rightarrow> 'o posix_files" where
  "px_undefined b s = (if b then on_px_mem (\<lambda>m. m\<lparr>m_bad := True\<rparr>) s else s)"

section \<open>The operations\<close>

definition posix_io_fs_stat :: "'o posix_os \<Rightarrow> string \<Rightarrow> 'o posix_files \<Rightarrow> bsp_fs_state \<times> nat \<times> 'o posix_files" where
  "posix_io_fs_stat os resource_name s =
     (case os_stat os resource_name (px_os s) of (res, st_size, e, o1) \<Rightarrow>
        if res \<noteq> 0 then (iotc_bsp_io_fs_posix_errno_2_iotc_bsp_io_fs_state e, 0, s\<lparr>px_os := o1\<rparr>)
        else (IOTC_BSP_IO_FS_STATE_OK, to_size st_size, s\<lparr>px_os := o1\<rparr>))"

text \<open>The new entry is filled without a look at its address; a failed open is closed.\<close>

definition posix_io_fs_open :: "'o posix_os \<Rightarrow> string \<Rightarrow> nat \<Rightarrow> 'o posix_files \<Rightarrow> bsp_fs_state \<times> int option \<times> 'o posix_files" where
  "posix_io_fs_open os resource_name open_flags s =
     (if open_flags AND IOTC_FS_OPEN_APPEND = IOTC_FS_OPEN_APPEND then (IOTC_BSP_IO_FS_INVALID_PARAMETER, None, s)
      else
        (case os_open os resource_name (open_flags AND IOTC_FS_OPEN_READ \<noteq> 0) (px_os s) of (fd, e, o1) \<Rightarrow>
           if fd < 0 then
             (iotc_bsp_io_fs_posix_errno_2_iotc_bsp_io_fs_state e, Some IOTC_BSP_IO_FS_INVALID_RESOURCE_HANDLE,
              s\<lparr>px_os := snd (snd (os_close os fd o1))\<rparr>)
           else
             (case iotc_bsp_mem_alloc sizeof_file_container (px_mem s) of (p, m) \<Rightarrow>
                (IOTC_BSP_IO_FS_STATE_OK, Some fd,
                 px_undefined (p = NULL) (s\<lparr>px_os := o1, px_mem := m,
                   px_files := px_files s @ [\<lparr>fc_self = p, fc_fd = fd, fc_buffer = NULL\<rparr>]\<rparr>)))))"

text \<open>The end of a failed read, which uses the entry even when none was found.\<close>

definition posix_read_failed ::
    "bsp_fs_state \<Rightarrow> file_container option \<Rightarrow> 'o posix_files \<Rightarrow> bsp_fs_state \<times> (ptr \<times> nat \<times> byte list) option \<times> 'o posix_files" where
  "posix_read_failed ret elem s =
     (ret, None,
      (case elem of None \<Rightarrow> px_undefined True s
       | Some x \<Rightarrow> (on_px_mem (iotc_bsp_mem_free (fc_buffer x)) s)\<lparr>px_files := put_buffer (fc_self x) NULL (px_files s)\<rparr>))"

text \<open>A read gives the address of the buffer, the number of bytes that is reported and the bytes that were read.\<close>

definition posix_io_fs_read ::
    "'o posix_os \<Rightarrow> int \<Rightarrow> nat \<Rightarrow> 'o posix_files \<Rightarrow> bsp_fs_state \<times> (ptr \<times> nat \<times> byte list) option \<times> 'o posix_files" where
  "posix_io_fs_read os resource_handle offset s =
     (if resource_handle = IOTC_BSP_IO_FS_INVALID_RESOURCE_HANDLE then (IOTC_BSP_IO_FS_INVALID_PARAMETER, None, s)
      else
        (let fd = to_int32 resource_handle
         in case find_file fd (px_files s) of
              None \<Rightarrow> posix_read_failed IOTC_BSP_IO_FS_RESOURCE_NOT_AVAILABLE None s
            | Some x \<Rightarrow>
                (case (if fc_buffer x = NULL then iotc_bsp_mem_alloc iotc_bsp_io_fs_buffer_size (px_mem s) else (fc_buffer x, px_mem s)) of
                   (b, m) \<Rightarrow>
                   (let x1 = x\<lparr>fc_buffer := b\<rparr>;
                        s1 = px_undefined (b = NULL) (s\<lparr>px_mem := m, px_files := put_buffer (fc_self x) b (px_files s)\<rparr>)
                    in case os_lseek os fd offset (px_os s1) of (r, e, o1) \<Rightarrow>
                         (let s2 = s1\<lparr>px_os := o1\<rparr>; fop_ret = to_int32 r
                          in if fop_ret < 0 \<or> int (to_u32 (nat (fop_ret mod 2 ^ 32))) \<noteq> int offset
                             then posix_read_failed (iotc_bsp_io_fs_posix_errno_2_iotc_bsp_io_fs_state e) (Some x1) s2
                             else (case os_read os fd iotc_bsp_io_fs_buffer_size (px_os s2) of (r, bs, e, o2) \<Rightarrow>
                               (let s3 = s2\<lparr>px_os := o2\<rparr>; fop_ret = to_int32 r
                                in if fop_ret = 0
                                   then posix_read_failed (iotc_bsp_io_fs_posix_errno_2_iotc_bsp_io_fs_state e) (Some x1) s3
                                   else (IOTC_BSP_IO_FS_STATE_OK, Some (b, to_size fop_ret, bs), s3))))))))"

definition posix_io_fs_write ::
    "'o posix_os \<Rightarrow> int \<Rightarrow> byte list \<Rightarrow> nat \<Rightarrow> 'o posix_files \<Rightarrow> bsp_fs_state \<times> nat option \<times> 'o posix_files" where
  "posix_io_fs_write os resource_handle buffer offset s =
     (if buffer = [] \<or> resource_handle = IOTC_BSP_IO_FS_INVALID_RESOURCE_HANDLE then (IOTC_BSP_IO_FS_INVALID_PARAMETER, None, s)
      else
        (let fd = to_int32 resource_handle
         in case find_file fd (px_files s) of
              None \<Rightarrow> (IOTC_BSP_IO_FS_RESOURCE_NOT_AVAILABLE, None, s)
            | Some x \<Rightarrow>
                (case os_lseek os fd offset (px_os s) of (r, e, o1) \<Rightarrow>
                   (let fop_ret = to_int32 r
                    in if fop_ret < 0 \<or> int (to_u32 (nat (fop_ret mod 2 ^ 32))) \<noteq> int offset
                       then (iotc_bsp_io_fs_posix_errno_2_iotc_bsp_io_fs_state e, None, s\<lparr>px_os := o1\<rparr>)
                       else (case os_write os fd buffer o1 of (r, e, o2) \<Rightarrow>
                         (if length buffer \<noteq> to_size r then iotc_bsp_io_fs_posix_errno_2_iotc_bsp_io_fs_state e
                          else IOTC_BSP_IO_FS_STATE_OK, Some (to_size r), s\<lparr>px_os := o2\<rparr>))))))"

definition posix_io_fs_close :: "'o posix_os \<Rightarrow> int \<Rightarrow> 'o posix_files \<Rightarrow> bsp_fs_state \<times> 'o posix_files" where
  "posix_io_fs_close os resource_handle s =
     (if resource_handle = IOTC_BSP_IO_FS_INVALID_RESOURCE_HANDLE then (IOTC_BSP_IO_FS_INVALID_PARAMETER, s)
      else
        (let fd = to_int32 resource_handle
         in case find_file fd (px_files s) of
              None \<Rightarrow> (IOTC_BSP_IO_FS_RESOURCE_NOT_AVAILABLE, s)
            | Some x \<Rightarrow>
                (let s1 = s\<lparr>px_files := filter (\<lambda>y. fc_self y \<noteq> fc_self x) (px_files s)\<rparr>
                 in case os_close os fd (px_os s1) of (r, e, o1) \<Rightarrow>
                      (if r \<noteq> 0 then iotc_bsp_io_fs_posix_errno_2_iotc_bsp_io_fs_state e else IOTC_BSP_IO_FS_STATE_OK,
                       on_px_mem (\<lambda>m. iotc_bsp_mem_free (fc_self x) (iotc_bsp_mem_free (fc_buffer x) m)) (s1\<lparr>px_os := o1\<rparr>)))))"

text \<open>The result of \<^verbatim>\<open>remove\<close> itself is the state when it succeeds, and that is 0.\<close>

definition posix_io_fs_remove :: "'o posix_os \<Rightarrow> string \<Rightarrow> 'o posix_files \<Rightarrow> bsp_fs_state \<times> 'o posix_files" where
  "posix_io_fs_remove os resource_name s =
     (case os_remove os resource_name (px_os s) of (r, e, o1) \<Rightarrow>
        (if r \<noteq> 0 then iotc_bsp_io_fs_posix_errno_2_iotc_bsp_io_fs_state e else IOTC_BSP_IO_FS_STATE_OK, s\<lparr>px_os := o1\<rparr>))"

text \<open>The port as the platform of the file system: whoever looks at more bytes than the buffer has reads outside of it.\<close>

definition posix_bsp_fs :: "'o posix_os \<Rightarrow> 'o posix_files bsp_fs" where
  "posix_bsp_fs os = \<lparr>
     iotc_bsp_io_fs_stat = posix_io_fs_stat os,
     iotc_bsp_io_fs_open = posix_io_fs_open os,
     iotc_bsp_io_fs_read = (\<lambda>h offset s. case posix_io_fs_read os h offset s of (st, c, s1) \<Rightarrow>
       (st, map_option (\<lambda>(p, n, bs). (p, bs)) c,
        px_undefined (case c of None \<Rightarrow> False | Some (p, n, bs) \<Rightarrow> iotc_bsp_io_fs_buffer_size < n) s1)),
     iotc_bsp_io_fs_close = posix_io_fs_close os\<rparr>"

text \<open>Writing and removing on the level of the library.\<close>

definition posix_fs_write :: "'o posix_os \<Rightarrow> int \<Rightarrow> byte list \<Rightarrow> nat \<Rightarrow> 'o posix_files \<Rightarrow> iotc_state \<times> nat option \<times> 'o posix_files" where
  "posix_fs_write os resource_handle buffer offset s =
     (case posix_io_fs_write os resource_handle buffer offset s of (st, n, s1) \<Rightarrow> (iotc_fs_bsp_io_fs_2_iotc_state st, n, s1))"

definition posix_fs_remove :: "'o posix_os \<Rightarrow> fs_resource_type \<Rightarrow> string \<Rightarrow> 'o posix_files \<Rightarrow> iotc_state \<times> 'o posix_files" where
  "posix_fs_remove os resource_type resource_name s =
     (case posix_io_fs_remove os resource_name s of (st, s1) \<Rightarrow> (iotc_fs_bsp_io_fs_2_iotc_state st, s1))"

section \<open>A file is opened, read and closed\<close>

lemma find_file_none: "\<forall>x\<in>set xs. fc_fd x \<noteq> fd \<Longrightarrow> find_file fd xs = None"
  by (simp add: find_file_def iotc_bsp_io_fs_posix_file_list_cnd_def find_None_iff)

lemma find_file_last: "\<forall>x\<in>set xs. fc_fd x \<noteq> fd \<Longrightarrow> fc_fd y = fd \<Longrightarrow> find_file fd (xs @ [y]) = Some y"
  by (induction xs) (auto simp: find_file_def iotc_bsp_io_fs_posix_file_list_cnd_def)

lemma put_buffer_last: "\<forall>x\<in>set xs. fc_self x \<noteq> fc_self y \<Longrightarrow> put_buffer (fc_self y) b (xs @ [y]) = xs @ [y\<lparr>fc_buffer := b\<rparr>]"
  by (induction xs) (auto simp: put_buffer_def)

text \<open>A list of open files whose entries are live.\<close>

definition px_ok :: "'o posix_files \<Rightarrow> bool" where
  "px_ok s \<longleftrightarrow> wf_mem (px_mem s) \<and> \<not> m_bad (px_mem s) \<and> (\<forall>i n. m_ok (px_mem s) i n)
     \<and> (\<forall>x\<in>set (px_files s). m_live (px_mem s) (fc_self x) \<noteq> None)"

text \<open>The states between the calls, for the next address of the heap.\<close>

definition px_opened :: "'o posix_files \<Rightarrow> int \<Rightarrow> 'o \<Rightarrow> 'o posix_files" where
  "px_opened s fd o1 =
     (let m = px_mem s; p = m_next m
      in s\<lparr>px_os := o1, px_files := px_files s @ [\<lparr>fc_self = p, fc_fd = fd, fc_buffer = NULL\<rparr>],
           px_mem := m\<lparr>m_next := Suc p, m_live := (m_live m)(p \<mapsto> sizeof_file_container), m_seq := Suc (m_seq m)\<rparr>\<rparr>)"

definition px_buffered :: "'o posix_files \<Rightarrow> int \<Rightarrow> 'o \<Rightarrow> 'o posix_files" where
  "px_buffered s fd o1 =
     (let m = px_mem s; p = m_next m
      in s\<lparr>px_os := o1, px_files := px_files s @ [\<lparr>fc_self = p, fc_fd = fd, fc_buffer = Suc p\<rparr>],
           px_mem := m\<lparr>m_next := Suc (Suc p), m_live := (m_live m)(p \<mapsto> sizeof_file_container, Suc p \<mapsto> iotc_bsp_io_fs_buffer_size),
             m_seq := Suc (Suc (m_seq m))\<rparr>\<rparr>)"

lemma px_ok_next:
  assumes "px_ok s"
  shows "m_next (px_mem s) \<noteq> NULL" "m_live (px_mem s) (m_next (px_mem s)) = None" "m_live (px_mem s) (Suc (m_next (px_mem s))) = None"
    "\<forall>x\<in>set (px_files s). fc_self x \<noteq> m_next (px_mem s)"
  using assms by (auto simp: px_ok_def wf_mem_def)

lemma posix_open_run:
  assumes "px_ok s" and "os_open os name True (px_os s) = (fd, e, o1)" and "0 \<le> fd"
  shows "posix_io_fs_open os name IOTC_FS_OPEN_READ s = (IOTC_BSP_IO_FS_STATE_OK, Some fd, px_opened s fd o1)"
  using assms px_ok_next [OF assms(1)]
  by (simp add: posix_io_fs_open_def IOTC_FS_OPEN_READ_def IOTC_FS_OPEN_APPEND_def iotc_bsp_mem_alloc_def px_ok_def px_undefined_def
      px_opened_def Let_def)

lemma posix_read_run:
  assumes "px_ok s" and "\<forall>x\<in>set (px_files s). fc_fd x \<noteq> fd" and "0 \<le> fd" "fd < 2 ^ 31"
    and "os_lseek os fd offset o1 = (int offset, e1, o2)" and "offset < 2 ^ 31"
    and "os_read os fd iotc_bsp_io_fs_buffer_size o2 = (r, bs, e2, o3)" and "to_int32 r \<noteq> 0"
  shows "posix_io_fs_read os fd offset (px_opened s fd o1)
    = (IOTC_BSP_IO_FS_STATE_OK, Some (Suc (m_next (px_mem s)), to_size (to_int32 r), bs), px_buffered s fd o3)"
proof -
  note n = px_ok_next [OF assms(1)]
  have f: "find_file fd (px_files (px_opened s fd o1)) = Some \<lparr>fc_self = m_next (px_mem s), fc_fd = fd, fc_buffer = NULL\<rparr>"
    using find_file_last [OF assms(2)] by (simp add: px_opened_def Let_def)
  have u: "put_buffer (m_next (px_mem s)) b (px_files (px_opened s fd o1))
      = px_files s @ [\<lparr>fc_self = m_next (px_mem s), fc_fd = fd, fc_buffer = b\<rparr>]" for b
    using put_buffer_last [of "px_files s" "\<lparr>fc_self = m_next (px_mem s), fc_fd = fd, fc_buffer = NULL\<rparr>"] n(4)
    by (simp add: px_opened_def Let_def)
  have al: "iotc_bsp_mem_alloc iotc_bsp_io_fs_buffer_size (px_mem (px_opened s fd o1)) = (Suc (m_next (px_mem s)), px_mem (px_buffered s fd o1))"
    using assms(1) by (simp add: iotc_bsp_mem_alloc_def px_opened_def px_buffered_def Let_def px_ok_def)
  have i: "to_int32 fd = fd" "to_int32 (int offset) = int offset" "to_u32 offset = offset" "int offset mod 4294967296 = int offset"
    using assms(3,4,6) by (simp_all add: to_int32_def to_u32_def)
  have sk: "os_lseek os fd offset (px_os (px_opened s fd o1)) = (int offset, e1, o2)" using assms(5) by (simp add: px_opened_def Let_def)
  have e: "fd \<noteq> IOTC_BSP_IO_FS_INVALID_RESOURCE_HANDLE" using assms(3) by (simp add: IOTC_BSP_IO_FS_INVALID_RESOURCE_HANDLE_def)
  have fin: "(px_opened s fd o1)\<lparr>px_mem := px_mem (px_buffered s fd o1),
      px_files := px_files s @ [\<lparr>fc_self = m_next (px_mem s), fc_fd = fd, fc_buffer = Suc (m_next (px_mem s))\<rparr>], px_os := o3\<rparr> = px_buffered s fd o3"
    by (simp add: px_opened_def px_buffered_def Let_def)
  show ?thesis
    using e assms(7,8) by (simp add: posix_io_fs_read_def Let_def i f al u sk px_undefined_def flip: fin)
qed

lemma posix_close_run:
  assumes "px_ok s" and "\<forall>x\<in>set (px_files s). fc_fd x \<noteq> fd" and "0 \<le> fd" "fd < 2 ^ 31" and "os_close os fd o1 = (0, e, o2)"
  shows "\<exists>m. posix_io_fs_close os fd (px_buffered s fd o1) = (IOTC_BSP_IO_FS_STATE_OK, s\<lparr>px_os := o2, px_mem := m\<rparr>)
    \<and> m_live m = m_live (px_mem s) \<and> \<not> m_bad m"
proof -
  note n = px_ok_next [OF assms(1)]
  have f: "find_file fd (px_files (px_buffered s fd o1)) = Some \<lparr>fc_self = m_next (px_mem s), fc_fd = fd, fc_buffer = Suc (m_next (px_mem s))\<rparr>"
    using find_file_last [OF assms(2)] by (simp add: px_buffered_def Let_def)
  have d: "filter (\<lambda>y. fc_self y \<noteq> m_next (px_mem s)) (px_files (px_buffered s fd o1)) = px_files s"
    using n(4) by (simp add: px_buffered_def Let_def filter_id_conv)
  have i: "to_int32 fd = fd" "fd \<noteq> IOTC_BSP_IO_FS_INVALID_RESOURCE_HANDLE"
    using assms(3,4) by (simp_all add: to_int32_def IOTC_BSP_IO_FS_INVALID_RESOURCE_HANDLE_def)
  let ?m = "iotc_bsp_mem_free (m_next (px_mem s)) (iotc_bsp_mem_free (Suc (m_next (px_mem s))) (px_mem (px_buffered s fd o1)))"
  have o: "px_os (px_buffered s fd o1) = o1" by (simp add: px_buffered_def Let_def)
  have fin: "(px_buffered s fd o1)\<lparr>px_files := px_files s, px_os := o2, px_mem := m\<rparr> = s\<lparr>px_os := o2, px_mem := m\<rparr>" for m
    by (simp add: px_buffered_def Let_def)
  have "posix_io_fs_close os fd (px_buffered s fd o1) = (IOTC_BSP_IO_FS_STATE_OK, s\<lparr>px_os := o2, px_mem := ?m\<rparr>)"
    using assms(5) i by (simp add: posix_io_fs_close_def Let_def f d on_px_mem_def o flip: fin)
  moreover have "m_live ?m = m_live (px_mem s)" "\<not> m_bad ?m"
    using n assms(1) by (auto simp: iotc_bsp_mem_free_def px_buffered_def Let_def px_ok_def fun_eq_iff)
  ultimately show ?thesis by blast
qed

text \<open>
  A file that is opened, read at an offset and closed again gives the bytes that the operating system read, with the handle that it chose, and leaves the
  list of open files and the heap as they were.
\<close>

theorem posix_file_session:
  assumes "px_ok s" and "\<forall>x\<in>set (px_files s). fc_fd x \<noteq> fd" and "0 \<le> fd" "fd < 2 ^ 31"
    and "os_open os name True (px_os s) = (fd, e1, o1)" and "os_lseek os fd offset o1 = (int offset, e2, o2)" and "offset < 2 ^ 31"
    and "os_read os fd iotc_bsp_io_fs_buffer_size o2 = (int (length bs), bs, e3, o3)" and "bs \<noteq> []" "length bs \<le> iotc_bsp_io_fs_buffer_size"
    and "os_close os fd o3 = (0, e4, o4)"
  shows "\<exists>s1 p s2 m. iotc_bsp_io_fs_open (posix_bsp_fs os) name IOTC_FS_OPEN_READ s = (IOTC_BSP_IO_FS_STATE_OK, Some fd, s1)
    \<and> iotc_bsp_io_fs_read (posix_bsp_fs os) fd offset s1 = (IOTC_BSP_IO_FS_STATE_OK, Some (p, bs), s2)
    \<and> iotc_bsp_io_fs_close (posix_bsp_fs os) fd s2 = (IOTC_BSP_IO_FS_STATE_OK, s\<lparr>px_os := o4, px_mem := m\<rparr>)
    \<and> m_live m = m_live (px_mem s) \<and> \<not> m_bad m"
proof -
  have r: "to_int32 (int (length bs)) = int (length bs)" "to_size (int (length bs)) = length bs"
    using assms(10) by (simp_all add: to_int32_def to_size_def iotc_bsp_io_fs_buffer_size_def)
  note rd = posix_read_run [OF assms(1-4) assms(6,7,8)]
  from posix_close_run [OF assms(1-4,11)] obtain m where
    c: "posix_io_fs_close os fd (px_buffered s fd o3) = (IOTC_BSP_IO_FS_STATE_OK, s\<lparr>px_os := o4, px_mem := m\<rparr>)"
    "m_live m = m_live (px_mem s)" "\<not> m_bad m" by blast
  have "iotc_bsp_io_fs_open (posix_bsp_fs os) name IOTC_FS_OPEN_READ s = (IOTC_BSP_IO_FS_STATE_OK, Some fd, px_opened s fd o1)"
    using posix_open_run [OF assms(1,5,3)] by (simp add: posix_bsp_fs_def)
  moreover have "iotc_bsp_io_fs_read (posix_bsp_fs os) fd offset (px_opened s fd o1)
      = (IOTC_BSP_IO_FS_STATE_OK, Some (Suc (m_next (px_mem s)), bs), px_buffered s fd o3)"
    using rd assms(9,10) by (simp add: posix_bsp_fs_def r px_undefined_def)
  moreover have "iotc_bsp_io_fs_close (posix_bsp_fs os) fd (px_buffered s fd o3) = (IOTC_BSP_IO_FS_STATE_OK, s\<lparr>px_os := o4, px_mem := m\<rparr>)"
    using c(1) by (simp add: posix_bsp_fs_def)
  ultimately show ?thesis using c(2,3) by blast
qed

text \<open>
  When the operating system cannot read, the answer is OK with a size of \<open>2 ^ 64 - 1\<close> bytes: only a result of 0 is taken for an error. Whoever copies that many
  bytes reads outside of the buffer.
\<close>

theorem posix_read_error_is_data:
  assumes "px_ok s" and "\<forall>x\<in>set (px_files s). fc_fd x \<noteq> fd" and "0 \<le> fd" "fd < 2 ^ 31"
    and "os_open os name True (px_os s) = (fd, e1, o1)" and "os_lseek os fd offset o1 = (int offset, e2, o2)" and "offset < 2 ^ 31"
    and "os_read os fd iotc_bsp_io_fs_buffer_size o2 = (- 1, [], e3, o3)"
  shows "\<exists>s1 p s2. posix_io_fs_open os name IOTC_FS_OPEN_READ s = (IOTC_BSP_IO_FS_STATE_OK, Some fd, s1)
    \<and> posix_io_fs_read os fd offset s1 = (IOTC_BSP_IO_FS_STATE_OK, Some (p, 2 ^ 64 - 1, []), s2)
    \<and> m_live (px_mem s2) p = Some iotc_bsp_io_fs_buffer_size"
proof -
  have r: "to_int32 (- 1) = - 1" "to_size (- 1) = 2 ^ 64 - 1" by (simp_all add: to_int32_def to_size_def)
  have "m_live (px_mem (px_buffered s fd o3)) (Suc (m_next (px_mem s))) = Some iotc_bsp_io_fs_buffer_size"
    by (simp add: px_buffered_def Let_def)
  with posix_open_run [OF assms(1,5,3)] posix_read_run [OF assms(1-4) assms(6,7,8)] show ?thesis by (simp add: r)
qed

text \<open>A read of a file that is not open uses an entry that was not found.\<close>

lemma posix_read_not_open:
  assumes "\<forall>x\<in>set (px_files s). fc_fd x \<noteq> to_int32 h" and "h \<noteq> IOTC_BSP_IO_FS_INVALID_RESOURCE_HANDLE"
  shows "m_bad (px_mem (snd (snd (posix_io_fs_read os h offset s))))"
  using assms by (simp add: posix_io_fs_read_def Let_def find_file_none posix_read_failed_def px_undefined_def on_px_mem_def)

definition example_os :: "byte list \<Rightarrow> int \<Rightarrow> unit posix_os" where
  "example_os bs r = \<lparr>os_stat = (\<lambda>n w. (0, int (length bs), Errno 0, w)), os_open = (\<lambda>n b w. (3, Errno 0, w)), os_lseek = (\<lambda>fd k w. (int k, Errno 0, w)),
     os_read = (\<lambda>fd n w. (r, bs, Errno 5, w)), os_write = (\<lambda>fd b w. (int (length b), Errno 0, w)), os_close = (\<lambda>fd w. (0, Errno 0, w)),
     os_remove = (\<lambda>n w. (0, Errno 0, w))\<rparr>"

definition no_files :: "unit posix_files" where
  "no_files = \<lparr>px_files = [], px_mem = empty_mem (\<lambda>i n. True), px_os = ()\<rparr>"

lemma no_files_ok: "px_ok no_files"
  by (simp add: px_ok_def no_files_def) (simp add: empty_mem_def)

theorem posix_file_session_witness:
  "\<exists>s1 p s2 m. iotc_bsp_io_fs_open (posix_bsp_fs (example_os [1, 2] 2)) ''f'' IOTC_FS_OPEN_READ no_files = (IOTC_BSP_IO_FS_STATE_OK, Some 3, s1)
    \<and> iotc_bsp_io_fs_read (posix_bsp_fs (example_os [1, 2] 2)) 3 0 s1 = (IOTC_BSP_IO_FS_STATE_OK, Some (p, [1, 2]), s2)
    \<and> iotc_bsp_io_fs_close (posix_bsp_fs (example_os [1, 2] 2)) 3 s2 = (IOTC_BSP_IO_FS_STATE_OK, no_files\<lparr>px_os := (), px_mem := m\<rparr>)
    \<and> m_live m = m_live (px_mem no_files) \<and> \<not> m_bad m"
  by (rule posix_file_session [OF no_files_ok, where ?o1.0 = "()" and ?o2.0 = "()" and ?o3.0 = "()" and ?e1.0 = "Errno 0" and ?e2.0 = "Errno 0" and ?e3.0 = "Errno 5" and ?e4.0 = "Errno 0"])
     (simp_all add: no_files_def example_os_def iotc_bsp_io_fs_buffer_size_def)

theorem posix_read_error_is_data_witness:
  "\<exists>s1 p s2. posix_io_fs_open (example_os [] (- 1)) ''f'' IOTC_FS_OPEN_READ no_files = (IOTC_BSP_IO_FS_STATE_OK, Some 3, s1)
    \<and> posix_io_fs_read (example_os [] (- 1)) 3 0 s1 = (IOTC_BSP_IO_FS_STATE_OK, Some (p, 2 ^ 64 - 1, []), s2)
    \<and> m_live (px_mem s2) p = Some iotc_bsp_io_fs_buffer_size"
  by (rule posix_read_error_is_data [OF no_files_ok, where ?o1.0 = "()" and ?o2.0 = "()" and ?o3.0 = "()" and ?e1.0 = "Errno 0" and ?e2.0 = "Errno 0" and ?e3.0 = "Errno 5"])
     (simp_all add: no_files_def example_os_def)

end
