(* ===== verification/Iotc_Bsp_Posix_Net.thy ===== *)
theory Iotc_Bsp_Posix_Net
  imports Iotc_Io_Net Iotc_Event_Loop
begin

text \<open>
  The sockets of a POSIX platform, \<^verbatim>\<open>src/bsp/platform/posix/iotc_bsp_io_net_posix.c\<close>: an instance of the world that the layer of the
  sockets calls and of the function with which the event loop waits. What the operating system answers to the \<open>i\<close>-th call is a
  parameter. A null pointer is never passed.
\<close>

section \<open>The operating system\<close>

datatype ai_family = AF_INET | AF_INET6 | AF_other int

datatype socket_errno = EAGAIN | ECONNRESET | EPIPE | EINPROGRESS | Socket_errno int

record posix_sockets =
  sk_getaddrinfo :: "nat \<Rightarrow> cstr \<Rightarrow> ai_family list option"
  sk_socket :: "nat \<Rightarrow> nat \<Rightarrow> int"
  sk_set_nonblocking :: "nat \<Rightarrow> int \<Rightarrow> int"
  sk_connect :: "nat \<Rightarrow> int \<Rightarrow> nat \<Rightarrow> int \<times> socket_errno"
  sk_so_error :: "nat \<Rightarrow> int \<Rightarrow> int option"
  sk_write :: "nat \<Rightarrow> int \<Rightarrow> byte list \<Rightarrow> int \<times> socket_errno"
  sk_read :: "nat \<Rightarrow> int \<Rightarrow> nat \<Rightarrow> int \<times> byte list \<times> socket_errno"
  sk_select :: "nat \<Rightarrow> int list \<Rightarrow> int list \<Rightarrow> int list \<Rightarrow> int \<Rightarrow> int \<times> int list \<times> int list \<times> int list"

section \<open>Connecting\<close>

text \<open>
  The loop over the addresses. The result is the state, the socket in the variable of the caller, the sockets that are open, and
  whether the list of the addresses was released.
\<close>

fun connect_loop :: "posix_sockets \<Rightarrow> nat \<Rightarrow> nat \<Rightarrow> nat \<Rightarrow> ai_family list \<Rightarrow> int \<Rightarrow> int list \<Rightarrow> net_state \<times> int \<times> int list \<times> bool" where
  "connect_loop os i port k [] sock opened = (IOTC_BSP_IO_NET_STATE_ERROR, sock, opened, True)"
| "connect_loop os i port k (rp # rest) sock opened =
     (let fd = sk_socket os i k
      in if fd = - 1 then connect_loop os i port (Suc k) rest fd opened
         else if sk_set_nonblocking os i fd = - 1 then (IOTC_BSP_IO_NET_STATE_ERROR, fd, fd # opened, True)
         else (case rp of
             AF_other _ \<Rightarrow> (IOTC_BSP_IO_NET_STATE_ERROR, fd, fd # opened, False)
           | _ \<Rightarrow>
               (case sk_connect os i fd port of (status, e) \<Rightarrow>
                  if status \<noteq> - 1 \<or> e = EINPROGRESS then (IOTC_BSP_IO_NET_STATE_OK, fd, fd # opened, True)
                  else connect_loop os i port (Suc k) rest fd opened)))"

definition posix_io_net_socket_connect ::
    "posix_sockets \<Rightarrow> nat \<Rightarrow> cstr \<Rightarrow> nat \<Rightarrow> int \<Rightarrow> int list \<Rightarrow> net_state \<times> int \<times> int list \<times> bool" where
  "posix_io_net_socket_connect os i host port sock opened =
     (case sk_getaddrinfo os i host of
        None \<Rightarrow> (IOTC_BSP_IO_NET_STATE_ERROR, sock, opened, True)
      | Some result \<Rightarrow> connect_loop os i port 0 result sock opened)"

definition posix_io_net_connection_check :: "posix_sockets \<Rightarrow> nat \<Rightarrow> int \<Rightarrow> net_state" where
  "posix_io_net_connection_check os i fd =
     (case sk_so_error os i fd of
        None \<Rightarrow> IOTC_BSP_IO_NET_STATE_ERROR
      | Some valopt \<Rightarrow> if valopt \<noteq> 0 then IOTC_BSP_IO_NET_STATE_ERROR else IOTC_BSP_IO_NET_STATE_OK)"

definition io_net_failure :: "socket_errno \<Rightarrow> net_state" where
  "io_net_failure errval =
     (if errval = EAGAIN then IOTC_BSP_IO_NET_STATE_BUSY
      else if errval = ECONNRESET \<or> errval = EPIPE then IOTC_BSP_IO_NET_STATE_CONNECTION_RESET
      else IOTC_BSP_IO_NET_STATE_ERROR)"

text \<open>The number of written bytes is 0 before the call.\<close>

definition posix_io_net_write :: "posix_sockets \<Rightarrow> nat \<Rightarrow> int \<Rightarrow> byte list \<Rightarrow> net_state \<times> int" where
  "posix_io_net_write os i fd buf =
     (case sk_so_error os i fd of
        None \<Rightarrow> (IOTC_BSP_IO_NET_STATE_ERROR, 0)
      | Some errval \<Rightarrow>
          if errval \<noteq> 0 then (IOTC_BSP_IO_NET_STATE_ERROR, 0)
          else (case sk_write os i fd buf of (r, e) \<Rightarrow>
            (let out_written_count = to_int32 r
             in if out_written_count < 0 then (io_net_failure e, 0) else (IOTC_BSP_IO_NET_STATE_OK, out_written_count))))"

definition posix_io_net_read :: "posix_sockets \<Rightarrow> nat \<Rightarrow> int \<Rightarrow> nat \<Rightarrow> net_state \<times> byte list" where
  "posix_io_net_read os i fd n =
     (case sk_read os i fd n of (r, bs, e) \<Rightarrow>
        (let out_read_count = to_int32 r
         in if out_read_count < 0 then (io_net_failure e, [])
            else if out_read_count = 0 then (IOTC_BSP_IO_NET_STATE_CONNECTION_RESET, [])
            else (IOTC_BSP_IO_NET_STATE_OK, take (nat out_read_count) bs)))"

definition posix_io_net_close_socket :: "int \<Rightarrow> int list \<Rightarrow> net_state \<times> int \<times> int list" where
  "posix_io_net_close_socket fd opened = (IOTC_BSP_IO_NET_STATE_OK, 0, removeAll fd opened)"

text \<open>The port as the world that the layer of the sockets calls.\<close>

definition posix_world :: "posix_sockets \<Rightarrow> net_world" where
  "posix_world os = \<lparr>nw_seq = 0,
     nw_connect = (\<lambda>i host port. case posix_io_net_socket_connect os i host port 0 [] of (st, fd, opened, released) \<Rightarrow> (st, fd)),
     nw_check = posix_io_net_connection_check os, nw_write = posix_io_net_write os, nw_read = posix_io_net_read os,
     nw_sent = [], nw_closed = []\<rparr>"

section \<open>Waiting\<close>

definition FD_SETSIZE :: int where "FD_SETSIZE = 1024"

definition want_read_set :: "socket_events list \<Rightarrow> int list" where
  "want_read_set es = map iotc_socket (filter in_socket_want_read es)"

definition want_write_set :: "socket_events list \<Rightarrow> int list" where
  "want_write_set es = map iotc_socket (filter (\<lambda>e. in_socket_want_write e \<or> in_socket_want_connect e) es)"

definition want_error_set :: "socket_events list \<Rightarrow> int list" where
  "want_error_set es = map iotc_socket (filter in_socket_want_error es)"

definition report_events :: "int list \<Rightarrow> int list \<Rightarrow> int list \<Rightarrow> socket_events \<Rightarrow> socket_events" where
  "report_events rfds wfds efds e =
     (let e1 = (if iotc_socket e \<in> set rfds then e\<lparr>out_socket_can_read := True\<rparr> else e);
          e2 = (if iotc_socket e \<in> set wfds
                then e1\<lparr>out_socket_connect_finished := (out_socket_connect_finished e1 \<or> in_socket_want_connect e1),
                        out_socket_can_write := (out_socket_can_write e1 \<or> in_socket_want_write e1)\<rparr>
                else e1)
      in if iotc_socket e \<in> set efds then e2\<lparr>out_socket_error := True\<rparr> else e2)"

text \<open>A socket that does not fit a set of descriptors is stored outside of it: that is the first component of the result.\<close>

definition posix_io_net_select :: "posix_sockets \<Rightarrow> nat \<Rightarrow> socket_events list \<Rightarrow> int \<Rightarrow> bool \<times> net_state \<times> socket_events list" where
  "posix_io_net_select os i es timeout_sec =
     (let rfds = want_read_set es; wfds = want_write_set es; efds = want_error_set es;
          bad = (\<exists>fd\<in>set (rfds @ wfds @ efds). fd < 0 \<or> FD_SETSIZE \<le> fd)
      in case sk_select os i rfds wfds efds timeout_sec of (result, r, w, x) \<Rightarrow>
           if 0 < result then (bad, IOTC_BSP_IO_NET_STATE_OK, map (report_events r w x) es)
           else if result = 0 then (bad, IOTC_BSP_IO_NET_STATE_TIMEOUT, es)
           else (bad, IOTC_BSP_IO_NET_STATE_ERROR, es))"

definition posix_select :: "posix_sockets \<Rightarrow> select_fn" where
  "posix_select os i es timeout = snd (posix_io_net_select os i es timeout)"

section \<open>What the port promises to the layer of the sockets\<close>

text \<open>
  What POSIX says of \<^verbatim>\<open>write\<close> and \<^verbatim>\<open>read\<close> on a socket: a write of some bytes takes at least one of them or fails, and not more bytes are
  counted or read than were asked for.
\<close>

definition posix_io_ok :: "posix_sockets \<Rightarrow> bool" where
  "posix_io_ok os \<longleftrightarrow>
     (\<forall>i fd bs. length bs < 2 ^ 31 \<longrightarrow> bs \<noteq> [] \<longrightarrow> - 1 \<le> fst (sk_write os i fd bs) \<and> fst (sk_write os i fd bs) \<noteq> 0
        \<and> fst (sk_write os i fd bs) \<le> int (length bs))
   \<and> (\<forall>i fd n r bs e. sk_read os i fd n = (r, bs, e) \<longrightarrow> length bs \<le> n)"

lemma posix_reads_ok: "posix_io_ok os \<Longrightarrow> reads_ok (posix_world os)"
  unfolding reads_ok_def posix_world_def posix_io_net_read_def
  by (auto simp: posix_io_ok_def Let_def split: prod.splits if_splits) (metis le_trans min.cobounded1)

lemma posix_write_takes:
  assumes "posix_io_ok os" and "bs \<noteq> []" and "length bs < 2 ^ 31" and "posix_io_net_write os i fd bs = (IOTC_BSP_IO_NET_STATE_OK, n)"
  shows "0 < n \<and> n \<le> int (length bs)"
proof -
  obtain r e where w: "sk_write os i fd bs = (r, e)" by fastforce
  with assms(1-3) have r: "- 1 \<le> r" "r \<noteq> 0" "r \<le> int (length bs)" by (auto simp: posix_io_ok_def) (metis fst_conv)+
  then have "to_int32 r = r" using assms(3) by (simp add: to_int32_def)
  with assms(4) w r show ?thesis
    by (auto simp: posix_io_net_write_def io_net_failure_def Let_def split: option.splits if_splits)
qed

text \<open>
  A connection attempt whose addresses are all of the internet families, and whose sockets can all be made non-blocking, releases the list of addresses and
  returns either OK with one more open socket, which is the one that it stores, or an error with none.
\<close>

theorem posix_connect_resources:
  assumes "\<And>fs. sk_getaddrinfo os i host = Some fs \<Longrightarrow> set fs \<subseteq> {AF_INET, AF_INET6}" and "\<And>fd. sk_set_nonblocking os i fd \<noteq> - 1"
    and "posix_io_net_socket_connect os i host port sock opened = (st, fd, opened', released)"
  shows "released \<and> (st = IOTC_BSP_IO_NET_STATE_OK \<and> fd \<noteq> - 1 \<and> opened' = fd # opened \<or> st = IOTC_BSP_IO_NET_STATE_ERROR \<and> opened' = opened)"
proof -
  have "released \<and> (st = IOTC_BSP_IO_NET_STATE_OK \<and> fd \<noteq> - 1 \<and> opened' = fd # opened \<or> st = IOTC_BSP_IO_NET_STATE_ERROR \<and> opened' = opened)"
    if "set fs \<subseteq> {AF_INET, AF_INET6}" "connect_loop os i port k fs sock opened = (st, fd, opened', released)" for k fs
    using that assms(2)
    by (induction fs arbitrary: k sock) (auto simp: Let_def split: if_splits prod.splits, blast+)
  with assms(1,3) show ?thesis by (auto simp: posix_io_net_socket_connect_def split: option.splits)
qed


text \<open>An address of another family leaves its socket open and the list of addresses unreleased.\<close>

lemma posix_connect_leaks:
  assumes "sk_getaddrinfo os i host = Some [AF_other f]" and "sk_socket os i 0 = fd" and "fd \<noteq> - 1" and "sk_set_nonblocking os i fd \<noteq> - 1"
  shows "posix_io_net_socket_connect os i host port sock opened = (IOTC_BSP_IO_NET_STATE_ERROR, fd, fd # opened, False)"
  using assms by (simp add: posix_io_net_socket_connect_def Let_def)

text \<open>The writes of a layer are below 2 GiB, and a socket of the process is below the size of a set until 1024 files are open.\<close>

lemma posix_select_in_bounds:
  "\<forall>e\<in>set es. 0 \<le> iotc_socket e \<and> iotc_socket e < FD_SETSIZE \<Longrightarrow> \<not> fst (posix_io_net_select os i es timeout)"
  by (auto simp: posix_io_net_select_def Let_def want_read_set_def want_write_set_def want_error_set_def split: prod.splits)

definition example_sockets :: posix_sockets where
  "example_sockets = \<lparr>sk_getaddrinfo = (\<lambda>i h. Some [AF_INET6, AF_INET]), sk_socket = (\<lambda>i k. 5 + int k), sk_set_nonblocking = (\<lambda>i fd. 0),
     sk_connect = (\<lambda>i fd port. if fd = 5 then (- 1, Socket_errno 1) else (- 1, EINPROGRESS)), sk_so_error = (\<lambda>i fd. Some 0),
     sk_write = (\<lambda>i fd bs. (int (length bs), Socket_errno 0)), sk_read = (\<lambda>i fd n. (- 1, [], EAGAIN)),
     sk_select = (\<lambda>i r w x t. (1, r, [], []))\<rparr>"

theorem posix_connect_resources_witness:
  "posix_io_net_socket_connect example_sockets 0 None 8883 0 [] = (IOTC_BSP_IO_NET_STATE_OK, 6, [6], True)"
proof -
  obtain st fd opened' released where c: "posix_io_net_socket_connect example_sockets 0 None 8883 0 [] = (st, fd, opened', released)" by (metis surj_pair)
  have "released \<and> (st = IOTC_BSP_IO_NET_STATE_OK \<and> fd \<noteq> - 1 \<and> opened' = fd # [] \<or> st = IOTC_BSP_IO_NET_STATE_ERROR \<and> opened' = [])"
    by (rule posix_connect_resources [OF _ _ c]) (simp_all add: example_sockets_def)
  moreover have "st = IOTC_BSP_IO_NET_STATE_OK" "fd = 6" using c by (simp_all add: posix_io_net_socket_connect_def example_sockets_def Let_def)
  ultimately show ?thesis using c by simp
qed


end
