(* ===== verification/Spec2Isabelle.thy ===== *)
theory Spec2Isabelle
  imports Iotc_Handle Iotc_Timed_Task Iotc_Mqtt_Connect Iotc_Mqtt_Receive Iotc_Event_Loop Iotc_Tls_Close
    Iotc_Memory_Limiter Iotc_Api_Use Iotc_Jwt Iotc_Tls_Ports
    Iotc_Bsp_Posix Iotc_Bsp_Posix_Net
begin

text \<open>
  Verification of the Google Cloud IoT Device SDK for Embedded C.

  \<^bold>\<open>The program.\<close> A device keeps one connection to an MQTT server. The application calls the API of
  \<^verbatim>\<open>src/libiotc/iotc.c\<close>; everything else runs on one thread, in the steps of an event dispatcher that holds a
  queue of calls, a queue of delayed calls and a table of sockets. A connection is a chain of layers
  (\<^verbatim>\<open>io\<close>, \<^verbatim>\<open>tls\<close>, \<^verbatim>\<open>mqtt codec\<close>, \<^verbatim>\<open>mqtt logic\<close>, \<^verbatim>\<open>control topic\<close>); a layer never calls a neighbour directly but queues the
  call in the dispatcher. The layers are coroutines that are entered again with the
  answer to their last call.

  \<^bold>\<open>Theories\<close>, in the order of their imports; file names are relative to \<^verbatim>\<open>src/libiotc\<close>.

  \<^item> \<^verbatim>\<open>Iotc_Prelude\<close>: integers of fixed width as functions of \<open>int\<close> and \<open>nat\<close>, pointers, collections of rewrite rules.
    \<^verbatim>\<open>Iotc_Error\<close>: the state codes. \<^verbatim>\<open>Iotc_Mem\<close>: the heap, as the map of live blocks to their sizes with an oracle that
    says which request is granted and a flag for undefined behaviour (\<^verbatim>\<open>memory/iotc_allocator.c\<close>, the posix port).
    \<^verbatim>\<open>Iotc_Helpers\<close>: strings and bits (\<^verbatim>\<open>iotc_helpers.c\<close>).
  \<^item> \<^verbatim>\<open>Iotc_List\<close>, \<^verbatim>\<open>Iotc_Vector\<close>, \<^verbatim>\<open>Iotc_Handle\<close>, \<^verbatim>\<open>Iotc_Data_Desc\<close>: the containers. Lists are chains of nodes in a store of
    next pointers and every macro is proved to do on them what the function on lists does; vectors have the
    \<^verbatim>\<open>int8_t\<close> capacity of the code, which bounds them by 64 elements; buffers have their 32 bit counters.
  \<^item> \<^verbatim>\<open>Iotc_Time_Event\<close>, \<^verbatim>\<open>Iotc_Event_Handle\<close>, \<^verbatim>\<open>Iotc_Dispatcher\<close>: the queue of delayed calls as a stable sorted
    sequence, the handles, and the dispatcher with its lock. A callback is a function of the model's state.
    \<^verbatim>\<open>Iotc_Backoff\<close>, \<^verbatim>\<open>Iotc_Timed_Task\<close>: the two clients of delayed calls.
  \<^item> \<^verbatim>\<open>Iotc_Layer\<close>: the chain of layers, the queueing of calls and the state of a layer (\<^verbatim>\<open>iotc_layer_api.c\<close>,
    \<^verbatim>\<open>iotc_io_timeouts.c\<close>); the interface \<open>call_poster\<close> is what a layer relies on.
  \<^item> \<^verbatim>\<open>Iotc_Mqtt_Message\<close>, \<^verbatim>\<open>Iotc_Connection_Data\<close>: messages and their ownership, matching of topics, the data of a connection.
  \<^item> \<^verbatim>\<open>Iotc_Mqtt_Data\<close>, \<^verbatim>\<open>Iotc_Mqtt_Task\<close>, \<^verbatim>\<open>Iotc_Mqtt_Logic\<close>: the logic layer: its data, the coroutines of its tasks
    and the functions of the layer (\<^verbatim>\<open>mqtt/logic\<close>). \<^verbatim>\<open>Iotc_Mqtt_Fuel\<close> shows that the recursion of the coroutines ends,
    \<^verbatim>\<open>Iotc_Mqtt_Ids\<close> treats the message identifiers, \<^verbatim>\<open>Iotc_Mqtt_Session\<close> a session that is continued. \<^verbatim>\<open>Iotc_Mqtt_Heap\<close>
    says who owns which block, and with it \<^verbatim>\<open>Iotc_Mqtt_Publish\<close>, \<^verbatim>\<open>Iotc_Mqtt_Connect\<close> and \<^verbatim>\<open>Iotc_Mqtt_Receive\<close> prove what
    the answers of the server do.
  \<^item> \<^verbatim>\<open>Iotc_Mqtt_Serialiser\<close>, \<^verbatim>\<open>Iotc_Mqtt_Parser\<close>: what is on the wire (\<^verbatim>\<open>src/third_party/mqtt-protocol-c\<close>). \<^verbatim>\<open>Iotc_Mqtt_Chunks\<close>
    is a calculus for a parser that is fed in chunks, \<^verbatim>\<open>Iotc_Mqtt_Roundtrip\<close> the round trip.
  \<^item> \<^verbatim>\<open>Iotc_Mqtt_Codec\<close>: the codec layer (\<^verbatim>\<open>mqtt/codec\<close>). Its loop over a buffer is a partial function;
    \<^verbatim>\<open>Iotc_Mqtt_Progress\<close> shows that the parser takes a byte whenever it is called with one, so that the loop ends, and
    \<^verbatim>\<open>Iotc_Mqtt_Codec_Pull\<close> what it delivers. \<^verbatim>\<open>Iotc_Mqtt_Codec_Push\<close> relates the sending side to a queue of messages.
  \<^item> \<^verbatim>\<open>Iotc_Io_Net\<close>: the layer of the sockets (\<^verbatim>\<open>io/net\<close>) over a platform that answers its calls one after the other. The write
    loop is a partial function, which returns if every successful write takes something and does not if it takes nothing.
    \<^verbatim>\<open>Iotc_Event_Loop\<close>: the loop that waits for sockets and drives the dispatchers (\<^verbatim>\<open>event_loop\<close>), with the order in which
    a round runs what is due. \<^verbatim>\<open>Iotc_Bsp_Net\<close> has the types of the interface of the platform.
  \<^item> \<^verbatim>\<open>Iotc_Fs\<close>: the table of functions of a file system, the one whose files are compiled in and the one of a platform
    (\<^verbatim>\<open>io/fs\<close>); \<open>readable_files\<close> is the contract that a reader relies on. \<^verbatim>\<open>Iotc_Resource_Manager\<close>: opening, reading and
    closing as coroutines on the dispatcher; \<^verbatim>\<open>Iotc_Resource_Read\<close> what a read collects.
  \<^item> \<^verbatim>\<open>Iotc_Tls\<close>: the TLS layer (\<^verbatim>\<open>tls\<close>). The library is a parameter: a call of it is a finite tree of
    the callbacks that it makes. \<^verbatim>\<open>Iotc_Tls_Channel\<close> shows that the layer is a channel for every library,
    \<^verbatim>\<open>Iotc_Tls_Handlers\<close> what its handlers do with the answers, \<^verbatim>\<open>Iotc_Tls_Close\<close> how it gets its certificates and what closing releases.
    \<^verbatim>\<open>Iotc_Tls_Ports\<close>: the ports to mbedtls and wolfssl (\<^verbatim>\<open>src/bsp/tls\<close>), with the contract \<open>registered_io\<close> of the functions that
    they register, by which a library sees a socket that does not block.
  \<^item> \<^verbatim>\<open>Iotc_Bsp_Posix\<close>, \<^verbatim>\<open>Iotc_Bsp_Posix_Net\<close>: the files and sockets of POSIX (\<^verbatim>\<open>src/bsp/platform/posix\<close>), as instances of
    the platform that the file system, the layer of the sockets and the event loop are given.
  \<^item> \<^verbatim>\<open>Iotc_Context\<close>: the contexts, their table of handles, the layers of a context and the global data with its
    count of references (\<^verbatim>\<open>iotc.c\<close>, \<^verbatim>\<open>iotc_layer_chain.h\<close>, \<^verbatim>\<open>iotc_layer_factory.h\<close>); \<^verbatim>\<open>Iotc_Context_Life\<close> proves that
    a context that is created and deleted again leaves the heap as it was.
  \<^item> \<^verbatim>\<open>Iotc_Api\<close>: what the application calls (\<^verbatim>\<open>iotc.c\<close>), the top layer that reports to it
    (\<^verbatim>\<open>control_topic\<close>) and the wrapper that hands it a message (\<^verbatim>\<open>iotc_user_sub_call_wrapper.c\<close>). \<^verbatim>\<open>Iotc_Api_Use\<close> shows
    what connecting, publishing, closing and receiving do to the dispatcher and the heap.
  \<^item> \<^verbatim>\<open>Iotc_Memory_Limiter\<close>: the accounting of the debug build, with the list of headers (\<^verbatim>\<open>debug_extensions/memory_limiter\<close>).
    \<^verbatim>\<open>Iotc_Jwt\<close>: the tokens of a device (\<^verbatim>\<open>iotc_jwt.c\<close>) and the ports of the cryptography; an encoding is described by the
    contract \<open>encodes\<close>, which the ports are proved to keep when their libraries keep theirs.

  \<^bold>\<open>What is shown.\<close> Functional correctness of the containers against lists, with every refusal of memory; the order in
  which the dispatcher runs calls; that each operation returns with the lock free; that the calls of a layer
  refine an automaton of its states; that messages and sessions survive reconnects; that an acknowledgement
  releases exactly the blocks of its task; that the parser reads what the serialiser writes under
  every fragmentation. Where the code has a bug the theorem states the behaviour it has.

  \<^bold>\<open>Conventions.\<close> A pointer is a number and \<open>NULL\<close> is 0. What is in a block is kept by the component that owns it, in a
  function of addresses; the heap says which blocks are live. Freeing a block that is not live and writing
  to a task that is not live set the flag for undefined behaviour, reading one does not. Assertions are not
  executed. The tasks of the logic layer are lists of nodes. The contexts are in a store of the API; the data of the layers are those of
  the context that runs. The
  recursion of the tasks' coroutines has fuel, one more than the length of the queue, and
  \<open>task_recursion_terminates\<close> shows that this is enough. Other loops are total functions with a proof of termination.

  \<^bold>\<open>Not modelled\<close>, and why.

  \<^item> Of the ports of the platforms (\<^verbatim>\<open>src/bsp/platform\<close>) the clocks and the random numbers, which forward to the operating system or a
    library: the clock is a parameter of the steps of the dispatcher. The ports to zephyr and freertos are variants of the one to POSIX.
  \<^item> The threads of the worker pool: the default build runs on one thread, and a pool only moves a call to another one.
  \<^item> The list of root certificates is data. Logging, the dumps for debugging, tests, examples and tools have no part in what the
    program does.
\<close>

end
